(* ===== verification/Forge_Prelude.thy ===== *)
theory Forge_Prelude
  imports Main "HOL-Library.Word"
begin

text \<open>
  Shared vocabulary of the development: the machine integer types of the C++ sources, the parts
  of the C++ standard library the modelled code calls (\<open>std::from_chars\<close>, \<open>std::to_string\<close>,
  bounds-checked \<open>vector::at\<close>, \<open>emplace\<close> into a map), little-endian byte strings, and the generic
  list, option and word lemmas the component theories share. The collections \<open>byte_simps\<close> and
  \<open>reader_simps\<close> carry the encode/decode proofs, \<open>interp_simps\<close> the interpreter's.
\<close>

unbundle bit_operations_syntax

named_theorems byte_simps "lengths and inverses of byte encodings"
named_theorems reader_simps "what a reader returns on what the matching writer wrote"
named_theorems interp_simps "unfolding of the interpreter's monad"

type_synonym u8 = "8 word"
type_synonym u16 = "16 word"
type_synonym u32 = "32 word"
type_synonym u64 = "64 word"

section \<open>Options, lists and maps\<close>

text \<open>\<open>vector::at\<close>: the element, or nothing where C++ raises \<open>std::out_of_range\<close>.\<close>

definition list_at :: "'a list \<Rightarrow> nat \<Rightarrow> 'a option" where
  "list_at xs i = (if i < length xs then Some (xs ! i) else None)"

lemma list_at_simps [simp]:
  "list_at [] i = None"
  "list_at (x # xs) 0 = Some x"
  "list_at (x # xs) (Suc i) = list_at xs i"
  by (simp_all add: list_at_def)

lemma list_at_Some_iff: "list_at xs i = Some x \<longleftrightarrow> i < length xs \<and> xs ! i = x"
  by (auto simp: list_at_def)

text \<open>\<open>unordered_map::emplace\<close>: a key that is present keeps its value.\<close>

definition map_emplace :: "('k \<rightharpoonup> 'v) \<Rightarrow> 'k \<Rightarrow> 'v \<Rightarrow> ('k \<rightharpoonup> 'v)" where
  "map_emplace m k v = (case m k of None \<Rightarrow> m(k \<mapsto> v) | Some _ \<Rightarrow> m)"

lemma map_emplace_apply:
  "map_emplace m k v x = (if x = k \<and> m k = None then Some v else m x)"
  by (simp add: map_emplace_def split: option.splits)

lemma dom_map_emplace [simp]: "dom (map_emplace m k v) = insert k (dom m)"
  by (auto simp: map_emplace_apply dom_def)

text \<open>Replacing a subspan of a list in place, as \<open>memcpy\<close> into a buffer does.\<close>

definition splice :: "'a list \<Rightarrow> nat \<Rightarrow> 'a list \<Rightarrow> 'a list" where
  "splice xs off ys = take off xs @ ys @ drop (off + length ys) xs"

definition subspan :: "'a list \<Rightarrow> nat \<Rightarrow> nat \<Rightarrow> 'a list" where
  "subspan xs off n = take n (drop off xs)"

lemma length_splice [simp]: "off + length ys \<le> length xs \<Longrightarrow> length (splice xs off ys) = length xs"
  by (simp add: splice_def)

lemma length_subspan [simp]: "off + n \<le> length xs \<Longrightarrow> length (subspan xs off n) = n"
  by (simp add: subspan_def)

lemma subspan_splice_same:
  "off + length ys \<le> length xs \<Longrightarrow> subspan (splice xs off ys) off (length ys) = ys"
  by (simp add: subspan_def splice_def)

lemma nth_splice:
  "off + length ys \<le> length xs \<Longrightarrow> i < length xs \<Longrightarrow>
   splice xs off ys ! i = (if off \<le> i \<and> i < off + length ys then ys ! (i - off) else xs ! i)"
  by (auto simp: splice_def nth_append min_def)

lemma nth_subspan: "off + n \<le> length xs \<Longrightarrow> i < n \<Longrightarrow> subspan xs off n ! i = xs ! (off + i)"
  by (simp add: subspan_def)

lemma subspan_splice_disjoint:
  assumes "off + length ys \<le> length xs" and "o' + n \<le> length xs"
    and "o' + n \<le> off \<or> off + length ys \<le> o'"
  shows "subspan (splice xs off ys) o' n = subspan xs o' n"
  using assms by (intro nth_equalityI) (auto simp: nth_subspan nth_splice)

lemma find_Some_in: "find P xs = Some x \<Longrightarrow> x \<in> set xs \<and> P x"
  by (auto simp: find_Some_iff)

section \<open>Decimal integers: \<open>std::from_chars\<close> and \<open>std::to_string\<close>\<close>

definition isdigit :: "char \<Rightarrow> bool" where
  "isdigit c \<longleftrightarrow> 48 \<le> (of_char c :: nat) \<and> (of_char c :: nat) \<le> 57"

definition isalpha :: "char \<Rightarrow> bool" where
  "isalpha c \<longleftrightarrow> (let n = of_char c :: nat in 65 \<le> n \<and> n \<le> 90 \<or> 97 \<le> n \<and> n \<le> 122)"

definition isalnum :: "char \<Rightarrow> bool" where
  "isalnum c \<longleftrightarrow> isalpha c \<or> isdigit c"

definition digit_value :: "char \<Rightarrow> nat" where
  "digit_value c = of_char c - 48"

definition digits_value :: "string \<Rightarrow> nat" where
  "digits_value ds = foldl (\<lambda>a d. 10 * a + digit_value d) 0 ds"

text \<open>
  \<open>std::from_chars\<close> in base 10: an optional minus sign (signed targets only; no plus sign and no
  white space), the longest run of digits, at least one digit, and \<open>result_out_of_range\<close> when the
  value does not fit. The result is the value and the unconsumed text.
\<close>

definition from_chars_i64 :: "string \<Rightarrow> (int \<times> string) option" where
  "from_chars_i64 s =
     (let neg = (s \<noteq> [] \<and> hd s = CHR ''-''); r = (if neg then tl s else s);
          ds = takeWhile isdigit r;
          v = (if neg then - int (digits_value ds) else int (digits_value ds))
      in if ds = [] \<or> v < - (2 ^ 63) \<or> 2 ^ 63 \<le> v then None
         else Some (v, dropWhile isdigit r))"

definition from_chars_u64 :: "string \<Rightarrow> (nat \<times> string) option" where
  "from_chars_u64 s =
     (let ds = takeWhile isdigit s
      in if ds = [] \<or> 2 ^ 64 \<le> digits_value ds then None
         else Some (digits_value ds, dropWhile isdigit s))"

text \<open>
  The idiom \<open>error == errc{} \<and> end == text.data() + text.size()\<close> of the interpreter, the analyses
  and the scalar passes: the whole text must be one integer.
\<close>

definition parse_int64 :: "string \<Rightarrow> int option" where
  "parse_int64 s = (case from_chars_i64 s of Some (v, []) \<Rightarrow> Some v | _ \<Rightarrow> None)"

definition digit_char :: "nat \<Rightarrow> char" where
  "digit_char d = char_of (48 + d)"

fun to_string_nat :: "nat \<Rightarrow> string" where
  "to_string_nat n = (if n < 10 then [digit_char n] else to_string_nat (n div 10) @ [digit_char (n mod 10)])"

declare to_string_nat.simps [simp del]

definition to_string_int :: "int \<Rightarrow> string" where
  "to_string_int v = (if v < 0 then CHR ''-'' # to_string_nat (nat (- v)) else to_string_nat (nat v))"

lemma of_char_digit_char: "d < 10 \<Longrightarrow> (of_char (digit_char d) :: nat) = 48 + d"
  by (simp add: digit_char_def of_char_of)

lemma isdigit_digit_char [simp]: "d < 10 \<Longrightarrow> isdigit (digit_char d)"
  by (simp add: isdigit_def of_char_digit_char)

lemma digit_value_digit_char [simp]: "d < 10 \<Longrightarrow> digit_value (digit_char d) = d"
  by (simp add: digit_value_def of_char_digit_char)

lemma digits_value_snoc: "digits_value (ds @ [d]) = 10 * digits_value ds + digit_value d"
  by (simp add: digits_value_def)

lemma to_string_nat_digits:
  "to_string_nat n \<noteq> [] \<and> (\<forall>c \<in> set (to_string_nat n). isdigit c) \<and> digits_value (to_string_nat n) = n"
proof (induction n rule: to_string_nat.induct)
  case (1 n)
  show ?case
  proof (cases "n < 10")
    case True
    then show ?thesis by (subst (1 2 3) to_string_nat.simps) (simp add: digits_value_def)
  next
    case False
    with "1.IH" show ?thesis
      by (subst (1 2 3) to_string_nat.simps) (auto simp: digits_value_snoc)
  qed
qed

lemma to_string_nat_nonempty [simp]: "to_string_nat n \<noteq> []"
  and to_string_nat_isdigit: "c \<in> set (to_string_nat n) \<Longrightarrow> isdigit c"
  and digits_value_to_string [simp]: "digits_value (to_string_nat n) = n"
  using to_string_nat_digits [of n] by auto

lemma takeWhile_isdigit_to_string [simp]: "takeWhile isdigit (to_string_nat n) = to_string_nat n"
  by (simp add: takeWhile_eq_all_conv to_string_nat_isdigit)

lemma dropWhile_isdigit_to_string [simp]: "dropWhile isdigit (to_string_nat n) = []"
  by (simp add: to_string_nat_isdigit)

lemma not_isdigit_minus [simp]: "\<not> isdigit CHR ''-''"
  by (simp add: isdigit_def)

lemma hd_to_string_nat_not_minus: "hd (to_string_nat n) \<noteq> CHR ''-''"
  using to_string_nat_isdigit [of "hd (to_string_nat n)" n] by (auto simp: isdigit_def)

text \<open>Printing an integer and parsing the text gives the integer back.\<close>

lemma parse_int64_to_string:
  assumes "- (2 ^ 63) \<le> v" and "v < 2 ^ 63"
  shows "parse_int64 (to_string_int v) = Some v"
proof -
  have "nat (- v) \<le> 2 ^ 63" and "nat v < 2 ^ 63" using assms by simp_all
  then show ?thesis using hd_to_string_nat_not_minus [of "nat v"]
    by (simp add: parse_int64_def from_chars_i64_def to_string_int_def Let_def)
qed

lemma parse_int64_range: "parse_int64 s = Some v \<Longrightarrow> - (2 ^ 63) \<le> v \<and> v < 2 ^ 63"
  by (auto simp: parse_int64_def from_chars_i64_def Let_def split: option.splits list.splits if_splits)

section \<open>Words as natural numbers\<close>

lemma unat_less_2p: "unat (w :: 'a::len word) < 2 ^ LENGTH('a)"
  by (rule unsigned_less)

lemma unat_2p: "k < LENGTH('a) \<Longrightarrow> unat (2 ^ k :: 'a::len word) = 2 ^ k"
  using unat_of_nat [of "2 ^ k", where ?'a = 'a] by simp

lemma unat_max_word: "unat (- 1 :: 'a::len word) = 2 ^ LENGTH('a) - 1"
  by (simp add: unsigned_minus_1_eq_mask mask_nat_def)

lemma unat_eqI: "unat v = unat w \<Longrightarrow> v = w"
  by (simp add: word_unat_eq_iff)

lemma unat_add_no_wrap: "unat v + unat w < 2 ^ LENGTH('a) \<Longrightarrow> unat (v + w) = unat v + unat (w :: 'a::len word)"
  using unat_add_lem by blast

lemma unat_mult_no_wrap: "unat v * unat w < 2 ^ LENGTH('a) \<Longrightarrow> unat (v * w) = unat v * unat (w :: 'a::len word)"
  using unat_mult_lem by blast

lemma unat_ucast_up:
  "LENGTH('a) \<le> LENGTH('b) \<Longrightarrow> unat (ucast (w :: 'a::len word) :: 'b::len word) = unat w"
proof -
  assume "LENGTH('a) \<le> LENGTH('b)"
  then have "(2::nat) ^ LENGTH('a) \<le> 2 ^ LENGTH('b)" by (rule power_increasing) simp
  then have "unat w < 2 ^ LENGTH('b)" using unat_less_2p [of w] by linarith
  then show ?thesis by (simp add: unsigned_ucast_eq take_bit_nat_eq_self)
qed

text \<open>\<open>s > max - o\<close> is the overflow test of \<open>o + s\<close>.\<close>

lemma gt_max_minus_iff: "s > - 1 - o' \<longleftrightarrow> \<not> unat o' + unat s < 2 ^ LENGTH('a)" for o' :: "'a::len word"
proof -
  have "unat (- 1 - o' :: 'a word) = 2 ^ LENGTH('a) - 1 - unat o'"
    by (subst unat_sub) (simp_all add: unat_max_word)
  then show ?thesis using unat_less_2p [of o'] by (simp only: word_less_nat_alt) linarith
qed

section \<open>Little-endian bytes\<close>

text \<open>\<open>n\<close> bytes of a word, least significant first; and the word they spell.\<close>

primrec le_bytes :: "nat \<Rightarrow> 'a::len word \<Rightarrow> u8 list" where
  "le_bytes 0 w = []"
| "le_bytes (Suc n) w = ucast w # le_bytes n (drop_bit 8 w)"

primrec le_word :: "u8 list \<Rightarrow> 'a::len word" where
  "le_word [] = 0"
| "le_word (b # bs) = ucast b OR push_bit 8 (le_word bs)"

lemma length_le_bytes [simp, byte_simps]: "length (le_bytes n w) = n"
  by (induction n arbitrary: w) auto

lemma bit_le_word:
  "bit (le_word bs :: 'a::len word) i \<longleftrightarrow>
     i < LENGTH('a) \<and> i < 8 * length bs \<and> bit (bs ! (i div 8)) (i mod 8)"
proof (induction bs arbitrary: i)
  case Nil
  then show ?case by simp
next
  case (Cons b bs)
  show ?case
  proof (cases "i < 8")
    case True
    then show ?thesis by (auto simp: bit_simps)
  next
    case False
    then obtain j where j: "i = 8 + j" using le_Suc_ex not_less by blast
    then have "i div 8 = Suc (j div 8)" and "i mod 8 = j mod 8" by simp_all
    with j show ?thesis by (auto simp: bit_simps Cons.IH dest: bit_imp_le_length)
  qed
qed

lemma nth_le_bytes: "k < n \<Longrightarrow> le_bytes n w ! k = ucast (drop_bit (8 * k) w)"
proof (induction n arbitrary: k w)
  case 0
  then show ?case by simp
next
  case (Suc n)
  then show ?case by (cases k) (auto simp: ac_simps)
qed

lemma le_word_le_bytes [byte_simps]:
  assumes "LENGTH('a) \<le> 8 * n"
  shows "(le_word (le_bytes n (w :: 'a::len word)) :: 'a word) = w"
proof (rule bit_word_eqI)
  fix i assume i: "i < LENGTH('a)"
  then have k: "i div 8 < n" using assms by linarith
  have "bit (le_bytes n w ! (i div 8)) (i mod 8) \<longleftrightarrow> bit w i"
    using i by (simp add: nth_le_bytes [OF k] bit_simps)
  then show "bit (le_word (le_bytes n w) :: 'a word) i \<longleftrightarrow> bit w i"
    using i assms by (simp add: bit_le_word)
qed

lemma le_bytes_le_word [byte_simps]:
  assumes "8 * length bs \<le> LENGTH('a)"
  shows "le_bytes (length bs) (le_word bs :: 'a::len word) = bs"
proof (rule nth_equalityI)
  show "length (le_bytes (length bs) (le_word bs :: 'a word)) = length bs" by simp
next
  fix k assume "k < length (le_bytes (length bs) (le_word bs :: 'a word))"
  then have k: "k < length bs" by simp
  show "le_bytes (length bs) (le_word bs :: 'a word) ! k = bs ! k"
  proof (rule bit_word_eqI)
    fix i assume "i < LENGTH(8)"
    then have i: "i < 8" by simp
    have "8 * k + i < 8 * length bs" using i k by linarith
    moreover have "(8 * k + i) div 8 = k" and "(8 * k + i) mod 8 = i" using i by auto
    ultimately show "bit (le_bytes (length bs) (le_word bs :: 'a word) ! k) i \<longleftrightarrow> bit (bs ! k) i"
      using i assms by (simp add: nth_le_bytes [OF k] bit_simps bit_le_word)
  qed
qed

end
