(* ===== verification/IR_Module.thy ===== *)
theory IR_Module
  imports Forge_Prelude
begin

text \<open>
  The Forge IR data model: \<open>Type\<close> (\<open>forge/include/forge/ir/type.hpp\<close>, \<open>forge/src/ir/module.cpp\<close>),
  \<open>Opcode\<close> (\<open>opcode.hpp\<close>) and the module tree (\<open>module.hpp\<close>). A \<open>std::string\<close> is a list of bytes
  (\<open>string\<close>), a \<open>std::vector\<close> a list, a \<open>uint32_t\<close> field a 32-bit word. The class \<open>Type\<close> wraps one
  \<open>TypeKind\<close> and is that kind here.
\<close>

section \<open>Diagnostics\<close>

datatype diagnostic_severity = Severity_note | Severity_warning | Severity_error

record source_range =
  sr_begin :: u64
  sr_end :: u64

record diagnostic =
  dg_severity :: diagnostic_severity
  dg_message :: string
  dg_range :: source_range
  dg_source_file :: string
  dg_source_line :: u64
  dg_source_column :: u64
  dg_source_end_line :: u64
  dg_source_end_column :: u64

type_synonym diagnostics = "diagnostic list"

text \<open>\<open>Diagnostic{DiagnosticSeverity::error, message, {}}\<close>\<close>

definition error_diagnostic :: "string \<Rightarrow> diagnostic" where
  "error_diagnostic message = \<lparr>dg_severity = Severity_error, dg_message = message,
     dg_range = \<lparr>sr_begin = 0, sr_end = 0\<rparr>, dg_source_file = [], dg_source_line = 0,
     dg_source_column = 0, dg_source_end_line = 0, dg_source_end_column = 0\<rparr>"

section \<open>Types\<close>

datatype type_kind = TK_void | TK_i1 | TK_i8 | TK_i16 | TK_i32 | TK_i64 | TK_f32 | TK_f64 | TK_ptr

type_synonym ir_type = type_kind

text \<open>The underlying \<open>uint8_t\<close> of the enumerators, in declaration order.\<close>

fun type_tag :: "type_kind \<Rightarrow> nat" where
  "type_tag TK_void = 0"
| "type_tag TK_i1 = 1"
| "type_tag TK_i8 = 2"
| "type_tag TK_i16 = 3"
| "type_tag TK_i32 = 4"
| "type_tag TK_i64 = 5"
| "type_tag TK_f32 = 6"
| "type_tag TK_f64 = 7"
| "type_tag TK_ptr = 8"

definition is_integer :: "ir_type \<Rightarrow> bool" where
  "is_integer t \<longleftrightarrow> type_tag TK_i1 \<le> type_tag t \<and> type_tag t \<le> type_tag TK_i64"

definition is_float :: "ir_type \<Rightarrow> bool" where
  "is_float t \<longleftrightarrow> t = TK_f32 \<or> t = TK_f64"

definition is_numeric :: "ir_type \<Rightarrow> bool" where
  "is_numeric t \<longleftrightarrow> is_integer t \<or> is_float t"

fun type_str :: "ir_type \<Rightarrow> string" where
  "type_str TK_void = ''void''"
| "type_str TK_i1 = ''i1''"
| "type_str TK_i8 = ''i8''"
| "type_str TK_i16 = ''i16''"
| "type_str TK_i32 = ''i32''"
| "type_str TK_i64 = ''i64''"
| "type_str TK_f32 = ''f32''"
| "type_str TK_f64 = ''f64''"
| "type_str TK_ptr = ''ptr''"

text \<open>\<open>None\<close> stands for the \<open>std::invalid_argument\<close> exception.\<close>

definition type_parse :: "string \<Rightarrow> ir_type option" where
  "type_parse text =
     (if text = ''void'' then Some TK_void
      else if text = ''i1'' then Some TK_i1
      else if text = ''i8'' then Some TK_i8
      else if text = ''i16'' then Some TK_i16
      else if text = ''i32'' then Some TK_i32
      else if text = ''i64'' then Some TK_i64
      else if text = ''f32'' then Some TK_f32
      else if text = ''f64'' then Some TK_f64
      else if text = ''ptr'' then Some TK_ptr
      else None)"

section \<open>Opcodes\<close>

datatype opcode =
    Op_constant | Op_add | Op_subtract | Op_multiply | Op_divide_signed | Op_divide_unsigned
  | Op_remainder_signed | Op_remainder_unsigned | Op_bit_and | Op_bit_or | Op_bit_xor
  | Op_shift_left | Op_shift_right_signed | Op_shift_right_unsigned
  | Op_compare_equal | Op_compare_not_equal | Op_compare_less_signed | Op_compare_less_unsigned
  | Op_compare_less_equal_signed | Op_compare_less_equal_unsigned
  | Op_copy | Op_load | Op_store | Op_stack_allocate | Op_pointer_offset
  | Op_call | Op_call_indirect | Op_jump | Op_branch | Op_return | Op_unreachable
  | Op_zero_extend | Op_sign_extend | Op_truncate | Op_bitcast
  | Op_int_to_float_signed | Op_int_to_float_unsigned
  | Op_float_to_int_signed | Op_float_to_int_unsigned
  | Op_float_extend | Op_float_truncate

fun opcode_name :: "opcode \<Rightarrow> string" where
  "opcode_name Op_constant = ''const''"
| "opcode_name Op_add = ''add''"
| "opcode_name Op_subtract = ''sub''"
| "opcode_name Op_multiply = ''mul''"
| "opcode_name Op_divide_signed = ''div.signed''"
| "opcode_name Op_divide_unsigned = ''div.unsigned''"
| "opcode_name Op_remainder_signed = ''rem.signed''"
| "opcode_name Op_remainder_unsigned = ''rem.unsigned''"
| "opcode_name Op_bit_and = ''and''"
| "opcode_name Op_bit_or = ''or''"
| "opcode_name Op_bit_xor = ''xor''"
| "opcode_name Op_shift_left = ''shl''"
| "opcode_name Op_shift_right_signed = ''shr.signed''"
| "opcode_name Op_shift_right_unsigned = ''shr.unsigned''"
| "opcode_name Op_compare_equal = ''cmp.eq''"
| "opcode_name Op_compare_not_equal = ''cmp.ne''"
| "opcode_name Op_compare_less_signed = ''cmp.lt''"
| "opcode_name Op_compare_less_unsigned = ''cmp.ult''"
| "opcode_name Op_compare_less_equal_signed = ''cmp.le''"
| "opcode_name Op_compare_less_equal_unsigned = ''cmp.ule''"
| "opcode_name Op_copy = ''copy''"
| "opcode_name Op_load = ''load''"
| "opcode_name Op_store = ''store''"
| "opcode_name Op_stack_allocate = ''stack.alloc''"
| "opcode_name Op_pointer_offset = ''ptr.offset''"
| "opcode_name Op_call = ''call''"
| "opcode_name Op_call_indirect = ''call.indirect''"
| "opcode_name Op_jump = ''jump''"
| "opcode_name Op_branch = ''branch''"
| "opcode_name Op_return = ''return''"
| "opcode_name Op_unreachable = ''unreachable''"
| "opcode_name Op_zero_extend = ''zero_extend''"
| "opcode_name Op_sign_extend = ''sign_extend''"
| "opcode_name Op_truncate = ''truncate''"
| "opcode_name Op_bitcast = ''bitcast''"
| "opcode_name Op_int_to_float_signed = ''int_to_float.signed''"
| "opcode_name Op_int_to_float_unsigned = ''int_to_float.unsigned''"
| "opcode_name Op_float_to_int_signed = ''float_to_int.signed''"
| "opcode_name Op_float_to_int_unsigned = ''float_to_int.unsigned''"
| "opcode_name Op_float_extend = ''float_extend''"
| "opcode_name Op_float_truncate = ''float_truncate''"

section \<open>The module tree\<close>

text \<open>
  \<open>AggregateRefKind\<close> has the underlying type \<open>uint8_t\<close>, and one place of the code casts an unchecked byte to
  it (the global reader of \<open>binary.cpp\<close>); \<open>ARK_other b\<close> with \<open>b > 2\<close> stands for those values.
\<close>

datatype aggregate_ref_kind = ARK_scalar | ARK_structure | ARK_array | ARK_other u8

datatype borrow_mode = BM_none | BM_immutable | BM_mutable
datatype calling_convention = CC_platform | CC_c | CC_system_v | CC_windows_x64 | CC_fast
datatype symbol_linkage = SL_external | SL_internal | SL_weak
datatype symbol_visibility = SV_default | SV_hidden

record value_decl =
  vd_name :: string
  vd_type :: ir_type
  vd_aggregate_kind :: aggregate_ref_kind
  vd_aggregate_name :: string
  vd_owned :: bool
  vd_borrow_mode :: borrow_mode
  vd_function_signature_name :: string

text \<open>The default member initialisers.\<close>

definition value_decl_init :: value_decl where
  "value_decl_init = \<lparr>vd_name = [], vd_type = TK_void, vd_aggregate_kind = ARK_scalar,
     vd_aggregate_name = [], vd_owned = False, vd_borrow_mode = BM_none,
     vd_function_signature_name = []\<rparr>"

definition vd_is_aggregate :: "value_decl \<Rightarrow> bool" where
  "vd_is_aggregate d \<longleftrightarrow> vd_aggregate_kind d \<noteq> ARK_scalar"

record struct_field =
  sf_name :: string
  sf_type :: ir_type
  sf_aggregate_kind :: aggregate_ref_kind
  sf_aggregate_name :: string

definition sf_is_aggregate :: "struct_field \<Rightarrow> bool" where
  "sf_is_aggregate f \<longleftrightarrow> sf_aggregate_kind f \<noteq> ARK_scalar"

record struct_decl =
  sd_name :: string
  sd_fields :: "struct_field list"
  sd_move_only :: bool

record array_decl =
  ad_name :: string
  ad_element_type :: ir_type
  ad_element_aggregate_kind :: aggregate_ref_kind
  ad_element_aggregate_name :: string
  ad_element_count :: u32
  ad_move_only :: bool

definition has_aggregate_elements :: "array_decl \<Rightarrow> bool" where
  "has_aggregate_elements a \<longleftrightarrow> ad_element_aggregate_kind a \<noteq> ARK_scalar"

record global_var =
  gv_name :: string
  gv_type :: ir_type
  gv_aggregate_kind :: aggregate_ref_kind
  gv_aggregate_name :: string
  gv_function_signature_name :: string
  gv_is_constant :: bool
  gv_is_external :: bool
  gv_is_thread_local :: bool
  gv_linkage :: symbol_linkage
  gv_visibility :: symbol_visibility
  gv_initializer :: string
  gv_element_count :: u32
  gv_alignment :: u32
  gv_zero_initialized :: bool
  gv_bytes :: "u8 list"

definition is_byte_array :: "global_var \<Rightarrow> bool" where
  "is_byte_array g \<longleftrightarrow> gv_aggregate_kind g = ARK_scalar \<and> gv_element_count g \<noteq> 1"

definition is_named_aggregate :: "global_var \<Rightarrow> bool" where
  "is_named_aggregate g \<longleftrightarrow> gv_aggregate_kind g \<noteq> ARK_scalar"

record ir_attribute =
  at_name :: string
  at_value :: string

record operation =
  op_result :: string
  op_opcode :: string
  op_type :: ir_type
  op_operands :: "string list"
  op_successors :: "string list"
  op_successor_arguments :: "string list list"
  op_alignment :: u32
  op_source_file :: string
  op_source_line :: u32
  op_source_column :: u32
  op_source_end_line :: u32
  op_source_end_column :: u32
  op_attributes :: "ir_attribute list"

definition is_terminator :: "operation \<Rightarrow> bool" where
  "is_terminator op \<longleftrightarrow>
     op_opcode op = ''return'' \<or> op_opcode op = ''jump'' \<or> op_opcode op = ''branch'' \<or>
     op_opcode op = ''unreachable''"

definition has_side_effects :: "operation \<Rightarrow> bool" where
  "has_side_effects op \<longleftrightarrow> is_terminator op \<or> op_opcode op \<in>
     {''store'', ''memory.copy'', ''memory.set'',
      ''aggregate.copy.struct'', ''aggregate.copy.array'',
      ''aggregate.move.struct'', ''aggregate.move.array'',
      ''aggregate.borrow.struct'', ''aggregate.borrow.array'',
      ''aggregate.borrow.mut.struct'', ''aggregate.borrow.mut.array'',
      ''aggregate.borrow.end.struct'', ''aggregate.borrow.end.array'',
      ''aggregate.end.struct'', ''aggregate.end.array'',
      ''aggregate.zero.struct'', ''aggregate.zero.array'', ''call'', ''call.indirect''}"

record ir_block =
  bl_name :: string
  bl_parameters :: "value_decl list"
  bl_operations :: "operation list"

record ir_function =
  fn_name :: string
  fn_is_external :: bool
  fn_is_signature :: bool
  fn_variadic :: bool
  fn_target_feature :: string
  fn_calling_convention :: calling_convention
  fn_linkage :: symbol_linkage
  fn_visibility :: symbol_visibility
  fn_return_type :: ir_type
  fn_return_aggregate_kind :: aggregate_ref_kind
  fn_return_aggregate_name :: string
  fn_return_owned :: bool
  fn_return_borrow_mode :: borrow_mode
  fn_return_borrow_parameter :: u32 \<comment> \<open>an \<open>int32_t\<close>, read with \<open>sint\<close>\<close>
  fn_parameters :: "value_decl list"
  fn_blocks :: "ir_block list"

definition returns_aggregate :: "ir_function \<Rightarrow> bool" where
  "returns_aggregate f \<longleftrightarrow> fn_return_aggregate_kind f \<noteq> ARK_scalar"

record ir_module =
  md_name :: string
  md_structs :: "struct_decl list"
  md_arrays :: "array_decl list"
  md_globals :: "global_var list"
  md_functions :: "ir_function list"
  md_metadata :: "ir_attribute list"

text \<open>\<open>Module(std::string name)\<close>: a module of that name with nothing in it.\<close>

definition ir_module_init :: "string \<Rightarrow> ir_module" where
  "ir_module_init name = \<lparr>md_name = name, md_structs = [], md_arrays = [], md_globals = [],
     md_functions = [], md_metadata = []\<rparr>"

section \<open>Facts about types and opcodes\<close>

lemma type_parse_str [simp]: "type_parse (type_str t) = Some t"
  by (cases t) (simp_all add: type_parse_def)

lemma type_parse_Some: "type_parse s = Some t \<Longrightarrow> s = type_str t"
  by (auto simp: type_parse_def split: if_splits)

lemma type_tag_inject [simp]: "type_tag s = type_tag t \<longleftrightarrow> s = t"
  by (cases s; cases t) simp_all

lemma type_tag_le [simp]: "type_tag t \<le> 8"
  by (cases t) simp_all

lemma is_integer_simps [simp]:
  "is_integer TK_i1" "is_integer TK_i8" "is_integer TK_i16" "is_integer TK_i32" "is_integer TK_i64"
  "\<not> is_integer TK_void" "\<not> is_integer TK_f32" "\<not> is_integer TK_f64" "\<not> is_integer TK_ptr"
  by (simp_all add: is_integer_def)

text \<open>
  The textual names of the IR types are faithful: the only text that parses to a type is the one it
  prints as; every other text raises.
\<close>

lemma type_text_roundtrip: "type_parse s = Some t \<longleftrightarrow> s = type_str t"
  by (auto dest: type_parse_Some)

end
