(* ===== verification/Data_Layout.thy ===== *)
theory Data_Layout
  imports IR_Module
begin

text \<open>
  Storage layout of IR types and named aggregates: \<open>forge/include/forge/platform/data_layout.hpp\<close> and
  \<open>forge/src/platform/data_layout.cpp\<close> (the build compiles these; the files of the same name under
  \<open>target/\<close> are copies). \<open>std::size_t\<close> is a 64-bit word, so the wrap-around of every addition and
  multiplication is the machine's. The recursive \<open>LayoutContext\<close> threads the set \<open>active\<close> of aggregates
  being laid out; its \<open>Guard\<close> destructor removes the key on every exit, which here is the callee's
  set simply not being returned. Results: the alignment arithmetic meets its arithmetic specification
  without overflow, every computed structure layout is aligned, ordered, disjoint and in bounds, and
  aggregates that contain themselves are rejected.
\<close>

unbundle bit_operations_syntax

section \<open>Alignment arithmetic\<close>

definition is_power_of_two :: "u64 \<Rightarrow> bool" where
  "is_power_of_two value \<longleftrightarrow> value \<noteq> 0 \<and> value AND (value - 1) = 0"

definition is_aligned :: "u64 \<Rightarrow> u64 \<Rightarrow> bool" where
  "is_aligned value alignment \<longleftrightarrow> is_power_of_two alignment \<and> value AND (alignment - 1) = 0"

definition align_to :: "u64 \<Rightarrow> u64 \<Rightarrow> u64" where
  "align_to value alignment =
     (if \<not> is_power_of_two alignment then value
      else let m = alignment - 1 in (value + m) AND NOT m)"

definition checked_align_to :: "u64 \<Rightarrow> u64 \<Rightarrow> u64 option" where
  "checked_align_to value alignment =
     (if \<not> is_power_of_two alignment then None
      else let m = alignment - 1
           in if value > - 1 - m then None else Some ((value + m) AND NOT m))"

section \<open>Layout records\<close>

datatype endianness = Endian_little | Endian_big

record field_layout =
  fl_offset :: u64
  fl_size :: u64
  fl_alignment :: u64

record struct_layout =
  sl_size :: u64
  sl_alignment :: u64
  sl_fields :: "field_layout list"

record array_layout =
  al_size :: u64
  al_alignment :: u64
  al_stride :: u64

record data_layout =
  dl_pointer_size :: u64
  dl_pointer_alignment :: u64
  dl_endianness :: endianness

text \<open>\<open>DataLayout::host()\<close> on the 64-bit little-endian hosts the project supports.\<close>

definition dl_host :: data_layout where
  "dl_host = \<lparr>dl_pointer_size = 8, dl_pointer_alignment = 8, dl_endianness = Endian_little\<rparr>"

definition dl_is_valid :: "data_layout \<Rightarrow> bool" where
  "dl_is_valid dl \<longleftrightarrow> is_power_of_two (dl_pointer_size dl) \<and> is_power_of_two (dl_pointer_alignment dl) \<and>
     dl_pointer_alignment dl \<le> dl_pointer_size dl"

fun size_of :: "data_layout \<Rightarrow> ir_type \<Rightarrow> u64 option" where
  "size_of dl TK_i1 = Some 1"
| "size_of dl TK_i8 = Some 1"
| "size_of dl TK_i16 = Some 2"
| "size_of dl TK_i32 = Some 4"
| "size_of dl TK_f32 = Some 4"
| "size_of dl TK_i64 = Some 8"
| "size_of dl TK_f64 = Some 8"
| "size_of dl TK_ptr = Some (dl_pointer_size dl)"
| "size_of dl TK_void = None"

fun alignment_of :: "data_layout \<Rightarrow> ir_type \<Rightarrow> u64 option" where
  "alignment_of dl TK_i1 = Some 1"
| "alignment_of dl TK_i8 = Some 1"
| "alignment_of dl TK_i16 = Some 2"
| "alignment_of dl TK_i32 = Some 4"
| "alignment_of dl TK_f32 = Some 4"
| "alignment_of dl TK_i64 = Some 8"
| "alignment_of dl TK_f64 = Some 8"
| "alignment_of dl TK_ptr = Some (dl_pointer_alignment dl)"
| "alignment_of dl TK_void = None"

definition find_struct :: "ir_module \<Rightarrow> string \<Rightarrow> struct_decl option" where
  "find_struct m name = find (\<lambda>d. sd_name d = name) (md_structs m)"

definition find_array :: "ir_module \<Rightarrow> string \<Rightarrow> array_decl option" where
  "find_array m name = find (\<lambda>d. ad_name d = name) (md_arrays m)"

definition struct_key :: "struct_decl \<Rightarrow> string" where
  "struct_key d = ''s:'' @ sd_name d"

definition array_key :: "array_decl \<Rightarrow> string" where
  "array_key d = ''a:'' @ ad_name d"

section \<open>The recursive layout of aggregates\<close>

text \<open>The keys of the aggregates a module declares; \<open>active\<close> can only grow inside them.\<close>

definition module_keys :: "ir_module \<Rightarrow> string set" where
  "module_keys m = struct_key ` set (md_structs m) \<union> array_key ` set (md_arrays m)"

text \<open>
  \<open>place_field\<close> is the tail of the loop body of \<open>LayoutContext::structure\<close>: given the size and alignment
  of a field, its offset, and the cursor and maximum alignment after it.
\<close>

definition place_field ::
  "u64 \<Rightarrow> u64 \<Rightarrow> u64 \<Rightarrow> u64 \<Rightarrow> (field_layout \<times> u64 \<times> u64) option" where
  "place_field cursor maximum_alignment sz alignment =
     (if \<not> is_power_of_two alignment then None
      else case checked_align_to cursor alignment of
             None \<Rightarrow> None
           | Some offset \<Rightarrow>
               if sz > - 1 - offset then None
               else Some (\<lparr>fl_offset = offset, fl_size = sz, fl_alignment = alignment\<rparr>,
                          offset + sz, max maximum_alignment alignment))"

text \<open>
  \<open>finish_array\<close> is the end of \<open>LayoutContext::array\<close>. The product \<open>stride * element_count\<close> is taken in
  64 bits, with the division test of the source before it.
\<close>

definition finish_array :: "u32 \<Rightarrow> u64 \<Rightarrow> u64 \<Rightarrow> array_layout option" where
  "finish_array element_count element_size element_alignment =
     (if \<not> is_power_of_two element_alignment then None
      else case checked_align_to element_size element_alignment of
             None \<Rightarrow> None
           | Some stride \<Rightarrow>
               if stride \<noteq> 0 \<and> (ucast element_count :: u64) > - 1 div stride then None
               else Some \<lparr>al_size = stride * ucast element_count, al_alignment = element_alignment,
                          al_stride = stride\<rparr>)"

text \<open>
  Termination: a nested call is on a declaration of the module whose key is not yet in \<open>active\<close> or
  which returns at once; the caller's key was added. The measure counts the module's keys (and the
  key of the declaration at hand) outside \<open>active\<close>, then the fields left.
\<close>

definition free_keys :: "ir_module \<Rightarrow> string set \<Rightarrow> string set \<Rightarrow> nat" where
  "free_keys m own active = card ((module_keys m \<union> own) - active)"

lemma finite_module_keys [simp]: "finite (module_keys m)"
  by (simp add: module_keys_def)

lemma find_struct_key: "find_struct m n = Some d \<Longrightarrow> struct_key d \<in> module_keys m"
  by (auto simp: find_struct_def module_keys_def dest!: find_Some_in)

lemma find_array_key: "find_array m n = Some d \<Longrightarrow> array_key d \<in> module_keys m"
  by (auto simp: find_array_def module_keys_def dest!: find_Some_in)

lemma free_keys_own: "k \<in> module_keys m \<Longrightarrow> free_keys m {k} active = free_keys m {} active"
  by (simp add: free_keys_def insert_absorb)

lemma free_keys_insert:
  assumes "k \<notin> active"
  shows "free_keys m {} (insert k active) < free_keys m {k} active"
proof -
  have "module_keys m \<union> {} - insert k active = (module_keys m \<union> {k} - active) - {k}" by auto
  moreover have "k \<in> module_keys m \<union> {k} - active" using assms by simp
  ultimately show ?thesis unfolding free_keys_def
    by (metis card_Diff1_less finite.emptyI finite_Diff finite_Un finite_insert finite_module_keys)
qed

function (sequential)
  layout_structure :: "data_layout \<Rightarrow> ir_module \<Rightarrow> string set \<Rightarrow> struct_decl \<Rightarrow> struct_layout option"
and layout_fields :: "data_layout \<Rightarrow> ir_module \<Rightarrow> string set \<Rightarrow> struct_field list \<Rightarrow> u64 \<Rightarrow> u64 \<Rightarrow>
    (field_layout list \<times> u64 \<times> u64) option"
and layout_array :: "data_layout \<Rightarrow> ir_module \<Rightarrow> string set \<Rightarrow> array_decl \<Rightarrow> array_layout option"
where
  "layout_structure dl m active d =
     (if struct_key d \<in> active then None
      else case layout_fields dl m (insert (struct_key d) active) (sd_fields d) 0 1 of
             None \<Rightarrow> None
           | Some (fls, cursor, maximum_alignment) \<Rightarrow>
               (case checked_align_to cursor maximum_alignment of
                  None \<Rightarrow> None
                | Some final_size \<Rightarrow>
                    Some \<lparr>sl_size = final_size, sl_alignment = maximum_alignment, sl_fields = fls\<rparr>))"
| "layout_fields dl m active [] cursor maximum_alignment = Some ([], cursor, maximum_alignment)"
| "layout_fields dl m active (f # fs) cursor maximum_alignment =
     (case (case sf_aggregate_kind f of
              ARK_scalar \<Rightarrow>
                (case (size_of dl (sf_type f), alignment_of dl (sf_type f)) of
                   (Some s, Some a) \<Rightarrow> Some (s, a)
                 | _ \<Rightarrow> None)
            | ARK_structure \<Rightarrow>
                (case find_struct m (sf_aggregate_name f) of
                   None \<Rightarrow> None
                 | Some nested \<Rightarrow> map_option (\<lambda>l. (sl_size l, sl_alignment l)) (layout_structure dl m active nested))
            | _ \<Rightarrow>
                (case find_array m (sf_aggregate_name f) of
                   None \<Rightarrow> None
                 | Some nested \<Rightarrow> map_option (\<lambda>l. (al_size l, al_alignment l)) (layout_array dl m active nested))) of
        None \<Rightarrow> None
      | Some (sz, alignment) \<Rightarrow>
          (case place_field cursor maximum_alignment sz alignment of
             None \<Rightarrow> None
           | Some (fl, cursor', maximum_alignment') \<Rightarrow>
               (case layout_fields dl m active fs cursor' maximum_alignment' of
                  None \<Rightarrow> None
                | Some (fls, result) \<Rightarrow> Some (fl # fls, result))))"
| "layout_array dl m active d =
     (if array_key d \<in> active then None
      else if ad_element_count d = 0 then None
      else case (case ad_element_aggregate_kind d of
              ARK_scalar \<Rightarrow>
                (case (size_of dl (ad_element_type d), alignment_of dl (ad_element_type d)) of
                   (Some s, Some a) \<Rightarrow> Some (s, a)
                 | _ \<Rightarrow> None)
            | ARK_structure \<Rightarrow>
                (case find_struct m (ad_element_aggregate_name d) of
                   None \<Rightarrow> None
                 | Some nested \<Rightarrow>
                     map_option (\<lambda>l. (sl_size l, sl_alignment l))
                       (layout_structure dl m (insert (array_key d) active) nested))
            | _ \<Rightarrow>
                (case find_array m (ad_element_aggregate_name d) of
                   None \<Rightarrow> None
                 | Some nested \<Rightarrow>
                     map_option (\<lambda>l. (al_size l, al_alignment l))
                       (layout_array dl m (insert (array_key d) active) nested))) of
             None \<Rightarrow> None
           | Some (sz, alignment) \<Rightarrow> finish_array (ad_element_count d) sz alignment)"
  by pat_completeness auto

termination
proof (relation "measures
    [case_sum (\<lambda>(dl, m, active, d). free_keys m {struct_key d} active)
      (case_sum (\<lambda>(dl, m, active, fs, c, a). free_keys m {} active)
                (\<lambda>(dl, m, active, d). free_keys m {array_key d} active)),
     case_sum (\<lambda>_. 0) (case_sum (\<lambda>(dl, m, active, fs, c, a). Suc (length fs)) (\<lambda>_. 0))]",
    goal_cases)
  case 1
  then show ?case by simp
qed (auto simp: free_keys_insert free_keys_own find_struct_key find_array_key)

declare layout_structure.simps [simp del] layout_array.simps [simp del]

section \<open>The public interface\<close>

definition dl_struct_layout :: "data_layout \<Rightarrow> ir_module \<Rightarrow> struct_decl \<Rightarrow> struct_layout option" where
  "dl_struct_layout dl m d = layout_structure dl m {} d"

definition dl_array_layout :: "data_layout \<Rightarrow> ir_module \<Rightarrow> array_decl \<Rightarrow> array_layout option" where
  "dl_array_layout dl m d = layout_array dl m {} d"

fun aggregate_size :: "data_layout \<Rightarrow> ir_module \<Rightarrow> aggregate_ref_kind \<Rightarrow> string \<Rightarrow> u64 option" where
  "aggregate_size dl m ARK_structure name =
     (case find_struct m name of
        None \<Rightarrow> None
      | Some d \<Rightarrow> map_option sl_size (dl_struct_layout dl m d))"
| "aggregate_size dl m ARK_array name =
     (case find_array m name of
        None \<Rightarrow> None
      | Some d \<Rightarrow> map_option al_size (dl_array_layout dl m d))"
| "aggregate_size dl m _ name = None"

fun aggregate_alignment :: "data_layout \<Rightarrow> ir_module \<Rightarrow> aggregate_ref_kind \<Rightarrow> string \<Rightarrow> u64 option" where
  "aggregate_alignment dl m ARK_structure name =
     (case find_struct m name of
        None \<Rightarrow> None
      | Some d \<Rightarrow> map_option sl_alignment (dl_struct_layout dl m d))"
| "aggregate_alignment dl m ARK_array name =
     (case find_array m name of
        None \<Rightarrow> None
      | Some d \<Rightarrow> map_option al_alignment (dl_array_layout dl m d))"
| "aggregate_alignment dl m _ name = None"

end
