(* ===== verification/Data_Layout_Props.thy ===== *)
theory Data_Layout_Props
  imports Data_Layout
begin

text \<open>
  Properties of the storage layouts of \<open>Data_Layout\<close>: the bit-trick alignment arithmetic equals
  rounding up on natural numbers; structure layouts are aligned, ordered, disjoint, in bounds, equal
  to the reference rule and do not fail without a reason; array layouts do not wrap around; aggregates
  that contain themselves have no layout.
\<close>

unbundle bit_operations_syntax

section \<open>Alignment arithmetic meets its specification\<close>

text \<open>The least multiple of \<open>a\<close> that is not below \<open>c\<close>, on natural numbers.\<close>

definition align_up :: "nat \<Rightarrow> nat \<Rightarrow> nat" where
  "align_up c a = (c + a - 1) div a * a"

lemma nat_and_pred_power_of_two:
  fixes n :: nat
  assumes "n \<noteq> 0" and "n AND (n - 1) = 0"
  shows "\<exists>k. n = 2 ^ k"
  using assms
proof (induction n rule: less_induct)
  case (less n)
  show ?case
  proof (cases "even n")
    case True
    then obtain m where m: "n = 2 * m" by blast
    have "(2 * m - 1) div 2 = m - 1" by (cases m) simp_all
    with less.prems m have "2 * (m AND (m - 1)) = 0"
      using and_nat_rec [of n "n - 1"] by simp
    then have "m AND (m - 1) = 0" by simp
    with less m obtain k where "m = 2 ^ k" by (metis mult_0_right mult_2 add_cancel_right_right linorder_neqE_nat not_add_less1 not_less_zero)
    with m have "n = 2 ^ Suc k" by simp
    then show ?thesis by blast
  next
    case False
    then obtain m where m: "n = 2 * m + 1" by (elim oddE)
    with less.prems have "2 * (m AND m) = 0"
      using and_nat_rec [of n "n - 1"] by simp
    with m have "n = 2 ^ 0" by simp
    then show ?thesis by blast
  qed
qed

lemma is_power_of_two_iff: "is_power_of_two v \<longleftrightarrow> (\<exists>k < 64. v = 2 ^ k)"
proof
  assume *: "is_power_of_two v"
  then have "v \<noteq> 0" by (simp add: is_power_of_two_def)
  then have pos: "1 \<le> v" by (simp add: word_le_nat_alt unat_gt_0 Suc_le_eq)
  have "unat (v AND (v - 1)) = 0" using * by (simp add: is_power_of_two_def)
  then have "unat v AND (unat v - 1) = 0"
    using pos by (simp add: unsigned_and_eq unat_sub)
  with \<open>v \<noteq> 0\<close> obtain k where k: "unat v = 2 ^ k"
    using nat_and_pred_power_of_two [of "unat v"] by (auto simp: unat_eq_zero)
  have "(2::nat) ^ k < 2 ^ LENGTH(64)" using k unat_less_2p [of v] by (simp only: k)
  then have "k < LENGTH(64)" by (rule power_less_imp_less_exp [rotated]) simp
  then have "k < 64" by simp
  moreover from this k have "v = 2 ^ k" by (intro unat_eqI) (simp add: unat_2p)
  ultimately show "\<exists>k < 64. v = 2 ^ k" by blast
next
  assume "\<exists>k < 64. v = 2 ^ k"
  then obtain k where k: "k < 64" and v: "v = 2 ^ k" by blast
  have "bit (v AND mask k) i = False" for i using k v by (auto simp: bit_simps)
  then have "v AND mask k = 0" by (auto intro: bit_word_eqI)
  moreover have "v \<noteq> 0" using k v by simp
  ultimately show "is_power_of_two v" using v by (simp add: is_power_of_two_def mask_eq_decr_exp)
qed

lemma is_power_of_two_pos: "is_power_of_two v \<Longrightarrow> 0 < unat v"
  by (auto simp: is_power_of_two_def unat_gt_0)

lemma unat_power_of_two: "k < 64 \<Longrightarrow> unat (2 ^ k :: u64) = 2 ^ k"
  by (simp add: unat_2p)

lemma word_and_not_mask:
  fixes x :: u64
  shows "unat (x AND NOT (mask k)) = unat x - unat x mod 2 ^ k"
proof -
  have "x AND NOT (mask k) = push_bit k (drop_bit k x)"
    by (rule bit_word_eqI) (auto simp: bit_simps)
  also have "\<dots> = x - take_bit k x"
    using bits_ident [of k x] by (simp add: eq_diff_eq)
  finally have eq: "x AND NOT (mask k) = x - take_bit k x" .
  have t: "unat (take_bit k x) = unat x mod 2 ^ k"
    by (metis unsigned_take_bit_eq take_bit_eq_mod)
  then have "take_bit k x \<le> x" by (simp add: word_le_nat_alt)
  then show ?thesis using eq t by (simp add: unat_sub)
qed

lemma align_up_eq: "0 < a \<Longrightarrow> align_up c a = (c + a - 1) - (c + a - 1) mod a"
  by (simp add: align_up_def minus_mod_eq_div_mult)

lemma align_up_dvd [simp]: "a dvd align_up c a"
  by (simp add: align_up_def)

lemma align_up_ge: "0 < a \<Longrightarrow> c \<le> align_up c a"
proof -
  assume a: "0 < a"
  have "(c + a - 1) mod a < a" using a by simp
  then show ?thesis using a by (simp only: align_up_eq)
qed

lemma align_up_less: "0 < a \<Longrightarrow> align_up c a < c + a"
  by (simp add: align_up_eq less_imp_diff_less)

lemma align_up_least:
  assumes "0 < a" and "a dvd n" and "c \<le> n"
  shows "align_up c a \<le> n"
proof -
  obtain q where q: "n = a * q" using assms(2) by blast
  have "align_up c a < a * q + a" using assms(1,3) q align_up_less [of a c] by linarith
  then have "align_up c a div a < Suc q"
    using assms(1) by (metis add.commute less_mult_imp_div_less mult.commute mult_Suc)
  then have "align_up c a div a \<le> q" by simp
  then have "align_up c a div a * a \<le> q * a" by (rule mult_le_mono1)
  then show ?thesis using q by (simp add: mult.commute)
qed

lemma checked_align_to_iff:
  "checked_align_to v a = Some r \<longleftrightarrow>
     is_power_of_two a \<and> unat v + unat a - 1 < 2 ^ 64 \<and> unat r = align_up (unat v) (unat a)"
proof (cases "is_power_of_two a")
  case False
  then show ?thesis by (simp add: checked_align_to_def)
next
  case True
  then obtain k where k: "k < 64" and a: "a = 2 ^ k" by (auto simp: is_power_of_two_iff)
  have ua: "unat a = 2 ^ k" using k a by (simp add: unat_power_of_two)
  have m: "a - 1 = mask k" using a by (simp add: mask_eq_decr_exp)
  have um: "unat (a - 1) = unat a - 1"
    using ua by (subst unat_sub) (simp_all add: word_le_nat_alt)
  have ge1: "0 < unat a" using ua by simp
  have lim: "v > - 1 - (a - 1) \<longleftrightarrow> \<not> unat v + unat a - 1 < 2 ^ 64"
  proof -
    have "unat (a - 1) + unat v = unat v + unat a - 1" using um ge1 by linarith
    then show ?thesis using gt_max_minus_iff [of "a - 1" v] by simp
  qed
  have fits: "unat ((v + (a - 1)) AND NOT (a - 1)) = align_up (unat v) (unat a)"
    if "unat v + unat a - 1 < 2 ^ 64"
  proof -
    have "unat (v + (a - 1)) = unat v + unat a - 1"
      using that um ge1 by (subst unat_add_lem [THEN iffD1]) simp_all
    then show ?thesis
      using ge1 by (simp only: m word_and_not_mask) (simp add: align_up_eq ua)
  qed
  show ?thesis using True lim fits
    by (auto simp: checked_align_to_def Let_def word_unat_eq_iff)
qed

section \<open>The layout of a structure\<close>

text \<open>The size and alignment of one field, as the first half of the loop body computes them.\<close>

definition field_extent :: "data_layout \<Rightarrow> ir_module \<Rightarrow> string set \<Rightarrow> struct_field \<Rightarrow> (u64 \<times> u64) option" where
  "field_extent dl m active f =
     (case sf_aggregate_kind f of
        ARK_scalar \<Rightarrow>
          (case (size_of dl (sf_type f), alignment_of dl (sf_type f)) of
             (Some s, Some a) \<Rightarrow> Some (s, a)
           | _ \<Rightarrow> None)
      | ARK_structure \<Rightarrow>
          (case find_struct m (sf_aggregate_name f) of
             None \<Rightarrow> None
           | Some nested \<Rightarrow> map_option (\<lambda>l. (sl_size l, sl_alignment l)) (layout_structure dl m active nested))
      | _ \<Rightarrow>
          (case find_array m (sf_aggregate_name f) of
             None \<Rightarrow> None
           | Some nested \<Rightarrow> map_option (\<lambda>l. (al_size l, al_alignment l)) (layout_array dl m active nested)))"

fun place_fields :: "(u64 \<times> u64) list \<Rightarrow> u64 \<Rightarrow> u64 \<Rightarrow> (field_layout list \<times> u64 \<times> u64) option" where
  "place_fields [] cursor maximum_alignment = Some ([], cursor, maximum_alignment)"
| "place_fields ((s, a) # es) cursor maximum_alignment =
     (case place_field cursor maximum_alignment s a of
        None \<Rightarrow> None
      | Some (fl, cursor', maximum_alignment') \<Rightarrow>
          (case place_fields es cursor' maximum_alignment' of
             None \<Rightarrow> None
           | Some (fls, result) \<Rightarrow> Some (fl # fls, result)))"

text \<open>The loop of \<open>LayoutContext::structure\<close> splits into sizing every field and placing the sized fields.\<close>

lemma layout_fields_split:
  "layout_fields dl m active fs c ma =
     (case those (map (field_extent dl m active) fs) of
        None \<Rightarrow> None
      | Some es \<Rightarrow> place_fields es c ma)"
proof (induction fs arbitrary: c ma)
  case Nil
  then show ?case by simp
next
  case (Cons f fs)
  have step: "layout_fields dl m active (f # fs) c ma =
     (case field_extent dl m active f of
        None \<Rightarrow> None
      | Some (s, a) \<Rightarrow>
          (case place_field c ma s a of
             None \<Rightarrow> None
           | Some (fl, c', ma') \<Rightarrow>
               (case layout_fields dl m active fs c' ma' of
                  None \<Rightarrow> None
                | Some (fls, result) \<Rightarrow> Some (fl # fls, result))))"
    by (simp add: field_extent_def)
  show ?case
    by (subst step) (auto simp: Cons.IH split: option.splits)
qed

text \<open>
  The reference rule, on natural numbers: each field goes to the next multiple of its alignment, and
  the structure ends at a multiple of the largest alignment.
\<close>

fun spec_offsets :: "nat \<Rightarrow> (nat \<times> nat) list \<Rightarrow> nat list" where
  "spec_offsets c [] = []"
| "spec_offsets c ((s, a) # es) = align_up c a # spec_offsets (align_up c a + s) es"

fun spec_end :: "nat \<Rightarrow> (nat \<times> nat) list \<Rightarrow> nat" where
  "spec_end c [] = c"
| "spec_end c ((s, a) # es) = spec_end (align_up c a + s) es"

definition spec_alignment :: "nat \<Rightarrow> (nat \<times> nat) list \<Rightarrow> nat" where
  "spec_alignment = foldl (\<lambda>ma e. max ma (snd e))"

lemma spec_alignment_simps [simp]:
  "spec_alignment ma [] = ma"
  "spec_alignment ma (e # es) = spec_alignment (max ma (snd e)) es"
  by (simp_all add: spec_alignment_def)

definition extent_nat :: "u64 \<times> u64 \<Rightarrow> nat \<times> nat" where
  "extent_nat e = (unat (fst e), unat (snd e))"

definition field_extent_of :: "field_layout \<Rightarrow> u64 \<times> u64" where
  "field_extent_of fl = (fl_size fl, fl_alignment fl)"

lemma unat_max: "unat (max v w) = max (unat v) (unat w)"
  by (simp add: max_def word_le_nat_alt)

lemma place_field_Some:
  "place_field c ma s a = Some (fl, c', ma') \<longleftrightarrow>
     is_power_of_two a \<and> unat c + unat a - 1 < 2 ^ 64 \<and> align_up (unat c) (unat a) + unat s < 2 ^ 64 \<and>
     unat (fl_offset fl) = align_up (unat c) (unat a) \<and> field_extent_of fl = (s, a) \<and>
     unat c' = align_up (unat c) (unat a) + unat s \<and> ma' = max ma a"
proof (cases "checked_align_to c a")
  case None
  then have "\<not> (is_power_of_two a \<and> unat c + unat a - 1 < 2 ^ 64)"
    using checked_align_to_iff [of c a "word_of_nat (align_up (unat c) (unat a))"]
      align_up_less [of "unat a" "unat c"]
    by (auto simp: unat_of_nat is_power_of_two_iff unat_power_of_two)
  with None show ?thesis by (auto simp: place_field_def)
next
  case (Some off)
  then have off: "unat off = align_up (unat c) (unat a)" "is_power_of_two a" "unat c + unat a - 1 < 2 ^ 64"
    by (simp_all add: checked_align_to_iff)
  have sum: "unat (off + s) = unat off + unat s" if "unat off + unat s < 2 ^ 64"
    using that by (intro unat_add_no_wrap) simp
  show ?thesis
    using Some off sum gt_max_minus_iff [of off s]
    by (cases fl) (auto simp: place_field_def field_extent_of_def word_unat_eq_iff)
qed

lemma extent_nat_pair [simp]: "extent_nat (s, a) = (unat s, unat a)"
  by (simp add: extent_nat_def)

lemma place_fields_refines:
  assumes "place_fields es c ma = Some (fls, c', ma')"
  shows "map (\<lambda>fl. unat (fl_offset fl)) fls = spec_offsets (unat c) (map extent_nat es) \<and>
    unat c' = spec_end (unat c) (map extent_nat es) \<and>
    unat ma' = spec_alignment (unat ma) (map extent_nat es) \<and>
    map field_extent_of fls = es \<and> (\<forall>e \<in> set es. is_power_of_two (snd e)) \<and>
    (is_power_of_two ma \<longrightarrow> is_power_of_two ma')"
  using assms
proof (induction es c ma arbitrary: fls c' ma' rule: place_fields.induct)
  case (2 s a es c ma)
  from "2.prems" obtain fl c1 ma1 fls' where f: "place_field c ma s a = Some (fl, c1, ma1)"
    and rest: "place_fields es c1 ma1 = Some (fls', c', ma')" and fls: "fls = fl # fls'"
    by (auto split: option.splits)
  note IH = "2.IH" [OF f refl refl rest]
  from f have "is_power_of_two a" "unat (fl_offset fl) = align_up (unat c) (unat a)"
    "field_extent_of fl = (s, a)" "unat c1 = align_up (unat c) (unat a) + unat s" "ma1 = max ma a"
    by (simp_all only: place_field_Some)
  moreover from this(5) have "is_power_of_two ma \<longrightarrow> is_power_of_two ma1"
    using \<open>is_power_of_two a\<close> by (simp add: max_def)
  ultimately show ?case using IH fls by (simp add: unat_max)
qed simp

lemma spec_end_ge: "\<forall>e \<in> set es. 0 < snd e \<Longrightarrow> c \<le> spec_end c es"
proof (induction c es rule: spec_end.induct)
  case (2 c s a es)
  then have "c \<le> align_up c a + s" using align_up_ge [of a c] by simp
  with 2 show ?case by auto
qed simp

lemma spec_alignment_ge: "ma \<le> spec_alignment ma es"
  by (induction es arbitrary: ma) (auto intro: order_trans [OF max.cobounded1])

text \<open>Enough room below \<open>2^64\<close> makes every placement succeed: no spurious overflow failure.\<close>

lemma place_fields_complete:
  assumes "\<forall>e \<in> set es. is_power_of_two (snd e)"
    and "spec_end (unat c) (map extent_nat es) + spec_alignment (unat ma) (map extent_nat es) \<le> 2 ^ 64"
  shows "\<exists>r. place_fields es c ma = Some r"
  using assms
proof (induction es c ma rule: place_fields.induct)
  case (2 s a es c ma)
  let ?o = "align_up (unat c) (unat a)"
  have pos: "\<forall>e \<in> set (map extent_nat es). 0 < snd e"
    using "2.prems"(1) by (auto simp: extent_nat_def is_power_of_two_pos)
  have a: "is_power_of_two a" "0 < unat a"
    using "2.prems"(1) by (auto simp: is_power_of_two_pos)
  have "?o + unat s \<le> spec_end (?o + unat s) (map extent_nat es)" using spec_end_ge [OF pos] .
  moreover have "max (unat ma) (unat a) \<le> spec_alignment (max (unat ma) (unat a)) (map extent_nat es)"
    by (rule spec_alignment_ge)
  moreover have "spec_end (?o + unat s) (map extent_nat es) +
      spec_alignment (max (unat ma) (unat a)) (map extent_nat es) \<le> 2 ^ 64"
    using "2.prems"(2) by simp
  ultimately have room: "?o + unat s + max (unat ma) (unat a) \<le> 2 ^ 64" by linarith
  have "unat c \<le> ?o" using align_up_ge a(2) .
  then have fits: "unat c + unat a - 1 < 2 ^ 64" "?o + unat s < 2 ^ 64" using room a(2) by linarith+
  define fl :: field_layout where
    "fl = \<lparr>fl_offset = word_of_nat ?o, fl_size = s, fl_alignment = a\<rparr>"
  define c1 :: u64 where "c1 = word_of_nat (?o + unat s)"
  have c1: "unat c1 = ?o + unat s" using fits by (simp add: c1_def unat_of_nat del: of_nat_add)
  have pf: "place_field c ma s a = Some (fl, c1, max ma a)"
    using a fits c1 by (subst place_field_Some) (simp add: fl_def field_extent_of_def unat_of_nat)
  moreover have "\<exists>r. place_fields es c1 (max ma a) = Some r"
    using "2.prems" c1 by (intro "2.IH" [OF pf refl refl]) (auto simp: unat_max)
  ultimately show ?case by auto
qed simp

definition layout_extents :: "struct_layout \<Rightarrow> (nat \<times> nat) list" where
  "layout_extents L = map (\<lambda>fl. (unat (fl_size fl), unat (fl_alignment fl))) (sl_fields L)"

lemma is_power_of_two_1 [simp]: "is_power_of_two 1"
  by (simp add: is_power_of_two_def)

lemma those_map_length: "those (map f xs) = Some ys \<Longrightarrow> length ys = length xs"
  by (induction xs arbitrary: ys) (auto split: option.splits)

lemma layout_structure_Some:
  assumes "layout_structure dl m active d = Some L"
  obtains es where "those (map (field_extent dl m (insert (struct_key d) active)) (sd_fields d)) = Some es"
    and "map extent_nat es = layout_extents L"
    and "map (\<lambda>fl. unat (fl_offset fl)) (sl_fields L) = spec_offsets 0 (layout_extents L)"
    and "unat (sl_alignment L) = spec_alignment 1 (layout_extents L)"
    and "unat (sl_size L) = align_up (spec_end 0 (layout_extents L)) (unat (sl_alignment L))"
    and "\<forall>fl \<in> set (sl_fields L). is_power_of_two (fl_alignment fl)"
    and "is_power_of_two (sl_alignment L)"
    and "length (sl_fields L) = length (sd_fields d)" and "struct_key d \<notin> active"
proof -
  from assms obtain fls c ma sz where key: "struct_key d \<notin> active"
    and fs: "layout_fields dl m (insert (struct_key d) active) (sd_fields d) 0 1 = Some (fls, c, ma)"
    and sz: "checked_align_to c ma = Some sz"
    and L: "L = \<lparr>sl_size = sz, sl_alignment = ma, sl_fields = fls\<rparr>"
    by (auto simp: layout_structure.simps split: if_splits option.splits)
  from fs obtain es where es: "those (map (field_extent dl m (insert (struct_key d) active)) (sd_fields d)) = Some es"
    and pl: "place_fields es 0 1 = Some (fls, c, ma)"
    by (auto simp: layout_fields_split split: option.splits)
  note r = place_fields_refines [OF pl]
  have ext: "map extent_nat es = layout_extents L"
    using r L by (auto simp: layout_extents_def extent_nat_def field_extent_of_def)
  have al: "\<forall>fl \<in> set fls. is_power_of_two (fl_alignment fl)"
    using r by (auto simp: field_extent_of_def)
  have len: "length fls = length (sd_fields d)"
    using r those_map_length [OF es] by auto
  show thesis
    by (rule that [OF es ext])
       (use r L ext al len sz key in \<open>auto simp: checked_align_to_iff\<close>)
qed

lemma spec_offsets_ge:
  "\<forall>e \<in> set es. 0 < snd e \<Longrightarrow> i < length es \<Longrightarrow>
   c \<le> spec_offsets c es ! i \<and> snd (es ! i) dvd spec_offsets c es ! i \<and>
   spec_offsets c es ! i + fst (es ! i) \<le> spec_end c es"
proof (induction c es arbitrary: i rule: spec_offsets.induct)
  case (2 c s a es)
  have ge: "c \<le> align_up c a" using "2.prems" by (intro align_up_ge) simp
  have en: "align_up c a + s \<le> spec_end (align_up c a + s) es"
    using "2.prems" by (intro spec_end_ge) auto
  show ?case
  proof (cases i)
    case 0
    then show ?thesis using ge en by simp
  next
    case (Suc k)
    with "2.IH" [of k] "2.prems" ge show ?thesis by auto
  qed
qed simp

lemma spec_offsets_disjoint:
  "\<forall>e \<in> set es. 0 < snd e \<Longrightarrow> i < j \<Longrightarrow> j < length es \<Longrightarrow>
   spec_offsets c es ! i + fst (es ! i) \<le> spec_offsets c es ! j"
proof (induction c es arbitrary: i j rule: spec_offsets.induct)
  case (2 c s a es)
  from "2.prems" obtain k where j: "j = Suc k" by (cases j) auto
  show ?case
  proof (cases i)
    case 0
    then show ?thesis using j spec_offsets_ge [of es k "align_up c a + s"] "2.prems" by simp
  next
    case (Suc l)
    with "2.IH" [of l k] "2.prems" j show ?thesis by simp
  qed
qed simp

lemma length_spec_offsets [simp]: "length (spec_offsets c es) = length es"
  by (induction c es rule: spec_offsets.induct) simp_all

lemma power_of_two_dvd_mono: "is_power_of_two v \<Longrightarrow> is_power_of_two w \<Longrightarrow> v \<le> w \<Longrightarrow> unat v dvd unat w"
  by (auto simp: is_power_of_two_iff unat_power_of_two word_le_nat_alt le_imp_power_dvd)

lemma spec_alignment_upper: "e \<in> set es \<Longrightarrow> snd e \<le> spec_alignment ma es"
proof (induction es arbitrary: ma)
  case (Cons x es)
  then show ?case using spec_alignment_ge [of "max ma (snd x)" es] by auto
qed simp

text \<open>
  C13. Every structure layout the code computes is a legal placement: one field per declared field;
  each field at a multiple of its own power-of-two alignment; fields in order and pairwise disjoint;
  every field inside the structure; the structure's size a multiple of its alignment, which is a
  power of two and a multiple of every field's alignment. The statement reads the 64-bit words as
  natural numbers, so no sum wrapped around.
\<close>

theorem struct_layout_wellformed:
  assumes "dl_struct_layout dl m d = Some L"
  defines "off \<equiv> \<lambda>i. unat (fl_offset (sl_fields L ! i))"
    and "sz \<equiv> \<lambda>i. unat (fl_size (sl_fields L ! i))"
    and "al \<equiv> \<lambda>i. unat (fl_alignment (sl_fields L ! i))"
  shows "length (sl_fields L) = length (sd_fields d) \<and>
    is_power_of_two (sl_alignment L) \<and> unat (sl_alignment L) dvd unat (sl_size L) \<and>
    (\<forall>i < length (sl_fields L).
        is_power_of_two (fl_alignment (sl_fields L ! i)) \<and> al i dvd off i \<and>
        al i dvd unat (sl_alignment L) \<and> off i + sz i \<le> unat (sl_size L) \<and>
        (\<forall>j < i. off j + sz j \<le> off i))"
proof -
  from assms(1) have "layout_structure dl m {} d = Some L" by (simp add: dl_struct_layout_def)
  then obtain es where offs: "map (\<lambda>fl. unat (fl_offset fl)) (sl_fields L) = spec_offsets 0 (layout_extents L)"
    and ma: "unat (sl_alignment L) = spec_alignment 1 (layout_extents L)"
    and size: "unat (sl_size L) = align_up (spec_end 0 (layout_extents L)) (unat (sl_alignment L))"
    and pow: "\<forall>fl \<in> set (sl_fields L). is_power_of_two (fl_alignment fl)"
    and powL: "is_power_of_two (sl_alignment L)"
    and len: "length (sl_fields L) = length (sd_fields d)"
    by (rule layout_structure_Some) blast
  let ?es = "layout_extents L"
  have n: "length ?es = length (sl_fields L)" by (simp add: layout_extents_def)
  have nth: "?es ! i = (sz i, al i)" "spec_offsets 0 ?es ! i = off i" if "i < length (sl_fields L)" for i
    using that offs [symmetric] by (simp_all add: layout_extents_def sz_def al_def off_def)
  have pos: "\<forall>e \<in> set ?es. 0 < snd e"
    using pow by (auto simp: layout_extents_def is_power_of_two_pos)
  have posL: "0 < unat (sl_alignment L)"
    using powL by (rule is_power_of_two_pos)
  have field: "is_power_of_two (fl_alignment (sl_fields L ! i)) \<and> al i dvd off i \<and>
      al i dvd unat (sl_alignment L) \<and> off i + sz i \<le> unat (sl_size L) \<and>
      (\<forall>j < i. off j + sz j \<le> off i)" if i: "i < length (sl_fields L)" for i
  proof -
    have p: "is_power_of_two (fl_alignment (sl_fields L ! i))" using pow i by simp
    have "al i \<le> unat (sl_alignment L)"
      using spec_alignment_upper [OF nth_mem, of i ?es 1] i n ma by (simp add: nth(1))
    then have "al i dvd unat (sl_alignment L)"
      unfolding al_def by (intro power_of_two_dvd_mono p powL) (simp add: word_le_nat_alt)
    moreover have "off i + sz i \<le> spec_end 0 ?es" and "al i dvd off i"
      using spec_offsets_ge [OF pos, of i 0] i n by (simp_all add: nth)
    moreover have "spec_end 0 ?es \<le> unat (sl_size L)"
      using size align_up_ge [OF posL] by simp
    moreover have "\<forall>j < i. off j + sz j \<le> off i"
      using spec_offsets_disjoint [OF pos, of _ i 0] i n by (auto simp: nth)
    ultimately show ?thesis using p by simp
  qed
  show ?thesis using len powL size field by auto
qed

text \<open>
  C14. Structure layout refines the usual rule on unbounded integers: the offsets, the size and the
  alignment the code computes in 64-bit arithmetic are the ones the rule gives for the fields'
  sizes and alignments.
\<close>

theorem struct_layout_refines_rule:
  assumes "dl_struct_layout dl m d = Some L"
  shows "map (\<lambda>fl. unat (fl_offset fl)) (sl_fields L) = spec_offsets 0 (layout_extents L) \<and>
    unat (sl_alignment L) = spec_alignment 1 (layout_extents L) \<and>
    unat (sl_size L) = align_up (spec_end 0 (layout_extents L)) (spec_alignment 1 (layout_extents L))"
proof -
  from assms have "layout_structure dl m {} d = Some L" by (simp add: dl_struct_layout_def)
  then show ?thesis by (rule layout_structure_Some) simp
qed

text \<open>
  C30. The layout does not fail without a reason: when every field can be sized, every alignment is a
  power of two and the end of the structure leaves room for its alignment below \<open>2^64\<close>, a layout is
  returned.
\<close>

theorem struct_layout_complete:
  assumes "those (map (field_extent dl m {struct_key d}) (sd_fields d)) = Some es"
    and "\<forall>e \<in> set es. is_power_of_two (snd e)"
    and "spec_end 0 (map extent_nat es) + spec_alignment 1 (map extent_nat es) \<le> 2 ^ 64"
  shows "\<exists>L. dl_struct_layout dl m d = Some L"
proof -
  obtain fls c ma where pl: "place_fields es 0 1 = Some (fls, c, ma)"
    using place_fields_complete [of es 0 1] assms(2,3) by auto
  note r = place_fields_refines [OF pl]
  have "is_power_of_two ma" using r by simp
  moreover from this have "0 < unat ma" by (rule is_power_of_two_pos)
  moreover have "unat c + unat ma \<le> 2 ^ 64" using r assms(3) by simp
  ultimately have "checked_align_to c ma = Some (word_of_nat (align_up (unat c) (unat ma)))"
    using align_up_less [of "unat ma" "unat c"] by (subst checked_align_to_iff) (auto simp: unat_of_nat)
  then show ?thesis
    using assms(1) pl by (simp add: dl_struct_layout_def layout_structure.simps layout_fields_split)
qed

section \<open>Aggregates that contain themselves\<close>

text \<open>
  \<open>nests m x y\<close>: the aggregate \<open>x\<close> has a field or element whose declared aggregate is \<open>y\<close>, by the
  first declaration of that name, as \<open>find_struct\<close> and \<open>find_array\<close> resolve it.
\<close>

inductive nests :: "ir_module \<Rightarrow> struct_decl + array_decl \<Rightarrow> struct_decl + array_decl \<Rightarrow> bool" for m where
  field_struct: "f \<in> set (sd_fields d) \<Longrightarrow> sf_aggregate_kind f = ARK_structure \<Longrightarrow>
    find_struct m (sf_aggregate_name f) = Some d' \<Longrightarrow> nests m (Inl d) (Inl d')"
| field_array: "f \<in> set (sd_fields d) \<Longrightarrow> sf_aggregate_kind f \<notin> {ARK_scalar, ARK_structure} \<Longrightarrow>
    find_array m (sf_aggregate_name f) = Some a' \<Longrightarrow> nests m (Inl d) (Inr a')"
| element_struct: "ad_element_aggregate_kind a = ARK_structure \<Longrightarrow>
    find_struct m (ad_element_aggregate_name a) = Some d' \<Longrightarrow> nests m (Inr a) (Inl d')"
| element_array: "ad_element_aggregate_kind a \<notin> {ARK_scalar, ARK_structure} \<Longrightarrow>
    find_array m (ad_element_aggregate_name a) = Some a' \<Longrightarrow> nests m (Inr a) (Inr a')"

inductive_cases nests_structE: "nests m (Inl d) y"
inductive_cases nests_arrayE: "nests m (Inr a) y"

definition agg_key :: "struct_decl + array_decl \<Rightarrow> string" where
  "agg_key = case_sum struct_key array_key"

definition laid_out :: "data_layout \<Rightarrow> ir_module \<Rightarrow> string set \<Rightarrow> struct_decl + array_decl \<Rightarrow> bool" where
  "laid_out dl m active x =
     (case x of Inl d \<Rightarrow> layout_structure dl m active d \<noteq> None | Inr a \<Rightarrow> layout_array dl m active a \<noteq> None)"

lemma laid_out_fresh: "laid_out dl m active x \<Longrightarrow> agg_key x \<notin> active"
  by (cases x) (auto simp: laid_out_def agg_key_def layout_structure.simps layout_array.simps split: if_splits)

lemma those_mem: "those (map f xs) = Some ys \<Longrightarrow> x \<in> set xs \<Longrightarrow> f x \<noteq> None"
  by (induction xs arbitrary: ys) (auto split: option.splits)

lemma field_extents_nests:
  assumes "nests m (Inl d) y" and "\<And>f. f \<in> set (sd_fields d) \<Longrightarrow> field_extent dl m active f \<noteq> None"
  shows "laid_out dl m active y"
  using assms(1)
proof cases
  case (field_struct f d')
  with assms(2) [of f] show ?thesis by (auto simp: field_extent_def laid_out_def)
next
  case (field_array f a')
  with assms(2) [of f] show ?thesis
    by (auto simp: field_extent_def laid_out_def split: aggregate_ref_kind.splits)
qed

text \<open>A layout can only be computed through the layouts of everything nested, the keys above them active.\<close>

lemma laid_out_nests:
  assumes "laid_out dl m active x" and "nests m x y"
  shows "laid_out dl m (insert (agg_key x) active) y"
proof (cases x)
  case (Inl d)
  with assms(1) obtain L where "layout_structure dl m active d = Some L" by (auto simp: laid_out_def)
  then obtain es where "those (map (field_extent dl m (insert (struct_key d) active)) (sd_fields d)) = Some es"
    by (rule layout_structure_Some)
  then have "f \<in> set (sd_fields d) \<Longrightarrow> field_extent dl m (insert (struct_key d) active) f \<noteq> None" for f
    by (rule those_mem)
  with assms(2) Inl show ?thesis by (simp add: field_extents_nests agg_key_def)
next
  case (Inr a)
  with assms show ?thesis
    by (auto simp: laid_out_def agg_key_def layout_array.simps [of dl m active a] elim!: nests_arrayE
        split: if_splits option.splits aggregate_ref_kind.splits)
qed

lemma laid_out_reaches:
  assumes "(nests m)\<^sup>+\<^sup>+ x y" and "laid_out dl m active x"
  shows "\<exists>active'. insert (agg_key x) active \<subseteq> active' \<and> laid_out dl m active' y"
  using assms
proof (induction rule: tranclp_induct)
  case (base y)
  from laid_out_nests [OF base.prems base.hyps] show ?case
    by (intro exI [of _ "insert (agg_key x) active"]) simp
next
  case (step y z)
  from step.IH [OF step.prems] obtain active'
    where sub: "insert (agg_key x) active \<subseteq> active'" and y: "laid_out dl m active' y" by blast
  from laid_out_nests [OF y step.hyps(2)] sub show ?case
    by (intro exI [of _ "insert (agg_key y) active'"]) auto
qed

text \<open>
  C31. Recursive aggregates are rejected: a structure that contains itself, directly or through any
  chain of structures and arrays, has no layout, and the computation still terminates.
\<close>

theorem recursive_struct_has_no_layout:
  assumes "(nests m)\<^sup>+\<^sup>+ (Inl d) (Inl d)"
  shows "dl_struct_layout dl m d = None"
proof (rule ccontr)
  assume "dl_struct_layout dl m d \<noteq> None"
  then have "laid_out dl m {} (Inl d)" by (simp add: laid_out_def dl_struct_layout_def)
  then obtain active' where "insert (agg_key (Inl d)) {} \<subseteq> active'" and "laid_out dl m active' (Inl d)"
    using laid_out_reaches [OF assms] by blast
  then show False using laid_out_fresh by blast
qed

section \<open>The layout of an array\<close>

lemma layout_array_Some:
  assumes "layout_array dl m active a = Some L"
  obtains s where "finish_array (ad_element_count a) s (al_alignment L) = Some L" and "ad_element_count a \<noteq> 0"
proof -
  from assms obtain s b where f: "finish_array (ad_element_count a) s b = Some L" and "ad_element_count a \<noteq> 0"
    by (auto simp: layout_array.simps split: if_splits option.splits prod.splits)
  moreover from f have "al_alignment L = b"
    by (auto simp: finish_array_def split: if_splits option.splits)
  ultimately show thesis using that by blast
qed

text \<open>
  Array layouts: the stride is the element size rounded up to the element alignment, the size is
  the stride times the element count as natural numbers (the 64-bit product did not wrap), so every
  element lies inside the array, and the size is a multiple of the alignment.
\<close>

lemma array_layout_wellformed:
  assumes "dl_array_layout dl m a = Some L"
  shows "is_power_of_two (al_alignment L) \<and> unat (al_alignment L) dvd unat (al_stride L) \<and>
    unat (al_size L) = unat (al_stride L) * unat (ad_element_count a) \<and> ad_element_count a \<noteq> 0 \<and>
    unat (al_alignment L) dvd unat (al_size L) \<and>
    (\<forall>i < unat (ad_element_count a). i * unat (al_stride L) + unat (al_stride L) \<le> unat (al_size L))"
proof -
  from assms have "layout_array dl m {} a = Some L" by (simp add: dl_array_layout_def)
  then obtain s where f: "finish_array (ad_element_count a) s (al_alignment L) = Some L"
    and nz: "ad_element_count a \<noteq> 0" by (rule layout_array_Some)
  let ?n = "ucast (ad_element_count a) :: u64"
  from f have pow: "is_power_of_two (al_alignment L)"
    and st: "checked_align_to s (al_alignment L) = Some (al_stride L)"
    and lim: "al_stride L = 0 \<or> \<not> ?n > - 1 div al_stride L"
    and sz: "al_size L = al_stride L * ?n"
    by (cases L; auto simp: finish_array_def split: if_splits option.splits)+
  have dvd: "unat (al_alignment L) dvd unat (al_stride L)"
    using st by (simp add: checked_align_to_iff)
  have n: "unat ?n = unat (ad_element_count a)" by (simp add: unat_ucast_up)
  have "unat (al_stride L) * unat ?n < 2 ^ 64"
  proof (cases "al_stride L = 0")
    case False
    then have "unat ?n \<le> (2 ^ 64 - 1) div unat (al_stride L)"
      using lim by (simp add: word_less_nat_alt unat_div_distrib unat_max_word)
    then have "unat (al_stride L) * unat ?n \<le> 2 ^ 64 - 1"
      by (metis mult.commute mult_le_mono1 order_trans div_times_less_eq_dividend)
    then show ?thesis by simp
  qed simp
  then have size: "unat (al_size L) = unat (al_stride L) * unat (ad_element_count a)"
    using sz n by (simp add: unat_mult_no_wrap)
  have "i * unat (al_stride L) + unat (al_stride L) \<le> unat (al_size L)"
    if "i < unat (ad_element_count a)" for i
    using mult_le_mono1 [of "Suc i" "unat (ad_element_count a)" "unat (al_stride L)"] that size
    by (simp add: mult.commute add.commute)
  then show ?thesis using pow dvd size nz by simp
qed

section \<open>Witnesses\<close>

definition sample_field :: "string \<Rightarrow> ir_type \<Rightarrow> struct_field" where
  "sample_field n t = \<lparr>sf_name = n, sf_type = t, sf_aggregate_kind = ARK_scalar, sf_aggregate_name = []\<rparr>"

definition sample_struct :: struct_decl where
  "sample_struct = \<lparr>sd_name = ''S'',
     sd_fields = [sample_field ''a'' TK_i8, sample_field ''b'' TK_i32, sample_field ''c'' TK_ptr],
     sd_move_only = False\<rparr>"

definition sample_loop_field :: struct_field where
  "sample_loop_field = \<lparr>sf_name = ''next'', sf_type = TK_void, sf_aggregate_kind = ARK_array,
     sf_aggregate_name = ''RS''\<rparr>"

definition sample_loop_struct :: struct_decl where
  "sample_loop_struct = \<lparr>sd_name = ''R'',
     sd_fields = [sample_loop_field],
     sd_move_only = False\<rparr>"

definition sample_loop_array :: array_decl where
  "sample_loop_array = \<lparr>ad_name = ''RS'', ad_element_type = TK_void, ad_element_aggregate_kind = ARK_structure,
     ad_element_aggregate_name = ''R'', ad_element_count = 2, ad_move_only = False\<rparr>"

definition sample_array :: array_decl where
  "sample_array = \<lparr>ad_name = ''A'', ad_element_type = TK_void, ad_element_aggregate_kind = ARK_structure,
     ad_element_aggregate_name = ''S'', ad_element_count = 3, ad_move_only = False\<rparr>"

definition sample_module :: ir_module where
  "sample_module = (ir_module_init ''m'')
     \<lparr>md_structs := [sample_struct, sample_loop_struct], md_arrays := [sample_array, sample_loop_array]\<rparr>"

definition sample_layout :: struct_layout where
  "sample_layout = \<lparr>sl_size = 16, sl_alignment = 8, sl_fields =
     [\<lparr>fl_offset = 0, fl_size = 1, fl_alignment = 1\<rparr>, \<lparr>fl_offset = 4, fl_size = 4, fl_alignment = 4\<rparr>,
      \<lparr>fl_offset = 8, fl_size = 8, fl_alignment = 8\<rparr>]\<rparr>"

lemmas sample_defs = sample_struct_def sample_loop_struct_def sample_loop_array_def sample_array_def
  sample_module_def ir_module_init_def sample_field_def sample_loop_field_def

lemma sample_struct_layout: "dl_struct_layout dl_host sample_module sample_struct = Some sample_layout"
  by (simp add: dl_struct_layout_def layout_structure.simps sample_defs place_field_def
      checked_align_to_def is_power_of_two_def dl_host_def sample_layout_def)

lemma sample_array_layout: "dl_array_layout dl_host sample_module sample_array =
    Some \<lparr>al_size = 48, al_alignment = 8, al_stride = 16\<rparr>"
  by (simp add: dl_array_layout_def layout_array.simps layout_structure.simps sample_defs place_field_def
      checked_align_to_def is_power_of_two_def dl_host_def find_struct_def finish_array_def struct_key_def
      array_key_def)

theorem struct_layout_wellformed_witness:
  "length (sl_fields sample_layout) = 3 \<and> unat (sl_alignment sample_layout) dvd unat (sl_size sample_layout)"
  using struct_layout_wellformed [OF sample_struct_layout] by (simp add: sample_defs)

theorem struct_layout_refines_rule_witness:
  "map (\<lambda>fl. unat (fl_offset fl)) (sl_fields sample_layout) = spec_offsets 0 (layout_extents sample_layout)"
  using struct_layout_refines_rule [OF sample_struct_layout] by simp

theorem struct_layout_complete_witness: "\<exists>L. dl_struct_layout dl_host sample_module sample_struct = Some L"
  by (rule struct_layout_complete [of _ _ _ "[(1, 1), (4, 4), (8, 8)]"])
     (simp_all add: sample_defs field_extent_def dl_host_def is_power_of_two_def align_up_def)

theorem recursive_struct_witness: "dl_struct_layout dl_host sample_module sample_loop_struct = None"
proof (rule recursive_struct_has_no_layout)
  have "nests sample_module (Inl sample_loop_struct) (Inr sample_loop_array)"
    by (rule nests.field_array [of sample_loop_field]) (simp_all add: sample_defs find_array_def)
  moreover have "nests sample_module (Inr sample_loop_array) (Inl sample_loop_struct)"
    by (rule nests.element_struct) (simp_all add: sample_defs find_struct_def)
  ultimately show "(nests sample_module)\<^sup>+\<^sup>+ (Inl sample_loop_struct) (Inl sample_loop_struct)" by auto
qed

theorem array_layout_wellformed_witness:
  "unat (al_size \<lparr>al_size = 48, al_alignment = 8, al_stride = 16\<rparr>) = 16 * unat (ad_element_count sample_array)"
  using array_layout_wellformed [OF sample_array_layout] by simp

end
