(* ===== verification/Binary_Format.thy ===== *)
theory Binary_Format
  imports IR_Module
begin

text \<open>
  The binary IR transport format: \<open>forge/include/forge/ir/binary.hpp\<close>, \<open>forge/src/ir/binary.cpp\<close>.
  A \<open>Writer\<close> is the list of bytes it holds and every \<open>write\<close> yields the bytes it appends, or the
  message of the \<open>std::length_error\<close> it throws. A \<open>Reader\<close> is the list of unread bytes; a read
  returns the value and the bytes left, or the message of the \<open>std::runtime_error\<close> it throws. The
  module verifier that both entry points run (\<open>verify_module\<close> of \<open>verifier.cpp\<close>) is an argument of
  \<open>write_binary\<close> and \<open>read_binary\<close>.
\<close>

unbundle bit_operations_syntax

section \<open>Constants and checksum\<close>

definition binary_magic :: "u8 list" where
  "binary_magic = [0x46, 0x49, 0x52, 0x42]"

definition binary_format_major :: u16 where
  "binary_format_major = 1"

definition binary_format_minor :: u16 where
  "binary_format_minor = 24"

definition max_collection :: nat where
  "max_collection = 1000000"

definition max_string :: nat where
  "max_string = 16 * 1024 * 1024"

text \<open>FNV-1a over the payload, in 32-bit arithmetic.\<close>

definition checksum_step :: "u32 \<Rightarrow> u8 \<Rightarrow> u32" where
  "checksum_step hash byte = (hash XOR ucast byte) * 16777619"

definition checksum :: "u8 list \<Rightarrow> u32" where
  "checksum bytes = foldl checksum_step 2166136261 bytes"

section \<open>Writer\<close>

type_synonym write_result = "string + u8 list"

text \<open>Successive writes: the bytes in order, or the first exception.\<close>

fun w_seq :: "write_result list \<Rightarrow> write_result" where
  "w_seq [] = Inr []"
| "w_seq (w # ws) =
     (case w of
        Inl e \<Rightarrow> Inl e
      | Inr bs \<Rightarrow> (case w_seq ws of Inl e \<Rightarrow> Inl e | Inr bs' \<Rightarrow> Inr (bs @ bs')))"

definition char_to_byte :: "char \<Rightarrow> u8" where
  "char_to_byte c = word_of_nat (of_char c)"

definition byte_to_char :: "u8 \<Rightarrow> char" where
  "byte_to_char b = char_of (unat b)"

definition w_u8 :: "u8 \<Rightarrow> write_result" where
  "w_u8 v = Inr [v]"

definition w_u16 :: "u16 \<Rightarrow> write_result" where
  "w_u16 v = Inr [ucast v, ucast (drop_bit 8 v)]"

definition w_u32 :: "u32 \<Rightarrow> write_result" where
  "w_u32 v = Inr [ucast v, ucast (drop_bit 8 v), ucast (drop_bit 16 v), ucast (drop_bit 24 v)]"

definition w_bytes_string :: "u8 list \<Rightarrow> write_result" where
  "w_bytes_string bs =
     (if 2 ^ 32 - 1 < length bs then Inl ''string too large''
      else w_seq [w_u32 (word_of_nat (length bs)), Inr bs])"

definition w_string :: "string \<Rightarrow> write_result" where
  "w_string s = w_bytes_string (map char_to_byte s)"

definition w_type :: "ir_type \<Rightarrow> write_result" where
  "w_type t = w_u8 (word_of_nat (type_tag t))"

definition w_bool :: "bool \<Rightarrow> write_result" where
  "w_bool b = w_u8 (if b then 1 else 0)"

definition write_vector :: "('a \<Rightarrow> write_result) \<Rightarrow> 'a list \<Rightarrow> write_result" where
  "write_vector w xs =
     (if 2 ^ 32 - 1 < length xs then Inl ''collection too large''
      else w_seq (w_u32 (word_of_nat (length xs)) # map w xs))"

text \<open>The \<open>static_cast<std::uint8_t>\<close> of each enumeration: its position in the declaration.\<close>

fun aggregate_tag :: "aggregate_ref_kind \<Rightarrow> u8" where
  "aggregate_tag ARK_scalar = 0"
| "aggregate_tag ARK_structure = 1"
| "aggregate_tag ARK_array = 2"
| "aggregate_tag (ARK_other raw) = raw"

fun borrow_tag :: "borrow_mode \<Rightarrow> u8" where
  "borrow_tag BM_none = 0"
| "borrow_tag BM_immutable = 1"
| "borrow_tag BM_mutable = 2"

fun convention_tag :: "calling_convention \<Rightarrow> u8" where
  "convention_tag CC_platform = 0"
| "convention_tag CC_c = 1"
| "convention_tag CC_system_v = 2"
| "convention_tag CC_windows_x64 = 3"
| "convention_tag CC_fast = 4"

fun linkage_tag :: "symbol_linkage \<Rightarrow> u8" where
  "linkage_tag SL_external = 0"
| "linkage_tag SL_internal = 1"
| "linkage_tag SL_weak = 2"

fun visibility_tag :: "symbol_visibility \<Rightarrow> u8" where
  "visibility_tag SV_default = 0"
| "visibility_tag SV_hidden = 1"

definition write_decl :: "value_decl \<Rightarrow> write_result" where
  "write_decl d = w_seq
     [w_string (vd_name d), w_type (vd_type d), w_u8 (aggregate_tag (vd_aggregate_kind d)),
      w_string (vd_aggregate_name d), w_bool (vd_owned d), w_u8 (borrow_tag (vd_borrow_mode d)),
      w_string (vd_function_signature_name d)]"

definition write_field :: "struct_field \<Rightarrow> write_result" where
  "write_field f = w_seq
     [w_string (sf_name f), w_type (sf_type f), w_u8 (aggregate_tag (sf_aggregate_kind f)),
      w_string (sf_aggregate_name f)]"

definition write_struct :: "struct_decl \<Rightarrow> write_result" where
  "write_struct d = w_seq
     [w_string (sd_name d), w_bool (sd_move_only d), write_vector write_field (sd_fields d)]"

definition write_array :: "array_decl \<Rightarrow> write_result" where
  "write_array a = w_seq
     [w_string (ad_name a), w_type (ad_element_type a), w_u8 (aggregate_tag (ad_element_aggregate_kind a)),
      w_string (ad_element_aggregate_name a), w_u32 (ad_element_count a), w_bool (ad_move_only a)]"

definition write_global :: "global_var \<Rightarrow> write_result" where
  "write_global g = w_seq
     [w_string (gv_name g), w_type (gv_type g), w_u8 (aggregate_tag (gv_aggregate_kind g)),
      w_string (gv_aggregate_name g), w_string (gv_function_signature_name g),
      w_bool (gv_is_constant g), w_bool (gv_is_external g), w_bool (gv_is_thread_local g),
      w_u8 (linkage_tag (gv_linkage g)), w_u8 (visibility_tag (gv_visibility g)),
      w_string (gv_initializer g), w_u32 (gv_element_count g), w_u32 (gv_alignment g),
      w_bool (gv_zero_initialized g), w_bytes_string (gv_bytes g)]"

definition write_operation :: "operation \<Rightarrow> write_result" where
  "write_operation op = w_seq
     [w_string (op_result op), w_string (op_opcode op), w_type (op_type op),
      write_vector w_string (op_operands op), write_vector w_string (op_successors op),
      write_vector (write_vector w_string) (op_successor_arguments op), w_u32 (op_alignment op)]"

definition write_block :: "ir_block \<Rightarrow> write_result" where
  "write_block b = w_seq
     [w_string (bl_name b), write_vector write_decl (bl_parameters b),
      write_vector write_operation (bl_operations b)]"

definition write_function :: "ir_function \<Rightarrow> write_result" where
  "write_function f = w_seq
     [w_string (fn_name f), w_bool (fn_is_external f), w_bool (fn_is_signature f), w_bool (fn_variadic f),
      w_u8 (convention_tag (fn_calling_convention f)), w_u8 (linkage_tag (fn_linkage f)),
      w_u8 (visibility_tag (fn_visibility f)), w_type (fn_return_type f),
      w_u8 (aggregate_tag (fn_return_aggregate_kind f)), w_string (fn_return_aggregate_name f),
      w_bool (fn_return_owned f), w_u8 (borrow_tag (fn_return_borrow_mode f)),
      w_u32 (fn_return_borrow_parameter f), write_vector write_decl (fn_parameters f),
      write_vector write_block (fn_blocks f)]"

definition write_payload :: "ir_module \<Rightarrow> write_result" where
  "write_payload m = w_seq
     [w_string (md_name m), write_vector write_struct (md_structs m), write_vector write_array (md_arrays m),
      write_vector write_global (md_globals m), write_vector write_function (md_functions m)]"

text \<open>The header: magic, version, the payload's size truncated to 32 bits, and its checksum.\<close>

definition frame_payload :: "u8 list \<Rightarrow> write_result" where
  "frame_payload payload = w_seq
     [Inr binary_magic, w_u16 binary_format_major, w_u16 binary_format_minor,
      w_u32 (word_of_nat (length payload)), w_u32 (checksum payload), Inr payload]"

record binary_write_result =
  bw_bytes :: "u8 list"
  bw_diagnostics :: diagnostics

definition write_binary :: "(ir_module \<Rightarrow> diagnostics) \<Rightarrow> ir_module \<Rightarrow> binary_write_result" where
  "write_binary verify_module m =
     (let ds = verify_module m
      in if ds \<noteq> [] then \<lparr>bw_bytes = [], bw_diagnostics = ds\<rparr>
         else case write_payload m of
                Inl e \<Rightarrow> \<lparr>bw_bytes = [], bw_diagnostics = [error_diagnostic e]\<rparr>
              | Inr payload \<Rightarrow>
                  (case frame_payload payload of
                     Inl e \<Rightarrow> \<lparr>bw_bytes = [], bw_diagnostics = [error_diagnostic e]\<rparr>
                   | Inr bytes \<Rightarrow> \<lparr>bw_bytes = bytes, bw_diagnostics = []\<rparr>))"

section \<open>Reader\<close>

type_synonym 'a reader = "u8 list \<Rightarrow> string + 'a \<times> u8 list"

definition rd_return :: "'a \<Rightarrow> 'a reader" where
  "rd_return x bs = Inr (x, bs)"

definition rd_throw :: "string \<Rightarrow> 'a reader" where
  "rd_throw e bs = Inl e"

definition rd_bind :: "'a reader \<Rightarrow> ('a \<Rightarrow> 'b reader) \<Rightarrow> 'b reader" where
  "rd_bind r k bs = (case r bs of Inl e \<Rightarrow> Inl e | Inr (x, bs') \<Rightarrow> k x bs')"

definition rd_map :: "('a \<Rightarrow> 'b) \<Rightarrow> 'a reader \<Rightarrow> 'b reader" where
  "rd_map f r = rd_bind r (\<lambda>x. rd_return (f x))"

text \<open>\<open>require(n)\<close> and the advance by \<open>n\<close> that follows it.\<close>

definition rd_take :: "nat \<Rightarrow> u8 list reader" where
  "rd_take n bs = (if n > length bs then Inl ''truncated binary IR'' else Inr (take n bs, drop n bs))"

definition r_u8 :: "u8 reader" where
  "r_u8 = rd_map hd (rd_take 1)"

definition r_u16 :: "u16 reader" where
  "r_u16 = rd_bind r_u8 (\<lambda>b0. rd_bind r_u8 (\<lambda>b1.
     rd_return (ucast b0 OR push_bit 8 (ucast b1))))"

definition r_u32 :: "u32 reader" where
  "r_u32 = rd_bind r_u8 (\<lambda>b0. rd_bind r_u8 (\<lambda>b1. rd_bind r_u8 (\<lambda>b2. rd_bind r_u8 (\<lambda>b3.
     rd_return (ucast b0 OR push_bit 8 (ucast b1) OR push_bit 16 (ucast b2) OR push_bit 24 (ucast b3))))))"

definition r_bytes_string :: "u8 list reader" where
  "r_bytes_string = rd_bind r_u32 (\<lambda>size.
     if unat size > max_string then rd_throw ''string exceeds format limit'' else rd_take (unat size))"

definition r_string :: "string reader" where
  "r_string = rd_map (map byte_to_char) r_bytes_string"

text \<open>\<open>static_cast<TypeKind>\<close> of a tag that passed the range check.\<close>

definition type_of_tag :: "u8 \<Rightarrow> ir_type" where
  "type_of_tag raw = [TK_void, TK_i1, TK_i8, TK_i16, TK_i32, TK_i64, TK_f32, TK_f64, TK_ptr] ! unat raw"

definition r_type :: "ir_type reader" where
  "r_type = rd_bind r_u8 (\<lambda>raw.
     if raw > 8 then rd_throw ''invalid type tag'' else rd_return (type_of_tag raw))"

definition r_bool :: "bool reader" where
  "r_bool = rd_map (\<lambda>b. b \<noteq> 0) r_u8"

text \<open>A checked enumeration: the tag, refused with the given message above the last enumerator.\<close>

definition r_enum :: "'a list \<Rightarrow> string \<Rightarrow> 'a reader" where
  "r_enum enumerators message = rd_bind r_u8 (\<lambda>raw.
     if unat raw > length enumerators - 1 then rd_throw message else rd_return (enumerators ! unat raw))"

definition aggregate_kinds :: "aggregate_ref_kind list" where
  "aggregate_kinds = [ARK_scalar, ARK_structure, ARK_array]"

definition borrow_modes :: "borrow_mode list" where
  "borrow_modes = [BM_none, BM_immutable, BM_mutable]"

definition calling_conventions :: "calling_convention list" where
  "calling_conventions = [CC_platform, CC_c, CC_system_v, CC_windows_x64, CC_fast]"

definition symbol_linkages :: "symbol_linkage list" where
  "symbol_linkages = [SL_external, SL_internal, SL_weak]"

definition symbol_visibilities :: "symbol_visibility list" where
  "symbol_visibilities = [SV_default, SV_hidden]"

fun read_times :: "nat \<Rightarrow> 'a reader \<Rightarrow> 'a list reader" where
  "read_times 0 r = rd_return []"
| "read_times (Suc n) r = rd_bind r (\<lambda>x. rd_map (\<lambda>xs. x # xs) (read_times n r))"

definition read_count :: "'a reader \<Rightarrow> 'a list reader" where
  "read_count r = rd_bind r_u32 (\<lambda>count.
     if unat count > max_collection then rd_throw ''collection exceeds format limit''
     else read_times (unat count) r)"

text \<open>A field present since a given minor version of the format, else its default.\<close>

definition since :: "u16 \<Rightarrow> nat \<Rightarrow> 'a reader \<Rightarrow> 'a \<Rightarrow> 'a reader" where
  "since minor version r dflt = (if unat minor \<ge> version then r else rd_return dflt)"

definition read_decl :: "u16 \<Rightarrow> value_decl reader" where
  "read_decl minor =
     rd_bind r_string (\<lambda>name. rd_bind r_type (\<lambda>ty.
       if unat minor \<ge> 10 then
         rd_bind (r_enum aggregate_kinds ''invalid aggregate value kind'') (\<lambda>kind.
         rd_bind r_string (\<lambda>aname.
         rd_bind (since minor 13 r_bool False) (\<lambda>owned.
         rd_bind (since minor 16 (r_enum borrow_modes ''invalid parameter borrow mode'') BM_none) (\<lambda>mode.
         rd_bind (since minor 19 r_string []) (\<lambda>sig.
         rd_return \<lparr>vd_name = name, vd_type = ty, vd_aggregate_kind = kind, vd_aggregate_name = aname,
           vd_owned = owned, vd_borrow_mode = mode, vd_function_signature_name = sig\<rparr>)))))
       else rd_return (value_decl_init\<lparr>vd_name := name, vd_type := ty\<rparr>)))"

definition read_field :: "u16 \<Rightarrow> struct_field reader" where
  "read_field minor =
     rd_bind r_string (\<lambda>name. rd_bind r_type (\<lambda>ty.
       if unat minor \<ge> 8 then
         rd_bind (r_enum aggregate_kinds ''invalid aggregate field kind'') (\<lambda>kind.
         rd_bind r_string (\<lambda>aname.
         rd_return \<lparr>sf_name = name, sf_type = ty, sf_aggregate_kind = kind, sf_aggregate_name = aname\<rparr>))
       else rd_return \<lparr>sf_name = name, sf_type = ty, sf_aggregate_kind = ARK_scalar, sf_aggregate_name = []\<rparr>))"

definition read_struct :: "u16 \<Rightarrow> struct_decl reader" where
  "read_struct minor =
     rd_bind r_string (\<lambda>name. rd_bind (since minor 14 r_bool False) (\<lambda>move_only.
     rd_bind (read_count (read_field minor)) (\<lambda>fs.
     rd_return \<lparr>sd_name = name, sd_fields = fs, sd_move_only = move_only\<rparr>)))"

definition read_array :: "u16 \<Rightarrow> array_decl reader" where
  "read_array minor =
     rd_bind r_string (\<lambda>name. rd_bind r_type (\<lambda>ty.
     rd_bind (since minor 23 (r_enum aggregate_kinds ''invalid array element aggregate kind'') ARK_scalar) (\<lambda>kind.
     rd_bind (since minor 23 r_string []) (\<lambda>aname.
     rd_bind r_u32 (\<lambda>count. rd_bind (since minor 14 r_bool False) (\<lambda>move_only.
     rd_return \<lparr>ad_name = name, ad_element_type = ty, ad_element_aggregate_kind = kind,
       ad_element_aggregate_name = aname, ad_element_count = count, ad_move_only = move_only\<rparr>))))))"

text \<open>\<open>static_cast<AggregateRefKind>(payload.u8())\<close>, which the reader of a global does not check.\<close>

definition aggregate_of_tag :: "u8 \<Rightarrow> aggregate_ref_kind" where
  "aggregate_of_tag raw = (if raw > 2 then ARK_other raw else aggregate_kinds ! unat raw)"

definition read_global :: "u16 \<Rightarrow> global_var reader" where
  "read_global minor =
     rd_bind r_string (\<lambda>name. rd_bind r_type (\<lambda>ty.
     rd_bind (since minor 9 (rd_map aggregate_of_tag r_u8) ARK_scalar) (\<lambda>kind.
     rd_bind (since minor 9 r_string []) (\<lambda>aname.
     rd_bind (since minor 20 r_string []) (\<lambda>sig.
     rd_bind r_bool (\<lambda>constant.
     rd_bind (since minor 4 r_bool False) (\<lambda>external.
     rd_bind (since minor 24 r_bool False) (\<lambda>tls.
     rd_bind (since minor 22 (rd_bind r_u8 (\<lambda>l. rd_bind r_u8 (\<lambda>v.
         if l > 2 then rd_throw ''invalid global linkage''
         else if v > 1 then rd_throw ''invalid global visibility''
         else rd_return (symbol_linkages ! unat l, symbol_visibilities ! unat v))))
       (SL_external, SV_default)) (\<lambda>(linkage, visibility).
     rd_bind r_string (\<lambda>initializer.
     rd_bind (since minor 5 (rd_bind r_u32 (\<lambda>count. rd_bind r_u32 (\<lambda>alignment. rd_bind r_bool (\<lambda>zero.
         rd_bind r_bytes_string (\<lambda>bytes. rd_return (count, alignment, zero, bytes))))))
       (1, 0, False, [])) (\<lambda>(count, alignment, zero, bytes).
     rd_return \<lparr>gv_name = name, gv_type = ty, gv_aggregate_kind = kind, gv_aggregate_name = aname,
       gv_function_signature_name = sig, gv_is_constant = constant, gv_is_external = external,
       gv_is_thread_local = tls, gv_linkage = linkage, gv_visibility = visibility,
       gv_initializer = initializer, gv_element_count = count, gv_alignment = alignment,
       gv_zero_initialized = zero, gv_bytes = bytes\<rparr>)))))))))))"

definition read_operation :: "u16 \<Rightarrow> operation reader" where
  "read_operation minor =
     rd_bind r_string (\<lambda>result. rd_bind r_string (\<lambda>opcode. rd_bind r_type (\<lambda>ty.
     rd_bind (read_count r_string) (\<lambda>operands.
     rd_bind (read_count r_string) (\<lambda>successors.
     rd_bind (read_count (read_count r_string)) (\<lambda>arguments.
     rd_bind (since minor 3 r_u32 0) (\<lambda>alignment.
     rd_return \<lparr>op_result = result, op_opcode = opcode, op_type = ty, op_operands = operands,
       op_successors = successors, op_successor_arguments = arguments, op_alignment = alignment,
       op_source_file = [], op_source_line = 0, op_source_column = 0, op_source_end_line = 0,
       op_source_end_column = 0, op_attributes = []\<rparr>)))))))"

definition read_block :: "u16 \<Rightarrow> ir_block reader" where
  "read_block minor =
     rd_bind r_string (\<lambda>name. rd_bind (read_count (read_decl minor)) (\<lambda>parameters.
     rd_bind (read_count (read_operation minor)) (\<lambda>operations.
     rd_return \<lparr>bl_name = name, bl_parameters = parameters, bl_operations = operations\<rparr>)))"

definition read_function :: "u16 \<Rightarrow> ir_function reader" where
  "read_function minor =
     rd_bind r_string (\<lambda>name.
     rd_bind (since minor 18 (rd_bind r_bool (\<lambda>e. rd_bind r_bool (\<lambda>s. rd_return (e, s)))) (False, False))
       (\<lambda>(external, signature).
     rd_bind (since minor 22 (rd_bind r_bool (\<lambda>variadic.
         rd_bind r_u8 (\<lambda>c. rd_bind r_u8 (\<lambda>l. rd_bind r_u8 (\<lambda>v.
           if c > 4 then rd_throw ''invalid calling convention''
           else if l > 2 then rd_throw ''invalid function linkage''
           else if v > 1 then rd_throw ''invalid function visibility''
           else rd_return (variadic, calling_conventions ! unat c, symbol_linkages ! unat l,
                  symbol_visibilities ! unat v))))))
       (False, CC_platform, SL_external, SV_default)) (\<lambda>(variadic, convention, linkage, visibility).
     rd_bind r_type (\<lambda>return_type.
     rd_bind (since minor 11 (rd_bind (r_enum aggregate_kinds ''invalid aggregate return kind'') (\<lambda>k.
         rd_bind r_string (\<lambda>n. rd_return (k, n)))) (ARK_scalar, [])) (\<lambda>(kind, aname).
     rd_bind (since minor 12 r_bool False) (\<lambda>owned.
     rd_bind (since minor 17 (rd_bind (r_enum borrow_modes ''invalid return borrow mode'') (\<lambda>m.
         rd_bind r_u32 (\<lambda>p. rd_return (m, p)))) (BM_none, - 1)) (\<lambda>(mode, parameter).
     rd_bind (read_count (read_decl minor)) (\<lambda>parameters.
     rd_bind (read_count (read_block minor)) (\<lambda>blocks.
     rd_return \<lparr>fn_name = name, fn_is_external = external \<or> (unat minor < 18 \<and> blocks = []),
       fn_is_signature = signature, fn_variadic = variadic, fn_target_feature = [],
       fn_calling_convention = convention, fn_linkage = linkage, fn_visibility = visibility,
       fn_return_type = return_type, fn_return_aggregate_kind = kind, fn_return_aggregate_name = aname,
       fn_return_owned = owned, fn_return_borrow_mode = mode, fn_return_borrow_parameter = parameter,
       fn_parameters = parameters, fn_blocks = blocks\<rparr>)))))))))"

definition read_payload :: "u16 \<Rightarrow> ir_module reader" where
  "read_payload minor =
     rd_bind r_string (\<lambda>name.
     rd_bind (since minor 6 (read_count (read_struct minor)) []) (\<lambda>structs.
     rd_bind (since minor 7 (read_count (read_array minor)) []) (\<lambda>arrays.
     rd_bind (since minor 2 (read_count (read_global minor)) []) (\<lambda>globals.
     rd_bind (read_count (read_function minor)) (\<lambda>functions.
     rd_return \<lparr>md_name = name, md_structs = structs, md_arrays = arrays, md_globals = globals,
       md_functions = functions, md_metadata = []\<rparr>)))))"

text \<open>The magic is compared byte by byte as it is read.\<close>

fun expect_magic :: "u8 list \<Rightarrow> unit reader" where
  "expect_magic [] = rd_return ()"
| "expect_magic (e # es) = rd_bind r_u8 (\<lambda>b.
     if b \<noteq> e then rd_throw ''invalid binary IR magic'' else expect_magic es)"

text \<open>The header fields the reader keeps: minor version, payload size, expected checksum.\<close>

definition read_header :: "(u16 \<times> u32 \<times> u32) reader" where
  "read_header =
     rd_bind (expect_magic binary_magic) (\<lambda>_. rd_bind r_u16 (\<lambda>major. rd_bind r_u16 (\<lambda>minor.
       if major \<noteq> binary_format_major then rd_throw ''unsupported binary IR major version''
       else if minor > binary_format_minor then rd_throw ''binary IR requires a newer reader''
       else rd_bind r_u32 (\<lambda>payload_size. rd_bind r_u32 (\<lambda>expected_checksum.
         rd_return (minor, payload_size, expected_checksum))))))"

text \<open>Everything inside the \<open>try\<close> block of \<open>read_binary\<close> before the final verification.\<close>

definition decode_module :: "u8 list \<Rightarrow> string + ir_module" where
  "decode_module bytes =
     (case read_header bytes of
        Inl e \<Rightarrow> Inl e
      | Inr ((minor, payload_size, expected_checksum), _) \<Rightarrow>
          if length bytes < 16 \<or> length bytes - 16 \<noteq> unat payload_size then Inl ''binary IR size mismatch''
          else let payload_bytes = subspan bytes 16 (unat payload_size)
               in if checksum payload_bytes \<noteq> expected_checksum then Inl ''binary IR checksum mismatch''
                  else case read_payload minor payload_bytes of
                         Inl e \<Rightarrow> Inl e
                       | Inr (m, rest) \<Rightarrow>
                           if rest \<noteq> [] then Inl ''trailing data in binary IR payload'' else Inr m)"

record binary_read_result =
  br_module :: ir_module
  br_diagnostics :: diagnostics

definition read_binary :: "(ir_module \<Rightarrow> diagnostics) \<Rightarrow> u8 list \<Rightarrow> binary_read_result" where
  "read_binary verify_module bytes =
     (case decode_module bytes of
        Inl e \<Rightarrow> \<lparr>br_module = ir_module_init ''invalid'', br_diagnostics = [error_diagnostic e]\<rparr>
      | Inr m \<Rightarrow> \<lparr>br_module = m, br_diagnostics = verify_module m\<rparr>)"

end
