(* ===== verification/Binary_Format_Props.thy ===== *)
theory Binary_Format_Props
  imports Binary_Format
begin

text \<open>
  Properties of the binary format. The locale \<open>codec\<close> is the interface between a writer and the reader
  of the same thing: what \<open>enc\<close> appends, \<open>dec\<close> reads back up to the fields the format does not carry
  (\<open>norm\<close>), leaving the rest of the input alone. Inside it the vectors \<open>write_vector\<close>/\<open>read_count\<close> are
  proved once; it is interpreted for every level of the module tree. Results: the round trip of whole
  modules, detection of every single-byte corruption and every truncation of an accepted file, and two
  limits of the format (fields it drops, sizes the writer accepts and the reader refuses).
\<close>

unbundle bit_operations_syntax

section \<open>Writers and readers that match\<close>

definition decodes_to :: "write_result \<Rightarrow> 'a reader \<Rightarrow> 'a \<Rightarrow> bool" where
  "decodes_to w r x \<longleftrightarrow> (\<exists>bs. w = Inr bs \<and> (\<forall>rest. r (bs @ rest) = Inr (x, rest)))"

named_theorems codec_intros "introduction rules for decodes_to"

lemma decodes_return [codec_intros]: "decodes_to (w_seq []) (rd_return x) x"
  by (simp add: decodes_to_def rd_return_def)

lemma decodes_bind [codec_intros]:
  assumes "decodes_to w r x" and "decodes_to (w_seq ws) (k x) y"
  shows "decodes_to (w_seq (w # ws)) (rd_bind r k) y"
  using assms by (fastforce simp: decodes_to_def rd_bind_def)

lemma decodes_last:
  assumes "decodes_to w r x"
  shows "decodes_to (w_seq [w]) r x"
  using assms by (auto simp: decodes_to_def)

lemma decodes_map:
  assumes "decodes_to w r x"
  shows "decodes_to w (rd_map f r) (f x)"
  using assms by (auto simp: decodes_to_def rd_map_def rd_bind_def rd_return_def)

lemma decodes_toI: "w = Inr bs \<Longrightarrow> (\<And>rest. r (bs @ rest) = Inr (x, rest)) \<Longrightarrow> decodes_to w r x"
  by (auto simp: decodes_to_def)

lemma rd_take_append [reader_simps]: "n = length bs \<Longrightarrow> rd_take n (bs @ rest) = Inr (bs, rest)"
  by (simp add: rd_take_def)

lemma r_u8_Cons [reader_simps]: "r_u8 (b # rest) = Inr (b, rest)"
  by (simp add: r_u8_def rd_map_def rd_bind_def rd_take_def rd_return_def)

lemma decodes_u8 [codec_intros]: "decodes_to (w_u8 v) r_u8 v"
  by (rule decodes_toI [OF w_u8_def]) (simp add: reader_simps)

lemma w_u16_le_bytes: "w_u16 v = Inr (le_bytes 2 v)"
  by (simp add: w_u16_def numeral_2_eq_2)

lemma w_u32_le_bytes: "w_u32 v = Inr (le_bytes 4 v)"
  by (simp add: w_u32_def numeral_eq_Suc)

lemma push_bit_or: "push_bit n (v OR w) = push_bit n v OR push_bit n (w :: 'a::len word)"
  by (rule bit_word_eqI) (auto simp: bit_simps)

lemma length_2_conv: "length bs = 2 \<longleftrightarrow> (\<exists>a b. bs = [a, b])"
  and length_4_conv: "length bs = 4 \<longleftrightarrow> (\<exists>a b c d. bs = [a, b, c, d])"
  by (auto simp: numeral_eq_Suc length_Suc_conv)

lemma r_u16_append [reader_simps]: "length bs = 2 \<Longrightarrow> r_u16 (bs @ rest) = Inr (le_word bs, rest)"
  by (auto simp: length_2_conv r_u16_def rd_bind_def rd_return_def reader_simps)

lemma r_u32_append [reader_simps]: "length bs = 4 \<Longrightarrow> r_u32 (bs @ rest) = Inr (le_word bs, rest)"
  by (auto simp: length_4_conv r_u32_def rd_bind_def rd_return_def reader_simps push_bit_or)

lemma decodes_u16 [codec_intros]: "decodes_to (w_u16 v) r_u16 v"
  by (rule decodes_toI [OF w_u16_le_bytes]) (simp add: reader_simps byte_simps)

lemma decodes_u32 [codec_intros]: "decodes_to (w_u32 v) r_u32 v"
  by (rule decodes_toI [OF w_u32_le_bytes]) (simp add: reader_simps byte_simps)

lemma unat_of_length: "n \<le> 2 ^ 32 - 1 \<Longrightarrow> unat (word_of_nat n :: u32) = n"
  by (simp add: unat_of_nat)

lemma decodes_bytes_string [codec_intros]:
  assumes "length bs \<le> max_string"
  shows "decodes_to (w_bytes_string bs) r_bytes_string bs"
proof -
  have len: "unat (word_of_nat (length bs) :: u32) = length bs"
    using assms by (intro unat_of_length) (simp add: max_string_def)
  have "decodes_to (w_seq [w_u32 (word_of_nat (length bs)), Inr bs]) r_bytes_string bs"
    unfolding r_bytes_string_def
    by (rule decodes_bind [OF decodes_u32], rule decodes_last, rule decodes_toI [OF refl])
       (use assms len in \<open>simp add: reader_simps\<close>)
  then show ?thesis using assms by (simp add: w_bytes_string_def max_string_def)
qed

lemma byte_char_inverse [byte_simps]: "byte_to_char (char_to_byte c) = c"
proof -
  have "of_char c < (256 :: nat)" by simp
  then show ?thesis by (simp add: byte_to_char_def char_to_byte_def unat_of_nat)
qed

definition ok_string :: "string \<Rightarrow> bool" where
  "ok_string s \<longleftrightarrow> length s \<le> max_string"

lemma decodes_string [codec_intros]:
  assumes "ok_string s"
  shows "decodes_to (w_string s) r_string s"
proof -
  have "decodes_to (w_string s) r_string (map byte_to_char (map char_to_byte s))"
    unfolding w_string_def r_string_def
    using assms by (intro decodes_map decodes_bytes_string) (simp add: ok_string_def)
  then show ?thesis by (simp add: byte_simps comp_def)
qed

lemma type_of_tag_inverse: "type_of_tag (word_of_nat (type_tag t)) = t"
  by (cases t) (simp_all add: type_of_tag_def)

lemma decodes_type [codec_intros]: "decodes_to (w_type t) r_type t"
proof -
  have "\<not> (word_of_nat (type_tag t) :: u8) > 8" by (cases t) simp_all
  then show ?thesis unfolding w_type_def
    by (intro decodes_toI [OF w_u8_def]) (simp add: r_type_def rd_bind_def reader_simps rd_return_def
        type_of_tag_inverse)
qed

lemma decodes_bool [codec_intros]: "decodes_to (w_bool b) r_bool b"
  unfolding w_bool_def
  by (rule decodes_toI [OF w_u8_def]) (simp add: r_bool_def rd_map_def rd_bind_def reader_simps rd_return_def)

lemma decodes_enum:
  assumes "unat tag < length es" and "es ! unat tag = x"
  shows "decodes_to (w_u8 tag) (r_enum es message) x"
  using assms by (intro decodes_toI [OF w_u8_def])
    (auto simp: r_enum_def rd_bind_def reader_simps rd_return_def)

definition ok_kind :: "aggregate_ref_kind \<Rightarrow> bool" where
  "ok_kind k \<longleftrightarrow> k \<in> set aggregate_kinds"

lemma decodes_kind [codec_intros]:
  "ok_kind k \<Longrightarrow> decodes_to (w_u8 (aggregate_tag k)) (r_enum aggregate_kinds message) k"
  by (rule decodes_enum; cases k) (auto simp: ok_kind_def aggregate_kinds_def)

lemma decodes_borrow [codec_intros]: "decodes_to (w_u8 (borrow_tag b)) (r_enum borrow_modes message) b"
  by (rule decodes_enum; cases b) (simp_all add: borrow_modes_def)

text \<open>The writer emits the current minor version, so every versioned field is present.\<close>

lemma since_current [simp]: "version \<le> 24 \<Longrightarrow> since binary_format_minor version r d = r"
  by (simp add: since_def binary_format_minor_def)

section \<open>The codec interface\<close>

text \<open>A vector of encodable elements that the reader's collection limit admits.\<close>

definition ok_vector :: "('a \<Rightarrow> bool) \<Rightarrow> 'a list \<Rightarrow> bool" where
  "ok_vector ok xs \<longleftrightarrow> length xs \<le> max_collection \<and> list_all ok xs"

locale codec =
  fixes enc :: "'a \<Rightarrow> write_result" and dec :: "'a reader" and norm :: "'a \<Rightarrow> 'a" and ok :: "'a \<Rightarrow> bool"
  assumes decodes: "ok x \<Longrightarrow> decodes_to (enc x) dec (norm x)"
begin

lemma times: "list_all ok xs \<Longrightarrow> decodes_to (w_seq (map enc xs)) (read_times (length xs) dec) (map norm xs)"
proof (induction xs)
  case Nil
  show ?case using decodes_return [of "[]"] by simp
next
  case (Cons x xs)
  then have "decodes_to (w_seq (enc x # map enc xs)) (read_times (length (x # xs)) dec) (norm x # map norm xs)"
    unfolding length_Cons read_times.simps
    by (intro decodes_bind [OF decodes]) (auto intro: decodes_map)
  then show ?case by (simp only: list.map)
qed

lemma vector: "ok_vector ok xs \<Longrightarrow> decodes_to (write_vector enc xs) (read_count dec) (map norm xs)"
proof -
  assume ok: "ok_vector ok xs"
  then have len: "unat (word_of_nat (length xs) :: u32) = length xs"
    by (intro unat_of_length) (simp add: ok_vector_def max_collection_def)
  have "decodes_to (w_seq (w_u32 (word_of_nat (length xs)) # map enc xs)) (read_count dec) (map norm xs)"
    unfolding read_count_def
    by (rule decodes_bind [OF decodes_u32]) (use ok len times in \<open>simp add: ok_vector_def\<close>)
  then show ?thesis using ok by (simp add: write_vector_def ok_vector_def max_collection_def)
qed

end

section \<open>What the format carries\<close>

text \<open>
  The fields \<open>write_binary\<close> does not write: an operation's source range and attributes, a function's
  target feature, the module's metadata. \<open>strip_module\<close> resets them to their defaults.
\<close>

definition strip_operation :: "operation \<Rightarrow> operation" where
  "strip_operation op = op\<lparr>op_source_file := [], op_source_line := 0, op_source_column := 0,
     op_source_end_line := 0, op_source_end_column := 0, op_attributes := []\<rparr>"

definition strip_block :: "ir_block \<Rightarrow> ir_block" where
  "strip_block b = b\<lparr>bl_operations := map strip_operation (bl_operations b)\<rparr>"

definition strip_function :: "ir_function \<Rightarrow> ir_function" where
  "strip_function f = f\<lparr>fn_target_feature := [], fn_blocks := map strip_block (fn_blocks f)\<rparr>"

definition strip_module :: "ir_module \<Rightarrow> ir_module" where
  "strip_module m = m\<lparr>md_functions := map strip_function (md_functions m), md_metadata := []\<rparr>"

definition ok_decl :: "value_decl \<Rightarrow> bool" where
  "ok_decl d \<longleftrightarrow> ok_string (vd_name d) \<and> ok_kind (vd_aggregate_kind d) \<and> ok_string (vd_aggregate_name d) \<and>
     ok_string (vd_function_signature_name d)"

definition ok_field :: "struct_field \<Rightarrow> bool" where
  "ok_field f \<longleftrightarrow> ok_string (sf_name f) \<and> ok_kind (sf_aggregate_kind f) \<and> ok_string (sf_aggregate_name f)"

definition ok_struct :: "struct_decl \<Rightarrow> bool" where
  "ok_struct d \<longleftrightarrow> ok_string (sd_name d) \<and> ok_vector ok_field (sd_fields d)"

definition ok_array :: "array_decl \<Rightarrow> bool" where
  "ok_array a \<longleftrightarrow> ok_string (ad_name a) \<and> ok_kind (ad_element_aggregate_kind a) \<and>
     ok_string (ad_element_aggregate_name a)"

definition ok_global :: "global_var \<Rightarrow> bool" where
  "ok_global g \<longleftrightarrow> ok_string (gv_name g) \<and> aggregate_of_tag (aggregate_tag (gv_aggregate_kind g)) = gv_aggregate_kind g \<and>
     ok_string (gv_aggregate_name g) \<and> ok_string (gv_function_signature_name g) \<and>
     ok_string (gv_initializer g) \<and> length (gv_bytes g) \<le> max_string"

definition ok_operation :: "operation \<Rightarrow> bool" where
  "ok_operation op \<longleftrightarrow> ok_string (op_result op) \<and> ok_string (op_opcode op) \<and>
     ok_vector ok_string (op_operands op) \<and> ok_vector ok_string (op_successors op) \<and>
     ok_vector (ok_vector ok_string) (op_successor_arguments op)"

definition ok_block :: "ir_block \<Rightarrow> bool" where
  "ok_block b \<longleftrightarrow> ok_string (bl_name b) \<and> ok_vector ok_decl (bl_parameters b) \<and>
     ok_vector ok_operation (bl_operations b)"

definition ok_function :: "ir_function \<Rightarrow> bool" where
  "ok_function f \<longleftrightarrow> ok_string (fn_name f) \<and> ok_kind (fn_return_aggregate_kind f) \<and>
     ok_string (fn_return_aggregate_name f) \<and> ok_vector ok_decl (fn_parameters f) \<and>
     ok_vector ok_block (fn_blocks f)"

text \<open>A module within the limits of the reader.\<close>

definition encodable :: "ir_module \<Rightarrow> bool" where
  "encodable m \<longleftrightarrow> ok_string (md_name m) \<and> ok_vector ok_struct (md_structs m) \<and>
     ok_vector ok_array (md_arrays m) \<and> ok_vector ok_global (md_globals m) \<and>
     ok_vector ok_function (md_functions m)"

section \<open>The codecs of the module tree\<close>

interpretation string_codec: codec w_string r_string "\<lambda>s. s" ok_string
  by unfold_locales (rule decodes_string)

interpretation strings_codec: codec "write_vector w_string" "read_count r_string" "\<lambda>s. s" "ok_vector ok_string"
  by unfold_locales (use string_codec.vector in simp)

interpretation decl_codec: codec write_decl "read_decl binary_format_minor" "\<lambda>d. d" ok_decl
proof
  fix d assume "ok_decl d"
  then have "decodes_to (write_decl d) (read_decl binary_format_minor)
    \<lparr>vd_name = vd_name d, vd_type = vd_type d, vd_aggregate_kind = vd_aggregate_kind d,
     vd_aggregate_name = vd_aggregate_name d, vd_owned = vd_owned d, vd_borrow_mode = vd_borrow_mode d,
     vd_function_signature_name = vd_function_signature_name d\<rparr>"
    unfolding write_decl_def read_decl_def ok_decl_def
    by (auto simp: binary_format_minor_def since_def simp del: w_seq.simps intro!: codec_intros)
  then show "decodes_to (write_decl d) (read_decl binary_format_minor) d" by (cases d) simp
qed

interpretation field_codec: codec write_field "read_field binary_format_minor" "\<lambda>f. f" ok_field
proof
  fix f assume "ok_field f"
  then have "decodes_to (write_field f) (read_field binary_format_minor)
    \<lparr>sf_name = sf_name f, sf_type = sf_type f, sf_aggregate_kind = sf_aggregate_kind f,
     sf_aggregate_name = sf_aggregate_name f\<rparr>"
    unfolding write_field_def read_field_def ok_field_def
    by (auto simp: binary_format_minor_def since_def simp del: w_seq.simps intro!: codec_intros)
  then show "decodes_to (write_field f) (read_field binary_format_minor) f" by (cases f) simp
qed

lemma decodes_fields [codec_intros]:
  "ok_vector ok_field fs \<Longrightarrow> decodes_to (write_vector write_field fs) (read_count (read_field binary_format_minor)) fs"
  using field_codec.vector by simp

lemma decodes_decls [codec_intros]:
  "ok_vector ok_decl ds \<Longrightarrow> decodes_to (write_vector write_decl ds) (read_count (read_decl binary_format_minor)) ds"
  using decl_codec.vector by simp

lemma decodes_strings [codec_intros]:
  "ok_vector ok_string ss \<Longrightarrow> decodes_to (write_vector w_string ss) (read_count r_string) ss"
  using string_codec.vector by simp

lemma decodes_string_lists [codec_intros]:
  "ok_vector (ok_vector ok_string) sss \<Longrightarrow>
   decodes_to (write_vector (write_vector w_string) sss) (read_count (read_count r_string)) sss"
  using strings_codec.vector by simp

interpretation struct_codec: codec write_struct "read_struct binary_format_minor" "\<lambda>d. d" ok_struct
proof
  fix d assume "ok_struct d"
  then have "decodes_to (write_struct d) (read_struct binary_format_minor)
    \<lparr>sd_name = sd_name d, sd_fields = sd_fields d, sd_move_only = sd_move_only d\<rparr>"
    unfolding write_struct_def read_struct_def ok_struct_def
    by (auto simp del: w_seq.simps intro!: codec_intros)
  then show "decodes_to (write_struct d) (read_struct binary_format_minor) d" by (cases d) simp
qed

interpretation array_codec: codec write_array "read_array binary_format_minor" "\<lambda>a. a" ok_array
proof
  fix a assume "ok_array a"
  then have "decodes_to (write_array a) (read_array binary_format_minor)
    \<lparr>ad_name = ad_name a, ad_element_type = ad_element_type a,
     ad_element_aggregate_kind = ad_element_aggregate_kind a,
     ad_element_aggregate_name = ad_element_aggregate_name a, ad_element_count = ad_element_count a,
     ad_move_only = ad_move_only a\<rparr>"
    unfolding write_array_def read_array_def ok_array_def
    by (auto simp del: w_seq.simps intro!: codec_intros)
  then show "decodes_to (write_array a) (read_array binary_format_minor) a" by (cases a) simp
qed

interpretation operation_codec: codec write_operation "read_operation binary_format_minor" strip_operation ok_operation
proof
  fix op assume "ok_operation op"
  then have "decodes_to (write_operation op) (read_operation binary_format_minor)
    \<lparr>op_result = op_result op, op_opcode = op_opcode op, op_type = op_type op, op_operands = op_operands op,
     op_successors = op_successors op, op_successor_arguments = op_successor_arguments op,
     op_alignment = op_alignment op, op_source_file = [], op_source_line = 0, op_source_column = 0,
     op_source_end_line = 0, op_source_end_column = 0, op_attributes = []\<rparr>"
    unfolding write_operation_def read_operation_def ok_operation_def
    by (auto simp del: w_seq.simps intro!: codec_intros)
  then show "decodes_to (write_operation op) (read_operation binary_format_minor) (strip_operation op)"
    by (cases op) (simp add: strip_operation_def)
qed

interpretation block_codec: codec write_block "read_block binary_format_minor" strip_block ok_block
proof
  fix b assume "ok_block b"
  then have "decodes_to (write_block b) (read_block binary_format_minor)
    \<lparr>bl_name = bl_name b, bl_parameters = bl_parameters b, bl_operations = map strip_operation (bl_operations b)\<rparr>"
    unfolding write_block_def read_block_def ok_block_def
    by (auto simp del: w_seq.simps intro!: codec_intros operation_codec.vector)
  then show "decodes_to (write_block b) (read_block binary_format_minor) (strip_block b)"
    by (cases b) (simp add: strip_block_def)
qed

lemma rd_bind_assoc [simp]: "rd_bind (rd_bind r k) k' = rd_bind r (\<lambda>x. rd_bind (k x) k')"
  by (rule ext) (auto simp: rd_bind_def split: sum.splits)

lemma rd_bind_return [simp]: "rd_bind (rd_return x) k = k x"
  by (rule ext) (simp add: rd_bind_def rd_return_def)

lemma rd_bind_if [simp]: "rd_bind (if b then r else r') k = (if b then rd_bind r k else rd_bind r' k)"
  by simp

lemma convention_tag_simps [simp]:
  "\<not> convention_tag c > 4" "calling_conventions ! unat (convention_tag c) = c"
  by (cases c; simp add: calling_conventions_def)+

lemma linkage_tag_simps [simp]:
  "\<not> linkage_tag l > 2" "symbol_linkages ! unat (linkage_tag l) = l"
  by (cases l; simp add: symbol_linkages_def)+

lemma visibility_tag_simps [simp]:
  "\<not> visibility_tag v > 1" "symbol_visibilities ! unat (visibility_tag v) = v"
  by (cases v; simp add: symbol_visibilities_def)+

lemma decodes_global_kind [codec_intros]:
  "aggregate_of_tag (aggregate_tag k) = k \<Longrightarrow> decodes_to (w_u8 (aggregate_tag k)) (rd_map aggregate_of_tag r_u8) k"
  using decodes_map [OF decodes_u8, of "aggregate_tag k" aggregate_of_tag] by simp

interpretation global_codec: codec write_global "read_global binary_format_minor" "\<lambda>g. g" ok_global
proof
  fix g assume "ok_global g"
  then have "decodes_to (write_global g) (read_global binary_format_minor)
    \<lparr>gv_name = gv_name g, gv_type = gv_type g, gv_aggregate_kind = gv_aggregate_kind g,
     gv_aggregate_name = gv_aggregate_name g, gv_function_signature_name = gv_function_signature_name g,
     gv_is_constant = gv_is_constant g, gv_is_external = gv_is_external g,
     gv_is_thread_local = gv_is_thread_local g, gv_linkage = gv_linkage g, gv_visibility = gv_visibility g,
     gv_initializer = gv_initializer g, gv_element_count = gv_element_count g,
     gv_alignment = gv_alignment g, gv_zero_initialized = gv_zero_initialized g, gv_bytes = gv_bytes g\<rparr>"
    unfolding write_global_def read_global_def ok_global_def
    by (auto simp del: w_seq.simps intro!: codec_intros)
  then show "decodes_to (write_global g) (read_global binary_format_minor) g" by (cases g) simp
qed

interpretation function_codec: codec write_function "read_function binary_format_minor" strip_function ok_function
proof
  fix f assume "ok_function f"
  then have "decodes_to (write_function f) (read_function binary_format_minor)
    \<lparr>fn_name = fn_name f, fn_is_external = fn_is_external f, fn_is_signature = fn_is_signature f,
     fn_variadic = fn_variadic f, fn_target_feature = [], fn_calling_convention = fn_calling_convention f,
     fn_linkage = fn_linkage f, fn_visibility = fn_visibility f, fn_return_type = fn_return_type f,
     fn_return_aggregate_kind = fn_return_aggregate_kind f,
     fn_return_aggregate_name = fn_return_aggregate_name f, fn_return_owned = fn_return_owned f,
     fn_return_borrow_mode = fn_return_borrow_mode f,
     fn_return_borrow_parameter = fn_return_borrow_parameter f, fn_parameters = fn_parameters f,
     fn_blocks = map strip_block (fn_blocks f)\<rparr>"
    unfolding write_function_def read_function_def ok_function_def
    by (auto simp: binary_format_minor_def [THEN arg_cong, of unat] simp del: w_seq.simps
        intro!: codec_intros block_codec.vector)
  then show "decodes_to (write_function f) (read_function binary_format_minor) (strip_function f)"
    by (cases f) (simp add: strip_function_def)
qed

lemma decodes_payload:
  assumes "encodable m"
  shows "decodes_to (write_payload m) (read_payload binary_format_minor) (strip_module m)"
proof -
  have "decodes_to (write_payload m) (read_payload binary_format_minor)
    \<lparr>md_name = md_name m, md_structs = md_structs m, md_arrays = md_arrays m, md_globals = md_globals m,
     md_functions = map strip_function (md_functions m), md_metadata = []\<rparr>"
    using assms struct_codec.vector array_codec.vector global_codec.vector
    unfolding write_payload_def read_payload_def encodable_def
    by (auto simp del: w_seq.simps intro!: codec_intros function_codec.vector)
  then show ?thesis by (cases m) (simp add: strip_module_def)
qed

section \<open>The file header\<close>

text \<open>A reader that takes exactly \<open>n\<close> bytes whenever it succeeds.\<close>

definition reads_exactly :: "nat \<Rightarrow> 'a reader \<Rightarrow> bool" where
  "reads_exactly n r \<longleftrightarrow> (\<forall>bs x rest. r bs = Inr (x, rest) \<longrightarrow>
     n \<le> length bs \<and> rest = drop n bs \<and> (\<forall>bs'. r (take n bs @ bs') = Inr (x, bs')))"

lemma reads_exactly_return: "reads_exactly 0 (rd_return x)"
  by (simp add: reads_exactly_def rd_return_def)

lemma reads_exactly_throw: "reads_exactly n (rd_throw e)"
  by (simp add: reads_exactly_def rd_throw_def)

lemma reads_exactly_bind:
  assumes "reads_exactly n r" and "\<And>x. reads_exactly k (f x)"
  shows "reads_exactly (n + k) (rd_bind r f)"
  unfolding reads_exactly_def
proof (intro allI impI)
  fix bs y rest assume "rd_bind r f bs = Inr (y, rest)"
  then obtain x mid where r: "r bs = Inr (x, mid)" and f: "f x mid = Inr (y, rest)"
    by (auto simp: rd_bind_def split: sum.splits)
  from r assms(1) have mid: "n \<le> length bs" "mid = drop n bs" and r': "\<And>bs'. r (take n bs @ bs') = Inr (x, bs')"
    by (auto simp: reads_exactly_def)
  from f assms(2) have rest: "k \<le> length mid" "rest = drop k mid" and f': "\<And>bs'. f x (take k mid @ bs') = Inr (y, bs')"
    by (auto simp: reads_exactly_def)
  have "rd_bind r f (take (n + k) bs @ bs') = Inr (y, bs')" for bs'
    using mid r' [of "take k mid @ bs'"] f' by (simp add: rd_bind_def take_add)
  then show "n + k \<le> length bs \<and> rest = drop (n + k) bs \<and>
      (\<forall>bs'. rd_bind r f (take (n + k) bs @ bs') = Inr (y, bs'))"
    using mid rest by (simp add: add.commute)
qed

lemma reads_exactly_if: "reads_exactly n r \<Longrightarrow> reads_exactly n r' \<Longrightarrow> reads_exactly n (if b then r else r')"
  by simp

lemma reads_exactly_u8: "reads_exactly 1 r_u8"
  by (auto simp: reads_exactly_def r_u8_def rd_map_def rd_bind_def rd_take_def rd_return_def neq_Nil_conv
      Suc_le_length_iff split: if_splits)

lemma reads_exactly_u16: "reads_exactly 2 r_u16"
  using reads_exactly_bind [OF reads_exactly_u8 reads_exactly_bind [OF reads_exactly_u8 reads_exactly_return]]
  by (simp add: r_u16_def numeral_2_eq_2)

lemma reads_exactly_u32: "reads_exactly 4 r_u32"
  using reads_exactly_bind [OF reads_exactly_u8 reads_exactly_bind [OF reads_exactly_u8
      reads_exactly_bind [OF reads_exactly_u8 reads_exactly_bind [OF reads_exactly_u8 reads_exactly_return]]]]
  by (simp add: r_u32_def numeral_eq_Suc)

lemma reads_exactly_magic: "reads_exactly (length es) (expect_magic es)"
proof (induction es)
  case (Cons e es)
  then show ?case
    using reads_exactly_bind [OF reads_exactly_u8 reads_exactly_if [OF reads_exactly_throw]] by simp
qed (simp add: reads_exactly_return)

lemma reads_exactly_header: "reads_exactly 16 read_header"
proof -
  have "reads_exactly (length binary_magic + (2 + (2 + (4 + (4 + 0))))) read_header"
    unfolding read_header_def
    by (intro reads_exactly_bind reads_exactly_if reads_exactly_throw reads_exactly_magic reads_exactly_u16
        reads_exactly_u32 reads_exactly_return)
  then show ?thesis by (simp add: binary_magic_def)
qed

definition payload_header :: "u8 list \<Rightarrow> u8 list" where
  "payload_header payload = binary_magic @ le_bytes 2 binary_format_major @ le_bytes 2 binary_format_minor @
     le_bytes 4 (word_of_nat (length payload) :: u32) @ le_bytes 4 (checksum payload)"

lemma frame_payload_eq: "frame_payload payload = Inr (payload_header payload @ payload)"
  by (simp add: frame_payload_def payload_header_def w_u16_le_bytes w_u32_le_bytes)

lemma length_payload_header [simp]: "length (payload_header payload) = 16"
  by (simp add: payload_header_def binary_magic_def)

lemma expect_magic_append: "expect_magic es (es @ rest) = Inr ((), rest)"
  by (induction es) (simp_all add: rd_return_def rd_bind_def reader_simps)

lemma read_header_payload_header:
  "read_header (payload_header payload @ rest) =
     Inr ((binary_format_minor, word_of_nat (length payload), checksum payload), rest)"
  by (simp add: read_header_def payload_header_def rd_bind_def expect_magic_append reader_simps byte_simps
      rd_return_def)

lemma decode_framed:
  assumes "length payload < 2 ^ 32"
  shows "decode_module (payload_header payload @ payload) =
    (case read_payload binary_format_minor payload of
       Inl e \<Rightarrow> Inl e
     | Inr (m, rest) \<Rightarrow> if rest \<noteq> [] then Inl ''trailing data in binary IR payload'' else Inr m)"
  using assms by (simp add: decode_module_def read_header_payload_header unat_of_nat subspan_def)

section \<open>Round trip\<close>

text \<open>
  C9. Binary IR round trip: for a module that verifies, lies within the reader's limits and whose
  payload fits 32 bits, \<open>write_binary\<close> reports nothing and \<open>read_binary\<close> of its bytes returns the same
  module with the fields the format does not carry reset, and the diagnostics of verifying it.
\<close>

theorem binary_roundtrip:
  assumes "verify m = []" and "encodable m"
    and "write_payload m = Inr payload" and "length payload < 2 ^ 32"
  shows "bw_diagnostics (write_binary verify m) = [] \<and>
    read_binary verify (bw_bytes (write_binary verify m)) =
      \<lparr>br_module = strip_module m, br_diagnostics = verify (strip_module m)\<rparr>"
proof -
  have bytes: "write_binary verify m = \<lparr>bw_bytes = payload_header payload @ payload, bw_diagnostics = []\<rparr>"
    using assms(1,3) by (simp add: write_binary_def frame_payload_eq)
  obtain bs where "write_payload m = Inr bs" and "\<And>rest. read_payload binary_format_minor (bs @ rest) = Inr (strip_module m, rest)"
    using decodes_payload [OF assms(2)] by (auto simp: decodes_to_def)
  then have "read_payload binary_format_minor payload = Inr (strip_module m, [])"
    using assms(3) by (metis append_Nil2 sum.inject(2))
  then show ?thesis
    using bytes decode_framed [OF assms(4)] by (simp add: read_binary_def)
qed

text \<open>Every module within the limits is encodable: the payload writer does not throw.\<close>

lemma write_payload_total: "encodable m \<Longrightarrow> \<exists>payload. write_payload m = Inr payload"
  using decodes_payload by (auto simp: decodes_to_def)

section \<open>Corrupted files\<close>

text \<open>The FNV prime is odd, so a checksum step is a bijection of the running hash.\<close>

lemma fnv_prime_cancel: "(x :: u32) * 16777619 = y * 16777619 \<longleftrightarrow> x = y"
proof
  have inverse: "(16777619 :: u32) * 899433627 = 1" by simp
  assume "x * 16777619 = y * 16777619"
  then have "x * 16777619 * 899433627 = y * 16777619 * 899433627" by (rule arg_cong)
  then show "x = y" by (simp only: mult.assoc inverse mult_1_right)
qed simp

lemma checksum_step_hash_inject: "checksum_step h b = checksum_step h' b \<longleftrightarrow> h = h'"
proof
  assume "checksum_step h b = checksum_step h' b"
  then have "h XOR ucast b = h' XOR ucast b" by (simp add: checksum_step_def fnv_prime_cancel)
  then have "(h XOR ucast b) XOR ucast b = (h' XOR ucast b) XOR ucast b" by simp
  then show "h = h'" by (simp add: xor.assoc)
qed simp

lemma checksum_step_byte_inject: "checksum_step h b = checksum_step h b' \<longleftrightarrow> b = b'"
proof
  assume "checksum_step h b = checksum_step h b'"
  then have "h XOR ucast b = h XOR ucast b'" by (simp add: checksum_step_def fnv_prime_cancel)
  then have "h XOR (h XOR ucast b) = h XOR (h XOR ucast b')" by simp
  then have "(ucast b :: u32) = ucast b'" by (simp add: xor.assoc [symmetric])
  then have "unat (ucast b :: u32) = unat (ucast b' :: u32)" by simp
  then show "b = b'" by (intro unat_eqI) (simp add: unat_ucast_up)
qed simp

lemma checksum_foldl_inject: "foldl checksum_step h bs = foldl checksum_step h' bs \<longleftrightarrow> h = h'"
  by (induction bs arbitrary: h h') (simp_all add: checksum_step_hash_inject)

lemma checksum_update:
  assumes "i < length bs" and "b \<noteq> bs ! i"
  shows "checksum (bs[i := b]) \<noteq> checksum bs"
proof -
  have "bs = take i bs @ bs ! i # drop (Suc i) bs" using assms(1) by (rule id_take_nth_drop)
  moreover have "bs[i := b] = take i bs @ b # drop (Suc i) bs" using assms(1) by (rule upd_conv_take_nth_drop)
  ultimately show ?thesis
    using assms(2) unfolding checksum_def
    by (metis (no_types, lifting) checksum_foldl_inject checksum_step_byte_inject foldl_Cons foldl_append)
qed

text \<open>
  C32. The checksum catches every single-byte error: changing any one byte of the payload of a file
  the reader accepts makes the reader refuse it with the checksum message.
\<close>

theorem single_byte_corruption_detected:
  assumes "decode_module f = Inr m" and "16 \<le> i" and "i < length f" and "b \<noteq> f ! i"
  shows "decode_module (f[i := b]) = Inl ''binary IR checksum mismatch''"
proof -
  from assms(1) obtain minor ps ck rest where h: "read_header f = Inr ((minor, ps, ck), rest)"
    and len: "length f - 16 = unat ps" and ck: "checksum (subspan f 16 (unat ps)) = ck"
    by (auto simp: decode_module_def Let_def split: sum.splits if_splits)
  let ?g = "f[i := b]"
  have t: "take 16 ?g = take 16 f" using assms(2) by simp
  have "read_header (take 16 f @ drop 16 ?g) = Inr ((minor, ps, ck), drop 16 ?g)"
    using reads_exactly_header h unfolding reads_exactly_def by blast
  then have h': "read_header ?g = Inr ((minor, ps, ck), drop 16 ?g)"
    using append_take_drop_id [of 16 ?g] by (simp only: t)
  have "subspan ?g 16 (unat ps) = (subspan f 16 (unat ps))[i - 16 := b]"
    using assms(2,3) len by (simp add: subspan_def drop_update_swap)
  moreover have "checksum ((subspan f 16 (unat ps))[i - 16 := b]) \<noteq> checksum (subspan f 16 (unat ps))"
    using assms(2-4) len by (intro checksum_update) (auto simp: subspan_def)
  ultimately show ?thesis
    using assms(2,3) h' len ck by (simp add: decode_module_def)
qed

text \<open>
  C33. No partial file is accepted: every proper prefix of an accepted file, and every accepted file
  with bytes appended, is refused.
\<close>

theorem truncation_and_extension_detected:
  assumes "decode_module f = Inr m"
  shows "(n < length f \<longrightarrow> (\<exists>e. decode_module (take n f) = Inl e)) \<and>
    (extra \<noteq> [] \<longrightarrow> decode_module (f @ extra) = Inl ''binary IR size mismatch'')"
proof -
  from assms obtain minor ps ck rest where h: "read_header f = Inr ((minor, ps, ck), rest)"
    and len: "length f - 16 = unat ps" "16 \<le> length f"
    by (auto simp: decode_module_def Let_def split: sum.splits if_splits)
  have other: "read_header g = Inr ((minor, ps, ck), drop 16 g)" if "take 16 g = take 16 f" for g
  proof -
    have "read_header (take 16 f @ drop 16 g) = Inr ((minor, ps, ck), drop 16 g)"
      using reads_exactly_header h unfolding reads_exactly_def by blast
    then show ?thesis using append_take_drop_id [of 16 g] by (simp only: that)
  qed
  have "\<exists>e. decode_module (take n f) = Inl e" if n: "n < length f"
  proof (cases "16 \<le> n")
    case True
    then have "read_header (take n f) = Inr ((minor, ps, ck), drop 16 (take n f))"
      by (intro other) (simp add: min_def)
    then show ?thesis using True n len by (auto simp: decode_module_def)
  next
    case False
    then have "length (take n f) < 16" using n by simp
    then have "\<nexists>x. read_header (take n f) = Inr x"
      using reads_exactly_header unfolding reads_exactly_def by (metis not_less surj_pair)
    then show ?thesis by (cases "read_header (take n f)") (auto simp: decode_module_def)
  qed
  moreover have "decode_module (f @ extra) = Inl ''binary IR size mismatch''" if "extra \<noteq> []"
  proof -
    have "length (f @ extra) - 16 \<noteq> unat ps" using that len by (cases extra) auto
    then show ?thesis using len other [of "f @ extra"] by (simp add: decode_module_def)
  qed
  ultimately show ?thesis by blast
qed

section \<open>What the format does not carry, and what the writer admits beyond the reader\<close>

lemma write_vector_map: "(\<And>x. w (f x) = w x) \<Longrightarrow> write_vector w (map f xs) = write_vector w xs"
  by (simp add: write_vector_def comp_def)

text \<open>
  The format has no field for target features, operation attributes, source ranges and metadata:
  two modules that differ only there are written to the same bytes, so no reader can restore them.
\<close>

lemma annotations_not_serialized:
  assumes "verify m = []" and "verify (strip_module m) = []"
  shows "write_binary verify m = write_binary verify (strip_module m)"
proof -
  have "write_operation (strip_operation op) = write_operation op" for op
    by (simp add: write_operation_def strip_operation_def del: w_seq.simps)
  then have "write_block (strip_block b) = write_block b" for b
    by (simp add: write_block_def strip_block_def write_vector_map del: w_seq.simps)
  then have "write_function (strip_function f) = write_function f" for f
    by (simp add: write_function_def strip_function_def write_vector_map del: w_seq.simps)
  then have "write_payload (strip_module m) = write_payload m"
    by (simp add: write_payload_def strip_module_def write_vector_map del: w_seq.simps)
  then show ?thesis using assms by (simp add: write_binary_def)
qed

text \<open>
  C34. The writer's string limit (32 bits) is wider than the reader's (16 MiB): a module whose name
  lies between the two is written without a diagnostic and refused by the reader.
\<close>

theorem oversized_name_written_but_refused:
  assumes "verify (ir_module_init name) = []" and "max_string < length name" and "length name < 2 ^ 32 - 20"
  shows "bw_diagnostics (write_binary verify (ir_module_init name)) = [] \<and>
    br_diagnostics (read_binary verify (bw_bytes (write_binary verify (ir_module_init name)))) =
      [error_diagnostic ''string exceeds format limit'']"
proof -
  let ?n = "map char_to_byte name"
  let ?z = "le_bytes 4 (0 :: u32)"
  let ?w = "le_bytes 4 (word_of_nat (length name) :: u32) @ ?n @ ?z @ ?z @ ?z @ ?z"
  have w: "write_payload (ir_module_init name) = Inr ?w"
    using assms(3)
    by (simp add: write_payload_def ir_module_init_def w_string_def w_bytes_string_def write_vector_def
        w_u32_le_bytes)
  have n: "unat (word_of_nat (length name) :: u32) = length name"
    using assms(3) by (intro unat_of_length) simp
  have "read_payload binary_format_minor ?w = Inl ''string exceeds format limit''"
    using assms(2) n
    by (simp add: read_payload_def rd_bind_def r_string_def rd_map_def r_bytes_string_def reader_simps
        byte_simps rd_throw_def)
  moreover have "length ?w < 2 ^ 32" using assms(3) by simp
  ultimately show ?thesis
    using assms(1) w decode_framed [of ?w] by (simp add: write_binary_def read_binary_def frame_payload_eq)
qed

section \<open>Witnesses\<close>

definition sample_operation :: operation where
  "sample_operation = \<lparr>op_result = ''x'', op_opcode = ''const'', op_type = TK_i32, op_operands = [''7''],
     op_successors = [], op_successor_arguments = [], op_alignment = 0, op_source_file = ''a'',
     op_source_line = 3, op_source_column = 1, op_source_end_line = 0, op_source_end_column = 0,
     op_attributes = []\<rparr>"

definition sample_function :: ir_function where
  "sample_function = \<lparr>fn_name = ''f'', fn_is_external = False, fn_is_signature = False, fn_variadic = False,
     fn_target_feature = ''avx2'', fn_calling_convention = CC_fast, fn_linkage = SL_weak,
     fn_visibility = SV_hidden, fn_return_type = TK_i32, fn_return_aggregate_kind = ARK_scalar,
     fn_return_aggregate_name = [], fn_return_owned = False, fn_return_borrow_mode = BM_none,
     fn_return_borrow_parameter = - 1, fn_parameters = [value_decl_init],
     fn_blocks = [\<lparr>bl_name = ''e'', bl_parameters = [], bl_operations = [sample_operation]\<rparr>]\<rparr>"

definition sample_module :: ir_module where
  "sample_module = (ir_module_init ''m'')\<lparr>md_functions := [sample_function]\<rparr>"

lemmas sample_defs = sample_module_def sample_function_def sample_operation_def ir_module_init_def value_decl_init_def

lemmas writer_defs = write_payload_def write_function_def write_block_def write_operation_def write_decl_def
  write_vector_def w_string_def w_bytes_string_def w_bool_def w_u8_def w_u32_le_bytes w_type_def

lemma sample_payload: "\<exists>payload. write_payload sample_module = Inr payload \<and> length payload < 2 ^ 8"
  by (simp add: sample_defs writer_defs)

lemma sample_encodable: "encodable sample_module"
  by (simp add: encodable_def sample_defs ok_vector_def ok_function_def ok_block_def ok_operation_def ok_decl_def
      ok_string_def max_string_def max_collection_def ok_kind_def aggregate_kinds_def)

theorem binary_roundtrip_witness:
  "\<exists>payload. write_payload sample_module = Inr payload \<and> length payload < 2 ^ 32 \<and> encodable sample_module \<and>
    bw_diagnostics (write_binary (\<lambda>_. []) sample_module) = [] \<and>
    read_binary (\<lambda>_. []) (bw_bytes (write_binary (\<lambda>_. []) sample_module)) =
      \<lparr>br_module = strip_module sample_module, br_diagnostics = []\<rparr>"
proof -
  obtain payload where p: "write_payload sample_module = Inr payload" "length payload < 2 ^ 8"
    using sample_payload by blast
  then show ?thesis
    using binary_roundtrip [of "\<lambda>_. []" sample_module payload] sample_encodable by simp
qed

text \<open>The file of an empty module named \<open>m\<close>.\<close>

definition sample_file :: "u8 list" where
  "sample_file = [70, 73, 82, 66, 1, 0, 24, 0, 21, 0, 0, 0, 11, 16, 145, 102, 1, 0, 0, 0, 109, 0, 0, 0, 0, 0, 0, 0, 0, 0, 0, 0, 0, 0, 0, 0, 0]"

lemma sample_file_decodes: "decode_module sample_file = Inr (ir_module_init ''m'')"
  by (simp add: sample_file_def decode_module_def read_header_def rd_bind_def rd_return_def binary_magic_def
      r_u8_Cons r_u16_def r_u32_def binary_format_major_def binary_format_minor_def subspan_def checksum_def
      checksum_step_def read_payload_def r_string_def r_bytes_string_def rd_map_def max_string_def
      max_collection_def rd_take_def since_def read_count_def byte_to_char_def ir_module_init_def
      char_of_def bit_Suc_0_iff)

theorem single_byte_corruption_detected_witness:
  "decode_module sample_file = Inr (ir_module_init ''m'') \<and>
    decode_module (sample_file[20 := 0x6e]) = Inl ''binary IR checksum mismatch''"
  using sample_file_decodes single_byte_corruption_detected [OF sample_file_decodes, of 20 "0x6e"]
  by (simp add: sample_file_def)

theorem truncation_and_extension_detected_witness:
  "decode_module sample_file = Inr (ir_module_init ''m'') \<and>
    (\<exists>e. decode_module (take 30 sample_file) = Inl e) \<and>
    decode_module (sample_file @ [0]) = Inl ''binary IR size mismatch''"
  using sample_file_decodes truncation_and_extension_detected [OF sample_file_decodes, of 30 "[0]"]
  by (simp add: sample_file_def)

theorem annotations_not_serialized_witness:
  "write_binary (\<lambda>_. []) sample_module = write_binary (\<lambda>_. []) (strip_module sample_module) \<and>
    map fn_target_feature (md_functions sample_module) = [''avx2''] \<and>
    map fn_target_feature (md_functions (strip_module sample_module)) = [[]]"
  using annotations_not_serialized [of "\<lambda>_. []" sample_module]
  by (simp add: sample_defs strip_module_def strip_function_def)

theorem oversized_name_witness:
  "bw_diagnostics (write_binary (\<lambda>_. []) (ir_module_init (replicate 16777217 CHR ''a''))) = [] \<and>
    br_diagnostics (read_binary (\<lambda>_. []) (bw_bytes (write_binary (\<lambda>_. [])
      (ir_module_init (replicate 16777217 CHR ''a''))))) = [error_diagnostic ''string exceeds format limit'']"
  by (rule oversized_name_written_but_refused) (simp_all add: max_string_def)

end
