(* ===== verification/Interp_State.thy ===== *)
theory Interp_State
  imports Data_Layout "HOL-Library.Signed_Division"
begin

text \<open>
  Values, memory and the engine state of the IR interpreter: \<open>forge/include/forge/interpreter/interpreter.hpp\<close>
  and the helpers of \<open>forge/src/interpreter/interpreter.cpp\<close>.

  A \<open>shared_ptr<MemoryObject>\<close> is an index into the store; objects are only appended, so an index
  keeps naming the object it was given for, and \<open>None\<close> is the null pointer. An object either owns its
  bytes or is a window of the host's memory, which is a separate byte map because two windows may
  overlap. Sizes and offsets are \<open>nat\<close>: the source compares before it adds, and a size is the length of
  a buffer that exists. Step counts, value bits and limits stay 64-bit words.

  Outside the sources, and so arguments of the model: the address the allocator gives an object, the
  external functions and globals the host registers, and the double-precision arithmetic of the
  processor, whose values are their 64-bit patterns.
\<close>

unbundle bit_operations_syntax

section \<open>Values\<close>

record ir_pointer =
  pt_object :: "nat option"
  pt_offset :: nat
  pt_read_only :: bool

record memory_object =
  mo_bytes :: "u8 list"
  mo_external_data :: "nat option"
  mo_external_size :: nat
  mo_function_slots :: "nat \<rightharpoonup> string"

datatype value_kind = VK_void | VK_integer | VK_floating | VK_pointer | VK_function

record ir_value =
  va_kind :: value_kind
  va_type :: ir_type
  va_bits :: u64
  va_pointer :: ir_pointer
  va_function :: string

definition null_pointer :: ir_pointer where
  "null_pointer = \<lparr>pt_object = None, pt_offset = 0, pt_read_only = False\<rparr>"

definition object_size :: "memory_object \<Rightarrow> nat" where
  "object_size ob = (if mo_external_data ob \<noteq> None then mo_external_size ob else length (mo_bytes ob))"

fun bit_width :: "ir_type \<Rightarrow> nat" where
  "bit_width TK_i1 = 1"
| "bit_width TK_i8 = 8"
| "bit_width TK_i16 = 16"
| "bit_width TK_i32 = 32"
| "bit_width TK_f32 = 32"
| "bit_width TK_i64 = 64"
| "bit_width TK_f64 = 64"
| "bit_width TK_ptr = 64"
| "bit_width TK_void = 0"

definition mask_for :: "ir_type \<Rightarrow> u64" where
  "mask_for t =
     (let width = bit_width t in if width = 0 \<or> width = 64 then - 1 else push_bit width 1 - 1)"

definition normalize_bits :: "ir_type \<Rightarrow> u64 \<Rightarrow> u64" where
  "normalize_bits t v = v AND mask_for t"

text \<open>The sign extension to 64 bits; the \<open>int64_t\<close> it stands for is its \<open>sint\<close>.\<close>

definition signed_bits :: "ir_type \<Rightarrow> u64 \<Rightarrow> u64" where
  "signed_bits t v0 =
     (let width = bit_width t; v = normalize_bits t v0
      in if width = 64 then v
         else if width = 0 then 0
         else if v AND push_bit (width - 1) 1 = 0 then v
         else v OR NOT (mask_for t))"

definition signed_value :: "ir_value \<Rightarrow> int" where
  "signed_value v = sint (signed_bits (va_type v) (va_bits v))"

definition void_value :: ir_value where
  "void_value = \<lparr>va_kind = VK_void, va_type = TK_void, va_bits = 0, va_pointer = null_pointer, va_function = []\<rparr>"

definition integer_value :: "ir_type \<Rightarrow> u64 \<Rightarrow> ir_value" where
  "integer_value t bits = void_value\<lparr>va_kind := VK_integer, va_type := t, va_bits := normalize_bits t bits\<rparr>"

definition pointer_value :: "ir_pointer \<Rightarrow> ir_value" where
  "pointer_value p = void_value\<lparr>va_kind := VK_pointer, va_type := TK_ptr, va_pointer := p\<rparr>"

definition function_value :: "string \<Rightarrow> ir_value" where
  "function_value name = void_value\<lparr>va_kind := VK_function, va_type := TK_ptr, va_function := name\<rparr>"

text \<open>The floating-point operations the interpreter uses, on bit patterns of \<open>double\<close> and \<open>float\<close>.
  A conversion to an integer is undefined in C++ where the value does not fit: \<open>None\<close>.\<close>

record fp_ops =
  fp_strtod :: "string \<Rightarrow> u64 \<times> nat"
  fp_of_f32 :: "u32 \<Rightarrow> u64"
  fp_to_f32 :: "u64 \<Rightarrow> u32"
  fp_add :: "u64 \<Rightarrow> u64 \<Rightarrow> u64"
  fp_sub :: "u64 \<Rightarrow> u64 \<Rightarrow> u64"
  fp_mul :: "u64 \<Rightarrow> u64 \<Rightarrow> u64"
  fp_div :: "u64 \<Rightarrow> u64 \<Rightarrow> u64"
  fp_neg :: "u64 \<Rightarrow> u64"
  fp_eq :: "u64 \<Rightarrow> u64 \<Rightarrow> bool"
  fp_lt :: "u64 \<Rightarrow> u64 \<Rightarrow> bool"
  fp_le :: "u64 \<Rightarrow> u64 \<Rightarrow> bool"
  fp_of_i64 :: "int \<Rightarrow> u64"
  fp_of_u64 :: "u64 \<Rightarrow> u64"
  fp_to_i64 :: "u64 \<Rightarrow> u64 option"
  fp_to_u64 :: "u64 \<Rightarrow> u64 option"

definition parse_float :: "fp_ops \<Rightarrow> string \<Rightarrow> u64 option" where
  "parse_float fp text = (let (v, consumed) = fp_strtod fp text in if consumed = length text then Some v else None)"

definition floating_value_of :: "fp_ops \<Rightarrow> ir_type \<Rightarrow> u64 \<Rightarrow> ir_value" where
  "floating_value_of fp t number =
     void_value\<lparr>va_kind := VK_floating, va_type := t,
       va_bits := (if t = TK_f32 then ucast (fp_to_f32 fp number) else number)\<rparr>"

definition floating_value :: "fp_ops \<Rightarrow> ir_value \<Rightarrow> u64" where
  "floating_value fp v =
     (if va_type v = TK_f32 then fp_of_f32 fp (ucast (va_bits v))
      else if va_type v = TK_f64 then va_bits v else 0)"

section \<open>Engine state\<close>

record engine =
  en_store :: "memory_object list"
  en_host :: "nat \<Rightarrow> u8"
  en_diagnostics :: diagnostics
  en_steps :: u64

record global_storage =
  gs_object :: nat
  gs_is_constant :: bool

record external_global =
  eg_address :: "nat option"
  eg_size :: nat
  eg_read_only :: bool

text \<open>A host function sees the arguments, the memory they point into and the diagnostics.\<close>

type_synonym external_function =
  "ir_value list \<Rightarrow> memory_object list \<times> (nat \<Rightarrow> u8) \<times> diagnostics \<Rightarrow>
   ir_value option \<times> memory_object list \<times> (nat \<Rightarrow> u8) \<times> diagnostics"

record interp_options =
  io_max_steps :: u64
  io_max_call_depth :: nat

text \<open>What an \<open>Engine\<close> reads and never changes, with the host's side of it.\<close>

record interp_config =
  ic_module :: ir_module
  ic_options :: interp_options
  ic_globals :: "string \<rightharpoonup> global_storage"
  ic_externals :: "string \<rightharpoonup> external_function"
  ic_base :: "nat \<Rightarrow> nat"
  ic_fp :: fp_ops

text \<open>
  The ways a run ends without a \<open>Result\<close>: the \<open>std::out_of_range\<close> that \<open>at\<close> and \<open>substr\<close> throw through
  \<open>execute\<close>, undefined behaviour of C++, and the model's loop fuel.
\<close>

datatype interp_fault = Out_of_range | Undefined_behaviour | Out_of_fuel

type_synonym 'a engine_m = "engine \<Rightarrow> interp_fault + 'a \<times> engine"

definition m_return :: "'a \<Rightarrow> 'a engine_m" where
  "m_return x s = Inr (x, s)"

definition m_bind :: "'a engine_m \<Rightarrow> ('a \<Rightarrow> 'b engine_m) \<Rightarrow> 'b engine_m" where
  "m_bind m k s = (case m s of Inl f \<Rightarrow> Inl f | Inr (x, s') \<Rightarrow> k x s')"

definition m_get :: "engine engine_m" where
  "m_get s = Inr (s, s)"

definition m_throw :: "interp_fault \<Rightarrow> 'a engine_m" where
  "m_throw f s = Inl f"

text \<open>\<open>fail(diagnostics_, message); return std::nullopt;\<close>\<close>

definition m_fail :: "string \<Rightarrow> 'a option engine_m" where
  "m_fail message s = Inr (None, s\<lparr>en_diagnostics := en_diagnostics s @ [error_diagnostic message]\<rparr>)"

text \<open>The test of an optional result at its call site: the failure branch or the value.\<close>

definition m_ok :: "'a option \<Rightarrow> 'b engine_m \<Rightarrow> ('a \<Rightarrow> 'b engine_m) \<Rightarrow> 'b engine_m" where
  "m_ok v failed k = (case v of None \<Rightarrow> failed | Some x \<Rightarrow> k x)"

section \<open>Memory\<close>

definition pointer_object :: "engine \<Rightarrow> ir_pointer \<Rightarrow> (nat \<times> memory_object) option" where
  "pointer_object en p =
     (case pt_object p of
        None \<Rightarrow> None
      | Some i \<Rightarrow> (case list_at (en_store en) i of None \<Rightarrow> None | Some ob \<Rightarrow> Some (i, ob)))"

definition object_data :: "interp_config \<Rightarrow> nat \<times> memory_object \<Rightarrow> nat" where
  "object_data cfg o_ob = (case o_ob of (i, ob) \<Rightarrow>
     (case mo_external_data ob of Some address \<Rightarrow> address | None \<Rightarrow> ic_base cfg i))"

definition in_bounds :: "memory_object \<Rightarrow> nat \<Rightarrow> nat \<Rightarrow> bool" where
  "in_bounds ob off n \<longleftrightarrow> off \<le> object_size ob \<and> n \<le> object_size ob - off"

text \<open>\<open>memcpy\<close> out of and into \<open>object->data() + offset\<close>.\<close>

definition read_object :: "engine \<Rightarrow> memory_object \<Rightarrow> nat \<Rightarrow> nat \<Rightarrow> u8 list" where
  "read_object en ob off n =
     (case mo_external_data ob of
        Some address \<Rightarrow> map (\<lambda>i. en_host en (address + off + i)) [0..<n]
      | None \<Rightarrow> subspan (mo_bytes ob) off n)"

definition write_object :: "nat \<times> memory_object \<Rightarrow> nat \<Rightarrow> u8 list \<Rightarrow> engine \<Rightarrow> engine" where
  "write_object o_ob off bs en = (case o_ob of (i, ob) \<Rightarrow>
     (case mo_external_data ob of
        Some address \<Rightarrow>
          en\<lparr>en_host := (\<lambda>a. if address + off \<le> a \<and> a < address + off + length bs
                             then bs ! (a - (address + off)) else en_host en a)\<rparr>
      | None \<Rightarrow> en\<lparr>en_store := (en_store en)[i := ob\<lparr>mo_bytes := splice (mo_bytes ob) off bs\<rparr>]\<rparr>))"

definition m_write :: "nat \<times> memory_object \<Rightarrow> nat \<Rightarrow> u8 list \<Rightarrow> unit engine_m" where
  "m_write o_ob off bs s = Inr ((), write_object o_ob off bs s)"

definition set_slot :: "nat \<Rightarrow> nat \<Rightarrow> string option \<Rightarrow> engine \<Rightarrow> engine" where
  "set_slot i off name en =
     en\<lparr>en_store := (en_store en)[i := (en_store en ! i)\<lparr>mo_function_slots :=
        (mo_function_slots (en_store en ! i))(off := name)\<rparr>]\<rparr>"

definition m_set_slot :: "nat \<Rightarrow> nat \<Rightarrow> string option \<Rightarrow> unit engine_m" where
  "m_set_slot i off name s = Inr ((), set_slot i off name s)"

definition owned_object :: "u8 list \<Rightarrow> memory_object" where
  "owned_object bs = \<lparr>mo_bytes = bs, mo_external_data = None, mo_external_size = 0, mo_function_slots = Map.empty\<rparr>"

text \<open>\<open>std::make_shared<MemoryObject>()\<close> with its bytes set, and a pointer to its start.\<close>

definition m_alloc :: "u8 list \<Rightarrow> ir_value engine_m" where
  "m_alloc bs s =
     Inr (pointer_value \<lparr>pt_object = Some (length (en_store s)), pt_offset = 0, pt_read_only = False\<rparr>,
          s\<lparr>en_store := en_store s @ [owned_object bs]\<rparr>)"

definition host_address :: "interp_config \<Rightarrow> engine \<Rightarrow> ir_value \<Rightarrow> nat" where
  "host_address cfg en v =
     (if va_kind v \<noteq> VK_pointer then 0
      else case pointer_object en (va_pointer v) of
             None \<Rightarrow> 0
           | Some (i, ob) \<Rightarrow>
               if pt_offset (va_pointer v) > object_size ob then 0
               else object_data cfg (i, ob) + pt_offset (va_pointer v))"

definition remaining_bytes :: "engine \<Rightarrow> ir_value \<Rightarrow> nat" where
  "remaining_bytes en v =
     (if va_kind v \<noteq> VK_pointer then 0
      else case pointer_object en (va_pointer v) of
             None \<Rightarrow> 0
           | Some (i, ob) \<Rightarrow>
               if pt_offset (va_pointer v) > object_size ob then 0
               else object_size ob - pt_offset (va_pointer v))"

definition value_is_aligned :: "interp_config \<Rightarrow> engine \<Rightarrow> ir_value \<Rightarrow> nat \<Rightarrow> bool" where
  "value_is_aligned cfg en v alignment \<longleftrightarrow>
     alignment \<noteq> 0 \<and> host_address cfg en v \<noteq> 0 \<and> host_address cfg en v mod alignment = 0"

text \<open>\<open>Value::host_pointer\<close>: a new window of host memory; a null address leaves an empty owned object.\<close>

definition host_pointer :: "nat option \<Rightarrow> nat \<Rightarrow> bool \<Rightarrow> ir_value engine_m" where
  "host_pointer address sz read_only s =
     Inr (pointer_value \<lparr>pt_object = Some (length (en_store s)), pt_offset = 0, pt_read_only = read_only\<rparr>,
          s\<lparr>en_store := en_store s @ [\<lparr>mo_bytes = [], mo_external_data = address,
             mo_external_size = sz, mo_function_slots = Map.empty\<rparr>]\<rparr>)"

end
