(* ===== verification/Interpreter.thy ===== *)
theory Interpreter
  imports Interp_State
begin

text \<open>
  \<open>class Engine\<close> of \<open>forge/src/interpreter/interpreter.cpp\<close>: \<open>evaluate\<close> with one definition per opcode
  group, in the order of the source, and \<open>call\<close> with its argument checks, its block loop and its
  control transfers. The recursion of \<open>evaluate\<close> into \<open>call\<close> goes through the argument \<open>callee\<close>, which
  \<open>call_at\<close> instantiates with itself one level deeper.
\<close>

unbundle bit_operations_syntax

section \<open>Helpers\<close>

type_synonym environment = "string \<rightharpoonup> ir_value"

definition operand_at :: "operation \<Rightarrow> nat \<Rightarrow> string engine_m" where
  "operand_at op i = (case list_at (op_operands op) i of None \<Rightarrow> m_throw Out_of_range | Some s \<Rightarrow> m_return s)"

definition substr1 :: "string \<Rightarrow> string engine_m" where
  "substr1 s = (if s = [] then m_throw Out_of_range else m_return (tl s))"

definition symbol_at :: "operation \<Rightarrow> nat \<Rightarrow> string engine_m" where
  "symbol_at op i = m_bind (operand_at op i) substr1"

definition lookup :: "environment \<Rightarrow> string \<Rightarrow> bool \<Rightarrow> ir_value option engine_m" where
  "lookup values name report =
     (case values name of
        Some v \<Rightarrow> m_return (Some v)
      | None \<Rightarrow> if report then m_fail (''undefined runtime value '' @ name) else m_return None)"

definition lookup_at :: "environment \<Rightarrow> operation \<Rightarrow> nat \<Rightarrow> ir_value option engine_m" where
  "lookup_at values op i = m_bind (operand_at op i) (\<lambda>name. lookup values name True)"

definition starts_with :: "string \<Rightarrow> string \<Rightarrow> bool" where
  "starts_with s p \<longleftrightarrow> take (length p) s = p"

fun find_block_from :: "nat \<Rightarrow> ir_block list \<Rightarrow> string \<Rightarrow> nat option" where
  "find_block_from i [] name = None"
| "find_block_from i (b # bs) name = (if bl_name b = name then Some i else find_block_from (Suc i) bs name)"

definition find_block :: "ir_function \<Rightarrow> string \<Rightarrow> nat option engine_m" where
  "find_block f name =
     (case find_block_from 0 (fn_blocks f) name of
        Some i \<Rightarrow> m_return (Some i)
      | None \<Rightarrow> m_fail (''unknown runtime block '' @ name @ '' in @'' @ fn_name f))"

definition is_kind :: "value_kind \<Rightarrow> ir_value option \<Rightarrow> bool" where
  "is_kind k v \<longleftrightarrow> (case v of None \<Rightarrow> False | Some x \<Rightarrow> va_kind x = k)"

definition some_value :: "ir_value engine_m \<Rightarrow> ir_value option engine_m" where
  "some_value m = m_bind m (\<lambda>v. m_return (Some v))"

section \<open>Constants, sizes and addresses\<close>

definition eval_const :: "interp_config \<Rightarrow> operation \<Rightarrow> ir_value option engine_m" where
  "eval_const cfg op =
     (if length (op_operands op) \<noteq> 1 then m_fail ''invalid constant''
      else let text = hd (op_operands op)
           in if is_float (op_type op) then
                (case parse_float (ic_fp cfg) text of
                   None \<Rightarrow> m_fail ''invalid floating-point constant''
                 | Some v \<Rightarrow> m_return (Some (floating_value_of (ic_fp cfg) (op_type op) v)))
              else case parse_int64 text of
                     None \<Rightarrow> m_fail ''invalid integer constant''
                   | Some v \<Rightarrow>
                       if \<not> is_integer (op_type op) then m_fail ''invalid integer constant''
                       else m_return (Some (integer_value (op_type op) (word_of_int v))))"

definition eval_array_query :: "interp_config \<Rightarrow> operation \<Rightarrow> ir_value option engine_m" where
  "eval_array_query cfg op = m_bind (symbol_at op 0) (\<lambda>name.
     case find_array (ic_module cfg) name of
       None \<Rightarrow> m_fail ''unknown array layout''
     | Some d \<Rightarrow>
         (case dl_array_layout dl_host (ic_module cfg) d of
            None \<Rightarrow> m_fail ''invalid array layout''
          | Some l \<Rightarrow> m_return (Some (integer_value TK_i64
              (if op_opcode op = ''sizeof.array'' then al_size l else al_alignment l)))))"

definition eval_struct_query :: "interp_config \<Rightarrow> operation \<Rightarrow> ir_value option engine_m" where
  "eval_struct_query cfg op = m_bind (symbol_at op 0) (\<lambda>name.
     case find_struct (ic_module cfg) name of
       None \<Rightarrow> m_fail (''unknown structure @'' @ name)
     | Some d \<Rightarrow>
         (case dl_struct_layout dl_host (ic_module cfg) d of
            None \<Rightarrow> m_fail (''structure layout failed for @'' @ name)
          | Some l \<Rightarrow> m_return (Some (integer_value TK_i64
              (if op_opcode op = ''sizeof.struct'' then sl_size l else sl_alignment l)))))"

definition eval_function_address :: "operation \<Rightarrow> ir_value option engine_m" where
  "eval_function_address op = m_bind (symbol_at op 0) (\<lambda>name. m_return (Some (function_value name)))"

definition eval_global_address :: "interp_config \<Rightarrow> operation \<Rightarrow> ir_value option engine_m" where
  "eval_global_address cfg op = m_bind (symbol_at op 0) (\<lambda>name.
     case ic_globals cfg name of
       None \<Rightarrow> m_fail (''unknown global @'' @ name)
     | Some g \<Rightarrow> m_return (Some (pointer_value
         \<lparr>pt_object = Some (gs_object g), pt_offset = 0, pt_read_only = gs_is_constant g\<rparr>)))"

definition max_allocation :: nat where
  "max_allocation = 2 ^ 24"

definition aggregate_kind_of :: "string \<Rightarrow> string \<Rightarrow> aggregate_ref_kind" where
  "aggregate_kind_of opcode struct_opcode = (if opcode = struct_opcode then ARK_structure else ARK_array)"

definition eval_stack_alloc_typed :: "interp_config \<Rightarrow> operation \<Rightarrow> ir_value option engine_m" where
  "eval_stack_alloc_typed cfg op = m_bind (symbol_at op 0) (\<lambda>name.
     case aggregate_size dl_host (ic_module cfg) (aggregate_kind_of (op_opcode op) ''stack.alloc.struct'') name of
       None \<Rightarrow> m_fail ''invalid typed stack allocation''
     | Some sz \<Rightarrow>
         if sz = 0 \<or> unat sz > max_allocation then m_fail ''invalid typed stack allocation''
         else some_value (m_alloc (replicate (unat sz) 0)))"

definition eval_stack_alloc :: "operation \<Rightarrow> ir_value option engine_m" where
  "eval_stack_alloc op = m_bind (operand_at op 0) (\<lambda>text.
     case parse_int64 text of
       None \<Rightarrow> m_fail ''invalid interpreter stack allocation''
     | Some sz \<Rightarrow>
         if sz \<le> 0 \<or> sz > int max_allocation then m_fail ''invalid interpreter stack allocation''
         else some_value (m_alloc (replicate (nat sz) 0)))"

section \<open>Address arithmetic\<close>

definition dynamic_index :: "environment \<Rightarrow> operation \<Rightarrow> string \<Rightarrow> u64 option engine_m" where
  "dynamic_index values op message = m_bind (lookup_at values op 2) (\<lambda>d.
     case d of
       None \<Rightarrow> m_fail message
     | Some v \<Rightarrow> if va_kind v \<noteq> VK_integer \<or> va_type v \<noteq> TK_i64 then m_fail message
                 else m_return (Some (va_bits v)))"

definition callback_index :: "environment \<Rightarrow> operation \<Rightarrow> u64 option engine_m" where
  "callback_index values op = m_bind (operand_at op 2) (\<lambda>text.
     if starts_with text ''%'' then dynamic_index values op ''invalid dynamic callback table index''
     else case parse_int64 text of
            None \<Rightarrow> m_fail ''invalid callback element address''
          | Some n \<Rightarrow> if n < 0 then m_fail ''invalid callback element address''
                      else m_return (Some (word_of_int n)))"

definition callback_offset :: "environment \<Rightarrow> operation \<Rightarrow> ir_value \<Rightarrow> int option engine_m" where
  "callback_offset values op base_value =
     m_bind (callback_index values op) (\<lambda>index. m_ok index (m_return None) (\<lambda>index. m_bind m_get (\<lambda>en.
       if unat index \<ge> remaining_bytes en base_value div 8 \<or> unat index > (2 ^ 63 - 1) div 8
       then m_fail ''callback table index out of bounds''
       else m_return (Some (int (unat index) * 8)))))"

definition array_index :: "environment \<Rightarrow> operation \<Rightarrow> int option engine_m" where
  "array_index values op = m_bind (operand_at op 2) (\<lambda>text.
     if starts_with text ''%''
     then m_bind (dynamic_index values op ''invalid dynamic array index'') (\<lambda>i. m_return (map_option sint i))
     else case parse_int64 text of
            None \<Rightarrow> m_fail ''invalid array element address''
          | Some n \<Rightarrow> m_return (Some n))"

text \<open>The division by the stride is undefined for the zero-sized elements of an array of empty structures.\<close>

definition array_offset :: "interp_config \<Rightarrow> environment \<Rightarrow> operation \<Rightarrow> int option engine_m" where
  "array_offset cfg values op = m_bind (symbol_at op 1) (\<lambda>name.
     case find_array (ic_module cfg) name of
       None \<Rightarrow> m_fail ''invalid array element address''
     | Some d \<Rightarrow>
         m_bind (array_index values op) (\<lambda>index. m_ok index (m_return None) (\<lambda>index.
           if index < 0 \<or> index \<ge> int (unat (ad_element_count d)) then m_fail ''array element index out of bounds''
           else case dl_array_layout dl_host (ic_module cfg) d of
                  None \<Rightarrow> m_fail ''invalid array element offset''
                | Some l \<Rightarrow>
                    if al_stride l = 0 then m_throw Undefined_behaviour
                    else if index > (2 ^ 63 - 1) div int (unat (al_stride l))
                    then m_fail ''invalid array element offset''
                    else m_return (Some (index * int (unat (al_stride l)))))))"

fun field_index_from :: "nat \<Rightarrow> struct_field list \<Rightarrow> string \<Rightarrow> nat option" where
  "field_index_from i [] name = None"
| "field_index_from i (f # fs) name = (if sf_name f = name then Some i else field_index_from (Suc i) fs name)"

text \<open>The field name operand is only read when there is a field to compare it with.\<close>

definition field_index :: "operation \<Rightarrow> struct_decl \<Rightarrow> nat option engine_m" where
  "field_index op d =
     (if op_opcode op = ''struct.field.address''
      then m_bind (operand_at op 2) (\<lambda>text.
        case parse_int64 text of
          None \<Rightarrow> m_fail ''invalid structure field index''
        | Some n \<Rightarrow> if n < 0 then m_fail ''invalid structure field index'' else m_return (Some (nat n)))
      else if sd_fields d = [] then m_fail ''unknown structure field name''
      else m_bind (operand_at op 2) (\<lambda>field.
        case field_index_from 0 (sd_fields d) field of
          None \<Rightarrow> m_fail ''unknown structure field name''
        | Some i \<Rightarrow> m_return (Some i)))"

definition struct_offset :: "interp_config \<Rightarrow> operation \<Rightarrow> int option engine_m" where
  "struct_offset cfg op = m_bind (symbol_at op 1) (\<lambda>name.
     case find_struct (ic_module cfg) name of
       None \<Rightarrow> m_fail ''invalid structure field address''
     | Some d \<Rightarrow>
         m_bind (field_index op d) (\<lambda>index. m_ok index (m_return None) (\<lambda>index.
           case dl_struct_layout dl_host (ic_module cfg) d of
             None \<Rightarrow> m_fail ''invalid structure field index''
           | Some l \<Rightarrow>
               if index \<ge> length (sl_fields l) then m_fail ''invalid structure field index''
               else m_return (Some (sint (fl_offset (sl_fields l ! index)))))))"

definition byte_offset :: "environment \<Rightarrow> operation \<Rightarrow> int option engine_m" where
  "byte_offset values op =
     m_bind (operand_at op 1) (\<lambda>text. m_bind (lookup values text False) (\<lambda>d.
       case d of
         Some v \<Rightarrow> m_return (Some (signed_value v))
       | None \<Rightarrow>
           (case parse_int64 text of
              None \<Rightarrow> m_fail ''invalid pointer offset''
            | Some n \<Rightarrow> m_return (Some n))))"

definition address_offset :: "interp_config \<Rightarrow> environment \<Rightarrow> operation \<Rightarrow> ir_value \<Rightarrow> int option engine_m" where
  "address_offset cfg values op base_value =
     (if op_opcode op = ''callback.element.address'' then callback_offset values op base_value
      else if op_opcode op = ''array.element.address'' then array_offset cfg values op
      else if op_opcode op = ''struct.field.address'' \<or> op_opcode op = ''struct.field.name.address''
      then struct_offset cfg op
      else byte_offset values op)"

definition eval_address :: "interp_config \<Rightarrow> environment \<Rightarrow> operation \<Rightarrow> ir_value option engine_m" where
  "eval_address cfg values op =
     m_bind (lookup_at values op 0) (\<lambda>b.
     if \<not> is_kind VK_pointer b then m_fail (op_opcode op @ '' requires pointer'')
     else let p = va_pointer (the b)
          in m_bind (address_offset cfg values op (the b)) (\<lambda>offset. m_ok offset (m_return None) (\<lambda>offset.
             m_bind m_get (\<lambda>en.
             case pointer_object en p of
               None \<Rightarrow> m_fail ''pointer offset is out of bounds''
             | Some (i, ob) \<Rightarrow>
                 if offset < 0 \<or> \<not> in_bounds ob (pt_offset p) (nat offset)
                 then m_fail ''pointer offset is out of bounds''
                 else m_return (Some (pointer_value (p\<lparr>pt_offset := pt_offset p + nat offset\<rparr>)))))))"

section \<open>Loads, stores and block transfers\<close>

definition eval_load :: "interp_config \<Rightarrow> environment \<Rightarrow> operation \<Rightarrow> ir_value option engine_m" where
  "eval_load cfg values op =
     m_bind (lookup_at values op 0) (\<lambda>p.
     if \<not> is_kind VK_pointer p then m_fail ''load requires pointer''
     else m_bind m_get (\<lambda>en.
       if op_alignment op \<noteq> 0 \<and> \<not> value_is_aligned cfg en (the p) (unat (op_alignment op))
       then m_fail ''load address does not satisfy alignment''
       else let bytes = bit_width (op_type op) div 8; off = pt_offset (va_pointer (the p))
            in case pointer_object en (va_pointer (the p)) of
                 None \<Rightarrow> m_fail ''load is out of bounds''
               | Some (i, ob) \<Rightarrow>
                   if bytes = 0 \<or> \<not> in_bounds ob off bytes then m_fail ''load is out of bounds''
                   else if op_type op = TK_ptr \<and> mo_function_slots ob off \<noteq> None
                   then m_return (Some (function_value (the (mo_function_slots ob off))))
                   else let bits = (le_word (read_object en ob off bytes) :: u64)
                        in m_return (Some
                             (if is_float (op_type op)
                              then floating_value_of (ic_fp cfg) (op_type op)
                                     (if op_type op = TK_f32 then fp_of_f32 (ic_fp cfg) (ucast bits) else bits)
                              else integer_value (op_type op) bits))))"

text \<open>The slot is updated after the bytes here and before them in the source; neither reads the other.\<close>

definition eval_store :: "interp_config \<Rightarrow> environment \<Rightarrow> operation \<Rightarrow> ir_value option engine_m" where
  "eval_store cfg values op =
     m_bind (lookup_at values op 0) (\<lambda>v. m_bind (lookup_at values op 1) (\<lambda>p.
     if \<not> (is_kind VK_integer v \<or> is_kind VK_floating v \<or> is_kind VK_function v) \<or> \<not> is_kind VK_pointer p
     then m_fail ''store requires scalar/function value and pointer''
     else m_bind m_get (\<lambda>en.
       if op_alignment op \<noteq> 0 \<and> \<not> value_is_aligned cfg en (the p) (unat (op_alignment op))
       then m_fail ''store address does not satisfy alignment''
       else if pt_read_only (va_pointer (the p)) then m_fail ''store to constant global''
       else let bytes = bit_width (op_type op) div 8; off = pt_offset (va_pointer (the p))
            in case pointer_object en (va_pointer (the p)) of
                 None \<Rightarrow> m_fail ''store is out of bounds''
               | Some (i, ob) \<Rightarrow>
                   if bytes = 0 \<or> \<not> in_bounds ob off bytes then m_fail ''store is out of bounds''
                   else if is_kind VK_function v then
                     (if op_type op \<noteq> TK_ptr then m_fail ''function pointer store requires ptr type''
                      else m_bind (m_write (i, ob) off (le_bytes bytes (0 :: u64))) (\<lambda>_.
                           m_bind (m_set_slot i off (Some (va_function (the v)))) (\<lambda>_. m_return None)))
                   else m_bind (m_write (i, ob) off (le_bytes bytes (va_bits (the v)))) (\<lambda>_.
                        m_bind (m_set_slot i off None) (\<lambda>_. m_return None)))))"

definition eval_aggregate_alias :: "environment \<Rightarrow> operation \<Rightarrow> ir_value option engine_m" where
  "eval_aggregate_alias values op = m_bind (lookup_at values op 0) (\<lambda>v.
     if \<not> is_kind VK_pointer v then m_fail ''invalid typed aggregate move'' else m_return v)"

definition eval_aggregate_end :: "environment \<Rightarrow> operation \<Rightarrow> ir_value option engine_m" where
  "eval_aggregate_end values op = m_bind (lookup_at values op 0) (\<lambda>v.
     if \<not> is_kind VK_pointer v then m_fail ''invalid aggregate lifetime end'' else m_return None)"

text \<open>\<open>memmove\<close> between two checked pointers: the source bytes are read before any is written.\<close>

definition copy_bytes :: "string \<Rightarrow> string \<Rightarrow> ir_pointer \<Rightarrow> ir_pointer \<Rightarrow> nat \<Rightarrow> ir_value option engine_m" where
  "copy_bytes read_only_message bounds_message dst src n = m_bind m_get (\<lambda>en.
     if pt_read_only dst then m_fail read_only_message
     else case (pointer_object en dst, pointer_object en src) of
            (Some (i, dob), Some (j, sob)) \<Rightarrow>
              if \<not> in_bounds dob (pt_offset dst) n \<or> \<not> in_bounds sob (pt_offset src) n then m_fail bounds_message
              else m_bind (m_write (i, dob) (pt_offset dst) (read_object en sob (pt_offset src) n))
                     (\<lambda>_. m_return None)
          | _ \<Rightarrow> m_fail bounds_message)"

definition set_bytes :: "string \<Rightarrow> string \<Rightarrow> ir_pointer \<Rightarrow> u8 \<Rightarrow> nat \<Rightarrow> ir_value option engine_m" where
  "set_bytes read_only_message bounds_message dst v n = m_bind m_get (\<lambda>en.
     if pt_read_only dst then m_fail read_only_message
     else case pointer_object en dst of
            None \<Rightarrow> m_fail bounds_message
          | Some (i, ob) \<Rightarrow>
              if \<not> in_bounds ob (pt_offset dst) n then m_fail bounds_message
              else m_bind (m_write (i, ob) (pt_offset dst) (replicate n v)) (\<lambda>_. m_return None))"

definition eval_aggregate_copy :: "interp_config \<Rightarrow> environment \<Rightarrow> operation \<Rightarrow> ir_value option engine_m" where
  "eval_aggregate_copy cfg values op =
     m_bind (lookup_at values op 0) (\<lambda>d. m_bind (lookup_at values op 1) (\<lambda>s. m_bind (symbol_at op 2) (\<lambda>name.
       case aggregate_size dl_host (ic_module cfg) (aggregate_kind_of (op_opcode op) ''aggregate.copy.struct'') name of
         None \<Rightarrow> m_fail ''invalid typed aggregate copy''
       | Some sz \<Rightarrow>
           if \<not> is_kind VK_pointer d \<or> \<not> is_kind VK_pointer s then m_fail ''invalid typed aggregate copy''
           else copy_bytes ''aggregate copy destination is read-only'' ''aggregate copy is out of bounds''
                  (va_pointer (the d)) (va_pointer (the s)) (unat sz))))"

definition eval_aggregate_zero :: "interp_config \<Rightarrow> environment \<Rightarrow> operation \<Rightarrow> ir_value option engine_m" where
  "eval_aggregate_zero cfg values op =
     m_bind (lookup_at values op 0) (\<lambda>d. m_bind (symbol_at op 1) (\<lambda>name.
       case aggregate_size dl_host (ic_module cfg) (aggregate_kind_of (op_opcode op) ''aggregate.zero.struct'') name of
         None \<Rightarrow> m_fail ''invalid typed aggregate zero''
       | Some sz \<Rightarrow>
           if \<not> is_kind VK_pointer d then m_fail ''invalid typed aggregate zero''
           else set_bytes ''aggregate zero destination is read-only'' ''aggregate zero is out of bounds''
                  (va_pointer (the d)) 0 (unat sz)))"

definition eval_memory_copy :: "environment \<Rightarrow> operation \<Rightarrow> ir_value option engine_m" where
  "eval_memory_copy values op =
     m_bind (lookup_at values op 0) (\<lambda>d. m_bind (lookup_at values op 1) (\<lambda>s. m_bind (lookup_at values op 2) (\<lambda>n.
       if \<not> is_kind VK_pointer d \<or> \<not> is_kind VK_pointer s \<or> \<not> is_kind VK_integer n
       then m_fail ''memory.copy requires destination ptr, source ptr, and integer byte count''
       else copy_bytes ''memory.copy destination is read-only'' ''memory.copy is out of bounds''
              (va_pointer (the d)) (va_pointer (the s)) (unat (va_bits (the n))))))"

definition eval_memory_set :: "environment \<Rightarrow> operation \<Rightarrow> ir_value option engine_m" where
  "eval_memory_set values op =
     m_bind (lookup_at values op 0) (\<lambda>d. m_bind (lookup_at values op 1) (\<lambda>v. m_bind (lookup_at values op 2) (\<lambda>n.
       if \<not> is_kind VK_pointer d \<or> \<not> is_kind VK_integer v \<or> \<not> is_kind VK_integer n
       then m_fail ''memory.set requires destination ptr, i8 value, and integer byte count''
       else set_bytes ''memory.set destination is read-only'' ''memory.set is out of bounds''
              (va_pointer (the d)) (ucast (va_bits (the v))) (unat (va_bits (the n))))))"

section \<open>Calls\<close>

text \<open>The values of the operands, stopping at the first that is undefined.\<close>

fun lookup_all :: "environment \<Rightarrow> string list \<Rightarrow> ir_value list option engine_m" where
  "lookup_all values [] = m_return (Some [])"
| "lookup_all values (n # ns) = m_bind (lookup values n True) (\<lambda>v. m_ok v (m_return None) (\<lambda>v.
     m_bind (lookup_all values ns) (\<lambda>vs. m_return (map_option (\<lambda>vs. v # vs) vs))))"

type_synonym callee = "string \<Rightarrow> ir_value list \<Rightarrow> ir_value option engine_m"

definition call_target :: "environment \<Rightarrow> operation \<Rightarrow> string option engine_m" where
  "call_target values op =
     (if op_opcode op = ''call'' then m_bind (symbol_at op 0) (\<lambda>t. m_return (Some t))
      else m_bind (lookup_at values op 0) (\<lambda>p.
        if \<not> is_kind VK_function p then m_fail ''indirect call requires function pointer''
        else m_return (Some (va_function (the p)))))"

definition first_argument :: "operation \<Rightarrow> nat" where
  "first_argument op =
     (if op_opcode op = ''call.indirect'' \<and> length (op_operands op) > 1 \<and> starts_with (op_operands op ! 1) ''@''
      then 2 else 1)"

definition eval_call :: "callee \<Rightarrow> environment \<Rightarrow> operation \<Rightarrow> ir_value option engine_m" where
  "eval_call callee values op =
     m_bind (call_target values op) (\<lambda>target. m_ok target (m_return None) (\<lambda>target.
       m_bind (lookup_all values (drop (first_argument op) (op_operands op))) (\<lambda>arguments.
         m_ok arguments (m_return None) (\<lambda>arguments. callee target arguments))))"

section \<open>Conversions and arithmetic\<close>

definition eval_int_cast :: "environment \<Rightarrow> operation \<Rightarrow> ir_value option engine_m" where
  "eval_int_cast values op = m_bind (lookup_at values op 0) (\<lambda>v.
     if \<not> is_kind VK_integer v then m_fail (op_opcode op @ '' requires integer'')
     else m_return (Some (integer_value (op_type op)
            (if op_opcode op = ''sign_extend'' then word_of_int (signed_value (the v)) else va_bits (the v)))))"

definition eval_int_to_float :: "interp_config \<Rightarrow> environment \<Rightarrow> operation \<Rightarrow> ir_value option engine_m" where
  "eval_int_to_float cfg values op = m_bind (lookup_at values op 0) (\<lambda>v.
     if \<not> is_kind VK_integer v then m_fail (op_opcode op @ '' requires integer'')
     else m_return (Some (floating_value_of (ic_fp cfg) (op_type op)
            (if op_opcode op = ''int_to_float.signed'' then fp_of_i64 (ic_fp cfg) (signed_value (the v))
             else fp_of_u64 (ic_fp cfg) (va_bits (the v))))))"

definition eval_float_to_int :: "interp_config \<Rightarrow> environment \<Rightarrow> operation \<Rightarrow> ir_value option engine_m" where
  "eval_float_to_int cfg values op = m_bind (lookup_at values op 0) (\<lambda>v.
     if \<not> is_kind VK_floating v then m_fail (op_opcode op @ '' requires floating-point input'')
     else let number = floating_value (ic_fp cfg) (the v)
          in case (if op_opcode op = ''float_to_int.signed'' then fp_to_i64 (ic_fp cfg) number
                   else fp_to_u64 (ic_fp cfg) number) of
               None \<Rightarrow> m_throw Undefined_behaviour
             | Some bits \<Rightarrow> m_return (Some (integer_value (op_type op) bits)))"

definition eval_float_cast :: "interp_config \<Rightarrow> environment \<Rightarrow> operation \<Rightarrow> ir_value option engine_m" where
  "eval_float_cast cfg values op = m_bind (lookup_at values op 0) (\<lambda>v.
     if \<not> is_kind VK_floating v then m_fail (op_opcode op @ '' requires floating-point input'')
     else m_return (Some (floating_value_of (ic_fp cfg) (op_type op) (floating_value (ic_fp cfg) (the v)))))"

definition bool_value :: "bool \<Rightarrow> ir_value" where
  "bool_value b = integer_value TK_i1 (if b then 1 else 0)"

text \<open>The message of an opcode no branch handles, quoted as in the source.\<close>

definition quoted :: "string \<Rightarrow> string" where
  "quoted s = [CHR 0x27] @ s @ [CHR 0x27]"

definition float_binary :: "fp_ops \<Rightarrow> operation \<Rightarrow> u64 \<Rightarrow> u64 \<Rightarrow> ir_value option engine_m" where
  "float_binary fp op a b =
     (let oc = op_opcode op; number = (\<lambda>x. m_return (Some (floating_value_of fp (op_type op) x)));
          comparison = (\<lambda>c. m_return (Some (bool_value c)))
      in if oc = ''add'' then number (fp_add fp a b)
         else if oc = ''sub'' then number (fp_sub fp a b)
         else if oc = ''mul'' then number (fp_mul fp a b)
         else if oc = ''div'' then number (fp_div fp a b)
         else if oc = ''cmp.eq'' then comparison (fp_eq fp a b)
         else if oc = ''cmp.ne'' then comparison (\<not> fp_eq fp a b)
         else if oc = ''cmp.lt'' then comparison (fp_lt fp a b)
         else if oc = ''cmp.le'' then comparison (fp_le fp a b)
         else if oc = ''cmp.gt'' then comparison (fp_lt fp b a)
         else if oc = ''cmp.ge'' then comparison (fp_le fp b a)
         else m_fail (''unsupported floating-point opcode '' @ quoted oc))"

definition eval_float_arith :: "interp_config \<Rightarrow> environment \<Rightarrow> operation \<Rightarrow> ir_value option \<Rightarrow> ir_value option engine_m" where
  "eval_float_arith cfg values op lhs =
     (let fp = ic_fp cfg
      in if \<not> is_kind VK_floating lhs then m_fail (op_opcode op @ '' requires floating-point operands'')
         else if op_opcode op = ''neg''
         then m_return (Some (floating_value_of fp (op_type op) (fp_neg fp (floating_value fp (the lhs)))))
         else m_bind (lookup_at values op 1) (\<lambda>rhs.
           if \<not> is_kind VK_floating rhs \<or> va_type (the rhs) \<noteq> va_type (the lhs)
           then m_fail (op_opcode op @ '' requires matching floating-point operands'')
           else float_binary fp op (floating_value fp (the lhs)) (floating_value fp (the rhs))))"

text \<open>The shift amount: \<open>b & (bit_width(op.type) - 1)\<close>, the subtraction in 32 bits.\<close>

definition shift_amount :: "ir_type \<Rightarrow> u64 \<Rightarrow> nat" where
  "shift_amount t b = unat (b AND ucast (word_of_nat (bit_width t) - 1 :: u32))"

definition integer_binary :: "operation \<Rightarrow> ir_value \<Rightarrow> ir_value \<Rightarrow> ir_value option engine_m" where
  "integer_binary op lhs rhs =
     (let oc = op_opcode op; a = va_bits lhs; b = va_bits rhs; sa = signed_value lhs; sb = signed_value rhs;
          amount = shift_amount (op_type op) b;
          number = (\<lambda>x. m_return (Some (integer_value (op_type op) x)));
          comparison = (\<lambda>c. m_return (Some (bool_value c)))
      in if oc = ''add'' then number (a + b)
         else if oc = ''sub'' then number (a - b)
         else if oc = ''mul'' then number (a * b)
         else if oc = ''and'' then number (a AND b)
         else if oc = ''or'' then number (a OR b)
         else if oc = ''xor'' then number (a XOR b)
         else if oc = ''shl'' then
           (if amount \<ge> 64 then m_throw Undefined_behaviour else number (push_bit amount a))
         else if oc = ''shr.unsigned'' then
           (if amount \<ge> 64 then m_throw Undefined_behaviour else number (drop_bit amount a))
         else if oc = ''shr.signed'' then
           (if amount \<ge> 64 then m_throw Undefined_behaviour else number (word_of_int (drop_bit amount sa)))
         else if oc = ''div.signed'' \<or> oc = ''rem.signed'' then
           (if sb = 0 then m_fail ''signed division by zero''
            else if sa = - (2 ^ 63) \<and> sb = - 1 then m_throw Undefined_behaviour
            else if oc = ''div.signed'' then number (word_of_int (sa sdiv sb))
            else number (word_of_int (sa smod sb)))
         else if oc = ''div.unsigned'' \<or> oc = ''rem.unsigned'' then
           (if b = 0 then m_fail ''unsigned division by zero''
            else if oc = ''div.unsigned'' then number (a div b)
            else number (a mod b))
         else if oc = ''cmp.eq'' then comparison (a = b)
         else if oc = ''cmp.ne'' then comparison (a \<noteq> b)
         else if oc = ''cmp.lt'' then comparison (sa < sb)
         else if oc = ''cmp.le'' then comparison (sa \<le> sb)
         else if oc = ''cmp.gt'' then comparison (sa > sb)
         else if oc = ''cmp.ge'' then comparison (sa \<ge> sb)
         else if oc = ''cmp.ult'' then comparison (a < b)
         else if oc = ''cmp.ule'' then comparison (a \<le> b)
         else if oc = ''cmp.ugt'' then comparison (a > b)
         else if oc = ''cmp.uge'' then comparison (a \<ge> b)
         else m_fail (''unsupported interpreter opcode '' @ quoted oc))"

definition eval_integer_arith :: "environment \<Rightarrow> operation \<Rightarrow> ir_value option \<Rightarrow> ir_value option engine_m" where
  "eval_integer_arith values op lhs =
     (if \<not> is_kind VK_integer lhs then m_fail (op_opcode op @ '' requires integer operands'')
      else if op_opcode op = ''neg'' then m_return (Some (integer_value (op_type op) (0 - va_bits (the lhs))))
      else if op_opcode op = ''not'' then m_return (Some (integer_value (op_type op) (NOT (va_bits (the lhs)))))
      else m_bind (lookup_at values op 1) (\<lambda>rhs.
        if \<not> is_kind VK_integer rhs then m_fail (op_opcode op @ '' requires integer operands'')
        else integer_binary op (the lhs) (the rhs)))"

definition eval_arith :: "interp_config \<Rightarrow> environment \<Rightarrow> operation \<Rightarrow> ir_value option engine_m" where
  "eval_arith cfg values op = m_bind (lookup_at values op 0) (\<lambda>lhs.
     if is_float (op_type op) \<or>
        (starts_with (op_opcode op) ''cmp.'' \<and> lhs \<noteq> None \<and> is_float (va_type (the lhs)))
     then eval_float_arith cfg values op lhs
     else eval_integer_arith values op lhs)"

section \<open>Dispatch\<close>

definition evaluate :: "interp_config \<Rightarrow> callee \<Rightarrow> environment \<Rightarrow> operation \<Rightarrow> ir_value option engine_m" where
  "evaluate cfg callee values op =
     (let oc = op_opcode op
      in if oc = ''const'' then eval_const cfg op
         else if oc \<in> {''sizeof.array'', ''alignof.array''} then eval_array_query cfg op
         else if oc \<in> {''sizeof.struct'', ''alignof.struct''} then eval_struct_query cfg op
         else if oc = ''copy'' then lookup_at values op 0
         else if oc \<in> {''func.address'', ''callback.address''} then eval_function_address op
         else if oc \<in> {''global.address'', ''tls.address''} then eval_global_address cfg op
         else if oc \<in> {''stack.alloc.struct'', ''stack.alloc.array''} then eval_stack_alloc_typed cfg op
         else if oc = ''stack.alloc'' then eval_stack_alloc op
         else if oc \<in> {''ptr.offset'', ''field.address'', ''struct.field.address'', ''struct.field.name.address'',
              ''array.element.address'', ''callback.element.address''} then eval_address cfg values op
         else if oc = ''load'' then eval_load cfg values op
         else if oc = ''store'' then eval_store cfg values op
         else if oc \<in> {''aggregate.move.struct'', ''aggregate.move.array'', ''aggregate.borrow.struct'',
              ''aggregate.borrow.array'', ''aggregate.borrow.mut.struct'', ''aggregate.borrow.mut.array'',
              ''aggregate.attach.struct'', ''aggregate.attach.array''} then eval_aggregate_alias values op
         else if oc \<in> {''aggregate.borrow.end.struct'', ''aggregate.borrow.end.array'',
              ''aggregate.end.struct'', ''aggregate.end.array''} then eval_aggregate_end values op
         else if oc \<in> {''aggregate.copy.struct'', ''aggregate.copy.array''} then eval_aggregate_copy cfg values op
         else if oc \<in> {''aggregate.zero.struct'', ''aggregate.zero.array''} then eval_aggregate_zero cfg values op
         else if oc = ''memory.copy'' then eval_memory_copy values op
         else if oc = ''memory.set'' then eval_memory_set values op
         else if oc \<in> {''call'', ''call.indirect''} then eval_call callee values op
         else if oc \<in> {''truncate'', ''zero_extend'', ''sign_extend'', ''bitcast''} then eval_int_cast values op
         else if oc \<in> {''int_to_float.signed'', ''int_to_float.unsigned''} then eval_int_to_float cfg values op
         else if oc \<in> {''float_to_int.signed'', ''float_to_int.unsigned''} then eval_float_to_int cfg values op
         else if oc \<in> {''float_extend'', ''float_truncate''} then eval_float_cast cfg values op
         else eval_arith cfg values op)"

section \<open>Calls and control flow\<close>

text \<open>
  The check on an aggregate passed as a pointer: it must be a pointer to enough, suitably aligned bytes.
  \<open>fits_aggregate\<close> is the conjunction the source repeats for arguments, block arguments and results.
\<close>

definition fits_aggregate :: "interp_config \<Rightarrow> engine \<Rightarrow> aggregate_ref_kind \<Rightarrow> string \<Rightarrow> ir_value \<Rightarrow> nat option" where
  "fits_aggregate cfg en kind name v =
     (case (aggregate_size dl_host (ic_module cfg) kind name,
            aggregate_alignment dl_host (ic_module cfg) kind name) of
        (Some required, Some alignment) \<Rightarrow>
          if remaining_bytes en v < unat required \<or> \<not> value_is_aligned cfg en v (unat alignment) then None
          else Some (unat required)
      | _ \<Rightarrow> None)"

text \<open>The bytes an aggregate value points at; an alignment test has ruled out a null object.\<close>

definition aggregate_bytes :: "engine \<Rightarrow> ir_value \<Rightarrow> nat \<Rightarrow> u8 list option" where
  "aggregate_bytes en v n =
     (case pointer_object en (va_pointer v) of
        None \<Rightarrow> None
      | Some (i, ob) \<Rightarrow> Some (read_object en ob (pt_offset (va_pointer v)) n))"

text \<open>An owned aggregate is copied into a new object.\<close>

definition copy_owned :: "ir_value \<Rightarrow> nat \<Rightarrow> ir_value engine_m" where
  "copy_owned v n = m_bind m_get (\<lambda>en.
     case aggregate_bytes en v n of
       None \<Rightarrow> m_throw Undefined_behaviour
     | Some bs \<Rightarrow> m_alloc bs)"

definition prepare_aggregate ::
  "interp_config \<Rightarrow> string \<Rightarrow> string \<Rightarrow> value_decl \<Rightarrow> ir_value \<Rightarrow> ir_value option engine_m" where
  "prepare_aggregate cfg kind_message size_message d v =
     (if \<not> vd_is_aggregate d then m_return (Some v)
      else if va_kind v \<noteq> VK_pointer then m_fail kind_message
      else m_bind m_get (\<lambda>en.
        case fits_aggregate cfg en (vd_aggregate_kind d) (vd_aggregate_name d) v of
          None \<Rightarrow> m_fail size_message
        | Some required \<Rightarrow>
            if vd_owned d then some_value (copy_owned v required) else m_return (Some v)))"

fun prepare_arguments :: "interp_config \<Rightarrow> string \<Rightarrow> value_decl list \<Rightarrow> ir_value list \<Rightarrow> ir_value list option engine_m" where
  "prepare_arguments cfg fname (d # ds) (v # vs) =
     m_bind (prepare_aggregate cfg
         (''aggregate argument '' @ vd_name d @ '' calling @'' @ fname @ '' must be a pointer'')
         (''aggregate argument '' @ vd_name d @ '' calling @'' @ fname @ '' has insufficient size or alignment'') d v)
       (\<lambda>v'. m_ok v' (m_return None) (\<lambda>v'.
          m_bind (prepare_arguments cfg fname ds vs) (\<lambda>vs'. m_return (map_option (\<lambda>vs'. v' # vs') vs'))))"
| "prepare_arguments cfg fname _ _ = m_return (Some [])"

text \<open>
  Binding block arguments. The source has checked that the counts agree before it binds, except for
  block 0, whose arguments it does not bind.
\<close>

fun bind_block_arguments :: "interp_config \<Rightarrow> value_decl list \<Rightarrow> ir_value list \<Rightarrow> environment \<Rightarrow> environment option engine_m" where
  "bind_block_arguments cfg (d # ds) (v # vs) values =
     m_bind (prepare_aggregate cfg
         (''aggregate block argument '' @ vd_name d @ '' must be a pointer'')
         (''aggregate block argument '' @ vd_name d @ '' has insufficient size or alignment'') d v)
       (\<lambda>v'. m_ok v' (m_return None) (\<lambda>v'. bind_block_arguments cfg ds vs (values(vd_name d \<mapsto> v'))))"
| "bind_block_arguments cfg _ _ values = m_return (Some values)"

text \<open>Copying a returned aggregate into the object reserved for an owned result.\<close>

definition copy_result :: "ir_value \<Rightarrow> ir_value \<Rightarrow> nat \<Rightarrow> ir_value option engine_m" where
  "copy_result owned v n = m_bind m_get (\<lambda>en.
     case (pointer_object en (va_pointer owned), aggregate_bytes en v n) of
       (Some (i, ob), Some bs) \<Rightarrow> m_bind (m_write (i, ob) 0 bs) (\<lambda>_. m_return (Some owned))
     | _ \<Rightarrow> m_throw Undefined_behaviour)"

definition finish_return ::
  "interp_config \<Rightarrow> ir_function \<Rightarrow> string \<Rightarrow> ir_value option \<Rightarrow> ir_value \<Rightarrow> ir_value option engine_m" where
  "finish_return cfg f message owned_result v =
     (if \<not> returns_aggregate f then m_return (Some v)
      else m_bind m_get (\<lambda>en.
        if va_kind v \<noteq> VK_pointer then m_fail message
        else case fits_aggregate cfg en (fn_return_aggregate_kind f) (fn_return_aggregate_name f) v of
               None \<Rightarrow> m_fail message
             | Some required \<Rightarrow>
                 if fn_return_owned f then
                   (case owned_result of
                      None \<Rightarrow> m_throw Undefined_behaviour
                    | Some r \<Rightarrow> copy_result r v required)
                 else m_return (Some v)))"

text \<open>How the operations of a block end: the function returns, control moves, or the block runs off its end.\<close>

datatype transfer =
    Returned "ir_value option"
  | Transferred nat "ir_value list"
  | Fell_through

definition m_tick :: "u64 engine_m" where
  "m_tick s = Inr (en_steps s + 1, s\<lparr>en_steps := en_steps s + 1\<rparr>)"

definition returned :: "ir_value option engine_m \<Rightarrow> transfer engine_m" where
  "returned m = m_bind m (\<lambda>v. m_return (Returned v))"

definition exec_return :: "interp_config \<Rightarrow> ir_function \<Rightarrow> ir_value option \<Rightarrow> environment \<Rightarrow> operation \<Rightarrow> ir_value option engine_m" where
  "exec_return cfg f owned_result values op =
     (case op_operands op of
        [] \<Rightarrow> m_return (Some void_value)
      | name # _ \<Rightarrow> m_bind (lookup values name True) (\<lambda>v. m_ok v (m_return None) (\<lambda>v.
          finish_return cfg f (''aggregate return from @'' @ fn_name f @ '' has insufficient size or alignment'')
            owned_result v)))"

text \<open>The subscripts of \<open>operands\<close>, \<open>successors\<close> and \<open>successor_arguments\<close> are unchecked in the source.\<close>

definition successor_index :: "environment \<Rightarrow> operation \<Rightarrow> nat option engine_m" where
  "successor_index values op =
     (if op_opcode op = ''branch'' then
        (case list_at (op_operands op) 0 of
           None \<Rightarrow> m_throw Undefined_behaviour
         | Some name \<Rightarrow> m_bind (lookup values name True)
             (\<lambda>c. m_return (map_option (\<lambda>c. if va_bits c \<noteq> 0 then 0 else 1) c)))
      else m_return (Some 0))"

definition exec_jump :: "ir_function \<Rightarrow> environment \<Rightarrow> operation \<Rightarrow> transfer engine_m" where
  "exec_jump f values op =
     m_bind (successor_index values op) (\<lambda>index. m_ok index (m_return (Returned None)) (\<lambda>index.
       case list_at (op_successors op) index of
         None \<Rightarrow> m_throw Undefined_behaviour
       | Some name \<Rightarrow> m_bind (find_block f name) (\<lambda>target. m_ok target (m_return (Returned None)) (\<lambda>target.
           case list_at (op_successor_arguments op) index of
             None \<Rightarrow> m_throw Undefined_behaviour
           | Some names \<Rightarrow> m_bind (lookup_all values names) (\<lambda>vs.
               m_ok vs (m_return (Returned None)) (\<lambda>vs. m_return (Transferred target vs)))))))"

fun exec_operations ::
  "interp_config \<Rightarrow> callee \<Rightarrow> ir_function \<Rightarrow> ir_value option \<Rightarrow> operation list \<Rightarrow> environment \<Rightarrow> (transfer \<times> environment) engine_m" where
  "exec_operations cfg callee f owned_result [] values = m_return (Fell_through, values)"
| "exec_operations cfg callee f owned_result (op # ops) values =
     m_bind m_tick (\<lambda>steps.
       if steps > io_max_steps (ic_options cfg)
       then m_bind (returned (m_fail ''interpreter step limit exceeded'')) (\<lambda>t. m_return (t, values))
       else if op_opcode op = ''return''
       then m_bind (returned (exec_return cfg f owned_result values op)) (\<lambda>t. m_return (t, values))
       else if op_opcode op = ''unreachable''
       then m_bind (returned (m_fail (''executed unreachable operation in @'' @ fn_name f))) (\<lambda>t. m_return (t, values))
       else if op_opcode op \<in> {''jump'', ''branch''}
       then m_bind (exec_jump f values op) (\<lambda>t. m_return (t, values))
       else m_bind (evaluate cfg callee values op) (\<lambda>produced. m_bind m_get (\<lambda>en.
         if en_diagnostics en \<noteq> [] then m_return (Returned None, values)
         else if op_result op = [] then exec_operations cfg callee f owned_result ops values
         else case produced of
                None \<Rightarrow> m_bind (returned (m_fail (''operation '' @ quoted (op_opcode op) @ '' did not produce a value'')))
                          (\<lambda>t. m_return (t, values))
              | Some v \<Rightarrow> exec_operations cfg callee f owned_result ops (values(op_result op \<mapsto> v)))))"

text \<open>One iteration of the block loop: enter the block, bind its arguments, run its operations.\<close>

definition exec_block ::
  "interp_config \<Rightarrow> callee \<Rightarrow> ir_function \<Rightarrow> ir_value option \<Rightarrow> nat \<Rightarrow> ir_value list \<Rightarrow> environment \<Rightarrow> (transfer \<times> environment) engine_m" where
  "exec_block cfg callee f owned_result block_index incoming values =
     (if block_index \<ge> length (fn_blocks f)
      then m_bind (returned (m_fail (''invalid interpreter block index in @'' @ fn_name f))) (\<lambda>t. m_return (t, values))
      else let block = fn_blocks f ! block_index
           in if length (bl_parameters block) \<noteq> length incoming \<and> block_index \<noteq> 0
              then m_bind (returned (m_fail (''block argument count mismatch entering '' @ bl_name block)))
                     (\<lambda>t. m_return (t, values))
              else m_bind (if block_index \<noteq> 0 then bind_block_arguments cfg (bl_parameters block) incoming values
                           else m_return (Some values))
                (\<lambda>bound. m_ok bound (m_return (Returned None, values)) (\<lambda>values'.
                   m_bind (exec_operations cfg callee f owned_result (bl_operations block) values')
                     (\<lambda>(t, values''). case t of
                        Fell_through \<Rightarrow>
                          m_bind (returned (m_fail (''block '' @ bl_name block @ '' completed without control transfer'')))
                            (\<lambda>t'. m_return (t', values''))
                      | _ \<Rightarrow> m_return (t, values'')))))"

text \<open>
  \<open>while (true)\<close> over blocks, with fuel. Every iteration but the last executes an operation, so
  \<open>max_steps + 2\<close> iterations are enough unless the limit is the largest 64-bit number, for which the
  counter wraps and the source itself may loop forever.
\<close>

fun exec_blocks ::
  "interp_config \<Rightarrow> callee \<Rightarrow> ir_function \<Rightarrow> ir_value option \<Rightarrow> nat \<Rightarrow> nat \<Rightarrow> ir_value list \<Rightarrow> environment \<Rightarrow> ir_value option engine_m" where
  "exec_blocks cfg callee f owned_result 0 block_index incoming values = m_throw Out_of_fuel"
| "exec_blocks cfg callee f owned_result (Suc fuel) block_index incoming values =
     m_bind (exec_block cfg callee f owned_result block_index incoming values) (\<lambda>(t, values').
       case t of
         Transferred target vs \<Rightarrow> exec_blocks cfg callee f owned_result fuel target vs values'
       | Returned v \<Rightarrow> m_return v
       | Fell_through \<Rightarrow> m_return None)"

definition loop_fuel :: "interp_config \<Rightarrow> nat" where
  "loop_fuel cfg = unat (io_max_steps (ic_options cfg)) + 2"

definition find_function :: "ir_module \<Rightarrow> string \<Rightarrow> ir_function option" where
  "find_function m name = find (\<lambda>f. fn_name f = name) (md_functions m)"

definition call_external :: "external_function \<Rightarrow> ir_value list \<Rightarrow> ir_value option engine_m" where
  "call_external ext arguments s =
     (case ext arguments (en_store s, en_host s, en_diagnostics s) of
        (v, store, host, ds) \<Rightarrow> Inr (v, s\<lparr>en_store := store, en_host := host, en_diagnostics := ds\<rparr>))"

definition reserve_result :: "interp_config \<Rightarrow> ir_function \<Rightarrow> ir_value option option engine_m" where
  "reserve_result cfg f =
     (if \<not> fn_return_owned f then m_return (Some None)
      else case aggregate_size dl_host (ic_module cfg) (fn_return_aggregate_kind f) (fn_return_aggregate_name f) of
             None \<Rightarrow> m_fail (''invalid owned aggregate return layout for @'' @ fn_name f)
           | Some required \<Rightarrow>
               if required = 0 \<or> unat required > max_allocation
               then m_fail (''invalid owned aggregate return layout for @'' @ fn_name f)
               else m_bind (m_alloc (replicate (unat required) 0)) (\<lambda>v. m_return (Some (Some v))))"

fun bind_parameters :: "value_decl list \<Rightarrow> ir_value list \<Rightarrow> environment \<Rightarrow> environment" where
  "bind_parameters (d # ds) (v # vs) values = bind_parameters ds vs (map_emplace values (vd_name d) v)"
| "bind_parameters _ _ values = values"

definition call_function :: "interp_config \<Rightarrow> callee \<Rightarrow> ir_function \<Rightarrow> ir_value list \<Rightarrow> ir_value option engine_m" where
  "call_function cfg callee f arguments =
     m_bind (reserve_result cfg f) (\<lambda>r. m_ok r (m_return None) (\<lambda>owned_result.
     if length (fn_parameters f) \<noteq> length arguments
     then m_fail (''argument count mismatch calling @'' @ fn_name f)
     else m_bind (prepare_arguments cfg (fn_name f) (fn_parameters f) arguments) (\<lambda>vs. m_ok vs (m_return None) (\<lambda>vs.
       if fn_is_signature f then m_fail (''cannot execute signature @'' @ fn_name f)
       else if fn_is_external f then
         (case ic_externals cfg (fn_name f) of
            None \<Rightarrow> m_fail (''unresolved external function @'' @ fn_name f)
          | Some ext \<Rightarrow> m_bind (call_external ext vs) (\<lambda>v. m_ok v (m_return None) (\<lambda>v.
              finish_return cfg f (''external aggregate return from @'' @ fn_name f @ '' has insufficient size or alignment'')
                owned_result v)))
       else exec_blocks cfg callee f owned_result (loop_fuel cfg) 0 []
              (bind_parameters (fn_parameters f) vs Map.empty)))))"

text \<open>\<open>call_at n\<close> is \<open>call\<close> with \<open>n\<close> levels left below \<open>max_call_depth\<close>: \<open>depth = max_call_depth - n\<close>.\<close>

fun call_at :: "interp_config \<Rightarrow> nat \<Rightarrow> string \<Rightarrow> ir_value list \<Rightarrow> ir_value option engine_m" where
  "call_at cfg 0 name arguments = m_fail ''interpreter call-depth limit exceeded''"
| "call_at cfg (Suc n) name arguments =
     (case find_function (ic_module cfg) name of
        None \<Rightarrow>
          (case ic_externals cfg name of
             Some ext \<Rightarrow> call_external ext arguments
           | None \<Rightarrow> m_fail (''unknown function @'' @ name))
      | Some f \<Rightarrow> call_function cfg (call_at cfg n) f arguments)"

section \<open>Globals and entry point\<close>

definition global_size :: "ir_module \<Rightarrow> global_var \<Rightarrow> nat" where
  "global_size m g =
     (if is_named_aggregate g
      then (case aggregate_size dl_host m (gv_aggregate_kind g) (gv_aggregate_name g) of
              None \<Rightarrow> 0 | Some sz \<Rightarrow> unat sz)
      else if gv_function_signature_name g \<noteq> [] then unat (gv_element_count g) * 8
      else if gv_element_count g \<noteq> 1 then unat (gv_element_count g)
      else bit_width (gv_type g) div 8)"

type_synonym constructed = "engine \<times> (string \<rightharpoonup> global_storage)"

definition add_global :: "global_var \<Rightarrow> memory_object \<Rightarrow> bool \<Rightarrow> constructed \<Rightarrow> constructed" where
  "add_global g ob is_constant st = (case st of (en, gs) \<Rightarrow>
     (en\<lparr>en_store := en_store en @ [ob]\<rparr>,
      map_emplace gs (gv_name g) \<lparr>gs_object = length (en_store en), gs_is_constant = is_constant\<rparr>))"

definition fail_global :: "string \<Rightarrow> global_var \<Rightarrow> constructed \<Rightarrow> constructed" where
  "fail_global message g st = (case st of (en, gs) \<Rightarrow>
     (en\<lparr>en_diagnostics := en_diagnostics en @ [error_diagnostic (message @ gv_name g)]\<rparr>, gs))"

definition init_global :: "ir_module \<Rightarrow> (string \<rightharpoonup> external_global) \<Rightarrow> global_var \<Rightarrow> constructed \<Rightarrow> constructed" where
  "init_global m external_globals g st =
     (let bytes = global_size m g
      in if gv_is_external g then
           (case external_globals (gv_name g) of
              None \<Rightarrow> fail_global ''unresolved external global @'' g st
            | Some eg \<Rightarrow>
                if eg_address eg = None \<or> eg_size eg < bytes then fail_global ''unresolved external global @'' g st
                else add_global g \<lparr>mo_bytes = [], mo_external_data = eg_address eg, mo_external_size = eg_size eg,
                       mo_function_slots = Map.empty\<rparr> (gv_is_constant g \<or> eg_read_only eg) st)
         else if gv_element_count g \<noteq> 1 \<or> is_named_aggregate g then
           (if gv_zero_initialized g then add_global g (owned_object (replicate bytes 0)) (gv_is_constant g) st
            else if length (gv_bytes g) \<noteq> bytes then fail_global ''invalid byte initializer for global @'' g st
            else add_global g (owned_object (gv_bytes g)) (gv_is_constant g) st)
         else if gv_zero_initialized g then add_global g (owned_object (replicate bytes 0)) (gv_is_constant g) st
         else case parse_int64 (gv_initializer g) of
                None \<Rightarrow> fail_global ''invalid initializer for global @'' g st
              | Some v \<Rightarrow>
                  if bytes = 0 then fail_global ''invalid initializer for global @'' g st
                  else add_global g
                    (owned_object (le_bytes bytes (normalize_bits (gv_type g) (word_of_int v)))) (gv_is_constant g) st)"

record interp_result =
  ir_result_value :: "ir_value option"
  ir_result_diagnostics :: diagnostics
  ir_result_steps :: u64

text \<open>
  \<open>execute\<close>: the constructor initialises the globals in order on top of the objects the host already
  passed, then \<open>run\<close> calls the function and drops the value when there is a diagnostic. The final
  memory is returned too, since host code sees it.
\<close>

definition construct :: "ir_module \<Rightarrow> (string \<rightharpoonup> external_global) \<Rightarrow> memory_object list \<Rightarrow> (nat \<Rightarrow> u8) \<Rightarrow> constructed" where
  "construct m external_globals store host =
     fold (init_global m external_globals) (md_globals m)
       (\<lparr>en_store = store, en_host = host, en_diagnostics = [], en_steps = 0\<rparr>, Map.empty)"

definition make_config ::
  "ir_module \<Rightarrow> interp_options \<Rightarrow> (string \<rightharpoonup> external_function) \<Rightarrow> (nat \<Rightarrow> nat) \<Rightarrow> fp_ops \<Rightarrow> (string \<rightharpoonup> global_storage) \<Rightarrow> interp_config" where
  "make_config m options externals base fp gs =
     \<lparr>ic_module = m, ic_options = options, ic_globals = gs, ic_externals = externals, ic_base = base, ic_fp = fp\<rparr>"

definition run :: "interp_config \<Rightarrow> string \<Rightarrow> ir_value list \<Rightarrow> engine \<Rightarrow> interp_fault + interp_result \<times> engine" where
  "run cfg name arguments en =
     (case call_at cfg (io_max_call_depth (ic_options cfg)) name arguments en of
        Inl f \<Rightarrow> Inl f
      | Inr (v, en') \<Rightarrow>
          Inr (\<lparr>ir_result_value = (if en_diagnostics en' \<noteq> [] then None else v),
                ir_result_diagnostics = en_diagnostics en', ir_result_steps = en_steps en'\<rparr>, en'))"

definition execute ::
  "ir_module \<Rightarrow> interp_options \<Rightarrow> (string \<rightharpoonup> external_function) \<Rightarrow> (string \<rightharpoonup> external_global) \<Rightarrow> (nat \<Rightarrow> nat) \<Rightarrow> fp_ops \<Rightarrow>
   memory_object list \<Rightarrow> (nat \<Rightarrow> u8) \<Rightarrow> string \<Rightarrow> ir_value list \<Rightarrow> interp_fault + interp_result \<times> engine" where
  "execute m options externals external_globals base fp store host name arguments =
     (case construct m external_globals store host of
        (en, gs) \<Rightarrow> run (make_config m options externals base fp gs) name arguments en)"

end
