(* ===== verification/Interp_Contract.thy ===== *)
theory Interp_Contract
  imports Interpreter
begin

text \<open>
  What holds across every interpreter operation, proved once. The locale \<open>evaluator\<close> fixes a relation
  \<open>R\<close> between engine states, a property \<open>V\<close> of values at a state, a property \<open>W\<close> of result buffers and a
  set \<open>F\<close> of faults, with the laws of the memory primitives; it concludes that evaluating any operation
  stays in \<open>R\<close>, yields values in \<open>V\<close> and ends in no fault outside \<open>F\<close>. The locale \<open>machine\<close> adds the step
  counter and the host's functions and extends the conclusion to blocks and calls.
\<close>

section \<open>Outcomes\<close>

definition ends :: "(interp_fault \<Rightarrow> bool) \<Rightarrow> (engine \<Rightarrow> engine \<Rightarrow> bool) \<Rightarrow> engine \<Rightarrow> 'a engine_m \<Rightarrow>
    ('a \<Rightarrow> engine \<Rightarrow> bool) \<Rightarrow> bool" where
  "ends F R s m Q \<longleftrightarrow> (case m s of Inl f \<Rightarrow> F f | Inr (x, s') \<Rightarrow> R s s' \<and> Q x s')"

definition add_diagnostic :: "string \<Rightarrow> engine \<Rightarrow> engine" where
  "add_diagnostic message s = s\<lparr>en_diagnostics := en_diagnostics s @ [error_diagnostic message]\<rparr>"

definition add_object :: "memory_object \<Rightarrow> engine \<Rightarrow> engine" where
  "add_object ob s = s\<lparr>en_store := en_store s @ [ob]\<rparr>"

definition fresh_pointer :: "engine \<Rightarrow> ir_value" where
  "fresh_pointer s = pointer_value \<lparr>pt_object = Some (length (en_store s)), pt_offset = 0, pt_read_only = False\<rparr>"

lemma m_alloc_eq: "m_alloc bs s = Inr (fresh_pointer s, add_object (owned_object bs) s)"
  by (simp add: m_alloc_def fresh_pointer_def add_object_def)

lemma m_fail_eq: "m_fail message s = Inr (None, add_diagnostic message s)"
  by (simp add: m_fail_def add_diagnostic_def)

lemma m_ok_simps [simp]: "m_ok None failed k = failed" "m_ok (Some x) failed k = k x"
  by (simp_all add: m_ok_def)

lemma is_kind_iff [simp]: "is_kind k v \<longleftrightarrow> (\<exists>x. v = Some x \<and> va_kind x = k)"
  by (simp add: is_kind_def split: option.splits)

lemma kind_simps [simp]:
  "va_kind (pointer_value p) = VK_pointer" "va_pointer (pointer_value p) = p"
  "va_kind (integer_value t b) = VK_integer" "va_type (integer_value t b) = t"
  "va_bits (integer_value t b) = normalize_bits t b"
  "va_kind (floating_value_of fp t x) = VK_floating" "va_type (floating_value_of fp t x) = t"
  "va_kind (function_value n) = VK_function" "va_function (function_value n) = n"
  "va_kind void_value = VK_void"
  by (simp_all add: pointer_value_def integer_value_def floating_value_of_def function_value_def void_value_def)

lemma length_read_object [simp]: "in_bounds ob off n \<Longrightarrow> length (read_object en ob off n) = n"
  by (auto simp: in_bounds_def read_object_def object_size_def split: option.splits)

lemma pointer_object_Some:
  "pointer_object s p = Some (i, ob) \<longleftrightarrow> pt_object p = Some i \<and> i < length (en_store s) \<and> en_store s ! i = ob"
  by (auto simp: pointer_object_def list_at_def split: option.splits)

lemma fits_aggregate_bytes:
  assumes "fits_aggregate cfg s kind name v = Some n" and "aggregate_bytes s v n = Some bs"
  shows "length bs = n"
  using assms
  by (auto simp: fits_aggregate_def aggregate_bytes_def remaining_bytes_def in_bounds_def value_is_aligned_def
      host_address_def split: option.splits if_splits prod.splits)

locale step_relation =
  fixes F :: "interp_fault \<Rightarrow> bool" and R :: "engine \<Rightarrow> engine \<Rightarrow> bool"
  assumes R_refl: "R s s"
    and R_trans: "R s s' \<Longrightarrow> R s' s'' \<Longrightarrow> R s s''"
    and R_fail: "R s (add_diagnostic message s)"
    and F_range: "F Out_of_range"
    and F_undefined: "F Undefined_behaviour"
begin

lemma ends_return: "Q x s \<Longrightarrow> ends F R s (m_return x) Q"
  by (simp add: ends_def m_return_def R_refl)

lemma ends_fail: "Q None (add_diagnostic message s) \<Longrightarrow> ends F R s (m_fail message) Q"
  by (simp add: ends_def m_fail_eq R_fail)

lemma ends_range: "ends F R s (m_throw Out_of_range) Q"
  by (simp add: ends_def m_throw_def F_range)

lemma ends_undefined: "ends F R s (m_throw Undefined_behaviour) Q"
  by (simp add: ends_def m_throw_def F_undefined)

lemma ends_bind:
  assumes "ends F R s m Q'" and "\<And>x s'. R s s' \<Longrightarrow> Q' x s' \<Longrightarrow> ends F R s' (k x) Q"
  shows "ends F R s (m_bind m k) Q"
proof (cases "m s")
  case (Inr p)
  obtain x s' where p: "p = (x, s')" by (cases p)
  then have r: "R s s'" and "ends F R s' (k x) Q" using assms Inr by (auto simp: ends_def)
  then show ?thesis using Inr p by (auto simp: ends_def m_bind_def split: sum.splits intro: R_trans)
qed (use assms(1) in \<open>simp add: ends_def m_bind_def\<close>)

lemma ends_bind_same:
  assumes "ends F R s m (\<lambda>x s'. x = None \<or> (s' = s \<and> Q' (the x)))"
    and "\<And>s'. R s s' \<Longrightarrow> ends F R s' (k None) Q" and "\<And>x. Q' x \<Longrightarrow> ends F R s (k (Some x)) Q"
  shows "ends F R s (m_bind m k) Q"
proof (rule ends_bind [OF assms(1)])
  fix x s' assume "R s s'" "x = None \<or> (s' = s \<and> Q' (the x))"
  then show "ends F R s' (k x) Q" using assms(2,3) by (cases x) auto
qed

lemma ends_get: "ends F R s (k s) Q \<Longrightarrow> ends F R s (m_bind m_get k) Q"
  by (simp add: ends_def m_bind_def m_get_def)

lemma ends_ok:
  "(v = None \<Longrightarrow> ends F R s failed Q) \<Longrightarrow> (\<And>x. v = Some x \<Longrightarrow> ends F R s (k x) Q) \<Longrightarrow>
   ends F R s (m_ok v failed k) Q"
  by (cases v) (simp_all add: m_ok_def)

lemma ends_if:
  "(b \<Longrightarrow> ends F R s m Q) \<Longrightarrow> (\<not> b \<Longrightarrow> ends F R s m' Q) \<Longrightarrow> ends F R s (if b then m else m') Q"
  by simp

lemma ends_option:
  "(v = None \<Longrightarrow> ends F R s m Q) \<Longrightarrow> (\<And>x. v = Some x \<Longrightarrow> ends F R s (k x) Q) \<Longrightarrow>
   ends F R s (case v of None \<Rightarrow> m | Some x \<Rightarrow> k x) Q"
  by (cases v) simp_all

lemma ends_prod: "(\<And>a b. p = (a, b) \<Longrightarrow> ends F R s (k a b) Q) \<Longrightarrow> ends F R s (case p of (a, b) \<Rightarrow> k a b) Q"
  by (cases p) simp

lemma ends_mono: "ends F R s m Q' \<Longrightarrow> (\<And>x s'. R s s' \<Longrightarrow> Q' x s' \<Longrightarrow> Q x s') \<Longrightarrow> ends F R s m Q"
  by (auto simp: ends_def split: sum.splits)

lemmas ends_intros = ends_return ends_fail ends_range ends_undefined ends_get ends_ok ends_if ends_option ends_prod

lemma ends_operand_at: "ends F R s (operand_at op i) (\<lambda>x s'. s' = s)"
  unfolding operand_at_def by (intro ends_intros refl)

lemma ends_symbol_at: "ends F R s (symbol_at op i) (\<lambda>x s'. s' = s)"
  unfolding symbol_at_def substr1_def
  by (rule ends_bind [OF ends_operand_at]) (intro ends_intros; simp)

lemma ends_lookup: "ends F R s (lookup values n report) (\<lambda>x s'. x = None \<or> (s' = s \<and> values n = Some (the x)))"
  unfolding lookup_def by (intro ends_intros) auto

lemma ends_lookup_at:
  "ends F R s (lookup_at values op i) (\<lambda>x s'. x = None \<or> (s' = s \<and> the x \<in> ran values))"
  unfolding lookup_at_def
  by (rule ends_bind [OF ends_operand_at], simp) (rule ends_mono [OF ends_lookup], auto simp: ran_def)

end

section \<open>Evaluating one operation\<close>

locale evaluator = step_relation F R
  for F :: "interp_fault \<Rightarrow> bool" and R :: "engine \<Rightarrow> engine \<Rightarrow> bool" +
  fixes cfg :: interp_config and V :: "engine \<Rightarrow> ir_value \<Rightarrow> bool"
    and W :: "engine \<Rightarrow> ir_value \<Rightarrow> nat \<Rightarrow> bool" and s0 :: engine
  assumes V_mono: "V s v \<Longrightarrow> R s s' \<Longrightarrow> V s' v"
    and W_mono: "W s v n \<Longrightarrow> R s s' \<Longrightarrow> W s' v n"
    and R_alloc: "R s0 s \<Longrightarrow> R s (add_object (owned_object bs) s)"
    and R_write: "R s0 s \<Longrightarrow> V s v \<Longrightarrow> va_kind v = VK_pointer \<Longrightarrow> \<not> pt_read_only (va_pointer v) \<Longrightarrow>
      pointer_object s (va_pointer v) = Some (i, ob) \<Longrightarrow> in_bounds ob (pt_offset (va_pointer v)) (length bs) \<Longrightarrow>
      R s (write_object (i, ob) (pt_offset (va_pointer v)) bs s)"
    and R_slot: "R s0 s \<Longrightarrow> V s v \<Longrightarrow> va_kind v = VK_pointer \<Longrightarrow> \<not> pt_read_only (va_pointer v) \<Longrightarrow>
      pt_object (va_pointer v) = Some i \<Longrightarrow> R s (set_slot i off slot s)"
    and R_result: "R s0 s \<Longrightarrow> W s v (length bs) \<Longrightarrow> pointer_object s (va_pointer v) = Some (i, ob) \<Longrightarrow>
      R s (write_object (i, ob) 0 bs s)"
    and V_integer: "V s (integer_value t b)"
    and V_floating: "V s (floating_value_of fp t x)"
    and V_function: "V s (function_value fname)"
    and V_void: "V s void_value"
    and V_alloc: "R s0 s \<Longrightarrow> V (add_object (owned_object bs) s) (fresh_pointer s)"
    and W_alloc: "R s0 s \<Longrightarrow> W (add_object (owned_object bs) s) (fresh_pointer s) (length bs)"
    and V_global: "R s0 s \<Longrightarrow> ic_globals cfg name = Some g \<Longrightarrow>
      V s (pointer_value \<lparr>pt_object = Some (gs_object g), pt_offset = 0, pt_read_only = gs_is_constant g\<rparr>)"
    and V_offset: "R s0 s \<Longrightarrow> V s v \<Longrightarrow> va_kind v = VK_pointer \<Longrightarrow> pointer_object s (va_pointer v) = Some (i, ob) \<Longrightarrow>
      in_bounds ob (pt_offset (va_pointer v)) n \<Longrightarrow>
      V s (pointer_value ((va_pointer v)\<lparr>pt_offset := pt_offset (va_pointer v) + n\<rparr>))"
begin

definition value_post :: "ir_value option \<Rightarrow> engine \<Rightarrow> bool" where
  "value_post r s \<longleftrightarrow> (\<forall>v. r = Some v \<longrightarrow> V s v)"

definition env_ok :: "engine \<Rightarrow> environment \<Rightarrow> bool" where
  "env_ok s values \<longleftrightarrow> (\<forall>v \<in> ran values. V s v)"

lemma value_post_simps [simp]: "value_post None s" "value_post (Some v) s \<longleftrightarrow> V s v"
  by (simp_all add: value_post_def)

lemma env_ok_mono: "env_ok s values \<Longrightarrow> R s s' \<Longrightarrow> env_ok s' values"
  by (auto simp: env_ok_def intro: V_mono)

lemma env_ok_ran: "env_ok s values \<Longrightarrow> v \<in> ran values \<Longrightarrow> V s v"
  by (simp add: env_ok_def)

lemma env_ok_upd: "env_ok s values \<Longrightarrow> V s v \<Longrightarrow> env_ok s (values(n \<mapsto> v))"
  by (auto simp: env_ok_def ran_def split: if_splits)

lemma env_ok_empty: "env_ok s Map.empty"
  by (simp add: env_ok_def)

lemma base_trans: "R s0 s \<Longrightarrow> R s s' \<Longrightarrow> R s0 s'"
  by (rule R_trans)

lemma ends_alloc: "R s0 s \<Longrightarrow> ends F R s (m_alloc bs) (\<lambda>v s'. V s' v \<and> W s' v (length bs))"
  by (simp add: ends_def m_alloc_eq R_alloc V_alloc W_alloc)

lemma ends_some_alloc: "R s0 s \<Longrightarrow> ends F R s (some_value (m_alloc bs)) value_post"
  unfolding some_value_def by (rule ends_bind [OF ends_alloc]) (auto intro: ends_return)

lemma ends_lookup_value:
  "env_ok s values \<Longrightarrow> ends F R s (lookup_at values op i) value_post"
  by (rule ends_mono [OF ends_lookup_at]) (auto simp: value_post_def intro: env_ok_ran)

lemma ends_const: "ends F R s (eval_const cfg op) value_post"
  unfolding eval_const_def Let_def by (intro ends_intros) (simp_all add: V_floating V_integer)

lemma ends_array_query: "ends F R s (eval_array_query cfg op) value_post"
  unfolding eval_array_query_def
  by (rule ends_bind [OF ends_symbol_at]) (intro ends_intros; simp add: V_integer)

lemma ends_struct_query: "ends F R s (eval_struct_query cfg op) value_post"
  unfolding eval_struct_query_def
  by (rule ends_bind [OF ends_symbol_at]) (intro ends_intros; simp add: V_integer)

lemma ends_function_address: "ends F R s (eval_function_address op) value_post"
  unfolding eval_function_address_def
  by (rule ends_bind [OF ends_symbol_at]) (intro ends_intros; simp add: V_function)

lemma ends_global_address: "R s0 s \<Longrightarrow> ends F R s (eval_global_address cfg op) value_post"
  unfolding eval_global_address_def
  by (rule ends_bind [OF ends_symbol_at]) (intro ends_intros; simp add: V_global)

lemma ends_stack_alloc_typed: "R s0 s \<Longrightarrow> ends F R s (eval_stack_alloc_typed cfg op) value_post"
  unfolding eval_stack_alloc_typed_def
  by (rule ends_bind [OF ends_symbol_at]) (intro ends_intros ends_some_alloc; simp)

lemma ends_stack_alloc: "R s0 s \<Longrightarrow> ends F R s (eval_stack_alloc op) value_post"
  unfolding eval_stack_alloc_def
  by (rule ends_bind [OF ends_operand_at]) (intro ends_intros ends_some_alloc; simp)

text \<open>Computing an offset changes no memory: it fails, or leaves the state alone.\<close>

lemma ends_dynamic_index: "ends F R s (dynamic_index values op message) (\<lambda>x s'. x = None \<or> s' = s \<and> True)"
  unfolding dynamic_index_def
  by (rule ends_bind_same [OF ends_lookup_at]) (intro ends_intros; simp)+

lemma ends_callback_index: "ends F R s (callback_index values op) (\<lambda>x s'. x = None \<or> s' = s \<and> True)"
  unfolding callback_index_def
  by (rule ends_bind [OF ends_operand_at]) (intro ends_intros ends_mono [OF ends_dynamic_index]; auto)

lemma ends_callback_offset: "ends F R s (callback_offset values op b) (\<lambda>x s'. x = None \<or> s' = s \<and> True)"
  unfolding callback_offset_def by (rule ends_bind_same [OF ends_callback_index]) (intro ends_intros; simp)+

lemma ends_array_index: "ends F R s (array_index values op) (\<lambda>x s'. x = None \<or> s' = s \<and> True)"
  unfolding array_index_def
  by (rule ends_bind [OF ends_operand_at])
    (intro ends_intros ends_bind_same [OF ends_dynamic_index]; auto)

lemma ends_array_offset: "ends F R s (array_offset cfg values op) (\<lambda>x s'. x = None \<or> s' = s \<and> True)"
  unfolding array_offset_def
  by (rule ends_bind [OF ends_symbol_at]) (intro ends_intros ends_bind_same [OF ends_array_index]; simp)

lemma ends_field_index: "ends F R s (field_index op d) (\<lambda>x s'. x = None \<or> s' = s \<and> True)"
  unfolding field_index_def by (intro ends_intros ends_bind [OF ends_operand_at]; simp)

lemma ends_struct_offset: "ends F R s (struct_offset cfg op) (\<lambda>x s'. x = None \<or> s' = s \<and> True)"
  unfolding struct_offset_def
  by (rule ends_bind [OF ends_symbol_at]) (intro ends_intros ends_bind_same [OF ends_field_index]; simp)

lemma ends_byte_offset: "ends F R s (byte_offset values op) (\<lambda>x s'. x = None \<or> s' = s \<and> True)"
  unfolding byte_offset_def lookup_def
  by (rule ends_bind [OF ends_operand_at]) (auto simp: m_bind_def m_return_def ends_def m_fail_eq R_refl R_fail split: option.splits)

lemma ends_address_offset: "ends F R s (address_offset cfg values op b) (\<lambda>x s'. x = None \<or> s' = s \<and> True)"
  unfolding address_offset_def
  by (intro ends_if ends_callback_offset ends_array_offset ends_struct_offset ends_byte_offset)

lemma ends_address:
  assumes "R s0 s" and "env_ok s values"
  shows "ends F R s (eval_address cfg values op) value_post"
  unfolding eval_address_def Let_def
  by (rule ends_bind_same [OF ends_lookup_at])
    (intro ends_intros ends_bind_same [OF ends_address_offset]; use assms in \<open>auto intro: V_offset env_ok_ran\<close>)+

lemma ends_load: "env_ok s values \<Longrightarrow> ends F R s (eval_load cfg values op) value_post"
  unfolding eval_load_def Let_def
  by (rule ends_bind_same [OF ends_lookup_at])
    (intro ends_intros; auto simp: V_floating V_integer V_function)+

text \<open>A checked write through a value, followed by an update of the function slot.\<close>

lemma ends_write:
  assumes "R s0 s" "V s v" "va_kind v = VK_pointer" "\<not> pt_read_only (va_pointer v)"
    and "pointer_object s (va_pointer v) = Some (i, ob)" and "in_bounds ob (pt_offset (va_pointer v)) (length bs)"
  shows "ends F R s (m_write (i, ob) (pt_offset (va_pointer v)) bs) (\<lambda>_ s'. R s s')"
  using R_write [OF assms] by (simp add: ends_def m_write_def)

lemma ends_write_slot:
  assumes "R s0 s" "V s v" "va_kind v = VK_pointer" "\<not> pt_read_only (va_pointer v)"
    and "pointer_object s (va_pointer v) = Some (i, ob)" and "in_bounds ob (pt_offset (va_pointer v)) (length bs)"
  shows "ends F R s (m_bind (m_write (i, ob) (pt_offset (va_pointer v)) bs) (\<lambda>_.
    m_bind (m_set_slot i off name) (\<lambda>_. m_return None))) value_post"
proof (rule ends_bind [OF ends_write [OF assms]])
  fix x s' assume r: "R s s'"
  have "R s' (set_slot i off name s')"
    using assms r by (intro R_slot [of s' v]) (auto intro: R_trans V_mono simp: pointer_object_Some)
  then show "ends F R s' (m_bind (m_set_slot i off name) (\<lambda>_. m_return None)) value_post"
    by (simp add: ends_def m_bind_def m_set_slot_def m_return_def)
qed

lemma ends_store:
  assumes "R s0 s" and "env_ok s values"
  shows "ends F R s (eval_store cfg values op) value_post"
  unfolding eval_store_def Let_def
  apply (rule ends_bind [OF ends_lookup_at])
  subgoal for v s'
    apply (rule ends_bind_same [OF ends_lookup_at])
     apply (intro ends_intros; simp)
    apply (intro ends_intros ends_write_slot)
    using assms by (auto intro: R_trans env_ok_ran env_ok_mono)
  done

lemma ends_aggregate_alias: "env_ok s values \<Longrightarrow> ends F R s (eval_aggregate_alias values op) value_post"
  unfolding eval_aggregate_alias_def
  by (rule ends_bind_same [OF ends_lookup_at]) (intro ends_intros; auto intro: env_ok_ran)+

lemma ends_aggregate_end: "ends F R s (eval_aggregate_end values op) value_post"
  unfolding eval_aggregate_end_def
  by (rule ends_bind_same [OF ends_lookup_at]) (intro ends_intros; auto)+

lemma ends_copy_bytes:
  assumes "R s0 s" "V s v" "va_kind v = VK_pointer"
  shows "ends F R s (copy_bytes rm bm (va_pointer v) src n) value_post"
  unfolding copy_bytes_def
  by (intro ends_get ends_if ends_fail ends_prod ends_option ends_bind [OF ends_write [OF assms]] ends_return;
      simp)

lemma ends_set_bytes:
  assumes "R s0 s" "V s v" "va_kind v = VK_pointer"
  shows "ends F R s (set_bytes rm bm (va_pointer v) b n) value_post"
  unfolding set_bytes_def
  by (intro ends_get ends_if ends_fail ends_prod ends_option ends_bind [OF ends_write [OF assms]] ends_return;
      simp)

lemma ends_aggregate_copy:
  assumes "R s0 s" and "env_ok s values"
  shows "ends F R s (eval_aggregate_copy cfg values op) value_post"
  unfolding eval_aggregate_copy_def
proof (rule ends_bind [OF ends_lookup_value [OF assms(2)]])
  fix d s' assume d: "R s s'" "value_post d s'"
  show "ends F R s' (m_bind (lookup_at values op 1) (\<lambda>s. m_bind (symbol_at op 2) (\<lambda>name.
       case aggregate_size dl_host (ic_module cfg) (aggregate_kind_of (op_opcode op) ''aggregate.copy.struct'') name of
         None \<Rightarrow> m_fail ''invalid typed aggregate copy''
       | Some sz \<Rightarrow>
           if \<not> is_kind VK_pointer d \<or> \<not> is_kind VK_pointer s then m_fail ''invalid typed aggregate copy''
           else copy_bytes ''aggregate copy destination is read-only'' ''aggregate copy is out of bounds''
                  (va_pointer (the d)) (va_pointer (the s)) (unat sz)))) value_post"
    apply (rule ends_bind [OF ends_lookup_at], rule ends_bind [OF ends_symbol_at], intro ends_intros ends_copy_bytes)
    using assms d by (auto intro: R_trans V_mono)
qed

lemma ends_aggregate_zero:
  assumes "R s0 s" and "env_ok s values"
  shows "ends F R s (eval_aggregate_zero cfg values op) value_post"
  unfolding eval_aggregate_zero_def
  apply (rule ends_bind [OF ends_lookup_value [OF assms(2)]], rule ends_bind [OF ends_symbol_at],
      intro ends_intros ends_set_bytes)
  using assms by (auto intro: R_trans V_mono)

lemma ends_memory_copy:
  assumes "R s0 s" and "env_ok s values"
  shows "ends F R s (eval_memory_copy values op) value_post"
  unfolding eval_memory_copy_def
  apply (rule ends_bind [OF ends_lookup_value [OF assms(2)]], rule ends_bind [OF ends_lookup_at],
      rule ends_bind [OF ends_lookup_at], intro ends_intros ends_copy_bytes)
  using assms by (auto intro: R_trans V_mono)

lemma ends_memory_set:
  assumes "R s0 s" and "env_ok s values"
  shows "ends F R s (eval_memory_set values op) value_post"
  unfolding eval_memory_set_def
  apply (rule ends_bind [OF ends_lookup_value [OF assms(2)]], rule ends_bind [OF ends_lookup_at],
      rule ends_bind [OF ends_lookup_at], intro ends_intros ends_set_bytes)
  using assms by (auto intro: R_trans V_mono)

lemma ends_lookup_all:
  "ends F R s (lookup_all values ns) (\<lambda>vs s'. vs = None \<or> (s' = s \<and> set (the vs) \<subseteq> ran values))"
proof (induction ns)
  case (Cons n ns)
  show ?case
    unfolding lookup_all.simps
    by (rule ends_bind_same [OF ends_lookup])
      (auto intro!: ends_return ends_bind_same [OF Cons] simp: ran_def)
qed (simp add: ends_return)

lemma ends_call_target: "ends F R s (call_target values op) (\<lambda>t s'. t = None \<or> s' = s \<and> True)"
  unfolding call_target_def
  by (intro ends_if ends_bind [OF ends_symbol_at] ends_bind_same [OF ends_lookup_at] ends_intros; auto)

text \<open>The callee only has to behave at the state in which the operation is evaluated.\<close>

lemma ends_call:
  assumes "env_ok s values"
    and "\<And>name arguments. \<forall>v \<in> set arguments. V s v \<Longrightarrow> ends F R s (callee name arguments) value_post"
  shows "ends F R s (eval_call callee values op) value_post"
  unfolding eval_call_def
  by (rule ends_bind_same [OF ends_call_target])
    (use assms(1) in \<open>auto intro!: ends_return ends_bind_same [OF ends_lookup_all] assms(2) simp: env_ok_def subset_iff\<close>)

lemma ends_int_cast: "ends F R s (eval_int_cast values op) value_post"
  unfolding eval_int_cast_def
  by (rule ends_bind_same [OF ends_lookup_at]) (intro ends_intros; auto simp: V_integer)+

lemma ends_int_to_float: "ends F R s (eval_int_to_float cfg values op) value_post"
  unfolding eval_int_to_float_def
  by (rule ends_bind_same [OF ends_lookup_at]) (intro ends_intros; auto simp: V_floating)+

lemma ends_float_to_int: "ends F R s (eval_float_to_int cfg values op) value_post"
  unfolding eval_float_to_int_def Let_def
  by (rule ends_bind_same [OF ends_lookup_at]) (intro ends_intros; auto simp: V_integer)+

lemma ends_float_cast: "ends F R s (eval_float_cast cfg values op) value_post"
  unfolding eval_float_cast_def
  by (rule ends_bind_same [OF ends_lookup_at]) (intro ends_intros; auto simp: V_floating)+

lemma ends_float_binary: "ends F R s (float_binary fp op a b) value_post"
  unfolding float_binary_def Let_def bool_value_def by (intro ends_intros; simp add: V_floating V_integer)

lemma ends_integer_binary: "ends F R s (integer_binary op a b) value_post"
  unfolding integer_binary_def Let_def bool_value_def by (intro ends_intros; simp add: V_integer)

lemma ends_arith: "ends F R s (eval_arith cfg values op) value_post"
  unfolding eval_arith_def eval_float_arith_def eval_integer_arith_def Let_def
  by (rule ends_bind [OF ends_lookup_at])
    (intro ends_intros ends_bind [OF ends_lookup_at] ends_float_binary ends_integer_binary;
      simp add: V_floating V_integer)

lemmas ends_evaluate_parts = ends_const ends_array_query ends_struct_query ends_function_address ends_int_cast
  ends_int_to_float ends_float_to_int ends_float_cast ends_arith ends_aggregate_end

lemma ends_evaluate:
  assumes "R s0 s" and "env_ok s values"
    and "\<And>name arguments. \<forall>v \<in> set arguments. V s v \<Longrightarrow> ends F R s (callee name arguments) value_post"
  shows "ends F R s (evaluate cfg callee values op) value_post"
  unfolding evaluate_def Let_def
  by (intro ends_if ends_evaluate_parts ends_lookup_value ends_global_address ends_stack_alloc_typed ends_stack_alloc
      ends_address ends_load ends_store ends_aggregate_alias ends_aggregate_copy ends_aggregate_zero
      ends_memory_copy ends_memory_set ends_call assms)

end

section \<open>Entering and leaving functions and blocks\<close>

context evaluator
begin

lemma ends_copy_owned: "R s0 s \<Longrightarrow> ends F R s (copy_owned v n) (\<lambda>v s'. V s' v)"
  unfolding copy_owned_def by (intro ends_intros ends_mono [OF ends_alloc]; simp)

lemma ends_prepare_aggregate:
  assumes "R s0 s" and "V s v"
  shows "ends F R s (prepare_aggregate cfg km sm d v) value_post"
  unfolding prepare_aggregate_def some_value_def
  by (intro ends_intros ends_bind [OF ends_copy_owned]; simp add: assms)

lemma ends_prepare_arguments:
  "R s0 s \<Longrightarrow> \<forall>v \<in> set vs. V s v \<Longrightarrow>
   ends F R s (prepare_arguments cfg fname ds vs) (\<lambda>r s'. \<forall>vs'. r = Some vs' \<longrightarrow> (\<forall>v \<in> set vs'. V s' v))"
proof (induction ds arbitrary: vs s)
  case (Cons d ds)
  show ?case
  proof (cases vs)
    case vs: (Cons v rest)
    have rest: "ends F R s' (m_bind (prepare_arguments cfg fname ds rest) (\<lambda>vs'. m_return (map_option ((#) v') vs')))
        (\<lambda>r s'. \<forall>vs'. r = Some vs' \<longrightarrow> (\<forall>v \<in> set vs'. V s' v))" if "R s s'" "V s' v'" for s' v'
      by (rule ends_bind [OF Cons.IH]) (use that Cons.prems vs in \<open>auto intro: R_trans V_mono intro!: ends_return\<close>)
    show ?thesis
      unfolding vs prepare_arguments.simps
      by (rule ends_bind [OF ends_prepare_aggregate])
        (use Cons.prems vs rest in \<open>auto intro!: ends_ok ends_return\<close>)
  qed (simp add: ends_return)
qed (simp add: ends_return)

lemma ends_bind_block_arguments:
  "R s0 s \<Longrightarrow> \<forall>v \<in> set vs. V s v \<Longrightarrow> env_ok s env \<Longrightarrow>
   ends F R s (bind_block_arguments cfg ds vs env) (\<lambda>r s'. \<forall>env'. r = Some env' \<longrightarrow> env_ok s' env')"
proof (induction ds arbitrary: vs s env)
  case (Cons d ds)
  show ?case
  proof (cases vs)
    case vs: (Cons v rest)
    have rest: "ends F R s' (bind_block_arguments cfg ds rest (env(vd_name d \<mapsto> v')))
        (\<lambda>r s'. \<forall>env'. r = Some env' \<longrightarrow> env_ok s' env')" if "R s s'" "V s' v'" for s' v'
      by (rule Cons.IH [OF R_trans [OF Cons.prems(1) that(1)] _ env_ok_upd [OF env_ok_mono [OF Cons.prems(3) that(1)] that(2)]])
        (use that Cons.prems vs in \<open>auto intro: V_mono\<close>)
    show ?thesis
      unfolding vs bind_block_arguments.simps
      by (rule ends_bind [OF ends_prepare_aggregate])
        (use Cons.prems vs rest in \<open>auto intro!: ends_ok ends_return\<close>)
  qed (simp add: ends_return Cons.prems)
qed (simp add: ends_return)

lemma ends_copy_result:
  assumes "R s0 s" and "W s r n" and "V s r" and "fits_aggregate cfg s kind name v = Some n"
  shows "ends F R s (copy_result r v n) value_post"
  unfolding copy_result_def
proof (intro ends_get ends_prod ends_option ends_undefined)
  fix p' bs' bs p i ob
  assume eq: "(pointer_object s (va_pointer r), aggregate_bytes s v n) = (p', bs')"
    and p: "p' = Some p" "bs' = Some bs" "p = (i, ob)"
  then have "length bs = n" using fits_aggregate_bytes [OF assms(4), of bs] by simp
  then have "R s (write_object (i, ob) 0 bs s)" using R_result [of s r bs i ob] assms(1,2) eq p by simp
  then show "ends F R s (m_bind (m_write (i, ob) 0 bs) (\<lambda>_. m_return (Some r))) value_post"
    using assms(3) by (auto simp: ends_def m_bind_def m_write_def m_return_def intro: V_mono)
qed

text \<open>A buffer reserved for an owned result is large enough for the aggregate the function returns.\<close>

definition result_ok :: "engine \<Rightarrow> ir_function \<Rightarrow> ir_value option \<Rightarrow> bool" where
  "result_ok s f r \<longleftrightarrow> (\<forall>v. r = Some v \<longrightarrow> V s v \<and>
     (\<forall>required. aggregate_size dl_host (ic_module cfg) (fn_return_aggregate_kind f) (fn_return_aggregate_name f) =
        Some required \<longrightarrow> W s v (unat required)))"

lemma result_ok_mono: "result_ok s f r \<Longrightarrow> R s s' \<Longrightarrow> result_ok s' f r"
  by (auto simp: result_ok_def intro: V_mono W_mono)

lemma ends_reserve_result:
  "R s0 s \<Longrightarrow> ends F R s (reserve_result cfg f) (\<lambda>r s'. \<forall>r'. r = Some r' \<longrightarrow> result_ok s' f r')"
  unfolding reserve_result_def
  by (intro ends_intros ends_bind [OF ends_alloc]; auto simp: result_ok_def)

lemma fits_aggregate_required:
  "fits_aggregate cfg s kind name v = Some n \<Longrightarrow>
   \<exists>required. aggregate_size dl_host (ic_module cfg) kind name = Some required \<and> n = unat required"
  by (auto simp: fits_aggregate_def split: option.splits if_splits)

lemma ends_finish_return:
  assumes "R s0 s" and "V s v" and "result_ok s f r"
  shows "ends F R s (finish_return cfg f message r v) value_post"
  unfolding finish_return_def
  apply (intro ends_intros ends_copy_result)
  using assms by (auto simp: result_ok_def dest: fits_aggregate_required)

lemma ends_exec_return:
  assumes "R s0 s" and "env_ok s values" and "result_ok s f r"
  shows "ends F R s (exec_return cfg f r values op) value_post"
proof (cases "op_operands op")
  case (Cons name rest)
  have "values name = Some v \<Longrightarrow> V s v" for v using assms(2) by (auto simp: env_ok_def ran_def)
  then show ?thesis
    using assms Cons unfolding exec_return_def
    by (auto intro!: ends_bind_same [OF ends_lookup] ends_return ends_finish_return)
qed (simp add: exec_return_def ends_return V_void)

text \<open>What a transfer of control carries.\<close>

definition transfer_ok :: "engine \<Rightarrow> transfer \<Rightarrow> bool" where
  "transfer_ok s t \<longleftrightarrow> (case t of Returned r \<Rightarrow> value_post r s | Transferred i vs \<Rightarrow> \<forall>v \<in> set vs. V s v | Fell_through \<Rightarrow> True)"

lemma transfer_ok_simps [simp]:
  "transfer_ok s (Returned r) \<longleftrightarrow> value_post r s" "transfer_ok s (Transferred i vs) \<longleftrightarrow> (\<forall>v \<in> set vs. V s v)"
  "transfer_ok s Fell_through"
  by (simp_all add: transfer_ok_def)

lemma ends_successor_index: "ends F R s (successor_index values op) (\<lambda>x s'. x = None \<or> s' = s \<and> True)"
  unfolding successor_index_def
  by (intro ends_intros ends_bind_same [OF ends_lookup]; simp)

lemma ends_find_block: "ends F R s (find_block f name) (\<lambda>x s'. x = None \<or> s' = s \<and> True)"
  unfolding find_block_def by (intro ends_intros) simp_all

lemma ends_exec_jump:
  assumes "env_ok s values"
  shows "ends F R s (exec_jump f values op) (\<lambda>t s'. transfer_ok s' t \<and> (\<forall>i vs. t = Transferred i vs \<longrightarrow> s' = s))"
  unfolding exec_jump_def
  by (rule ends_bind_same [OF ends_successor_index])
    (use assms in \<open>auto intro!: ends_intros ends_bind_same [OF ends_find_block] ends_bind_same [OF ends_lookup_all]
      simp: env_ok_def subset_iff\<close>)

lemma ends_returned: "ends F R s m value_post \<Longrightarrow> ends F R s (returned m) (\<lambda>t s'. transfer_ok s' t)"
  unfolding returned_def by (erule ends_bind) (auto intro: ends_return)

lemma env_ok_bind_parameters:
  "\<forall>v \<in> set vs. V s v \<Longrightarrow> env_ok s env \<Longrightarrow> env_ok s (bind_parameters ds vs env)"
proof (induction ds arbitrary: vs env)
  case (Cons d ds)
  then show ?case by (cases vs) (auto simp: map_emplace_def env_ok_upd split: option.splits)
qed simp

end

section \<open>Blocks and calls\<close>

definition tick :: "engine \<Rightarrow> engine" where
  "tick s = s\<lparr>en_steps := en_steps s + 1\<rparr>"

definition external_state :: "engine \<Rightarrow> memory_object list \<times> (nat \<Rightarrow> u8) \<times> diagnostics" where
  "external_state s = (en_store s, en_host s, en_diagnostics s)"

definition with_external_state :: "memory_object list \<times> (nat \<Rightarrow> u8) \<times> diagnostics \<Rightarrow> engine \<Rightarrow> engine" where
  "with_external_state st s = (case st of (store, host, ds) \<Rightarrow>
     s\<lparr>en_store := store, en_host := host, en_diagnostics := ds\<rparr>)"

text \<open>The contract of a host function: from arguments in \<open>V\<close> it moves the engine along \<open>R\<close> to a value in \<open>V\<close>.\<close>

definition external_ok :: "(engine \<Rightarrow> engine \<Rightarrow> bool) \<Rightarrow> (engine \<Rightarrow> ir_value \<Rightarrow> bool) \<Rightarrow> engine \<Rightarrow> external_function \<Rightarrow> bool" where
  "external_ok R V s0 ext \<longleftrightarrow> (\<forall>s arguments v st. R s0 s \<longrightarrow> (\<forall>a \<in> set arguments. V s a) \<longrightarrow>
     ext arguments (external_state s) = (v, st) \<longrightarrow>
     R s (with_external_state st s) \<and> (\<forall>r. v = Some r \<longrightarrow> V (with_external_state st s) r))"

locale machine = evaluator +
  assumes R_tick: "R s (tick s)"
    and F_fuel: "F Out_of_fuel"
    and R_external: "ic_externals cfg name = Some ext \<Longrightarrow> external_ok R V s0 ext"
begin

lemma ends_tick: "ends F R s m_tick (\<lambda>_ _. True)"
  using R_tick [of s] by (simp add: ends_def m_tick_def tick_def)

lemma ends_external:
  assumes "ic_externals cfg name = Some ext" and "R s0 s" and "\<forall>v \<in> set arguments. V s v"
  shows "ends F R s (call_external ext arguments) value_post"
  using R_external [OF assms(1)] assms(2,3)
  by (auto simp: external_ok_def ends_def call_external_def external_state_def with_external_state_def value_post_def
      split: prod.splits)

text \<open>The callees of a block all meet the contract.\<close>

definition callee_ok :: "callee \<Rightarrow> bool" where
  "callee_ok callee \<longleftrightarrow> (\<forall>s name arguments. R s0 s \<longrightarrow> (\<forall>v \<in> set arguments. V s v) \<longrightarrow>
     ends F R s (callee name arguments) value_post)"

lemma ends_fail_transfer:
  "ends F R s (m_bind (returned (m_fail message)) (\<lambda>t. m_return (t, env))) (\<lambda>(t, env') s'. transfer_ok s' t)"
  by (rule ends_bind [OF ends_returned]) (auto intro!: ends_return ends_fail)

lemma ends_operations:
  assumes "callee_ok callee"
  shows "R s0 s \<Longrightarrow> env_ok s env \<Longrightarrow> result_ok s f r \<Longrightarrow>
    ends F R s (exec_operations cfg callee f r ops env) (\<lambda>(t, env') s'. transfer_ok s' t \<and> env_ok s' env')"
proof (induction ops arbitrary: s env)
  case (Cons op ops)
  let ?Q = "\<lambda>(t, env') s'. transfer_ok s' t \<and> env_ok s' env'"
  have fail: "ends F R s' (m_bind (returned (m_fail message)) (\<lambda>t. m_return (t, env))) ?Q" if "R s s'" for s' message
    by (rule ends_bind [OF ends_returned [OF ends_fail]])
      (use that Cons.prems in \<open>auto intro!: ends_return intro: env_ok_mono R_trans\<close>)
  have stay: "ends F R s' (m_bind m (\<lambda>t. m_return (t, env))) ?Q"
    if "R s s'" "ends F R s' m (\<lambda>t s'. transfer_ok s' t)" for s' m
    by (rule ends_bind [OF that(2)]) (use that(1) Cons.prems in \<open>auto intro!: ends_return intro: env_ok_mono R_trans\<close>)
  have st: "R s0 s'" "env_ok s' env" "result_ok s' f r" if "R s s'" for s'
    using Cons.prems that env_ok_mono result_ok_mono R_trans by blast+
  have callee: "ends F R s' (callee name vs) value_post" if "R s s'" "\<forall>v \<in> set vs. V s' v" for s' name vs
    using assms st [OF that(1)] that(2) by (simp add: callee_ok_def)
  have next_op: "ends F R t (m_bind m_get (\<lambda>en.
         if en_diagnostics en \<noteq> [] then m_return (Returned None, env)
         else if op_result op = [] then exec_operations cfg callee f r ops env
         else case produced of
                None \<Rightarrow> m_bind (returned (m_fail message)) (\<lambda>t. m_return (t, env))
              | Some v \<Rightarrow> exec_operations cfg callee f r ops (env(op_result op \<mapsto> v)))) ?Q"
    if "R s t" "value_post produced t" for t produced message
    using st [OF that(1)] that by (intro ends_intros Cons.IH fail env_ok_upd) auto
  show ?case
    unfolding exec_operations.simps
    by (rule ends_bind [OF ends_tick])
      (intro ends_if fail stay ends_bind [OF ends_evaluate] next_op callee ends_returned ends_exec_return
        ends_mono [OF ends_exec_jump]; auto intro: st R_trans)
qed (auto intro!: ends_return)

lemma ends_block:
  assumes "callee_ok callee" and "R s0 s" and "env_ok s env" and "result_ok s f r" and "\<forall>v \<in> set vs. V s v"
  shows "ends F R s (exec_block cfg callee f r i vs env) (\<lambda>(t, env') s'. transfer_ok s' t \<and> env_ok s' env')"
proof -
  let ?Q = "\<lambda>(t, env') s'. transfer_ok s' t \<and> env_ok s' env'"
  have fail: "ends F R s' (m_bind (returned (m_fail message)) (\<lambda>t. m_return (t, env'))) ?Q" if "env_ok s' env'" for s' message env'
    by (rule ends_bind [OF ends_returned [OF ends_fail]])
      (use that in \<open>auto intro!: ends_return intro: env_ok_mono R_trans\<close>)
  have bound: "ends F R s (if i \<noteq> 0 then bind_block_arguments cfg ds vs env else m_return (Some env))
      (\<lambda>b s'. \<forall>env'. b = Some env' \<longrightarrow> env_ok s' env')" for ds
    by (intro ends_if ends_bind_block_arguments ends_return) (use assms in auto)
  have finish: "ends F R t (case x of (t', env') \<Rightarrow> case t' of
        Returned v \<Rightarrow> m_return (t', env')
      | Transferred j ws \<Rightarrow> m_return (t', env')
      | Fell_through \<Rightarrow> m_bind (returned (m_fail message)) (\<lambda>t'. m_return (t', env'))) ?Q"
    if "case x of (t', env') \<Rightarrow> transfer_ok t t' \<and> env_ok t env'" for x t message
    using that by (cases x; cases "fst x") (auto intro!: ends_return fail)
  have st: "R s0 s'" "result_ok s' f r" if "R s s'" for s' using that assms R_trans result_ok_mono by blast+
  show ?thesis
    unfolding exec_block_def Let_def
    by (intro ends_if fail assms(3) ends_bind [OF bound] ends_ok ends_return
        ends_bind [OF ends_operations [OF assms(1)]] finish)
      (use assms(3) env_ok_mono st in auto)
qed

lemma ends_blocks:
  assumes "callee_ok callee"
  shows "R s0 s \<Longrightarrow> env_ok s env \<Longrightarrow> result_ok s f r \<Longrightarrow> \<forall>v \<in> set vs. V s v \<Longrightarrow>
    ends F R s (exec_blocks cfg callee f r fuel i vs env) value_post"
proof (induction fuel arbitrary: s env i vs)
  case 0
  show ?case by (simp add: ends_def m_throw_def F_fuel)
next
  case (Suc fuel)
  show ?case
    unfolding exec_blocks.simps
  proof (rule ends_bind [OF ends_block [OF assms Suc.prems]], goal_cases)
    case (1 x t)
    then have "R s0 t" "result_ok t f r" using Suc.prems R_trans result_ok_mono by blast+
    then show ?case using 1(2) by (cases x; cases "fst x") (auto intro!: ends_return Suc.IH)
  qed
qed

lemma ends_call_function:
  assumes "callee_ok callee" and "R s0 s" and "\<forall>v \<in> set vs. V s v"
  shows "ends F R s (call_function cfg callee f vs) value_post"
  unfolding call_function_def
proof (rule ends_bind [OF ends_reserve_result [OF assms(2)]], goal_cases)
  case r: (1 r s')
  have s': "R s0 s'" "\<forall>v \<in> set vs. V s' v" using assms r R_trans V_mono by blast+
  have run: "ends F R t (exec_blocks cfg callee f owned (loop_fuel cfg) 0 [] (bind_parameters (fn_parameters f) vs' Map.empty)) value_post"
    if "r = Some owned" "R s' t" "\<forall>v \<in> set vs'. V t v" for owned t vs'
    by (rule ends_blocks [OF assms(1)])
      (use that r s' in \<open>auto intro: R_trans env_ok_bind_parameters env_ok_empty result_ok_mono\<close>)
  have ext: "ends F R t (m_bind (call_external e vs') (\<lambda>v. m_ok v (m_return None) (\<lambda>v. finish_return cfg f message owned v))) value_post"
    if "r = Some owned" "R s' t" "\<forall>v \<in> set vs'. V t v" "ic_externals cfg name = Some e" for owned t vs' e name message
    by (rule ends_bind [OF ends_external [OF that(4)]])
      (use that r s' in \<open>auto intro!: ends_ok ends_return ends_finish_return intro: R_trans result_ok_mono\<close>)
  show ?case
    by (intro ends_ok ends_if ends_fail ends_return ends_bind [OF ends_prepare_arguments [OF s']] ends_option run ext)
      simp_all
qed

lemma callee_ok_call_at: "callee_ok (call_at cfg n)"
proof (induction n)
  case (Suc n)
  then show ?case
    unfolding callee_ok_def call_at.simps
    by (auto intro!: ends_option ends_fail ends_call_function ends_external simp: callee_ok_def)
qed (simp add: callee_ok_def ends_fail)

theorem ends_call_at:
  "R s0 s \<Longrightarrow> \<forall>v \<in> set vs. V s v \<Longrightarrow> ends F R s (call_at cfg n name vs) value_post"
  using callee_ok_call_at [of n] by (simp add: callee_ok_def)

end

end
