(* ===== verification/Interp_Memory.thy ===== *)
theory Interp_Memory
  imports Interp_Contract
begin

text \<open>
  Memory safety of the interpreter, as two instances of the \<open>machine\<close> contract: objects keep their size
  and their identity and every value stays well formed, and the bytes of constant globals never change.
  Each instance is guarded by what it needs of the globals and of the host's functions, so that it is an
  interpretation for every configuration; the guard is a hypothesis of the theorems.
\<close>

section \<open>Well-formed values in stable memory\<close>

text \<open>Objects are neither freed nor resized, and diagnostics are only appended.\<close>

definition mem_le :: "engine \<Rightarrow> engine \<Rightarrow> bool" where
  "mem_le s s' \<longleftrightarrow> length (en_store s) \<le> length (en_store s') \<and>
     (\<forall>i < length (en_store s). object_size (en_store s' ! i) = object_size (en_store s ! i) \<and>
        mo_external_data (en_store s' ! i) = mo_external_data (en_store s ! i)) \<and>
     (\<exists>ds. en_diagnostics s' = en_diagnostics s @ ds)"

text \<open>
  An integer's bits fit its type; a pointer that is not null points into an object of the store, at
  most one past its end.
\<close>

definition value_ok :: "engine \<Rightarrow> ir_value \<Rightarrow> bool" where
  "value_ok s v \<longleftrightarrow>
     (va_kind v = VK_integer \<longrightarrow> va_bits v = normalize_bits (va_type v) (va_bits v)) \<and>
     (va_kind v = VK_pointer \<longrightarrow> (\<forall>i. pt_object (va_pointer v) = Some i \<longrightarrow>
        i < length (en_store s) \<and> pt_offset (va_pointer v) \<le> object_size (en_store s ! i)))"

definition memory_guard :: "interp_config \<Rightarrow> engine \<Rightarrow> bool" where
  "memory_guard cfg s0 \<longleftrightarrow>
     (\<forall>name g. ic_globals cfg name = Some g \<longrightarrow> gs_object g < length (en_store s0)) \<and>
     (\<forall>name ext. ic_externals cfg name = Some ext \<longrightarrow> external_ok mem_le value_ok s0 ext)"

definition mem_rel :: "interp_config \<Rightarrow> engine \<Rightarrow> engine \<Rightarrow> engine \<Rightarrow> bool" where
  "mem_rel cfg s0 s s' \<longleftrightarrow> (memory_guard cfg s0 \<longrightarrow> mem_le s s')"

definition mem_value :: "interp_config \<Rightarrow> engine \<Rightarrow> engine \<Rightarrow> ir_value \<Rightarrow> bool" where
  "mem_value cfg s0 s v \<longleftrightarrow> (memory_guard cfg s0 \<longrightarrow> value_ok s v)"

definition mem_buffer :: "interp_config \<Rightarrow> engine \<Rightarrow> engine \<Rightarrow> ir_value \<Rightarrow> nat \<Rightarrow> bool" where
  "mem_buffer cfg s0 s v n \<longleftrightarrow> (memory_guard cfg s0 \<longrightarrow>
     (\<exists>i. pt_object (va_pointer v) = Some i \<and> i < length (en_store s) \<and> object_size (en_store s ! i) = n))"

lemma nth_update: "j < length xs \<Longrightarrow> xs[i := x] ! j = (if i = j then x else xs ! j)"
  by (auto simp: nth_list_update_neq)

lemma mem_le_refl: "mem_le s s"
  by (simp add: mem_le_def)

lemma mem_le_trans: "mem_le s s' \<Longrightarrow> mem_le s' s'' \<Longrightarrow> mem_le s s''"
  unfolding mem_le_def by fastforce

lemma mem_le_write:
  assumes "i < length (en_store s)" and "en_store s ! i = ob" and "in_bounds ob off (length bs)"
  shows "mem_le s (write_object (i, ob) off bs s)"
  using assms
  by (auto simp: mem_le_def write_object_def in_bounds_def object_size_def nth_update split: option.splits)

lemma mem_le_slot: "mem_le s (set_slot i off name s)"
  by (auto simp: mem_le_def set_slot_def object_size_def nth_update)

lemma mem_le_add_object: "mem_le s (add_object ob s)"
  by (auto simp: mem_le_def add_object_def nth_append)

lemma mem_le_steps: "mem_le s (tick s)"
  by (auto simp: mem_le_def tick_def)

lemma mem_le_diagnostic: "mem_le s (add_diagnostic message s)"
  by (auto simp: mem_le_def add_diagnostic_def)

lemma value_ok_mono: "value_ok s v \<Longrightarrow> mem_le s s' \<Longrightarrow> value_ok s' v"
  by (fastforce simp: value_ok_def mem_le_def)

lemma normalize_idem [simp]: "normalize_bits t (normalize_bits t b) = normalize_bits t b"
  by (simp add: normalize_bits_def and.assoc)

lemma value_ok_scalars [simp]:
  "value_ok s (integer_value t b)" "value_ok s (floating_value_of fp t x)" "value_ok s (function_value fname)"
  "value_ok s void_value"
  by (simp_all add: value_ok_def)

lemma object_size_owned [simp]: "object_size (owned_object bs) = length bs"
  by (simp add: object_size_def owned_object_def)

interpretation mem: machine "\<lambda>_. True" "mem_rel cfg s0" cfg "mem_value cfg s0" "mem_buffer cfg s0" s0 for cfg s0
proof (cases "memory_guard cfg s0")
  case True
  then have [simp]: "mem_rel cfg s0 = mem_le" "mem_value cfg s0 = value_ok"
    by (simp_all add: mem_rel_def mem_value_def fun_eq_iff)
  show "machine (\<lambda>_. True) (mem_rel cfg s0) cfg (mem_value cfg s0) (mem_buffer cfg s0) s0"
  proof (unfold_locales, goal_cases)
    case 2
    then show ?case by (auto intro: mem_le_trans)
  next
    case 5
    then show ?case by (auto intro: value_ok_mono)
  next
    case 6
    then show ?case using True by (auto simp: mem_buffer_def mem_le_def dest: less_le_trans)
  next
    case 8
    then show ?case by (auto simp: pointer_object_Some intro!: mem_le_write)
  next
    case 10
    then show ?case using True by (auto simp: pointer_object_Some mem_buffer_def in_bounds_def intro!: mem_le_write)
  next
    case 17
    then show ?case using True by (fastforce simp: value_ok_def memory_guard_def mem_le_def)
  next
    case 18
    then show ?case by (auto simp: value_ok_def pointer_object_Some in_bounds_def)
  next
    case 20
    then show ?case using True by (simp add: memory_guard_def)
  qed (use True in \<open>auto simp: mem_le_refl mem_le_diagnostic mem_le_add_object mem_le_slot mem_le_steps mem_buffer_def
      value_ok_def fresh_pointer_def add_object_def mem_le_add_object [unfolded add_object_def]\<close>)
next
  case False
  then have [simp]: "mem_rel cfg s0 = (\<lambda>_ _. True)" "mem_value cfg s0 = (\<lambda>_ _. True)" "mem_buffer cfg s0 = (\<lambda>_ _ _. True)"
    by (simp_all add: mem_rel_def mem_value_def mem_buffer_def fun_eq_iff)
  show "machine (\<lambda>_. True) (mem_rel cfg s0) cfg (mem_value cfg s0) (mem_buffer cfg s0) s0"
    by unfold_locales (simp_all add: external_ok_def)
qed

section \<open>The constructor\<close>

text \<open>
  Every registered global has an object of its own, after the objects the host passed, which are kept.
\<close>

definition constructed_ok :: "memory_object list \<Rightarrow> constructed \<Rightarrow> bool" where
  "constructed_ok store st \<longleftrightarrow>
     length store \<le> length (en_store (fst st)) \<and> take (length store) (en_store (fst st)) = store \<and>
     (\<forall>name g. snd st name = Some g \<longrightarrow>
        length store \<le> gs_object g \<and> gs_object g < length (en_store (fst st))) \<and>
     (\<forall>n1 n2 g1 g2. snd st n1 = Some g1 \<longrightarrow> snd st n2 = Some g2 \<longrightarrow> gs_object g1 = gs_object g2 \<longrightarrow> n1 = n2)"

lemma constructed_ok_add: "constructed_ok store st \<Longrightarrow> constructed_ok store (add_global g ob c st)"
  by (fastforce simp: constructed_ok_def add_global_def map_emplace_apply less_Suc_eq split: prod.splits if_splits)

lemma constructed_ok_fail: "constructed_ok store st \<Longrightarrow> constructed_ok store (fail_global message g st)"
  by (cases st) (simp add: constructed_ok_def fail_global_def)

lemma constructed_ok_init: "constructed_ok store st \<Longrightarrow> constructed_ok store (init_global m eg g st)"
  by (simp add: init_global_def Let_def constructed_ok_add constructed_ok_fail split: option.splits)

lemma constructed_ok_construct: "constructed_ok store (construct m eg store host)"
proof -
  have "constructed_ok store st \<Longrightarrow> constructed_ok store (fold (init_global m eg) gvs st)" for gvs st
    by (induction gvs arbitrary: st) (simp_all add: constructed_ok_init)
  moreover have "constructed_ok store (\<lparr>en_store = store, en_host = host, en_diagnostics = [], en_steps = 0\<rparr>, Map.empty)"
    by (simp add: constructed_ok_def)
  ultimately show ?thesis by (simp add: construct_def)
qed

text \<open>The outcome of \<open>execute\<close> is the outcome of the entry call on the constructed engine.\<close>

lemma execute_Inr:
  assumes "construct m eg store host = (en, gs)"
    and "execute m options externals eg base fp store host name arguments = Inr (res, en')"
  obtains v where "call_at (make_config m options externals base fp gs) (io_max_call_depth options) name arguments en = Inr (v, en')"
    and "ir_result_value res = (if en_diagnostics en' \<noteq> [] then None else v)"
  using assms by (auto simp: execute_def run_def make_config_def split: sum.splits)

text \<open>
  C5. Memory safety of every run: no object the engine started with is freed, resized or rebound to
  other host memory (so no write left the bounds of its object), diagnostics are only appended, and the
  returned value is well formed: its integer bits fit its type and its pointer lies within an existing
  object. The host's functions are required to do the same.
\<close>

theorem execution_memory_safe:
  assumes c: "construct m eg store host = (en, gs)"
    and ext: "\<forall>fname ext. externals fname = Some ext \<longrightarrow> external_ok mem_le value_ok en ext"
    and args: "\<forall>a \<in> set arguments. value_ok en a"
    and e: "execute m options externals eg base fp store host name arguments = Inr (res, en')"
  shows "mem_le en en' \<and> (\<forall>v. ir_result_value res = Some v \<longrightarrow> value_ok en' v)"
proof -
  let ?cfg = "make_config m options externals base fp gs"
  obtain v where v: "call_at ?cfg (io_max_call_depth options) name arguments en = Inr (v, en')"
      "ir_result_value res = (if en_diagnostics en' \<noteq> [] then None else v)"
    using execute_Inr [OF c e] .
  have guard: "memory_guard ?cfg en"
    using constructed_ok_construct [of store m eg host] ext c
    by (auto simp: memory_guard_def make_config_def constructed_ok_def)
  have "ends (\<lambda>_. True) (mem_rel ?cfg en) en (call_at ?cfg (io_max_call_depth options) name arguments) (mem.value_post ?cfg en)"
    using args by (intro mem.ends_call_at) (auto simp: mem_rel_def mem_value_def mem_le_refl)
  then show ?thesis
    using v guard by (auto simp: ends_def mem_rel_def mem.value_post_def mem_value_def split: if_splits)
qed

section \<open>Constant globals\<close>

text \<open>The objects in \<open>K\<close> stay what they are: bytes and function slots.\<close>

definition const_le :: "nat set \<Rightarrow> engine \<Rightarrow> engine \<Rightarrow> bool" where
  "const_le K s s' \<longleftrightarrow> length (en_store s) \<le> length (en_store s') \<and>
     (\<forall>i \<in> K. i < length (en_store s) \<longrightarrow> en_store s' ! i = en_store s ! i)"

text \<open>A value that points at an object of \<open>K\<close> is read-only.\<close>

definition const_value :: "nat set \<Rightarrow> engine \<Rightarrow> ir_value \<Rightarrow> bool" where
  "const_value K s v \<longleftrightarrow> (va_kind v = VK_pointer \<longrightarrow>
     (\<forall>i \<in> K. pt_object (va_pointer v) = Some i \<longrightarrow> pt_read_only (va_pointer v)))"

definition const_guard :: "nat set \<Rightarrow> interp_config \<Rightarrow> engine \<Rightarrow> bool" where
  "const_guard K cfg s0 \<longleftrightarrow> K \<subseteq> {..<length (en_store s0)} \<and>
     (\<forall>name g. ic_globals cfg name = Some g \<longrightarrow> gs_object g \<in> K \<longrightarrow> gs_is_constant g) \<and>
     (\<forall>name ext. ic_externals cfg name = Some ext \<longrightarrow> external_ok (const_le K) (const_value K) s0 ext)"

definition const_rel :: "nat set \<Rightarrow> interp_config \<Rightarrow> engine \<Rightarrow> engine \<Rightarrow> engine \<Rightarrow> bool" where
  "const_rel K cfg s0 s s' \<longleftrightarrow> (const_guard K cfg s0 \<longrightarrow> const_le K s s')"

definition const_ok :: "nat set \<Rightarrow> interp_config \<Rightarrow> engine \<Rightarrow> engine \<Rightarrow> ir_value \<Rightarrow> bool" where
  "const_ok K cfg s0 s v \<longleftrightarrow> (const_guard K cfg s0 \<longrightarrow> const_value K s v)"

definition const_buffer :: "nat set \<Rightarrow> interp_config \<Rightarrow> engine \<Rightarrow> engine \<Rightarrow> ir_value \<Rightarrow> nat \<Rightarrow> bool" where
  "const_buffer K cfg s0 s v n \<longleftrightarrow> (const_guard K cfg s0 \<longrightarrow> (\<forall>i \<in> K. pt_object (va_pointer v) \<noteq> Some i))"

lemma const_le_trans: "const_le K s s' \<Longrightarrow> const_le K s' s'' \<Longrightarrow> const_le K s s''"
  unfolding const_le_def by fastforce

lemma const_le_write: "i \<notin> K \<Longrightarrow> const_le K s (write_object (i, ob) off bs s)"
  by (auto simp: const_le_def write_object_def nth_update split: option.splits)

lemma const_le_slot: "i \<notin> K \<Longrightarrow> const_le K s (set_slot i off name s)"
  by (auto simp: const_le_def set_slot_def nth_update)

lemma const_value_scalars [simp]:
  "const_value K s (integer_value t b)" "const_value K s (floating_value_of fp t x)"
  "const_value K s (function_value fname)" "const_value K s void_value"
  by (simp_all add: const_value_def)

lemma const_fresh:
  assumes "const_guard K cfg s0" and "const_le K s0 s"
  shows "length (en_store s) \<notin> K"
  using assms by (auto simp: const_guard_def const_le_def)

lemma const_value_fresh: "length (en_store s) \<notin> K \<Longrightarrow> const_value K s' (fresh_pointer s)"
  by (auto simp: const_value_def fresh_pointer_def)

interpretation const: machine "\<lambda>_. True" "const_rel K cfg s0" cfg "const_ok K cfg s0" "const_buffer K cfg s0" s0
  for K cfg s0
proof (cases "const_guard K cfg s0")
  case True
  then have [simp]: "const_rel K cfg s0 = const_le K" "const_ok K cfg s0 = const_value K"
    by (simp_all add: const_rel_def const_ok_def fun_eq_iff)
  show "machine (\<lambda>_. True) (const_rel K cfg s0) cfg (const_ok K cfg s0) (const_buffer K cfg s0) s0"
  proof (unfold_locales, goal_cases)
    case 2
    then show ?case by (auto intro: const_le_trans)
  next
    case 8
    then show ?case by (auto simp: pointer_object_Some const_value_def intro!: const_le_write)
  next
    case 9
    then show ?case by (auto simp: const_value_def intro!: const_le_slot)
  next
    case 10
    then show ?case using True by (auto simp: pointer_object_Some const_buffer_def intro!: const_le_write)
  next
    case 15
    then show ?case using True by (simp add: const_value_fresh const_fresh)
  next
    case 16
    then show ?case using True const_fresh [OF True] by (auto simp: const_buffer_def fresh_pointer_def)
  qed (use True in \<open>auto simp: const_le_def const_value_def const_buffer_def const_guard_def add_diagnostic_def
      add_object_def tick_def nth_append\<close>)
next
  case False
  then have [simp]: "const_rel K cfg s0 = (\<lambda>_ _. True)" "const_ok K cfg s0 = (\<lambda>_ _. True)"
      "const_buffer K cfg s0 = (\<lambda>_ _ _. True)"
    by (simp_all add: const_rel_def const_ok_def const_buffer_def fun_eq_iff)
  show "machine (\<lambda>_. True) (const_rel K cfg s0) cfg (const_ok K cfg s0) (const_buffer K cfg s0) s0"
    by unfold_locales (simp_all add: external_ok_def)
qed

text \<open>
  C10. Constant globals are never written: after any run, whatever its outcome, the bytes and function
  slots of a constant global are those the constructor gave it, provided the host passed no writable
  pointer to it and its functions respect it. No operation can make a writable pointer out of a
  read-only one.
\<close>

theorem constant_globals_unchanged:
  assumes c: "construct m eg store host = (en, gs)" and g: "gs gname = Some g" and const: "gs_is_constant g"
    and ext: "\<forall>fname ext. externals fname = Some ext \<longrightarrow>
      external_ok (const_le {gs_object g}) (const_value {gs_object g}) en ext"
    and args: "\<forall>a \<in> set arguments. const_value {gs_object g} en a"
    and e: "execute m options externals eg base fp store host name arguments = Inr (res, en')"
  shows "en_store en' ! gs_object g = en_store en ! gs_object g"
proof -
  let ?cfg = "make_config m options externals base fp gs" and ?K = "{gs_object g}"
  obtain v where v: "call_at ?cfg (io_max_call_depth options) name arguments en = Inr (v, en')"
    using execute_Inr [OF c e] by blast
  have ok: "constructed_ok store (en, gs)" using constructed_ok_construct [of store m eg host] c by simp
  have guard: "const_guard ?K ?cfg en"
    using ok g const ext by (fastforce simp: const_guard_def make_config_def constructed_ok_def)
  have "ends (\<lambda>_. True) (const_rel ?K ?cfg en) en (call_at ?cfg (io_max_call_depth options) name arguments)
      (const.value_post ?K ?cfg en)"
    using args by (intro const.ends_call_at) (auto simp: const_rel_def const_ok_def const_le_def)
  then have "const_le ?K en en'" using v guard by (auto simp: ends_def const_rel_def)
  then show ?thesis using ok g by (auto simp: const_le_def constructed_ok_def)
qed

end
