(* ===== verification/Interp_Ops.thy ===== *)
theory Interp_Ops
  imports Interp_Memory
begin

text \<open>
  What the interpreter's operations compute: integer arithmetic against unbounded integers, stores read
  back by loads, and the bytes a store leaves alone.
\<close>

unbundle bit_operations_syntax

section \<open>Fixed-width integers\<close>

lemma normalize_take_bit: "0 < bit_width t \<Longrightarrow> normalize_bits t x = take_bit (bit_width t) x"
proof (cases "bit_width t = 64")
  case True
  then show ?thesis by (simp add: normalize_bits_def mask_for_def take_bit_word_eq_self)
next
  case False
  assume "0 < bit_width t"
  then show ?thesis
    using False by (simp add: normalize_bits_def mask_for_def Let_def take_bit_eq_mask mask_eq_exp_minus_1 push_bit_eq_mult)
qed

lemma bit_width_le: "bit_width t \<le> 64"
  by (cases t) simp_all

lemma uint_normalize: "0 < bit_width t \<Longrightarrow> uint (normalize_bits t x) = uint x mod 2 ^ bit_width t"
  by (simp add: normalize_take_bit unsigned_take_bit_eq flip: take_bit_eq_mod)

lemma signed_bits_take_bit:
  assumes "0 < bit_width t"
  shows "signed_bits t x = signed_take_bit (bit_width t - 1) x"
proof (rule bit_word_eqI)
  fix i assume i: "i < LENGTH(64)"
  let ?w = "bit_width t"
  have w: "?w \<le> 64" by (rule bit_width_le)
  have sign: "take_bit ?w x AND push_bit (?w - 1) 1 = 0 \<longleftrightarrow> \<not> bit x (?w - 1)"
    using assms by (simp add: push_bit_eq_mult and_exp_eq_0_iff_not_bit bit_take_bit_iff)
  have nmask: "bit (NOT (mask_for t)) i \<longleftrightarrow> ?w \<le> i" if "?w \<noteq> 64"
    using that assms i w
    by (simp add: mask_for_def Let_def push_bit_eq_mult bit_not_iff mask_eq_exp_minus_1 [symmetric] bit_mask_iff
        not_less)
  show "bit (signed_bits t x) i = bit (signed_take_bit (?w - 1) x) i"
  proof (cases "?w = 64")
    case True
    then show ?thesis
      using i assms by (cases "i = 63") (simp_all add: signed_bits_def Let_def normalize_take_bit bit_simps min_def)
  next
    case False
    then show ?thesis
      using i assms w sign nmask
      by (cases "i = ?w - 1") (auto simp: signed_bits_def Let_def normalize_take_bit bit_or_iff bit_take_bit_iff bit_signed_take_bit_iff min_def)
  qed
qed

lemma sint_signed_bits:
  assumes "0 < bit_width t"
  shows "sint (signed_bits t x) = signed_take_bit (bit_width t - 1) (uint x)"
proof (rule bit_eqI)
  fix n
  have w: "bit_width t \<le> 64" by (rule bit_width_le)
  show "bit (sint (signed_bits t x)) n = bit (signed_take_bit (bit_width t - 1) (uint x)) n"
    unfolding signed_bits_take_bit [OF assms] bit_signed_take_bit_iff bit_signed_iff bit_unsigned_iff
    using assms w by (cases "n < bit_width t - 1") (auto simp: min_def dest: bit_imp_le_length)
qed

lemma signed_value_of_int:
  assumes "0 < bit_width t"
  shows "signed_value (integer_value t (word_of_int z)) = signed_take_bit (bit_width t - 1) z"
proof -
  have "uint (normalize_bits t (word_of_int z)) = take_bit (bit_width t) z"
    using bit_width_le [of t] by (simp add: normalize_take_bit [OF assms] unsigned_take_bit_eq uint_word_of_int_eq min_def)
  moreover have "signed_take_bit (bit_width t - 1) (take_bit (bit_width t) z) = signed_take_bit (bit_width t - 1) z"
    using assms by (subst signed_take_bit_take_bit) (cases "bit_width t", simp_all)
  ultimately show ?thesis by (simp add: signed_value_def sint_signed_bits [OF assms])
qed

text \<open>
  C24. Addition, subtraction and multiplication wrap at the width of the operation's type: the result's
  bits are the integer result modulo \<open>2^width\<close>, and read as a signed number it is the signed result
  reduced to \<open>width\<close> bits, for operands of that type.
\<close>

theorem integer_arithmetic_wraps:
  assumes "(op_opcode op, f) \<in> {(''add'', (+)), (''sub'', (-)), (''mul'', (*))}"
    and "0 < bit_width (op_type op)"
  shows "\<exists>v. integer_binary op l r s = Inr (Some v, s) \<and> va_kind v = VK_integer \<and> va_type v = op_type op \<and>
    uint (va_bits v) = f (uint (va_bits l)) (uint (va_bits r)) mod 2 ^ bit_width (op_type op) \<and>
    (va_type l = op_type op \<longrightarrow> va_type r = op_type op \<longrightarrow>
       signed_value v = signed_take_bit (bit_width (op_type op) - 1) (f (signed_value l) (signed_value r)))"
proof -
  let ?t = "op_type op" and ?a = "uint (va_bits l)" and ?b = "uint (va_bits r)"
  let ?v = "integer_value ?t (word_of_int (f ?a ?b))"
  have run: "integer_binary op l r s = Inr (Some ?v, s)"
    using assms(1) by (auto simp: integer_binary_def m_return_def)
  have "uint (va_bits ?v) = f ?a ?b mod 2 ^ bit_width ?t"
    using bit_width_le [of ?t]
    by (simp add: normalize_take_bit [OF assms(2)] unsigned_take_bit_eq uint_word_of_int_eq min_def
        flip: take_bit_eq_mod)
  moreover have "signed_value ?v = signed_take_bit (bit_width ?t - 1) (f (signed_value l) (signed_value r))"
    if "va_type l = ?t" "va_type r = ?t"
    using assms that signed_take_bit_add [of "bit_width ?t - 1" ?a ?b] signed_take_bit_diff [of "bit_width ?t - 1" ?a ?b]
      signed_take_bit_mult [of "bit_width ?t - 1" ?a ?b]
    by (auto simp: signed_value_of_int) (auto simp: signed_value_def sint_signed_bits)
  ultimately show ?thesis using run by auto
qed

lemma signed_value_range:
  assumes "0 < bit_width (va_type v)"
  shows "- (2 ^ (bit_width (va_type v) - 1)) \<le> signed_value v \<and> signed_value v < 2 ^ (bit_width (va_type v) - 1)"
  using assms signed_take_bit_int_less_exp signed_take_bit_int_greater_eq_minus_exp
  by (simp add: signed_value_def sint_signed_bits)

text \<open>
  C25. Signed division truncates toward zero and the remainder has the sign of the dividend. A zero
  divisor is reported as a diagnostic. The quotient of the smallest number by minus one wraps at every
  width below 64 and has no defined behaviour at width 64.
\<close>

theorem signed_division_correct:
  assumes "op_opcode op \<in> {''div.signed'', ''rem.signed''}" and "0 < bit_width (op_type op)"
    and "va_type l = op_type op" and "va_type r = op_type op"
  shows "(signed_value r = 0 \<longrightarrow> integer_binary op l r s = m_fail ''signed division by zero'' s) \<and>
    (signed_value l = - (2 ^ 63) \<and> signed_value r = - 1 \<longrightarrow> integer_binary op l r s = Inl Undefined_behaviour) \<and>
    (signed_value r \<noteq> 0 \<and> \<not> (signed_value l = - (2 ^ 63) \<and> signed_value r = - 1) \<longrightarrow>
       (\<exists>v. integer_binary op l r s = Inr (Some v, s) \<and> va_type v = op_type op \<and>
          signed_value v =
            (if op_opcode op = ''div.signed''
             then signed_take_bit (bit_width (op_type op) - 1) (signed_value l sdiv signed_value r)
             else signed_value l smod signed_value r)))"
proof -
  let ?w = "bit_width (op_type op)"
  have rem: "signed_take_bit (?w - 1) (signed_value l smod signed_value r) = signed_value l smod signed_value r"
    if "signed_value r \<noteq> 0"
    using smod_int_range [OF that, of "signed_value l"] signed_value_range [of r] assms
    by (intro signed_take_bit_int_eq_self) auto
  show ?thesis
    using assms rem
    by (auto simp: integer_binary_def m_throw_def m_return_def m_fail_def signed_value_of_int)
qed

section \<open>Stores and loads\<close>

lemma le_word_le_bytes_take_bit:
  "(le_word (le_bytes n (w :: u64)) :: u64) = take_bit (8 * n) w"
proof (rule bit_word_eqI)
  fix i assume i: "i < LENGTH(64)"
  have "bit (le_bytes n w ! (i div 8)) (i mod 8) = bit w i" if "i < 8 * n"
    using that i by (subst nth_le_bytes) (auto simp: bit_ucast_iff bit_drop_bit_eq)
  then show "bit (le_word (le_bytes n w) :: u64) i = bit (take_bit (8 * n) w) i"
    using i by (auto simp: bit_le_word bit_take_bit_iff)
qed

text \<open>A store that reports nothing has passed every check and wrote the value's low bytes.\<close>

lemma eval_store_scalar:
  assumes "op_operands op = vn # pn # rest" and "env vn = Some v" and "va_kind v \<in> {VK_integer, VK_floating}"
    and "env pn = Some p"
    and "eval_store cfg env op en = Inr (x, en')" and "en_diagnostics en' = en_diagnostics en"
  obtains i ob where "va_kind p = VK_pointer" "\<not> pt_read_only (va_pointer p)"
    "pointer_object en (va_pointer p) = Some (i, ob)"
    "0 < bit_width (op_type op) div 8" "in_bounds ob (pt_offset (va_pointer p)) (bit_width (op_type op) div 8)"
    "op_alignment op \<noteq> 0 \<longrightarrow> value_is_aligned cfg en p (unat (op_alignment op))"
    "en' = set_slot i (pt_offset (va_pointer p)) None
      (write_object (i, ob) (pt_offset (va_pointer p)) (le_bytes (bit_width (op_type op) div 8) (va_bits v)) en)"
  using assms
  by (auto simp: eval_store_def lookup_at_def operand_at_def lookup_def m_bind_def m_return_def m_get_def m_fail_def
      Let_def m_write_def m_set_slot_def split: if_splits option.splits)

lemma read_after_write:
  assumes "pointer_object en p = Some (i, ob)" and "in_bounds ob off (length bs)"
  obtains ob' where "pointer_object (set_slot i off x (write_object (i, ob) off bs en)) p = Some (i, ob')"
    "object_size ob' = object_size ob" "mo_external_data ob' = mo_external_data ob" "mo_function_slots ob' off = x"
    "read_object (set_slot i off x (write_object (i, ob) off bs en)) ob' off (length bs) = bs"
proof (cases "mo_external_data ob")
  case None
  let ?ob = "ob\<lparr>mo_bytes := splice (mo_bytes ob) off bs, mo_function_slots := (mo_function_slots ob)(off := x)\<rparr>"
  show ?thesis
    using assms None
    by (intro that [of ?ob])
      (auto simp: pointer_object_Some set_slot_def write_object_def object_size_def in_bounds_def read_object_def
        subspan_splice_same)
next
  case (Some address)
  let ?ob = "ob\<lparr>mo_function_slots := (mo_function_slots ob)(off := x)\<rparr>"
  show ?thesis
    using assms Some
    by (intro that [of ?ob])
      (auto simp: pointer_object_Some set_slot_def write_object_def object_size_def in_bounds_def read_object_def
        intro: nth_equalityI)
qed

lemma host_address_cong:
  assumes "pointer_object en (va_pointer v) = Some (i, ob)" and "pointer_object en' (va_pointer v) = Some (i, ob')"
    and "object_size ob' = object_size ob" and "mo_external_data ob' = mo_external_data ob"
  shows "host_address cfg en' v = host_address cfg en v"
  using assms by (simp add: host_address_def object_data_def)

text \<open>
  C23. A load reads back what a store wrote: after a store of an integer that reports nothing, a load of
  the same integer or pointer type through the same pointer returns the stored bits at that type, and
  changes nothing. This holds in owned memory and in windows of host memory.
\<close>

theorem store_load_roundtrip:
  assumes "op_operands op = vn # pn # rest" and "env vn = Some v" and "va_kind v = VK_integer"
    and "env pn = Some p"
    and "eval_store cfg env op en = Inr (x, en')" and "en_diagnostics en' = en_diagnostics en"
    and "op_operands lop = pn # rest'" and "op_type lop = op_type op" and "op_alignment lop = op_alignment op"
    and "\<not> is_float (op_type op)"
  shows "eval_load cfg env lop en' = Inr (Some (integer_value (op_type op) (va_bits v)), en')"
proof -
  let ?n = "bit_width (op_type op) div 8" and ?off = "pt_offset (va_pointer p)"
  let ?bs = "le_bytes ?n (va_bits v)"
  obtain i ob where p: "va_kind p = VK_pointer" "pointer_object en (va_pointer p) = Some (i, ob)"
      and n: "0 < ?n" and b: "in_bounds ob ?off ?n"
      and al: "op_alignment op \<noteq> 0 \<longrightarrow> value_is_aligned cfg en p (unat (op_alignment op))"
      and en': "en' = set_slot i ?off None (write_object (i, ob) ?off ?bs en)"
    using eval_store_scalar [OF assms(1,2) _ assms(4,5,6)] assms(3) by (metis insertCI)
  obtain ob' where ob': "pointer_object en' (va_pointer p) = Some (i, ob')" "object_size ob' = object_size ob"
      "mo_external_data ob' = mo_external_data ob" "mo_function_slots ob' ?off = None"
      "read_object en' ob' ?off ?n = ?bs"
    using read_after_write [OF p(2), of ?off ?bs None] b en' by auto
  have "value_is_aligned cfg en' p a = value_is_aligned cfg en p a" for a
    by (simp add: value_is_aligned_def host_address_cong [OF p(2) ob'(1-3)])
  moreover have "integer_value (op_type op) (take_bit (8 * ?n) (va_bits v)) = integer_value (op_type op) (va_bits v)"
    using n assms(10) by (cases "op_type op")
      (simp_all add: integer_value_def normalize_take_bit take_bit_take_bit is_float_def)
  moreover have "in_bounds ob' ?off ?n" using b ob'(2) by (simp add: in_bounds_def)
  ultimately show ?thesis
    using p n al ob' assms(4,7,8,9,10)
    by (auto simp: eval_load_def lookup_at_def operand_at_def lookup_def m_bind_def m_return_def m_get_def Let_def
        le_word_le_bytes_take_bit)
qed

text \<open>
  A store touches nothing else: after a store of an integer or a float that reports nothing, the
  bytes of every other owned object, and those of its own object outside the stored range, are what
  they were, as are all function slots but the one at the stored offset.
\<close>

lemma store_frame:
  assumes "op_operands op = vn # pn # rest" and "env vn = Some v" and "va_kind v \<in> {VK_integer, VK_floating}"
    and "env pn = Some p" and "pt_object (va_pointer p) = Some i"
    and "eval_store cfg env op en = Inr (x, en')" and "en_diagnostics en' = en_diagnostics en"
    and "j < length (en_store en)" and "mo_external_data (en_store en ! j) = None"
    and "in_bounds (en_store en ! j) o' n"
    and "j \<noteq> i \<or> o' + n \<le> pt_offset (va_pointer p) \<or> pt_offset (va_pointer p) + bit_width (op_type op) div 8 \<le> o'"
  shows "read_object en' (en_store en' ! j) o' n = read_object en (en_store en ! j) o' n \<and>
    (\<forall>k. j \<noteq> i \<or> k \<noteq> pt_offset (va_pointer p) \<longrightarrow>
       mo_function_slots (en_store en' ! j) k = mo_function_slots (en_store en ! j) k)"
proof -
  let ?n = "bit_width (op_type op) div 8" and ?off = "pt_offset (va_pointer p)"
  obtain i' ob where p: "pointer_object en (va_pointer p) = Some (i', ob)" and b: "in_bounds ob ?off ?n"
      and en': "en' = set_slot i' ?off None (write_object (i', ob) ?off (le_bytes ?n (va_bits v)) en)"
    using eval_store_scalar [OF assms(1-4,6,7)] by metis
  have [simp]: "i' = i" using p assms(5) by (simp add: pointer_object_Some)
  have ob: "ob = en_store en ! i" using p by (simp add: pointer_object_Some)
  show ?thesis
  proof (cases "j = i")
    case True
    then show ?thesis
      using assms(8-11) b p unfolding en' ob
      by (auto simp: set_slot_def write_object_def read_object_def nth_update in_bounds_def object_size_def
          subspan_splice_disjoint)
  next
    case False
    then show ?thesis
      using assms(8,9) unfolding en'
      by (auto simp: set_slot_def write_object_def read_object_def nth_update split: option.splits)
  qed
qed

lemma set_bytes_quiet:
  assumes "set_bytes rm bm dst b n en = Inr (x, en')" and "en_diagnostics en' = en_diagnostics en"
    and "pointer_object en dst = Some (i, ob)"
  shows "in_bounds ob (pt_offset dst) n \<and> en' = write_object (i, ob) (pt_offset dst) (replicate n b) en"
  using assms
  by (auto simp: set_bytes_def m_bind_def m_return_def m_get_def m_fail_def m_write_def split: if_splits)

text \<open>
  Bulk memory writes do not clear function slots: after a \<open>memory.set\<close> over a stored function pointer
  that reports nothing, loading a pointer there still yields the function, not the bytes written.
\<close>

lemma memory_set_keeps_function_slot:
  assumes "op_operands op = pn # vn # nn # rest" and "env pn = Some p" and "va_kind p = VK_pointer"
    and "pointer_object en (va_pointer p) = Some (i, ob)"
    and "mo_function_slots ob (pt_offset (va_pointer p)) = Some fname"
    and "in_bounds ob (pt_offset (va_pointer p)) 8"
    and "eval_memory_set env op en = Inr (x, en')" and "en_diagnostics en' = en_diagnostics en"
    and "op_operands lop = pn # rest'" and "op_type lop = TK_ptr" and "op_alignment lop = 0"
  shows "eval_load cfg env lop en' = Inr (Some (function_value fname), en')"
proof -
  let ?off = "pt_offset (va_pointer p)"
  obtain rm bm b n where "set_bytes rm bm (va_pointer p) b n en = Inr (x, en')"
    using assms(1-3,7,8)
    by (auto simp: eval_memory_set_def lookup_at_def operand_at_def lookup_def m_bind_def m_return_def
        m_fail_def numeral_2_eq_2 split: if_splits option.splits)
  then obtain bs where bs: "in_bounds ob ?off (length bs)" "en' = write_object (i, ob) ?off bs en"
    using set_bytes_quiet [OF _ assms(8,4)] by (metis length_replicate)
  obtain ob' where "pointer_object en' (va_pointer p) = Some (i, ob')" "object_size ob' = object_size ob"
      "mo_function_slots ob' = mo_function_slots ob"
    using assms(4) bs
    by (auto simp: pointer_object_Some write_object_def object_size_def in_bounds_def split: option.splits)
  then show ?thesis
    using assms(2,3,5,6,9-11)
    by (auto simp: eval_load_def lookup_at_def operand_at_def lookup_def m_bind_def m_return_def m_get_def in_bounds_def)
qed

end
