(* ===== verification/Interp_Limits.thy ===== *)
theory Interp_Limits
  imports Interp_Contract
begin

text \<open>
  Termination and the step limit of the interpreter. The block loop of the model runs on fuel; with
  the fuel \<open>call_function\<close> passes it never runs out, whatever the module, the arguments and the host's
  functions do, as long as the limit is not the largest 64-bit number.
\<close>

section \<open>Two instances of the evaluator contract\<close>

text \<open>Outside calls nothing counts a step.\<close>

interpretation quiet: evaluator "\<lambda>f. f \<noteq> Out_of_fuel" "\<lambda>s s'. en_steps s' = en_steps s" cfg
    "\<lambda>_ _. True" "\<lambda>_ _ _. True" s0 for cfg s0
  by unfold_locales
    (auto simp: add_diagnostic_def add_object_def write_object_def set_slot_def split: option.splits)

text \<open>
  Below the limit \<open>M\<close> the counter only grows, and it passes the limit by one step at most, with a
  diagnostic; above the limit it stands still and diagnostics are not lost.
\<close>

definition step_rel :: "nat \<Rightarrow> engine \<Rightarrow> engine \<Rightarrow> bool" where
  "step_rel M s s' \<longleftrightarrow>
     (unat (en_steps s) \<le> M \<longrightarrow> unat (en_steps s) \<le> unat (en_steps s') \<and>
        (unat (en_steps s') \<le> M \<or> unat (en_steps s') = M + 1 \<and> en_diagnostics s' \<noteq> [])) \<and>
     (M < unat (en_steps s) \<longrightarrow> en_steps s' = en_steps s \<and> (en_diagnostics s \<noteq> [] \<longrightarrow> en_diagnostics s' \<noteq> []))"

lemma step_rel_same:
  "en_steps s' = en_steps s \<Longrightarrow> en_diagnostics s \<noteq> [] \<longrightarrow> en_diagnostics s' \<noteq> [] \<Longrightarrow> step_rel M s s'"
  by (simp add: step_rel_def)

lemma step_rel_below: "en_steps s' = en_steps s \<Longrightarrow> unat (en_steps s) \<le> M \<Longrightarrow> step_rel M s s'"
  by (simp add: step_rel_def)

lemma step_rel_trans: "step_rel M s s' \<Longrightarrow> step_rel M s' s'' \<Longrightarrow> step_rel M s s''"
  unfolding step_rel_def by (cases "unat (en_steps s') \<le> M"; cases "unat (en_steps s) \<le> M") auto

interpretation counted: evaluator "\<lambda>f. f \<noteq> Out_of_fuel" "step_rel M" cfg "\<lambda>_ _. True" "\<lambda>_ _ _. True" s0
  for M cfg s0
  by (unfold_locales; (erule (1) step_rel_trans | auto intro!: step_rel_same
      simp: add_diagnostic_def add_object_def write_object_def set_slot_def split: option.splits))

abbreviation no_fuel :: "interp_fault \<Rightarrow> bool" where
  "no_fuel f \<equiv> f \<noteq> Out_of_fuel"

lemma quiet_to_counted:
  assumes "ends no_fuel (\<lambda>s s'. en_steps s' = en_steps s) s m Q" and "unat (en_steps s) \<le> M"
  shows "ends no_fuel (step_rel M) s m (\<lambda>x s'. Q x s' \<and> en_steps s' = en_steps s)"
  using assms by (auto simp: ends_def split: sum.splits intro: step_rel_below)

section \<open>The counter\<close>

lemma unat_next: "unat (n :: u64) < 2 ^ 64 - 1 \<Longrightarrow> unat (n + 1) = unat n + 1"
  using unat_less_2p [of n] by (intro trans [OF unat_add_no_wrap]) simp_all

text \<open>The callees terminate within the limit from any state below it.\<close>

definition counts :: "nat \<Rightarrow> callee \<Rightarrow> bool" where
  "counts M callee \<longleftrightarrow> (\<forall>s name vs. unat (en_steps s) \<le> M \<longrightarrow>
     ends no_fuel (step_rel M) s (callee name vs) (\<lambda>_ _. True))"

text \<open>A list of operations that transfers control has counted a step and stayed below the limit.\<close>

definition progress :: "nat \<Rightarrow> engine \<Rightarrow> transfer \<times> environment \<Rightarrow> engine \<Rightarrow> bool" where
  "progress M s p s' \<longleftrightarrow> (\<forall>i vs. fst p = Transferred i vs \<longrightarrow>
     unat (en_steps s) < unat (en_steps s') \<and> unat (en_steps s') \<le> M)"

lemma progress_later: "progress M s' p t \<Longrightarrow> unat (en_steps s) \<le> unat (en_steps s') \<Longrightarrow> progress M s p t"
  by (fastforce simp: progress_def)

lemma ends_tick_then:
  assumes "step_rel M s (tick s)" and "ends no_fuel (step_rel M) (tick s) (k (en_steps s + 1)) Q"
  shows "ends no_fuel (step_rel M) s (m_bind m_tick k) Q"
  using assms by (auto simp: ends_def m_bind_def m_tick_def tick_def split: sum.splits intro: step_rel_trans)

lemma counted_transfer:
  assumes "ends no_fuel (\<lambda>s s'. en_steps s' = en_steps s) s1 m (\<lambda>t s'. \<forall>i vs. t = Transferred i vs \<longrightarrow> s' = s1)"
    and "unat (en_steps s1) \<le> M" and "unat (en_steps s) < unat (en_steps s1)"
  shows "ends no_fuel (step_rel M) s1 (m_bind m (\<lambda>t. m_return (t, env))) (progress M s)"
  by (rule counted.ends_bind [OF quiet_to_counted [OF assms(1,2)]])
    (use assms(2,3) in \<open>auto simp: progress_def intro!: counted.ends_return\<close>)

lemma quiet_returned:
  assumes "ends no_fuel (\<lambda>s s'. en_steps s' = en_steps s) s m Q"
  shows "ends no_fuel (\<lambda>s s'. en_steps s' = en_steps s) s (returned m) (\<lambda>t s'. \<forall>i vs. t = Transferred i vs \<longrightarrow> s' = s)"
  unfolding returned_def by (rule quiet.ends_bind [OF assms]) (auto intro!: quiet.ends_return)

text \<open>Every environment and every result buffer is admissible for the two instances.\<close>

lemma trivial_posts [simp]:
  "quiet.env_ok s env" "counted.env_ok s env" "quiet.result_ok cfg s f r" "counted.result_ok cfg s f r"
  "quiet.value_post v s" "counted.value_post v s"
  by (simp_all add: quiet.env_ok_def counted.env_ok_def quiet.result_ok_def counted.result_ok_def
      quiet.value_post_def counted.value_post_def)

lemma counted_value_post: "counted.value_post = (\<lambda>_ _. True)"
  by (simp add: fun_eq_iff)

lemma fail_transfer_eq:
  "m_bind (returned (m_fail message)) (\<lambda>t. m_return (t, env)) s = Inr ((Returned None, env), add_diagnostic message s)"
  by (simp add: m_bind_def returned_def m_fail_eq m_return_def)

lemma m_bind_tick: "m_bind m_tick k s = k (en_steps s + 1) (tick s)"
  by (simp add: m_bind_def m_tick_def tick_def)

text \<open>\<open>M\<close> is the configured limit, below the largest 64-bit number.\<close>

definition step_limit :: "interp_config \<Rightarrow> nat \<Rightarrow> bool" where
  "step_limit cfg M \<longleftrightarrow> M = unat (io_max_steps (ic_options cfg)) \<and> M < 2 ^ 64 - 1"

lemma limit_test:
  "step_limit cfg M \<Longrightarrow> io_max_steps (ic_options cfg) < en_steps s + 1 \<longleftrightarrow> M < unat (en_steps s + 1)"
  by (simp only: step_limit_def word_less_nat_alt)

lemma counted_limit_exceeded:
  assumes "step_limit cfg M" and "unat (en_steps s) \<le> M" and "M < unat (en_steps s + 1)"
  shows "ends no_fuel (step_rel M) s (exec_operations cfg callee f r (op # ops) env) (progress M s)"
proof -
  have "unat (en_steps s + 1) = unat (en_steps s) + 1"
    using assms(1,2) by (intro unat_next) (simp add: step_limit_def)
  then have "step_rel M s (add_diagnostic ''interpreter step limit exceeded'' (tick s))"
    using assms(2,3) by (simp add: step_rel_def add_diagnostic_def tick_def)
  moreover have "io_max_steps (ic_options cfg) < en_steps s + 1" using limit_test [OF assms(1)] assms(3) by blast
  ultimately show ?thesis
    unfolding exec_operations.simps ends_def m_bind_tick by (simp only: if_True fail_transfer_eq) (simp add: progress_def)
qed

lemma counted_operations:
  assumes "counts M callee" and "step_limit cfg M"
  shows "unat (en_steps s) \<le> M \<Longrightarrow>
    ends no_fuel (step_rel M) s (exec_operations cfg callee f r ops env) (progress M s)"
proof (induction ops arbitrary: s env)
  case Nil
  show ?case by (auto simp: progress_def intro!: counted.ends_return)
next
  case (Cons op ops)
  let ?s1 = "tick s"
  have s1: "unat (en_steps ?s1) = unat (en_steps s) + 1"
    using Cons.prems assms(2) by (simp add: tick_def unat_next step_limit_def)
  show ?case
  proof (cases "M < unat (en_steps s + 1)")
    case True
    then show ?thesis using counted_limit_exceeded assms(2) Cons.prems by blast
  next
    case False
    then have below: "unat (en_steps ?s1) \<le> M" and not: "\<not> io_max_steps (ic_options cfg) < en_steps s + 1"
      using limit_test [OF assms(2), of s] by (simp_all add: tick_def)
    have step: "step_rel M s ?s1" using s1 below by (simp add: step_rel_def)
    have stay: "ends no_fuel (step_rel M) ?s1 (m_bind m (\<lambda>t. m_return (t, env))) (progress M s)"
      if "ends no_fuel (\<lambda>s s'. en_steps s' = en_steps s) ?s1 m (\<lambda>t s'. \<forall>i vs. t = Transferred i vs \<longrightarrow> s' = ?s1)" for m
      using counted_transfer [OF that below] s1 by simp
    have next_op: "ends no_fuel (step_rel M) t (exec_operations cfg callee f r ops env') (progress M s)"
      if "step_rel M ?s1 t" "\<not> en_diagnostics t \<noteq> []" for t env'
    proof -
      have "unat (en_steps t) \<le> M" "unat (en_steps s) \<le> unat (en_steps t)"
        using that s1 below unfolding step_rel_def by linarith+
      then show ?thesis by (intro counted.ends_mono [OF Cons.IH]) (auto intro: progress_later)
    qed
    have callee: "ends no_fuel (step_rel M) ?s1 (callee name vs) counted.value_post" for name vs
      using assms(1) below by (simp add: counts_def counted_value_post)
    have fail: "ends no_fuel (step_rel M) t (m_bind (returned (m_fail message)) (\<lambda>t. m_return (t, env))) (progress M s)"
      for t message
      by (simp add: ends_def fail_transfer_eq progress_def step_rel_same add_diagnostic_def)
    have jump: "ends no_fuel (\<lambda>s s'. en_steps s' = en_steps s) ?s1 (exec_jump f env op) (\<lambda>t s'. \<forall>i vs. t = Transferred i vs \<longrightarrow> s' = ?s1)"
      by (rule quiet.ends_mono [OF quiet.ends_exec_jump]) auto
    have ret: "ends no_fuel (\<lambda>s s'. en_steps s' = en_steps s) ?s1 (returned (exec_return cfg f r env op))
        (\<lambda>t s'. \<forall>i vs. t = Transferred i vs \<longrightarrow> s' = ?s1)"
      by (rule quiet_returned [OF quiet.ends_exec_return [OF refl]]) simp_all
    have eval: "ends no_fuel (step_rel M) ?s1 (evaluate cfg callee env op) counted.value_post"
      by (rule counted.ends_evaluate [OF counted.R_refl]) (simp_all add: callee)
    show ?thesis
      unfolding exec_operations.simps
      by (rule ends_tick_then [OF step], simp only: not if_False)
        (intro counted.ends_if stay jump ret fail counted.ends_bind [OF eval] counted.ends_get counted.ends_return
          counted.ends_option next_op; simp add: progress_def)
  qed
qed

lemma counted_fail:
  "ends no_fuel (step_rel M) t (m_bind (returned (m_fail message)) (\<lambda>t. m_return (t, env))) (progress M s)"
  by (simp add: ends_def fail_transfer_eq progress_def step_rel_same add_diagnostic_def)

lemma counted_block:
  assumes "counts M callee" and "step_limit cfg M" and below: "unat (en_steps s) \<le> M"
  shows "ends no_fuel (step_rel M) s (exec_block cfg callee f r i vs env) (progress M s)"
proof -
  have bound: "ends no_fuel (step_rel M) s (if i \<noteq> 0 then bind_block_arguments cfg ds vs env else m_return (Some env))
      (\<lambda>b s'. en_steps s' = en_steps s)" for ds
  proof (rule counted.ends_mono [OF quiet_to_counted [OF _ below]])
    show "ends no_fuel (\<lambda>s s'. en_steps s' = en_steps s) s
        (if i \<noteq> 0 then bind_block_arguments cfg ds vs env else m_return (Some env)) (\<lambda>_ _. True)"
      by (intro quiet.ends_if quiet.ends_mono [OF quiet.ends_bind_block_arguments [OF refl]] quiet.ends_return) simp_all
  qed simp
  have ops: "ends no_fuel (step_rel M) s' (exec_operations cfg callee f r ops env') (progress M s)"
    if "en_steps s' = en_steps s" for s' ops env'
    using that below by (intro counted.ends_mono [OF counted_operations [OF assms(1,2)]]) (auto simp: progress_def)
  have finish: "ends no_fuel (step_rel M) t (case x of (t', env') \<Rightarrow> case t' of
        Returned v \<Rightarrow> m_return (t', env')
      | Transferred j ws \<Rightarrow> m_return (t', env')
      | Fell_through \<Rightarrow> m_bind (returned (m_fail message)) (\<lambda>t'. m_return (t', env'))) (progress M s)"
    if "progress M s x t" for x t message
    using that by (cases x; cases "fst x") (auto intro!: counted.ends_return counted_fail)
  have none: "progress M s (Returned None, env') t" for env' t by (simp add: progress_def)
  show ?thesis
    unfolding exec_block_def Let_def
    by (intro counted.ends_if counted_fail counted.ends_bind [OF bound] counted.ends_ok counted.ends_return none
        counted.ends_bind [OF ops] finish)
qed

lemma counted_blocks:
  assumes "counts M callee" and "step_limit cfg M"
  shows "unat (en_steps s) \<le> M \<Longrightarrow> M < unat (en_steps s) + fuel \<Longrightarrow>
    ends no_fuel (step_rel M) s (exec_blocks cfg callee f r fuel i vs env) (\<lambda>_ _. True)"
proof (induction fuel arbitrary: s i vs env)
  case (Suc fuel)
  show ?case
    unfolding exec_blocks.simps
  proof (rule counted.ends_bind [OF counted_block [OF assms Suc.prems(1)]], goal_cases)
    case (1 x t)
    have "ends no_fuel (step_rel M) t (exec_blocks cfg callee f r fuel j ws (snd x)) (\<lambda>_ _. True)"
      if "fst x = Transferred j ws" for j ws
      using 1(2) that Suc.prems by (intro Suc.IH) (auto simp: progress_def)
    then show ?case by (cases x; cases "fst x") (auto intro!: counted.ends_return)
  qed
qed simp

lemma counted_quiet:
  assumes "ends no_fuel (\<lambda>s s'. en_steps s' = en_steps s) s m Q" and "unat (en_steps s) \<le> M"
    and "\<And>x s'. en_steps s' = en_steps s \<Longrightarrow> ends no_fuel (step_rel M) s' (k x) Q'"
  shows "ends no_fuel (step_rel M) s (m_bind m k) Q'"
  using counted.ends_bind [OF quiet_to_counted [OF assms(1,2)]] assms(3) by blast

lemma ends_call_external: "ends no_fuel (\<lambda>s s'. en_steps s' = en_steps s) s (call_external ext vs) (\<lambda>_ _. True)"
  by (simp add: ends_def call_external_def split: prod.splits)

lemma counted_call_function:
  assumes "counts M callee" and "step_limit cfg M" and "unat (en_steps s) \<le> M"
  shows "ends no_fuel (step_rel M) s (call_function cfg callee f vs) (\<lambda>_ _. True)"
proof -
  have run: "ends no_fuel (step_rel M) t (exec_blocks cfg callee f r (loop_fuel cfg) 0 [] env) (\<lambda>_ _. True)"
    if "unat (en_steps t) \<le> M" for t r env
    using assms(2) that by (intro counted_blocks [OF assms(1,2)]) (simp_all add: loop_fuel_def step_limit_def)
  have finish: "ends no_fuel (step_rel M) t (finish_return cfg f message r v) (\<lambda>_ _. True)" for t message r v
    by (rule counted.ends_mono [OF counted.ends_finish_return [OF counted.R_refl]]) simp_all
  show ?thesis
    unfolding call_function_def
    by (intro counted_quiet [OF quiet.ends_reserve_result [OF refl]] counted.ends_ok counted.ends_return
        counted.ends_if counted.ends_fail counted_quiet [OF quiet.ends_prepare_arguments [OF refl]]
        counted.ends_option counted_quiet [OF ends_call_external] finish run)
      (use assms(3) in simp_all)
qed

lemma counts_call_at: "step_limit cfg M \<Longrightarrow> counts M (call_at cfg n)"
proof (induction n)
  case (Suc n)
  have ext: "ends no_fuel (step_rel M) s (call_external ext vs) (\<lambda>_ _. True)" if "unat (en_steps s) \<le> M" for s ext vs
    by (rule counted.ends_mono [OF quiet_to_counted [OF ends_call_external that]]) simp
  show ?case
    using Suc ext unfolding counts_def call_at.simps
    by (auto intro!: counted.ends_option counted.ends_fail counted_call_function [of M] simp: counts_def)
qed (auto simp: counts_def intro!: counted.ends_fail)

lemma init_global_steps: "en_steps (fst (init_global m eg g st)) = en_steps (fst st)"
  by (simp add: init_global_def add_global_def fail_global_def Let_def split: prod.splits option.splits)

lemma construct_steps:
  assumes "construct m eg store host = (en, gs)"
  shows "en_steps en = 0"
proof -
  have "en_steps (fst (fold (init_global m eg) gvs st)) = en_steps (fst st)" for gvs st
    by (induction gvs arbitrary: st) (simp_all add: init_global_steps)
  from this [of "md_globals m"] show ?thesis
    using assms unfolding construct_def by (metis engine.select_convs(4) fst_conv)
qed

text \<open>
  C1. Every run ends within its step limit. For every module, entry point, host function and memory, with
  any limit below the largest 64-bit number, the interpreter's loops terminate (the loop fuel is never
  exhausted); the number of steps reported is at most one above the limit, and it is above the limit
  only with a diagnostic and without a value.
\<close>

theorem execution_terminates_within_limit:
  assumes "io_max_steps options \<noteq> - 1"
  shows "case execute m options externals external_globals base fp store host name arguments of
      Inl f \<Rightarrow> f \<noteq> Out_of_fuel
    | Inr (res, en) \<Rightarrow>
        unat (ir_result_steps res) \<le> unat (io_max_steps options) + 1 \<and>
        (unat (ir_result_steps res) = unat (io_max_steps options) + 1 \<longrightarrow>
           ir_result_diagnostics res \<noteq> [] \<and> ir_result_value res = None)"
proof -
  let ?M = "unat (io_max_steps options)"
  obtain en gs where c: "construct m external_globals store host = (en, gs)" by fastforce
  let ?cfg = "make_config m options externals base fp gs"
  have "?M \<noteq> unat (- 1 :: u64)" using assms unat_eqI by blast
  then have "step_limit ?cfg ?M"
    using unat_less_2p [of "io_max_steps options"] by (simp add: step_limit_def make_config_def unat_max_word)
  moreover have "en_steps en = 0" using construct_steps [OF c] .
  ultimately have "ends no_fuel (step_rel ?M) en (call_at ?cfg (io_max_call_depth options) name arguments) (\<lambda>_ _. True)"
    using counts_call_at by (simp add: counts_def)
  then show ?thesis
    using \<open>en_steps en = 0\<close>
    by (auto simp: execute_def c run_def ends_def step_rel_def make_config_def split: sum.splits)
qed

end
