(* ===== verification/Interp_Agree.thy ===== *)
theory Interp_Agree
  imports Interp_Limits
begin

text \<open>
  What the evaluation of one operation depends on: the structures and arrays of the module, the globals, the host and
  the processor's arithmetic, but neither the functions of the module nor the limits.
\<close>

section \<open>Layouts depend on the declarations alone\<close>

definition same_declarations :: "ir_module \<Rightarrow> ir_module \<Rightarrow> bool" where
  "same_declarations m m' \<longleftrightarrow> md_structs m' = md_structs m \<and> md_arrays m' = md_arrays m"

lemma find_declaration_same:
  "same_declarations m m' \<Longrightarrow> find_struct m' n = find_struct m n" "same_declarations m m' \<Longrightarrow> find_array m' n = find_array m n"
  by (simp_all add: same_declarations_def find_struct_def find_array_def)

lemma layout_same:
  "same_declarations m m' \<Longrightarrow> layout_structure dl m' active d = layout_structure dl m active d"
  "same_declarations m m' \<Longrightarrow> layout_fields dl m' active fs c a = layout_fields dl m active fs c a"
  "same_declarations m m' \<Longrightarrow> layout_array dl m' active e = layout_array dl m active e"
proof (induction dl m active d and dl m active fs c a and dl m active e rule: layout_structure_layout_fields_layout_array.induct)
  case (1 dl m active d)
  have "layout_fields dl m' (insert (struct_key d) active) (sd_fields d) 0 1 = layout_fields dl m (insert (struct_key d) active) (sd_fields d) 0 1"
    if "struct_key d \<notin> active" using 1 that by simp
  then show ?case by (subst (1 2) layout_structure.simps) auto
next
  case (3 dl m active f fs c a)
  let ?sizes = "\<lambda>m. case sf_aggregate_kind f of
      ARK_scalar \<Rightarrow> (case (size_of dl (sf_type f), alignment_of dl (sf_type f)) of (Some s, Some a) \<Rightarrow> Some (s, a) | _ \<Rightarrow> None)
    | ARK_structure \<Rightarrow> (case find_struct m (sf_aggregate_name f) of None \<Rightarrow> None
        | Some nested \<Rightarrow> map_option (\<lambda>l. (sl_size l, sl_alignment l)) (layout_structure dl m active nested))
    | _ \<Rightarrow> (case find_array m (sf_aggregate_name f) of None \<Rightarrow> None
        | Some nested \<Rightarrow> map_option (\<lambda>l. (al_size l, al_alignment l)) (layout_array dl m active nested))"
  have sizes: "?sizes m' = ?sizes m"
    using 3(1-3) find_declaration_same [OF 3(5)] 3(5) by (cases "sf_aggregate_kind f") (simp_all split: option.splits)
  have rest: "layout_fields dl m' active fs c' a' = layout_fields dl m active fs c' a'"
    if "?sizes m = Some (s, al)" "place_field c a s al = Some (fl, c', a')" for s al fl c' a'
    by (rule 3(4) [of "(s, al)" s al "(fl, c', a')" fl "(c', a')" c' a']) 
      (use that 3(5) in \<open>cases "sf_aggregate_kind f"; simp split: option.splits\<close>)+
  show ?case
  proof (cases "?sizes m")
    case None
    then show ?thesis using sizes by simp
  next
    case (Some sa)
    obtain s al where sa: "sa = (s, al)" by fastforce
    show ?thesis
    proof (cases "place_field c a s al")
      case None
      then show ?thesis using sizes Some sa by simp
    next
      case place: (Some r)
      obtain fl c' a' where r: "r = (fl, c', a')" by (cases r)
      then show ?thesis using sizes Some sa place rest [of s al fl c' a'] by simp
    qed
  qed
next
  case (4 dl m active d)
  then show ?case
    by (subst (1 2) layout_array.simps, cases "ad_element_aggregate_kind d")
      (simp_all add: find_declaration_same [OF 4(4)] split: option.splits)
qed simp


lemma aggregate_same:
  assumes "same_declarations m m'"
  shows "dl_struct_layout dl m' d = dl_struct_layout dl m d" "dl_array_layout dl m' e = dl_array_layout dl m e"
    "aggregate_size dl m' kind n = aggregate_size dl m kind n" "aggregate_alignment dl m' kind n = aggregate_alignment dl m kind n"
proof -
  have s: "dl_struct_layout dl m' d = dl_struct_layout dl m d" for d
    unfolding dl_struct_layout_def by (rule layout_same(1) [OF assms])
  have a: "dl_array_layout dl m' e = dl_array_layout dl m e" for e
    unfolding dl_array_layout_def by (rule layout_same(3) [OF assms])
  show "dl_struct_layout dl m' d = dl_struct_layout dl m d" "dl_array_layout dl m' e = dl_array_layout dl m e" by (rule s a)+
  show "aggregate_size dl m' kind n = aggregate_size dl m kind n" "aggregate_alignment dl m' kind n = aggregate_alignment dl m kind n"
    by (cases kind; simp only: aggregate_size.simps aggregate_alignment.simps s a find_declaration_same [OF assms])+
qed

section \<open>Configurations that evaluate alike\<close>

definition agrees :: "interp_config \<Rightarrow> interp_config \<Rightarrow> bool" where
  "agrees cfg cfg' \<longleftrightarrow> same_declarations (ic_module cfg) (ic_module cfg') \<and> ic_globals cfg' = ic_globals cfg \<and>
     ic_externals cfg' = ic_externals cfg \<and> ic_base cfg' = ic_base cfg \<and> ic_fp cfg' = ic_fp cfg"

lemma agrees_parts:
  assumes "agrees cfg cfg'"
  shows "find_struct (ic_module cfg') = find_struct (ic_module cfg)" "find_array (ic_module cfg') = find_array (ic_module cfg)"
    "dl_struct_layout dl (ic_module cfg') = dl_struct_layout dl (ic_module cfg)"
    "dl_array_layout dl (ic_module cfg') = dl_array_layout dl (ic_module cfg)"
    "aggregate_size dl (ic_module cfg') = aggregate_size dl (ic_module cfg)"
    "aggregate_alignment dl (ic_module cfg') = aggregate_alignment dl (ic_module cfg)"
    "ic_globals cfg' = ic_globals cfg" "ic_externals cfg' = ic_externals cfg" "ic_base cfg' = ic_base cfg" "ic_fp cfg' = ic_fp cfg"
proof -
  have d: "same_declarations (ic_module cfg) (ic_module cfg')" using assms by (simp add: agrees_def)
  show "find_struct (ic_module cfg') = find_struct (ic_module cfg)" "find_array (ic_module cfg') = find_array (ic_module cfg)"
    by (rule ext, rule find_declaration_same [OF d])+
  show "dl_struct_layout dl (ic_module cfg') = dl_struct_layout dl (ic_module cfg)"
    "dl_array_layout dl (ic_module cfg') = dl_array_layout dl (ic_module cfg)" by (rule ext, rule aggregate_same [OF d])+
  show "aggregate_size dl (ic_module cfg') = aggregate_size dl (ic_module cfg)"
    "aggregate_alignment dl (ic_module cfg') = aggregate_alignment dl (ic_module cfg)"
    by (intro ext, rule aggregate_same [OF d])+
qed (use assms in \<open>simp_all add: agrees_def\<close>)

lemma addresses_agree:
  assumes "agrees cfg cfg'"
  shows "object_data cfg' = object_data cfg" "host_address cfg' = host_address cfg"
    "value_is_aligned cfg' = value_is_aligned cfg" "fits_aggregate cfg' = fits_aggregate cfg"
proof -
  show o: "object_data cfg' = object_data cfg" by (intro ext) (simp only: object_data_def agrees_parts [OF assms])
  show h: "host_address cfg' = host_address cfg" by (intro ext) (simp only: host_address_def o)
  show a: "value_is_aligned cfg' = value_is_aligned cfg" by (intro ext) (simp only: value_is_aligned_def h)
  show "fits_aggregate cfg' = fits_aggregate cfg" by (intro ext) (simp only: fits_aggregate_def a agrees_parts [OF assms])
qed

lemma eval_agree:
  assumes "agrees cfg cfg'"
  shows "eval_const cfg' = eval_const cfg" "eval_array_query cfg' = eval_array_query cfg"
    "eval_struct_query cfg' = eval_struct_query cfg" "eval_global_address cfg' = eval_global_address cfg"
    "eval_stack_alloc_typed cfg' = eval_stack_alloc_typed cfg" "eval_load cfg' = eval_load cfg" "eval_store cfg' = eval_store cfg"
    "eval_aggregate_copy cfg' = eval_aggregate_copy cfg" "eval_aggregate_zero cfg' = eval_aggregate_zero cfg"
    "eval_int_to_float cfg' = eval_int_to_float cfg" "eval_float_to_int cfg' = eval_float_to_int cfg"
    "eval_float_cast cfg' = eval_float_cast cfg" "eval_float_arith cfg' = eval_float_arith cfg"
    "array_offset cfg' = array_offset cfg" "struct_offset cfg' = struct_offset cfg"
  by (intro ext, simp only: eval_const_def eval_array_query_def eval_struct_query_def eval_global_address_def
      eval_stack_alloc_typed_def eval_load_def eval_store_def eval_aggregate_copy_def eval_aggregate_zero_def
      eval_int_to_float_def eval_float_to_int_def eval_float_cast_def eval_float_arith_def
      array_offset_def struct_offset_def agrees_parts [OF assms] addresses_agree [OF assms])+

lemma evaluate_agree: "agrees cfg cfg' \<Longrightarrow> evaluate cfg' = evaluate cfg"
  by (intro ext) (simp only: evaluate_def eval_address_def address_offset_def eval_arith_def eval_agree)

lemma call_agree:
  assumes "agrees cfg cfg'"
  shows "finish_return cfg' = finish_return cfg" "reserve_result cfg' = reserve_result cfg"
    "prepare_aggregate cfg' = prepare_aggregate cfg" "exec_return cfg' = exec_return cfg"
proof -
  show f: "finish_return cfg' = finish_return cfg"
    by (intro ext) (simp only: finish_return_def agrees_parts [OF assms] addresses_agree [OF assms])
  show "reserve_result cfg' = reserve_result cfg" "prepare_aggregate cfg' = prepare_aggregate cfg"
    by (intro ext, simp only: reserve_result_def prepare_aggregate_def agrees_parts [OF assms] addresses_agree [OF assms])+
  show "exec_return cfg' = exec_return cfg" by (intro ext) (simp only: exec_return_def f)
qed

lemma bind_agree:
  assumes "agrees cfg cfg'"
  shows "prepare_arguments cfg' fname ds vs = prepare_arguments cfg fname ds vs"
    "bind_block_arguments cfg' ds vs env = bind_block_arguments cfg ds vs env"
proof -
  show "prepare_arguments cfg' fname ds vs = prepare_arguments cfg fname ds vs"
  proof (induction ds arbitrary: vs)
    case (Cons d ds)
    then show ?case by (cases vs) (simp_all only: prepare_arguments.simps call_agree [OF assms])
  qed simp
  show "bind_block_arguments cfg' ds vs env = bind_block_arguments cfg ds vs env"
  proof (induction ds arbitrary: vs env)
    case (Cons d ds)
    then show ?case by (cases vs) (simp_all only: bind_block_arguments.simps call_agree [OF assms])
  qed simp
qed

end
