(* ===== verification/Interp_Monotone.thy ===== *)
theory Interp_Monotone
  imports Interp_Agree
begin

text \<open>
  The limits only cut runs short: a run that ends without a diagnostic gives the same value, the same
  step count and the same memory under any larger limits.
\<close>

section \<open>Refinement of computations\<close>

text \<open>Whatever \<open>m\<close> achieves from \<open>s\<close> without a diagnostic, \<open>m'\<close> achieves as well.\<close>

definition refines :: "engine \<Rightarrow> 'a engine_m \<Rightarrow> 'a engine_m \<Rightarrow> bool" where
  "refines s m m' \<longleftrightarrow> (\<forall>x s'. m s = Inr (x, s') \<longrightarrow> en_diagnostics s' = [] \<longrightarrow> m' s = Inr (x, s'))"

definition callee_refines :: "callee \<Rightarrow> callee \<Rightarrow> bool" where
  "callee_refines c c' \<longleftrightarrow> (\<forall>s name vs. en_diagnostics s = [] \<longrightarrow> refines s (c name vs) (c' name vs))"

lemma refines_refl: "refines s m m"
  by (simp add: refines_def)

lemma m_bind_Inr: "m_bind m k s = Inr (y, t) \<longleftrightarrow> (\<exists>x s'. m s = Inr (x, s') \<and> k x s' = Inr (y, t))"
  by (auto simp: m_bind_def split: sum.splits)

lemma refines_bind_same:
  assumes "\<And>x s'. m s = Inr (x, s') \<Longrightarrow> refines s' (k x) (k' x)"
  shows "refines s (m_bind m k) (m_bind m k')"
  using assms by (auto simp: refines_def m_bind_Inr)

section \<open>Evaluation does not depend on the limits\<close>

definition with_options :: "interp_options \<Rightarrow> interp_config \<Rightarrow> interp_config" where
  "with_options o' cfg = cfg\<lparr>ic_options := o'\<rparr>"

lemma with_options_simps [simp]:
  "ic_module (with_options o' cfg) = ic_module cfg" "ic_globals (with_options o' cfg) = ic_globals cfg"
  "ic_externals (with_options o' cfg) = ic_externals cfg" "ic_fp (with_options o' cfg) = ic_fp cfg"
  "ic_options (with_options o' cfg) = o'" "ic_base (with_options o' cfg) = ic_base cfg"
  by (simp_all add: with_options_def)

lemma agrees_options: "agrees cfg (with_options o' cfg)"
  by (simp add: agrees_def same_declarations_def)

lemma evaluate_options [simp]: "evaluate (with_options o' cfg) = evaluate cfg"
  by (rule evaluate_agree [OF agrees_options])

lemma call_options [simp]:
  "finish_return (with_options o' cfg) = finish_return cfg" "reserve_result (with_options o' cfg) = reserve_result cfg"
  "prepare_aggregate (with_options o' cfg) = prepare_aggregate cfg"
  by (rule call_agree [OF agrees_options])+

lemma exec_return_options [simp]: "exec_return (with_options o' cfg) = exec_return cfg"
  by (rule call_agree [OF agrees_options])

lemma bind_options [simp]:
  "prepare_arguments (with_options o' cfg) fname ds vs = prepare_arguments cfg fname ds vs"
  "bind_block_arguments (with_options o' cfg) ds vs env = bind_block_arguments cfg ds vs env"
  by (rule bind_agree [OF agrees_options])+

lemma evaluate_other_callee:
  assumes "op_opcode op \<notin> {''call'', ''call.indirect''}"
  shows "evaluate cfg c env op = evaluate cfg c' env op"
  unfolding evaluate_def Let_def by (simp only: assms if_False)

lemma evaluate_call:
  assumes "op_opcode op \<in> {''call'', ''call.indirect''}"
  shows "evaluate cfg c env op = eval_call c env op"
  using assms by (elim insertE emptyE) (simp_all add: evaluate_def)

text \<open>What succeeded left no diagnostic.\<close>

lemma call_target_same: "call_target env op s = Inr (Some t, s') \<Longrightarrow> s' = s"
  using quiet.ends_call_target [of s env op] by (simp add: ends_def)

lemma lookup_all_same: "lookup_all env ns s = Inr (Some vs, s') \<Longrightarrow> s' = s"
  using quiet.ends_lookup_all [of s env ns] by (simp add: ends_def)

lemma eval_call_refines:
  assumes "callee_refines c c'" and "en_diagnostics s = []"
  shows "refines s (eval_call c env op) (eval_call c' env op)"
  unfolding eval_call_def
proof (rule refines_bind_same)
  fix t s1 assume t: "call_target env op s = Inr (t, s1)"
  show "refines s1 (m_ok t (m_return None) (\<lambda>target. m_bind (lookup_all env (drop (first_argument op) (op_operands op)))
      (\<lambda>vs. m_ok vs (m_return None) (c target))))
    (m_ok t (m_return None) (\<lambda>target. m_bind (lookup_all env (drop (first_argument op) (op_operands op)))
      (\<lambda>vs. m_ok vs (m_return None) (c' target))))"
  proof (cases t)
    case (Some target)
    with t have [simp]: "s1 = s" using call_target_same by blast
    have "refines s' (m_ok vs (m_return None) (c target)) (m_ok vs (m_return None) (c' target))"
      if "lookup_all env ns s = Inr (vs, s')" for vs s' ns
      using that assms lookup_all_same [of env ns s] by (cases vs) (auto simp: refines_refl callee_refines_def)
    then show ?thesis using Some by (auto intro!: refines_bind_same)
  qed (simp add: refines_refl)
qed

lemma evaluate_refines:
  assumes "callee_refines c c'" and "en_diagnostics s = []"
  shows "refines s (evaluate cfg c env op) (evaluate cfg c' env op)"
proof (cases "op_opcode op \<in> {''call'', ''call.indirect''}")
  case True
  then show ?thesis by (simp only: evaluate_call eval_call_refines [OF assms])
next
  case False
  then show ?thesis using evaluate_other_callee [OF False, of cfg c env c'] by (simp add: refines_refl)
qed

text \<open>A transfer of control is only reached without a diagnostic.\<close>

definition refines_transfer :: "engine \<Rightarrow> (transfer \<times> environment) engine_m \<Rightarrow> (transfer \<times> environment) engine_m \<Rightarrow> bool" where
  "refines_transfer s m m' \<longleftrightarrow> (\<forall>t env s'. m s = Inr ((t, env), s') \<longrightarrow>
     en_diagnostics s' = [] \<or> (\<exists>i vs. t = Transferred i vs) \<longrightarrow> m' s = Inr ((t, env), s') \<and> en_diagnostics s' = [])"

lemma exec_jump_same: "exec_jump f env op s = Inr (Transferred i vs, s') \<Longrightarrow> s' = s"
  using quiet.ends_exec_jump [of s env f op] by (simp add: ends_def)

lemma refines_transfer_stay:
  assumes "\<And>i vs s'. m s = Inr (Transferred i vs, s') \<Longrightarrow> en_diagnostics s' = []"
  shows "refines_transfer s (m_bind m (\<lambda>t. m_return (t, env))) (m_bind m (\<lambda>t. m_return (t, env)))"
  using assms by (auto simp: refines_transfer_def m_bind_Inr m_return_def)

lemma refines_transfer_returned:
  "refines_transfer s (m_bind (returned m) (\<lambda>t. m_return (t, env))) (m_bind (returned m) (\<lambda>t. m_return (t, env)))"
  by (rule refines_transfer_stay) (auto simp: returned_def m_bind_Inr m_return_def)

lemma refines_transfer_fail:
  "refines_transfer s (m_bind (returned (m_fail message)) (\<lambda>t. m_return (t, env))) m'"
  by (simp add: refines_transfer_def fail_transfer_eq add_diagnostic_def)

lemma refines_transfer_if:
  "(b \<Longrightarrow> refines_transfer s m m') \<Longrightarrow> (\<not> b \<Longrightarrow> refines_transfer s n n') \<Longrightarrow>
   refines_transfer s (if b then m else n) (if b then m' else n')"
  by simp

lemma refines_transfer_tick:
  "refines_transfer (tick s) (k (en_steps s + 1)) (k' (en_steps s + 1)) \<Longrightarrow>
   refines_transfer s (m_bind m_tick k) (m_bind m_tick k')"
  by (simp only: refines_transfer_def m_bind_tick)

lemma operations_refine:
  assumes "callee_refines c c'" and "io_max_steps (ic_options cfg) \<le> io_max_steps o'"
  shows "en_diagnostics s = [] \<Longrightarrow>
    refines_transfer s (exec_operations cfg c f r ops env) (exec_operations (with_options o' cfg) c' f r ops env)"
proof (induction ops arbitrary: s env)
  case (Cons op ops)
  have d: "en_diagnostics (tick s) = []" using Cons.prems by (simp add: tick_def)
  have eval: "refines_transfer (tick s)
      (m_bind (evaluate cfg c env op) (\<lambda>produced. m_bind m_get (\<lambda>en.
         if en_diagnostics en \<noteq> [] then m_return (Returned None, env) else k produced)))
      (m_bind (evaluate cfg c' env op) (\<lambda>produced. m_bind m_get (\<lambda>en.
         if en_diagnostics en \<noteq> [] then m_return (Returned None, env) else k' produced)))"
    if "\<And>produced s2. en_diagnostics s2 = [] \<Longrightarrow> refines_transfer s2 (k produced) (k' produced)" for k k'
    using evaluate_refines [OF assms(1) d, of cfg env op] that
    by (fastforce simp: refines_transfer_def refines_def m_bind_Inr m_get_def m_return_def split: if_splits)
  have rest: "refines_transfer s2
      (if op_result op = [] then exec_operations cfg c f r ops env
       else case produced of None \<Rightarrow> m_bind (returned (m_fail message)) (\<lambda>t. m_return (t, env))
         | Some v \<Rightarrow> exec_operations cfg c f r ops (env(op_result op \<mapsto> v)))
      (if op_result op = [] then exec_operations (with_options o' cfg) c' f r ops env
       else case produced of None \<Rightarrow> m_bind (returned (m_fail message)) (\<lambda>t. m_return (t, env))
         | Some v \<Rightarrow> exec_operations (with_options o' cfg) c' f r ops (env(op_result op \<mapsto> v)))"
    if "en_diagnostics s2 = []" for produced s2 message
    using Cons.IH [OF that] by (cases produced) (simp_all add: refines_transfer_fail)
  have jump: "refines_transfer (tick s) (m_bind (exec_jump f env op) (\<lambda>t. m_return (t, env)))
      (m_bind (exec_jump f env op) (\<lambda>t. m_return (t, env)))"
    using exec_jump_same d by (intro refines_transfer_stay) metis
  have tick: "refines_transfer s (m_bind m_tick (\<lambda>n. if n > m1 then m_bind (returned (m_fail message)) (\<lambda>t. m_return (t, env)) else k))
      (m_bind m_tick (\<lambda>n. if n > m2 then m_bind (returned (m_fail message)) (\<lambda>t. m_return (t, env)) else k'))"
    if "refines_transfer (tick s) k k'" "m1 \<le> m2" for k k' m1 m2 message
  proof (rule refines_transfer_tick, cases "m1 < en_steps s + 1")
    case True
    show "refines_transfer (tick s)
        (if m1 < en_steps s + 1 then m_bind (returned (m_fail message)) (\<lambda>t. m_return (t, env)) else k)
        (if m2 < en_steps s + 1 then m_bind (returned (m_fail message)) (\<lambda>t. m_return (t, env)) else k')"
      unfolding if_P [OF True] by (rule refines_transfer_fail)
  next
    case False
    then have "\<not> m2 < en_steps s + 1" using that(2) by (meson leD leI order_trans)
    then show "refines_transfer (tick s)
        (if m1 < en_steps s + 1 then m_bind (returned (m_fail message)) (\<lambda>t. m_return (t, env)) else k)
        (if m2 < en_steps s + 1 then m_bind (returned (m_fail message)) (\<lambda>t. m_return (t, env)) else k')"
      using that(1) False by (simp only: if_False)
  qed
  show ?case
    unfolding exec_operations.simps evaluate_options exec_return_options with_options_simps
    by (intro tick refines_transfer_if refines_transfer_returned jump eval rest assms(2))
qed (simp add: refines_transfer_def m_return_def)

lemma prepare_aggregate_quiet:
  "prepare_aggregate cfg km sm d v s = Inr (Some w, s') \<Longrightarrow> en_diagnostics s' = en_diagnostics s"
  by (auto simp: prepare_aggregate_def some_value_def copy_owned_def m_alloc_def m_bind_def m_get_def m_return_def
      m_fail_def m_throw_def split: if_splits option.splits)

lemma prepare_arguments_quiet:
  "prepare_arguments cfg fname ds vs s = Inr (Some ws, s') \<Longrightarrow> en_diagnostics s' = en_diagnostics s"
proof (induction ds arbitrary: vs ws s s')
  case (Cons d ds)
  show ?case
  proof (cases vs)
    case vs: (Cons v rest)
    note run = Cons.prems [unfolded vs prepare_arguments.simps m_bind_Inr]
    then obtain w s1 where "prepare_aggregate cfg
        (''aggregate argument '' @ vd_name d @ '' calling @'' @ fname @ '' must be a pointer'')
        (''aggregate argument '' @ vd_name d @ '' calling @'' @ fname @ '' has insufficient size or alignment'') d v s =
        Inr (w, s1)" "m_ok w (m_return None) (\<lambda>v'. m_bind (prepare_arguments cfg fname ds rest)
          (\<lambda>vs'. m_return (map_option (\<lambda>vs'. v' # vs') vs'))) s1 = Inr (Some ws, s')"
      by blast
    then show ?thesis
      using Cons.IH prepare_aggregate_quiet by (cases w) (fastforce simp: m_bind_Inr m_return_def)+
  qed (use Cons.prems in \<open>auto simp: m_return_def\<close>)
qed (auto simp: m_return_def)

lemma bind_block_arguments_quiet:
  "bind_block_arguments cfg ds vs env s = Inr (Some env', s') \<Longrightarrow> en_diagnostics s' = en_diagnostics s"
proof (induction ds arbitrary: vs env s)
  case (Cons d ds)
  show ?case
  proof (cases vs)
    case vs: (Cons v rest)
    note run = Cons.prems [unfolded vs bind_block_arguments.simps m_bind_Inr]
    then obtain w s1 where "prepare_aggregate cfg
        (''aggregate block argument '' @ vd_name d @ '' must be a pointer'')
        (''aggregate block argument '' @ vd_name d @ '' has insufficient size or alignment'') d v s =
        Inr (w, s1)" "m_ok w (m_return None) (\<lambda>v'. bind_block_arguments cfg ds rest (env(vd_name d \<mapsto> v'))) s1 = Inr (Some env', s')"
      by blast
    then show ?thesis
      using Cons.IH prepare_aggregate_quiet by (cases w) (fastforce simp: m_return_def)+
  qed (use Cons.prems in \<open>auto simp: m_return_def\<close>)
qed (auto simp: m_return_def)

lemma reserve_result_quiet: "reserve_result cfg f s = Inr (Some r, s') \<Longrightarrow> en_diagnostics s' = en_diagnostics s"
  by (auto simp: reserve_result_def m_bind_def m_return_def m_fail_def m_alloc_def split: if_splits option.splits)

lemma refines_transfer_bind:
  "(\<And>x s'. m s = Inr (x, s') \<Longrightarrow> refines_transfer s' (k x) (k' x)) \<Longrightarrow>
   refines_transfer s (m_bind m k) (m_bind m k')"
  by (auto simp: refines_transfer_def m_bind_Inr)

lemma refines_transfer_finish:
  assumes "refines_transfer s m m'"
  shows "refines_transfer s
    (m_bind m (\<lambda>(t, env). case t of
       Returned v \<Rightarrow> m_return (t, env) | Transferred i vs \<Rightarrow> m_return (t, env)
     | Fell_through \<Rightarrow> m_bind (returned (m_fail message)) (\<lambda>t'. m_return (t', env))))
    (m_bind m' (\<lambda>(t, env). case t of
       Returned v \<Rightarrow> m_return (t, env) | Transferred i vs \<Rightarrow> m_return (t, env)
     | Fell_through \<Rightarrow> m_bind (returned (m_fail message)) (\<lambda>t'. m_return (t', env))))" (is "refines_transfer s ?l ?r")
  unfolding refines_transfer_def
proof (intro allI impI)
  fix t env s' assume l: "?l s = Inr ((t, env), s')" and q: "en_diagnostics s' = [] \<or> (\<exists>i vs. t = Transferred i vs)"
  then obtain t1 env1 s1 where m: "m s = Inr ((t1, env1), s1)"
    and k: "(case t1 of Returned v \<Rightarrow> m_return (t1, env1) | Transferred i vs \<Rightarrow> m_return (t1, env1)
       | Fell_through \<Rightarrow> m_bind (returned (m_fail message)) (\<lambda>t'. m_return (t', env1))) s1 = Inr ((t, env), s')"
    by (auto simp: m_bind_Inr)
  have "t1 \<noteq> Fell_through" using k q by (auto simp: fail_transfer_eq add_diagnostic_def)
  then have eq: "t1 = t" "env1 = env" "s1 = s'" using k by (cases t1; auto simp: m_return_def)+
  then have "m' s = Inr ((t, env), s')" "en_diagnostics s' = []" using assms m q by (auto simp: refines_transfer_def)
  then show "?r s = Inr ((t, env), s') \<and> en_diagnostics s' = []" using k unfolding eq by (simp add: m_bind_def)
qed

lemma block_refine:
  assumes "callee_refines c c'" and "io_max_steps (ic_options cfg) \<le> io_max_steps o'" and "en_diagnostics s = []"
  shows "refines_transfer s (exec_block cfg c f r i vs env) (exec_block (with_options o' cfg) c' f r i vs env)"
proof -
  have none: "refines_transfer s1 (m_return (Returned None, env)) (m_return (Returned None, env))" for s1
    by (simp add: refines_transfer_def m_return_def)
  have bound: "en_diagnostics s1 = []"
    if "(if i \<noteq> 0 then bind_block_arguments cfg ds vs env else m_return (Some env)) s = Inr (Some env', s1)" for ds env' s1
    using that assms(3) bind_block_arguments_quiet [of cfg ds vs env s env' s1] by (auto simp: m_return_def split: if_splits)
  show ?thesis
    unfolding exec_block_def Let_def bind_options
    apply (intro refines_transfer_if refines_transfer_fail refines_transfer_bind)
    subgoal for b s1
      using none bound operations_refine [OF assms(1,2)] by (cases b) (auto intro!: refines_transfer_finish)
    done
qed

lemma blocks_refine:
  assumes "callee_refines c c'" and "io_max_steps (ic_options cfg) \<le> io_max_steps o'"
  shows "en_diagnostics s = [] \<Longrightarrow> fuel \<le> fuel' \<Longrightarrow>
    refines s (exec_blocks cfg c f r fuel i vs env) (exec_blocks (with_options o' cfg) c' f r fuel' i vs env)"
proof (induction fuel arbitrary: fuel' s i vs env)
  case 0
  show ?case by (simp add: refines_def m_throw_def)
next
  case (Suc fuel)
  then obtain k where k: "fuel' = Suc k" "fuel \<le> k" by (cases fuel') auto
  show ?case
    unfolding k exec_blocks.simps refines_def
  proof (intro allI impI)
    fix x s'
    assume run: "m_bind (exec_block cfg c f r i vs env) (\<lambda>(t, values'). case t of
        Transferred target vs \<Rightarrow> exec_blocks cfg c f r fuel target vs values'
      | Returned v \<Rightarrow> m_return v | Fell_through \<Rightarrow> m_return None) s = Inr (x, s')" and d: "en_diagnostics s' = []"
    then obtain t env1 s1 where b: "exec_block cfg c f r i vs env s = Inr ((t, env1), s1)"
        and rest: "(case t of Transferred target vs \<Rightarrow> exec_blocks cfg c f r fuel target vs env1
          | Returned v \<Rightarrow> m_return v | Fell_through \<Rightarrow> m_return None) s1 = Inr (x, s')"
      by (auto simp: m_bind_Inr)
    have "en_diagnostics s1 = [] \<or> (\<exists>j ws. t = Transferred j ws)" using rest d by (cases t) (auto simp: m_return_def)
    then have b': "exec_block (with_options o' cfg) c' f r i vs env s = Inr ((t, env1), s1)" and d1: "en_diagnostics s1 = []"
      using block_refine [OF assms Suc.prems(1), of f r i vs env] b by (auto simp: refines_transfer_def)
    have "exec_blocks (with_options o' cfg) c' f r k j ws env1 s1 = Inr (x, s')" if "t = Transferred j ws" for j ws
      using Suc.IH [OF d1 k(2), of j ws env1] rest that d by (simp add: refines_def)
    then show "m_bind (exec_block (with_options o' cfg) c' f r i vs env) (\<lambda>(t, values'). case t of
        Transferred target vs \<Rightarrow> exec_blocks (with_options o' cfg) c' f r k target vs values'
      | Returned v \<Rightarrow> m_return v | Fell_through \<Rightarrow> m_return None) s = Inr (x, s')"
      using rest b' by (cases t) (auto simp: m_bind_Inr)
  qed
qed

lemma call_function_refines:
  assumes "callee_refines c c'" and "io_max_steps (ic_options cfg) \<le> io_max_steps o'" and "en_diagnostics s = []"
  shows "refines s (call_function cfg c f vs) (call_function (with_options o' cfg) c' f vs)"
proof -
  have fuel: "loop_fuel cfg \<le> loop_fuel (with_options o' cfg)"
    using assms(2) by (simp add: loop_fuel_def word_le_nat_alt)
  have ifs: "refines t (if b then m else n) (if b then m' else n')"
    if "b \<Longrightarrow> refines t m m'" "\<not> b \<Longrightarrow> refines t n n'" for t b m m' n n' using that by simp
  have ok: "refines t (m_ok x m k) (m_ok x m k')" if "\<And>y. x = Some y \<Longrightarrow> refines t (k y) (k' y)" for t x m k k'
    using that by (cases x) (simp_all add: refines_refl)
  show ?thesis
    unfolding call_function_def bind_options call_options with_options_simps
    apply (intro refines_bind_same ok ifs refines_refl blocks_refine [OF assms(1,2)] fuel)
    using assms(3) reserve_result_quiet prepare_arguments_quiet by fastforce
qed

lemma call_at_refines:
  assumes "io_max_steps (ic_options cfg) \<le> io_max_steps o'"
  shows "n \<le> n' \<Longrightarrow> callee_refines (call_at cfg n) (call_at (with_options o' cfg) n')"
proof (induction n arbitrary: n')
  case 0
  show ?case by (simp add: callee_refines_def refines_def m_fail_def)
next
  case (Suc n)
  then obtain k where k: "n' = Suc k" "n \<le> k" by (cases n') auto
  show ?case
    unfolding callee_refines_def k call_at.simps with_options_simps
    using call_function_refines [OF Suc.IH [OF k(2)] assms] by (simp add: refines_refl split: option.split)
qed

text \<open>
  C15. The limits only cut runs short. If a run ends without a diagnostic, then under any larger step and
  call-depth limits the same run ends with the same value, the same number of steps and the same
  memory.
\<close>

theorem larger_limits_same_run:
  assumes "execute m o1 externals eg base fp store host name arguments = Inr (res, en')"
    and "ir_result_diagnostics res = []" and "en_diagnostics (fst (construct m eg store host)) = []"
    and "io_max_steps o1 \<le> io_max_steps o2" and "io_max_call_depth o1 \<le> io_max_call_depth o2"
  shows "execute m o2 externals eg base fp store host name arguments = Inr (res, en')"
proof -
  obtain en gs where c: "construct m eg store host = (en, gs)" by fastforce
  let ?c1 = "make_config m o1 externals base fp gs"
  have c2: "make_config m o2 externals base fp gs = with_options o2 ?c1"
    by (simp add: make_config_def with_options_def)
  have "callee_refines (call_at ?c1 (io_max_call_depth o1)) (call_at (with_options o2 ?c1) (io_max_call_depth o2))"
    using assms(4,5) by (intro call_at_refines) (simp_all add: make_config_def)
  then have "refines en (call_at ?c1 (io_max_call_depth o1) name arguments)
      (call_at (make_config m o2 externals base fp gs) (io_max_call_depth o2) name arguments)"
    using assms(3) c c2 by (simp add: callee_refines_def)
  moreover obtain v where "call_at ?c1 (io_max_call_depth o1) name arguments en = Inr (v, en')"
      "en_diagnostics en' = []" "res = \<lparr>ir_result_value = v, ir_result_diagnostics = [], ir_result_steps = en_steps en'\<rparr>"
    using assms(1,2) c by (auto simp: execute_def run_def make_config_def split: sum.splits)
  ultimately show ?thesis
    using c by (auto simp: execute_def run_def refines_def) (simp add: make_config_def)
qed

end
