(* ===== verification/Interp_Witnesses.thy ===== *)
theory Interp_Witnesses
  imports Interp_Ops Interp_Monotone
begin

text \<open>A small program run through the interpreter, and the theorems about runs applied to it.\<close>

definition sample_fp :: fp_ops where
  "sample_fp = \<lparr>fp_strtod = (\<lambda>_. (0, 0)), fp_of_f32 = (\<lambda>_. 0), fp_to_f32 = (\<lambda>_. 0), fp_add = (\<lambda>_ _. 0),
     fp_sub = (\<lambda>_ _. 0), fp_mul = (\<lambda>_ _. 0), fp_div = (\<lambda>_ _. 0), fp_neg = (\<lambda>_. 0), fp_eq = (=), fp_lt = (<), fp_le = (\<le>),
     fp_of_i64 = word_of_int, fp_of_u64 = (\<lambda>x. x), fp_to_i64 = Some, fp_to_u64 = Some\<rparr>"

definition simple_op :: "string \<Rightarrow> string \<Rightarrow> ir_type \<Rightarrow> string list \<Rightarrow> operation" where
  "simple_op result opcode t operands = \<lparr>op_result = result, op_opcode = opcode, op_type = t, op_operands = operands,
     op_successors = [], op_successor_arguments = [], op_alignment = 0, op_source_file = [],
     op_source_line = 0, op_source_column = 0, op_source_end_line = 0, op_source_end_column = 0, op_attributes = []\<rparr>"

definition sample_main :: ir_function where
  "sample_main = \<lparr>fn_name = ''main'', fn_is_external = False, fn_is_signature = False, fn_variadic = False,
     fn_target_feature = [], fn_calling_convention = CC_platform, fn_linkage = SL_external,
     fn_visibility = SV_default, fn_return_type = TK_i32, fn_return_aggregate_kind = ARK_scalar,
     fn_return_aggregate_name = [], fn_return_owned = False, fn_return_borrow_mode = BM_none,
     fn_return_borrow_parameter = - 1, fn_parameters = [],
     fn_blocks =
       [\<lparr>bl_name = ''entry'', bl_parameters = [], bl_operations =
          [simple_op ''g'' ''global.address'' TK_ptr [''@k''],
           simple_op ''x'' ''load'' TK_i32 [''g''],
           simple_op ''y'' ''call'' TK_i32 [''@ext''],
           simple_op ''r'' ''add'' TK_i32 [''x'', ''y''],
           (simple_op [] ''jump'' TK_void [])\<lparr>op_successors := [''done''], op_successor_arguments := [[''r'']]\<rparr>]\<rparr>,
        \<lparr>bl_name = ''done'', bl_parameters = [value_decl_init\<lparr>vd_name := ''p'', vd_type := TK_i32\<rparr>],
          bl_operations = [simple_op [] ''return'' TK_i32 [''p'']]\<rparr>]\<rparr>"

definition sample_global :: global_var where
  "sample_global = \<lparr>gv_name = ''k'', gv_type = TK_i32, gv_aggregate_kind = ARK_scalar, gv_aggregate_name = [],
     gv_function_signature_name = [], gv_is_constant = True, gv_is_external = False, gv_is_thread_local = False,
     gv_linkage = SL_external, gv_visibility = SV_default, gv_initializer = ''7'', gv_element_count = 1,
     gv_alignment = 0, gv_zero_initialized = False, gv_bytes = []\<rparr>"

definition sample_program :: ir_module where
  "sample_program = (ir_module_init ''sample'')\<lparr>md_globals := [sample_global], md_functions := [sample_main]\<rparr>"

definition sample_engine :: engine where
  "sample_engine = \<lparr>en_store = [owned_object [7, 0, 0, 0]], en_host = (\<lambda>_. 0), en_diagnostics = [], en_steps = 0\<rparr>"

lemma numeral_unfold:
  "le_bytes (numeral k) w = ucast w # le_bytes (pred_numeral k) (drop_bit 8 w)"
  "exec_blocks cfg c f r (numeral k) i vs env = exec_blocks cfg c f r (Suc (pred_numeral k)) i vs env"
  by (simp_all add: numeral_eq_Suc)

lemma sample_construct:
  "construct sample_program Map.empty [] (\<lambda>_. 0) =
     (sample_engine, [''k'' \<mapsto> \<lparr>gs_object = 0, gs_is_constant = True\<rparr>])"
  by (simp add: construct_def sample_program_def ir_module_init_def sample_global_def init_global_def global_size_def
      is_named_aggregate_def Let_def add_global_def map_emplace_def sample_engine_def parse_int64_def from_chars_i64_def
      isdigit_def digits_value_def digit_value_def normalize_bits_def mask_for_def numeral_unfold)

text \<open>A host function that returns 35 and leaves memory alone.\<close>

definition sample_external :: external_function where
  "sample_external arguments st = (Some (integer_value TK_i32 35), st)"

definition sample_execute :: "u64 \<Rightarrow> nat \<Rightarrow> interp_fault + interp_result \<times> engine" where
  "sample_execute steps depth = execute sample_program \<lparr>io_max_steps = steps, io_max_call_depth = depth\<rparr>
     [''ext'' \<mapsto> sample_external] Map.empty (\<lambda>_. 16) sample_fp [] (\<lambda>_. 0) ''main'' []"

lemma sample_outcome:
  "(case sample_execute 10 2 of
      Inl _ \<Rightarrow> None
    | Inr (res, en) \<Rightarrow> Some (ir_result_value res, ir_result_diagnostics res, ir_result_steps res)) =
     Some (Some (integer_value TK_i32 42), [], 6)"
  by code_simp

lemma sample_run:
  obtains res en where "sample_execute 10 2 = Inr (res, en)" "ir_result_value res = Some (integer_value TK_i32 42)"
    "ir_result_diagnostics res = []" "ir_result_steps res = 6"
  using sample_outcome by (auto split: sum.splits prod.splits)

lemma with_external_state_same: "external_state s = st \<Longrightarrow> with_external_state st s = s"
  by (auto simp: with_external_state_def external_state_def)

lemma sample_external_ok:
  "(\<And>s. R s s) \<Longrightarrow> (\<And>s. V s (integer_value TK_i32 35)) \<Longrightarrow>
   \<forall>fname ext. [''ext'' \<mapsto> sample_external] fname = Some ext \<longrightarrow> external_ok R V s0 ext"
  by (auto simp: external_ok_def sample_external_def with_external_state_same split: if_splits)

theorem execution_terminates_within_limit_witness:
  "io_max_steps \<lparr>io_max_steps = 10, io_max_call_depth = 2\<rparr> \<noteq> - 1 \<and>
   (case sample_execute 10 2 of
      Inl f \<Rightarrow> f \<noteq> Out_of_fuel
    | Inr (res, en) \<Rightarrow> unat (ir_result_steps res) \<le> 11 \<and>
        (unat (ir_result_steps res) = 11 \<longrightarrow> ir_result_diagnostics res \<noteq> [] \<and> ir_result_value res = None))"
  using execution_terminates_within_limit [where options = "\<lparr>io_max_steps = 10, io_max_call_depth = 2\<rparr>" and m = sample_program
      and externals = "[''ext'' \<mapsto> sample_external]" and external_globals = Map.empty and base = "\<lambda>_. 16" and fp = sample_fp
      and store = "[]" and host = "\<lambda>_. 0" and name = "''main''" and arguments = "[]"]
  by (simp add: sample_execute_def split: sum.splits prod.splits)

theorem execution_memory_safe_witness:
  "\<exists>res en. sample_execute 10 2 = Inr (res, en) \<and> mem_le sample_engine en \<and>
     ir_result_value res = Some (integer_value TK_i32 42) \<and> value_ok en (integer_value TK_i32 42)"
proof -
  obtain res en where r: "sample_execute 10 2 = Inr (res, en)" "ir_result_value res = Some (integer_value TK_i32 42)"
    using sample_run .
  show ?thesis
    using r execution_memory_safe [OF sample_construct sample_external_ok [of mem_le value_ok] _ r(1) [unfolded sample_execute_def]]
    by (auto simp: mem_le_refl)
qed

theorem constant_globals_unchanged_witness:
  "\<exists>res en. sample_execute 10 2 = Inr (res, en) \<and> en_store en ! 0 = owned_object [7, 0, 0, 0]"
proof -
  let ?g = "\<lparr>gs_object = 0, gs_is_constant = True\<rparr>"
  obtain res en where r: "sample_execute 10 2 = Inr (res, en)" using sample_run .
  have ext: "\<forall>fname ext. [''ext'' \<mapsto> sample_external] fname = Some ext \<longrightarrow>
      external_ok (const_le {gs_object ?g}) (const_value {gs_object ?g}) sample_engine ext"
    by (rule sample_external_ok) (simp_all add: const_le_def)
  have "en_store en ! gs_object ?g = en_store sample_engine ! gs_object ?g"
    by (rule constant_globals_unchanged [OF sample_construct _ _ ext _ r [unfolded sample_execute_def], of "''k''"])
      simp_all
  then show ?thesis using r by (simp add: sample_engine_def)
qed

theorem larger_limits_same_run_witness:
  "\<exists>res en. sample_execute 10 2 = Inr (res, en) \<and> sample_execute 1000 5 = Inr (res, en)"
proof -
  obtain res en where r: "sample_execute 10 2 = Inr (res, en)" "ir_result_diagnostics res = []" using sample_run .
  have "sample_execute 1000 5 = Inr (res, en)"
    unfolding sample_execute_def
    by (rule larger_limits_same_run [OF r(1) [unfolded sample_execute_def] r(2)])
      (simp_all add: sample_construct sample_engine_def)
  then show ?thesis using r by blast
qed

section \<open>Operations\<close>

definition int_operand :: "u64 \<Rightarrow> ir_value" where
  "int_operand b = integer_value TK_i32 b"

theorem integer_arithmetic_wraps_witness:
  "\<exists>v. integer_binary (simple_op ''r'' ''add'' TK_i32 []) (int_operand 0xffffffff) (int_operand 2) sample_engine =
      Inr (Some v, sample_engine) \<and> uint (va_bits v) = 1 \<and> signed_value v = 1"
  using integer_arithmetic_wraps [of "simple_op ''r'' ''add'' TK_i32 []" "(+)" "int_operand 0xffffffff" "int_operand 2" sample_engine]
  by (auto simp: simple_op_def int_operand_def normalize_bits_def mask_for_def signed_value_def signed_bits_def)

theorem signed_division_correct_witness:
  "\<exists>v. integer_binary (simple_op ''r'' ''div.signed'' TK_i32 []) (int_operand (- 7)) (int_operand 2) sample_engine =
      Inr (Some v, sample_engine) \<and> signed_value v = - 3"
  using signed_division_correct [of "simple_op ''r'' ''div.signed'' TK_i32 []" "int_operand (- 7)" "int_operand 2" sample_engine]
  by (auto simp: simple_op_def int_operand_def normalize_bits_def mask_for_def signed_value_def signed_bits_def
      signed_divide_int_def)

definition cell_engine :: engine where
  "cell_engine = \<lparr>en_store = [owned_object (replicate 8 0), owned_object [1, 2]], en_host = (\<lambda>_. 0),
     en_diagnostics = [], en_steps = 0\<rparr>"

definition cell_pointer :: ir_value where
  "cell_pointer = pointer_value \<lparr>pt_object = Some 0, pt_offset = 0, pt_read_only = False\<rparr>"

definition cell_env :: environment where
  "cell_env = [''v'' \<mapsto> int_operand 77, ''p'' \<mapsto> cell_pointer, ''n'' \<mapsto> integer_value TK_i64 8,
     ''f'' \<mapsto> function_value ''callback'']"

definition cell_config :: interp_config where
  "cell_config = make_config sample_program \<lparr>io_max_steps = 10, io_max_call_depth = 1\<rparr> Map.empty (\<lambda>_. 16) sample_fp Map.empty"

lemmas cell_simps = eval_store_def lookup_at_def operand_at_def lookup_def m_bind_def m_return_def m_get_def m_write_def
  m_set_slot_def simple_op_def cell_env_def cell_pointer_def int_operand_def pointer_object_def in_bounds_def

lemma cell_store:
  "\<exists>en. eval_store cell_config cell_env (simple_op [] ''store'' TK_i32 [''v'', ''p'']) cell_engine = Inr (None, en) \<and>
     en_diagnostics en = en_diagnostics cell_engine"
  by (auto simp: cell_simps cell_engine_def write_object_def set_slot_def owned_object_def object_size_def)

theorem store_load_roundtrip_witness:
  "\<exists>en. eval_store cell_config cell_env (simple_op [] ''store'' TK_i32 [''v'', ''p'']) cell_engine = Inr (None, en) \<and>
     eval_load cell_config cell_env (simple_op ''x'' ''load'' TK_i32 [''p'']) en = Inr (Some (int_operand 77), en)"
proof -
  obtain en where en: "eval_store cell_config cell_env (simple_op [] ''store'' TK_i32 [''v'', ''p'']) cell_engine = Inr (None, en)"
      "en_diagnostics en = en_diagnostics cell_engine"
    using cell_store by blast
  have "eval_load cell_config cell_env (simple_op ''x'' ''load'' TK_i32 [''p'']) en =
      Inr (Some (integer_value (op_type (simple_op [] ''store'' TK_i32 [''v'', ''p''])) (va_bits (int_operand 77))), en)"
    by (rule store_load_roundtrip [OF _ _ _ _ en, of "''v''" "''p''" "[]" "int_operand 77" cell_pointer _ "[]"])
      (simp_all add: simple_op_def cell_env_def int_operand_def is_float_def)
  then show ?thesis using en by (auto simp: simple_op_def int_operand_def integer_value_def)
qed

theorem store_frame_witness:
  "\<exists>en. eval_store cell_config cell_env (simple_op [] ''store'' TK_i32 [''v'', ''p'']) cell_engine = Inr (None, en) \<and>
     read_object en (en_store en ! 0) 4 4 = [0, 0, 0, 0]"
proof -
  obtain en where en: "eval_store cell_config cell_env (simple_op [] ''store'' TK_i32 [''v'', ''p'']) cell_engine = Inr (None, en)"
      "en_diagnostics en = en_diagnostics cell_engine"
    using cell_store by blast
  have "read_object en (en_store en ! 0) 4 4 = read_object cell_engine (en_store cell_engine ! 0) 4 4"
    using store_frame [OF _ _ _ _ _ en, of "''v''" "''p''" "[]" "int_operand 77" cell_pointer 0 0 4 4]
    by (simp add: simple_op_def cell_env_def cell_pointer_def cell_engine_def in_bounds_def owned_object_def object_size_def
        int_operand_def)
  also have "\<dots> = [0, 0, 0, 0]"
    by (simp add: cell_engine_def read_object_def owned_object_def subspan_def eval_nat_numeral)
  finally show ?thesis using en by blast
qed

definition callback_engine :: engine where
  "callback_engine = cell_engine\<lparr>en_store := [(owned_object (replicate 8 0))\<lparr>mo_function_slots := [0 \<mapsto> ''callback'']\<rparr>]\<rparr>"

lemma callback_set:
  "\<exists>en. eval_memory_set cell_env (simple_op [] ''memory.set'' TK_void [''p'', ''v'', ''n'']) callback_engine = Inr (None, en) \<and>
     en_diagnostics en = en_diagnostics callback_engine"
  by (simp add: eval_memory_set_def set_bytes_def callback_engine_def cell_simps cell_engine_def
      owned_object_def object_size_def normalize_bits_def mask_for_def write_object_def list_at_def)

theorem memory_set_keeps_function_slot_witness:
  "\<exists>en. eval_memory_set cell_env (simple_op [] ''memory.set'' TK_void [''p'', ''v'', ''n'']) callback_engine = Inr (None, en) \<and>
     eval_load cell_config cell_env (simple_op ''x'' ''load'' TK_ptr [''p'']) en = Inr (Some (function_value ''callback''), en)"
proof -
  let ?op = "simple_op [] ''memory.set'' TK_void [''p'', ''v'', ''n'']"
  obtain en where en: "eval_memory_set cell_env ?op callback_engine = Inr (None, en)"
      "en_diagnostics en = en_diagnostics callback_engine"
    using callback_set by blast
  have "eval_load cell_config cell_env (simple_op ''x'' ''load'' TK_ptr [''p'']) en = Inr (Some (function_value ''callback''), en)"
    by (rule memory_set_keeps_function_slot [OF _ _ _ _ _ _ en, of "''p''" "''v''" "''n''" "[]" cell_pointer 0
          "(owned_object (replicate 8 0))\<lparr>mo_function_slots := [0 \<mapsto> ''callback'']\<rparr>" _ _ "[]"])
      (simp_all add: simple_op_def cell_env_def cell_pointer_def callback_engine_def pointer_object_def owned_object_def
        object_size_def in_bounds_def)
  then show ?thesis using en by blast
qed

end
