(* ===== verification/Raz_Source.thy ===== *)
theory Raz_Source
  imports Forge_Prelude
begin

text \<open>
  Source files, locations and diagnostics of the Raz compiler: \<open>bootstrap/compiler/source/source_location.hpp\<close>,
  \<open>source_manager.hpp\<close>, \<open>source_manager.cpp\<close>, and the recording part of \<open>bootstrap/compiler/diagnostics/\<close>
  (\<open>diagnostic.hpp\<close>, \<open>report\<close>, \<open>error\<close>, \<open>warning\<close> and the policy of \<open>diagnostic_engine.cpp\<close>).

  Offsets, lines and columns are \<open>nat\<close> with the conversion to \<open>uint32_t\<close> written out where it can wrap; a
  text of \<open>load_file\<close> is shorter than \<open>2^32\<close> bytes. Reading a file is the host's: \<open>load_file\<close> takes what the
  stream gave. Paths are their strings.
\<close>

unbundle bit_operations_syntax

section \<open>Locations\<close>

definition wrap32 :: "nat \<Rightarrow> nat" where
  "wrap32 n = n mod 2 ^ 32"

record source_location =
  loc_file :: nat
  loc_offset :: nat

definition loc_valid :: "source_location \<Rightarrow> bool" where
  "loc_valid l \<longleftrightarrow> loc_file l \<noteq> 0"

record raz_range =
  rg_begin :: source_location
  rg_end :: source_location

definition rg_valid :: "raz_range \<Rightarrow> bool" where
  "rg_valid r \<longleftrightarrow> loc_valid (rg_begin r) \<and> loc_valid (rg_end r) \<and>
     loc_file (rg_begin r) = loc_file (rg_end r) \<and> loc_offset (rg_begin r) \<le> loc_offset (rg_end r)"

definition rg_size :: "raz_range \<Rightarrow> nat" where
  "rg_size r = (if rg_valid r then loc_offset (rg_end r) - loc_offset (rg_begin r) else 0)"

record line_column =
  lc_line :: nat
  lc_column :: nat

record lsp_position =
  lsp_line :: nat
  lsp_character :: nat

section \<open>Source manager\<close>

record source_file =
  src_id :: nat
  src_path :: string
  src_diagnostic_path :: string
  src_line_delta :: int
  src_byte_delta :: int
  src_text :: string
  src_line_starts :: "nat list"

type_synonym source_manager = "source_file list"

text \<open>The offsets after each newline, from position \<open>i\<close> on.\<close>

fun newline_ends :: "nat \<Rightarrow> string \<Rightarrow> nat list" where
  "newline_ends i [] = []"
| "newline_ends i (c # cs) = (if c = CHR ''\<newline>'' then [Suc i] else []) @ newline_ends (Suc i) cs"

definition compute_line_starts :: "string \<Rightarrow> nat list" where
  "compute_line_starts text = 0 # newline_ends 0 text"

definition add_virtual_file :: "string \<Rightarrow> string \<Rightarrow> source_manager \<Rightarrow> nat \<times> source_manager" where
  "add_virtual_file path text files =
     (let fid = wrap32 (length files + 1)
      in (fid, files @ [\<lparr>src_id = fid, src_path = path, src_diagnostic_path = [], src_line_delta = 0,
            src_byte_delta = 0, src_text = text, src_line_starts = compute_line_starts text\<rparr>]))"

datatype stream_result = Stream_closed | Stream_failed | Stream_contents string

definition load_file :: "string \<Rightarrow> stream_result \<Rightarrow> source_manager \<Rightarrow> (string + nat) \<times> source_manager" where
  "load_file path stream files =
     (case stream of
        Stream_closed \<Rightarrow> (Inl (''unable to open source file: '' @ path), files)
      | Stream_failed \<Rightarrow> (Inl (''unable to read source file: '' @ path), files)
      | Stream_contents text \<Rightarrow>
          if length text > 2 ^ 32 - 1
          then (Inl (''source file exceeds Raz'' @ [CHR 0x27] @ ''s 4 GiB per-file limit: '' @ path), files)
          else (case add_virtual_file path text files of (fid, files') \<Rightarrow> (Inr fid, files')))"

definition get_file :: "source_manager \<Rightarrow> nat \<Rightarrow> source_file option" where
  "get_file files fid = (if fid = 0 \<or> fid > length files then None else Some (files ! (fid - 1)))"

definition source_text :: "source_manager \<Rightarrow> nat \<Rightarrow> string" where
  "source_text files fid = (case get_file files fid of None \<Rightarrow> [] | Some f \<Rightarrow> src_text f)"

definition source_slice :: "source_manager \<Rightarrow> raz_range \<Rightarrow> string" where
  "source_slice files r =
     (if \<not> rg_valid r then []
      else let contents = source_text files (loc_file (rg_begin r))
           in if loc_offset (rg_end r) > length contents then []
              else subspan contents (loc_offset (rg_begin r)) (rg_size r))"

text \<open>\<open>std::upper_bound\<close> on a sorted vector: the number of leading elements that are at most the key.\<close>

definition upper_bound :: "nat list \<Rightarrow> nat \<Rightarrow> nat" where
  "upper_bound xs key = length (takeWhile (\<lambda>x. x \<le> key) xs)"

definition line_index :: "source_file \<Rightarrow> nat \<Rightarrow> nat" where
  "line_index f off =
     (let upper = upper_bound (src_line_starts f) off in if upper = 0 then 0 else upper - 1)"

definition line_column_of :: "source_manager \<Rightarrow> source_location \<Rightarrow> line_column" where
  "line_column_of files l =
     (case get_file files (loc_file l) of
        None \<Rightarrow> \<lparr>lc_line = 1, lc_column = 1\<rparr>
      | Some f \<Rightarrow>
          if loc_offset l > length (src_text f) then \<lparr>lc_line = 1, lc_column = 1\<rparr>
          else let index = line_index f (loc_offset l)
               in \<lparr>lc_line = wrap32 (index + 1),
                   lc_column = wrap32 (loc_offset l - src_line_starts f ! index + 1)\<rparr>)"

definition clamp_u32 :: "int \<Rightarrow> int \<Rightarrow> nat" where
  "clamp_u32 low mapped = wrap32 (nat (max low mapped))"

definition display_line_column :: "source_manager \<Rightarrow> source_location \<Rightarrow> line_column" where
  "display_line_column files l =
     (let result = line_column_of files l
      in case get_file files (loc_file l) of
           None \<Rightarrow> result
         | Some f \<Rightarrow> result\<lparr>lc_line := clamp_u32 1 (int (lc_line result) + src_line_delta f)\<rparr>)"

text \<open>
  The UTF-16 length of the bytes from \<open>i\<close> to \<open>stop\<close>. A lead byte whose continuation bytes would pass
  \<open>stop\<close> counts as one unit of its own; continuation bytes are not validated.
\<close>

definition byte_at :: "string \<Rightarrow> nat \<Rightarrow> nat" where
  "byte_at text i = of_char (text ! i)"

definition utf8_step :: "string \<Rightarrow> nat \<Rightarrow> nat \<Rightarrow> nat \<times> nat" where
  "utf8_step text stop i =
     (let lead = byte_at text i; cont = (\<lambda>k. byte_at text (i + k) AND 0x3F)
      in if lead AND 0xE0 = 0xC0 \<and> i + 1 < stop then (push_bit 6 (lead AND 0x1F) OR cont 1, 2)
         else if lead AND 0xF0 = 0xE0 \<and> i + 2 < stop
         then (push_bit 12 (lead AND 0x0F) OR push_bit 6 (cont 1) OR cont 2, 3)
         else if lead AND 0xF8 = 0xF0 \<and> i + 3 < stop
         then (push_bit 18 (lead AND 0x07) OR push_bit 12 (cont 1) OR push_bit 6 (cont 2) OR cont 3, 4)
         else (lead, 1))"

lemma utf8_step_width: "0 < snd (utf8_step text stop i)"
  by (simp add: utf8_step_def Let_def)

function utf16_length :: "string \<Rightarrow> nat \<Rightarrow> nat \<Rightarrow> nat" where
  "utf16_length text stop i =
     (if i < stop
      then (case utf8_step text stop i of (codepoint, width) \<Rightarrow>
              (if codepoint > 0xFFFF then 2 else 1) + utf16_length text stop (i + width))
      else 0)"
  by pat_completeness auto
termination
proof (relation "measure (\<lambda>(t, stop, i). stop - i)", goal_cases)
  case (2 t stop i cp width)
  then show ?case using utf8_step_width [of t stop i] by (cases "utf8_step t stop i") auto
qed simp

declare utf16_length.simps [simp del]

definition lsp_position_of :: "source_manager \<Rightarrow> source_location \<Rightarrow> lsp_position" where
  "lsp_position_of files l =
     (case get_file files (loc_file l) of
        None \<Rightarrow> \<lparr>lsp_line = 0, lsp_character = 0\<rparr>
      | Some f \<Rightarrow>
          if loc_offset l > length (src_text f) then \<lparr>lsp_line = 0, lsp_character = 0\<rparr>
          else let index = line_index f (loc_offset l)
               in \<lparr>lsp_line = wrap32 index,
                   lsp_character = wrap32 (utf16_length (src_text f) (loc_offset l) (src_line_starts f ! index))\<rparr>)"

definition display_lsp_position :: "source_manager \<Rightarrow> source_location \<Rightarrow> lsp_position" where
  "display_lsp_position files l =
     (let result = lsp_position_of files l
      in case get_file files (loc_file l) of
           None \<Rightarrow> result
         | Some f \<Rightarrow> result\<lparr>lsp_line := clamp_u32 0 (int (lsp_line result) + src_line_delta f)\<rparr>)"

definition set_diagnostic_mapping :: "nat \<Rightarrow> string \<Rightarrow> int \<Rightarrow> int \<Rightarrow> source_manager \<Rightarrow> source_manager" where
  "set_diagnostic_mapping fid path line_delta byte_delta files =
     (if fid = 0 \<or> fid > length files then files
      else files[fid - 1 := (files ! (fid - 1))\<lparr>src_diagnostic_path := path, src_line_delta := line_delta,
             src_byte_delta := byte_delta\<rparr>])"

definition display_byte_offset :: "source_manager \<Rightarrow> source_location \<Rightarrow> nat" where
  "display_byte_offset files l =
     (case get_file files (loc_file l) of
        None \<Rightarrow> loc_offset l
      | Some f \<Rightarrow> clamp_u32 0 (int (loc_offset l) + src_byte_delta f))"

definition display_name :: "source_manager \<Rightarrow> nat \<Rightarrow> string" where
  "display_name files fid =
     (case get_file files fid of
        None \<Rightarrow> ''<unknown>''
      | Some f \<Rightarrow> if src_diagnostic_path f = [] then src_path f else src_diagnostic_path f)"

section \<open>Diagnostics\<close>

datatype raz_severity = Raz_note | Raz_warning | Raz_error | Raz_fatal
datatype raz_level = Level_allow | Level_warn | Level_deny

record diagnostic_label =
  dlb_range :: raz_range
  dlb_message :: string
  dlb_primary :: bool

record diagnostic_fix =
  dfx_range :: raz_range
  dfx_replacement :: string
  dfx_message :: string

record raz_diagnostic =
  rd_severity :: raz_severity
  rd_code :: string
  rd_message :: string
  rd_labels :: "diagnostic_label list"
  rd_notes :: "string list"
  rd_help :: "string list"
  rd_fixes :: "diagnostic_fix list"

record diagnostic_policy =
  dp_deny_warnings :: bool
  dp_overrides :: "(string \<times> raz_level) list"

record diagnostic_engine =
  de_diagnostics :: "raz_diagnostic list"
  de_error_count :: nat
  de_policy :: diagnostic_policy

definition code_in_category :: "char \<Rightarrow> string \<Rightarrow> bool" where
  "code_in_category digit code \<longleftrightarrow> length code \<ge> 2 \<and> code ! 0 = CHR ''D'' \<and> code ! 1 = digit"

definition diagnostic_pattern_matches :: "string \<Rightarrow> string \<Rightarrow> bool" where
  "diagnostic_pattern_matches pattern code =
     (if pattern = ''warnings'' \<or> pattern = ''all'' then True
      else if pattern = ''lexer'' then code_in_category (CHR ''0'') code
      else if pattern = ''parser'' then code_in_category (CHR ''1'') code
      else if pattern = ''semantic'' then code_in_category (CHR ''2'') code
      else if pattern = ''lowering'' then code_in_category (CHR ''3'') code
      else if pattern = ''backend'' then code_in_category (CHR ''4'') code
      else pattern = code)"

definition policy_level :: "diagnostic_policy \<Rightarrow> string \<Rightarrow> raz_level" where
  "policy_level policy code =
     foldl (\<lambda>level (pattern, l). if diagnostic_pattern_matches pattern code then l else level)
       (if dp_deny_warnings policy then Level_deny else Level_warn) (dp_overrides policy)"

definition record_diagnostic :: "raz_diagnostic \<Rightarrow> diagnostic_engine \<Rightarrow> diagnostic_engine" where
  "record_diagnostic d de =
     de\<lparr>de_diagnostics := de_diagnostics de @ [d],
        de_error_count := de_error_count de + (if rd_severity d = Raz_error \<or> rd_severity d = Raz_fatal then 1 else 0)\<rparr>"

definition report_diagnostic :: "raz_diagnostic \<Rightarrow> diagnostic_engine \<Rightarrow> diagnostic_engine" where
  "report_diagnostic d de =
     (if rd_severity d = Raz_warning then
        (case policy_level (de_policy de) (rd_code d) of
           Level_allow \<Rightarrow> de
         | Level_deny \<Rightarrow> record_diagnostic (d\<lparr>rd_severity := Raz_error\<rparr>) de
         | Level_warn \<Rightarrow> record_diagnostic d de)
      else record_diagnostic d de)"

definition plain_diagnostic :: "raz_severity \<Rightarrow> string \<Rightarrow> raz_range \<Rightarrow> string \<Rightarrow> raz_diagnostic" where
  "plain_diagnostic sev code r message =
     \<lparr>rd_severity = sev, rd_code = code, rd_message = message,
      rd_labels = [\<lparr>dlb_range = r, dlb_message = [], dlb_primary = True\<rparr>], rd_notes = [], rd_help = [], rd_fixes = []\<rparr>"

definition engine_error :: "string \<Rightarrow> raz_range \<Rightarrow> string \<Rightarrow> diagnostic_engine \<Rightarrow> diagnostic_engine" where
  "engine_error code r message de = report_diagnostic (plain_diagnostic Raz_error code r message) de"

definition engine_warning :: "string \<Rightarrow> raz_range \<Rightarrow> string \<Rightarrow> diagnostic_engine \<Rightarrow> diagnostic_engine" where
  "engine_warning code r message de = report_diagnostic (plain_diagnostic Raz_warning code r message) de"

definition has_errors :: "diagnostic_engine \<Rightarrow> bool" where
  "has_errors de \<longleftrightarrow> de_error_count de \<noteq> 0"

definition set_policy :: "diagnostic_policy \<Rightarrow> diagnostic_engine \<Rightarrow> diagnostic_engine" where
  "set_policy policy de = de\<lparr>de_policy := policy\<rparr>"

definition clear_diagnostics :: "diagnostic_engine \<Rightarrow> diagnostic_engine" where
  "clear_diagnostics de = de\<lparr>de_diagnostics := [], de_error_count := 0\<rparr>"

end
