(* ===== verification/Raz_Render.thy ===== *)
theory Raz_Render
  imports Raz_Source
begin

text \<open>
  What the compiler prints about diagnostics: the rest of \<open>bootstrap/compiler/diagnostics/diagnostic_engine.cpp\<close>,
  the human and short renderings, the JSON report, and the language-server messages. Streams are the
  strings written to them; whether the terminal takes colour is the parameter \<open>color\<close>
  (\<open>terminal::color_enabled\<close> asks the environment and the host).
\<close>

section \<open>Pieces\<close>

definition severity_name :: "raz_severity \<Rightarrow> string" where
  "severity_name s = (case s of Raz_note \<Rightarrow> ''note'' | Raz_warning \<Rightarrow> ''warning'' | Raz_error \<Rightarrow> ''error''
     | Raz_fatal \<Rightarrow> ''fatal error'')"

definition diagnostic_category :: "string \<Rightarrow> string" where
  "diagnostic_category code =
     (if length code < 2 \<or> code ! 0 \<noteq> CHR ''D'' then ''other''
      else if code ! 1 = CHR ''0'' then ''lexer''
      else if code ! 1 = CHR ''1'' then ''parser''
      else if code ! 1 = CHR ''2'' then ''semantic''
      else if code ! 1 = CHR ''3'' then ''lowering''
      else if code ! 1 = CHR ''4'' then ''backend''
      else ''other'')"

definition lsp_severity :: "raz_severity \<Rightarrow> nat" where
  "lsp_severity s = (case s of Raz_error \<Rightarrow> 1 | Raz_fatal \<Rightarrow> 1 | Raz_warning \<Rightarrow> 2 | Raz_note \<Rightarrow> 3)"

abbreviation quote_char :: char where
  "quote_char \<equiv> CHR 0x22"

abbreviation backslash :: char where
  "backslash \<equiv> CHR 0x5C"

text \<open>\<open>std::hex << std::setw(4) << std::setfill('0')\<close> of a byte below 32.\<close>

definition hex_digit :: "nat \<Rightarrow> char" where
  "hex_digit d = (if d < 10 then char_of (48 + d) else char_of (87 + d))"

definition escape_char :: "char \<Rightarrow> string" where
  "escape_char c =
     (if c = quote_char then [backslash, quote_char]
      else if c = backslash then [backslash, backslash]
      else if c = CHR 0x08 then [backslash, CHR ''b'']
      else if c = CHR 0x0C then [backslash, CHR ''f'']
      else if c = CHR 0x0A then [backslash, CHR ''n'']
      else if c = CHR 0x0D then [backslash, CHR ''r'']
      else if c = CHR 0x09 then [backslash, CHR ''t'']
      else if of_char c < (0x20 :: nat)
      then [backslash, CHR ''u'', CHR ''0'', CHR ''0'', hex_digit (of_char c div 16), hex_digit (of_char c mod 16)]
      else [c])"

definition json_escape :: "string \<Rightarrow> string" where
  "json_escape s = concat (map escape_char s)"

definition no_range :: raz_range where
  "no_range = \<lparr>rg_begin = \<lparr>loc_file = 0, loc_offset = 0\<rparr>, rg_end = \<lparr>loc_file = 0, loc_offset = 0\<rparr>\<rparr>"

definition primary_range :: "raz_diagnostic \<Rightarrow> raz_range" where
  "primary_range d =
     (case find (\<lambda>l. dlb_primary l \<and> rg_valid (dlb_range l)) (rd_labels d) of
        Some l \<Rightarrow> dlb_range l
      | None \<Rightarrow> (case find (\<lambda>l. rg_valid (dlb_range l)) (rd_labels d) of
                  Some l \<Rightarrow> dlb_range l | None \<Rightarrow> no_range))"

definition effective_help :: "raz_diagnostic \<Rightarrow> string list" where
  "effective_help d =
     (if rd_help d \<noteq> [] then rd_help d
      else if rd_code d = ''D2008''
      then [''check the spelling, import the symbol, or qualify it with its namespace'']
      else if rd_code d = ''D2053'' \<or> rd_code d = ''D2054''
      then [''use the value before moving it, clone it when appropriate, or restructure ownership so the move happens later'']
      else if rd_code d = ''D2055'' \<or> rd_code d = ''D2056'' \<or> rd_code d = ''D2057''
      then [''shorten the active borrow or avoid overlapping mutable and shared access'']
      else if rd_code d = ''D3001''
      then [''return a value on every control-flow path or change the function return type'']
      else if rd_code d = ''D1001''
      then [''check the token immediately before the highlighted location; it often determines what the parser expected here'']
      else if rd_code d = ''D2210''
      then [''rename one declaration or place it in a different namespace'']
      else if rd_code d = ''D2211''
      then [''use an explicit import alias or a fully qualified path to disambiguate this symbol'']
      else [])"

section \<open>JSON\<close>

text \<open>A quoted literal, a json_member name with its colon, and items separated by commas.\<close>

definition quoted :: "string \<Rightarrow> string" where
  "quoted s = quote_char # s @ [quote_char]"

definition json_member :: "string \<Rightarrow> string" where
  "json_member name = quoted name @ '':''"

fun commas :: "string list \<Rightarrow> string" where
  "commas [] = []"
| "commas [x] = x"
| "commas (x # y # xs) = x @ '','' @ commas (y # xs)"

definition json_position :: "source_manager \<Rightarrow> source_location \<Rightarrow> string" where
  "json_position files l =
     (let lsp = display_lsp_position files l
      in ''{'' @ json_member ''line'' @ to_string_nat (lsp_line lsp) @ '','' @ json_member ''character'' @
         to_string_nat (lsp_character lsp) @ '','' @ json_member ''byte_offset'' @
         to_string_nat (display_byte_offset files l) @ ''}'')"

definition json_range :: "source_manager \<Rightarrow> raz_range \<Rightarrow> string" where
  "json_range files r =
     ''{'' @ json_member ''start'' @ json_position files (rg_begin r) @ '','' @ json_member ''end'' @
     json_position files (rg_end r) @ ''}''"

definition json_label :: "source_manager \<Rightarrow> diagnostic_label \<Rightarrow> string" where
  "json_label files l =
     ''{'' @ json_member ''primary'' @ (if dlb_primary l then ''true'' else ''false'') @ '','' @
     json_member ''message'' @ quoted (json_escape (dlb_message l)) @ '','' @
     json_member ''range'' @ json_range files (dlb_range l) @ ''}''"

definition json_fix :: "source_manager \<Rightarrow> diagnostic_fix \<Rightarrow> string" where
  "json_fix files f =
     ''{'' @ json_member ''message'' @ quoted (json_escape (dfx_message f)) @ '','' @
     json_member ''replacement'' @ quoted (json_escape (dfx_replacement f)) @ '','' @
     json_member ''range'' @ json_range files (dfx_range f) @ ''}''"

definition json_diagnostic :: "source_manager \<Rightarrow> raz_diagnostic \<Rightarrow> string" where
  "json_diagnostic files d =
     (let primary = primary_range d
      in ''{'' @ json_member ''severity'' @ quoted (severity_name (rd_severity d)) @ '','' @
         json_member ''code'' @ quoted (json_escape (rd_code d)) @ '','' @
         json_member ''category'' @ quoted (diagnostic_category (rd_code d)) @ '','' @
         json_member ''message'' @ quoted (json_escape (rd_message d)) @ '','' @
         json_member ''file'' @ quoted (json_escape (display_name files (loc_file (rg_begin primary)))) @ '','' @
         json_member ''range'' @ json_range files primary @ '','' @
         json_member ''labels'' @ ''['' @ commas (map (json_label files) (rd_labels d)) @ ''],'' @
         json_member ''notes'' @ ''['' @ commas (map (\<lambda>n. quoted (json_escape n)) (rd_notes d)) @ ''],'' @
         json_member ''help'' @ ''['' @ commas (map (\<lambda>h. quoted (json_escape h)) (effective_help d)) @ ''],'' @
         json_member ''fixes'' @ ''['' @ commas (map (json_fix files) (rd_fixes d)) @ '']}'')"

definition engine_json :: "diagnostic_engine \<Rightarrow> source_manager \<Rightarrow> string" where
  "engine_json de files =
     ''{'' @ json_member ''schema'' @ quoted ''raz-diagnostics-v1'' @ '','' @
     json_member ''error_count'' @ to_string_nat (de_error_count de) @ '','' @
     json_member ''diagnostics'' @ ''['' @ commas (map (json_diagnostic files) (de_diagnostics de)) @ '']}''"

section \<open>Language server messages\<close>

definition lsp_point :: "lsp_position \<Rightarrow> string" where
  "lsp_point p =
     ''{'' @ json_member ''line'' @ to_string_nat (lsp_line p) @ '','' @ json_member ''character'' @
     to_string_nat (lsp_character p) @ ''}''"

definition lsp_span :: "source_manager \<Rightarrow> raz_range \<Rightarrow> string" where
  "lsp_span files r =
     ''{'' @ json_member ''start'' @ lsp_point (lsp_position_of files (rg_begin r)) @ '','' @
     json_member ''end'' @ lsp_point (lsp_position_of files (rg_end r)) @ ''}''"

definition is_related :: "diagnostic_label \<Rightarrow> bool" where
  "is_related l \<longleftrightarrow> \<not> dlb_primary l \<and> rg_valid (dlb_range l) \<and> dlb_message l \<noteq> []"

definition lsp_related :: "string \<Rightarrow> source_manager \<Rightarrow> diagnostic_label \<Rightarrow> string" where
  "lsp_related uri files l =
     ''{'' @ json_member ''location'' @ ''{'' @ json_member ''uri'' @ quoted (json_escape uri) @ '','' @
     json_member ''range'' @ lsp_span files (dlb_range l) @ ''},'' @
     json_member ''message'' @ quoted (json_escape (dlb_message l)) @ ''}''"

text \<open>\<open>if (!detail.empty()) detail += "\n"; detail += ...\<close>\<close>

definition detail_line :: "string \<Rightarrow> string \<Rightarrow> string \<Rightarrow> string" where
  "detail_line label detail item = (if detail \<noteq> [] then detail @ [CHR 0x0A] else detail) @ label @ item"

definition lsp_detail :: "raz_diagnostic \<Rightarrow> string" where
  "lsp_detail d =
     foldl (detail_line ''help: '') (foldl (detail_line ''note: '') [] (rd_notes d)) (effective_help d)"

definition fix_title :: "diagnostic_fix \<Rightarrow> string" where
  "fix_title f = (if dfx_message f = [] then ''Apply Raz fix'' else dfx_message f)"

definition lsp_fix :: "source_manager \<Rightarrow> diagnostic_fix \<Rightarrow> string" where
  "lsp_fix files f =
     ''{'' @ json_member ''title'' @ quoted (json_escape (fix_title f)) @ '','' @
     json_member ''replacement'' @ quoted (json_escape (dfx_replacement f)) @ '','' @
     json_member ''range'' @ lsp_span files (dfx_range f) @ ''}''"

definition lsp_diagnostic :: "string \<Rightarrow> source_manager \<Rightarrow> raz_diagnostic \<Rightarrow> string" where
  "lsp_diagnostic uri files d =
     ''{'' @ json_member ''range'' @ lsp_span files (primary_range d) @ '','' @
     json_member ''severity'' @ to_string_nat (lsp_severity (rd_severity d)) @ '','' @
     json_member ''source'' @ quoted ''raz'' @ '','' @
     json_member ''code'' @ quoted (json_escape (rd_code d)) @ '','' @
     json_member ''message'' @ quoted (json_escape (rd_message d)) @
     (if rd_code d = ''D2052'' then '','' @ json_member ''tags'' @ ''[1]'' else []) @
     (if list_ex is_related (rd_labels d)
      then '','' @ json_member ''relatedInformation'' @ ''['' @
           commas (map (lsp_related uri files) (filter is_related (rd_labels d))) @ '']''
      else []) @
     (if effective_help d \<noteq> [] \<or> rd_notes d \<noteq> []
      then '','' @ json_member ''data'' @ ''{'' @ json_member ''category'' @ quoted (diagnostic_category (rd_code d)) @ '','' @
           json_member ''detail'' @ quoted (json_escape (lsp_detail d)) @ '','' @
           json_member ''fixes'' @ ''['' @ commas (map (lsp_fix files) (rd_fixes d)) @ '']}''
      else []) @ ''}''"

definition lsp_json :: "string \<Rightarrow> diagnostic_engine \<Rightarrow> source_manager \<Rightarrow> string" where
  "lsp_json uri de files =
     ''{'' @ json_member ''jsonrpc'' @ quoted ''2.0'' @ '','' @
     json_member ''method'' @ quoted ''textDocument/publishDiagnostics'' @ '','' @
     json_member ''params'' @ ''{'' @ json_member ''uri'' @ quoted (json_escape uri) @ '','' @
     json_member ''diagnostics'' @ ''['' @ commas (map (lsp_diagnostic uri files) (de_diagnostics de)) @ '']}}''"

definition lsp_code_action :: "string \<Rightarrow> source_manager \<Rightarrow> raz_diagnostic \<Rightarrow> diagnostic_fix \<Rightarrow> string" where
  "lsp_code_action uri files d f =
     (let span = lsp_span files (dfx_range f)
      in ''{'' @ json_member ''title'' @ quoted (json_escape (fix_title f)) @ '','' @
         json_member ''kind'' @ quoted ''quickfix'' @ '','' @ json_member ''isPreferred'' @ ''true,'' @
         json_member ''diagnostics'' @ ''[{'' @ json_member ''code'' @ quoted (json_escape (rd_code d)) @ '','' @
         json_member ''message'' @ quoted (json_escape (rd_message d)) @ '','' @ json_member ''range'' @ span @ ''}],'' @
         json_member ''edit'' @ ''{'' @ json_member ''changes'' @ ''{'' @ quoted (json_escape uri) @ '':'' @
         ''[{'' @ json_member ''range'' @ span @ '','' @ json_member ''newText'' @
         quoted (json_escape (dfx_replacement f)) @ ''}]}}}'')"

definition lsp_code_actions_json :: "string \<Rightarrow> diagnostic_engine \<Rightarrow> source_manager \<Rightarrow> string" where
  "lsp_code_actions_json uri de files =
     ''['' @
     commas (concat (map (\<lambda>d. map (lsp_code_action uri files d) (filter (\<lambda>f. rg_valid (dfx_range f)) (rd_fixes d)))
       (de_diagnostics de))) @ '']''"

section \<open>Human and short renderings\<close>

datatype diagnostic_format = Format_human | Format_short | Format_json

definition ansi :: "bool \<Rightarrow> string \<Rightarrow> string" where
  "ansi color code = (if color then CHR 0x1B # ''['' @ code @ ''m'' else [])"

definition severity_color :: "raz_severity \<Rightarrow> string" where
  "severity_color s = (case s of Raz_note \<Rightarrow> ''36'' | Raz_warning \<Rightarrow> ''33'' | Raz_error \<Rightarrow> ''31'' | Raz_fatal \<Rightarrow> ''31'')"

definition human_line :: "bool \<Rightarrow> string \<Rightarrow> string \<Rightarrow> string \<Rightarrow> string" where
  "human_line color codes label item = codes @ label @ ansi color ''0'' @ item @ [CHR 0x0A]"

definition code_tag :: "raz_diagnostic \<Rightarrow> string" where
  "code_tag d = (if rd_code d \<noteq> [] then ''['' @ rd_code d @ '']'' else [])"

definition human_header :: "bool \<Rightarrow> raz_diagnostic \<Rightarrow> string" where
  "human_header color d =
     ansi color ''1'' @ ansi color (severity_color (rd_severity d)) @ severity_name (rd_severity d) @ code_tag d @
     '': '' @ ansi color ''0'' @ ansi color ''1'' @ rd_message d @ ansi color ''0'' @ [CHR 0x0A]"

definition secondary_label :: "bool \<Rightarrow> source_manager \<Rightarrow> nat \<Rightarrow> diagnostic_label \<Rightarrow> string" where
  "secondary_label color files line_digits l =
     (if dlb_primary l \<or> \<not> rg_valid (dlb_range l) \<or> dlb_message l = [] then []
      else let secondary = display_line_column files (rg_begin (dlb_range l))
           in ansi color ''36'' @ replicate (line_digits + 1) (CHR '' '') @ '' = note: '' @ ansi color ''0'' @
              dlb_message l @ '' ('' @ display_name files (loc_file (rg_begin (dlb_range l))) @ '':'' @
              to_string_nat (lc_line secondary) @ '':'' @ to_string_nat (lc_column secondary) @ '')'' @ [CHR 0x0A])"

definition marker_length :: "nat \<Rightarrow> nat \<Rightarrow> nat \<Rightarrow> nat" where
  "marker_length column line_size primary_size =
     (let line_remaining = (if column \<le> line_size + 1 then line_size + 1 - column else 1)
      in max 1 (min primary_size line_remaining))"

definition human_snippet :: "bool \<Rightarrow> source_manager \<Rightarrow> raz_diagnostic \<Rightarrow> source_file \<Rightarrow> string" where
  "human_snippet color files d f =
     (let primary = primary_range d;
          physical = line_column_of files (rg_begin primary);
          location = display_line_column files (rg_begin primary);
          line = takeWhile (\<lambda>c. c \<noteq> CHR 0x0A) (drop (src_line_starts f ! (lc_line physical - 1)) (src_text f));
          line_digits = length (to_string_nat (lc_line location));
          pad = replicate (line_digits + 1) (CHR '' '')
      in ansi color ''34'' @ ansi color ''1'' @ ''  --> '' @ ansi color ''0'' @
         display_name files (loc_file (rg_begin primary)) @ '':'' @ to_string_nat (lc_line location) @ '':'' @
         to_string_nat (lc_column location) @ [CHR 0x0A] @
         ansi color ''34'' @ pad @ '' |'' @ [CHR 0x0A] @
         '' '' @ to_string_nat (lc_line location) @ '' | '' @ ansi color ''0'' @ line @ [CHR 0x0A] @
         ansi color ''34'' @ pad @ '' | '' @ ansi color (severity_color (rd_severity d)) @ ansi color ''1'' @
         replicate (lc_column location - 1) (CHR '' '') @ ''^'' @
         replicate (marker_length (lc_column location) (length line) (rg_size primary) - 1) (CHR ''~'') @
         concat (map (\<lambda>l. if dlb_primary l \<and> dlb_message l \<noteq> [] then '' '' @ dlb_message l else []) (rd_labels d)) @
         ansi color ''0'' @ [CHR 0x0A] @
         concat (map (secondary_label color files line_digits) (rd_labels d)))"

definition human_fix :: "bool \<Rightarrow> diagnostic_fix \<Rightarrow> string" where
  "human_fix color f =
     human_line color (ansi color ''32'' @ ansi color ''1'') ''  = fix: ''
       ((if dfx_message f \<noteq> [] then dfx_message f @ '': '' else []) @ ''replace with `'' @ dfx_replacement f @ ''`'')"

definition human_diagnostic :: "bool \<Rightarrow> source_manager \<Rightarrow> raz_diagnostic \<Rightarrow> string" where
  "human_diagnostic color files d =
     human_header color d @
     (case get_file files (loc_file (rg_begin (primary_range d))) of
        None \<Rightarrow> []
      | Some f \<Rightarrow> if rg_valid (primary_range d) then human_snippet color files d f else []) @
     concat (map (human_line color (ansi color ''36'') ''  = note: '') (rd_notes d)) @
     concat (map (human_line color (ansi color ''36'' @ ansi color ''1'') ''  = help: '') (effective_help d)) @
     concat (map (human_fix color) (rd_fixes d))"

text \<open>A blank line separates diagnostics.\<close>

fun render_human :: "bool \<Rightarrow> source_manager \<Rightarrow> raz_diagnostic list \<Rightarrow> string" where
  "render_human color files [] = []"
| "render_human color files [d] = human_diagnostic color files d"
| "render_human color files (d # e # ds) = human_diagnostic color files d @ [CHR 0x0A] @ render_human color files (e # ds)"

definition short_diagnostic :: "source_manager \<Rightarrow> raz_diagnostic \<Rightarrow> string" where
  "short_diagnostic files d =
     (let r = primary_range d; location = display_line_column files (rg_begin r)
      in display_name files (loc_file (rg_begin r)) @ '':'' @ to_string_nat (lc_line location) @ '':'' @
         to_string_nat (lc_column location) @ '': '' @ severity_name (rd_severity d) @ code_tag d @ '': '' @
         rd_message d @ [CHR 0x0A])"

definition render :: "bool \<Rightarrow> diagnostic_format \<Rightarrow> diagnostic_engine \<Rightarrow> source_manager \<Rightarrow> string" where
  "render color fmt de files =
     (case fmt of
        Format_json \<Rightarrow> engine_json de files @ [CHR 0x0A]
      | Format_short \<Rightarrow> concat (map (short_diagnostic files) (de_diagnostics de))
      | Format_human \<Rightarrow> render_human color files (de_diagnostics de))"

end
