(* ===== verification/Raz_Source_Props.thy ===== *)
theory Raz_Source_Props
  imports Raz_Source
begin

text \<open>
  Positions the compiler and the language server report: line and column are the newline count and the
  distance to the last newline, and LSP characters count UTF-16 code units of valid UTF-8 text.
\<close>

unbundle bit_operations_syntax

section \<open>Lines and columns\<close>

abbreviation nl :: char where
  "nl \<equiv> CHR ''\<newline>''"

definition newlines :: "string \<Rightarrow> nat" where
  "newlines s = length (filter (\<lambda>c. c = nl) s)"

definition since_newline :: "string \<Rightarrow> nat" where
  "since_newline s = length (takeWhile (\<lambda>c. c \<noteq> nl) (rev s))"

lemma newline_ends_append: "newline_ends i (xs @ ys) = newline_ends i xs @ newline_ends (i + length xs) ys"
  by (induction xs arbitrary: i) simp_all

lemma newline_ends_bounds: "e \<in> set (newline_ends i s) \<Longrightarrow> i < e \<and> e \<le> i + length s"
  by (induction s arbitrary: i) (fastforce split: if_splits)+

lemma length_newline_ends: "length (newline_ends i s) = newlines s"
  by (induction s arbitrary: i) (simp_all add: newlines_def)

lemma last_newline_ends: "last (0 # newline_ends 0 s) = length s - since_newline s"
proof (induction s rule: rev_induct)
  case (snoc c s)
  have "since_newline s \<le> length s"
    unfolding since_newline_def using length_takeWhile_le [of "\<lambda>c. c \<noteq> nl" "rev s"] by simp
  then show ?case using snoc by (simp add: newline_ends_append since_newline_def split: if_splits)
qed (simp add: since_newline_def)

lemma takeWhile_newline_ends:
  assumes "off \<le> length s"
  shows "takeWhile (\<lambda>x. x \<le> off) (newline_ends 0 s) = newline_ends 0 (take off s)"
proof -
  have s: "newline_ends 0 s = newline_ends 0 (take off s) @ newline_ends off (drop off s)"
    using newline_ends_append [of 0 "take off s" "drop off s"] assms by simp
  have all: "\<forall>x \<in> set (newline_ends 0 (take off s)). x \<le> off"
    using newline_ends_bounds [of _ 0 "take off s"] assms by fastforce
  have none: "\<forall>x \<in> set (newline_ends off (drop off s)). \<not> x \<le> off"
    using newline_ends_bounds [of _ off "drop off s"] by fastforce
  have "takeWhile (\<lambda>x. x \<le> off) (newline_ends off (drop off s)) = []"
    using none by (cases "newline_ends off (drop off s)") auto
  then show ?thesis unfolding s using all by (simp add: takeWhile_append2)
qed

text \<open>A file of the manager carries the line table of its text.\<close>

definition file_ok :: "source_file \<Rightarrow> bool" where
  "file_ok f \<longleftrightarrow> src_line_starts f = compute_line_starts (src_text f)"

lemma line_index_correct:
  assumes "file_ok f" and "off \<le> length (src_text f)"
  shows "line_index f off = newlines (take off (src_text f))"
    and "src_line_starts f ! line_index f off = off - since_newline (take off (src_text f))"
proof -
  let ?p = "take off (src_text f)"
  have ub: "takeWhile (\<lambda>x. x \<le> off) (src_line_starts f) = 0 # newline_ends 0 ?p"
    using assms by (simp add: file_ok_def compute_line_starts_def takeWhile_newline_ends)
  then show i: "line_index f off = newlines ?p"
    by (simp add: line_index_def upper_bound_def length_newline_ends)
  have "src_line_starts f ! newlines ?p = takeWhile (\<lambda>x. x \<le> off) (src_line_starts f) ! newlines ?p"
    using ub by (intro takeWhile_nth [symmetric]) (simp add: length_newline_ends)
  also have "\<dots> = last (0 # newline_ends 0 ?p)"
    unfolding ub by (subst last_conv_nth) (simp_all add: length_newline_ends)
  finally show "src_line_starts f ! line_index f off = off - since_newline ?p"
    using i assms(2) by (simp only: last_newline_ends) (simp add: min_def)
qed

text \<open>
  C26. Line and column: the line reported for an offset is one more than the newlines before it, the
  column one more than the bytes since the last of them, and the two determine the offset. Every file
  the manager creates carries the line table this needs.
\<close>

theorem line_column_correct:
  assumes "get_file files fid = Some f" and "file_ok f" and "off \<le> length (src_text f)"
    and "length (src_text f) < 2 ^ 32 - 1"
  shows "line_column_of files \<lparr>loc_file = fid, loc_offset = off\<rparr> =
      \<lparr>lc_line = newlines (take off (src_text f)) + 1, lc_column = since_newline (take off (src_text f)) + 1\<rparr> \<and>
    src_line_starts f ! newlines (take off (src_text f)) + since_newline (take off (src_text f)) = off"
proof -
  let ?p = "take off (src_text f)"
  have le: "since_newline ?p \<le> off" "newlines ?p \<le> off"
    using length_takeWhile_le [of "\<lambda>c. c \<noteq> nl" "rev ?p"] length_filter_le [of "\<lambda>c. c = nl" ?p] assms(3)
    by (simp_all add: since_newline_def newlines_def)
  then show ?thesis
    using assms line_index_correct [OF assms(2,3)]
    by (simp add: line_column_of_def Let_def wrap32_def)
qed

lemma add_virtual_file_ok:
  "list_all file_ok files \<Longrightarrow> list_all file_ok (snd (add_virtual_file path txt files))"
  by (simp add: add_virtual_file_def Let_def file_ok_def)

section \<open>UTF-16 positions\<close>

text \<open>The UTF-8 encoding of a Unicode scalar value, and the UTF-16 code units it takes.\<close>

definition utf8_encode :: "nat \<Rightarrow> nat list" where
  "utf8_encode cp =
     (if cp < 0x80 then [cp]
      else if cp < 0x800 then [0xC0 + cp div 64, 0x80 + cp mod 64]
      else if cp < 0x10000 then [0xE0 + cp div 4096, 0x80 + cp div 64 mod 64, 0x80 + cp mod 64]
      else [0xF0 + cp div 262144, 0x80 + cp div 4096 mod 64, 0x80 + cp div 64 mod 64, 0x80 + cp mod 64])"

definition utf8_text :: "nat list \<Rightarrow> string" where
  "utf8_text cps = concat (map (\<lambda>cp. map char_of (utf8_encode cp)) cps)"

definition utf16_units :: "nat \<Rightarrow> nat" where
  "utf16_units cp = (if cp > 0xFFFF then 2 else 1)"

text \<open>Masks of high bits as arithmetic: what the lead and continuation byte tests compute.\<close>

lemma and_high_mask: "(x :: nat) AND push_bit n (mask m) = 2 ^ n * (x div 2 ^ n mod 2 ^ m)"
proof -
  have "x AND push_bit n (mask m) = push_bit n (drop_bit n x AND mask m)"
    by (rule bit_eqI) (auto simp: bit_simps)
  then show ?thesis
    by (simp add: push_bit_eq_mult drop_bit_eq_div flip: take_bit_eq_mod take_bit_eq_mask)
qed

lemma lead_masks:
  "(x :: nat) AND 0xE0 = 32 * (x div 32 mod 8)" "x AND 0xF0 = 16 * (x div 16 mod 16)"
  "x AND 0xF8 = 8 * (x div 8 mod 32)" "x AND 0x3F = x mod 64" "x AND 0x1F = x mod 32"
  "x AND 0x0F = x mod 16" "x AND 0x07 = x mod 8"
proof -
  have m: "push_bit 5 (mask 3) = (0xE0 :: nat)" "push_bit 4 (mask 4) = (0xF0 :: nat)"
    "push_bit 3 (mask 5) = (0xF8 :: nat)" "push_bit 0 (mask 6) = (0x3F :: nat)" "push_bit 0 (mask 5) = (0x1F :: nat)"
    "push_bit 0 (mask 4) = (0x0F :: nat)" "push_bit 0 (mask 3) = (0x07 :: nat)"
    by (simp_all add: mask_eq_exp_minus_1 push_bit_eq_mult)
  show "x AND 0xE0 = 32 * (x div 32 mod 8)" using and_high_mask [of x 5 3] unfolding m by simp
  show "x AND 0xF0 = 16 * (x div 16 mod 16)" using and_high_mask [of x 4 4] unfolding m by simp
  show "x AND 0xF8 = 8 * (x div 8 mod 32)" using and_high_mask [of x 3 5] unfolding m by simp
  show "x AND 0x3F = x mod 64" using and_high_mask [of x 0 6] unfolding m by simp
  show "x AND 0x1F = x mod 32" using and_high_mask [of x 0 5] unfolding m by simp
  show "x AND 0x0F = x mod 16" using and_high_mask [of x 0 4] unfolding m by simp
  show "x AND 0x07 = x mod 8" using and_high_mask [of x 0 3] unfolding m by simp
qed

lemma or_shifted: "y < 2 ^ n \<Longrightarrow> push_bit n x OR y = 2 ^ n * x + (y :: nat)"
proof -
  assume "y < 2 ^ n"
  then have "push_bit n x OR take_bit n y = push_bit n x + take_bit n y"
    by (subst disjunctive_add) (auto simp: bit_push_bit_iff bit_take_bit_iff)
  then show ?thesis using \<open>y < 2 ^ n\<close> by (simp add: take_bit_nat_eq_self push_bit_eq_mult mult.commute)
qed

lemma two_bytes: "b < 64 \<Longrightarrow> push_bit 6 a OR b = 64 * a + (b :: nat)"
  using or_shifted [of b 6 a] by simp

lemma three_bytes: "b < 64 \<Longrightarrow> c < 64 \<Longrightarrow> push_bit 12 a OR push_bit 6 b OR c = 4096 * a + 64 * b + (c :: nat)"
  using or_shifted [of "64 * b + c" 12 a] by (simp add: or.assoc two_bytes)

lemma four_bytes:
  "b < 64 \<Longrightarrow> c < 64 \<Longrightarrow> d < 64 \<Longrightarrow>
   push_bit 18 a OR push_bit 12 b OR push_bit 6 c OR d = 262144 * a + 4096 * b + 64 * c + (d :: nat)"
  using or_shifted [of "4096 * b + 64 * c + d" 18 a] by (simp add: or.assoc three_bytes [unfolded or.assoc])

text \<open>Decoding one encoded scalar gives it back and skips exactly its bytes.\<close>

lemma byte_at_char: "i < length bs \<Longrightarrow> \<forall>b \<in> set bs. b < 256 \<Longrightarrow> byte_at (pre @ map char_of bs @ post) (length pre + i) = bs ! i"
  by (simp add: byte_at_def nth_append of_char_of)

lemma utf8_encode_bytes: "cp < 0x110000 \<Longrightarrow> \<forall>b \<in> set (utf8_encode cp). b < 256"
  by (auto simp: utf8_encode_def)

lemma lead_values:
  "b < 64 \<Longrightarrow> (128 + b) mod 64 = (b :: nat)"
  "a < 32 \<Longrightarrow> (192 + a) div 32 = (6 :: nat)" "a < 32 \<Longrightarrow> (192 + a) mod 32 = a"
  "a < 16 \<Longrightarrow> (224 + a) div 32 = 7" "a < 16 \<Longrightarrow> (224 + a) div 16 = 14" "a < 16 \<Longrightarrow> (224 + a) mod 16 = a"
  "a < 8 \<Longrightarrow> (240 + a) div 32 = 7" "a < 8 \<Longrightarrow> (240 + a) div 16 = 15" "a < 8 \<Longrightarrow> (240 + a) div 8 = 30"
  "a < 8 \<Longrightarrow> (240 + a) mod 8 = a"
  using mod_mult_self3 [of 2 64 b] mod_mult_self3 [of 6 32 a] mod_mult_self3 [of 14 16 a] mod_mult_self3 [of 30 8 a]
  by (simp_all add: div_nat_eqI)

lemma utf8_step_cases:
  "byte_at t i < 128 \<Longrightarrow> utf8_step t stop i = (byte_at t i, 1)"
  "byte_at t i = 0xC0 + a \<Longrightarrow> a < 32 \<Longrightarrow> byte_at t (i + 1) = 0x80 + b \<Longrightarrow> b < 64 \<Longrightarrow> i + 1 < stop \<Longrightarrow>
   utf8_step t stop i = (64 * a + b, 2)"
  "byte_at t i = 0xE0 + a \<Longrightarrow> a < 16 \<Longrightarrow> byte_at t (i + 1) = 0x80 + b \<Longrightarrow> b < 64 \<Longrightarrow>
   byte_at t (i + 2) = 0x80 + c \<Longrightarrow> c < 64 \<Longrightarrow> i + 2 < stop \<Longrightarrow>
   utf8_step t stop i = (4096 * a + 64 * b + c, 3)"
  "byte_at t i = 0xF0 + a \<Longrightarrow> a < 8 \<Longrightarrow> byte_at t (i + 1) = 0x80 + b \<Longrightarrow> b < 64 \<Longrightarrow>
   byte_at t (i + 2) = 0x80 + c \<Longrightarrow> c < 64 \<Longrightarrow> byte_at t (i + 3) = 0x80 + d \<Longrightarrow> d < 64 \<Longrightarrow> i + 3 < stop \<Longrightarrow>
   utf8_step t stop i = (262144 * a + 4096 * b + 64 * c + d, 4)"
proof -
  show "byte_at t i < 128 \<Longrightarrow> utf8_step t stop i = (byte_at t i, 1)"
  proof -
    assume small: "byte_at t i < 128"
    then have "byte_at t i div 32 < 4" "byte_at t i div 16 < 8" "byte_at t i div 8 < 16"
      by (simp_all add: less_mult_imp_div_less)
    then have "32 * (byte_at t i div 32 mod 8) \<noteq> 192" "16 * (byte_at t i div 16 mod 16) \<noteq> 224"
      "8 * (byte_at t i div 8 mod 32) \<noteq> 240" by auto
    then show ?thesis by (simp add: utf8_step_def Let_def lead_masks)
  qed
  show "byte_at t i = 0xC0 + a \<Longrightarrow> a < 32 \<Longrightarrow> byte_at t (i + 1) = 0x80 + b \<Longrightarrow> b < 64 \<Longrightarrow> i + 1 < stop \<Longrightarrow>
     utf8_step t stop i = (64 * a + b, 2)"
    by (simp add: utf8_step_def Let_def lead_masks lead_values two_bytes)
  show "byte_at t i = 0xE0 + a \<Longrightarrow> a < 16 \<Longrightarrow> byte_at t (i + 1) = 0x80 + b \<Longrightarrow> b < 64 \<Longrightarrow>
     byte_at t (i + 2) = 0x80 + c \<Longrightarrow> c < 64 \<Longrightarrow> i + 2 < stop \<Longrightarrow> utf8_step t stop i = (4096 * a + 64 * b + c, 3)"
    by (simp add: utf8_step_def Let_def lead_masks lead_values three_bytes)
  show "byte_at t i = 0xF0 + a \<Longrightarrow> a < 8 \<Longrightarrow> byte_at t (i + 1) = 0x80 + b \<Longrightarrow> b < 64 \<Longrightarrow>
     byte_at t (i + 2) = 0x80 + c \<Longrightarrow> c < 64 \<Longrightarrow> byte_at t (i + 3) = 0x80 + d \<Longrightarrow> d < 64 \<Longrightarrow> i + 3 < stop \<Longrightarrow>
     utf8_step t stop i = (262144 * a + 4096 * b + 64 * c + d, 4)"
    by (simp add: utf8_step_def Let_def lead_masks lead_values four_bytes)
qed

lemma utf8_step_encoded:
  assumes "cp < 0x110000" and "length pre + length (utf8_encode cp) \<le> stop"
  shows "utf8_step (pre @ map char_of (utf8_encode cp) @ post) stop (length pre) = (cp, length (utf8_encode cp))"
proof -
  let ?t = "pre @ map char_of (utf8_encode cp) @ post"
  note at = byte_at_char [OF _ utf8_encode_bytes [OF assms(1)], of _ pre post]
  have b0: "byte_at ?t (length pre) = utf8_encode cp ! 0"
    using at [of 0] by (simp add: utf8_encode_def)
  have q: "cp div 64 div 64 = cp div 4096" "cp div 4096 div 64 = cp div 262144"
    using div_mult2_eq [of cp 64 64] div_mult2_eq [of cp 4096 64] by simp_all
  consider "cp < 0x80" | "0x80 \<le> cp" "cp < 0x800" | "0x800 \<le> cp" "cp < 0x10000" | "0x10000 \<le> cp"
    by linarith
  then show ?thesis
  proof cases
    case 1
    then have e: "utf8_encode cp = [cp]" by (simp add: utf8_encode_def)
    show ?thesis using 1 b0 utf8_step_cases(1) [of ?t "length pre" stop] unfolding e by simp
  next
    case 2
    then have e: "utf8_encode cp = [0xC0 + cp div 64, 0x80 + cp mod 64]" by (simp add: utf8_encode_def)
    show ?thesis
      using 2 assms(2) b0 at [of 1] utf8_step_cases(2) [of ?t "length pre" "cp div 64" "cp mod 64" stop]
      unfolding e by (simp add: less_mult_imp_div_less)
  next
    case 3
    then have e: "utf8_encode cp = [0xE0 + cp div 4096, 0x80 + cp div 64 mod 64, 0x80 + cp mod 64]"
      by (simp add: utf8_encode_def)
    have "4096 * (cp div 4096) + 64 * (cp div 64 mod 64) + cp mod 64 = cp"
      using div_mult_mod_eq [of cp 64] div_mult_mod_eq [of "cp div 64" 64] q by linarith
    then show ?thesis
      using 3 assms(2) b0 at [of 1] at [of 2]
        utf8_step_cases(3) [of ?t "length pre" "cp div 4096" "cp div 64 mod 64" "cp mod 64" stop]
      unfolding e by (simp add: less_mult_imp_div_less)
  next
    case 4
    then have e: "utf8_encode cp =
        [0xF0 + cp div 262144, 0x80 + cp div 4096 mod 64, 0x80 + cp div 64 mod 64, 0x80 + cp mod 64]"
      by (simp add: utf8_encode_def)
    have sum: "262144 * (cp div 262144) + 4096 * (cp div 4096 mod 64) + 64 * (cp div 64 mod 64) + cp mod 64 = cp"
      using div_mult_mod_eq [of cp 64] div_mult_mod_eq [of "cp div 64" 64] div_mult_mod_eq [of "cp div 4096" 64]
        q by linarith
    have a: "cp div 262144 < 8" using assms(1) by (simp add: less_mult_imp_div_less)
    have b: "byte_at ?t (length pre) = 0xF0 + cp div 262144" using b0 by (simp add: e)
    have c: "byte_at ?t (length pre + 1) = 0x80 + cp div 4096 mod 64"
      "byte_at ?t (length pre + 2) = 0x80 + cp div 64 mod 64" "byte_at ?t (length pre + 3) = 0x80 + cp mod 64"
      using at [of 1] at [of 2] at [of 3] unfolding e by simp_all
    have l: "length pre + 3 < stop" using assms(2) unfolding e by simp
    have "utf8_step ?t stop (length pre) =
        (262144 * (cp div 262144) + 4096 * (cp div 4096 mod 64) + 64 * (cp div 64 mod 64) + cp mod 64, 4)"
      by (rule utf8_step_cases(4) [OF b a c(1) _ c(2) _ c(3) _ l]) simp_all
    then show ?thesis unfolding sum by (simp add: e)
  qed
qed

text \<open>The decoder walks an encoded line code point by code point.\<close>

lemma utf8_encode_nonempty: "Suc 0 \<le> length (utf8_encode cp)"
  by (simp add: utf8_encode_def)

lemma utf16_units_bound: "sum_list (map utf16_units cps) \<le> 2 * length (utf8_text cps)"
proof (induction cps)
  case (Cons cp cps)
  have "utf16_units cp \<le> 2" by (simp add: utf16_units_def)
  moreover have "length (utf8_text (cp # cps)) = length (utf8_encode cp) + length (utf8_text cps)"
    by (simp add: utf8_text_def)
  moreover have "sum_list (map utf16_units (cp # cps)) = utf16_units cp + sum_list (map utf16_units cps)" by simp
  ultimately show ?case using Cons utf8_encode_nonempty [of cp] by linarith
qed (simp add: utf8_text_def)

lemma utf16_length_encoded:
  assumes "list_all (\<lambda>cp. cp < 0x110000) cps"
  shows "utf16_length (pre @ utf8_text cps @ post) (length pre + length (utf8_text cps)) (length pre) =
    sum_list (map utf16_units cps)"
  using assms
proof (induction cps arbitrary: pre)
  case Nil
  then show ?case by (simp add: utf8_text_def utf16_length.simps)
next
  case (Cons cp cps)
  let ?e = "map char_of (utf8_encode cp) :: string"
  let ?t = "pre @ utf8_text (cp # cps) @ post"
  have t: "utf8_text (cp # cps) = ?e @ utf8_text cps" by (simp add: utf8_text_def)
  have step: "utf8_step ?t (length pre + length (utf8_text (cp # cps))) (length pre) = (cp, length (utf8_encode cp))"
    using Cons.prems utf8_step_encoded [of cp pre "length pre + length (utf8_text (cp # cps))" "utf8_text cps @ post"]
    by (simp add: t)
  have "length pre < length pre + length (utf8_text (cp # cps))"
    using utf8_encode_nonempty [of cp] by (auto simp: t)
  then have "utf16_length ?t (length pre + length (utf8_text (cp # cps))) (length pre) =
      utf16_units cp + utf16_length ?t (length pre + length (utf8_text (cp # cps))) (length pre + length (utf8_encode cp))"
    by (subst utf16_length.simps) (simp add: step utf16_units_def)
  then show ?case using Cons.IH [of "pre @ ?e"] Cons.prems by (simp add: t add.assoc)
qed

lemma utf8_text_no_newline:
  assumes "list_all (\<lambda>cp. cp < 0x110000 \<and> cp \<noteq> 10) cps"
  shows "nl \<notin> set (utf8_text cps)"
proof -
  have "cp < 0x110000 \<and> cp \<noteq> 10 \<Longrightarrow> 10 \<notin> set (utf8_encode cp)" for cp
    by (auto simp: utf8_encode_def)
  moreover have "cp < 0x110000 \<Longrightarrow> b \<in> set (utf8_encode cp) \<Longrightarrow> char_of b = nl \<longleftrightarrow> b = 10" for cp b
    using utf8_encode_bytes [of cp] by (auto simp: char_of_eq_iff take_bit_nat_eq_self)
  ultimately show ?thesis using assms by (fastforce simp: utf8_text_def list_all_iff)
qed

text \<open>
  Language-server positions: on a line that is valid UTF-8, the position after an encoded prefix
  \<open>cps\<close> has the zero-based line number, and its character is the number of UTF-16 code units of
  \<open>cps\<close> (two for a scalar beyond the basic plane), as the protocol demands.
\<close>

lemma lsp_position_utf16:
  assumes "get_file files fid = Some f" and "file_ok f" and "src_text f = before @ utf8_text cps @ rest"
    and "before = [] \<or> last before = nl" and "list_all (\<lambda>cp. cp < 0x110000 \<and> cp \<noteq> 10) cps"
    and "length (src_text f) < 2 ^ 31"
  shows "lsp_position_of files \<lparr>loc_file = fid, loc_offset = length before + length (utf8_text cps)\<rparr> =
    \<lparr>lsp_line = newlines before, lsp_character = sum_list (map utf16_units cps)\<rparr>"
proof -
  let ?off = "length before + length (utf8_text cps)"
  have none: "nl \<notin> set (utf8_text cps)" by (rule utf8_text_no_newline [OF assms(5)])
  have tk: "take ?off (src_text f) = before @ utf8_text cps" using assms(3) by simp
  have n: "newlines (before @ utf8_text cps) = newlines before"
    using none by (auto simp: newlines_def filter_empty_conv)
  have s: "since_newline (before @ utf8_text cps) = length (utf8_text cps)"
  proof (cases before rule: rev_cases)
    case Nil
    have "takeWhile (\<lambda>c. c \<noteq> nl) (rev (utf8_text cps)) = rev (utf8_text cps)"
      using none by (subst takeWhile_eq_all_conv) auto
    then show ?thesis using Nil by (simp only: since_newline_def append_Nil length_rev)
  next
    case (snoc ys y)
    have "takeWhile (\<lambda>c. c \<noteq> nl) (rev (utf8_text cps) @ nl # rev ys) = rev (utf8_text cps)"
      using none by (subst takeWhile_append2) auto
    then show ?thesis using snoc assms(4) by (simp add: since_newline_def)
  qed
  have off: "?off \<le> length (src_text f)" using assms(3) by simp
  have u: "utf16_length (src_text f) ?off (length before) = sum_list (map utf16_units cps)"
    using utf16_length_encoded [of cps before rest] assms(5) unfolding assms(3) by (simp add: list_all_iff)
  have "sum_list (map utf16_units cps) \<le> 2 * length (utf8_text cps)" by (rule utf16_units_bound)
  moreover have "newlines before \<le> length before" by (simp add: newlines_def)
  ultimately have "newlines before < 2 ^ 32" "sum_list (map utf16_units cps) < 2 ^ 32"
    using assms(3,6) by simp_all
  then show ?thesis
    using assms(1) off line_index_correct [OF assms(2) off]
    by (simp add: lsp_position_of_def tk n s u wrap32_def)
qed

section \<open>Sample files\<close>

definition sample_files :: source_manager where
  "sample_files = snd (add_virtual_file ''a.raz'' (''x'' @ [nl] @ utf8_text [0x61, 0xE9, 0x1F600] @ ''b'') [])"

lemma sample_file:
  obtains f where "get_file sample_files 1 = Some f" and "file_ok f"
    and "src_text f = [CHR ''x'', nl] @ utf8_text [0x61, 0xE9, 0x1F600] @ ''b''"
  by (simp add: sample_files_def add_virtual_file_def Let_def get_file_def file_ok_def wrap32_def)

theorem line_column_correct_witness:
  "line_column_of sample_files \<lparr>loc_file = 1, loc_offset = 3\<rparr> = \<lparr>lc_line = 2, lc_column = 2\<rparr>"
proof -
  obtain f where f: "get_file sample_files 1 = Some f" "file_ok f"
    and t: "src_text f = [CHR ''x'', nl] @ utf8_text [0x61, 0xE9, 0x1F600] @ ''b''"
    by (rule sample_file)
  show ?thesis
    using line_column_correct [OF f, of 3] unfolding t
    by (simp add: utf8_text_def utf8_encode_def newlines_def since_newline_def char_of_def)
qed

theorem lsp_position_utf16_witness:
  "lsp_position_of sample_files \<lparr>loc_file = 1, loc_offset = 9\<rparr> = \<lparr>lsp_line = 1, lsp_character = 4\<rparr>"
proof -
  obtain f where f: "get_file sample_files 1 = Some f" "file_ok f"
    and t: "src_text f = [CHR ''x'', nl] @ utf8_text [0x61, 0xE9, 0x1F600] @ ''b''"
    by (rule sample_file)
  have l: "length (utf8_text [0x61, 0xE9, 0x1F600]) = 7" by (simp add: utf8_text_def utf8_encode_def)
  have "newlines [CHR ''x'', nl] = 1" "sum_list (map utf16_units [0x61, 0xE9, 0x1F600]) = 4"
    by (simp_all add: newlines_def utf16_units_def)
  then show ?thesis
    using lsp_position_utf16 [OF f t] l unfolding t by simp
qed

section \<open>The diagnostic policy\<close>

definition is_error :: "raz_diagnostic \<Rightarrow> bool" where
  "is_error d \<longleftrightarrow> rd_severity d = Raz_error \<or> rd_severity d = Raz_fatal"

definition counts_errors :: "diagnostic_engine \<Rightarrow> bool" where
  "counts_errors de \<longleftrightarrow> de_error_count de = length (filter is_error (de_diagnostics de))"

lemma report_keeps [simp]:
  "counts_errors de \<Longrightarrow> counts_errors (report_diagnostic d de)" "de_policy (report_diagnostic d de) = de_policy de"
  by (auto simp: counts_errors_def report_diagnostic_def record_diagnostic_def is_error_def split: raz_level.splits)

text \<open>The last override that matches decides; without one, the default of the policy.\<close>

lemma policy_level_last:
  "policy_level p code =
     (case find (\<lambda>(pat, l). diagnostic_pattern_matches pat code) (rev (dp_overrides p)) of
        Some (pat, l) \<Rightarrow> l | None \<Rightarrow> if dp_deny_warnings p then Level_deny else Level_warn)"
proof -
  have "foldl (\<lambda>level (pattern, l). if diagnostic_pattern_matches pattern code then l else level) start os =
     (case find (\<lambda>(pat, l). diagnostic_pattern_matches pat code) (rev os) of Some (pat, l) \<Rightarrow> l | None \<Rightarrow> start)" for start :: raz_level and os
    by (induction os rule: rev_induct) (auto split: option.splits)
  then show ?thesis by (simp add: policy_level_def)
qed

text \<open>A reported diagnostic fails the compilation: an error, or a warning the policy denies.\<close>

definition fatal_under :: "diagnostic_policy \<Rightarrow> raz_diagnostic \<Rightarrow> bool" where
  "fatal_under p d \<longleftrightarrow> is_error d \<or>
     rd_severity d = Raz_warning \<and>
     (case find (\<lambda>(pat, l). diagnostic_pattern_matches pat (rd_code d)) (rev (dp_overrides p)) of
        Some (pat, l) \<Rightarrow> l = Level_deny | None \<Rightarrow> dp_deny_warnings p)"

lemma has_errors_report: "has_errors (report_diagnostic d de) \<longleftrightarrow> has_errors de \<or> fatal_under (de_policy de) d"
  by (auto simp: has_errors_def report_diagnostic_def record_diagnostic_def fatal_under_def is_error_def
      policy_level_last split: raz_level.splits option.splits if_splits)

text \<open>
  C35. Error accounting under the policy: after any reports on a cleared engine, the error count is the
  number of recorded errors, and compilation fails exactly if an error was reported or a warning whose
  last matching override (or the default) denies it.
\<close>

theorem diagnostic_policy_correct:
  "counts_errors (fold report_diagnostic ds (clear_diagnostics de)) \<and>
   (has_errors (fold report_diagnostic ds (clear_diagnostics de)) \<longleftrightarrow> (\<exists>d \<in> set ds. fatal_under (de_policy de) d))"
proof -
  have "counts_errors e \<Longrightarrow> counts_errors (fold report_diagnostic ds e)" for e
    by (induction ds arbitrary: e) simp_all
  moreover have "has_errors (fold report_diagnostic ds e) \<longleftrightarrow> has_errors e \<or> (\<exists>d \<in> set ds. fatal_under (de_policy e) d)" for e
    by (induction ds arbitrary: e) (auto simp: has_errors_report)
  moreover have "counts_errors (clear_diagnostics de)" "\<not> has_errors (clear_diagnostics de)"
    "de_policy (clear_diagnostics de) = de_policy de"
    by (simp_all add: counts_errors_def clear_diagnostics_def has_errors_def)
  ultimately show ?thesis by simp
qed

end
