(* ===== verification/Raz_Render_Props.thy ===== *)
theory Raz_Render_Props
  imports Raz_Render Raz_Source_Props
begin

text \<open>
  The machine-readable renderings are JSON: string escaping is undone by a reader of JSON strings, every
  document is the serialisation of a value that holds the diagnostics, and a serialisation determines
  its value.
\<close>

section \<open>Strings\<close>

text \<open>
  A reader of JSON string bodies (RFC 8259, section 7) up to the closing quote: raw control characters are refused, a backslash is followed by
  one of the eight single characters or by \<open>u\<close> and four hexadecimal digits, and the code point that these name is decoded to its
  UTF-8 bytes. Halves of surrogate pairs are refused.
\<close>

definition hex_value :: "char \<Rightarrow> nat option" where
  "hex_value c = (let n = of_char c in
     if 48 \<le> n \<and> n \<le> 57 then Some (n - 48) else if 97 \<le> n \<and> n \<le> 102 then Some (n - 87)
     else if 65 \<le> n \<and> n \<le> 70 then Some (n - 55) else None)"

definition code_unit :: "string \<Rightarrow> nat option" where
  "code_unit hs = map_option (foldl (\<lambda>n d. 16 * n + d) 0) (those (map hex_value hs))"

definition simple_escape :: "char \<Rightarrow> char option" where
  "simple_escape e =
     (if e = quote_char \<or> e = backslash \<or> e = CHR ''/'' then Some e
      else if e = CHR ''b'' then Some (CHR 0x08) else if e = CHR ''f'' then Some (CHR 0x0C)
      else if e = CHR ''n'' then Some (CHR 0x0A) else if e = CHR ''r'' then Some (CHR 0x0D)
      else if e = CHR ''t'' then Some (CHR 0x09) else None)"

definition prefix_text :: "string \<Rightarrow> (string \<times> string) option \<Rightarrow> (string \<times> string) option" where
  "prefix_text s = map_option (\<lambda>(t, rest). (s @ t, rest))"

fun read_string :: "string \<Rightarrow> (string \<times> string) option" where
  "read_string [] = None"
| "read_string (c # cs) =
     (if c = quote_char then Some ([], cs)
      else if c = backslash then
        (case cs of
           [] \<Rightarrow> None
         | e # cs' \<Rightarrow>
             if e = CHR ''u'' then
               (case cs' of
                  h1 # h2 # h3 # h4 # rest \<Rightarrow>
                    (case code_unit [h1, h2, h3, h4] of
                       None \<Rightarrow> None
                     | Some n \<Rightarrow> if 0xD800 \<le> n \<and> n < 0xE000 then None else prefix_text (map char_of (utf8_encode n)) (read_string rest))
                | _ \<Rightarrow> None)
             else (case simple_escape e of None \<Rightarrow> None | Some d \<Rightarrow> prefix_text [d] (read_string cs')))
      else if of_char c < (0x20 :: nat) then None
      else prefix_text [c] (read_string cs))"

lemma hex_value_digit: "d < 16 \<Longrightarrow> hex_value (hex_digit d) = Some d"
  by (simp add: hex_value_def hex_digit_def of_char_of Let_def)

lemma read_escaped_char: "read_string (escape_char c @ r) = prefix_text [c] (read_string r)"
proof -
  consider "c \<in> {quote_char, backslash, CHR 0x08, CHR 0x0C, CHR 0x0A, CHR 0x0D, CHR 0x09}"
    | "of_char c < (0x20 :: nat)" "c \<notin> {quote_char, backslash, CHR 0x08, CHR 0x0C, CHR 0x0A, CHR 0x0D, CHR 0x09}"
    | "\<not> of_char c < (0x20 :: nat)" "c \<notin> {quote_char, backslash, CHR 0x08, CHR 0x0C, CHR 0x0A, CHR 0x0D, CHR 0x09}"
    by blast
  then show ?thesis
  proof cases
    case 1
    then show ?thesis by (auto simp: escape_char_def simple_escape_def)
  next
    case 2
    have zero: "hex_value (CHR ''0'') = Some 0" by (simp add: hex_value_def)
    have "code_unit [CHR ''0'', CHR ''0'', hex_digit (of_char c div 16), hex_digit (of_char c mod 16)] = Some (of_char c)"
      using 2(1) by (simp add: code_unit_def hex_value_digit zero)
    then show ?thesis using 2 by (simp add: escape_char_def utf8_encode_def)
  next
    case 3
    then show ?thesis by (simp add: escape_char_def)
  qed
qed

lemma read_string_escaped: "read_string (json_escape s @ quote_char # r) = Some (s, r)"
  by (induction s) (simp_all add: json_escape_def read_escaped_char prefix_text_def del: read_string.simps(2),
      simp add: json_escape_def)

section \<open>Values and their serialisation\<close>

datatype json = J_num nat | J_str string | J_bool bool | J_arr "json list" | J_obj "(string \<times> json) list"

fun print_json :: "json \<Rightarrow> string" where
  "print_json (J_num n) = to_string_nat n"
| "print_json (J_str s) = quoted (json_escape s)"
| "print_json (J_bool b) = (if b then ''true'' else ''false'')"
| "print_json (J_arr vs) = ''['' @ commas (map print_json vs) @ '']''"
| "print_json (J_obj ms) = ''{'' @ commas (map (\<lambda>(k, v). quoted (json_escape k) @ '':'' @ print_json v) ms) @ ''}''"

text \<open>What follows a value inside a document never continues it.\<close>

definition closed_text :: "string \<Rightarrow> bool" where
  "closed_text r \<longleftrightarrow> r = [] \<or> \<not> isdigit (hd r)"

lemma closed_text_simps [simp]: "closed_text []" "closed_text (c # r) \<longleftrightarrow> \<not> isdigit c"
  by (simp_all add: closed_text_def)

lemma not_isdigit_punctuation [simp]:
  "\<not> isdigit CHR '',''" "\<not> isdigit CHR '']''" "\<not> isdigit CHR ''}''" "\<not> isdigit CHR ''[''" "\<not> isdigit CHR ''{''"
  "\<not> isdigit quote_char" "\<not> isdigit CHR ''t''" "\<not> isdigit CHR ''f''"
  by (simp_all add: isdigit_def)

lemma number_prefix_free:
  assumes "to_string_nat n @ r = to_string_nat m @ q" "closed_text r" "closed_text q"
  shows "n = m \<and> r = q"
proof -
  have tw: "takeWhile isdigit (to_string_nat k @ t) = to_string_nat k" if "closed_text t" for k t
    using that to_string_nat_isdigit [of _ k] by (cases t) (simp_all add: takeWhile_append2)
  have "to_string_nat n = to_string_nat m" using tw [OF assms(2), of n] tw [OF assms(3), of m] assms(1) by simp
  then have "digits_value (to_string_nat n) = digits_value (to_string_nat m)" by simp
  then show ?thesis using assms(1) by simp
qed

lemma string_prefix_free: "quoted (json_escape s) @ r = quoted (json_escape t) @ q \<Longrightarrow> s = t \<and> r = q"
proof -
  assume "quoted (json_escape s) @ r = quoted (json_escape t) @ q"
  then have "read_string (json_escape s @ quote_char # r) = read_string (json_escape t @ quote_char # q)"
    by (simp add: quoted_def del: read_string.simps)
  then show ?thesis unfolding read_string_escaped by simp
qed

lemma print_json_head:
  "\<exists>c r. print_json v = c # r \<and> c \<noteq> CHR '']'' \<and> c \<noteq> CHR ''}'' \<and> c \<noteq> CHR '',''"
proof (cases v)
  case (J_num n)
  have "isdigit (hd (to_string_nat n))" by (rule to_string_nat_isdigit [of _ n]) simp
  then show ?thesis using J_num by (cases "to_string_nat n") (auto simp: isdigit_def)
qed (auto simp: quoted_def)

text \<open>Separated items of a prefix-free family, up to the closing bracket.\<close>

lemma commas_Cons: "commas (x # xs) = x @ (if xs = [] then [] else CHR '','' # commas xs)"
  by (cases xs) simp_all

lemma commas_prefix_free:
  assumes pf: "\<And>x y r q. x \<in> set xs \<Longrightarrow> p x @ r = p y @ q \<Longrightarrow> closed_text r \<Longrightarrow> closed_text q \<Longrightarrow> x = y \<and> r = q"
    and head: "\<And>x. \<exists>c r. p x = c # r \<and> c \<noteq> e" and e: "\<not> isdigit e" "e \<noteq> CHR '',''"
    and eq: "commas (map p xs) @ e # r = commas (map p ys) @ e # q"
  shows "xs = ys \<and> r = q"
  using pf eq
proof (induction xs arbitrary: ys)
  case Nil
  then show ?case using head [of "hd ys"] by (cases ys) (auto simp: commas_Cons)
next
  case (Cons x xs)
  show ?case
  proof (cases ys)
    case Nil
    then show ?thesis using Cons.prems(2) head [of x] by (auto simp: commas_Cons)
  next
    case (Cons y ys')
    let ?t = "\<lambda>zs u. (if zs = [] then [] else CHR '','' # commas (map p zs)) @ e # u"
    have "p x @ ?t xs r = p y @ ?t ys' q" using Cons.prems(2) Cons by (simp add: commas_Cons)
    moreover have "closed_text (?t xs r)" "closed_text (?t ys' q)" using e by simp_all
    ultimately have xy: "x = y" and t: "?t xs r = ?t ys' q"
      using Cons.prems(1) [of x "?t xs r" y "?t ys' q"] by simp_all
    then have "commas (map p xs) @ e # r = commas (map p ys') @ e # q"
      using e by (auto split: if_splits)
    then have "xs = ys' \<and> r = q"
      by (rule Cons.IH [rotated]) (rule Cons.prems(1), simp_all)
    then show ?thesis using xy Cons by simp
  qed
qed

text \<open>The first character tells the kind of a value.\<close>

lemma digit_head [simp]:
  "hd (to_string_nat n) \<noteq> quote_char" "hd (to_string_nat n) \<noteq> CHR ''t''" "hd (to_string_nat n) \<noteq> CHR ''f''"
  "hd (to_string_nat n) \<noteq> CHR ''[''" "hd (to_string_nat n) \<noteq> CHR ''{''"
proof -
  have "isdigit (hd (to_string_nat n))" by (rule to_string_nat_isdigit [of _ n]) simp
  then show "hd (to_string_nat n) \<noteq> quote_char" "hd (to_string_nat n) \<noteq> CHR ''t''" "hd (to_string_nat n) \<noteq> CHR ''f''"
    "hd (to_string_nat n) \<noteq> CHR ''[''" "hd (to_string_nat n) \<noteq> CHR ''{''" by auto
qed

declare digit_head [symmetric, simp]

definition lead_char :: "json \<Rightarrow> char" where
  "lead_char v =
     (case v of J_num n \<Rightarrow> hd (to_string_nat n) | J_str s \<Rightarrow> quote_char
      | J_bool b \<Rightarrow> if b then CHR ''t'' else CHR ''f'' | J_arr vs \<Rightarrow> CHR ''['' | J_obj ms \<Rightarrow> CHR ''{'')"

lemma hd_print_json: "hd (print_json v @ r) = lead_char v"
  by (cases v) (simp_all add: quoted_def lead_char_def)

lemma same_lead: "print_json v @ r = print_json w @ q \<Longrightarrow> lead_char v = lead_char w"
  using hd_print_json [of v r] hd_print_json [of w q] by simp

lemma print_json_prefix_free:
  "print_json v @ r = print_json w @ q \<Longrightarrow> closed_text r \<Longrightarrow> closed_text q \<Longrightarrow> v = w \<and> r = q"
proof (induction v arbitrary: w r q)
  case (J_num n)
  obtain m where "w = J_num m"
    using same_lead [OF J_num.prems(1)] by (cases w) (auto simp: lead_char_def split: if_splits)
  then show ?case using number_prefix_free [of n r m q] J_num.prems by simp
next
  case (J_str s)
  obtain t where "w = J_str t"
    using same_lead [OF J_str.prems(1)] by (cases w) (auto simp: lead_char_def split: if_splits)
  then show ?case using string_prefix_free [of s r t q] J_str.prems(1) by simp
next
  case (J_bool b)
  obtain c where w: "w = J_bool c"
    using same_lead [OF J_bool.prems(1)] by (cases w) (auto simp: lead_char_def split: if_splits)
  then have "b = c" using same_lead [OF J_bool.prems(1)] by (auto simp: lead_char_def split: if_splits)
  then show ?case using w J_bool.prems(1) by auto
next
  case (J_arr vs)
  obtain ws where w: "w = J_arr ws"
    using same_lead [OF J_arr.prems(1)] by (cases w) (auto simp: lead_char_def split: if_splits)
  then have "commas (map print_json vs) @ CHR '']'' # r = commas (map print_json ws) @ CHR '']'' # q"
    using J_arr.prems(1) by simp
  then have "vs = ws \<and> r = q"
  proof (rule commas_prefix_free [rotated -1])
    show "\<exists>c r. print_json x = c # r \<and> c \<noteq> CHR '']''" for x using print_json_head [of x] by auto
  qed (use J_arr.IH in simp_all)
  then show ?case using w by simp
next
  case (J_obj ms)
  let ?p = "\<lambda>(k, v). quoted (json_escape k) @ '':'' @ print_json v"
  obtain ns where w: "w = J_obj ns"
    using same_lead [OF J_obj.prems(1)] by (cases w) (auto simp: lead_char_def split: if_splits)
  then have "commas (map ?p ms) @ CHR ''}'' # r = commas (map ?p ns) @ CHR ''}'' # q"
    using J_obj.prems(1) by simp
  then have "ms = ns \<and> r = q"
  proof (rule commas_prefix_free [rotated -1])
    fix x y r q
    assume x: "x \<in> set ms" and eq: "?p x @ r = ?p y @ q" and c: "closed_text r" "closed_text q"
    obtain k v k' v' where kv: "x = (k, v)" "y = (k', v')" by (cases x, cases y)
    have "k = k' \<and> '':'' @ print_json v @ r = '':'' @ print_json v' @ q"
      using string_prefix_free [of k "'':'' @ print_json v @ r" k' "'':'' @ print_json v' @ q"] eq kv by simp
    then show "x = y \<and> r = q" using J_obj.IH [of x v r v' q] x c kv by simp
  qed (auto simp: quoted_def)
  then show ?case using w by simp
qed

lemma print_json_inject: "print_json v = print_json w \<longleftrightarrow> v = w"
  using print_json_prefix_free [of v "[]" w "[]"] by auto

section \<open>The documents\<close>

definition position_value :: "source_manager \<Rightarrow> source_location \<Rightarrow> json" where
  "position_value files l =
     J_obj [(''line'', J_num (lsp_line (display_lsp_position files l))),
            (''character'', J_num (lsp_character (display_lsp_position files l))),
            (''byte_offset'', J_num (display_byte_offset files l))]"

definition range_value :: "source_manager \<Rightarrow> raz_range \<Rightarrow> json" where
  "range_value files r =
     J_obj [(''start'', position_value files (rg_begin r)), (''end'', position_value files (rg_end r))]"

definition label_value :: "source_manager \<Rightarrow> diagnostic_label \<Rightarrow> json" where
  "label_value files l =
     J_obj [(''primary'', J_bool (dlb_primary l)), (''message'', J_str (dlb_message l)),
            (''range'', range_value files (dlb_range l))]"

definition fix_value :: "source_manager \<Rightarrow> diagnostic_fix \<Rightarrow> json" where
  "fix_value files f =
     J_obj [(''message'', J_str (dfx_message f)), (''replacement'', J_str (dfx_replacement f)),
            (''range'', range_value files (dfx_range f))]"

definition diagnostic_value :: "source_manager \<Rightarrow> raz_diagnostic \<Rightarrow> json" where
  "diagnostic_value files d =
     J_obj [(''severity'', J_str (severity_name (rd_severity d))), (''code'', J_str (rd_code d)),
            (''category'', J_str (diagnostic_category (rd_code d))), (''message'', J_str (rd_message d)),
            (''file'', J_str (display_name files (loc_file (rg_begin (primary_range d))))),
            (''range'', range_value files (primary_range d)),
            (''labels'', J_arr (map (label_value files) (rd_labels d))), (''notes'', J_arr (map J_str (rd_notes d))),
            (''help'', J_arr (map J_str (effective_help d))), (''fixes'', J_arr (map (fix_value files) (rd_fixes d)))]"

definition report_value :: "diagnostic_engine \<Rightarrow> source_manager \<Rightarrow> json" where
  "report_value de files =
     J_obj [(''schema'', J_str ''raz-diagnostics-v1''), (''error_count'', J_num (de_error_count de)),
            (''diagnostics'', J_arr (map (diagnostic_value files) (de_diagnostics de)))]"

text \<open>Plain words need no escaping.\<close>

lemma json_escape_words [simp]:
  "json_escape (severity_name sev) = severity_name sev"
  "json_escape (diagnostic_category code) = diagnostic_category code"
  by (cases sev; simp add: json_escape_def escape_char_def severity_name_def)
     (simp add: json_escape_def escape_char_def diagnostic_category_def)

lemma range_value_text: "json_range files r = print_json (range_value files r)"
  by (simp add: json_range_def json_position_def range_value_def position_value_def json_member_def quoted_def
      json_escape_def escape_char_def Let_def)

lemma label_value_text: "json_label files l = print_json (label_value files l)"
  by (simp add: json_label_def range_value_text label_value_def json_member_def)
     (simp add: json_escape_def escape_char_def)

lemma fix_value_text: "json_fix files f = print_json (fix_value files f)"
  by (simp add: json_fix_def range_value_text fix_value_def json_member_def)
     (simp add: json_escape_def escape_char_def)

lemma diagnostic_value_text: "json_diagnostic files d = print_json (diagnostic_value files d)"
proof -
  have m: "map (json_label files) ls = map print_json (map (label_value files) ls)"
    "map (json_fix files) fs = map print_json (map (fix_value files) fs)"
    "map (\<lambda>n. quoted (json_escape n)) ns = map print_json (map J_str ns)" for ls fs ns
    by (simp_all add: label_value_text fix_value_text)
  show ?thesis
    unfolding json_diagnostic_def Let_def m range_value_text json_member_def diagnostic_value_def
    by (simp add: json_member_def) (simp add: json_escape_def escape_char_def)
qed

text \<open>The language-server documents, as values.\<close>

definition point_value :: "source_manager \<Rightarrow> source_location \<Rightarrow> json" where
  "point_value files l =
     J_obj [(''line'', J_num (lsp_line (lsp_position_of files l))),
            (''character'', J_num (lsp_character (lsp_position_of files l)))]"

definition span_value :: "source_manager \<Rightarrow> raz_range \<Rightarrow> json" where
  "span_value files r =
     J_obj [(''start'', point_value files (rg_begin r)), (''end'', point_value files (rg_end r))]"

definition related_value :: "string \<Rightarrow> source_manager \<Rightarrow> diagnostic_label \<Rightarrow> json" where
  "related_value uri files l =
     J_obj [(''location'', J_obj [(''uri'', J_str uri), (''range'', span_value files (dlb_range l))]),
            (''message'', J_str (dlb_message l))]"

definition lsp_fix_value :: "source_manager \<Rightarrow> diagnostic_fix \<Rightarrow> json" where
  "lsp_fix_value files f =
     J_obj [(''title'', J_str (fix_title f)), (''replacement'', J_str (dfx_replacement f)),
            (''range'', span_value files (dfx_range f))]"

definition lsp_diagnostic_value :: "string \<Rightarrow> source_manager \<Rightarrow> raz_diagnostic \<Rightarrow> json" where
  "lsp_diagnostic_value uri files d =
     J_obj ([(''range'', span_value files (primary_range d)), (''severity'', J_num (lsp_severity (rd_severity d))),
             (''source'', J_str ''raz''), (''code'', J_str (rd_code d)), (''message'', J_str (rd_message d))] @
       (if rd_code d = ''D2052'' then [(''tags'', J_arr [J_num 1])] else []) @
       (if list_ex is_related (rd_labels d)
        then [(''relatedInformation'', J_arr (map (related_value uri files) (filter is_related (rd_labels d))))] else []) @
       (if effective_help d \<noteq> [] \<or> rd_notes d \<noteq> []
        then [(''data'', J_obj [(''category'', J_str (diagnostic_category (rd_code d))),
               (''detail'', J_str (lsp_detail d)), (''fixes'', J_arr (map (lsp_fix_value files) (rd_fixes d)))])]
        else []))"

definition publish_value :: "string \<Rightarrow> diagnostic_engine \<Rightarrow> source_manager \<Rightarrow> json" where
  "publish_value uri de files =
     J_obj [(''jsonrpc'', J_str ''2.0''), (''method'', J_str ''textDocument/publishDiagnostics''),
            (''params'', J_obj [(''uri'', J_str uri),
               (''diagnostics'', J_arr (map (lsp_diagnostic_value uri files) (de_diagnostics de)))])]"

definition action_value :: "string \<Rightarrow> source_manager \<Rightarrow> raz_diagnostic \<Rightarrow> diagnostic_fix \<Rightarrow> json" where
  "action_value uri files d f =
     J_obj [(''title'', J_str (fix_title f)), (''kind'', J_str ''quickfix''), (''isPreferred'', J_bool True),
            (''diagnostics'', J_arr [J_obj [(''code'', J_str (rd_code d)), (''message'', J_str (rd_message d)),
               (''range'', span_value files (dfx_range f))]]),
            (''edit'', J_obj [(''changes'', J_obj [(uri, J_arr [J_obj [(''range'', span_value files (dfx_range f)),
               (''newText'', J_str (dfx_replacement f))]])])])]"

definition actions_value :: "string \<Rightarrow> diagnostic_engine \<Rightarrow> source_manager \<Rightarrow> json" where
  "actions_value uri de files =
     J_arr (concat (map (\<lambda>d. map (action_value uri files d) (filter (\<lambda>f. rg_valid (dfx_range f)) (rd_fixes d)))
       (de_diagnostics de)))"

lemma span_value_text: "lsp_span files r = print_json (span_value files r)"
  by (simp add: lsp_span_def lsp_point_def span_value_def point_value_def json_member_def quoted_def
      json_escape_def escape_char_def)

lemma related_value_text: "lsp_related uri files = print_json \<circ> related_value uri files"
  by (rule ext, simp add: lsp_related_def span_value_text related_value_def json_member_def)
     (simp add: json_escape_def escape_char_def)

lemma lsp_fix_value_text: "lsp_fix files = print_json \<circ> lsp_fix_value files"
  by (rule ext, simp add: lsp_fix_def span_value_text lsp_fix_value_def json_member_def)
     (simp add: json_escape_def escape_char_def)

lemma one_text: "to_string_nat (Suc 0) = ''1''"
  by (simp add: to_string_nat.simps digit_char_def char_of_def bit_0)

lemma lsp_diagnostic_value_text: "lsp_diagnostic uri files = print_json \<circ> lsp_diagnostic_value uri files"
  by (rule ext, simp add: lsp_diagnostic_def span_value_text related_value_text lsp_fix_value_text
      lsp_diagnostic_value_def json_member_def map_map)
     (simp add: json_escape_def escape_char_def one_text)

lemma action_value_text: "lsp_code_action uri files d = print_json \<circ> action_value uri files d"
  by (rule ext, simp add: lsp_code_action_def span_value_text action_value_def json_member_def Let_def)
     (simp add: json_escape_def escape_char_def)

text \<open>
  The language-server messages are well-formed whatever the diagnostics and the document name contain:
  the notification and the code actions are the serialisations of one JSON value each, which holds the
  primary ranges, the related labels and every fix with a valid range.
\<close>

lemma lsp_messages_faithful:
  "(lsp_json uri de files = print_json v \<longleftrightarrow> v = publish_value uri de files) \<and>
   (lsp_code_actions_json uri de files = print_json v \<longleftrightarrow> v = actions_value uri de files)"
proof -
  have "lsp_json uri de files = print_json (publish_value uri de files)"
    unfolding lsp_json_def json_member_def publish_value_def lsp_diagnostic_value_text
    by (simp add: quoted_def) (simp add: json_escape_def escape_char_def)
  moreover have "lsp_code_actions_json uri de files = print_json (actions_value uri de files)"
    unfolding lsp_code_actions_json_def actions_value_def action_value_text by (simp add: map_concat comp_def)
  ultimately show ?thesis using print_json_inject by metis
qed

text \<open>
  C27. The JSON report is well-formed whatever the messages contain: it is the serialisation of one JSON
  value, the tree of all recorded diagnostics with their unescaped strings, and of no other value.
\<close>

theorem json_report_faithful:
  "engine_json de files = print_json v \<longleftrightarrow> v = report_value de files"
proof -
  have m: "json_diagnostic files = print_json \<circ> diagnostic_value files"
    by (rule ext) (simp add: diagnostic_value_text)
  have "engine_json de files = print_json (report_value de files)"
    unfolding engine_json_def json_member_def report_value_def m
    by (simp add: quoted_def) (simp add: json_escape_def escape_char_def)
  then show ?thesis using print_json_inject by metis
qed

text \<open>
  C28. Escaping round trip: reading the escaped text back as a JSON string, up to the closing quote,
  gives exactly the original bytes and the text after the quote. The reader is that of RFC 8259: it takes all four digits
  of a unicode escape into account and refuses what is not a hexadecimal digit.
\<close>

theorem json_escape_roundtrip:
  "read_string (json_escape s @ quote_char # r) = Some (s, r)"
  by (rule read_string_escaped)

end
