(* ===== verification/Raz_Lexer.thy ===== *)
theory Raz_Lexer
  imports Raz_Source
begin

text \<open>
  The Raz lexer, \<open>bootstrap/compiler/lexer/\<close>: token kinds and keyword_table (\<open>token_kind.hpp\<close>,
  \<open>token_kind.cpp\<close>), tokens (\<open>token.hpp\<close>) and \<open>Lexer\<close> (\<open>lexer.hpp\<close>, \<open>lexer.cpp\<close>).

  The lexer's object is the record \<open>lexer\<close>: the text, the offset and the diagnostic engine it reports
  to. A text is shorter than \<open>2^32\<close> bytes (\<open>load_file\<close> refuses longer ones), so the offset does not wrap;
  the character tests of \<open>next\<close>, whose sums are formed in 32 bits, are written out modulo \<open>2^32\<close>.
  \<open>std::isalpha\<close> and \<open>std::isalnum\<close> are those of the C locale.
\<close>

section \<open>Token kinds\<close>

datatype (plugins only: code) raz_keyword
  = Kw_as | Kw_async | Kw_await | Kw_break | Kw_case | Kw_comptime | Kw_const | Kw_continue | Kw_defer | Kw_dyn
  | Kw_else | Kw_enum | Kw_extern | Kw_false | Kw_for | Kw_fn | Kw_if | Kw_impl | Kw_import | Kw_in | Kw_match
  | Kw_move | Kw_mut | Kw_namespace | Kw_null | Kw_private | Kw_public | Kw_ref | Kw_return | Kw_spawn
  | Kw_static | Kw_struct | Kw_trait | Kw_true | Kw_type | Kw_union | Kw_unsafe | Kw_while

datatype (plugins only: code) punctuation
  = Pn_left_paren | Pn_right_paren | Pn_left_brace | Pn_right_brace | Pn_left_bracket | Pn_right_bracket
  | Pn_comma | Pn_dot | Pn_semicolon | Pn_colon | Pn_colon_colon | Pn_question | Pn_at | Pn_hash | Pn_arrow
  | Pn_fat_arrow | Pn_plus | Pn_plus_equal | Pn_plus_plus | Pn_minus | Pn_minus_equal | Pn_minus_minus | Pn_star
  | Pn_star_equal | Pn_slash | Pn_slash_equal | Pn_percent | Pn_percent_equal | Pn_ampersand
  | Pn_ampersand_equal | Pn_ampersand_ampersand | Pn_pipe | Pn_pipe_equal | Pn_pipe_pipe | Pn_caret
  | Pn_caret_equal | Pn_tilde | Pn_bang | Pn_bang_equal | Pn_equal | Pn_equal_equal | Pn_less | Pn_less_equal
  | Pn_less_less | Pn_less_less_equal | Pn_greater | Pn_greater_equal | Pn_greater_greater
  | Pn_greater_greater_equal | Pn_dot_dot | Pn_dot_dot_equal | Pn_ellipsis

text \<open>The enumeration \<open>TokenKind\<close>, its keyword_table and punctuation as groups of their own.\<close>

datatype token_kind
  = Tk_invalid | Tk_end_of_file | Tk_identifier | Tk_lifetime_identifier | Tk_integer_literal | Tk_float_literal
  | Tk_string_literal | Tk_character_literal | Keyword raz_keyword | Punct punctuation

definition token_kind_names :: "(token_kind \<times> string) list" where
  "token_kind_names =
     [(Tk_invalid, ''invalid''), (Tk_end_of_file, ''end_of_file''), (Tk_identifier, ''identifier''),
      (Tk_lifetime_identifier, ''lifetime_identifier''), (Tk_integer_literal, ''integer_literal''),
      (Tk_float_literal, ''float_literal''), (Tk_string_literal, ''string_literal''),
      (Tk_character_literal, ''character_literal''), (Keyword Kw_as, ''kw_as''),
      (Keyword Kw_async, ''kw_async''), (Keyword Kw_await, ''kw_await''), (Keyword Kw_break, ''kw_break''),
      (Keyword Kw_case, ''kw_case''), (Keyword Kw_comptime, ''kw_comptime''), (Keyword Kw_const, ''kw_const''),
      (Keyword Kw_continue, ''kw_continue''), (Keyword Kw_defer, ''kw_defer''), (Keyword Kw_dyn, ''kw_dyn''),
      (Keyword Kw_else, ''kw_else''), (Keyword Kw_enum, ''kw_enum''), (Keyword Kw_extern, ''kw_extern''),
      (Keyword Kw_false, ''kw_false''), (Keyword Kw_for, ''kw_for''), (Keyword Kw_fn, ''kw_fn''),
      (Keyword Kw_if, ''kw_if''), (Keyword Kw_impl, ''kw_impl''), (Keyword Kw_import, ''kw_import''),
      (Keyword Kw_in, ''kw_in''), (Keyword Kw_match, ''kw_match''), (Keyword Kw_move, ''kw_move''),
      (Keyword Kw_mut, ''kw_mut''), (Keyword Kw_namespace, ''kw_namespace''), (Keyword Kw_null, ''kw_null''),
      (Keyword Kw_private, ''kw_private''), (Keyword Kw_public, ''kw_public''), (Keyword Kw_ref, ''kw_ref''),
      (Keyword Kw_return, ''kw_return''), (Keyword Kw_spawn, ''kw_spawn''), (Keyword Kw_static, ''kw_static''),
      (Keyword Kw_struct, ''kw_struct''), (Keyword Kw_trait, ''kw_trait''), (Keyword Kw_true, ''kw_true''),
      (Keyword Kw_type, ''kw_type''), (Keyword Kw_union, ''kw_union''), (Keyword Kw_unsafe, ''kw_unsafe''),
      (Keyword Kw_while, ''kw_while''), (Punct Pn_left_paren, ''left_paren''),
      (Punct Pn_right_paren, ''right_paren''), (Punct Pn_left_brace, ''left_brace''),
      (Punct Pn_right_brace, ''right_brace''), (Punct Pn_left_bracket, ''left_bracket''),
      (Punct Pn_right_bracket, ''right_bracket''), (Punct Pn_comma, ''comma''), (Punct Pn_dot, ''dot''),
      (Punct Pn_semicolon, ''semicolon''), (Punct Pn_colon, ''colon''), (Punct Pn_colon_colon, ''colon_colon''),
      (Punct Pn_question, ''question''), (Punct Pn_at, ''at''), (Punct Pn_hash, ''hash''),
      (Punct Pn_arrow, ''arrow''), (Punct Pn_fat_arrow, ''fat_arrow''), (Punct Pn_plus, ''plus''),
      (Punct Pn_plus_equal, ''plus_equal''), (Punct Pn_plus_plus, ''plus_plus''), (Punct Pn_minus, ''minus''),
      (Punct Pn_minus_equal, ''minus_equal''), (Punct Pn_minus_minus, ''minus_minus''),
      (Punct Pn_star, ''star''), (Punct Pn_star_equal, ''star_equal''), (Punct Pn_slash, ''slash''),
      (Punct Pn_slash_equal, ''slash_equal''), (Punct Pn_percent, ''percent''),
      (Punct Pn_percent_equal, ''percent_equal''), (Punct Pn_ampersand, ''ampersand''),
      (Punct Pn_ampersand_equal, ''ampersand_equal''), (Punct Pn_ampersand_ampersand, ''ampersand_ampersand''),
      (Punct Pn_pipe, ''pipe''), (Punct Pn_pipe_equal, ''pipe_equal''), (Punct Pn_pipe_pipe, ''pipe_pipe''),
      (Punct Pn_caret, ''caret''), (Punct Pn_caret_equal, ''caret_equal''), (Punct Pn_tilde, ''tilde''),
      (Punct Pn_bang, ''bang''), (Punct Pn_bang_equal, ''bang_equal''), (Punct Pn_equal, ''equal''),
      (Punct Pn_equal_equal, ''equal_equal''), (Punct Pn_less, ''less''), (Punct Pn_less_equal, ''less_equal''),
      (Punct Pn_less_less, ''less_less''), (Punct Pn_less_less_equal, ''less_less_equal''),
      (Punct Pn_greater, ''greater''), (Punct Pn_greater_equal, ''greater_equal''),
      (Punct Pn_greater_greater, ''greater_greater''),
      (Punct Pn_greater_greater_equal, ''greater_greater_equal''), (Punct Pn_dot_dot, ''dot_dot''),
      (Punct Pn_dot_dot_equal, ''dot_dot_equal''), (Punct Pn_ellipsis, ''ellipsis'')]"

definition token_kind_name :: "token_kind \<Rightarrow> string" where
  "token_kind_name k = (case map_of token_kind_names k of Some n \<Rightarrow> n | None \<Rightarrow> ''unknown'')"

definition keyword_table :: "(string \<times> raz_keyword) list" where
  "keyword_table =
     [(''as'', Kw_as), (''async'', Kw_async), (''await'', Kw_await), (''break'', Kw_break), (''case'', Kw_case),
      (''comptime'', Kw_comptime), (''const'', Kw_const), (''continue'', Kw_continue), (''defer'', Kw_defer),
      (''dyn'', Kw_dyn), (''else'', Kw_else), (''enum'', Kw_enum), (''extern'', Kw_extern), (''false'', Kw_false),
      (''fn'', Kw_fn), (''for'', Kw_for), (''if'', Kw_if), (''impl'', Kw_impl), (''import'', Kw_import), (''in'', Kw_in),
      (''match'', Kw_match), (''move'', Kw_move), (''mut'', Kw_mut), (''namespace'', Kw_namespace), (''null'', Kw_null),
      (''private'', Kw_private), (''public'', Kw_public), (''ref'', Kw_ref), (''return'', Kw_return),
      (''spawn'', Kw_spawn), (''static'', Kw_static), (''struct'', Kw_struct), (''trait'', Kw_trait),
      (''true'', Kw_true), (''type'', Kw_type), (''union'', Kw_union), (''unsafe'', Kw_unsafe), (''while'', Kw_while),
      (''pub'', Kw_public), (''priv'', Kw_private)]"

definition keyword_kind :: "string \<Rightarrow> token_kind" where
  "keyword_kind spelling = (case map_of keyword_table spelling of Some k \<Rightarrow> Keyword k | None \<Rightarrow> Tk_identifier)"

record raz_token =
  tok_kind :: token_kind
  tok_range :: raz_range

section \<open>Characters\<close>

definition is_identifier_start :: "char \<Rightarrow> bool" where
  "is_identifier_start c \<longleftrightarrow> isalpha c \<or> c = CHR ''_'' \<or> 0x80 \<le> (of_char c :: nat)"

definition is_identifier_continue :: "char \<Rightarrow> bool" where
  "is_identifier_continue c \<longleftrightarrow> isalnum c \<or> c = CHR ''_'' \<or> 0x80 \<le> (of_char c :: nat)"

definition is_digit_for_base :: "char \<Rightarrow> nat \<Rightarrow> bool" where
  "is_digit_for_base c base \<longleftrightarrow>
     (let n = of_char c :: nat
      in if 48 \<le> n \<and> n \<le> 57 then n - 48 < base
         else if 97 \<le> n \<and> n \<le> 102 then base > 10 \<and> n - 97 + 10 < base
         else if 65 \<le> n \<and> n \<le> 70 then base > 10 \<and> n - 65 + 10 < base
         else False)"

section \<open>The lexer object\<close>

record lexer =
  lx_diagnostics :: diagnostic_engine
  lx_file :: nat
  lx_text :: string
  lx_offset :: nat

definition new_lexer :: "source_manager \<Rightarrow> diagnostic_engine \<Rightarrow> nat \<Rightarrow> lexer" where
  "new_lexer files de file =
     \<lparr>lx_diagnostics = de, lx_file = file, lx_text = source_text files file, lx_offset = 0\<rparr>"

definition at_end :: "lexer \<Rightarrow> bool" where
  "at_end lx \<longleftrightarrow> lx_offset lx \<ge> length (lx_text lx)"

definition peek :: "lexer \<Rightarrow> nat \<Rightarrow> char" where
  "peek lx distance =
     (let position = lx_offset lx + distance in if position < length (lx_text lx) then lx_text lx ! position else CHR 0x00)"

definition advance :: "lexer \<Rightarrow> lexer" where
  "advance lx = (if at_end lx then lx else lx\<lparr>lx_offset := lx_offset lx + 1\<rparr>)"

definition consume :: "char \<Rightarrow> lexer \<Rightarrow> bool \<times> lexer" where
  "consume expected lx =
     (if peek lx 0 \<noteq> expected then (False, lx) else (True, lx\<lparr>lx_offset := lx_offset lx + 1\<rparr>))"

definition make_token :: "token_kind \<Rightarrow> nat \<Rightarrow> lexer \<Rightarrow> raz_token" where
  "make_token k start lx =
     \<lparr>tok_kind = k, tok_range = \<lparr>rg_begin = \<lparr>loc_file = lx_file lx, loc_offset = start\<rparr>,
        rg_end = \<lparr>loc_file = lx_file lx, loc_offset = lx_offset lx\<rparr>\<rparr>\<rparr>"

definition report :: "string \<Rightarrow> nat \<Rightarrow> nat \<Rightarrow> string \<Rightarrow> lexer \<Rightarrow> lexer" where
  "report code start stop message lx =
     lx\<lparr>lx_diagnostics := engine_error code \<lparr>rg_begin = \<lparr>loc_file = lx_file lx, loc_offset = start\<rparr>,
        rg_end = \<lparr>loc_file = lx_file lx, loc_offset = stop\<rparr>\<rparr> message (lx_diagnostics lx)\<rparr>"

text \<open>The loops \<open>while (p(peek())) advance()\<close>; none of the tests accepts the character past the end.\<close>

definition remaining :: "lexer \<Rightarrow> nat" where
  "remaining lx = length (lx_text lx) - lx_offset lx"

lemma remaining_advance: "\<not> at_end lx \<Longrightarrow> remaining (advance lx) < remaining lx"
  by (simp add: remaining_def at_end_def advance_def)

function advance_while :: "(char \<Rightarrow> bool) \<Rightarrow> lexer \<Rightarrow> lexer" where
  "advance_while p lx = (if \<not> at_end lx \<and> p (peek lx 0) then advance_while p (advance lx) else lx)"
  by pat_completeness auto
termination
  by (relation "measure (\<lambda>(p, lx). remaining lx)") (auto simp: remaining_advance)

declare advance_while.simps [simp del]

text \<open>Every operation of the lexer keeps the text and moves forward inside it.\<close>

definition ahead :: "lexer \<Rightarrow> lexer \<Rightarrow> bool" where
  "ahead lx lx' \<longleftrightarrow> lx_text lx' = lx_text lx \<and> lx_file lx' = lx_file lx \<and> lx_offset lx \<le> lx_offset lx' \<and>
     (lx_offset lx \<le> length (lx_text lx) \<longrightarrow> lx_offset lx' \<le> length (lx_text lx))"

lemma ahead_refl [simp, intro]: "ahead lx lx"
  by (simp add: ahead_def)

lemma ahead_trans [trans]: "ahead a b \<Longrightarrow> ahead b c \<Longrightarrow> ahead a c"
  by (auto simp: ahead_def)

lemma ahead_advance [simp, intro]: "ahead lx (advance lx)"
  by (auto simp: ahead_def advance_def at_end_def)

lemma ahead_report [simp, intro]: "ahead lx (report code start stop message lx)"
  by (simp add: ahead_def report_def)

lemma ahead_advance_while [simp, intro]: "ahead lx (advance_while p lx)"
proof (induction p lx rule: advance_while.induct)
  case (1 p lx)
  then show ?case
    by (subst advance_while.simps) (auto intro: ahead_trans [OF ahead_advance])
qed

lemma remaining_ahead: "ahead lx lx' \<Longrightarrow> remaining lx' \<le> remaining lx"
  by (auto simp: ahead_def remaining_def)

section \<open>Trivia\<close>

definition skip_line_comment :: "lexer \<Rightarrow> lexer" where
  "skip_line_comment lx = advance_while (\<lambda>c. c \<noteq> CHR 0x0A) lx"

function block_comment :: "nat \<Rightarrow> lexer \<Rightarrow> nat \<times> lexer" where
  "block_comment depth lx =
     (if \<not> at_end lx \<and> depth \<noteq> 0 then
        if peek lx 0 = CHR ''/'' \<and> peek lx 1 = CHR ''*'' then block_comment (depth + 1) (advance (advance lx))
        else if peek lx 0 = CHR ''*'' \<and> peek lx 1 = CHR ''/'' then block_comment (depth - 1) (advance (advance lx))
        else block_comment depth (advance lx)
      else (depth, lx))"
  by pat_completeness auto
termination
proof (relation "measure (\<lambda>(d, lx). remaining lx)", goal_cases)
  case (2 d lx)
  then show ?case using remaining_advance [of lx] remaining_ahead [OF ahead_advance, of "advance lx"] by simp
next
  case (3 d lx)
  then show ?case using remaining_advance [of lx] remaining_ahead [OF ahead_advance, of "advance lx"] by simp
next
  case (4 d lx)
  then show ?case using remaining_advance [of lx] by simp
qed simp

declare block_comment.simps [simp del]

definition skip_block_comment :: "lexer \<Rightarrow> lexer" where
  "skip_block_comment lx =
     (let start = lx_offset lx - 2; (depth, lx') = block_comment 1 lx
      in if depth \<noteq> 0 then report ''D0001'' start (lx_offset lx') ''unterminated block comment'' lx' else lx')"

definition is_space :: "char \<Rightarrow> bool" where
  "is_space c \<longleftrightarrow> c = CHR '' '' \<or> c = CHR 0x09 \<or> c = CHR 0x0D \<or> c = CHR 0x0A"

lemma ahead_block_comment: "ahead lx (snd (block_comment d lx))"
proof (induction d lx rule: block_comment.induct)
  case (1 d lx)
  have two: "ahead lx (advance (advance lx))" by (rule ahead_trans [OF ahead_advance ahead_advance])
  show ?case
    using 1 two by (subst block_comment.simps) (auto intro: ahead_trans [OF ahead_advance] ahead_trans [OF two])
qed

lemma ahead_skip_comments [simp, intro]: "ahead lx (skip_line_comment lx)" "ahead lx (skip_block_comment lx)"
  using ahead_block_comment [of lx 1]
  by (auto simp: skip_line_comment_def skip_block_comment_def Let_def split: prod.splits intro: ahead_trans)

lemma peek_at_end: "at_end lx \<Longrightarrow> peek lx k = CHR 0x00"
  by (simp add: peek_def at_end_def)

function skip_trivia :: "lexer \<Rightarrow> lexer" where
  "skip_trivia lx =
     (let lx1 = advance_while is_space lx
      in if peek lx1 0 = CHR ''/'' \<and> peek lx1 1 = CHR ''/''
         then skip_trivia (skip_line_comment (advance (advance lx1)))
         else if peek lx1 0 = CHR ''/'' \<and> peek lx1 1 = CHR ''*''
         then skip_trivia (skip_block_comment (advance (advance lx1)))
         else lx1)"
  by pat_completeness auto
termination
proof (relation "measure remaining", goal_cases)
  case (2 lx lx1)
  then have "\<not> at_end lx1" using peek_at_end by force
  then show ?case using 2(1) remaining_advance [of lx1] remaining_ahead [OF ahead_advance_while [of lx is_space]]
      remaining_ahead [OF ahead_advance, of "advance lx1"] remaining_ahead [OF ahead_skip_comments(1), of "advance (advance lx1)"]
    by simp
next
  case (3 lx lx1)
  then have "\<not> at_end lx1" using peek_at_end by force
  then show ?case using 3(1) remaining_advance [of lx1] remaining_ahead [OF ahead_advance_while [of lx is_space]]
      remaining_ahead [OF ahead_advance, of "advance lx1"] remaining_ahead [OF ahead_skip_comments(2), of "advance (advance lx1)"]
    by simp
qed simp

declare skip_trivia.simps [simp del]

section \<open>Literals and names\<close>

definition lex_identifier_or_keyword :: "lexer \<Rightarrow> raz_token \<times> lexer" where
  "lex_identifier_or_keyword lx =
     (let start = lx_offset lx; lx1 = advance_while is_identifier_continue (advance lx);
          spelling = subspan (lx_text lx) start (lx_offset lx1 - start)
      in (make_token (keyword_kind spelling) start lx1, lx1))"

function scan_digits :: "nat \<Rightarrow> bool \<Rightarrow> lexer \<Rightarrow> bool \<times> lexer" where
  "scan_digits base saw_digit lx =
     (if \<not> at_end lx \<and> (is_digit_for_base (peek lx 0) base \<or> peek lx 0 = CHR ''_'')
      then scan_digits base (saw_digit \<or> peek lx 0 \<noteq> CHR ''_'') (advance lx)
      else (saw_digit, lx))"
  by pat_completeness auto
termination
  by (relation "measure (\<lambda>(b, s, lx). remaining lx)") (auto simp: remaining_advance)

declare scan_digits.simps [simp del]

definition number_base :: "lexer \<Rightarrow> nat \<times> lexer" where
  "number_base lx =
     (if peek lx 0 = CHR ''0'' then
        if peek lx 1 = CHR ''x'' \<or> peek lx 1 = CHR ''X'' then (16, advance (advance lx))
        else if peek lx 1 = CHR ''b'' \<or> peek lx 1 = CHR ''B'' then (2, advance (advance lx))
        else if peek lx 1 = CHR ''o'' \<or> peek lx 1 = CHR ''O'' then (8, advance (advance lx))
        else (10, lx)
      else (10, lx))"

definition is_decimal :: "char \<Rightarrow> bool" where
  "is_decimal c \<longleftrightarrow> isdigit c \<or> c = CHR ''_''"

definition scan_fraction :: "nat \<Rightarrow> lexer \<Rightarrow> bool \<times> lexer" where
  "scan_fraction base lx =
     (if base = 10 \<and> peek lx 0 = CHR ''.'' \<and> peek lx 1 \<noteq> CHR ''.'' \<and> isdigit (peek lx 1)
      then (True, advance_while is_decimal (advance lx)) else (False, lx))"

definition scan_exponent :: "nat \<Rightarrow> nat \<Rightarrow> lexer \<Rightarrow> bool \<times> lexer" where
  "scan_exponent base start lx =
     (if base = 10 \<and> (peek lx 0 = CHR ''e'' \<or> peek lx 0 = CHR ''E'') then
        let lx1 = advance lx;
            lx2 = (if peek lx1 0 = CHR ''+'' \<or> peek lx1 0 = CHR ''-'' then advance lx1 else lx1);
            lx3 = advance_while is_decimal lx2
        in (True, if lx_offset lx3 = lx_offset lx2
                  then report ''D0003'' start (lx_offset lx3) ''floating-point exponent requires digits'' lx3 else lx3)
      else (False, lx))"

definition lex_number :: "lexer \<Rightarrow> raz_token \<times> lexer" where
  "lex_number lx =
     (let start = lx_offset lx; (base, lx1) = number_base lx; (saw_digit, lx2) = scan_digits base False lx1;
          lx3 = (if \<not> saw_digit \<and> base \<noteq> 10
                 then report ''D0002'' start (lx_offset lx2) ''numeric base prefix requires at least one digit'' lx2 else lx2);
          (fraction, lx4) = scan_fraction base lx3; (exponent, lx5) = scan_exponent base start lx4;
          lx6 = advance_while (\<lambda>c. isalnum c \<or> c = CHR ''_'') lx5
      in (make_token (if fraction \<or> exponent then Tk_float_literal else Tk_integer_literal) start lx6, lx6))"

function string_body :: "lexer \<Rightarrow> bool \<times> lexer" where
  "string_body lx =
     (if at_end lx then (False, lx)
      else let c = peek lx 0; lx1 = advance lx
           in if c = CHR 0x22 then (True, lx1)
              else if c = CHR 0x5C \<and> \<not> at_end lx1 then string_body (advance lx1)
              else if c = CHR 0x0A then (False, lx1)
              else string_body lx1)"
  by pat_completeness auto
termination
proof (relation "measure remaining", goal_cases)
  case (2 lx c lx1)
  then show ?case using remaining_advance [of lx] remaining_ahead [OF ahead_advance, of lx1] by simp
next
  case (3 lx c lx1)
  then show ?case using remaining_advance [of lx] by simp
qed simp

declare string_body.simps [simp del]

definition lex_string :: "lexer \<Rightarrow> raz_token \<times> lexer" where
  "lex_string lx =
     (let start = lx_offset lx; (terminated, lx1) = string_body (advance lx);
          lx2 = (if \<not> terminated then report ''D0004'' start (lx_offset lx1) ''unterminated string literal'' lx1 else lx1)
      in (make_token Tk_string_literal start lx2, lx2))"

definition lex_character :: "lexer \<Rightarrow> raz_token \<times> lexer" where
  "lex_character lx =
     (let start = lx_offset lx; lx1 = advance lx
      in if at_end lx1 \<or> peek lx1 0 = CHR 0x0A then
           let lx2 = report ''D0005'' start (lx_offset lx1) ''unterminated character literal'' lx1
           in (make_token Tk_character_literal start lx2, lx2)
         else
           let lx2 = (if peek lx1 0 = CHR 0x5C then (let lx' = advance lx1 in if \<not> at_end lx' then advance lx' else lx')
                      else advance lx1);
               (closed, lx3) = consume (CHR 0x27) lx2;
               lx5 = (if closed then lx3
                      else let lx4 = snd (consume (CHR 0x27) (advance_while (\<lambda>c. c \<noteq> CHR 0x0A \<and> c \<noteq> CHR 0x27) lx3))
                           in report ''D0006'' start (lx_offset lx4) ''character literal must contain exactly one character'' lx4)
           in (make_token Tk_character_literal start lx5, lx5))"

definition lex_lifetime :: "lexer \<Rightarrow> raz_token \<times> lexer" where
  "lex_lifetime lx =
     (let start = lx_offset lx; lx1 = advance lx
      in if at_end lx1 \<or> \<not> is_identifier_start (peek lx1 0) then
           let lx2 = report ''D0008'' start (lx_offset lx1) ''expected lifetime name after apostrophe'' lx1
           in (make_token Tk_invalid start lx2, lx2)
         else let lx2 = advance_while is_identifier_continue (advance lx1)
              in (make_token Tk_lifetime_identifier start lx2, lx2))"

section \<open>Punctuation\<close>

text \<open>\<open>make_token(consume(c) ? yes : no, begin)\<close>, and a chain of \<open>if (consume(c)) return make_token(...)\<close>.\<close>

fun consume_chain :: "(char \<times> punctuation) list \<Rightarrow> punctuation \<Rightarrow> nat \<Rightarrow> lexer \<Rightarrow> raz_token \<times> lexer" where
  "consume_chain [] otherwise start lx = (make_token (Punct otherwise) start lx, lx)"
| "consume_chain ((c, k) # rest) otherwise start lx =
     (case consume c lx of
        (True, lx') \<Rightarrow> (make_token (Punct k) start lx', lx')
      | (False, lx') \<Rightarrow> consume_chain rest otherwise start lx')"

definition one_char :: "(char \<times> punctuation) list" where
  "one_char = [(CHR ''('', Pn_left_paren), (CHR '')'', Pn_right_paren), (CHR ''{'', Pn_left_brace), (CHR ''}'', Pn_right_brace),
     (CHR ''['', Pn_left_bracket), (CHR '']'', Pn_right_bracket), (CHR '','', Pn_comma), (CHR '';'', Pn_semicolon),
     (CHR ''?'', Pn_question), (CHR ''@'', Pn_at), (CHR ''#'', Pn_hash), (CHR ''~'', Pn_tilde)]"

text \<open>The switch of \<open>next\<close> on the current character; \<open>None\<close> is its \<open>default\<close>.\<close>

definition lex_punctuation :: "lexer \<Rightarrow> (raz_token \<times> lexer) option" where
  "lex_punctuation lx =
     (let start = lx_offset lx; c = peek lx 0; lx1 = advance lx
      in case map_of one_char c of
           Some k \<Rightarrow> Some (make_token (Punct k) start lx1, lx1)
         | None \<Rightarrow>
           if c = CHR '':'' then Some (consume_chain [(CHR '':'', Pn_colon_colon)] Pn_colon start lx1)
           else if c = CHR ''.'' then
             Some (case consume (CHR ''.'') lx1 of
                     (True, lx2) \<Rightarrow> consume_chain [(CHR ''.'', Pn_ellipsis), (CHR ''='', Pn_dot_dot_equal)] Pn_dot_dot start lx2
                   | (False, lx2) \<Rightarrow> (make_token (Punct Pn_dot) start lx2, lx2))
           else if c = CHR ''+'' then
             Some (consume_chain [(CHR ''='', Pn_plus_equal), (CHR ''+'', Pn_plus_plus)] Pn_plus start lx1)
           else if c = CHR ''-'' then
             Some (consume_chain [(CHR ''>'', Pn_arrow), (CHR ''='', Pn_minus_equal), (CHR ''-'', Pn_minus_minus)] Pn_minus start lx1)
           else if c = CHR ''*'' then Some (consume_chain [(CHR ''='', Pn_star_equal)] Pn_star start lx1)
           else if c = CHR ''/'' then Some (consume_chain [(CHR ''='', Pn_slash_equal)] Pn_slash start lx1)
           else if c = CHR ''%'' then Some (consume_chain [(CHR ''='', Pn_percent_equal)] Pn_percent start lx1)
           else if c = CHR ''&'' then
             Some (consume_chain [(CHR ''&'', Pn_ampersand_ampersand), (CHR ''='', Pn_ampersand_equal)] Pn_ampersand start lx1)
           else if c = CHR ''|'' then
             Some (consume_chain [(CHR ''|'', Pn_pipe_pipe), (CHR ''='', Pn_pipe_equal)] Pn_pipe start lx1)
           else if c = CHR ''^'' then Some (consume_chain [(CHR ''='', Pn_caret_equal)] Pn_caret start lx1)
           else if c = CHR ''!'' then Some (consume_chain [(CHR ''='', Pn_bang_equal)] Pn_bang start lx1)
           else if c = CHR ''='' then
             Some (consume_chain [(CHR ''>'', Pn_fat_arrow), (CHR ''='', Pn_equal_equal)] Pn_equal start lx1)
           else if c = CHR ''<'' then
             Some (case consume (CHR ''<'') lx1 of
                     (True, lx2) \<Rightarrow> consume_chain [(CHR ''='', Pn_less_less_equal)] Pn_less_less start lx2
                   | (False, lx2) \<Rightarrow> consume_chain [(CHR ''='', Pn_less_equal)] Pn_less start lx2)
           else if c = CHR ''>'' then
             Some (case consume (CHR ''>'') lx1 of
                     (True, lx2) \<Rightarrow> consume_chain [(CHR ''='', Pn_greater_greater_equal)] Pn_greater_greater start lx2
                   | (False, lx2) \<Rightarrow> consume_chain [(CHR ''='', Pn_greater_equal)] Pn_greater start lx2)
           else None)"

section \<open>Tokens\<close>

definition char_at :: "lexer \<Rightarrow> nat \<Rightarrow> char \<Rightarrow> bool" where
  "char_at lx distance c \<longleftrightarrow>
     (let position = wrap32 (lx_offset lx + distance)
      in position < length (lx_text lx) \<and> lx_text lx ! position = c)"

definition is_character_literal :: "lexer \<Rightarrow> bool" where
  "is_character_literal lx \<longleftrightarrow>
     char_at lx 2 (CHR 0x27) \<or>
     wrap32 (lx_offset lx + 3) < length (lx_text lx) \<and> char_at lx 1 (CHR 0x5C) \<and> char_at lx 3 (CHR 0x27)"

definition next_token :: "lexer \<Rightarrow> raz_token \<times> lexer" where
  "next_token lx0 =
     (let lx = skip_trivia lx0; start = lx_offset lx
      in if at_end lx then (make_token Tk_end_of_file start lx, lx)
         else let c = peek lx 0
              in if is_identifier_start c then lex_identifier_or_keyword lx
                 else if isdigit c then lex_number lx
                 else if c = CHR 0x22 then lex_string lx
                 else if c = CHR 0x27 then (if is_character_literal lx then lex_character lx else lex_lifetime lx)
                 else case lex_punctuation lx of
                        Some r \<Rightarrow> r
                      | None \<Rightarrow>
                          let lx1 = advance lx; lx2 = report ''D0007'' start (lx_offset lx1) ''unexpected character in source file'' lx1
                          in (make_token Tk_invalid start lx2, lx2))"

text \<open>What every token function does on a character: it moves past it and names the text it passed.\<close>

definition lexes_one :: "lexer \<Rightarrow> raz_token \<times> lexer \<Rightarrow> bool" where
  "lexes_one lx r \<longleftrightarrow> ahead (advance lx) (snd r) \<and>
     (\<exists>k. k \<noteq> Tk_end_of_file \<and> fst r = make_token k (lx_offset lx) (snd r))"

lemma lexes_oneI: "ahead (advance lx) lx' \<Longrightarrow> k \<noteq> Tk_end_of_file \<Longrightarrow> lexes_one lx (make_token k (lx_offset lx) lx', lx')"
  by (auto simp: lexes_one_def)

lemma ahead_consume: "c \<noteq> CHR 0x00 \<Longrightarrow> ahead lx (snd (consume c lx))"
  by (auto simp: consume_def ahead_def peek_def Let_def)

lemma ahead_scan_digits: "ahead lx (snd (scan_digits base saw lx))"
proof (induction base saw lx rule: scan_digits.induct)
  case (1 base saw lx)
  then show ?case by (subst scan_digits.simps) (auto intro: ahead_trans [OF ahead_advance])
qed

lemma ahead_string_body: "ahead lx (snd (string_body lx))"
proof (induction lx rule: string_body.induct)
  case (1 lx)
  have two: "ahead lx (advance (advance lx))" by (rule ahead_trans [OF ahead_advance ahead_advance])
  show ?case using 1 two
    by (subst string_body.simps) (auto simp: Let_def intro: ahead_trans [OF ahead_advance] ahead_trans [OF two])
qed

lemma ahead_fraction: "ahead lx (snd (scan_fraction base lx))"
  by (auto simp: scan_fraction_def intro: ahead_trans [OF ahead_advance])

lemma ahead_exponent: "ahead lx (snd (scan_exponent base start lx))"
proof -
  have "ahead lx (advance_while is_decimal (advance (advance lx)))" "ahead lx (advance_while is_decimal (advance lx))"
    by (blast intro: ahead_trans)+
  then show ?thesis by (auto simp: scan_exponent_def Let_def intro: ahead_trans)
qed

lemma not_at_end_peek: "peek lx 0 \<noteq> CHR 0x00 \<Longrightarrow> \<not> at_end lx"
  using peek_at_end by metis

lemma keyword_kind_not_eof: "keyword_kind s \<noteq> Tk_end_of_file"
  by (simp add: keyword_kind_def split: option.splits)

lemma lexes_identifier: "lexes_one lx (lex_identifier_or_keyword lx)"
  by (auto simp: lex_identifier_or_keyword_def Let_def intro!: lexes_oneI keyword_kind_not_eof)

lemma lexes_string: "lexes_one lx (lex_string lx)"
  using ahead_string_body [of "advance lx"]
  by (auto simp: lex_string_def Let_def split: prod.splits intro!: lexes_oneI intro: ahead_trans)

lemma lexes_lifetime: "lexes_one lx (lex_lifetime lx)"
  by (auto simp: lex_lifetime_def Let_def intro!: lexes_oneI intro: ahead_trans [OF ahead_advance])

lemma lexes_consume_chain:
  "list_all (\<lambda>(c, k). c \<noteq> CHR 0x00) cs \<Longrightarrow> ahead (advance lx) lx1 \<Longrightarrow> lexes_one lx (consume_chain cs k (lx_offset lx) lx1)"
proof (induction cs arbitrary: lx1)
  case (Cons ck cs)
  obtain c k' where ck: "ck = (c, k')" by (cases ck)
  obtain hit lx2 where r: "consume c lx1 = (hit, lx2)" by (cases "consume c lx1")
  have "ahead (advance lx) lx2" using ahead_consume [of c lx1] Cons.prems r ck by (auto intro: ahead_trans)
  then show ?case using Cons ck r by (cases hit) (auto intro!: lexes_oneI)
qed (auto intro!: lexes_oneI)

lemma lexes_character: "lexes_one lx (lex_character lx)"
proof (cases "at_end (advance lx) \<or> peek (advance lx) 0 = CHR 0x0A")
  case True
  then show ?thesis by (auto simp: lex_character_def Let_def intro!: lexes_oneI)
next
  case False
  let ?lx2 = "if peek (advance lx) 0 = CHR 0x5C
     then (let lx' = advance (advance lx) in if \<not> at_end lx' then advance lx' else lx') else advance (advance lx)"
  obtain closed lx3 where r: "consume (CHR 0x27) ?lx2 = (closed, lx3)" by (cases "consume (CHR 0x27) ?lx2")
  let ?lx4 = "snd (consume (CHR 0x27) (advance_while (\<lambda>c. c \<noteq> CHR 0x0A \<and> c \<noteq> CHR 0x27) lx3))"
  have "ahead (advance lx) ?lx2" by (auto simp: Let_def intro: ahead_trans [OF ahead_advance])
  also have "ahead ?lx2 lx3" using ahead_consume [of "CHR 0x27" ?lx2] r by simp
  finally have 3: "ahead (advance lx) lx3" .
  also have "ahead lx3 ?lx4"
    by (rule ahead_trans [OF ahead_advance_while ahead_consume]) simp
  finally have 4: "ahead (advance lx) ?lx4" .
  show ?thesis
    using False 3 4 unfolding lex_character_def Let_def [of "lx_offset lx"] Let_def [of "advance lx"] Let_def [of ?lx2] r
    by (cases closed) (auto simp: Let_def r intro!: lexes_oneI intro: ahead_trans)
qed

lemma ahead_number_base: "isdigit (peek lx 0) \<Longrightarrow> ahead lx (snd (number_base lx))"
  by (auto simp: number_base_def intro: ahead_trans [OF ahead_advance])

text \<open>A number starts with a digit, which its base prefix or its digit loop consumes.\<close>

lemma isdigit_is_decimal: "isdigit c \<Longrightarrow> is_digit_for_base c 10"
  by (auto simp: isdigit_def is_digit_for_base_def Let_def)

lemma digits_past_first:
  assumes "isdigit (peek lx 0)" and "number_base lx = (base, lx1)" and "scan_digits base False lx1 = (saw, lx2)"
  shows "ahead (advance lx) lx2"
proof -
  have ne: "\<not> at_end lx" using assms(1) by (intro not_at_end_peek) (auto simp: isdigit_def)
  consider "lx1 = advance (advance lx)" | "base = 10" "lx1 = lx"
    using assms(2) by (auto simp: number_base_def split: if_splits)
  then show ?thesis
  proof cases
    case 1
    then show ?thesis using ahead_scan_digits [of lx1 base False] assms(3) by (auto intro: ahead_trans [OF ahead_advance])
  next
    case 2
    have "scan_digits 10 False lx = scan_digits 10 (peek lx 0 \<noteq> CHR ''_'') (advance lx)"
      using ne isdigit_is_decimal [OF assms(1)] by (subst scan_digits.simps) simp
    then show ?thesis
      using ahead_scan_digits [of "advance lx" 10 "peek lx 0 \<noteq> CHR ''_''"] 2 assms(3) by simp
  qed
qed

lemma lexes_number:
  assumes "isdigit (peek lx 0)"
  shows "lexes_one lx (lex_number lx)"
proof -
  obtain base lx1 where b: "number_base lx = (base, lx1)" by (cases "number_base lx")
  obtain saw lx2 where d: "scan_digits base False lx1 = (saw, lx2)" by (cases "scan_digits base False lx1")
  define lx3 where "lx3 = (if \<not> saw \<and> base \<noteq> 10
     then report ''D0002'' (lx_offset lx) (lx_offset lx2) ''numeric base prefix requires at least one digit'' lx2 else lx2)"
  obtain fraction lx4 where f: "scan_fraction base lx3 = (fraction, lx4)" by (cases "scan_fraction base lx3")
  obtain exponent lx5 where e: "scan_exponent base (lx_offset lx) lx4 = (exponent, lx5)"
    by (cases "scan_exponent base (lx_offset lx) lx4")
  have "ahead (advance lx) lx2" by (rule digits_past_first [OF assms b d])
  also have "ahead lx2 lx3" by (simp add: lx3_def)
  also have "ahead lx3 lx4" using ahead_fraction [of lx3 base] f by simp
  also have "ahead lx4 lx5" using ahead_exponent [of lx4 base "lx_offset lx"] e by simp
  also have "ahead lx5 (advance_while (\<lambda>c. isalnum c \<or> c = CHR ''_'') lx5)" by (rule ahead_advance_while)
  finally show ?thesis
    unfolding lex_number_def Let_def b d prod.case lx3_def [symmetric] f e by (auto intro!: lexes_oneI)
qed

lemma ahead_consume_True: "c \<noteq> CHR 0x00 \<Longrightarrow> consume c lx = (b, lx') \<Longrightarrow> ahead lx lx'"
  using ahead_consume [of c lx] by simp

lemma lexes_punctuation: "lex_punctuation lx = Some r \<Longrightarrow> lexes_one lx r"
  by (auto simp: lex_punctuation_def Let_def simp del: consume_chain.simps
      split: option.splits if_splits prod.splits bool.splits
      intro!: lexes_oneI lexes_consume_chain dest: ahead_consume_True [rotated])

lemma ahead_skip_trivia: "ahead lx (skip_trivia lx)"
proof (induction lx rule: skip_trivia.induct)
  case (1 lx)
  let ?l = "advance_while is_space lx"
  have "ahead lx (advance (advance ?l))"
    by (rule ahead_trans [OF ahead_advance_while ahead_trans [OF ahead_advance ahead_advance]])
  then have "ahead lx (skip_line_comment (advance (advance ?l)))" "ahead lx (skip_block_comment (advance (advance ?l)))"
    by (blast intro: ahead_trans)+
  then show ?case using 1 by (subst skip_trivia.simps) (auto simp: Let_def intro: ahead_trans)
qed

text \<open>One token: the end of the file without moving, or text passed after the trivia.\<close>

lemma next_token_cases:
  obtains (eof) "at_end (skip_trivia lx)"
      "next_token lx = (make_token Tk_end_of_file (lx_offset (skip_trivia lx)) (skip_trivia lx), skip_trivia lx)"
    | (token) "\<not> at_end (skip_trivia lx)" "lexes_one (skip_trivia lx) (next_token lx)"
proof (cases "at_end (skip_trivia lx)")
  case True
  then show ?thesis using eof by (simp add: next_token_def Let_def)
next
  case False
  let ?l = "skip_trivia lx"
  have "lexes_one ?l (next_token lx)"
    using False lexes_identifier [of ?l] lexes_number [of ?l] lexes_string [of ?l] lexes_character [of ?l]
      lexes_lifetime [of ?l] lexes_punctuation [of ?l]
    by (auto simp: next_token_def Let_def split: option.splits intro!: lexes_oneI)
  then show ?thesis using False token by blast
qed

lemma next_token_remaining:
  "tok_kind (fst (next_token lx)) \<noteq> Tk_end_of_file \<Longrightarrow> remaining (snd (next_token lx)) < remaining lx"
proof (cases rule: next_token_cases [of lx])
  case token
  then have "remaining (snd (next_token lx)) \<le> remaining (advance (skip_trivia lx))"
    by (auto simp: lexes_one_def intro: remaining_ahead)
  then show ?thesis
    using remaining_advance [OF token(1)] remaining_ahead [OF ahead_skip_trivia, of lx] by simp
qed (simp add: make_token_def)

function lex_all :: "lexer \<Rightarrow> raz_token list \<times> lexer" where
  "lex_all lx =
     (let (token, lx') = next_token lx
      in if tok_kind token = Tk_end_of_file then ([token], lx')
         else (let (tokens, lx'') = lex_all lx' in (token # tokens, lx'')))"
  by pat_completeness auto
termination
proof (relation "measure remaining", goal_cases)
  case (2 lx r token lx')
  then show ?case using next_token_remaining [of lx] by (cases "next_token lx") auto
qed simp

declare lex_all.simps [simp del]

end
