(* ===== verification/Raz_Lexer_Props.thy ===== *)
theory Raz_Lexer_Props
  imports Raz_Lexer Raz_Source_Props
begin

text \<open>
  What the lexer promises the parser: the tokens cover the file in order, identifiers and punctuation
  are longest matches, and a text that passes without a report holds only the spellings defined below.
\<close>

section \<open>The interface of a tokenizer\<close>

abbreviation tok_start :: "raz_token \<Rightarrow> nat" where
  "tok_start t \<equiv> loc_offset (rg_begin (tok_range t))"

abbreviation tok_stop :: "raz_token \<Rightarrow> nat" where
  "tok_stop t \<equiv> loc_offset (rg_end (tok_range t))"

inductive token_run :: "(lexer \<Rightarrow> raz_token \<times> lexer) \<Rightarrow> lexer \<Rightarrow> raz_token list \<Rightarrow> lexer \<Rightarrow> bool"
  for nxt :: "lexer \<Rightarrow> raz_token \<times> lexer" where
  run_end: "nxt lx = (t, lx') \<Longrightarrow> tok_kind t = Tk_end_of_file \<Longrightarrow> token_run nxt lx [t] lx'"
| run_step: "nxt lx = (t, lx') \<Longrightarrow> tok_kind t \<noteq> Tk_end_of_file \<Longrightarrow> token_run nxt lx' ts lx'' \<Longrightarrow>
    token_run nxt lx (t # ts) lx''"

text \<open>Tokens from position \<open>i\<close> to the end \<open>n\<close> of the text: in order, apart, none empty but the end marker.\<close>

fun tiled :: "nat \<Rightarrow> raz_token list \<Rightarrow> nat \<Rightarrow> bool" where
  "tiled i [] n \<longleftrightarrow> False"
| "tiled i [t] n \<longleftrightarrow> tok_kind t = Tk_end_of_file \<and> i \<le> n \<and> tok_start t = n \<and> tok_stop t = n"
| "tiled i (t # ts) n \<longleftrightarrow>
     tok_kind t \<noteq> Tk_end_of_file \<and> i \<le> tok_start t \<and> tok_start t < tok_stop t \<and> tiled (tok_stop t) ts n"

locale tokenizer =
  fixes nxt :: "lexer \<Rightarrow> raz_token \<times> lexer"
  assumes moves: "nxt lx = (t, lx') \<Longrightarrow> ahead lx lx'"
    and spans: "nxt lx = (t, lx') \<Longrightarrow> lx_offset lx \<le> tok_start t \<and> tok_stop t = lx_offset lx'"
    and in_file: "nxt lx = (t, lx') \<Longrightarrow> loc_file (rg_begin (tok_range t)) = lx_file lx \<and> loc_file (rg_end (tok_range t)) = lx_file lx"
    and nonempty: "nxt lx = (t, lx') \<Longrightarrow> tok_kind t \<noteq> Tk_end_of_file \<Longrightarrow> tok_start t < tok_stop t"
    and end_only: "nxt lx = (t, lx') \<Longrightarrow> tok_kind t = Tk_end_of_file \<Longrightarrow> tok_start t = tok_stop t \<and> at_end lx'"
begin

lemma run_tiled:
  "token_run nxt lx ts lx' \<Longrightarrow> lx_offset lx \<le> length (lx_text lx) \<Longrightarrow>
   tiled (lx_offset lx) ts (length (lx_text lx)) \<and> lx_text lx' = lx_text lx \<and> at_end lx'"
proof (induction rule: token_run.induct)
  case (run_end lx t lx')
  then show ?case
    using moves [OF run_end(1)] spans [OF run_end(1)] end_only [OF run_end(1,2)] by (auto simp: ahead_def at_end_def)
next
  case (run_step lx t lx' ts lx'')
  have "ts \<noteq> []" using run_step(3) by (auto elim: token_run.cases)
  then show ?case
    using run_step moves [OF run_step(1)] spans [OF run_step(1)] nonempty [OF run_step(1,2)]
    by (cases ts) (auto simp: ahead_def)
qed

lemma run_in_file: "token_run nxt lx ts lx' \<Longrightarrow> t \<in> set ts \<Longrightarrow>
   loc_file (rg_begin (tok_range t)) = lx_file lx \<and> loc_file (rg_end (tok_range t)) = lx_file lx"
proof (induction rule: token_run.induct)
  case (run_step lx t lx' ts lx'')
  then show ?case using in_file [OF run_step(1)] moves [OF run_step(1)] by (auto simp: ahead_def)
qed (use in_file in auto)

lemma run_functional: "token_run nxt lx ts lx' \<Longrightarrow> token_run nxt lx ts2 lx2 \<Longrightarrow> ts2 = ts \<and> lx2 = lx'"
proof (induction arbitrary: ts2 lx2 rule: token_run.induct)
  case (run_end lx t lx')
  from run_end(3) show ?case by (cases rule: token_run.cases) (use run_end(1,2) in simp_all)
next
  case (run_step lx t lx' ts lx'')
  from run_step(5) show ?case
  proof (cases rule: token_run.cases)
    case (run_step t' l' ts')
    then show ?thesis using run_step.hyps(1) run_step.IH [of ts' lx2] by simp
  qed (use run_step.hyps(1,2) in simp)
qed

end

lemma tiled_le: "tiled i ts n \<Longrightarrow> i \<le> n"
  by (induction i ts n rule: tiled.induct) auto

lemma tiled_bounds: "tiled i ts n \<Longrightarrow> t \<in> set ts \<Longrightarrow> i \<le> tok_start t \<and> tok_start t \<le> tok_stop t \<and> tok_stop t \<le> n"
proof (induction i ts n rule: tiled.induct)
  case (3 i t1 t2 ts n)
  then show ?case using tiled_le [of "tok_stop t1" "t2 # ts" n] by (cases "t = t1") auto
qed auto

section \<open>The Raz lexer is one\<close>

lemma make_token_simps [simp]:
  "tok_kind (make_token k start lx) = k" "tok_start (make_token k start lx) = start"
  "tok_stop (make_token k start lx) = lx_offset lx"
  "loc_file (rg_begin (tok_range (make_token k start lx))) = lx_file lx"
  "loc_file (rg_end (tok_range (make_token k start lx))) = lx_file lx"
  by (simp_all add: make_token_def)

lemma lexes_one_ahead: "\<not> at_end lx \<Longrightarrow> lexes_one lx r \<Longrightarrow> ahead lx (snd r) \<and> lx_offset lx < lx_offset (snd r)"
  by (auto simp: lexes_one_def ahead_def advance_def at_end_def)

lemma next_token_laws:
  assumes "next_token lx = (t, lx')"
  shows "ahead lx lx' \<and> lx_offset lx \<le> tok_start t \<and> tok_stop t = lx_offset lx' \<and>
    loc_file (rg_begin (tok_range t)) = lx_file lx \<and> loc_file (rg_end (tok_range t)) = lx_file lx \<and>
    (if tok_kind t = Tk_end_of_file then tok_start t = tok_stop t \<and> at_end lx' else tok_start t < tok_stop t)"
proof (cases rule: next_token_cases [of lx])
  case eof
  then show ?thesis using assms ahead_skip_trivia [of lx] by (auto simp: ahead_def)
next
  case token
  then have "ahead (skip_trivia lx) lx'" "lx_offset (skip_trivia lx) < lx_offset lx'"
    using lexes_one_ahead assms by fastforce+
  moreover obtain k where "k \<noteq> Tk_end_of_file" "t = make_token k (lx_offset (skip_trivia lx)) lx'"
    using token assms by (auto simp: lexes_one_def)
  ultimately show ?thesis using ahead_skip_trivia [of lx] by (auto simp: ahead_def)
qed

interpretation raz: tokenizer next_token
proof (unfold_locales, goal_cases)
  case (1 lx t lx') then show ?case using next_token_laws by blast
next
  case (2 lx t lx') then show ?case using next_token_laws by blast
next
  case (3 lx t lx') then show ?case using next_token_laws by blast
next
  case (4 lx t lx') then show ?case using next_token_laws [of lx t lx'] by simp
next
  case (5 lx t lx') then show ?case using next_token_laws [of lx t lx'] by simp
qed

lemma lex_all_run: "token_run next_token lx (fst (lex_all lx)) (snd (lex_all lx))"
proof (induction lx rule: lex_all.induct)
  case (1 lx)
  obtain t lx' where n: "next_token lx = (t, lx')" by (cases "next_token lx")
  show ?case
  proof (cases "tok_kind t = Tk_end_of_file")
    case True
    then show ?thesis using n by (subst (1 2) lex_all.simps) (simp add: run_end)
  next
    case False
    then have "token_run next_token lx' (fst (lex_all lx')) (snd (lex_all lx'))" using 1 n by simp
    then have "token_run next_token lx (t # fst (lex_all lx')) (snd (lex_all lx'))" by (rule run_step [of next_token, OF n False])
    then show ?thesis using n False by (subst (1 2) lex_all.simps) (simp add: case_prod_beta)
  qed
qed

text \<open>
  C16. Lexing a file: \<open>lex_all\<close> ends, and its tokens are ranges of that file in source order that do not
  overlap; no token but the final end-of-file marker is empty, and the marker stands at the end of the
  text. It is the only run of \<open>next\<close> up to the marker.
\<close>

theorem lex_all_covers_file:
  fixes files de fid
  defines "lx \<equiv> new_lexer files de fid"
  shows "tiled 0 (fst (lex_all lx)) (length (source_text files fid)) \<and>
    list_all (\<lambda>t. tok_range t = \<lparr>rg_begin = \<lparr>loc_file = fid, loc_offset = tok_start t\<rparr>,
       rg_end = \<lparr>loc_file = fid, loc_offset = tok_stop t\<rparr>\<rparr>) (fst (lex_all lx)) \<and>
    (token_run next_token lx ts lx' \<longleftrightarrow> lex_all lx = (ts, lx'))"
proof -
  have s: "lx_text lx = source_text files fid" "lx_offset lx = 0" "lx_file lx = fid"
    by (simp_all add: lx_def new_lexer_def)
  have "tiled 0 (fst (lex_all lx)) (length (source_text files fid))"
    using raz.run_tiled [OF lex_all_run, of lx] s by simp
  moreover have "tok_range t = \<lparr>rg_begin = \<lparr>loc_file = fid, loc_offset = tok_start t\<rparr>,
       rg_end = \<lparr>loc_file = fid, loc_offset = tok_stop t\<rparr>\<rparr>" if "t \<in> set (fst (lex_all lx))" for t
    using raz.run_in_file [OF lex_all_run that] s by simp
  moreover have "token_run next_token lx ts lx' \<longleftrightarrow> lex_all lx = (ts, lx')"
    using raz.run_functional [OF lex_all_run, of lx] lex_all_run [of lx] by (metis fst_conv snd_conv surjective_pairing)
  ultimately show ?thesis by (simp add: list_all_iff)
qed

section \<open>Identifiers\<close>

definition rest_of :: "lexer \<Rightarrow> string" where
  "rest_of lx = drop (lx_offset lx) (lx_text lx)"

lemma peek_rest: "peek lx k = (if k < length (rest_of lx) then rest_of lx ! k else CHR 0x00)"
  by (auto simp: peek_def rest_of_def Let_def add.commute)

lemma rest_Nil: "at_end lx \<longleftrightarrow> rest_of lx = []"
  by (auto simp: at_end_def rest_of_def)

lemma rest_advance: "rest_of (advance lx) = tl (rest_of lx)"
  by (simp add: rest_of_def advance_def at_end_def drop_Suc tl_drop)

lemma offset_advance: "rest_of lx \<noteq> [] \<Longrightarrow> lx_offset (advance lx) = Suc (lx_offset lx)"
  by (auto simp: rest_of_def advance_def at_end_def)

lemma advance_while_eq:
  "advance_while p lx = lx\<lparr>lx_offset := lx_offset lx + length (takeWhile p (rest_of lx))\<rparr>"
proof (induction p lx rule: advance_while.induct)
  case (1 p lx)
  show ?case
  proof (cases "rest_of lx")
    case Nil
    then show ?thesis by (subst advance_while.simps) (simp add: rest_Nil)
  next
    case (Cons c cs)
    have a: "advance lx = lx\<lparr>lx_offset := lx_offset lx + 1\<rparr>" using Cons by (simp add: advance_def rest_Nil)
    show ?thesis using 1 Cons rest_advance [of lx]
      by (subst advance_while.simps) (auto simp: rest_Nil peek_rest a)
  qed
qed

text \<open>The reserved words of LANGUAGE-SPECIFICATION 2.3, in its order, and the words on which the lexer differs.\<close>

definition reserved_words :: "string list" where
  "reserved_words =
     [''as'', ''async'', ''auto'', ''await'', ''break'', ''case'', ''comptime'', ''const'', ''continue'', ''defer'', ''derive'', ''dyn'', ''else'', ''enum'',
      ''extern'', ''false'', ''fn'', ''for'', ''global'', ''if'', ''impl'', ''import'', ''in'', ''match'', ''move'', ''mut'', ''namespace'', ''null'',
      ''private'', ''public'', ''ref'', ''return'', ''self'', ''spawn'', ''static'', ''struct'', ''thread_local'', ''trait'', ''true'', ''type'', ''union'',
      ''unsafe'', ''while'']"

definition unreserved_words :: "string set" where
  "unreserved_words = {''auto'', ''derive'', ''global'', ''self'', ''thread_local''}"

lemma keyword_words: "map fst keyword_table = filter (\<lambda>w. w \<notin> unreserved_words) reserved_words @ [''pub'', ''priv'']"
  by code_simp

lemma keyword_iff: "map_of keyword_table w \<noteq> None \<longleftrightarrow> w \<in> set reserved_words - unreserved_words \<union> {''pub'', ''priv''}"
proof -
  have "map_of keyword_table w \<noteq> None \<longleftrightarrow> w \<in> set (map fst keyword_table)" by (simp add: map_of_eq_None_iff)
  then show ?thesis unfolding keyword_words by auto
qed

text \<open>
  C18. Words are longest matches, and the keywords are almost the reserved words: where the text after the trivia starts like an
  identifier, the token is the longest run of identifier characters, a keyword with its spelling or an identifier. The keywords are the
  reserved words of LANGUAGE-SPECIFICATION 2.3 without \<open>auto\<close>, \<open>derive\<close>, \<open>global\<close>, \<open>self\<close> and \<open>thread_local\<close>, which the lexer takes for
  identifiers against the specification, and with \<open>pub\<close> and \<open>priv\<close>, which the specification does not reserve.
\<close>

theorem identifiers_longest_match:
  assumes "rest_of (skip_trivia lx) = c # cs" and "is_identifier_start c"
  shows "let word = c # takeWhile is_identifier_continue cs;
             lx' = (skip_trivia lx)\<lparr>lx_offset := lx_offset (skip_trivia lx) + length word\<rparr>
         in next_token lx = (make_token (case map_of keyword_table word of Some k \<Rightarrow> Keyword k | None \<Rightarrow> Tk_identifier)
              (lx_offset (skip_trivia lx)) lx', lx') \<and>
            (map_of keyword_table word \<noteq> None \<longleftrightarrow> word \<in> set reserved_words - unreserved_words \<union> {''pub'', ''priv''})"
proof -
  let ?l = "skip_trivia lx"
  have e: "\<not> at_end ?l" "peek ?l 0 = c" using assms(1) by (simp_all add: rest_Nil peek_rest)
  have adv: "advance ?l = ?l\<lparr>lx_offset := lx_offset ?l + 1\<rparr>" using e by (simp add: advance_def)
  have sub: "subspan (lx_text ?l) (lx_offset ?l) (Suc (length (takeWhile is_identifier_continue cs))) =
      c # takeWhile is_identifier_continue cs"
    using assms(1) by (simp add: subspan_def rest_of_def takeWhile_eq_take [symmetric])
  show ?thesis
    using e assms rest_advance [of ?l] sub
    unfolding keyword_iff by (simp add: next_token_def Let_def lex_identifier_or_keyword_def advance_while_eq keyword_kind_def adv)
qed

section \<open>Punctuation\<close>

text \<open>The spellings, longest first.\<close>

definition punctuation_table :: "(string \<times> punctuation) list" where
  "punctuation_table =
     [(''...'', Pn_ellipsis), (''..='', Pn_dot_dot_equal), (''<<='', Pn_less_less_equal),
      (''>>='', Pn_greater_greater_equal),
      (''::'', Pn_colon_colon), (''..'', Pn_dot_dot), (''+='', Pn_plus_equal), (''++'', Pn_plus_plus), (''->'', Pn_arrow),
      (''-='', Pn_minus_equal), (''--'', Pn_minus_minus), (''*='', Pn_star_equal), (''/='', Pn_slash_equal),
      (''%='', Pn_percent_equal), (''&&'', Pn_ampersand_ampersand), (''&='', Pn_ampersand_equal),
      (''||'', Pn_pipe_pipe), (''|='', Pn_pipe_equal), (''^='', Pn_caret_equal), (''!='', Pn_bang_equal),
      (''=>'', Pn_fat_arrow), (''=='', Pn_equal_equal), (''<<'', Pn_less_less), (''<='', Pn_less_equal),
      (''>>'', Pn_greater_greater), (''>='', Pn_greater_equal),
      (''('', Pn_left_paren), ('')'', Pn_right_paren), (''{'', Pn_left_brace), (''}'', Pn_right_brace),
      (''['', Pn_left_bracket), ('']'', Pn_right_bracket), ('','', Pn_comma), ('';'', Pn_semicolon), (''?'', Pn_question),
      (''@'', Pn_at), (''#'', Pn_hash), (''~'', Pn_tilde), ('':'', Pn_colon), (''.'', Pn_dot), (''+'', Pn_plus),
      (''-'', Pn_minus), (''*'', Pn_star), (''/'', Pn_slash), (''%'', Pn_percent), (''&'', Pn_ampersand), (''|'', Pn_pipe),
      (''^'', Pn_caret), (''!'', Pn_bang), (''='', Pn_equal), (''<'', Pn_less), (''>'', Pn_greater)]"

fun spelled :: "string \<Rightarrow> lexer \<Rightarrow> bool" where
  "spelled [] lx \<longleftrightarrow> True"
| "spelled (c # cs) lx \<longleftrightarrow> peek lx 0 = c \<and> spelled cs (advance lx)"

lemma spelled_prefix: "CHR 0x00 \<notin> set s \<Longrightarrow> spelled s lx \<longleftrightarrow> take (length s) (rest_of lx) = s"
proof (induction s arbitrary: lx)
  case (Cons c s)
  then show ?case by (cases "rest_of lx") (auto simp: peek_rest rest_advance)
qed simp

lemma consume_eq: "c \<noteq> CHR 0x00 \<Longrightarrow> consume c lx = (peek lx 0 = c, if peek lx 0 = c then advance lx else lx)"
  by (auto simp: consume_def advance_def dest: not_at_end_peek)

definition punctuation_result :: "lexer \<Rightarrow> string \<times> punctuation \<Rightarrow> raz_token \<times> lexer" where
  "punctuation_result lx = (\<lambda>(s, k). (make_token (Punct k) (lx_offset lx) ((advance ^^ length s) lx), (advance ^^ length s) lx))"

lemma punctuation_heads:
  "peek lx 0 \<notin> set (map (hd \<circ> fst) punctuation_table) \<Longrightarrow> lex_punctuation lx = None \<and> find (\<lambda>(s, k). spelled s lx) punctuation_table = None"
  by (simp add: punctuation_table_def lex_punctuation_def one_char_def Let_def)

lemma punctuation_by_table:
  "lex_punctuation lx = map_option (punctuation_result lx) (find (\<lambda>(s, k). spelled s lx) punctuation_table)"
proof (cases "peek lx 0 \<in> set (map (hd \<circ> fst) punctuation_table)")
  case False
  then show ?thesis using punctuation_heads by simp
next
  case True
  note defs = punctuation_table_def lex_punctuation_def one_char_def Let_def consume_eq punctuation_result_def
  from True have "peek lx 0 \<in> {CHR ''.'', CHR ''<'', CHR ''>'', CHR '':'', CHR ''+'', CHR ''-'', CHR ''*'', CHR ''/'',
     CHR ''%'', CHR ''&'', CHR ''|'', CHR ''^'', CHR ''!'', CHR ''='', CHR ''('', CHR '')'', CHR ''{'', CHR ''}'',
     CHR ''['', CHR '']'', CHR '','', CHR '';'', CHR ''?'', CHR ''@'', CHR ''#'', CHR ''~''}"
    by (auto simp: punctuation_table_def)
  then show ?thesis by (elim insertE emptyE) (simp_all add: defs)
qed

text \<open>
  C17. Punctuation: the switch of \<open>next\<close> finds the first entry of the table of all spellings, which lists longer
  spellings first, that the remaining text starts with; where none does, it has no token.
\<close>

theorem punctuation_longest_match:
  "lex_punctuation lx = map_option (punctuation_result lx)
      (find (\<lambda>(s, k). take (length s) (rest_of lx) = s) punctuation_table) \<and>
   sorted_wrt (\<lambda>(s, _) (t, _). length t \<le> length s) punctuation_table \<and> distinct (map fst punctuation_table)"
proof -
  have "list_all (\<lambda>(s, k). CHR 0x00 \<notin> set s) punctuation_table" by (simp add: punctuation_table_def)
  then have "find (\<lambda>(s, k). spelled s lx) punctuation_table =
      find (\<lambda>(s, k). take (length s) (rest_of lx) = s) punctuation_table"
    by (intro find_cong) (auto simp: list_all_iff spelled_prefix)
  moreover have "sorted_wrt (\<lambda>(s, _) (t, _). length t \<le> length s) punctuation_table"
    "distinct (map fst punctuation_table)" by (simp_all add: punctuation_table_def)
  ultimately show ?thesis using punctuation_by_table [of lx] by simp
qed

section \<open>Errors\<close>

definition errs :: "lexer \<Rightarrow> nat" where
  "errs lx = de_error_count (lx_diagnostics lx)"

lemma errs_simps [simp]:
  "errs (advance lx) = errs lx" "errs (report code start stop message lx) = Suc (errs lx)"
  "errs (advance_while p lx) = errs lx" "errs (lx\<lparr>lx_offset := n\<rparr>) = errs lx"
  "errs (snd (consume c lx)) = errs lx"
  by (simp_all add: errs_def advance_def report_def engine_error_def report_diagnostic_def plain_diagnostic_def
      record_diagnostic_def advance_while_eq consume_def)

lemma errs_consume [simp]: "consume c lx = (b, lx') \<Longrightarrow> errs lx' = errs lx"
  using errs_simps(5) [of c lx] by simp

lemma errs_block_comment: "errs (snd (block_comment d lx)) = errs lx"
proof (induction d lx rule: block_comment.induct)
  case (1 d lx)
  then show ?case by (subst block_comment.simps) auto
qed

lemma errs_skip_trivia: "errs lx \<le> errs (skip_trivia lx)"
proof (induction lx rule: skip_trivia.induct)
  case (1 lx)
  have "errs l \<le> errs (skip_block_comment l)" for l
    using errs_block_comment [of 1 l] by (auto simp: skip_block_comment_def Let_def split: prod.splits)
  then have "errs lx \<le> errs (skip_block_comment (advance (advance (advance_while is_space lx))))"
    by (metis errs_simps(1,3))
  then show ?case using 1
    by (subst skip_trivia.simps) (auto simp: Let_def skip_line_comment_def intro: order_trans)
qed

lemma errs_scan_digits: "errs (snd (scan_digits base saw lx)) = errs lx"
proof (induction base saw lx rule: scan_digits.induct)
  case (1 base saw lx)
  then show ?case by (subst scan_digits.simps) auto
qed

text \<open>Well-formed lexemes.\<close>

fun closed_string :: "string \<Rightarrow> bool" where
  "closed_string [] \<longleftrightarrow> False"
| "closed_string (c # cs) \<longleftrightarrow>
     (if c = CHR 0x22 then cs = []
      else if c = CHR 0x5C then (case cs of [] \<Rightarrow> False | _ # r \<Rightarrow> closed_string r)
      else c \<noteq> CHR 0x0A \<and> closed_string cs)"

definition character_spelling :: "string \<Rightarrow> bool" where
  "character_spelling s \<longleftrightarrow>
     (\<exists>c. s = [CHR 0x27, c, CHR 0x27] \<and> c \<noteq> CHR 0x5C \<and> c \<noteq> CHR 0x0A) \<or> (\<exists>c. s = [CHR 0x27, CHR 0x5C, c, CHR 0x27])"

definition identifier_spelling :: "string \<Rightarrow> bool" where
  "identifier_spelling s \<longleftrightarrow> s \<noteq> [] \<and> is_identifier_start (hd s) \<and> list_all is_identifier_continue (tl s)"

text \<open>
  Numbers. A prefix \<open>0x\<close>, \<open>0b\<close> or \<open>0o\<close> is followed by
  digits of its base with separators, at least one of them a digit. Without a prefix there are decimal digits, a fraction, an exponent
  and a suffix of letters, digits and separators; the exponent has a character, which may be a separator.
\<close>

definition base_digit :: "nat \<Rightarrow> char \<Rightarrow> bool" where
  "base_digit b c \<longleftrightarrow> c \<in> set (take b ''0123456789abcdef'') \<or> c \<in> set (take b ''0123456789ABCDEF'')"

definition run_char :: "nat \<Rightarrow> char \<Rightarrow> bool" where
  "run_char b c \<longleftrightarrow> base_digit b c \<or> c = CHR ''_''"

definition number_suffix :: "nat \<Rightarrow> string \<Rightarrow> bool" where
  "number_suffix b s \<longleftrightarrow> list_all (\<lambda>c. isalnum c \<or> c = CHR ''_'') s \<and> (s \<noteq> [] \<longrightarrow> \<not> run_char b (hd s))"

definition base_prefixes :: "(char \<times> nat) list" where
  "base_prefixes = [(CHR ''x'', 16), (CHR ''X'', 16), (CHR ''b'', 2), (CHR ''B'', 2), (CHR ''o'', 8), (CHR ''O'', 8)]"

definition prefixed_spelling :: "string \<Rightarrow> bool" where
  "prefixed_spelling s \<longleftrightarrow> (\<exists>p b ds suffix. s = CHR ''0'' # p # ds @ suffix \<and> (p, b) \<in> set base_prefixes \<and>
     list_all (run_char b) ds \<and> list_ex (base_digit b) ds \<and> number_suffix b suffix)"

definition fraction_spelling :: "string \<Rightarrow> bool" where
  "fraction_spelling s \<longleftrightarrow> (\<exists>d ds. s = CHR ''.'' # d # ds \<and> base_digit 10 d \<and> list_all (run_char 10) ds)"

definition exponent_spelling :: "string \<Rightarrow> bool" where
  "exponent_spelling s \<longleftrightarrow> (\<exists>e sign ds. s = e # sign @ ds \<and> e \<in> set ''eE'' \<and> sign \<in> {[], ''+'', ''-''} \<and> ds \<noteq> [] \<and> list_all (run_char 10) ds)"

definition decimal_spelling :: "bool \<Rightarrow> string \<Rightarrow> bool" where
  "decimal_spelling floating s \<longleftrightarrow> (\<exists>d ds fraction exponent suffix. s = d # ds @ fraction @ exponent @ suffix \<and>
     base_digit 10 d \<and> list_all (run_char 10) ds \<and> (fraction = [] \<or> fraction_spelling fraction) \<and>
     (exponent = [] \<or> exponent_spelling exponent) \<and> number_suffix 10 suffix \<and>
     (exponent = [] \<longrightarrow> suffix \<noteq> [] \<longrightarrow> hd suffix \<notin> set ''eE'') \<and>
     (d = CHR ''0'' \<and> ds @ fraction @ exponent = [] \<longrightarrow> suffix \<noteq> [] \<longrightarrow> hd suffix \<notin> set (map fst base_prefixes)) \<and>
     (floating \<longleftrightarrow> fraction @ exponent \<noteq> []))"

text \<open>
  What stands between tokens: blanks, line comments up to the end of their line, and block comments, which nest and are closed. A line
  comment that the text ends is followed by the end of the file only (\<open>final\<close>).
\<close>

fun closes :: "nat \<Rightarrow> string \<Rightarrow> bool" where
  "closes 0 s \<longleftrightarrow> s = []"
| "closes (Suc d) [] \<longleftrightarrow> False"
| "closes (Suc d) [c] \<longleftrightarrow> False"
| "closes (Suc d) (a # b # s) \<longleftrightarrow>
     (if a = CHR ''/'' \<and> b = CHR ''*'' then closes (Suc (Suc d)) s
      else if a = CHR ''*'' \<and> b = CHR ''/'' then closes d s
      else closes (Suc d) (b # s))"

inductive trivia :: "bool \<Rightarrow> string \<Rightarrow> bool" for final where
  no_trivia: "trivia final []"
| blank: "is_space c \<Longrightarrow> trivia final s \<Longrightarrow> trivia final (c # s)"
| line_comment: "CHR 0x0A \<notin> set w \<Longrightarrow> (if s = [] then final else hd s = CHR 0x0A) \<Longrightarrow> trivia final s \<Longrightarrow> trivia final (''//'' @ w @ s)"
| nested_comment: "closes 1 w \<Longrightarrow> trivia final s \<Longrightarrow> trivia final (''/*'' @ w @ s)"

fun gaps :: "string \<Rightarrow> nat \<Rightarrow> raz_token list \<Rightarrow> (bool \<times> string) list" where
  "gaps text i [] = []"
| "gaps text i (t # ts) = (tok_kind t = Tk_end_of_file, subspan text i (tok_start t - i)) # gaps text (tok_stop t) ts"

definition well_spelled :: "token_kind \<Rightarrow> string \<Rightarrow> bool" where
  "well_spelled k s \<longleftrightarrow> (case k of
     Tk_invalid \<Rightarrow> False
   | Tk_end_of_file \<Rightarrow> s = []
   | Tk_identifier \<Rightarrow> identifier_spelling s \<and> map_of keyword_table s = None
   | Tk_lifetime_identifier \<Rightarrow> s \<noteq> [] \<and> hd s = CHR 0x27 \<and> identifier_spelling (tl s)
   | Tk_integer_literal \<Rightarrow> prefixed_spelling s \<or> decimal_spelling False s
   | Tk_float_literal \<Rightarrow> decimal_spelling True s
   | Tk_string_literal \<Rightarrow> s \<noteq> [] \<and> hd s = CHR 0x22 \<and> closed_string (tl s)
   | Tk_character_literal \<Rightarrow> character_spelling s
   | Keyword w \<Rightarrow> map_of keyword_table s = Some w
   | Punct p \<Rightarrow> map_of punctuation_table s = Some p)"

lemma string_body_closed:
  "string_body lx = (b, lx') \<Longrightarrow> \<exists>n. lx_offset lx' = lx_offset lx + n \<and> n \<le> length (rest_of lx) \<and> errs lx' = errs lx \<and>
     (b \<longrightarrow> closed_string (take n (rest_of lx)))"
proof (induction lx arbitrary: b lx' rule: string_body.induct)
  case (1 lx)
  show ?case
  proof (cases "rest_of lx")
    case Nil
    then show ?thesis using "1.prems" by (subst (asm) string_body.simps) (auto simp: rest_Nil)
  next
    case (Cons c cs)
    have adv: "rest_of (advance lx) = cs" "lx_offset (advance lx) = lx_offset lx + 1" "\<not> at_end lx" "peek lx 0 = c"
      using Cons by (simp_all add: rest_advance offset_advance rest_Nil peek_rest)
    consider "c = CHR 0x22" | "c = CHR 0x5C" "cs \<noteq> []" | "c = CHR 0x0A \<or> c = CHR 0x5C \<and> cs = []"
      | "c \<noteq> CHR 0x22" "c \<noteq> CHR 0x5C" "c \<noteq> CHR 0x0A" by blast
    then show ?thesis
    proof cases
      case 1
      then show ?thesis using "1.prems" Cons adv
        by (subst (asm) string_body.simps) (auto simp: Let_def intro!: exI [of _ 1])
    next
      case 2
      then obtain e r where cs: "cs = e # r" by (cases cs) auto
      have adv2: "rest_of (advance (advance lx)) = r" "lx_offset (advance (advance lx)) = lx_offset lx + 2" "\<not> at_end (advance lx)"
        using adv cs by (simp_all add: rest_advance offset_advance rest_Nil)
      have "string_body (advance (advance lx)) = (b, lx')"
        using "1.prems" 2 adv adv2 by (subst (asm) string_body.simps) (simp add: Let_def)
      then obtain n where "lx_offset lx' = lx_offset lx + 2 + n" "n \<le> length r" "errs lx' = errs lx"
          "b \<longrightarrow> closed_string (take n r)"
        using "1.IH"(1) [OF adv(3) refl refl, of b lx'] 2 adv adv2 by auto
      then show ?thesis using Cons cs 2 by (intro exI [of _ "n + 2"]) simp
    next
      case 3
      then show ?thesis using "1.prems" Cons adv
        by (subst (asm) string_body.simps) (auto simp: Let_def rest_Nil string_body.simps intro!: exI [of _ 1])
    next
      case 4
      then have "string_body (advance lx) = (b, lx')"
        using "1.prems" adv by (subst (asm) string_body.simps) (simp add: Let_def)
      then obtain n where "lx_offset lx' = lx_offset lx + 1 + n" "n \<le> length cs" "errs lx' = errs lx"
          "b \<longrightarrow> closed_string (take n cs)"
        using "1.IH"(2) [OF adv(3) refl refl, of b lx'] 4 adv by auto
      then show ?thesis using Cons 4 by (intro exI [of _ "n + 1"]) simp
    qed
  qed
qed

definition lexeme :: "string \<Rightarrow> raz_token \<Rightarrow> string" where
  "lexeme s t = subspan s (tok_start t) (tok_stop t - tok_start t)"

lemma lexeme_make_token: "lexeme (lx_text lx) (make_token k (lx_offset lx) lx') = take (lx_offset lx' - lx_offset lx) (rest_of lx)"
  by (simp add: lexeme_def subspan_def rest_of_def)

text \<open>A token function reports nothing only on a well-formed lexeme, and never takes a report back.\<close>

definition spells :: "lexer \<Rightarrow> raz_token \<times> lexer \<Rightarrow> bool" where
  "spells lx r \<longleftrightarrow> errs lx \<le> errs (snd r) \<and>
     (errs (snd r) = errs lx \<longrightarrow> well_spelled (tok_kind (fst r)) (lexeme (lx_text lx) (fst r)))"

lemma takeWhile_list_all: "list_all p (takeWhile p xs)"
  by (auto simp: list_all_iff dest: set_takeWhileD)

lemma take_length_takeWhile: "take (length (takeWhile p xs)) xs = takeWhile p xs"
  by (metis takeWhile_eq_take)

lemma spells_identifier:
  assumes "rest_of lx = c # cs" and "is_identifier_start c"
  shows "spells lx (lex_identifier_or_keyword lx)"
proof -
  let ?w = "c # takeWhile is_identifier_continue cs"
  let ?l = "advance_while is_identifier_continue (advance lx)"
  have off: "lx_offset ?l = lx_offset lx + length ?w"
    using assms(1) by (simp add: advance_while_eq rest_advance offset_advance)
  have sub: "subspan (lx_text lx) (lx_offset lx) (length ?w) = ?w" "take (length ?w) (rest_of lx) = ?w"
    using assms(1) by (simp_all add: subspan_def rest_of_def take_length_takeWhile)
  have "identifier_spelling ?w" using assms(2) by (simp add: identifier_spelling_def takeWhile_list_all)
  then show ?thesis
    using off sub
    by (auto simp: spells_def lex_identifier_or_keyword_def Let_def lexeme_make_token keyword_kind_def well_spelled_def
        split: option.splits)
qed

text \<open>The text between two states of a scan.\<close>

definition passed :: "lexer \<Rightarrow> lexer \<Rightarrow> string" where
  "passed lx lx' = take (lx_offset lx' - lx_offset lx) (rest_of lx)"

lemma rest_of_ahead: "ahead lx lx' \<Longrightarrow> rest_of lx' = drop (lx_offset lx' - lx_offset lx) (rest_of lx)"
  by (simp add: rest_of_def ahead_def)

lemma passed_append: "ahead lx l1 \<Longrightarrow> ahead l1 l2 \<Longrightarrow> passed lx l2 = passed lx l1 @ passed l1 l2"
proof -
  assume a: "ahead lx l1" "ahead l1 l2"
  then have "lx_offset l2 - lx_offset lx = (lx_offset l1 - lx_offset lx) + (lx_offset l2 - lx_offset l1)" by (simp add: ahead_def)
  then show ?thesis using rest_of_ahead [OF a(1)] by (simp add: passed_def take_add)
qed

lemma passed_simps [simp]:
  "passed lx lx = []" "passed lx (report code a b m lx') = passed lx lx'"
  "rest_of (report code a b m lx') = rest_of lx'" "ahead lx (report code a b m lx') = ahead lx lx'"
  by (simp_all add: passed_def report_def rest_of_def ahead_def)

lemma passed_report_from: "passed (report code a b m lx) lx' = passed lx lx'"
  by (simp add: passed_def report_def rest_of_def)

lemma passed_advance: "rest_of lx = c # cs \<Longrightarrow> passed lx (advance lx) = [c]"
  by (simp add: passed_def offset_advance)

lemma passed_while: "passed lx (advance_while p lx) = takeWhile p (rest_of lx)"
  by (simp add: passed_def advance_while_eq take_length_takeWhile)

lemma rest_while: "rest_of (advance_while p lx) = dropWhile p (rest_of lx)"
  by (simp add: advance_while_eq rest_of_def dropWhile_eq_drop add.commute)

lemma code_intervals:
  "(n :: nat) \<in> {48, 49, 50, 51, 52, 53, 54, 55, 56, 57} \<longleftrightarrow> 48 \<le> n \<and> n \<le> 57" "n \<in> {48, 49, 50, 51, 52, 53, 54, 55} \<longleftrightarrow> 48 \<le> n \<and> n \<le> 55"
  "n \<in> {97, 98, 99, 100, 101, 102} \<longleftrightarrow> 97 \<le> n \<and> n \<le> 102" "n \<in> {65, 66, 67, 68, 69, 70} \<longleftrightarrow> 65 \<le> n \<and> n \<le> 70"
  "n \<in> {48, 49} \<longleftrightarrow> 48 \<le> n \<and> n \<le> 49"
  unfolding insert_iff empty_iff by presburger+

lemma base_digit_classes:
  "is_digit_for_base c 2 \<longleftrightarrow> base_digit 2 c" "is_digit_for_base c 8 \<longleftrightarrow> base_digit 8 c" "is_digit_for_base c 10 \<longleftrightarrow> base_digit 10 c"
  "is_digit_for_base c 16 \<longleftrightarrow> base_digit 16 c" "isdigit c \<longleftrightarrow> base_digit 10 c" "is_decimal c \<longleftrightarrow> run_char 10 c"
proof -
  define n :: nat where "n = of_char c"
  have mem: "c \<in> set s \<longleftrightarrow> n \<in> set (map of_char s)" for s by (auto simp: n_def)
  have under: "c = CHR ''_'' \<longleftrightarrow> n = 95" using mem [of "''_''"] by simp
  have sets: "base_digit 2 c \<longleftrightarrow> n \<in> {48, 49}" "base_digit 8 c \<longleftrightarrow> n \<in> {48, 49, 50, 51, 52, 53, 54, 55}"
    "base_digit 10 c \<longleftrightarrow> n \<in> {48, 49, 50, 51, 52, 53, 54, 55, 56, 57}"
    "base_digit 16 c \<longleftrightarrow> n \<in> {48, 49, 50, 51, 52, 53, 54, 55, 56, 57} \<or> n \<in> {97, 98, 99, 100, 101, 102} \<or> n \<in> {65, 66, 67, 68, 69, 70}"
    unfolding base_digit_def mem by (simp; blast)+
  note classes = sets [unfolded code_intervals] is_digit_for_base_def isdigit_def n_def [symmetric] Let_def
  show "is_digit_for_base c 2 \<longleftrightarrow> base_digit 2 c" "is_digit_for_base c 8 \<longleftrightarrow> base_digit 8 c" "is_digit_for_base c 10 \<longleftrightarrow> base_digit 10 c"
    "is_digit_for_base c 16 \<longleftrightarrow> base_digit 16 c" and digit: "isdigit c \<longleftrightarrow> base_digit 10 c"
    unfolding classes by (simp split: if_split; presburger)+
  show "is_decimal c \<longleftrightarrow> run_char 10 c" by (simp add: is_decimal_def run_char_def digit)
qed

lemma scan_digits_eq:
  assumes "\<forall>c. is_digit_for_base c b \<longleftrightarrow> base_digit b c"
  shows "scan_digits b saw lx = (saw \<or> list_ex (\<lambda>c. c \<noteq> CHR ''_'') (takeWhile (run_char b) (rest_of lx)), advance_while (run_char b) lx)"
  using assms
proof (induction b saw lx rule: scan_digits.induct)
  case (1 b saw lx)
  note assms = "1.prems"
  show ?case
  proof (cases "rest_of lx")
    case Nil
    then show ?thesis by (subst scan_digits.simps, subst advance_while.simps) (simp add: rest_Nil)
  next
    case (Cons c cs)
    then have c: "\<not> at_end lx" "peek lx 0 = c" "rest_of (advance lx) = cs" by (simp_all add: rest_Nil peek_rest rest_advance)
    have run: "is_digit_for_base c b \<or> c = CHR ''_'' \<longleftrightarrow> run_char b c" using assms by (simp add: run_char_def)
    show ?thesis
    proof (cases "run_char b c")
      case True
      then have "scan_digits b (saw \<or> c \<noteq> CHR ''_'') (advance lx) =
          ((saw \<or> c \<noteq> CHR ''_'') \<or> list_ex (\<lambda>c. c \<noteq> CHR ''_'') (takeWhile (run_char b) cs), advance_while (run_char b) (advance lx))"
        using 1 c run assms by simp
      then show ?thesis using c run True Cons by (subst scan_digits.simps, subst advance_while.simps) simp
    next
      case False
      then show ?thesis using c run Cons by (subst scan_digits.simps, subst advance_while.simps) simp
    qed
  qed
qed

lemma fraction_passed:
  assumes "scan_fraction 10 lx = (fr, lx')"
  shows "ahead lx lx' \<and> (if fr then fraction_spelling (passed lx lx') \<and> (rest_of lx' \<noteq> [] \<longrightarrow> \<not> run_char 10 (hd (rest_of lx'))) else lx' = lx)"
proof (cases "peek lx 0 = CHR ''.'' \<and> peek lx 1 \<noteq> CHR ''.'' \<and> isdigit (peek lx 1)")
  case True
  then obtain cs where r: "rest_of lx = CHR ''.'' # cs" by (cases "rest_of lx") (auto simp: peek_rest)
  have "cs \<noteq> []"
  proof
    assume "cs = []"
    then have "peek lx 1 = CHR 0x00" using r by (simp add: peek_rest)
    then show False using True by (simp add: isdigit_def)
  qed
  then obtain d ds where cs: "cs = d # ds" by (cases cs) auto
  have d: "base_digit 10 d" using True r cs by (simp add: peek_rest base_digit_classes)
  have l': "lx' = advance_while is_decimal (advance lx)" "fr" using assms True by (simp_all add: scan_fraction_def)
  have "passed lx lx' = CHR ''.'' # takeWhile (run_char 10) cs"
    using passed_append [of lx "advance lx" lx'] passed_advance [OF r] r
    by (simp add: l' passed_while rest_advance base_digit_classes [abs_def])
  also have "takeWhile (run_char 10) cs = d # takeWhile (run_char 10) ds" using d cs by (simp add: run_char_def)
  finally have "fraction_spelling (passed lx lx')"
    using d takeWhile_list_all [of "run_char 10" ds] unfolding fraction_spelling_def by blast
  then show ?thesis using l' by (auto simp: rest_while hd_dropWhile base_digit_classes [abs_def] intro: ahead_trans [OF ahead_advance])
qed (use assms in \<open>auto simp: scan_fraction_def\<close>)

lemma exponent_passed:
  assumes "scan_exponent 10 start lx = (ex, lx')" "errs lx' = errs lx"
  shows "ahead lx lx' \<and> (if ex then exponent_spelling (passed lx lx') \<and> (rest_of lx' \<noteq> [] \<longrightarrow> \<not> run_char 10 (hd (rest_of lx'))) else lx' = lx \<and> (rest_of lx \<noteq> [] \<longrightarrow> hd (rest_of lx) \<notin> set ''eE''))"
proof (cases "peek lx 0 = CHR ''e'' \<or> peek lx 0 = CHR ''E''")
  case True
  then obtain e cs where r: "rest_of lx = e # cs" "e \<in> set ''eE''" by (cases "rest_of lx") (auto simp: peek_rest)
  define l2 where "l2 = (if peek (advance lx) 0 = CHR ''+'' \<or> peek (advance lx) 0 = CHR ''-'' then advance (advance lx) else advance lx)"
  define l3 where "l3 = advance_while is_decimal l2"
  have l': "ex" "lx' = (if lx_offset l3 = lx_offset l2 then report ''D0003'' start (lx_offset l3) ''floating-point exponent requires digits'' l3 else l3)"
    using assms(1) True by (auto simp: scan_exponent_def Let_def l2_def l3_def split: if_splits)
  have e3: "errs l3 = errs lx" by (simp add: l3_def l2_def)
  then have moved: "lx' = l3" "lx_offset l3 \<noteq> lx_offset l2" using assms(2) l'(2) by (auto split: if_splits)
  define ds where "ds = takeWhile (run_char 10) (rest_of l2)"
  have ds: "passed l2 l3 = ds" "list_all (run_char 10) ds"
    by (simp_all add: l3_def ds_def passed_while base_digit_classes [abs_def] takeWhile_list_all)
  have "lx_offset l3 = lx_offset l2 + length ds" by (simp add: l3_def ds_def advance_while_eq base_digit_classes [abs_def])
  then have "ds \<noteq> []" using moved(2) by auto
  have a: "ahead lx (advance lx)" "ahead (advance lx) l2" "ahead l2 l3" by (auto simp: l2_def l3_def)
  have sign: "passed (advance lx) l2 \<in> {[], ''+'', ''-''}"
  proof (cases "peek (advance lx) 0 = CHR ''+'' \<or> peek (advance lx) 0 = CHR ''-''")
    case True
    then obtain c us where "rest_of (advance lx) = c # us" "c = CHR ''+'' \<or> c = CHR ''-''" by (cases "rest_of (advance lx)") (auto simp: peek_rest)
    then show ?thesis using True passed_advance [of "advance lx" c us] by (auto simp: l2_def)
  qed (simp add: l2_def)
  have "passed lx lx' = e # passed (advance lx) l2 @ ds"
    using passed_append [OF a(1) ahead_trans [OF a(2,3)]] passed_append [OF a(2,3)] passed_advance [OF r(1)] ds(1) moved(1) by simp
  then have "exponent_spelling (passed lx lx')" using r(2) sign ds(2) \<open>ds \<noteq> []\<close> unfolding exponent_spelling_def by blast
  moreover have "rest_of lx' \<noteq> [] \<longrightarrow> \<not> run_char 10 (hd (rest_of lx'))"
    by (simp add: moved(1) l3_def rest_while hd_dropWhile base_digit_classes [abs_def])
  ultimately show ?thesis using l'(1) moved(1) ahead_trans [OF a(1) ahead_trans [OF a(2,3)]] by simp
next
  case False
  then show ?thesis using assms(1) by (cases "rest_of lx") (auto simp: scan_exponent_def peek_rest)
qed

lemma number_base_cases:
  assumes "number_base lx = (b, lx')" "rest_of lx = c # cs"
  obtains (prefixed) p ds where "(p, b) \<in> set base_prefixes" "c = CHR ''0''" "cs = p # ds" "lx' = advance (advance lx)"
    | (decimal) "b = 10" "lx' = lx" "c = CHR ''0'' \<longrightarrow> cs \<noteq> [] \<longrightarrow> hd cs \<notin> set (map fst base_prefixes)"
proof (cases "c = CHR ''0'' \<and> cs \<noteq> [] \<and> hd cs \<in> set (map fst base_prefixes)")
  case True
  then obtain p ds where "cs = p # ds" by (cases cs) auto
  then show ?thesis using True assms prefixed [of p ds]
    by (auto simp: number_base_def peek_rest base_prefixes_def split: if_splits)
next
  case False
  then have "b = 10" "lx' = lx" using assms by (cases cs; auto simp: number_base_def peek_rest base_prefixes_def split: if_splits)+
  then show ?thesis using False decimal by blast
qed

lemma spells_number:
  assumes "rest_of lx = c # cs" and "isdigit c"
  shows "spells lx (lex_number lx)"
proof -
  obtain base lx1 where b: "number_base lx = (base, lx1)" by (cases "number_base lx")
  have known: "base \<in> {2, 8, 10, 16}" using b by (auto simp: number_base_def split: if_splits)
  then have digits: "\<forall>c. is_digit_for_base c base \<longleftrightarrow> base_digit base c" using base_digit_classes by auto
  define lx2 where "lx2 = advance_while (run_char base) lx1"
  define ds where "ds = takeWhile (run_char base) (rest_of lx1)"
  define saw where "saw = list_ex (\<lambda>c. c \<noteq> CHR ''_'') ds"
  have d: "scan_digits base False lx1 = (saw, lx2)" by (simp add: scan_digits_eq [OF digits] saw_def lx2_def ds_def)
  define lx3 where "lx3 = (if \<not> saw \<and> base \<noteq> 10
     then report ''D0002'' (lx_offset lx) (lx_offset lx2) ''numeric base prefix requires at least one digit'' lx2 else lx2)"
  obtain fr lx4 where f: "scan_fraction base lx3 = (fr, lx4)" by (cases "scan_fraction base lx3")
  obtain ex lx5 where x: "scan_exponent base (lx_offset lx) lx4 = (ex, lx5)" by (cases "scan_exponent base (lx_offset lx) lx4")
  define lx6 where "lx6 = advance_while (\<lambda>c. isalnum c \<or> c = CHR ''_'') lx5"
  have number: "lex_number lx = (make_token (if fr \<or> ex then Tk_float_literal else Tk_integer_literal) (lx_offset lx) lx6, lx6)"
    unfolding lex_number_def Let_def b d prod.case lx3_def [symmetric] f x lx6_def by simp
  have a1: "ahead lx lx1" using b by (auto simp: number_base_def split: if_splits intro: ahead_trans [OF ahead_advance])
  have a: "ahead lx1 lx2" "ahead lx5 lx6" by (simp_all add: lx2_def lx6_def)
  have "errs lx1 = errs lx" using b by (auto simp: number_base_def split: if_splits)
  moreover have "errs lx4 = errs lx3" using f by (auto simp: scan_fraction_def split: if_splits)
  moreover have "errs lx4 \<le> errs lx5" using x by (auto simp: scan_exponent_def Let_def split: if_splits)
  ultimately have e: "errs lx1 = errs lx" "errs lx2 = errs lx1" "errs lx4 = errs lx3" "errs lx6 = errs lx5" "errs lx2 \<le> errs lx3" "errs lx4 \<le> errs lx5"
    by (simp_all add: lx2_def lx3_def lx6_def)
  have "prefixed_spelling (passed lx lx6) \<and> \<not> fr \<and> \<not> ex \<or> decimal_spelling (fr \<or> ex) (passed lx lx6)" if silent: "errs lx6 = errs lx"
  proof -
    have s3: "lx3 = lx2" "saw \<or> base = 10" and s5: "errs lx5 = errs lx4" using silent e by (auto simp: lx3_def split: if_splits)
    define suffix where "suffix = passed lx5 lx6"
    have suffix: "list_all (\<lambda>c. isalnum c \<or> c = CHR ''_'') suffix" "suffix \<noteq> [] \<longrightarrow> rest_of lx5 \<noteq> [] \<and> hd suffix = hd (rest_of lx5)"
      by (simp_all add: suffix_def lx6_def passed_while takeWhile_list_all) (cases "rest_of lx5"; auto)
    have ends: "rest_of (advance_while q l) \<noteq> [] \<longrightarrow> \<not> q (hd (rest_of (advance_while q l)))" for q l
      by (simp add: rest_while hd_dropWhile)
    have p12: "passed lx1 lx2 = ds" by (simp add: ds_def lx2_def passed_while)
    have run: "list_all (run_char base) ds" by (simp add: ds_def takeWhile_list_all)
    show ?thesis using b assms(1)
    proof (cases rule: number_base_cases)
      case (prefixed p us)
      then have "base \<noteq> 10" by (auto simp: base_prefixes_def)
      then have same: "lx5 = lx2" "\<not> fr" "\<not> ex" "saw" using f x s3 by (auto simp: scan_fraction_def scan_exponent_def)
      have "passed lx lx1 = [CHR ''0'', p]"
        using passed_append [of lx "advance lx" lx1] passed_advance [of lx] passed_advance [of "advance lx" p us] prefixed assms(1)
        by (simp add: rest_advance)
      then have all: "passed lx lx6 = CHR ''0'' # p # ds @ suffix"
        using passed_append [OF a1 ahead_trans [OF a(1) a(2) [unfolded same(1)]]] passed_append [OF a(1) a(2) [unfolded same(1)]] p12 same(1)
        by (simp add: suffix_def)
      have "number_suffix base suffix" using suffix ends [of "run_char base" lx1] same(1) by (auto simp: number_suffix_def lx2_def)
      moreover have "list_ex (base_digit base) ds" using same(4) run by (auto simp: saw_def list_ex_iff list_all_iff run_char_def)
      ultimately have "prefixed_spelling (passed lx lx6)"
        unfolding prefixed_spelling_def all using prefixed(1) run by blast
      then show ?thesis using same by blast
    next
      case decimal
      note digit = assms(2) [unfolded base_digit_classes]
      define more where "more = takeWhile (run_char 10) cs"
      define fraction where "fraction = passed lx2 lx4"
      define exponent where "exponent = passed lx4 lx5"
      have ds: "ds = c # more" "list_all (run_char 10) more" "rest_of lx2 = dropWhile (run_char 10) cs"
        using decimal(1,2) assms(1) digit by (simp_all add: ds_def more_def lx2_def rest_while takeWhile_list_all run_char_def [of 10 c])
      have fs: "ahead lx2 lx4 \<and> (if fr then fraction_spelling fraction \<and> (rest_of lx4 \<noteq> [] \<longrightarrow> \<not> run_char 10 (hd (rest_of lx4))) else lx4 = lx2)"
        using fraction_passed [OF f [unfolded decimal(1) s3(1)]] unfolding fraction_def .
      have xs: "ahead lx4 lx5 \<and> (if ex then exponent_spelling exponent \<and> (rest_of lx5 \<noteq> [] \<longrightarrow> \<not> run_char 10 (hd (rest_of lx5)))
          else lx5 = lx4 \<and> (rest_of lx4 \<noteq> [] \<longrightarrow> hd (rest_of lx4) \<notin> set ''eE''))"
        using exponent_passed [OF x [unfolded decimal(1)] s5] unfolding exponent_def .
      have present: "fr \<longleftrightarrow> fraction \<noteq> []" "ex \<longleftrightarrow> exponent \<noteq> []"
        using fs xs fraction_spelling_def [of "[]"] exponent_spelling_def [of "[]"] by (auto simp: fraction_def exponent_def split: if_splits)
      have steps: "ahead lx2 lx4" "ahead lx4 lx5" using fs xs by simp_all
      note rests = a(2) ahead_trans [OF steps(2) a(2)] ahead_trans [OF steps(1) ahead_trans [OF steps(2) a(2)]]
      have "passed lx lx6 = passed lx lx2 @ passed lx2 lx4 @ passed lx4 lx5 @ passed lx5 lx6"
        unfolding passed_append [OF a(1) [unfolded decimal(2)] rests(3)] passed_append [OF steps(1) rests(2)] passed_append [OF steps(2) rests(1)] ..
      then have all: "passed lx lx6 = c # more @ fraction @ exponent @ suffix"
        by (simp add: fraction_def exponent_def suffix_def p12 [unfolded decimal(2)] ds(1))
      have "rest_of lx2 \<noteq> [] \<longrightarrow> \<not> run_char 10 (hd (rest_of lx2))" by (simp add: ds(3) hd_dropWhile)
      then have "rest_of lx5 \<noteq> [] \<longrightarrow> \<not> run_char 10 (hd (rest_of lx5))" using fs xs by (auto split: if_splits)
      then have "number_suffix 10 suffix" using suffix by (auto simp: number_suffix_def)
      moreover have "exponent = [] \<longrightarrow> suffix \<noteq> [] \<longrightarrow> hd suffix \<notin> set ''eE''"
        using xs present(2) suffix(2) by (auto split: if_splits)
      moreover have "hd suffix \<notin> set (map fst base_prefixes)" if "c = CHR ''0''" "more @ fraction @ exponent = []" "suffix \<noteq> []"
      proof -
        have "lx5 = lx2" using that(2) present fs xs by simp
        moreover have "rest_of lx2 = cs" using that(2) ds(3) by (cases cs) (auto simp: more_def split: if_splits)
        ultimately show ?thesis using suffix(2) that decimal(3) by auto
      qed
      moreover have "fraction = [] \<or> fraction_spelling fraction" "exponent = [] \<or> exponent_spelling exponent" using fs xs present by presburger+
      moreover have "fr \<or> ex \<longleftrightarrow> fraction @ exponent \<noteq> []" using present by simp
      ultimately have "decimal_spelling (fr \<or> ex) (passed lx lx6)"
        unfolding decimal_spelling_def all using digit ds(2) by blast
      then show ?thesis by blast
    qed
  qed
  then have "errs lx6 = errs lx \<longrightarrow> well_spelled (if fr \<or> ex then Tk_float_literal else Tk_integer_literal) (passed lx lx6)"
    by (auto simp: well_spelled_def)
  then show ?thesis using e number by (simp add: spells_def lexeme_make_token passed_def)
qed

section \<open>Trivia\<close>

lemma block_comment_closes: "block_comment d lx = (0, lx') \<Longrightarrow> closes d (passed lx lx')"
proof (induction d lx arbitrary: lx' rule: block_comment.induct)
  case (1 d lx)
  show ?case
  proof (cases "at_end lx \<or> d = 0")
    case True
    then show ?thesis using "1.prems" by (subst (asm) block_comment.simps) auto
  next
    case False
    then obtain a cs where r: "rest_of lx = a # cs" by (cases "rest_of lx") (auto simp: rest_Nil)
    obtain k where d: "d = Suc k" using False by (cases d) auto
    have one: "rest_of (advance lx) = cs" "peek lx 0 = a" "passed lx (advance lx) = [a]" using r by (simp_all add: rest_advance peek_rest passed_advance)
    have second: "peek lx 1 = (case cs of [] \<Rightarrow> CHR 0x00 | b # bs \<Rightarrow> b)" using r by (simp add: peek_rest split: list.split)
    have ahead_to: "ahead l l'" if "block_comment e l = (0, l')" for e l l' using ahead_block_comment [of l e] that by simp
    have two: "passed lx lx' = a # b # passed (advance (advance lx)) lx'"
      if "cs = b # bs" "ahead (advance (advance lx)) lx'" for b bs
      using passed_append [OF ahead_advance [of lx] ahead_trans [OF ahead_advance that(2)]] passed_append [OF ahead_advance [of "advance lx"] that(2)]
        passed_advance [of "advance lx" b bs] one that(1) by simp
    consider b bs where "cs = b # bs" "a = CHR ''/''" "b = CHR ''*''" | b bs where "cs = b # bs" "a = CHR ''*''" "b = CHR ''/''"
      | "\<not> (peek lx 0 = CHR ''/'' \<and> peek lx 1 = CHR ''*'')" "\<not> (peek lx 0 = CHR ''*'' \<and> peek lx 1 = CHR ''/'')"
      using one second by (cases cs) auto
    then show ?thesis
    proof cases
      case (1 b bs)
      then have "block_comment (Suc d) (advance (advance lx)) = (0, lx')" using "1.prems" False one second by (subst (asm) block_comment.simps) simp
      then have "closes (Suc d) (passed (advance (advance lx)) lx')" "ahead (advance (advance lx)) lx'"
        using "1.IH"(1) [of lx'] False 1 one second ahead_to by auto
      then show ?thesis using two [OF 1(1)] 1 d by simp
    next
      case (2 b bs)
      then have "block_comment k (advance (advance lx)) = (0, lx')" using "1.prems" False one second d by (subst (asm) block_comment.simps) simp
      then have "closes k (passed (advance (advance lx)) lx')" "ahead (advance (advance lx)) lx'"
        using "1.IH"(2) [of lx'] False 2 one second ahead_to d by auto
      then show ?thesis using two [OF 2(1)] 2 d by simp
    next
      case 3
      then have b: "block_comment d (advance lx) = (0, lx')" using "1.prems" False by (subst (asm) block_comment.simps) auto
      then have c: "closes d (passed (advance lx) lx')" using "1.IH"(3) [of lx'] False 3 by auto
      then obtain e es where e: "passed (advance lx) lx' = e # es" using d by (cases "passed (advance lx) lx'") auto
      then have "e = peek lx 1" using second one(1) by (cases cs) (auto simp: passed_def take_Cons' split: if_splits)
      moreover have "passed lx lx' = a # e # es" using passed_append [OF ahead_advance [of lx] ahead_to [OF b]] one(3) e by simp
      ultimately show ?thesis using c d e 3 one(2) by auto
    qed
  qed
qed

lemma skip_trivia_passes: "errs (skip_trivia lx) = errs lx \<Longrightarrow> trivia (at_end (skip_trivia lx)) (passed lx (skip_trivia lx))"
proof (induction lx rule: skip_trivia.induct)
  case (1 lx)
  define l1 where "l1 = advance_while is_space lx"
  have a1: "ahead lx l1" and e1: "errs l1 = errs lx" by (simp_all add: l1_def)
  have blanks: "trivia final s \<Longrightarrow> list_all is_space w \<Longrightarrow> trivia final (w @ s)" for final w s
    by (induction w) (auto intro: trivia.intros)
  have w: "list_all is_space (passed lx l1)" by (simp add: l1_def passed_while takeWhile_list_all)
  have two: "passed l1 (advance (advance l1)) = [peek l1 0, peek l1 1]" if ends: "peek l1 0 \<noteq> CHR 0x00" "peek l1 1 \<noteq> CHR 0x00"
  proof -
    obtain a b us where r: "rest_of l1 = a # b # us" using ends by (cases "rest_of l1"; cases "tl (rest_of l1)") (auto simp: peek_rest)
    then show ?thesis using passed_append [OF ahead_advance [of l1] ahead_advance [of "advance l1"]] passed_advance [OF r]
        passed_advance [of "advance l1" b us] by (simp add: rest_advance peek_rest)
  qed
  have finish: "trivia final (passed lx l')" if "ahead l1 l'" "trivia final (passed l1 l')" for final l'
    using blanks [OF that(2) w] passed_append [OF a1 that(1)] by simp
  consider (line) "peek l1 0 = CHR ''/''" "peek l1 1 = CHR ''/''" | (block) "peek l1 0 = CHR ''/''" "peek l1 1 = CHR ''*''"
    | (none) "\<not> (peek l1 0 = CHR ''/'' \<and> peek l1 1 = CHR ''/'')" "\<not> (peek l1 0 = CHR ''/'' \<and> peek l1 1 = CHR ''*'')" by blast
  then show ?case
  proof cases
    case line
    define l2 where "l2 = skip_line_comment (advance (advance l1))"
    have eq: "skip_trivia lx = skip_trivia l2" using line by (subst skip_trivia.simps) (simp add: Let_def l1_def l2_def)
    have e2: "errs l2 = errs lx" using e1 by (simp add: l2_def skip_line_comment_def)
    have t: "trivia (at_end (skip_trivia l2)) (passed l2 (skip_trivia l2))"
      using "1.IH"(1) [OF l1_def] line "1.prems" eq e2 by (simp add: l2_def)
    have w2: "passed (advance (advance l1)) l2 = takeWhile (\<lambda>c. c \<noteq> CHR 0x0A) (rest_of (advance (advance l1)))"
      by (simp add: l2_def skip_line_comment_def passed_while)
    have r2: "rest_of l2 = [] \<or> hd (rest_of l2) = CHR 0x0A"
      using hd_dropWhile [of "\<lambda>c. c \<noteq> CHR 0x0A" "rest_of (advance (advance l1))"] by (auto simp: l2_def skip_line_comment_def rest_while)
    have a2: "ahead (advance (advance l1)) l2" "ahead l2 (skip_trivia l2)" "ahead l1 (advance (advance l1))"
      by (auto simp: l2_def ahead_skip_trivia intro: ahead_trans [OF ahead_advance])
    have p: "passed l1 (skip_trivia l2) = ''//'' @ passed (advance (advance l1)) l2 @ passed l2 (skip_trivia l2)"
      using passed_append [OF a2(3) ahead_trans [OF a2(1,2)]] passed_append [OF a2(1,2)] two line by simp
    have hd2: "if passed l2 (skip_trivia l2) = [] then at_end (skip_trivia l2) else hd (passed l2 (skip_trivia l2)) = CHR 0x0A"
    proof (cases "rest_of l2")
      case Nil
      then have "passed l2 (skip_trivia l2) = []" "rest_of (skip_trivia l2) = []" using rest_of_ahead [OF a2(2)] by (simp_all add: passed_def)
      then show ?thesis by (simp add: rest_Nil)
    next
      case (Cons c cs)
      then have c: "c = CHR 0x0A" "peek l2 0 = c" "\<not> at_end l2" using r2 by (simp_all add: peek_rest rest_Nil)
      then have "lx_offset l2 < lx_offset (advance_while is_space l2)" using Cons by (simp add: advance_while_eq is_space_def)
      moreover have "ahead (advance_while is_space l2) (skip_trivia l2)"
        by (subst skip_trivia.simps) (auto simp: Let_def ahead_skip_trivia intro: ahead_trans [OF ahead_advance] ahead_trans [OF _ ahead_skip_trivia])
      ultimately have "lx_offset l2 < lx_offset (skip_trivia l2)" by (simp add: ahead_def)
      then show ?thesis using Cons c by (simp add: passed_def take_Cons')
    qed
    have "trivia (at_end (skip_trivia l2)) (passed l1 (skip_trivia l2))"
      unfolding p by (rule trivia.line_comment [OF _ hd2 t]) (auto simp: w2 dest: set_takeWhileD)
    then show ?thesis using finish ahead_trans [OF a2(3) ahead_trans [OF a2(1,2)]] by (simp add: eq)
  next
    case block
    define l2 where "l2 = skip_block_comment (advance (advance l1))"
    have eq: "skip_trivia lx = skip_trivia l2" using block by (subst skip_trivia.simps) (simp add: Let_def l1_def l2_def)
    obtain d l3 where b: "block_comment 1 (advance (advance l1)) = (d, l3)" by (cases "block_comment 1 (advance (advance l1))")
    have e3: "errs l3 = errs lx" using errs_block_comment [of 1 "advance (advance l1)"] b e1 by simp
    have l2: "l2 = (if d \<noteq> 0 then report ''D0001'' (lx_offset (advance (advance l1)) - 2) (lx_offset l3) ''unterminated block comment'' l3 else l3)"
      unfolding l2_def skip_block_comment_def Let_def b prod.case ..
    have "errs l2 \<le> errs (skip_trivia l2)" by (rule errs_skip_trivia)
    then have d: "d = 0" "l2 = l3" using l2 e3 "1.prems" eq by (auto split: if_splits)
    have t: "trivia (at_end (skip_trivia l2)) (passed l2 (skip_trivia l2))"
      using "1.IH"(2) [OF l1_def] block "1.prems" eq e3 d by (simp add: l2_def)
    have a2: "ahead (advance (advance l1)) l2" "ahead l2 (skip_trivia l2)" "ahead l1 (advance (advance l1))"
      by (auto simp: l2_def ahead_skip_trivia intro: ahead_trans [OF ahead_advance])
    have p: "passed l1 (skip_trivia l2) = ''/*'' @ passed (advance (advance l1)) l2 @ passed l2 (skip_trivia l2)"
      using passed_append [OF a2(3) ahead_trans [OF a2(1,2)]] passed_append [OF a2(1,2)] two block by simp
    have "trivia (at_end (skip_trivia l2)) (passed l1 (skip_trivia l2))"
      unfolding p using block_comment_closes b d t by (intro trivia.nested_comment) auto
    then show ?thesis using finish ahead_trans [OF a2(3) ahead_trans [OF a2(1,2)]] by (simp add: eq)
  next
    case none
    then have "skip_trivia lx = l1" by (subst skip_trivia.simps) (auto simp: Let_def l1_def)
    then show ?thesis using finish [of l1] by (simp add: trivia.no_trivia)
  qed
qed

section \<open>Every token\<close>

lemma spells_string:
  assumes "rest_of lx = CHR 0x22 # cs"
  shows "spells lx (lex_string lx)"
proof -
  obtain b lx1 where r: "string_body (advance lx) = (b, lx1)" by (cases "string_body (advance lx)")
  then obtain n where "lx_offset lx1 = Suc (lx_offset lx) + n" "errs lx1 = errs lx" "b \<longrightarrow> closed_string (take n cs)"
    using string_body_closed [OF r] assms by (auto simp: rest_advance offset_advance)
  then show ?thesis
    using assms by (auto simp: spells_def lex_string_def r Let_def lexeme_make_token well_spelled_def)
qed

lemma spells_lifetime:
  assumes "rest_of lx = CHR 0x27 # cs"
  shows "spells lx (lex_lifetime lx)"
proof (cases cs)
  case Nil
  then show ?thesis using assms by (simp add: spells_def lex_lifetime_def Let_def rest_Nil rest_advance)
next
  case (Cons c ds)
  let ?w = "takeWhile is_identifier_continue ds"
  have "lx_offset (advance_while is_identifier_continue (advance (advance lx))) = lx_offset lx + 2 + length ?w"
    using assms Cons by (simp add: advance_while_eq rest_advance offset_advance)
  then show ?thesis using assms Cons
    by (auto simp: spells_def lex_lifetime_def Let_def rest_Nil rest_advance peek_rest lexeme_make_token well_spelled_def
        identifier_spelling_def takeWhile_list_all take_length_takeWhile)
qed

lemma spells_punctuation:
  assumes "lex_punctuation lx = Some r"
  shows "spells lx r"
proof -
  obtain s k where f: "find (\<lambda>(s, k). spelled s lx) punctuation_table = Some (s, k)" and r: "r = punctuation_result lx (s, k)"
    using assms by (auto simp: punctuation_by_table)
  have in_table: "(s, k) \<in> set punctuation_table" and sp: "spelled s lx"
    using find_Some_in [OF f] by auto
  have tab: "list_all (\<lambda>(s, k). CHR 0x00 \<notin> set s \<and> map_of punctuation_table s = Some k) punctuation_table"
    by (simp add: punctuation_table_def)
  have t: "take (length s) (rest_of lx) = s" using sp tab in_table by (auto simp: list_all_iff spelled_prefix)
  have off: "length s \<le> length (rest_of l) \<Longrightarrow> lx_offset ((advance ^^ length s) l) = lx_offset l + length s \<and>
      errs ((advance ^^ length s) l) = errs l" for l
  proof (induction s arbitrary: l)
    case (Cons c s)
    then show ?case
      using Cons.IH [of "advance l"] by (cases "rest_of l") (auto simp: funpow_Suc_right rest_advance offset_advance simp del: funpow.simps)
  qed simp
  have "length s \<le> length (rest_of lx)" using t by (metis length_take min.cobounded1 order_refl)
  then show ?thesis using off [of lx] t tab in_table
    by (auto simp: r punctuation_result_def spells_def lexeme_make_token well_spelled_def list_all_iff)
qed

lemma spells_character:
  assumes "rest_of lx = CHR 0x27 # cs"
  shows "spells lx (lex_character lx)"
proof (cases "cs = [] \<or> hd cs = CHR 0x0A")
  case True
  then have "at_end (advance lx) \<or> peek (advance lx) 0 = CHR 0x0A"
    using assms by (cases cs) (auto simp: rest_Nil rest_advance peek_rest)
  then show ?thesis by (auto simp: spells_def lex_character_def Let_def)
next
  case False
  then obtain c ds where cs: "cs = c # ds" "c \<noteq> CHR 0x0A" by (cases cs) auto
  define lx2 where "lx2 = (if peek (advance lx) 0 = CHR 0x5C
     then (let lx' = advance (advance lx) in if \<not> at_end lx' then advance lx' else lx') else advance (advance lx))"
  have r1: "rest_of (advance lx) = c # ds" using assms cs by (simp add: rest_advance)
  have ne: "\<not> (at_end (advance lx) \<or> peek (advance lx) 0 = CHR 0x0A)" using r1 cs by (simp add: rest_Nil peek_rest)
  have e2: "errs lx2 = errs lx" by (simp add: lx2_def Let_def)
  obtain closed lx3 where r: "consume (CHR 0x27) lx2 = (closed, lx3)" by (cases "consume (CHR 0x27) lx2")
  have e3: "errs lx3 = errs lx" using errs_consume [OF r] e2 by simp
  have "character_spelling (take (lx_offset lx3 - lx_offset lx) (rest_of lx))" if "closed"
  proof -
    have c3: "peek lx2 0 = CHR 0x27" "lx3 = advance lx2" using r that by (auto simp: consume_eq split: if_splits)
    have n2: "rest_of lx2 = CHR 0x27 # tl (rest_of lx2)"
      using c3(1) by (cases "rest_of lx2") (auto simp: peek_rest)
    show ?thesis
    proof (cases "c = CHR 0x5C")
      case True
      have l2: "lx2 = advance (advance (advance lx))"
        using r1 True n2 by (auto simp: lx2_def peek_rest Let_def rest_Nil)
      then obtain d us where "ds = d # CHR 0x27 # us" using n2 r1 by (cases ds) (auto simp: rest_advance)
      then show ?thesis using l2 c3 r1 assms cs True by (auto simp: offset_advance rest_advance character_spelling_def)
    next
      case False
      have l2: "lx2 = advance (advance lx)" using r1 False by (simp add: lx2_def peek_rest)
      then obtain us where "ds = CHR 0x27 # us" using n2 r1 by (simp add: rest_advance)
      then show ?thesis using l2 c3 r1 assms cs False by (auto simp: offset_advance rest_advance character_spelling_def)
    qed
  qed
  then show ?thesis
    using e3 ne unfolding lex_character_def Let_def [of "lx_offset lx"] Let_def [of "advance lx"] lx2_def [symmetric] if_not_P [OF ne]
    by (auto simp: Let_def r spells_def lexeme_make_token well_spelled_def split: if_splits)
qed

lemma spells_next: "spells (skip_trivia lx) (next_token lx)"
proof (cases "rest_of (skip_trivia lx)")
  case Nil
  then show ?thesis by (simp add: next_token_def Let_def rest_Nil spells_def lexeme_make_token well_spelled_def)
next
  case (Cons c cs)
  then have e: "\<not> at_end (skip_trivia lx)" "peek (skip_trivia lx) 0 = c" by (simp_all add: rest_Nil peek_rest)
  have bad: "spells l (make_token Tk_invalid start (report code a b m l'), report code a b m l')" if "errs l' = errs l"
    for l l' start code a b m using that by (simp add: spells_def)
  show ?thesis
    using e Cons spells_identifier [OF Cons] spells_number [OF Cons] spells_string spells_character spells_lifetime
      spells_punctuation
    by (auto simp: next_token_def Let_def bad split: option.splits)
qed

lemma next_token_start:
  assumes "next_token lx = (t, lx')"
  shows "tok_start t = lx_offset (skip_trivia lx)" "tok_kind t = Tk_end_of_file \<longleftrightarrow> at_end (skip_trivia lx)" "tok_stop t = lx_offset lx'"
  using assms by (cases rule: next_token_cases [of lx]; auto simp: lexes_one_def)+

lemma lex_all_errs: "errs lx \<le> errs (snd (lex_all lx)) \<and>
  (errs (snd (lex_all lx)) = errs lx \<longrightarrow> list_all (\<lambda>t. well_spelled (tok_kind t) (lexeme (lx_text lx) t)) (fst (lex_all lx)) \<and>
     list_all (\<lambda>(final, s). trivia final s) (gaps (lx_text lx) (lx_offset lx) (fst (lex_all lx))))"
proof (induction lx rule: lex_all.induct)
  case (1 lx)
  obtain t lx' where n: "next_token lx = (t, lx')" by (cases "next_token lx")
  have tx: "lx_text (skip_trivia lx) = lx_text lx" "lx_text lx' = lx_text lx"
    using ahead_skip_trivia [of lx] next_token_laws [OF n] by (auto simp: ahead_def)
  have sp: "errs (skip_trivia lx) \<le> errs lx'"
    "errs lx' = errs (skip_trivia lx) \<longrightarrow> well_spelled (tok_kind t) (lexeme (lx_text lx) t)"
    using spells_next [of lx] n tx by (auto simp: spells_def)
  have le: "errs lx \<le> errs (skip_trivia lx)" by (rule errs_skip_trivia)
  have gap: "errs (skip_trivia lx) = errs lx \<longrightarrow>
      trivia (tok_kind t = Tk_end_of_file) (subspan (lx_text lx) (lx_offset lx) (tok_start t - lx_offset lx))"
    using skip_trivia_passes [of lx] next_token_start [OF n] by (simp add: passed_def subspan_def rest_of_def)
  show ?case
  proof (cases "tok_kind t = Tk_end_of_file")
    case True
    then show ?thesis using n sp le gap by (subst (1 2 3 4) lex_all.simps) simp
  next
    case False
    then have "errs lx' \<le> errs (snd (lex_all lx')) \<and> (errs (snd (lex_all lx')) = errs lx' \<longrightarrow>
        list_all (\<lambda>t. well_spelled (tok_kind t) (lexeme (lx_text lx') t)) (fst (lex_all lx')) \<and>
        list_all (\<lambda>(final, s). trivia final s) (gaps (lx_text lx') (lx_offset lx') (fst (lex_all lx'))))"
      using 1 n by simp
    moreover have "lex_all lx = (t # fst (lex_all lx'), snd (lex_all lx'))"
      using n False by (subst lex_all.simps) (simp add: case_prod_beta)
    ultimately show ?thesis using sp le tx gap next_token_start(3) [OF n] by auto
  qed
qed

text \<open>
  C12. Only these texts pass without a report: if lexing a file added no error, there is no invalid token, every token is spelled as its
  kind allows (\<open>well_spelled\<close>), and between the tokens there are only blanks, line comments and closed, nested block comments
  (\<open>trivia\<close>). A number has the digits its base prefix asks for and a character behind the sign of its exponent, strings and characters
  are closed, lifetimes have a name, keywords and punctuation have their own spelling, and identifiers are not keywords. This
  is what the lexer checks, not the whole of LANGUAGE-SPECIFICATION 2.4: the exponent may consist of separators (\<open>1e_\<close>), letters and digits
  may follow a number, and a backslash in a string also takes a line break with it.
\<close>

theorem silent_lexing_well_spelled:
  assumes "de_error_count (lx_diagnostics (snd (lex_all (new_lexer files de fid)))) = de_error_count de"
  shows "list_all (\<lambda>t. well_spelled (tok_kind t) (source_slice files (tok_range t))) (fst (lex_all (new_lexer files de fid))) \<and>
    list_all (\<lambda>(final, s). trivia final s) (gaps (source_text files fid) 0 (fst (lex_all (new_lexer files de fid))))"
proof -
  let ?lx = "new_lexer files de fid"
  have ws: "list_all (\<lambda>t. well_spelled (tok_kind t) (lexeme (source_text files fid) t)) (fst (lex_all ?lx))"
    and gap: "list_all (\<lambda>(final, s). trivia final s) (gaps (source_text files fid) 0 (fst (lex_all ?lx)))"
    using lex_all_errs [of ?lx] assms by (simp_all add: errs_def new_lexer_def)
  have "source_slice files (tok_range t) = lexeme (source_text files fid) t" if t: "t \<in> set (fst (lex_all ?lx))" for t
  proof -
    have "tiled 0 (fst (lex_all ?lx)) (length (source_text files fid))"
      using raz.run_tiled [OF lex_all_run, of ?lx] by (simp add: new_lexer_def)
    then have b: "tok_start t \<le> tok_stop t \<and> tok_stop t \<le> length (source_text files fid)"
      using tiled_bounds t by blast
    have f: "loc_file (rg_begin (tok_range t)) = fid \<and> loc_file (rg_end (tok_range t)) = fid"
      using raz.run_in_file [OF lex_all_run t] by (simp add: new_lexer_def)
    show ?thesis
    proof (cases "fid = 0")
      case True
      then have "source_text files fid = []" by (simp add: source_text_def get_file_def)
      then show ?thesis using f True by (simp add: source_slice_def rg_valid_def loc_valid_def lexeme_def subspan_def)
    next
      case False
      then have "rg_valid (tok_range t)" using f b by (simp add: rg_valid_def loc_valid_def)
      then show ?thesis using f b by (simp add: source_slice_def Let_def rg_size_def lexeme_def)
    qed
  qed
  then show ?thesis using ws gap by (simp add: list_all_iff)
qed

section \<open>A sample file\<close>

definition quiet_engine :: diagnostic_engine where
  "quiet_engine = \<lparr>de_diagnostics = [], de_error_count = 0, de_policy = \<lparr>dp_deny_warnings = False, dp_overrides = []\<rparr>\<rparr>"

definition lexer_sample :: source_manager where
  "lexer_sample = [\<lparr>src_id = 1, src_path = ''a.raz'', src_diagnostic_path = [], src_line_delta = 0, src_byte_delta = 0,
     src_text = ''fn f(x) /* a */ <<= 0x1F'', src_line_starts = [0]\<rparr>]"

lemma sample_lexes:
  "map tok_kind (fst (lex_all (new_lexer lexer_sample quiet_engine 1))) =
     [Keyword Kw_fn, Tk_identifier, Punct Pn_left_paren, Tk_identifier, Punct Pn_right_paren, Punct Pn_less_less_equal,
      Tk_integer_literal, Tk_end_of_file]"
  by code_simp

lemma sample_silent:
  "de_error_count (lx_diagnostics (snd (lex_all (new_lexer lexer_sample quiet_engine 1)))) = de_error_count quiet_engine"
  by code_simp

theorem silent_lexing_well_spelled_witness:
  "list_all (\<lambda>t. well_spelled (tok_kind t) (source_slice lexer_sample (tok_range t))) (fst (lex_all (new_lexer lexer_sample quiet_engine 1))) \<and>
   list_all (\<lambda>(final, s). trivia final s) (gaps (source_text lexer_sample 1) 0 (fst (lex_all (new_lexer lexer_sample quiet_engine 1))))"
  by (rule silent_lexing_well_spelled [OF sample_silent])

definition identifier_sample :: lexer where
  "identifier_sample = \<lparr>lx_diagnostics = quiet_engine, lx_file = 1, lx_text = '' iffy+'', lx_offset = 0\<rparr>"

theorem identifiers_longest_match_witness:
  "next_token identifier_sample =
     (make_token Tk_identifier 1 (identifier_sample\<lparr>lx_offset := 5\<rparr>), identifier_sample\<lparr>lx_offset := 5\<rparr>)"
proof -
  have l: "skip_trivia identifier_sample = identifier_sample\<lparr>lx_offset := 1\<rparr>" by code_simp
  have r: "rest_of (skip_trivia identifier_sample) = CHR ''i'' # ''ffy+''"
    unfolding l by (simp add: rest_of_def identifier_sample_def)
  have w: "takeWhile is_identifier_continue ''ffy+'' = ''ffy''" "map_of keyword_table ''iffy'' = None"
    by code_simp+
  show ?thesis
    using identifiers_longest_match [OF r] w by (simp add: l Let_def is_identifier_start_def isalpha_def)
qed

text \<open>An exponent may consist of separators only: the digit count of an exponent is not checked.\<close>

definition exponent_sample :: lexer where
  "exponent_sample = \<lparr>lx_diagnostics = quiet_engine, lx_file = 1, lx_text = ''1e_'', lx_offset = 0\<rparr>"

lemma exponent_without_digits_accepted:
  "next_token exponent_sample =
     (make_token Tk_float_literal 0 (exponent_sample\<lparr>lx_offset := 3\<rparr>), exponent_sample\<lparr>lx_offset := 3\<rparr>)"
  by code_simp

end
