(* ===== verification/Function_Analysis.thy ===== *)
theory Function_Analysis
  imports IR_Module "HOL-Library.AList" "HOL-Library.While_Combinator"
begin

text \<open>
  Analyses of one IR function, \<open>forge/include/forge/analysis/function_analysis.hpp\<close> and
  \<open>forge/src/analysis/function_analysis.cpp\<close>: the control-flow graph, dominators, natural loops, use-def chains,
  the alias analysis, their local repair after an edit, and the manager that caches them.

  An \<open>unordered_map\<close> that the code enumerates or measures is an association list with distinct keys; one that is
  only looked up is a map. An \<open>unordered_set\<close> is a set. Where the code enumerates a hash container, the order
  it finds is a parameter (\<open>enum_set\<close>, \<open>keys\<close>). Loops whose end is not evident are \<open>while_option\<close>: \<open>None\<close> is a run that
  does not end.
\<close>

section \<open>Tables\<close>

text \<open>\<open>operator[]\<close> and \<open>try_emplace\<close> with a default value, and a look-up with that default.\<close>

definition touch :: "'v \<Rightarrow> 'k \<Rightarrow> ('k \<times> 'v) list \<Rightarrow> ('k \<times> 'v) list" where
  "touch v k m = (if map_of m k = None then m @ [(k, v)] else m)"

definition entry :: "('k \<times> 'v list) list \<Rightarrow> 'k \<Rightarrow> 'v list" where
  "entry m k = (case map_of m k of None \<Rightarrow> [] | Some vs \<Rightarrow> vs)"

section \<open>Control-flow graph\<close>

record control_flow_graph =
  cg_successors :: "(string \<times> string list) list"
  cg_predecessors :: "(string \<times> string list) list"
  cg_reachable :: "string set"

definition empty_cfg :: control_flow_graph where
  "empty_cfg = \<lparr>cg_successors = [], cg_predecessors = [], cg_reachable = {}\<rparr>"

text \<open>Push the successors that are new to the set of reached blocks.\<close>

fun push_new :: "string list \<Rightarrow> string set \<Rightarrow> string list \<Rightarrow> string set \<times> string list" where
  "push_new [] reached pending = (reached, pending)"
| "push_new (s # ss) reached pending =
     (if s \<in> reached then push_new ss reached pending else push_new ss (insert s reached) (pending @ [s]))"

lemma push_new_reached: "fst (push_new ss reached pending) = reached \<union> set ss"
  by (induction ss arbitrary: reached pending) auto

lemma push_new_pending:
  "\<exists>new. snd (push_new ss reached pending) = pending @ new \<and> set new = set ss - reached \<and> distinct new"
proof (induction ss arbitrary: reached pending)
  case (Cons s ss)
  show ?case
  proof (cases "s \<in> reached")
    case True
    then show ?thesis using Cons [of reached pending] by auto
  next
    case False
    obtain new where "snd (push_new ss (insert s reached) (pending @ [s])) = pending @ s # new"
      "set new = set ss - insert s reached" "distinct new"
      using Cons [of "insert s reached" "pending @ [s]"] by auto
    then show ?thesis using False by (intro exI [of _ "s # new"]) auto
  qed
qed simp

definition all_targets :: "(string \<times> string list) list \<Rightarrow> string set" where
  "all_targets m = \<Union> (set ` snd ` set m)"

lemma finite_all_targets [simp]: "finite (all_targets m)"
  by (simp add: all_targets_def)

lemma entry_targets: "set (entry m k) \<subseteq> all_targets m"
proof (cases "map_of m k")
  case (Some vs)
  then show ?thesis using map_of_SomeD [OF Some] by (force simp: entry_def all_targets_def)
qed (simp add: entry_def)

lemma all_targets_touch [simp]: "all_targets (touch [] k m) = all_targets m"
  by (auto simp: all_targets_def touch_def)

lemma push_new_decreases:
  assumes "push_new ss reached pending = (reached', pending')" and "set ss \<subseteq> T" and "finite T"
  shows "card (T - reached') < card (T - reached) \<or> card (T - reached') = card (T - reached) \<and> pending' = pending"
proof -
  have r: "reached' = reached \<union> set ss" using push_new_reached [of ss reached pending] assms(1) by simp
  obtain new where p: "pending' = pending @ new" and n: "set new = set ss - reached"
    using push_new_pending [of ss reached pending] assms(1) by auto
  show ?thesis
  proof (cases "set ss \<subseteq> reached")
    case True
    then have "set new = {}" "reached' = reached" using n r by auto
    then show ?thesis using p by simp
  next
    case False
    then have "T - reached' \<subset> T - reached" using r assms(2) by blast
    then show ?thesis using assms(3) by (simp add: psubset_card_mono)
  qed
qed

text \<open>The breadth-first loop of \<open>recompute_reachable\<close>.\<close>

function explore :: "(string \<times> string list) list \<Rightarrow> string list \<Rightarrow> string set \<Rightarrow> string set" where
  "explore m [] reached = reached"
| "explore m (b # pending) reached =
     (let (reached', pending') = push_new (entry m b) reached pending in explore m pending' reached')"
  by pat_completeness auto
termination
proof (relation "inv_image (less_than <*lex*> less_than) (\<lambda>(m, q, r). (card (all_targets m - r), length q))", goal_cases)
  case (2 m b q r x r' q')
  then show ?case using push_new_decreases [OF _ entry_targets finite_all_targets, of m b r q r' q'] by auto
qed auto

definition recompute_reachable :: "ir_function \<Rightarrow> control_flow_graph \<Rightarrow> control_flow_graph" where
  "recompute_reachable f cfg =
     (case fn_blocks f of
        [] \<Rightarrow> cfg\<lparr>cg_reachable := {}\<rparr>
      | b # _ \<Rightarrow> cfg\<lparr>cg_reachable := explore (cg_successors cfg) [bl_name b] {bl_name b}\<rparr>)"

text \<open>The same loop in \<open>populate_cfg\<close> reads \<open>cfg.successors[block]\<close>, which adds an empty entry for an unknown block.\<close>

function explore_touch ::
  "(string \<times> string list) list \<Rightarrow> string list \<Rightarrow> string set \<Rightarrow> (string \<times> string list) list \<times> string set" where
  "explore_touch m [] reached = (m, reached)"
| "explore_touch m (b # pending) reached =
     (let m' = touch [] b m; (reached', pending') = push_new (entry m' b) reached pending
      in explore_touch m' pending' reached')"
  by pat_completeness auto
termination
proof (relation "inv_image (less_than <*lex*> less_than) (\<lambda>(m, q, r). (card (all_targets m - r), length q))", goal_cases)
  case (2 m b q r m' x r' q')
  then show ?case
    using push_new_decreases [OF _ entry_targets finite_all_targets, of "touch [] b m" b r q r' q'] by auto
qed auto

definition block_targets :: "ir_block \<Rightarrow> string list" where
  "block_targets b = (if bl_operations b = [] then [] else op_successors (last (bl_operations b)))"

definition add_edge :: "string \<Rightarrow> string \<Rightarrow> control_flow_graph \<Rightarrow> control_flow_graph" where
  "add_edge name s cfg =
     cfg\<lparr>cg_successors := (if s \<in> set (entry (cg_successors cfg) name) then cg_successors cfg
           else AList.update name (entry (cg_successors cfg) name @ [s]) (cg_successors cfg)),
         cg_predecessors := AList.update s (entry (cg_predecessors cfg) s @ [name]) (cg_predecessors cfg)\<rparr>"

definition add_block :: "control_flow_graph \<Rightarrow> ir_block \<Rightarrow> control_flow_graph" where
  "add_block cfg b =
     fold (add_edge (bl_name b)) (block_targets b)
       (cfg\<lparr>cg_successors := touch [] (bl_name b) (cg_successors cfg),
            cg_predecessors := touch [] (bl_name b) (cg_predecessors cfg)\<rparr>)"

definition populate_cfg :: "ir_function \<Rightarrow> control_flow_graph" where
  "populate_cfg f =
     (let cfg = foldl add_block empty_cfg (fn_blocks f)
      in case fn_blocks f of
           [] \<Rightarrow> cfg
         | b # _ \<Rightarrow> (let (m, reached) = explore_touch (cg_successors cfg) [bl_name b] {bl_name b}
                    in cfg\<lparr>cg_successors := m, cg_reachable := reached\<rparr>))"

definition build_cfg :: "ir_function \<Rightarrow> control_flow_graph" where
  "build_cfg f = populate_cfg f"

section \<open>Repair of the graph\<close>

record cfg_repair =
  rp_valid :: bool
  rp_changed :: bool
  rp_reachability_changed :: bool
  rp_affected :: "string list"

definition repair_nothing :: cfg_repair where
  "repair_nothing = \<lparr>rp_valid = False, rp_changed = False, rp_reachability_changed = False, rp_affected = []\<rparr>"

definition find_block_named :: "ir_function \<Rightarrow> string \<Rightarrow> ir_block option" where
  "find_block_named f name = find (\<lambda>b. bl_name b = name) (fn_blocks f)"

definition unlink :: "string \<Rightarrow> string \<Rightarrow> (string \<times> string list) list \<Rightarrow> (string \<times> string list) list" where
  "unlink name s preds =
     (case map_of preds s of None \<Rightarrow> preds | Some vs \<Rightarrow> AList.update s (filter (\<lambda>v. v \<noteq> name) vs) preds)"

definition link :: "string \<Rightarrow> string \<Rightarrow> (string \<times> string list) list \<Rightarrow> (string \<times> string list) list" where
  "link name s preds =
     (let vs = entry preds s
      in if name \<in> set vs then touch [] s preds else AList.update s (vs @ [name]) preds)"

definition add_distinct :: "string list \<Rightarrow> string \<Rightarrow> string list" where
  "add_distinct acc s = (if s \<in> set acc then acc else acc @ [s])"

text \<open>
  One touched block: \<open>None\<close> is the early return with an invalid result. The state is the graph, whether anything
  changed and the affected successors.
\<close>

definition repair_block ::
  "ir_function \<Rightarrow> string \<Rightarrow> control_flow_graph \<times> bool \<times> string set \<Rightarrow> (control_flow_graph \<times> bool \<times> string set) option" where
  "repair_block f name st =
     (case st of (cfg, changed, affected) \<Rightarrow>
        (case find_block_named f name of
           None \<Rightarrow> None
         | Some b \<Rightarrow>
             if map_of (cg_successors cfg) name = None then None
             else if \<not> list_all (\<lambda>s. find_block_named f s \<noteq> None) (block_targets b) then None
             else let nxt = foldl add_distinct [] (block_targets b); previous = entry (cg_successors cfg) name
                  in if previous = nxt then Some st
                     else Some (cfg\<lparr>cg_successors := AList.update name nxt (cg_successors cfg),
                                    cg_predecessors := fold (link name) nxt (fold (unlink name) previous (cg_predecessors cfg))\<rparr>,
                                True, affected \<union> set previous \<union> set nxt)))"

fun repair_blocks ::
  "ir_function \<Rightarrow> string list \<Rightarrow> control_flow_graph \<times> bool \<times> string set \<Rightarrow> (control_flow_graph \<times> bool \<times> string set) option" where
  "repair_blocks f [] st = Some st"
| "repair_blocks f (name # names) st =
     (case repair_block f name st of None \<Rightarrow> None | Some st' \<Rightarrow> repair_blocks f names st')"

text \<open>
  \<open>repair_cfg_blocks\<close>. On an early return inside the loop the code keeps the graph as far as it was edited; its only
  caller then drops the graph, and the model returns the one it was given.
\<close>

definition repair_cfg_blocks ::
  "(string set \<Rightarrow> string list) \<Rightarrow> ir_function \<Rightarrow> control_flow_graph \<Rightarrow> string list \<Rightarrow> cfg_repair \<times> control_flow_graph" where
  "repair_cfg_blocks enum_set f cfg touched =
     (if touched = [] \<or> length (cg_successors cfg) \<noteq> length (fn_blocks f) then (repair_nothing, cfg)
      else if \<not> list_all (\<lambda>b. map_of (cg_successors cfg) (bl_name b) \<noteq> None \<and> map_of (cg_predecessors cfg) (bl_name b) \<noteq> None)
                (fn_blocks f) then (repair_nothing, cfg)
      else case repair_blocks f touched (cfg, False, {}) of
             None \<Rightarrow> (repair_nothing, cfg)
           | Some (cfg1, changed, affected) \<Rightarrow>
               let cfg2 = recompute_reachable f cfg1
               in (\<lparr>rp_valid = True, rp_changed = changed,
                    rp_reachability_changed = (cg_reachable cfg2 \<noteq> cg_reachable cfg), rp_affected = enum_set affected\<rparr>, cfg2))"

section \<open>Dominators\<close>

type_synonym dominator_tree = "(string \<times> string set) list"

definition dominates :: "dominator_tree \<Rightarrow> string \<Rightarrow> string \<Rightarrow> bool" where
  "dominates tree candidate block =
     (case map_of tree block of None \<Rightarrow> False | Some ds \<Rightarrow> candidate \<in> ds)"

text \<open>
  \<open>tree.dominators[b]\<close>. On a missing block the subscript also creates an empty set; the predecessors the code
  looks up are reachable blocks, which have an entry.
\<close>

definition dom_set :: "dominator_tree \<Rightarrow> string \<Rightarrow> string set" where
  "dom_set tree b = (case map_of tree b of None \<Rightarrow> {} | Some ds \<Rightarrow> ds)"

text \<open>The intersection over the predecessors; the flag \<open>first\<close> is an accumulator that is still \<open>None\<close>.\<close>

definition meet_preds :: "dominator_tree \<Rightarrow> string list \<Rightarrow> string set" where
  "meet_preds tree preds =
     (case foldl (\<lambda>acc p. case acc of None \<Rightarrow> Some (dom_set tree p) | Some ds \<Rightarrow> Some (ds \<inter> dom_set tree p)) None preds of
        None \<Rightarrow> {} | Some ds \<Rightarrow> ds)"

definition next_dominators :: "control_flow_graph \<Rightarrow> dominator_tree \<Rightarrow> string \<Rightarrow> string set" where
  "next_dominators cfg tree b =
     insert b (meet_preds tree (filter (\<lambda>p. p \<in> cg_reachable cfg) (entry (cg_predecessors cfg) b)))"

definition initial_dominators :: "ir_function \<Rightarrow> control_flow_graph \<Rightarrow> string \<Rightarrow> dominator_tree" where
  "initial_dominators f cfg start =
     foldl (\<lambda>tree b. if bl_name b \<in> cg_reachable cfg
                     then AList.update (bl_name b) (if bl_name b = start then {start} else cg_reachable cfg) tree else tree)
       [] (fn_blocks f)"

definition update_dominators ::
  "control_flow_graph \<Rightarrow> string \<Rightarrow> bool \<times> dominator_tree \<Rightarrow> string \<Rightarrow> bool \<times> dominator_tree" where
  "update_dominators cfg start st name =
     (case st of (changed, tree) \<Rightarrow>
        if name = start \<or> name \<notin> cg_reachable cfg then (changed, tree)
        else let nxt = next_dominators cfg tree name
             in if nxt \<noteq> dom_set tree name then (True, AList.update name nxt tree) else (changed, tree))"

definition dominator_sweep :: "ir_function \<Rightarrow> control_flow_graph \<Rightarrow> string \<Rightarrow> dominator_tree \<Rightarrow> bool \<times> dominator_tree" where
  "dominator_sweep f cfg start tree = foldl (update_dominators cfg start) (False, tree) (map bl_name (fn_blocks f))"

definition build_dominator_tree :: "ir_function \<Rightarrow> control_flow_graph \<Rightarrow> dominator_tree option" where
  "build_dominator_tree f cfg =
     (case fn_blocks f of
        [] \<Rightarrow> Some []
      | b # _ \<Rightarrow>
          map_option snd (while_option fst (\<lambda>(_, tree). dominator_sweep f cfg (bl_name b) tree)
            (True, initial_dominators f cfg (bl_name b))))"

text \<open>The worklist of \<open>repair_dominator_tree\<close>: the queue and the set of queued blocks.\<close>

type_synonym dominator_worklist = "string list \<times> string set \<times> dominator_tree"

definition enqueue_blocks ::
  "control_flow_graph \<Rightarrow> string \<Rightarrow> string list \<Rightarrow> string list \<times> string set \<Rightarrow> string list \<times> string set" where
  "enqueue_blocks cfg start bs st =
     foldl (\<lambda>(pending, queued) b. if b \<noteq> start \<and> b \<in> cg_reachable cfg \<and> b \<notin> queued
              then (pending @ [b], insert b queued) else (pending, queued)) st bs"

text \<open>The repair skips predecessors without an entry.\<close>

definition repaired_dominators :: "control_flow_graph \<Rightarrow> dominator_tree \<Rightarrow> string \<Rightarrow> string set" where
  "repaired_dominators cfg tree b =
     insert b (meet_preds tree (filter (\<lambda>p. p \<in> cg_reachable cfg \<and> map_of tree p \<noteq> None) (entry (cg_predecessors cfg) b)))"

definition repair_step :: "control_flow_graph \<Rightarrow> string \<Rightarrow> dominator_worklist \<Rightarrow> dominator_worklist" where
  "repair_step cfg start st =
     (case st of
        ([], queued, tree) \<Rightarrow> st
      | (b # pending, queued, tree) \<Rightarrow>
          let queued1 = queued - {b}; nxt = repaired_dominators cfg tree b; tree1 = touch {} b tree
          in if dom_set tree1 b = nxt then (pending, queued1, tree1)
             else let (pending2, queued2) = enqueue_blocks cfg start (entry (cg_successors cfg) b) (pending, queued1)
                  in (pending2, queued2, AList.update b nxt tree1))"

definition repair_dominator_tree ::
  "ir_function \<Rightarrow> control_flow_graph \<Rightarrow> dominator_tree \<Rightarrow> string list \<Rightarrow> dominator_tree option" where
  "repair_dominator_tree f cfg tree seeds =
     (case fn_blocks f of
        [] \<Rightarrow> Some tree
      | b # _ \<Rightarrow>
          if seeds = [] then Some tree
          else let start = bl_name b; (pending, queued) = enqueue_blocks cfg start seeds ([], {})
               in map_option (snd \<circ> snd) (while_option (\<lambda>(pending, _, _). pending \<noteq> []) (repair_step cfg start) (pending, queued, tree)))"

section \<open>Natural loops\<close>

record natural_loop =
  nl_header :: string
  nl_latch :: string
  nl_preheader :: string
  nl_blocks :: "string set"

fun push_loop :: "string \<Rightarrow> string list \<Rightarrow> string set \<Rightarrow> string list \<Rightarrow> string set \<times> string list" where
  "push_loop header [] blocks pending = (blocks, pending)"
| "push_loop header (p # ps) blocks pending =
     (if p \<in> blocks then push_loop header ps blocks pending
      else push_loop header ps (insert p blocks) (if p \<noteq> header then p # pending else pending))"

lemma push_loop_blocks: "fst (push_loop header ps blocks pending) = blocks \<union> set ps"
  by (induction ps arbitrary: blocks pending) auto

lemma push_loop_decreases:
  assumes "push_loop header ps blocks pending = (blocks', pending')" and "set ps \<subseteq> T" and "finite T"
  shows "card (T - blocks') < card (T - blocks) \<or> card (T - blocks') = card (T - blocks) \<and> pending' = pending"
proof (cases "set ps \<subseteq> blocks")
  case True
  then have "push_loop header ps blocks pending = (blocks, pending)"
    by (induction ps) auto
  then show ?thesis using assms(1) by simp
next
  case False
  have "blocks' = blocks \<union> set ps" using push_loop_blocks [of header ps blocks pending] assms(1) by simp
  then have "T - blocks' \<subset> T - blocks" using False assms(2) by blast
  then show ?thesis using assms(3) by (simp add: psubset_card_mono)
qed

text \<open>The stack of \<open>build_loop_info\<close>, its top first.\<close>

function collect_loop :: "(string \<times> string list) list \<Rightarrow> string \<Rightarrow> string list \<Rightarrow> string set \<Rightarrow> string set" where
  "collect_loop preds header [] blocks = blocks"
| "collect_loop preds header (b # pending) blocks =
     (let (blocks', pending') = push_loop header (entry preds b) blocks pending
      in collect_loop preds header pending' blocks')"
  by pat_completeness auto
termination
proof (relation "inv_image (less_than <*lex*> less_than) (\<lambda>(m, h, q, r). (card (all_targets m - r), length q))", goal_cases)
  case (2 m h b q r x r' q')
  then show ?case using push_loop_decreases [OF _ entry_targets finite_all_targets, of h m b r q r' q'] by auto
qed auto

definition natural_loop_of :: "control_flow_graph \<Rightarrow> string \<Rightarrow> string \<Rightarrow> natural_loop" where
  "natural_loop_of cfg header latch =
     (let blocks = collect_loop (cg_predecessors cfg) header (if latch \<noteq> header then [latch] else []) {header, latch};
          outside = filter (\<lambda>p. p \<notin> blocks) (entry (cg_predecessors cfg) header)
      in \<lparr>nl_header = header, nl_latch = latch,
          nl_preheader = (if length outside = 1 then hd outside else []), nl_blocks = blocks\<rparr>)"

definition build_loop_info :: "ir_function \<Rightarrow> control_flow_graph \<Rightarrow> dominator_tree \<Rightarrow> natural_loop list" where
  "build_loop_info f cfg dominators =
     concat (map (\<lambda>b. map (\<lambda>header. natural_loop_of cfg header (bl_name b))
       (filter (\<lambda>header. dominates dominators header (bl_name b)) (entry (cg_successors cfg) (bl_name b)))) (fn_blocks f))"

section \<open>Use-def chains\<close>

record definition_site =
  df_block :: string
  df_index :: nat
  df_is_parameter :: bool

record block_contribution =
  bc_definitions :: "string list"
  bc_use_count :: "string \<rightharpoonup> nat"

record use_def_info =
  ud_definitions :: "string \<rightharpoonup> definition_site"
  ud_use_count :: "string \<rightharpoonup> nat"
  ud_contributions :: "string \<rightharpoonup> block_contribution"

definition starts_percent :: "string \<Rightarrow> bool" where
  "starts_percent s \<longleftrightarrow> s \<noteq> [] \<and> hd s = CHR ''%''"

definition count_of :: "(string \<rightharpoonup> nat) \<Rightarrow> string \<Rightarrow> nat" where
  "count_of m v = (case m v of None \<Rightarrow> 0 | Some n \<Rightarrow> n)"

definition add_use :: "string \<Rightarrow> (string \<rightharpoonup> nat) \<Rightarrow> (string \<rightharpoonup> nat)" where
  "add_use v m = (if starts_percent v then m(v \<mapsto> count_of m v + 1) else m)"

definition operation_uses :: "operation \<Rightarrow> string list" where
  "operation_uses op = op_operands op @ concat (op_successor_arguments op)"

definition block_results :: "ir_block \<Rightarrow> string list" where
  "block_results b = filter (\<lambda>r. r \<noteq> []) (map op_result (bl_operations b))"

definition scan_block_use_def :: "ir_block \<Rightarrow> block_contribution" where
  "scan_block_use_def b =
     \<lparr>bc_definitions = map vd_name (bl_parameters b) @ block_results b,
      bc_use_count = fold add_use (concat (map operation_uses (bl_operations b))) Map.empty\<rparr>"

definition define_parameter :: "string \<Rightarrow> value_decl \<Rightarrow> (string \<rightharpoonup> definition_site) \<Rightarrow> (string \<rightharpoonup> definition_site)" where
  "define_parameter block p m = m(vd_name p \<mapsto> \<lparr>df_block = block, df_index = 0, df_is_parameter = True\<rparr>)"

definition define_result :: "string \<Rightarrow> nat \<times> operation \<Rightarrow> (string \<rightharpoonup> definition_site) \<Rightarrow> (string \<rightharpoonup> definition_site)" where
  "define_result block iop m =
     (case iop of (i, op) \<Rightarrow> if op_result op = [] then m
        else m(op_result op \<mapsto> \<lparr>df_block = block, df_index = i, df_is_parameter = False\<rparr>))"

definition apply_block_use_def :: "ir_block \<Rightarrow> block_contribution \<Rightarrow> use_def_info \<Rightarrow> use_def_info" where
  "apply_block_use_def b c info =
     info\<lparr>ud_definitions := fold (define_result (bl_name b)) (enumerate 0 (bl_operations b))
            (fold (define_parameter (bl_name b)) (bl_parameters b) (ud_definitions info)),
          ud_use_count := (\<lambda>v. case bc_use_count c v of None \<Rightarrow> ud_use_count info v
            | Some n \<Rightarrow> Some (count_of (ud_use_count info) v + n))\<rparr>"

definition undefine :: "string \<Rightarrow> string \<Rightarrow> (string \<rightharpoonup> definition_site) \<Rightarrow> (string \<rightharpoonup> definition_site)" where
  "undefine block v m = (case m v of None \<Rightarrow> m | Some d \<Rightarrow> if df_block d = block then m(v := None) else m)"

definition subtract_block_use_def :: "string \<Rightarrow> block_contribution \<Rightarrow> use_def_info \<Rightarrow> use_def_info" where
  "subtract_block_use_def block c info =
     info\<lparr>ud_definitions := fold (undefine block) (bc_definitions c) (ud_definitions info),
          ud_use_count := (\<lambda>v. case bc_use_count c v of None \<Rightarrow> ud_use_count info v
            | Some n \<Rightarrow> (case ud_use_count info v of None \<Rightarrow> None | Some k \<Rightarrow> if k \<le> n then None else Some (k - n)))\<rparr>"

definition scan_into :: "ir_block \<Rightarrow> string \<Rightarrow> use_def_info \<Rightarrow> use_def_info" where
  "scan_into b name info =
     (let c = scan_block_use_def b; info1 = apply_block_use_def b c info
      in info1\<lparr>ud_contributions := map_emplace (ud_contributions info1) name c\<rparr>)"

definition populate_use_def :: "ir_function \<Rightarrow> use_def_info" where
  "populate_use_def f =
     fold (\<lambda>b. scan_into b (bl_name b)) (fn_blocks f)
       \<lparr>ud_definitions = fold (\<lambda>p m. map_emplace m (vd_name p) \<lparr>df_block = [], df_index = 0, df_is_parameter = True\<rparr>)
          (fn_parameters f) Map.empty,
        ud_use_count = Map.empty, ud_contributions = Map.empty\<rparr>"

definition build_use_def :: "ir_function \<Rightarrow> use_def_info" where
  "build_use_def f = populate_use_def f"

definition repair_use_def_block :: "ir_function \<Rightarrow> string \<Rightarrow> use_def_info \<Rightarrow> use_def_info" where
  "repair_use_def_block f name info =
     (let info1 = (case ud_contributions info name of
            None \<Rightarrow> info
          | Some old \<Rightarrow> (let i = subtract_block_use_def name old info in i\<lparr>ud_contributions := (ud_contributions i)(name := None)\<rparr>))
      in case find_block_named f name of None \<Rightarrow> info1 | Some b \<Rightarrow> scan_into b name info1)"

definition repair_use_def_blocks :: "ir_function \<Rightarrow> string list \<Rightarrow> use_def_info \<Rightarrow> use_def_info" where
  "repair_use_def_blocks f touched info = fold (repair_use_def_block f) touched info"

section \<open>Alias analysis\<close>

datatype pointer_origin = Origin_unknown | Origin_stack | Origin_global | Origin_argument
datatype alias_result = No_alias | May_alias | Must_alias

text \<open>Offsets are \<open>int64_t\<close>; their sums are taken modulo \<open>2^64\<close>, which the code assumes not to happen.\<close>

definition wrap64 :: "int \<Rightarrow> int" where
  "wrap64 i = sint (word_of_int i :: 64 word)"

record memory_location =
  ml_origin :: pointer_origin
  ml_base :: string
  ml_offset :: int
  ml_size :: nat
  ml_precise :: bool

record alias_analysis =
  aa_pointers :: "string \<rightharpoonup> memory_location"
  aa_dependents :: "string \<rightharpoonup> string list"
  aa_defining_blocks :: "(string \<times> string) list"

definition location :: "alias_analysis \<Rightarrow> string \<Rightarrow> nat \<Rightarrow> memory_location" where
  "location a v access_size =
     (case aa_pointers a v of
        None \<Rightarrow> \<lparr>ml_origin = Origin_unknown, ml_base = v, ml_offset = 0, ml_size = access_size, ml_precise = False\<rparr>
      | Some l \<Rightarrow> l\<lparr>ml_size := access_size\<rparr>)"

definition same_object :: "memory_location \<Rightarrow> memory_location \<Rightarrow> alias_result" where
  "same_object l r =
     (if \<not> ml_precise l \<or> \<not> ml_precise r then May_alias
      else if ml_offset l = ml_offset r \<and> ml_size l = ml_size r then Must_alias
      else if ml_size l \<noteq> 0 \<and> ml_size r \<noteq> 0 \<and>
        (wrap64 (ml_offset l + int (ml_size l)) \<le> ml_offset r \<or> wrap64 (ml_offset r + int (ml_size r)) \<le> ml_offset l) then No_alias
      else May_alias)"

definition alias_of :: "memory_location \<Rightarrow> memory_location \<Rightarrow> alias_result" where
  "alias_of l r =
     (if ml_origin l = Origin_unknown \<or> ml_origin r = Origin_unknown then May_alias
      else if ml_origin l = Origin_stack \<or> ml_origin r = Origin_stack then
        (if ml_origin l \<noteq> ml_origin r \<or> ml_base l \<noteq> ml_base r then No_alias else same_object l r)
      else if ml_origin l = Origin_global \<and> ml_origin r = Origin_global then
        (if ml_base l \<noteq> ml_base r then No_alias else same_object l r)
      else if ml_origin l \<noteq> ml_origin r then May_alias
      else if ml_origin l = Origin_argument \<and> ml_base l \<noteq> ml_base r then May_alias
      else same_object l r)"

definition add_alias_dependency :: "string \<Rightarrow> string \<Rightarrow> (string \<rightharpoonup> string list) \<Rightarrow> (string \<rightharpoonup> string list)" where
  "add_alias_dependency source result m =
     (if \<not> starts_percent source \<or> result = [] then m
      else let values' = (case m source of None \<Rightarrow> [] | Some vs \<Rightarrow> vs)
           in m(source \<mapsto> (if result \<in> set values' then values' else values' @ [result])))"

definition is_pointer_copy :: "operation \<Rightarrow> bool" where
  "is_pointer_copy op \<longleftrightarrow> (op_opcode op = ''copy'' \<or> op_opcode op = ''bitcast'') \<and> length (op_operands op) = 1"

definition is_pointer_offset :: "operation \<Rightarrow> bool" where
  "is_pointer_offset op \<longleftrightarrow> (op_opcode op = ''ptr.offset'' \<or> op_opcode op = ''field.address'') \<and> length (op_operands op) = 2"

definition alias_metadata_op :: "string \<Rightarrow> operation \<Rightarrow> alias_analysis \<Rightarrow> alias_analysis" where
  "alias_metadata_op block op a =
     (if op_result op = [] then a
      else a\<lparr>aa_defining_blocks := AList.update (op_result op) block (aa_defining_blocks a),
             aa_dependents :=
               (if is_pointer_copy op then add_alias_dependency (op_operands op ! 0) (op_result op) (aa_dependents a)
                else if is_pointer_offset op
                then add_alias_dependency (op_operands op ! 1) (op_result op)
                       (add_alias_dependency (op_operands op ! 0) (op_result op) (aa_dependents a))
                else aa_dependents a)\<rparr>)"

definition alias_metadata_block :: "ir_block \<Rightarrow> alias_analysis \<Rightarrow> alias_analysis" where
  "alias_metadata_block b a =
     fold (alias_metadata_op (bl_name b)) (bl_operations b)
       (a\<lparr>aa_defining_blocks := fold (\<lambda>p. AList.update (vd_name p) (bl_name b)) (bl_parameters b) (aa_defining_blocks a)\<rparr>)"

definition rebuild_alias_metadata :: "ir_function \<Rightarrow> alias_analysis \<Rightarrow> alias_analysis" where
  "rebuild_alias_metadata f a =
     fold alias_metadata_block (fn_blocks f)
       (a\<lparr>aa_dependents := Map.empty, aa_defining_blocks := fold (\<lambda>p. AList.update (vd_name p) []) (fn_parameters f) []\<rparr>)"

definition find_definition_operation :: "ir_function \<Rightarrow> use_def_info \<Rightarrow> string \<Rightarrow> operation option" where
  "find_definition_operation f ud v =
     (case ud_definitions ud v of
        None \<Rightarrow> None
      | Some d \<Rightarrow> if df_is_parameter d then None
          else case find_block_named f (df_block d) of None \<Rightarrow> None | Some b \<Rightarrow> list_at (bl_operations b) (df_index d))"

definition resolve_alias_constant :: "ir_function \<Rightarrow> use_def_info \<Rightarrow> string \<Rightarrow> int option" where
  "resolve_alias_constant f ud v =
     (case parse_int64 v of
        Some i \<Rightarrow> Some i
      | None \<Rightarrow> (case find_definition_operation f ud v of
                  None \<Rightarrow> None
                | Some op \<Rightarrow> if op_opcode op \<noteq> ''const'' \<or> length (op_operands op) \<noteq> 1 then None
                            else parse_int64 (op_operands op ! 0)))"

definition shift_location :: "int option \<Rightarrow> memory_location \<Rightarrow> memory_location" where
  "shift_location off l =
     (case off of
        Some i \<Rightarrow> if ml_precise l then l\<lparr>ml_offset := wrap64 (ml_offset l + i)\<rparr> else l\<lparr>ml_precise := False\<rparr>
      | None \<Rightarrow> l\<lparr>ml_precise := False\<rparr>)"

definition operand_names :: "ir_function \<Rightarrow> string set" where
  "operand_names f = set (concat (map (\<lambda>b. concat (map op_operands (bl_operations b))) (fn_blocks f)))"

lemma find_definition_operand:
  assumes "find_definition_operation f ud v = Some op" and "x \<in> set (op_operands op)"
  shows "x \<in> operand_names f"
proof -
  obtain d :: definition_site and b where "find_block_named f (df_block d) = Some b" "list_at (bl_operations b) (df_index d) = Some op"
    using assms(1) by (auto simp: find_definition_operation_def split: option.splits if_splits)
  then have "b \<in> set (fn_blocks f)" "op \<in> set (bl_operations b)"
    by (auto simp: find_block_named_def list_at_Some_iff dest: find_Some_in)
  then show ?thesis using assms(2) by (auto simp: operand_names_def)
qed

abbreviation precise_location :: "pointer_origin \<Rightarrow> string \<Rightarrow> memory_location" where
  "precise_location origin base \<equiv> \<lparr>ml_origin = origin, ml_base = base, ml_offset = 0, ml_size = 0, ml_precise = True\<rparr>"

text \<open>The result and the table of pointers, which the recursion fills; \<open>visiting\<close> is restored on every return.\<close>

function (sequential) resolve_alias_pointer ::
  "ir_function \<Rightarrow> use_def_info \<Rightarrow> string set \<Rightarrow> string \<Rightarrow> (string \<rightharpoonup> memory_location) \<Rightarrow>
   memory_location option \<times> (string \<rightharpoonup> memory_location)" where
  "resolve_alias_pointer f ud visiting v pointers =
     (case pointers v of
        Some l \<Rightarrow> (Some l, pointers)
      | None \<Rightarrow>
        if v \<in> visiting then (None, pointers)
        else case find (\<lambda>p. vd_name p = v) (fn_parameters f) of
          Some p \<Rightarrow>
            if vd_type p \<noteq> TK_ptr then (None, pointers)
            else (Some (precise_location Origin_argument v), pointers(v \<mapsto> precise_location Origin_argument v))
        | None \<Rightarrow>
          (case ud_definitions ud v of
             None \<Rightarrow> (None, pointers)
           | Some d \<Rightarrow>
             if df_is_parameter d then
               (case find_block_named f (df_block d) of
                  None \<Rightarrow> (None, pointers)
                | Some b \<Rightarrow>
                    (case find (\<lambda>p. vd_name p = v) (bl_parameters b) of
                       None \<Rightarrow> (None, pointers)
                     | Some p \<Rightarrow>
                         if vd_type p = TK_ptr
                         then (let l = (precise_location Origin_unknown v)\<lparr>ml_precise := False\<rparr> in (Some l, pointers(v \<mapsto> l)))
                         else (None, pointers)))
             else
               (case find_definition_operation f ud v of
                  None \<Rightarrow> (None, pointers)
                | Some op \<Rightarrow>
                    if op_opcode op = ''stack.alloc'' \<or> op_opcode op = ''stack.alloc.struct'' \<or> op_opcode op = ''stack.alloc.array''
                    then (Some (precise_location Origin_stack v), pointers(v \<mapsto> precise_location Origin_stack v))
                    else if (op_opcode op = ''global.address'' \<or> op_opcode op = ''tls.address'') \<and> length (op_operands op) = 1
                    then (let l = precise_location Origin_global (op_operands op ! 0) in (Some l, pointers(v \<mapsto> l)))
                    else if is_pointer_copy op then
                      (case resolve_alias_pointer f ud (insert v visiting) (op_operands op ! 0) pointers of
                         (None, pointers') \<Rightarrow> (None, pointers')
                       | (Some l, pointers') \<Rightarrow> (Some l, pointers'(v \<mapsto> l)))
                    else if is_pointer_offset op then
                      (case resolve_alias_pointer f ud (insert v visiting) (op_operands op ! 0) pointers of
                         (None, pointers') \<Rightarrow> (None, pointers')
                       | (Some l, pointers') \<Rightarrow>
                           (let l' = shift_location (resolve_alias_constant f ud (op_operands op ! 1)) l
                            in (Some l', pointers'(v \<mapsto> l'))))
                    else (None, pointers))))"
  by pat_completeness auto
termination
proof (relation "inv_image (less_than <*lex*> less_than)
    (\<lambda>(f, ud, vis, v, ps). (card (operand_names f - vis), if v \<in> operand_names f then 0 else 1 :: nat))", goal_cases)
  case (2 f ud vis v ps d op)
  have "op_operands op ! 0 \<in> operand_names f"
    using 2 by (auto intro!: find_definition_operand simp: is_pointer_copy_def)
  moreover have "v \<in> operand_names f \<Longrightarrow> card (operand_names f - insert v vis) < card (operand_names f - vis)"
    using 2 by (intro psubset_card_mono) (auto simp: operand_names_def)
  moreover have "v \<notin> operand_names f \<Longrightarrow> operand_names f - insert v vis = operand_names f - vis" by auto
  ultimately show ?case by auto
next
  case (3 f ud vis v ps d op)
  have "op_operands op ! 0 \<in> operand_names f"
    using 3 by (auto intro!: find_definition_operand simp: is_pointer_offset_def)
  moreover have "v \<in> operand_names f \<Longrightarrow> card (operand_names f - insert v vis) < card (operand_names f - vis)"
    using 3 by (intro psubset_card_mono) (auto simp: operand_names_def)
  moreover have "v \<notin> operand_names f \<Longrightarrow> operand_names f - insert v vis = operand_names f - vis" by auto
  ultimately show ?case by auto
qed auto

declare resolve_alias_pointer.simps [simp del]

definition populate_alias_analysis :: "string list \<Rightarrow> ir_function \<Rightarrow> use_def_info \<Rightarrow> alias_analysis \<Rightarrow> alias_analysis" where
  "populate_alias_analysis keys f ud a =
     (let a1 = rebuild_alias_metadata f (a\<lparr>aa_pointers := Map.empty\<rparr>)
      in a1\<lparr>aa_pointers := fold (\<lambda>v ps. snd (resolve_alias_pointer f ud {} v ps)) keys (aa_pointers a1)\<rparr>)"

definition empty_alias_analysis :: alias_analysis where
  "empty_alias_analysis = \<lparr>aa_pointers = Map.empty, aa_dependents = Map.empty, aa_defining_blocks = []\<rparr>"

definition build_alias_analysis :: "string list \<Rightarrow> ir_function \<Rightarrow> alias_analysis" where
  "build_alias_analysis keys f = populate_alias_analysis keys f (build_use_def f) empty_alias_analysis"

text \<open>The values of the touched blocks, old and new, each once.\<close>

definition touched_values :: "ir_function \<Rightarrow> alias_analysis \<Rightarrow> string list \<Rightarrow> string list" where
  "touched_values f a touched =
     foldl add_distinct (map fst (filter (\<lambda>(v, block). block \<in> set touched) (aa_defining_blocks a)))
       (concat (map (\<lambda>name. case find_block_named f name of
            None \<Rightarrow> [] | Some b \<Rightarrow> map vd_name (bl_parameters b) @ block_results b) touched))"

text \<open>The cursor over the growing list of affected values.\<close>

definition dependents_of :: "alias_analysis \<Rightarrow> string \<Rightarrow> string list" where
  "dependents_of a v = (case aa_dependents a v of None \<Rightarrow> [] | Some vs \<Rightarrow> vs)"

definition affected_step :: "alias_analysis \<Rightarrow> nat \<times> string list \<Rightarrow> nat \<times> string list" where
  "affected_step a st = (case st of (cursor, pending) \<Rightarrow>
     (cursor + 1, foldl add_distinct pending (dependents_of a (pending ! cursor))))"

definition affected_values :: "ir_function \<Rightarrow> alias_analysis \<Rightarrow> string list \<Rightarrow> string list option" where
  "affected_values f a touched =
     map_option snd (while_option (\<lambda>(cursor, pending). cursor < length pending) (affected_step a) (0, touched_values f a touched))"

definition repair_alias_analysis ::
  "(string set \<Rightarrow> string list) \<Rightarrow> ir_function \<Rightarrow> use_def_info \<Rightarrow> string list \<Rightarrow> alias_analysis \<Rightarrow> alias_analysis option" where
  "repair_alias_analysis enum_set f ud touched a =
     map_option (\<lambda>affected.
        let a1 = rebuild_alias_metadata f (a\<lparr>aa_pointers := (\<lambda>v. if v \<in> set affected then None else aa_pointers a v)\<rparr>)
        in a1\<lparr>aa_pointers := fold (\<lambda>v ps. snd (resolve_alias_pointer f ud {} v ps)) (enum_set (set affected)) (aa_pointers a1)\<rparr>)
       (affected_values f a touched)"

section \<open>The manager\<close>

datatype invalidation_scope = Scope_none | Scope_operations | Scope_control_flow | Scope_all

text \<open>
  The caches with their \<open>has_\<close> flags as options: a cache whose flag is cleared is never read again before it is filled. What
  the manager enumerates in hash order is given by \<open>enum_set\<close> and, for the definitions, by \<open>keys\<close>. \<open>None\<close> is a run
  that does not end.
\<close>

record analysis_manager =
  am_cfg :: "control_flow_graph option"
  am_use_def :: "use_def_info option"
  am_dominators :: "dominator_tree option"
  am_aliases :: "alias_analysis option"
  am_loops :: "natural_loop list option"

definition new_manager :: analysis_manager where
  "new_manager = \<lparr>am_cfg = None, am_use_def = None, am_dominators = None, am_aliases = None, am_loops = None\<rparr>"

definition manager_cfg :: "ir_function \<Rightarrow> analysis_manager \<Rightarrow> control_flow_graph \<times> analysis_manager" where
  "manager_cfg f m =
     (case am_cfg m of Some c \<Rightarrow> (c, m) | None \<Rightarrow> (let c = populate_cfg f in (c, m\<lparr>am_cfg := Some c\<rparr>)))"

definition manager_use_def :: "ir_function \<Rightarrow> analysis_manager \<Rightarrow> use_def_info \<times> analysis_manager" where
  "manager_use_def f m =
     (case am_use_def m of Some u \<Rightarrow> (u, m) | None \<Rightarrow> (let u = populate_use_def f in (u, m\<lparr>am_use_def := Some u\<rparr>)))"

definition manager_dominators :: "ir_function \<Rightarrow> analysis_manager \<Rightarrow> (dominator_tree \<times> analysis_manager) option" where
  "manager_dominators f m =
     (case am_dominators m of
        Some d \<Rightarrow> Some (d, m)
      | None \<Rightarrow> (let (c, m1) = manager_cfg f m
                in map_option (\<lambda>d. (d, m1\<lparr>am_dominators := Some d\<rparr>)) (build_dominator_tree f c)))"

definition manager_aliases ::
  "(use_def_info \<Rightarrow> string list) \<Rightarrow> ir_function \<Rightarrow> analysis_manager \<Rightarrow> alias_analysis \<times> analysis_manager" where
  "manager_aliases keys f m =
     (case am_aliases m of
        Some a \<Rightarrow> (a, m)
      | None \<Rightarrow> (let (u, m1) = manager_use_def f m; a = populate_alias_analysis (keys u) f u empty_alias_analysis
                in (a, m1\<lparr>am_aliases := Some a\<rparr>)))"

definition manager_loops :: "ir_function \<Rightarrow> analysis_manager \<Rightarrow> (natural_loop list \<times> analysis_manager) option" where
  "manager_loops f m =
     (case am_loops m of
        Some l \<Rightarrow> Some (l, m)
      | None \<Rightarrow>
          (let (c, m1) = manager_cfg f m
           in map_option (\<lambda>(d, m2). (let l = build_loop_info f c d in (l, m2\<lparr>am_loops := Some l\<rparr>))) (manager_dominators f m1)))"

definition is_local_edit :: "ir_function \<Rightarrow> string list \<Rightarrow> bool" where
  "is_local_edit f touched \<longleftrightarrow> touched \<noteq> [] \<and> (length (fn_blocks f) < 8 \<or> length touched * 4 \<le> length (fn_blocks f))"

definition manager_repair_use_def :: "ir_function \<Rightarrow> string list \<Rightarrow> analysis_manager \<Rightarrow> analysis_manager" where
  "manager_repair_use_def f touched m =
     (case am_use_def m of
        Some u \<Rightarrow> if is_local_edit f touched then m\<lparr>am_use_def := Some (repair_use_def_blocks f touched u)\<rparr>
                  else m\<lparr>am_use_def := Some (populate_use_def f)\<rparr>
      | None \<Rightarrow> m\<lparr>am_use_def := Some (populate_use_def f)\<rparr>)"

definition invalidate_operations ::
  "(string set \<Rightarrow> string list) \<Rightarrow> ir_function \<Rightarrow> string list \<Rightarrow> analysis_manager \<Rightarrow> analysis_manager option" where
  "invalidate_operations enum_set f touched m =
     (let local_edit = is_local_edit f touched;
          m1 = (case am_use_def m of
                  Some u \<Rightarrow> if local_edit then m\<lparr>am_use_def := Some (repair_use_def_blocks f touched u)\<rparr> else m\<lparr>am_use_def := None\<rparr>
                | None \<Rightarrow> m)
      in case am_aliases m1 of
           Some a \<Rightarrow>
             if local_edit then
               (let (u, m2) = manager_use_def f m1
                in map_option (\<lambda>a'. m2\<lparr>am_aliases := Some a'\<rparr>) (repair_alias_analysis enum_set f u touched a))
             else Some (m1\<lparr>am_aliases := None\<rparr>)
         | None \<Rightarrow> Some m1)"

definition invalidate_control_flow ::
  "(string set \<Rightarrow> string list) \<Rightarrow> ir_function \<Rightarrow> string list \<Rightarrow> analysis_manager \<Rightarrow> analysis_manager option" where
  "invalidate_control_flow enum_set f touched m =
     (let dropped = invalidate_operations enum_set f [] (m\<lparr>am_cfg := None, am_dominators := None, am_loops := None\<rparr>)
      in case am_cfg m of
           None \<Rightarrow> dropped
         | Some cfg \<Rightarrow>
             if is_local_edit f touched then
               (case repair_cfg_blocks enum_set f cfg touched of (repair, cfg') \<Rightarrow>
                  if \<not> rp_valid repair then dropped
                  else if \<not> rp_changed repair then invalidate_operations enum_set f touched (m\<lparr>am_cfg := Some cfg'\<rparr>)
                  else (case am_dominators m of
                          Some d \<Rightarrow>
                            if \<not> rp_reachability_changed repair then
                              (case repair_dominator_tree f cfg' d (rp_affected repair) of
                                 None \<Rightarrow> None
                               | Some d' \<Rightarrow> invalidate_operations enum_set f touched
                                     (m\<lparr>am_cfg := Some cfg', am_dominators := Some d', am_loops := None\<rparr>))
                            else invalidate_operations enum_set f touched
                                   (m\<lparr>am_cfg := Some cfg', am_dominators := None, am_loops := None\<rparr>)
                        | None \<Rightarrow> invalidate_operations enum_set f touched
                                   (m\<lparr>am_cfg := Some cfg', am_dominators := None, am_loops := None\<rparr>)))
             else dropped)"

definition invalidate_all :: "analysis_manager \<Rightarrow> analysis_manager" where
  "invalidate_all m = new_manager"

definition invalidate ::
  "(string set \<Rightarrow> string list) \<Rightarrow> ir_function \<Rightarrow> invalidation_scope \<Rightarrow> string list \<Rightarrow> analysis_manager \<Rightarrow> analysis_manager option" where
  "invalidate enum_set f scope touched m =
     (case scope of
        Scope_none \<Rightarrow> Some m
      | Scope_operations \<Rightarrow> invalidate_operations enum_set f touched m
      | Scope_control_flow \<Rightarrow> invalidate_control_flow enum_set f touched m
      | Scope_all \<Rightarrow> Some (invalidate_all m))"

end
