(* ===== verification/Flow_Graph.thy ===== *)
theory Flow_Graph
  imports Function_Analysis
begin

text \<open>
  The control-flow graph and the dominators of \<open>function_analysis.cpp\<close> against their graph-theoretic
  definitions: reachable blocks, and the blocks on every walk from the entry.
\<close>

section \<open>Walks and dominance\<close>

inductive walk :: "('n \<times> 'n) set \<Rightarrow> 'n \<Rightarrow> 'n list \<Rightarrow> bool" for edges :: "('n \<times> 'n) set" and root :: 'n where
  walk_root: "walk edges root [root]"
| walk_step: "walk edges root p \<Longrightarrow> (last p, b) \<in> edges \<Longrightarrow> walk edges root (p @ [b])"

definition on_every_walk :: "('n \<times> 'n) set \<Rightarrow> 'n \<Rightarrow> 'n \<Rightarrow> 'n set" where
  "on_every_walk edges root b = {d. \<forall>p. walk edges root p \<and> last p = b \<longrightarrow> d \<in> set p}"

lemma walk_nonempty: "walk edges root p \<Longrightarrow> p \<noteq> []"
  by (induction rule: walk.induct) auto

lemma walk_reaches: "walk edges root p \<Longrightarrow> x \<in> set p \<Longrightarrow> (root, x) \<in> edges\<^sup>*"
proof (induction arbitrary: x rule: walk.induct)
  case (walk_step p b)
  have "last p \<in> set p" using walk_nonempty [OF walk_step(1)] by simp
  then have "(root, last p) \<in> edges\<^sup>*" by (rule walk_step.IH)
  then show ?case using walk_step by (auto intro: rtrancl_into_rtrancl)
qed simp

lemma reaches_walk: "(root, b) \<in> edges\<^sup>* \<Longrightarrow> \<exists>p. walk edges root p \<and> last p = b"
proof (induction rule: rtrancl_induct)
  case (step a b)
  then obtain p where "walk edges root p" "last p = a" by blast
  then show ?case using step(2) walk_step [of edges root p b] by auto
qed (auto intro: walk_root)

text \<open>
  The equations an iterative dominator computation solves: outside the root, a block is dominated by itself and by what
  dominates all its reachable predecessors.
\<close>

locale dominator_equations =
  fixes edges :: "('n \<times> 'n) set" and root :: 'n and transfer :: "('n \<Rightarrow> 'n set) \<Rightarrow> 'n \<Rightarrow> 'n set"
  assumes transfer: "(root, b) \<in> edges\<^sup>* \<Longrightarrow> b \<noteq> root \<Longrightarrow>
    transfer D b = insert b (\<Inter> (D ` {p. (root, p) \<in> edges\<^sup>* \<and> (p, b) \<in> edges}))"
begin

definition reached :: "'n set" where
  "reached = {b. (root, b) \<in> edges\<^sup>*}"

lemma pred_exists: "b \<in> reached \<Longrightarrow> b \<noteq> root \<Longrightarrow> \<exists>p \<in> reached. (p, b) \<in> edges"
  by (auto simp: reached_def elim: rtranclE)

lemma transfer_mono:
  assumes "\<And>p. p \<in> reached \<Longrightarrow> (p, b) \<in> edges \<Longrightarrow> D p \<subseteq> D' p" and "b \<in> reached" and "b \<noteq> root"
  shows "transfer D b \<subseteq> transfer D' b"
  using assms unfolding reached_def by (auto simp: transfer)

text \<open>What satisfies the equations from below lies on every walk.\<close>

lemma solution_sound:
  assumes root: "D root \<subseteq> {root}"
    and below: "\<And>b. b \<in> reached \<Longrightarrow> b \<noteq> root \<Longrightarrow> D b \<subseteq> transfer D b"
  shows "walk edges root p \<Longrightarrow> D (last p) \<subseteq> set p"
proof (induction rule: walk.induct)
  case (walk_step p b)
  have p: "last p \<in> reached" using walk_reaches [OF walk_step(1)] walk_nonempty [OF walk_step(1)] by (auto simp: reached_def)
  then have b: "b \<in> reached" using walk_step(2) by (auto simp: reached_def intro: rtrancl_into_rtrancl)
  show ?case
  proof (cases "b = root")
    case False
    then have "D b \<subseteq> insert b (D (last p))" using below [OF b False] p walk_step(2) b by (auto simp: transfer reached_def)
    then show ?thesis using walk_step.IH by auto
  qed (use root in auto)
qed (use root in auto)

text \<open>The transfer keeps everything that lies on every walk.\<close>

lemma transfer_complete:
  assumes "\<And>p. p \<in> reached \<Longrightarrow> (p, b) \<in> edges \<Longrightarrow> on_every_walk edges root p \<subseteq> D p" and b: "b \<in> reached" "b \<noteq> root"
  shows "on_every_walk edges root b \<subseteq> transfer D b"
proof
  fix d assume d: "d \<in> on_every_walk edges root b"
  have "d \<in> on_every_walk edges root p" if "d \<noteq> b" and e: "(p, b) \<in> edges" for p
    unfolding on_every_walk_def
  proof (intro CollectI allI impI)
    fix q assume q: "walk edges root q \<and> last q = p"
    then have "walk edges root (q @ [b])" using e by (auto intro: walk_step)
    then have "d \<in> set (q @ [b])" using d by (auto simp: on_every_walk_def)
    then show "d \<in> set q" using \<open>d \<noteq> b\<close> by simp
  qed
  then show "d \<in> transfer D b" using assms b by (cases "d = b") (auto simp: transfer reached_def)
qed

lemma on_every_walk_root: "on_every_walk edges root root = {root}"
proof -
  have "x \<in> set p" if "walk edges root p" "last p = x" for p x using walk_nonempty [OF that(1)] that(2) by auto
  then show ?thesis using walk_root [of edges root] by (fastforce simp: on_every_walk_def)
qed

lemma on_every_walk_reached: "b \<in> reached \<Longrightarrow> on_every_walk edges root b \<subseteq> reached"
  using reaches_walk [of root b edges] walk_reaches by (fastforce simp: reached_def on_every_walk_def)

text \<open>A solution above the walks is exactly dominance.\<close>

lemma solution_exact:
  assumes "D root \<subseteq> {root}" "\<And>b. b \<in> reached \<Longrightarrow> b \<noteq> root \<Longrightarrow> D b \<subseteq> transfer D b"
    and "on_every_walk edges root b \<subseteq> D b" and "b \<in> reached"
  shows "D b = on_every_walk edges root b"
proof
  show "D b \<subseteq> on_every_walk edges root b"
    using solution_sound [OF assms(1,2)] by (auto simp: on_every_walk_def)
qed (rule assms(3))

end

section \<open>The graph of a function\<close>

definition cfg_edges :: "ir_function \<Rightarrow> (string \<times> string) set" where
  "cfg_edges f = {(bl_name b, t) | b t. b \<in> set (fn_blocks f) \<and> t \<in> set (block_targets b)}"

definition block_names :: "ir_function \<Rightarrow> string list" where
  "block_names f = map bl_name (fn_blocks f)"

definition start_block :: "ir_function \<Rightarrow> string" where
  "start_block f = (case fn_blocks f of [] \<Rightarrow> [] | b # _ \<Rightarrow> bl_name b)"

definition reachable_blocks :: "ir_function \<Rightarrow> string set" where
  "reachable_blocks f = (if fn_blocks f = [] then {} else {b. (start_block f, b) \<in> (cfg_edges f)\<^sup>*})"

lemma entry_touch [simp]: "entry (touch [] k m) = entry m"
  by (rule ext) (auto simp: entry_def touch_def map_add_def split: option.splits)

lemma entry_update [simp]: "entry (AList.update k v m) x = (if x = k then v else entry m x)"
  by (simp add: entry_def update_conv')

lemma map_of_touch: "map_of (touch v k m) x = (if x = k \<and> map_of m k = None then Some v else map_of m x)"
  by (auto simp: touch_def map_add_def split: option.splits)

lemma dom_touch [simp]: "dom (map_of (touch v k m)) = insert k (dom (map_of m))"
  by (auto simp: map_of_touch dom_def split: if_splits)

lemma dom_update [simp]: "dom (map_of (AList.update k v m)) = insert k (dom (map_of m))"
  by (simp add: update_conv')

text \<open>The edges recorded so far, from both sides.\<close>

definition records_edges :: "control_flow_graph \<Rightarrow> (string \<times> string) set \<Rightarrow> bool" where
  "records_edges cfg edges \<longleftrightarrow> (\<forall>a. set (entry (cg_successors cfg) a) = {b. (a, b) \<in> edges} \<and>
     distinct (entry (cg_successors cfg) a)) \<and> (\<forall>b. set (entry (cg_predecessors cfg) b) = {a. (a, b) \<in> edges})"

lemma records_add_edge: "records_edges cfg edges \<Longrightarrow> records_edges (add_edge a b cfg) (insert (a, b) edges)"
  by (auto simp: records_edges_def add_edge_def)

lemma records_add_edges: "records_edges cfg edges \<Longrightarrow>
  records_edges (fold (add_edge a) ts cfg) (edges \<union> {a} \<times> set ts)"
proof (induction ts arbitrary: cfg edges)
  case (Cons t ts)
  have "records_edges (fold (add_edge a) ts (add_edge a t cfg)) (insert (a, t) edges \<union> {a} \<times> set ts)"
    by (rule Cons.IH [OF records_add_edge [OF Cons.prems]])
  moreover have "insert (a, t) edges \<union> {a} \<times> set ts = edges \<union> {a} \<times> set (t # ts)" by auto
  ultimately show ?case by simp
qed simp

lemma records_add_blocks: "records_edges cfg edges \<Longrightarrow>
  records_edges (foldl add_block cfg bs) (edges \<union> {(bl_name b, t) | b t. b \<in> set bs \<and> t \<in> set (block_targets b)})"
proof (induction bs arbitrary: cfg edges)
  case (Cons b bs)
  let ?c = "cfg\<lparr>cg_successors := touch [] (bl_name b) (cg_successors cfg), cg_predecessors := touch [] (bl_name b) (cg_predecessors cfg)\<rparr>"
  have "records_edges ?c edges" using Cons.prems by (simp add: records_edges_def)
  then have "records_edges (add_block cfg b) (edges \<union> {bl_name b} \<times> set (block_targets b))"
    unfolding add_block_def by (rule records_add_edges)
  from Cons.IH [OF this] have "records_edges (foldl add_block cfg (b # bs)) (edges \<union> {bl_name b} \<times> set (block_targets b) \<union>
      {(bl_name b, t) | b t. b \<in> set bs \<and> t \<in> set (block_targets b)})" by simp
  moreover have "edges \<union> {bl_name b} \<times> set (block_targets b) \<union> {(bl_name b, t) | b t. b \<in> set bs \<and> t \<in> set (block_targets b)} =
      edges \<union> {(bl_name c, t) | c t. c \<in> set (b # bs) \<and> t \<in> set (block_targets c)}" by auto
  ultimately show ?case by simp
qed simp

lemma records_cfg: "records_edges (foldl add_block empty_cfg (fn_blocks f)) (cfg_edges f)"
  using records_add_blocks [of empty_cfg "{}" "fn_blocks f"]
  by (simp add: cfg_edges_def records_edges_def empty_cfg_def entry_def)

section \<open>Reachability\<close>

definition table_edges :: "(string \<times> string list) list \<Rightarrow> (string \<times> string) set" where
  "table_edges m = {(a, b). b \<in> set (entry m a)}"

text \<open>The worklist invariant: blocks off the list have their successors reached.\<close>

lemma explore_reaches:
  "set pending \<subseteq> reached \<Longrightarrow> \<forall>a \<in> reached - set pending. set (entry m a) \<subseteq> reached \<Longrightarrow>
   explore m pending reached = (table_edges m)\<^sup>* `` reached"
proof (induction m pending reached rule: explore.induct)
  case (1 m reached)
  then have "table_edges m `` reached \<subseteq> reached" by (auto simp: table_edges_def)
  then show ?case by (simp add: Image_closed_trancl)
next
  case (2 m b pending reached)
  obtain reached' pending' where p: "push_new (entry m b) reached pending = (reached', pending')"
    by (cases "push_new (entry m b) reached pending")
  have r: "reached' = reached \<union> set (entry m b)" using push_new_reached [of "entry m b" reached pending] p by simp
  obtain new where q: "pending' = pending @ new" "set new = set (entry m b) - reached"
    using push_new_pending [of "entry m b" reached pending] p by auto
  have closed: "\<forall>a \<in> reached' - set pending'. set (entry m a) \<subseteq> reached'"
    using 2(2,3) r q by (cases "b \<in> set pending") auto
  have sub: "set pending' \<subseteq> reached'" using 2(2) r q by auto
  have "explore m pending' reached' = (table_edges m)\<^sup>* `` reached'"
    by (rule 2(1) [OF p [symmetric] refl sub closed])
  moreover have "(table_edges m)\<^sup>* `` reached' = (table_edges m)\<^sup>* `` reached"
    using 2(2) unfolding r by (auto simp: table_edges_def intro: converse_rtrancl_into_rtrancl)
  ultimately show ?case using p by simp
qed

lemma explore_touch_eq:
  "snd (explore_touch m pending reached) = explore m pending reached \<and>
   entry (fst (explore_touch m pending reached)) = entry m"
proof (induction m pending reached rule: explore_touch.induct)
  case (2 m b pending reached)
  obtain reached' pending' where p: "push_new (entry m b) reached pending = (reached', pending')"
    by (cases "push_new (entry m b) reached pending")
  have t: "explore (touch [] b m) q r = explore m q r" for q r
  proof (induction m q r rule: explore.induct)
    case (2 m c q r)
    then show ?case by (cases "push_new (entry m c) r q") simp
  qed simp
  show ?case using 2 [of "touch [] b m"] p t by simp
qed simp

declare explore.simps(2) [simp del] explore_touch.simps(2) [simp del]

lemma populate_cfg_Cons:
  "fn_blocks f = b # bs \<Longrightarrow> populate_cfg f =
     (let cfg = foldl add_block empty_cfg (fn_blocks f); r = explore_touch (cg_successors cfg) [bl_name b] {bl_name b}
      in cfg\<lparr>cg_successors := fst r, cg_reachable := snd r\<rparr>)"
  by (simp add: populate_cfg_def Let_def case_prod_beta)

lemma populate_cfg_records: "records_edges (populate_cfg f) (cfg_edges f)"
proof (cases "fn_blocks f")
  case Nil
  then show ?thesis using records_cfg [of f] by (simp add: populate_cfg_def)
next
  case (Cons b bs)
  let ?c = "foldl add_block empty_cfg (fn_blocks f)"
  have "entry (cg_successors (populate_cfg f)) = entry (cg_successors ?c)"
    "cg_predecessors (populate_cfg f) = cg_predecessors ?c"
    using Cons explore_touch_eq [of "cg_successors ?c" "[bl_name b]" "{bl_name b}"]
    by (simp_all add: populate_cfg_Cons Let_def)
  then show ?thesis using records_cfg [of f] by (simp add: records_edges_def)
qed

lemma table_edges_recorded: "records_edges cfg edges \<Longrightarrow> table_edges (cg_successors cfg) = edges"
  by (auto simp: records_edges_def table_edges_def)

lemma populate_cfg_reachable: "cg_reachable (populate_cfg f) = reachable_blocks f"
proof (cases "fn_blocks f")
  case Nil
  then show ?thesis by (simp add: populate_cfg_def reachable_blocks_def empty_cfg_def)
next
  case (Cons b bs)
  let ?c = "foldl add_block empty_cfg (fn_blocks f)"
  have "cg_reachable (populate_cfg f) = explore (cg_successors ?c) [bl_name b] {bl_name b}"
    using Cons explore_touch_eq [of "cg_successors ?c" "[bl_name b]" "{bl_name b}"]
    by (simp add: populate_cfg_Cons Let_def)
  also have "\<dots> = (cfg_edges f)\<^sup>* `` {bl_name b}"
    using explore_reaches [of "[bl_name b]" "{bl_name b}" "cg_successors ?c"] table_edges_recorded [OF records_cfg] by simp
  finally show ?thesis using Cons by (auto simp: reachable_blocks_def start_block_def)
qed

text \<open>
  C29. The control-flow graph is right: the successor and predecessor tables hold exactly the edges of the
  terminators (each successor once), and the reachable set is the set of blocks some path of edges leads to
  from the first block.
\<close>

theorem build_cfg_correct:
  "(b \<in> set (entry (cg_successors (build_cfg f)) a) \<longleftrightarrow> (a, b) \<in> cfg_edges f) \<and>
   distinct (entry (cg_successors (build_cfg f)) a) \<and>
   (a \<in> set (entry (cg_predecessors (build_cfg f)) b) \<longleftrightarrow> (a, b) \<in> cfg_edges f) \<and>
   cg_reachable (build_cfg f) = reachable_blocks f"
  using populate_cfg_records [of f] populate_cfg_reachable [of f] by (simp add: build_cfg_def records_edges_def)

section \<open>Dominators\<close>

definition dominator_transfer :: "ir_function \<Rightarrow> (string \<Rightarrow> string set) \<Rightarrow> string \<Rightarrow> string set" where
  "dominator_transfer f D b = insert b (\<Inter> (D ` {p. (start_block f, p) \<in> (cfg_edges f)\<^sup>* \<and> (p, b) \<in> cfg_edges f}))"

interpretation dom: dominator_equations "cfg_edges f" "start_block f" "dominator_transfer f" for f
  by unfold_locales (simp add: dominator_transfer_def)

lemma reached_blocks: "fn_blocks f \<noteq> [] \<Longrightarrow> dom.reached f = reachable_blocks f"
  by (simp add: dom.reached_def reachable_blocks_def)

lemma meet_preds_Inter: "ps \<noteq> [] \<Longrightarrow> meet_preds tree ps = \<Inter> (dom_set tree ` set ps)"
proof -
  have fold_Some: "foldl (\<lambda>acc p. case acc of None \<Rightarrow> Some (dom_set tree p) | Some ds \<Rightarrow> Some (ds \<inter> dom_set tree p)) (Some X) ps =
      Some (X \<inter> \<Inter> (dom_set tree ` set ps))" for X ps
    by (induction ps arbitrary: X) auto
  assume "ps \<noteq> []"
  then show ?thesis by (cases ps) (simp_all add: meet_preds_def fold_Some)
qed

text \<open>On a graph that records the edges, the code's update is the transfer of the equations.\<close>

lemma next_dominators_transfer:
  assumes cfg: "records_edges cfg (cfg_edges f)" "cg_reachable cfg = reachable_blocks f"
    and b: "b \<in> reachable_blocks f" "b \<noteq> start_block f"
  shows "next_dominators cfg tree b = dominator_transfer f (dom_set tree) b"
proof -
  have ne: "fn_blocks f \<noteq> []" using b by (auto simp: reachable_blocks_def)
  let ?ps = "filter (\<lambda>p. p \<in> cg_reachable cfg) (entry (cg_predecessors cfg) b)"
  have ps: "set ?ps = {p. (start_block f, p) \<in> (cfg_edges f)\<^sup>* \<and> (p, b) \<in> cfg_edges f}"
    using cfg ne by (auto simp: records_edges_def reachable_blocks_def)
  moreover obtain p where "p \<in> reachable_blocks f" "(p, b) \<in> cfg_edges f"
    using dom.pred_exists [of b f] b reached_blocks [OF ne] by auto
  ultimately have "p \<in> set ?ps" using ne by (simp add: reachable_blocks_def)
  then have "?ps \<noteq> []" by force
  show ?thesis unfolding next_dominators_def dominator_transfer_def meet_preds_Inter [OF \<open>?ps \<noteq> []\<close>] ps ..
qed

text \<open>The tables of a run: post-fixed points above dominance, inside the reachable blocks.\<close>

definition live_blocks :: "ir_function \<Rightarrow> string set" where
  "live_blocks f = reachable_blocks f \<inter> set (block_names f)"

definition dominator_invariant :: "ir_function \<Rightarrow> dominator_tree \<Rightarrow> bool" where
  "dominator_invariant f tree \<longleftrightarrow>
     dom_set tree (start_block f) = {start_block f} \<and>
     (\<forall>b \<in> live_blocks f. on_every_walk (cfg_edges f) (start_block f) b \<subseteq> dom_set tree b \<and>
        (b \<noteq> start_block f \<longrightarrow> dominator_transfer f (dom_set tree) b \<subseteq> dom_set tree b)) \<and>
     (\<forall>b. dom_set tree b \<subseteq> (if b \<in> live_blocks f then reachable_blocks f else {}))"

definition dominator_weight :: "ir_function \<Rightarrow> dominator_tree \<Rightarrow> nat" where
  "dominator_weight f tree = (\<Sum>b \<in> live_blocks f. card (dom_set tree b))"

lemma finite_reachable: "finite (reachable_blocks f)"
proof -
  have "cfg_edges f = (\<Union>b \<in> set (fn_blocks f). {bl_name b} \<times> set (block_targets b))" by (auto simp: cfg_edges_def)
  then have "finite (insert (start_block f) (snd ` cfg_edges f))" by simp
  moreover have "reachable_blocks f \<subseteq> insert (start_block f) (snd ` cfg_edges f)"
  proof
    fix x assume "x \<in> reachable_blocks f"
    then have "(start_block f, x) \<in> (cfg_edges f)\<^sup>*" by (simp add: reachable_blocks_def split: if_splits)
    then show "x \<in> insert (start_block f) (snd ` cfg_edges f)" by (cases rule: rtranclE) force+
  qed
  ultimately show ?thesis by (rule finite_subset [rotated])
qed

lemma edge_source: "(p, b) \<in> cfg_edges f \<Longrightarrow> p \<in> set (block_names f)"
  by (auto simp: cfg_edges_def block_names_def)

lemma dom_set_update [simp]: "dom_set (AList.update k v tree) x = (if x = k then v else dom_set tree x)"
  by (simp add: dom_set_def update_conv')

lemma dominates_iff: "dominates tree d b \<longleftrightarrow> d \<in> dom_set tree b"
  by (simp add: dominates_def dom_set_def split: option.splits)

lemma dominator_update:
  assumes inv: "dominator_invariant f tree" and b: "b \<in> live_blocks f" "b \<noteq> start_block f"
    and new: "nxt = dominator_transfer f (dom_set tree) b" "nxt \<noteq> dom_set tree b"
  shows "dominator_invariant f (AList.update b nxt tree) \<and>
    dominator_weight f (AList.update b nxt tree) < dominator_weight f tree"
proof -
  let ?t = "AList.update b nxt tree"
  have ne: "fn_blocks f \<noteq> []" using b by (auto simp: live_blocks_def reachable_blocks_def)
  note reached = reached_blocks [OF ne]
  have sub: "nxt \<subset> dom_set tree b" using inv b new by (auto simp: dominator_invariant_def)
  have mono: "dominator_transfer f (dom_set ?t) c \<subseteq> dominator_transfer f (dom_set tree) c"
    if "c \<in> reachable_blocks f" "c \<noteq> start_block f" for c
    using that sub reached by (intro dom.transfer_mono) auto
  have "on_every_walk (cfg_edges f) (start_block f) b \<subseteq> nxt" unfolding new(1)
  proof (rule dom.transfer_complete)
    fix p assume "p \<in> dom.reached f" "(p, b) \<in> cfg_edges f"
    then have "p \<in> live_blocks f" using reached edge_source by (auto simp: live_blocks_def)
    then show "on_every_walk (cfg_edges f) (start_block f) p \<subseteq> dom_set tree p"
      using inv by (auto simp: dominator_invariant_def)
  qed (use b reached in \<open>auto simp: live_blocks_def\<close>)
  then have above: "\<forall>c \<in> live_blocks f. on_every_walk (cfg_edges f) (start_block f) c \<subseteq> dom_set ?t c"
    using inv by (simp add: dominator_invariant_def)
  have "dominator_transfer f (dom_set ?t) c \<subseteq> dom_set ?t c" if c: "c \<in> live_blocks f" "c \<noteq> start_block f" for c
  proof -
    have "dominator_transfer f (dom_set ?t) c \<subseteq> dominator_transfer f (dom_set tree) c"
      using mono c by (simp add: live_blocks_def)
    also have "\<dots> \<subseteq> dom_set ?t c" using inv c new(1) by (simp add: dominator_invariant_def)
    finally show ?thesis .
  qed
  moreover have "dom_set ?t c \<subseteq> (if c \<in> live_blocks f then reachable_blocks f else {})" for c
  proof -
    have "dom_set ?t c \<subseteq> dom_set tree c" using sub by auto
    also have "\<dots> \<subseteq> (if c \<in> live_blocks f then reachable_blocks f else {})" using inv unfolding dominator_invariant_def by blast
    finally show ?thesis .
  qed
  ultimately have "dominator_invariant f ?t" using inv b above by (simp add: dominator_invariant_def)
  moreover have "dominator_weight f ?t < dominator_weight f tree" unfolding dominator_weight_def
  proof (rule sum_strict_mono_ex1)
    show "finite (live_blocks f)" using finite_reachable by (simp add: live_blocks_def)
    have "dom_set tree b \<subseteq> reachable_blocks f" using inv b(1) unfolding dominator_invariant_def by metis
    then have fin: "finite (dom_set tree b)" by (rule finite_subset [OF _ finite_reachable])
    then show "\<forall>c \<in> live_blocks f. card (dom_set ?t c) \<le> card (dom_set tree c)"
      using sub by (auto intro: card_mono)
    show "\<exists>c \<in> live_blocks f. card (dom_set ?t c) < card (dom_set tree c)"
      using b fin sub by (intro bexI [of _ b]) (auto intro: psubset_card_mono)
  qed
  ultimately show ?thesis by blast
qed

text \<open>One sweep: nothing changes and the equations hold, or the weight drops.\<close>

lemma dominator_fold:
  assumes cfg: "records_edges cfg (cfg_edges f)" "cg_reachable cfg = reachable_blocks f"
    and inv: "dominator_invariant f tree" and ns: "set ns \<subseteq> set (block_names f)"
    and run: "foldl (update_dominators cfg (start_block f)) (changed, tree) ns = (changed', tree')"
  shows "dominator_invariant f tree' \<and> dominator_weight f tree' \<le> dominator_weight f tree \<and>
    (changed' \<longrightarrow> changed \<or> dominator_weight f tree' < dominator_weight f tree) \<and>
    (\<not> changed' \<longrightarrow> \<not> changed \<and> tree' = tree \<and> (\<forall>b \<in> set ns. b \<in> reachable_blocks f \<longrightarrow> b \<noteq> start_block f \<longrightarrow>
       dom_set tree b = dominator_transfer f (dom_set tree) b))"
  using inv ns run
proof (induction ns arbitrary: changed tree)
  case (Cons n ns)
  let ?T = "dominator_transfer f (dom_set tree) n"
  consider "n = start_block f \<or> n \<notin> reachable_blocks f"
    | "n \<noteq> start_block f" "n \<in> reachable_blocks f" "?T = dom_set tree n"
    | "n \<noteq> start_block f" "n \<in> reachable_blocks f" "?T \<noteq> dom_set tree n" by blast
  then show ?case
  proof cases
    case 1
    then have "update_dominators cfg (start_block f) (changed, tree) n = (changed, tree)"
      using cfg by (auto simp: update_dominators_def)
    then show ?thesis using Cons.IH [of tree changed] Cons.prems 1 by auto
  next
    case 2
    then have "update_dominators cfg (start_block f) (changed, tree) n = (changed, tree)"
      using cfg next_dominators_transfer [OF cfg 2(2,1)] by (simp add: update_dominators_def)
    then show ?thesis using Cons.IH [of tree changed] Cons.prems 2 by auto
  next
    case 3
    then have u: "update_dominators cfg (start_block f) (changed, tree) n = (True, AList.update n ?T tree)"
      using cfg next_dominators_transfer [OF cfg 3(2,1)] by (simp add: update_dominators_def)
    have "n \<in> live_blocks f" using 3 Cons.prems(2) by (simp add: live_blocks_def)
    then have "dominator_invariant f (AList.update n ?T tree)"
      "dominator_weight f (AList.update n ?T tree) < dominator_weight f tree"
      using dominator_update [OF Cons.prems(1) _ 3(1) refl 3(3)] by auto
    then show ?thesis using Cons.IH [of "AList.update n ?T tree" True] Cons.prems u by auto
  qed
qed simp

lemma initial_dominators_eq:
  "dom_set (initial_dominators f cfg start) b =
     (if b \<in> cg_reachable cfg \<and> b \<in> set (block_names f) then if b = start then {start} else cg_reachable cfg else {})"
proof -
  have "dom_set (foldl (\<lambda>tree b. if bl_name b \<in> cg_reachable cfg
       then AList.update (bl_name b) (if bl_name b = start then {start} else cg_reachable cfg) tree else tree) t bs) b =
     (if b \<in> cg_reachable cfg \<and> b \<in> bl_name ` set bs then if b = start then {start} else cg_reachable cfg else dom_set t b)" for t and bs :: "ir_block list"
    by (induction bs arbitrary: t) auto
  then show ?thesis by (simp add: initial_dominators_def block_names_def dom_set_def [of "[]"])
qed

lemma start_live: "fn_blocks f \<noteq> [] \<Longrightarrow> start_block f \<in> live_blocks f"
  by (cases "fn_blocks f") (simp_all add: live_blocks_def reachable_blocks_def start_block_def block_names_def)

lemma initial_invariant:
  assumes "fn_blocks f \<noteq> []" and "cg_reachable cfg = reachable_blocks f"
  shows "dominator_invariant f (initial_dominators f cfg (start_block f))"
proof -
  let ?t = "initial_dominators f cfg (start_block f)"
  have D: "dom_set ?t b = (if b \<in> live_blocks f then if b = start_block f then {start_block f} else reachable_blocks f else {})" for b
    using assms(2) by (simp add: initial_dominators_eq live_blocks_def)
  have "on_every_walk (cfg_edges f) (start_block f) b \<subseteq> dom_set ?t b" if "b \<in> live_blocks f" for b
    using that dom.on_every_walk_root [of f] dom.on_every_walk_reached [of b f] reached_blocks [OF assms(1)]
    by (auto simp: D live_blocks_def)
  moreover have "dominator_transfer f (dom_set ?t) b \<subseteq> dom_set ?t b" if b: "b \<in> live_blocks f" "b \<noteq> start_block f" for b
  proof -
    obtain p where p: "p \<in> reachable_blocks f" "(p, b) \<in> cfg_edges f"
      using dom.pred_exists [of b f] b reached_blocks [OF assms(1)] by (auto simp: live_blocks_def)
    then have "dominator_transfer f (dom_set ?t) b \<subseteq> insert b (dom_set ?t p)"
      using assms(1) by (auto simp: dominator_transfer_def reachable_blocks_def)
    then show ?thesis using b start_live [OF assms(1)] by (auto simp: D live_blocks_def split: if_splits)
  qed
  ultimately show ?thesis
    using start_live [OF assms(1)] by (auto simp: dominator_invariant_def D live_blocks_def)
qed

lemma build_dominator_tree_table:
  "\<exists>tree. build_dominator_tree f (build_cfg f) = Some tree \<and>
     (\<forall>d b. dominates tree d b \<longleftrightarrow>
        b \<in> live_blocks f \<and> d \<in> on_every_walk (cfg_edges f) (start_block f) b)"
proof (cases "fn_blocks f")
  case Nil
  then show ?thesis by (simp add: build_dominator_tree_def dominates_def live_blocks_def block_names_def)
next
  case (Cons b0 bs)
  let ?c = "build_cfg f"
  let ?s = "start_block f"
  have ne: "fn_blocks f \<noteq> []" using Cons by simp
  have s: "bl_name b0 = ?s" using Cons by (simp add: start_block_def)
  have cfg: "records_edges ?c (cfg_edges f)" "cg_reachable ?c = reachable_blocks f"
    using populate_cfg_records populate_cfg_reachable by (simp_all add: build_cfg_def)
  let ?step = "\<lambda>(changed :: bool, tree). dominator_sweep f ?c ?s tree"
  let ?P = "\<lambda>(changed, tree). dominator_invariant f tree \<and> (\<not> changed \<longrightarrow> (\<forall>b \<in> live_blocks f. b \<noteq> ?s \<longrightarrow>
       dom_set tree b = dominator_transfer f (dom_set tree) b))"
  let ?m = "\<lambda>(changed, tree). dominator_weight f tree + (if changed then 1 else 0)"
  have step: "?P (?step st) \<and> ?m (?step st) < ?m st" if P: "?P st" and c: "fst st" for st
  proof -
    obtain tree where st: "st = (True, tree)" using c by (cases st) simp
    obtain changed' tree' where r: "dominator_sweep f ?c ?s tree = (changed', tree')"
      by (cases "dominator_sweep f ?c ?s tree")
    have "dominator_invariant f tree' \<and> dominator_weight f tree' \<le> dominator_weight f tree \<and>
      (changed' \<longrightarrow> dominator_weight f tree' < dominator_weight f tree) \<and>
      (\<not> changed' \<longrightarrow> tree' = tree \<and> (\<forall>b \<in> set (block_names f). b \<in> reachable_blocks f \<longrightarrow> b \<noteq> ?s \<longrightarrow>
         dom_set tree b = dominator_transfer f (dom_set tree) b))"
      using dominator_fold [OF cfg, of tree "block_names f" False changed' tree'] P st r
      by (simp add: dominator_sweep_def block_names_def)
    then show ?thesis using r st by (auto simp: live_blocks_def)
  qed
  have P0: "?P (True, initial_dominators f ?c ?s)" using initial_invariant [OF ne cfg(2)] by simp
  obtain st where w: "while_option fst ?step (True, initial_dominators f ?c ?s) = Some st"
    using measure_while_option_Some [of ?P fst ?step ?m, OF step P0] by blast
  have keep: "?P (?step t)" if "?P t" and "fst t" for t by (rule conjunct1 [OF step [OF that]])
  have final: "?P st" by (rule while_option_rule [where P = ?P, OF keep w P0])
  have "\<not> fst st" by (rule while_option_stop [OF w])
  then obtain tree where st: "st = (False, tree)" by (cases st) simp
  have inv: "dominator_invariant f tree" and
    eqs: "\<And>b. b \<in> live_blocks f \<Longrightarrow> b \<noteq> ?s \<Longrightarrow> dom_set tree b = dominator_transfer f (dom_set tree) b"
    using final st by auto
  have out: "dom_set tree b = {}" if "b \<notin> live_blocks f" for b
    using inv that unfolding dominator_invariant_def by (metis subset_empty)
  have "dom_set tree b = on_every_walk (cfg_edges f) ?s b" if b: "b \<in> live_blocks f" for b
  proof (rule dom.solution_exact)
    show "dom_set tree ?s \<subseteq> {?s}" "on_every_walk (cfg_edges f) ?s b \<subseteq> dom_set tree b"
      using inv b by (simp_all add: dominator_invariant_def)
    show "dom_set tree c \<subseteq> dominator_transfer f (dom_set tree) c" if "c \<noteq> ?s" for c
      using eqs [of c] out [of c] that by (cases "c \<in> live_blocks f") auto
    show "b \<in> dom.reached f" using b reached_blocks [OF ne] by (simp add: live_blocks_def)
  qed
  then have "dominates tree d b \<longleftrightarrow> b \<in> live_blocks f \<and> d \<in> on_every_walk (cfg_edges f) ?s b" for d b
    using out by (cases "b \<in> live_blocks f") (auto simp: dominates_iff)
  moreover have "build_dominator_tree f ?c = Some tree"
    using w st Cons s by (simp add: build_dominator_tree_def)
  ultimately show ?thesis by blast
qed

text \<open>
  C7. Dominators: the iteration ends on the graph of any function, and its table is dominance. A block
  has an entry exactly if it is a reachable block of the function, and \<open>d\<close> dominates \<open>b\<close> exactly if \<open>d\<close> lies
  on every walk from the first block to \<open>b\<close>.
\<close>

theorem build_dominator_tree_correct:
  "\<exists>tree. build_dominator_tree f (build_cfg f) = Some tree \<and>
     (\<forall>d b. dominates tree d b \<longleftrightarrow>
        b \<in> live_blocks f \<and> d \<in> on_every_walk (cfg_edges f) (start_block f) b)"
  by (rule build_dominator_tree_table)

end
