(* ===== verification/Flow_Repair.thy ===== *)
theory Flow_Repair
  imports Flow_Graph
begin

text \<open>
  Local repair of the control-flow graph and of the dominators after an edit of some blocks. The repaired graph is
  the graph of the edited function. A repaired dominator table only claims real dominators, but it can miss
  some, and the worklist that computes it can run forever.
\<close>

section \<open>Repaired graphs\<close>

definition with_targets :: "(string \<times> string) set \<Rightarrow> string \<Rightarrow> string set \<Rightarrow> (string \<times> string) set" where
  "with_targets edges name ts = {(a, b). if a = name then b \<in> ts else (a, b) \<in> edges}"

lemma set_foldl_add_distinct: "set (foldl add_distinct acc ts) = set acc \<union> set ts"
  by (induction ts arbitrary: acc) (auto simp: add_distinct_def)

lemma distinct_foldl_add_distinct: "distinct acc \<Longrightarrow> distinct (foldl add_distinct acc ts)"
  by (induction ts arbitrary: acc) (auto simp: add_distinct_def)

lemma set_unlink: "set (entry (fold (unlink name) ss preds) b) = set (entry preds b) - (if b \<in> set ss then {name} else {})"
proof (induction ss arbitrary: preds)
  case (Cons s ss)
  have "set (entry (unlink name s preds) b) = set (entry preds b) - (if b = s then {name} else {})"
    by (auto simp: unlink_def entry_def update_conv' split: option.splits)
  then show ?case using Cons [of "unlink name s preds"] by auto
qed simp

lemma set_link: "set (entry (fold (link name) ss preds) b) = set (entry preds b) \<union> (if b \<in> set ss then {name} else {})"
proof (induction ss arbitrary: preds)
  case (Cons s ss)
  have "set (entry (link name s preds) b) = set (entry preds b) \<union> (if b = s then {name} else {})"
    by (auto simp: link_def Let_def)
  then show ?case using Cons [of "link name s preds"] by auto
qed simp

lemma repair_block_records:
  assumes "records_edges cfg edges" and "repair_block f name (cfg, changed, affected) = Some (cfg', changed', affected')"
  obtains b where "find_block_named f name = Some b"
    and "records_edges cfg' (with_targets edges name (set (block_targets b)))"
    and "affected \<subseteq> affected'" and "affected' \<subseteq> affected \<union> snd ` edges \<union> set (block_targets b)"
    and "\<And>a s. s \<notin> affected' \<Longrightarrow> (a, s) \<in> with_targets edges name (set (block_targets b)) \<longleftrightarrow> (a, s) \<in> edges"
    and "changed \<longrightarrow> changed'" and "\<not> changed' \<Longrightarrow> with_targets edges name (set (block_targets b)) = edges"
proof -
  obtain b where b: "find_block_named f name = Some b"
    using assms(2) by (auto simp: repair_block_def split: option.splits)
  let ?nxt = "foldl add_distinct [] (block_targets b)"
  let ?prev = "entry (cg_successors cfg) name"
  have nxt: "set ?nxt = set (block_targets b)" "distinct ?nxt"
    by (simp_all add: set_foldl_add_distinct distinct_foldl_add_distinct)
  have prev: "set ?prev = {s. (name, s) \<in> edges}" using assms(1) by (simp add: records_edges_def)
  show thesis
  proof (cases "?prev = ?nxt")
    case True
    then have same: "cfg' = cfg" "affected' = affected" "changed' = changed"
      using assms(2) b by (auto simp: repair_block_def Let_def split: if_splits)
    have "with_targets edges name (set (block_targets b)) = edges"
      using True prev nxt(1) by (auto simp: with_targets_def split: if_splits)
    then show thesis using that [OF b] same assms(1) by auto
  next
    case False
    then have cfg': "cfg' = cfg\<lparr>cg_successors := AList.update name ?nxt (cg_successors cfg),
        cg_predecessors := fold (link name) ?nxt (fold (unlink name) ?prev (cg_predecessors cfg))\<rparr>"
      and rest: "affected' = affected \<union> set ?prev \<union> set ?nxt" "changed'"
      using assms(2) b by (auto simp: repair_block_def Let_def split: if_splits)
    have "records_edges cfg' (with_targets edges name (set (block_targets b)))"
      using assms(1) nxt prev by (auto simp: records_edges_def cfg' set_link set_unlink with_targets_def)
    then show thesis
    proof (rule that [OF b])
      show "affected \<subseteq> affected'" "affected' \<subseteq> affected \<union> snd ` edges \<union> set (block_targets b)"
        using rest prev nxt by force+
      show "(a, s) \<in> with_targets edges name (set (block_targets b)) \<longleftrightarrow> (a, s) \<in> edges" if "s \<notin> affected'" for a s
        using that rest prev nxt by (auto simp: with_targets_def)
    qed (use rest in simp_all)
  qed
qed

text \<open>After all touched blocks, the recorded edges are those of the edited function.\<close>

lemma repair_blocks_records:
  assumes "records_edges cfg edges" and "repair_blocks f names (cfg, changed, affected) = Some (cfg', changed', affected')"
    and "distinct (block_names f)" and "\<And>a s. a \<notin> set names \<Longrightarrow> (a, s) \<in> edges \<longleftrightarrow> (a, s) \<in> cfg_edges f"
  shows "records_edges cfg' (cfg_edges f) \<and> affected \<subseteq> affected' \<and> affected' \<subseteq> affected \<union> snd ` edges \<union> snd ` cfg_edges f \<and>
    (\<forall>a s. s \<notin> affected' \<longrightarrow> ((a, s) \<in> edges \<longleftrightarrow> (a, s) \<in> cfg_edges f)) \<and> (changed \<longrightarrow> changed') \<and> (\<not> changed' \<longrightarrow> edges = cfg_edges f)"
  using assms(1,2,4)
proof (induction names arbitrary: cfg edges changed affected)
  case Nil
  then have "edges = cfg_edges f" by auto
  then show ?case using Nil by simp
next
  case (Cons name names)
  obtain cfg1 changed1 affected1 where r: "repair_block f name (cfg, changed, affected) = Some (cfg1, changed1, affected1)"
    using Cons.prems(2) by (auto split: option.splits)
  obtain b where b: "find_block_named f name = Some b"
    and rec1: "records_edges cfg1 (with_targets edges name (set (block_targets b)))"
    and aff: "affected \<subseteq> affected1" "affected1 \<subseteq> affected \<union> snd ` edges \<union> set (block_targets b)"
      "\<And>a s. s \<notin> affected1 \<Longrightarrow> (a, s) \<in> with_targets edges name (set (block_targets b)) \<longleftrightarrow> (a, s) \<in> edges"
    and ch: "changed \<longrightarrow> changed1" "\<not> changed1 \<Longrightarrow> with_targets edges name (set (block_targets b)) = edges"
    using repair_block_records [OF Cons.prems(1) r] by metis
  have "b \<in> set (fn_blocks f)" "bl_name b = name"
    using b by (auto simp: find_block_named_def dest: find_Some_in)
  then have targets: "s \<in> set (block_targets b) \<longleftrightarrow> (name, s) \<in> cfg_edges f" for s
    using assms(3) by (auto simp: cfg_edges_def block_names_def distinct_map inj_on_def)
  have run: "repair_blocks f names (cfg1, changed1, affected1) = Some (cfg', changed', affected')"
    using Cons.prems(2) r by simp
  have "(a, s) \<in> with_targets edges name (set (block_targets b)) \<longleftrightarrow> (a, s) \<in> cfg_edges f" if "a \<notin> set names" for a s
    using that targets Cons.prems(3) [of a s] by (auto simp: with_targets_def)
  note IH = Cons.IH [OF rec1 run this]
  have sub: "set (block_targets b) \<subseteq> snd ` cfg_edges f"
    "snd ` with_targets edges name (set (block_targets b)) \<subseteq> snd ` edges \<union> snd ` cfg_edges f"
    using targets by (force simp: with_targets_def split: if_splits)+
  have "affected' \<subseteq> affected \<union> snd ` edges \<union> snd ` cfg_edges f" using IH aff(2) sub by blast
  then show ?case using IH aff ch by blast
qed

lemma recompute_reachable_correct:
  assumes "records_edges cfg (cfg_edges f)"
  shows "records_edges (recompute_reachable f cfg) (cfg_edges f) \<and> cg_reachable (recompute_reachable f cfg) = reachable_blocks f"
proof (cases "fn_blocks f")
  case Nil
  then show ?thesis using assms by (simp add: recompute_reachable_def records_edges_def reachable_blocks_def)
next
  case (Cons b bs)
  then show ?thesis
    using assms explore_reaches [of "[bl_name b]" "{bl_name b}" "cg_successors cfg"] table_edges_recorded [OF assms]
    by (auto simp: recompute_reachable_def records_edges_def reachable_blocks_def start_block_def)
qed

text \<open>
  C11. Repair of the graph: if a graph holds the edges of the old function, only the touched blocks changed their
  targets and the repair is valid, then the repaired graph holds exactly the edges and the reachable
  blocks of the edited function, every block with other predecessors than before is reported as affected, and a repair
  that reports no change had none to make.
\<close>

theorem repair_cfg_correct:
  assumes old: "records_edges cfg (cfg_edges f0)" and names: "distinct (block_names f)"
    and untouched: "\<And>a s. a \<notin> set touched \<Longrightarrow> (a, s) \<in> cfg_edges f0 \<longleftrightarrow> (a, s) \<in> cfg_edges f"
    and run: "repair_cfg_blocks enum_set f cfg touched = (r, cfg')" and valid: "rp_valid r"
    and enum: "\<And>S. S \<subseteq> all_targets (cg_successors cfg) \<union> snd ` cfg_edges f \<Longrightarrow> set (enum_set S) = S"
  shows "records_edges cfg' (cfg_edges f) \<and> cg_reachable cfg' = reachable_blocks f \<and>
    (rp_reachability_changed r \<longleftrightarrow> reachable_blocks f \<noteq> cg_reachable cfg) \<and> (\<not> rp_changed r \<longrightarrow> cfg_edges f = cfg_edges f0) \<and>
    (\<forall>a s. s \<notin> set (rp_affected r) \<longrightarrow> ((a, s) \<in> cfg_edges f0 \<longleftrightarrow> (a, s) \<in> cfg_edges f))"
proof -
  obtain cfg1 changed affected where r: "repair_blocks f touched (cfg, False, {}) = Some (cfg1, changed, affected)"
    and cfg': "cfg' = recompute_reachable f cfg1" and rp: "rp_changed r = changed" "rp_affected r = enum_set affected"
      "rp_reachability_changed r = (cg_reachable cfg' \<noteq> cg_reachable cfg)"
    using run valid by (auto simp: repair_cfg_blocks_def repair_nothing_def Let_def split: if_splits option.splits)
  have rec: "records_edges cfg1 (cfg_edges f)" "\<not> changed \<longrightarrow> cfg_edges f0 = cfg_edges f"
    "\<forall>a s. s \<notin> affected \<longrightarrow> ((a, s) \<in> cfg_edges f0 \<longleftrightarrow> (a, s) \<in> cfg_edges f)"
    "affected \<subseteq> snd ` cfg_edges f0 \<union> snd ` cfg_edges f"
    using repair_blocks_records [OF old r names untouched] by auto
  have "snd ` cfg_edges f0 \<subseteq> all_targets (cg_successors cfg)"
    using old entry_targets by (fastforce simp: records_edges_def)
  then have "set (rp_affected r) = affected" unfolding rp by (intro enum) (use rec(4) in blast)
  then show ?thesis using recompute_reachable_correct [OF rec(1)] cfg' rp rec(2,3) by auto
qed

section \<open>Repaired dominators\<close>

text \<open>
  The worklist invariant: a reachable block off the queue claims no more than its predecessors allow.
\<close>

definition worklist_invariant :: "ir_function \<Rightarrow> dominator_worklist \<Rightarrow> bool" where
  "worklist_invariant f st \<longleftrightarrow> (case st of (pending, queued, tree) \<Rightarrow>
     queued = set pending \<and> distinct pending \<and> set pending \<subseteq> reachable_blocks f - {start_block f} \<and>
     dom_set tree (start_block f) = {start_block f} \<and> (\<forall>p \<in> live_blocks f. map_of tree p \<noteq> None) \<and>
     (\<forall>b \<in> reachable_blocks f. b \<noteq> start_block f \<longrightarrow> b \<notin> set pending \<longrightarrow>
        dom_set tree b \<subseteq> dominator_transfer f (dom_set tree) b))"

lemma enqueue_blocks_eq:
  assumes "queued = set pending" and "distinct pending"
  shows "\<exists>new. enqueue_blocks cfg start bs (pending, queued) = (pending @ new, set (pending @ new)) \<and> distinct (pending @ new) \<and>
    set (pending @ new) = set pending \<union> {b \<in> set bs. b \<noteq> start \<and> b \<in> cg_reachable cfg}"
  using assms
proof (induction bs arbitrary: pending queued)
  case (Cons b bs)
  show ?case
  proof (cases "b \<noteq> start \<and> b \<in> cg_reachable cfg \<and> b \<notin> queued")
    case True
    obtain new where "enqueue_blocks cfg start bs (pending @ [b], insert b queued) = ((pending @ [b]) @ new, set ((pending @ [b]) @ new)) \<and>
        distinct ((pending @ [b]) @ new) \<and> set ((pending @ [b]) @ new) = set (pending @ [b]) \<union> {b \<in> set bs. b \<noteq> start \<and> b \<in> cg_reachable cfg}"
      using Cons.IH [of "insert b queued" "pending @ [b]"] Cons.prems True by auto
    then show ?thesis using True by (intro exI [of _ "b # new"]) (auto simp: enqueue_blocks_def)
  next
    case False
    then show ?thesis using Cons.IH [OF Cons.prems] Cons.prems by (auto simp: enqueue_blocks_def)
  qed
qed (simp add: enqueue_blocks_def)

lemma dom_set_touch [simp]: "dom_set (touch {} k tree) = dom_set tree"
  by (rule ext) (auto simp: dom_set_def map_of_touch split: option.splits)

lemma repaired_dominators_transfer:
  assumes cfg: "records_edges cfg (cfg_edges f)" "cg_reachable cfg = reachable_blocks f"
    and entries: "\<forall>p \<in> live_blocks f. map_of tree p \<noteq> None" and b: "b \<in> reachable_blocks f" "b \<noteq> start_block f"
  shows "repaired_dominators cfg tree b = dominator_transfer f (dom_set tree) b"
proof -
  have "p \<in> reachable_blocks f \<and> map_of tree p \<noteq> None \<longleftrightarrow> p \<in> reachable_blocks f" if "p \<in> set (entry (cg_predecessors cfg) b)" for p
    using that entries cfg(1) edge_source [of p b f] by (auto simp: records_edges_def live_blocks_def)
  then have "filter (\<lambda>p. p \<in> cg_reachable cfg \<and> map_of tree p \<noteq> None) (entry (cg_predecessors cfg) b) =
      filter (\<lambda>p. p \<in> cg_reachable cfg) (entry (cg_predecessors cfg) b)"
    unfolding cfg(2) by (intro filter_cong) auto
  then show ?thesis using next_dominators_transfer [OF cfg b, of tree] by (simp add: repaired_dominators_def next_dominators_def)
qed

lemma repair_step_invariant:
  assumes cfg: "records_edges cfg (cfg_edges f)" "cg_reachable cfg = reachable_blocks f"
    and inv: "worklist_invariant f st"
  shows "worklist_invariant f (repair_step cfg (start_block f) st)"
proof -
  obtain pending queued tree where st: "st = (pending, queued, tree)" by (cases st)
  show ?thesis
  proof (cases pending)
    case Nil
    then show ?thesis using inv st by (simp add: repair_step_def)
  next
    case (Cons b rest)
    have b: "b \<in> reachable_blocks f" "b \<noteq> start_block f" "b \<notin> set rest" "distinct rest"
      and q: "queued - {b} = set rest" and start: "dom_set tree (start_block f) = {start_block f}"
      and entries: "\<forall>p \<in> live_blocks f. map_of tree p \<noteq> None"
      and below: "\<forall>c \<in> reachable_blocks f. c \<noteq> start_block f \<longrightarrow> c \<notin> set pending \<longrightarrow> dom_set tree c \<subseteq> dominator_transfer f (dom_set tree) c"
      and sub: "set rest \<subseteq> reachable_blocks f - {start_block f}"
      using inv st Cons by (auto simp: worklist_invariant_def)
    let ?T = "dominator_transfer f (dom_set tree) b"
    have nxt: "repaired_dominators cfg tree b = ?T" by (rule repaired_dominators_transfer [OF cfg entries b(1,2)])
    have entries1: "\<forall>p \<in> live_blocks f. map_of (touch {} b tree) p \<noteq> None" using entries by (simp add: map_of_touch)
    show ?thesis
    proof (cases "dom_set tree b = ?T")
      case True
      then have "repair_step cfg (start_block f) st = (rest, queued - {b}, touch {} b tree)"
        using st Cons nxt by (simp add: repair_step_def Let_def)
      moreover have "\<forall>c \<in> reachable_blocks f. c \<noteq> start_block f \<longrightarrow> c \<notin> set rest \<longrightarrow> dom_set tree c \<subseteq> dominator_transfer f (dom_set tree) c"
        using below True Cons by (metis order_refl set_ConsD)
      ultimately show ?thesis using q b(4) sub start entries1 by (simp add: worklist_invariant_def)
    next
      case False
      obtain new where e: "enqueue_blocks cfg (start_block f) (entry (cg_successors cfg) b) (rest, set rest) = (rest @ new, set (rest @ new))"
        "distinct (rest @ new)" "set (rest @ new) = set rest \<union> {c \<in> set (entry (cg_successors cfg) b). c \<noteq> start_block f \<and> c \<in> cg_reachable cfg}"
        using enqueue_blocks_eq [OF refl b(4), of cfg "start_block f" "entry (cg_successors cfg) b"] by auto
      let ?tree = "AList.update b ?T (touch {} b tree)"
      have step: "repair_step cfg (start_block f) st = (rest @ new, set (rest @ new), ?tree)"
        using st Cons nxt False e(1) q by (simp add: repair_step_def Let_def)
      have "dom_set ?tree c \<subseteq> dominator_transfer f (dom_set ?tree) c"
        if c: "c \<in> reachable_blocks f" "c \<noteq> start_block f" "c \<notin> set (rest @ new)" for c
      proof -
        have "(b, c) \<notin> cfg_edges f" using c cfg unfolding e(3) by (auto simp: records_edges_def)
        then have "dominator_transfer f (dom_set ?tree) c = dominator_transfer f (dom_set tree) c"
          by (auto simp: dominator_transfer_def)
        then show ?thesis using below c Cons by (cases "c = b") auto
      qed
      moreover have "set (rest @ new) \<subseteq> reachable_blocks f - {start_block f}" using sub cfg(2) unfolding e(3) by auto
      ultimately show ?thesis
        unfolding step using e(2) start entries1 b(2) by (simp add: worklist_invariant_def update_conv')
    qed
  qed
qed

lemma old_dominators_below:
  assumes ne: "fn_blocks f \<noteq> []" "fn_blocks f0 \<noteq> []"
    and same: "start_block f = start_block f0" "reachable_blocks f = reachable_blocks f0"
    and preds: "\<And>a. (a, b) \<in> cfg_edges f0 \<longleftrightarrow> (a, b) \<in> cfg_edges f"
    and D: "\<And>p. p \<in> live_blocks f0 \<Longrightarrow> D p = on_every_walk (cfg_edges f0) (start_block f0) p" "\<And>p. p \<notin> live_blocks f0 \<Longrightarrow> D p = {}"
    and b: "b \<in> reachable_blocks f" "b \<noteq> start_block f"
  shows "D b \<subseteq> dominator_transfer f D b"
proof (cases "b \<in> live_blocks f0")
  case True
  have "on_every_walk (cfg_edges f0) (start_block f0) b \<subseteq> dominator_transfer f0 D b"
  proof (rule dom.transfer_complete)
    fix p assume "p \<in> dom.reached f0" "(p, b) \<in> cfg_edges f0"
    then have "p \<in> live_blocks f0" using reached_blocks [OF ne(2)] edge_source by (auto simp: live_blocks_def)
    then show "on_every_walk (cfg_edges f0) (start_block f0) p \<subseteq> D p" using D by simp
  qed (use b same reached_blocks [OF ne(2)] in auto)
  moreover have "dominator_transfer f0 D b = dominator_transfer f D b"
    using same preds ne by (simp add: dominator_transfer_def reachable_blocks_def set_eq_iff)
  ultimately show ?thesis using D True by simp
qed (use D in simp)

text \<open>
  C22. Repair of the dominators is sound: from the dominators of the old function, with every block whose
  predecessors changed among the seeds and the reachable blocks unchanged, a repair that returns only
  claims dominators of the edited function.
\<close>

theorem repair_dominators_sound:
  assumes cfg: "records_edges cfg (cfg_edges f)" "cg_reachable cfg = reachable_blocks f"
    and same: "start_block f = start_block f0" "reachable_blocks f = reachable_blocks f0" "live_blocks f = live_blocks f0"
    and seeds: "\<And>a b. b \<notin> set seeds \<Longrightarrow> (a, b) \<in> cfg_edges f0 \<longleftrightarrow> (a, b) \<in> cfg_edges f"
    and old: "build_dominator_tree f0 (build_cfg f0) = Some tree"
    and run: "repair_dominator_tree f cfg tree seeds = Some tree'"
    and claim: "dominates tree' d b" "b \<in> live_blocks f"
  shows "d \<in> on_every_walk (cfg_edges f) (start_block f) b"
proof -
  have ne: "fn_blocks f \<noteq> []" "fn_blocks f0 \<noteq> []"
    using claim(2) same(3) by (auto simp: live_blocks_def reachable_blocks_def split: if_splits)
  have "dominates tree x y \<longleftrightarrow> y \<in> live_blocks f0 \<and> x \<in> on_every_walk (cfg_edges f0) (start_block f0) y" for x y
    using build_dominator_tree_table [of f0] old by auto
  then have D: "dom_set tree y = (if y \<in> live_blocks f0 then on_every_walk (cfg_edges f0) (start_block f0) y else {})" for y
    by (auto simp: dominates_iff)
  have self: "y \<in> on_every_walk (cfg_edges f0) (start_block f0) y" for y
    by (auto simp: on_every_walk_def intro: last_in_set dest: walk_nonempty)
  have entry: "map_of tree p \<noteq> None" if "p \<in> live_blocks f" for p
    using D [of p] self [of p] same(3) that by (auto simp: dom_set_def split: option.splits)
  then have entries: "\<forall>p \<in> live_blocks f. map_of tree p \<noteq> None" by blast
  have start: "dom_set tree (start_block f) = {start_block f}"
    using D start_live [OF ne(2)] dom.on_every_walk_root [of f0] same(1) by simp
  have below: "dom_set tree c \<subseteq> dominator_transfer f (dom_set tree) c"
    if "c \<in> reachable_blocks f" "c \<noteq> start_block f" "c \<notin> set seeds" for c
    by (rule old_dominators_below [OF ne same(1,2)]) (use that seeds D in auto)
  obtain b0 bs where blocks: "fn_blocks f = b0 # bs" using ne(1) by (cases "fn_blocks f") auto
  have s: "bl_name b0 = start_block f" using blocks by (simp add: start_block_def)
  obtain pending where p: "enqueue_blocks cfg (start_block f) seeds ([], {}) = (pending, set pending)" "distinct pending"
    "set pending = {c \<in> set seeds. c \<noteq> start_block f \<and> c \<in> cg_reachable cfg}"
    using enqueue_blocks_eq [of "{}" "[]" cfg "start_block f" seeds] by auto
  have I0: "worklist_invariant f (pending, set pending, tree)"
    using p cfg(2) start entries below by (auto simp: worklist_invariant_def)
  have "worklist_invariant f ([], {}, tree')"
  proof (cases "seeds = []")
    case True
    then show ?thesis using run blocks I0 p(3) by (simp add: repair_dominator_tree_def)
  next
    case False
    then obtain st where w: "while_option (\<lambda>(pending, _, _). pending \<noteq> []) (repair_step cfg (start_block f)) (pending, set pending, tree) = Some st"
      and st: "tree' = snd (snd st)"
      using run blocks p(1) s by (auto simp: repair_dominator_tree_def Let_def)
    have "worklist_invariant f st"
      by (rule while_option_rule [where P = "worklist_invariant f", OF repair_step_invariant [OF cfg] w I0])
    moreover have "fst st = []" using while_option_stop [OF w] by (simp add: case_prod_beta)
    ultimately show ?thesis using st by (cases st) (simp add: worklist_invariant_def)
  qed
  then have "dom_set tree' (start_block f) = {start_block f}"
    "\<And>c. c \<in> reachable_blocks f \<Longrightarrow> c \<noteq> start_block f \<Longrightarrow> dom_set tree' c \<subseteq> dominator_transfer f (dom_set tree') c"
    by (auto simp: worklist_invariant_def)
  then have "dom_set tree' (last w) \<subseteq> set w" if "walk (cfg_edges f) (start_block f) w" for w
    using dom.solution_sound [OF _ _ that, of "dom_set tree'"] reached_blocks [OF ne(1)] by auto
  then show ?thesis using claim(1) by (auto simp: on_every_walk_def dominates_iff)
qed

section \<open>What the repair can miss\<close>

text \<open>Functions given by the targets of their blocks.\<close>

definition sample_operation :: "string list \<Rightarrow> operation" where
  "sample_operation ts = \<lparr>op_result = [], op_opcode = (case ts of [] \<Rightarrow> ''return'' | [_] \<Rightarrow> ''jump'' | _ \<Rightarrow> ''branch''),
     op_type = TK_void, op_operands = [], op_successors = ts, op_successor_arguments = map (\<lambda>_. []) ts, op_alignment = 0,
     op_source_file = [], op_source_line = 0, op_source_column = 0, op_source_end_line = 0, op_source_end_column = 0,
     op_attributes = []\<rparr>"

definition graph_function :: "(string \<times> string list) list \<Rightarrow> ir_function" where
  "graph_function g = \<lparr>fn_name = ''g'', fn_is_external = False, fn_is_signature = False, fn_variadic = False,
     fn_target_feature = [], fn_calling_convention = CC_platform, fn_linkage = SL_external, fn_visibility = SV_default,
     fn_return_type = TK_void, fn_return_aggregate_kind = ARK_scalar, fn_return_aggregate_name = [], fn_return_owned = False,
     fn_return_borrow_mode = BM_none, fn_return_borrow_parameter = - 1, fn_parameters = [],
     fn_blocks = map (\<lambda>(n, ts). \<lparr>bl_name = n, bl_parameters = [], bl_operations = [sample_operation ts]\<rparr>) g\<rparr>"

text \<open>The manager after its dominators were asked for, and its dominators after an edit of \<open>touched\<close>.\<close>

definition warm_manager :: "ir_function \<Rightarrow> analysis_manager option" where
  "warm_manager f = map_option snd (manager_dominators f new_manager)"

definition diamond_before :: ir_function where
  "diamond_before = graph_function [(''e'', [''a'', ''d'']), (''a'', [''b'']), (''d'', [''b'']), (''b'', [''c'']), (''c'', [''b''])]"

definition diamond_after :: ir_function where
  "diamond_after = graph_function [(''e'', [''a'', ''d'']), (''a'', [''b'']), (''d'', []), (''b'', [''c'']), (''c'', [''b''])]"

definition listed :: "string list \<Rightarrow> string set \<Rightarrow> string list" where
  "listed names S = filter (\<lambda>b. b \<in> S) names"

definition repaired_tree :: "string list \<Rightarrow> ir_function \<Rightarrow> ir_function \<Rightarrow> string list \<Rightarrow> dominator_tree option" where
  "repaired_tree names f0 f touched =
     (case warm_manager f0 of None \<Rightarrow> None
      | Some m \<Rightarrow> (case invalidate_control_flow (listed names) f touched m of None \<Rightarrow> None | Some m' \<Rightarrow> am_dominators m'))"

lemma diamond_repair:
  "map_option (\<lambda>t. (dominates t ''b'' ''c'', dominates t ''a'' ''b'')) (repaired_tree [''b''] diamond_before diamond_after [''d'']) =
   Some (True, False)"
  by code_simp

lemma diamond_fresh:
  "map_option (\<lambda>t. dominates t ''a'' ''b'') (build_dominator_tree diamond_after (build_cfg diamond_after)) = Some True"
  by code_simp


text \<open>
  A repair can lose dominators for good: in a loop entered from two blocks, removing one entry leaves the loop with the
  old, smaller sets, while a fresh build finds that the remaining entry dominates the loop.
\<close>

lemma repair_dominators_incomplete:
  "map_option (\<lambda>t. dominates t ''a'' ''b'') (repaired_tree [''b''] diamond_before diamond_after [''d'']) = Some False \<and>
   map_option (\<lambda>t. dominates t ''a'' ''b'') (build_dominator_tree diamond_after (build_cfg diamond_after)) = Some True"
  using diamond_repair diamond_fresh by (auto simp: option.map_comp)

section \<open>A repair that never ends\<close>

text \<open>A loop whose states repeat never ends.\<close>

lemma funpow_periodic:
  fixes c :: "'a \<Rightarrow> 'a"
  shows "(c ^^ (n + m)) s = (c ^^ n) s \<Longrightarrow> (c ^^ (n + k * m + i)) s = (c ^^ (n + i)) s"
proof (induction k)
  case (Suc k)
  have "(c ^^ (n + Suc k * m + i)) s = (c ^^ (i + k * m)) ((c ^^ (n + m)) s)"
    by (metis add.assoc add.commute funpow_add comp_apply mult_Suc)
  also have "\<dots> = (c ^^ (n + k * m + i)) s"
    by (metis Suc.prems add.assoc add.commute funpow_add comp_apply)
  finally show ?case using Suc by simp
qed simp

lemma periodic_forever:
  fixes c :: "'a \<Rightarrow> 'a"
  assumes "(c ^^ (n + m)) s = (c ^^ n) s" and "0 < m" and "\<And>k. k < n + m \<Longrightarrow> b ((c ^^ k) s)"
  shows "b ((c ^^ k) s)"
proof (cases "k < n + m")
  case False
  have k: "k = n + (k - n) div m * m + (k - n) mod m" using False by simp
  have "(c ^^ k) s = (c ^^ (n + (k - n) mod m)) s" by (subst k) (rule funpow_periodic [OF assms(1)])
  then show ?thesis using assms(2,3) by simp
qed (use assms in blast)

definition cycle_before :: ir_function where
  "cycle_before = graph_function [(''e'', [''b'', ''d'']), (''a'', [''e'']), (''b'', [''c'']), (''c'', []), (''d'', [''a'', ''b''])]"

definition cycle_after :: ir_function where
  "cycle_after = graph_function [(''e'', [''d'']), (''a'', [''b'']), (''b'', [''c'']), (''c'', [''a'']), (''d'', [''a'', ''b''])]"

definition cycle_graph :: control_flow_graph where
  "cycle_graph = snd (repair_cfg_blocks (listed [''e'', ''d'', ''b'', ''a'', ''c'']) cycle_after (build_cfg cycle_before) [''e'', ''a'', ''c''])"

definition cycle_start :: dominator_worklist where
  "cycle_start = (let (pending, queued) = enqueue_blocks cycle_graph ''e'' [''e'', ''d'', ''b'', ''a''] ([], {})
     in (pending, queued, the (build_dominator_tree cycle_before (build_cfg cycle_before))))"

lemma cycle_states: "(repair_step cycle_graph ''e'' ^^ 7) cycle_start = (repair_step cycle_graph ''e'' ^^ 1) cycle_start"
  by code_simp

lemma cycle_pending: "list_all (\<lambda>k. fst ((repair_step cycle_graph ''e'' ^^ k) cycle_start) \<noteq> []) [0, 1, 2, 3, 4, 5, 6]"
  by code_simp

lemma warm_manager_eq:
  "warm_manager f = map_option (\<lambda>t. new_manager\<lparr>am_cfg := Some (build_cfg f), am_dominators := Some t\<rparr>) (build_dominator_tree f (build_cfg f))"
  by (simp add: warm_manager_def manager_dominators_def manager_cfg_def new_manager_def Let_def build_cfg_def option.map_comp comp_def)

lemma cycle_local: "is_local_edit cycle_after [''e'', ''a'', ''c'']"
  by (simp add: is_local_edit_def cycle_after_def graph_function_def)

lemma cycle_repair:
  "repair_cfg_blocks (listed [''e'', ''d'', ''b'', ''a'', ''c'']) cycle_after (build_cfg cycle_before) [''e'', ''a'', ''c''] =
   (\<lparr>rp_valid = True, rp_changed = True, rp_reachability_changed = False, rp_affected = [''e'', ''d'', ''b'', ''a'']\<rparr>, cycle_graph)"
  by code_simp


text \<open>
  C36. Local repair of the dominators does not always return. The function has five blocks, and the edit leaves every block reachable,
  so that \<open>repair_cfg_blocks\<close> succeeds and \<open>invalidate_control_flow\<close> calls \<open>repair_dominator_tree\<close> on the old dominators; with the affected
  blocks listed in a certain order the worklist is not empty after any number of steps. So the loop goes on for
  ever, neither the repair nor \<open>invalidate_control_flow\<close> has a result, and it is not the case that the dominators are merely dropped.
\<close>

theorem repair_may_not_return:
  "\<exists>m t. warm_manager cycle_before = Some m \<and> am_cfg m = Some (build_cfg cycle_before) \<and> am_dominators m = Some t \<and>
     repair_cfg_blocks (listed [''e'', ''d'', ''b'', ''a'', ''c'']) cycle_after (build_cfg cycle_before) [''e'', ''a'', ''c''] =
       (\<lparr>rp_valid = True, rp_changed = True, rp_reachability_changed = False, rp_affected = [''e'', ''d'', ''b'', ''a'']\<rparr>, cycle_graph) \<and>
     (case enqueue_blocks cycle_graph ''e'' [''e'', ''d'', ''b'', ''a''] ([], {}) of (pending, queued) \<Rightarrow>
        \<forall>k. fst ((repair_step cycle_graph ''e'' ^^ k) (pending, queued, t)) \<noteq> []) \<and>
     repair_dominator_tree cycle_after cycle_graph t [''e'', ''d'', ''b'', ''a''] = None \<and>
     invalidate_control_flow (listed [''e'', ''d'', ''b'', ''a'', ''c'']) cycle_after [''e'', ''a'', ''c''] m = None"
proof -
  obtain t where t: "build_dominator_tree cycle_before (build_cfg cycle_before) = Some t"
    using build_dominator_tree_table [of cycle_before] by blast
  obtain pending queued where q: "enqueue_blocks cycle_graph ''e'' [''e'', ''d'', ''b'', ''a''] ([], {}) = (pending, queued)"
    by (cases "enqueue_blocks cycle_graph ''e'' [''e'', ''d'', ''b'', ''a''] ([], {})")
  have start: "cycle_start = (pending, queued, t)" by (simp add: cycle_start_def q t)
  have early: "fst ((repair_step cycle_graph ''e'' ^^ k) cycle_start) \<noteq> []" if "k < 1 + 6" for k
  proof -
    have "k \<in> set [0, 1, 2, 3, 4, 5, 6]" using that by auto
    then show ?thesis using cycle_pending unfolding list_all_iff by blast
  qed
  have round: "(repair_step cycle_graph ''e'' ^^ (1 + 6)) cycle_start = (repair_step cycle_graph ''e'' ^^ 1) cycle_start"
    using cycle_states by (simp only: add_numeral_left numeral_One [symmetric] semiring_norm)
  have forever: "fst ((repair_step cycle_graph ''e'' ^^ k) cycle_start) \<noteq> []" for k
    by (rule periodic_forever [where b = "\<lambda>s. fst s \<noteq> []", OF round _ early]) simp
  then have "while_option (\<lambda>(pending, _, _). pending \<noteq> []) (repair_step cycle_graph ''e'') cycle_start = None"
    by (simp add: while_option_def case_prod_beta)
  then have none: "repair_dominator_tree cycle_after cycle_graph t [''e'', ''d'', ''b'', ''a''] = None"
    by (simp add: repair_dominator_tree_def start q cycle_after_def graph_function_def)
  then have "invalidate_control_flow (listed [''e'', ''d'', ''b'', ''a'', ''c'']) cycle_after [''e'', ''a'', ''c'']
      (new_manager\<lparr>am_cfg := Some (build_cfg cycle_before), am_dominators := Some t\<rparr>) = None"
    by (simp add: invalidate_control_flow_def cycle_local cycle_repair)
  then show ?thesis using t cycle_repair none forever by (simp add: warm_manager_eq start q)
qed

section \<open>Repairs at concrete edits\<close>

definition entry_removed :: ir_function where
  "entry_removed = graph_function [(''e'', [''a'']), (''a'', [''b'', ''d'']), (''b'', [''c'']), (''c'', []), (''d'', [''c''])]"

definition entry_added :: ir_function where
  "entry_added = graph_function [(''e'', [''a'']), (''a'', [''b'', ''d'']), (''b'', [''c'']), (''c'', []), (''d'', [''b''])]"

definition moved_names :: "string list" where
  "moved_names = [''a'', ''b'', ''c'', ''d'']"

definition moved_graph :: control_flow_graph where
  "moved_graph = snd (repair_cfg_blocks (listed moved_names) entry_added (build_cfg entry_removed) [''d''])"

lemma cfg_edges_union: "cfg_edges f = (\<Union>b \<in> set (fn_blocks f). Pair (bl_name b) ` set (block_targets b))"
  by (auto simp: cfg_edges_def)

lemma moved_edges:
  "cfg_edges entry_removed = {(''e'', ''a''), (''a'', ''b''), (''a'', ''d''), (''b'', ''c''), (''d'', ''c'')}"
  "cfg_edges entry_added = {(''e'', ''a''), (''a'', ''b''), (''a'', ''d''), (''b'', ''c''), (''d'', ''b'')}"
  unfolding entry_removed_def entry_added_def graph_function_def cfg_edges_union
  by (simp_all add: block_targets_def sample_operation_def insert_commute)

lemma moved_repair:
  "repair_cfg_blocks (listed moved_names) entry_added (build_cfg entry_removed) [''d''] =
   (\<lparr>rp_valid = True, rp_changed = True, rp_reachability_changed = False, rp_affected = [''b'', ''c'']\<rparr>, moved_graph)"
  by code_simp

lemma moved_targets: "all_targets (cg_successors (build_cfg entry_removed)) = set moved_names"
  by code_simp

lemma listed_moved: "S \<subseteq> set moved_names \<Longrightarrow> set (listed moved_names S) = S"
  by (auto simp: listed_def)

lemma moved_targets_only: "S \<subseteq> all_targets (cg_successors (build_cfg entry_removed)) \<union> snd ` cfg_edges entry_added \<Longrightarrow> S \<subseteq> set moved_names"
  unfolding moved_targets moved_edges by (rule subset_trans) (auto simp: moved_names_def)

lemma moved_graph_fresh: "records_edges (build_cfg f) (cfg_edges f)"
  using populate_cfg_records by (simp add: build_cfg_def)

lemma moved_untouched: "a \<notin> set [''d''] \<Longrightarrow> (a, s) \<in> cfg_edges entry_removed \<longleftrightarrow> (a, s) \<in> cfg_edges entry_added"
  unfolding moved_edges by simp

lemma moved_names_distinct: "distinct (block_names entry_added)"
  by (simp add: entry_added_def graph_function_def block_names_def)

theorem repair_cfg_correct_witness:
  "records_edges moved_graph (cfg_edges entry_added) \<and> cg_reachable moved_graph = reachable_blocks entry_added"
  using repair_cfg_correct [OF moved_graph_fresh moved_names_distinct moved_untouched moved_repair _ listed_moved [OF moved_targets_only]]
  by simp

definition moved_tree :: dominator_tree where
  "moved_tree = the (build_dominator_tree entry_removed (build_cfg entry_removed))"

lemma moved_tree_built: "build_dominator_tree entry_removed (build_cfg entry_removed) = Some moved_tree"
  using build_dominator_tree_table [of entry_removed] by (auto simp: moved_tree_def)

lemma moved_records: "records_edges moved_graph (cfg_edges entry_added)" "cg_reachable moved_graph = reachable_blocks entry_added"
proof -
  obtain cfg1 changed affected where r: "repair_blocks entry_added [''d''] (build_cfg entry_removed, False, {}) = Some (cfg1, changed, affected)"
    and g: "moved_graph = recompute_reachable entry_added cfg1"
    using moved_repair by (auto simp: repair_cfg_blocks_def repair_nothing_def Let_def split: if_splits option.splits)
  have "records_edges cfg1 (cfg_edges entry_added)"
    using repair_blocks_records [OF moved_graph_fresh r moved_names_distinct moved_untouched] by blast
  then show "records_edges moved_graph (cfg_edges entry_added)" "cg_reachable moved_graph = reachable_blocks entry_added"
    using recompute_reachable_correct [of cfg1 entry_added] g by simp_all
qed

lemma moved_reachable: "cg_reachable moved_graph = cg_reachable (build_cfg entry_removed)"
  by code_simp

lemma moved_dominators:
  "\<exists>t. repair_dominator_tree entry_added moved_graph moved_tree [''b'', ''c''] = Some t \<and> dominates t ''b'' ''c''"
proof -
  have "map_option (\<lambda>t. dominates t ''b'' ''c'') (repair_dominator_tree entry_added moved_graph moved_tree [''b'', ''c'']) = Some True"
    by code_simp
  then show ?thesis by auto
qed

theorem repair_dominators_sound_witness:
  "''b'' \<in> on_every_walk (cfg_edges entry_added) (start_block entry_added) ''c''"
proof -
  obtain t where t: "repair_dominator_tree entry_added moved_graph moved_tree [''b'', ''c''] = Some t" "dominates t ''b'' ''c''"
    using moved_dominators by blast
  have names: "start_block entry_added = start_block entry_removed" "block_names entry_added = block_names entry_removed" "''c'' \<in> set (block_names entry_added)"
    by (simp_all add: entry_added_def entry_removed_def graph_function_def start_block_def block_names_def)
  have "reachable_blocks entry_removed = cg_reachable (build_cfg entry_removed)"
    using populate_cfg_reachable by (simp add: build_cfg_def)
  then have reach: "reachable_blocks entry_added = reachable_blocks entry_removed" using moved_records(2) moved_reachable by simp
  have "''c'' \<in> cg_reachable moved_graph" by code_simp
  then have live: "''c'' \<in> live_blocks entry_added" using moved_records(2) names(3) by (simp add: live_blocks_def)
  have seeds: "b \<notin> set [''b'', ''c''] \<Longrightarrow> (a, b) \<in> cfg_edges entry_removed \<longleftrightarrow> (a, b) \<in> cfg_edges entry_added" for a b
    unfolding moved_edges by auto
  have "live_blocks entry_added = live_blocks entry_removed" using names(2) reach by (simp add: live_blocks_def)
  from repair_dominators_sound [OF moved_records names(1) reach this seeds moved_tree_built t live] show ?thesis .
qed

end
