(* ===== verification/Use_Def_Props.thy ===== *)
theory Use_Def_Props
  imports Flow_Graph
begin

text \<open>
  Use-def information: what a full scan records of a function in which every value is defined once, and that the repair
  of touched blocks gives what a full scan of the edited function gives.
\<close>

section \<open>Use counts\<close>

text \<open>A table of counts that holds no zero.\<close>

definition tally :: "(string \<Rightarrow> nat) \<Rightarrow> (string \<rightharpoonup> nat)" where
  "tally g = (\<lambda>v. if g v = 0 then None else Some (g v))"

lemma count_of_tally [simp]: "count_of (tally g) v = g v"
  by (simp add: count_of_def tally_def)

lemma tally_zero [simp]: "tally (\<lambda>_. 0) = Map.empty"
  by (simp add: tally_def fun_eq_iff)

definition block_uses :: "ir_block \<Rightarrow> string list" where
  "block_uses b = filter starts_percent (concat (map operation_uses (bl_operations b)))"

lemma fold_add_use: "fold add_use xs (tally g) = tally (\<lambda>v. g v + count_list (filter starts_percent xs) v)"
proof (induction xs arbitrary: g)
  case (Cons x xs)
  have "add_use x (tally g) = tally (if starts_percent x then g(x := g x + 1) else g)"
    by (auto simp: add_use_def tally_def count_of_def fun_eq_iff)
  moreover have "(\<lambda>v. (if starts_percent x then g(x := g x + 1) else g) v + count_list (filter starts_percent xs) v) =
      (\<lambda>v. g v + count_list (filter starts_percent (x # xs)) v)" by (rule ext) simp
  ultimately show ?case using Cons [of "if starts_percent x then g(x := g x + 1) else g"] by simp
qed simp

lemma scan_counts: "bc_use_count (scan_block_use_def b) = tally (count_list (block_uses b))"
  using fold_add_use [of "concat (map operation_uses (bl_operations b))" "\<lambda>_. 0"]
  by (simp add: scan_block_use_def_def block_uses_def)

lemma apply_counts: "ud_use_count info = tally g \<Longrightarrow> bc_use_count c = tally h \<Longrightarrow>
    ud_use_count (apply_block_use_def b c info) = tally (\<lambda>v. g v + h v)"
  by (auto simp: apply_block_use_def_def tally_def count_of_def fun_eq_iff)

lemma subtract_counts: "ud_use_count info = tally g \<Longrightarrow> bc_use_count c = tally h \<Longrightarrow>
    ud_use_count (subtract_block_use_def n c info) = tally (\<lambda>v. g v - h v)"
  by (auto simp: subtract_block_use_def_def tally_def fun_eq_iff)

section \<open>Definition sites\<close>

definition block_sites :: "ir_block \<Rightarrow> (string \<rightharpoonup> definition_site)" where
  "block_sites b = fold (define_result (bl_name b)) (enumerate 0 (bl_operations b))
     (fold (define_parameter (bl_name b)) (bl_parameters b) Map.empty)"

definition block_defs :: "ir_block \<Rightarrow> string list" where
  "block_defs b = map vd_name (bl_parameters b) @ block_results b"

definition parameter_sites :: "ir_function \<Rightarrow> (string \<rightharpoonup> definition_site)" where
  "parameter_sites f = fold (\<lambda>p m. map_emplace m (vd_name p) \<lparr>df_block = [], df_index = 0, df_is_parameter = True\<rparr>)
     (fn_parameters f) Map.empty"

text \<open>Every value is defined once, and block names do not repeat.\<close>

definition single_definitions :: "ir_function \<Rightarrow> bool" where
  "single_definitions f \<longleftrightarrow> distinct (block_names f) \<and>
     distinct (map vd_name (fn_parameters f) @ concat (map block_defs (fn_blocks f)))"

lemma fold_map_add:
  assumes "\<And>x m. f x m = m ++ g x"
  shows "fold f xs m = m ++ fold f xs Map.empty"
proof (induction xs arbitrary: m)
  case (Cons x xs)
  have "fold f (x # xs) m = (m ++ g x) ++ fold f xs Map.empty" using Cons [of "m ++ g x"] assms [of x m] by simp
  moreover have "fold f (x # xs) Map.empty = g x ++ fold f xs Map.empty"
    using Cons [of "g x"] assms [of x Map.empty] by simp
  ultimately show ?case by simp
qed simp

lemma fold_define_parameter: "fold (define_parameter n) ps m = m ++ fold (define_parameter n) ps Map.empty"
  by (rule fold_map_add [where g = "\<lambda>p. [vd_name p \<mapsto> \<lparr>df_block = n, df_index = 0, df_is_parameter = True\<rparr>]"])
    (simp add: define_parameter_def)

lemma fold_define_result: "fold (define_result n) xs m = m ++ fold (define_result n) xs Map.empty"
  by (rule fold_map_add [where g = "\<lambda>x. define_result n x Map.empty"]) (simp add: define_result_def split: prod.splits)

lemma fold_define_both:
  "fold (define_result n) xs (fold (define_parameter n) ps m) = m ++ fold (define_result n) xs (fold (define_parameter n) ps Map.empty)"
proof -
  obtain p where p: "fold (define_parameter n) ps Map.empty = p" by blast
  obtain r where r: "fold (define_result n) xs Map.empty = r" by blast
  have "fold (define_parameter n) ps m = m ++ p" using fold_define_parameter [of n ps m] p by simp
  moreover have "fold (define_result n) xs (m ++ p) = (m ++ p) ++ r" using fold_define_result [of n xs "m ++ p"] r by simp
  moreover have "fold (define_result n) xs p = p ++ r" using fold_define_result [of n xs p] r by simp
  ultimately show ?thesis using p by simp
qed

lemma apply_sites: "ud_definitions (apply_block_use_def b c info) = ud_definitions info ++ block_sites b"
proof -
  have "ud_definitions (apply_block_use_def b c info) = fold (define_result (bl_name b)) (enumerate 0 (bl_operations b))
      (fold (define_parameter (bl_name b)) (bl_parameters b) (ud_definitions info))" by (simp add: apply_block_use_def_def)
  then show ?thesis unfolding block_sites_def by (rule trans) (rule fold_define_both)
qed

lemma dom_block_sites: "block_sites b v \<noteq> None \<longleftrightarrow> v \<in> set (block_defs b)"
proof -
  have p: "fold (define_parameter n) ps m v \<noteq> None \<longleftrightarrow> v \<in> vd_name ` set ps \<or> m v \<noteq> None" for n ps m
    by (induction ps arbitrary: m) (auto simp: define_parameter_def)
  have r: "fold (define_result n) (enumerate k ops) m v \<noteq> None \<longleftrightarrow> v \<noteq> [] \<and> v \<in> op_result ` set ops \<or> m v \<noteq> None" for n k ops m
    by (induction ops arbitrary: k m) (auto simp: define_result_def)
  show ?thesis unfolding block_sites_def r p by (auto simp: block_defs_def block_results_def)
qed

lemma block_sites_block: "block_sites b v = Some d \<Longrightarrow> df_block d = bl_name b"
proof -
  have p: "fold (define_parameter n) ps m v = Some d \<Longrightarrow> (m v = Some d \<Longrightarrow> df_block d = n) \<Longrightarrow> df_block d = n" for n ps m
  proof (induction ps arbitrary: m)
    case (Cons p ps)
    show ?case by (rule Cons.IH [of "define_parameter n p m"]) (use Cons.prems in \<open>auto simp: define_parameter_def split: if_splits\<close>)
  qed simp
  have r: "fold (define_result n) xs m v = Some d \<Longrightarrow> (m v = Some d \<Longrightarrow> df_block d = n) \<Longrightarrow> df_block d = n" for n xs m
  proof (induction xs arbitrary: m)
    case (Cons x xs)
    show ?case by (rule Cons.IH [of "define_result n x m"])
      (use Cons.prems in \<open>auto simp: define_result_def split: if_splits prod.splits\<close>)
  qed simp
  assume "block_sites b v = Some d"
  then show ?thesis unfolding block_sites_def by (rule r) (rule p, assumption, simp)
qed

lemma fold_undefine:
  "fold (undefine n) vs m v = (if v \<in> set vs \<and> (\<exists>d. m v = Some d \<and> df_block d = n) then None else m v)"
proof (induction vs arbitrary: m)
  case (Cons w vs)
  have "undefine n w m v = (if v = w \<and> (\<exists>d. m v = Some d \<and> df_block d = n) then None else m v)"
    by (cases "m w") (auto simp: undefine_def)
  then show ?case using Cons [of "undefine n w m"] by (cases "m v") simp_all
qed simp

lemma subtract_sites:
  "ud_definitions (subtract_block_use_def n (scan_block_use_def b) info) v =
     (if v \<in> set (block_defs b) \<and> (\<exists>d. ud_definitions info v = Some d \<and> df_block d = n) then None else ud_definitions info v)"
proof -
  have "ud_definitions (subtract_block_use_def n (scan_block_use_def b) info) = fold (undefine n) (block_defs b) (ud_definitions info)"
    by (simp add: subtract_block_use_def_def scan_block_use_def_def block_defs_def)
  then show ?thesis by (simp only: fold_undefine)
qed

section \<open>A full scan\<close>

definition site_in :: "ir_function \<Rightarrow> string \<Rightarrow> (string \<rightharpoonup> definition_site)" where
  "site_in f n = (case find_block_named f n of None \<Rightarrow> Map.empty | Some b \<Rightarrow> block_sites b)"

definition uses_in :: "ir_function \<Rightarrow> string \<Rightarrow> string \<Rightarrow> nat" where
  "uses_in f n v = (case find_block_named f n of None \<Rightarrow> 0 | Some b \<Rightarrow> count_list (block_uses b) v)"

lemma find_block_iff: "distinct (block_names f) \<Longrightarrow> find_block_named f n = Some b \<longleftrightarrow> b \<in> set (fn_blocks f) \<and> bl_name b = n"
proof -
  assume d: "distinct (block_names f)"
  have "find_block_named f n = Some b" if "b \<in> set (fn_blocks f)" "bl_name b = n"
  proof (cases "find_block_named f n")
    case (Some c)
    then have "c \<in> set (fn_blocks f)" "bl_name c = n" by (auto simp: find_block_named_def dest: find_Some_in)
    then show ?thesis using Some that d by (auto simp: block_names_def distinct_map inj_on_def)
  qed (use that in \<open>auto simp: find_block_named_def find_None_iff\<close>)
  then show ?thesis by (auto simp: find_block_named_def dest: find_Some_in)
qed

lemma site_in_block: "site_in f n v = Some d \<Longrightarrow> df_block d = n"
  by (auto simp: site_in_def find_block_named_def dest: block_sites_block find_Some_in split: option.splits)

lemma scan_into_parts:
  "ud_definitions (scan_into b n info) = ud_definitions info ++ block_sites b"
  "ud_use_count info = tally g \<Longrightarrow> ud_use_count (scan_into b n info) = tally (\<lambda>v. g v + count_list (block_uses b) v)"
  "ud_contributions (scan_into b n info) = map_emplace (ud_contributions info) n (scan_block_use_def b)"
  using apply_counts [OF _ scan_counts, of info g b b]
  by (simp_all add: scan_into_def Let_def apply_sites) (simp add: apply_block_use_def_def)

lemma populate_fold:
  assumes "ud_use_count info = tally g" and "distinct (map bl_name bs)" and "\<And>b. b \<in> set bs \<Longrightarrow> ud_contributions info (bl_name b) = None"
  shows "ud_definitions (fold (\<lambda>b. scan_into b (bl_name b)) bs info) = fold (\<lambda>b m. m ++ block_sites b) bs (ud_definitions info) \<and>
    ud_use_count (fold (\<lambda>b. scan_into b (bl_name b)) bs info) = tally (\<lambda>v. g v + sum_list (map (\<lambda>b. count_list (block_uses b) v) bs)) \<and>
    ud_contributions (fold (\<lambda>b. scan_into b (bl_name b)) bs info) =
      (\<lambda>n. case find (\<lambda>b. bl_name b = n) bs of None \<Rightarrow> ud_contributions info n | Some b \<Rightarrow> Some (scan_block_use_def b))"
  using assms
proof (induction bs arbitrary: info g)
  case (Cons b bs)
  let ?i = "scan_into b (bl_name b) info"
  let ?g = "\<lambda>v. g v + count_list (block_uses b) v"
  have c: "ud_contributions ?i = (ud_contributions info)(bl_name b \<mapsto> scan_block_use_def b)"
    using Cons.prems(3) [of b] by (simp add: scan_into_parts map_emplace_def)
  have u: "ud_use_count ?i = tally ?g" using Cons.prems(1) by (rule scan_into_parts)
  have d: "distinct (map bl_name bs)" using Cons.prems(2) by simp
  have n: "ud_contributions ?i (bl_name x) = None" if "x \<in> set bs" for x
    using Cons.prems(2) Cons.prems(3) [of x] that by (auto simp: c) (metis image_eqI)
  have "find (\<lambda>x. bl_name x = bl_name b) bs = None"
    using Cons.prems(2) unfolding find_None_iff by (metis distinct.simps(2) image_eqI list.simps(9) set_map)
  then have "(\<lambda>n. case find (\<lambda>b. bl_name b = n) bs of None \<Rightarrow> ud_contributions ?i n | Some b \<Rightarrow> Some (scan_block_use_def b)) =
      (\<lambda>n. case find (\<lambda>b. bl_name b = n) (b # bs) of None \<Rightarrow> ud_contributions info n | Some b \<Rightarrow> Some (scan_block_use_def b))"
    by (auto simp: c fun_eq_iff split: option.splits)
  then show ?case using Cons.IH [OF u d n] by (simp add: scan_into_parts add.assoc)
qed simp

lemma populate_parts:
  assumes "distinct (block_names f)"
  shows "ud_definitions (populate_use_def f) = fold (\<lambda>b m. m ++ block_sites b) (fn_blocks f) (parameter_sites f)"
    and "ud_use_count (populate_use_def f) = tally (\<lambda>v. sum_list (map (\<lambda>b. count_list (block_uses b) v) (fn_blocks f)))"
    and "ud_contributions (populate_use_def f) = (\<lambda>n. map_option scan_block_use_def (find_block_named f n))"
  using populate_fold [of "\<lparr>ud_definitions = parameter_sites f, ud_use_count = Map.empty, ud_contributions = Map.empty\<rparr>" "\<lambda>_. 0" "fn_blocks f"] assms
  by (simp_all add: populate_use_def_def parameter_sites_def block_names_def find_block_named_def fun_eq_iff split: option.splits)

lemma fold_sites_None: "(\<And>b. b \<in> set bs \<Longrightarrow> v \<notin> set (block_defs b)) \<Longrightarrow> fold (\<lambda>b m. m ++ block_sites b) bs m v = m v"
proof (induction bs arbitrary: m)
  case (Cons b bs)
  have "block_sites b v = None" using Cons.prems [of b] dom_block_sites [of b v] by auto
  then show ?case using Cons.IH [of "m ++ block_sites b"] Cons.prems by (simp add: map_add_def)
qed simp

lemma fold_sites_Some:
  assumes "b \<in> set bs" and "v \<in> set (block_defs b)" and "distinct (concat (map block_defs bs))"
  shows "fold (\<lambda>b m. m ++ block_sites b) bs m v = block_sites b v"
  using assms
proof (induction bs arbitrary: m)
  case (Cons c bs)
  show ?case
  proof (cases "v \<in> set (block_defs c)")
    case True
    then have "b = c" "\<And>x. x \<in> set bs \<Longrightarrow> v \<notin> set (block_defs x)" using Cons.prems by auto
    moreover have "block_sites c v \<noteq> None" using True dom_block_sites by blast
    ultimately show ?thesis using fold_sites_None [of bs v "m ++ block_sites c"] by (auto simp: map_add_def)
  next
    case False
    then show ?thesis using Cons.IH [of "m ++ block_sites c"] Cons.prems by auto
  qed
qed simp

lemma parameter_sites_dom: "parameter_sites f v \<noteq> None \<longleftrightarrow> v \<in> vd_name ` set (fn_parameters f)"
proof -
  have "fold (\<lambda>p m. map_emplace m (vd_name p) d) ps m v \<noteq> None \<longleftrightarrow> v \<in> vd_name ` set ps \<or> m v \<noteq> None"
    for d :: definition_site and ps :: "value_decl list" and m
    by (induction ps arbitrary: m) (auto simp: map_emplace_apply)
  then show ?thesis by (simp add: parameter_sites_def)
qed

text \<open>Where every value is defined once, the table of definitions is determined by the blocks alone, whatever their order.\<close>

definition records_sites :: "ir_function \<Rightarrow> (string \<rightharpoonup> definition_site) \<Rightarrow> bool" where
  "records_sites f m \<longleftrightarrow> (\<forall>n v d. site_in f n v = Some d \<longrightarrow> m v = Some d) \<and>
     (\<forall>v. (\<forall>n. site_in f n v = None) \<longrightarrow> m v = parameter_sites f v)"

lemma records_sites_unique: "records_sites f m \<Longrightarrow> records_sites f m' \<Longrightarrow> m = m'"
proof
  fix v
  assume "records_sites f m" "records_sites f m'"
  then show "m v = m' v"
    by (cases "\<exists>n d. site_in f n v = Some d") (auto simp: records_sites_def)
qed

lemma site_in_iff:
  assumes "distinct (block_names f)"
  shows "site_in f n v = Some d \<longleftrightarrow> (\<exists>b \<in> set (fn_blocks f). bl_name b = n \<and> block_sites b v = Some d)"
proof (cases "find_block_named f n")
  case None
  then have "\<forall>b \<in> set (fn_blocks f). bl_name b \<noteq> n" by (auto simp: find_block_named_def find_None_iff)
  then show ?thesis using None by (auto simp: site_in_def)
next
  case (Some b)
  then have b: "b \<in> set (fn_blocks f) \<and> bl_name b = n" using find_block_iff [OF assms, of n b] by simp
  have "c = b" if "c \<in> set (fn_blocks f)" "bl_name c = n" for c using find_block_iff [OF assms, of n c] Some that by simp
  then show ?thesis using Some b by (auto simp: site_in_def)
qed

lemma populate_records_sites:
  assumes "single_definitions f"
  shows "records_sites f (ud_definitions (populate_use_def f))"
proof -
  have d: "distinct (block_names f)" "distinct (concat (map block_defs (fn_blocks f)))"
    using assms by (simp_all add: single_definitions_def)
  have "fold (\<lambda>b m. m ++ block_sites b) (fn_blocks f) (parameter_sites f) v = Some s" if s: "site_in f n v = Some s" for n v s
  proof -
    obtain b where b: "b \<in> set (fn_blocks f)" "block_sites b v = Some s" using s site_in_iff [OF d(1)] by blast
    then have "v \<in> set (block_defs b)" using dom_block_sites [of b v] by simp
    then show ?thesis using fold_sites_Some [OF b(1) _ d(2)] b(2) by simp
  qed
  moreover have "fold (\<lambda>b m. m ++ block_sites b) (fn_blocks f) (parameter_sites f) v = parameter_sites f v"
    if s: "\<forall>n. site_in f n v = None" for v
  proof (rule fold_sites_None)
    fix b assume b: "b \<in> set (fn_blocks f)"
    then have "block_sites b v = None" using site_in_iff [OF d(1), of "bl_name b" v] s by (cases "block_sites b v") auto
    then show "v \<notin> set (block_defs b)" using dom_block_sites [of b v] by blast
  qed
  ultimately show ?thesis using populate_parts(1) [OF d(1)] by (simp add: records_sites_def)
qed

lemma site_in_single:
  assumes "single_definitions f" and "site_in f n v = Some d" and "site_in f m v = Some d'"
  shows "n = m"
proof -
  have "records_sites f (ud_definitions (populate_use_def f))" by (rule populate_records_sites [OF assms(1)])
  then have "Some d = Some d'" using assms(2,3) unfolding records_sites_def by metis
  then show ?thesis using assms(2,3) site_in_block by (metis option.inject)
qed

lemma site_in_not_parameter:
  assumes "single_definitions f" and "site_in f n v = Some d"
  shows "parameter_sites f v = None"
proof -
  have dn: "distinct (block_names f)" using assms(1) by (simp add: single_definitions_def)
  obtain b where b: "b \<in> set (fn_blocks f)" "block_sites b v = Some d" using assms(2) site_in_iff [OF dn] by blast
  then have "v \<in> set (block_defs b)" using dom_block_sites [of b v] by simp
  then have "v \<notin> vd_name ` set (fn_parameters f)" using assms(1) b(1) by (auto simp: single_definitions_def)
  then show ?thesis using parameter_sites_dom [of f v] by blast
qed

section \<open>Repair of touched blocks\<close>

text \<open>
  The information after the blocks \<open>T\<close> were rescanned in \<open>f\<close> and the others last scanned in \<open>f0\<close>: definitions of rescanned
  blocks take precedence over those of the others.
\<close>

definition rescanned :: "ir_function \<Rightarrow> ir_function \<Rightarrow> string set \<Rightarrow> string set \<Rightarrow> use_def_info \<Rightarrow> bool" where
  "rescanned f0 f N T info \<longleftrightarrow>
     (\<forall>v n d. n \<in> T \<longrightarrow> site_in f n v = Some d \<longrightarrow> ud_definitions info v = Some d) \<and>
     (\<forall>v n d. n \<notin> T \<longrightarrow> site_in f0 n v = Some d \<longrightarrow> (\<forall>m \<in> T. site_in f m v = None) \<longrightarrow> ud_definitions info v = Some d) \<and>
     (\<forall>v. (\<forall>m \<in> T. site_in f m v = None) \<longrightarrow> (\<forall>n. n \<notin> T \<longrightarrow> site_in f0 n v = None) \<longrightarrow>
        ud_definitions info v = parameter_sites f0 v) \<and>
     ud_use_count info = tally (\<lambda>v. \<Sum>n \<in> N. uses_in (if n \<in> T then f else f0) n v) \<and>
     ud_contributions info = (\<lambda>n. map_option scan_block_use_def (find_block_named (if n \<in> T then f else f0) n))"

definition forget_block :: "string \<Rightarrow> use_def_info \<Rightarrow> use_def_info" where
  "forget_block n info = (case ud_contributions info n of None \<Rightarrow> info
     | Some old \<Rightarrow> (let i = subtract_block_use_def n old info in i\<lparr>ud_contributions := (ud_contributions i)(n := None)\<rparr>))"

lemma repair_use_def_block_eq: "repair_use_def_block f n info =
    (case find_block_named f n of None \<Rightarrow> forget_block n info | Some b \<Rightarrow> scan_into b n (forget_block n info))"
  unfolding repair_use_def_block_def forget_block_def Let_def by (rule refl)

lemma forget_parts:
  assumes "ud_contributions info n = map_option scan_block_use_def (find_block_named h n)" and "ud_use_count info = tally g"
  shows "ud_definitions (forget_block n info) v =
      (if site_in h n v \<noteq> None \<and> (\<exists>d. ud_definitions info v = Some d \<and> df_block d = n) then None else ud_definitions info v)"
    and "ud_use_count (forget_block n info) = tally (\<lambda>v. g v - uses_in h n v)"
    and "ud_contributions (forget_block n info) = (ud_contributions info)(n := None)"
proof -
  show "ud_definitions (forget_block n info) v =
      (if site_in h n v \<noteq> None \<and> (\<exists>d. ud_definitions info v = Some d \<and> df_block d = n) then None else ud_definitions info v)"
  proof (cases "find_block_named h n")
    case (Some b)
    have "ud_definitions (forget_block n info) v = ud_definitions (subtract_block_use_def n (scan_block_use_def b) info) v"
      using Some assms(1) by (simp add: forget_block_def Let_def)
    then show ?thesis using subtract_sites [of n b info v] dom_block_sites [of b v] Some by (simp only: site_in_def option.case)
  qed (use assms(1) in \<open>simp add: forget_block_def site_in_def\<close>)
  show "ud_use_count (forget_block n info) = tally (\<lambda>v. g v - uses_in h n v)"
    using assms subtract_counts [OF assms(2) scan_counts, of n]
    by (cases "find_block_named h n") (simp_all add: forget_block_def Let_def uses_in_def)
  show "ud_contributions (forget_block n info) = (ud_contributions info)(n := None)"
    using assms(1) by (cases "find_block_named h n") (auto simp: forget_block_def Let_def subtract_block_use_def_def fun_eq_iff)
qed

lemma rescan_parts:
  assumes "ud_contributions info n = map_option scan_block_use_def (find_block_named h n)" and "ud_use_count info = tally g"
  shows "ud_definitions (repair_use_def_block f n info) = ud_definitions (forget_block n info) ++ site_in f n"
    and "ud_use_count (repair_use_def_block f n info) = tally (\<lambda>v. g v - uses_in h n v + uses_in f n v)"
    and "ud_contributions (repair_use_def_block f n info) = (ud_contributions info)(n := map_option scan_block_use_def (find_block_named f n))"
proof -
  note forget = forget_parts [OF assms]
  show "ud_definitions (repair_use_def_block f n info) = ud_definitions (forget_block n info) ++ site_in f n"
    by (cases "find_block_named f n") (simp_all add: repair_use_def_block_eq site_in_def scan_into_parts)
  show "ud_use_count (repair_use_def_block f n info) = tally (\<lambda>v. g v - uses_in h n v + uses_in f n v)"
    using scan_into_parts(2) [OF forget(2)]
    by (cases "find_block_named f n") (simp_all add: repair_use_def_block_eq uses_in_def forget(2))
  show "ud_contributions (repair_use_def_block f n info) = (ud_contributions info)(n := map_option scan_block_use_def (find_block_named f n))"
    by (cases "find_block_named f n") (auto simp: repair_use_def_block_eq scan_into_parts forget(3) map_emplace_def)
qed


lemma rescan_step:
  assumes ssa: "single_definitions f0" "single_definitions f" and N: "finite N" "n \<in> N" and inv: "rescanned f0 f N T info"
  shows "rescanned f0 f N (insert n T) (repair_use_def_block f n info)"
proof -
  let ?h = "if n \<in> T then f else f0"
  let ?g = "\<lambda>v. \<Sum>m \<in> N. uses_in (if m \<in> T then f else f0) m v"
  have c: "ud_contributions info n = map_option scan_block_use_def (find_block_named ?h n)" and u: "ud_use_count info = tally ?g"
    using inv by (simp_all add: rescanned_def)
  have A: "n \<in> T \<Longrightarrow> site_in f n v = Some d \<Longrightarrow> ud_definitions info v = Some d" for n v d
    using inv by (simp add: rescanned_def)
  have B: "n \<notin> T \<Longrightarrow> site_in f0 n v = Some d \<Longrightarrow> \<forall>m \<in> T. site_in f m v = None \<Longrightarrow> ud_definitions info v = Some d" for n v d
    using inv by (simp add: rescanned_def)
  have C: "\<forall>m \<in> T. site_in f m v = None \<Longrightarrow> \<forall>n. n \<notin> T \<longrightarrow> site_in f0 n v = None \<Longrightarrow>
      ud_definitions info v = parameter_sites f0 v" for v using inv by (simp add: rescanned_def)
  note rescan = rescan_parts [OF c u, of f] and forget = forget_parts(1) [OF c u]
  have keep: "ud_definitions (repair_use_def_block f n info) v = ud_definitions info v"
    if "site_in f n v = None" "ud_definitions info v = Some d" "df_block d \<noteq> n" for v d
    using that forget [of v] by (simp add: rescan(1) map_add_def)
  have "ud_definitions (repair_use_def_block f n info) v = Some d" if "m \<in> insert n T" "site_in f m v = Some d" for m v d
  proof (cases "m = n")
    case False
    have "site_in f n v = None" using that False site_in_single [OF ssa(2)] by (cases "site_in f n v") auto
    then show ?thesis using keep A that False site_in_block by (metis insertE)
  qed (use that in \<open>simp add: rescan(1)\<close>)
  moreover have "ud_definitions (repair_use_def_block f n info) v = Some d"
    if "m \<notin> insert n T" "site_in f0 m v = Some d" "\<forall>k \<in> insert n T. site_in f k v = None" for m v d
    using keep [of v d] B [of m v d] that site_in_block [of f0 m v d] by simp
  moreover have "ud_definitions (repair_use_def_block f n info) v = parameter_sites f0 v"
    if none: "\<forall>k \<in> insert n T. site_in f k v = None" "\<forall>m. m \<notin> insert n T \<longrightarrow> site_in f0 m v = None" for v
  proof (cases "site_in ?h n v")
    case None
    then have "\<forall>m. m \<notin> T \<longrightarrow> site_in f0 m v = None" using none(2) by (metis insert_iff)
    then have "ud_definitions info v = parameter_sites f0 v" using C [of v] none(1) by simp
    then show ?thesis using forget [of v] None none(1) by (simp add: rescan(1) map_add_def)
  next
    case (Some d)
    then have n: "n \<notin> T" "site_in f0 n v = Some d" using none(1) by (auto split: if_splits)
    then have "ud_definitions info v = Some d" using B [of n v d] none(1) by simp
    then have "ud_definitions (forget_block n info) v = None" using forget [of v] Some site_in_block [OF n(2)] by simp
    then show ?thesis using none(1) site_in_not_parameter [OF ssa(1) n(2)] by (simp add: rescan(1) map_add_def)
  qed
  moreover have "ud_use_count (repair_use_def_block f n info) = tally (\<lambda>v. \<Sum>m \<in> N. uses_in (if m \<in> insert n T then f else f0) m v)"
  proof -
    have "?g v - uses_in ?h n v + uses_in f n v = (\<Sum>m \<in> N. uses_in (if m \<in> insert n T then f else f0) m v)" for v
      using sum.remove [OF N, of "\<lambda>m. uses_in (if m \<in> T then f else f0) m v"]
        sum.remove [OF N, of "\<lambda>m. uses_in (if m \<in> insert n T then f else f0) m v"] by simp
    then show ?thesis using rescan(2) by simp
  qed
  moreover have "ud_contributions (repair_use_def_block f n info) =
      (\<lambda>m. map_option scan_block_use_def (find_block_named (if m \<in> insert n T then f else f0) m))"
    using rescan(3) inv by (auto simp: rescanned_def fun_eq_iff)
  ultimately show ?thesis by (simp add: rescanned_def)
qed

lemma sum_uses:
  assumes "distinct (block_names f)" and "finite N" and "set (block_names f) \<subseteq> N"
  shows "(\<Sum>n \<in> N. uses_in f n v) = sum_list (map (\<lambda>b. count_list (block_uses b) v) (fn_blocks f))"
proof -
  have "(\<Sum>n \<in> N. uses_in f n v) = (\<Sum>n \<in> set (block_names f). uses_in f n v)"
    using assms(2,3) by (intro sum.mono_neutral_right) (auto simp: uses_in_def find_block_iff [OF assms(1)] block_names_def split: option.splits)
  also have "\<dots> = sum_list (map (\<lambda>n. uses_in f n v) (block_names f))" using assms(1) by (rule sum.distinct_set_conv_list)
  also have "\<dots> = sum_list (map (\<lambda>b. count_list (block_uses b) v) (fn_blocks f))"
  proof -
    have "uses_in f (bl_name b) v = count_list (block_uses b) v" if "b \<in> set (fn_blocks f)" for b
      using find_block_iff [OF assms(1), of "bl_name b" b] that by (simp add: uses_in_def)
    then have "map (\<lambda>n. uses_in f n v) (block_names f) = map (\<lambda>b. count_list (block_uses b) v) (fn_blocks f)"
      by (simp add: block_names_def)
    then show ?thesis by simp
  qed
  finally show ?thesis .
qed

lemma rescanned_all:
  assumes ssa: "single_definitions f0" "single_definitions f" and N: "finite N" "set touched \<subseteq> N" and inv: "rescanned f0 f N T info"
  shows "rescanned f0 f N (set touched \<union> T) (repair_use_def_blocks f touched info)"
  using N(2) inv
proof (induction touched arbitrary: T info)
  case (Cons n ns)
  have "rescanned f0 f N (insert n T) (repair_use_def_block f n info)"
    by (rule rescan_step [OF ssa N(1) _ Cons.prems(2)]) (use Cons.prems(1) in simp)
  then show ?case using Cons.IH [of "insert n T"] Cons.prems(1) by (simp add: repair_use_def_blocks_def)
qed (simp add: repair_use_def_blocks_def)


text \<open>
  C20. Repair of use-def information: if two functions have the same parameters and the same untouched blocks, and each defines every
  value once, then repairing the touched blocks of the information of the first gives exactly what a full scan
  of the second gives, whatever was added, removed or moved between touched blocks.
\<close>

theorem repair_use_def_correct:
  assumes ssa: "single_definitions f0" "single_definitions f" and params: "fn_parameters f = fn_parameters f0"
    and same: "\<And>n. n \<notin> set touched \<Longrightarrow> find_block_named f n = find_block_named f0 n"
  shows "repair_use_def_blocks f touched (populate_use_def f0) = populate_use_def f"
proof -
  let ?N = "set touched \<union> set (block_names f0) \<union> set (block_names f)"
  have d: "distinct (block_names f0)" "distinct (block_names f)" using ssa by (simp_all add: single_definitions_def)
  have sums: "(\<Sum>n \<in> ?N. uses_in f0 n v) = (\<Sum>b \<leftarrow> fn_blocks f0. count_list (block_uses b) v)"
    "(\<Sum>n \<in> ?N. uses_in f n v) = (\<Sum>b \<leftarrow> fn_blocks f. count_list (block_uses b) v)" for v
    by (rule sum_uses [OF d(1)]; auto) (rule sum_uses [OF d(2)]; auto)
  have "rescanned f0 f ?N {} (populate_use_def f0)"
    using populate_records_sites [OF ssa(1)] populate_parts(2,3) [OF d(1)] by (simp add: rescanned_def records_sites_def sums)
  then have r: "rescanned f0 f ?N (set touched) (repair_use_def_blocks f touched (populate_use_def f0))" (is "rescanned f0 f ?N ?T ?i")
    using rescanned_all [OF ssa _ _ \<open>rescanned f0 f ?N {} (populate_use_def f0)\<close>, of touched] by auto
  have site: "site_in (if n \<in> ?T then f else f0) n = site_in f n" "uses_in (if n \<in> ?T then f else f0) n = uses_in f n"
    "find_block_named (if n \<in> ?T then f else f0) n = find_block_named f n" for n
    using same [of n] by (auto simp: site_in_def uses_in_def)
  have p: "parameter_sites f = parameter_sites f0" using params by (simp add: parameter_sites_def)
  have "ud_definitions ?i v = Some e" if e: "site_in f n v = Some e" for n v e
  proof (cases "n \<in> ?T")
    case False
    moreover have "site_in f m v = None" if m: "m \<in> ?T" for m
    proof (cases "site_in f m v")
      case (Some d)
      then show ?thesis using site_in_single [OF ssa(2) e Some] m False by blast
    qed
    moreover have "site_in f0 n v = Some e" using e site(1) [of n] False by simp
    ultimately show ?thesis using r by (simp add: rescanned_def)
  qed (use r e in \<open>simp add: rescanned_def\<close>)
  moreover have "ud_definitions ?i v = parameter_sites f v" if "\<forall>n. site_in f n v = None" for v
  proof -
    have "site_in f0 n v = None" if "n \<notin> ?T" for n using that site(1) [of n] \<open>\<forall>n. site_in f n v = None\<close> by simp
    then show ?thesis using r that p by (simp add: rescanned_def)
  qed
  ultimately have "records_sites f (ud_definitions ?i)" by (simp add: records_sites_def)
  then have "ud_definitions ?i = ud_definitions (populate_use_def f)"
    by (rule records_sites_unique) (rule populate_records_sites [OF ssa(2)])
  moreover have "ud_use_count ?i = ud_use_count (populate_use_def f)"
    using r populate_parts(2) [OF d(2)] by (simp add: rescanned_def site sums)
  moreover have "ud_contributions ?i = ud_contributions (populate_use_def f)"
    using r populate_parts(3) [OF d(2)] by (simp add: rescanned_def site)
  ultimately show ?thesis by (simp add: use_def_info.equality)
qed

lemma block_site_operation:
  assumes "distinct (block_defs b)" and "i < length (bl_operations b)" and "op_result (bl_operations b ! i) = v" and "v \<noteq> []"
  shows "block_sites b v = Some \<lparr>df_block = bl_name b, df_index = i, df_is_parameter = False\<rparr>"
proof -
  have r: "fold (define_result n) (enumerate k ops) m v = Some \<lparr>df_block = n, df_index = k + i, df_is_parameter = False\<rparr>"
    if "distinct (filter (\<lambda>r. r \<noteq> []) (map op_result ops))" "i < length ops" "op_result (ops ! i) = v" for n k i ops m
    using that
  proof (induction ops arbitrary: k i m)
    case (Cons op ops)
    have none: "fold (define_result n) (enumerate k' xs) m' v = m' v" if "v \<notin> op_result ` set xs" for k' xs m'
      using that by (induction xs arbitrary: k' m') (auto simp: define_result_def)
    show ?case
    proof (cases i)
      case 0
      then have "v \<notin> op_result ` set ops" using Cons.prems assms(4) by auto
      moreover have "define_result n (k, op) m = m(v \<mapsto> \<lparr>df_block = n, df_index = k, df_is_parameter = False\<rparr>)"
        using Cons.prems assms(4) 0 by (simp add: define_result_def)
      ultimately show ?thesis using none 0 by simp
    next
      case (Suc j)
      then show ?thesis using Cons.IH [of j "Suc k"] Cons.prems by (auto split: if_splits)
    qed
  qed simp
  have "distinct (filter (\<lambda>r. r \<noteq> []) (map op_result (bl_operations b)))" using assms(1) by (simp add: block_defs_def block_results_def)
  then show ?thesis using r [of "bl_operations b" i] assms(2,3) by (simp add: block_sites_def)
qed


lemma count_list_filter: "count_list (filter P xs) v = (if P v then count_list xs v else 0)"
  by (induction xs) auto

lemma block_site_is_operation:
  assumes "block_sites b v = Some d" and "distinct (block_defs b)" and "\<not> df_is_parameter d"
  shows "v \<noteq> [] \<and> df_index d < length (bl_operations b) \<and> op_result (bl_operations b ! df_index d) = v"
proof -
  have v: "v \<in> set (block_defs b)" using assms(1) dom_block_sites [of b v] by simp
  show ?thesis
  proof (cases "v \<in> set (block_results b)")
    case True
    then obtain i where "i < length (bl_operations b)" "op_result (bl_operations b ! i) = v" "v \<noteq> []"
      by (auto simp: block_results_def in_set_conv_nth)
    then show ?thesis using block_site_operation [OF assms(2)] assms(1) by auto
  next
    case False
    have none: "fold (define_result n) (enumerate k xs) m v = m v" if "v \<notin> set (filter (\<lambda>r. r \<noteq> []) (map op_result xs))" for n k xs m
      using that
    proof (induction xs arbitrary: k m)
      case (Cons x xs)
      have "define_result n (k, x) m v = m v" using Cons.prems by (auto simp: define_result_def)
      then show ?case using Cons by (auto split: if_splits)
    qed simp
    have param: "fold (define_parameter n) ps m v = Some e \<Longrightarrow> (m v = Some e \<Longrightarrow> df_is_parameter e) \<Longrightarrow> df_is_parameter e" for n ps m e
    proof (induction ps arbitrary: m)
      case (Cons p ps)
      show ?case by (rule Cons.IH [of "define_parameter n p m"]) (use Cons.prems in \<open>auto simp: define_parameter_def split: if_splits\<close>)
    qed simp
    have "fold (define_parameter (bl_name b)) (bl_parameters b) Map.empty v = Some d"
      using assms(1) none [of "bl_operations b"] False by (simp add: block_sites_def block_results_def)
    then have "df_is_parameter d" by (rule param) simp
    then show ?thesis using assms(3) by simp
  qed
qed

lemma parameter_site: "parameter_sites f v = Some d \<Longrightarrow> df_is_parameter d"
proof -
  have param: "fold (\<lambda>p m. map_emplace m (vd_name p) \<lparr>df_block = [], df_index = 0, df_is_parameter = True\<rparr>) ps m v = Some d \<Longrightarrow>
      (m v = Some d \<Longrightarrow> df_is_parameter d) \<Longrightarrow> df_is_parameter d" for ps :: "value_decl list" and m
  proof (induction ps arbitrary: m)
    case (Cons p ps)
    show ?case
      by (rule Cons.IH [of "map_emplace m (vd_name p) \<lparr>df_block = [], df_index = 0, df_is_parameter = True\<rparr>"])
        (use Cons.prems in \<open>auto simp: map_emplace_apply split: if_splits\<close>)
  qed simp
  show "parameter_sites f v = Some d \<Longrightarrow> df_is_parameter d" unfolding parameter_sites_def by (rule param, assumption, simp)
qed

lemma single_definitions_block: "single_definitions f \<Longrightarrow> b \<in> set (fn_blocks f) \<Longrightarrow> distinct (block_defs b)"
  by (auto simp: single_definitions_def distinct_concat_iff)

lemma find_definition_iff:
  assumes "single_definitions f"
  shows "find_definition_operation f (build_use_def f) v = Some op \<longleftrightarrow>
    v \<noteq> [] \<and> op_result op = v \<and> op \<in> set (concat (map bl_operations (fn_blocks f)))" (is "?l \<longleftrightarrow> ?r")
proof -
  have d: "distinct (block_names f)" using assms by (simp add: single_definitions_def)
  have rec: "records_sites f (ud_definitions (build_use_def f))"
    using populate_records_sites [OF assms] by (simp add: build_use_def_def)
  show ?thesis
  proof
    assume ?l
    then obtain s b where s: "ud_definitions (build_use_def f) v = Some s" "\<not> df_is_parameter s"
      "find_block_named f (df_block s) = Some b" "list_at (bl_operations b) (df_index s) = Some op"
      by (auto simp: find_definition_operation_def split: option.splits if_splits)
    have b: "b \<in> set (fn_blocks f)" using s(3) find_block_iff [OF d] by blast
    obtain n where n: "site_in f n v = Some s"
      using rec s(1,2) parameter_site unfolding records_sites_def by (metis not_None_eq option.inject)
    then have "block_sites b v = Some s" using site_in_block [OF n] s(3) by (simp add: site_in_def)
    note site = block_site_is_operation [OF this single_definitions_block [OF assms b] s(2)]
    have "op \<in> set (bl_operations b)" "op_result op = v" using site s(4) by (auto simp: list_at_Some_iff)
    then show ?r using site b by auto
  next
    assume r: ?r
    then obtain b i where b: "b \<in> set (fn_blocks f)" "i < length (bl_operations b)" "bl_operations b ! i = op"
      by (auto simp: in_set_conv_nth)
    have "site_in f (bl_name b) v = Some \<lparr>df_block = bl_name b, df_index = i, df_is_parameter = False\<rparr>"
      using block_site_operation [OF single_definitions_block [OF assms b(1)] b(2)] b r site_in_iff [OF d] by blast
    then have "ud_definitions (build_use_def f) v = Some \<lparr>df_block = bl_name b, df_index = i, df_is_parameter = False\<rparr>"
      using rec by (auto simp: records_sites_def)
    moreover have "find_block_named f (bl_name b) = Some b" using find_block_iff [OF d] b(1) by blast
    ultimately show ?l using b by (auto simp: find_definition_operation_def list_at_Some_iff)
  qed
qed

text \<open>
  C21. Use-def information: in a function that defines every value once, the use count of a value is the number of its occurrences
  as an operand or successor argument (only names that start with a percent sign are values), and the operation found as the
  definition of a value is exactly the one operation of the function that has it as its result.
\<close>

theorem use_def_correct:
  assumes "single_definitions f"
  shows "count_of (ud_use_count (build_use_def f)) v =
      (if starts_percent v then count_list (concat (map operation_uses (concat (map bl_operations (fn_blocks f))))) v else 0) \<and>
    (find_definition_operation f (build_use_def f) v = Some op \<longleftrightarrow>
      v \<noteq> [] \<and> op_result op = v \<and> op \<in> set (concat (map bl_operations (fn_blocks f))))"
proof
  have d: "distinct (block_names f)" using assms by (simp add: single_definitions_def)
  have "(\<Sum>b \<leftarrow> bs. count_list (block_uses b) v) =
      (if starts_percent v then count_list (concat (map operation_uses (concat (map bl_operations bs)))) v else 0)" for bs
    by (induction bs) (auto simp: block_uses_def count_list_filter)
  then show "count_of (ud_use_count (build_use_def f)) v =
      (if starts_percent v then count_list (concat (map operation_uses (concat (map bl_operations (fn_blocks f))))) v else 0)"
    by (simp add: build_use_def_def populate_parts(2) [OF d])
  show "find_definition_operation f (build_use_def f) v = Some op \<longleftrightarrow>
      v \<noteq> [] \<and> op_result op = v \<and> op \<in> set (concat (map bl_operations (fn_blocks f)))"
    by (rule find_definition_iff [OF assms])
qed

section \<open>A function and an edit of it\<close>

definition use_operation :: "string \<Rightarrow> string \<Rightarrow> string list \<Rightarrow> operation" where
  "use_operation r opcode operands = \<lparr>op_result = r, op_opcode = opcode, op_type = TK_i64, op_operands = operands, op_successors = [],
     op_successor_arguments = [], op_alignment = 0, op_source_file = [], op_source_line = 0, op_source_column = 0,
     op_source_end_line = 0, op_source_end_column = 0, op_attributes = []\<rparr>"

definition use_function :: "operation list \<Rightarrow> operation list \<Rightarrow> ir_function" where
  "use_function xs ys = \<lparr>fn_name = ''u'', fn_is_external = False, fn_is_signature = False, fn_variadic = False,
     fn_target_feature = [], fn_calling_convention = CC_platform, fn_linkage = SL_external, fn_visibility = SV_default,
     fn_return_type = TK_i64, fn_return_aggregate_kind = ARK_scalar, fn_return_aggregate_name = [], fn_return_owned = False,
     fn_return_borrow_mode = BM_none, fn_return_borrow_parameter = - 1, fn_parameters = [],
     fn_blocks = [\<lparr>bl_name = ''x'', bl_parameters = [], bl_operations = xs\<rparr>, \<lparr>bl_name = ''y'', bl_parameters = [], bl_operations = ys\<rparr>]\<rparr>"

definition use_before :: ir_function where
  "use_before = use_function [use_operation ''%a'' ''const'' [''1''], use_operation ''%b'' ''add'' [''%a'', ''%a'']]
     [use_operation ''%c'' ''add'' [''%a'', ''%b'']]"

text \<open>The definition of \<open>%b\<close> moved from one block to the other.\<close>

definition use_after :: ir_function where
  "use_after = use_function [use_operation ''%a'' ''const'' [''1'']]
     [use_operation ''%b'' ''add'' [''%a'', ''%a''], use_operation ''%c'' ''add'' [''%b'', ''%b'']]"

lemmas use_samples = use_before_def use_after_def use_function_def use_operation_def single_definitions_def block_names_def
  block_defs_def block_results_def

lemma use_single: "single_definitions use_before" "single_definitions use_after"
  by (simp_all add: use_samples)

theorem repair_use_def_correct_witness:
  "repair_use_def_blocks use_after [''y'', ''x''] (populate_use_def use_before) = populate_use_def use_after"
  by (rule repair_use_def_correct [OF use_single]) (auto simp: use_samples find_block_named_def)

theorem use_def_correct_witness:
  "count_of (ud_use_count (build_use_def use_after)) ''%b'' = 2 \<and>
   find_definition_operation use_after (build_use_def use_after) ''%b'' = Some (use_operation ''%b'' ''add'' [''%a'', ''%a''])"
  using use_def_correct [OF use_single(2), of "''%b''" "use_operation ''%b'' ''add'' [''%a'', ''%a'']"]
  by (simp add: use_samples starts_percent_def operation_uses_def)

end
