(* ===== verification/Alias_Props.thy ===== *)
theory Alias_Props
  imports Use_Def_Props
begin

text \<open>
  Soundness of the alias analysis. A valuation says where every value points at some moment of a run: into which
  object, and at which byte of it. If the valuation obeys the operations of the function, then accesses that
  the analysis calls disjoint touch no common byte, and accesses it calls the same are the same.
\<close>

section \<open>Signed 64-bit offsets\<close>

lemma wrap64_range: "- (2 ^ 63) \<le> wrap64 i" "wrap64 i < 2 ^ 63"
  using sint_greater_eq [of "word_of_int i :: 64 word"] sint_less [of "word_of_int i :: 64 word"] by (simp_all add: wrap64_def)

lemma wrap64_dvd: "2 ^ 64 dvd wrap64 i - i"
proof -
  have "(word_of_int (wrap64 i) :: 64 word) = word_of_int i" by (simp add: wrap64_def)
  then have "take_bit 64 (wrap64 i) = take_bit 64 i" by (simp add: word_of_int_eq_iff)
  then show ?thesis by (simp add: take_bit_eq_mod mod_eq_dvd_iff)
qed

lemma congruent_small:
  fixes x y :: int
  assumes "2 ^ 64 dvd x - y" and "- (2 ^ 63) \<le> x" "x < 2 ^ 63" and "- (2 ^ 63) \<le> y" "y < 2 ^ 63"
  shows "x = y"
proof -
  have "\<bar>x - y\<bar> < 2 ^ 64" using assms(2-5) by auto
  then show ?thesis using assms(1) zdvd_not_zless [of "\<bar>x - y\<bar>" "2 ^ 64"] by (cases "x = y") auto
qed

lemma wrap64_id: "- (2 ^ 63) \<le> i \<Longrightarrow> i < 2 ^ 63 \<Longrightarrow> wrap64 i = i"
  using congruent_small [OF wrap64_dvd wrap64_range] by blast

section \<open>Valuations\<close>

record 'o valuation =
  va_stack :: "string \<Rightarrow> 'o"
  va_global :: "string \<Rightarrow> 'o"
  va_points :: "string \<Rightarrow> 'o \<times> int"
  va_integer :: "string \<Rightarrow> int"

definition is_stack_allocation :: "operation \<Rightarrow> bool" where
  "is_stack_allocation op \<longleftrightarrow> op_opcode op = ''stack.alloc'' \<or> op_opcode op = ''stack.alloc.struct'' \<or> op_opcode op = ''stack.alloc.array''"

definition is_global_address :: "operation \<Rightarrow> bool" where
  "is_global_address op \<longleftrightarrow> (op_opcode op = ''global.address'' \<or> op_opcode op = ''tls.address'') \<and> length (op_operands op) = 1"

text \<open>What an operation that defines \<open>v\<close> makes of it.\<close>

definition obeys :: "'o valuation \<Rightarrow> string \<Rightarrow> operation \<Rightarrow> bool" where
  "obeys va v op \<longleftrightarrow>
     (is_stack_allocation op \<longrightarrow> va_points va v = (va_stack va v, 0)) \<and>
     (is_global_address op \<longrightarrow> va_points va v = (va_global va (op_operands op ! 0), 0)) \<and>
     (is_pointer_copy op \<longrightarrow> va_points va v = va_points va (op_operands op ! 0)) \<and>
     (is_pointer_offset op \<longrightarrow> va_points va v =
        (fst (va_points va (op_operands op ! 0)), snd (va_points va (op_operands op ! 0)) + va_integer va (op_operands op ! 1))) \<and>
     (op_opcode op = ''const'' \<and> length (op_operands op) = 1 \<longrightarrow>
        (\<forall>i. parse_int64 (op_operands op ! 0) = Some i \<longrightarrow> va_integer va v = i))"

text \<open>
  Stack objects and globals are all different, and a parameter points into none of the stack objects of this call.
\<close>

definition consistent :: "ir_function \<Rightarrow> 'o valuation \<Rightarrow> bool" where
  "consistent f va \<longleftrightarrow> inj (va_stack va) \<and> inj (va_global va) \<and> range (va_stack va) \<inter> range (va_global va) = {} \<and>
     (\<forall>p \<in> set (fn_parameters f). fst (va_points va (vd_name p)) \<notin> range (va_stack va)) \<and>
     (\<forall>v i. parse_int64 v = Some i \<longrightarrow> va_integer va v = i) \<and>
     (\<forall>v op. find_definition_operation f (build_use_def f) v = Some op \<longrightarrow> obeys va v op)"

text \<open>An access of \<open>s\<close> bytes through \<open>v\<close>; objects are smaller than \<open>2^62\<close> bytes.\<close>

definition accessed :: "'o valuation \<Rightarrow> string \<Rightarrow> nat \<Rightarrow> ('o \<times> int) set" where
  "accessed va v s = {(fst (va_points va v), i) | i. snd (va_points va v) \<le> i \<and> i < snd (va_points va v) + int s}"

definition in_object :: "'o valuation \<Rightarrow> string \<Rightarrow> nat \<Rightarrow> bool" where
  "in_object va v s \<longleftrightarrow> 0 \<le> snd (va_points va v) \<and> snd (va_points va v) + int s \<le> 2 ^ 62"

section \<open>What a resolved location says\<close>

definition base_of :: "'o valuation \<Rightarrow> memory_location \<Rightarrow> 'o \<times> int" where
  "base_of va l = (case ml_origin l of
     Origin_stack \<Rightarrow> (va_stack va (ml_base l), 0) | Origin_global \<Rightarrow> (va_global va (ml_base l), 0)
   | _ \<Rightarrow> va_points va (ml_base l))"

lemma base_of_update [simp]:
  "base_of va (l\<lparr>ml_offset := i\<rparr>) = base_of va l" "base_of va (l\<lparr>ml_precise := b\<rparr>) = base_of va l" "base_of va (l\<lparr>ml_size := s\<rparr>) = base_of va l"
  by (cases "ml_origin l"; simp add: base_of_def)+

lemma base_of_stack: "ml_origin l = Origin_stack \<Longrightarrow> base_of va l = (va_stack va (ml_base l), 0)"
  by (simp add: base_of_def)

definition describes :: "ir_function \<Rightarrow> 'o valuation \<Rightarrow> string \<Rightarrow> memory_location \<Rightarrow> bool" where
  "describes f va v l \<longleftrightarrow> ml_origin l = Origin_unknown \<or>
     (ml_origin l = Origin_argument \<longrightarrow> ml_base l \<in> vd_name ` set (fn_parameters f)) \<and>
     fst (va_points va v) = fst (base_of va l) \<and>
     (ml_precise l \<longrightarrow> - (2 ^ 63) \<le> ml_offset l \<and> ml_offset l < 2 ^ 63 \<and>
        2 ^ 64 dvd ml_offset l - (snd (va_points va v) - snd (base_of va l)))"

lemma describes_shift:
  assumes "describes f va p l" and "fst (va_points va v) = fst (va_points va p)"
    and "\<And>i. off = Some i \<Longrightarrow> snd (va_points va v) = snd (va_points va p) + i"
  shows "describes f va v (shift_location off l)"
proof (cases "off \<noteq> None \<and> ml_precise l \<and> ml_origin l \<noteq> Origin_unknown")
  case True
  then obtain i where i: "off = Some i" by blast
  have l: "ml_precise l" "ml_origin l \<noteq> Origin_unknown" using True by simp_all
  let ?s = "snd (va_points va p)" and ?b = "snd (base_of va l)"
  have "2 ^ 64 dvd (wrap64 (ml_offset l + i) - (ml_offset l + i)) + (ml_offset l - (?s - ?b))"
    using assms(1) l by (intro dvd_add wrap64_dvd) (simp add: describes_def)
  then have "2 ^ 64 dvd wrap64 (ml_offset l + i) - (?s + i - ?b)" by (simp add: algebra_simps)
  then show ?thesis using assms l i wrap64_range
    by (auto simp: describes_def shift_location_def)
next
  case False
  then show ?thesis using assms(1,2) by (auto simp: describes_def shift_location_def split: option.splits)
qed

lemma resolve_alias_constant_sound:
  assumes "consistent f va" and "resolve_alias_constant f (build_use_def f) v = Some i"
  shows "va_integer va v = i"
proof (cases "parse_int64 v")
  case None
  then obtain op where "find_definition_operation f (build_use_def f) v = Some op" "op_opcode op = ''const''"
    "length (op_operands op) = 1" "parse_int64 (op_operands op ! 0) = Some i"
    using assms(2) by (auto simp: resolve_alias_constant_def split: option.splits if_splits)
  then show ?thesis using assms(1) unfolding consistent_def obeys_def by blast
qed (use assms in \<open>auto simp: resolve_alias_constant_def consistent_def\<close>)


definition all_described :: "ir_function \<Rightarrow> 'o valuation \<Rightarrow> (string \<rightharpoonup> memory_location) \<Rightarrow> bool" where
  "all_described f va ps \<longleftrightarrow> (\<forall>x l. ps x = Some l \<longrightarrow> describes f va x l)"

lemma all_described_update: "all_described f va ps \<Longrightarrow> describes f va v l \<Longrightarrow> all_described f va (ps(v \<mapsto> l))"
  by (auto simp: all_described_def)

lemma describes_copy: "describes f va p l \<Longrightarrow> va_points va v = va_points va p \<Longrightarrow> describes f va v l"
  by (simp add: describes_def)

text \<open>The recursive calls, and all other ways a value is resolved.\<close>

definition resolves_operand :: "ir_function \<Rightarrow> use_def_info \<Rightarrow> string set \<Rightarrow> string \<Rightarrow> (string \<rightharpoonup> memory_location) \<Rightarrow> operation \<Rightarrow> bool" where
  "resolves_operand f ud vis v ps op \<longleftrightarrow> ps v = None \<and> v \<notin> vis \<and> find (\<lambda>p. vd_name p = v) (fn_parameters f) = None \<and>
     (\<exists>d. ud_definitions ud v = Some d \<and> \<not> df_is_parameter d) \<and> find_definition_operation f ud v = Some op \<and>
     \<not> is_stack_allocation op \<and> \<not> is_global_address op"

lemma resolve_operand:
  assumes "resolves_operand f ud vis v ps op"
  shows "resolve_alias_pointer f ud vis v ps =
    (if is_pointer_copy op then
       (case resolve_alias_pointer f ud (insert v vis) (op_operands op ! 0) ps of
          (None, ps') \<Rightarrow> (None, ps') | (Some l, ps') \<Rightarrow> (Some l, ps'(v \<mapsto> l)))
     else if is_pointer_offset op then
       (case resolve_alias_pointer f ud (insert v vis) (op_operands op ! 0) ps of
          (None, ps') \<Rightarrow> (None, ps')
        | (Some l, ps') \<Rightarrow> (let l' = shift_location (resolve_alias_constant f ud (op_operands op ! 1)) l in (Some l', ps'(v \<mapsto> l'))))
     else (None, ps))"
proof -
  obtain d where d: "ud_definitions ud v = Some d" "\<not> df_is_parameter d" using assms by (auto simp: resolves_operand_def)
  have "\<not> (op_opcode op = ''stack.alloc'' \<or> op_opcode op = ''stack.alloc.struct'' \<or> op_opcode op = ''stack.alloc.array'')"
    "\<not> ((op_opcode op = ''global.address'' \<or> op_opcode op = ''tls.address'') \<and> length (op_operands op) = 1)"
    using assms by (simp_all add: resolves_operand_def is_stack_allocation_def is_global_address_def)
  moreover have "ps v = None" "v \<notin> vis" "find (\<lambda>p. vd_name p = v) (fn_parameters f) = None" "find_definition_operation f ud v = Some op"
    using assms by (simp_all add: resolves_operand_def)
  ultimately show ?thesis using d by (subst resolve_alias_pointer.simps) (simp only: option.case if_False simp_thms)
qed

lemma resolve_cases:
  assumes run: "resolve_alias_pointer f ud vis v ps = (r, ps')"
  shows "(ps v = r \<or> r = None) \<and> ps' = ps \<or>
    (\<exists>l. r = Some l \<and> ps' = ps(v \<mapsto> l) \<and> (ml_origin l = Origin_unknown \<or> v \<in> vd_name ` set (fn_parameters f) \<and> l = precise_location Origin_argument v)) \<or>
    (\<exists>op l. find_definition_operation f ud v = Some op \<and> r = Some l \<and> ps' = ps(v \<mapsto> l) \<and>
       (is_stack_allocation op \<and> l = precise_location Origin_stack v \<or> is_global_address op \<and> l = precise_location Origin_global (op_operands op ! 0))) \<or>
    (\<exists>op. resolves_operand f ud vis v ps op)"
proof (cases "ps v")
  case (Some l)
  then show ?thesis using run by (simp add: resolve_alias_pointer.simps [of f ud vis v ps])
next
  case fresh: None
  show ?thesis
  proof (cases "v \<in> vis")
    case True
    then show ?thesis using run fresh by (simp add: resolve_alias_pointer.simps [of f ud vis v ps])
  next
    case vis: False
    show ?thesis
    proof (cases "find (\<lambda>p. vd_name p = v) (fn_parameters f)")
      case (Some p)
      then have "v \<in> vd_name ` set (fn_parameters f)" by (auto dest: find_Some_in)
      then show ?thesis using run fresh vis Some by (auto simp: resolve_alias_pointer.simps [of f ud vis v ps] split: if_splits)
    next
      case par: None
      note start = resolve_alias_pointer.simps [of f ud vis v ps] fresh vis par
      show ?thesis
      proof (cases "ud_definitions ud v")
        case None
        then show ?thesis using run by (simp add: start)
      next
        case (Some d)
        show ?thesis
        proof (cases "df_is_parameter d")
          case True
          then show ?thesis using run Some by (auto simp: start Let_def split: option.splits if_splits)
        next
          case False
          show ?thesis
          proof (cases "find_definition_operation f ud v")
            case None
            then show ?thesis using run Some False by (simp add: start)
          next
            case op: (Some op)
            show ?thesis
            proof (cases "is_stack_allocation op \<or> is_global_address op")
              case True
              then show ?thesis using run Some False op
                by (auto simp: start Let_def is_stack_allocation_def is_global_address_def split: if_splits)
            next
              case neither: False
              then show ?thesis using fresh vis par Some False op by (auto simp: resolves_operand_def)
            qed
          qed
        qed
      qed
    qed
  qed
qed

lemma resolve_sound:
  assumes "consistent f va" and "ud = build_use_def f" and "all_described f va ps" and "resolve_alias_pointer f ud vis v ps = (r, ps')"
  shows "(\<forall>l. r = Some l \<longrightarrow> describes f va v l) \<and> all_described f va ps'"
  using assms
proof (induction f ud vis v ps arbitrary: r ps' rule: resolve_alias_pointer.induct)
  case (1 f ud vis v ps)
  have obey: "obeys va v op" if "find_definition_operation f ud v = Some op" for op
    using 1(3,4) that by (simp add: consistent_def)
  consider "(ps v = r \<or> r = None) \<and> ps' = ps"
    | l where "r = Some l" "ps' = ps(v \<mapsto> l)" "ml_origin l = Origin_unknown \<or> v \<in> vd_name ` set (fn_parameters f) \<and> l = precise_location Origin_argument v"
    | op l where "find_definition_operation f ud v = Some op" "r = Some l" "ps' = ps(v \<mapsto> l)"
        "is_stack_allocation op \<and> l = precise_location Origin_stack v \<or> is_global_address op \<and> l = precise_location Origin_global (op_operands op ! 0)"
    | op where "resolves_operand f ud vis v ps op"
    using resolve_cases [OF 1(6)] by blast
  then show ?case
  proof cases
    case 1
    then show ?thesis using \<open>all_described f va ps\<close> by (auto simp: all_described_def)
  next
    case (2 l)
    have "describes f va v l" using 2(3) by (auto simp: describes_def base_of_def)
    then show ?thesis
      using 2(1,2) all_described_update [OF \<open>all_described f va ps\<close> \<open>describes f va v l\<close>] by (simp del: fun_upd_apply)
  next
    case (3 op l)
    have "describes f va v l" using obey [OF 3(1)] 3(4) by (auto simp: describes_def base_of_def obeys_def)
    then show ?thesis
      using 3(2,3) all_described_update [OF \<open>all_described f va ps\<close> \<open>describes f va v l\<close>] by (simp del: fun_upd_apply)
  next
    case (4 op)
    then obtain d where d: "ps v = None" "v \<notin> vis" "find (\<lambda>p. vd_name p = v) (fn_parameters f) = None" "ud_definitions ud v = Some d"
      "\<not> df_is_parameter d" "find_definition_operation f ud v = Some op" by (auto simp: resolves_operand_def)
    have k: "\<not> (op_opcode op = ''stack.alloc'' \<or> op_opcode op = ''stack.alloc.struct'' \<or> op_opcode op = ''stack.alloc.array'')"
      "\<not> ((op_opcode op = ''global.address'' \<or> op_opcode op = ''tls.address'') \<and> length (op_operands op) = 1)"
      using 4 by (simp_all add: resolves_operand_def is_stack_allocation_def is_global_address_def)
    let ?p = "op_operands op ! 0"
    obtain r1 ps1 where sub: "resolve_alias_pointer f ud (insert v vis) ?p ps = (r1, ps1)"
      by (cases "resolve_alias_pointer f ud (insert v vis) ?p ps")
    have IH: "(\<forall>l. r1 = Some l \<longrightarrow> describes f va ?p l) \<and> all_described f va ps1" if "is_pointer_copy op \<or> is_pointer_offset op"
    proof (cases "is_pointer_copy op")
      case True
      show ?thesis by (rule "1.IH"(1) [OF d k True "1.prems"(1-3) sub])
    next
      case False
      then have "is_pointer_offset op" using that by simp
      then show ?thesis by (rule "1.IH"(2) [OF d k False _ "1.prems"(1-3) sub])
    qed
    note o = obey [OF d(6), unfolded obeys_def]
    have copy: "describes f va v l" if "is_pointer_copy op" "r1 = Some l" for l
      using IH o that describes_copy by blast
    have shift: "describes f va v (shift_location (resolve_alias_constant f ud (op_operands op ! 1)) l)"
      if "is_pointer_offset op" "r1 = Some l" for l
      by (rule describes_shift [of f va ?p l]) (use IH o that "1.prems"(1,2) resolve_alias_constant_sound in auto)
    show ?thesis
      using resolve_operand [OF 4] sub "1.prems"(3,4) IH copy shift
      by (auto simp del: fun_upd_apply simp: Let_def intro!: all_described_update split: if_splits option.splits)
  qed
qed

lemma analysis_described:
  assumes "consistent f va"
  shows "all_described f va (aa_pointers (build_alias_analysis keys f))"
proof -
  have "all_described f va (fold (\<lambda>v ps. snd (resolve_alias_pointer f (build_use_def f) {} v ps)) keys ps)" if "all_described f va ps" for ps
    using that
  proof (induction keys arbitrary: ps)
    case (Cons v keys)
    obtain r ps' where r: "resolve_alias_pointer f (build_use_def f) {} v ps = (r, ps')" by fastforce
    then show ?case using Cons.IH [of ps'] resolve_sound [OF assms refl Cons.prems r] by simp
  qed simp
  moreover have "aa_pointers (alias_metadata_op n op a) = aa_pointers a" for n op a by (simp add: alias_metadata_op_def)
  then have "aa_pointers (fold (alias_metadata_op n) ops a) = aa_pointers a" for n ops a by (induction ops arbitrary: a) simp_all
  then have "aa_pointers (alias_metadata_block b a) = aa_pointers a" for b a by (simp add: alias_metadata_block_def)
  then have "aa_pointers (fold alias_metadata_block bs a) = aa_pointers a" for bs a by (induction bs arbitrary: a) simp_all
  then have "aa_pointers (rebuild_alias_metadata f a) = aa_pointers a" for a by (simp add: rebuild_alias_metadata_def)
  moreover have "all_described f va Map.empty" by (simp add: all_described_def)
  ultimately show ?thesis
    by (simp add: build_alias_analysis_def populate_alias_analysis_def Let_def)
qed

lemma precise_offset:
  assumes "describes f va v l" and "ml_origin l \<noteq> Origin_unknown" and "ml_precise l" and "in_object va v s"
    and base: "0 \<le> snd (base_of va l)" "snd (base_of va l) \<le> 2 ^ 62"
  shows "ml_offset l = snd (va_points va v) - snd (base_of va l)"
proof (rule congruent_small)
  show "2 ^ 64 dvd ml_offset l - (snd (va_points va v) - snd (base_of va l))" "- (2 ^ 63) \<le> ml_offset l" "ml_offset l < 2 ^ 63"
    using assms(1-3) by (simp_all add: describes_def)
qed (use assms(4) base in \<open>simp_all add: in_object_def\<close>)

lemma location_parts:
  "ml_size (location a v s) = s" "aa_pointers a v = Some l \<Longrightarrow> location a v s = l\<lparr>ml_size := s\<rparr>"
  "aa_pointers a v = None \<Longrightarrow> ml_origin (location a v s) = Origin_unknown"
  by (simp_all add: location_def split: option.splits)

lemma location_described: "all_described f va (aa_pointers a) \<Longrightarrow> describes f va v (location a v s)"
  by (cases "aa_pointers a v") (auto simp: location_def all_described_def describes_def)

lemma same_object_sound:
  assumes d: "describes f va p l" "describes f va q r" and known: "ml_origin l \<noteq> Origin_unknown" "ml_origin r \<noteq> Origin_unknown"
    and size: "ml_size l = s" "ml_size r = t" and fit: "in_object va p s" "in_object va q t"
    and base: "base_of va l = base_of va r" "0 \<le> snd (base_of va r)" "snd (base_of va r) \<le> 2 ^ 62"
  shows "same_object l r = No_alias \<Longrightarrow> accessed va p s \<inter> accessed va q t = {}"
    and "same_object l r = Must_alias \<Longrightarrow> va_points va p = va_points va q \<and> s = t"
proof -
  let ?b = "snd (base_of va r)"
  have off: "ml_offset l = snd (va_points va p) - ?b" "ml_offset r = snd (va_points va q) - ?b" if "ml_precise l" "ml_precise r"
    using precise_offset [OF d(1) known(1) that(1) fit(1)] precise_offset [OF d(2) known(2) that(2) fit(2)] base by simp_all
  have "wrap64 (ml_offset l + int s) = snd (va_points va p) - ?b + int s"
    "wrap64 (ml_offset r + int t) = snd (va_points va q) - ?b + int t" if "ml_precise l" "ml_precise r"
    using off [OF that] fit base by (auto simp: in_object_def intro!: wrap64_id)
  then show "same_object l r = No_alias \<Longrightarrow> accessed va p s \<inter> accessed va q t = {}"
    using off size by (auto simp: same_object_def accessed_def split: if_splits)
  have obj: "fst (va_points va p) = fst (va_points va q)" using d known base(1) by (simp add: describes_def)
  show "same_object l r = Must_alias \<Longrightarrow> va_points va p = va_points va q \<and> s = t"
    using off size obj by (auto simp: same_object_def prod_eq_iff split: if_splits)
qed

text \<open>
  C6. Alias analysis is sound: at any moment that obeys the operations of the function, with accesses inside objects of less than
  \<open>2^62\<close> bytes, two accesses that the analysis calls disjoint share no byte, and two accesses it calls the same
  start at the same byte and have the same length. The order in which the values are resolved does not matter.
\<close>

theorem alias_analysis_sound:
  assumes run: "consistent f va" and fit: "in_object va p s" "in_object va q t"
    and params: "\<And>x. x \<in> vd_name ` set (fn_parameters f) \<Longrightarrow> in_object va x 0"
    and result: "alias_of (location (build_alias_analysis keys f) p s) (location (build_alias_analysis keys f) q t) = res"
  shows "(res = No_alias \<longrightarrow> accessed va p s \<inter> accessed va q t = {}) \<and>
    (res = Must_alias \<longrightarrow> va_points va p = va_points va q \<and> s = t)"
proof -
  let ?a = "build_alias_analysis keys f"
  obtain l r where l: "location ?a p s = l" and r: "location ?a q t = r" by blast
  have d: "describes f va p l" "describes f va q r"
    using location_described [OF analysis_described [OF run]] l r by auto
  have size: "ml_size l = s" "ml_size r = t" using location_parts(1) l r by auto
  have res: "alias_of l r = res" using result l r by simp
  show ?thesis
  proof (cases "ml_origin l = Origin_unknown \<or> ml_origin r = Origin_unknown")
    case True
    then show ?thesis using res by (auto simp: alias_of_def)
  next
    case False
    then have known: "ml_origin l \<noteq> Origin_unknown" "ml_origin r \<noteq> Origin_unknown" by simp_all
    have obj: "fst (va_points va p) = fst (base_of va l)" "fst (va_points va q) = fst (base_of va r)"
      and arg: "ml_origin l = Origin_argument \<Longrightarrow> ml_base l \<in> vd_name ` set (fn_parameters f)"
      "ml_origin r = Origin_argument \<Longrightarrow> ml_base r \<in> vd_name ` set (fn_parameters f)"
      using d known by (auto simp: describes_def)
    show ?thesis
    proof (cases "ml_origin l = ml_origin r \<and> ml_base l = ml_base r")
      case True
      then have b: "base_of va l = base_of va r" unfolding base_of_def by (metis (no_types))
      have "alias_of l r = same_object l r" using True known by (simp add: alias_of_def)
      moreover have "0 \<le> snd (base_of va r)" "snd (base_of va r) \<le> 2 ^ 62"
        using known arg(2) params by (cases "ml_origin r"; force simp: base_of_def in_object_def)+
      ultimately show ?thesis using same_object_sound [OF d known size fit b] res by simp
    next
      case other: False
      have stack: "fst (base_of va x) \<notin> range (va_stack va)"
        if "ml_origin x \<noteq> Origin_stack" "ml_origin x \<noteq> Origin_unknown" "ml_origin x = Origin_argument \<Longrightarrow> ml_base x \<in> vd_name ` set (fn_parameters f)" for x
        using run that by (cases "ml_origin x") (auto simp: base_of_def consistent_def)
      have "fst (base_of va l) \<noteq> fst (base_of va r)" if "alias_of l r = No_alias"
      proof (cases "ml_origin l = Origin_stack \<or> ml_origin r = Origin_stack")
        case True
        show ?thesis
        proof (cases "ml_origin l = ml_origin r")
          case True
          then show ?thesis using \<open>ml_origin l = Origin_stack \<or> ml_origin r = Origin_stack\<close> other run
            by (auto simp: base_of_stack consistent_def dest: injD)
        next
          case False
          then show ?thesis using True stack [OF _ known(1) arg(1)] stack [OF _ known(2) arg(2)] by (metis base_of_stack fst_conv rangeI)
        qed
      next
        case False
        then have "ml_origin l = Origin_global \<and> ml_origin r = Origin_global \<and> ml_base l \<noteq> ml_base r"
          using that other known by (cases "ml_origin l"; cases "ml_origin r"; simp add: alias_of_def)
        then show ?thesis using run by (auto simp: base_of_def consistent_def dest: injD)
      qed
      moreover have "alias_of l r \<noteq> Must_alias" using other known by (cases "ml_origin l"; cases "ml_origin r"; simp add: alias_of_def)
      ultimately show ?thesis using obj res by (auto simp: accessed_def)
    qed
  qed
qed


section \<open>Two words of a stack object\<close>

definition alias_function :: ir_function where
  "alias_function = use_function [use_operation ''%p'' ''stack.alloc'' [''16''], use_operation ''%k'' ''const'' [''8'']]
     [use_operation ''%q'' ''ptr.offset'' [''%p'', ''%k''], use_operation ''%r'' ''bitcast'' [''%q'']]"

definition alias_valuation :: "(string + string) valuation" where
  "alias_valuation = \<lparr>va_stack = Inl, va_global = Inr,
     va_points = (\<lambda>v. (Inl ''%p'', if v = ''%q'' \<or> v = ''%r'' then 8 else 0)),
     va_integer = (\<lambda>v. case parse_int64 v of Some i \<Rightarrow> i | None \<Rightarrow> 8)\<rparr>"

lemma alias_operands: "parse_int64 ''8'' = Some 8" "parse_int64 ''%k'' = None"
  by code_simp+

lemma alias_consistent: "consistent alias_function alias_valuation"
proof -
  have "single_definitions alias_function" by (simp add: alias_function_def use_samples)
  then show ?thesis
    using alias_operands unfolding consistent_def find_definition_iff [OF \<open>single_definitions alias_function\<close>]
    by (auto simp: alias_valuation_def alias_function_def use_function_def use_operation_def obeys_def is_stack_allocation_def
      is_global_address_def is_pointer_copy_def is_pointer_offset_def)
qed

lemma alias_results:
  "alias_of (location (build_alias_analysis [''%q'', ''%r'', ''%p''] alias_function) ''%p'' 8)
     (location (build_alias_analysis [''%q'', ''%r'', ''%p''] alias_function) ''%r'' 8) = No_alias"
  "alias_of (location (build_alias_analysis [''%q'', ''%r'', ''%p''] alias_function) ''%q'' 8)
     (location (build_alias_analysis [''%q'', ''%r'', ''%p''] alias_function) ''%r'' 8) = Must_alias"
  by code_simp+

theorem alias_analysis_sound_witness:
  "accessed alias_valuation ''%p'' 8 \<inter> accessed alias_valuation ''%r'' 8 = {} \<and> va_points alias_valuation ''%q'' = va_points alias_valuation ''%r''"
  using alias_analysis_sound [OF alias_consistent _ _ _ alias_results(1)] alias_analysis_sound [OF alias_consistent _ _ _ alias_results(2)]
  by (simp add: in_object_def alias_valuation_def alias_function_def use_function_def)

end
