(* ===== verification/Loop_Props.thy ===== *)
theory Loop_Props
  imports Flow_Graph
begin

text \<open>
  Natural loops: the blocks found for a back edge are exactly those that reach the latch without passing
  the header, the header dominates them, and a preheader is the only way in.
\<close>

section \<open>Collecting a loop\<close>

definition without_entering :: "string \<Rightarrow> (string \<times> string) set \<Rightarrow> (string \<times> string) set" where
  "without_entering header edges = {(p, b). (p, b) \<in> edges \<and> b \<noteq> header}"

lemma push_loop_spec:
  "set (snd (push_loop header ps blocks pending)) = set pending \<union> {p \<in> set ps. p \<notin> blocks \<and> p \<noteq> header}"
  by (induction ps arbitrary: blocks pending) auto

lemma collect_loop_spec:
  assumes "\<And>b. set (entry preds b) = {p. (p, b) \<in> edges}"
    and "set pending \<subseteq> blocks - {header}" and "\<And>b p. b \<in> blocks \<Longrightarrow> b \<noteq> header \<Longrightarrow> b \<notin> set pending \<Longrightarrow> (p, b) \<in> edges \<Longrightarrow> p \<in> blocks"
  shows "blocks \<subseteq> collect_loop preds header pending blocks \<and>
    (\<forall>p b. b \<in> collect_loop preds header pending blocks \<longrightarrow> (p, b) \<in> without_entering header edges \<longrightarrow> p \<in> collect_loop preds header pending blocks) \<and>
    (\<forall>x \<in> collect_loop preds header pending blocks. x \<in> blocks \<or> (\<exists>b \<in> set pending. (x, b) \<in> (without_entering header edges)\<^sup>*))"
  using assms
proof (induction preds header pending blocks rule: collect_loop.induct)
  case (1 preds header blocks)
  then show ?case by (auto simp: without_entering_def)
next
  case (2 preds header b pending blocks)
  obtain blocks' pending' where push: "push_loop header (entry preds b) blocks pending = (blocks', pending')"
    by (cases "push_loop header (entry preds b) blocks pending")
  have blocks': "blocks' = blocks \<union> {p. (p, b) \<in> edges}"
    using push_loop_blocks [of header "entry preds b" blocks pending] push 2(2) by simp
  have pending': "set pending' = set pending \<union> {p. (p, b) \<in> edges \<and> p \<notin> blocks \<and> p \<noteq> header}"
    using push_loop_spec [of header "entry preds b" blocks pending] push 2(2) by simp
  have b: "b \<in> blocks" "b \<noteq> header" using 2(3) by auto
  let ?E = "without_entering header edges"
  let ?R = "collect_loop preds header pending' blocks'"
  have eq: "collect_loop preds header (b # pending) blocks = ?R" using push by simp
  have "blocks' \<subseteq> ?R \<and> (\<forall>p b. b \<in> ?R \<longrightarrow> (p, b) \<in> ?E \<longrightarrow> p \<in> ?R) \<and> (\<forall>x \<in> ?R. x \<in> blocks' \<or> (\<exists>b \<in> set pending'. (x, b) \<in> ?E\<^sup>*))"
  proof (rule 2(1) [OF push [symmetric] refl 2(2)])
    show "set pending' \<subseteq> blocks' - {header}" using 2(3) blocks' pending' by auto
    show "p \<in> blocks'" if "c \<in> blocks'" "c \<noteq> header" "c \<notin> set pending'" "(p, c) \<in> edges" for c p
    proof (cases "c = b")
      case False
      then have "c \<in> blocks" using that blocks' pending' by auto
      then show ?thesis using 2(4) [of c p] that False blocks' pending' by auto
    qed (use that blocks' in simp)
  qed
  moreover have "x \<in> blocks \<or> (\<exists>c \<in> set (b # pending). (x, c) \<in> ?E\<^sup>*)"
    if "x \<in> blocks' \<or> (\<exists>c \<in> set pending'. (x, c) \<in> ?E\<^sup>*)" for x
  proof -
    have step: "(p, b) \<in> ?E" if "(p, b) \<in> edges" for p using that b by (simp add: without_entering_def)
    then show ?thesis using that blocks' pending' by (auto intro: rtrancl_into_rtrancl)
  qed
  ultimately show ?case using blocks' unfolding eq by blast
qed

lemma natural_loop_blocks:
  assumes "records_edges cfg edges"
  shows "nl_blocks (natural_loop_of cfg header latch) = insert header {b. (b, latch) \<in> (without_entering header edges)\<^sup>*}"
proof -
  let ?E = "without_entering header edges"
  let ?pending = "if latch \<noteq> header then [latch] else []"
  let ?R = "collect_loop (cg_predecessors cfg) header ?pending {header, latch}"
  have "{header, latch} \<subseteq> ?R \<and> (\<forall>p b. b \<in> ?R \<longrightarrow> (p, b) \<in> ?E \<longrightarrow> p \<in> ?R) \<and>
      (\<forall>x \<in> ?R. x \<in> {header, latch} \<or> (\<exists>b \<in> set ?pending. (x, b) \<in> ?E\<^sup>*))"
    by (rule collect_loop_spec) (use assms in \<open>auto simp: records_edges_def\<close>)
  then have R: "header \<in> ?R" "latch \<in> ?R" "\<And>p b. b \<in> ?R \<Longrightarrow> (p, b) \<in> ?E \<Longrightarrow> p \<in> ?R"
    "\<And>x. x \<in> ?R \<Longrightarrow> x = header \<or> (x, latch) \<in> ?E\<^sup>*" by (auto split: if_splits)
  have "x \<in> ?R" if "(x, latch) \<in> ?E\<^sup>*" for x
    using that by (induction rule: converse_rtrancl_induct) (use R in auto)
  then have "?R = insert header {b. (b, latch) \<in> ?E\<^sup>*}" using R(1,4) by blast
  then show ?thesis by (simp add: natural_loop_of_def Let_def)
qed

section \<open>Loops of a function\<close>

lemma loop_header_on_walks:
  assumes "(b, latch) \<in> (without_entering header edges)\<^sup>*" and "header \<in> on_every_walk edges root latch" and "b \<noteq> header"
  shows "header \<in> on_every_walk edges root b"
proof (rule ccontr)
  assume "header \<notin> on_every_walk edges root b"
  then obtain w where w: "walk edges root w" "last w = b" "header \<notin> set w" by (auto simp: on_every_walk_def)
  have "\<exists>w. walk edges root w \<and> last w = latch \<and> header \<notin> set w"
    using assms(1)
  proof (induction rule: rtrancl_induct)
    case (step c d)
    then obtain w where "walk edges root w" "last w = c" "header \<notin> set w" by blast
    then have "walk edges root (w @ [d])" "header \<notin> set (w @ [d])" using step(2) by (auto simp: without_entering_def intro: walk_step)
    then show ?case by (intro exI [of _ "w @ [d]"]) simp
  qed (use w in blast)
  then show False using assms(2) by (auto simp: on_every_walk_def)
qed

lemma back_edge_iff:
  assumes "build_dominator_tree f (build_cfg f) = Some tree"
  shows "l \<in> set (build_loop_info f (build_cfg f) tree) \<longleftrightarrow>
    (\<exists>b h. (b, h) \<in> cfg_edges f \<and> b \<in> live_blocks f \<and> h \<in> on_every_walk (cfg_edges f) (start_block f) b \<and> l = natural_loop_of (build_cfg f) h b)"
proof -
  have "dominates tree h b \<longleftrightarrow> b \<in> live_blocks f \<and> h \<in> on_every_walk (cfg_edges f) (start_block f) b" for h b
    using build_dominator_tree_table [of f] assms by simp
  moreover have "h \<in> set (entry (cg_successors (build_cfg f)) b) \<longleftrightarrow> (b, h) \<in> cfg_edges f" for h b
    using populate_cfg_records [of f] by (simp add: build_cfg_def records_edges_def)
  moreover have live: "b \<in> bl_name ` set (fn_blocks f)" if "b \<in> live_blocks f" for b using that by (simp add: live_blocks_def block_names_def)
  ultimately have "l \<in> set (build_loop_info f (build_cfg f) tree) \<longleftrightarrow> (\<exists>x \<in> set (fn_blocks f). \<exists>h. (bl_name x, h) \<in> cfg_edges f \<and>
      bl_name x \<in> live_blocks f \<and> h \<in> on_every_walk (cfg_edges f) (start_block f) (bl_name x) \<and> l = natural_loop_of (build_cfg f) h (bl_name x))"
    by (auto simp: build_loop_info_def)
  also have "\<dots> \<longleftrightarrow> (\<exists>b h. (b, h) \<in> cfg_edges f \<and> b \<in> live_blocks f \<and> h \<in> on_every_walk (cfg_edges f) (start_block f) b \<and>
      l = natural_loop_of (build_cfg f) h b)" (is "?l \<longleftrightarrow> ?r")
  proof
    assume ?r
    then obtain b h where e: "(b, h) \<in> cfg_edges f" "b \<in> live_blocks f" "h \<in> on_every_walk (cfg_edges f) (start_block f) b"
      "l = natural_loop_of (build_cfg f) h b" by blast
    obtain x where "x \<in> set (fn_blocks f)" "b = bl_name x" using live [OF e(2)] by blast
    then show ?l using e by blast
  qed blast
  finally show ?thesis .
qed

text \<open>
  C19. Natural loops: one loop is found for each edge from a reachable block to a block that dominates it, and no other. Its blocks are
  the header and the blocks that reach the latch without entering the header, the header dominates them all, and a
  preheader, when there is one, is the only predecessor of the header outside the loop.
\<close>

theorem natural_loops_correct:
  assumes "build_dominator_tree f (build_cfg f) = Some tree"
  shows "((b, h) \<in> cfg_edges f \<and> b \<in> live_blocks f \<and> h \<in> on_every_walk (cfg_edges f) (start_block f) b \<longleftrightarrow>
      (\<exists>l \<in> set (build_loop_info f (build_cfg f) tree). nl_header l = h \<and> nl_latch l = b)) \<and>
    (l \<in> set (build_loop_info f (build_cfg f) tree) \<longrightarrow>
      nl_blocks l = insert (nl_header l) {b. (b, nl_latch l) \<in> (without_entering (nl_header l) (cfg_edges f))\<^sup>*} \<and>
      (\<forall>b \<in> nl_blocks l. nl_header l \<in> on_every_walk (cfg_edges f) (start_block f) b) \<and>
      (nl_preheader l \<noteq> [] \<longrightarrow> {p. (p, nl_header l) \<in> cfg_edges f \<and> p \<notin> nl_blocks l} = {nl_preheader l}))"
proof
  have parts: "nl_header (natural_loop_of (build_cfg f) h b) = h" "nl_latch (natural_loop_of (build_cfg f) h b) = b" for h b
    by (simp_all add: natural_loop_of_def Let_def)
  show "(b, h) \<in> cfg_edges f \<and> b \<in> live_blocks f \<and> h \<in> on_every_walk (cfg_edges f) (start_block f) b \<longleftrightarrow>
      (\<exists>l \<in> set (build_loop_info f (build_cfg f) tree). nl_header l = h \<and> nl_latch l = b)"
    unfolding Bex_def back_edge_iff [OF assms] using parts by metis
  show "l \<in> set (build_loop_info f (build_cfg f) tree) \<longrightarrow>
      nl_blocks l = insert (nl_header l) {b. (b, nl_latch l) \<in> (without_entering (nl_header l) (cfg_edges f))\<^sup>*} \<and>
      (\<forall>b \<in> nl_blocks l. nl_header l \<in> on_every_walk (cfg_edges f) (start_block f) b) \<and>
      (nl_preheader l \<noteq> [] \<longrightarrow> {p. (p, nl_header l) \<in> cfg_edges f \<and> p \<notin> nl_blocks l} = {nl_preheader l})"
  proof
    assume "l \<in> set (build_loop_info f (build_cfg f) tree)"
    then obtain b h where e: "h \<in> on_every_walk (cfg_edges f) (start_block f) b" and l: "l = natural_loop_of (build_cfg f) h b"
      using back_edge_iff [OF assms] by blast
    have cfg: "records_edges (build_cfg f) (cfg_edges f)" using populate_cfg_records by (simp add: build_cfg_def)
    have blocks: "nl_blocks l = insert h {c. (c, b) \<in> (without_entering h (cfg_edges f))\<^sup>*}"
      unfolding l by (rule natural_loop_blocks [OF cfg])
    have "h \<in> on_every_walk (cfg_edges f) (start_block f) c" if "c \<in> nl_blocks l" for c
    proof (cases "c = h")
      case True
      then show ?thesis using walk_nonempty by (fastforce simp: on_every_walk_def)
    qed (use that blocks e loop_header_on_walks in auto)
    moreover have "{p. (p, h) \<in> cfg_edges f \<and> p \<notin> nl_blocks l} = {nl_preheader l}" if "nl_preheader l \<noteq> []"
    proof -
      let ?outside = "filter (\<lambda>p. p \<notin> nl_blocks l) (entry (cg_predecessors (build_cfg f)) h)"
      have "nl_preheader l = (if length ?outside = 1 then hd ?outside else [])" unfolding l by (simp add: natural_loop_of_def Let_def)
      then have "?outside = [nl_preheader l]" using that by (auto simp: length_Suc_conv split: if_splits)
      then have "set ?outside = {nl_preheader l}" by simp
      then show ?thesis using cfg by (simp add: records_edges_def)
    qed
    ultimately show "nl_blocks l = insert (nl_header l) {b. (b, nl_latch l) \<in> (without_entering (nl_header l) (cfg_edges f))\<^sup>*} \<and>
      (\<forall>b \<in> nl_blocks l. nl_header l \<in> on_every_walk (cfg_edges f) (start_block f) b) \<and>
      (nl_preheader l \<noteq> [] \<longrightarrow> {p. (p, nl_header l) \<in> cfg_edges f \<and> p \<notin> nl_blocks l} = {nl_preheader l})"
      using blocks l parts by simp
  qed
qed

section \<open>A loop\<close>

definition loop_blocks :: "(string \<times> string list) list" where
  "loop_blocks = [(''e'', [''h'']), (''h'', [''a'', ''x'']), (''a'', [''h'']), (''x'', [])]"

definition loop_function :: ir_function where
  "loop_function = \<lparr>fn_name = ''l'', fn_is_external = False, fn_is_signature = False, fn_variadic = False,
     fn_target_feature = [], fn_calling_convention = CC_platform, fn_linkage = SL_external, fn_visibility = SV_default,
     fn_return_type = TK_void, fn_return_aggregate_kind = ARK_scalar, fn_return_aggregate_name = [], fn_return_owned = False,
     fn_return_borrow_mode = BM_none, fn_return_borrow_parameter = - 1, fn_parameters = [],
     fn_blocks = map (\<lambda>(n, ts). \<lparr>bl_name = n, bl_parameters = [], bl_operations =
       [\<lparr>op_result = [], op_opcode = ''branch'', op_type = TK_void, op_operands = [], op_successors = ts,
         op_successor_arguments = map (\<lambda>_. []) ts, op_alignment = 0, op_source_file = [], op_source_line = 0, op_source_column = 0,
         op_source_end_line = 0, op_source_end_column = 0, op_attributes = []\<rparr>]\<rparr>) loop_blocks\<rparr>"

lemma loop_found: "map_option (\<lambda>t. map nl_latch (build_loop_info loop_function (build_cfg loop_function) t))
    (build_dominator_tree loop_function (build_cfg loop_function)) = Some [''a'']"
  by code_simp

lemma loop_edge: "map_option (\<lambda>t. map (\<lambda>l. (nl_header l, nl_preheader l, nl_blocks l = {''h'', ''a''})) (build_loop_info loop_function (build_cfg loop_function) t))
    (build_dominator_tree loop_function (build_cfg loop_function)) = Some [(''h'', ''e'', True)]"
  by code_simp

theorem natural_loops_correct_witness:
  "\<exists>tree. build_dominator_tree loop_function (build_cfg loop_function) = Some tree \<and>
     ''h'' \<in> on_every_walk (cfg_edges loop_function) (start_block loop_function) ''a''"
proof -
  obtain tree where t: "build_dominator_tree loop_function (build_cfg loop_function) = Some tree"
    using build_dominator_tree_table by blast
  obtain ls where ls: "build_loop_info loop_function (build_cfg loop_function) tree = ls" by blast
  have "map nl_latch ls = [''a'']" using loop_found unfolding t option.map ls by (simp only: option.inject)
  then obtain l where l: "ls = [l]" "nl_latch l = ''a''" by blast
  have "map (\<lambda>l. (nl_header l, nl_preheader l, nl_blocks l = {''h'', ''a''})) ls = [(''h'', ''e'', True)]"
    using loop_edge unfolding t option.map ls by (simp only: option.inject)
  then have "nl_header l = ''h''" unfolding l by simp
  then have "\<exists>l \<in> set (build_loop_info loop_function (build_cfg loop_function) tree). nl_header l = ''h'' \<and> nl_latch l = ''a''"
    unfolding ls l(1) using l(2) by simp
  then have "''h'' \<in> on_every_walk (cfg_edges loop_function) (start_block loop_function) ''a''"
    unfolding conjunct1 [OF natural_loops_correct [OF t, of "''a''" "''h''"], symmetric] by simp
  then show ?thesis using t by simp
qed

end
