(* ===== verification/Scalar_Passes.thy ===== *)
theory Scalar_Passes
  imports Function_Analysis "HOL-Library.Signed_Division"
begin

text \<open>
  Pass results (\<open>forge/include/forge/pass/pass.hpp\<close>) and scalar passes of \<open>forge/src/transforms/scalar.cpp\<close>: constant
  folding, copy propagation, branch folding, dead code elimination and simplification of the control-flow graph.
  A pass takes the function and its analysis manager and returns its result, the function and the manager;
  \<open>None\<close> is a run without a defined outcome: signed overflow in the compiler, or an analysis that does not return.
\<close>

section \<open>Results\<close>

record pass_result =
  pr_changed :: bool
  pr_operations_removed :: nat
  pr_operations_rewritten :: nat
  pr_blocks_removed :: nat
  pr_invalidation :: invalidation_scope
  pr_touched_blocks :: "string list"

definition no_result :: "invalidation_scope \<Rightarrow> pass_result" where
  "no_result scope = \<lparr>pr_changed = False, pr_operations_removed = 0, pr_operations_rewritten = 0, pr_blocks_removed = 0,
     pr_invalidation = scope, pr_touched_blocks = []\<rparr>"

definition touch_block :: "string \<Rightarrow> pass_result \<Rightarrow> pass_result" where
  "touch_block b r = r\<lparr>pr_touched_blocks := add_distinct (pr_touched_blocks r) b\<rparr>"

fun scope_rank :: "invalidation_scope \<Rightarrow> nat" where
  "scope_rank Scope_none = 0"
| "scope_rank Scope_operations = 1"
| "scope_rank Scope_control_flow = 2"
| "scope_rank Scope_all = 3"

text \<open>\<open>operator+=\<close>.\<close>

definition add_result :: "pass_result \<Rightarrow> pass_result \<Rightarrow> pass_result" where
  "add_result r other =
     fold touch_block (pr_touched_blocks other)
       \<lparr>pr_changed = (pr_changed r \<or> pr_changed other),
        pr_operations_removed = pr_operations_removed r + pr_operations_removed other,
        pr_operations_rewritten = pr_operations_rewritten r + pr_operations_rewritten other,
        pr_blocks_removed = pr_blocks_removed r + pr_blocks_removed other,
        pr_invalidation = (if pr_changed other \<and> scope_rank (pr_invalidation other) > scope_rank (pr_invalidation r)
          then pr_invalidation other else pr_invalidation r),
        pr_touched_blocks = pr_touched_blocks r\<rparr>"

type_synonym pass_outcome = "pass_result \<times> ir_function \<times> analysis_manager"
type_synonym function_pass = "ir_function \<Rightarrow> analysis_manager \<Rightarrow> pass_outcome option"

definition rewritten :: "pass_result \<Rightarrow> pass_result" where
  "rewritten r = r\<lparr>pr_changed := True, pr_operations_rewritten := pr_operations_rewritten r + 1\<rparr>"

text \<open>A loop that rewrites the elements of a vector in place, with what else it changes.\<close>

fun rewrite_list :: "('a \<Rightarrow> 's \<Rightarrow> ('a \<times> 's) option) \<Rightarrow> 'a list \<Rightarrow> 's \<Rightarrow> ('a list \<times> 's) option" where
  "rewrite_list step [] s = Some ([], s)"
| "rewrite_list step (x # xs) s =
     (case step x s of
        None \<Rightarrow> None
      | Some (y, s1) \<Rightarrow> (case rewrite_list step xs s1 of None \<Rightarrow> None | Some (ys, s2) \<Rightarrow> Some (y # ys, s2)))"

section \<open>Constant folding\<close>

record constant_definition =
  cd_value :: int
  cd_block :: string
  cd_index :: nat

definition is_available :: "dominator_tree \<Rightarrow> string \<Rightarrow> nat \<Rightarrow> string \<Rightarrow> nat \<Rightarrow> bool" where
  "is_available doms def_block def_index block index \<longleftrightarrow>
     (if def_block = block then def_index < index else dominates doms def_block block)"

definition constant_at :: "dominator_tree \<Rightarrow> (string \<rightharpoonup> constant_definition) \<Rightarrow> string \<Rightarrow> nat \<Rightarrow> string \<Rightarrow> int option" where
  "constant_at doms constants block index name =
     (case constants name of
        None \<Rightarrow> None
      | Some d \<Rightarrow> if is_available doms (cd_block d) (cd_index d) block index then Some (cd_value d) else None)"

definition in_int64 :: "int \<Rightarrow> bool" where
  "in_int64 v \<longleftrightarrow> - (2 ^ 63) \<le> v \<and> v < 2 ^ 63"

definition checked_int64 :: "int \<Rightarrow> int option" where
  "checked_int64 v = (if in_int64 v then Some v else None)"

definition fold_arithmetic :: "string \<Rightarrow> int \<Rightarrow> int \<Rightarrow> int option" where
  "fold_arithmetic opcode l r =
     checked_int64 (if opcode = ''add'' then l + r else if opcode = ''sub'' then l - r
       else if opcode = ''mul'' then l * r else l sdiv r)"

definition literal_of :: "operation \<Rightarrow> int option" where
  "literal_of op = (if op_opcode op = ''const'' \<and> op_result op \<noteq> [] \<and> length (op_operands op) = 1
     then parse_int64 (op_operands op ! 0) else None)"

definition is_literal_operation :: "operation \<Rightarrow> bool" where
  "is_literal_operation op \<longleftrightarrow> op_opcode op = ''const'' \<and> op_result op \<noteq> [] \<and> length (op_operands op) = 1"

definition is_foldable :: "operation \<Rightarrow> bool" where
  "is_foldable op \<longleftrightarrow> op_opcode op \<in> {''add'', ''sub'', ''mul'', ''div''} \<and> op_result op \<noteq> [] \<and> length (op_operands op) = 2"

type_synonym fold_state = "(string \<rightharpoonup> constant_definition) \<times> pass_result"

definition fold_operation :: "dominator_tree \<Rightarrow> string \<Rightarrow> nat \<times> operation \<Rightarrow> fold_state \<Rightarrow> ((nat \<times> operation) \<times> fold_state) option" where
  "fold_operation doms block iop st = (case iop of (index, op) \<Rightarrow> case st of (constants, r) \<Rightarrow>
     if is_literal_operation op then
       Some ((index, op), (case literal_of op of
         None \<Rightarrow> constants | Some v \<Rightarrow> constants(op_result op \<mapsto> \<lparr>cd_value = v, cd_block = block, cd_index = index\<rparr>)), r)
     else if is_foldable op then
       (case (constant_at doms constants block index (op_operands op ! 0), constant_at doms constants block index (op_operands op ! 1)) of
          (Some left, Some right) \<Rightarrow>
            if op_opcode op = ''div'' \<and> right = 0 then Some ((index, op), st)
            else map_option (\<lambda>v. ((index, op\<lparr>op_opcode := ''const'', op_operands := [to_string_int v]\<rparr>),
                constants(op_result op \<mapsto> \<lparr>cd_value = v, cd_block = block, cd_index = index\<rparr>), touch_block block (rewritten r)))
              (fold_arithmetic (op_opcode op) left right)
        | _ \<Rightarrow> Some ((index, op), st))
     else Some ((index, op), st))"

definition fold_block :: "dominator_tree \<Rightarrow> ir_block \<Rightarrow> fold_state \<Rightarrow> (ir_block \<times> fold_state) option" where
  "fold_block doms b st =
     map_option (\<lambda>(ops, st'). (b\<lparr>bl_operations := map snd ops\<rparr>, st'))
       (rewrite_list (fold_operation doms (bl_name b)) (enumerate 0 (bl_operations b)) st)"

definition constant_fold_pass :: function_pass where
  "constant_fold_pass f m =
     (case manager_dominators f m of
        None \<Rightarrow> None
      | Some (doms, m') \<Rightarrow>
          map_option (\<lambda>(blocks, _, r). (r, f\<lparr>fn_blocks := blocks\<rparr>, m'))
            (rewrite_list (fold_block doms) (fn_blocks f) (Map.empty, no_result Scope_operations)))"

section \<open>Copy propagation\<close>

record copy_definition =
  cp_source :: string
  cp_block :: string
  cp_index :: nat

definition note_copy :: "string \<Rightarrow> nat \<times> operation \<Rightarrow> (string \<rightharpoonup> copy_definition) \<Rightarrow> (string \<rightharpoonup> copy_definition)" where
  "note_copy block iop copies = (case iop of (index, op) \<Rightarrow>
     if op_opcode op = ''copy'' \<and> op_result op \<noteq> [] \<and> length (op_operands op) = 1
     then map_emplace copies (op_result op) \<lparr>cp_source = op_operands op ! 0, cp_block = block, cp_index = index\<rparr> else copies)"

definition collect_copies :: "ir_function \<Rightarrow> (string \<rightharpoonup> copy_definition)" where
  "collect_copies f = fold (\<lambda>b. fold (note_copy (bl_name b)) (enumerate 0 (bl_operations b))) (fn_blocks f) Map.empty"

definition copy_source :: "dominator_tree \<Rightarrow> (string \<rightharpoonup> copy_definition) \<Rightarrow> string \<Rightarrow> nat \<Rightarrow> string \<Rightarrow> string" where
  "copy_source doms copies block index v =
     (case copies v of
        None \<Rightarrow> v
      | Some c \<Rightarrow> if is_available doms (cp_block c) (cp_index c) block index then cp_source c else v)"

definition map_uses :: "(string \<Rightarrow> string) \<Rightarrow> operation \<Rightarrow> operation" where
  "map_uses g op = op\<lparr>op_operands := map g (op_operands op), op_successor_arguments := map (map g) (op_successor_arguments op)\<rparr>"

definition propagate_block :: "dominator_tree \<Rightarrow> (string \<rightharpoonup> copy_definition) \<Rightarrow> ir_block \<Rightarrow> ir_block" where
  "propagate_block doms copies b =
     b\<lparr>bl_operations := map (\<lambda>(i, op). map_uses (copy_source doms copies (bl_name b) i) op) (enumerate 0 (bl_operations b))\<rparr>"

definition propagate_copies :: "dominator_tree \<Rightarrow> (string \<rightharpoonup> copy_definition) \<Rightarrow> ir_function \<Rightarrow> pass_result \<Rightarrow> ir_function \<times> pass_result" where
  "propagate_copies doms copies f r =
     (f\<lparr>fn_blocks := map (propagate_block doms copies) (fn_blocks f)\<rparr>,
      fold (\<lambda>b r. if propagate_block doms copies b \<noteq> b then touch_block (bl_name b) (r\<lparr>pr_changed := True\<rparr>) else r) (fn_blocks f) r)"

definition is_dead_copy :: "(string \<rightharpoonup> copy_definition) \<Rightarrow> use_def_info \<Rightarrow> operation \<Rightarrow> bool" where
  "is_dead_copy copies uses op \<longleftrightarrow> op_opcode op = ''copy'' \<and> copies (op_result op) \<noteq> None \<and>
     (case ud_use_count uses (op_result op) of None \<Rightarrow> True | Some n \<Rightarrow> n = 0)"

text \<open>Dropping the operations a predicate selects; a block that loses some is touched.\<close>

definition drop_operations :: "(operation \<Rightarrow> bool) \<Rightarrow> ir_block \<Rightarrow> pass_result \<Rightarrow> (ir_block \<times> pass_result) option" where
  "drop_operations dead b r =
     (let retained = filter (\<lambda>op. \<not> dead op) (bl_operations b); removed = length (bl_operations b) - length retained
      in Some (b\<lparr>bl_operations := retained\<rparr>,
           if removed = 0 then r
           else touch_block (bl_name b) (r\<lparr>pr_operations_removed := pr_operations_removed r + removed, pr_changed := True\<rparr>)))"

definition copy_propagation_pass :: function_pass where
  "copy_propagation_pass f m =
     (let copies = collect_copies f; r0 = no_result Scope_operations
      in if copies = Map.empty then Some (r0, f, m)
         else case manager_dominators f m of
           None \<Rightarrow> None
         | Some (doms, m1) \<Rightarrow>
             (let (f1, r1) = propagate_copies doms copies f r0;
                  m2 = (if pr_touched_blocks r1 \<noteq> [] then manager_repair_use_def f1 (pr_touched_blocks r1) m1 else m1);
                  (uses, m3) = manager_use_def f1 m2
              in map_option (\<lambda>(blocks, r2). (r2, f1\<lparr>fn_blocks := blocks\<rparr>, m3))
                   (rewrite_list (drop_operations (is_dead_copy copies uses)) (fn_blocks f1) r1)))"

section \<open>Branch folding\<close>

definition note_literal :: "string \<Rightarrow> nat \<times> operation \<Rightarrow> (string \<rightharpoonup> constant_definition) \<Rightarrow> (string \<rightharpoonup> constant_definition)" where
  "note_literal block iop constants = (case iop of (index, op) \<Rightarrow>
     (case literal_of op of
        None \<Rightarrow> constants | Some v \<Rightarrow> constants(op_result op \<mapsto> \<lparr>cd_value = v, cd_block = block, cd_index = index\<rparr>)))"

definition collect_literals :: "ir_function \<Rightarrow> (string \<rightharpoonup> constant_definition)" where
  "collect_literals f = fold (\<lambda>b. fold (note_literal (bl_name b)) (enumerate 0 (bl_operations b))) (fn_blocks f) Map.empty"

definition is_two_way_branch :: "operation \<Rightarrow> bool" where
  "is_two_way_branch op \<longleftrightarrow> op_opcode op = ''branch'' \<and> length (op_operands op) = 1 \<and> length (op_successors op) = 2 \<and>
     length (op_successor_arguments op) = 2"

text \<open>A conditional branch turned into a jump to its successor \<open>selected\<close>.\<close>

definition take_branch :: "nat \<Rightarrow> operation \<Rightarrow> operation" where
  "take_branch selected op = op\<lparr>op_opcode := ''jump'', op_operands := [], op_successors := [op_successors op ! selected],
     op_successor_arguments := [op_successor_arguments op ! selected]\<rparr>"

definition fold_branch_block :: "dominator_tree \<Rightarrow> (string \<rightharpoonup> constant_definition) \<Rightarrow> ir_block \<Rightarrow> pass_result \<Rightarrow> (ir_block \<times> pass_result) option" where
  "fold_branch_block doms constants b r =
     (if bl_operations b = [] then Some (b, r)
      else let t = last (bl_operations b)
           in if \<not> is_two_way_branch t then Some (b, r)
              else case constant_at doms constants (bl_name b) (length (bl_operations b) - 1) (op_operands t ! 0) of
                     None \<Rightarrow> Some (b, r)
                   | Some v \<Rightarrow> Some (b\<lparr>bl_operations := butlast (bl_operations b) @ [take_branch (if v \<noteq> 0 then 0 else 1) t]\<rparr>,
                       rewritten (touch_block (bl_name b) r)))"

definition branch_fold_pass :: function_pass where
  "branch_fold_pass f m =
     (let constants = collect_literals f
      in case manager_dominators f m of
           None \<Rightarrow> None
         | Some (doms, m') \<Rightarrow>
             map_option (\<lambda>(blocks, r). (r, f\<lparr>fn_blocks := blocks\<rparr>, m'))
               (rewrite_list (fold_branch_block doms constants) (fn_blocks f) (no_result Scope_control_flow)))"

section \<open>Dead code elimination\<close>

text \<open>An operation by the number of its block and its own. A mark is set once; marked operations wait on a stack, its top first.\<close>

type_synonym position = "nat \<times> nat"
type_synonym marks = "position set \<times> position list"

definition positions :: "ir_function \<Rightarrow> position list" where
  "positions f = concat (map (\<lambda>(bi, b). map (Pair bi) [0..<length (bl_operations b)]) (enumerate 0 (fn_blocks f)))"

definition operation_at :: "ir_function \<Rightarrow> position \<Rightarrow> operation" where
  "operation_at f p = bl_operations (fn_blocks f ! fst p) ! snd p"

definition definition_table :: "ir_function \<Rightarrow> (string \<rightharpoonup> position)" where
  "definition_table f =
     fold (\<lambda>p defs. if op_result (operation_at f p) \<noteq> [] then map_emplace defs (op_result (operation_at f p)) p else defs)
       (positions f) Map.empty"

definition mark :: "ir_function \<Rightarrow> position \<Rightarrow> marks \<Rightarrow> marks" where
  "mark f p st = (case st of (live, stack) \<Rightarrow>
     if p \<notin> set (positions f) \<or> p \<in> live then st else (insert p live, p # stack))"

definition is_root :: "operation \<Rightarrow> bool" where
  "is_root op \<longleftrightarrow> op_result op = [] \<or> has_side_effects op"

definition mark_roots :: "ir_function \<Rightarrow> marks" where
  "mark_roots f = fold (\<lambda>p st. if is_root (operation_at f p) then mark f p st else st) (positions f) ({}, [])"

definition mark_value :: "ir_function \<Rightarrow> (string \<rightharpoonup> position) \<Rightarrow> string \<Rightarrow> marks \<Rightarrow> marks" where
  "mark_value f defs v st = (case defs v of None \<Rightarrow> st | Some p \<Rightarrow> mark f p st)"

definition mark_uses :: "ir_function \<Rightarrow> (string \<rightharpoonup> position) \<Rightarrow> operation \<Rightarrow> marks \<Rightarrow> marks" where
  "mark_uses f defs op st = fold (mark_value f defs) (operation_uses op) st"

lemma mark_grows: "mark f p (live, stack) = (live', stack') \<Longrightarrow>
    live' = live \<and> stack' = stack \<or> card (set (positions f) - live') < card (set (positions f) - live)"
  by (auto simp: mark_def split: if_splits intro!: psubset_card_mono)

lemma mark_uses_grows: "fold (mark_value f defs) vs (live, stack) = (live', stack') \<Longrightarrow>
    live' = live \<and> stack' = stack \<or> card (set (positions f) - live') < card (set (positions f) - live)"
proof (induction vs arbitrary: live stack)
  case (Cons v vs)
  obtain l s where 1: "mark_value f defs v (live, stack) = (l, s)" by fastforce
  have "l = live \<and> s = stack \<or> card (set (positions f) - l) < card (set (positions f) - live)"
    using 1 mark_grows by (auto simp: mark_value_def split: option.splits)
  moreover have "live' = l \<and> stack' = s \<or> card (set (positions f) - live') < card (set (positions f) - l)"
    by (rule Cons.IH) (use Cons.prems 1 in simp)
  ultimately show ?case by (elim disjE) auto
qed simp

function mark_live :: "ir_function \<Rightarrow> (string \<rightharpoonup> position) \<Rightarrow> position set \<Rightarrow> position list \<Rightarrow> position set" where
  "mark_live f defs live [] = live"
| "mark_live f defs live (p # stack) =
     (let (live', stack') = mark_uses f defs (operation_at f p) (live, stack) in mark_live f defs live' stack')"
  by pat_completeness auto
termination
proof (relation "inv_image (less_than <*lex*> less_than) (\<lambda>(f, defs, live, stack). (card (set (positions f) - live), length stack))", goal_cases)
  case (2 f defs live p stack x live' stack')
  then have "fold (mark_value f defs) (operation_uses (operation_at f p)) (live, stack) = (live', stack')"
    by (simp add: mark_uses_def)
  from mark_uses_grows [OF this] show ?case by auto
qed (simp add: wf_inv_image wf_lex_prod)

definition live_operations :: "ir_function \<Rightarrow> position set" where
  "live_operations f = (let (live, stack) = mark_roots f in mark_live f (definition_table f) live stack)"

definition retain_live :: "position set \<Rightarrow> nat \<times> ir_block \<Rightarrow> pass_result \<Rightarrow> ((nat \<times> ir_block) \<times> pass_result) option" where
  "retain_live live ib r = (case ib of (bi, b) \<Rightarrow>
     let retained = map snd (filter (\<lambda>(oi, op). (bi, oi) \<in> live) (enumerate 0 (bl_operations b)));
         removed = length (bl_operations b) - length retained
     in Some ((bi, b\<lparr>bl_operations := retained\<rparr>),
          if removed = 0 then r else touch_block (bl_name b) (r\<lparr>pr_operations_removed := pr_operations_removed r + removed\<rparr>)))"

definition dead_code_elimination_pass :: function_pass where
  "dead_code_elimination_pass f m =
     map_option (\<lambda>(blocks, r). (r\<lparr>pr_changed := pr_operations_removed r \<noteq> 0\<rparr>, f\<lparr>fn_blocks := map snd blocks\<rparr>, m))
       (rewrite_list (retain_live (live_operations f)) (enumerate 0 (fn_blocks f)) (no_result Scope_operations))"

section \<open>Simplification of the control-flow graph\<close>

text \<open>The edges into a block: the number of the predecessor and of its successor.\<close>

definition incoming_edges :: "ir_function \<Rightarrow> string \<Rightarrow> position list" where
  "incoming_edges f name =
     concat (map (\<lambda>(pi, p). map (Pair pi) (filter (\<lambda>si. block_targets p ! si = name) [0..<length (block_targets p)]))
       (enumerate 0 (fn_blocks f)))"

text \<open>The chain of replacements from a value, cut where it would repeat.\<close>

function canonical :: "(string \<times> string) list \<Rightarrow> string set \<Rightarrow> string \<Rightarrow> string" where
  "canonical reps seen v =
     (case map_of reps v of
        None \<Rightarrow> v
      | Some w \<Rightarrow> if w = v \<or> v \<in> seen then v else canonical reps (insert v seen) w)"
  by pat_completeness auto
termination
proof (relation "measure (\<lambda>(reps, seen, v). card (fst ` set reps - seen))", goal_cases)
  case (2 reps seen v w)
  then have "fst ` set reps - insert v seen \<subset> fst ` set reps - seen" by (force dest: map_of_SomeD)
  then have "card (fst ` set reps - insert v seen) < card (fst ` set reps - seen)" by (rule psubset_card_mono [rotated]) simp
  then show ?case by simp
qed simp

declare canonical.simps [simp del]

text \<open>\<open>emplace\<close> keeps the first argument of a parameter name, as \<open>map_of\<close> finds it.\<close>

definition replacement_table :: "value_decl list \<Rightarrow> string list \<Rightarrow> (string \<times> string) list" where
  "replacement_table ps args = zip (map vd_name ps) args"

definition replace_value :: "(string \<times> string) list \<Rightarrow> string \<Rightarrow> string" where
  "replace_value reps v = (case map_of reps v of None \<Rightarrow> v | Some w \<Rightarrow> canonical reps {} w)"

definition jump_arguments :: "operation \<Rightarrow> string list" where
  "jump_arguments op = (case op_successor_arguments op of [] \<Rightarrow> [] | args # _ \<Rightarrow> args)"

text \<open>The predecessor a block can be merged into: its only edge comes from a jump with an argument per parameter.\<close>

definition merge_predecessor :: "ir_function \<Rightarrow> nat \<Rightarrow> nat option" where
  "merge_predecessor f bi =
     (let b = fn_blocks f ! bi
      in case incoming_edges f (bl_name b) of
           [(pi, si)] \<Rightarrow>
             let p = fn_blocks f ! pi; jump = last (bl_operations p)
             in if pi \<noteq> bi \<and> op_opcode jump = ''jump'' \<and> length (op_successors jump) = 1 \<and> si = 0 \<and>
                   length (jump_arguments jump) = length (bl_parameters b)
                then Some pi else None
         | _ \<Rightarrow> None)"

definition remove_at :: "nat \<Rightarrow> 'a list \<Rightarrow> 'a list" where
  "remove_at i xs = take i xs @ drop (Suc i) xs"

definition merge_blocks :: "ir_function \<Rightarrow> nat \<Rightarrow> nat \<Rightarrow> ir_function" where
  "merge_blocks f pi bi =
     (let b = fn_blocks f ! bi; jump = last (bl_operations (fn_blocks f ! pi));
          reps = replacement_table (bl_parameters b) (jump_arguments jump);
          blocks = map (\<lambda>c. c\<lparr>bl_operations := map (map_uses (replace_value reps)) (bl_operations c)\<rparr>) (fn_blocks f);
          p = blocks ! pi;
          p' = p\<lparr>bl_operations := butlast (bl_operations p) @ bl_operations (blocks ! bi)\<rparr>
      in f\<lparr>fn_blocks := remove_at bi (blocks[pi := p'])\<rparr>)"

definition find_merge :: "ir_function \<Rightarrow> (nat \<times> nat) option" where
  "find_merge f = (case find (\<lambda>bi. merge_predecessor f bi \<noteq> None) [1..<length (fn_blocks f)] of
     None \<Rightarrow> None | Some bi \<Rightarrow> Some (the (merge_predecessor f bi), bi))"

lemma find_merge_bound: "find_merge f = Some (pi, bi) \<Longrightarrow> bi < length (fn_blocks f)"
  by (auto simp: find_merge_def dest: find_Some_in split: option.splits)

lemma length_merge_blocks: "bi < length (fn_blocks f) \<Longrightarrow> length (fn_blocks (merge_blocks f pi bi)) < length (fn_blocks f)"
  by (simp add: merge_blocks_def Let_def remove_at_def)

function merge_straight_lines ::
  "(string set \<Rightarrow> string list) \<Rightarrow> ir_function \<Rightarrow> pass_result \<Rightarrow> analysis_manager \<Rightarrow> pass_outcome option" where
  "merge_straight_lines enum_set f r m =
     (case find_merge f of
        None \<Rightarrow> Some (r, f, m)
      | Some (pi, bi) \<Rightarrow>
          (let f' = merge_blocks f pi bi;
               r' = touch_block (bl_name (fn_blocks f ! bi)) (touch_block (bl_name (fn_blocks f ! pi)) r)
           in case invalidate_control_flow enum_set f' [] m of
                None \<Rightarrow> None
              | Some m' \<Rightarrow> merge_straight_lines enum_set f' (rewritten (r'\<lparr>pr_blocks_removed := pr_blocks_removed r' + 1\<rparr>)) m'))"
  by pat_completeness auto
termination
  by (relation "measure (\<lambda>(e, f, r, m). length (fn_blocks f))") (auto simp: length_merge_blocks find_merge_bound)

declare merge_straight_lines.simps [simp del]

definition simplify_cfg_pass :: "(string set \<Rightarrow> string list) \<Rightarrow> function_pass" where
  "simplify_cfg_pass enum_set f m =
     (if fn_blocks f = [] then Some (no_result Scope_control_flow, f, m)
      else let (cfg, m1) = manager_cfg f m;
               f1 = f\<lparr>fn_blocks := filter (\<lambda>b. bl_name b \<in> cg_reachable cfg) (fn_blocks f)\<rparr>;
               removed = length (fn_blocks f) - length (fn_blocks f1);
               r1 = (no_result Scope_control_flow)\<lparr>pr_blocks_removed := removed, pr_changed := removed \<noteq> 0\<rparr>
           in case (if removed \<noteq> 0 then invalidate_control_flow enum_set f1 [] m1 else Some m1) of
                None \<Rightarrow> None
              | Some m2 \<Rightarrow> merge_straight_lines enum_set f1 r1 m2)"

end
