(* ===== verification/Pass_Simulation.thy ===== *)
theory Pass_Simulation
  imports Interp_Monotone Scalar_Passes
begin

text \<open>
  The contract of a pass that rewrites operations one by one: whatever an operation computes without a diagnostic, its
  replacement computes as well, given what is known of the values at that point. A module whose functions
  are rewritten by such a pass runs as before, step by step.
\<close>

section \<open>Functions that differ in their operations\<close>

definition operations_of :: "ir_function \<Rightarrow> operation set" where
  "operations_of f = (\<Union>b \<in> set (fn_blocks f). set (bl_operations b))"

definition rewritten_block :: "(operation \<Rightarrow> operation \<Rightarrow> bool) \<Rightarrow> ir_block \<Rightarrow> ir_block \<Rightarrow> bool" where
  "rewritten_block R b b' \<longleftrightarrow> bl_name b' = bl_name b \<and> bl_parameters b' = bl_parameters b \<and>
     list_all2 (\<lambda>op op'. op' = op \<or> R op op') (bl_operations b) (bl_operations b')"

definition rewritten_function :: "(operation \<Rightarrow> operation \<Rightarrow> bool) \<Rightarrow> ir_function \<Rightarrow> ir_function \<Rightarrow> bool" where
  "rewritten_function R f f' \<longleftrightarrow> f'\<lparr>fn_blocks := []\<rparr> = f\<lparr>fn_blocks := []\<rparr> \<and> list_all2 (rewritten_block R) (fn_blocks f) (fn_blocks f')"

lemma find_block_from_same: "map bl_name bs' = map bl_name bs \<Longrightarrow> find_block_from i bs' n = find_block_from i bs n"
proof (induction bs arbitrary: bs' i)
  case (Cons b bs)
  obtain b' rest where r: "bs' = b' # rest" "bl_name b' = bl_name b" "map bl_name rest = map bl_name bs" using Cons.prems by auto
  show ?case using Cons.IH [OF r(3), of "Suc i"] r(2) by (simp add: r(1))
qed simp

lemma rewritten_names:
  assumes "rewritten_function R f f'"
  shows "map bl_name (fn_blocks f') = map bl_name (fn_blocks f)"
proof -
  have "list_all2 (\<lambda>b b'. bl_name b' = bl_name b) (fn_blocks f) (fn_blocks f')"
    using assms by (auto simp: rewritten_function_def rewritten_block_def elim: list_all2_mono)
  then show ?thesis by (induction rule: list_all2_induct) auto
qed

lemma rewritten_parts:
  assumes "rewritten_function R f f'"
  shows "fn_name f' = fn_name f" "fn_is_external f' = fn_is_external f" "fn_is_signature f' = fn_is_signature f"
    "fn_return_aggregate_kind f' = fn_return_aggregate_kind f" "fn_return_aggregate_name f' = fn_return_aggregate_name f"
    "fn_return_owned f' = fn_return_owned f" "fn_parameters f' = fn_parameters f" "returns_aggregate f' = returns_aggregate f"
proof -
  have "f'\<lparr>fn_blocks := []\<rparr> = f\<lparr>fn_blocks := []\<rparr>" using assms by (simp add: rewritten_function_def)
  then show "fn_name f' = fn_name f" "fn_is_external f' = fn_is_external f" "fn_is_signature f' = fn_is_signature f"
    "fn_return_aggregate_kind f' = fn_return_aggregate_kind f" "fn_return_aggregate_name f' = fn_return_aggregate_name f"
    "fn_return_owned f' = fn_return_owned f" "fn_parameters f' = fn_parameters f" "returns_aggregate f' = returns_aggregate f"
    by (cases f; cases f'; simp add: returns_aggregate_def)+
qed

lemma find_block_rewritten: "rewritten_function R f f' \<Longrightarrow> find_block f' = find_block f"
  by (intro ext) (simp only: find_block_def rewritten_parts find_block_from_same [OF rewritten_names])

lemma exec_jump_rewritten: "rewritten_function R f f' \<Longrightarrow> exec_jump f' = exec_jump f"
  by (intro ext) (simp only: exec_jump_def find_block_rewritten)

lemma finish_return_rewritten: "rewritten_function R f f' \<Longrightarrow> finish_return cfg f' = finish_return cfg f"
  by (intro ext) (simp only: finish_return_def rewritten_parts)

lemma exec_return_rewritten: "rewritten_function R f f' \<Longrightarrow> exec_return cfg f' = exec_return cfg f"
  by (intro ext) (simp only: exec_return_def rewritten_parts finish_return_rewritten)

lemma reserve_result_rewritten: "rewritten_function R f f' \<Longrightarrow> reserve_result cfg f' = reserve_result cfg f"
  by (intro ext) (simp only: reserve_result_def rewritten_parts)

text \<open>A module whose functions were rewritten one by one.\<close>

definition rewritten_module :: "(ir_function \<Rightarrow> bool) \<Rightarrow> (ir_function \<Rightarrow> operation \<Rightarrow> operation \<Rightarrow> bool) \<Rightarrow> ir_module \<Rightarrow> ir_module \<Rightarrow> bool" where
  "rewritten_module A R m m' \<longleftrightarrow> m'\<lparr>md_functions := []\<rparr> = m\<lparr>md_functions := []\<rparr> \<and>
     list_all2 (\<lambda>f f'. A f \<and> rewritten_function (R f) f f') (md_functions m) (md_functions m')"

definition runs_in_step :: "interp_config \<Rightarrow> interp_config \<Rightarrow> bool" where
  "runs_in_step cfg cfg' \<longleftrightarrow> agrees cfg cfg' \<and> ic_options cfg' = ic_options cfg"

section \<open>One operation at a time\<close>

text \<open>How a list of operations ends well: by a return, a transfer of control or after a value.\<close>

lemma exec_step_iff:
  assumes quiet: "en_diagnostics s1 = [] \<or> (\<exists>i vs. t = Transferred i vs)"
  shows "exec_operations cfg c f r (op # ops) env s = Inr ((t, env1), s1) \<longleftrightarrow>
    \<not> en_steps s + 1 > io_max_steps (ic_options cfg) \<and>
    (if op_opcode op = ''return'' then \<exists>v. exec_return cfg f r env op (tick s) = Inr (v, s1) \<and> t = Returned v \<and> env1 = env
     else if op_opcode op = ''unreachable'' then False
     else if op_opcode op \<in> {''jump'', ''branch''} then exec_jump f env op (tick s) = Inr (t, s1) \<and> env1 = env
     else \<exists>v s2. evaluate cfg c env op (tick s) = Inr (v, s2) \<and> en_diagnostics s2 = [] \<and>
       (if op_result op = [] then exec_operations cfg c f r ops env s2 = Inr ((t, env1), s1)
        else \<exists>w. v = Some w \<and> exec_operations cfg c f r ops (env(op_result op \<mapsto> w)) s2 = Inr ((t, env1), s1)))"
    (is "?l \<longleftrightarrow> \<not> ?limit \<and> ?r")
proof (cases ?limit)
  case True
  then show ?thesis
    using quiet unfolding exec_operations.simps m_bind_tick if_P [OF True] fail_transfer_eq by (auto simp: add_diagnostic_def)
next
  case limit: False
  note unfold = exec_operations.simps m_bind_tick if_not_P [OF limit]
  show ?thesis
  proof (cases "op_opcode op = ''return''")
    case True
    then show ?thesis using limit unfolding unfold by (auto simp: returned_def m_bind_Inr m_return_def)
  next
    case ret: False
    show ?thesis
    proof (cases "op_opcode op = ''unreachable''")
      case True
      then show ?thesis using quiet unfolding unfold if_not_P [OF ret] if_P [OF True] fail_transfer_eq
        by (auto simp: add_diagnostic_def)
    next
      case unr: False
      show ?thesis
      proof (cases "op_opcode op \<in> {''jump'', ''branch''}")
        case True
        then show ?thesis using limit ret unr unfolding unfold
          by (simp only: if_False if_True) (auto simp: m_bind_Inr m_return_def)
      next
        case False
        show ?thesis
        proof (cases "evaluate cfg c env op (tick s)")
          case (Inl e)
          then show ?thesis unfolding unfold if_not_P [OF ret] if_not_P [OF unr] if_not_P [OF False] by (simp add: m_bind_def)
        next
          case (Inr r)
          obtain v s2 where r: "r = (v, s2)" by fastforce
          have l: "exec_operations cfg c f r' (op # ops) env s =
              (if en_diagnostics s2 \<noteq> [] then Inr ((Returned None, env), s2)
               else if op_result op = [] then exec_operations cfg c f r' ops env s2
               else case v of None \<Rightarrow> Inr ((Returned None, env), add_diagnostic (''operation '' @ quoted (op_opcode op) @ '' did not produce a value'') s2)
                 | Some w \<Rightarrow> exec_operations cfg c f r' ops (env(op_result op \<mapsto> w)) s2)" for r'
            unfolding unfold if_not_P [OF ret] if_not_P [OF unr] if_not_P [OF False]
            using Inr r by (simp add: m_bind_def [of "evaluate cfg c env op"] m_bind_def [of m_get] m_get_def m_return_def fail_transfer_eq split: option.split)
          show ?thesis
            unfolding l if_not_P [OF ret] if_not_P [OF unr] if_not_P [OF False] Inr r
            using limit quiet by (cases v) (auto simp: add_diagnostic_def)
        qed
      qed
    qed
  qed
qed

text \<open>How a block ends well: after its arguments are bound, by the end of its operations.\<close>

lemma exec_block_iff:
  assumes quiet: "en_diagnostics s1 = [] \<or> (\<exists>j ws. t = Transferred j ws)"
  shows "exec_block cfg c f r i vs env s = Inr ((t, env1), s1) \<longleftrightarrow>
    i < length (fn_blocks f) \<and> (length (bl_parameters (fn_blocks f ! i)) = length vs \<or> i = 0) \<and>
    (\<exists>b s2. (if i \<noteq> 0 then bind_block_arguments cfg (bl_parameters (fn_blocks f ! i)) vs env else m_return (Some env)) s = Inr (b, s2) \<and>
      (case b of None \<Rightarrow> t = Returned None \<and> env1 = env \<and> s1 = s2
       | Some env2 \<Rightarrow> t \<noteq> Fell_through \<and> exec_operations cfg c f r (bl_operations (fn_blocks f ! i)) env2 s2 = Inr ((t, env1), s1)))"
    (is "?l \<longleftrightarrow> ?r")
proof (cases "i \<ge> length (fn_blocks f)")
  case True
  then show ?thesis using quiet by (auto simp: exec_block_def fail_transfer_eq add_diagnostic_def)
next
  case index: False
  show ?thesis
  proof (cases "length (bl_parameters (fn_blocks f ! i)) \<noteq> length vs \<and> i \<noteq> 0")
    case True
    then show ?thesis using quiet index by (auto simp: exec_block_def fail_transfer_eq add_diagnostic_def)
  next
    case count: False
    have fell: "m_bind (returned (m_fail message)) (\<lambda>t'. m_return (t', e)) s2 \<noteq> Inr ((t, env1), s1)" for message e s2
      using quiet by (auto simp: fail_transfer_eq add_diagnostic_def)
    have rest: "m_bind m (\<lambda>(t, values''). case t of
          Fell_through \<Rightarrow> m_bind (returned (m_fail message)) (\<lambda>t'. m_return (t', values''))
        | _ \<Rightarrow> m_return (t, values'')) s2 = Inr ((t, env1), s1) \<longleftrightarrow> t \<noteq> Fell_through \<and> m s2 = Inr ((t, env1), s1)" for m message s2
    proof -
      have one: "(case a of Fell_through \<Rightarrow> m_bind (returned (m_fail message)) (\<lambda>t'. m_return (t', e)) | _ \<Rightarrow> m_return (a, e)) s3 =
          Inr ((t, env1), s1) \<longleftrightarrow> a = t \<and> e = env1 \<and> s3 = s1 \<and> t \<noteq> Fell_through" for a e s3
        using fell by (cases a) (auto simp: m_return_def)
      show ?thesis unfolding m_bind_Inr using one by (auto simp: split_beta)
    qed
    show ?thesis
      unfolding exec_block_def Let_def if_not_P [OF index] if_not_P [OF count] m_bind_Inr [of _ _ s]
      using index count rest by (fastforce simp: m_return_def split: option.splits)
  qed
qed

section \<open>Modules that differ in their functions\<close>

lemma rewritten_module_parts:
  assumes "rewritten_module A R m m'"
  shows "same_declarations m m'" "md_globals m' = md_globals m" "list_all2 (\<lambda>f f'. A f \<and> rewritten_function (R f) f f') (md_functions m) (md_functions m')"
proof -
  have "m'\<lparr>md_functions := []\<rparr> = m\<lparr>md_functions := []\<rparr>" using assms by (simp add: rewritten_module_def)
  then show "same_declarations m m'" "md_globals m' = md_globals m" by (cases m; cases m'; simp add: same_declarations_def)+
qed (use assms in \<open>simp add: rewritten_module_def\<close>)

lemma find_function_rewritten:
  assumes "rewritten_module A R m m'"
  shows "case find_function m name of None \<Rightarrow> find_function m' name = None
    | Some f \<Rightarrow> \<exists>f'. find_function m' name = Some f' \<and> A f \<and> rewritten_function (R f) f f'"
proof -
  have "list_all2 (\<lambda>f f'. fn_name f' = fn_name f \<and> A f \<and> rewritten_function (R f) f f') (md_functions m) (md_functions m')"
    using rewritten_module_parts(3) [OF assms] rewritten_parts(1) by (auto elim!: list_all2_mono)
  then show ?thesis unfolding find_function_def
    by (induction rule: list_all2_induct) (auto split: option.splits)
qed

lemma construct_rewritten:
  assumes "rewritten_module A R m m'"
  shows "construct m' eg store host = construct m eg store host"
proof -
  have "global_size m' g = global_size m g" for g
    unfolding global_size_def aggregate_same(3) [OF rewritten_module_parts(1) [OF assms]] ..
  then have "init_global m' eg g = init_global m eg g" for g by (intro ext) (simp only: init_global_def)
  then have "init_global m' eg = init_global m eg" by (rule ext)
  then show ?thesis by (simp only: construct_def rewritten_module_parts(2) [OF assms])
qed

section \<open>The contract\<close>

locale lockstep_pass =
  fixes admissible :: "ir_function \<Rightarrow> bool"
    and known :: "ir_function \<Rightarrow> environment \<Rightarrow> bool"
    and replaces :: "ir_function \<Rightarrow> operation \<Rightarrow> operation \<Rightarrow> bool"
  assumes known_parameters: "admissible f \<Longrightarrow> known f (bind_parameters (fn_parameters f) vs Map.empty)"
    and known_block_parameter: "admissible f \<Longrightarrow> b \<in> set (fn_blocks f) \<Longrightarrow> p \<in> set (bl_parameters b) \<Longrightarrow> known f env \<Longrightarrow>
      known f (env(vd_name p \<mapsto> v))"
    and known_result: "admissible f \<Longrightarrow> op \<in> operations_of f \<Longrightarrow> known f env \<Longrightarrow> op_result op \<noteq> [] \<Longrightarrow>
      \<not> is_terminator op \<Longrightarrow> evaluate cfg c env op s = Inr (Some v, s') \<Longrightarrow> en_diagnostics s' = [] \<Longrightarrow> known f (env(op_result op \<mapsto> v))"
    and replaces_result: "replaces f op op' \<Longrightarrow> op_result op' = op_result op \<and> is_terminator op' = is_terminator op"
    and replaces_evaluate: "admissible f \<Longrightarrow> op \<in> operations_of f \<Longrightarrow> known f env \<Longrightarrow> replaces f op op' \<Longrightarrow>
      \<not> is_terminator op \<Longrightarrow> refines s (evaluate cfg c env op) (evaluate cfg c env op')"
    and replaces_jump: "admissible f \<Longrightarrow> op \<in> operations_of f \<Longrightarrow> known f env \<Longrightarrow> replaces f op op' \<Longrightarrow> is_terminator op \<Longrightarrow>
      op_opcode op \<in> {''jump'', ''branch''} \<and> op_opcode op' \<in> {''jump'', ''branch''} \<and>
      (\<forall>g s t s'. en_diagnostics s' = [] \<or> (\<exists>i vs. t = Transferred i vs) \<longrightarrow>
        exec_jump g env op s = Inr (t, s') \<longrightarrow> exec_jump g env op' s = Inr (t, s'))"
begin

lemma operation_step:
  assumes c: "callee_refines c c'" and cfg: "runs_in_step cfg cfg'" and ok: "admissible f" "op \<in> operations_of f" "known f env"
    and step: "op' = op \<or> replaces f op op'" "\<not> is_terminator op"
    and run: "evaluate cfg c env op s = Inr (v, s1)" "en_diagnostics s = []" "en_diagnostics s1 = []"
  shows "evaluate cfg' c' env op' s = Inr (v, s1)"
proof -
  have "evaluate cfg' c' env op' = evaluate cfg c' env op'" using cfg evaluate_agree [of cfg cfg'] by (simp add: runs_in_step_def)
  moreover have "refines s (evaluate cfg c env op) (evaluate cfg c env op')"
    using step(1) by (elim disjE) (simp add: refines_refl, rule replaces_evaluate [OF ok _ step(2)])
  then have "evaluate cfg c env op' s = Inr (v, s1)" using run by (simp add: refines_def)
  then have "evaluate cfg c' env op' s = Inr (v, s1)" using evaluate_refines [OF c run(2)] run(3) by (simp add: refines_def)
  ultimately show ?thesis by simp
qed

lemma operations_step:
  assumes c: "callee_refines c c'" and cfg: "runs_in_step cfg cfg'" and f: "admissible f" "rewritten_function (replaces f) f f'"
  shows "exec_operations cfg c f r ops env s = Inr ((t, env1), s1) \<Longrightarrow> en_diagnostics s = [] \<Longrightarrow>
    en_diagnostics s1 = [] \<or> (\<exists>i vs. t = Transferred i vs) \<Longrightarrow> set ops \<subseteq> operations_of f \<Longrightarrow>
    list_all2 (\<lambda>op op'. op' = op \<or> replaces f op op') ops ops' \<Longrightarrow> known f env \<Longrightarrow>
    exec_operations cfg' c' f' r ops' env s = Inr ((t, env1), s1) \<and> en_diagnostics s1 = [] \<and> known f env1"
proof (induction ops arbitrary: ops' env s)
  case Nil
  then show ?case by (auto simp: m_return_def)
next
  case (Cons op ops)
  obtain op' ops2 where ops': "ops' = op' # ops2" and R: "op' = op \<or> replaces f op op'"
    and rest: "list_all2 (\<lambda>op op'. op' = op \<or> replaces f op op') ops ops2"
    using Cons.prems(5) by (auto simp: list_all2_Cons1)
  have op: "op \<in> operations_of f" "set ops \<subseteq> operations_of f" using Cons.prems(4) by auto
  have same: "op_result op' = op_result op" "is_terminator op' = is_terminator op" using R replaces_result by auto
  have opts: "ic_options cfg' = ic_options cfg" and agree: "agrees cfg cfg'" using cfg by (simp_all add: runs_in_step_def)
  have d: "en_diagnostics (tick s) = []" using Cons.prems(2) by (simp add: tick_def)
  note run = Cons.prems(1) [unfolded exec_step_iff [OF Cons.prems(3)]]
  have limit: "\<not> en_steps s + 1 > io_max_steps (ic_options cfg')" using run opts by simp
  have goal: "exec_operations cfg' c' f' r ops' env s = Inr ((t, env1), s1)"
    if "if op_opcode op' = ''return'' then \<exists>v. exec_return cfg' f' r env op' (tick s) = Inr (v, s1) \<and> t = Returned v \<and> env1 = env
     else if op_opcode op' = ''unreachable'' then False
     else if op_opcode op' \<in> {''jump'', ''branch''} then exec_jump f' env op' (tick s) = Inr (t, s1) \<and> env1 = env
     else \<exists>v s2. evaluate cfg' c' env op' (tick s) = Inr (v, s2) \<and> en_diagnostics s2 = [] \<and>
       (if op_result op' = [] then exec_operations cfg' c' f' r ops2 env s2 = Inr ((t, env1), s1)
        else \<exists>w. v = Some w \<and> exec_operations cfg' c' f' r ops2 (env(op_result op' \<mapsto> w)) s2 = Inr ((t, env1), s1))"
    unfolding ops' exec_step_iff [OF Cons.prems(3)] using limit that by blast
  show ?case
  proof (cases "is_terminator op")
    case ends: True
    show ?thesis
    proof (cases "op_opcode op \<in> {''jump'', ''branch''}")
      case True
      then have j: "exec_jump f env op (tick s) = Inr (t, s1)" "env1 = env" using run by auto
      have d1: "en_diagnostics s1 = []" using Cons.prems(3) d exec_jump_same [of f env op "tick s"] j(1) by fastforce
      have j': "exec_jump f env op' (tick s) = Inr (t, s1) \<and> op_opcode op' \<in> {''jump'', ''branch''}"
      proof (cases "op' = op")
        case False
        then show ?thesis
          using R replaces_jump [OF f(1) op(1) Cons.prems(6) _ ends] Cons.prems(3) j(1) by blast
      qed (use j True in simp)
      then have "exec_operations cfg' c' f' r ops' env s = Inr ((t, env1), s1)"
        using j(2) by (intro goal) (auto simp: exec_jump_rewritten [OF f(2)])
      then show ?thesis using d1 j(2) Cons.prems(6) by simp
    next
      case False
      then have ret: "op_opcode op = ''return''" using run ends by (auto simp: is_terminator_def split: if_splits)
      have same: "op' = op" using R replaces_jump [OF f(1) op(1) Cons.prems(6) _ ends] False by blast
      obtain v where v: "exec_return cfg f r env op (tick s) = Inr (v, s1)" "t = Returned v" "env1 = env"
        using run ret by auto
      have "exec_operations cfg' c' f' r ops' env s = Inr ((t, env1), s1)"
        using ret v same by (intro goal) (simp add: exec_return_rewritten [OF f(2)] call_agree [OF agree])
      then show ?thesis using Cons.prems(3,6) v by simp
    qed
  next
    case False
    then have kind: "op_opcode op \<notin> {''return'', ''unreachable'', ''jump'', ''branch''}" "op_opcode op' \<notin> {''return'', ''unreachable'', ''jump'', ''branch''}"
      using same(2) by (auto simp: is_terminator_def)
    then obtain v s2 where e: "evaluate cfg c env op (tick s) = Inr (v, s2)" "en_diagnostics s2 = []"
      and onward: "if op_result op = [] then exec_operations cfg c f r ops env s2 = Inr ((t, env1), s1)
        else \<exists>w. v = Some w \<and> exec_operations cfg c f r ops (env(op_result op \<mapsto> w)) s2 = Inr ((t, env1), s1)"
      using run by auto
    have e': "evaluate cfg' c' env op' (tick s) = Inr (v, s2)"
      by (rule operation_step [OF c cfg f(1) op(1) Cons.prems(6) R False e(1) d e(2)])
    show ?thesis
    proof (cases "op_result op = []")
      case True
      then have "exec_operations cfg' c' f' r ops2 env s2 = Inr ((t, env1), s1) \<and> en_diagnostics s1 = [] \<and> known f env1"
        using onward by (intro Cons.IH [OF _ e(2) Cons.prems(3) op(2) rest Cons.prems(6)]) simp
      then show ?thesis using goal kind(2) e e(2) e' same(1) True by auto
    next
      case False
      then obtain w where w: "v = Some w" "exec_operations cfg c f r ops (env(op_result op \<mapsto> w)) s2 = Inr ((t, env1), s1)"
        using onward by auto
      have "known f (env(op_result op \<mapsto> w))"
        using known_result [OF f(1) op(1) Cons.prems(6) False \<open>\<not> is_terminator op\<close>] e w(1) by blast
      then have "exec_operations cfg' c' f' r ops2 (env(op_result op \<mapsto> w)) s2 = Inr ((t, env1), s1) \<and> en_diagnostics s1 = [] \<and> known f env1"
        by (rule Cons.IH [OF w(2) e(2) Cons.prems(3) op(2) rest])
      then show ?thesis using goal kind(2) e e(2) e' same(1) False w(1) by auto
    qed
  qed
qed


lemma known_bound:
  assumes "admissible f" "b \<in> set (fn_blocks f)"
  shows "set ds \<subseteq> set (bl_parameters b) \<Longrightarrow> known f env \<Longrightarrow> bind_block_arguments cfg ds vs env s = Inr (Some env', s') \<Longrightarrow> known f env'"
proof (induction ds arbitrary: vs env s)
  case (Cons d ds)
  show ?case
  proof (cases vs)
    case vs: (Cons v rest)
    note run = Cons.prems(3) [unfolded vs bind_block_arguments.simps m_bind_Inr]
    then obtain w s1 where "m_ok w (m_return None) (\<lambda>v'. bind_block_arguments cfg ds rest (env(vd_name d \<mapsto> v'))) s1 = Inr (Some env', s')"
      by blast
    then show ?thesis
      using Cons.IH known_block_parameter [OF assms, of d env] Cons.prems(1,2) by (cases w) (auto simp: m_return_def)
  qed (use Cons.prems in \<open>auto simp: m_return_def\<close>)
qed (auto simp: m_return_def)

lemma block_step:
  assumes c: "callee_refines c c'" and cfg: "runs_in_step cfg cfg'" and f: "admissible f" "rewritten_function (replaces f) f f'"
    and run: "exec_block cfg c f r i vs env s = Inr ((t, env1), s1)" "en_diagnostics s = []"
    and quiet: "en_diagnostics s1 = [] \<or> (\<exists>j ws. t = Transferred j ws)" and known: "known f env"
  shows "exec_block cfg' c' f' r i vs env s = Inr ((t, env1), s1) \<and> en_diagnostics s1 = [] \<and> known f env1"
proof -
  let ?b = "fn_blocks f ! i" and ?b' = "fn_blocks f' ! i"
  let ?bind = "\<lambda>cfg b. if i \<noteq> 0 then bind_block_arguments cfg (bl_parameters b) vs env else m_return (Some env)"
  obtain e s2 where i: "i < length (fn_blocks f)" "length (bl_parameters ?b) = length vs \<or> i = 0"
    and e: "?bind cfg ?b s = Inr (e, s2)"
    and onward: "case e of None \<Rightarrow> t = Returned None \<and> env1 = env \<and> s1 = s2
       | Some env2 \<Rightarrow> t \<noteq> Fell_through \<and> exec_operations cfg c f r (bl_operations ?b) env2 s2 = Inr ((t, env1), s1)"
    using run(1) [unfolded exec_block_iff [OF quiet]] by blast
  have agree: "agrees cfg cfg'" using cfg by (simp add: runs_in_step_def)
  have b': "rewritten_block (replaces f) ?b ?b'" "length (fn_blocks f') = length (fn_blocks f)"
    using f(2) i(1) by (auto simp: rewritten_function_def list_all2_conv_all_nth)
  have params: "bl_parameters ?b' = bl_parameters ?b" using b'(1) by (simp add: rewritten_block_def)
  have bind: "?bind cfg' ?b' = ?bind cfg ?b" unfolding params bind_agree(2) [OF agree] ..
  have intro: "exec_block cfg' c' f' r i vs env s = Inr ((t, env1), s1)"
    if "case e of None \<Rightarrow> t = Returned None \<and> env1 = env \<and> s1 = s2
       | Some env2 \<Rightarrow> t \<noteq> Fell_through \<and> exec_operations cfg' c' f' r (bl_operations ?b') env2 s2 = Inr ((t, env1), s1)"
    unfolding exec_block_iff [OF quiet] bind b'(2) unfolding params using i e that by blast
  show ?thesis
  proof (cases e)
    case None
    then show ?thesis using intro onward quiet known by auto
  next
    case (Some env2)
    have k: "known f env2"
      using e Some known known_bound [OF f(1) nth_mem [OF i(1)] subset_refl known] by (auto simp: m_return_def split: if_splits)
    have d: "en_diagnostics s2 = []"
      using e Some run(2) bind_block_arguments_quiet [of cfg "bl_parameters ?b" vs env s env2 s2]
      by (auto simp: m_return_def split: if_splits)
    have "set (bl_operations ?b) \<subseteq> operations_of f" using nth_mem [OF i(1)] by (auto simp: operations_of_def)
    moreover have "list_all2 (\<lambda>op op'. op' = op \<or> replaces f op op') (bl_operations ?b) (bl_operations ?b')"
      using b'(1) by (simp add: rewritten_block_def)
    ultimately have "exec_operations cfg' c' f' r (bl_operations ?b') env2 s2 = Inr ((t, env1), s1) \<and> en_diagnostics s1 = [] \<and> known f env1"
      using onward Some by (intro operations_step [OF c cfg f _ d quiet _ _ k]) auto
    then show ?thesis using intro onward Some by auto
  qed
qed

lemma blocks_step:
  assumes c: "callee_refines c c'" and cfg: "runs_in_step cfg cfg'" and f: "admissible f" "rewritten_function (replaces f) f f'"
  shows "known f env \<Longrightarrow> en_diagnostics s = [] \<Longrightarrow>
    refines s (exec_blocks cfg c f r fuel i vs env) (exec_blocks cfg' c' f' r fuel i vs env)"
proof (induction fuel arbitrary: s i vs env)
  case 0
  show ?case by (simp add: refines_def m_throw_def)
next
  case (Suc fuel)
  show ?case
    unfolding exec_blocks.simps refines_def
  proof (intro allI impI)
    fix x s'
    assume run: "m_bind (exec_block cfg c f r i vs env) (\<lambda>(t, values'). case t of
        Transferred target vs \<Rightarrow> exec_blocks cfg c f r fuel target vs values'
      | Returned v \<Rightarrow> m_return v | Fell_through \<Rightarrow> m_return None) s = Inr (x, s')" and d: "en_diagnostics s' = []"
    then obtain t env1 s1 where b: "exec_block cfg c f r i vs env s = Inr ((t, env1), s1)"
        and rest: "(case t of Transferred target vs \<Rightarrow> exec_blocks cfg c f r fuel target vs env1
          | Returned v \<Rightarrow> m_return v | Fell_through \<Rightarrow> m_return None) s1 = Inr (x, s')"
      by (auto simp: m_bind_Inr)
    have "en_diagnostics s1 = [] \<or> (\<exists>j ws. t = Transferred j ws)" using rest d by (cases t) (auto simp: m_return_def)
    from block_step [OF c cfg f b Suc.prems(2) this Suc.prems(1)]
    have b': "exec_block cfg' c' f' r i vs env s = Inr ((t, env1), s1)" and d1: "en_diagnostics s1 = []" and k: "known f env1" by auto
    have "exec_blocks cfg' c' f' r fuel j ws env1 s1 = Inr (x, s')" if "t = Transferred j ws" for j ws
      using Suc.IH [OF k d1, of j ws] rest that d by (simp add: refines_def)
    then show "m_bind (exec_block cfg' c' f' r i vs env) (\<lambda>(t, values'). case t of
        Transferred target vs \<Rightarrow> exec_blocks cfg' c' f' r fuel target vs values'
      | Returned v \<Rightarrow> m_return v | Fell_through \<Rightarrow> m_return None) s = Inr (x, s')"
      using rest b' by (cases t) (auto simp: m_bind_Inr)
  qed
qed

lemma call_function_step:
  assumes c: "callee_refines c c'" and cfg: "runs_in_step cfg cfg'" and f: "admissible f" "rewritten_function (replaces f) f f'"
    and d: "en_diagnostics s = []"
  shows "refines s (call_function cfg c f vs) (call_function cfg' c' f' vs)"
proof -
  have agree: "agrees cfg cfg'" and opts: "ic_options cfg' = ic_options cfg" using cfg by (simp_all add: runs_in_step_def)
  have fuel: "loop_fuel cfg' = loop_fuel cfg" by (simp add: loop_fuel_def opts)
  have externals: "ic_externals cfg' = ic_externals cfg" using agree by (simp add: agrees_def)
  have ifs: "refines t (if b then m else n) (if b then m' else n')"
    if "b \<Longrightarrow> refines t m m'" "\<not> b \<Longrightarrow> refines t n n'" for t b m m' n n' using that by simp
  have ok: "refines t (m_ok x m k) (m_ok x m k')" if "\<And>y. x = Some y \<Longrightarrow> refines t (k y) (k' y)" for t x m k k'
    using that by (cases x) (simp_all add: refines_refl)
  show ?thesis
    unfolding call_function_def rewritten_parts [OF f(2)] reserve_result_rewritten [OF f(2)] finish_return_rewritten [OF f(2)]
      call_agree [OF agree] bind_agree [OF agree] fuel externals
    apply (intro refines_bind_same ok ifs refines_refl blocks_step [OF c cfg f] known_parameters f(1))
    using d reserve_result_quiet prepare_arguments_quiet by fastforce
qed

lemma call_at_step:
  assumes "rewritten_module admissible replaces (ic_module cfg) (ic_module cfg')" "runs_in_step cfg cfg'"
  shows "callee_refines (call_at cfg n) (call_at cfg' n)"
proof (induction n)
  case 0
  show ?case by (simp add: callee_refines_def refines_def m_fail_def)
next
  case (Suc n)
  have externals: "ic_externals cfg' = ic_externals cfg" using assms(2) by (simp add: runs_in_step_def agrees_def)
  show ?case
    unfolding callee_refines_def
  proof (intro allI impI)
    fix s :: engine and name vs assume d: "en_diagnostics s = []"
    show "refines s (call_at cfg (Suc n) name vs) (call_at cfg' (Suc n) name vs)"
    proof (cases "find_function (ic_module cfg) name")
      case None
      then have "find_function (ic_module cfg') name = None" using find_function_rewritten [OF assms(1), of name] by simp
      then show ?thesis using None by (simp add: externals refines_refl)
    next
      case (Some f)
      then obtain f' where f': "find_function (ic_module cfg') name = Some f'" "admissible f" "rewritten_function (replaces f) f f'"
        using find_function_rewritten [OF assms(1), of name] by auto
      show ?thesis using call_function_step [OF Suc.IH assms(2) f'(2,3) d] Some f'(1) by simp
    qed
  qed
qed

theorem execute_step:
  assumes "rewritten_module admissible replaces m m'"
    and run: "execute m options externals eg base fp store host name arguments = Inr (res, en')"
    and "ir_result_diagnostics res = []" and "en_diagnostics (fst (construct m eg store host)) = []"
  shows "execute m' options externals eg base fp store host name arguments = Inr (res, en')"
proof -
  obtain en gs where c: "construct m eg store host = (en, gs)" by fastforce
  let ?c = "make_config m options externals base fp gs" and ?c' = "make_config m' options externals base fp gs"
  have "callee_refines (call_at ?c (io_max_call_depth options)) (call_at ?c' (io_max_call_depth options))"
    using assms(1) rewritten_module_parts(1) [OF assms(1)]
    by (intro call_at_step) (simp_all add: make_config_def runs_in_step_def agrees_def)
  then have "refines en (call_at ?c (io_max_call_depth options) name arguments) (call_at ?c' (io_max_call_depth options) name arguments)"
    using assms(4) c by (simp add: callee_refines_def)
  moreover obtain v where "call_at ?c (io_max_call_depth options) name arguments en = Inr (v, en')"
      "en_diagnostics en' = []" "res = \<lparr>ir_result_value = v, ir_result_diagnostics = [], ir_result_steps = en_steps en'\<rparr>"
    using run assms(3) c by (auto simp: execute_def run_def make_config_def split: sum.splits)
  ultimately show ?thesis
    unfolding execute_def construct_rewritten [OF assms(1)] c by (auto simp: run_def refines_def make_config_def)
qed

end

end
