(* ===== verification/Fold_Props.thy ===== *)
theory Fold_Props
  imports Pass_Simulation Interp_Ops
begin

text \<open>
  Constant folding and branch folding keep what a module computes, where the operands of a folded operation have
  its type: the folded constant is what the interpreter computes, and a condition is its own literal.
\<close>

section \<open>Values with one definition\<close>

text \<open>The values a function defines, in order: its parameters, the parameters of its blocks and the results.\<close>

definition block_values :: "ir_block \<Rightarrow> string list" where
  "block_values b = map vd_name (bl_parameters b) @ filter (\<lambda>n. n \<noteq> []) (map op_result (bl_operations b))"

definition defined_values :: "ir_function \<Rightarrow> string list" where
  "defined_values f = map vd_name (fn_parameters f) @ concat (map block_values (fn_blocks f))"

lemma distinct_filter_map_same:
  "distinct (filter P (map h xs)) \<Longrightarrow> x \<in> set xs \<Longrightarrow> y \<in> set xs \<Longrightarrow> h x = h y \<Longrightarrow> P (h x) \<Longrightarrow> x = y"
proof (induction xs)
  case (Cons a xs)
  have "h a \<notin> h ` set xs" if "P (h a)" using Cons.prems(1) that by auto
  then show ?case using Cons by (auto split: if_splits) (metis imageI)+
qed simp

lemma distinct_concat_map_same:
  "distinct (concat (map g xs)) \<Longrightarrow> x \<in> set xs \<Longrightarrow> y \<in> set xs \<Longrightarrow> z \<in> set (g x) \<Longrightarrow> z \<in> set (g y) \<Longrightarrow> x = y"
  by (induction xs) auto

lemma distinct_concat_map_each: "distinct (concat (map g xs)) \<Longrightarrow> x \<in> set xs \<Longrightarrow> distinct (g x)"
  by (induction xs) auto

lemma same_operation:
  assumes "distinct (defined_values f)" "op \<in> operations_of f" "d \<in> operations_of f" "op_result op = op_result d" "op_result d \<noteq> []"
  shows "op = d"
proof -
  obtain b c where b: "b \<in> set (fn_blocks f)" "op \<in> set (bl_operations b)" and c: "c \<in> set (fn_blocks f)" "d \<in> set (bl_operations c)"
    using assms(2,3) by (auto simp: operations_of_def)
  have all: "distinct (concat (map block_values (fn_blocks f)))" using assms(1) by (simp add: defined_values_def)
  have "op_result op \<in> set (block_values b)" "op_result d \<in> set (block_values c)"
    using imageI [OF b(2), of op_result] imageI [OF c(2), of op_result] assms(4,5) by (simp_all add: block_values_def)
  then have "op_result d \<in> set (block_values b)" "op_result d \<in> set (block_values c)" using assms(4) by simp_all
  then have "b = c" by (rule distinct_concat_map_same [OF all b(1) c(1)])
  moreover have "distinct (filter (\<lambda>n. n \<noteq> []) (map op_result (bl_operations b)))"
    using distinct_concat_map_each [OF all b(1)] by (simp add: block_values_def)
  ultimately show ?thesis
    using distinct_filter_map_same [of "\<lambda>n. n \<noteq> []" op_result "bl_operations b" op d] b(2) c(2) assms(4,5) by simp
qed

lemma parameter_no_operation:
  assumes "distinct (defined_values f)" "d \<in> operations_of f" "op_result d \<noteq> []"
  shows "op_result d \<notin> vd_name ` set (fn_parameters f)"
    and "b \<in> set (fn_blocks f) \<Longrightarrow> op_result d \<notin> vd_name ` set (bl_parameters b)"
proof -
  obtain c where c: "c \<in> set (fn_blocks f)" "d \<in> set (bl_operations c)" using assms(2) by (auto simp: operations_of_def)
  have r: "op_result d \<in> set (block_values c)" using c assms(3) by (auto simp: block_values_def)
  show "op_result d \<notin> vd_name ` set (fn_parameters f)" using assms(1) r c(1) by (auto simp: defined_values_def)
  assume b: "b \<in> set (fn_blocks f)"
  have all: "distinct (concat (map block_values (fn_blocks f)))" using assms(1) by (simp add: defined_values_def)
  show "op_result d \<notin> vd_name ` set (bl_parameters b)"
  proof
    assume p: "op_result d \<in> vd_name ` set (bl_parameters b)"
    then have "op_result d \<in> set (block_values b)" by (auto simp: block_values_def)
    then have "b = c" by (rule distinct_concat_map_same [OF all b c(1) _ r])
    then have "distinct (block_values c)" "op_result d \<in> vd_name ` set (bl_parameters c)"
      using distinct_concat_map_each [OF all c(1)] p by auto
    then show False using c(2) assms(3) by (auto simp: block_values_def)
  qed
qed

text \<open>A declaration without blocks defines nothing.\<close>

definition single_definitions :: "ir_function \<Rightarrow> bool" where
  "single_definitions f \<longleftrightarrow> fn_blocks f = [] \<or> distinct (defined_values f)"

lemma single_distinct:
  "single_definitions f \<Longrightarrow> op \<in> operations_of f \<Longrightarrow> distinct (defined_values f)"
  "single_definitions f \<Longrightarrow> b \<in> set (fn_blocks f) \<Longrightarrow> distinct (defined_values f)"
  by (auto simp: single_definitions_def operations_of_def)

section \<open>Known constants\<close>

text \<open>\<open>C n k\<close> says that the value \<open>n\<close> is the constant \<open>k\<close>. What an environment holds for it is that constant.\<close>

definition knows :: "(string \<Rightarrow> int \<Rightarrow> bool) \<Rightarrow> ir_function \<Rightarrow> environment \<Rightarrow> bool" where
  "knows C f env \<longleftrightarrow> (\<forall>d \<in> operations_of f. \<forall>k v. is_integer (op_type d) \<longrightarrow> op_result d \<noteq> [] \<longrightarrow> C (op_result d) k \<longrightarrow>
     env (op_result d) = Some v \<longrightarrow> v = integer_value (op_type d) (word_of_int k))"

lemma knowsD:
  "knows C f env \<Longrightarrow> d \<in> operations_of f \<Longrightarrow> is_integer (op_type d) \<Longrightarrow> op_result d \<noteq> [] \<Longrightarrow> C (op_result d) k \<Longrightarrow>
   env (op_result d) = Some v \<Longrightarrow> v = integer_value (op_type d) (word_of_int k)"
  by (auto simp: knows_def)

lemma bind_parameters_None: "n \<notin> vd_name ` set ds \<Longrightarrow> env n = None \<Longrightarrow> bind_parameters ds vs env n = None"
  by (induction ds vs env rule: bind_parameters.induct) (auto simp: map_emplace_def split: option.splits)

lemma knows_parameters:
  assumes "single_definitions f"
  shows "knows C f (bind_parameters (fn_parameters f) vs Map.empty)"
  unfolding knows_def using bind_parameters_None [OF parameter_no_operation(1) [OF single_distinct(1) [OF assms]]] by fastforce

lemma knows_block_parameter:
  assumes "distinct (defined_values f)" "b \<in> set (fn_blocks f)" "p \<in> set (bl_parameters b)" "knows C f env"
  shows "knows C f (env(vd_name p \<mapsto> v))"
  unfolding knows_def
proof (intro ballI allI impI)
  fix d k w assume d: "d \<in> operations_of f" "is_integer (op_type d)" "op_result d \<noteq> []" "C (op_result d) k" "(env(vd_name p \<mapsto> v)) (op_result d) = Some w"
  then have "op_result d \<noteq> vd_name p" using parameter_no_operation(2) [OF assms(1) d(1,3) assms(2)] assms(3) by auto
  then show "w = integer_value (op_type d) (word_of_int k)" using knowsD [OF assms(4) d(1-4)] d(5) by simp
qed

lemma knows_result:
  assumes "distinct (defined_values f)" "op \<in> operations_of f" "knows C f env"
    and "\<And>k. is_integer (op_type op) \<Longrightarrow> C (op_result op) k \<Longrightarrow> v = integer_value (op_type op) (word_of_int k)"
  shows "knows C f (env(op_result op \<mapsto> v))"
  unfolding knows_def
proof (intro ballI allI impI)
  fix d k w assume d: "d \<in> operations_of f" "is_integer (op_type d)" "op_result d \<noteq> []" "C (op_result d) k" "(env(op_result op \<mapsto> v)) (op_result d) = Some w"
  show "w = integer_value (op_type d) (word_of_int k)"
  proof (cases "op_result op = op_result d")
    case True
    then have "op = d" by (rule same_operation [OF assms(1,2) d(1) _ d(3)])
    then show ?thesis using assms(4) d by simp
  next
    case False
    then show ?thesis using knowsD [OF assms(3) d(1-4)] d(5) by simp
  qed
qed

section \<open>Constant folding\<close>

text \<open>The constants the pass may come to know: literals, and what folding makes of them.\<close>

inductive const_value :: "ir_function \<Rightarrow> string \<Rightarrow> int \<Rightarrow> bool" for f where
  literal: "op \<in> operations_of f \<Longrightarrow> literal_of op = Some k \<Longrightarrow> const_value f (op_result op) k"
| folded: "op \<in> operations_of f \<Longrightarrow> is_foldable op \<Longrightarrow> const_value f (op_operands op ! 0) a \<Longrightarrow> const_value f (op_operands op ! 1) b \<Longrightarrow>
    fold_arithmetic (op_opcode op) a b = Some k \<Longrightarrow> const_value f (op_result op) k"

definition fold_typed :: "ir_function \<Rightarrow> bool" where
  "fold_typed f \<longleftrightarrow> single_definitions f \<and>
     (\<forall>op \<in> operations_of f. is_foldable op \<longrightarrow> is_integer (op_type op) \<and>
        (\<forall>d \<in> operations_of f. is_literal_operation d \<or> is_foldable d \<longrightarrow> op_result d \<in> set (op_operands op) \<longrightarrow>
           op_type d = op_type op))"

definition fold_replaces :: "ir_function \<Rightarrow> operation \<Rightarrow> operation \<Rightarrow> bool" where
  "fold_replaces f op op' \<longleftrightarrow> is_foldable op \<and> (\<exists>a b k. const_value f (op_operands op ! 0) a \<and> const_value f (op_operands op ! 1) b \<and>
     fold_arithmetic (op_opcode op) a b = Some k \<and> op' = op\<lparr>op_opcode := ''const'', op_operands := [to_string_int k]\<rparr>)"

lemma const_value_result: "const_value f n k \<Longrightarrow> n \<noteq> [] \<and> (\<exists>d \<in> operations_of f. op_result d = n \<and> (is_literal_operation d \<or> is_foldable d))"
  by (induction rule: const_value.induct) (auto simp: literal_of_def is_foldable_def is_literal_operation_def split: if_splits)

lemma is_integer_width: "is_integer t \<Longrightarrow> 0 < bit_width t"
  by (cases t) (simp_all add: is_integer_def)

lemma is_integer_float: "is_integer t \<Longrightarrow> \<not> is_float t"
  by (cases t) (simp_all add: is_integer_def is_float_def)

lemma uint_normalize_of_int: "is_integer t \<Longrightarrow> uint (normalize_bits t (word_of_int z)) = take_bit (bit_width t) z"
  using bit_width_le [of t] by (simp add: normalize_take_bit [OF is_integer_width] unsigned_take_bit_eq uint_word_of_int_eq min_def)

lemma integer_value_eqI:
  assumes "is_integer t" "take_bit (bit_width t) x = take_bit (bit_width t) y"
  shows "integer_value t (word_of_int x) = integer_value t (word_of_int y)"
proof -
  have "normalize_bits t (word_of_int x) = normalize_bits t (word_of_int y)"
    by (rule word_uint_eqI) (simp only: uint_normalize_of_int [OF assms(1)] assms(2))
  then show ?thesis by (simp only: integer_value_def)
qed

lemma fold_value:
  assumes "(op_opcode op, f) \<in> {(''add'', (+)), (''sub'', (-)), (''mul'', (*))}" and t: "is_integer (op_type op)"
  shows "integer_binary op (integer_value (op_type op) (word_of_int a)) (integer_value (op_type op) (word_of_int b)) s =
    Inr (Some (integer_value (op_type op) (word_of_int (f a b))), s)"
proof -
  let ?t = "op_type op" and ?w = "bit_width (op_type op)"
  let ?a = "normalize_bits ?t (word_of_int a)" and ?b = "normalize_bits ?t (word_of_int b)"
  have bits: "va_bits (integer_value t x) = normalize_bits t x" for t x by (simp add: integer_value_def)
  have "integer_binary op l r s = Inr (Some (integer_value ?t (word_of_int (f (uint (va_bits l)) (uint (va_bits r))))), s)" for l r
    using assms(1) by (auto simp: integer_binary_def m_return_def)
  then have "integer_binary op (integer_value ?t (word_of_int a)) (integer_value ?t (word_of_int b)) s =
      Inr (Some (integer_value ?t (word_of_int (f (uint ?a) (uint ?b)))), s)" by (simp only: bits)
  moreover have "f \<in> {(+), (-), (*)}" using assms(1) by auto
  then have "take_bit ?w (f (take_bit ?w a) (take_bit ?w b)) = take_bit ?w (f a b)"
    using take_bit_add [of ?w a b] take_bit_diff [of ?w a b] take_bit_mult [of ?w a b] by blast
  then have "integer_value ?t (word_of_int (f (uint ?a) (uint ?b))) = integer_value ?t (word_of_int (f a b))"
    unfolding uint_normalize_of_int [OF t] by (rule integer_value_eqI [OF t])
  ultimately show ?thesis by simp
qed

lemma lookup_at_eq:
  "i < length (op_operands op) \<Longrightarrow> lookup_at env op i s =
    (case env (op_operands op ! i) of None \<Rightarrow> m_fail (''undefined runtime value '' @ op_operands op ! i) s | Some v \<Rightarrow> Inr (Some v, s))"
  by (simp add: lookup_at_def operand_at_def list_at_def lookup_def m_bind_def m_return_def split: option.split)

lemma evaluate_fold_opcode:
  "op_opcode op \<in> {''add'', ''sub'', ''mul'', ''div''} \<Longrightarrow> evaluate cfg c env op = eval_arith cfg env op"
  by (elim insertE emptyE; simp only: evaluate_def Let_def; simp)

lemma integer_binary_div: "op_opcode op = ''div'' \<Longrightarrow> integer_binary op l r = m_fail (''unsupported interpreter opcode '' @ quoted ''div'')"
  by (simp add: integer_binary_def Let_def)

lemma m_fail_quiet: "m_fail message s = Inr (x, s') \<Longrightarrow> en_diagnostics s' \<noteq> []"
  by (auto simp: m_fail_eq add_diagnostic_def)

lemma eval_integer_quiet:
  assumes "1 < length (op_operands op)" "op_opcode op \<notin> {''neg'', ''not''}"
    and "eval_integer_arith env op l s = Inr (x, s')" "en_diagnostics s' = []"
  shows "\<exists>v r. l = Some v \<and> env (op_operands op ! 1) = Some r \<and> integer_binary op v r s = Inr (x, s')"
proof -
  have "is_kind VK_integer l"
  proof (rule ccontr)
    assume "\<not> is_kind VK_integer l"
    then show False using assms(3) m_fail_quiet [of _ s x s'] assms(4) unfolding eval_integer_arith_def if_P [OF \<open>\<not> is_kind VK_integer l\<close>]
      by blast
  qed
  then obtain v where l: "l = Some v" "is_kind VK_integer (Some v)" by auto
  have run: "m_bind (lookup_at env op 1) (\<lambda>rhs. if \<not> is_kind VK_integer rhs then m_fail (op_opcode op @ '' requires integer operands'')
      else integer_binary op v (the rhs)) s = Inr (x, s')"
    using assms(2,3) l by (simp add: eval_integer_arith_def cong: if_cong)
  show ?thesis
  proof (cases "env (op_operands op ! 1)")
    case None
    then have "\<exists>s1. m_fail (op_opcode op @ '' requires integer operands'') s1 = Inr (x, s')"
      using run lookup_at_eq [OF assms(1), of env s] by (auto simp: m_bind_def m_fail_eq)
    then show ?thesis using m_fail_quiet assms(4) by blast
  next
    case (Some r)
    then have "(if \<not> is_kind VK_integer (Some r) then m_fail (op_opcode op @ '' requires integer operands'')
        else integer_binary op v r) s = Inr (x, s')"
      using run lookup_at_eq [OF assms(1), of env s] by (cases "va_kind r = VK_integer") (simp_all add: m_bind_def)
    then have "integer_binary op v r s = Inr (x, s')"
      using m_fail_quiet assms(4) by (cases "is_kind VK_integer (Some r)") (simp_all only: if_True if_False not_True_eq_False not_False_eq_True, blast)
    then show ?thesis using l Some by auto
  qed
qed

lemma evaluate_foldable:
  assumes op: "is_foldable op" "is_integer (op_type op)" and run: "evaluate cfg c env op s = Inr (x, s')" "en_diagnostics s' = []"
  shows "op_opcode op \<noteq> ''div'' \<and> (\<exists>l r. env (op_operands op ! 0) = Some l \<and> env (op_operands op ! 1) = Some r \<and>
    integer_binary op l r s = Inr (x, s'))"
proof -
  have len: "0 < length (op_operands op)" "1 < length (op_operands op)" and oc: "op_opcode op \<in> {''add'', ''sub'', ''mul'', ''div''}"
    using op(1) by (auto simp: is_foldable_def)
  have cmp: "\<not> starts_with (op_opcode op) ''cmp.''" using oc by (elim insertE emptyE) (simp_all add: starts_with_def)
  have one: "op_opcode op \<notin> {''neg'', ''not''}" using oc by (elim insertE emptyE; simp)
  have "m_bind (lookup_at env op 0) (eval_integer_arith env op) s = Inr (x, s')"
    using run(1) is_integer_float [OF op(2)] cmp by (simp add: evaluate_fold_opcode [OF oc] eval_arith_def)
  then obtain l s1 where l: "lookup_at env op 0 s = Inr (l, s1)" "eval_integer_arith env op l s1 = Inr (x, s')"
    by (auto simp: m_bind_Inr)
  obtain v r where v: "l = Some v" "env (op_operands op ! 1) = Some r" "integer_binary op v r s1 = Inr (x, s')"
    using eval_integer_quiet [OF len(2) one l(2) run(2)] by blast
  then have "s1 = s" "env (op_operands op ! 0) = Some v"
    using l(1) lookup_at_eq [OF len(1), of env s] by (auto simp: m_fail_eq split: option.splits)
  moreover have "op_opcode op \<noteq> ''div''" using v(3) integer_binary_div m_fail_quiet run(2) by fastforce
  ultimately show ?thesis using v by blast
qed

lemma const_eval:
  "op_opcode op = ''const'' \<Longrightarrow> op_operands op = [t] \<Longrightarrow> is_integer (op_type op) \<Longrightarrow> parse_int64 t = Some k \<Longrightarrow>
   evaluate cfg c env op s = Inr (Some (integer_value (op_type op) (word_of_int k)), s)"
  by (simp add: evaluate_def eval_const_def is_integer_float m_return_def)

lemma fold_arithmetic_value:
  assumes "is_foldable op" "op_opcode op \<noteq> ''div''" "fold_arithmetic (op_opcode op) a b = Some k" "is_integer (op_type op)"
  shows "integer_binary op (integer_value (op_type op) (word_of_int a)) (integer_value (op_type op) (word_of_int b)) s =
    Inr (Some (integer_value (op_type op) (word_of_int k)), s)"
proof -
  have "op_opcode op \<in> {''add'', ''sub'', ''mul''}" using assms(1,2) by (auto simp: is_foldable_def)
  then obtain g where "(op_opcode op, g) \<in> {(''add'', (+)), (''sub'', (-)), (''mul'', (*))}" "k = g a b"
    using assms(3) by (elim insertE emptyE) (auto simp: fold_arithmetic_def checked_int64_def split: if_splits)
  then show ?thesis using fold_value assms(4) by simp
qed

text \<open>What a foldable operation with constant operands computes.\<close>

lemma folded_value:
  assumes f: "fold_typed f" "op \<in> operations_of f" "knows (const_value f) f env" and op: "is_foldable op"
    and c: "const_value f (op_operands op ! 0) a" "const_value f (op_operands op ! 1) b" "fold_arithmetic (op_opcode op) a b = Some k"
    and run: "evaluate cfg ce env op s = Inr (x, s')" "en_diagnostics s' = []"
  shows "x = Some (integer_value (op_type op) (word_of_int k)) \<and> s' = s"
proof -
  have t: "is_integer (op_type op)" and same: "\<And>d. d \<in> operations_of f \<Longrightarrow> is_literal_operation d \<or> is_foldable d \<Longrightarrow>
      op_result d \<in> set (op_operands op) \<Longrightarrow> op_type d = op_type op"
    using f(1,2) op by (auto simp: fold_typed_def)
  obtain l r where lr: "env (op_operands op ! 0) = Some l" "env (op_operands op ! 1) = Some r" "integer_binary op l r s = Inr (x, s')"
    and div: "op_opcode op \<noteq> ''div''"
    using evaluate_foldable [OF op t run] by blast
  have operand: "v = integer_value (op_type op) (word_of_int z)"
    if n: "const_value f n z" "n \<in> set (op_operands op)" "env n = Some v" for n z v
  proof -
    obtain d where d: "d \<in> operations_of f" "op_result d = n" "n \<noteq> []" "is_literal_operation d \<or> is_foldable d" using const_value_result [OF n(1)] by blast
    then show ?thesis using knowsD [OF f(3) d(1), of z v] same [OF d(1,4)] n t by simp
  qed
  have "op_operands op ! 0 \<in> set (op_operands op)" "op_operands op ! 1 \<in> set (op_operands op)"
    using op by (simp_all add: is_foldable_def)
  then have "l = integer_value (op_type op) (word_of_int a)" "r = integer_value (op_type op) (word_of_int b)"
    using operand c(1,2) lr(1,2) by blast+
  then show ?thesis using lr(3) fold_arithmetic_value [OF op div c(3) t, of s] by simp
qed

lemma const_known:
  assumes f: "fold_typed f" "op \<in> operations_of f" "knows (const_value f) f env" and "op_result op \<noteq> []"
    and run: "evaluate cfg ce env op s = Inr (Some v, s')" "en_diagnostics s' = []"
  shows "knows (const_value f) f (env(op_result op \<mapsto> v))"
proof (rule knows_result [OF _ f(2,3)])
  show single: "distinct (defined_values f)" using f(1,2) single_distinct(1) by (auto simp: fold_typed_def)
  fix k assume t: "is_integer (op_type op)" and c: "const_value f (op_result op) k"
  from c show "v = integer_value (op_type op) (word_of_int k)"
  proof cases
    case (literal d)
    then have "d = op" using same_operation [OF single _ f(2)] assms(4) by metis
    then obtain lit where "op_opcode op = ''const''" "op_operands op = [lit]" "parse_int64 lit = Some k"
      using literal(3) by (auto simp: literal_of_def length_Suc_conv split: if_splits)
    then show ?thesis using const_eval [OF _ _ t, of lit k cfg ce env s] run(1) by simp
  next
    case (folded d a b)
    then have "d = op" using same_operation [OF single _ f(2)] assms(4) by metis
    then show ?thesis using folded_value [OF f, of a b k cfg ce s "Some v" s'] folded run by simp
  qed
qed


interpretation folding: lockstep_pass fold_typed "\<lambda>f. knows (const_value f) f" fold_replaces
proof
  fix f vs assume "fold_typed f"
  then show "knows (const_value f) f (bind_parameters (fn_parameters f) vs Map.empty)"
    by (intro knows_parameters) (simp add: fold_typed_def)
next
  fix f b p env v assume "fold_typed f" "b \<in> set (fn_blocks f)" "p \<in> set (bl_parameters b)" "knows (const_value f) f env"
  then show "knows (const_value f) f (env(vd_name p \<mapsto> v))" by (intro knows_block_parameter) (auto simp: fold_typed_def intro: single_distinct)
next
  fix f op env cfg c s v s'
  assume "fold_typed f" "op \<in> operations_of f" "knows (const_value f) f env" "op_result op \<noteq> []"
    "evaluate cfg c env op s = Inr (Some v, s')" "en_diagnostics s' = []"
  then show "knows (const_value f) f (env(op_result op \<mapsto> v))" by (rule const_known)
next
  fix f op op' assume "fold_replaces f op op'"
  then show "op_result op' = op_result op \<and> is_terminator op' = is_terminator op"
    by (auto simp: fold_replaces_def is_foldable_def is_terminator_def)
next
  fix f op env op' s cfg c
  assume f: "fold_typed f" "op \<in> operations_of f" "knows (const_value f) f env" and r: "fold_replaces f op op'"
  then obtain a b k where op: "is_foldable op" and c: "const_value f (op_operands op ! 0) a" "const_value f (op_operands op ! 1) b"
      "fold_arithmetic (op_opcode op) a b = Some k" and op': "op' = op\<lparr>op_opcode := ''const'', op_operands := [to_string_int k]\<rparr>"
    by (auto simp: fold_replaces_def)
  have t: "is_integer (op_type op)" using f(1,2) op by (simp add: fold_typed_def)
  have k: "parse_int64 (to_string_int k) = Some k"
    using c(3) by (intro parse_int64_to_string) (auto simp: fold_arithmetic_def checked_int64_def in_int64_def split: if_splits)
  show "refines s (evaluate cfg c env op) (evaluate cfg c env op')"
    unfolding refines_def
  proof (intro allI impI)
    fix x s' assume "evaluate cfg c env op s = Inr (x, s')" "en_diagnostics s' = []"
    then have "x = Some (integer_value (op_type op) (word_of_int k)) \<and> s' = s" by (rule folded_value [OF f op c])
    then show "evaluate cfg c env op' s = Inr (x, s')"
      using const_eval [of op' "to_string_int k" k] k t by (simp add: op')
  qed
next
  fix f op env op' assume "fold_replaces f op op'" "is_terminator op"
  then show "op_opcode op \<in> {''jump'', ''branch''} \<and> op_opcode op' \<in> {''jump'', ''branch''} \<and>
      (\<forall>g s t s'. en_diagnostics s' = [] \<or> (\<exists>i vs. t = Transferred i vs) \<longrightarrow>
        exec_jump g env op s = Inr (t, s') \<longrightarrow> exec_jump g env op' s = Inr (t, s'))"
    by (auto simp: fold_replaces_def is_foldable_def is_terminator_def)
qed

text \<open>The pass replaces operations as the contract says.\<close>

lemma rewrite_list_all2:
  assumes "\<And>x s y s'. x \<in> set xs \<Longrightarrow> I s \<Longrightarrow> step x s = Some (y, s') \<Longrightarrow> R x y \<and> I s'"
  shows "I s \<Longrightarrow> rewrite_list step xs s = Some (ys, s') \<Longrightarrow> list_all2 R xs ys \<and> I s'"
  using assms
proof (induction xs arbitrary: s ys)
  case (Cons x xs)
  obtain y s1 zs where r: "step x s = Some (y, s1)" "rewrite_list step xs s1 = Some (zs, s')" "ys = y # zs"
    using Cons.prems(2) by (auto split: option.splits prod.splits)
  have "R x y \<and> I s1" by (rule Cons.prems(3) [OF _ Cons.prems(1) r(1)]) simp
  moreover have "R z w \<and> I t'" if "z \<in> set xs" "I t" "step z t = Some (w, t')" for z t w t'
    by (rule Cons.prems(3) [OF _ that(2,3)]) (simp add: that(1))
  then have "list_all2 R xs zs \<and> I s'" using calculation by (intro Cons.IH [OF _ r(2)]) blast+
  ultimately show ?case using r(3) by simp
qed simp

definition constants_sound :: "ir_function \<Rightarrow> fold_state \<Rightarrow> bool" where
  "constants_sound f st \<longleftrightarrow> (\<forall>n d. fst st n = Some d \<longrightarrow> const_value f n (cd_value d))"

lemma constant_at_sound: "constants_sound f (constants, r) \<Longrightarrow> constant_at doms constants b i n = Some k \<Longrightarrow> const_value f n k"
  by (auto simp: constants_sound_def constant_at_def split: option.splits if_splits)

lemma fold_operation_sound:
  assumes op: "op \<in> operations_of f" and st: "constants_sound f st" and step: "fold_operation doms b (i, op) st = Some (iop', st')"
  shows "(snd iop' = op \<or> fold_replaces f op (snd iop')) \<and> constants_sound f st'"
proof -
  obtain constants r where p: "st = (constants, r)" by fastforce
  show ?thesis
  proof (cases "is_literal_operation op")
    case True
    then show ?thesis
      using step st const_value.literal [OF op] p
      by (auto simp: fold_operation_def constants_sound_def split: option.splits if_splits)
  next
    case lit: False
    show ?thesis
    proof (cases "is_foldable op \<and> (\<exists>x y. constant_at doms constants b i (op_operands op ! 0) = Some x \<and>
        constant_at doms constants b i (op_operands op ! 1) = Some y \<and> \<not> (op_opcode op = ''div'' \<and> y = 0))")
      case False
      then have "fold_operation doms b (i, op) st = Some ((i, op), st)"
        using lit by (auto simp: fold_operation_def p split: option.splits)
      then show ?thesis using step st by simp
    next
      case True
      then obtain x y where xy: "is_foldable op" "constant_at doms constants b i (op_operands op ! 0) = Some x"
          "constant_at doms constants b i (op_operands op ! 1) = Some y" "\<not> (op_opcode op = ''div'' \<and> y = 0)" by blast
      obtain k where k: "fold_arithmetic (op_opcode op) x y = Some k"
          "iop' = (i, op\<lparr>op_opcode := ''const'', op_operands := [to_string_int k]\<rparr>)"
          "fst st' = constants(op_result op \<mapsto> \<lparr>cd_value = k, cd_block = b, cd_index = i\<rparr>)"
        using step lit xy by (auto simp: fold_operation_def p)
      note c = constant_at_sound [OF st [unfolded p] xy(2)] constant_at_sound [OF st [unfolded p] xy(3)]
      have "const_value f (op_result op) k" by (rule const_value.folded [OF op xy(1) c k(1)])
      moreover have "fold_replaces f op (snd iop')" using xy(1) c k(1,2) by (auto simp: fold_replaces_def)
      ultimately show ?thesis using st k(3) by (auto simp: constants_sound_def p)
    qed
  qed
qed

lemma list_all2_enumerate_snd: "list_all2 (\<lambda>p q. R (snd p) (snd q)) (enumerate n xs) ys \<Longrightarrow> list_all2 R xs (map snd ys)"
proof (induction xs arbitrary: n ys)
  case (Cons x xs)
  then obtain y zs where "ys = y # zs" "R x (snd y)" "list_all2 (\<lambda>p q. R (snd p) (snd q)) (enumerate (Suc n) xs) zs"
    by (auto simp: list_all2_Cons1)
  then show ?case using Cons.IH by simp
qed simp

lemma fold_block_sound:
  assumes b: "b \<in> set (fn_blocks f)" and st: "constants_sound f st" and step: "fold_block doms b st = Some (b', st')"
  shows "rewritten_block (fold_replaces f) b b' \<and> constants_sound f st'"
proof -
  obtain ops where ops: "rewrite_list (fold_operation doms (bl_name b)) (enumerate 0 (bl_operations b)) st = Some (ops, st')"
      "b' = b\<lparr>bl_operations := map snd ops\<rparr>"
    using step by (auto simp: fold_block_def)
  have "list_all2 (\<lambda>p q. snd q = snd p \<or> fold_replaces f (snd p) (snd q)) (enumerate 0 (bl_operations b)) ops \<and> constants_sound f st'"
  proof (rule rewrite_list_all2 [where I = "constants_sound f", OF _ st ops(1)])
    fix iop s iop' s' assume i: "iop \<in> set (enumerate 0 (bl_operations b))" "constants_sound f s"
      "fold_operation doms (bl_name b) iop s = Some (iop', s')"
    then have "snd iop \<in> set (bl_operations b)" by (auto simp: in_set_enumerate_eq dest: nth_mem)
    then have "snd iop \<in> operations_of f" using b by (auto simp: operations_of_def)
    then show "(snd iop' = snd iop \<or> fold_replaces f (snd iop) (snd iop')) \<and> constants_sound f s'"
      using fold_operation_sound [of "snd iop" f s doms "bl_name b" "fst iop" iop' s'] i by simp
  qed
  then show ?thesis
    using ops(2) list_all2_enumerate_snd [of "\<lambda>op op'. op' = op \<or> fold_replaces f op op'"] by (auto simp: rewritten_block_def)
qed

lemma constant_fold_rewrites:
  assumes "constant_fold_pass f m = Some (r, f', m')"
  shows "rewritten_function (fold_replaces f) f f'"
proof -
  obtain doms blocks constants where p: "rewrite_list (fold_block doms) (fn_blocks f) (Map.empty, no_result Scope_operations) = Some (blocks, constants, r)"
      "f' = f\<lparr>fn_blocks := blocks\<rparr>"
    using assms by (auto simp: constant_fold_pass_def split: option.splits)
  have "list_all2 (rewritten_block (fold_replaces f)) (fn_blocks f) blocks \<and> constants_sound f (constants, r)"
    by (rule rewrite_list_all2 [where I = "constants_sound f", OF fold_block_sound _ p(1)]) (auto simp: constants_sound_def)
  then show ?thesis using p(2) by (simp add: rewritten_function_def)
qed

section \<open>Branch folding\<close>

definition literal_value :: "ir_function \<Rightarrow> string \<Rightarrow> int \<Rightarrow> bool" where
  "literal_value f n k \<longleftrightarrow> (\<exists>d \<in> operations_of f. op_result d = n \<and> literal_of d = Some k)"

text \<open>A condition that is a literal is zero exactly when its bits are.\<close>

definition branch_typed :: "ir_function \<Rightarrow> bool" where
  "branch_typed f \<longleftrightarrow> single_definitions f \<and>
     (\<forall>op \<in> operations_of f. is_two_way_branch op \<longrightarrow> (\<forall>d \<in> operations_of f. op_result d = op_operands op ! 0 \<longrightarrow>
        (case literal_of d of None \<Rightarrow> True
         | Some k \<Rightarrow> is_integer (op_type d) \<and> (k = 0 \<or> normalize_bits (op_type d) (word_of_int k) \<noteq> 0))))"

definition branch_replaces :: "ir_function \<Rightarrow> operation \<Rightarrow> operation \<Rightarrow> bool" where
  "branch_replaces f op op' \<longleftrightarrow> is_two_way_branch op \<and> (\<exists>k. literal_value f (op_operands op ! 0) k \<and>
     op' = take_branch (if k \<noteq> 0 then 0 else 1) op)"

lemma literal_parts: "literal_of d = Some k \<Longrightarrow> op_opcode d = ''const'' \<and> op_result d \<noteq> [] \<and> (\<exists>t. op_operands d = [t] \<and> parse_int64 t = Some k)"
  by (auto simp: literal_of_def length_Suc_conv split: if_splits)

lemma literal_known:
  assumes f: "distinct (defined_values f)" "op \<in> operations_of f" "knows (literal_value f) f env"
    and run: "evaluate cfg ce env op s = Inr (Some v, s')"
  shows "knows (literal_value f) f (env(op_result op \<mapsto> v))"
proof (rule knows_result [OF f])
  fix k assume t: "is_integer (op_type op)" and "literal_value f (op_result op) k"
  then obtain d where d: "d \<in> operations_of f" "op_result d = op_result op" "literal_of d = Some k" by (auto simp: literal_value_def)
  note lit = literal_parts [OF d(3)]
  have "op = d" using same_operation [OF f(1,2) d(1)] d(2) lit by simp
  then show "v = integer_value (op_type op) (word_of_int k)"
    using const_eval [of op _ k cfg ce env s] lit t run by auto
qed

lemma lookup_quiet:
  "lookup env n True s = Inr (v, s') \<Longrightarrow> v = None \<and> en_diagnostics s' \<noteq> [] \<or> s' = s \<and> v = env n \<and> v \<noteq> None"
  by (auto simp: lookup_def m_fail_eq add_diagnostic_def m_return_def split: option.splits)

lemma take_branch_jump:
  assumes op: "is_two_way_branch op" and c: "env (op_operands op ! 0) = Some c" "sel = (if va_bits c \<noteq> 0 then 0 else 1)"
  shows "exec_jump g env (take_branch sel op) = exec_jump g env op"
proof -
  obtain x where x: "op_operands op = [x]" using op by (auto simp: is_two_way_branch_def length_Suc_conv)
  obtain b0 b1 where b: "op_successors op = [b0, b1]" using op by (auto simp: is_two_way_branch_def length_Suc_conv numeral_2_eq_2)
  obtain a0 a1 where a: "op_successor_arguments op = [a0, a1]" using op by (auto simp: is_two_way_branch_def length_Suc_conv numeral_2_eq_2)
  have opcode: "op_opcode op = ''branch''" using op by (simp add: is_two_way_branch_def)
  have index: "successor_index env op = m_return (Some sel)"
    using c x opcode by (intro ext) (auto simp: successor_index_def list_at_def lookup_def m_bind_def m_return_def)
  have index': "successor_index env (take_branch sel op) = m_return (Some 0)" by (simp add: successor_index_def take_branch_def)
  have "exec_jump g env (take_branch sel op) s = exec_jump g env op s" for s
    unfolding exec_jump_def index index' using a b c(2) by (simp add: m_bind_def m_return_def take_branch_def list_at_def)
  then show ?thesis by (rule ext)
qed

interpretation branching: lockstep_pass branch_typed "\<lambda>f. knows (literal_value f) f" branch_replaces
proof
  fix f vs assume "branch_typed f"
  then show "knows (literal_value f) f (bind_parameters (fn_parameters f) vs Map.empty)"
    by (intro knows_parameters) (simp add: branch_typed_def)
next
  fix f b p env v assume "branch_typed f" "b \<in> set (fn_blocks f)" "p \<in> set (bl_parameters b)" "knows (literal_value f) f env"
  then show "knows (literal_value f) f (env(vd_name p \<mapsto> v))" by (intro knows_block_parameter) (auto simp: branch_typed_def intro: single_distinct)
next
  fix f op env cfg c s v s'
  assume "branch_typed f" "op \<in> operations_of f" "knows (literal_value f) f env" "evaluate cfg c env op s = Inr (Some v, s')"
  then show "knows (literal_value f) f (env(op_result op \<mapsto> v))" by (intro literal_known) (auto simp: branch_typed_def intro: single_distinct)
next
  fix f op op' assume "branch_replaces f op op'"
  then show "op_result op' = op_result op \<and> is_terminator op' = is_terminator op"
    by (auto simp: branch_replaces_def is_two_way_branch_def is_terminator_def take_branch_def)
next
  fix f op env op' s cfg c assume "branch_replaces f op op'" "\<not> is_terminator op"
  then show "refines s (evaluate cfg c env op) (evaluate cfg c env op')"
    by (auto simp: branch_replaces_def is_two_way_branch_def is_terminator_def)
next
  fix f op env op'
  assume f: "branch_typed f" "op \<in> operations_of f" "knows (literal_value f) f env" and r: "branch_replaces f op op'"
  then obtain k where op: "is_two_way_branch op" and k: "literal_value f (op_operands op ! 0) k"
      and op': "op' = take_branch (if k \<noteq> 0 then 0 else 1) op" by (auto simp: branch_replaces_def)
  obtain d where d: "d \<in> operations_of f" "op_result d = op_operands op ! 0" "literal_of d = Some k"
    using k by (auto simp: literal_value_def)
  have t: "is_integer (op_type d)" and z: "k = 0 \<or> normalize_bits (op_type d) (word_of_int k) \<noteq> 0"
    using bspec [OF conjunct2 [OF f(1) [unfolded branch_typed_def]] f(2), rule_format, OF op d(1,2)]
    by (simp_all only: d(3) option.case)
  have "exec_jump g env op' s = Inr (t', s')"
    if q: "en_diagnostics s' = [] \<or> (\<exists>i vs. t' = Transferred i vs)" and run: "exec_jump g env op s = Inr (t', s')" for g s t' s'
  proof (cases "env (op_operands op ! 0)")
    case None
    then have "op_opcode op = ''branch''" "\<exists>x. op_operands op = [x] \<and> env x = None"
      using op by (auto simp: is_two_way_branch_def length_Suc_conv)
    then show ?thesis
      using run q by (auto simp: exec_jump_def successor_index_def list_at_def lookup_def m_bind_def m_return_def m_fail_eq add_diagnostic_def)
  next
    case (Some c)
    then have "c = integer_value (op_type d) (word_of_int k)"
      using knowsD [OF f(3) d(1) t, of k c] d literal_parts [OF d(3)] by (auto simp: literal_value_def)
    then have "va_bits c \<noteq> 0 \<longleftrightarrow> k \<noteq> 0" using z by (auto simp: normalize_bits_def)
    then show ?thesis using take_branch_jump [of op env c _ g, OF op Some refl] op' run by (cases "k = 0") simp_all
  qed
  then show "op_opcode op \<in> {''jump'', ''branch''} \<and> op_opcode op' \<in> {''jump'', ''branch''} \<and>
      (\<forall>g s t s'. en_diagnostics s' = [] \<or> (\<exists>i vs. t = Transferred i vs) \<longrightarrow>
        exec_jump g env op s = Inr (t, s') \<longrightarrow> exec_jump g env op' s = Inr (t, s'))"
    using op op' by (auto simp: is_two_way_branch_def take_branch_def)
qed

lemma collect_literals_sound:
  assumes "collect_literals f n = Some d" shows "literal_value f n (cd_value d)"
proof -
  have note_sound: "\<forall>n d. note_literal b iop cs n = Some d \<longrightarrow> literal_value f n (cd_value d)"
    if "snd iop \<in> operations_of f" "\<forall>n d. cs n = Some d \<longrightarrow> literal_value f n (cd_value d)" for b iop cs
    using that by (cases iop) (auto simp: note_literal_def literal_value_def split: option.splits)
  have block_sound: "\<forall>n d. fold (note_literal b) iops cs n = Some d \<longrightarrow> literal_value f n (cd_value d)"
    if "\<forall>iop \<in> set iops. snd iop \<in> operations_of f" "\<forall>n d. cs n = Some d \<longrightarrow> literal_value f n (cd_value d)" for b iops cs
    using that
  proof (induction iops arbitrary: cs)
    case (Cons iop iops)
    have "\<forall>n d. note_literal b iop cs n = Some d \<longrightarrow> literal_value f n (cd_value d)"
      using Cons.prems by (intro note_sound) auto
    then show ?case using Cons.IH Cons.prems(1) by simp
  qed simp
  have "\<forall>n d. fold (\<lambda>b. fold (note_literal (bl_name b)) (enumerate 0 (bl_operations b))) bs cs n = Some d \<longrightarrow> literal_value f n (cd_value d)"
    if "set bs \<subseteq> set (fn_blocks f)" "\<forall>n d. cs n = Some d \<longrightarrow> literal_value f n (cd_value d)" for bs cs
    using that
  proof (induction bs arbitrary: cs)
    case (Cons b bs)
    have "\<forall>iop \<in> set (enumerate 0 (bl_operations b)). snd iop \<in> operations_of f"
    proof
      fix iop assume "iop \<in> set (enumerate 0 (bl_operations b))"
      then have "snd iop \<in> set (bl_operations b)" by (auto simp: in_set_enumerate_eq dest: nth_mem)
      then show "snd iop \<in> operations_of f" using Cons.prems(1) by (auto simp: operations_of_def)
    qed
    note step = block_sound [OF this Cons.prems(2), of "bl_name b"]
    show ?case using Cons.IH [OF _ step] Cons.prems(1) by simp
  qed simp
  from this [OF subset_refl, of Map.empty] show ?thesis using assms by (simp add: collect_literals_def)
qed

lemma list_all2_same_append: "(\<And>x. R x x) \<Longrightarrow> R x y \<Longrightarrow> list_all2 R (xs @ [x]) (xs @ [y])"
  by (intro list_all2_appendI) (simp_all add: list_all2_refl)

lemma branch_fold_rewrites:
  assumes "branch_fold_pass f m = Some (r, f', m')"
  shows "rewritten_function (branch_replaces f) f f'"
proof -
  obtain doms blocks where p: "rewrite_list (fold_branch_block doms (collect_literals f)) (fn_blocks f) (no_result Scope_control_flow) = Some (blocks, r)"
      "f' = f\<lparr>fn_blocks := blocks\<rparr>"
    using assms by (auto simp: branch_fold_pass_def Let_def split: option.splits)
  have same: "rewritten_block (branch_replaces f) b b" for b by (simp add: rewritten_block_def list_all2_refl)
  have "list_all2 (rewritten_block (branch_replaces f)) (fn_blocks f) blocks \<and> True"
  proof (rule rewrite_list_all2 [where I = "\<lambda>_. True", OF _ TrueI p(1)])
    fix b s b' s' assume step: "fold_branch_block doms (collect_literals f) b s = Some (b', s')"
    show "rewritten_block (branch_replaces f) b b' \<and> True"
    proof (cases "b' = b")
      case False
      let ?t = "last (bl_operations b)"
      obtain k where k: "bl_operations b \<noteq> []" "is_two_way_branch ?t"
          "constant_at doms (collect_literals f) (bl_name b) (length (bl_operations b) - 1) (op_operands ?t ! 0) = Some k"
          "b' = b\<lparr>bl_operations := butlast (bl_operations b) @ [take_branch (if k \<noteq> 0 then 0 else 1) ?t]\<rparr>"
        using step False by (auto simp: fold_branch_block_def Let_def split: if_splits option.splits)
      have "literal_value f (op_operands ?t ! 0) k"
        using k(3) collect_literals_sound by (auto simp: constant_at_def split: option.splits if_splits)
      then have "branch_replaces f ?t (take_branch (if k \<noteq> 0 then 0 else 1) ?t)" using k(2) by (auto simp: branch_replaces_def)
      then have "list_all2 (\<lambda>op op'. op' = op \<or> branch_replaces f op op') (butlast (bl_operations b) @ [?t]) (bl_operations b')"
        unfolding k(4) using list_all2_same_append [of "\<lambda>op op'. op' = op \<or> branch_replaces f op op'"] by simp
      then show ?thesis using k(1,4) by (simp add: rewritten_block_def)
    qed (simp add: same)
  qed
  then show ?thesis using p(2) by (simp add: rewritten_function_def)
qed

end
