(* ===== verification/Verifier_Decls.thy ===== *)
theory Verifier_Decls
  imports Interpreter
begin

text \<open>
  The IR verifier (\<open>forge/src/ir/verifier.cpp\<close>), first part: what \<open>verify_module\<close> reports about the declarations of
  a module, that is its arrays, structures and globals, and about the header of each function. A
  \<open>push_back\<close> on the diagnostics is a list that is appended; the tables the source fills with \<open>emplace\<close> keep the
  first declaration of a name, as \<open>find_struct\<close>, \<open>find_array\<close> and \<open>find_function\<close> do.
\<close>

section \<open>Reports\<close>

definition report_if :: "bool \<Rightarrow> string \<Rightarrow> diagnostics" where
  "report_if b message = (if b then [error_diagnostic message] else [])"

text \<open>A loop over declarations that also says whether a name has occurred before.\<close>

fun each_named :: "('a \<Rightarrow> string) \<Rightarrow> (bool \<Rightarrow> 'a \<Rightarrow> diagnostics) \<Rightarrow> string set \<Rightarrow> 'a list \<Rightarrow> diagnostics" where
  "each_named name check seen [] = []"
| "each_named name check seen (x # xs) = check (name x \<in> seen) x @ each_named name check (insert (name x) seen) xs"

definition each :: "('a \<Rightarrow> diagnostics) \<Rightarrow> 'a list \<Rightarrow> diagnostics" where
  "each check xs = concat (map check xs)"

definition has_array :: "ir_module \<Rightarrow> string \<Rightarrow> bool" where
  "has_array m name \<longleftrightarrow> find_array m name \<noteq> None"

definition has_struct :: "ir_module \<Rightarrow> string \<Rightarrow> bool" where
  "has_struct m name \<longleftrightarrow> find_struct m name \<noteq> None"

definition has_function :: "ir_module \<Rightarrow> string \<Rightarrow> bool" where
  "has_function m name \<longleftrightarrow> find_function m name \<noteq> None"

definition is_signature_name :: "ir_module \<Rightarrow> string \<Rightarrow> bool" where
  "is_signature_name m name \<longleftrightarrow> (case find_function m name of None \<Rightarrow> False | Some f \<Rightarrow> fn_is_signature f)"

section \<open>Arrays and structures\<close>

definition verify_array :: "ir_module \<Rightarrow> bool \<Rightarrow> array_decl \<Rightarrow> diagnostics" where
  "verify_array m seen a =
     report_if (ad_name a = [] \<or> seen) (''duplicate or empty array @'' @ ad_name a) @
     report_if (ad_element_count a = 0 \<or> dl_array_layout dl_host m a = None) (''invalid array layout for @'' @ ad_name a)"

definition verify_struct_name :: "bool \<Rightarrow> struct_decl \<Rightarrow> diagnostics" where
  "verify_struct_name seen s = report_if (sd_name s = [] \<or> seen) (''duplicate or empty structure @'' @ sd_name s)"

definition verify_array_element :: "ir_module \<Rightarrow> array_decl \<Rightarrow> diagnostics" where
  "verify_array_element m a =
     report_if (ad_element_aggregate_kind a = ARK_structure \<and> \<not> has_struct m (ad_element_aggregate_name a))
       (''unknown structure @'' @ ad_element_aggregate_name a @ '' in array @'' @ ad_name a) @
     report_if (ad_element_aggregate_kind a = ARK_array \<and> \<not> has_array m (ad_element_aggregate_name a))
       (''unknown array @'' @ ad_element_aggregate_name a @ '' in array @'' @ ad_name a) @
     report_if (ad_element_aggregate_kind a = ARK_scalar \<and> size_of dl_host (ad_element_type a) = None)
       (''unsized element type in array @'' @ ad_name a)"

definition verify_field :: "ir_module \<Rightarrow> struct_decl \<Rightarrow> bool \<Rightarrow> struct_field \<Rightarrow> diagnostics" where
  "verify_field m s seen f =
     report_if (sf_name f = [] \<or> seen) (''duplicate or empty field in structure @'' @ sd_name s) @
     report_if (sf_aggregate_kind f = ARK_scalar \<and> size_of dl_host (sf_type f) = None)
       (''unsized field '' @ sf_name f @ '' in structure @'' @ sd_name s) @
     report_if (sf_aggregate_kind f = ARK_structure \<and> \<not> has_struct m (sf_aggregate_name f))
       (''unknown structure @'' @ sf_aggregate_name f @ '' in field '' @ sf_name f) @
     report_if (sf_aggregate_kind f = ARK_array \<and> \<not> has_array m (sf_aggregate_name f))
       (''unknown array @'' @ sf_aggregate_name f @ '' in field '' @ sf_name f)"

definition verify_struct :: "ir_module \<Rightarrow> struct_decl \<Rightarrow> diagnostics" where
  "verify_struct m s = each_named sf_name (verify_field m s) {} (sd_fields s) @
     report_if (dl_struct_layout dl_host m s = None) (''structure layout failed or recursive aggregate detected for @'' @ sd_name s)"

definition aggregate_is_move_only :: "ir_module \<Rightarrow> aggregate_ref_kind \<Rightarrow> string \<Rightarrow> bool" where
  "aggregate_is_move_only m kind name \<longleftrightarrow>
     (if kind = ARK_structure then (case find_struct m name of None \<Rightarrow> False | Some s \<Rightarrow> sd_move_only s)
      else if kind = ARK_array then (case find_array m name of None \<Rightarrow> False | Some a \<Rightarrow> ad_move_only a)
      else False)"

definition verify_array_move :: "ir_module \<Rightarrow> array_decl \<Rightarrow> diagnostics" where
  "verify_array_move m a =
     report_if (has_aggregate_elements a \<and> aggregate_is_move_only m (ad_element_aggregate_kind a) (ad_element_aggregate_name a) \<and> \<not> ad_move_only a)
       (''array @'' @ ad_name a @ '' contains move-only aggregate elements and must also be moveonly'')"

definition verify_struct_move :: "ir_module \<Rightarrow> struct_decl \<Rightarrow> diagnostics" where
  "verify_struct_move m s = each (\<lambda>f.
     report_if (sf_is_aggregate f \<and> aggregate_is_move_only m (sf_aggregate_kind f) (sf_aggregate_name f) \<and> \<not> sd_move_only s)
       (''structure @'' @ sd_name s @ '' contains move-only field '' @ sf_name f @ '' and must also be moveonly'')) (sd_fields s)"

section \<open>Globals\<close>

definition is_word_power :: "u32 \<Rightarrow> bool" where
  "is_word_power a \<longleftrightarrow> a AND (a - 1) = 0"

definition verify_global_type :: "ir_module \<Rightarrow> global_var \<Rightarrow> diagnostics" where
  "verify_global_type m g =
     (if is_named_aggregate g
      then report_if (aggregate_size dl_host m (gv_aggregate_kind g) (gv_aggregate_name g) = None \<or>
             aggregate_alignment dl_host m (gv_aggregate_kind g) (gv_aggregate_name g) = None)
             (''unknown or invalid aggregate type for global @'' @ gv_name g)
      else report_if (\<not> is_integer (gv_type g) \<and> gv_function_signature_name g = [])
             (''global @'' @ gv_name g @ '' must have integer, callback, or named aggregate type'') @
           report_if (gv_element_count g = 0) (''global @'' @ gv_name g @ '' cannot have zero elements'') @
           report_if (gv_element_count g \<noteq> 1 \<and> gv_type g \<noteq> TK_i8 \<and> gv_function_signature_name g = [])
             (''byte-array global @'' @ gv_name g @ '' requires i8 elements''))"

definition expected_bytes :: "ir_module \<Rightarrow> global_var \<Rightarrow> nat" where
  "expected_bytes m g =
     (if is_named_aggregate g
      then (case aggregate_size dl_host m (gv_aggregate_kind g) (gv_aggregate_name g) of None \<Rightarrow> 0 | Some n \<Rightarrow> unat n)
      else if gv_function_signature_name g \<noteq> [] then unat (gv_element_count g) * 8
      else unat (gv_element_count g))"

definition verify_global_value :: "ir_module \<Rightarrow> global_var \<Rightarrow> diagnostics" where
  "verify_global_value m g =
     (let has_initializer = gv_initializer g \<noteq> [] \<or> gv_zero_initialized g \<or> gv_bytes g \<noteq> []; at_name = ''@'' @ gv_name g
      in report_if (gv_is_external g \<and> has_initializer) (''external global '' @ at_name @ '' cannot have an initializer'') @
         report_if (\<not> gv_is_external g \<and> \<not> has_initializer) (''global '' @ at_name @ '' requires an initializer'') @
         report_if (gv_bytes g \<noteq> [] \<and> \<not> is_named_aggregate g \<and> gv_element_count g = 1 \<and> gv_type g \<noteq> TK_i8)
           (''scalar global '' @ at_name @ '' cannot use a byte-string initializer'') @
         report_if (gv_bytes g \<noteq> [] \<and> length (gv_bytes g) \<noteq> expected_bytes m g)
           (''byte initializer size mismatch for global '' @ at_name) @
         report_if (gv_zero_initialized g \<and> \<not> is_named_aggregate g \<and> gv_element_count g = 1 \<and> gv_type g \<noteq> TK_i8 \<and>
             gv_function_signature_name g = [])
           (''scalar integer global '' @ at_name @ '' requires an integer initializer'') @
         report_if (is_named_aggregate g \<and> \<not> gv_zero_initialized g \<and> gv_bytes g = [] \<and> \<not> gv_is_external g)
           (''aggregate global '' @ at_name @ '' requires zero or exact byte initializer''))"

definition verify_global :: "ir_module \<Rightarrow> bool \<Rightarrow> global_var \<Rightarrow> diagnostics" where
  "verify_global m seen g =
     report_if (gv_is_external g \<and> gv_linkage g = SL_internal) (''external global @'' @ gv_name g @ '' cannot have internal linkage'') @
     report_if (gv_is_thread_local g \<and> gv_is_constant g) (''thread-local global @'' @ gv_name g @ '' cannot be constant'') @
     report_if seen (''duplicate global @'' @ gv_name g) @
     verify_global_type m g @
     report_if (gv_alignment g \<noteq> 0 \<and> (gv_alignment g > 4096 \<or> \<not> is_word_power (gv_alignment g)))
       (''global @'' @ gv_name g @ '' requires power-of-two alignment no greater than 4096'') @
     verify_global_value m g"

definition verify_callback_global :: "ir_module \<Rightarrow> global_var \<Rightarrow> diagnostics" where
  "verify_callback_global m g =
     (if gv_function_signature_name g = [] then []
      else report_if (gv_type g \<noteq> TK_ptr \<or> gv_aggregate_kind g \<noteq> ARK_scalar \<or> gv_element_count g = 0)
             (''callback global @'' @ gv_name g @ '' must contain one or more ptr elements'') @
           report_if (\<not> is_signature_name m (gv_function_signature_name g))
             (''callback global @'' @ gv_name g @ '' references unknown signature @'' @ gv_function_signature_name g))"

text \<open>Everything \<open>verify_module\<close> checks before its loop over the functions.\<close>

definition verify_declarations :: "ir_module \<Rightarrow> diagnostics" where
  "verify_declarations m =
     each_named ad_name (verify_array m) {} (md_arrays m) @
     each_named sd_name verify_struct_name {} (md_structs m) @
     each (verify_array_element m) (md_arrays m) @
     each (verify_struct m) (md_structs m) @
     each (verify_array_move m) (md_arrays m) @
     each (verify_struct_move m) (md_structs m) @
     each_named gv_name (verify_global m) {} (md_globals m) @
     each (verify_callback_global m) (md_globals m)"

section \<open>Function headers\<close>

definition verify_value_declaration :: "ir_module \<Rightarrow> string \<Rightarrow> value_decl \<Rightarrow> diagnostics" where
  "verify_value_declaration m ctx v =
     (if vd_function_signature_name v \<noteq> [] then
        report_if (vd_type v \<noteq> TK_ptr \<or> vd_aggregate_kind v \<noteq> ARK_scalar) (ctx @ '' callback value must lower as scalar ptr'') @
        report_if (\<not> is_signature_name m (vd_function_signature_name v))
          (ctx @ '' references unknown callback signature @'' @ vd_function_signature_name v) @
        report_if (vd_owned v \<or> vd_borrow_mode v \<noteq> BM_none) (ctx @ '' callback value cannot be owned or borrowed'')
      else if vd_aggregate_kind v = ARK_scalar then []
      else report_if (vd_type v \<noteq> TK_ptr) (ctx @ '' aggregate value must lower as ptr'') @
        report_if (vd_aggregate_kind v = ARK_structure \<and> \<not> has_struct m (vd_aggregate_name v))
          (ctx @ '' references unknown structure @'' @ vd_aggregate_name v) @
        report_if (vd_aggregate_kind v = ARK_array \<and> \<not> has_array m (vd_aggregate_name v))
          (ctx @ '' references unknown array @'' @ vd_aggregate_name v))"

definition verify_borrow_source :: "ir_function \<Rightarrow> diagnostics" where
  "verify_borrow_source f =
     (let i = sint (fn_return_borrow_parameter f)
      in if i < 0 \<or> i \<ge> int (length (fn_parameters f))
         then [error_diagnostic (''borrowed return from @'' @ fn_name f @ '' references an invalid parameter index'')]
         else let source = fn_parameters f ! nat i
              in if vd_borrow_mode source = BM_none \<or> \<not> vd_is_aggregate source
                 then [error_diagnostic (''borrowed return source in @'' @ fn_name f @ '' must be a borrowed aggregate parameter'')]
                 else if vd_aggregate_kind source \<noteq> fn_return_aggregate_kind f \<or> vd_aggregate_name source \<noteq> fn_return_aggregate_name f
                 then [error_diagnostic (''borrowed return source aggregate mismatch in @'' @ fn_name f)]
                 else report_if (fn_return_borrow_mode f = BM_mutable \<and> vd_borrow_mode source \<noteq> BM_mutable)
                   (''mutable borrowed return from @'' @ fn_name f @ '' requires a mutable borrowed source''))"

definition verify_return :: "ir_module \<Rightarrow> ir_function \<Rightarrow> diagnostics" where
  "verify_return m f =
     report_if (fn_return_owned f \<and> \<not> returns_aggregate f) (''owned return from @'' @ fn_name f @ '' requires a named aggregate'') @
     report_if (fn_return_owned f \<and> fn_return_borrow_mode f \<noteq> BM_none)
       (''return from @'' @ fn_name f @ '' cannot be both owned and borrowed'') @
     report_if (fn_return_borrow_mode f \<noteq> BM_none \<and> \<not> returns_aggregate f)
       (''borrowed return from @'' @ fn_name f @ '' requires a named aggregate'') @
     report_if (fn_return_borrow_mode f = BM_none \<and> sint (fn_return_borrow_parameter f) \<noteq> - 1)
       (''non-borrowed return from @'' @ fn_name f @ '' cannot declare a borrow source'') @
     (if fn_return_borrow_mode f \<noteq> BM_none then verify_borrow_source f else []) @
     report_if (fn_return_owned f \<and> returns_aggregate f \<and> aggregate_is_move_only m (fn_return_aggregate_kind f) (fn_return_aggregate_name f))
       (''owned return from @'' @ fn_name f @ '' would copy move-only aggregate @'' @ fn_return_aggregate_name f) @
     (if returns_aggregate f then
        report_if (fn_return_type f \<noteq> TK_ptr) (''aggregate return from @'' @ fn_name f @ '' must lower as ptr'') @
        report_if (fn_return_aggregate_kind f = ARK_structure \<and> \<not> has_struct m (fn_return_aggregate_name f))
          (''function @'' @ fn_name f @ '' returns unknown structure @'' @ fn_return_aggregate_name f) @
        report_if (fn_return_aggregate_kind f = ARK_array \<and> \<not> has_array m (fn_return_aggregate_name f))
          (''function @'' @ fn_name f @ '' returns unknown array @'' @ fn_return_aggregate_name f)
      else [])"

definition verify_parameter :: "ir_module \<Rightarrow> ir_function \<Rightarrow> value_decl \<Rightarrow> diagnostics" where
  "verify_parameter m f p =
     verify_value_declaration m (''function parameter '' @ vd_name p) p @
     report_if (vd_owned p \<and> \<not> vd_is_aggregate p) (''owned parameter '' @ vd_name p @ '' in @'' @ fn_name f @ '' requires a named aggregate'') @
     report_if (vd_borrow_mode p \<noteq> BM_none \<and> \<not> vd_is_aggregate p)
       (''borrowed parameter '' @ vd_name p @ '' in @'' @ fn_name f @ '' requires a named aggregate'') @
     report_if (vd_owned p \<and> vd_borrow_mode p \<noteq> BM_none)
       (''parameter '' @ vd_name p @ '' in @'' @ fn_name f @ '' cannot be both owned and borrowed'') @
     report_if (vd_owned p \<and> vd_is_aggregate p \<and> aggregate_is_move_only m (vd_aggregate_kind p) (vd_aggregate_name p))
       (''owned parameter '' @ vd_name p @ '' in @'' @ fn_name f @ '' would copy move-only aggregate @'' @ vd_aggregate_name p)"

definition verify_header :: "ir_module \<Rightarrow> bool \<Rightarrow> ir_function \<Rightarrow> diagnostics" where
  "verify_header m seen f =
     report_if seen (''duplicate function @'' @ fn_name f) @
     report_if (fn_is_external f \<and> fn_linkage f = SL_internal) (''external function @'' @ fn_name f @ '' cannot have internal linkage'') @
     report_if (fn_variadic f \<and> \<not> fn_is_external f \<and> \<not> fn_is_signature f)
       (''variadic function @'' @ fn_name f @ '' must be an external declaration or signature'') @
     report_if (fn_calling_convention f = CC_fast \<and> fn_variadic f)
       (''variadic function @'' @ fn_name f @ '' cannot use the fast calling convention'') @
     verify_return m f @
     each (verify_parameter m f) (fn_parameters f)"

definition verify_block_parameter :: "ir_module \<Rightarrow> value_decl \<Rightarrow> diagnostics" where
  "verify_block_parameter m p =
     verify_value_declaration m (''block parameter '' @ vd_name p) p @
     report_if (vd_owned p \<and> \<not> vd_is_aggregate p) (''owned block parameter '' @ vd_name p @ '' requires a named aggregate'') @
     report_if (vd_borrow_mode p \<noteq> BM_none)
       (''borrow modes are only valid on function parameters; block parameter '' @ vd_name p @ '' is invalid'') @
     report_if (vd_owned p \<and> vd_is_aggregate p \<and> aggregate_is_move_only m (vd_aggregate_kind p) (vd_aggregate_name p))
       (''owned block parameter '' @ vd_name p @ '' would copy move-only aggregate @'' @ vd_aggregate_name p)"

end
