(* ===== verification/Verifier_Flow.thy ===== *)
theory Verifier_Flow
  imports Verifier_Decls
begin

text \<open>
  The IR verifier (\<open>forge/src/ir/verifier.cpp\<close>), second part: what it computes about one function before it checks
  the operations. The edges between blocks, the reachable blocks, the dominators, the table of definitions, and which
  values a borrowed return may come from. A loop of the source that runs until nothing changes is \<open>iterate\<close>, whose result
  is \<open>None\<close> when it never ends.
\<close>

section \<open>Loops until nothing changes\<close>

partial_function (option) iterate :: "('s \<Rightarrow> 's \<times> bool) \<Rightarrow> 's \<Rightarrow> 's option" where
  "iterate pass s = (case pass s of (s', changed) \<Rightarrow> if changed then iterate pass s' else Some s')"

declare iterate.simps [code]

text \<open>One pass: steps over a list that note whether they changed something.\<close>

definition sweep :: "('a \<Rightarrow> 's \<Rightarrow> 's option) \<Rightarrow> 'a list \<Rightarrow> 's \<Rightarrow> 's \<times> bool" where
  "sweep step xs s = fold (\<lambda>x (s, changed). case step x s of None \<Rightarrow> (s, changed) | Some s' \<Rightarrow> (s', True)) xs (s, False)"

section \<open>Symbols\<close>

definition is_symbol :: "string \<Rightarrow> bool" where
  "is_symbol s \<longleftrightarrow> starts_with s ''@''"

definition is_local :: "string \<Rightarrow> bool" where
  "is_local s \<longleftrightarrow> starts_with s ''%''"

definition strip_symbol :: "string \<Rightarrow> string" where
  "strip_symbol s = (if is_symbol s then tl s else s)"

definition ends_with :: "string \<Rightarrow> string \<Rightarrow> bool" where
  "ends_with s suffix \<longleftrightarrow> length suffix \<le> length s \<and> drop (length s - length suffix) s = suffix"

text \<open>The callee of a direct call, or the signature of an indirect one, with the position of the first argument.\<close>

definition called_function :: "ir_module \<Rightarrow> operation \<Rightarrow> (nat \<times> ir_function) option" where
  "called_function m op =
     (if op_opcode op \<noteq> ''call'' \<and> op_opcode op \<noteq> ''call.indirect'' then None
      else let i = (if op_opcode op = ''call.indirect'' then 1 else 0)
           in if op_operands op = [] \<or> length (op_operands op) \<le> i \<or> \<not> is_symbol (op_operands op ! i) then None
              else map_option (Pair (i + 1)) (find_function m (tl (op_operands op ! i))))"

text \<open>The argument a call's borrowed result comes from.\<close>

definition borrowed_argument :: "ir_module \<Rightarrow> operation \<Rightarrow> (ir_function \<times> string) option" where
  "borrowed_argument m op =
     (case called_function m op of
        None \<Rightarrow> None
      | Some (first, f) \<Rightarrow>
          if fn_return_borrow_mode f \<noteq> BM_none \<and> 0 \<le> sint (fn_return_borrow_parameter f)
          then map_option (Pair f) (list_at (op_operands op) (nat (sint (fn_return_borrow_parameter f)) + first))
          else None)"

section \<open>Edges\<close>

definition block_index :: "ir_function \<Rightarrow> string \<Rightarrow> nat option" where
  "block_index f name = find_block_from 0 (fn_blocks f) name"

definition verify_block_names :: "ir_function \<Rightarrow> diagnostics" where
  "verify_block_names f = each_named bl_name (\<lambda>seen b. report_if seen (''duplicate block '' @ bl_name b)) {} (fn_blocks f)"

definition block_successors :: "ir_block \<Rightarrow> string list" where
  "block_successors b = concat (map op_successors (bl_operations b))"

definition predecessors_of :: "ir_function \<Rightarrow> nat \<Rightarrow> nat list" where
  "predecessors_of f target = concat (map (\<lambda>(i, b). map (\<lambda>_. i) (filter (\<lambda>s. block_index f s = Some target) (block_successors b)))
     (enumerate 0 (fn_blocks f)))"

text \<open>The arguments the edges into a block pass for one parameter, in the order the source visits them.\<close>

definition edge_arguments :: "operation \<Rightarrow> string \<Rightarrow> nat \<Rightarrow> string list" where
  "edge_arguments t target k =
     concat (map (\<lambda>(e, s). if s = target \<and> e < length (op_successor_arguments t) \<and> k < length (op_successor_arguments t ! e)
                      then [op_successor_arguments t ! e ! k] else []) (enumerate 0 (op_successors t)))"

definition incoming_arguments :: "ir_function \<Rightarrow> nat \<Rightarrow> nat \<Rightarrow> string list" where
  "incoming_arguments f target k =
     concat (map (\<lambda>p. let ops = bl_operations (fn_blocks f ! p)
                      in if ops = [] then [] else edge_arguments (last ops) (bl_name (fn_blocks f ! target)) k) (predecessors_of f target))"

section \<open>Origins of borrowed returns\<close>

record borrow_origin =
  bo_parameter :: nat
  bo_mode :: borrow_mode
  bo_path :: string

type_synonym origins = "string \<rightharpoonup> borrow_origin"

definition propagates_return_borrow :: "string \<Rightarrow> bool" where
  "propagates_return_borrow oc \<longleftrightarrow> oc \<in> {''ptr.offset'', ''field.address'', ''struct.field.address'', ''struct.field.name.address'',
     ''array.element.address'', ''callback.element.address'', ''aggregate.move.struct'', ''aggregate.move.array'',
     ''aggregate.borrow.struct'', ''aggregate.borrow.array'', ''aggregate.borrow.mut.struct'', ''aggregate.borrow.mut.array''}"

definition parameter_origins :: "ir_function \<Rightarrow> origins" where
  "parameter_origins f = fold (\<lambda>(i, p) os. if vd_borrow_mode p \<noteq> BM_none
      then map_emplace os (vd_name p) \<lparr>bo_parameter = i, bo_mode = vd_borrow_mode p, bo_path = vd_name p\<rparr> else os)
     (enumerate 0 (fn_parameters f)) Map.empty"

definition derived_origin :: "ir_module \<Rightarrow> operation \<Rightarrow> origins \<Rightarrow> borrow_origin option" where
  "derived_origin m op os =
     (if propagates_return_borrow (op_opcode op) \<and> op_operands op \<noteq> [] then
        map_option (\<lambda>o1. o1\<lparr>bo_path := bo_path o1 @ '' -> '' @ op_result op @ '' ('' @ op_opcode op @ '')'',
            bo_mode := if starts_with (op_opcode op) ''aggregate.borrow.mut'' then BM_mutable
              else if starts_with (op_opcode op) ''aggregate.borrow.'' then BM_immutable else bo_mode o1\<rparr>)
          (os (op_operands op ! 0))
      else case borrowed_argument m op of
             None \<Rightarrow> None
           | Some (f, a) \<Rightarrow>
               map_option (\<lambda>o1. o1\<lparr>bo_mode := fn_return_borrow_mode f,
                   bo_path := bo_path o1 @ '' -> '' @ op_result op @
                     (if op_opcode op = ''call.indirect'' then '' (call.indirect as @'' else '' (call @'') @ fn_name f @ '')''\<rparr>) (os a))"

definition operation_origin :: "ir_module \<Rightarrow> operation \<Rightarrow> origins \<Rightarrow> origins option" where
  "operation_origin m op os =
     (if op_result op = [] \<or> os (op_result op) \<noteq> None then None
      else map_option (\<lambda>o1. os(op_result op \<mapsto> o1)) (derived_origin m op os))"

definition all_operations :: "ir_function \<Rightarrow> operation list" where
  "all_operations f = concat (map bl_operations (fn_blocks f))"

definition operation_origins_pass :: "ir_module \<Rightarrow> ir_function \<Rightarrow> origins \<Rightarrow> origins \<times> bool" where
  "operation_origins_pass m f = sweep (operation_origin m) (all_operations f)"

text \<open>The origins of what the edges pass: nothing yet, one parameter, or a conflict.\<close>

datatype joined = No_origin | Origin borrow_origin | Conflict

fun join_origins :: "origins \<Rightarrow> string list \<Rightarrow> joined \<Rightarrow> joined" where
  "join_origins os [] c = c"
| "join_origins os (a # as) c =
     (case os a of
        None \<Rightarrow> join_origins os as c
      | Some o1 \<Rightarrow> (case c of
            No_origin \<Rightarrow> join_origins os as (Origin o1)
          | Origin k \<Rightarrow>
              if bo_parameter k \<noteq> bo_parameter o1 then Conflict
              else join_origins os as (Origin (if bo_mode o1 = BM_immutable then k\<lparr>bo_mode := BM_immutable\<rparr> else k))
          | Conflict \<Rightarrow> Conflict))"

definition parameter_origin :: "ir_function \<Rightarrow> nat \<times> nat \<Rightarrow> origins \<Rightarrow> origins option" where
  "parameter_origin f tk os = (case tk of (target, k) \<Rightarrow>
     let b = fn_blocks f ! target; p = vd_name (bl_parameters b ! k)
     in case join_origins os (incoming_arguments f target k) No_origin of
          Conflict \<Rightarrow> if os p = None then None else Some (os(p := None))
        | No_origin \<Rightarrow> None
        | Origin c \<Rightarrow>
            (let c' = c\<lparr>bo_path := bo_path c @ '' -> '' @ p @ '' (block '' @ bl_name b @ '')''\<rparr>
             in case os p of
                  None \<Rightarrow> Some (os(p \<mapsto> c'))
                | Some e \<Rightarrow> if bo_parameter e \<noteq> bo_parameter c' \<or> bo_mode e \<noteq> bo_mode c' then Some (os(p \<mapsto> c')) else None))"

definition parameter_positions :: "ir_function \<Rightarrow> (nat \<times> nat) list" where
  "parameter_positions f = concat (map (\<lambda>(i, b). map (Pair i) [0..<length (bl_parameters b)]) (enumerate 0 (fn_blocks f)))"

definition block_origins_pass :: "ir_module \<Rightarrow> ir_function \<Rightarrow> origins \<Rightarrow> origins \<times> bool" where
  "block_origins_pass m f os =
     (let (os1, c1) = sweep (parameter_origin f) (parameter_positions f) os; (os2, c2) = operation_origins_pass m f os1
      in (os2, c1 \<or> c2))"

section \<open>Reachable blocks and dominators\<close>

definition successor_blocks :: "ir_function \<Rightarrow> nat \<Rightarrow> nat list" where
  "successor_blocks f i = List.map_filter (block_index f) (block_successors (fn_blocks f ! i))"

definition reach_step :: "ir_function \<Rightarrow> nat \<Rightarrow> nat set \<Rightarrow> nat set option" where
  "reach_step f i reached = (if i \<notin> reached \<or> set (successor_blocks f i) \<subseteq> reached then None else Some (reached \<union> set (successor_blocks f i)))"

definition reachable_blocks :: "ir_function \<Rightarrow> nat set option" where
  "reachable_blocks f = iterate (sweep (reach_step f) [0..<length (fn_blocks f)]) {0}"

definition start_dominators :: "ir_function \<Rightarrow> nat set \<Rightarrow> nat set list" where
  "start_dominators f reached =
     map (\<lambda>i. if i = 0 then {0} else if i \<in> reached then {j \<in> set [0..<length (fn_blocks f)]. j \<in> reached} else {i}) [0..<length (fn_blocks f)]"

definition dominator_step :: "ir_function \<Rightarrow> nat set \<Rightarrow> nat \<Rightarrow> nat set list \<Rightarrow> nat set list option" where
  "dominator_step f reached i doms =
     (if i \<notin> reached then None
      else case filter (\<lambda>p. p \<in> reached) (predecessors_of f i) of
             [] \<Rightarrow> None
           | p # ps \<Rightarrow>
               (let new = insert i (fold (\<lambda>q s. s \<inter> doms ! q) ps (doms ! p))
                in if new = doms ! i then None else Some (doms[i := new])))"

definition verifier_dominators :: "ir_function \<Rightarrow> nat set \<Rightarrow> nat set list option" where
  "verifier_dominators f reached =
     iterate (sweep (dominator_step f reached) [1..<length (fn_blocks f)]) (start_dominators f reached)"

section \<open>Definitions\<close>

record value_definition =
  df_block :: nat
  df_operation :: nat
  df_type :: ir_type
  df_aggregate_kind :: aggregate_ref_kind
  df_aggregate_name :: string
  df_function_signature :: string
  df_memory_signature :: string
  df_memory_count :: u32

type_synonym definitions = "string \<rightharpoonup> value_definition"

record definition_state =
  ds_definitions :: definitions
  ds_addresses :: "string \<rightharpoonup> string"
  ds_reports :: diagnostics

definition declare_value :: "string \<Rightarrow> value_definition \<Rightarrow> definition_state \<Rightarrow> definition_state" where
  "declare_value name d st =
     (if ds_definitions st name = None then st\<lparr>ds_definitions := (ds_definitions st)(name \<mapsto> d)\<rparr>
      else st\<lparr>ds_reports := ds_reports st @ [error_diagnostic (''duplicate SSA value '' @ name)]\<rparr>)"

definition parameter_definition :: "nat \<Rightarrow> value_decl \<Rightarrow> value_definition" where
  "parameter_definition block p = \<lparr>df_block = block, df_operation = 0, df_type = vd_type p, df_aggregate_kind = vd_aggregate_kind p,
     df_aggregate_name = vd_aggregate_name p, df_function_signature = vd_function_signature_name p, df_memory_signature = [], df_memory_count = 0\<rparr>"

definition find_global :: "ir_module \<Rightarrow> string \<Rightarrow> global_var option" where
  "find_global m name = find (\<lambda>g. gv_name g = name) (md_globals m)"

definition is_address_opcode :: "string \<Rightarrow> bool" where
  "is_address_opcode oc \<longleftrightarrow> oc = ''func.address'' \<or> oc = ''callback.address''"

definition is_global_opcode :: "string \<Rightarrow> bool" where
  "is_global_opcode oc \<longleftrightarrow> oc = ''global.address'' \<or> oc = ''tls.address''"

definition symbol_operand :: "operation \<Rightarrow> nat \<Rightarrow> string option" where
  "symbol_operand op i = (if i < length (op_operands op) \<and> is_symbol (op_operands op ! i) then Some (tl (op_operands op ! i)) else None)"

definition struct_or_array :: "bool \<Rightarrow> aggregate_ref_kind" where
  "struct_or_array structure = (if structure then ARK_structure else ARK_array)"

text \<open>The aggregate a result points at, as far as the operation says.\<close>

definition result_aggregate :: "ir_module \<Rightarrow> definitions \<Rightarrow> operation \<Rightarrow> aggregate_ref_kind \<times> string" where
  "result_aggregate m defs op =
     (let oc = op_opcode op; ops = op_operands op; scalar = (ARK_scalar, []);
          of_return = (\<lambda>f. if returns_aggregate f then (fn_return_aggregate_kind f, fn_return_aggregate_name f) else scalar);
          symbol = (\<lambda>i k. case symbol_operand op i of None \<Rightarrow> scalar | Some n \<Rightarrow> k n)
      in if oc \<in> {''stack.alloc.struct'', ''stack.alloc.array''} \<and> ops \<noteq> []
         then (struct_or_array (oc = ''stack.alloc.struct''), strip_symbol (ops ! 0))
         else if oc \<in> {''aggregate.move.struct'', ''aggregate.move.array'', ''aggregate.borrow.struct'', ''aggregate.borrow.array'',
             ''aggregate.borrow.mut.struct'', ''aggregate.borrow.mut.array'', ''aggregate.attach.struct'', ''aggregate.attach.array''} \<and>
             length ops = 2
         then (struct_or_array (ends_with oc ''struct''), strip_symbol (ops ! 1))
         else if oc = ''call''
         then symbol 0 (\<lambda>n. case find_function m n of None \<Rightarrow> scalar | Some f \<Rightarrow> of_return f)
         else if oc = ''call.indirect''
         then symbol 1 (\<lambda>n. case find_function m n of None \<Rightarrow> scalar | Some f \<Rightarrow> of_return f)
         else if is_global_opcode oc
         then symbol 0 (\<lambda>n. case find_global m n of None \<Rightarrow> scalar | Some g \<Rightarrow> (gv_aggregate_kind g, gv_aggregate_name g))
         else if oc = ''copy'' \<and> ops \<noteq> []
         then (case defs (ops ! 0) of None \<Rightarrow> scalar | Some d \<Rightarrow> (df_aggregate_kind d, df_aggregate_name d))
         else scalar)"

definition callback_attribute :: "operation \<Rightarrow> string option" where
  "callback_attribute op = map_option at_value (find (\<lambda>a. at_name a = ''callback.signature'') (op_attributes op))"

text \<open>The callback signature of a result, the signature of the callbacks it points at, and how many there are.\<close>

definition attribute_signatures :: "operation \<Rightarrow> string \<times> string \<times> u32" where
  "attribute_signatures op =
     (case callback_attribute op of
        None \<Rightarrow> ([], [], 0)
      | Some s \<Rightarrow> if op_opcode op = ''stack.alloc'' then ([], s, 1) else (s, [], 0))"

definition result_signatures :: "ir_module \<Rightarrow> definitions \<Rightarrow> operation \<Rightarrow> string \<times> string \<times> u32" where
  "result_signatures m defs op =
     (let oc = op_opcode op; ops = op_operands op; (fsig, msig, count) = attribute_signatures op
      in if is_address_opcode oc \<and> symbol_operand op 1 \<noteq> None then (the (symbol_operand op 1), msig, count)
         else if oc = ''func.address'' \<and> symbol_operand op 0 \<noteq> None then (the (symbol_operand op 0), msig, count)
         else if is_global_opcode oc \<and> symbol_operand op 0 \<noteq> None
         then (case find_global m (the (symbol_operand op 0)) of
                 None \<Rightarrow> (fsig, msig, count) | Some g \<Rightarrow> (fsig, gv_function_signature_name g, gv_element_count g))
         else if oc = ''callback.element.address'' \<and> ops \<noteq> []
         then (case defs (ops ! 0) of None \<Rightarrow> (fsig, msig, count) | Some d \<Rightarrow> (fsig, df_memory_signature d, 1))
         else if oc = ''load'' \<and> ops \<noteq> []
         then (case defs (ops ! 0) of None \<Rightarrow> (fsig, msig, count) | Some d \<Rightarrow> (df_memory_signature d, msig, count))
         else if oc = ''copy'' \<and> ops \<noteq> []
         then (case defs (ops ! 0) of None \<Rightarrow> (fsig, msig, count)
               | Some d \<Rightarrow> (df_function_signature d, df_memory_signature d, df_memory_count d))
         else (fsig, msig, count))"

definition result_type :: "operation \<Rightarrow> ir_type" where
  "result_type op = (if starts_with (op_opcode op) ''cmp.'' then TK_i1 else op_type op)"

definition declare_operation :: "ir_module \<Rightarrow> nat \<Rightarrow> nat \<times> operation \<Rightarrow> definition_state \<Rightarrow> definition_state" where
  "declare_operation m block iop st = (case iop of (i, op) \<Rightarrow>
     let defs = ds_definitions st; (kind, name) = result_aggregate m defs op; (fsig, msig, count) = result_signatures m defs op;
         st1 = (if is_address_opcode (op_opcode op) \<and> op_result op \<noteq> [] \<and> symbol_operand op 0 \<noteq> None
           then st\<lparr>ds_addresses := map_emplace (ds_addresses st) (op_result op) (the (symbol_operand op 0))\<rparr> else st)
     in if op_result op = [] then st1
        else declare_value (op_result op) \<lparr>df_block = block, df_operation = i + 1, df_type = result_type op, df_aggregate_kind = kind,
          df_aggregate_name = name, df_function_signature = fsig, df_memory_signature = msig, df_memory_count = count\<rparr> st1)"

definition declare_block :: "ir_module \<Rightarrow> nat \<times> ir_block \<Rightarrow> definition_state \<Rightarrow> definition_state" where
  "declare_block m ib st = (case ib of (i, b) \<Rightarrow>
     fold (declare_operation m i) (enumerate 0 (bl_operations b))
       (fold (\<lambda>p. declare_value (vd_name p) (parameter_definition i p)) (bl_parameters b) st))"

definition collect_definitions :: "ir_module \<Rightarrow> ir_function \<Rightarrow> definition_state" where
  "collect_definitions m f =
     fold (declare_block m) (enumerate 0 (fn_blocks f))
       (fold (\<lambda>p. declare_value (vd_name p) (parameter_definition 0 p)) (fn_parameters f)
          \<lparr>ds_definitions = Map.empty, ds_addresses = Map.empty, ds_reports = []\<rparr>)"

end
