(* ===== verification/Verifier_Ops.thy ===== *)
theory Verifier_Ops
  imports Verifier_Flow
begin

text \<open>
  The IR verifier (\<open>forge/src/ir/verifier.cpp\<close>), third part: the checks of the operations of a function. \<open>None\<close> is a
  check without a result: the source reads an operand or a list of successor arguments that is not there, or
  \<open>substr\<close> raises.
\<close>

text \<open>An operand, for the checks and messages that read it only where it is there.\<close>

definition operand_text :: "operation \<Rightarrow> nat \<Rightarrow> string" where
  "operand_text op i = (if i < length (op_operands op) then op_operands op ! i else [])"

section \<open>Uses\<close>

record function_facts =
  ff_definitions :: definitions
  ff_addresses :: "string \<rightharpoonup> string"
  ff_reachable :: "nat set"
  ff_dominators :: "nat set list"
  ff_origins :: origins

definition use_is_valid :: "function_facts \<Rightarrow> nat \<Rightarrow> nat \<Rightarrow> value_definition \<Rightarrow> bool" where
  "use_is_valid k block index d \<longleftrightarrow>
     (if block \<notin> ff_reachable k then True
      else if df_block d = block then df_operation d \<le> index
      else df_block d \<in> ff_dominators k ! block)"

definition verify_use :: "ir_function \<Rightarrow> function_facts \<Rightarrow> nat \<Rightarrow> nat \<Rightarrow> string \<Rightarrow> diagnostics" where
  "verify_use f k block index v =
     (if \<not> is_local v then []
      else case ff_definitions k v of
             None \<Rightarrow> [error_diagnostic (''use of undefined value '' @ v @ '' in function @'' @ fn_name f @ '' block '' @
                 bl_name (fn_blocks f ! block) @ '' operation '' @ to_string_nat index)]
           | Some d \<Rightarrow> report_if (\<not> use_is_valid k block index d)
               (''definition of '' @ v @ '' does not dominate its use in block '' @ bl_name (fn_blocks f ! block)))"

text \<open>The operands that are values: not the symbol a call names.\<close>

definition checked_operands :: "operation \<Rightarrow> string list" where
  "checked_operands op = map snd (filter (\<lambda>(i, v). \<not> (op_opcode op = ''call'' \<and> i = 0) \<and>
     \<not> (op_opcode op = ''call.indirect'' \<and> i = 1 \<and> is_symbol v)) (enumerate 0 (op_operands op)))"

definition verify_uses :: "ir_function \<Rightarrow> function_facts \<Rightarrow> nat \<Rightarrow> nat \<Rightarrow> operation \<Rightarrow> diagnostics" where
  "verify_uses f k block index op =
     each (verify_use f k block index) (checked_operands op) @ each (verify_use f k block index) (concat (op_successor_arguments op))"

section \<open>Operand types\<close>

definition operand_definition :: "definitions \<Rightarrow> operation \<Rightarrow> nat \<Rightarrow> value_definition option" where
  "operand_definition defs op i = (case list_at (op_operands op) i of None \<Rightarrow> None | Some v \<Rightarrow> defs v)"

definition operand_type :: "definitions \<Rightarrow> operation \<Rightarrow> nat \<Rightarrow> ir_type" where
  "operand_type defs op i = (case operand_definition defs op i of None \<Rightarrow> TK_void | Some d \<Rightarrow> df_type d)"

definition verify_branch_condition :: "definitions \<Rightarrow> string \<Rightarrow> operation \<Rightarrow> diagnostics" where
  "verify_branch_condition defs bname op =
     report_if (op_opcode op = ''branch'' \<and> (case operand_definition defs op 0 of None \<Rightarrow> False | Some d \<Rightarrow> df_type d \<noteq> TK_i1))
       (''branch condition must have type i1 in block '' @ bname)"

definition verify_callback_store :: "definitions \<Rightarrow> operation \<Rightarrow> diagnostics" where
  "verify_callback_store defs op =
     report_if (op_opcode op = ''store'' \<and> length (op_operands op) = 2 \<and>
         (case operand_definition defs op 1 of
            None \<Rightarrow> False
          | Some address \<Rightarrow> df_memory_signature address \<noteq> [] \<and>
              (case operand_definition defs op 0 of
                 None \<Rightarrow> True | Some v \<Rightarrow> df_function_signature v \<noteq> df_memory_signature address)))
       (''callback store signature mismatch for '' @ operand_text op 1)"

definition verify_address :: "ir_module \<Rightarrow> operation \<Rightarrow> diagnostics" where
  "verify_address m op =
     (let oc = op_opcode op; ops = op_operands op
      in if oc = ''global.address'' then
           (if (op_type op \<noteq> TK_ptr \<and> op_type op \<noteq> TK_i64) \<or> op_result op = [] \<or> length ops \<noteq> 1 \<or> \<not> is_symbol (operand_text op 0)
            then [error_diagnostic ''global.address requires pointer-sized ptr/i64 result and global symbol'']
            else report_if (find_global m (tl (operand_text op 0)) = None) (''unknown global address '' @ operand_text op 0))
         else if oc = ''tls.address'' then
           (if op_type op \<noteq> TK_ptr \<or> op_result op = [] \<or> length ops \<noteq> 1 \<or> \<not> is_symbol (operand_text op 0)
            then [error_diagnostic ''tls.address requires ptr result and TLS global symbol'']
            else case find_global m (tl (operand_text op 0)) of
                   None \<Rightarrow> [error_diagnostic (''unknown TLS address '' @ operand_text op 0)]
                 | Some g \<Rightarrow> report_if (\<not> gv_is_thread_local g) (''tls.address references non-TLS global '' @ operand_text op 0))
         else if is_address_opcode oc then
           (if op_type op \<noteq> TK_ptr \<or> op_result op = [] \<or> ops = [] \<or> length ops > 2 \<or> \<not> is_symbol (operand_text op 0)
            then [error_diagnostic ''func.address requires ptr result and function symbol'']
            else if oc = ''func.address''
            then report_if (\<not> has_function m (tl (operand_text op 0))) (''unknown function address '' @ operand_text op 0)
            else if length ops \<noteq> 2 \<or> \<not> is_symbol (operand_text op 1)
            then [error_diagnostic (''callback.address requires '' @ quoted ''as @signature'')]
            else report_if (\<not> is_signature_name m (tl (operand_text op 1))) (''unknown callback signature '' @ operand_text op 1))
         else [])"

section \<open>Calls\<close>

definition same_declared_value :: "value_decl \<Rightarrow> value_decl \<Rightarrow> bool" where
  "same_declared_value a b \<longleftrightarrow> vd_type a = vd_type b \<and> vd_aggregate_kind a = vd_aggregate_kind b \<and>
     vd_aggregate_name a = vd_aggregate_name b \<and> vd_owned a = vd_owned b \<and> vd_borrow_mode a = vd_borrow_mode b"

definition compatible_functions :: "ir_function \<Rightarrow> ir_function \<Rightarrow> bool" where
  "compatible_functions a b \<longleftrightarrow> fn_return_type a = fn_return_type b \<and> fn_return_aggregate_kind a = fn_return_aggregate_kind b \<and>
     fn_return_aggregate_name a = fn_return_aggregate_name b \<and> fn_return_owned a = fn_return_owned b \<and>
     fn_return_borrow_mode a = fn_return_borrow_mode b \<and> fn_return_borrow_parameter a = fn_return_borrow_parameter b \<and>
     fn_variadic a = fn_variadic b \<and> fn_calling_convention a = fn_calling_convention b \<and>
     list_all2 same_declared_value (fn_parameters a) (fn_parameters b)"

text \<open>A value passed for a parameter: its type, then its aggregate, then its callback signature must match.\<close>

definition verify_passed :: "value_decl \<Rightarrow> string \<Rightarrow> string \<Rightarrow> string \<Rightarrow> value_definition \<Rightarrow> diagnostics" where
  "verify_passed p type_message aggregate_message callback_message d =
     (if df_type d \<noteq> vd_type p then [error_diagnostic type_message]
      else if vd_is_aggregate p \<and> (df_aggregate_kind d \<noteq> vd_aggregate_kind p \<or> df_aggregate_name d \<noteq> vd_aggregate_name p)
      then [error_diagnostic aggregate_message]
      else report_if (vd_function_signature_name p \<noteq> [] \<and> df_function_signature d \<noteq> vd_function_signature_name p) callback_message)"

definition count_matches :: "ir_function \<Rightarrow> nat \<Rightarrow> bool" where
  "count_matches target n = (if fn_variadic target then n \<ge> length (fn_parameters target) else n = length (fn_parameters target))"

definition verify_indirect_argument :: "definitions \<Rightarrow> string \<Rightarrow> nat \<times> value_decl \<times> string \<Rightarrow> diagnostics" where
  "verify_indirect_argument defs sig ipa = (case ipa of (i, p, a) \<Rightarrow>
     (case defs a of
        None \<Rightarrow> []
      | Some d \<Rightarrow> verify_passed p
          (''indirect call argument type mismatch for signature '' @ sig @ '' argument '' @ to_string_nat i @ '': expected '' @
            type_str (vd_type p) @ '', got '' @ type_str (df_type d) @ '' from '' @ a)
          (''indirect call aggregate argument mismatch for signature '' @ sig)
          (''indirect call callback argument signature mismatch for '' @ sig) d))"

definition verify_indirect_target :: "ir_module \<Rightarrow> function_facts \<Rightarrow> operation \<Rightarrow> ir_function \<Rightarrow> diagnostics" where
  "verify_indirect_target m k op target =
     (let ops = op_operands op; sig = operand_text op 1; defs = ff_definitions k; pointer = defs (operand_text op 0)
      in (case pointer of
            None \<Rightarrow> []
          | Some d \<Rightarrow> report_if (df_function_signature d \<noteq> [] \<and> df_function_signature d \<noteq> fn_name target)
              (''function pointer '' @ operand_text op 0 @ '' has signature @'' @ df_function_signature d @ '' but indirect call requests '' @ sig)) @
         (case ff_addresses k (operand_text op 0) of
            None \<Rightarrow> []
          | Some n \<Rightarrow> report_if (case find_function m n of None \<Rightarrow> False | Some actual \<Rightarrow> \<not> compatible_functions actual target)
              (''function pointer @'' @ n @ '' is incompatible with indirect signature '' @ sig)) @
         report_if (op_type op \<noteq> fn_return_type target) (''indirect call return type mismatch for signature '' @ sig) @
         report_if (\<not> count_matches target (length ops - 2)) (''indirect call argument count mismatch for signature '' @ sig) @
         each (verify_indirect_argument defs sig) (enumerate 0 (zip (fn_parameters target) (drop 2 ops))))"

definition verify_indirect_call :: "ir_module \<Rightarrow> function_facts \<Rightarrow> operation \<Rightarrow> diagnostics" where
  "verify_indirect_call m k op =
     (let ops = op_operands op
      in (if ops = [] then [error_diagnostic ''call.indirect requires a function pointer'']
          else report_if (case ff_definitions k (operand_text op 0) of None \<Rightarrow> False | Some d \<Rightarrow> df_type d \<noteq> TK_ptr) ''call.indirect target must have type ptr'') @
         report_if (op_type op = TK_void \<and> op_result op \<noteq> []) ''void call.indirect cannot define a result'' @
         report_if (op_type op \<noteq> TK_void \<and> op_result op = []) ''value-returning call.indirect requires a result'' @
         (case symbol_operand op 1 of
            None \<Rightarrow> [error_diagnostic (''call.indirect requires '' @ quoted ''as @signature'' @ '' for typed indirect calls'')]
          | Some n \<Rightarrow> (case find_function m n of
                None \<Rightarrow> [error_diagnostic (''unknown indirect call signature '' @ operand_text op 1)]
              | Some target \<Rightarrow> verify_indirect_target m k op target)))"

definition producer_name :: "ir_function \<Rightarrow> value_definition \<Rightarrow> string" where
  "producer_name f d =
     (if df_operation d \<noteq> 0 \<and> df_block d < length (fn_blocks f) \<and> df_operation d - 1 < length (bl_operations (fn_blocks f ! df_block d))
      then op_opcode (bl_operations (fn_blocks f ! df_block d) ! (df_operation d - 1)) else ''parameter'')"

definition verify_argument :: "ir_function \<Rightarrow> definitions \<Rightarrow> string \<Rightarrow> string \<Rightarrow> nat \<times> value_decl \<times> string \<Rightarrow> diagnostics" where
  "verify_argument f defs bname callee ipa = (case ipa of (i, p, a) \<Rightarrow>
     (case defs a of
        None \<Rightarrow> []
      | Some d \<Rightarrow> verify_passed p
          (''call argument type mismatch in @'' @ fn_name f @ '' block '' @ bname @ '' for '' @ callee @ '' argument '' @ to_string_nat i @
            '': expected '' @ type_str (vd_type p) @ '', got '' @ type_str (df_type d) @ '' from '' @ a @ '' produced by '' @ producer_name f d)
          (''call aggregate argument mismatch for '' @ callee)
          (''call callback argument signature mismatch for '' @ callee) d))"

definition verify_call :: "ir_module \<Rightarrow> ir_function \<Rightarrow> definitions \<Rightarrow> string \<Rightarrow> operation \<Rightarrow> diagnostics" where
  "verify_call m f defs bname op =
     (let ops = op_operands op
      in case symbol_operand op 0 of
           None \<Rightarrow> [error_diagnostic ''call requires a function symbol'']
         | Some n \<Rightarrow> (case find_function m n of
               None \<Rightarrow> [error_diagnostic (''unknown callee '' @ operand_text op 0)]
             | Some target \<Rightarrow>
                 report_if (op_type op \<noteq> fn_return_type target) (''call return type mismatch for '' @ operand_text op 0) @
                 report_if (fn_return_type target = TK_void \<and> op_result op \<noteq> []) (''void call cannot define a result for '' @ operand_text op 0) @
                 report_if (fn_return_type target \<noteq> TK_void \<and> op_result op = []) (''value-returning call requires a result for '' @ operand_text op 0) @
                 report_if (\<not> count_matches target (length ops - 1)) (''call argument count mismatch for '' @ operand_text op 0) @
                 each (verify_argument f defs bname (operand_text op 0)) (enumerate 0 (zip (fn_parameters target) (drop 1 ops)))))"

text \<open>The checks on symbols that come before the flow of the function is known.\<close>

definition verify_symbols :: "ir_module \<Rightarrow> operation \<Rightarrow> diagnostics" where
  "verify_symbols m op =
     (let oc = op_opcode op; ops = op_operands op
      in report_if (oc = ''call'' \<and> (case symbol_operand op 0 of None \<Rightarrow> False | Some n \<Rightarrow> is_signature_name m n))
           (''cannot directly call signature '' @ operand_text op 0) @
         (case (if is_address_opcode oc then symbol_operand op 0 else None) of
            None \<Rightarrow> []
          | Some n \<Rightarrow>
              report_if (is_signature_name m n) (''cannot take address of signature '' @ operand_text op 0) @
              (case (if length ops = 2 then symbol_operand op 1 else None) of
                 None \<Rightarrow> []
               | Some s \<Rightarrow>
                   if \<not> is_signature_name m s then [error_diagnostic ''func.address as target must name a signature declaration'']
                   else report_if (case (find_function m n, find_function m s) of
                          (Some a, Some b) \<Rightarrow> \<not> compatible_functions a b | _ \<Rightarrow> False)
                     (''function '' @ operand_text op 0 @ '' is incompatible with signature '' @ operand_text op 1))) @
         report_if (oc \<in> {''aggregate.copy.struct'', ''aggregate.copy.array''} \<and> length ops \<ge> 3 \<and>
             aggregate_is_move_only m (struct_or_array (oc = ''aggregate.copy.struct'')) (strip_symbol (operand_text op 2)))
           (''cannot copy move-only aggregate @'' @ strip_symbol (operand_text op 2)))"

section \<open>Arithmetic and conversions\<close>

definition verify_comparison :: "definitions \<Rightarrow> string \<Rightarrow> operation \<Rightarrow> diagnostics" where
  "verify_comparison defs bname op =
     report_if (starts_with (op_opcode op) ''cmp.'' \<and>
         (operand_type defs op 0 \<noteq> op_type op \<or> operand_type defs op 1 \<noteq> op_type op \<or>
          (\<not> is_integer (op_type op) \<and> \<not> (is_float (op_type op) \<and>
             op_opcode op \<in> {''cmp.eq'', ''cmp.ne'', ''cmp.lt'', ''cmp.le'', ''cmp.gt'', ''cmp.ge''}))))
       (''comparison requires matching supported numeric operands in block '' @ bname)"

definition verify_select :: "definitions \<Rightarrow> string \<Rightarrow> operation \<Rightarrow> diagnostics" where
  "verify_select defs bname op =
     report_if (op_opcode op = ''select'' \<and>
         (length (op_operands op) \<noteq> 3 \<or> operand_type defs op 0 \<noteq> TK_i1 \<or> operand_type defs op 1 \<noteq> op_type op \<or>
          operand_type defs op 2 \<noteq> op_type op \<or> (\<not> is_integer (op_type op) \<and> op_type op \<noteq> TK_ptr)))
       (''select requires i1 condition and matching integer operands in block '' @ bname)"

definition verify_arithmetic :: "definitions \<Rightarrow> string \<Rightarrow> operation \<Rightarrow> diagnostics" where
  "verify_arithmetic defs bname op =
     report_if (op_opcode op \<in> {''add'', ''sub'', ''mul'', ''div''} \<and>
         (operand_type defs op 0 \<noteq> op_type op \<or> operand_type defs op 1 \<noteq> op_type op \<or> \<not> is_numeric (op_type op) \<or>
          (op_opcode op = ''div'' \<and> \<not> is_float (op_type op))))
       (op_opcode op @ '' requires matching numeric operands in block '' @ bname) @
     report_if (op_opcode op = ''neg'' \<and> operand_type defs op 0 \<noteq> op_type op) (''neg requires a matching operand type in block '' @ bname)"

definition integer_width :: "ir_type \<Rightarrow> nat" where
  "integer_width t = (if is_integer t then bit_width t else 0)"

definition verify_conversion :: "definitions \<Rightarrow> string \<Rightarrow> operation \<Rightarrow> diagnostics" where
  "verify_conversion defs bname op =
     (let oc = op_opcode op; source = operand_type defs op 0; result = op_type op; one = length (op_operands op) = 1
      in report_if (oc = ''bitcast'' \<and> \<not> (one \<and> (source, result) \<in> {(TK_ptr, TK_i64), (TK_i64, TK_ptr), (TK_ptr, TK_ptr)}))
           (''bitcast requires ptr/i64-compatible source and result in block '' @ bname) @
         (if oc \<in> {''zero_extend'', ''sign_extend'', ''truncate''} then
            (if \<not> one \<or> \<not> is_integer source \<or> \<not> is_integer result
             then [error_diagnostic (oc @ '' requires one integer operand and integer result in block '' @ bname)]
             else report_if (if oc \<in> {''zero_extend'', ''sign_extend''} then integer_width source \<ge> integer_width result
                    else integer_width source \<le> integer_width result)
               (oc @ '' has invalid integer widths in block '' @ bname))
          else []) @
         report_if ((oc \<in> {''int_to_float.signed'', ''int_to_float.unsigned''} \<and> \<not> (one \<and> is_integer source \<and> is_float result)) \<or>
             (oc \<in> {''float_to_int.signed'', ''float_to_int.unsigned''} \<and> \<not> (one \<and> is_float source \<and> is_integer result)) \<or>
             (oc \<in> {''float_extend'', ''float_truncate''} \<and> \<not> (one \<and> is_float source \<and> is_float result \<and> source \<noteq> result)))
           (oc @ '' has incompatible source/result types in block '' @ bname))"

section \<open>Memory and aggregates\<close>

definition verify_alignment :: "string \<Rightarrow> operation \<Rightarrow> diagnostics" where
  "verify_alignment bname op =
     (if op_alignment op = 0 then []
      else if op_opcode op \<notin> {''stack.alloc'', ''stack.alloc.struct'', ''stack.alloc.array'', ''load'', ''store''}
      then [error_diagnostic (''alignment is only valid on stack allocation, load, or store in block '' @ bname)]
      else report_if (\<not> is_word_power (op_alignment op) \<or> op_alignment op > 4096)
        (''alignment must be a power of two no greater than 16 in block '' @ bname))"

text \<open>Operand \<open>i\<close> of an operation with \<open>n\<close> operands names a structure, or an array.\<close>

definition known_aggregate :: "ir_module \<Rightarrow> bool \<Rightarrow> operation \<Rightarrow> nat \<Rightarrow> nat \<Rightarrow> bool" where
  "known_aggregate m structure op n i \<longleftrightarrow> length (op_operands op) = n \<and>
     (case symbol_operand op i of None \<Rightarrow> False | Some name \<Rightarrow> if structure then has_struct m name else has_array m name)"

definition verify_stack :: "ir_module \<Rightarrow> string \<Rightarrow> operation \<Rightarrow> diagnostics" where
  "verify_stack m bname op =
     report_if (op_opcode op = ''stack.alloc'' \<and> op_type op \<noteq> TK_ptr) (''stack.alloc must produce ptr in block '' @ bname) @
     report_if (op_opcode op \<in> {''stack.alloc.struct'', ''stack.alloc.array''} \<and>
         (op_type op \<noteq> TK_ptr \<or> op_result op = [] \<or> \<not> known_aggregate m (op_opcode op = ''stack.alloc.struct'') op 1 0))
       (op_opcode op @ '' requires a known aggregate and ptr result in block '' @ bname)"

definition verify_zero_and_copy :: "ir_module \<Rightarrow> definitions \<Rightarrow> string \<Rightarrow> operation \<Rightarrow> diagnostics" where
  "verify_zero_and_copy m defs bname op =
     report_if (op_opcode op \<in> {''aggregate.zero.struct'', ''aggregate.zero.array''} \<and>
         \<not> (op_type op = TK_void \<and> op_result op = [] \<and> known_aggregate m (op_opcode op = ''aggregate.zero.struct'') op 2 1 \<and>
            operand_type defs op 0 = TK_ptr))
       (op_opcode op @ '' requires destination ptr, known aggregate, void type, and no result in block '' @ bname) @
     report_if (op_opcode op \<in> {''aggregate.copy.struct'', ''aggregate.copy.array''} \<and>
         \<not> (op_type op = TK_void \<and> op_result op = [] \<and> known_aggregate m (op_opcode op = ''aggregate.copy.struct'') op 3 2 \<and>
            operand_type defs op 0 = TK_ptr \<and> operand_type defs op 1 = TK_ptr))
       (op_opcode op @ '' requires destination ptr, source ptr, known aggregate, void type, and no result in block '' @ bname)"

text \<open>
  Whether the first operand is the aggregate the second names. The source reads the second operand, and takes its tail,
  once the first has the right kind: without one the result is \<open>None\<close>.
\<close>

definition names_aggregate :: "definitions \<Rightarrow> bool \<Rightarrow> operation \<Rightarrow> bool option" where
  "names_aggregate defs structure op =
     (case operand_definition defs op 0 of
        None \<Rightarrow> Some False
      | Some d \<Rightarrow>
          if df_aggregate_kind d \<noteq> struct_or_array structure then Some False
          else case list_at (op_operands op) 1 of
                 None \<Rightarrow> None
               | Some s \<Rightarrow> if s = [] then None else Some (df_aggregate_name d = tl s))"

definition verify_transfer :: "ir_module \<Rightarrow> definitions \<Rightarrow> string \<Rightarrow> operation \<Rightarrow> diagnostics option" where
  "verify_transfer m defs bname op =
     (let oc = op_opcode op; structure = ends_with oc ''struct''; known = known_aggregate m structure op 2 1;
          identity = names_aggregate defs structure op; in_block = '' in block '' @ bname;
          produces = op_type op = TK_ptr \<and> op_result op \<noteq> []; no_result = op_type op = TK_void \<and> op_result op = []
      in if oc \<in> {''aggregate.move.struct'', ''aggregate.move.array'', ''aggregate.borrow.struct'', ''aggregate.borrow.array'',
             ''aggregate.borrow.mut.struct'', ''aggregate.borrow.mut.array''}
         then map_option (\<lambda>same. report_if (\<not> (produces \<and> known \<and> same))
                (oc @ '' requires a matching named aggregate source and ptr result'' @ in_block)) identity
         else if oc \<in> {''aggregate.attach.struct'', ''aggregate.attach.array''}
         then Some (report_if (\<not> (produces \<and> known \<and> operand_type defs op 0 = TK_ptr))
                (oc @ '' requires a ptr source, known aggregate, and ptr result'' @ in_block))
         else if oc \<in> {''aggregate.borrow.end.struct'', ''aggregate.borrow.end.array''}
         then map_option (\<lambda>same. report_if (\<not> (no_result \<and> known \<and> same))
                (oc @ '' requires a matching aggregate borrow, void type, and no result'' @ in_block)) identity
         else if oc \<in> {''aggregate.end.struct'', ''aggregate.end.array''}
         then map_option (\<lambda>same. report_if (\<not> (no_result \<and> known \<and> same))
                (oc @ '' requires a matching named aggregate source, void type, and no result'' @ in_block)) identity
         else Some [])"

text \<open>\<open>std::from_chars\<close> into a \<open>uint32_t\<close> that takes the whole text.\<close>

definition parse_uint32 :: "string \<Rightarrow> nat option" where
  "parse_uint32 s = (if s = [] \<or> \<not> list_all isdigit s \<or> 2 ^ 32 \<le> digits_value s then None else Some (digits_value s))"

definition has_pointer_base :: "definitions \<Rightarrow> operation \<Rightarrow> bool" where
  "has_pointer_base defs op \<longleftrightarrow> op_type op = TK_ptr \<and> length (op_operands op) = 3 \<and> operand_type defs op 0 = TK_ptr \<and> symbol_operand op 1 \<noteq> None"

text \<open>A dynamic index is a value of type i64, a constant one a number in range.\<close>

definition valid_index :: "definitions \<Rightarrow> (nat \<Rightarrow> bool) \<Rightarrow> string \<Rightarrow> bool" where
  "valid_index defs in_range s \<longleftrightarrow>
     (if is_local s then (case defs s of None \<Rightarrow> False | Some d \<Rightarrow> df_type d = TK_i64)
      else case parse_uint32 s of None \<Rightarrow> False | Some n \<Rightarrow> in_range n)"

definition verify_element_address :: "ir_module \<Rightarrow> definitions \<Rightarrow> string \<Rightarrow> operation \<Rightarrow> diagnostics" where
  "verify_element_address m defs bname op =
     (let oc = op_opcode op; ops = op_operands op; base = has_pointer_base defs op; name = tl (operand_text op 1); in_block = '' in block '' @ bname
      in if oc \<in> {''ptr.offset'', ''field.address''} then
           report_if (op_type op \<noteq> TK_ptr \<or> length ops \<noteq> 2 \<or> operand_type defs op 0 \<noteq> TK_ptr)
             (oc @ '' requires a ptr base, byte offset, and ptr result'' @ in_block)
         else if oc = ''struct.field.address'' then
           report_if (\<not> (base \<and> (case find_struct m name of None \<Rightarrow> False
               | Some s \<Rightarrow> (case parse_uint32 (operand_text op 2) of None \<Rightarrow> False | Some n \<Rightarrow> n < length (sd_fields s)))))
             (''struct.field.address requires a ptr base, known structure, valid field index, and ptr result'' @ in_block)
         else if oc = ''struct.field.name.address'' then
           report_if (\<not> (base \<and> (case find_struct m name of None \<Rightarrow> False | Some s \<Rightarrow> operand_text op 2 \<in> set (map sf_name (sd_fields s)))))
             (''struct.field.name.address requires a ptr base, known structure, known field name, and ptr result'' @ in_block)
         else if oc = ''callback.element.address'' then
           report_if (\<not> (base \<and> is_signature_name m name \<and>
               (case defs (operand_text op 0) of None \<Rightarrow> False
                | Some d \<Rightarrow> df_memory_signature d = name \<and>
                    valid_index defs (\<lambda>n. df_memory_count d = 0 \<or> n < unat (df_memory_count d)) (operand_text op 2))))
             (''callback.element.address requires callback storage, matching signature, i64 or in-range constant index, and ptr result'' @ in_block)
         else if oc = ''array.element.address'' then
           report_if (\<not> (base \<and> (case find_array m name of None \<Rightarrow> False
               | Some a \<Rightarrow> valid_index defs (\<lambda>n. n < unat (ad_element_count a)) (operand_text op 2))))
             (''array.element.address requires a ptr base, known array, i64 or in-range constant element index, and ptr result'' @ in_block)
         else if oc \<in> {''sizeof.array'', ''alignof.array''} then
           report_if (\<not> (op_type op = TK_i64 \<and> known_aggregate m False op 1 0)) (oc @ '' requires a known array and i64 result'' @ in_block)
         else if oc \<in> {''sizeof.struct'', ''alignof.struct''} then
           report_if (\<not> (op_type op = TK_i64 \<and> known_aggregate m True op 1 0)) (oc @ '' requires a known structure and i64 result'' @ in_block)
         else [])"

definition verify_memory :: "definitions \<Rightarrow> string \<Rightarrow> operation \<Rightarrow> diagnostics" where
  "verify_memory defs bname op =
     (let oc = op_opcode op; t = operand_type defs op;
          bulk = op_type op = TK_void \<and> op_result op = [] \<and> length (op_operands op) = 3
      in report_if (oc = ''load'' \<and> t 0 \<noteq> TK_ptr) (''load address must have type ptr in block '' @ bname) @
         report_if (oc = ''store'' \<and> (t 0 \<noteq> op_type op \<or> t 1 \<noteq> TK_ptr))
           (''store requires a matching value type and ptr address in block '' @ bname) @
         report_if (oc = ''memory.copy'' \<and> \<not> (bulk \<and> t 0 = TK_ptr \<and> t 1 = TK_ptr \<and> t 2 = TK_i64))
           (''memory.copy requires destination ptr, source ptr, i64 byte count, void type, and no result in block '' @ bname) @
         report_if (oc = ''memory.set'' \<and> \<not> (bulk \<and> t 0 = TK_ptr \<and> t 1 = TK_i8 \<and> t 2 = TK_i64))
           (''memory.set requires destination ptr, i8 value, i64 byte count, void type, and no result in block '' @ bname))"

section \<open>Control transfer\<close>

definition verify_block_argument :: "definitions \<Rightarrow> value_decl \<times> string \<Rightarrow> diagnostics" where
  "verify_block_argument defs pa = (case pa of (p, a) \<Rightarrow>
     (case defs a of
        None \<Rightarrow> []
      | Some d \<Rightarrow> verify_passed p (''type mismatch for block argument '' @ a) (''aggregate identity mismatch for block argument '' @ a)
          (''callback signature mismatch for block argument '' @ a) d))"

text \<open>Successor \<open>e\<close>; the source reads its arguments without a check that there is a list of them.\<close>

definition verify_successor :: "ir_function \<Rightarrow> definitions \<Rightarrow> operation \<Rightarrow> nat \<times> string \<Rightarrow> diagnostics option" where
  "verify_successor f defs op es = (case es of (e, s) \<Rightarrow>
     (case block_index f s of
        None \<Rightarrow> Some [error_diagnostic (''unknown successor '' @ s)]
      | Some target \<Rightarrow>
          (case list_at (op_successor_arguments op) e of
             None \<Rightarrow> None
           | Some args \<Rightarrow>
               (let ps = bl_parameters (fn_blocks f ! target)
                in Some (report_if (length ps \<noteq> length args) (''successor '' @ s @ '' expects '' @ to_string_nat (length ps) @
                       '' arguments but received '' @ to_string_nat (length args)) @
                     each (verify_block_argument defs) (zip ps args))))))"

text \<open>A sequence of checks, some of which may have no result.\<close>

fun all_reports :: "diagnostics option list \<Rightarrow> diagnostics option" where
  "all_reports [] = Some []"
| "all_reports (None # rs) = None"
| "all_reports (Some ds # rs) = map_option ((@) ds) (all_reports rs)"

definition verify_operation :: "ir_module \<Rightarrow> ir_function \<Rightarrow> function_facts \<Rightarrow> nat \<Rightarrow> nat \<times> operation \<Rightarrow> diagnostics option" where
  "verify_operation m f k block iop = (case iop of (index, op) \<Rightarrow>
     let b = fn_blocks f ! block; bname = bl_name b; defs = ff_definitions k; oc = op_opcode op
     in all_reports ([Some (verify_uses f k block index op), Some (verify_branch_condition defs bname op), Some (verify_callback_store defs op),
          Some (verify_address m op),
          Some (if oc = ''call.indirect'' then verify_indirect_call m k op else []),
          Some (if oc = ''call'' then verify_call m f defs bname op else []),
          Some (verify_comparison defs bname op), Some (verify_select defs bname op), Some (verify_arithmetic defs bname op),
          Some (verify_conversion defs bname op), Some (verify_alignment bname op), Some (verify_stack m bname op),
          Some (verify_zero_and_copy m defs bname op), verify_transfer m defs bname op, Some (verify_element_address m defs bname op),
          Some (verify_memory defs bname op),
          Some (report_if (is_terminator op \<and> index + 1 \<noteq> length (bl_operations b)) (''terminator is not last in block '' @ bname))] @
        map (verify_successor f defs op) (enumerate 0 (op_successors op))))"

definition verify_borrowed_return :: "ir_function \<Rightarrow> origins \<Rightarrow> string \<Rightarrow> diagnostics" where
  "verify_borrowed_return f os v =
     (let parameter = sint (fn_return_borrow_parameter f);
          wrong = (\<lambda>actual. [error_diagnostic (''borrowed return from @'' @ fn_name f @ '' must derive from parameter '' @ to_string_int parameter @
            '', but resolved '' @ actual)])
      in case os v of
           None \<Rightarrow> wrong (''untracked value '' @ v)
         | Some o1 \<Rightarrow>
             if int (bo_parameter o1) \<noteq> parameter then wrong (''parameter '' @ to_string_nat (bo_parameter o1) @ '' via '' @ bo_path o1)
             else report_if (fn_return_borrow_mode f = BM_mutable \<and> bo_mode o1 \<noteq> BM_mutable)
               (''mutable borrowed return from @'' @ fn_name f @ '' lost mutable provenance''))"

definition verify_returned :: "ir_function \<Rightarrow> function_facts \<Rightarrow> operation \<Rightarrow> diagnostics" where
  "verify_returned f k op =
     (if op_opcode op \<noteq> ''return'' then []
      else if (fn_return_type f \<noteq> TK_void) \<noteq> (op_operands op \<noteq> []) then [error_diagnostic (''return value mismatch in @'' @ fn_name f)]
      else if op_operands op = [] then []
      else (case ff_definitions k (operand_text op 0) of
              None \<Rightarrow> []
            | Some d \<Rightarrow>
                if df_type d \<noteq> fn_return_type f then [error_diagnostic (''return type mismatch in @'' @ fn_name f)]
                else report_if (returns_aggregate f \<and> df_type d \<noteq> TK_ptr) (''aggregate return in @'' @ fn_name f @ '' must return a pointer'')) @
           (if fn_return_borrow_mode f \<noteq> BM_none then verify_borrowed_return f (ff_origins k) (operand_text op 0) else []))"

definition verify_block :: "ir_module \<Rightarrow> ir_function \<Rightarrow> function_facts \<Rightarrow> nat \<times> ir_block \<Rightarrow> diagnostics option" where
  "verify_block m f k ib = (case ib of (block, b) \<Rightarrow>
     if bl_operations b = [] then Some [error_diagnostic (''block '' @ bl_name b @ '' is empty'')]
     else let t = last (bl_operations b)
          in all_reports (map (verify_operation m f k block) (enumerate 0 (bl_operations b)) @
               [Some (report_if (\<not> is_terminator t) (''block '' @ bl_name b @ '' has no terminator'')), Some (verify_returned f k t)]))"

end
