(* ===== verification/Verifier.thy ===== *)
theory Verifier
  imports Verifier_Ops
begin

text \<open>
  The IR verifier (\<open>forge/src/ir/verifier.cpp\<close>), last part: the two ownership analyses, of moved aggregates and of
  borrows, and \<open>verify_module\<close> itself. Its value is the list of diagnostics, or \<open>None\<close> when it does not return one:
  a loop that never ends, an operand that is not there, an exception.
\<close>

section \<open>Moved aggregates\<close>

text \<open>The sets at the entry and the exit of every block.\<close>

type_synonym block_sets = "(string set \<times> string set) list"

definition ends_ownership :: "string \<Rightarrow> bool" where
  "ends_ownership oc \<longleftrightarrow> oc \<in> {''aggregate.move.struct'', ''aggregate.move.array'', ''aggregate.borrow.end.struct'',
     ''aggregate.borrow.end.array'', ''aggregate.end.struct'', ''aggregate.end.array''}"

definition note_move :: "operation \<Rightarrow> string set \<Rightarrow> string set" where
  "note_move op moved =
     (case op_operands op of
        [] \<Rightarrow> moved
      | v # _ \<Rightarrow> if ends_ownership (op_opcode op) \<and> is_local v then insert v moved else moved)"

definition flow_step ::
  "(operation \<Rightarrow> string set \<Rightarrow> string set) \<Rightarrow> string set \<Rightarrow> ir_function \<Rightarrow> nat \<Rightarrow> block_sets \<Rightarrow> block_sets option" where
  "flow_step note entry f i sets =
     (let incoming = (if i = 0 then entry else {}) \<union> \<Union> (set (map (\<lambda>p. snd (sets ! p)) (predecessors_of f i)));
          outgoing = fold note (bl_operations (fn_blocks f ! i)) incoming
      in if (incoming, outgoing) = sets ! i then None else Some (sets[i := (incoming, outgoing)]))"

definition solve_flow :: "(operation \<Rightarrow> string set \<Rightarrow> string set) \<Rightarrow> string set \<Rightarrow> ir_function \<Rightarrow> block_sets option" where
  "solve_flow note entry f =
     iterate (sweep (flow_step note entry f) [0..<length (fn_blocks f)]) (replicate (length (fn_blocks f)) ({}, {}))"

definition moved_uses :: "string \<Rightarrow> string set \<Rightarrow> operation \<Rightarrow> diagnostics" where
  "moved_uses bname moved op =
     each (\<lambda>(i, v). report_if (\<not> (op_opcode op = ''call'' \<and> i = 0) \<and> is_local v \<and> v \<in> moved)
       (''use of moved aggregate '' @ v @ '' in block '' @ bname)) (enumerate (0 :: nat) (op_operands op)) @
     each (\<lambda>v. report_if (is_local v \<and> v \<in> moved)
       (''use of moved aggregate '' @ v @ '' on control-flow edge from block '' @ bname)) (concat (op_successor_arguments op))"

fun verify_moves :: "string \<Rightarrow> operation list \<Rightarrow> string set \<Rightarrow> diagnostics" where
  "verify_moves bname [] moved = []"
| "verify_moves bname (op # ops) moved = moved_uses bname moved op @ verify_moves bname ops (note_move op moved)"

definition verify_ownership :: "ir_function \<Rightarrow> diagnostics option" where
  "verify_ownership f =
     map_option (\<lambda>sets. concat (map (\<lambda>(b, moved, _). verify_moves (bl_name b) (bl_operations b) moved) (zip (fn_blocks f) sets)))
       (solve_flow note_move {} f)"

section \<open>Borrows and provenance\<close>

record borrow_info =
  bi_root :: string
  bi_mutable :: bool
  bi_parent :: string

text \<open>The borrow a pointer is derived from, and whether it is a mutable one.\<close>

type_synonym provenance = "string \<rightharpoonup> string \<times> bool"
type_synonym borrows = "string \<rightharpoonup> borrow_info"

definition is_borrow_opcode :: "string \<Rightarrow> bool" where
  "is_borrow_opcode oc \<longleftrightarrow> oc \<in> {''aggregate.borrow.struct'', ''aggregate.borrow.array'', ''aggregate.borrow.mut.struct'', ''aggregate.borrow.mut.array''}"

definition is_borrow_end :: "string \<Rightarrow> bool" where
  "is_borrow_end oc \<longleftrightarrow> oc = ''aggregate.borrow.end.struct'' \<or> oc = ''aggregate.borrow.end.array''"

definition new_borrow :: "string \<Rightarrow> string \<Rightarrow> bool \<Rightarrow> borrows \<times> provenance \<Rightarrow> borrows \<times> provenance" where
  "new_borrow result source is_mutable bp = (case bp of (bs, ps) \<Rightarrow>
     let parent = (case ps source of None \<Rightarrow> [] | Some (b, _) \<Rightarrow> b);
         root = (case ps source of None \<Rightarrow> source | Some (b, _) \<Rightarrow> (case bs b of None \<Rightarrow> source | Some i \<Rightarrow> bi_root i))
     in (map_emplace bs result \<lparr>bi_root = root, bi_mutable = is_mutable, bi_parent = parent\<rparr>, map_emplace ps result (result, is_mutable)))"

definition note_borrow :: "ir_module \<Rightarrow> operation \<Rightarrow> borrows \<times> provenance \<Rightarrow> borrows \<times> provenance" where
  "note_borrow m op bp =
     (if op_result op = [] \<or> op_operands op = [] then bp
      else if is_borrow_opcode (op_opcode op)
      then new_borrow (op_result op) (op_operands op ! 0) (starts_with (op_opcode op) ''aggregate.borrow.mut'') bp
      else case borrowed_argument m op of
             None \<Rightarrow> bp
           | Some (f, a) \<Rightarrow> new_borrow (op_result op) a (fn_return_borrow_mode f = BM_mutable) bp)"

definition parameter_borrows :: "ir_function \<Rightarrow> borrows \<times> provenance" where
  "parameter_borrows f = fold (\<lambda>p (bs, ps). if vd_borrow_mode p = BM_none then (bs, ps)
      else (map_emplace bs (vd_name p) \<lparr>bi_root = vd_name p, bi_mutable = (vd_borrow_mode p = BM_mutable), bi_parent = []\<rparr>,
            map_emplace ps (vd_name p) (vd_name p, vd_borrow_mode p = BM_mutable)))
     (fn_parameters f) (Map.empty, Map.empty)"

definition entry_borrows :: "ir_function \<Rightarrow> string set" where
  "entry_borrows f = set (map vd_name (filter (\<lambda>p. vd_borrow_mode p \<noteq> BM_none) (fn_parameters f)))"

definition collect_borrows :: "ir_module \<Rightarrow> ir_function \<Rightarrow> borrows \<times> provenance" where
  "collect_borrows m f = fold (note_borrow m) (all_operations f) (parameter_borrows f)"

definition propagates_provenance :: "string \<Rightarrow> bool" where
  "propagates_provenance oc \<longleftrightarrow> oc \<in> {''ptr.offset'', ''field.address'', ''struct.field.address'', ''struct.field.name.address'',
     ''array.element.address'', ''callback.element.address''}"

definition operation_provenance :: "operation \<Rightarrow> provenance \<Rightarrow> provenance option" where
  "operation_provenance op ps =
     (if op_result op = [] \<or> \<not> propagates_provenance (op_opcode op) \<or> op_operands op = [] \<or> ps (op_result op) \<noteq> None then None
      else map_option (\<lambda>s. ps(op_result op \<mapsto> s)) (ps (op_operands op ! 0)))"

text \<open>
  Block parameters: every predecessor must pass something, and all of it must derive from one borrow. Every
  block the source looks at here has an operation: the edge comes from one.
\<close>

fun same_provenance :: "provenance \<Rightarrow> string list \<Rightarrow> (string \<times> bool) option \<Rightarrow> (string \<times> bool) option" where
  "same_provenance ps [] c = c"
| "same_provenance ps (a # as) c =
     (case ps a of
        None \<Rightarrow> None
      | Some s \<Rightarrow> (case c of None \<Rightarrow> same_provenance ps as (Some s) | Some k \<Rightarrow> if k = s then same_provenance ps as c else None))"

definition parameter_provenance :: "ir_function \<Rightarrow> nat \<times> nat \<Rightarrow> provenance \<Rightarrow> provenance option" where
  "parameter_provenance f tk ps = (case tk of (target, k) \<Rightarrow>
     let b = fn_blocks f ! target; p = vd_name (bl_parameters b ! k);
         passes = (\<lambda>i. edge_arguments (last (bl_operations (fn_blocks f ! i))) (bl_name b) k \<noteq> [])
     in if ps p \<noteq> None \<or> predecessors_of f target = [] \<or> \<not> list_all passes (predecessors_of f target) then None
        else map_option (\<lambda>s. ps(p \<mapsto> s)) (same_provenance ps (incoming_arguments f target k) None))"

definition block_provenance :: "ir_function \<Rightarrow> nat \<Rightarrow> provenance \<times> bool \<Rightarrow> provenance \<times> bool" where
  "block_provenance f i st = (case st of (ps, changed) \<Rightarrow>
     let b = fn_blocks f ! i; (ps1, c1) = sweep operation_provenance (bl_operations b) ps;
         (ps2, c2) = sweep (parameter_provenance f) (map (Pair i) [0..<length (bl_parameters b)]) ps1
     in (ps2, changed \<or> c1 \<or> c2))"

definition solve_provenance :: "ir_function \<Rightarrow> provenance \<Rightarrow> provenance option" where
  "solve_provenance f = iterate (\<lambda>ps. fold (block_provenance f) [0..<length (fn_blocks f)] (ps, False))"

section \<open>Active borrows\<close>

definition start_borrow :: "borrows \<Rightarrow> operation \<Rightarrow> string set \<Rightarrow> string set" where
  "start_borrow bs op active =
     (case bs (op_result op) of
        None \<Rightarrow> active
      | Some i \<Rightarrow> insert (op_result op) (if bi_mutable i \<and> bi_parent i \<noteq> [] then active - {bi_parent i} else active))"

definition end_borrow :: "borrows \<Rightarrow> operation \<Rightarrow> string set \<Rightarrow> string set" where
  "end_borrow bs op active =
     (if \<not> is_borrow_end (op_opcode op) \<or> op_operands op = [] then active
      else let v = op_operands op ! 0
           in case bs v of
                None \<Rightarrow> active - {v}
              | Some i \<Rightarrow> if bi_mutable i \<and> bi_parent i \<noteq> [] then insert (bi_parent i) (active - {v}) else active - {v})"

definition note_active :: "borrows \<Rightarrow> operation \<Rightarrow> string set \<Rightarrow> string set" where
  "note_active bs op active = end_borrow bs op (start_borrow bs op active)"

definition mutation_destination :: "operation \<Rightarrow> nat option" where
  "mutation_destination op =
     (if op_opcode op = ''store'' then Some 1
      else if op_opcode op \<in> {''memory.set'', ''memory.copy'', ''aggregate.zero.struct'', ''aggregate.zero.array'',
        ''aggregate.copy.struct'', ''aggregate.copy.array''} then Some 0
      else None)"

definition is_borrowed :: "borrows \<Rightarrow> string set \<Rightarrow> string \<Rightarrow> bool" where
  "is_borrowed bs active root \<longleftrightarrow> (\<exists>b \<in> active. case bs b of None \<Rightarrow> False | Some i \<Rightarrow> bi_root i = root)"

definition verify_derived :: "provenance \<Rightarrow> string \<Rightarrow> string set \<Rightarrow> operation \<Rightarrow> diagnostics" where
  "verify_derived ps bname active op =
     each (\<lambda>(i, v). if is_borrow_end (op_opcode op) \<and> i = 0 then []
         else case ps v of
                None \<Rightarrow> []
              | Some (b, _) \<Rightarrow> report_if (b \<notin> active) (''use of pointer derived from inactive aggregate borrow '' @ b @ '' in block '' @ bname))
       (enumerate (0 :: nat) (op_operands op)) @
     (case mutation_destination op of
        None \<Rightarrow> []
      | Some d \<Rightarrow> (case (case list_at (op_operands op) d of None \<Rightarrow> None | Some v \<Rightarrow> ps v) of
            None \<Rightarrow> []
          | Some (b, is_mutable) \<Rightarrow> report_if (\<not> is_mutable) (''cannot mutate through immutable aggregate borrow '' @ b @ '' in block '' @ bname)))"

definition verify_lent_argument :: "borrows \<Rightarrow> provenance \<Rightarrow> string \<Rightarrow> string set \<Rightarrow> string \<Rightarrow> value_decl \<times> string \<Rightarrow> diagnostics" where
  "verify_lent_argument bs ps bname active callee pa = (case pa of (p, a) \<Rightarrow>
     if vd_borrow_mode p \<noteq> BM_mutable then []
     else case ps a of
            Some (_, is_mutable) \<Rightarrow> report_if (\<not> is_mutable)
              (''cannot pass immutable borrow '' @ a @ '' to mutable borrowed parameter of '' @ callee @ '' in block '' @ bname)
          | None \<Rightarrow> report_if (is_borrowed bs active a)
              (''cannot mutably borrow already borrowed aggregate '' @ a @ '' for call to '' @ callee @ '' in block '' @ bname))"

definition verify_lent_arguments :: "ir_module \<Rightarrow> borrows \<Rightarrow> provenance \<Rightarrow> string \<Rightarrow> string set \<Rightarrow> operation \<Rightarrow> diagnostics" where
  "verify_lent_arguments m bs ps bname active op =
     (case called_function m op of
        None \<Rightarrow> []
      | Some (first, f) \<Rightarrow>
          each (verify_lent_argument bs ps bname active (op_operands op ! (first - 1))) (zip (fn_parameters f) (drop first (op_operands op))))"

text \<open>
  A call whose callee is not a symbol ends the checks of that operation: the \<open>continue\<close> of the source also skips what
  follows.
\<close>

definition skips_borrow_checks :: "operation \<Rightarrow> bool" where
  "skips_borrow_checks op \<longleftrightarrow> op_operands op \<noteq> [] \<and>
     (op_opcode op = ''call'' \<and> symbol_operand op 0 = None \<or> op_opcode op = ''call.indirect'' \<and> symbol_operand op 1 = None)"

definition conflicting :: "borrows \<Rightarrow> borrow_info \<Rightarrow> string set \<Rightarrow> string set" where
  "conflicting bs i active = {b \<in> active. case bs b of None \<Rightarrow> False
     | Some j \<Rightarrow> bi_root j = bi_root i \<and> \<not> (b = bi_parent i \<and> bi_mutable i \<and> bi_mutable j)}"

definition verify_created :: "borrows \<Rightarrow> string \<Rightarrow> string set \<Rightarrow> operation \<Rightarrow> diagnostics" where
  "verify_created bs bname active op =
     (case bs (op_result op) of
        None \<Rightarrow> []
      | Some i \<Rightarrow>
          let others = conflicting bs i active
          in report_if (bi_mutable i \<and> bi_parent i \<noteq> [] \<and> (case bs (bi_parent i) of None \<Rightarrow> True | Some p \<Rightarrow> \<not> bi_mutable p))
               (''mutable reborrow requires a mutable parent borrow in block '' @ bname) @
             report_if (if bi_mutable i then others \<noteq> {} else \<exists>b \<in> others. case bs b of None \<Rightarrow> False | Some j \<Rightarrow> bi_mutable j)
               (''conflicting aggregate borrow of '' @ bi_root i @ '' in block '' @ bname))"

definition verify_ended :: "borrows \<Rightarrow> string \<Rightarrow> string set \<Rightarrow> operation \<Rightarrow> diagnostics" where
  "verify_ended bs bname active op =
     (if op_operands op = [] then []
      else let v = op_operands op ! 0
           in report_if (op_opcode op \<in> {''aggregate.move.struct'', ''aggregate.move.array'', ''aggregate.end.struct'', ''aggregate.end.array''} \<and>
                  is_borrowed bs active v) (''cannot move or end borrowed aggregate '' @ v @ '' in block '' @ bname) @
              report_if (is_borrow_end (op_opcode op) \<and> v \<notin> active) (''ending inactive aggregate borrow '' @ v @ '' in block '' @ bname))"

fun verify_active :: "ir_module \<Rightarrow> borrows \<Rightarrow> provenance \<Rightarrow> string \<Rightarrow> operation list \<Rightarrow> string set \<Rightarrow> diagnostics" where
  "verify_active m bs ps bname [] active = []"
| "verify_active m bs ps bname (op # ops) active =
     verify_derived ps bname active op @
     (if skips_borrow_checks op then verify_active m bs ps bname ops active
      else verify_lent_arguments m bs ps bname active op @
        verify_created bs bname active op @
        verify_ended bs bname (start_borrow bs op active) op @
        verify_active m bs ps bname ops (note_active bs op active))"

definition verify_borrows :: "ir_module \<Rightarrow> ir_function \<Rightarrow> diagnostics option" where
  "verify_borrows m f =
     (let (bs, ps) = collect_borrows m f
      in case solve_provenance f ps of
           None \<Rightarrow> None
         | Some ps' \<Rightarrow>
             map_option (\<lambda>sets. concat (map (\<lambda>(b, active, _). verify_active m bs ps' (bl_name b) (bl_operations b) active) (zip (fn_blocks f) sets)))
               (solve_flow (note_active bs) (entry_borrows f) f))"

section \<open>Functions and modules\<close>

definition return_origins :: "ir_module \<Rightarrow> ir_function \<Rightarrow> origins option" where
  "return_origins m f = iterate (operation_origins_pass m f) (parameter_origins f)"

definition verify_body :: "ir_module \<Rightarrow> ir_function \<Rightarrow> origins \<Rightarrow> diagnostics option" where
  "verify_body m f os0 =
     (case iterate (block_origins_pass m f) os0 of
        None \<Rightarrow> None
      | Some os \<Rightarrow> (case reachable_blocks f of
          None \<Rightarrow> None
        | Some reached \<Rightarrow> (case verifier_dominators f reached of
            None \<Rightarrow> None
          | Some doms \<Rightarrow>
              (let st = collect_definitions m f;
                   k = \<lparr>ff_definitions = ds_definitions st, ff_addresses = ds_addresses st, ff_reachable = reached,
                     ff_dominators = doms, ff_origins = os\<rparr>
               in all_reports ([Some (each (verify_symbols m) (all_operations f)), Some (verify_block_names f), Some (ds_reports st)] @
                    map (verify_block m f k) (enumerate 0 (fn_blocks f)) @ [verify_ownership f, verify_borrows m f])))))"

definition verify_function :: "ir_module \<Rightarrow> bool \<Rightarrow> ir_function \<Rightarrow> diagnostics option" where
  "verify_function m seen f =
     (let before = verify_header m seen f; params = each (\<lambda>b. each (verify_block_parameter m) (bl_parameters b)) (fn_blocks f)
      in case return_origins m f of
           None \<Rightarrow> None
         | Some os \<Rightarrow>
             map_option (\<lambda>ds. before @ params @ ds)
               (if fn_is_signature f then
                  Some (report_if (fn_is_external f) (''signature @'' @ fn_name f @ '' cannot be external'') @
                        report_if (fn_blocks f \<noteq> []) (''signature @'' @ fn_name f @ '' cannot have blocks''))
                else if fn_is_external f then Some (report_if (fn_blocks f \<noteq> []) (''external function @'' @ fn_name f @ '' cannot have blocks''))
                else if fn_blocks f = [] then Some [error_diagnostic (''function @'' @ fn_name f @ '' has no blocks'')]
                else verify_body m f os))"

fun verify_functions :: "ir_module \<Rightarrow> string set \<Rightarrow> ir_function list \<Rightarrow> diagnostics option list" where
  "verify_functions m seen [] = []"
| "verify_functions m seen (f # fs) = verify_function m (fn_name f \<in> seen) f # verify_functions m (insert (fn_name f) seen) fs"

definition verify_module :: "ir_module \<Rightarrow> diagnostics option" where
  "verify_module m = all_reports (Some (verify_declarations m) # verify_functions m {} (md_functions m))"

end
