(* ===== verification/Verifier_Props.thy ===== *)
theory Verifier_Props
  imports Verifier
begin

text \<open>Loops until nothing changes: what they end in, and when they end or never do.\<close>

lemma iterate_invariant:
  assumes "iterate pass s = Some r" and "I s" and "\<And>s. I s \<Longrightarrow> I (fst (pass s))"
  shows "\<exists>s'. I s' \<and> pass s' = (r, False)"
  using assms
proof (induction rule: iterate.raw_induct [rotated, consumes 1, case_names 1])
  case (1 iter pass s r)
  obtain s' c where p: "pass s = (s', c)" by fastforce
  show ?case
  proof (cases c)
    case True
    have "I s'" using 1(4) [OF 1(3)] p by simp
    moreover have "iter pass s' = Some r" using 1(2) p True by simp
    ultimately show ?thesis using 1(1) 1(4) by blast
  next
    case False
    then show ?thesis using 1(2,3) p by auto
  qed
qed

lemma iterate_result: "iterate pass s = Some r \<Longrightarrow> \<exists>s'. pass s' = (r, False)"
  using iterate_invariant [of pass s r "\<lambda>_. True"] by simp

lemma iterate_diverges:
  assumes loop: "\<And>s. s \<in> S \<Longrightarrow> snd (pass s) \<and> fst (pass s) \<in> S" and "s \<in> S"
  shows "iterate pass s = None"
proof (rule ccontr)
  assume "iterate pass s \<noteq> None"
  then obtain r where "iterate pass s = Some r" by blast
  from iterate_invariant [where I = "\<lambda>s. s \<in> S", OF this assms(2)] loop obtain s' where "s' \<in> S" "pass s' = (r, False)" by blast
  then show False using loop by fastforce
qed

lemma iterate_terminates:
  assumes "wf r" and step: "\<And>s s'. I s \<Longrightarrow> pass s = (s', True) \<Longrightarrow> I s' \<and> (s', s) \<in> r"
  shows "I s \<Longrightarrow> iterate pass s \<noteq> None"
  using assms(1)
proof (induction s rule: wf_induct_rule)
  case (less s)
  obtain s' c where p: "pass s = (s', c)" by fastforce
  show ?case
  proof (cases c)
    case True
    then have "I s' \<and> (s', s) \<in> r" using step less.prems p by simp
    then show ?thesis using less.IH p True by (subst iterate.simps) simp
  next
    case False
    then show ?thesis using p by (subst iterate.simps) simp
  qed
qed

text \<open>A sweep that reports no change has taken no step, and has left the state alone.\<close>

definition sweep_from :: "('a \<Rightarrow> 's \<Rightarrow> 's option) \<Rightarrow> 'a list \<Rightarrow> 's \<times> bool \<Rightarrow> 's \<times> bool" where
  "sweep_from step xs sc = fold (\<lambda>x (s, changed). case step x s of None \<Rightarrow> (s, changed) | Some s' \<Rightarrow> (s', True)) xs sc"

lemma sweep_from_simps [simp]:
  "sweep_from step [] sc = sc"
  "sweep_from step (x # xs) (s, c) = (case step x s of None \<Rightarrow> sweep_from step xs (s, c) | Some s' \<Rightarrow> sweep_from step xs (s', True))"
  by (simp_all add: sweep_from_def split: option.split)

lemma sweep_eq: "sweep step xs s = sweep_from step xs (s, False)"
  by (simp add: sweep_def sweep_from_def)

lemma sweep_changed: "sweep_from step xs (s, True) = (s', c) \<Longrightarrow> c"
  by (induction xs arbitrary: s) (auto split: option.splits)

lemma sweep_quiet:
  "sweep step xs s = (s', False) \<Longrightarrow> s' = s \<and> (\<forall>x \<in> set xs. step x s = None)"
  unfolding sweep_eq
proof (induction xs)
  case (Cons x xs)
  then have "step x s = None" using sweep_changed by (fastforce split: option.splits)
  then show ?case using Cons by simp
qed simp

lemma sweep_from_invariant:
  assumes "\<And>x s s'. x \<in> set xs \<Longrightarrow> I s \<Longrightarrow> step x s = Some s' \<Longrightarrow> I s'" and "I s"
  shows "I (fst (sweep_from step xs (s, c)))"
  using assms
proof (induction xs arbitrary: s c)
  case (Cons x xs)
  have ih: "I (fst (sweep_from step xs (t, d)))" if "I t" for t d
    by (rule Cons.IH [OF _ that]) (use Cons.prems(1) in auto)
  show ?case
  proof (cases "step x s")
    case None
    then show ?thesis using ih [OF Cons.prems(2)] by simp
  next
    case (Some t)
    then have "I t" by (rule Cons.prems(1) [OF _ Cons.prems(2), rotated]) simp
    then show ?thesis using ih Some by simp
  qed
qed simp

lemmas sweep_invariant = sweep_from_invariant [where c = False, folded sweep_eq]

lemma all_reports_Nil_iff: "all_reports rs = Some [] \<longleftrightarrow> (\<forall>r \<in> set rs. r = Some [])"
  by (induction rs rule: all_reports.induct) auto

lemma report_if_Nil [simp]: "report_if b message = [] \<longleftrightarrow> \<not> b"
  by (simp add: report_if_def)

lemma each_Nil [simp]: "each check xs = [] \<longleftrightarrow> (\<forall>x \<in> set xs. check x = [])"
  by (simp add: each_def)

section \<open>What acceptance means\<close>

text \<open>A module is accepted when the verifier returns and reports nothing.\<close>

definition accepted :: "ir_module \<Rightarrow> bool" where
  "accepted m \<longleftrightarrow> verify_module m = Some []"

definition has_body :: "ir_function \<Rightarrow> bool" where
  "has_body f \<longleftrightarrow> \<not> fn_is_signature f \<and> \<not> fn_is_external f"

lemma accepted_function:
  assumes "accepted m" "f \<in> set (md_functions m)"
  shows "\<exists>seen. verify_function m seen f = Some []"
proof -
  have all: "\<forall>r \<in> set (verify_functions m {} (md_functions m)). r = Some []"
    using assms(1) by (simp add: accepted_def verify_module_def all_reports_Nil_iff del: all_reports.simps)
  have "\<exists>seen'. verify_function m seen' f \<in> set (verify_functions m seen fs)" if "f \<in> set fs" for fs seen
    using that by (induction fs arbitrary: seen) auto
  then show ?thesis using all assms(2) by metis
qed

text \<open>The facts the verifier has computed about a function it accepts, with the checks they passed.\<close>

definition accepted_with :: "ir_module \<Rightarrow> ir_function \<Rightarrow> function_facts \<Rightarrow> bool" where
  "accepted_with m f k \<longleftrightarrow> fn_blocks f \<noteq> [] \<and> reachable_blocks f = Some (ff_reachable k) \<and>
     verifier_dominators f (ff_reachable k) = Some (ff_dominators k) \<and> ff_definitions k = ds_definitions (collect_definitions m f) \<and>
     ds_reports (collect_definitions m f) = [] \<and> verify_block_names f = [] \<and>
     (\<forall>ib \<in> set (enumerate 0 (fn_blocks f)). verify_block m f k ib = Some [])"

lemma accepted_body:
  assumes "accepted m" "f \<in> set (md_functions m)" "has_body f"
  obtains k where "accepted_with m f k"
proof -
  obtain seen where v: "verify_function m seen f = Some []" using accepted_function [OF assms(1,2)] by blast
  then obtain os where os: "return_origins m f = Some os" "fn_blocks f \<noteq> []" "verify_body m f os = Some []"
    using assms(3) by (auto simp: verify_function_def has_body_def Let_def split: option.splits if_splits)
  obtain os' reached doms where r: "reachable_blocks f = Some reached" "verifier_dominators f reached = Some doms"
    and it: "iterate (block_origins_pass m f) os = Some os'"
    using os(3) by (auto simp: verify_body_def split: option.splits)
  define k where "k = \<lparr>ff_definitions = ds_definitions (collect_definitions m f), ff_addresses = ds_addresses (collect_definitions m f),
    ff_reachable = reached, ff_dominators = doms, ff_origins = os'\<rparr>"
  have "\<forall>x \<in> set ([Some (each (verify_symbols m) (all_operations f)), Some (verify_block_names f), Some (ds_reports (collect_definitions m f))] @
      map (verify_block m f k) (enumerate 0 (fn_blocks f)) @ [verify_ownership f, verify_borrows m f]). x = Some []"
    using os(3) unfolding verify_body_def Let_def it r option.case k_def [symmetric] all_reports_Nil_iff .
  then have "accepted_with m f k" using r os(2) by (simp add: accepted_with_def k_def)
  then show thesis by (rule that)
qed

section \<open>The table of definitions\<close>

text \<open>What a function declares, in order: a name, its block, its place in it and its type.\<close>

definition declared_operations :: "nat \<Rightarrow> (nat \<times> operation) list \<Rightarrow> (string \<times> nat \<times> nat \<times> ir_type) list" where
  "declared_operations b iops = map (\<lambda>(i, op). (op_result op, b, i + 1, result_type op)) (filter (\<lambda>(i, op). op_result op \<noteq> []) iops)"

definition declared_parameters :: "nat \<Rightarrow> value_decl list \<Rightarrow> (string \<times> nat \<times> nat \<times> ir_type) list" where
  "declared_parameters b ps = map (\<lambda>p. (vd_name p, b, 0, vd_type p)) ps"

definition declared :: "ir_function \<Rightarrow> (string \<times> nat \<times> nat \<times> ir_type) list" where
  "declared f = declared_parameters 0 (fn_parameters f) @
     concat (map (\<lambda>(i, b). declared_parameters i (bl_parameters b) @ declared_operations i (enumerate 0 (bl_operations b))) (enumerate 0 (fn_blocks f)))"

definition tabulates :: "definition_state \<Rightarrow> (string \<times> nat \<times> nat \<times> ir_type) list \<Rightarrow> bool" where
  "tabulates st ds \<longleftrightarrow> (ds_reports st = [] \<longrightarrow> distinct (map fst ds) \<and> dom (ds_definitions st) = fst ` set ds \<and>
     (\<forall>n d. ds_definitions st n = Some d \<longrightarrow> (n, df_block d, df_operation d, df_type d) \<in> set ds))"

lemma declare_value_tabulates:
  "tabulates st ds \<Longrightarrow> tabulates (declare_value n d st) (ds @ [(n, df_block d, df_operation d, df_type d)])"
  by (auto simp: tabulates_def declare_value_def)

lemma declare_parameters_tabulates:
  "tabulates st ds \<Longrightarrow> tabulates (fold (\<lambda>p. declare_value (vd_name p) (parameter_definition b p)) ps st) (ds @ declared_parameters b ps)"
proof (induction ps arbitrary: st ds)
  case (Cons p ps)
  have "tabulates (declare_value (vd_name p) (parameter_definition b p) st) (ds @ [(vd_name p, b, 0, vd_type p)])"
    using declare_value_tabulates [OF Cons.prems, of "vd_name p" "parameter_definition b p"] by (simp add: parameter_definition_def)
  from Cons.IH [OF this] show ?case by (simp add: declared_parameters_def)
qed (simp add: declared_parameters_def)

lemma declare_operation_tabulates:
  assumes "tabulates st ds"
  shows "tabulates (declare_operation m b (i, op) st) (ds @ declared_operations b [(i, op)])"
proof -
  obtain kind name where a: "result_aggregate m (ds_definitions st) op = (kind, name)" by fastforce
  obtain fsig msig count where s: "result_signatures m (ds_definitions st) op = (fsig, msig, count)" by (cases "result_signatures m (ds_definitions st) op") auto
  define st1 where "st1 = (if is_address_opcode (op_opcode op) \<and> op_result op \<noteq> [] \<and> symbol_operand op 0 \<noteq> None
    then st\<lparr>ds_addresses := map_emplace (ds_addresses st) (op_result op) (the (symbol_operand op 0))\<rparr> else st)"
  have t: "tabulates st1 ds" using assms by (simp add: st1_def tabulates_def)
  define d where "d = \<lparr>df_block = b, df_operation = i + 1, df_type = result_type op, df_aggregate_kind = kind,
    df_aggregate_name = name, df_function_signature = fsig, df_memory_signature = msig, df_memory_count = count\<rparr>"
  have "declare_operation m b (i, op) st = (if op_result op = [] then st1 else declare_value (op_result op) d st1)"
    by (simp add: declare_operation_def a s st1_def d_def)
  moreover have "tabulates (declare_value (op_result op) d st1) (ds @ [(op_result op, b, i + 1, result_type op)])"
    using declare_value_tabulates [OF t, of "op_result op" d] by (simp add: d_def)
  ultimately show ?thesis using t by (simp add: declared_operations_def)
qed

lemma declare_operations_tabulates:
  "tabulates st ds \<Longrightarrow> tabulates (fold (declare_operation m b) iops st) (ds @ declared_operations b iops)"
proof (induction iops arbitrary: st ds)
  case (Cons iop iops)
  obtain i op where iop: "iop = (i, op)" by fastforce
  from Cons.IH [OF declare_operation_tabulates [OF Cons.prems, of m b i op]] show ?case
    by (simp add: iop declared_operations_def split: if_splits)
qed (simp add: declared_operations_def)

lemma declare_block_tabulates:
  "tabulates st ds \<Longrightarrow> tabulates (declare_block m (i, b) st)
     (ds @ declared_parameters i (bl_parameters b) @ declared_operations i (enumerate 0 (bl_operations b)))"
  using declare_operations_tabulates [OF declare_parameters_tabulates, of st ds m i "enumerate 0 (bl_operations b)" i "bl_parameters b"]
  by (simp add: declare_block_def)

lemma collect_definitions_tabulates: "tabulates (collect_definitions m f) (declared f)"
proof -
  have blocks: "tabulates (fold (declare_block m) ibs st) (ds @ concat (map (\<lambda>(i, b). declared_parameters i (bl_parameters b) @
      declared_operations i (enumerate 0 (bl_operations b))) ibs))" if "tabulates st ds" for ibs st ds
    using that
  proof (induction ibs arbitrary: st ds)
    case (Cons ib ibs)
    obtain i b where ib: "ib = (i, b)" by fastforce
    from Cons.IH [OF declare_block_tabulates [OF Cons.prems, of m i b]] show ?case by (simp add: ib)
  qed simp
  have start: "tabulates \<lparr>ds_definitions = Map.empty, ds_addresses = Map.empty, ds_reports = []\<rparr> []" by (simp add: tabulates_def)
  show ?thesis
    unfolding collect_definitions_def declared_def using blocks [OF declare_parameters_tabulates [OF start, of 0 "fn_parameters f"]] by simp
qed

lemma accepted_tabulates: "accepted_with m f k \<Longrightarrow> distinct (map fst (declared f)) \<and> dom (ff_definitions k) = fst ` set (declared f) \<and>
    (\<forall>n d. ff_definitions k n = Some d \<longrightarrow> (n, df_block d, df_operation d, df_type d) \<in> set (declared f))"
  using collect_definitions_tabulates [of m f] by (simp add: accepted_with_def tabulates_def)

lemma declared_definition:
  assumes "accepted_with m f k" "(n, b, i, t) \<in> set (declared f)"
  shows "\<exists>d. ff_definitions k n = Some d \<and> df_block d = b \<and> df_operation d = i \<and> df_type d = t"
proof -
  note t = accepted_tabulates [OF assms(1)]
  have "n \<in> dom (ff_definitions k)" using t assms(2) by force
  then obtain d where d: "ff_definitions k n = Some d" by blast
  then have "(n, df_block d, df_operation d, df_type d) \<in> set (declared f)" using t by blast
  moreover have "distinct (map fst (declared f))" using t by simp
  ultimately have "(df_block d, df_operation d, df_type d) = (b, i, t)" using assms(2) by (meson eq_key_imp_eq_value)
  then show ?thesis using d by simp
qed

lemma declared_operation:
  assumes "b < length (fn_blocks f)" "i < length (bl_operations (fn_blocks f ! b))" "op_result (bl_operations (fn_blocks f ! b) ! i) \<noteq> []"
  shows "(op_result (bl_operations (fn_blocks f ! b) ! i), b, i + 1, result_type (bl_operations (fn_blocks f ! b) ! i)) \<in> set (declared f)"
proof -
  let ?ops = "bl_operations (fn_blocks f ! b)"
  have "(i, ?ops ! i) \<in> set (enumerate 0 ?ops)" using assms(2) by (simp add: in_set_enumerate_eq)
  then have "(op_result (?ops ! i), b, i + 1, result_type (?ops ! i)) \<in> set (declared_operations b (enumerate 0 ?ops))"
    using assms(3) by (force simp: declared_operations_def)
  moreover have "(b, fn_blocks f ! b) \<in> set (enumerate 0 (fn_blocks f))" using assms(1) by (simp add: in_set_enumerate_eq)
  ultimately show ?thesis by (force simp: declared_def)
qed

lemma accepted_operation:
  assumes "accepted_with m f k" "b < length (fn_blocks f)" "i < length (bl_operations (fn_blocks f ! b))"
  shows "verify_operation m f k b (i, bl_operations (fn_blocks f ! b) ! i) = Some []"
proof -
  let ?b = "fn_blocks f ! b"
  have "verify_block m f k (b, ?b) = Some []" using assms(1,2) by (auto simp: accepted_with_def in_set_enumerate_eq)
  moreover have "bl_operations ?b \<noteq> []" using assms(3) by auto
  ultimately show ?thesis
    using assms(3) by (auto simp: verify_block_def all_reports_Nil_iff Let_def in_set_enumerate_eq simp del: all_reports.simps)
qed

end
