(* ===== verification/Pass_Manager.thy ===== *)
theory Pass_Manager
  imports Scalar_Passes Verifier
begin

text \<open>
  The pass manager (\<open>forge/src/pass/pass.cpp\<close>) and the standard pipelines (\<open>forge/src/pass/pipeline.cpp\<close>). The manager
  runs its passes over one function after another, in place, and verifies the whole module after each pass when
  asked to. A pass here is its name with its \<open>run\<close>; the exception of a failed verification is a value. Elapsed times
  are left out of the records.
\<close>

section \<open>Running passes\<close>

datatype pass_fault =
    Pass_undefined
  | Verification_failed string

type_synonym named_pass = "string \<times> function_pass"

definition verify_or_throw :: "ir_module \<Rightarrow> string \<Rightarrow> pass_fault option" where
  "verify_or_throw m name =
     (case verify_module m of
        None \<Rightarrow> Some Pass_undefined
      | Some ds \<Rightarrow> (case find (\<lambda>d. dg_severity d = Severity_error) ds of
            None \<Rightarrow> None
          | Some d \<Rightarrow> Some (Verification_failed (''verification failed after '' @ name @ '': '' @ dg_message d))))"

text \<open>One pass on one function, and the invalidation of the analyses it asks for; a pass that asks for none gets all.\<close>

definition invalidation_of :: "pass_result \<Rightarrow> invalidation_scope" where
  "invalidation_of r = (if pr_invalidation r = Scope_none then Scope_all else pr_invalidation r)"

definition run_pass :: "(string set \<Rightarrow> string list) \<Rightarrow> function_pass \<Rightarrow> function_pass" where
  "run_pass enum_set p f am =
     (case p f am of
        None \<Rightarrow> None
      | Some (r, f', am') \<Rightarrow>
          if pr_changed r then map_option (\<lambda>am''. (r, f', am'')) (invalidate enum_set f' (invalidation_of r) (pr_touched_blocks r) am')
          else Some (r, f', am'))"

definition default_result :: pass_result where
  "default_result = no_result Scope_none"

fun run_passes ::
  "(string set \<Rightarrow> string list) \<Rightarrow> bool \<Rightarrow> (ir_function \<Rightarrow> ir_module) \<Rightarrow> named_pass list \<Rightarrow> ir_function \<Rightarrow> analysis_manager \<Rightarrow>
   pass_result \<Rightarrow> pass_fault + ir_function \<times> pass_result" where
  "run_passes e verify_each place [] f am acc = Inr (f, acc)"
| "run_passes e verify_each place ((name, p) # ps) f am acc =
     (case run_pass e p f am of
        None \<Rightarrow> Inl Pass_undefined
      | Some (r, f', am') \<Rightarrow>
          (case (if verify_each then verify_or_throw (place f') name else None) of
             Some fault \<Rightarrow> Inl fault
           | None \<Rightarrow> run_passes e verify_each place ps f' am' (add_result acc r)))"

fun run_functions ::
  "(string set \<Rightarrow> string list) \<Rightarrow> bool \<Rightarrow> ir_module \<Rightarrow> named_pass list \<Rightarrow> ir_function list \<Rightarrow> ir_function list \<Rightarrow> pass_result \<Rightarrow>
   pass_fault + ir_function list \<times> pass_result" where
  "run_functions e verify_each m ps finished [] acc = Inr (finished, acc)"
| "run_functions e verify_each m ps finished (f # fs) acc =
     (case run_passes e verify_each (\<lambda>f'. m\<lparr>md_functions := finished @ f' # fs\<rparr>) ps f new_manager acc of
        Inl fault \<Rightarrow> Inl fault
      | Inr (f', acc') \<Rightarrow> run_functions e verify_each m ps (finished @ [f']) fs acc')"

definition run_manager ::
  "(string set \<Rightarrow> string list) \<Rightarrow> bool \<Rightarrow> named_pass list \<Rightarrow> ir_module \<Rightarrow> pass_fault + ir_module \<times> pass_result" where
  "run_manager e verify_each ps m =
     (case run_functions e verify_each m ps [] (md_functions m) default_result of
        Inl fault \<Rightarrow> Inl fault
      | Inr (fs, acc) \<Rightarrow> Inr (m\<lparr>md_functions := fs\<rparr>, acc))"

definition pass_names :: "named_pass list \<Rightarrow> string list" where
  "pass_names ps = map fst ps"

section \<open>Running passes with a report\<close>

record execution_record =
  er_function :: string
  er_pass :: string
  er_result :: pass_result

record run_report =
  rr_total :: pass_result
  rr_records :: "execution_record list"

definition note_result :: "string \<Rightarrow> string \<Rightarrow> pass_result \<Rightarrow> run_report \<Rightarrow> run_report" where
  "note_result function_name pass_name r log =
     \<lparr>rr_total = add_result (rr_total log) r,
      rr_records = rr_records log @ [\<lparr>er_function = function_name, er_pass = pass_name, er_result = r\<rparr>]\<rparr>"

text \<open>The record names the function as it is after the pass.\<close>

fun report_passes ::
  "(string set \<Rightarrow> string list) \<Rightarrow> bool \<Rightarrow> (ir_function \<Rightarrow> ir_module) \<Rightarrow> named_pass list \<Rightarrow> ir_function \<Rightarrow> analysis_manager \<Rightarrow>
   run_report \<Rightarrow> pass_fault + ir_function \<times> run_report" where
  "report_passes e verify_each place [] f am log = Inr (f, log)"
| "report_passes e verify_each place ((name, p) # ps) f am log =
     (case run_pass e p f am of
        None \<Rightarrow> Inl Pass_undefined
      | Some (r, f', am') \<Rightarrow>
          (case (if verify_each then verify_or_throw (place f') name else None) of
             Some fault \<Rightarrow> Inl fault
           | None \<Rightarrow> report_passes e verify_each place ps f' am' (note_result (fn_name f') name r log)))"

fun report_functions ::
  "(string set \<Rightarrow> string list) \<Rightarrow> bool \<Rightarrow> ir_module \<Rightarrow> named_pass list \<Rightarrow> ir_function list \<Rightarrow> ir_function list \<Rightarrow> run_report \<Rightarrow>
   pass_fault + ir_function list \<times> run_report" where
  "report_functions e verify_each m ps finished [] log = Inr (finished, log)"
| "report_functions e verify_each m ps finished (f # fs) log =
     (case report_passes e verify_each (\<lambda>f'. m\<lparr>md_functions := finished @ f' # fs\<rparr>) ps f new_manager log of
        Inl fault \<Rightarrow> Inl fault
      | Inr (f', log') \<Rightarrow> report_functions e verify_each m ps (finished @ [f']) fs log')"

definition run_with_report ::
  "(string set \<Rightarrow> string list) \<Rightarrow> bool \<Rightarrow> named_pass list \<Rightarrow> ir_module \<Rightarrow> pass_fault + ir_module \<times> run_report" where
  "run_with_report e verify_each ps m =
     (case report_functions e verify_each m ps [] (md_functions m) \<lparr>rr_total = default_result, rr_records = []\<rparr> of
        Inl fault \<Rightarrow> Inl fault
      | Inr (fs, log) \<Rightarrow> Inr (m\<lparr>md_functions := fs\<rparr>, log))"

section \<open>Standard pipelines\<close>

datatype optimization_level = O0 | O1 | O2 | O3 | Os | Oz

definition parse_optimization_level :: "string \<Rightarrow> optimization_level option" where
  "parse_optimization_level s =
     (if s = ''-O0'' \<or> s = ''O0'' then Some O0
      else if s = ''-O1'' \<or> s = ''O1'' then Some O1
      else if s = ''-O2'' \<or> s = ''O2'' then Some O2
      else if s = ''-O3'' \<or> s = ''O3'' then Some O3
      else if s = ''-Os'' \<or> s = ''Os'' then Some Os
      else if s = ''-Oz'' \<or> s = ''Oz'' then Some Oz
      else None)"

fun optimization_level_name :: "optimization_level \<Rightarrow> string" where
  "optimization_level_name O0 = ''O0''"
| "optimization_level_name O1 = ''O1''"
| "optimization_level_name O2 = ''O2''"
| "optimization_level_name O3 = ''O3''"
| "optimization_level_name Os = ''Os''"
| "optimization_level_name Oz = ''Oz''"

text \<open>The passes a standard pipeline is made of; those not modelled are parameters of a run.\<close>

datatype pass_kind =
    Constant_fold | Algebraic_simplification | Copy_propagation | Dead_code_elimination | Simplify_cfg
  | Sparse_conditional_constants | Loop_reduction | Guard_hoisting | Common_subexpressions | Stack_promotion
  | Merge_parameters | Memory_forwarding | Dead_stores | If_conversion | Branch_threading | Scalar_cleanup

definition common_pipeline :: "pass_kind list" where
  "common_pipeline = [Sparse_conditional_constants, Algebraic_simplification, Copy_propagation, Dead_code_elimination,
     Loop_reduction, Guard_hoisting, Common_subexpressions, Stack_promotion, Merge_parameters, Memory_forwarding, Dead_stores,
     If_conversion, Merge_parameters, Sparse_conditional_constants, Algebraic_simplification, Common_subexpressions,
     Copy_propagation, Dead_code_elimination, Branch_threading, Simplify_cfg, Scalar_cleanup]"

fun standard_pipeline :: "optimization_level \<Rightarrow> pass_kind list" where
  "standard_pipeline O0 = []"
| "standard_pipeline O1 = [Constant_fold, Algebraic_simplification, Copy_propagation, Dead_code_elimination, Simplify_cfg]"
| "standard_pipeline Oz = common_pipeline @ [Copy_propagation, Dead_code_elimination, Simplify_cfg]"
| "standard_pipeline Os = common_pipeline @ [Sparse_conditional_constants, Dead_code_elimination, Simplify_cfg]"
| "standard_pipeline O3 = common_pipeline"
| "standard_pipeline O2 = common_pipeline"

lemma level_name_roundtrip: "parse_optimization_level (optimization_level_name l) = Some l"
  by (cases l) (simp_all add: parse_optimization_level_def)

section \<open>The two ways to run\<close>

lemma report_passes_run:
  "run_passes e v place ps f am (rr_total log) =
     map_sum (\<lambda>x. x) (\<lambda>(f', log'). (f', rr_total log')) (report_passes e v place ps f am log)"
proof (induction ps arbitrary: f am log)
  case (Cons np ps)
  obtain name p where np: "np = (name, p)" by fastforce
  have tot: "add_result (rr_total log) r = rr_total (note_result g name r log)" for g r by (simp add: note_result_def)
  have step: "run_passes e v place ps f' am' (add_result (rr_total log) r) =
      map_sum (\<lambda>x. x) (\<lambda>(f', log'). (f', rr_total log')) (report_passes e v place ps f' am' (note_result (fn_name f') name r log))" for f' am' r
    unfolding tot [of r "fn_name f'"] by (rule Cons.IH)
  show ?case
    unfolding np run_passes.simps report_passes.simps using step by (auto split: option.split)
qed simp

lemma report_functions_run:
  "run_functions e v m ps finished fs (rr_total log) =
     map_sum (\<lambda>x. x) (\<lambda>(fs', log'). (fs', rr_total log')) (report_functions e v m ps finished fs log)"
proof (induction fs arbitrary: finished log)
  case (Cons f fs)
  show ?case unfolding run_functions.simps report_functions.simps report_passes_run
    by (auto simp: Cons.IH split: sum.split)
qed simp

text \<open>
  The path production compilation takes and the one that records every pass agree: they run the same passes on the
  same functions with the same invalidation, and end in the same module with the same total, or in the same
  failed verification.
\<close>

lemma run_matches_report:
  "run_manager e verify_each ps m =
     map_sum (\<lambda>x. x) (\<lambda>(m', log). (m', rr_total log)) (run_with_report e verify_each ps m)"
  using report_functions_run [of e verify_each m ps "[]" "md_functions m" "\<lparr>rr_total = default_result, rr_records = []\<rparr>"]
  by (auto simp: run_manager_def run_with_report_def split: sum.split)

end
