(* ===== verification/Accepted_Folding.thy ===== *)
theory Accepted_Folding
  imports Fold_Props Verifier_Props Pass_Manager
begin

text \<open>
  The verifier, the pass manager, constant folding and the interpreter together: what the verifier accepts is what
  folding needs, and a module that is folded runs as before.
\<close>

section \<open>Accepted functions\<close>

lemma map_fst_declared_operations:
  "map fst (declared_operations i (enumerate n ops)) = filter (\<lambda>n. n \<noteq> []) (map op_result ops)"
  by (induction ops arbitrary: n) (auto simp: declared_operations_def)

lemma map_fst_declared: "map fst (declared f) = defined_values f"
proof -
  have "map fst (concat (map (\<lambda>(i, b). declared_parameters i (bl_parameters b) @ declared_operations i (enumerate 0 (bl_operations b))) (enumerate n bs))) =
      concat (map block_values bs)" for n bs
    by (induction bs arbitrary: n) (simp_all add: map_fst_declared_operations block_values_def declared_parameters_def comp_def)
  then show ?thesis by (simp add: declared_def defined_values_def declared_parameters_def comp_def)
qed

lemma operation_position:
  assumes "op \<in> operations_of f"
  obtains b i where "b < length (fn_blocks f)" "i < length (bl_operations (fn_blocks f ! b))" "op = bl_operations (fn_blocks f ! b) ! i"
  using assms by (auto simp: operations_of_def in_set_conv_nth)

lemma accepted_arithmetic:
  assumes "accepted_with m f k" "op \<in> operations_of f"
  shows "verify_arithmetic (ff_definitions k) bname op = []"
proof -
  obtain b i where p: "b < length (fn_blocks f)" "i < length (bl_operations (fn_blocks f ! b))" "op = bl_operations (fn_blocks f ! b) ! i"
    using operation_position [OF assms(2)] by blast
  have "verify_arithmetic (ff_definitions k) (bl_name (fn_blocks f ! b)) op = []"
    using accepted_operation [OF assms(1) p(1,2)] p(3) by (simp add: verify_operation_def Let_def all_reports_Nil_iff del: all_reports.simps)
  then show ?thesis by (auto simp: verify_arithmetic_def)
qed

text \<open>Folding acts on integers alone.\<close>

definition folds_integers :: "ir_function \<Rightarrow> bool" where
  "folds_integers f \<longleftrightarrow> (\<forall>op \<in> operations_of f. is_foldable op \<longrightarrow> is_integer (op_type op))"

lemma accepted_fold_typed:
  assumes "accepted_with m f k" "folds_integers f"
  shows "fold_typed f"
proof -
  have "op_type d = op_type op"
    if op: "op \<in> operations_of f" "is_foldable op" and d: "d \<in> operations_of f" "is_literal_operation d \<or> is_foldable d" "op_result d \<in> set (op_operands op)" for op d
  proof -
    have oc: "op_opcode op \<in> {''add'', ''sub'', ''mul'', ''div''}" and "length (op_operands op) = 2" using op(2) by (auto simp: is_foldable_def)
    then obtain x y where xy: "op_operands op = [x, y]" by (auto simp: length_Suc_conv numeral_2_eq_2)
    have typed: "operand_type (ff_definitions k) op 0 = op_type op" "operand_type (ff_definitions k) op 1 = op_type op"
      using accepted_arithmetic [OF assms(1) op(1), of "[]"] oc by (auto simp: verify_arithmetic_def)
    obtain b i where p: "b < length (fn_blocks f)" "i < length (bl_operations (fn_blocks f ! b))" "d = bl_operations (fn_blocks f ! b) ! i"
      using operation_position [OF d(1)] by blast
    have "op_result d \<noteq> []" using d(2) by (auto simp: is_literal_operation_def is_foldable_def)
    then obtain e where e: "ff_definitions k (op_result d) = Some e" "df_type e = result_type d"
      using declared_definition [OF assms(1) declared_operation [OF p(1,2)]] p(3) by blast
    have "result_type d = op_type d" using d(2) by (auto simp: result_type_def is_literal_operation_def is_foldable_def starts_with_def)
    then show ?thesis using typed d(3) xy e by (auto simp: operand_type_def operand_definition_def)
  qed
  then show ?thesis
    using assms accepted_tabulates [OF assms(1)] by (auto simp: fold_typed_def folds_integers_def single_definitions_def map_fst_declared)
qed

lemma accepted_no_body:
  assumes "accepted m" "f \<in> set (md_functions m)" "\<not> has_body f"
  shows "fn_blocks f = []"
  using accepted_function [OF assms(1,2)] assms(3)
  by (auto simp: verify_function_def has_body_def Let_def split: option.splits if_splits)

lemma accepted_module_fold_typed:
  assumes "accepted m" "f \<in> set (md_functions m)" "folds_integers f"
  shows "fold_typed f"
proof (cases "has_body f")
  case True
  then show ?thesis using accepted_body [OF assms(1,2) True] accepted_fold_typed [OF _ assms(3)] by blast
next
  case False
  then have "fn_blocks f = []" by (rule accepted_no_body [OF assms(1,2)])
  then show ?thesis by (simp add: fold_typed_def single_definitions_def operations_of_def)
qed

section \<open>Running one pass over a module\<close>

lemma run_functions_single:
  assumes "run_functions e v m [(name, p)] finished fs acc = Inr (fs', acc')"
  shows "\<exists>gs. fs' = finished @ gs \<and> list_all2 (\<lambda>f g. \<exists>am r am'. p f am = Some (r, g, am')) fs gs"
  using assms
proof (induction fs arbitrary: finished acc)
  case (Cons f fs)
  obtain g acc1 where one: "run_passes e v (\<lambda>f'. m\<lparr>md_functions := finished @ f' # fs\<rparr>) [(name, p)] f new_manager acc = Inr (g, acc1)"
    and rest: "run_functions e v m [(name, p)] (finished @ [g]) fs acc1 = Inr (fs', acc')"
    using Cons.prems by (auto split: sum.splits)
  obtain r am' where "run_pass e p f new_manager = Some (r, g, am')"
    using one by (auto split: option.splits)
  then obtain am'' where "p f new_manager = Some (r, g, am'')" by (auto simp: run_pass_def split: option.splits if_splits)
  then have "\<exists>am r am'. p f am = Some (r, g, am')" by blast
  then show ?case using Cons.IH [OF rest] by auto
qed simp

text \<open>
  C4. Constant folding keeps what a program computes. Take a module the verifier accepts in which the arithmetic that can
  be folded is on integers, and let the pass manager run the pass over it. A run of the original module that ends
  without a diagnostic ends in the same way on the folded one: the same value, the same number of steps and the same
  memory, under the same limits and with the same host functions.
\<close>

theorem constant_folding_keeps_runs:
  assumes "accepted m" and "\<forall>f \<in> set (md_functions m). folds_integers f"
    and "run_manager e verify_each [(''constant-fold'', constant_fold_pass)] m = Inr (m', acc)"
    and "execute m options externals eg base fp store host name arguments = Inr (res, en')"
    and "ir_result_diagnostics res = []" and "en_diagnostics (fst (construct m eg store host)) = []"
  shows "execute m' options externals eg base fp store host name arguments = Inr (res, en')"
proof (rule folding.execute_step [OF _ assms(4-6)])
  obtain fs where fs: "run_functions e verify_each m [(''constant-fold'', constant_fold_pass)] [] (md_functions m) default_result = Inr (fs, acc)"
      "m' = m\<lparr>md_functions := fs\<rparr>"
    using assms(3) by (auto simp: run_manager_def split: sum.splits)
  have "list_all2 (\<lambda>f g. \<exists>am r am'. constant_fold_pass f am = Some (r, g, am')) (md_functions m) fs"
    using run_functions_single [OF fs(1)] by auto
  then have "list_all2 (\<lambda>f g. fold_typed f \<and> rewritten_function (fold_replaces f) f g) (md_functions m) fs"
    using accepted_module_fold_typed [OF assms(1)] assms(2) constant_fold_rewrites by (auto elim!: list.rel_mono_strong)
  then show "rewritten_module fold_typed fold_replaces m m'"
    using fs(2) by (simp add: rewritten_module_def)
qed

end
