(* ===== verification/Accepted_Reads.thy ===== *)
theory Accepted_Reads
  imports Verifier_Props Interp_Monotone
begin

text \<open>
  Definitions dominate their uses: in a function the verifier accepts, the interpreter never looks up a value that has
  not been computed. What the environment holds for such values makes no difference to any run.
\<close>

section \<open>Reachable blocks and dominators\<close>

lemma reachable_closed:
  assumes "reachable_blocks f = Some R"
  shows "0 \<in> R" and "i \<in> R \<Longrightarrow> i < length (fn_blocks f) \<Longrightarrow> set (successor_blocks f i) \<subseteq> R"
proof -
  let ?pass = "sweep (reach_step f) [0..<length (fn_blocks f)]"
  have "\<exists>s. 0 \<in> s \<and> ?pass s = (R, False)"
  proof (rule iterate_invariant [where I = "\<lambda>s. 0 \<in> s"])
    show "iterate ?pass {0} = Some R" using assms by (simp add: reachable_blocks_def)
    fix s :: "nat set" assume "0 \<in> s"
    then show "0 \<in> fst (?pass s)" 
      by (intro sweep_invariant [where I = "\<lambda>s. 0 \<in> s"]) (auto simp: reach_step_def split: if_splits)
  qed simp
  then obtain s where s: "0 \<in> s" "?pass s = (R, False)" by blast
  have R: "R = s" and quiet: "\<forall>i \<in> set [0..<length (fn_blocks f)]. reach_step f i s = None" using sweep_quiet [OF s(2)] by blast+
  show "0 \<in> R" using s(1) R by simp
  assume i: "i \<in> R" "i < length (fn_blocks f)"
  then have "reach_step f i s = None" using quiet by simp
  then show "set (successor_blocks f i) \<subseteq> R" using i(1) unfolding R by (simp add: reach_step_def split: if_splits)
qed

lemma fold_Int_subset: "fold (\<lambda>q s. s \<inter> D q) qs X \<subseteq> X" "q \<in> set qs \<Longrightarrow> fold (\<lambda>q s. s \<inter> D q) qs X \<subseteq> D q"
proof -
  show sub: "fold (\<lambda>q s. s \<inter> D q) qs X \<subseteq> X" for qs X by (induction qs arbitrary: X) auto
  show "q \<in> set qs \<Longrightarrow> fold (\<lambda>q s. s \<inter> D q) qs X \<subseteq> D q"
  proof (induction qs arbitrary: X)
    case (Cons p qs)
    then show ?case using sub [of qs "X \<inter> D p"] by auto
  qed simp
qed

lemma dominator_step_update: "dominator_step f R i D = Some D' \<Longrightarrow> \<exists>X. D' = D[i := X]"
  unfolding dominator_step_def Let_def by (cases "filter (\<lambda>p. p \<in> R) (predecessors_of f i)") (simp_all only: list.case split: if_splits, blast+)

lemma dominators_fixed:
  assumes "verifier_dominators f R = Some D" "fn_blocks f \<noteq> []"
  shows "D ! 0 = {0}"
    and "i \<in> R \<Longrightarrow> 1 \<le> i \<Longrightarrow> i < length (fn_blocks f) \<Longrightarrow> p \<in> set (predecessors_of f i) \<Longrightarrow> p \<in> R \<Longrightarrow> D ! i \<subseteq> insert i (D ! p)"
proof -
  let ?pass = "sweep (dominator_step f R) [1..<length (fn_blocks f)]" and ?I = "\<lambda>D. length D = length (fn_blocks f) \<and> D ! 0 = {0 :: nat}"
  have "\<exists>s. ?I s \<and> ?pass s = (D, False)"
  proof (rule iterate_invariant [where I = ?I])
    show "iterate ?pass (start_dominators f R) = Some D" using assms(1) by (simp add: verifier_dominators_def)
    show "?I (start_dominators f R)" using assms(2) by (simp add: start_dominators_def)
    fix s assume I: "?I s"
    show "?I (fst (?pass s))"
    proof (rule sweep_invariant [where I = ?I, OF _ I])
      fix x s s' assume x: "x \<in> set [1..<length (fn_blocks f)]" "?I s" "dominator_step f R x s = Some s'"
      obtain X where "s' = s[x := X]" using dominator_step_update [OF x(3)] by blast
      then show "?I s'" using x(1,2) by simp
    qed
  qed
  then obtain s where s: "?I s" "?pass s = (D, False)" by blast
  have D: "D = s" and steps: "\<forall>i \<in> set [1..<length (fn_blocks f)]. dominator_step f R i s = None" using sweep_quiet [OF s(2)] by blast+
  show "D ! 0 = {0}" using s(1) D by simp
  assume i: "i \<in> R" "1 \<le> i" "i < length (fn_blocks f)" and p: "p \<in> set (predecessors_of f i)" "p \<in> R"
  then have quiet: "dominator_step f R i D = None" using steps D by simp
  obtain h t where ht: "filter (\<lambda>p. p \<in> R) (predecessors_of f i) = h # t" using p by (cases "filter (\<lambda>p. p \<in> R) (predecessors_of f i)") (auto simp: filter_empty_conv)
  have "D ! i = insert i (fold (\<lambda>q s. s \<inter> D ! q) t (D ! h))"
  proof (rule ccontr)
    assume "D ! i \<noteq> insert i (fold (\<lambda>q s. s \<inter> D ! q) t (D ! h))"
    then have "insert i (fold (\<lambda>q s. s \<inter> D ! q) t (D ! h)) \<noteq> D ! i" by metis
    then show False using quiet i(1) unfolding dominator_step_def ht Let_def by simp
  qed
  moreover have "p \<in> set (h # t)" using p unfolding ht [symmetric] by simp
  ultimately show "D ! i \<subseteq> insert i (D ! p)"
    using fold_Int_subset(1) [of "\<lambda>q. D ! q" t "D ! h"] fold_Int_subset(2) [of p t "\<lambda>q. D ! q" "D ! h"] by auto
qed

section \<open>Operations read their operands\<close>

definition same_operands :: "environment \<Rightarrow> environment \<Rightarrow> operation \<Rightarrow> bool" where
  "same_operands env env' op \<longleftrightarrow> (\<forall>x \<in> set (op_operands op). env' x = env x)"

lemma lookup_at_same: "same_operands env env' op \<Longrightarrow> lookup_at env' op i = lookup_at env op i"
  by (intro ext) (simp add: lookup_at_def operand_at_def list_at_def lookup_def m_bind_def m_return_def m_throw_def same_operands_def)

lemma lookup_all_operands_same: "\<forall>x \<in> set ns. env' x = env x \<Longrightarrow> lookup_all env' ns = lookup_all env ns"
proof (induction ns)
  case (Cons n ns)
  have "lookup env' n True = lookup env n True" using Cons.prems by (intro ext) (simp add: lookup_def)
  then show ?case using Cons by simp
qed simp

lemma byte_offset_same: "same_operands env env' op \<Longrightarrow> byte_offset env' op = byte_offset env op"
  by (intro ext) (simp add: byte_offset_def operand_at_def list_at_def lookup_def m_bind_def m_return_def m_throw_def same_operands_def)

lemma eval_same:
  assumes "same_operands env env' op"
  shows "eval_address cfg env' op = eval_address cfg env op" "eval_load cfg env' op = eval_load cfg env op"
    "eval_store cfg env' op = eval_store cfg env op" "eval_aggregate_alias env' op = eval_aggregate_alias env op"
    "eval_aggregate_end env' op = eval_aggregate_end env op" "eval_aggregate_copy cfg env' op = eval_aggregate_copy cfg env op"
    "eval_aggregate_zero cfg env' op = eval_aggregate_zero cfg env op" "eval_memory_copy env' op = eval_memory_copy env op"
    "eval_memory_set env' op = eval_memory_set env op" "eval_int_cast env' op = eval_int_cast env op"
    "eval_int_to_float cfg env' op = eval_int_to_float cfg env op" "eval_float_to_int cfg env' op = eval_float_to_int cfg env op"
    "eval_float_cast cfg env' op = eval_float_cast cfg env op" "eval_arith cfg env' op = eval_arith cfg env op"
proof -
  note l = lookup_at_same [OF assms]
  have i: "dynamic_index env' op msg = dynamic_index env op msg" for msg by (simp only: dynamic_index_def l)
  have c: "callback_index env' op = callback_index env op" by (simp only: callback_index_def i)
  have a: "array_index env' op = array_index env op" by (simp only: array_index_def i)
  have o: "address_offset cfg env' op v = address_offset cfg env op v" for v
    by (simp only: address_offset_def callback_offset_def array_offset_def c a byte_offset_same [OF assms])
  show "eval_address cfg env' op = eval_address cfg env op" by (simp only: eval_address_def l o)
  have f: "eval_float_arith cfg env' op v = eval_float_arith cfg env op v" "eval_integer_arith env' op v = eval_integer_arith env op v" for v
    by (simp_all only: eval_float_arith_def eval_integer_arith_def l)
  show "eval_arith cfg env' op = eval_arith cfg env op" by (simp only: eval_arith_def l f)
qed (simp_all only: eval_load_def eval_store_def eval_aggregate_alias_def eval_aggregate_end_def eval_aggregate_copy_def
    eval_aggregate_zero_def eval_memory_copy_def eval_memory_set_def eval_int_cast_def eval_int_to_float_def eval_float_to_int_def
    eval_float_cast_def lookup_at_same [OF assms])

lemma eval_call_same:
  assumes "same_operands env env' op"
  shows "eval_call c env' op = eval_call c env op"
proof -
  have "lookup_all env' (drop (first_argument op) (op_operands op)) = lookup_all env (drop (first_argument op) (op_operands op))"
    using assms by (intro lookup_all_operands_same) (auto simp: same_operands_def dest: in_set_dropD)
  then show ?thesis by (simp only: eval_call_def call_target_def lookup_at_same [OF assms])
qed

lemma evaluate_same: "same_operands env env' op \<Longrightarrow> evaluate cfg c env' op = evaluate cfg c env op"
  by (simp only: evaluate_def eval_same eval_call_same lookup_at_same)

section \<open>Values that have been computed\<close>

definition valid_at :: "function_facts \<Rightarrow> nat \<Rightarrow> nat \<Rightarrow> string \<Rightarrow> bool" where
  "valid_at k b i n \<longleftrightarrow> (\<exists>d. ff_definitions k n = Some d \<and>
     (if df_block d = b then df_operation d \<le> i else df_block d \<in> ff_dominators k ! b))"

text \<open>Before operation \<open>i\<close> of block \<open>b\<close> the environment holds the parameters and everything that may be used there.\<close>

definition computed :: "ir_function \<Rightarrow> function_facts \<Rightarrow> nat \<Rightarrow> nat \<Rightarrow> environment \<Rightarrow> bool" where
  "computed f k b i env \<longleftrightarrow> (\<forall>n. valid_at k b i n \<longrightarrow> env n \<noteq> None) \<and> (\<forall>p \<in> set (fn_parameters f). env (vd_name p) \<noteq> None)"

text \<open>An environment that holds more: values for local names the first one has none for.\<close>

definition extends :: "environment \<Rightarrow> environment \<Rightarrow> bool" where
  "extends env env' \<longleftrightarrow> (\<forall>x. env x \<noteq> None \<or> \<not> is_local x \<longrightarrow> env' x = env x)"

lemma extends_upd: "extends env env' \<Longrightarrow> extends (env(n \<mapsto> v)) (env'(n \<mapsto> v))"
  by (auto simp: extends_def)

lemma extends_refl: "extends env env"
  by (simp add: extends_def)

lemma symbol_not_local: "is_symbol x \<Longrightarrow> \<not> is_local x"
  by (cases x) (auto simp: is_symbol_def is_local_def starts_with_def)

lemma checked_or_symbol:
  assumes "verify_operation m f k b (i, op) = Some []" "x \<in> set (op_operands op)"
  shows "x \<in> set (checked_operands op) \<or> is_symbol x"
proof -
  obtain j where j: "j < length (op_operands op)" "x = op_operands op ! j" using assms(2) by (auto simp: in_set_conv_nth)
  have "is_symbol x" if "op_opcode op = ''call''" "j = 0"
  proof -
    have "verify_call m f (ff_definitions k) (bl_name (fn_blocks f ! b)) op = []"
      using assms(1) that(1) by (simp add: verify_operation_def Let_def all_reports_Nil_iff del: all_reports.simps)
    then show ?thesis using j that(2) by (auto simp: verify_call_def symbol_operand_def Let_def split: option.splits if_splits)
  qed
  then show ?thesis
  proof (cases "is_symbol x")
    case False
    have "(j, x) \<in> set (enumerate 0 (op_operands op))" using j by (simp add: in_set_enumerate_eq)
    moreover have "\<not> (op_opcode op = ''call'' \<and> j = 0)" using False \<open>op_opcode op = ''call'' \<Longrightarrow> j = 0 \<Longrightarrow> is_symbol x\<close> by blast
    ultimately show ?thesis using False by (force simp: checked_operands_def)
  qed simp
qed

lemma accepted_uses:
  assumes acc: "accepted_with m f k" "b < length (fn_blocks f)" "b \<in> ff_reachable k" "i < length (bl_operations (fn_blocks f ! b))"
    and env: "computed f k b i env" "extends env env'"
  shows "same_operands env env' (bl_operations (fn_blocks f ! b) ! i)"
    and "x \<in> set (concat (op_successor_arguments (bl_operations (fn_blocks f ! b) ! i))) \<Longrightarrow> env' x = env x"
proof -
  let ?op = "bl_operations (fn_blocks f ! b) ! i"
  note v = accepted_operation [OF acc(1,2,4)]
  have uses: "verify_uses f k b i ?op = []"
    using v by (simp add: verify_operation_def Let_def all_reports_Nil_iff del: all_reports.simps)
  have used: "env' x = env x" if use: "verify_use f k b i x = []" for x
  proof (cases "is_local x")
    case True
    then obtain d where "ff_definitions k x = Some d" "use_is_valid k b i d"
      using use by (auto simp: verify_use_def split: option.splits)
    then have "valid_at k b i x" using acc(3) by (auto simp: use_is_valid_def valid_at_def split: if_splits)
    then show ?thesis using env by (simp add: computed_def extends_def)
  next
    case False
    then show ?thesis using env(2) by (simp add: extends_def)
  qed
  show "same_operands env env' ?op"
    unfolding same_operands_def
  proof
    fix x assume "x \<in> set (op_operands ?op)"
    then have "x \<in> set (checked_operands ?op) \<or> \<not> is_local x" using checked_or_symbol [OF v] symbol_not_local by blast
    then show "env' x = env x" using uses used env(2) by (auto simp: verify_uses_def extends_def)
  qed
  show "x \<in> set (concat (op_successor_arguments ?op)) \<Longrightarrow> env' x = env x"
    using uses used by (auto simp: verify_uses_def)
qed

lemma declared_place:
  assumes "(n, b, i, t) \<in> set (declared f)"
  shows "case i of 0 \<Rightarrow> b = 0 \<and> n \<in> vd_name ` set (fn_parameters f) \<or> b < length (fn_blocks f) \<and> n \<in> vd_name ` set (bl_parameters (fn_blocks f ! b))
    | Suc j \<Rightarrow> b < length (fn_blocks f) \<and> j < length (bl_operations (fn_blocks f ! b)) \<and> n = op_result (bl_operations (fn_blocks f ! b) ! j) \<and> n \<noteq> []"
  using assms
  by (auto simp: declared_def declared_parameters_def declared_operations_def in_set_enumerate_eq split: nat.split)

lemma computed_result:
  assumes acc: "accepted_with m f k" "b < length (fn_blocks f)" and env: "computed f k b i env"
    and result: "op_result (bl_operations (fn_blocks f ! b) ! i) = [] \<and> env' = env \<or>
      env' = env(op_result (bl_operations (fn_blocks f ! b) ! i) \<mapsto> v)"
    and i: "i < length (bl_operations (fn_blocks f ! b))"
  shows "computed f k b (Suc i) env'"
proof -
  have grows: "env n \<noteq> None \<Longrightarrow> env' n \<noteq> None" for n using result by auto
  have "env' n \<noteq> None" if n: "valid_at k b (Suc i) n" for n
  proof (cases "valid_at k b i n")
    case True
    then show ?thesis using env grows by (simp add: computed_def)
  next
    case False
    then obtain d where d: "ff_definitions k n = Some d" "df_block d = b" "df_operation d = Suc i"
      using n by (auto simp: valid_at_def le_Suc_eq split: if_splits)
    then have in_table: "(n, b, Suc i, df_type d) \<in> set (declared f)" using accepted_tabulates [OF acc(1)] by fastforce
    then show ?thesis using declared_place [OF in_table] result by auto
  qed
  then show ?thesis using env grows by (simp add: computed_def)
qed


text \<open>Two outcomes that differ in the environment only, and there as far as \<open>extends\<close> allows.\<close>

definition corresponds :: "('t \<Rightarrow> environment \<Rightarrow> bool) \<Rightarrow> interp_fault + ('t \<times> environment) \<times> engine \<Rightarrow>
    interp_fault + ('t \<times> environment) \<times> engine \<Rightarrow> bool" where
  "corresponds P r r' \<longleftrightarrow> (case r of
      Inl e \<Rightarrow> r' = Inl e
    | Inr ((t, env), s) \<Rightarrow> \<exists>env'. r' = Inr ((t, env'), s) \<and> extends env env' \<and> P t env)"

lemma corresponds_end:
  assumes "extends env env'" "\<And>t s'. m s = Inr (t, s') \<Longrightarrow> P t env"
  shows "corresponds P (m_bind m (\<lambda>t. m_return (t, env)) s) (m_bind m (\<lambda>t. m_return (t, env')) s)"
  using assms by (auto simp: corresponds_def m_bind_def m_return_def split: sum.splits)

lemma corresponds_bind:
  assumes "corresponds P (m s) (m' s)" "\<And>t env env' s'. extends env env' \<Longrightarrow> P t env \<Longrightarrow> corresponds Q (k (t, env) s') (k (t, env') s')"
  shows "corresponds Q (m_bind m k s) (m_bind m' k s)"
proof (cases "m s")
  case (Inl e)
  then show ?thesis using assms(1) by (simp add: corresponds_def m_bind_def)
next
  case (Inr z)
  obtain t env s' where z: "z = ((t, env), s')" by (cases z) auto
  then obtain env' where "m' s = Inr ((t, env'), s')" "extends env env'" "P t env" using assms(1) Inr by (auto simp: corresponds_def)
  then show ?thesis using assms(2) Inr z by (simp add: m_bind_def)
qed

lemma corresponds_same:
  assumes "\<And>x s'. corresponds Q (k x s') (k' x s')"
  shows "corresponds Q (m_bind m k s) (m_bind m k' s)"
proof (cases "m s")
  case (Inr z)
  then show ?thesis using assms by (cases z) (simp add: m_bind_def)
qed (simp add: m_bind_def corresponds_def)

lemma corresponds_if:
  assumes "b \<Longrightarrow> corresponds Q (m s) (m' s)" "\<not> b \<Longrightarrow> corresponds Q (n s) (n' s)"
  shows "corresponds Q ((if b then m else n) s) ((if b then m' else n') s)"
  using assms by simp

lemma returned_Inr: "returned m s = Inr (t, s') \<Longrightarrow> \<exists>v. t = Returned v"
  by (auto simp: returned_def m_bind_def m_return_def split: sum.splits)

section \<open>Where control goes\<close>

lemma find_block_from_less: "find_block_from i bs n = Some j \<Longrightarrow> i \<le> j \<and> j < i + length bs"
  by (induction i bs n rule: find_block_from.induct) (auto split: if_splits)

lemma exec_jump_target:
  assumes "exec_jump f env op s = Inr (Transferred j vs, s')"
  shows "\<exists>n \<in> set (op_successors op). block_index f n = Some j"
proof -
  obtain index s1 where "successor_index env op s = Inr (index, s1)"
    and 1: "m_ok index (m_return (Returned None)) (\<lambda>index. case list_at (op_successors op) index of
         None \<Rightarrow> m_throw Undefined_behaviour
       | Some name \<Rightarrow> m_bind (find_block f name) (\<lambda>target. m_ok target (m_return (Returned None)) (\<lambda>target.
           case list_at (op_successor_arguments op) index of
             None \<Rightarrow> m_throw Undefined_behaviour
           | Some names \<Rightarrow> m_bind (lookup_all env names) (\<lambda>vs.
               m_ok vs (m_return (Returned None)) (\<lambda>vs. m_return (Transferred target vs)))))) s1 = Inr (Transferred j vs, s')"
    using assms unfolding exec_jump_def m_bind_Inr by blast
  obtain i n where i: "index = Some i" "list_at (op_successors op) i = Some n"
    using 1 by (cases index; cases "list_at (op_successors op) (the index)") (auto simp: m_ok_def m_return_def m_throw_def)
  obtain target s2 where t: "find_block f n s1 = Inr (target, s2)" and 2: "m_ok target (m_return (Returned None)) (\<lambda>target.
           case list_at (op_successor_arguments op) i of
             None \<Rightarrow> m_throw Undefined_behaviour
           | Some names \<Rightarrow> m_bind (lookup_all env names) (\<lambda>vs.
               m_ok vs (m_return (Returned None)) (\<lambda>vs. m_return (Transferred target vs)))) s2 = Inr (Transferred j vs, s')"
    using 1 unfolding i m_ok_def option.case m_bind_Inr by blast
  have "target = Some j"
    using 2 by (auto simp: m_ok_def m_return_def m_throw_def m_bind_Inr split: option.splits)
  then have "block_index f n = Some j"
    using t by (auto simp: find_block_def block_index_def m_return_def m_fail_def split: option.splits)
  moreover have "n \<in> set (op_successors op)" using i(2) by (auto simp: list_at_def split: if_splits)
  ultimately show ?thesis by blast
qed

lemma in_block_successors: "op \<in> set (bl_operations b) \<Longrightarrow> n \<in> set (op_successors op) \<Longrightarrow> n \<in> set (block_successors b)"
  by (auto simp: block_successors_def)

lemma in_successor_blocks:
  "n \<in> set (block_successors (fn_blocks f ! b)) \<Longrightarrow> block_index f n = Some j \<Longrightarrow> j \<in> set (successor_blocks f b)"
  by (force simp: successor_blocks_def List.map_filter_def)

lemma in_predecessors:
  assumes "j \<in> set (successor_blocks f b)" "b < length (fn_blocks f)"
  shows "b \<in> set (predecessors_of f j)" "j < length (fn_blocks f)"
proof -
  obtain n where n: "n \<in> set (block_successors (fn_blocks f ! b))" "block_index f n = Some j"
    using assms(1) by (auto simp: successor_blocks_def List.map_filter_def)
  have "(b, fn_blocks f ! b) \<in> set (enumerate 0 (fn_blocks f))" using assms(2) by (simp add: in_set_enumerate_eq)
  then show "b \<in> set (predecessors_of f j)" using n by (force simp: predecessors_of_def)
  show "j < length (fn_blocks f)" using find_block_from_less [of 0 "fn_blocks f" n j] n(2) by (simp add: block_index_def)
qed

lemma exec_jump_operands_same:
  assumes "same_operands env env' op" "\<And>x. x \<in> set (concat (op_successor_arguments op)) \<Longrightarrow> env' x = env x"
  shows "exec_jump f env' op = exec_jump f env op"
proof -
  have "successor_index env' op = successor_index env op"
  proof (cases "op_opcode op = ''branch'' \<and> op_operands op \<noteq> []")
    case True
    then have "lookup env' (op_operands op ! 0) True = lookup env (op_operands op ! 0) True"
      using assms(1) by (intro ext) (simp add: lookup_def same_operands_def)
    then show ?thesis by (simp add: successor_index_def list_at_def)
  qed (auto simp: successor_index_def list_at_def)
  moreover have "lookup_all env' ns = lookup_all env ns" if "list_at (op_successor_arguments op) i = Some ns" for i ns
    using assms(2) that by (intro lookup_all_operands_same) (force simp: list_at_def split: if_splits)
  ultimately show ?thesis
    by (intro ext) (simp add: exec_jump_def m_bind_def m_ok_def split: sum.splits option.splits)
qed

lemma exec_return_same: "same_operands env env' op \<Longrightarrow> exec_return cfg f r env' op = exec_return cfg f r env op"
proof (cases "op_operands op")
  case (Cons n ns)
  assume "same_operands env env' op"
  then have "lookup env' n True = lookup env n True" using Cons by (intro ext) (simp add: lookup_def same_operands_def)
  then show ?thesis using Cons by (simp add: exec_return_def)
qed (simp add: exec_return_def)


section \<open>Runs of blocks\<close>

text \<open>What an accepted function may still do wrong here: give a terminator a result, or the entry block parameters.\<close>

definition plain_control :: "ir_function \<Rightarrow> bool" where
  "plain_control f \<longleftrightarrow> (\<forall>b \<in> set (fn_blocks f). \<forall>op \<in> set (bl_operations b). is_terminator op \<longrightarrow> op_result op = []) \<and>
     bl_parameters (fn_blocks f ! 0) = []"

text \<open>What is known when control goes to block \<open>j\<close>, before its parameters are bound.\<close>

definition ready :: "ir_function \<Rightarrow> function_facts \<Rightarrow> nat \<Rightarrow> environment \<Rightarrow> bool" where
  "ready f k j env \<longleftrightarrow> j \<in> ff_reachable k \<and> j < length (fn_blocks f) \<and>
     (\<forall>n d. ff_definitions k n = Some d \<longrightarrow> df_block d \<noteq> j \<longrightarrow> df_block d \<in> ff_dominators k ! j \<longrightarrow> env n \<noteq> None) \<and>
     (\<forall>p \<in> set (fn_parameters f). env (vd_name p) \<noteq> None)"

definition stays_ready :: "ir_function \<Rightarrow> function_facts \<Rightarrow> transfer \<Rightarrow> environment \<Rightarrow> bool" where
  "stays_ready f k t env \<longleftrightarrow> (\<forall>j vs. t = Transferred j vs \<longrightarrow> ready f k j env)"

lemma ready_successor:
  assumes acc: "accepted_with m f k" "b < length (fn_blocks f)" "b \<in> ff_reachable k"
    and env: "computed f k b (length (bl_operations (fn_blocks f ! b))) env" and j: "j \<in> set (successor_blocks f b)"
  shows "ready f k j env"
proof -
  note a = acc(1) [unfolded accepted_with_def]
  have R: "reachable_blocks f = Some (ff_reachable k)" and D: "verifier_dominators f (ff_reachable k) = Some (ff_dominators k)" "fn_blocks f \<noteq> []"
    using a by blast+
  note p = in_predecessors [OF j acc(2)]
  have jR: "j \<in> ff_reachable k" using reachable_closed(2) [OF R acc(3,2)] j by blast
  have "env n \<noteq> None" if n: "ff_definitions k n = Some d" "df_block d \<noteq> j" "df_block d \<in> ff_dominators k ! j" for n d
  proof -
    have "j \<noteq> 0" using n(2,3) dominators_fixed(1) [OF D] by (metis singletonD)
    then have "ff_dominators k ! j \<subseteq> insert j (ff_dominators k ! b)" using dominators_fixed(2) [OF D jR _ p(2,1) acc(3)] by linarith
    then have "df_block d \<in> ff_dominators k ! b" using n(2,3) by blast
    moreover have "df_operation d \<le> length (bl_operations (fn_blocks f ! b))" if "df_block d = b"
    proof -
      have "(n, df_block d, df_operation d, df_type d) \<in> set (declared f)" using accepted_tabulates [OF acc(1)] n(1) by blast
      from declared_place [OF this] show ?thesis using that by (cases "df_operation d") auto
    qed
    ultimately have "valid_at k b (length (bl_operations (fn_blocks f ! b))) n" using n(1) by (simp add: valid_at_def)
    then show ?thesis using env by (simp add: computed_def)
  qed
  then show ?thesis using p(2) jR env by (simp add: ready_def computed_def)
qed

lemma exec_operations_same:
  assumes acc: "accepted_with m f k" "b < length (fn_blocks f)" "b \<in> ff_reachable k" "plain_control f"
    and "i \<le> length (bl_operations (fn_blocks f ! b))" "computed f k b i env" "extends env env'"
  shows "corresponds (stays_ready f k)
    (exec_operations cfg c f r (drop i (bl_operations (fn_blocks f ! b))) env s)
    (exec_operations cfg c f r (drop i (bl_operations (fn_blocks f ! b))) env' s)"
  using assms(5-7)
proof (induction "length (bl_operations (fn_blocks f ! b)) - i" arbitrary: i env env' s)
  case 0
  then show ?case by (simp add: corresponds_def m_return_def stays_ready_def)
next
  case (Suc n)
  let ?ops = "bl_operations (fn_blocks f ! b)" and ?op = "bl_operations (fn_blocks f ! b) ! i"
  have i: "i < length ?ops" using Suc.hyps(2) by simp
  then have ops: "drop i ?ops = ?op # drop (Suc i) ?ops" by (simp add: Cons_nth_drop_Suc)
  note same = accepted_uses [OF acc(1-3) i Suc.prems(2,3)]
  have "exec_jump f env' ?op = exec_jump f env ?op" by (rule exec_jump_operands_same [OF same(1)]) (rule same(2))
  note ev = evaluate_same [OF same(1)] exec_return_same [OF same(1)] this
  note v = accepted_operation [OF acc(1,2) i]
  have last: "is_terminator ?op \<Longrightarrow> Suc i = length ?ops"
    using v by (simp add: verify_operation_def Let_def all_reports_Nil_iff del: all_reports.simps)
  have op_in: "?op \<in> set ?ops" using i by simp
  have jump: "stays_ready f k t env" if t: "exec_jump f env ?op s' = Inr (t, s'')" "op_opcode ?op \<in> {''jump'', ''branch''}" for t s' s''
    unfolding stays_ready_def
  proof (intro allI impI)
    fix j vs assume "t = Transferred j vs"
    then obtain nm where nm: "nm \<in> set (op_successors ?op)" "block_index f nm = Some j" using exec_jump_target t(1) by blast
    have j: "j \<in> set (successor_blocks f b)" using in_successor_blocks [OF in_block_successors [OF op_in nm(1)] nm(2)] .
    have control: "is_terminator ?op" using t(2) by (auto simp: is_terminator_def)
    then have "op_result ?op = []" using acc(2,4) op_in by (auto simp: plain_control_def)
    then have "computed f k b (length ?ops) env" using computed_result [OF acc(1,2) Suc.prems(2) _ i, of env] last [OF control] by simp
    from ready_successor [OF acc(1-3) this j] show "ready f k j env" .
  qed
  have quiet: "stays_ready f k t env" if "returned m s' = Inr (t, s'')" for m t s' s''
    using returned_Inr [OF that] by (auto simp: stays_ready_def)
  have next_step: "corresponds (stays_ready f k) (exec_operations cfg c f r (drop (Suc i) ?ops) e s') (exec_operations cfg c f r (drop (Suc i) ?ops) e' s')"
    if e: "op_result ?op = [] \<and> e = env \<and> e' = env' \<or> e = env(op_result ?op \<mapsto> x) \<and> e' = env'(op_result ?op \<mapsto> x)" for e e' x s'
  proof (rule Suc.hyps(1))
    show "n = length ?ops - Suc i" "Suc i \<le> length ?ops" using Suc.hyps(2) i by simp_all
    show "computed f k b (Suc i) e" using computed_result [OF acc(1,2) Suc.prems(2) _ i, of e x] e by blast
    show "extends e e'" using e Suc.prems(3) extends_upd by blast
  qed
  have stopped: "corresponds (stays_ready f k) (m_return (Returned v, env) s') (m_return (Returned v, env') s')" for v s'
    using Suc.prems(3) by (simp add: corresponds_def m_return_def stays_ready_def)
  show ?case
    unfolding ops exec_operations.simps ev
    apply (rule corresponds_same)
    apply (intro corresponds_if)
        apply (rule corresponds_end [OF Suc.prems(3)], erule quiet)+
     apply (rule corresponds_end [OF Suc.prems(3)], rule jump, assumption, assumption)
    apply (intro corresponds_same corresponds_if)
      apply (rule stopped)
     apply (rule next_step, blast)
    subgoal for _ _ v by (cases v) (auto intro!: corresponds_end Suc.prems(3) quiet next_step)
    done
qed


text \<open>The arguments of a block are bound the same way, whatever else the environments hold.\<close>

lemma bind_block_arguments_same:
  assumes "extends env env'"
  shows "case bind_block_arguments cfg ds vs env s of
      Inl e \<Rightarrow> bind_block_arguments cfg ds vs env' s = Inl e
    | Inr (None, t) \<Rightarrow> bind_block_arguments cfg ds vs env' s = Inr (None, t)
    | Inr (Some e, t) \<Rightarrow> \<exists>e'. bind_block_arguments cfg ds vs env' s = Inr (Some e', t) \<and> extends e e' \<and>
        (\<forall>n. env n \<noteq> None \<longrightarrow> e n \<noteq> None) \<and> (length ds = length vs \<longrightarrow> (\<forall>d \<in> set ds. e (vd_name d) \<noteq> None))"
  using assms
proof (induction ds arbitrary: vs env env' s)
  case (Cons d ds)
  show ?case
  proof (cases vs)
    case vs: (Cons v vs')
    let ?prepare = "prepare_aggregate cfg (''aggregate block argument '' @ vd_name d @ '' must be a pointer'')
      (''aggregate block argument '' @ vd_name d @ '' has insufficient size or alignment'') d v s"
    consider e where "?prepare = Inl e" | t where "?prepare = Inr (None, t)" | w t where "?prepare = Inr (Some w, t)"
      by (cases ?prepare) (auto, metis option.exhaust)
    then show ?thesis
    proof cases
      case (3 w t)
      have step: "bind_block_arguments cfg (d # ds) vs e s = bind_block_arguments cfg ds vs' (e(vd_name d \<mapsto> w)) t" for e
        using 3 by (simp add: vs m_bind_def m_ok_def)
      note ih = Cons.IH [OF extends_upd [OF Cons.prems, of "vd_name d" w], of vs' t]
      show ?thesis
      proof (cases "bind_block_arguments cfg ds vs' (env(vd_name d \<mapsto> w)) t")
        case (Inl e)
        then show ?thesis using ih unfolding step by (simp del: fun_upd_apply)
      next
        case (Inr z)
        obtain o1 u where z: "z = (o1, u)" by fastforce
        show ?thesis
        proof (cases o1)
          case None
          then show ?thesis using ih Inr unfolding step z by (simp del: fun_upd_apply)
        next
          case (Some e)
          obtain e' where e': "bind_block_arguments cfg ds vs' (env'(vd_name d \<mapsto> w)) t = Inr (Some e', u)" "extends e e'"
            and keep: "\<forall>n. (env(vd_name d \<mapsto> w)) n \<noteq> None \<longrightarrow> e n \<noteq> None"
            and bound: "length ds = length vs' \<longrightarrow> (\<forall>d \<in> set ds. e (vd_name d) \<noteq> None)"
            using ih Inr Some z by (auto simp del: fun_upd_apply)
          have "\<forall>n. env n \<noteq> None \<longrightarrow> e n \<noteq> None" "e (vd_name d) \<noteq> None" using keep by (metis fun_upd_apply option.distinct(1))+
          then show ?thesis using e' bound Inr Some unfolding step z by (simp add: vs del: fun_upd_apply)
        qed
      qed
    qed (simp_all add: vs m_bind_def m_ok_def m_return_def)
  qed (simp add: m_return_def Cons.prems)
qed (simp add: m_return_def)

lemma exec_block_same:
  assumes acc: "accepted_with m f k" "plain_control f" and env: "ready f k b env" "extends env env'"
  shows "corresponds (stays_ready f k) (exec_block cfg c f r b vs env s) (exec_block cfg c f r b vs env' s)"
proof -
  have b: "b \<in> ff_reachable k" "b < length (fn_blocks f)" using env(1) by (simp_all add: ready_def)
  let ?b = "fn_blocks f ! b"
  let ?finish = "\<lambda>(t, e). case t of
      Fell_through \<Rightarrow> m_bind (returned (m_fail (''block '' @ bl_name ?b @ '' completed without control transfer''))) (\<lambda>t'. m_return (t', e))
    | _ \<Rightarrow> m_return (t, e)"
  have finish: "corresponds (stays_ready f k) (?finish (t, e) s') (?finish (t, e') s')" if e: "extends e e'" "stays_ready f k t e" for t e e' s'
  proof (cases t)
    case Fell_through
    then show ?thesis using e by (auto intro!: corresponds_end dest!: returned_Inr simp: stays_ready_def)
  qed (use e in \<open>auto simp: corresponds_def m_return_def\<close>)
  have body: "corresponds (stays_ready f k) (m_bind (exec_operations cfg c f r (bl_operations ?b) e) ?finish s')
      (m_bind (exec_operations cfg c f r (bl_operations ?b) e') ?finish s')" if e: "computed f k b 0 e" "extends e e'" for e e' s'
  proof (rule corresponds_bind)
    show "corresponds (stays_ready f k) (exec_operations cfg c f r (bl_operations ?b) e s') (exec_operations cfg c f r (bl_operations ?b) e' s')"
      using exec_operations_same [OF acc(1) b(2,1) acc(2) _ e, of cfg c r s'] by simp
  qed (rule finish)
  have params: "env n \<noteq> None" if valid: "valid_at k b 0 n" "b \<noteq> 0 \<longrightarrow> n \<notin> vd_name ` set (bl_parameters ?b)" for n
  proof -
    obtain d where d: "ff_definitions k n = Some d" "if df_block d = b then df_operation d = 0 else df_block d \<in> ff_dominators k ! b"
      using valid(1) by (auto simp: valid_at_def split: if_splits)
    show ?thesis
    proof (cases "df_block d = b")
      case True
      then have "(n, b, 0, df_type d) \<in> set (declared f)" using accepted_tabulates [OF acc(1)] d by fastforce
      from declared_place [OF this] show ?thesis using env(1) valid(2) acc(2) by (auto simp: ready_def plain_control_def)
    next
      case False
      then show ?thesis using d env(1) by (simp add: ready_def)
    qed
  qed
  show ?thesis
  proof (cases "length (bl_parameters ?b) \<noteq> length vs \<and> b \<noteq> 0")
    case True
    then show ?thesis using b env(2)
      by (simp add: exec_block_def Let_def) (auto intro!: corresponds_end dest!: returned_Inr simp: stays_ready_def)
  next
    case False
    let ?bind = "\<lambda>e. if b \<noteq> 0 then bind_block_arguments cfg (bl_parameters ?b) vs e else m_return (Some e)"
    have block: "exec_block cfg c f r b vs e = m_bind (?bind e) (\<lambda>bound. m_ok bound (m_return (Returned None, e))
        (\<lambda>e'. m_bind (exec_operations cfg c f r (bl_operations ?b) e') ?finish))" for e
      using False b(2) by (simp only: exec_block_def Let_def False not_le [symmetric] if_False)
    have run: "exec_block cfg c f r b vs e s = m_bind (exec_operations cfg c f r (bl_operations ?b) e') ?finish s'"
      if "?bind e s = Inr (Some e', s')" for e e' s'
      using that unfolding block m_bind_def [of "?bind e"] by (simp add: m_ok_def)
    show ?thesis
    proof (cases "b = 0")
      case True
      have "computed f k b 0 env" using params True env(1) by (auto simp: computed_def ready_def)
      then show ?thesis using body env(2) run [of _ _ s] True by (simp add: m_return_def)
    next
      case b0: False
      then have bind: "?bind e = bind_block_arguments cfg (bl_parameters ?b) vs e" for e by simp
      note same = bind_block_arguments_same [OF env(2), of cfg "bl_parameters ?b" vs s]
      consider e where "?bind env s = Inl e" | t where "?bind env s = Inr (None, t)" | e t where "?bind env s = Inr (Some e, t)"
        by (cases "?bind env s") (auto, metis option.exhaust)
      then show ?thesis
      proof cases
        case (1 e)
        then have "?bind env' s = Inl e" using same unfolding bind by simp
        then show ?thesis using 1 unfolding block by (simp add: m_bind_def corresponds_def)
      next
        case (2 t)
        then have "?bind env' s = Inr (None, t)" using same unfolding bind by simp
        then show ?thesis using 2 env(2) unfolding block by (simp add: m_bind_def m_ok_def m_return_def corresponds_def stays_ready_def)
      next
        case (3 e t)
        then obtain e' where e': "?bind env' s = Inr (Some e', t)" "extends e e'" and keep: "\<forall>n. env n \<noteq> None \<longrightarrow> e n \<noteq> None"
          and bound: "\<forall>d \<in> set (bl_parameters ?b). e (vd_name d) \<noteq> None"
          using same False b0 unfolding bind by auto
        have "computed f k b 0 e"
          unfolding computed_def using params keep bound env(1) by (metis (no_types, lifting) imageE ready_def)
        then show ?thesis using body e'(2) unfolding run [OF 3] run [OF e'(1)] by blast
      qed
    qed
  qed
qed

lemma exec_blocks_same:
  assumes acc: "accepted_with m f k" "plain_control f"
  shows "ready f k b env \<Longrightarrow> extends env env' \<Longrightarrow> exec_blocks cfg c f r n b vs env' s = exec_blocks cfg c f r n b vs env s"
proof (induction n arbitrary: b vs env env' s)
  case (Suc n)
  note same = exec_block_same [OF acc Suc.prems, of cfg c r vs s]
  show ?case
  proof (cases "exec_block cfg c f r b vs env s")
    case (Inl e)
    then show ?thesis using same by (simp add: corresponds_def m_bind_def)
  next
    case (Inr z)
    obtain t e u where z: "z = ((t, e), u)" by (cases z) auto
    then obtain e' where e': "exec_block cfg c f r b vs env' s = Inr ((t, e'), u)" "extends e e'" "stays_ready f k t e"
      using same Inr by (auto simp: corresponds_def)
    show ?thesis
    proof (cases t)
      case (Transferred j ws)
      then have "ready f k j e" using e'(3) by (simp add: stays_ready_def)
      then show ?thesis using Suc.IH [OF _ e'(2)] e'(1) Inr Transferred z by (simp add: m_bind_def)
    qed (use e' Inr z in \<open>simp_all add: m_bind_def\<close>)
  qed
qed simp

text \<open>
  C2. Definitions dominate uses. Take a function with a body that the verifier accepts, whose entry block has no parameters and none of whose
  terminators has a result (\<open>plain_control\<close>). A run of it gives the same result, the same memory and the same
  diagnostics when the environment also holds arbitrary values for the local names that have none yet, in particular when every
  name has a value, so that no lookup can fail: the run never depends on a value that has not been computed. Both conditions are needed:
  the verifier counts parameters of the entry block and results of terminators as definitions and accepts their uses, while
  the interpreter binds neither.
\<close>

theorem accepted_runs_read_computed:
  assumes "accepted m" "f \<in> set (md_functions m)" "has_body f" "plain_control f"
    and "length vs = length (fn_parameters f)" "extends (bind_parameters (fn_parameters f) vs Map.empty) env'"
  shows "exec_blocks cfg c f r fuel 0 [] env' s = exec_blocks cfg c f r fuel 0 [] (bind_parameters (fn_parameters f) vs Map.empty) s"
proof -
  obtain k where k: "accepted_with m f k" using accepted_body [OF assms(1-3)] by blast
  have bound: "length ws = length ds \<Longrightarrow> (\<forall>p \<in> set ds. bind_parameters ds ws e (vd_name p) \<noteq> None) \<and>
      (\<forall>x. e x \<noteq> None \<longrightarrow> bind_parameters ds ws e x \<noteq> None)" for ds ws e
  proof (induction ds ws e rule: bind_parameters.induct)
    case (1 d ds v vs e)
    then show ?case by (auto simp: map_emplace_def split: option.splits if_splits)
  qed auto
  have "ready f k 0 (bind_parameters (fn_parameters f) vs Map.empty)"
    using k reachable_closed(1) [of f "ff_reachable k"] dominators_fixed(1) [of f "ff_reachable k" "ff_dominators k"] bound [OF assms(5)]
    by (auto simp: ready_def accepted_with_def)
  then show ?thesis by (rule exec_blocks_same [OF k assms(4)]) (rule assms(6))
qed

end
