(* ===== verification/Accepted_Witnesses.thy ===== *)
theory Accepted_Witnesses
  imports Accepted_Folding Accepted_Reads Interp_Witnesses
begin

text \<open>A program the verifier accepts, folded and run: the theorems about accepted programs applied to it.\<close>

definition fold_main :: ir_function where
  "fold_main = sample_main\<lparr>fn_blocks :=
     [\<lparr>bl_name = ''entry'', bl_parameters = [], bl_operations =
        [simple_op ''%a'' ''const'' TK_i32 [''2''], simple_op ''%b'' ''const'' TK_i32 [''3''],
         simple_op ''%c'' ''add'' TK_i32 [''%a'', ''%b''], simple_op [] ''return'' TK_i32 [''%c'']]\<rparr>]\<rparr>"

definition fold_program :: ir_module where
  "fold_program = (ir_module_init ''fold'')\<lparr>md_functions := [fold_main]\<rparr>"

lemma fold_program_accepted: "accepted fold_program"
  unfolding accepted_def by code_simp

lemma fold_program_functions [simp]: "md_functions fold_program = [fold_main]"
  by (simp add: fold_program_def)

definition fold_options :: interp_options where
  "fold_options = \<lparr>io_max_steps = 10, io_max_call_depth = 2\<rparr>"

definition run_fold :: "ir_module \<Rightarrow> interp_fault + interp_result \<times> engine" where
  "run_fold m = execute m fold_options Map.empty Map.empty (\<lambda>_. 16) sample_fp [] (\<lambda>_. 0) ''main'' []"

lemma fold_outcome:
  "(case run_fold fold_program of
      Inl _ \<Rightarrow> None
    | Inr (res, en) \<Rightarrow> Some (ir_result_value res, ir_result_diagnostics res)) = Some (Some (integer_value TK_i32 5), [])"
  by code_simp

lemma folded_operations:
  "(case run_manager (\<lambda>_. []) False [(''constant-fold'', constant_fold_pass)] fold_program of
      Inl _ \<Rightarrow> None
    | Inr (m, _) \<Rightarrow> Some (map (\<lambda>f. map (map (\<lambda>op. (op_opcode op, op_operands op)) \<circ> bl_operations) (fn_blocks f)) (md_functions m))) =
   Some [[[(''const'', [''2'']), (''const'', [''3'']), (''const'', [''5'']), (''return'', [''%c''])]]]"
  by code_simp

lemma fold_main_integers: "folds_integers fold_main"
  by (simp add: folds_integers_def fold_main_def is_foldable_def simple_op_def is_float_def operations_of_def)

theorem constant_folding_keeps_runs_witness:
  "\<exists>m' acc res en. run_manager (\<lambda>_. []) False [(''constant-fold'', constant_fold_pass)] fold_program = Inr (m', acc) \<and>
     run_fold fold_program = Inr (res, en) \<and> run_fold m' = Inr (res, en) \<and> ir_result_value res = Some (integer_value TK_i32 5)"
proof -
  obtain res en where run: "run_fold fold_program = Inr (res, en)" "ir_result_value res = Some (integer_value TK_i32 5)"
      "ir_result_diagnostics res = []"
    using fold_outcome by (auto split: sum.splits prod.splits)
  obtain m' acc where pass: "run_manager (\<lambda>_. []) False [(''constant-fold'', constant_fold_pass)] fold_program = Inr (m', acc)"
    using folded_operations by (auto split: sum.splits prod.splits)
  have "run_fold m' = Inr (res, en)"
    unfolding run_fold_def
    by (rule constant_folding_keeps_runs [OF fold_program_accepted _ pass run(1) [unfolded run_fold_def] run(3)])
      (simp_all add: fold_main_integers construct_def fold_program_def ir_module_init_def)
  then show ?thesis using run pass by blast
qed

theorem accepted_runs_read_computed_witness:
  "exec_blocks cell_config (\<lambda>_ _. m_return None) fold_main None 5 0 [] (\<lambda>n. if is_local n then Some void_value else None) cell_engine =
   exec_blocks cell_config (\<lambda>_ _. m_return None) fold_main None 5 0 [] (bind_parameters (fn_parameters fold_main) [] Map.empty) cell_engine"
  by (rule accepted_runs_read_computed [OF fold_program_accepted])
    (simp_all add: has_body_def fold_main_def sample_main_def plain_control_def simple_op_def is_terminator_def extends_def)

section \<open>A function on which the verifier does not return\<close>

definition borrowed :: "string \<Rightarrow> value_decl" where
  "borrowed n = value_decl_init\<lparr>vd_name := n, vd_type := TK_ptr, vd_aggregate_kind := ARK_structure, vd_aggregate_name := ''S'',
     vd_borrow_mode := BM_immutable\<rparr>"

definition jump_to :: "string list \<Rightarrow> (string \<times> string list) list \<Rightarrow> operation" where
  "jump_to condition targets = (simple_op [] (if condition = [] then ''jump'' else ''branch'') TK_void condition)
     \<lparr>op_successors := map fst targets, op_successor_arguments := map snd targets\<rparr>"

definition ring_block :: "string \<Rightarrow> string \<Rightarrow> string \<Rightarrow> ir_block" where
  "ring_block name param next_name = \<lparr>bl_name = name, bl_parameters = [(borrowed param)\<lparr>vd_borrow_mode := BM_none\<rparr>],
     bl_operations = [jump_to [] [(next_name, [param])]]\<rparr>"

definition ring_function :: ir_function where
  "ring_function = sample_main\<lparr>fn_name := ''ring'', fn_return_type := TK_void,
     fn_parameters := [value_decl_init\<lparr>vd_name := ''%c'', vd_type := TK_i1\<rparr>, borrowed ''%a'', borrowed ''%b'', borrowed ''%d''],
     fn_blocks := [\<lparr>bl_name = ''entry'', bl_parameters = [], bl_operations = [jump_to [''%c''] [(''x'', [''%a'']), (''other'', [])]]\<rparr>,
       \<lparr>bl_name = ''other'', bl_parameters = [], bl_operations = [jump_to [''%c''] [(''y'', [''%b'']), (''z'', [''%d''])]]\<rparr>,
       ring_block ''x'' ''%x'' ''y'', ring_block ''y'' ''%y'' ''z'', ring_block ''z'' ''%z'' ''x'']\<rparr>"

definition ring_module :: ir_module where
  "ring_module = (ir_module_init ''ring'')\<lparr>md_structs := [\<lparr>sd_name = ''S'', sd_fields = [\<lparr>sf_name = ''v'', sf_type = TK_i32,
     sf_aggregate_kind = ARK_scalar, sf_aggregate_name = []\<rparr>], sd_move_only = False\<rparr>], md_functions := [ring_function]\<rparr>"

lemma ring_incoming:
  "parameter_positions ring_function = [(2, 0), (3, 0), (4, 0)]"
  "incoming_arguments ring_function 2 0 = [''%a'', ''%z'']"
  "incoming_arguments ring_function 3 0 = [''%b'', ''%x'']"
  "incoming_arguments ring_function 4 0 = [''%d'', ''%y'']"
  by code_simp+

lemma ring_names:
  "vd_name (bl_parameters (fn_blocks ring_function ! 2) ! 0) = ''%x''" "bl_name (fn_blocks ring_function ! 2) = ''x''"
  "vd_name (bl_parameters (fn_blocks ring_function ! 3) ! 0) = ''%y''" "bl_name (fn_blocks ring_function ! 3) = ''y''"
  "vd_name (bl_parameters (fn_blocks ring_function ! 4) ! 0) = ''%z''" "bl_name (fn_blocks ring_function ! 4) = ''z''"
  by code_simp+

lemma ring_results: "map op_result (all_operations ring_function) = [[], [], [], [], []]"
  by code_simp

lemma no_results_no_origins:
  "set (map op_result (all_operations f)) \<subseteq> {[]} \<Longrightarrow> operation_origins_pass m f os = (os, False)"
proof -
  assume "set (map op_result (all_operations f)) \<subseteq> {[]}"
  then have "operation_origin m op os = None" if "op \<in> set (all_operations f)" for op os
    using that by (auto simp: operation_origin_def)
  then have "sweep_from (operation_origin m) ops (os, c) = (os, c)" if "set ops \<subseteq> set (all_operations f)" for ops os c
    using that by (induction ops arbitrary: os c) auto
  then show ?thesis by (simp add: operation_origins_pass_def sweep_eq)
qed

definition path_origin :: "nat \<Rightarrow> string \<Rightarrow> borrow_origin" where
  "path_origin i path = \<lparr>bo_parameter = i, bo_mode = BM_immutable, bo_path = path\<rparr>"

definition ring_start :: origins where
  "ring_start = [''%a'' \<mapsto> path_origin 1 ''%a'', ''%b'' \<mapsto> path_origin 2 ''%b'', ''%d'' \<mapsto> path_origin 3 ''%d'']"

definition ring_even :: origins where
  "ring_even = ring_start(''%x'' \<mapsto> path_origin 1 ''%a -> %x (block x)'', ''%z'' \<mapsto> path_origin 3 ''%d -> %z (block z)'')"

definition ring_odd :: origins where
  "ring_odd = ring_start(''%y'' \<mapsto> path_origin 2 ''%b -> %y (block y)'')"

lemma ring_pass: "block_origins_pass ring_module ring_function os = sweep_from (parameter_origin ring_function) [(2, 0), (3, 0), (4, 0)] (os, False)"
proof -
  have "operation_origins_pass ring_module ring_function os = (os, False)" for os
    by (rule no_results_no_origins) (simp add: ring_results)
  then show ?thesis by (simp add: block_origins_pass_def sweep_eq ring_incoming(1) split: prod.split)
qed

lemma ring_passes:
  "block_origins_pass ring_module ring_function ring_start = (ring_even, True)"
  "block_origins_pass ring_module ring_function ring_even = (ring_odd, True)"
  "block_origins_pass ring_module ring_function ring_odd = (ring_even, True)"
  by (simp_all add: ring_pass parameter_origin_def Let_def ring_incoming ring_names ring_start_def ring_even_def ring_odd_def path_origin_def)

lemma ring_origins: "return_origins ring_module ring_function = Some ring_start"
proof -
  have "parameter_origins ring_function = ring_start"
    by (simp add: parameter_origins_def ring_function_def borrowed_def value_decl_init_def map_emplace_def ring_start_def
        path_origin_def sample_main_def numeral_eq_Suc)
  moreover have "operation_origins_pass ring_module ring_function os = (os, False)" for os
    by (rule no_results_no_origins) (simp add: ring_results)
  ultimately show ?thesis unfolding return_origins_def by (subst iterate.simps) simp
qed

text \<open>
  C37. The verifier does not return on this module, whose only function passes three borrowed parameters around a ring of
  blocks. The loop that gives operations their origins ends, and then the pass that joins the origins at block parameters
  changes something each time it runs, however often: it alternates between two states, so the loop around it goes on for ever,
  before any operation is checked, and there is no diagnostic and no verdict.
\<close>

theorem verifier_may_not_return:
  "md_functions ring_module = [ring_function] \<and> has_body ring_function \<and>
   (\<exists>start. return_origins ring_module ring_function = Some start \<and>
      (\<forall>n. snd (block_origins_pass ring_module ring_function (((fst \<circ> block_origins_pass ring_module ring_function) ^^ n) start))) \<and>
      iterate (block_origins_pass ring_module ring_function) start = None) \<and>
   verify_module ring_module = None"
proof -
  let ?S = "{ring_start, ring_even, ring_odd}" and ?pass = "block_origins_pass ring_module ring_function"
  have stays: "snd (?pass s) \<and> fst (?pass s) \<in> ?S" if "s \<in> ?S" for s using that by (auto simp: ring_passes)
  have "((fst \<circ> ?pass) ^^ n) ring_start \<in> ?S" for n by (induction n) (use stays in auto)
  then have forever: "snd (?pass (((fst \<circ> ?pass) ^^ n) ring_start))" for n using stays by blast
  have loop: "iterate ?pass ring_start = None" by (rule iterate_diverges [where S = ?S]) (use stays in auto)
  then have "verify_body ring_module ring_function ring_start = None" by (simp add: verify_body_def)
  moreover have body: "\<not> fn_is_signature ring_function" "\<not> fn_is_external ring_function" "fn_blocks ring_function \<noteq> []"
    by (simp_all add: ring_function_def sample_main_def)
  ultimately have "verify_function ring_module seen ring_function = None" for seen
    by (simp add: verify_function_def ring_origins)
  moreover have "md_functions ring_module = [ring_function]" by (simp add: ring_module_def)
  ultimately show ?thesis using body loop forever ring_origins by (auto simp: verify_module_def has_body_def)
qed

end
