(* ===== verification/Text_Lexer.thy ===== *)
theory Text_Lexer
  imports IR_Module
begin

text \<open>
  The lexer of the textual form of the IR (\<open>forge/src/ir/lexer.cpp\<close>). The cursor \<open>i\<close> with the text from there on is the
  state; a token is its kind, its spelling and its byte range. The character classes are those of the C locale.
\<close>

datatype ir_token_kind = IT_identifier | IT_value | IT_symbol | IT_integer | IT_string | IT_punctuation | IT_arrow | IT_end

record ir_token =
  it_kind :: ir_token_kind
  it_text :: string
  it_range :: source_range

definition isspace :: "char \<Rightarrow> bool" where
  "isspace c \<longleftrightarrow> (let n = of_char c :: nat in n = 32 \<or> 9 \<le> n \<and> n \<le> 13)"

definition isxdigit :: "char \<Rightarrow> bool" where
  "isxdigit c \<longleftrightarrow> isdigit c \<or> (let n = of_char c :: nat in 65 \<le> n \<and> n \<le> 70 \<or> 97 \<le> n \<and> n \<le> 102)"

definition is_name_char :: "char \<Rightarrow> bool" where
  "is_name_char c \<longleftrightarrow> isalnum c \<or> c = CHR ''_'' \<or> c = CHR ''.''"

definition text_range :: "nat \<Rightarrow> nat \<Rightarrow> source_range" where
  "text_range b e = \<lparr>sr_begin = of_nat b, sr_end = of_nat e\<rparr>"

definition lex_error :: "string \<Rightarrow> nat \<Rightarrow> nat \<Rightarrow> diagnostics" where
  "lex_error message b e = [(error_diagnostic message)\<lparr>dg_range := text_range b e\<rparr>]"

section \<open>How far a token reaches\<close>

text \<open>The characters after the opening quote, up to and with the closing one.\<close>

fun string_extent :: "bool \<Rightarrow> string \<Rightarrow> nat" where
  "string_extent escaped [] = 0"
| "string_extent escaped (c # cs) =
     (if \<not> escaped \<and> c = CHR 0x22 then 1
      else Suc (string_extent (\<not> escaped \<and> c = CHR 0x5C) cs))"

text \<open>The name after a sigil: brackets belong to it, and commas, ampersands and stars inside angle brackets.\<close>

fun sigil_extent :: "nat \<Rightarrow> string \<Rightarrow> nat" where
  "sigil_extent depth [] = 0"
| "sigil_extent depth (c # cs) =
     (if is_name_char c then Suc (sigil_extent depth cs)
      else if c = CHR ''<'' then Suc (sigil_extent (depth + 1) cs)
      else if c = CHR ''>'' \<and> depth > 0 then Suc (sigil_extent (depth - 1) cs)
      else if c = CHR ''['' \<or> c = CHR '']'' then Suc (sigil_extent depth cs)
      else if depth > 0 \<and> (c = CHR '','' \<or> c = CHR ''&'' \<or> c = CHR ''*'') then Suc (sigil_extent depth cs)
      else 0)"

definition digits_extent :: "string \<Rightarrow> nat" where
  "digits_extent s = length (takeWhile isdigit s)"

definition fraction_extent :: "string \<Rightarrow> nat" where
  "fraction_extent s = (if s \<noteq> [] \<and> hd s = CHR ''.'' then 1 + digits_extent (tl s) else 0)"

definition exponent_extent :: "string \<Rightarrow> nat" where
  "exponent_extent s =
     (if s \<noteq> [] \<and> (hd s = CHR ''e'' \<or> hd s = CHR ''E'') then
        (let sign = (if tl s \<noteq> [] \<and> (hd (tl s) = CHR ''+'' \<or> hd (tl s) = CHR ''-'') then 1 else 0)
         in 1 + sign + digits_extent (drop (1 + sign) s))
      else 0)"

text \<open>A number without its sign; the first character is a digit.\<close>

definition number_extent :: "string \<Rightarrow> nat" where
  "number_extent s =
     (if 1 < length s \<and> s ! 0 = CHR ''0'' \<and> (s ! 1 = CHR ''x'' \<or> s ! 1 = CHR ''X'')
      then 2 + length (takeWhile isxdigit (drop 2 s))
      else let n = 1 + digits_extent (drop 1 s); m = n + fraction_extent (drop n s)
           in m + exponent_extent (drop m s))"

section \<open>Tokens\<close>

definition starts_number :: "string \<Rightarrow> bool" where
  "starts_number s \<longleftrightarrow> isdigit (hd s) \<or> hd s = CHR ''-'' \<and> tl s \<noteq> [] \<and> isdigit (hd (tl s))"

text \<open>One turn of the loop at a nonempty text: the token, if one starts here, what is reported, and how far to go.\<close>

definition lex_step :: "nat \<Rightarrow> string \<Rightarrow> ir_token option \<times> diagnostics \<times> nat" where
  "lex_step i s =
     (let c = hd s; cs = tl s;
          push = (\<lambda>kind n. Some \<lparr>it_kind = kind, it_text = take n s, it_range = text_range i (i + n)\<rparr>)
      in if isspace c then (None, [], 1)
         else if c = CHR ''/'' \<and> cs \<noteq> [] \<and> hd cs = CHR ''/''
         then (None, [], 2 + length (takeWhile (\<lambda>d. d \<noteq> CHR 0x0A) (tl cs)))
         else if c = CHR ''-'' \<and> cs \<noteq> [] \<and> hd cs = CHR ''>'' then (push IT_arrow 2, [], 2)
         else if c = CHR 0x22 then
           (let n = 1 + string_extent False cs
            in (push IT_string n,
                if s ! (n - 1) \<noteq> CHR 0x22 then lex_error ''unterminated string literal'' i (i + n) else [], n))
         else if c = CHR ''@'' \<or> c = CHR ''%'' then
           (let n = 1 + sigil_extent 0 cs
            in (push (if c = CHR ''%'' then IT_value else IT_symbol) n,
                if n = 1 then lex_error ''expected name after sigil'' i (i + n) else [], n))
         else if isalpha c \<or> c = CHR ''_'' then
           (let n = 1 + length (takeWhile is_name_char cs) in (push IT_identifier n, [], n))
         else if starts_number s then
           (let sign = (if c = CHR ''-'' then 1 else 0); n = sign + number_extent (drop sign s) in (push IT_integer n, [], n))
         else if c \<in> set ''{}[]():,='' then (push IT_punctuation 1, [], 1)
         else (None, lex_error ''unexpected character'' i (i + 1), 1))"

lemma number_extent_pos [simp]: "0 < number_extent s"
  by (simp add: number_extent_def Let_def)

lemma lex_step_pos: "0 < snd (snd (lex_step i s))"
  by (simp add: lex_step_def Let_def)

definition end_token :: "nat \<Rightarrow> ir_token" where
  "end_token i = \<lparr>it_kind = IT_end, it_text = [], it_range = text_range i i\<rparr>"

function lex_from :: "nat \<Rightarrow> string \<Rightarrow> ir_token list \<times> diagnostics" where
  "lex_from i [] = ([end_token i], [])"
| "lex_from i (c # cs) =
     (case lex_step i (c # cs) of (token, ds, n) \<Rightarrow>
        case lex_from (i + n) (drop n (c # cs)) of (tokens, ds') \<Rightarrow>
          (case token of None \<Rightarrow> tokens | Some t \<Rightarrow> t # tokens, ds @ ds'))"
  by pat_completeness auto

termination
  by (relation "measure (\<lambda>(i, s). length s)") (auto, metis lex_step_pos snd_conv diff_less zero_less_Suc)

definition lex_module :: "string \<Rightarrow> ir_token list \<times> diagnostics" where
  "lex_module source = lex_from 0 source"

lemma lex_from_ends: "\<exists>ts j. fst (lex_from i s) = ts @ [end_token j]"
proof (induction i s rule: lex_from.induct)
  case (1 i)
  show ?case by (metis append_Nil fst_conv lex_from.simps(1))
next
  case (2 i c cs)
  obtain token ds n where step: "lex_step i (c # cs) = (token, ds, n)" by (cases "lex_step i (c # cs)") auto
  obtain tokens ds' where rest: "lex_from (i + n) (drop n (c # cs)) = (tokens, ds')" by fastforce
  obtain ts j where "tokens = ts @ [end_token j]" using "2.IH" [OF step [symmetric]] rest by auto
  then show ?case using step rest by (cases token) (auto intro: exI [of _ "_ # ts"])
qed

end
