(* ===== verification/Text_Parser.thy ===== *)
theory Text_Parser
  imports Text_Lexer Data_Layout Binary_Format
begin

text \<open>
  The parser of the textual form of the IR (\<open>forge/src/ir/parser.cpp\<close>). A parser takes the tokens from \<open>pos_\<close> on and
  returns a value with the tokens left, or a fault: the diagnostics that \<open>fail\<close> has recorded when it raised, a read
  beyond the tokens, or a loop whose fuel ran out (neither happens, as \<open>Text_Total\<close> shows). A loop gets
  as much fuel as there are tokens, since each of its turns consumes one. Storage is unbounded.
\<close>

section \<open>Parsers\<close>

datatype parse_fault = Parse_failed diagnostics | Parse_out_of_range | Parse_exhausted

type_synonym 'a ir_parser = "ir_token list \<Rightarrow> parse_fault + 'a \<times> ir_token list"

definition p_return :: "'a \<Rightarrow> 'a ir_parser" where
  "p_return x ts = Inr (x, ts)"

definition p_bind :: "'a ir_parser \<Rightarrow> ('a \<Rightarrow> 'b ir_parser) \<Rightarrow> 'b ir_parser" where
  "p_bind p k ts = (case p ts of Inl e \<Rightarrow> Inl e | Inr (x, ts') \<Rightarrow> k x ts')"

definition p_then :: "unit ir_parser \<Rightarrow> 'b ir_parser \<Rightarrow> 'b ir_parser" where
  "p_then p q = p_bind p (\<lambda>_. q)"

definition p_map :: "('a \<Rightarrow> 'b) \<Rightarrow> 'a ir_parser \<Rightarrow> 'b ir_parser" where
  "p_map f p = p_bind p (\<lambda>x. p_return (f x))"

definition p_exhausted :: "'a ir_parser" where
  "p_exhausted ts = Inl Parse_exhausted"

definition with_fuel :: "(nat \<Rightarrow> 'a ir_parser) \<Rightarrow> 'a ir_parser" where
  "with_fuel p ts = p (length ts + 1) ts"

definition peek_token :: "nat \<Rightarrow> ir_token ir_parser" where
  "peek_token n ts = (case list_at ts n of None \<Rightarrow> Inl Parse_out_of_range | Some t \<Rightarrow> Inr (t, ts))"

definition skip_tokens :: "nat \<Rightarrow> unit ir_parser" where
  "skip_tokens n ts = (if n \<le> length ts then Inr ((), drop n ts) else Inl Parse_out_of_range)"

definition p_fail_all :: "string list \<Rightarrow> 'a ir_parser" where
  "p_fail_all messages = p_bind (peek_token 0) (\<lambda>t ts.
     Inl (Parse_failed (map (\<lambda>message. (error_diagnostic message)\<lparr>dg_range := it_range t\<rparr>) messages)))"

definition p_fail :: "string \<Rightarrow> 'a ir_parser" where
  "p_fail message = p_fail_all [message]"

definition at_text :: "string \<Rightarrow> bool ir_parser" where
  "at_text s = p_map (\<lambda>t. it_text t = s) (peek_token 0)"

definition at_end_token :: "bool ir_parser" where
  "at_end_token = p_map (\<lambda>t. it_kind t = IT_end) (peek_token 0)"

definition take_text :: "string \<Rightarrow> bool ir_parser" where
  "take_text s = p_bind (at_text s) (\<lambda>b. if b then p_map (\<lambda>_. True) (skip_tokens 1) else p_return False)"

definition ticked :: "string \<Rightarrow> string" where
  "ticked s = CHR 0x27 # s @ [CHR 0x27]"

definition expect :: "string \<Rightarrow> unit ir_parser" where
  "expect s = p_bind (take_text s) (\<lambda>b. if b then p_return () else p_fail (''expected '' @ ticked s))"

definition expect_kind :: "ir_token_kind \<Rightarrow> string \<Rightarrow> string ir_parser" where
  "expect_kind kind what = p_bind (peek_token 0) (\<lambda>t.
     if it_kind t \<noteq> kind then p_fail (''expected '' @ what) else p_then (skip_tokens 1) (p_return (it_text t)))"

definition strip_sigil :: "string \<Rightarrow> string" where
  "strip_sigil s = (if s = [] then s else tl s)"

definition expect_symbol :: "string \<Rightarrow> string ir_parser" where
  "expect_symbol what = p_map strip_sigil (expect_kind IT_symbol what)"

text \<open>A chain of \<open>else if (take(...))\<close>.\<close>

fun take_first :: "(string \<times> 'a) list \<Rightarrow> 'a option ir_parser" where
  "take_first [] = p_return None"
| "take_first ((word, x) # alternatives) =
     p_bind (take_text word) (\<lambda>b. if b then p_return (Some x) else take_first alternatives)"

definition first_of :: "(string \<times> 'a ir_parser) list \<Rightarrow> 'a ir_parser \<Rightarrow> 'a ir_parser" where
  "first_of alternatives otherwise =
     p_bind (take_first alternatives) (\<lambda>r. case r of None \<Rightarrow> otherwise | Some p \<Rightarrow> p)"

text \<open>The loops: prefix words that update a record, items up to a token, and items separated by commas.\<close>

fun prefix_loop :: "(string \<times> ('a \<Rightarrow> 'a)) list \<Rightarrow> nat \<Rightarrow> 'a \<Rightarrow> 'a ir_parser" where
  "prefix_loop table 0 x = p_exhausted"
| "prefix_loop table (Suc n) x =
     p_bind (take_first table) (\<lambda>r. case r of None \<Rightarrow> p_return x | Some f \<Rightarrow> prefix_loop table n (f x))"

fun until_loop :: "bool ir_parser \<Rightarrow> ('a \<Rightarrow> 'a ir_parser) \<Rightarrow> nat \<Rightarrow> 'a \<Rightarrow> 'a ir_parser" where
  "until_loop stop step 0 x = p_exhausted"
| "until_loop stop step (Suc n) x =
     p_bind stop (\<lambda>b. if b then p_return x else p_bind (step x) (until_loop stop step n))"

fun comma_loop :: "string \<Rightarrow> 'a ir_parser \<Rightarrow> nat \<Rightarrow> 'a list ir_parser" where
  "comma_loop close item 0 = p_exhausted"
| "comma_loop close item (Suc n) =
     p_bind (at_text close) (\<lambda>b. if b then p_return []
       else p_bind item (\<lambda>x. p_bind (take_text '','') (\<lambda>c.
         if c then p_map (Cons x) (comma_loop close item n) else p_return [x])))"

definition push_back :: "'a ir_parser \<Rightarrow> 'a list \<Rightarrow> 'a list ir_parser" where
  "push_back p xs = p_map (\<lambda>x. xs @ [x]) p"

section \<open>Words, numbers and strings\<close>

definition parse_type :: "ir_type ir_parser" where
  "parse_type = p_bind (expect_kind IT_identifier ''type'') (\<lambda>s.
     case type_parse s of Some t \<Rightarrow> p_return t | None \<Rightarrow> p_fail (''unknown type '' @ ticked s))"

definition parse_u32_token :: "string \<Rightarrow> u32 ir_parser" where
  "parse_u32_token what = p_bind (expect_kind IT_integer what) (\<lambda>s.
     if s \<noteq> [] \<and> list_all isdigit s \<and> int (digits_value s) < 2 ^ 32 then p_return (of_nat (digits_value s))
     else p_fail (''invalid '' @ what))"

text \<open>
  \<open>std::stoull\<close>, \<open>std::stoll\<close> and \<open>std::stoul\<close> on the texts of integer tokens: an optional sign and the longest run of digits,
  whatever follows. \<open>long\<close> has 64 bits; a negative magnitude is negated in the unsigned type.
\<close>

datatype number_fault = Invalid_argument | Not_in_range

definition sto_digits :: "string \<Rightarrow> int \<Rightarrow> number_fault + nat" where
  "sto_digits s limit = (let ds = takeWhile isdigit s
     in if ds = [] then Inl Invalid_argument else if limit < int (digits_value ds) then Inl Not_in_range else Inr (digits_value ds))"

definition stoull :: "string \<Rightarrow> number_fault + u64" where
  "stoull s = (if s \<noteq> [] \<and> hd s = CHR ''-'' then map_sum id (\<lambda>v. - of_nat v) (sto_digits (tl s) (2 ^ 64 - 1))
     else map_sum id of_nat (sto_digits s (2 ^ 64 - 1)))"

text \<open>\<open>std::stoll\<close> of a text that begins with a minus sign.\<close>

definition stoll_negative :: "string \<Rightarrow> number_fault + int" where
  "stoll_negative s = map_sum id (\<lambda>v. - int v) (sto_digits (tl s) (2 ^ 63))"

definition byte_of_code :: "nat \<Rightarrow> u8" where
  "byte_of_code n = of_nat n"

definition hex_digit_of :: "char \<Rightarrow> nat option" where
  "hex_digit_of c =
     (let n = of_char c :: nat
      in if isdigit c then Some (n - 48)
         else if 97 \<le> n \<and> n \<le> 102 then Some (n - 97 + 10)
         else if 65 \<le> n \<and> n \<le> 70 then Some (n - 65 + 10)
         else None)"

definition simple_escape :: "char \<Rightarrow> u8 option" where
  "simple_escape c =
     (if c = CHR ''0'' then Some 0 else if c = CHR ''n'' then Some 10 else if c = CHR ''r'' then Some 13
      else if c = CHR ''t'' then Some 9 else if c = CHR 0x5C then Some 0x5C else if c = CHR 0x22 then Some 0x22 else None)"

text \<open>The characters between the quotes, decoded; the message of the first bad escape otherwise.\<close>

function (sequential) decode_escapes :: "string \<Rightarrow> string + u8 list" where
  "decode_escapes [] = Inr []"
| "decode_escapes (c # cs) =
     (if c \<noteq> CHR 0x5C then map_sum id (Cons (char_to_byte c)) (decode_escapes cs)
      else (case cs of
          [] \<Rightarrow> Inl ''invalid string escape''
        | e # rest \<Rightarrow>
            (case simple_escape e of
               Some b \<Rightarrow> map_sum id (Cons b) (decode_escapes rest)
             | None \<Rightarrow>
                 if e \<noteq> CHR ''x'' then Inl ''unsupported string escape''
                 else (case rest of
                     h # l # rest' \<Rightarrow>
                       (case (hex_digit_of h, hex_digit_of l) of
                          (Some high, Some low) \<Rightarrow> map_sum id (Cons (byte_of_code (16 * high + low))) (decode_escapes rest')
                        | _ \<Rightarrow> Inl ''invalid hexadecimal string escape'')
                   | _ \<Rightarrow> Inl ''incomplete hexadecimal string escape''))))"
  by pat_completeness auto

termination by (relation "measure length") auto

definition decode_string :: "string \<Rightarrow> u8 list ir_parser" where
  "decode_string s = (case decode_escapes (butlast (tl s)) of Inl message \<Rightarrow> p_fail message | Inr bs \<Rightarrow> p_return bs)"

section \<open>Declarations\<close>

text \<open>\<open>struct @name\<close>, \<open>array @name\<close> or a scalar type; the type that goes with a named aggregate differs by place.\<close>

definition parse_aggregate :: "aggregate_ref_kind \<Rightarrow> string \<Rightarrow> ir_type \<Rightarrow> (aggregate_ref_kind \<times> string \<times> ir_type) ir_parser" where
  "parse_aggregate kind what t = p_map (\<lambda>name. (kind, name, t)) (expect_symbol what)"

definition parse_borrow :: "(borrow_mode \<times> bool) ir_parser" where
  "parse_borrow = first_of
     [(''borrow'', p_map (\<lambda>m. (if m then BM_mutable else BM_immutable, False)) (take_text ''mut''))]
     (p_map (\<lambda>b. (BM_none, b)) (take_text ''owned''))"

definition parse_value_decl :: "string \<Rightarrow> value_decl ir_parser" where
  "parse_value_decl what =
     p_bind (expect_kind IT_value what) (\<lambda>name. p_then (expect '':'') (p_bind parse_borrow (\<lambda>(mode, owned).
       let d = value_decl_init\<lparr>vd_name := name, vd_owned := owned, vd_borrow_mode := mode\<rparr>;
           aggregate = p_map (\<lambda>(kind, aname, t). d\<lparr>vd_aggregate_kind := kind, vd_aggregate_name := aname, vd_type := t\<rparr>)
       in first_of
         [(''callback'', p_bind (expect_symbol ''callback signature'') (\<lambda>s.
             if owned \<or> mode \<noteq> BM_none then p_fail ''callback parameter cannot be owned or borrowed''
             else p_return (d\<lparr>vd_function_signature_name := s, vd_type := TK_ptr\<rparr>))),
          (''struct'', aggregate (parse_aggregate ARK_structure ''structure type'' TK_ptr)),
          (''array'', aggregate (parse_aggregate ARK_array ''array type'' TK_ptr))]
         (p_bind parse_type (\<lambda>t.
            if owned then p_fail ''owned parameter requires a named aggregate type''
            else if mode \<noteq> BM_none then p_fail ''borrowed parameter requires a named aggregate type''
            else p_return (d\<lparr>vd_type := t\<rparr>))))))"

definition in_parentheses :: "'a ir_parser \<Rightarrow> 'a list ir_parser" where
  "in_parentheses item = p_then (expect ''('') (p_bind (with_fuel (comma_loop '')'' item)) (\<lambda>xs.
     p_then (expect '')'') (p_return xs)))"

definition parse_parameters :: "value_decl list ir_parser" where
  "parse_parameters = in_parentheses (parse_value_decl ''parameter'')"

definition parse_struct_field :: "struct_field ir_parser" where
  "parse_struct_field =
     p_bind (expect_kind IT_identifier ''field name'') (\<lambda>name. p_then (expect '':'') (
       p_map (\<lambda>(kind, aname, t). \<lparr>sf_name = name, sf_type = t, sf_aggregate_kind = kind, sf_aggregate_name = aname\<rparr>)
         (first_of [(''struct'', parse_aggregate ARK_structure ''structure reference'' TK_void),
                    (''array'', parse_aggregate ARK_array ''array reference'' TK_void)]
            (p_map (\<lambda>t. (ARK_scalar, [], t)) parse_type))))"

definition parse_struct :: "struct_decl ir_parser" where
  "parse_struct =
     p_bind (take_text ''moveonly'') (\<lambda>move_only. p_then (expect ''struct'') (
     p_bind (expect_symbol ''structure name'') (\<lambda>name. p_then (expect ''{'') (
     p_bind (with_fuel (comma_loop ''}'' parse_struct_field)) (\<lambda>fields. p_then (expect ''}'') (
     p_return \<lparr>sd_name = name, sd_fields = fields, sd_move_only = move_only\<rparr>))))))"

definition parse_array :: "array_decl ir_parser" where
  "parse_array =
     p_bind (take_text ''moveonly'') (\<lambda>move_only. p_then (expect ''array'') (
     p_bind (expect_symbol ''array name'') (\<lambda>name. p_then (expect ''='') (
     p_bind (first_of [(''struct'', parse_aggregate ARK_structure ''structure reference'' TK_ptr),
                       (''array'', parse_aggregate ARK_array ''array reference'' TK_ptr)]
               (p_map (\<lambda>t. (ARK_scalar, [], t)) parse_type)) (\<lambda>(kind, ename, t). p_then (expect ''['') (
     p_bind (parse_u32_token ''array element count'') (\<lambda>count. p_then (expect '']'') (
     p_return \<lparr>ad_name = name, ad_element_type = t, ad_element_aggregate_kind = kind, ad_element_aggregate_name = ename,
       ad_element_count = count, ad_move_only = move_only\<rparr>))))))))"


section \<open>Initialisers of aggregates\<close>

definition integer_bits :: "ir_type \<Rightarrow> nat option" where
  "integer_bits t = (if t = TK_i1 then Some 1 else if t = TK_i8 then Some 8 else if t = TK_i16 then Some 16
     else if t = TK_i32 then Some 32 else if t = TK_i64 then Some 64 else None)"

definition bad_number :: "number_fault \<Rightarrow> 'a ir_parser" where
  "bad_number e = p_fail (case e of Invalid_argument \<Rightarrow> ''invalid integer initializer'' | Not_in_range \<Rightarrow> ''integer initializer is out of range'')"

definition parse_integer_bits :: "ir_type \<Rightarrow> u64 ir_parser" where
  "parse_integer_bits t = p_bind (expect_kind IT_integer ''integer initializer'') (\<lambda>s.
     case integer_bits t of
       None \<Rightarrow> p_fail ''aggregate scalar initializer requires an integer type''
     | Some bits \<Rightarrow>
         if s \<noteq> [] \<and> hd s = CHR ''-'' then
           (case stoll_negative s of
              Inl e \<Rightarrow> bad_number e
            | Inr v \<Rightarrow> if bits < 64 \<and> v < - (2 ^ (bits - 1)) then p_fail ''integer initializer is below the field's signed range''
                else p_return (word_of_int v))
         else
           (case stoull s of
              Inl e \<Rightarrow> bad_number e
            | Inr v \<Rightarrow> if bits < 64 \<and> 2 ^ bits \<le> v then p_fail ''integer initializer exceeds the field width''
                else p_return v))"

text \<open>\<open>size_of\<close> and the byte order are those of the host.\<close>

definition scalar_bytes :: "nat \<Rightarrow> u64 \<Rightarrow> u8 list" where
  "scalar_bytes n v = (if dl_endianness dl_host = Endian_little then le_bytes n v else rev (le_bytes n v))"

definition write_scalar :: "u8 list \<Rightarrow> nat \<Rightarrow> ir_type \<Rightarrow> u64 \<Rightarrow> u8 list ir_parser" where
  "write_scalar bytes off t v =
     (case size_of dl_host t of
        None \<Rightarrow> p_fail ''aggregate initializer exceeds its storage''
      | Some n \<Rightarrow> if off > length bytes \<or> unat n > length bytes - off then p_fail ''aggregate initializer exceeds its storage''
          else p_return (splice bytes off (scalar_bytes (unat n) v)))"

text \<open>
  Element \<open>index\<close> of an array starts at \<open>index * stride\<close>; the source checks the size of a nested initializer against the
  stride and of a nested field against its size, and copies. The fuel covers the nesting and the loops together.
\<close>

fun parse_array_initializer :: "nat \<Rightarrow> ir_module \<Rightarrow> array_decl \<Rightarrow> u8 list ir_parser"
  and parse_elements :: "nat \<Rightarrow> ir_module \<Rightarrow> array_decl \<Rightarrow> nat \<Rightarrow> nat \<Rightarrow> u8 list \<Rightarrow> u8 list ir_parser"
  and parse_struct_initializer :: "nat \<Rightarrow> ir_module \<Rightarrow> struct_decl \<Rightarrow> u8 list ir_parser"
  and parse_fields :: "nat \<Rightarrow> ir_module \<Rightarrow> struct_decl \<Rightarrow> field_layout list \<Rightarrow> string list \<Rightarrow> u8 list \<Rightarrow> (string list \<times> u8 list) ir_parser"
where
  "parse_array_initializer 0 m d = p_exhausted"
| "parse_array_initializer (Suc n) m d =
     (case dl_array_layout dl_host m d of
        None \<Rightarrow> p_fail (''invalid layout for array @'' @ ad_name d)
      | Some l \<Rightarrow>
          p_then (expect ''['') (p_bind (parse_elements n m d (unat (al_stride l)) 0 (replicate (unat (al_size l)) 0)) (\<lambda>bytes.
          p_bind (at_text '']'') (\<lambda>b. if b then p_then (expect '']'') (p_return bytes)
            else p_fail ''array initializer has too many elements''))))"
| "parse_elements 0 m d stride index bytes = p_exhausted"
| "parse_elements (Suc n) m d stride index bytes =
     (if index \<ge> unat (ad_element_count d) then p_return bytes
      else p_bind (at_text '']'') (\<lambda>b. if b then p_fail ''array initializer has too few elements''
        else p_bind
          (if ad_element_aggregate_kind d = ARK_structure then
             (case find_struct m (ad_element_aggregate_name d) of
                None \<Rightarrow> p_fail (''unknown nested structure @'' @ ad_element_aggregate_name d)
              | Some nested \<Rightarrow> p_bind (parse_struct_initializer n m nested) (\<lambda>bs.
                  if length bs > stride then p_fail ''nested structure initializer exceeds array stride''
                  else p_return (splice bytes (index * stride) bs)))
           else if ad_element_aggregate_kind d = ARK_array then
             (case find_array m (ad_element_aggregate_name d) of
                None \<Rightarrow> p_fail (''unknown nested array @'' @ ad_element_aggregate_name d)
              | Some nested \<Rightarrow> p_bind (parse_array_initializer n m nested) (\<lambda>bs.
                  if length bs > stride then p_fail ''nested array initializer exceeds array stride''
                  else p_return (splice bytes (index * stride) bs)))
           else p_bind (parse_integer_bits (ad_element_type d)) (write_scalar bytes (index * stride) (ad_element_type d)))
          (\<lambda>bytes'. p_then (if index + 1 < unat (ad_element_count d) then expect '','' else p_return ())
             (parse_elements n m d stride (index + 1) bytes'))))"
| "parse_struct_initializer 0 m d = p_exhausted"
| "parse_struct_initializer (Suc n) m d =
     (case dl_struct_layout dl_host m d of
        None \<Rightarrow> p_fail (''invalid or recursive layout for structure @'' @ sd_name d)
      | Some l \<Rightarrow>
          p_then (expect ''{'') (p_bind (parse_fields n m d (sl_fields l) [] (replicate (unat (sl_size l)) 0)) (\<lambda>(initialized, bytes).
          p_then (expect ''}'') (
            if length initialized \<noteq> length (sd_fields d) then p_fail ''structure initializer must provide every field exactly once''
            else p_return bytes))))"
| "parse_fields 0 m d ls initialized bytes = p_exhausted"
| "parse_fields (Suc n) m d ls initialized bytes =
     p_bind (at_text ''}'') (\<lambda>b. if b then p_return (initialized, bytes)
       else p_bind (expect_kind IT_identifier ''structure field name'') (\<lambda>fname.
         if fname \<in> set initialized then p_fail (''duplicate initializer for field '' @ ticked fname)
         else (case find (\<lambda>(f, l). sf_name f = fname) (zip (sd_fields d) ls) of
             None \<Rightarrow> p_fail (''unknown field '' @ ticked fname @ '' in structure @'' @ sd_name d)
           | Some (f, l) \<Rightarrow> p_then (expect '':'') (
               let nested = (\<lambda>bs. if bs = [] then p_return bytes
                     else if length bs \<noteq> unat (fl_size l) then p_fail ''nested aggregate initializer size mismatch''
                     else p_return (splice bytes (unat (fl_offset l)) bs))
               in p_bind
                 (if sf_aggregate_kind f = ARK_structure then
                    (case find_struct m (sf_aggregate_name f) of
                       None \<Rightarrow> p_fail (''unknown nested structure @'' @ sf_aggregate_name f)
                     | Some d' \<Rightarrow> p_bind (parse_struct_initializer n m d') nested)
                  else if sf_aggregate_kind f = ARK_array then
                    (case find_array m (sf_aggregate_name f) of
                       None \<Rightarrow> p_fail (''unknown nested array @'' @ sf_aggregate_name f)
                     | Some d' \<Rightarrow> p_bind (parse_array_initializer n m d') nested)
                  else p_bind (parse_integer_bits (sf_type f)) (write_scalar bytes (unat (fl_offset l)) (sf_type f)))
                 (\<lambda>bytes'. p_bind (take_text '','') (\<lambda>c.
                    if c then parse_fields n m d ls (initialized @ [fname]) bytes'
                    else p_return (initialized @ [fname], bytes')))))))"

definition initializer_fuel :: "(nat \<Rightarrow> 'a ir_parser) \<Rightarrow> 'a ir_parser" where
  "initializer_fuel p ts = p (2 * length ts + 2) ts"

section \<open>Globals\<close>

definition global_init :: global_var where
  "global_init = \<lparr>gv_name = [], gv_type = TK_void, gv_aggregate_kind = ARK_scalar, gv_aggregate_name = [],
     gv_function_signature_name = [], gv_is_constant = False, gv_is_external = False, gv_is_thread_local = False,
     gv_linkage = SL_external, gv_visibility = SV_default, gv_initializer = [], gv_element_count = 1, gv_alignment = 0,
     gv_zero_initialized = False, gv_bytes = []\<rparr>"

definition global_prefixes :: "(string \<times> (global_var \<Rightarrow> global_var)) list" where
  "global_prefixes =
     [(''extern'', \<lambda>g. g\<lparr>gv_is_external := True\<rparr>), (''thread_local'', \<lambda>g. g\<lparr>gv_is_thread_local := True\<rparr>),
      (''internal'', \<lambda>g. g\<lparr>gv_linkage := SL_internal\<rparr>), (''weak'', \<lambda>g. g\<lparr>gv_linkage := SL_weak\<rparr>),
      (''hidden'', \<lambda>g. g\<lparr>gv_visibility := SV_hidden\<rparr>)]"

definition parse_count :: "string \<Rightarrow> global_var \<Rightarrow> global_var ir_parser" where
  "parse_count what g = first_of
     [(''['', p_bind (parse_u32_token what) (\<lambda>n. p_then (expect '']'') (p_return (g\<lparr>gv_element_count := n\<rparr>))))] (p_return g)"

text \<open>The element count of a callback global is part of its symbol token when it follows without a space.\<close>

definition parse_callback_global :: "global_var \<Rightarrow> global_var ir_parser" where
  "parse_callback_global g = p_bind (expect_kind IT_symbol ''callback signature'') (\<lambda>s.
     let bracket = length (takeWhile (\<lambda>c. c \<noteq> CHR ''['') s)
     in p_map (\<lambda>g. g\<lparr>gv_type := TK_ptr\<rparr>)
       (if bracket < length s then
          (if last s \<noteq> CHR '']'' \<or> bracket + 1 \<ge> length s - 1 then p_fail ''malformed callback element count''
           else case sto_digits (take (length s - bracket - 2) (drop (bracket + 1) s)) (2 ^ 64 - 1) of
                  Inl _ \<Rightarrow> p_fail ''invalid callback element count''
                | Inr n \<Rightarrow> p_return (g\<lparr>gv_function_signature_name := strip_sigil (take bracket s), gv_element_count := of_nat n\<rparr>))
        else parse_count ''callback element count'' (g\<lparr>gv_function_signature_name := strip_sigil s\<rparr>)))"

definition parse_named_global :: "aggregate_ref_kind \<Rightarrow> string \<Rightarrow> global_var \<Rightarrow> global_var ir_parser" where
  "parse_named_global kind what g = p_map (\<lambda>(k, n, t). g\<lparr>gv_aggregate_kind := k, gv_aggregate_name := n, gv_type := t\<rparr>)
     (parse_aggregate kind what TK_i8)"

definition parse_global_value :: "ir_module \<Rightarrow> global_var \<Rightarrow> global_var ir_parser" where
  "parse_global_value m g =
     p_bind (peek_token 0) (\<lambda>t. p_bind (at_text ''{'') (\<lambda>brace. p_bind (at_text ''['') (\<lambda>bracket.
       if gv_aggregate_kind g = ARK_structure \<and> brace then
         (case find_struct m (gv_aggregate_name g) of
            None \<Rightarrow> p_fail (''typed initializer references unknown structure @'' @ gv_aggregate_name g)
          | Some d \<Rightarrow> p_map (\<lambda>bs. g\<lparr>gv_bytes := bs\<rparr>) (initializer_fuel (\<lambda>n. parse_struct_initializer n m d)))
       else if gv_aggregate_kind g = ARK_array \<and> bracket then
         (case find_array m (gv_aggregate_name g) of
            None \<Rightarrow> p_fail (''typed initializer references unknown array @'' @ gv_aggregate_name g)
          | Some d \<Rightarrow> p_map (\<lambda>bs. g\<lparr>gv_bytes := bs\<rparr>) (initializer_fuel (\<lambda>n. parse_array_initializer n m d)))
       else if it_kind t = IT_string then p_then (skip_tokens 1) (p_map (\<lambda>bs. g\<lparr>gv_bytes := bs\<rparr>) (decode_string (it_text t)))
       else p_map (\<lambda>s. g\<lparr>gv_initializer := s\<rparr>) (expect_kind IT_integer ''integer initializer''))))"

definition parse_global :: "ir_module \<Rightarrow> global_var ir_parser" where
  "parse_global m =
     p_bind (with_fuel (\<lambda>n. prefix_loop global_prefixes n global_init)) (\<lambda>g0.
     p_bind (take_text ''constant'') (\<lambda>is_constant. p_then (if is_constant then p_return () else expect ''global'') (
     p_bind (expect_symbol ''global name'') (\<lambda>name. p_then (expect '':'') (
       let g1 = g0\<lparr>gv_is_constant := is_constant, gv_name := name\<rparr>
       in p_bind (first_of
              [(''callback'', parse_callback_global g1),
               (''struct'', parse_named_global ARK_structure ''structure name'' g1),
               (''array'', parse_named_global ARK_array ''array name'' g1)]
              (p_bind parse_type (\<lambda>t. parse_count ''array element count'' (g1\<lparr>gv_type := t\<rparr>)))) (\<lambda>g2.
          p_bind (first_of [(''align'', p_map (\<lambda>n. g2\<lparr>gv_alignment := n\<rparr>) (parse_u32_token ''global alignment''))] (p_return g2)) (\<lambda>g3.
          if gv_is_external g3 then p_return g3
          else p_then (expect ''='') (first_of [(''zero'', p_return (g3\<lparr>gv_zero_initialized := True\<rparr>))] (parse_global_value m g3)))))))))"

end
