(* ===== verification/Text_Module.thy ===== *)
theory Text_Module
  imports Text_Parser
begin

text \<open>
  The rest of \<open>forge/src/ir/parser.cpp\<close>: operations, blocks, functions, and the module with the string constants it moves
  into globals.
\<close>

section \<open>Operations\<close>

definition operation_init :: operation where
  "operation_init = \<lparr>op_result = [], op_opcode = [], op_type = TK_void, op_operands = [], op_successors = [],
     op_successor_arguments = [], op_alignment = 0, op_source_file = [], op_source_line = 0, op_source_column = 0,
     op_source_end_line = 0, op_source_end_column = 0, op_attributes = []\<rparr>"

fun attribute_loop :: "nat \<Rightarrow> ir_attribute list ir_parser" where
  "attribute_loop 0 = p_exhausted"
| "attribute_loop (Suc n) =
     p_bind (take_text ''attr'') (\<lambda>b. if \<not> b then p_return []
       else p_bind (expect_kind IT_identifier ''operation attribute name'') (\<lambda>name.
         p_bind (expect_kind IT_string ''operation attribute value'') (\<lambda>s. p_bind (decode_string s) (\<lambda>bs.
           p_map (Cons \<lparr>at_name = name, at_value = map byte_to_char bs\<rparr>) (attribute_loop n)))))"

definition with_attributes :: "operation \<Rightarrow> operation ir_parser" where
  "with_attributes op = p_map (\<lambda>as. op\<lparr>op_attributes := as\<rparr>) (with_fuel attribute_loop)"

definition parse_args :: "string list ir_parser" where
  "parse_args = in_parentheses (expect_kind IT_value ''SSA value'')"

definition parse_successor :: "(string \<times> string list) ir_parser" where
  "parse_successor = p_bind (expect_kind IT_identifier ''destination block'') (\<lambda>b. p_bind (at_text ''('') (\<lambda>c.
     p_map (Pair b) (if c then parse_args else p_return [])))"

definition parse_return :: "operation \<Rightarrow> operation ir_parser" where
  "parse_return op = p_bind (peek_token 0) (\<lambda>t.
     if it_kind t = IT_value then p_then (skip_tokens 1) (with_attributes (op\<lparr>op_operands := [it_text t]\<rparr>)) else with_attributes op)"

definition parse_jump :: "operation \<Rightarrow> operation ir_parser" where
  "parse_jump op = p_bind parse_successor (\<lambda>(b, as).
     with_attributes (op\<lparr>op_successors := [b], op_successor_arguments := [as]\<rparr>))"

definition parse_branch :: "operation \<Rightarrow> operation ir_parser" where
  "parse_branch op = p_bind (expect_kind IT_value ''condition'') (\<lambda>c. p_then (expect '','') (
     p_bind parse_successor (\<lambda>(b1, as1). p_then (expect '','') (p_bind parse_successor (\<lambda>(b2, as2).
       with_attributes (op\<lparr>op_operands := [c], op_successors := [b1, b2], op_successor_arguments := [as1, as2]\<rparr>))))))"

definition parse_callee :: "string \<Rightarrow> string list ir_parser" where
  "parse_callee opcode =
     (if opcode = ''call'' then p_map (\<lambda>s. [s]) (expect_kind IT_symbol ''callee'')
      else p_bind (expect_kind IT_value ''function pointer'') (\<lambda>v. first_of
        [(''as'', p_map (\<lambda>s. [v, s]) (expect_kind IT_symbol ''indirect call signature''))] (p_return [v])))"

definition parse_call :: "operation \<Rightarrow> operation ir_parser" where
  "parse_call op = p_bind (parse_callee (op_opcode op)) (\<lambda>callee.
     p_bind (in_parentheses (expect_kind IT_value ''call argument'')) (\<lambda>as. with_attributes (op\<lparr>op_operands := callee @ as\<rparr>)))"

definition parse_function_address :: "operation \<Rightarrow> operation ir_parser" where
  "parse_function_address op = p_bind (expect_kind IT_symbol ''function address target'') (\<lambda>f.
     p_bind (first_of [(''as'', p_map (\<lambda>s. [f, s]) (expect_kind IT_symbol ''function address signature''))] (p_return [f])) (\<lambda>xs.
       with_attributes (op\<lparr>op_operands := xs\<rparr>)))"

definition operand_count :: "string \<Rightarrow> nat option" where
  "operand_count oc =
     (if oc \<in> {''const'', ''load'', ''neg'', ''not'', ''copy'', ''stack.alloc'', ''truncate'', ''zero_extend'', ''sign_extend'', ''bitcast'',
          ''int_to_float.signed'', ''int_to_float.unsigned'', ''float_to_int.signed'', ''float_to_int.unsigned'',
          ''float_extend'', ''float_truncate'', ''global.address'', ''tls.address'', ''sizeof.struct'', ''alignof.struct'',
          ''sizeof.array'', ''alignof.array'', ''stack.alloc.struct'', ''stack.alloc.array''} then Some 1
      else if oc \<in> {''add'', ''sub'', ''mul'', ''div'', ''div.signed'', ''div.unsigned'', ''rem.signed'', ''rem.unsigned'', ''and'', ''or'', ''xor'',
          ''shl'', ''shr.signed'', ''shr.unsigned'', ''ptr.offset'', ''field.address''} \<or> take 4 oc = ''cmp.'' then Some 2
      else if oc \<in> {''select'', ''struct.field.address'', ''struct.field.name.address'', ''array.element.address'',
          ''callback.element.address'', ''memory.copy'', ''memory.set''} then Some 3
      else if oc \<in> {''store'', ''aggregate.zero.struct'', ''aggregate.zero.array'', ''aggregate.move.struct'', ''aggregate.move.array'',
          ''aggregate.borrow.struct'', ''aggregate.borrow.array'', ''aggregate.borrow.mut.struct'', ''aggregate.borrow.mut.array'',
          ''aggregate.attach.struct'', ''aggregate.attach.array'', ''aggregate.borrow.end.struct'', ''aggregate.borrow.end.array'',
          ''aggregate.end.struct'', ''aggregate.end.array''} then Some 2
      else if oc \<in> {''aggregate.copy.struct'', ''aggregate.copy.array''} then Some 3
      else None)"

definition is_operand :: "string \<Rightarrow> ir_token \<Rightarrow> bool" where
  "is_operand oc t \<longleftrightarrow> it_kind t \<in> {IT_value, IT_integer, IT_symbol, IT_identifier} \<or> oc = ''const'' \<and> it_kind t = IT_string"

fun parse_operands :: "string \<Rightarrow> nat \<Rightarrow> string list ir_parser" where
  "parse_operands oc 0 = p_return []"
| "parse_operands oc (Suc n) = p_bind (peek_token 0) (\<lambda>t.
     if \<not> is_operand oc t then p_fail (''expected operand for '' @ ticked oc)
     else p_then (skip_tokens 1) (p_then (if n > 0 then p_map (\<lambda>_. ()) (take_text '','') else p_return ())
       (p_map (Cons (it_text t)) (parse_operands oc n))))"

text \<open>The \<open>catch (...)\<close> around the conversion also catches what \<open>fail\<close> raised inside, so a large alignment is reported twice.\<close>

definition parse_alignment :: "operation \<Rightarrow> operation ir_parser" where
  "parse_alignment op = first_of
     [(''align'', p_bind (expect_kind IT_integer ''alignment'') (\<lambda>s.
         case stoull s of
           Inl _ \<Rightarrow> p_fail ''invalid alignment''
         | Inr v \<Rightarrow> if v > 0xFFFFFFFF then p_fail_all [''alignment is too large'', ''invalid alignment'']
             else p_return (op\<lparr>op_alignment := ucast v\<rparr>)))] (p_return op)"

definition parse_plain :: "operation \<Rightarrow> operation ir_parser" where
  "parse_plain op =
     (case operand_count (op_opcode op) of
        None \<Rightarrow> p_fail (''unknown opcode '' @ ticked (op_opcode op))
      | Some n \<Rightarrow> p_bind (parse_operands (op_opcode op) n) (\<lambda>xs.
          p_bind (parse_alignment (op\<lparr>op_operands := xs\<rparr>)) with_attributes))"

definition parse_result_name :: "string ir_parser" where
  "parse_result_name = p_bind (peek_token 0) (\<lambda>t.
     if it_kind t \<noteq> IT_value then p_return []
     else p_bind (peek_token 1) (\<lambda>t1. if it_text t1 = ''='' then p_then (skip_tokens 2) (p_return (it_text t)) else p_return []))"

definition parse_operation :: "operation ir_parser" where
  "parse_operation = p_bind parse_result_name (\<lambda>result.
     p_bind (expect_kind IT_identifier ''opcode'') (\<lambda>oc.
       let op = operation_init\<lparr>op_result := result, op_opcode := oc\<rparr>
       in if oc = ''return'' then parse_return op
          else if oc = ''unreachable'' then with_attributes op
          else if oc = ''jump'' then parse_jump op
          else if oc = ''branch'' then parse_branch op
          else p_bind parse_type (\<lambda>t.
            let op' = op\<lparr>op_type := t\<rparr>
            in if oc = ''call'' \<or> oc = ''call.indirect'' then parse_call op'
               else if oc = ''func.address'' \<or> oc = ''callback.address'' then parse_function_address op'
               else parse_plain op')))"

section \<open>Blocks and functions\<close>

text \<open>A block ends before a brace or before an identifier followed by a colon or a parenthesis, which names the next block.\<close>

definition at_block_end :: "bool ir_parser" where
  "at_block_end = p_bind (at_text ''}'') (\<lambda>b. if b then p_return True
     else p_bind (peek_token 0) (\<lambda>t. if it_kind t \<noteq> IT_identifier then p_return False
       else p_map (\<lambda>t1. it_text t1 = '':'' \<or> it_text t1 = ''('') (peek_token 1)))"

definition parse_block :: "ir_block ir_parser" where
  "parse_block =
     p_bind (expect_kind IT_identifier ''block name'') (\<lambda>name. p_bind (at_text ''('') (\<lambda>b.
     p_bind (if b then parse_parameters else p_return []) (\<lambda>ps. p_then (expect '':'') (
     p_map (\<lambda>ops. \<lparr>bl_name = name, bl_parameters = ps, bl_operations = ops\<rparr>)
       (with_fuel (\<lambda>n. until_loop at_block_end (push_back parse_operation) n []))))))"

definition at_close :: "bool ir_parser" where
  "at_close = p_bind (at_text ''}'') (\<lambda>b. if b then p_return True else at_end_token)"

definition function_init :: ir_function where
  "function_init = \<lparr>fn_name = [], fn_is_external = False, fn_is_signature = False, fn_variadic = False, fn_target_feature = [],
     fn_calling_convention = CC_platform, fn_linkage = SL_external, fn_visibility = SV_default, fn_return_type = TK_void,
     fn_return_aggregate_kind = ARK_scalar, fn_return_aggregate_name = [], fn_return_owned = False,
     fn_return_borrow_mode = BM_none, fn_return_borrow_parameter = - 1, fn_parameters = [], fn_blocks = []\<rparr>"

definition function_prefixes :: "(string \<times> (ir_function \<Rightarrow> ir_function)) list" where
  "function_prefixes =
     [(''extern'', \<lambda>f. f\<lparr>fn_is_external := True\<rparr>), (''signature'', \<lambda>f. f\<lparr>fn_is_signature := True\<rparr>),
      (''variadic'', \<lambda>f. f\<lparr>fn_variadic := True\<rparr>), (''internal'', \<lambda>f. f\<lparr>fn_linkage := SL_internal\<rparr>),
      (''weak'', \<lambda>f. f\<lparr>fn_linkage := SL_weak\<rparr>), (''hidden'', \<lambda>f. f\<lparr>fn_visibility := SV_hidden\<rparr>),
      (''c'', \<lambda>f. f\<lparr>fn_calling_convention := CC_c\<rparr>), (''systemv'', \<lambda>f. f\<lparr>fn_calling_convention := CC_system_v\<rparr>),
      (''win64'', \<lambda>f. f\<lparr>fn_calling_convention := CC_windows_x64\<rparr>), (''fast'', \<lambda>f. f\<lparr>fn_calling_convention := CC_fast\<rparr>),
      (''sse2'', \<lambda>f. f\<lparr>fn_target_feature := ''sse2''\<rparr>), (''avx2'', \<lambda>f. f\<lparr>fn_target_feature := ''avx2''\<rparr>),
      (''neon'', \<lambda>f. f\<lparr>fn_target_feature := ''neon''\<rparr>)]"

definition parse_return_type :: "ir_function \<Rightarrow> ir_function ir_parser" where
  "parse_return_type f0 = p_bind parse_borrow (\<lambda>(mode, owned).
     let f = f0\<lparr>fn_return_borrow_mode := mode, fn_return_owned := owned\<rparr>;
         aggregate = p_map (\<lambda>(kind, name, t). f\<lparr>fn_return_aggregate_kind := kind, fn_return_aggregate_name := name, fn_return_type := t\<rparr>)
     in p_bind (first_of
          [(''struct'', aggregate (parse_aggregate ARK_structure ''structure return type'' TK_ptr)),
           (''array'', aggregate (parse_aggregate ARK_array ''array return type'' TK_ptr))]
          (if owned then p_fail ''owned return requires struct or array type''
           else if mode \<noteq> BM_none then p_fail ''borrowed return requires struct or array type''
           else p_map (\<lambda>t. f\<lparr>fn_return_type := t\<rparr>) parse_type)) (\<lambda>f.
        if mode = BM_none then p_return f
        else p_then (expect ''from'') (p_map (\<lambda>n. f\<lparr>fn_return_borrow_parameter := n\<rparr>) (parse_u32_token ''borrowed return parameter index''))))"

definition parse_function :: "ir_function ir_parser" where
  "parse_function =
     p_bind (with_fuel (\<lambda>n. prefix_loop function_prefixes n function_init)) (\<lambda>f0.
     p_then (if fn_is_signature f0 then p_return () else expect ''func'') (
     p_bind (expect_symbol (if fn_is_signature f0 then ''signature name'' else ''function name'')) (\<lambda>name.
     p_bind parse_parameters (\<lambda>ps. p_then (expect ''->'') (
     p_bind (parse_return_type (f0\<lparr>fn_name := name, fn_parameters := ps\<rparr>)) (\<lambda>f.
       if fn_is_external f \<or> fn_is_signature f then p_return f
       else p_then (expect ''{'') (p_bind (with_fuel (\<lambda>n. until_loop at_close (push_back parse_block) n [])) (\<lambda>bs.
         p_then (expect ''}'') (p_return (f\<lparr>fn_blocks := bs\<rparr>))))))))))"

section \<open>String constants\<close>

definition module_tag :: "string \<Rightarrow> string" where
  "module_tag name = map (\<lambda>c. if isalnum c \<or> c = CHR ''_'' then c else CHR ''_'') name"

definition is_string_constant :: "operation \<Rightarrow> bool" where
  "is_string_constant op \<longleftrightarrow> op_opcode op = ''const'' \<and> length (op_operands op) = 1 \<and>
     (let s = op_operands op ! 0 in 2 \<le> length s \<and> hd s = CHR 0x22 \<and> last s = CHR 0x22)"

definition string_global :: "string \<Rightarrow> nat \<Rightarrow> u8 list \<Rightarrow> global_var" where
  "string_global tag index bytes = global_init\<lparr>gv_name := ''__forge_string_literal_'' @ tag @ ''_'' @ to_string_nat index,
     gv_type := TK_i8, gv_is_constant := True, gv_linkage := SL_internal, gv_alignment := 1,
     gv_element_count := of_nat (length bytes), gv_bytes := bytes\<rparr>"

text \<open>The globals made so far are the state of the pass; their number is the index of the next.\<close>

definition intern_operation :: "string \<Rightarrow> operation \<Rightarrow> global_var list \<Rightarrow> (operation \<times> global_var list) ir_parser" where
  "intern_operation tag op gs =
     (if \<not> is_string_constant op then p_return (op, gs)
      else if op_type op \<noteq> TK_i64 \<and> op_type op \<noteq> TK_ptr then p_fail ''string constant requires pointer-sized i64 or ptr result''
      else p_bind (decode_string (op_operands op ! 0)) (\<lambda>bs.
        let g = string_global tag (length gs) (bs @ [0])
        in p_return (op\<lparr>op_opcode := ''global.address'', op_operands := [CHR ''@'' # gv_name g]\<rparr>, gs @ [g])))"

fun p_traverse :: "('a \<Rightarrow> 's \<Rightarrow> ('a \<times> 's) ir_parser) \<Rightarrow> 'a list \<Rightarrow> 's \<Rightarrow> ('a list \<times> 's) ir_parser" where
  "p_traverse f [] s = p_return ([], s)"
| "p_traverse f (x # xs) s = p_bind (f x s) (\<lambda>(x', s'). p_map (\<lambda>(xs', s''). (x' # xs', s'')) (p_traverse f xs s'))"

definition intern_block :: "string \<Rightarrow> ir_block \<Rightarrow> global_var list \<Rightarrow> (ir_block \<times> global_var list) ir_parser" where
  "intern_block tag b gs = p_map (\<lambda>(ops, gs'). (b\<lparr>bl_operations := ops\<rparr>, gs')) (p_traverse (intern_operation tag) (bl_operations b) gs)"

definition intern_function :: "string \<Rightarrow> ir_function \<Rightarrow> global_var list \<Rightarrow> (ir_function \<times> global_var list) ir_parser" where
  "intern_function tag f gs = p_map (\<lambda>(bs, gs'). (f\<lparr>fn_blocks := bs\<rparr>, gs')) (p_traverse (intern_block tag) (fn_blocks f) gs)"

definition intern_strings :: "ir_module \<Rightarrow> ir_module ir_parser" where
  "intern_strings m = p_map (\<lambda>(fs, gs). m\<lparr>md_functions := fs, md_globals := md_globals m @ gs\<rparr>)
     (p_traverse (intern_function (module_tag (md_name m))) (md_functions m) [])"

section \<open>Modules\<close>

definition is_symbol_prefix :: "string \<Rightarrow> bool" where
  "is_symbol_prefix s \<longleftrightarrow> s \<in> {''extern'', ''thread_local'', ''internal'', ''weak'', ''hidden''}"

definition is_global_start :: "bool ir_parser" where
  "is_global_start ts =
     (case dropWhile (\<lambda>t. is_symbol_prefix (it_text t)) ts of
        [] \<Rightarrow> Inl Parse_out_of_range
      | t # _ \<Rightarrow> Inr (it_text t = ''global'' \<or> it_text t = ''constant'', ts))"

definition at_declaration :: "string \<Rightarrow> bool ir_parser" where
  "at_declaration word = p_bind (at_text word) (\<lambda>b. if b then p_return True
     else p_bind (at_text ''moveonly'') (\<lambda>c. if \<not> c then p_return False else p_map (\<lambda>t. it_text t = word) (peek_token 1)))"

definition parse_item :: "ir_module \<Rightarrow> ir_module ir_parser" where
  "parse_item m =
     p_bind (at_declaration ''struct'') (\<lambda>s. if s then p_map (\<lambda>d. m\<lparr>md_structs := md_structs m @ [d]\<rparr>) parse_struct
     else p_bind (at_declaration ''array'') (\<lambda>a. if a then p_map (\<lambda>d. m\<lparr>md_arrays := md_arrays m @ [d]\<rparr>) parse_array
     else p_bind is_global_start (\<lambda>g. if g then p_map (\<lambda>d. m\<lparr>md_globals := md_globals m @ [d]\<rparr>) (parse_global m)
     else p_map (\<lambda>f. m\<lparr>md_functions := md_functions m @ [f]\<rparr>) parse_function)))"

definition parse_items :: "ir_module ir_parser" where
  "parse_items =
     p_then (expect ''module'') (p_bind (expect_symbol ''module name'') (\<lambda>name. p_then (expect ''{'') (
     p_bind (with_fuel (\<lambda>n. until_loop at_close parse_item n (ir_module_init name))) (\<lambda>m.
     p_then (expect ''}'') (intern_strings m)))))"

record parse_result =
  ps_module :: "ir_module option"
  ps_diagnostics :: diagnostics

text \<open>\<open>parse_module\<close>; \<open>None\<close> stands for the two faults that are no exceptions.\<close>

definition parse_module :: "string \<Rightarrow> parse_result option" where
  "parse_module source =
     (case lex_module source of (tokens, ds) \<Rightarrow>
       (case parse_items tokens of
          Inr (m, _) \<Rightarrow> Some \<lparr>ps_module = (if ds = [] then Some m else None), ps_diagnostics = ds\<rparr>
        | Inl (Parse_failed ds') \<Rightarrow> Some \<lparr>ps_module = None, ps_diagnostics = ds @ ds'\<rparr>
        | Inl _ \<Rightarrow> None))"

end
