(* ===== verification/Text_Total.thy ===== *)
theory Text_Total
  imports Text_Module
begin

text \<open>
  The parser of the textual IR always returns: it never reads beyond the end token and no loop runs out of fuel. A parser
  is safe when this holds of it on any tokens that end in the end token, and consumes when it also uses one up.
\<close>

section \<open>Safe parsers\<close>

definition wf_tokens :: "ir_token list \<Rightarrow> bool" where
  "wf_tokens ts \<longleftrightarrow> ts \<noteq> [] \<and> it_text (last ts) = [] \<and> it_kind (last ts) = IT_end \<and> (\<forall>t \<in> set (butlast ts). it_kind t \<noteq> IT_end)"

definition proper :: "nat \<Rightarrow> nat \<Rightarrow> parse_fault + 'a \<times> ir_token list \<Rightarrow> bool" where
  "proper n k r \<longleftrightarrow> (case r of
      Inl (Parse_failed _) \<Rightarrow> True
    | Inl _ \<Rightarrow> False
    | Inr (_, ts) \<Rightarrow> wf_tokens ts \<and> length ts + k \<le> n)"

definition safe :: "'a ir_parser \<Rightarrow> bool" where
  "safe p \<longleftrightarrow> (\<forall>ts. wf_tokens ts \<longrightarrow> proper (length ts) 0 (p ts))"

definition consumes :: "'a ir_parser \<Rightarrow> bool" where
  "consumes p \<longleftrightarrow> (\<forall>ts. wf_tokens ts \<longrightarrow> proper (length ts) 1 (p ts))"

named_theorems parser_safe "parsers that return on every input"

lemma wf_tokens_skip: "wf_tokens (t # ts) \<Longrightarrow> it_kind t \<noteq> IT_end \<or> it_text t \<noteq> [] \<Longrightarrow> wf_tokens ts"
  by (cases ts) (auto simp: wf_tokens_def)

lemma wf_tokens_not_Nil: "wf_tokens ts \<Longrightarrow> \<exists>t ts'. ts = t # ts'"
  by (cases ts) (auto simp: wf_tokens_def)

lemma proper_simps [simp]:
  "proper n k (Inr (x, ts)) \<longleftrightarrow> wf_tokens ts \<and> length ts + k \<le> n"
  "proper n k (Inl e) \<longleftrightarrow> (\<exists>ds. e = Parse_failed ds)"
  by (auto simp: proper_def split: parse_fault.splits)

lemma proper_bind:
  assumes "proper n k (p ts)" "\<And>x ts'. p ts = Inr (x, ts') \<Longrightarrow> wf_tokens ts' \<Longrightarrow> length ts' + k \<le> n \<Longrightarrow> proper n l (f x ts')"
  shows "proper n l (p_bind p f ts)"
proof (cases "p ts")
  case (Inl e)
  then show ?thesis using assms(1) by (simp add: p_bind_def)
next
  case (Inr r)
  then show ?thesis using assms by (cases r) (simp add: p_bind_def)
qed

lemma proper_weaken: "proper n k r \<Longrightarrow> n + l \<le> m + k \<Longrightarrow> proper m l r"
proof (cases r)
  case (Inr x)
  then show "proper n k r \<Longrightarrow> n + l \<le> m + k \<Longrightarrow> proper m l r" by (cases x) simp
qed simp

lemma proper_seq:
  assumes "proper n k (p ts)" "\<And>x ts'. wf_tokens ts' \<Longrightarrow> length ts' + k \<le> n \<Longrightarrow> proper (length ts') j (f x ts')" "l = k + j"
  shows "proper n l (p_bind p f ts)"
proof (rule proper_bind [where p = p and ts = ts and f = f and k = k, OF assms(1)])
  fix x ts' assume "wf_tokens ts'" "length ts' + k \<le> n"
  then show "proper n l (f x ts')" using proper_weaken [OF assms(2)] assms(3) by simp
qed

lemma safeD: "safe p \<Longrightarrow> wf_tokens ts \<Longrightarrow> proper (length ts) 0 (p ts)"
  by (simp add: safe_def)

lemma consumesD: "consumes p \<Longrightarrow> wf_tokens ts \<Longrightarrow> proper (length ts) 1 (p ts)"
  by (simp add: consumes_def)

lemma consumes_safe: "consumes p \<Longrightarrow> safe p"
  unfolding safe_def [of p] by (auto intro: proper_weaken [OF consumesD])

lemma safe_return [parser_safe]: "safe (p_return x)"
  by (simp add: safe_def p_return_def proper_def)

lemma safe_bind [parser_safe]: "safe p \<Longrightarrow> (\<And>x. safe (f x)) \<Longrightarrow> safe (p_bind p f)"
  unfolding safe_def [of "p_bind p f"] by (intro allI impI) (rule proper_seq [where p = p and f = f and k = 0 and j = 0], auto simp: safeD)

lemma consumes_bind_left: "consumes p \<Longrightarrow> (\<And>x. safe (f x)) \<Longrightarrow> consumes (p_bind p f)"
  unfolding consumes_def [of "p_bind p f"] by (intro allI impI) (rule proper_seq [where p = p and f = f and k = 1 and j = 0], auto simp: safeD consumesD [unfolded One_nat_def])

lemma consumes_bind_right: "safe p \<Longrightarrow> (\<And>x. consumes (f x)) \<Longrightarrow> consumes (p_bind p f)"
  unfolding consumes_def [of "p_bind p f"] by (intro allI impI) (rule proper_seq [where p = p and f = f and k = 0 and j = 1], auto simp: safeD consumesD [unfolded One_nat_def])

lemma safe_then [parser_safe]: "safe p \<Longrightarrow> safe q \<Longrightarrow> safe (p_then p q)"
  unfolding p_then_def by (intro parser_safe)

lemma safe_map [parser_safe]: "safe p \<Longrightarrow> safe (p_map f p)"
  unfolding p_map_def by (intro parser_safe)

lemma safe_if [parser_safe]: "(b \<Longrightarrow> safe p) \<Longrightarrow> (\<not> b \<Longrightarrow> safe q) \<Longrightarrow> safe (if b then p else q)"
  by simp

lemma safe_option [parser_safe]: "(v = None \<Longrightarrow> safe p) \<Longrightarrow> (\<And>x. v = Some x \<Longrightarrow> safe (q x)) \<Longrightarrow> safe (case v of None \<Rightarrow> p | Some x \<Rightarrow> q x)"
  by (cases v) auto

lemma safe_sum [parser_safe]: "(\<And>x. safe (p x)) \<Longrightarrow> (\<And>x. safe (q x)) \<Longrightarrow> safe (case v of Inl x \<Rightarrow> p x | Inr x \<Rightarrow> q x)"
  by (cases v) auto

lemma safe_prod [parser_safe]: "(\<And>x y. safe (p x y)) \<Longrightarrow> safe (case v of (x, y) \<Rightarrow> p x y)"
  by (cases v) auto

lemma consumes_then_left: "consumes p \<Longrightarrow> safe q \<Longrightarrow> consumes (p_then p q)"
  unfolding p_then_def by (rule consumes_bind_left)

lemma consumes_then_right: "safe p \<Longrightarrow> consumes q \<Longrightarrow> consumes (p_then p q)"
  unfolding p_then_def by (rule consumes_bind_right)

lemma consumes_map: "consumes p \<Longrightarrow> consumes (p_map f p)"
  unfolding p_map_def by (rule consumes_bind_left) (auto intro: parser_safe)

lemma safe_peek [parser_safe]: "safe (peek_token 0)"
  by (auto simp: safe_def peek_token_def proper_def list_at_def wf_tokens_def split: option.splits)

lemma safe_fail_all: "safe (p_fail_all messages)" "consumes (p_fail_all messages)"
  by (auto simp: safe_def consumes_def p_fail_all_def peek_token_def p_bind_def proper_def list_at_def wf_tokens_def split: option.splits)

lemmas safe_fail [parser_safe] = safe_fail_all(1) [of "[message]" for message, folded p_fail_def]
lemmas consumes_fail = safe_fail_all(2) [of "[message]" for message, folded p_fail_def]

lemma safe_at [parser_safe]: "safe (at_text s)" "safe at_end_token"
  unfolding at_text_def at_end_token_def by (intro parser_safe)+

lemma take_text_cases:
  assumes "wf_tokens ts" "s \<noteq> []"
  obtains t ts' where "ts = t # ts'" "take_text s ts = (if it_text t = s then Inr (True, ts') else Inr (False, ts))"
    "it_text t = s \<Longrightarrow> wf_tokens ts'"
proof -
  obtain t ts' where ts: "ts = t # ts'" using wf_tokens_not_Nil [OF assms(1)] by blast
  have "take_text s ts = (if it_text t = s then Inr (True, ts') else Inr (False, ts))"
    by (simp add: ts take_text_def at_text_def p_bind_def p_map_def peek_token_def skip_tokens_def p_return_def)
  then show thesis using that [OF ts] assms wf_tokens_skip ts by simp
qed

lemma safe_take [parser_safe]: "s \<noteq> [] \<Longrightarrow> safe (take_text s)"
  unfolding safe_def
proof (intro allI impI)
  fix ts assume ts: "s \<noteq> []" "wf_tokens ts"
  obtain t us where "ts = t # us" "take_text s ts = (if it_text t = s then Inr (True, us) else Inr (False, ts))"
    "it_text t = s \<Longrightarrow> wf_tokens us" using take_text_cases [OF ts(2,1)] by blast
  then show "proper (length ts) 0 (take_text s ts)" using ts(2) by simp
qed

lemma consumes_expect: "s \<noteq> [] \<Longrightarrow> consumes (expect s)"
  unfolding consumes_def
proof (intro allI impI)
  fix ts assume ts: "s \<noteq> []" "wf_tokens ts"
  obtain t ts' where c: "ts = t # ts'" "take_text s ts = (if it_text t = s then Inr (True, ts') else Inr (False, ts))"
    "it_text t = s \<Longrightarrow> wf_tokens ts'" using take_text_cases [OF ts(2,1)] by blast
  then show "proper (length ts) 1 (expect s ts)"
    using safe_fail [of "''expected '' @ ticked s"] ts(2)
    by (auto simp: expect_def p_bind_def p_return_def proper_def p_fail_def p_fail_all_def peek_token_def)
qed

lemma consumes_expect_kind: "kind \<noteq> IT_end \<Longrightarrow> consumes (expect_kind kind what)"
  unfolding consumes_def
proof (intro allI impI)
  fix ts assume ts: "kind \<noteq> IT_end" "wf_tokens ts"
  obtain t ts' where c: "ts = t # ts'" using wf_tokens_not_Nil [OF ts(2)] by blast
  then show "proper (length ts) 1 (expect_kind kind what ts)"
    using ts wf_tokens_skip [of t ts']
    by (auto simp: expect_kind_def p_bind_def p_then_def skip_tokens_def p_return_def proper_def p_fail_def p_fail_all_def peek_token_def)
qed

lemma consumes_expect_symbol: "consumes (expect_symbol what)"
  unfolding expect_symbol_def by (intro consumes_map consumes_expect_kind) simp

lemma take_first_safe: "(\<forall>x \<in> set alts. fst x \<noteq> []) \<Longrightarrow> safe (take_first alts)"
  by (induction alts rule: take_first.induct) (auto intro!: parser_safe)

lemma take_first_cases:
  assumes "wf_tokens ts" "\<forall>x \<in> set alts. fst x \<noteq> []" "take_first alts ts = Inr (r, ts')"
  shows "wf_tokens ts' \<and> (case r of None \<Rightarrow> length ts' \<le> length ts | Some x \<Rightarrow> x \<in> snd ` set alts \<and> length ts' < length ts)"
  using assms
proof (induction alts arbitrary: ts rule: take_first.induct)
  case 1
  then show ?case by (simp add: p_return_def)
next
  case (2 word x alts)
  obtain t us where c: "ts = t # us" "take_text word ts = (if it_text t = word then Inr (True, us) else Inr (False, ts))"
    "it_text t = word \<Longrightarrow> wf_tokens us" using take_text_cases [of ts word] 2(2,3) by auto
  show ?case
  proof (cases "it_text t = word")
    case True
    then show ?thesis using 2(4) c by (auto simp: p_bind_def p_return_def)
  next
    case False
    then have "take_first alts ts = Inr (r, ts')" using 2(4) c(2) by (simp add: p_bind_def)
    then have "wf_tokens ts' \<and> (case r of None \<Rightarrow> length ts' \<le> length ts | Some y \<Rightarrow> y \<in> snd ` set alts \<and> length ts' < length ts)"
      using 2(1) [of False ts] 2(2,3) by simp
    then show ?thesis by (cases r) simp_all
  qed
qed

lemma safe_first_of [parser_safe]:
  assumes "\<And>p. p \<in> snd ` set alts \<Longrightarrow> safe p" "\<forall>x \<in> set alts. fst x \<noteq> []" "safe q"
  shows "safe (first_of alts q)"
  unfolding safe_def
proof (intro allI impI)
  fix ts assume ts: "wf_tokens ts"
  have "proper (length ts) 0 (take_first alts ts)" using take_first_safe [OF assms(2)] ts by (simp add: safe_def)
  then show "proper (length ts) 0 (first_of alts q ts)"
    unfolding first_of_def
  proof (rule proper_bind)
    fix r ts' assume r: "take_first alts ts = Inr (r, ts')" "wf_tokens ts'" "length ts' + 0 \<le> length ts"
    show "proper (length ts) 0 ((case r of None \<Rightarrow> q | Some p \<Rightarrow> p) ts')"
    proof (cases r)
      case None
      then have "proper (length ts') 0 (q ts')" using assms(3) r(2) by (simp add: safe_def)
      then show ?thesis using proper_weaken r(3) None by fastforce
    next
      case (Some p)
      then have "safe p" using take_first_cases [OF ts assms(2) r(1)] assms(1) by auto
      then have "proper (length ts') 0 (p ts')" using r(2) by (simp add: safe_def)
      then show ?thesis using proper_weaken r(3) Some by fastforce
    qed
  qed
qed

lemma consumes_first_of:
  assumes "\<And>p. p \<in> snd ` set alts \<Longrightarrow> safe p" "\<forall>x \<in> set alts. fst x \<noteq> []" "consumes q"
  shows "consumes (first_of alts q)"
  unfolding consumes_def
proof (intro allI impI)
  fix ts assume ts: "wf_tokens ts"
  have "proper (length ts) 0 (take_first alts ts)" using take_first_safe [OF assms(2)] ts by (simp add: safe_def)
  then show "proper (length ts) 1 (first_of alts q ts)"
    unfolding first_of_def
  proof (rule proper_bind)
    fix r ts' assume r: "take_first alts ts = Inr (r, ts')" "wf_tokens ts'" "length ts' + 0 \<le> length ts"
    show "proper (length ts) 1 ((case r of None \<Rightarrow> q | Some p \<Rightarrow> p) ts')"
    proof (cases r)
      case None
      then have "proper (length ts') 1 (q ts')" using assms(3) r(2) by (simp add: consumes_def)
      then show ?thesis using proper_weaken r(3) None by fastforce
    next
      case (Some p)
      then have "safe p" "length ts' < length ts" using take_first_cases [OF ts assms(2) r(1)] assms(1) by auto
      moreover then have "proper (length ts') 0 (p ts')" using r(2) by (simp add: safe_def)
      ultimately show ?thesis using proper_weaken Some by fastforce
    qed
  qed
qed

section \<open>Parsers with fuel\<close>

text \<open>A parser returns below \<open>n\<close> when it does so on fewer than \<open>n\<close> tokens, of which it then uses up \<open>k\<close> at least.\<close>

definition returns_below :: "nat \<Rightarrow> nat \<Rightarrow> 'a ir_parser \<Rightarrow> bool" where
  "returns_below n k p \<longleftrightarrow> (\<forall>ts. wf_tokens ts \<longrightarrow> length ts < n \<longrightarrow> proper (length ts) k (p ts))"

lemma returns_below_safe: "safe p \<Longrightarrow> returns_below n 0 p"
  by (simp add: returns_below_def safeD)

lemma returns_below_consumes: "consumes p \<Longrightarrow> returns_below n 1 p"
  unfolding returns_below_def using consumesD by blast

lemma returns_below_weaken: "returns_below n k p \<Longrightarrow> m \<le> n \<Longrightarrow> l \<le> k \<Longrightarrow> returns_below m l p"
  unfolding returns_below_def by (fastforce intro: proper_weaken [where k = k])

lemma returns_below_bind:
  assumes "returns_below n k p" "\<And>x. returns_below (n - k) j (f x)" "l = k + j"
  shows "returns_below n l (p_bind p f)"
  unfolding returns_below_def
proof (intro allI impI)
  fix ts assume ts: "wf_tokens ts" "length ts < n"
  have p: "proper (length ts) k (p ts)" using assms(1) ts by (simp add: returns_below_def)
  show "proper (length ts) l (p_bind p f ts)"
  proof (rule proper_seq [where p = p and ts = ts and f = f, OF p _ assms(3)])
    fix x ts' assume "wf_tokens ts'" "length ts' + k \<le> length ts"
    then show "proper (length ts') j (f x ts')" using assms(2) ts(2) by (simp add: returns_below_def)
  qed
qed

lemma returns_below_then:
  "returns_below n k p \<Longrightarrow> returns_below (n - k) j q \<Longrightarrow> l = k + j \<Longrightarrow> returns_below n l (p_then p q)"
  unfolding p_then_def by (rule returns_below_bind)

lemma returns_below_if:
  "(b \<Longrightarrow> returns_below n k p) \<Longrightarrow> (\<not> b \<Longrightarrow> returns_below n k q) \<Longrightarrow> returns_below n k (if b then p else q)"
  by simp

lemma returns_below_option:
  "(v = None \<Longrightarrow> returns_below n k p) \<Longrightarrow> (\<And>x. v = Some x \<Longrightarrow> returns_below n k (q x)) \<Longrightarrow>
     returns_below n k (case v of None \<Rightarrow> p | Some x \<Rightarrow> q x)"
  by (cases v) auto

lemma returns_below_0: "returns_below 0 k p"
  by (simp add: returns_below_def)

lemma safe_with_fuel: "(\<And>n. returns_below n 0 (p n)) \<Longrightarrow> safe (with_fuel p)"
  by (simp add: safe_def with_fuel_def returns_below_def)

lemma safe_initializer_fuel: "(\<And>n. returns_below ((n + 1) div 2) 0 (p n)) \<Longrightarrow> safe (initializer_fuel p)"
  by (simp add: safe_def initializer_fuel_def returns_below_def)

lemma prefix_loop_returns: "\<forall>x \<in> set table. fst x \<noteq> [] \<Longrightarrow> returns_below n 0 (prefix_loop table n x)"
proof (induction n arbitrary: x)
  case 0
  show ?case by (rule returns_below_0)
next
  case (Suc n)
  show ?case unfolding returns_below_def prefix_loop.simps
  proof (intro allI impI)
    fix ts assume ts: "wf_tokens ts" "length ts < Suc n"
    have "proper (length ts) 0 (take_first table ts)" using safeD [OF take_first_safe [OF Suc.prems] ts(1)] .
    then show "proper (length ts) 0 (p_bind (take_first table) (\<lambda>r. case r of None \<Rightarrow> p_return x | Some f \<Rightarrow> prefix_loop table n (f x)) ts)"
    proof (rule proper_bind)
      fix r ts' assume r: "take_first table ts = Inr (r, ts')" "wf_tokens ts'" "length ts' + 0 \<le> length ts"
      show "proper (length ts) 0 ((case r of None \<Rightarrow> p_return x | Some f \<Rightarrow> prefix_loop table n (f x)) ts')"
      proof (cases r)
        case None
        then show ?thesis using r by (simp add: p_return_def)
      next
        case (Some f)
        then have "length ts' < length ts" using take_first_cases [OF ts(1) Suc.prems r(1)] by simp
        then have "proper (length ts') 0 (prefix_loop table n (f x) ts')"
          using Suc.IH [OF Suc.prems, of "f x"] ts(2) r(2) by (simp add: returns_below_def)
        then show ?thesis using Some r(3) proper_weaken by fastforce
      qed
    qed
  qed
qed

lemma until_loop_returns:
  assumes "safe stop" "\<And>x. consumes (step x)"
  shows "returns_below n 0 (until_loop stop step n x)"
proof (induction n arbitrary: x)
  case 0
  show ?case by (rule returns_below_0)
next
  case (Suc n)
  have loop: "returns_below (Suc n) 1 (p_bind (step x) (until_loop stop step n))"
    by (rule returns_below_bind [OF returns_below_consumes [OF assms(2)], where j = 0]) (use Suc.IH in auto)
  show ?case unfolding until_loop.simps
    by (rule returns_below_bind [OF returns_below_safe [OF assms(1)], where j = 0])
      (auto intro: returns_below_safe safe_return returns_below_weaken [OF loop])
qed

lemma comma_loop_returns:
  assumes "consumes item"
  shows "returns_below n 0 (comma_loop close item n)"
proof (induction n)
  case 0
  show ?case by (rule returns_below_0)
next
  case (Suc n)
  have more: "returns_below n 0 (if c then p_map (Cons x) (comma_loop close item n) else p_return [x])" for c x
    unfolding p_map_def by (rule returns_below_if) (rule returns_below_bind [OF Suc.IH, where j = 0] | rule returns_below_safe | simp add: safe_return)+
  have rest: "returns_below n 0 (p_bind (take_text '','') (\<lambda>c. if c then p_map (Cons x) (comma_loop close item n) else p_return [x]))" for x
    by (rule returns_below_bind [where k = 0 and j = 0]) (use more in \<open>auto intro: returns_below_safe safe_take\<close>)
  have loop: "returns_below (Suc n) 1 (p_bind item (\<lambda>x. p_bind (take_text '','') (\<lambda>c.
         if c then p_map (Cons x) (comma_loop close item n) else p_return [x])))"
    by (rule returns_below_bind [OF returns_below_consumes [OF assms], where j = 0]) (use rest in auto)
  show ?case unfolding comma_loop.simps
    by (rule returns_below_bind [OF returns_below_safe [OF safe_at(1)], where j = 0])
      (auto intro: returns_below_safe safe_return returns_below_weaken [OF loop])
qed

section \<open>The parsers of the grammar\<close>

lemma safe_expect [parser_safe]: "s \<noteq> [] \<Longrightarrow> safe (expect s)" "kind \<noteq> IT_end \<Longrightarrow> safe (expect_kind kind what)" "safe (expect_symbol what)"
  by (auto intro: consumes_safe consumes_expect consumes_expect_kind consumes_expect_symbol)

lemma consumes_parse_type: "consumes parse_type"
  unfolding parse_type_def by (rule consumes_bind_left) (auto intro!: consumes_expect_kind parser_safe)

lemma consumes_parse_u32_token: "consumes (parse_u32_token what)"
  unfolding parse_u32_token_def by (rule consumes_bind_left) (auto intro!: consumes_expect_kind parser_safe)

lemma consumes_parse_integer_bits: "consumes (parse_integer_bits t)"
  unfolding parse_integer_bits_def bad_number_def by (rule consumes_bind_left) (auto intro!: consumes_expect_kind parser_safe)

lemmas safe_words [parser_safe] = consumes_parse_type [THEN consumes_safe] consumes_parse_u32_token [THEN consumes_safe]
  consumes_parse_integer_bits [THEN consumes_safe]

lemma safe_decode_string [parser_safe]: "safe (decode_string s)"
  unfolding decode_string_def by (intro parser_safe)

lemma consumes_parse_aggregate: "consumes (parse_aggregate kind what t)"
  unfolding parse_aggregate_def by (intro consumes_map consumes_expect_symbol)

lemma safe_parse_aggregate [parser_safe]: "safe (parse_aggregate kind what t)"
  by (rule consumes_safe [OF consumes_parse_aggregate])

lemma safe_parse_borrow [parser_safe]: "safe parse_borrow"
  unfolding parse_borrow_def by (auto intro!: parser_safe)

lemma consumes_parse_value_decl: "consumes (parse_value_decl what)"
  unfolding parse_value_decl_def Let_def
  by (rule consumes_bind_left) (auto intro!: consumes_expect_kind parser_safe)

lemma safe_in_parentheses [parser_safe]: "consumes item \<Longrightarrow> safe (in_parentheses item)"
  unfolding in_parentheses_def by (auto intro!: parser_safe safe_with_fuel comma_loop_returns)

lemma safe_parse_parameters [parser_safe]: "safe parse_parameters"
  unfolding parse_parameters_def by (intro parser_safe consumes_parse_value_decl)

lemma consumes_parse_struct_field: "consumes parse_struct_field"
  unfolding parse_struct_field_def by (rule consumes_bind_left) (auto intro!: consumes_expect_kind parser_safe)

lemma consumes_parse_struct: "consumes parse_struct"
  unfolding parse_struct_def
  by (rule consumes_bind_right [OF safe_take consumes_then_left])
    (auto intro!: consumes_expect parser_safe safe_with_fuel comma_loop_returns consumes_parse_struct_field)

lemma consumes_parse_array: "consumes parse_array"
  unfolding parse_array_def
  by (rule consumes_bind_right [OF safe_take consumes_then_left])
    (auto intro!: consumes_expect parser_safe safe_with_fuel comma_loop_returns consumes_parse_struct_field)

lemma safe_write_scalar [parser_safe]: "safe (write_scalar bytes off t v)"
  unfolding write_scalar_def by (intro parser_safe)

section \<open>Initialisers\<close>

text \<open>The fuel of a loop over elements or fields is spent on each turn and once more on each nested aggregate.\<close>

lemma returns_below_fail: "returns_below n k (p_fail message)"
  by (rule returns_below_weaken [where n = n and k = "Suc k"]) (auto simp: returns_below_def p_fail_def p_fail_all_def p_bind_def peek_token_def list_at_def wf_tokens_def split: option.splits)

lemma returns_below_place:
  "returns_below n 1 p \<Longrightarrow> (\<And>bs. safe (f bs)) \<Longrightarrow> returns_below n 1 (p_bind p f)"
  by (rule returns_below_bind [where k = 1 and j = 0]) (auto intro: returns_below_safe)

lemma returns_below_loop:
  "returns_below n k p \<Longrightarrow> (\<And>x. returns_below (n - k) 0 (f x)) \<Longrightarrow> returns_below n k (p_bind p f)"
  by (rule returns_below_bind [where k = k and j = 0]) auto

lemma returns_below_look:
  "safe p \<Longrightarrow> (\<And>x. returns_below n k (f x)) \<Longrightarrow> returns_below n k (p_bind p f)"
  by (rule returns_below_bind [where k = 0 and j = k]) (auto intro: returns_below_safe)

lemma returns_below_after:
  "consumes p \<Longrightarrow> (\<And>x. returns_below (n - 1) k (f x)) \<Longrightarrow> returns_below n k (p_bind p f)"
  by (rule returns_below_weaken, rule returns_below_bind [where k = 1 and j = k, OF returns_below_consumes]) auto

lemma parse_elements_step:
  assumes "\<And>m d. returns_below ((n + 1) div 2) 1 (parse_array_initializer n m d)"
    "\<And>m d. returns_below ((n + 1) div 2) 1 (parse_struct_initializer n m d)"
    "\<And>m d stride index bytes. returns_below (n div 2) 0 (parse_elements n m d stride index bytes)"
  shows "returns_below (Suc n div 2) 0 (parse_elements (Suc n) m d stride index bytes)"
  unfolding parse_elements.simps
  apply (intro returns_below_if returns_below_safe [OF safe_return])
  apply (rule returns_below_look [OF safe_at(1)])
  apply (rule returns_below_if [OF _ returns_below_weaken [OF returns_below_loop [where k = 1] order_refl le0]], rule returns_below_fail)
   apply (intro returns_below_if returns_below_option returns_below_fail returns_below_place
      assms(1,2) [unfolded Suc_eq_plus1 [symmetric]] returns_below_consumes [OF consumes_parse_integer_bits] parser_safe)
  apply (unfold p_then_def)
  apply (rule returns_below_look)
   apply (intro parser_safe, simp)
  apply (rule returns_below_weaken [OF assms(3)], simp_all)
  done

lemma parse_fields_step:
  assumes "\<And>m d. returns_below ((n + 1) div 2) 1 (parse_array_initializer n m d)"
    "\<And>m d. returns_below ((n + 1) div 2) 1 (parse_struct_initializer n m d)"
    "\<And>m d ls initialized bytes. returns_below (n div 2) 0 (parse_fields n m d ls initialized bytes)"
  shows "returns_below (Suc n div 2) 0 (parse_fields (Suc n) m d ls initialized bytes)"
  unfolding parse_fields.simps Let_def p_then_def
  apply (rule returns_below_look [OF safe_at(1)])
  apply (intro returns_below_if returns_below_safe [OF safe_return])
  apply (rule returns_below_after, rule consumes_expect_kind, simp)
  apply (intro returns_below_if returns_below_fail returns_below_option)
  apply (split prod.split, intro allI impI)
  apply (rule returns_below_look, rule safe_expect, simp)
  apply (rule returns_below_weaken [OF returns_below_loop [where k = 1] order_refl le0])
   apply (intro returns_below_if returns_below_option returns_below_fail returns_below_place
      returns_below_weaken [OF assms(1)] returns_below_weaken [OF assms(2)] returns_below_consumes [OF consumes_parse_integer_bits] parser_safe)
      apply simp_all
  apply (rule returns_below_look)
   apply (intro parser_safe, simp)
  apply (intro returns_below_if returns_below_safe [OF safe_return])
  apply (rule returns_below_weaken [OF assms(3)], simp_all)
  done

lemma initializers_return:
  "(\<forall>m d. returns_below ((n + 1) div 2) 1 (parse_array_initializer n m d)) \<and>
   (\<forall>m d. returns_below ((n + 1) div 2) 1 (parse_struct_initializer n m d)) \<and>
   (\<forall>m d stride index bytes. returns_below (n div 2) 0 (parse_elements n m d stride index bytes)) \<and>
   (\<forall>m d ls names bytes. returns_below (n div 2) 0 (parse_fields n m d ls names bytes))"
proof (induction n)
  case 0
  show ?case by (simp add: returns_below_0)
next
  case (Suc n)
  have elements: "returns_below (Suc n div 2) 0 (parse_elements (Suc n) m d stride index bytes)" for m d stride index bytes
    by (rule parse_elements_step) (use Suc.IH in simp_all)
  have fields: "returns_below (Suc n div 2) 0 (parse_fields (Suc n) m d ls names bytes)" for m d ls names bytes
    by (rule parse_fields_step) (use Suc.IH in simp_all)
  have arr: "returns_below ((Suc n + 1) div 2) 1 (parse_array_initializer (Suc n) m d)" for m d
    unfolding parse_array_initializer.simps p_then_def
    apply (intro returns_below_option returns_below_fail)
    apply (rule returns_below_loop [where k = 1], rule returns_below_consumes, rule consumes_expect, simp)
    apply (rule returns_below_loop [where k = 0])
     apply (rule returns_below_weaken [where n = "n div 2" and k = 0])
       apply (use Suc.IH in simp_all)
    apply (rule returns_below_safe)
    apply (auto intro!: parser_safe)
    done
  have str: "returns_below ((Suc n + 1) div 2) 1 (parse_struct_initializer (Suc n) m d)" for m d
    unfolding parse_struct_initializer.simps p_then_def
    apply (intro returns_below_option returns_below_fail)
    apply (rule returns_below_loop [where k = 1], rule returns_below_consumes, rule consumes_expect, simp)
    apply (rule returns_below_loop [where k = 0])
     apply (rule returns_below_weaken [where n = "n div 2" and k = 0])
       apply (use Suc.IH in simp_all)
    apply (rule returns_below_safe)
    apply (auto intro!: parser_safe)
    done
  show ?case using elements fields arr str by blast
qed

section \<open>Globals, functions and modules\<close>

lemma safe_initializers [parser_safe]:
  "safe (initializer_fuel (\<lambda>n. parse_struct_initializer n m d))" "safe (initializer_fuel (\<lambda>n. parse_array_initializer n m e))"
proof -
  have "returns_below ((n + 1) div 2) 0 (parse_struct_initializer n m d)" "returns_below ((n + 1) div 2) 0 (parse_array_initializer n m e)" for n
    using initializers_return [of n] by (auto intro!: returns_below_weaken [where k = 1 and l = 0, OF _ order_refl])
  then show "safe (initializer_fuel (\<lambda>n. parse_struct_initializer n m d))" "safe (initializer_fuel (\<lambda>n. parse_array_initializer n m e))"
    by (auto intro!: safe_initializer_fuel)
qed

lemma skip_consumes:
  assumes "safe q"
  shows "wf_tokens ts \<Longrightarrow> it_kind (hd ts) \<noteq> IT_end \<or> it_text (hd ts) \<noteq> [] \<Longrightarrow> proper (length ts) 1 (p_then (skip_tokens 1) q ts)"
proof -
  assume ts: "wf_tokens ts" "it_kind (hd ts) \<noteq> IT_end \<or> it_text (hd ts) \<noteq> []"
  obtain t us where c: "ts = t # us" using wf_tokens_not_Nil [OF ts(1)] by blast
  then have "wf_tokens us" using ts wf_tokens_skip by simp
  then have "proper (length us) 0 (q us)" by (rule safeD [OF assms])
  then show ?thesis using c by (auto simp: p_then_def p_bind_def skip_tokens_def intro: proper_weaken [where k = 0])
qed

text \<open>A token that is looked at and skipped.\<close>

lemma safe_peek_skip:
  assumes "\<And>t. P t \<Longrightarrow> safe (p t)" "\<And>t. \<not> P t \<Longrightarrow> safe (q t)" "\<And>t. P t \<Longrightarrow> it_kind t \<noteq> IT_end"
  shows "safe (p_bind (peek_token 0) (\<lambda>t. if P t then p_then (skip_tokens 1) (p t) else q t))"
  unfolding safe_def
proof (intro allI impI)
  fix ts assume ts: "wf_tokens ts"
  obtain t us where c: "ts = t # us" using wf_tokens_not_Nil [OF ts] by blast
  show "proper (length ts) 0 (p_bind (peek_token 0) (\<lambda>t. if P t then p_then (skip_tokens 1) (p t) else q t) ts)"
  proof (cases "P t")
    case True
    then have "proper (length ts) 1 (p_then (skip_tokens 1) (p t) ts)" using skip_consumes assms ts c by fastforce
    then show ?thesis using c True by (simp add: p_bind_def peek_token_def list_at_def) (erule proper_weaken, simp)
  next
    case False
    then show ?thesis using safeD [OF assms(2) ts] c by (simp add: p_bind_def peek_token_def list_at_def)
  qed
qed

lemma look_simps [simp]:
  "p_bind (peek_token 0) f (t # ts) = f t (t # ts)"
  "p_bind (peek_token (Suc 0)) f (t # u # ts) = f u (t # u # ts)"
  "p_bind (at_text s) h (t # ts) = h (it_text t = s) (t # ts)"
  "p_map g (peek_token (Suc 0)) (t # u # ts) = Inr (g u, t # u # ts)"
  by (simp_all add: p_bind_def peek_token_def at_text_def p_map_def p_return_def)

lemma safe_by_head:
  assumes "\<And>t us. wf_tokens (t # us) \<Longrightarrow> proper (length (t # us)) 0 (p (t # us))"
  shows "safe p"
  unfolding safe_def using assms wf_tokens_not_Nil by fast

lemma safe_parse_count [parser_safe]: "safe (parse_count what g)"
  unfolding parse_count_def by (auto intro!: parser_safe)

lemma safe_parse_callback_global [parser_safe]: "safe (parse_callback_global g)"
  unfolding parse_callback_global_def Let_def by (auto intro!: parser_safe)

lemma safe_parse_named_global [parser_safe]: "safe (parse_named_global kind what g)"
  unfolding parse_named_global_def by (auto intro!: parser_safe)

lemma safe_parse_global_value [parser_safe]: "safe (parse_global_value m g)"
proof (rule safe_by_head)
  fix t us assume ts: "wf_tokens (t # us)"
  have "safe (case find_struct m (gv_aggregate_name g) of
      None \<Rightarrow> p_fail (''typed initializer references unknown structure @'' @ gv_aggregate_name g)
    | Some d \<Rightarrow> p_map (\<lambda>bs. g\<lparr>gv_bytes := bs\<rparr>) (initializer_fuel (\<lambda>n. parse_struct_initializer n m d)))"
    "safe (case find_array m (gv_aggregate_name g) of
      None \<Rightarrow> p_fail (''typed initializer references unknown array @'' @ gv_aggregate_name g)
    | Some d \<Rightarrow> p_map (\<lambda>bs. g\<lparr>gv_bytes := bs\<rparr>) (initializer_fuel (\<lambda>n. parse_array_initializer n m d)))"
    "safe (p_map (\<lambda>bs. g\<lparr>gv_bytes := bs\<rparr>) (decode_string (it_text t)))"
    "safe (p_map (\<lambda>s. g\<lparr>gv_initializer := s\<rparr>) (expect_kind IT_integer ''integer initializer''))"
    by (auto intro!: parser_safe)
  note s = this(1,2,4) [THEN safeD, OF ts] skip_consumes [OF this(3) ts]
  show "proper (length (t # us)) 0 (parse_global_value m g (t # us))"
    unfolding parse_global_value_def look_simps
    using s by (auto intro: proper_weaken)
qed

lemma safe_global_prefixes [parser_safe]: "safe (with_fuel (\<lambda>n. prefix_loop global_prefixes n g))"
  by (rule safe_with_fuel, rule prefix_loop_returns) (simp add: global_prefixes_def)

lemma consumes_parse_global: "consumes (parse_global m)"
  unfolding parse_global_def Let_def
  by (rule consumes_bind_right, rule parser_safe, rule consumes_bind_right, rule parser_safe, simp, rule consumes_then_right)
    (auto intro!: parser_safe consumes_bind_left [OF consumes_expect_symbol])

lemma returns_below_take:
  assumes "s \<noteq> []" "returns_below (n - 1) 0 (f True)" "returns_below n 0 (f False)"
  shows "returns_below n 0 (p_bind (take_text s) f)"
  unfolding returns_below_def
proof (intro allI impI)
  fix ts assume ts: "wf_tokens ts" "length ts < n"
  obtain t us where c: "ts = t # us" "take_text s ts = (if it_text t = s then Inr (True, us) else Inr (False, ts))"
    "it_text t = s \<Longrightarrow> wf_tokens us" using take_text_cases [OF ts(1) assms(1)] by blast
  show "proper (length ts) 0 (p_bind (take_text s) f ts)"
  proof (cases "it_text t = s")
    case True
    then have "proper (length us) 0 (f True us)" using assms(2) c ts(2) by (simp add: returns_below_def)
    then show ?thesis using True c by (simp add: p_bind_def) (erule proper_weaken, simp)
  next
    case False
    have "proper (length ts) 0 (f False ts)" using assms(3) ts by (simp add: returns_below_def)
    then show ?thesis using False c(2) by (simp add: p_bind_def)
  qed
qed

lemma attribute_loop_returns: "returns_below n 0 (attribute_loop n)"
proof (induction n)
  case 0
  show ?case by (rule returns_below_0)
next
  case (Suc n)
  show ?case unfolding attribute_loop.simps p_map_def
  proof (rule returns_below_take, simp, unfold not_True_eq_False if_False not_False_eq_True if_True)
    show "returns_below (Suc n - 1) 0 (p_bind (expect_kind IT_identifier ''operation attribute name'') (\<lambda>name.
         p_bind (expect_kind IT_string ''operation attribute value'') (\<lambda>s. p_bind (decode_string s) (\<lambda>bs.
           p_bind (attribute_loop n) (\<lambda>as. p_return (\<lparr>at_name = name, at_value = map byte_to_char bs\<rparr> # as))))))"
      by (rule returns_below_look, rule safe_expect, simp)+
        (rule returns_below_look, rule safe_decode_string, rule returns_below_loop [where k = 0],
         use Suc.IH in simp, rule returns_below_safe, rule safe_return)
  qed (auto intro!: returns_below_safe parser_safe)
qed

section \<open>Operations\<close>

lemma safe_with_attributes [parser_safe]: "safe (with_attributes op)"
  unfolding with_attributes_def by (auto intro!: parser_safe safe_with_fuel attribute_loop_returns)

lemma safe_parse_args [parser_safe]: "safe parse_args"
  unfolding parse_args_def by (auto intro!: parser_safe consumes_expect_kind)

lemma safe_parse_successor [parser_safe]: "safe parse_successor"
  unfolding parse_successor_def by (auto intro!: parser_safe)

lemma safe_parse_return [parser_safe]: "safe (parse_return op)"
  unfolding parse_return_def by (rule safe_peek_skip) (auto intro!: parser_safe)

lemma safe_parse_callee [parser_safe]: "safe (parse_callee oc)"
  unfolding parse_callee_def by (auto intro!: parser_safe)

lemma safe_parse_jumps [parser_safe]: "safe (parse_jump op)" "safe (parse_branch op)"
  unfolding parse_jump_def parse_branch_def by (auto intro!: parser_safe)

lemma safe_parse_calls [parser_safe]: "safe (parse_call op)" "safe (parse_function_address op)"
  unfolding parse_call_def parse_function_address_def by (auto intro!: parser_safe consumes_expect_kind)

lemma if_not_swap: "(if \<not> b then x else y) = (if b then y else x)"
  by simp

lemma safe_parse_operands [parser_safe]: "safe (parse_operands oc n)"
proof (induction n)
  case (Suc n)
  have "safe (p_bind (peek_token 0) (\<lambda>t. if is_operand oc t then p_then (skip_tokens 1)
      (p_then (if n > 0 then p_map (\<lambda>_. ()) (take_text '','') else p_return ()) (p_map (Cons (it_text t)) (parse_operands oc n)))
    else p_fail (''expected operand for '' @ ticked oc)))"
    by (rule safe_peek_skip) (use Suc.IH in \<open>auto intro!: parser_safe simp: is_operand_def\<close>)
  then show ?case by (simp only: parse_operands.simps if_not_swap)
qed (auto intro!: parser_safe)

lemma safe_parse_alignment [parser_safe]: "safe (parse_alignment op)"
  unfolding parse_alignment_def by (auto intro!: parser_safe safe_fail_all)

lemma safe_parse_plain [parser_safe]: "safe (parse_plain op)"
  unfolding parse_plain_def by (auto intro!: parser_safe)

lemma safe_parse_result_name [parser_safe]: "safe parse_result_name"
proof (rule safe_by_head)
  fix t us assume ts: "wf_tokens (t # us)"
  show "proper (length (t # us)) 0 (parse_result_name (t # us))"
  proof (cases "it_kind t = IT_value")
    case True
    then have us: "wf_tokens us" using wf_tokens_skip ts by simp
    then obtain t1 vs where c: "us = t1 # vs" using wf_tokens_not_Nil by blast
    show ?thesis
    proof (cases "it_text t1 = ''=''")
      case eq: True
      then have "wf_tokens vs" using us c wf_tokens_skip by simp
      then show ?thesis using True c eq
        by (simp add: parse_result_name_def p_then_def p_bind_def [of "skip_tokens 2"] skip_tokens_def p_return_def)
    next
      case False
      then show ?thesis using True c ts by (simp add: parse_result_name_def p_return_def)
    qed
  next
    case False
    then show ?thesis using ts by (simp add: parse_result_name_def p_return_def)
  qed
qed

lemma consumes_parse_operation: "consumes parse_operation"
  unfolding parse_operation_def Let_def
  by (rule consumes_bind_right [OF safe_parse_result_name consumes_bind_left]) (auto intro!: consumes_expect_kind parser_safe)

section \<open>Blocks, functions and modules\<close>

lemma safe_at_block_end [parser_safe]: "safe at_block_end"
proof (rule safe_by_head)
  fix t us assume ts: "wf_tokens (t # us)"
  show "proper (length (t # us)) 0 (at_block_end (t # us))"
  proof (cases "it_kind t = IT_identifier")
    case True
    then have "wf_tokens us" using wf_tokens_skip ts by simp
    then obtain t1 vs where "us = t1 # vs" using wf_tokens_not_Nil by blast
    then show ?thesis using True ts by (simp add: at_block_end_def p_return_def)
  next
    case False
    then show ?thesis using ts by (simp add: at_block_end_def p_return_def)
  qed
qed

lemma consumes_parse_block: "consumes parse_block"
  unfolding parse_block_def
  by (rule consumes_bind_left)
    (auto intro!: consumes_expect_kind parser_safe safe_with_fuel until_loop_returns consumes_map consumes_parse_operation simp: push_back_def)

lemma safe_at_close [parser_safe]: "safe at_close"
  unfolding at_close_def by (auto intro!: parser_safe)

lemma safe_function_prefixes [parser_safe]: "safe (with_fuel (\<lambda>n. prefix_loop function_prefixes n f))"
  by (rule safe_with_fuel, rule prefix_loop_returns) (simp add: function_prefixes_def)

lemma safe_parse_return_type [parser_safe]: "safe (parse_return_type f)"
  unfolding parse_return_type_def Let_def by (auto intro!: parser_safe)

lemma consumes_parse_function: "consumes parse_function"
  unfolding parse_function_def
  by (rule consumes_bind_right, rule parser_safe, rule consumes_then_right)
    (auto intro!: parser_safe consumes_bind_left [OF consumes_expect_symbol] safe_with_fuel until_loop_returns consumes_map
       consumes_parse_block simp: push_back_def)

lemma safe_p_traverse: "(\<And>x s. safe (f x s)) \<Longrightarrow> safe (p_traverse f xs s)"
  by (induction xs arbitrary: s) (auto intro!: parser_safe)

lemma safe_intern_strings [parser_safe]: "safe (intern_strings m)"
  unfolding intern_strings_def intern_function_def intern_block_def intern_operation_def Let_def
  by (auto intro!: parser_safe safe_p_traverse)

lemma wf_tokens_dropWhile:
  "wf_tokens ts \<Longrightarrow> (\<And>t. P t \<Longrightarrow> it_text t \<noteq> []) \<Longrightarrow> dropWhile P ts \<noteq> []"
  by (metis dropWhile_eq_Nil_conv last_in_set wf_tokens_def)

lemma safe_is_global_start [parser_safe]: "safe is_global_start"
  unfolding safe_def
proof (intro allI impI)
  fix ts assume ts: "wf_tokens ts"
  then have "dropWhile (\<lambda>t. is_symbol_prefix (it_text t)) ts \<noteq> []" by (rule wf_tokens_dropWhile) (auto simp: is_symbol_prefix_def)
  then show "proper (length ts) 0 (is_global_start ts)" using ts by (auto simp: is_global_start_def split: list.splits)
qed

lemma safe_at_declaration [parser_safe]: "safe (at_declaration word)"
proof (rule safe_by_head)
  fix t us assume ts: "wf_tokens (t # us)"
  show "proper (length (t # us)) 0 (at_declaration word (t # us))"
  proof (cases "it_text t = ''moveonly''")
    case True
    then have "wf_tokens us" using wf_tokens_skip ts by simp
    then obtain t1 vs where "us = t1 # vs" using wf_tokens_not_Nil by blast
    then show ?thesis using True ts by (simp add: at_declaration_def p_return_def)
  next
    case False
    then show ?thesis using ts by (simp add: at_declaration_def p_return_def)
  qed
qed

lemma consumes_parse_item: "consumes (parse_item m)"
  unfolding parse_item_def
  by (rule consumes_bind_right [OF safe_at_declaration], simp add: consumes_map consumes_parse_struct, rule impI,
      rule consumes_bind_right [OF safe_at_declaration], simp add: consumes_map consumes_parse_array, rule impI,
      rule consumes_bind_right [OF safe_is_global_start], simp add: consumes_map consumes_parse_global consumes_parse_function)

lemma safe_parse_items: "safe parse_items"
  unfolding parse_items_def by (auto intro!: parser_safe safe_with_fuel until_loop_returns consumes_parse_item)

section \<open>The whole module\<close>

lemma lex_step_kind: "fst (lex_step i s) = Some t \<Longrightarrow> it_kind t \<noteq> IT_end"
  by (auto simp: lex_step_def Let_def split: if_splits)

lemma lex_from_wf: "wf_tokens (fst (lex_from i s))"
proof (induction i s rule: lex_from.induct)
  case (1 i)
  show ?case by (simp add: wf_tokens_def end_token_def)
next
  case (2 i c cs)
  obtain token ds n where step: "lex_step i (c # cs) = (token, ds, n)" by (cases "lex_step i (c # cs)") auto
  obtain tokens ds' where rest: "lex_from (i + n) (drop n (c # cs)) = (tokens, ds')" by fastforce
  have "wf_tokens tokens" using "2.IH" [OF step [symmetric]] rest by simp
  then have "wf_tokens (case token of None \<Rightarrow> tokens | Some t \<Rightarrow> t # tokens)"
    using lex_step_kind [of i "c # cs"] step by (cases token) (auto simp: wf_tokens_def)
  then show ?case using step rest by simp
qed

text \<open>
  C8. Parsing a textual module always returns a result: on any text, however malformed, no loop of the parser goes on
  for ever, the recursion through the initialisers of nested aggregates ends, and no token beyond the end token is read.
\<close>

theorem parse_module_total: "\<exists>r. parse_module source = Some r"
proof -
  obtain tokens ds where l: "lex_module source = (tokens, ds)" by fastforce
  then have "wf_tokens tokens" using lex_from_wf [of 0 source] by (simp add: lex_module_def)
  then have "proper (length tokens) 0 (parse_items tokens)" by (rule safeD [OF safe_parse_items])
  then show ?thesis unfolding parse_module_def l by (cases "parse_items tokens") auto
qed

end
