(* ===== verification/Text_Printer.thy ===== *)
theory Text_Printer
  imports Text_Module
begin

text \<open>
  The printer of the textual form of the IR (\<open>forge/src/ir/printer.cpp\<close>). The subscripts of \<open>successors\<close>,
  \<open>successor_arguments\<close> and \<open>operands\<close> are unchecked in the source; \<open>None\<close> is a subscript out of range.
\<close>

definition separated :: "('a \<Rightarrow> string) \<Rightarrow> 'a list \<Rightarrow> string" where
  "separated show_item xs = (case xs of [] \<Rightarrow> [] | y # ys \<Rightarrow> show_item y @ concat (map (\<lambda>z. '', '' @ show_item z) ys))"

definition aggregate_text :: "aggregate_ref_kind \<Rightarrow> string \<Rightarrow> string \<Rightarrow> string" where
  "aggregate_text kind name otherwise =
     (if kind = ARK_structure then ''struct @'' @ name else if kind = ARK_array then ''array @'' @ name else otherwise)"

definition borrow_text :: "borrow_mode \<Rightarrow> bool \<Rightarrow> string" where
  "borrow_text mode owned =
     (if mode = BM_immutable then ''borrow '' else if mode = BM_mutable then ''borrow mut '' else if owned then ''owned '' else [])"

definition print_param :: "value_decl \<Rightarrow> string" where
  "print_param d = vd_name d @ '': '' @ borrow_text (vd_borrow_mode d) (vd_owned d) @
     (if vd_function_signature_name d \<noteq> [] then ''callback @'' @ vd_function_signature_name d
      else aggregate_text (vd_aggregate_kind d) (vd_aggregate_name d) (type_str (vd_type d)))"

definition print_params :: "value_decl list \<Rightarrow> string" where
  "print_params ds = ''('' @ separated print_param ds @ '')''"

definition hex_char :: "nat \<Rightarrow> char" where
  "hex_char d = (if d < 10 then char_of (48 + d) else char_of (87 + d))"

definition isprint :: "u8 \<Rightarrow> bool" where
  "isprint b \<longleftrightarrow> 32 \<le> unat b \<and> unat b \<le> 126"

definition print_byte :: "u8 \<Rightarrow> string" where
  "print_byte b =
     (if b = 0 then [CHR 0x5C, CHR ''0''] else if b = 10 then [CHR 0x5C, CHR ''n''] else if b = 13 then [CHR 0x5C, CHR ''r'']
      else if b = 9 then [CHR 0x5C, CHR ''t''] else if b = 0x5C then [CHR 0x5C, CHR 0x5C] else if b = 0x22 then [CHR 0x5C, CHR 0x22]
      else if isprint b then [byte_to_char b]
      else [CHR 0x5C, CHR ''x'', hex_char (unat b div 16), hex_char (unat b mod 16)])"

definition print_bytes :: "u8 list \<Rightarrow> string" where
  "print_bytes bs = [CHR 0x22] @ concat (map print_byte bs) @ [CHR 0x22]"

definition print_symbol_prefix :: "symbol_linkage \<Rightarrow> symbol_visibility \<Rightarrow> string" where
  "print_symbol_prefix linkage visibility =
     (if linkage = SL_internal then ''internal '' else if linkage = SL_weak then ''weak '' else []) @
     (if visibility = SV_hidden then ''hidden '' else [])"

fun print_calling_convention :: "calling_convention \<Rightarrow> string" where
  "print_calling_convention CC_platform = []"
| "print_calling_convention CC_c = ''c ''"
| "print_calling_convention CC_system_v = ''systemv ''"
| "print_calling_convention CC_windows_x64 = ''win64 ''"
| "print_calling_convention CC_fast = ''fast ''"

definition print_return_type :: "ir_function \<Rightarrow> string" where
  "print_return_type f = borrow_text (fn_return_borrow_mode f) (fn_return_owned f) @
     aggregate_text (fn_return_aggregate_kind f) (fn_return_aggregate_name f) (type_str (fn_return_type f)) @
     (if fn_return_borrow_mode f \<noteq> BM_none then '' from '' @ to_string_int (sint (fn_return_borrow_parameter f)) else [])"

definition print_args :: "string list \<Rightarrow> string" where
  "print_args as = (if as = [] then [] else ''('' @ separated id as @ '')'')"

definition attributes_text :: "ir_attribute list \<Rightarrow> string" where
  "attributes_text as = concat (map (\<lambda>a. '' attr '' @ at_name a @ '' '' @ print_bytes (map char_to_byte (at_value a))) as)"

definition print_struct_field :: "struct_field \<Rightarrow> string" where
  "print_struct_field f = sf_name f @ '': '' @ aggregate_text (sf_aggregate_kind f) (sf_aggregate_name f) (type_str (sf_type f))"

definition newline :: string where
  "newline = [CHR 0x0A]"

definition print_struct :: "struct_decl \<Rightarrow> string" where
  "print_struct d = ''  '' @ (if sd_move_only d then ''moveonly '' else []) @ ''struct @'' @ sd_name d @ '' { '' @
     separated print_struct_field (sd_fields d) @ '' }'' @ newline"

definition print_array :: "array_decl \<Rightarrow> string" where
  "print_array d = ''  '' @ (if ad_move_only d then ''moveonly '' else []) @ ''array @'' @ ad_name d @ '' = '' @
     aggregate_text (ad_element_aggregate_kind d) (ad_element_aggregate_name d) (type_str (ad_element_type d)) @
     (if ad_element_aggregate_kind d \<noteq> ARK_scalar then '' '' else []) @
     ''['' @ to_string_nat (unat (ad_element_count d)) @ '']'' @ newline"

definition count_text :: "global_var \<Rightarrow> string" where
  "count_text g = (if gv_element_count g \<noteq> 1 then ''['' @ to_string_nat (unat (gv_element_count g)) @ '']'' else [])"

definition print_global :: "global_var \<Rightarrow> string" where
  "print_global g = ''  '' @ (if gv_is_external g then ''extern '' else []) @ (if gv_is_thread_local g then ''thread_local '' else []) @
     print_symbol_prefix (gv_linkage g) (gv_visibility g) @ (if gv_is_constant g then ''constant'' else ''global'') @ '' @'' @ gv_name g @ '': '' @
     (if gv_function_signature_name g \<noteq> [] then ''callback @'' @ gv_function_signature_name g @ count_text g
      else aggregate_text (gv_aggregate_kind g) (gv_aggregate_name g) (type_str (gv_type g) @ count_text g)) @
     (if gv_alignment g \<noteq> 0 then '' align '' @ to_string_nat (unat (gv_alignment g)) else []) @
     (if gv_is_external g then []
      else '' = '' @ (if gv_zero_initialized g then ''zero''
        else if gv_bytes g \<noteq> [] \<or> gv_element_count g \<noteq> 1 \<or> is_named_aggregate g then print_bytes (gv_bytes g)
        else gv_initializer g)) @ newline"

definition print_successor :: "operation \<Rightarrow> nat \<Rightarrow> string option" where
  "print_successor op i =
     (case (list_at (op_successors op) i, list_at (op_successor_arguments op) i) of
        (Some b, Some as) \<Rightarrow> Some (b @ print_args as) | _ \<Rightarrow> None)"

definition print_call :: "operation \<Rightarrow> string option" where
  "print_call op =
     (case op_operands op of
        [] \<Rightarrow> None
      | x # xs \<Rightarrow>
          let signature = (if op_opcode op = ''call.indirect'' then (case xs of s # _ \<Rightarrow> take 1 s = ''@'' | [] \<Rightarrow> False) else False)
          in Some ('' '' @ type_str (op_type op) @ '' '' @ x @ (if signature then '' as '' @ hd xs else []) @
               ''('' @ separated id (if signature then tl xs else xs) @ '')''))"

definition print_operands :: "operation \<Rightarrow> string option" where
  "print_operands op =
     (let oc = op_opcode op
      in if oc = ''jump'' then map_option (\<lambda>s. '' '' @ s) (print_successor op 0)
         else if oc = ''branch'' then
           (case (list_at (op_operands op) 0, print_successor op 0, print_successor op 1) of
              (Some c, Some s0, Some s1) \<Rightarrow> Some ('' '' @ c @ '', '' @ s0 @ '', '' @ s1) | _ \<Rightarrow> None)
         else if oc = ''return'' then Some (case op_operands op of [] \<Rightarrow> [] | x # _ \<Rightarrow> '' '' @ x)
         else if oc = ''func.address'' \<or> oc = ''callback.address'' then
           (case op_operands op of
              [] \<Rightarrow> None
            | x # xs \<Rightarrow> Some ('' '' @ type_str (op_type op) @ '' '' @ x @ (case xs of [] \<Rightarrow> [] | y # _ \<Rightarrow> '' as '' @ y)))
         else if oc = ''call'' \<or> oc = ''call.indirect'' then print_call op
         else if oc \<noteq> ''unreachable'' then
           Some ('' '' @ type_str (op_type op) @ concat (map (\<lambda>x. '' '' @ x) (op_operands op)) @
             (if op_alignment op \<noteq> 0 then '' align '' @ to_string_nat (unat (op_alignment op)) else []))
         else Some [])"

definition print_operation :: "operation \<Rightarrow> string option" where
  "print_operation op = map_option (\<lambda>s. ''    '' @ (if op_result op \<noteq> [] then op_result op @ '' = '' else []) @ op_opcode op @ s @
     attributes_text (op_attributes op) @ newline) (print_operands op)"

definition all_texts :: "string option list \<Rightarrow> string option" where
  "all_texts ts = map_option concat (those ts)"

definition print_block :: "ir_block \<Rightarrow> string option" where
  "print_block b = map_option (\<lambda>s. ''  '' @ bl_name b @ (if bl_parameters b \<noteq> [] then print_params (bl_parameters b) else []) @ '':'' @ newline @ s)
     (all_texts (map print_operation (bl_operations b)))"

definition print_function_header :: "ir_function \<Rightarrow> string" where
  "print_function_header f = ''  '' @ (if fn_is_external f then ''extern '' else []) @ (if fn_is_signature f then ''signature '' else []) @
     (if fn_variadic f then ''variadic '' else []) @ print_symbol_prefix (fn_linkage f) (fn_visibility f) @
     print_calling_convention (fn_calling_convention f) @ (if fn_target_feature f \<noteq> [] then fn_target_feature f @ '' '' else []) @
     (if fn_is_signature f then [] else ''func '') @ ''@'' @ fn_name f @ print_params (fn_parameters f) @ '' -> '' @ print_return_type f"

definition print_function :: "ir_function \<Rightarrow> string option" where
  "print_function f =
     (if fn_is_signature f \<or> fn_is_external f then Some (print_function_header f @ newline)
      else map_option (\<lambda>s. print_function_header f @ '' {'' @ newline @ s @ ''  }'' @ newline) (all_texts (map print_block (fn_blocks f))))"

definition print_module :: "ir_module \<Rightarrow> string option" where
  "print_module m = map_option (\<lambda>s.
     ''module @'' @ md_name m @ '' {'' @ newline @
     concat (map print_struct (md_structs m)) @ concat (map print_array (md_arrays m)) @
     (if (md_structs m \<noteq> [] \<or> md_arrays m \<noteq> []) \<and> (md_globals m \<noteq> [] \<or> md_functions m \<noteq> []) then newline else []) @
     concat (map print_global (md_globals m)) @
     (if md_globals m \<noteq> [] \<and> md_functions m \<noteq> [] then newline else []) @
     s @ ''}'' @ newline) (all_texts (map print_function (md_functions m)))"

end
