(* ===== verification/Text_Scan.thy ===== *)
theory Text_Scan
  imports Text_Printer
begin

text \<open>
  What the lexer makes of text that is put together from whole tokens: the tokens without their ranges (\<open>scan\<close>), by
  rules that take one token off the front. A token ends where the next character cannot continue it.
\<close>

section \<open>Tokens without ranges\<close>

definition mk_token :: "ir_token_kind \<Rightarrow> string \<Rightarrow> ir_token" where
  "mk_token kind s = \<lparr>it_kind = kind, it_text = s, it_range = text_range 0 0\<rparr>"

definition plain_token :: "ir_token \<Rightarrow> ir_token" where
  "plain_token t = mk_token (it_kind t) (it_text t)"

definition scan :: "string \<Rightarrow> ir_token list \<times> bool" where
  "scan s = (map plain_token (fst (lex_from 0 s)), snd (lex_from 0 s) = [])"

definition put :: "ir_token list \<Rightarrow> ir_token list \<times> bool \<Rightarrow> ir_token list \<times> bool" where
  "put ts r = (ts @ fst r, snd r)"

lemma mk_token_parts [simp]: "it_kind (mk_token k s) = k" "it_text (mk_token k s) = s"
  by (simp_all add: mk_token_def)

lemma plain_token_parts [simp]: "it_kind (plain_token t) = it_kind t" "it_text (plain_token t) = it_text t"
  "plain_token (mk_token k s) = mk_token k s" "plain_token (plain_token t) = plain_token t"
  by (simp_all add: plain_token_def)

lemma put_put [simp]: "put ts (put us r) = put (ts @ us) r" "put [] r = r"
  by (simp_all add: put_def)

lemma lex_step_moved:
  "map_option plain_token (fst (lex_step i s)) = map_option plain_token (fst (lex_step 0 s))"
  "fst (snd (lex_step i s)) = [] \<longleftrightarrow> fst (snd (lex_step 0 s)) = []"
  "snd (snd (lex_step i s)) = snd (snd (lex_step 0 s))"
  by (simp_all add: lex_step_def Let_def plain_token_def lex_error_def)


lemma scan_from: "(map plain_token (fst (lex_from i s)), snd (lex_from i s) = []) = scan s"
proof (induction s arbitrary: i rule: length_induct)
  case (1 s)
  show ?case
  proof (cases s)
    case Nil
    then show ?thesis by (simp add: scan_def end_token_def plain_token_def)
  next
    case (Cons c cs)
    obtain t ds n where step: "lex_step i s = (t, ds, n)" by (cases "lex_step i s") auto
    obtain t0 ds0 n0 where step0: "lex_step 0 s = (t0, ds0, n0)" by (cases "lex_step 0 s") auto
    have same: "map_option plain_token t = map_option plain_token t0" "ds = [] \<longleftrightarrow> ds0 = []" "n = n0"
      using lex_step_moved [of i s] step step0 by auto
    have "0 < n" using lex_step_pos [of i s] step by simp
    then have less: "length (drop n s) < length s" using Cons by simp
    have "(map plain_token (fst (lex_from (i + n) (drop n s))), snd (lex_from (i + n) (drop n s)) = []) =
        (map plain_token (fst (lex_from (0 + n) (drop n s))), snd (lex_from (0 + n) (drop n s)) = [])"
      using 1 [rule_format, OF less, of "i + n"] 1 [rule_format, OF less, of "0 + n"] by (rule trans [OF _ sym])
    then show ?thesis using same step step0 Cons
      by (cases t; cases t0) (auto simp: scan_def split: prod.splits)
  qed
qed

lemma scan_Cons:
  "scan (c # cs) = (case lex_step 0 (c # cs) of (t, ds, n) \<Rightarrow>
     ((case t of None \<Rightarrow> [] | Some t \<Rightarrow> [plain_token t]) @ fst (scan (drop n (c # cs))), ds = [] \<and> snd (scan (drop n (c # cs)))))"
proof -
  obtain t ds n where step: "lex_step 0 (c # cs) = (t, ds, n)" by (cases "lex_step 0 (c # cs)") auto
  have "fst (scan (drop n (c # cs))) = map plain_token (fst (lex_from n (drop n (c # cs))))"
    "snd (scan (drop n (c # cs))) \<longleftrightarrow> snd (lex_from n (drop n (c # cs))) = []"
    using scan_from [of n "drop n (c # cs)"] by (metis fst_conv, metis snd_conv)
  then show ?thesis using step by (cases t) (auto simp: scan_def [of "c # cs"] split: prod.splits)
qed

lemma scan_Nil [simp]: "scan [] = ([mk_token IT_end []], True)"
  by (simp add: scan_def end_token_def plain_token_def)

lemma scan_token:
  assumes "w \<noteq> []" "lex_step 0 (w @ rest) = (Some t, [], length w)"
  shows "scan (w @ rest) = put [plain_token t] (scan rest)"
  using assms by (cases w) (simp_all add: scan_Cons put_def)

section \<open>Blanks and punctuation\<close>

lemma scan_blank [simp]: "scan (CHR 0x20 # s) = scan s" "scan (CHR 0x0A # s) = scan s"
  by (simp_all add: scan_Cons lex_step_def isspace_def)

lemma scan_punctuation [simp]:
  "scan (CHR ''{'' # s) = put [mk_token IT_punctuation ''{''] (scan s)"
  "scan (CHR ''}'' # s) = put [mk_token IT_punctuation ''}''] (scan s)"
  "scan (CHR ''['' # s) = put [mk_token IT_punctuation ''[''] (scan s)"
  "scan (CHR '']'' # s) = put [mk_token IT_punctuation '']''] (scan s)"
  "scan (CHR ''('' # s) = put [mk_token IT_punctuation ''(''] (scan s)"
  "scan (CHR '')'' # s) = put [mk_token IT_punctuation '')''] (scan s)"
  "scan (CHR '':'' # s) = put [mk_token IT_punctuation '':''] (scan s)"
  "scan (CHR '','' # s) = put [mk_token IT_punctuation '',''] (scan s)"
  "scan (CHR ''='' # s) = put [mk_token IT_punctuation ''=''] (scan s)"
  by (simp_all add: scan_Cons lex_step_def isspace_def isalpha_def starts_number_def isdigit_def Let_def put_def plain_token_def)

lemma scan_arrow [simp]: "scan (CHR ''-'' # CHR ''>'' # s) = put [mk_token IT_arrow ''->''] (scan s)"
  by (simp add: scan_Cons lex_step_def isspace_def put_def plain_token_def)

section \<open>Words\<close>

definition is_word :: "string \<Rightarrow> bool" where
  "is_word w \<longleftrightarrow> w \<noteq> [] \<and> (isalpha (hd w) \<or> hd w = CHR ''_'') \<and> list_all is_name_char (tl w)"

definition ends_word :: "string \<Rightarrow> bool" where
  "ends_word s \<longleftrightarrow> s = [] \<or> \<not> is_name_char (hd s)"

lemma isalpha_others:
  "isalpha c \<Longrightarrow> \<not> isspace c \<and> c \<notin> {CHR ''/'', CHR ''-'', CHR 0x22, CHR ''@'', CHR ''%''}"
  by (auto simp: isalpha_def isspace_def Let_def)

lemma scan_letter [simp]:
  "isalpha c \<or> c = CHR ''_'' \<Longrightarrow> scan (c # cs) = put [mk_token IT_identifier (c # takeWhile is_name_char cs)] (scan (dropWhile is_name_char cs))"
proof -
  assume c: "isalpha c \<or> c = CHR ''_''"
  then have "\<not> isspace c" "c \<noteq> CHR ''/''" "c \<noteq> CHR ''-''" "c \<noteq> CHR 0x22" "c \<noteq> CHR ''@''" "c \<noteq> CHR ''%''"
    using isalpha_others by (auto simp: isspace_def)
  then have "lex_step 0 (c # cs) = (Some \<lparr>it_kind = IT_identifier, it_text = take (1 + length (takeWhile is_name_char cs)) (c # cs),
      it_range = text_range 0 (1 + length (takeWhile is_name_char cs))\<rparr>, [], 1 + length (takeWhile is_name_char cs))"
    using c by (auto simp: lex_step_def Let_def)
  moreover have "take (length (takeWhile is_name_char cs)) cs = takeWhile is_name_char cs"
    "drop (length (takeWhile is_name_char cs)) cs = dropWhile is_name_char cs"
    by (simp_all add: takeWhile_eq_take [symmetric] dropWhile_eq_drop [symmetric])
  ultimately show ?thesis by (simp add: scan_Cons put_def plain_token_def)
qed

lemma takeWhile_ends: "list_all P xs \<Longrightarrow> ys = [] \<or> \<not> P (hd ys) \<Longrightarrow> takeWhile P (xs @ ys) = xs \<and> dropWhile P (xs @ ys) = ys"
  by (induction xs) (cases ys; auto)+

lemma scan_word [simp]:
  "is_word w \<Longrightarrow> ends_word rest \<Longrightarrow> scan (w @ rest) = put [mk_token IT_identifier w] (scan rest)"
  using takeWhile_ends [of is_name_char "tl w" rest] by (cases w) (auto simp: is_word_def ends_word_def)

lemma ends_word_simps [simp]: "ends_word []" "ends_word (c # cs) \<longleftrightarrow> \<not> is_name_char c"
  by (simp_all add: ends_word_def)

section \<open>Names after a sigil\<close>

fun sigil_depth :: "nat \<Rightarrow> string \<Rightarrow> nat option" where
  "sigil_depth depth [] = Some depth"
| "sigil_depth depth (c # cs) =
     (if is_name_char c then sigil_depth depth cs
      else if c = CHR ''<'' then sigil_depth (depth + 1) cs
      else if c = CHR ''>'' \<and> depth > 0 then sigil_depth (depth - 1) cs
      else if c = CHR ''['' \<or> c = CHR '']'' then sigil_depth depth cs
      else if depth > 0 \<and> (c = CHR '','' \<or> c = CHR ''&'' \<or> c = CHR ''*'') then sigil_depth depth cs
      else None)"

definition is_name :: "string \<Rightarrow> bool" where
  "is_name n \<longleftrightarrow> n \<noteq> [] \<and> sigil_depth 0 n = Some 0"

definition ends_name :: "string \<Rightarrow> bool" where
  "ends_name s \<longleftrightarrow> s = [] \<or> \<not> is_name_char (hd s) \<and> hd s \<notin> {CHR ''<'', CHR ''['', CHR '']''}"

lemma sigil_extent_ends: "sigil_depth d n = Some 0 \<Longrightarrow> ends_name rest \<Longrightarrow> sigil_extent d (n @ rest) = length n"
proof (induction d n rule: sigil_depth.induct)
  case (1 d)
  then show ?case by (cases rest) (auto simp: ends_name_def)
next
  case (2 d c cs)
  then show ?case by (auto split: if_splits)
qed

lemma ends_name_simps [simp]: "ends_name []" "ends_name (c # cs) \<longleftrightarrow> \<not> is_name_char c \<and> c \<notin> {CHR ''<'', CHR ''['', CHR '']''}"
  by (simp_all add: ends_name_def)

lemma scan_sigil [simp]:
  assumes "is_name n" "ends_name rest"
  shows "scan (CHR ''@'' # n @ rest) = put [mk_token IT_symbol (CHR ''@'' # n)] (scan rest)"
    "scan (CHR ''%'' # n @ rest) = put [mk_token IT_value (CHR ''%'' # n)] (scan rest)"
proof -
  have "sigil_extent 0 (n @ rest) = length n" "n \<noteq> []" using sigil_extent_ends assms by (auto simp: is_name_def)
  then show "scan (CHR ''@'' # n @ rest) = put [mk_token IT_symbol (CHR ''@'' # n)] (scan rest)"
    "scan (CHR ''%'' # n @ rest) = put [mk_token IT_value (CHR ''%'' # n)] (scan rest)"
    by (simp_all add: scan_Cons lex_step_def isspace_def Let_def put_def plain_token_def)
qed

definition is_value :: "string \<Rightarrow> bool" where
  "is_value v \<longleftrightarrow> v \<noteq> [] \<and> hd v = CHR ''%'' \<and> is_name (tl v)"

definition is_symbol_text :: "string \<Rightarrow> bool" where
  "is_symbol_text v \<longleftrightarrow> v \<noteq> [] \<and> hd v = CHR ''@'' \<and> is_name (tl v)"

lemma scan_sigil_text [simp]:
  "is_value v \<Longrightarrow> ends_name rest \<Longrightarrow> scan (v @ rest) = put [mk_token IT_value v] (scan rest)"
  "is_symbol_text v \<Longrightarrow> ends_name rest \<Longrightarrow> scan (v @ rest) = put [mk_token IT_symbol v] (scan rest)"
  by (cases v; simp add: is_value_def is_symbol_text_def)+

section \<open>Numbers\<close>

definition is_number :: "string \<Rightarrow> bool" where
  "is_number s \<longleftrightarrow> s \<noteq> [] \<and> starts_number s \<and>
     (let k = if hd s = CHR ''-'' then 1 else 0 in k + number_extent (drop k s) = length s)"

definition ends_number :: "string \<Rightarrow> bool" where
  "ends_number s \<longleftrightarrow> s = [] \<or> \<not> isxdigit (hd s) \<and> hd s \<notin> {CHR ''.'', CHR ''x'', CHR ''X'', CHR ''+'', CHR ''-''}"

lemma takeWhile_ends_append: "rest = [] \<or> \<not> P (hd rest) \<Longrightarrow> takeWhile P (xs @ rest) = takeWhile P xs"
  by (induction xs) (cases rest; auto)+

lemma ends_number_digits: "ends_number rest \<Longrightarrow> rest = [] \<or> \<not> isdigit (hd rest)" "ends_number rest \<Longrightarrow> rest = [] \<or> \<not> isxdigit (hd rest)"
  by (auto simp: ends_number_def isxdigit_def)

lemma extents_append:
  assumes "ends_number rest"
  shows "digits_extent (s @ rest) = digits_extent s"
    "fraction_extent (s @ rest) = fraction_extent s"
    "exponent_extent (s @ rest) = exponent_extent s"
proof -
  show d: "digits_extent (s @ rest) = digits_extent s" for s
    using takeWhile_ends_append [where P = isdigit, OF ends_number_digits(1) [OF assms]] by (simp add: digits_extent_def)
  show "fraction_extent (s @ rest) = fraction_extent s"
    using assms d by (cases s; cases rest) (auto simp: fraction_extent_def ends_number_def)
  show "exponent_extent (s @ rest) = exponent_extent s"
  proof (cases s)
    case Nil
    have "isxdigit CHR ''e''" "isxdigit CHR ''E''" by (simp_all add: isxdigit_def isdigit_def)
    then have "rest = [] \<or> hd rest \<noteq> CHR ''e'' \<and> hd rest \<noteq> CHR ''E''" using assms unfolding ends_number_def by metis
    then show ?thesis unfolding exponent_extent_def Nil by (auto simp only: append_Nil if_False simp_thms split: if_split)
  next
    case (Cons c cs)
    show ?thesis
    proof (cases "c = CHR ''e'' \<or> c = CHR ''E''")
      case True
      let ?sign = "\<lambda>u. if u \<noteq> [] \<and> (hd u = CHR ''+'' \<or> hd u = CHR ''-'') then 1 else 0 :: nat"
      have sign: "?sign (cs @ rest) = ?sign cs" using assms by (cases cs; cases rest) (simp_all add: ends_number_def)
      have "?sign cs \<le> length cs" by (cases cs) simp_all
      then have "drop (?sign cs) (cs @ rest) = drop (?sign cs) cs @ rest" by simp
      then have "digits_extent (drop (?sign cs) (cs @ rest)) = digits_extent (drop (?sign cs) cs)" using d by simp
      then show ?thesis using True sign by (simp add: exponent_extent_def Cons Let_def del: append_is_Nil_conv)
    next
      case False
      then show ?thesis by (simp add: exponent_extent_def Cons)
    qed
  qed
qed

lemma number_extent_append:
  assumes "ends_number rest" "s \<noteq> []"
  shows "number_extent (s @ rest) = number_extent s"
proof (cases "1 < length s \<and> s ! 0 = CHR ''0'' \<and> (s ! 1 = CHR ''x'' \<or> s ! 1 = CHR ''X'')")
  case True
  have "drop 2 (s @ rest) = drop 2 s @ rest" using True by simp
  then have "takeWhile isxdigit (drop 2 (s @ rest)) = takeWhile isxdigit (drop 2 s)"
    using takeWhile_ends_append [where P = isxdigit, OF ends_number_digits(2) [OF assms(1)]] by simp
  moreover have "(s @ rest) ! 0 = s ! 0" "(s @ rest) ! 1 = s ! 1" "1 < length (s @ rest)" using True assms(2) by (simp_all add: nth_append)
  ultimately show ?thesis using True by (simp only: number_extent_def if_True simp_thms)
next
  case False
  have hex: "\<not> (1 < length (s @ rest) \<and> (s @ rest) ! 0 = CHR ''0'' \<and> ((s @ rest) ! 1 = CHR ''x'' \<or> (s @ rest) ! 1 = CHR ''X''))"
    using False assms by (cases s; cases "tl s"; cases rest) (auto simp: ends_number_def)
  let ?n = "1 + digits_extent (drop 1 s)"
  let ?m = "?n + fraction_extent (drop ?n s)"
  have within: "fraction_extent u \<le> length u" for u
    by (cases u) (auto simp: fraction_extent_def digits_extent_def length_takeWhile_le)
  have n: "?n \<le> length s" using assms(2) length_takeWhile_le [of isdigit "tl s"] by (cases s) (auto simp: digits_extent_def)
  have m: "?m \<le> length s" using n within [of "drop ?n s"] by simp
  have "drop 1 (s @ rest) = drop 1 s @ rest" using assms(2) by (cases s) auto
  then have d: "digits_extent (drop 1 (s @ rest)) = digits_extent (drop 1 s)" using extents_append(1) [OF assms(1)] by simp
  have f: "fraction_extent (drop ?n (s @ rest)) = fraction_extent (drop ?n s)"
    using n extents_append(2) [OF assms(1)] by simp
  have e: "exponent_extent (drop ?m (s @ rest)) = exponent_extent (drop ?m s)"
    using m extents_append(3) [OF assms(1)] by simp
  show ?thesis by (simp only: number_extent_def if_not_P [OF hex] if_not_P [OF False] Let_def d f e)
qed

lemma scan_number [simp]:
  assumes "is_number s" "ends_number rest"
  shows "scan (s @ rest) = put [mk_token IT_integer s] (scan rest)"
proof -
  let ?k = "if hd s = CHR ''-'' then 1 else 0"
  obtain c cs where s: "s = c # cs" using assms(1) by (cases s) (auto simp: is_number_def)
  have k: "?k + number_extent (drop ?k s) = length s" "starts_number s" using assms(1) by (auto simp: is_number_def Let_def)
  then have "drop ?k s \<noteq> []" using s by (auto simp: starts_number_def isdigit_def)
  then have "number_extent (drop ?k s @ rest) = number_extent (drop ?k s)" by (rule number_extent_append [OF assms(2)])
  moreover have "drop ?k (s @ rest) = drop ?k s @ rest" using s by simp
  ultimately have n: "?k + number_extent (drop ?k (s @ rest)) = length s" using k(1) by simp
  have start: "starts_number (s @ rest)" using k(2) s by (auto simp: starts_number_def)
  have others: "\<not> isspace c" "c \<noteq> CHR ''/''" "c \<noteq> CHR 0x22" "c \<noteq> CHR ''@''" "c \<noteq> CHR ''%''" "\<not> isalpha c" "c \<noteq> CHR ''_''"
    using k(2) s by (auto simp: starts_number_def isdigit_def isspace_def isalpha_def Let_def)
  have arrow: "\<not> (c = CHR ''-'' \<and> hd (cs @ rest) = CHR ''>'')"
    using k(2) s by (auto simp: starts_number_def isdigit_def hd_append)
  have "lex_step 0 (s @ rest) = (Some \<lparr>it_kind = IT_integer, it_text = s, it_range = text_range 0 (length s)\<rparr>, [], length s)"
    using s others arrow start n by (auto simp: lex_step_def Let_def)
  then show ?thesis using scan_token [of s rest] s by (simp add: plain_token_def)
qed

lemma is_number_to_string [simp]: "is_number (to_string_nat n)"
proof -
  let ?s = "to_string_nat n"
  obtain c cs where s: "?s = c # cs" by (cases ?s) auto
  have digits: "isdigit c" "\<forall>d \<in> set cs. isdigit d" using to_string_nat_isdigit [of _ n] s by auto
  then have "takeWhile isdigit cs = cs" by (simp add: takeWhile_eq_all_conv)
  then have all: "digits_extent (drop 1 (c # cs)) = length cs" by (simp add: digits_extent_def del: takeWhile_eq_all_conv)
  have "\<not> isdigit CHR ''x''" "\<not> isdigit CHR ''X''" "\<not> isdigit CHR ''-''" by (simp_all add: isdigit_def)
  then have "c \<noteq> CHR ''-''" "\<not> (cs \<noteq> [] \<and> (cs ! 0 = CHR ''x'' \<or> cs ! 0 = CHR ''X''))"
    using digits by (auto simp: neq_Nil_conv)
  then have c: "c \<noteq> CHR ''-''" and "\<not> (1 < length (c # cs) \<and> (c # cs) ! 0 = CHR ''0'' \<and> ((c # cs) ! 1 = CHR ''x'' \<or> (c # cs) ! 1 = CHR ''X''))"
    by auto
  then have "number_extent (c # cs) = length (c # cs)"
    unfolding number_extent_def using all by (simp only: if_False Let_def) (simp add: fraction_extent_def exponent_extent_def)
  then show ?thesis using digits(1) c by (simp add: is_number_def s starts_number_def)
qed

lemma ends_number_simps [simp]:
  "ends_number []" "ends_number (c # cs) \<longleftrightarrow> \<not> isxdigit c \<and> c \<notin> {CHR ''.'', CHR ''x'', CHR ''X'', CHR ''+'', CHR ''-''}"
  by (simp_all add: ends_number_def)

section \<open>Strings\<close>

lemma hex_char_parts:
  assumes "d < 16"
  shows "hex_digit_of (hex_char d) = Some d" "hex_char d \<noteq> CHR 0x22" "hex_char d \<noteq> CHR 0x5C"
proof -
  have "list_all (\<lambda>d. hex_digit_of (hex_char d) = Some d \<and> hex_char d \<noteq> CHR 0x22 \<and> hex_char d \<noteq> CHR 0x5C) [0..<16]"
    by (simp add: upt_rec hex_char_def hex_digit_of_def isdigit_def Let_def char_of_eq_iff)
  then show "hex_digit_of (hex_char d) = Some d" "hex_char d \<noteq> CHR 0x22" "hex_char d \<noteq> CHR 0x5C" using assms by (simp_all add: list_all_iff)
qed

lemma char_byte_inverse: "char_to_byte (byte_to_char b) = b"
proof -
  have "unat b < 256" using unat_less_2p [of b] by simp
  then show ?thesis by (simp add: char_to_byte_def byte_to_char_def)
qed

lemma byte_to_char_eq: "byte_to_char b = c \<longleftrightarrow> b = char_to_byte c"
proof -
  have "byte_to_char (char_to_byte c) = c"
    using unat_of_nat [of "of_char c", where ?'a = 8] by (simp add: byte_to_char_def char_to_byte_def)
  then show ?thesis using char_byte_inverse by metis
qed

lemma printed_char:
  assumes "b \<noteq> 0x5C" "b \<noteq> 0x22"
  shows "byte_to_char b \<noteq> CHR 0x5C" "byte_to_char b \<noteq> CHR 0x22"
  using assms by (simp_all add: byte_to_char_eq char_to_byte_def)

lemma hex_halves: "unat (b :: u8) div 16 < 16" "unat b mod 16 < 16"
  using unat_less_2p [of b] by (simp_all add: less_mult_imp_div_less)

lemma string_extent_byte: "string_extent False (print_byte b @ s) = length (print_byte b) + string_extent False s"
  using printed_char [of b] hex_char_parts [OF hex_halves(1) [of b]] hex_char_parts [OF hex_halves(2) [of b]]
  by (simp add: print_byte_def)

lemma string_extent_bytes: "string_extent False (concat (map print_byte bs) @ CHR 0x22 # s) = length (concat (map print_byte bs)) + 1"
  by (induction bs) (simp_all add: string_extent_byte)

lemma scan_bytes [simp]: "scan (print_bytes bs @ rest) = put [mk_token IT_string (print_bytes bs)] (scan rest)"
proof (rule scan_token [of "print_bytes bs" rest "\<lparr>it_kind = IT_string, it_text = print_bytes bs, it_range = text_range 0 (length (print_bytes bs))\<rparr>",
    unfolded plain_token_def, simplified])
  show "print_bytes bs \<noteq> []" by (simp add: print_bytes_def)
  show "lex_step 0 (print_bytes bs @ rest) = (Some \<lparr>it_kind = IT_string, it_text = print_bytes bs,
      it_range = text_range 0 (length (print_bytes bs))\<rparr>, [], length (print_bytes bs))"
    by (simp add: print_bytes_def lex_step_def isspace_def string_extent_bytes nth_append Let_def)
qed

lemma byte_of_halves: "byte_of_code (unat b) = b"
  by (simp add: byte_of_code_def)

lemma decode_byte: "decode_escapes (print_byte b @ s) = map_sum id (Cons b) (decode_escapes s)"
  using printed_char [of b] hex_char_parts [OF hex_halves(1) [of b]] hex_char_parts [OF hex_halves(2) [of b]]
  by (simp add: print_byte_def simple_escape_def char_byte_inverse byte_of_halves)

lemma decode_bytes: "decode_escapes (concat (map print_byte bs)) = Inr bs"
  by (induction bs) (simp_all add: decode_byte)

lemma decode_string_bytes [simp]: "decode_string (print_bytes bs) = p_return bs"
  by (simp add: decode_string_def print_bytes_def decode_bytes)

end
