(* ===== verification/Text_Ranges.thy ===== *)
theory Text_Ranges
  imports Text_Scan
begin

text \<open>
  Where a token stands in the text only shows in diagnostics: a parser that succeeds gives the same value on tokens
  without ranges, and leaves the same tokens. So a parse can be computed on the tokens that \<open>scan\<close> returns.
\<close>

section \<open>Blind parsers\<close>

definition strip_ranges :: "parse_fault + 'a \<times> ir_token list \<Rightarrow> ('a \<times> ir_token list) option" where
  "strip_ranges r = (case r of Inl _ \<Rightarrow> None | Inr (x, ts) \<Rightarrow> Some (x, map plain_token ts))"

definition blind :: "'a ir_parser \<Rightarrow> bool" where
  "blind p \<longleftrightarrow> (\<forall>ts. strip_ranges (p (map plain_token ts)) = strip_ranges (p ts))"

named_theorems parser_blind "parsers that do not look at ranges"

lemma strip_ranges_simps [simp]:
  "strip_ranges (Inl e) = None" "strip_ranges (Inr (x, ts)) = Some (x, map plain_token ts)"
  by (simp_all add: strip_ranges_def)

lemma plain_plain [simp]: "plain_token \<circ> plain_token = plain_token" "map plain_token (map plain_token ts) = map plain_token ts"
  by (auto simp: comp_def)

lemma blindD: "blind p \<Longrightarrow> strip_ranges (p (map plain_token ts)) = strip_ranges (p ts)"
  by (simp add: blind_def)

lemma blind_peek [parser_blind]:
  assumes "\<And>t. f (plain_token t) = f t" "\<And>t. blind (f t)"
  shows "blind (p_bind (peek_token n) f)"
  unfolding blind_def p_bind_def peek_token_def list_at_def
  using assms by (auto simp: blindD split: option.splits)

lemma blind_bind [parser_blind]:
  assumes "blind p" "\<And>x. blind (f x)"
  shows "blind (p_bind p f)"
  unfolding blind_def
proof
  fix ts
  have p: "strip_ranges (p (map plain_token ts)) = strip_ranges (p ts)" by (rule blindD [OF assms(1)])
  show "strip_ranges (p_bind p f (map plain_token ts)) = strip_ranges (p_bind p f ts)"
  proof (cases "p ts")
    case (Inl e)
    then show ?thesis using p by (cases "p (map plain_token ts)") (auto simp: p_bind_def)
  next
    case (Inr r)
    obtain x us where r: "r = (x, us)" by fastforce
    then obtain vs where v: "p (map plain_token ts) = Inr (x, vs)" "map plain_token vs = map plain_token us"
      using p Inr by (cases "p (map plain_token ts)") auto
    have "strip_ranges (f x vs) = strip_ranges (f x us)" using blindD [OF assms(2), of x vs] blindD [OF assms(2), of x us] v(2) by simp
    then show ?thesis using Inr r v by (simp add: p_bind_def)
  qed
qed

lemma blind_return [parser_blind]: "blind (p_return x)"
  by (simp add: blind_def p_return_def)

lemma blind_fail [parser_blind]: "blind (p_fail_all messages)" "blind (p_fail message)" "blind p_exhausted"
  by (auto simp: blind_def p_fail_def p_fail_all_def p_exhausted_def p_bind_def peek_token_def list_at_def split: option.splits)

lemma blind_skip [parser_blind]: "blind (skip_tokens n)"
  by (simp add: blind_def skip_tokens_def drop_map)

lemma blind_then [parser_blind]: "blind p \<Longrightarrow> blind q \<Longrightarrow> blind (p_then p q)"
  unfolding p_then_def by (intro parser_blind)

lemma blind_map [parser_blind]: "blind p \<Longrightarrow> blind (p_map f p)"
  unfolding p_map_def by (intro parser_blind)

lemma blind_map_peek [parser_blind]: "(\<And>t. g (plain_token t) = g t) \<Longrightarrow> blind (p_map g (peek_token n))"
  unfolding p_map_def by (rule blind_peek) (auto intro: parser_blind)

lemma blind_if [parser_blind]: "blind p \<Longrightarrow> blind q \<Longrightarrow> blind (if b then p else q)"
  by simp

lemma blind_option [parser_blind]: "blind p \<Longrightarrow> (\<And>x. blind (q x)) \<Longrightarrow> blind (case v of None \<Rightarrow> p | Some x \<Rightarrow> q x)"
  by (cases v) auto

lemma blind_sum [parser_blind]: "(\<And>x. blind (p x)) \<Longrightarrow> (\<And>x. blind (q x)) \<Longrightarrow> blind (case v of Inl x \<Rightarrow> p x | Inr x \<Rightarrow> q x)"
  by (cases v) auto

lemma blind_prod [parser_blind]: "(\<And>x y. blind (p x y)) \<Longrightarrow> blind (case v of (x, y) \<Rightarrow> p x y)"
  by (cases v) auto

lemma blind_words [parser_blind]: "blind (at_text s)" "blind at_end_token" "blind (take_text s)" "blind (expect s)"
  "blind (expect_kind kind what)" "blind (expect_symbol what)"
proof -
  show at: "blind (at_text s)" "blind at_end_token"
    unfolding at_text_def at_end_token_def by (rule blind_map_peek, simp)+
  show take: "blind (take_text s)" unfolding take_text_def by (auto intro!: parser_blind at)
  show "blind (expect s)" unfolding expect_def by (auto intro!: parser_blind take)
  show "blind (expect_kind kind what)" for kind what unfolding expect_kind_def by (rule blind_peek) (auto intro!: parser_blind)
  then show "blind (expect_symbol what)" unfolding expect_symbol_def by (auto intro!: parser_blind)
qed

lemma blind_take_first [parser_blind]: "blind (take_first alts)"
  by (induction alts rule: take_first.induct) (auto intro!: parser_blind)

lemma blind_choice:
  assumes "blind p" "\<And>x. Q x \<Longrightarrow> blind (f x)" "\<And>ts x us. p ts = Inr (x, us) \<Longrightarrow> Q x"
  shows "blind (p_bind p f)"
proof -
  have "p_bind p f = p_bind p (\<lambda>x. if Q x then f x else p_exhausted)"
    using assms(3) by (auto simp: p_bind_def fun_eq_iff split: sum.splits)
  moreover have "blind (if Q x then f x else p_exhausted)" for x using assms(2) by (auto intro: blind_fail)
  then have "blind (p_bind p (\<lambda>x. if Q x then f x else p_exhausted))" by (rule blind_bind [OF assms(1)])
  ultimately show ?thesis by simp
qed

lemma take_first_in: "take_first alts ts = Inr (Some x, us) \<Longrightarrow> x \<in> snd ` set alts"
  by (induction alts arbitrary: ts rule: take_first.induct)
    (auto simp: p_return_def p_bind_def split: sum.splits if_splits prod.splits)

lemma blind_first_of [parser_blind]:
  assumes "\<And>p. p \<in> snd ` set alts \<Longrightarrow> blind p" "blind q"
  shows "blind (first_of alts q)"
  unfolding first_of_def
  by (rule blind_choice [where Q = "\<lambda>r. case r of None \<Rightarrow> True | Some p \<Rightarrow> p \<in> snd ` set alts"])
    (use assms take_first_in in \<open>auto intro!: parser_blind split: option.splits\<close>)

lemma blind_prefix_loop [parser_blind]: "blind (prefix_loop table n x)"
  by (induction n arbitrary: x) (auto intro!: parser_blind)

lemma blind_until_loop: "blind stop \<Longrightarrow> (\<And>x. blind (step x)) \<Longrightarrow> blind (until_loop stop step n x)"
  by (induction n arbitrary: x) (auto intro!: parser_blind)

lemma blind_comma_loop: "blind item \<Longrightarrow> blind (comma_loop close item n)"
  by (induction n) (auto intro!: parser_blind)

lemma blind_with_fuel: "(\<And>n. blind (p n)) \<Longrightarrow> blind (with_fuel p)" "(\<And>n. blind (p n)) \<Longrightarrow> blind (initializer_fuel p)"
  by (auto simp: blind_def with_fuel_def initializer_fuel_def)

section \<open>The grammar\<close>

lemma blind_tokens [parser_blind]: "blind parse_type" "blind (parse_u32_token what)" "blind (bad_number e)" "blind (parse_integer_bits t)"
  "blind (decode_string s)" "blind (parse_aggregate kind what t)" "blind parse_borrow" "blind (write_scalar bytes off t v)"
  unfolding parse_type_def parse_u32_token_def bad_number_def parse_integer_bits_def decode_string_def parse_aggregate_def parse_borrow_def
    write_scalar_def
  by (auto intro!: parser_blind)

lemma blind_declarations [parser_blind]: "blind (parse_value_decl what)" "blind item \<Longrightarrow> blind (in_parentheses item)"
  "blind parse_struct_field"
  unfolding parse_value_decl_def in_parentheses_def parse_struct_field_def Let_def
  by (auto intro!: parser_blind blind_with_fuel blind_comma_loop)

lemma blind_aggregates [parser_blind]: "blind parse_parameters" "blind parse_struct" "blind parse_array"
  unfolding parse_parameters_def parse_struct_def parse_array_def
  by (auto intro!: parser_blind blind_with_fuel blind_comma_loop)

lemma blind_initializers:
  "(\<forall>m d. blind (parse_array_initializer n m d)) \<and> (\<forall>m d. blind (parse_struct_initializer n m d)) \<and>
   (\<forall>m d stride index bytes. blind (parse_elements n m d stride index bytes)) \<and>
   (\<forall>m d ls names bytes. blind (parse_fields n m d ls names bytes))"
proof (induction n)
  case 0
  show ?case by (simp add: parser_blind)
next
  case (Suc n)
  have parts: "blind (parse_array_initializer n m d)" "blind (parse_struct_initializer n m d')"
    "blind (parse_elements n m d stride index bytes)" "blind (parse_fields n m d' ls names bytes)" for m d d' stride index bytes ls names
    using Suc.IH by auto
  show ?case unfolding parse_array_initializer.simps parse_struct_initializer.simps parse_elements.simps parse_fields.simps Let_def
    by (intro conjI allI parser_blind parts)
qed

lemma blind_global [parser_blind]: "blind (parse_global m)"
proof -
  have val: "blind (parse_global_value m g)" for g
    unfolding parse_global_value_def
    by (rule blind_peek, unfold plain_token_parts, rule refl)
      (use blind_initializers in \<open>auto intro!: parser_blind blind_with_fuel\<close>)
  show ?thesis
    unfolding parse_global_def parse_callback_global_def parse_named_global_def parse_count_def Let_def
    by (auto intro!: parser_blind val blind_with_fuel)
qed

lemma blind_attribute_loop [parser_blind]: "blind (attribute_loop n)"
  by (induction n) (auto intro!: parser_blind)

lemma blind_with_attributes [parser_blind]: "blind (with_attributes op)"
  unfolding with_attributes_def by (auto intro!: parser_blind blind_with_fuel)

lemma blind_operands [parser_blind]: "blind (parse_operands oc n)"
proof (induction n)
  case (Suc n)
  show ?case unfolding parse_operands.simps
    by (rule blind_peek) (use Suc in \<open>auto intro!: parser_blind simp: is_operand_def\<close>)
qed (auto intro!: parser_blind)

lemma blind_return_operation [parser_blind]: "blind (parse_return op)"
  unfolding parse_return_def by (rule blind_peek) (auto intro!: parser_blind)

lemma blind_result_name [parser_blind]: "blind parse_result_name"
proof -
  have "blind (p_bind (peek_token 1) (\<lambda>t1. if it_text t1 = ''='' then p_then (skip_tokens 2) (p_return s) else p_return []))" for s
    by (rule blind_peek, unfold plain_token_parts, rule refl) (auto intro!: parser_blind)
  then show ?thesis unfolding parse_result_name_def
    by (intro blind_peek [where n = 0] blind_if blind_return) (unfold plain_token_parts, rule refl)
qed

lemma blind_operations [parser_blind]: "blind parse_successor" "blind (parse_callee oc)" "blind (parse_call op)" "blind (parse_function_address op)"
  "blind (parse_alignment op)" "blind (parse_plain op)"
proof -
  show "blind (parse_callee oc)" for oc unfolding parse_callee_def by (auto intro!: parser_blind)
  then show "blind (parse_call op)" unfolding parse_call_def by (auto intro!: parser_blind)
  show "blind parse_successor" "blind (parse_function_address op)"
    unfolding parse_successor_def parse_args_def parse_function_address_def by (auto intro!: parser_blind)
  show "blind (parse_alignment op)" for op unfolding parse_alignment_def by (auto intro!: parser_blind)
  then show "blind (parse_plain op)" unfolding parse_plain_def by (auto intro!: parser_blind)
qed

lemma blind_operation [parser_blind]: "blind parse_operation"
  unfolding parse_operation_def parse_jump_def parse_branch_def Let_def by (auto intro!: parser_blind)

lemma blind_at_block_end [parser_blind]: "blind at_block_end"
proof -
  have "blind (p_bind (peek_token 0) (\<lambda>t. if it_kind t \<noteq> IT_identifier then p_return False
       else p_map (\<lambda>t1. it_text t1 = '':'' \<or> it_text t1 = ''('') (peek_token 1)))"
    by (intro blind_peek blind_if blind_map_peek blind_return) simp_all
  then show ?thesis unfolding at_block_end_def by (rule blind_bind [OF blind_words(1) blind_if [OF blind_return]])
qed

lemma blind_block [parser_blind]: "blind parse_block" "blind at_close"
  unfolding parse_block_def at_close_def push_back_def
  by (auto intro!: parser_blind blind_with_fuel blind_until_loop)

lemma blind_function [parser_blind]: "blind parse_function"
proof -
  have "blind (parse_return_type f)" for f unfolding parse_return_type_def Let_def by (auto intro!: parser_blind)
  then show ?thesis unfolding parse_function_def push_back_def
    by (auto intro!: parser_blind blind_with_fuel blind_until_loop)
qed

lemma blind_p_traverse: "(\<And>x s. blind (f x s)) \<Longrightarrow> blind (p_traverse f xs s)"
  by (induction xs arbitrary: s) (auto intro!: parser_blind)

lemma blind_intern_strings [parser_blind]: "blind (intern_strings m)"
  unfolding intern_strings_def intern_function_def intern_block_def intern_operation_def Let_def
  by (auto intro!: parser_blind blind_p_traverse)

lemma blind_is_global_start [parser_blind]: "blind is_global_start"
  unfolding blind_def
proof
  fix ts
  show "strip_ranges (is_global_start (map plain_token ts)) = strip_ranges (is_global_start ts)"
    by (cases "dropWhile (\<lambda>t. is_symbol_prefix (it_text t)) ts") (simp_all add: is_global_start_def dropWhile_map comp_def del: dropWhile_eq_Nil_conv)
qed

lemma blind_at_declaration [parser_blind]: "blind (at_declaration word)"
proof -
  have "blind (p_map (\<lambda>t. it_text t = word) (peek_token 1))" by (rule blind_map_peek) simp
  then show ?thesis unfolding at_declaration_def by (intro blind_bind blind_words blind_if blind_return)
qed

lemma blind_items: "blind parse_items"
proof -
  have "blind (parse_item m)" for m unfolding parse_item_def by (intro parser_blind)
  then show ?thesis unfolding parse_items_def by (auto intro!: parser_blind blind_with_fuel blind_until_loop)
qed

text \<open>Parsing what the lexer returns is parsing what \<open>scan\<close> returns.\<close>

lemma parse_module_scan:
  assumes "scan source = (ts, True)" "parse_items ts = Inr (m, us)"
  shows "parse_module source = Some \<lparr>ps_module = Some m, ps_diagnostics = []\<rparr>"
proof -
  obtain tokens where t: "lex_module source = (tokens, [])" "map plain_token tokens = ts"
    using assms(1) by (cases "lex_from 0 source") (auto simp: scan_def lex_module_def)
  have "strip_ranges (parse_items tokens) = Some (m, map plain_token us)"
    using blindD [OF blind_items, of tokens] t(2) assms(2) by simp
  then obtain vs where "parse_items tokens = Inr (m, vs)" by (auto simp: strip_ranges_def split: sum.splits)
  then show ?thesis by (simp add: parse_module_def t(1))
qed

end
