(* ===== verification/Text_Declared.thy ===== *)
theory Text_Declared
  imports Text_Ranges
begin

text \<open>
  Declarations and globals: the tokens that the printer writes for them (\<open>struct_tokens\<close> and the like), the conditions
  under which the text form keeps everything (\<open>ok_struct\<close> and the like), and for each the two facts that make a round
  trip: the lexer finds these tokens in the printed text, and the parser makes the declaration of them again.
\<close>

section \<open>Running parsers on given tokens\<close>

named_theorems run_simps "parsers on tokens whose kind and text are known"

lemmas run_monad [run_simps] = p_bind_def p_then_def p_map_def p_return_def

lemma run_tokens [run_simps]:
  "at_text s (t # ts) = Inr (it_text t = s, t # ts)"
  "at_end_token (t # ts) = Inr (it_kind t = IT_end, t # ts)"
  "take_text s (t # ts) = (if it_text t = s then Inr (True, ts) else Inr (False, t # ts))"
  "expect s (mk_token k s # ts) = Inr ((), ts)"
  "expect_kind k what (mk_token k w # ts) = Inr (w, ts)"
  "expect_symbol what (mk_token IT_symbol (CHR ''@'' # n) # ts) = Inr (n, ts)"
  "skip_tokens 1 (t # ts) = Inr ((), ts)" "skip_tokens (Suc 0) (t # ts) = Inr ((), ts)"
  "peek_token 0 (t # ts) = Inr (t, t # ts)" "peek_token 1 (t # u # ts) = Inr (u, t # u # ts)"
  "peek_token (Suc 0) (t # u # ts) = Inr (u, t # u # ts)"
  by (simp_all add: at_text_def at_end_token_def take_text_def expect_def expect_kind_def expect_symbol_def skip_tokens_def
      peek_token_def strip_sigil_def run_monad)

lemma run_first_of [run_simps]:
  "first_of [] q ts = q ts"
  "first_of ((w, p) # alts) q (t # ts) = (if it_text t = w then p ts else first_of alts q (t # ts))"
  by (simp_all add: first_of_def run_simps)

lemma run_type [run_simps]: "parse_type (mk_token IT_identifier (type_str t) # ts) = Inr (t, ts)"
  by (simp add: parse_type_def run_simps)

lemma run_number [run_simps]:
  "parse_u32_token what (mk_token IT_integer (to_string_nat (unat (n :: u32))) # ts) = Inr (n, ts)"
proof -
  have "unat n < 4294967296" using unat_less_2p [of n] by simp
  then show ?thesis
    by (simp add: parse_u32_token_def run_simps list_all_iff to_string_nat_isdigit)
qed

lemma type_str_word [simp]: "is_word (type_str t)"
  by (cases t) (simp_all add: is_word_def isalpha_def is_name_char_def isalnum_def isdigit_def)

lemma type_str_no_keyword [simp]:
  "type_str t \<noteq> ''borrow''" "type_str t \<noteq> ''owned''" "type_str t \<noteq> ''callback''" "type_str t \<noteq> ''struct''"
  "type_str t \<noteq> ''array''" "type_str t \<noteq> ''mut''"
  by (cases t; simp)+

lemma ends_word_if_name [simp]: "ends_name s \<Longrightarrow> ends_word s"
  by (auto simp: ends_name_def ends_word_def)

text \<open>Letters in front of a text, which the printer writes as literals.\<close>

lemma char_classes [simp]:
  "isalpha CHR ''a''" "isalpha CHR ''b''" "isalpha CHR ''c''" "isalpha CHR ''e''" "isalpha CHR ''f''" "isalpha CHR ''g''" "isalpha CHR ''h''" "isalpha CHR ''i''"
  "isalpha CHR ''m''" "isalpha CHR ''n''" "isalpha CHR ''o''" "isalpha CHR ''s''" "isalpha CHR ''t''" "isalpha CHR ''v''" "isalpha CHR ''w''" "isalpha CHR ''z''"
  "\<not> is_name_char CHR '' ''" "\<not> is_name_char CHR 0x0A" "\<not> is_name_char CHR '':''" "\<not> is_name_char CHR '',''" "\<not> is_name_char CHR ''(''"
  "\<not> is_name_char CHR '')''" "\<not> is_name_char CHR ''[''" "\<not> is_name_char CHR '']''" "\<not> is_name_char CHR ''{''" "\<not> is_name_char CHR ''}''"
  "\<not> is_name_char CHR ''=''" "\<not> is_name_char CHR ''@''" "\<not> is_name_char CHR ''%''" "\<not> is_name_char CHR 0x22" "\<not> is_name_char CHR ''-''"
  "\<not> isxdigit CHR '' ''" "\<not> isxdigit CHR 0x0A" "\<not> isxdigit CHR '']''" "\<not> isxdigit CHR '',''" "\<not> isxdigit CHR '')''"
  by (simp_all add: isalpha_def is_name_char_def isalnum_def isdigit_def isxdigit_def)

lemma name_chars [simp]:
  "is_name_char CHR ''a''" "is_name_char CHR ''b''" "is_name_char CHR ''c''" "is_name_char CHR ''d''" "is_name_char CHR ''e''" "is_name_char CHR ''f''"
  "is_name_char CHR ''g''" "is_name_char CHR ''h''" "is_name_char CHR ''i''" "is_name_char CHR ''k''" "is_name_char CHR ''l''" "is_name_char CHR ''m''"
  "is_name_char CHR ''n''" "is_name_char CHR ''o''" "is_name_char CHR ''r''" "is_name_char CHR ''s''" "is_name_char CHR ''t''" "is_name_char CHR ''u''"
  "is_name_char CHR ''v''" "is_name_char CHR ''w''" "is_name_char CHR ''x''" "is_name_char CHR ''y''" "is_name_char CHR ''z''" "is_name_char CHR ''_''"
  "is_name_char CHR ''2''" "is_name_char CHR ''4''" "is_name_char CHR ''6''"
  by (simp_all add: isalpha_def is_name_char_def isalnum_def isdigit_def)

section \<open>Types, borrows and lists\<close>

abbreviation word_token :: "string \<Rightarrow> ir_token" where
  "word_token w \<equiv> mk_token IT_identifier w"

abbreviation mark_token :: "string \<Rightarrow> ir_token" where
  "mark_token w \<equiv> mk_token IT_punctuation w"

abbreviation symbol_token :: "string \<Rightarrow> ir_token" where
  "symbol_token n \<equiv> mk_token IT_symbol (CHR ''@'' # n)"

definition aggregate_tokens :: "aggregate_ref_kind \<Rightarrow> string \<Rightarrow> ir_token list \<Rightarrow> ir_token list" where
  "aggregate_tokens kind name otherwise =
     (if kind = ARK_structure then [word_token ''struct'', symbol_token name]
      else if kind = ARK_array then [word_token ''array'', symbol_token name] else otherwise)"

definition ok_ref :: "aggregate_ref_kind \<Rightarrow> string \<Rightarrow> ir_type \<Rightarrow> ir_type \<Rightarrow> bool" where
  "ok_ref kind name t aggregate_type \<longleftrightarrow>
     (if kind = ARK_scalar then name = [] else (kind = ARK_structure \<or> kind = ARK_array) \<and> is_name name \<and> t = aggregate_type)"

lemma scan_aggregate:
  assumes "ok_ref kind name t a" "ends_name rest" "kind = ARK_scalar \<Longrightarrow> scan (s @ rest) = put ts (scan rest)"
  shows "scan (aggregate_text kind name s @ rest) = put (aggregate_tokens kind name ts) (scan rest)"
  using assms by (auto simp: aggregate_text_def aggregate_tokens_def ok_ref_def split: if_splits)

definition borrow_tokens :: "borrow_mode \<Rightarrow> bool \<Rightarrow> ir_token list" where
  "borrow_tokens mode owned =
     (if mode = BM_immutable then [word_token ''borrow''] else if mode = BM_mutable then [word_token ''borrow'', word_token ''mut'']
      else if owned then [word_token ''owned''] else [])"

lemma scan_borrow: "scan (borrow_text mode owned @ rest) = put (borrow_tokens mode owned) (scan rest)"
  by (simp add: borrow_text_def borrow_tokens_def)

lemma parse_borrow_tokens:
  "owned \<longrightarrow> mode = BM_none \<Longrightarrow> it_text t \<notin> {''borrow'', ''mut'', ''owned''} \<Longrightarrow>
     parse_borrow (borrow_tokens mode owned @ t # ts) = Inr ((mode, owned), t # ts)"
  by (cases mode; cases owned) (simp_all add: parse_borrow_def borrow_tokens_def run_simps)

definition separated_tokens :: "('a \<Rightarrow> ir_token list) \<Rightarrow> 'a list \<Rightarrow> ir_token list" where
  "separated_tokens f xs = (case xs of [] \<Rightarrow> [] | y # ys \<Rightarrow> f y @ concat (map (\<lambda>z. mark_token '','' # f z) ys))"

lemma scan_separated:
  assumes "\<And>x r. x \<in> set xs \<Longrightarrow> ends_name r \<Longrightarrow> scan (show_item x @ r) = put (f x) (scan r)" "ends_name rest"
  shows "scan (separated show_item xs @ rest) = put (separated_tokens f xs) (scan rest)"
proof -
  have tail: "scan (concat (map (\<lambda>z. '', '' @ show_item z) ys) @ rest) = put (concat (map (\<lambda>z. mark_token '','' # f z) ys)) (scan rest) \<and>
      ends_name (concat (map (\<lambda>z. '', '' @ show_item z) ys) @ rest)" if "set ys \<subseteq> set xs" for ys
    using that by (induction ys) (use assms in auto)
  show ?thesis
  proof (cases xs)
    case (Cons y ys)
    have "set ys \<subseteq> set xs" using Cons by auto
    then show ?thesis using tail [of ys] assms(1) [of y] Cons by (simp add: separated_def separated_tokens_def)
  qed (simp add: separated_def separated_tokens_def)
qed

lemma comma_loop_separated:
  assumes "\<And>x out. x \<in> set xs \<Longrightarrow> item (f x @ out) = Inr (x, out)"
    "\<And>x. x \<in> set xs \<Longrightarrow> \<exists>t us. f x = t # us \<and> it_text t \<noteq> close" "close \<noteq> '',''" "it_text t = close" "length xs < n"
  shows "comma_loop close item n (separated_tokens f xs @ t # ts) = Inr (xs, t # ts)"
  using assms
proof (induction xs arbitrary: n)
  case Nil
  then show ?case by (cases n) (simp_all add: separated_tokens_def run_simps)
next
  case (Cons x xs)
  obtain k where n: "n = Suc k" using Cons.prems(5) by (cases n) auto
  obtain u us where fx: "f x = u # us" "it_text u \<noteq> close" using Cons.prems(2) [of x] by auto
  have item: "item (u # us @ out) = Inr (x, out)" for out using Cons.prems(1) [of x out] fx by simp
  show ?case
  proof (cases xs)
    case Nil
    then show ?thesis using n fx item [of "t # ts"] Cons.prems(3,4) by (simp add: separated_tokens_def run_simps)
  next
    case (Cons y ys)
    have "comma_loop close item k (separated_tokens f xs @ t # ts) = Inr (xs, t # ts)"
      by (rule Cons.IH) (use Cons.prems n in auto)
    then show ?thesis using n fx item Cons by (simp add: separated_tokens_def run_simps)
  qed
qed

section \<open>Parameters\<close>

definition ok_param :: "value_decl \<Rightarrow> bool" where
  "ok_param d \<longleftrightarrow> is_value (vd_name d) \<and>
     (if vd_function_signature_name d \<noteq> [] then is_name (vd_function_signature_name d) \<and> vd_type d = TK_ptr \<and>
        vd_aggregate_kind d = ARK_scalar \<and> vd_aggregate_name d = [] \<and> \<not> vd_owned d \<and> vd_borrow_mode d = BM_none
      else ok_ref (vd_aggregate_kind d) (vd_aggregate_name d) (vd_type d) TK_ptr \<and>
        (vd_aggregate_kind d = ARK_scalar \<longrightarrow> \<not> vd_owned d \<and> vd_borrow_mode d = BM_none) \<and> (vd_owned d \<longrightarrow> vd_borrow_mode d = BM_none))"

definition param_tokens :: "value_decl \<Rightarrow> ir_token list" where
  "param_tokens d = mk_token IT_value (vd_name d) # mark_token '':'' # borrow_tokens (vd_borrow_mode d) (vd_owned d) @
     (if vd_function_signature_name d \<noteq> [] then [word_token ''callback'', symbol_token (vd_function_signature_name d)]
      else aggregate_tokens (vd_aggregate_kind d) (vd_aggregate_name d) [word_token (type_str (vd_type d))])"

lemma scan_param: "ok_param d \<Longrightarrow> ends_name rest \<Longrightarrow> scan (print_param d @ rest) = put (param_tokens d) (scan rest)"
  using scan_aggregate [of "vd_aggregate_kind d" "vd_aggregate_name d" "vd_type d" TK_ptr rest "type_str (vd_type d)" "[word_token (type_str (vd_type d))]"]
  by (simp add: print_param_def param_tokens_def ok_param_def scan_borrow split: if_splits)

lemma aggregate_tokens_head:
  "ok_ref kind name t a \<Longrightarrow> kind \<noteq> ARK_scalar \<Longrightarrow> \<exists>w. aggregate_tokens kind name ts = [word_token w, symbol_token name] \<and> w \<in> {''struct'', ''array''}"
  by (auto simp: ok_ref_def aggregate_tokens_def)

lemma parse_param: 
  assumes "ok_param d"
  shows "parse_value_decl what (param_tokens d @ out) = Inr (d, out)"
proof -
  define rest where "rest = (if vd_function_signature_name d \<noteq> [] then [word_token ''callback'', symbol_token (vd_function_signature_name d)]
      else aggregate_tokens (vd_aggregate_kind d) (vd_aggregate_name d) [word_token (type_str (vd_type d))]) @ out"
  obtain t ts where t: "rest = t # ts" "it_text t \<notin> {''borrow'', ''mut'', ''owned''}"
    using assms by (auto simp: rest_def ok_param_def ok_ref_def aggregate_tokens_def split: if_splits)
  have borrow: "parse_borrow (borrow_tokens (vd_borrow_mode d) (vd_owned d) @ rest) = Inr ((vd_borrow_mode d, vd_owned d), rest)"
    unfolding t(1) by (rule parse_borrow_tokens) (use assms t(2) in \<open>auto simp: ok_param_def split: if_splits\<close>)
  have "param_tokens d @ out = mk_token IT_value (vd_name d) # mark_token '':'' # borrow_tokens (vd_borrow_mode d) (vd_owned d) @ rest"
    by (simp add: param_tokens_def rest_def)
  then show ?thesis using assms
    by (simp add: parse_value_decl_def run_simps borrow Let_def)
      (auto simp: rest_def ok_param_def ok_ref_def aggregate_tokens_def run_simps parse_aggregate_def value_decl_init_def split: if_splits)
qed

definition list_tokens :: "('a \<Rightarrow> ir_token list) \<Rightarrow> 'a list \<Rightarrow> ir_token list" where
  "list_tokens f xs = mark_token ''('' # separated_tokens f xs @ [mark_token '')'']"

lemma length_separated_tokens: "(\<And>x. x \<in> set xs \<Longrightarrow> f x \<noteq> []) \<Longrightarrow> length xs \<le> length (separated_tokens f xs)"
proof (cases xs)
  case (Cons y ys)
  assume "\<And>x. x \<in> set xs \<Longrightarrow> f x \<noteq> []"
  moreover have "length ys \<le> length (concat (map (\<lambda>z. mark_token '','' # f z) ys))" by (induction ys) auto
  ultimately show ?thesis using Cons by (cases "f y") (auto simp: separated_tokens_def)
qed simp

lemma parse_in_parentheses:
  assumes "\<And>x out. x \<in> set xs \<Longrightarrow> item (f x @ out) = Inr (x, out)" "\<And>x. x \<in> set xs \<Longrightarrow> \<exists>t us. f x = t # us \<and> it_text t \<noteq> '')''"
  shows "in_parentheses item (list_tokens f xs @ out) = Inr (xs, out)"
proof -
  have "length xs \<le> length (separated_tokens f xs)" by (rule length_separated_tokens) (use assms(2) in force)
  then have "with_fuel (comma_loop '')'' item) (separated_tokens f xs @ mark_token '')'' # out) = Inr (xs, mark_token '')'' # out)"
    unfolding with_fuel_def by (intro comma_loop_separated assms) auto
  then show ?thesis by (simp add: in_parentheses_def list_tokens_def run_simps)
qed

lemma scan_params: "list_all ok_param ds \<Longrightarrow> scan (print_params ds @ rest) = put (list_tokens param_tokens ds) (scan rest)"
  using scan_separated [of ds print_param param_tokens "CHR '')'' # rest"]
  by (simp add: print_params_def list_tokens_def scan_param list_all_iff)

lemma value_text: "is_value v \<Longrightarrow> \<exists>n. v = CHR ''%'' # n \<and> is_name n"
  by (cases v) (auto simp: is_value_def)

lemma param_head: "ok_param d \<Longrightarrow> \<exists>us n. param_tokens d = mk_token IT_value (CHR ''%'' # n) # us"
  using value_text [of "vd_name d"] by (auto simp: param_tokens_def ok_param_def)

lemma parse_params: "list_all ok_param ds \<Longrightarrow> parse_parameters (list_tokens param_tokens ds @ out) = Inr (ds, out)"
  unfolding parse_parameters_def
  by (rule parse_in_parentheses) (auto simp: list_all_iff parse_param dest!: param_head)

section \<open>Structures and arrays\<close>

definition ok_field :: "struct_field \<Rightarrow> bool" where
  "ok_field f \<longleftrightarrow> is_word (sf_name f) \<and> ok_ref (sf_aggregate_kind f) (sf_aggregate_name f) (sf_type f) TK_void"

definition field_tokens :: "struct_field \<Rightarrow> ir_token list" where
  "field_tokens f = word_token (sf_name f) # mark_token '':'' #
     aggregate_tokens (sf_aggregate_kind f) (sf_aggregate_name f) [word_token (type_str (sf_type f))]"

lemma scan_field: "ok_field f \<Longrightarrow> ends_name rest \<Longrightarrow> scan (print_struct_field f @ rest) = put (field_tokens f) (scan rest)"
  using scan_aggregate [of "sf_aggregate_kind f" "sf_aggregate_name f" "sf_type f" TK_void rest "type_str (sf_type f)" "[word_token (type_str (sf_type f))]"]
  by (simp add: print_struct_field_def field_tokens_def ok_field_def)

lemma parse_field: "ok_field f \<Longrightarrow> parse_struct_field (field_tokens f @ out) = Inr (f, out)"
  by (auto simp: parse_struct_field_def field_tokens_def ok_field_def ok_ref_def aggregate_tokens_def run_simps parse_aggregate_def split: if_splits)

definition ok_struct :: "struct_decl \<Rightarrow> bool" where
  "ok_struct d \<longleftrightarrow> is_name (sd_name d) \<and> list_all ok_field (sd_fields d)"

definition struct_tokens :: "struct_decl \<Rightarrow> ir_token list" where
  "struct_tokens d = (if sd_move_only d then [word_token ''moveonly''] else []) @ word_token ''struct'' # symbol_token (sd_name d) #
     mark_token ''{'' # separated_tokens field_tokens (sd_fields d) @ [mark_token ''}'']"

lemma scan_struct: "ok_struct d \<Longrightarrow> scan (print_struct d @ rest) = put (struct_tokens d) (scan rest)"
  using scan_separated [of "sd_fields d" print_struct_field field_tokens "CHR '' '' # CHR ''}'' # CHR 0x0A # rest"]
  by (simp add: print_struct_def struct_tokens_def ok_struct_def newline_def scan_field list_all_iff)

lemma word_not_mark: "is_word w \<Longrightarrow> w \<noteq> ''}''"
  by (auto simp: is_word_def isalpha_def)

lemma parse_struct_tokens:
  assumes "ok_struct d"
  shows "parse_struct (struct_tokens d @ out) = Inr (d, out)"
proof -
  have "with_fuel (comma_loop ''}'' parse_struct_field) (separated_tokens field_tokens (sd_fields d) @ mark_token ''}'' # out) =
      Inr (sd_fields d, mark_token ''}'' # out)" unfolding with_fuel_def
  proof (intro comma_loop_separated)
    fix f assume "f \<in> set (sd_fields d)"
    then have f: "ok_field f" using assms by (simp add: ok_struct_def list_all_iff)
    show "\<exists>t us. field_tokens f = t # us \<and> it_text t \<noteq> ''}''" using f word_not_mark by (auto simp: field_tokens_def ok_field_def)
    show "parse_struct_field (field_tokens f @ out) = Inr (f, out)" for out by (rule parse_field [OF f])
  next
    have "length (sd_fields d) \<le> length (separated_tokens field_tokens (sd_fields d))"
      by (rule length_separated_tokens) (simp add: field_tokens_def)
    then show "length (sd_fields d) < length (separated_tokens field_tokens (sd_fields d) @ mark_token ''}'' # out) + 1" by simp
  qed simp_all
  then show ?thesis by (simp add: parse_struct_def struct_tokens_def run_simps)
qed

definition ok_array :: "array_decl \<Rightarrow> bool" where
  "ok_array d \<longleftrightarrow> is_name (ad_name d) \<and> ok_ref (ad_element_aggregate_kind d) (ad_element_aggregate_name d) (ad_element_type d) TK_ptr"

definition array_tokens :: "array_decl \<Rightarrow> ir_token list" where
  "array_tokens d = (if ad_move_only d then [word_token ''moveonly''] else []) @ word_token ''array'' # symbol_token (ad_name d) # mark_token ''='' #
     aggregate_tokens (ad_element_aggregate_kind d) (ad_element_aggregate_name d) [word_token (type_str (ad_element_type d))] @
     [mark_token ''['', mk_token IT_integer (to_string_nat (unat (ad_element_count d))), mark_token '']'']"

lemma scan_array: "ok_array d \<Longrightarrow> scan (print_array d @ rest) = put (array_tokens d) (scan rest)"
  by (auto simp: print_array_def array_tokens_def ok_array_def ok_ref_def aggregate_text_def aggregate_tokens_def newline_def split: if_splits)

lemma parse_array_tokens: "ok_array d \<Longrightarrow> parse_array (array_tokens d @ out) = Inr (d, out)"
  by (auto simp: parse_array_def array_tokens_def ok_array_def ok_ref_def aggregate_tokens_def parse_aggregate_def run_simps split: if_splits)

section \<open>Prefix words\<close>

lemma run_take_first [run_simps]:
  "take_first alts (t # ts) = (case map_of alts (it_text t) of None \<Rightarrow> Inr (None, t # ts) | Some x \<Rightarrow> Inr (Some x, ts))"
  by (induction alts rule: take_first.induct) (auto simp: run_simps)

definition apply_word :: "(string \<times> ('a \<Rightarrow> 'a)) list \<Rightarrow> string \<Rightarrow> 'a \<Rightarrow> 'a" where
  "apply_word table w = the (map_of table w)"

lemma prefix_loop_words:
  assumes "set ws \<subseteq> fst ` set table" "it_text t \<notin> fst ` set table" "length ws < n"
  shows "prefix_loop table n x (map word_token ws @ t # ts) = Inr (fold (apply_word table) ws x, t # ts)"
  using assms
proof (induction ws arbitrary: n x)
  case Nil
  then show ?case by (cases n) (auto simp: run_simps map_of_eq_None_iff [THEN iffD2])
next
  case (Cons w ws)
  obtain k where n: "n = Suc k" using Cons.prems(3) by (cases n) auto
  obtain f where f: "map_of table w = Some f" using Cons.prems(1) by (cases "map_of table w") (auto simp: map_of_eq_None_iff)
  have "prefix_loop table k (f x) (map word_token ws @ t # ts) = Inr (fold (apply_word table) ws (f x), t # ts)"
    by (rule Cons.IH) (use Cons.prems n in auto)
  moreover have "apply_word table w = f" by (simp add: apply_word_def f)
  ultimately show ?case by (simp add: n run_simps f)
qed

lemma with_fuel_words:
  assumes "set ws \<subseteq> fst ` set table" "it_text t \<notin> fst ` set table"
  shows "with_fuel (\<lambda>n. prefix_loop table n x) (map word_token ws @ t # ts) = Inr (fold (apply_word table) ws x, t # ts)"
  unfolding with_fuel_def by (intro prefix_loop_words assms) simp

definition symbol_words :: "symbol_linkage \<Rightarrow> symbol_visibility \<Rightarrow> string list" where
  "symbol_words linkage visibility = (if linkage = SL_internal then [''internal''] else if linkage = SL_weak then [''weak''] else []) @
     (if visibility = SV_hidden then [''hidden''] else [])"

lemma scan_symbol_prefix [simp]: "scan (print_symbol_prefix linkage visibility @ rest) = put (map word_token (symbol_words linkage visibility)) (scan rest)"
  by (simp add: print_symbol_prefix_def symbol_words_def)

section \<open>Globals\<close>

definition ok_global :: "global_var \<Rightarrow> bool" where
  "ok_global g \<longleftrightarrow> is_name (gv_name g) \<and>
     (if gv_function_signature_name g \<noteq> [] then is_name (gv_function_signature_name g) \<and> CHR ''['' \<notin> set (gv_function_signature_name g) \<and>
        gv_type g = TK_ptr \<and> gv_aggregate_kind g = ARK_scalar \<and> gv_aggregate_name g = []
      else ok_ref (gv_aggregate_kind g) (gv_aggregate_name g) (gv_type g) TK_i8 \<and> (gv_aggregate_kind g \<noteq> ARK_scalar \<longrightarrow> gv_element_count g = 1)) \<and>
     (if gv_is_external g \<or> gv_zero_initialized g then gv_initializer g = [] \<and> gv_bytes g = [] \<and> \<not> (gv_is_external g \<and> gv_zero_initialized g)
      else if gv_bytes g \<noteq> [] \<or> gv_element_count g \<noteq> 1 \<or> is_named_aggregate g then gv_initializer g = []
      else is_number (gv_initializer g))"

definition count_tokens :: "global_var \<Rightarrow> ir_token list" where
  "count_tokens g = (if gv_element_count g \<noteq> 1
     then [mark_token ''['', mk_token IT_integer (to_string_nat (unat (gv_element_count g))), mark_token '']''] else [])"

definition global_words :: "global_var \<Rightarrow> string list" where
  "global_words g = (if gv_is_external g then [''extern''] else []) @ (if gv_is_thread_local g then [''thread_local''] else []) @
     symbol_words (gv_linkage g) (gv_visibility g)"

definition global_type_tokens :: "global_var \<Rightarrow> ir_token list" where
  "global_type_tokens g =
     (if gv_function_signature_name g \<noteq> [] then [word_token ''callback'', symbol_token (gv_function_signature_name g @ count_text g)]
      else aggregate_tokens (gv_aggregate_kind g) (gv_aggregate_name g) (word_token (type_str (gv_type g)) # count_tokens g))"

definition alignment_tokens :: "u32 \<Rightarrow> ir_token list" where
  "alignment_tokens n = (if n \<noteq> 0 then [word_token ''align'', mk_token IT_integer (to_string_nat (unat n))] else [])"

definition global_value_tokens :: "global_var \<Rightarrow> ir_token list" where
  "global_value_tokens g = (if gv_is_external g then [] else
     [mark_token ''='', if gv_zero_initialized g then word_token ''zero''
        else if gv_bytes g \<noteq> [] \<or> gv_element_count g \<noteq> 1 \<or> is_named_aggregate g then mk_token IT_string (print_bytes (gv_bytes g))
        else mk_token IT_integer (gv_initializer g)])"

definition global_tokens :: "global_var \<Rightarrow> ir_token list" where
  "global_tokens g = map word_token (global_words g) @ word_token (if gv_is_constant g then ''constant'' else ''global'') #
     symbol_token (gv_name g) # mark_token '':'' # global_type_tokens g @ alignment_tokens (gv_alignment g) @ global_value_tokens g"

lemma sigil_depth_append: "sigil_depth d n = Some e \<Longrightarrow> sigil_depth d (n @ rest) = sigil_depth e rest"
  by (induction d n rule: sigil_depth.induct) (auto split: if_splits)

lemma sigil_depth_names: "list_all is_name_char n \<Longrightarrow> sigil_depth d (n @ rest) = sigil_depth d rest"
  by (induction n) auto

lemma to_string_name: "list_all is_name_char (to_string_nat n)"
  using to_string_nat_isdigit by (auto simp: list_all_iff is_name_char_def isalnum_def)

lemma count_name: "is_name n \<Longrightarrow> is_name (n @ count_text g)"
  using sigil_depth_append [of 0 n 0] sigil_depth_names [OF to_string_name]
  by (simp add: is_name_def count_text_def)

lemma ends_name_if_alignment: "ends_name ((if b then CHR '' '' # s else []) @ c # rest) \<longleftrightarrow> b \<or> ends_name (c # rest)"
  by auto

lemma scan_global_type:
  assumes "ok_global g" "ends_name rest" "rest \<noteq> []"
  shows "scan ((if gv_function_signature_name g \<noteq> [] then ''callback @'' @ gv_function_signature_name g @ count_text g
      else aggregate_text (gv_aggregate_kind g) (gv_aggregate_name g) (type_str (gv_type g) @ count_text g)) @ rest) =
    put (global_type_tokens g) (scan rest)"
proof (cases "gv_function_signature_name g = []")
  case True
  have "scan (type_str (gv_type g) @ count_text g @ rest) = put (word_token (type_str (gv_type g)) # count_tokens g) (scan rest)"
    using assms(2) by (simp add: count_text_def count_tokens_def)
  then show ?thesis
    using True scan_aggregate [OF _ assms(2), of "gv_aggregate_kind g" "gv_aggregate_name g" "gv_type g" TK_i8] assms(1)
    by (simp add: ok_global_def global_type_tokens_def)
next
  case False
  then have "is_name (gv_function_signature_name g @ count_text g)" using assms(1) count_name by (simp add: ok_global_def)
  then have "scan (CHR ''@'' # (gv_function_signature_name g @ count_text g) @ rest) =
      put [symbol_token (gv_function_signature_name g @ count_text g)] (scan rest)" by (rule scan_sigil(1) [OF _ assms(2)])
  then show ?thesis using False by (simp add: global_type_tokens_def)
qed

lemma scan_alignment: "scan ((if n \<noteq> 0 then '' align '' @ to_string_nat (unat n) else []) @ c # rest) =
    put (alignment_tokens n) (scan (c # rest))" if "ends_number (c # rest)"
  using that by (simp add: alignment_tokens_def del: ends_number_simps)

lemma scan_global: "ok_global g \<Longrightarrow> scan (print_global g @ rest) = put (global_tokens g) (scan rest)"
proof -
  assume g: "ok_global g"
  define after where "after = (if gv_is_external g then []
      else '' = '' @ (if gv_zero_initialized g then ''zero''
        else if gv_bytes g \<noteq> [] \<or> gv_element_count g \<noteq> 1 \<or> is_named_aggregate g then print_bytes (gv_bytes g)
        else gv_initializer g)) @ CHR 0x0A # rest"
  define align where "align = (if gv_alignment g \<noteq> 0 then '' align '' @ to_string_nat (unat (gv_alignment g)) else [])"
  define typed where "typed = (if gv_function_signature_name g \<noteq> [] then ''callback @'' @ gv_function_signature_name g @ count_text g
      else aggregate_text (gv_aggregate_kind g) (gv_aggregate_name g) (type_str (gv_type g) @ count_text g))"
  obtain c cs where after: "after = c # cs" "c = CHR '' '' \<or> c = CHR 0x0A" by (cases "gv_is_external g") (auto simp: after_def)
  have after_scan: "scan after = put (global_value_tokens g) (scan rest)"
    using g by (auto simp: after_def global_value_tokens_def ok_global_def)
  have align_scan: "scan (align @ after) = put (alignment_tokens (gv_alignment g)) (scan after)"
    unfolding after(1) align_def by (rule scan_alignment) (use after(2) in auto)
  have typed_scan: "scan (typed @ align @ after) = put (global_type_tokens g) (scan (align @ after))"
    unfolding typed_def by (rule scan_global_type [OF g]) (use after in \<open>auto simp: ends_name_def align_def\<close>)
  have "print_global g @ rest = ''  '' @ (if gv_is_external g then ''extern '' else []) @ (if gv_is_thread_local g then ''thread_local '' else []) @
     print_symbol_prefix (gv_linkage g) (gv_visibility g) @ (if gv_is_constant g then ''constant'' else ''global'') @ '' @'' @ gv_name g @ '': '' @
     typed @ align @ after"
    by (simp add: print_global_def after_def align_def typed_def newline_def)
  moreover have "is_name (gv_name g)" using g by (simp add: ok_global_def)
  ultimately show ?thesis using typed_scan align_scan after_scan by (simp add: global_tokens_def global_words_def)
qed

lemma global_prefixes_fold:
  "fold (apply_word global_prefixes) (global_words g) global_init =
     global_init\<lparr>gv_is_external := gv_is_external g, gv_is_thread_local := gv_is_thread_local g, gv_linkage := gv_linkage g, gv_visibility := gv_visibility g\<rparr>"
  by (cases "gv_linkage g"; cases "gv_visibility g") (simp_all add: global_words_def symbol_words_def apply_word_def global_prefixes_def global_init_def)

lemma length_takeWhile_bracket: "c \<notin> set s \<Longrightarrow> takeWhile (\<lambda>d. d \<noteq> c) (s @ rest) = s @ takeWhile (\<lambda>d. d \<noteq> c) rest"
  by (induction s) auto

lemma sto_digits_u32: "sto_digits (to_string_nat (unat (n :: u32))) 18446744073709551615 = Inr (unat n)"
proof -
  have "uint n < 4294967296" using uint_lt2p [of n] by simp
  then show ?thesis by (simp add: sto_digits_def Let_def)
qed

lemma parse_callback_tokens:
  assumes "CHR ''['' \<notin> set (gv_function_signature_name g)" "gv_element_count h = 1" "it_text t \<noteq> ''[''"
  shows "parse_callback_global h (symbol_token (gv_function_signature_name g @ count_text g) # t # ts) =
    Inr (h\<lparr>gv_function_signature_name := gv_function_signature_name g, gv_element_count := gv_element_count g, gv_type := TK_ptr\<rparr>, t # ts)"
proof (cases "gv_element_count g = 1")
  case True
  have "length (takeWhile (\<lambda>c. c \<noteq> CHR ''['') (gv_function_signature_name g)) = length (gv_function_signature_name g)"
    using arg_cong [where f = length, OF length_takeWhile_bracket [OF assms(1), of "[]"]] by (simp only: append_Nil2 takeWhile.simps)
  then show ?thesis using True assms
    by (simp add: parse_callback_global_def parse_count_def run_simps count_text_def strip_sigil_def)
next
  case False
  let ?d = "to_string_nat (unat (gv_element_count g))"
  have "takeWhile (\<lambda>c. c \<noteq> CHR ''['') (gv_function_signature_name g @ CHR ''['' # ?d @ '']'') = gv_function_signature_name g"
    using length_takeWhile_bracket [OF assms(1)] by simp
  then show ?thesis using False assms
    by (simp add: parse_callback_global_def run_simps count_text_def strip_sigil_def sto_digits_u32 Let_def)
qed

lemma parse_global_type:
  assumes "ok_global g" "gv_element_count h = 1" "gv_function_signature_name h = []" "gv_aggregate_kind h = ARK_scalar" "gv_aggregate_name h = []"
    "it_text t \<noteq> ''[''"
  shows "first_of
     [(''callback'', parse_callback_global h),
      (''struct'', parse_named_global ARK_structure ''structure name'' h),
      (''array'', parse_named_global ARK_array ''array name'' h)]
     (p_bind parse_type (\<lambda>t. parse_count ''array element count'' (h\<lparr>gv_type := t\<rparr>))) (global_type_tokens g @ t # ts) =
    Inr (h\<lparr>gv_function_signature_name := gv_function_signature_name g, gv_element_count := gv_element_count g, gv_type := gv_type g,
      gv_aggregate_kind := gv_aggregate_kind g, gv_aggregate_name := gv_aggregate_name g\<rparr>, t # ts)"
  using assms
  by (auto simp: ok_global_def global_type_tokens_def ok_ref_def aggregate_tokens_def run_simps parse_callback_tokens parse_named_global_def
      parse_aggregate_def parse_count_def count_tokens_def split: if_splits)

lemma parse_alignment_tokens:
  "it_text t \<noteq> ''align'' \<Longrightarrow> gv_alignment h = 0 \<Longrightarrow>
     first_of [(''align'', p_map (\<lambda>n. h\<lparr>gv_alignment := n\<rparr>) (parse_u32_token ''global alignment''))] (p_return h) (alignment_tokens n @ t # ts) =
       Inr (h\<lparr>gv_alignment := n\<rparr>, t # ts)"
  by (simp add: alignment_tokens_def run_simps)

lemma parse_global_tokens:
  assumes "ok_global g" "it_text t \<notin> {''['', ''align''}"
  shows "parse_global m (global_tokens g @ t # ts) = Inr (g, t # ts)"
proof -
  define words where "words = global_tokens g @ t # ts"
  obtain u us where follow: "alignment_tokens (gv_alignment g) @ global_value_tokens g @ t # ts = u # us" "it_text u \<noteq> ''[''"
    using assms(2) by (cases "gv_alignment g = 0"; cases "gv_is_external g") (auto simp: alignment_tokens_def global_value_tokens_def)
  obtain v vs where after: "global_value_tokens g @ t # ts = v # vs" "it_text v \<noteq> ''align''"
    using assms(2) by (cases "gv_is_external g") (auto simp: global_value_tokens_def)
  have prefix: "with_fuel (\<lambda>n. prefix_loop global_prefixes n global_init) (map word_token (global_words g) @ w # ws) =
      Inr (global_init\<lparr>gv_is_external := gv_is_external g, gv_is_thread_local := gv_is_thread_local g, gv_linkage := gv_linkage g, gv_visibility := gv_visibility g\<rparr>, w # ws)"
    if "it_text w = ''constant'' \<or> it_text w = ''global''" for w ws
    unfolding global_prefixes_fold [symmetric]
    by (rule with_fuel_words) (use that in \<open>auto simp: global_words_def symbol_words_def global_prefixes_def\<close>)
  have typed: "first_of
     [(''callback'', parse_callback_global h),
      (''struct'', parse_named_global ARK_structure ''structure name'' h),
      (''array'', parse_named_global ARK_array ''array name'' h)]
     (p_bind parse_type (\<lambda>t. parse_count ''array element count'' (h\<lparr>gv_type := t\<rparr>)))
       (global_type_tokens g @ alignment_tokens (gv_alignment g) @ global_value_tokens g @ t # ts) =
    Inr (h\<lparr>gv_function_signature_name := gv_function_signature_name g, gv_element_count := gv_element_count g, gv_type := gv_type g,
      gv_aggregate_kind := gv_aggregate_kind g, gv_aggregate_name := gv_aggregate_name g\<rparr>,
      alignment_tokens (gv_alignment g) @ global_value_tokens g @ t # ts)"
    if "gv_element_count h = 1" "gv_function_signature_name h = []" "gv_aggregate_kind h = ARK_scalar" "gv_aggregate_name h = []" for h
    unfolding follow(1) by (rule parse_global_type [OF assms(1) that follow(2)])
  have align: "first_of [(''align'', p_map (\<lambda>n. h\<lparr>gv_alignment := n\<rparr>) (parse_u32_token ''global alignment''))] (p_return h)
      (alignment_tokens (gv_alignment g) @ global_value_tokens g @ t # ts) = Inr (h\<lparr>gv_alignment := gv_alignment g\<rparr>, global_value_tokens g @ t # ts)"
    if "gv_alignment h = 0" for h
    unfolding after(1) by (rule parse_alignment_tokens [OF after(2) that])
  have init: "gv_element_count global_init = 1" "gv_function_signature_name global_init = []" "gv_aggregate_kind global_init = ARK_scalar"
    "gv_aggregate_name global_init = []" "gv_alignment global_init = 0"
    by (simp_all add: global_init_def)
  define h where "h = global_init\<lparr>gv_is_external := gv_is_external g, gv_is_thread_local := gv_is_thread_local g, gv_linkage := gv_linkage g,
      gv_visibility := gv_visibility g, gv_is_constant := gv_is_constant g, gv_name := gv_name g,
      gv_function_signature_name := gv_function_signature_name g, gv_element_count := gv_element_count g, gv_type := gv_type g,
      gv_aggregate_kind := gv_aggregate_kind g, gv_aggregate_name := gv_aggregate_name g, gv_alignment := gv_alignment g\<rparr>"
  have run: "parse_global m (global_tokens g @ t # ts) = (if gv_is_external h then p_return h
      else p_then (expect ''='') (first_of [(''zero'', p_return (h\<lparr>gv_zero_initialized := True\<rparr>))] (parse_global_value m h))) (global_value_tokens g @ t # ts)"
    unfolding h_def
    by (cases "gv_is_constant g")
      (simp_all add: parse_global_def global_tokens_def p_bind_def p_then_def prefix run_tokens typed align init p_return_def Let_def)
  have same: "gv_is_external h = gv_is_external g" by (simp add: h_def)
  let ?text = "gv_bytes g \<noteq> [] \<or> gv_element_count g \<noteq> 1 \<or> is_named_aggregate g"
  consider (outside) "gv_is_external g" | (zero) "\<not> gv_is_external g" "gv_zero_initialized g"
    | (stored) "\<not> gv_is_external g" "\<not> gv_zero_initialized g" ?text | (num) "\<not> gv_is_external g" "\<not> gv_zero_initialized g" "\<not> ?text" by blast
  then show ?thesis
  proof cases
    case outside
    then have "gv_initializer g = []" "gv_bytes g = []" "\<not> gv_zero_initialized g" using assms(1) by (auto simp: ok_global_def)
    then have "h = g" using outside by (cases g) (simp add: h_def global_init_def)
    then show ?thesis using outside by (simp add: run global_value_tokens_def p_return_def)
  next
    case zero
    then have "gv_initializer g = []" "gv_bytes g = []" using assms(1) by (auto simp: ok_global_def)
    then have "h\<lparr>gv_zero_initialized := True\<rparr> = g" using zero by (cases g) (simp add: h_def global_init_def)
    then show ?thesis using zero same by (simp add: run global_value_tokens_def run_simps)
  next
    case stored
    then have "gv_initializer g = []" using assms(1) by (auto simp: ok_global_def)
    then have "h\<lparr>gv_bytes := gv_bytes g\<rparr> = g" using stored by (cases g) (simp add: h_def global_init_def)
    moreover have "decode_string (CHR 0x22 # concat (map print_byte (gv_bytes g)) @ [CHR 0x22]) = p_return (gv_bytes g)"
      using decode_string_bytes [of "gv_bytes g"] by (simp add: print_bytes_def del: decode_string_bytes)
    ultimately show ?thesis using stored same
      by (simp add: run global_value_tokens_def parse_global_value_def run_simps print_bytes_def)
  next
    case num
    then have i: "is_number (gv_initializer g)" "gv_bytes g = []" using assms(1) by (auto simp: ok_global_def)
    then have "h\<lparr>gv_initializer := gv_initializer g\<rparr> = g" using num by (cases g) (simp add: h_def global_init_def)
    moreover have "gv_initializer g \<notin> {''zero'', ''{'', ''[''}" using i(1) by (auto simp: is_number_def starts_number_def isdigit_def)
    ultimately show ?thesis using num same by (simp add: run global_value_tokens_def parse_global_value_def run_simps)
  qed
qed

end
