(* ===== verification/Text_Operations.thy ===== *)
theory Text_Operations
  imports Text_Declared
begin

text \<open>
  Operations and blocks: their tokens, when the text form keeps them, and the two halves of the round trip. What
  follows an operation matters: the parser looks for attributes, an alignment, a signature or arguments there.
\<close>

section \<open>Operands and attributes\<close>

definition ok_operand :: "string \<Rightarrow> bool" where
  "ok_operand x \<longleftrightarrow> is_word x \<or> is_value x \<or> is_symbol_text x \<or> is_number x"

definition operand_token :: "string \<Rightarrow> ir_token" where
  "operand_token x = mk_token (if hd x = CHR ''%'' then IT_value else if hd x = CHR ''@'' then IT_symbol
     else if isalpha (hd x) \<or> hd x = CHR ''_'' then IT_identifier else IT_integer) x"

definition value_token :: "string \<Rightarrow> ir_token" where
  "value_token v = mk_token IT_value v"

lemma first_chars:
  "is_word x \<Longrightarrow> x \<noteq> [] \<and> (isalpha (hd x) \<or> hd x = CHR ''_'') \<and> hd x \<noteq> CHR ''%'' \<and> hd x \<noteq> CHR ''@''"
  "is_value x \<Longrightarrow> x \<noteq> [] \<and> hd x = CHR ''%''" "is_symbol_text x \<Longrightarrow> x \<noteq> [] \<and> hd x = CHR ''@''"
  "is_number x \<Longrightarrow> x \<noteq> [] \<and> (isdigit (hd x) \<or> hd x = CHR ''-'')"
  using isalpha_others by (auto simp: is_word_def is_value_def is_symbol_text_def is_number_def starts_number_def)

lemma digit_others: "isdigit c \<or> c = CHR ''-'' \<Longrightarrow> \<not> isalpha c \<and> c \<notin> {CHR ''%'', CHR ''@'', CHR ''_'', CHR '','', CHR 0x22}"
  by (auto simp: isdigit_def isalpha_def)

lemma scan_operand: "ok_operand x \<Longrightarrow> ends_name rest \<Longrightarrow> ends_number rest \<Longrightarrow> scan (x @ rest) = put [operand_token x] (scan rest)"
  using first_chars [of x] digit_others [of "hd x"] by (auto simp: ok_operand_def operand_token_def)

lemma operand_token_parts: "ok_operand x \<Longrightarrow> is_operand oc (operand_token x) \<and> it_text (operand_token x) = x \<and> x \<noteq> '','' \<and> hd x \<noteq> CHR 0x22"
  using first_chars [of x] digit_others [of "hd x"] isalpha_others [of "hd x"]
  by (auto simp: ok_operand_def operand_token_def is_operand_def) (auto simp: isalpha_def)

definition attribute_tokens :: "ir_attribute list \<Rightarrow> ir_token list" where
  "attribute_tokens as = concat (map (\<lambda>a. [word_token ''attr'', word_token (at_name a), mk_token IT_string (print_bytes (map char_to_byte (at_value a)))]) as)"

definition ok_attribute :: "ir_attribute \<Rightarrow> bool" where
  "ok_attribute a \<longleftrightarrow> is_word (at_name a)"

lemma scan_attributes: "list_all ok_attribute as \<Longrightarrow> scan (attributes_text as @ CHR 0x0A # rest) = put (attribute_tokens as) (scan rest)"
  by (induction as) (simp_all add: attributes_text_def attribute_tokens_def ok_attribute_def)

lemma char_byte_char: "byte_to_char (char_to_byte c) = c"
  by (simp add: byte_to_char_eq)

lemma attribute_loop_tokens:
  "it_text t \<noteq> ''attr'' \<Longrightarrow> length as < n \<Longrightarrow> attribute_loop n (attribute_tokens as @ t # ts) = Inr (as, t # ts)"
proof (induction as arbitrary: n)
  case Nil
  then show ?case by (cases n) (simp_all add: attribute_tokens_def run_simps)
next
  case (Cons a as)
  obtain k where n: "n = Suc k" using Cons.prems(2) by (cases n) auto
  have "attribute_loop k (attribute_tokens as @ t # ts) = Inr (as, t # ts)" using Cons n by simp
  then show ?case by (simp add: n attribute_tokens_def run_simps comp_def char_byte_char)
qed

lemma with_attributes_tokens:
  "it_text t \<noteq> ''attr'' \<Longrightarrow> with_attributes op (attribute_tokens as @ t # ts) = Inr (op\<lparr>op_attributes := as\<rparr>, t # ts)"
proof -
  assume t: "it_text t \<noteq> ''attr''"
  have "length as \<le> length (attribute_tokens as)" by (induction as) (simp_all add: attribute_tokens_def)
  then have "with_fuel attribute_loop (attribute_tokens as @ t # ts) = Inr (as, t # ts)"
    unfolding with_fuel_def by (intro attribute_loop_tokens t) simp
  then show ?thesis by (simp add: with_attributes_def run_simps)
qed

section \<open>Operations\<close>

definition successor_tokens :: "string \<Rightarrow> string list \<Rightarrow> ir_token list" where
  "successor_tokens b as = word_token b # (if as = [] then [] else list_tokens (\<lambda>v. [value_token v]) as)"

lemma scan_args: "list_all is_value as \<Longrightarrow> scan (print_args as @ rest) = put (if as = [] then [] else list_tokens (\<lambda>v. [value_token v]) as) (scan rest)"
  using scan_separated [of as id "\<lambda>v. [value_token v]" "CHR '')'' # rest"]
  by (simp add: print_args_def list_tokens_def list_all_iff value_token_def)

lemma scan_successor:
  "is_word b \<Longrightarrow> list_all is_value as \<Longrightarrow> ends_word rest \<Longrightarrow> scan (b @ print_args as @ rest) = put (successor_tokens b as) (scan rest)"
proof -
  assume a: "is_word b" "list_all is_value as" "ends_word rest"
  then have "ends_word (print_args as @ rest)" by (auto simp: print_args_def)
  then show ?thesis using a scan_args [OF a(2), of rest] by (simp add: successor_tokens_def)
qed

lemma value_not_close: "is_value v \<Longrightarrow> v \<noteq> '')''"
  by (auto simp: is_value_def)

lemma parse_values:
  "list_all is_value as \<Longrightarrow> in_parentheses (expect_kind IT_value what) (list_tokens (\<lambda>v. [value_token v]) as @ out) = Inr (as, out)"
  by (rule parse_in_parentheses) (auto simp: list_all_iff value_token_def run_simps dest: value_not_close)

lemma parse_successor_tokens:
  "list_all is_value as \<Longrightarrow> it_text t \<noteq> ''('' \<Longrightarrow> parse_successor (successor_tokens b as @ t # ts) = Inr ((b, as), t # ts)"
proof (cases "as = []")
  case False
  assume "list_all is_value as"
  then have "parse_args (list_tokens (\<lambda>v. [value_token v]) as @ t # ts) = Inr (as, t # ts)"
    unfolding parse_args_def by (rule parse_values)
  then show ?thesis using False by (simp add: parse_successor_def successor_tokens_def run_simps list_tokens_def)
qed (simp add: parse_successor_def successor_tokens_def run_simps)

text \<open>How an operation must look for each opcode; the other opcodes have a fixed number of operands.\<close>

definition ok_body :: "operation \<Rightarrow> bool" where
  "ok_body op \<longleftrightarrow>
     (let oc = op_opcode op; xs = op_operands op; quiet = op_type op = TK_void \<and> op_alignment op = 0;
          plain = op_successors op = [] \<and> op_successor_arguments op = []
      in if oc = ''return'' then quiet \<and> plain \<and> length xs \<le> 1 \<and> list_all is_value xs
         else if oc = ''unreachable'' then quiet \<and> plain \<and> xs = []
         else if oc = ''jump'' then quiet \<and> xs = [] \<and> length (op_successors op) = 1 \<and> length (op_successor_arguments op) = 1 \<and>
           list_all is_word (op_successors op) \<and> list_all (list_all is_value) (op_successor_arguments op)
         else if oc = ''branch'' then quiet \<and> length xs = 1 \<and> list_all is_value xs \<and> length (op_successors op) = 2 \<and>
           length (op_successor_arguments op) = 2 \<and> list_all is_word (op_successors op) \<and> list_all (list_all is_value) (op_successor_arguments op)
         else if oc = ''call'' then op_alignment op = 0 \<and> plain \<and> xs \<noteq> [] \<and> is_symbol_text (hd xs) \<and> list_all is_value (tl xs)
         else if oc = ''call.indirect'' then op_alignment op = 0 \<and> plain \<and> xs \<noteq> [] \<and> is_value (hd xs) \<and>
           (list_all is_value (tl xs) \<or> tl xs \<noteq> [] \<and> is_symbol_text (hd (tl xs)) \<and> list_all is_value (tl (tl xs)))
         else if oc = ''func.address'' \<or> oc = ''callback.address'' then op_alignment op = 0 \<and> plain \<and>
           (length xs = 1 \<or> length xs = 2) \<and> list_all is_symbol_text xs
         else plain \<and> operand_count oc = Some (length xs) \<and> list_all ok_operand xs)"

definition ok_operation :: "operation \<Rightarrow> bool" where
  "ok_operation op \<longleftrightarrow> (op_result op = [] \<or> is_value (op_result op)) \<and> is_word (op_opcode op) \<and> ok_body op \<and>
     list_all ok_attribute (op_attributes op) \<and> op_source_file op = [] \<and> op_source_line op = 0 \<and> op_source_column op = 0 \<and>
     op_source_end_line op = 0 \<and> op_source_end_column op = 0"

definition type_token :: "ir_type \<Rightarrow> ir_token" where
  "type_token t = word_token (type_str t)"

definition signed_call :: "operation \<Rightarrow> bool" where
  "signed_call op \<longleftrightarrow> op_opcode op = ''call.indirect'' \<and> tl (op_operands op) \<noteq> [] \<and> take 1 (hd (tl (op_operands op))) = ''@''"

definition symbol_text_token :: "string \<Rightarrow> ir_token" where
  "symbol_text_token s = mk_token IT_symbol s"

definition body_tokens :: "operation \<Rightarrow> ir_token list" where
  "body_tokens op =
     (let oc = op_opcode op; xs = op_operands op
      in if oc = ''return'' then map value_token xs
         else if oc = ''unreachable'' then []
         else if oc = ''jump'' then successor_tokens (op_successors op ! 0) (op_successor_arguments op ! 0)
         else if oc = ''branch'' then value_token (xs ! 0) # mark_token '','' # successor_tokens (op_successors op ! 0) (op_successor_arguments op ! 0) @
           mark_token '','' # successor_tokens (op_successors op ! 1) (op_successor_arguments op ! 1)
         else type_token (op_type op) #
           (if oc = ''call'' then symbol_text_token (hd xs) # list_tokens (\<lambda>v. [value_token v]) (tl xs)
            else if oc = ''call.indirect'' then value_token (hd xs) #
              (if signed_call op then [word_token ''as'', symbol_text_token (hd (tl xs))] else []) @
              list_tokens (\<lambda>v. [value_token v]) (if signed_call op then tl (tl xs) else tl xs)
            else if oc = ''func.address'' \<or> oc = ''callback.address'' then symbol_text_token (hd xs) #
              (if tl xs = [] then [] else [word_token ''as'', symbol_text_token (hd (tl xs))])
            else map operand_token xs @ alignment_tokens (op_alignment op)))"

definition operation_tokens :: "operation \<Rightarrow> ir_token list" where
  "operation_tokens op = (if op_result op \<noteq> [] then [value_token (op_result op), mark_token ''=''] else []) @
     word_token (op_opcode op) # body_tokens op @ attribute_tokens (op_attributes op)"

section \<open>Printing and lexing operations\<close>

definition prints_as :: "string option \<Rightarrow> ir_token list \<Rightarrow> bool" where
  "prints_as p ts \<longleftrightarrow> (\<exists>s. p = Some s \<and> (\<forall>c cs. c = CHR '' '' \<or> c = CHR 0x0A \<longrightarrow>
     scan (s @ c # cs) = put ts (scan (c # cs)) \<and> ends_word (s @ c # cs)))"

lemma prints_asI:
  "p = Some s \<Longrightarrow> (\<And>c cs. c = CHR '' '' \<or> c = CHR 0x0A \<Longrightarrow> scan (s @ c # cs) = put ts (scan (c # cs))) \<Longrightarrow> s = [] \<or> \<not> is_name_char (hd s) \<Longrightarrow> prints_as p ts"
  unfolding prints_as_def by (cases s) auto

lemma after_simps:
  "c = CHR '' '' \<or> c = CHR 0x0A \<Longrightarrow> ends_word (c # cs) \<and> ends_name (c # cs) \<and> ends_number (c # cs)"
  by auto

lemma length_1: "length xs = Suc 0 \<longleftrightarrow> (\<exists>x. xs = [x])"
  by (cases xs) auto

lemma length_2: "length xs = 2 \<longleftrightarrow> (\<exists>x y. xs = [x, y])"
  by (cases xs; cases "tl xs") auto

lemma prints_return: "ok_body op \<Longrightarrow> op_opcode op = ''return'' \<Longrightarrow> prints_as (print_operands op) (body_tokens op)"
  by (cases "op_operands op") (auto simp: ok_body_def Let_def print_operands_def body_tokens_def value_token_def intro!: prints_asI)

lemma prints_unreachable: "ok_body op \<Longrightarrow> op_opcode op = ''unreachable'' \<Longrightarrow> prints_as (print_operands op) (body_tokens op)"
  by (auto simp: print_operands_def body_tokens_def intro!: prints_asI)

lemma prints_jump:
  assumes "ok_body op" "op_opcode op = ''jump''"
  shows "prints_as (print_operands op) (body_tokens op)"
proof -
  obtain b as where b: "op_successors op = [b]" "op_successor_arguments op = [as]" "is_word b" "list_all is_value as"
    using assms by (auto simp: ok_body_def Let_def length_1)
  show ?thesis
    by (rule prints_asI [where s = "'' '' @ b @ print_args as"])
      (use assms(2) b scan_successor after_simps in \<open>auto simp: print_operands_def print_successor_def body_tokens_def\<close>)
qed

lemma prints_branch:
  assumes "ok_body op" "op_opcode op = ''branch''"
  shows "prints_as (print_operands op) (body_tokens op)"
proof -
  obtain v b as d bs where b: "op_successors op = [b, d]" "op_successor_arguments op = [as, bs]" "is_word b" "list_all is_value as"
      "is_word d" "list_all is_value bs" "op_operands op = [v]" "is_value v"
    using assms by (auto simp: ok_body_def Let_def length_1 length_2)
  show ?thesis
    by (rule prints_asI [where s = "'' '' @ v @ '', '' @ b @ print_args as @ '', '' @ d @ print_args bs"])
      (use assms(2) b scan_successor after_simps in \<open>auto simp: print_operands_def print_successor_def body_tokens_def value_token_def\<close>)
qed

lemma scan_values: "list_all is_value as \<Longrightarrow> scan (CHR ''('' # separated id as @ CHR '')'' # rest) = put (list_tokens (\<lambda>v. [value_token v]) as) (scan rest)"
  using scan_separated [of as id "\<lambda>v. [value_token v]" "CHR '')'' # rest"]
  by (simp add: list_tokens_def list_all_iff value_token_def)

lemma value_no_symbol: "is_value v \<Longrightarrow> take 1 v \<noteq> ''@''"
  by (cases v) (auto simp: is_value_def)

lemma symbol_text_starts: "is_symbol_text v \<Longrightarrow> take 1 v = ''@''"
  by (cases v) (auto simp: is_symbol_text_def)

lemma prints_call:
  assumes "ok_body op" "op_opcode op = ''call''"
  shows "prints_as (print_operands op) (body_tokens op)"
proof -
  obtain f as where f: "op_operands op = f # as" "is_symbol_text f" "list_all is_value as"
    using assms by (cases "op_operands op") (auto simp: ok_body_def Let_def)
  show ?thesis
    by (rule prints_asI [where s = "'' '' @ type_str (op_type op) @ '' '' @ f @ ''('' @ separated id as @ '')''"])
      (use assms(2) f scan_values in \<open>auto simp: print_operands_def print_call_def body_tokens_def type_token_def symbol_text_token_def signed_call_def\<close>)
qed

lemma prints_indirect:
  assumes "ok_body op" "op_opcode op = ''call.indirect''"
  shows "prints_as (print_operands op) (body_tokens op)"
proof -
  obtain v xs where v: "op_operands op = v # xs" "is_value v" "list_all is_value xs \<or> xs \<noteq> [] \<and> is_symbol_text (hd xs) \<and> list_all is_value (tl xs)"
    using assms by (cases "op_operands op") (auto simp: ok_body_def Let_def)
  show ?thesis
  proof (cases "signed_call op")
    case True
    then obtain s as where s: "xs = s # as" "take 1 s = ''@''" "is_symbol_text s" "list_all is_value as"
      using v value_no_symbol by (cases xs) (auto simp: signed_call_def)
    show ?thesis
      by (rule prints_asI [where s = "'' '' @ type_str (op_type op) @ '' '' @ v @ '' as '' @ s @ ''('' @ separated id as @ '')''"])
        (use assms(2) v(1,2) s True scan_values in \<open>auto simp: print_operands_def print_call_def body_tokens_def type_token_def symbol_text_token_def value_token_def\<close>)
  next
    case False
    then have xs: "list_all is_value xs" "\<not> (case xs of [] \<Rightarrow> False | s # _ \<Rightarrow> take 1 s = ''@'')"
      using v assms(2) symbol_text_starts by (auto simp: signed_call_def split: list.splits)
    show ?thesis
      by (rule prints_asI [where s = "'' '' @ type_str (op_type op) @ '' '' @ v @ ''('' @ separated id xs @ '')''"])
        (use assms(2) v(1,2) xs False scan_values in \<open>auto simp: print_operands_def print_call_def body_tokens_def type_token_def value_token_def split: list.splits\<close>)
  qed
qed

lemma prints_function_address:
  assumes "ok_body op" "op_opcode op = ''func.address'' \<or> op_opcode op = ''callback.address''"
  shows "prints_as (print_operands op) (body_tokens op)"
proof -
  have "length (op_operands op) = 1 \<or> length (op_operands op) = 2" "list_all is_symbol_text (op_operands op)"
    using assms by (auto simp: ok_body_def Let_def)
  then consider (plain) f where "op_operands op = [f]" "is_symbol_text f"
    | (signature) f s where "op_operands op = [f, s]" "is_symbol_text f" "is_symbol_text s" by (auto simp: length_1 length_2)
  then show ?thesis
  proof cases
    case plain
    show ?thesis
      by (rule prints_asI [where s = "'' '' @ type_str (op_type op) @ '' '' @ f"])
        (use assms(2) plain in \<open>auto simp: print_operands_def body_tokens_def type_token_def symbol_text_token_def\<close>)
  next
    case signature
    show ?thesis
      by (rule prints_asI [where s = "'' '' @ type_str (op_type op) @ '' '' @ f @ '' as '' @ s"])
        (use assms(2) signature in \<open>auto simp: print_operands_def body_tokens_def type_token_def symbol_text_token_def\<close>)
  qed
qed

lemma scan_operands:
  "list_all ok_operand xs \<Longrightarrow> c = CHR '' '' \<or> c = CHR 0x0A \<Longrightarrow>
     scan (concat (map (\<lambda>x. '' '' @ x) xs) @ c # cs) = put (map operand_token xs) (scan (c # cs))"
proof (induction xs)
  case (Cons x xs)
  then have "ends_name (concat (map (\<lambda>x. '' '' @ x) xs) @ c # cs) \<and> ends_number (concat (map (\<lambda>x. '' '' @ x) xs) @ c # cs)"
    by (cases xs) auto
  then show ?case using Cons scan_operand [of x "concat (map (\<lambda>x. '' '' @ x) xs) @ c # cs"] by simp
qed simp

lemma append_blank: "(@) '' '' = (#) CHR '' ''"
  by (simp add: fun_eq_iff)

definition plain_opcode :: "string \<Rightarrow> bool" where
  "plain_opcode oc \<longleftrightarrow> oc \<notin> {''return'', ''unreachable'', ''jump'', ''branch'', ''call'', ''call.indirect'', ''func.address'', ''callback.address''}"

lemma prints_plain:
  assumes "ok_body op" "plain_opcode (op_opcode op)"
  shows "prints_as (print_operands op) (body_tokens op)"
proof (rule prints_asI)
  have ok: "list_all ok_operand (op_operands op)" using assms by (simp add: ok_body_def Let_def plain_opcode_def)
  let ?align = "if op_alignment op \<noteq> 0 then '' align '' @ to_string_nat (unat (op_alignment op)) else []"
  show "print_operands op = Some ('' '' @ type_str (op_type op) @ concat (map (\<lambda>x. '' '' @ x) (op_operands op)) @ ?align)"
    using assms(2) by (simp add: print_operands_def plain_opcode_def append_blank)
  fix c cs assume c: "c = CHR '' '' \<or> c = CHR 0x0A"
  obtain d ds where d: "?align @ c # cs = d # ds" "d = CHR '' '' \<or> d = CHR 0x0A" using c by (cases "op_alignment op = 0") auto
  have "scan (concat (map (\<lambda>x. '' '' @ x) (op_operands op)) @ ?align @ c # cs) = put (map operand_token (op_operands op)) (scan (?align @ c # cs))"
    unfolding d(1) by (rule scan_operands [OF ok d(2)])
  moreover have "scan (?align @ c # cs) = put (alignment_tokens (op_alignment op)) (scan (c # cs))"
    by (rule scan_alignment) (use c in auto)
  moreover have "ends_word (concat (map (\<lambda>x. '' '' @ x) (op_operands op)) @ ?align @ c # cs)"
    unfolding d(1) using d(2) by (cases "op_operands op") auto
  ultimately show "scan (('' '' @ type_str (op_type op) @ concat (map (\<lambda>x. '' '' @ x) (op_operands op)) @ ?align) @ c # cs) = put (body_tokens op) (scan (c # cs))"
    using assms(2) by (simp add: body_tokens_def type_token_def plain_opcode_def Let_def split del: if_split)
qed simp

lemma prints_body: "ok_body op \<Longrightarrow> prints_as (print_operands op) (body_tokens op)"
  using prints_return prints_unreachable prints_jump prints_branch prints_call prints_indirect prints_function_address prints_plain
  unfolding plain_opcode_def by blast

lemma scan_operation:
  assumes "ok_operation op"
  shows "\<exists>s. print_operation op = Some s \<and> (\<forall>rest. scan (s @ rest) = put (operation_tokens op) (scan rest))"
proof -
  have ok: "ok_body op" "is_word (op_opcode op)" "list_all ok_attribute (op_attributes op)" using assms by (simp_all add: ok_operation_def)
  obtain s where s: "print_operands op = Some s" "\<And>c cs. c = CHR '' '' \<or> c = CHR 0x0A \<Longrightarrow>
     scan (s @ c # cs) = put (body_tokens op) (scan (c # cs)) \<and> ends_word (s @ c # cs)"
    using prints_body [OF ok(1)] unfolding prints_as_def by blast
  have tail: "\<exists>c cs. attributes_text (op_attributes op) @ CHR 0x0A # rest = c # cs \<and> (c = CHR '' '' \<or> c = CHR 0x0A)" for rest
    by (cases "op_attributes op") (auto simp: attributes_text_def)
  have body: "scan (s @ attributes_text (op_attributes op) @ CHR 0x0A # rest) = put (body_tokens op @ attribute_tokens (op_attributes op)) (scan rest)"
    "ends_word (s @ attributes_text (op_attributes op) @ CHR 0x0A # rest)" for rest
    using s(2) tail [of rest] scan_attributes [OF ok(3), of rest] by (metis put_put(1))+
  have "scan (''    '' @ (if op_result op \<noteq> [] then op_result op @ '' = '' else []) @ op_opcode op @ s @ attributes_text (op_attributes op) @ newline @ rest) =
      put (operation_tokens op) (scan rest)" for rest
    using assms body ok(2) by (auto simp: operation_tokens_def newline_def ok_operation_def value_token_def)
  then show ?thesis by (simp add: print_operation_def s(1))
qed

section \<open>Parsing operations\<close>

lemma run_result_name:
  "op_result op = [] \<or> is_value (op_result op) \<Longrightarrow>
     parse_result_name ((if op_result op \<noteq> [] then [value_token (op_result op), mark_token ''=''] else []) @ word_token oc # ts) =
       Inr (op_result op, word_token oc # ts)"
  by (auto simp: parse_result_name_def run_simps value_token_def skip_tokens_def)

lemma run_type_token [run_simps]: "parse_type (type_token t # ts) = Inr (t, ts)"
  by (simp add: type_token_def run_simps)

lemma run_kind_tokens [run_simps]:
  "expect_kind k w (value_token v # ts) = (if k = IT_value then Inr (v, ts) else expect_kind k w (value_token v # ts))"
  "expect_kind k w (symbol_text_token v # ts) = (if k = IT_symbol then Inr (v, ts) else expect_kind k w (symbol_text_token v # ts))"
  by (simp_all add: value_token_def symbol_text_token_def run_simps)

lemma head_token_parts [simp]:
  "it_kind (value_token v) = IT_value" "it_text (value_token v) = v" "it_kind (symbol_text_token v) = IT_symbol"
  "it_text (symbol_text_token v) = v" "it_text (type_token t) = type_str t" "it_kind (type_token t) = IT_identifier"
  by (simp_all add: value_token_def symbol_text_token_def type_token_def)

lemma parse_operand_tokens:
  "list_all ok_operand xs \<Longrightarrow> parse_operands oc (length xs) (map operand_token xs @ ts) = Inr (xs, ts)"
proof (induction xs)
  case (Cons x xs)
  then show ?case
    using operand_token_parts [of x oc] by (cases xs) (auto simp: run_simps operand_token_parts)
qed (simp add: run_simps)

lemma parse_alignment_operation:
  "it_text t \<noteq> ''align'' \<Longrightarrow> op_alignment op = 0 \<Longrightarrow> parse_alignment op (alignment_tokens n @ t # ts) = Inr (op\<lparr>op_alignment := n\<rparr>, t # ts)"
proof (cases "n = 0")
  case False
  have "hd (to_string_nat (unat n)) \<noteq> CHR ''-''" by (rule hd_to_string_nat_not_minus)
  moreover have "uint n < 4294967296" using uint_lt2p [of n] by simp
  moreover have "(of_nat (unat n) :: u64) = ucast n" by (simp add: unsigned_of_nat)
  moreover have "\<not> (0xFFFFFFFF < (ucast n :: u64))"
  proof -
    have "uint (ucast n :: u64) < 4294967296" using uint_lt2p [of n] by (simp add: unsigned_ucast_eq take_bit_int_eq_self)
    then show ?thesis by (simp add: word_less_def)
  qed
  moreover have "(ucast (ucast n :: u64) :: u32) = n" by (rule bit_word_eqI) (simp add: bit_simps)
  ultimately show ?thesis using False
    by (simp add: parse_alignment_def alignment_tokens_def run_simps stoull_def sto_digits_def Let_def)
qed (simp add: parse_alignment_def alignment_tokens_def run_simps)

text \<open>What may come after an operation.\<close>

definition follows :: "operation \<Rightarrow> ir_token \<Rightarrow> bool" where
  "follows op t \<longleftrightarrow> it_text t \<notin> {''attr'', ''align'', ''as'', ''(''} \<and> \<not> (op_opcode op = ''return'' \<and> op_operands op = [] \<and> it_kind t = IT_value)"

lemma attribute_head:
  "follows op t \<Longrightarrow> \<exists>u us. attribute_tokens as @ t # ts = u # us \<and> it_text u \<notin> {''align'', ''as'', ''(''} \<and>
     (op_opcode op = ''return'' \<and> op_operands op = [] \<longrightarrow> it_kind u \<noteq> IT_value)"
  by (cases as) (auto simp: attribute_tokens_def follows_def)

lemma operation_record:
  "op\<lparr>op_source_file := [], op_source_line := 0, op_source_column := 0, op_source_end_line := 0, op_source_end_column := 0\<rparr> = op \<Longrightarrow>
   operation_init\<lparr>op_result := op_result op, op_opcode := op_opcode op, op_type := op_type op, op_operands := op_operands op,
     op_successors := op_successors op, op_successor_arguments := op_successor_arguments op, op_alignment := op_alignment op,
     op_attributes := op_attributes op\<rparr> = op"
  by (cases op) (simp add: operation_init_def)

lemma operation_parts:
  assumes "ok_operation op" "follows op t"
  shows "ok_body op"
    and "with_attributes h (attribute_tokens (op_attributes op) @ t # ts) = Inr (h\<lparr>op_attributes := op_attributes op\<rparr>, t # ts)"
    and "operation_init\<lparr>op_result := op_result op, op_opcode := op_opcode op, op_type := op_type op, op_operands := op_operands op,
     op_successors := op_successors op, op_successor_arguments := op_successor_arguments op, op_alignment := op_alignment op,
     op_attributes := op_attributes op\<rparr> = op"
  using assms(1) with_attributes_tokens [of t h] assms(2) operation_record [of op]
  by (cases op; simp add: ok_operation_def follows_def operation_init_def)+

definition started :: "operation \<Rightarrow> operation" where
  "started op = operation_init\<lparr>op_result := op_result op, op_opcode := op_opcode op\<rparr>"

lemma started_parts: "op_type (started op) = TK_void" "op_operands (started op) = []" "op_successors (started op) = []"
  "op_successor_arguments (started op) = []" "op_alignment (started op) = 0" "op_opcode (started op) = op_opcode op"
  by (simp_all add: started_def operation_init_def)

lemma parse_start:
  "ok_operation op \<Longrightarrow> parse_operation (operation_tokens op @ ts) =
    (if op_opcode op = ''return'' then parse_return (started op) else if op_opcode op = ''unreachable'' then with_attributes (started op)
     else if op_opcode op = ''jump'' then parse_jump (started op) else if op_opcode op = ''branch'' then parse_branch (started op)
     else p_bind parse_type (\<lambda>t. 
            if op_opcode op = ''call'' \<or> op_opcode op = ''call.indirect'' then parse_call ((started op)\<lparr>op_type := t\<rparr>)
            else if op_opcode op = ''func.address'' \<or> op_opcode op = ''callback.address'' then parse_function_address ((started op)\<lparr>op_type := t\<rparr>)
            else parse_plain ((started op)\<lparr>op_type := t\<rparr>))) (body_tokens op @ attribute_tokens (op_attributes op) @ ts)"
  using run_result_name [of op "op_opcode op" "body_tokens op @ attribute_tokens (op_attributes op) @ ts"]
  unfolding parse_operation_def operation_tokens_def started_def Let_def
  by (simp add: ok_operation_def p_bind_def [of parse_result_name] p_bind_def [of "expect_kind _ _"] run_tokens split del: if_split)

lemma return_tokens:
  assumes "ok_operation op" "follows op t" "op_opcode op = ''return''"
  shows "parse_operation (operation_tokens op @ t # ts) = Inr (op, t # ts)"
proof -
  note parts = operation_parts [OF assms(1,2)]
  let ?after = "attribute_tokens (op_attributes op) @ t # ts"
  have shape: "op_type op = TK_void" "op_alignment op = 0" "op_successors op = []" "op_successor_arguments op = []" "length (op_operands op) \<le> 1"
    using parts(1) assms(3) by (auto simp: ok_body_def Let_def)
  show ?thesis
  proof (cases "op_operands op")
    case Nil
    obtain u us where u: "?after = u # us" "it_kind u \<noteq> IT_value" using attribute_head [OF assms(2)] assms(3) Nil by metis
    have "parse_return (started op) ?after = with_attributes (started op) ?after" unfolding u(1) using u(2) by (simp add: parse_return_def run_simps)
    then show ?thesis using assms Nil shape parts(3) by (simp add: parse_start body_tokens_def parts(2) started_def operation_init_def)
  next
    case (Cons v vs)
    then have "parse_return (started op) (value_token v # ?after) = with_attributes ((started op)\<lparr>op_operands := [v]\<rparr>) ?after"
      by (simp add: parse_return_def run_simps)
    then show ?thesis using assms Cons shape parts(3)
      by (simp add: parse_start body_tokens_def parts(2) started_def operation_init_def)
  qed
qed

lemma unreachable_tokens:
  assumes "ok_operation op" "follows op t" "op_opcode op = ''unreachable''"
  shows "parse_operation (operation_tokens op @ t # ts) = Inr (op, t # ts)"
  using assms operation_parts [OF assms(1,2)] by (simp add: parse_start body_tokens_def started_def ok_body_def Let_def operation_init_def)

lemma jump_tokens:
  assumes "ok_operation op" "follows op t" "op_opcode op = ''jump''"
  shows "parse_operation (operation_tokens op @ t # ts) = Inr (op, t # ts)"
proof -
  note parts = operation_parts [OF assms(1,2)]
  let ?after = "attribute_tokens (op_attributes op) @ t # ts"
  obtain b as where b: "op_successors op = [b]" "op_successor_arguments op = [as]" "list_all is_value as"
      "op_type op = TK_void" "op_alignment op = 0" "op_operands op = []"
    using parts(1) assms(3) by (auto simp: ok_body_def length_1 Let_def)
  obtain u us where u: "?after = u # us" "it_text u \<noteq> ''(''" using attribute_head [OF assms(2)] by fastforce
  have "parse_successor (successor_tokens b as @ ?after) = Inr ((b, as), ?after)"
    unfolding u(1) by (rule parse_successor_tokens [OF b(3) u(2)])
  then show ?thesis using assms b parts(3)
    by (simp add: parse_start body_tokens_def parse_jump_def p_bind_def parts(2) started_def operation_init_def)
qed

lemma branch_tokens:
  assumes "ok_operation op" "follows op t" "op_opcode op = ''branch''"
  shows "parse_operation (operation_tokens op @ t # ts) = Inr (op, t # ts)"
proof -
  note parts = operation_parts [OF assms(1,2)]
  let ?after = "attribute_tokens (op_attributes op) @ t # ts"
  obtain v b as d bs where b: "op_successors op = [b, d]" "op_successor_arguments op = [as, bs]" "list_all is_value as"
      "list_all is_value bs" "op_operands op = [v]" "op_type op = TK_void" "op_alignment op = 0"
    using parts(1) assms(3) by (auto simp: ok_body_def Let_def length_1 length_2)
  obtain u us where u: "?after = u # us" "it_text u \<noteq> ''(''" using attribute_head [OF assms(2)] by fastforce
  have "parse_successor (successor_tokens d bs @ ?after) = Inr ((d, bs), ?after)"
    unfolding u(1) by (rule parse_successor_tokens [OF b(4) u(2)])
  moreover have "parse_successor (successor_tokens b as @ mark_token '','' # out) = Inr ((b, as), mark_token '','' # out)" for out
    by (rule parse_successor_tokens [OF b(3)]) simp
  ultimately show ?thesis using assms b parts(3)
    by (simp add: parse_start body_tokens_def parse_branch_def p_bind_def p_then_def run_tokens run_kind_tokens parts(2) started_def operation_init_def)
qed

lemma call_tokens:
  assumes "ok_operation op" "follows op t" "op_opcode op = ''call''"
  shows "parse_operation (operation_tokens op @ t # ts) = Inr (op, t # ts)"
proof -
  note parts = operation_parts [OF assms(1,2)]
  obtain f as where f: "op_operands op = f # as" "list_all is_value as" "op_successors op = []" "op_successor_arguments op = []" "op_alignment op = 0"
    using parts(1) assms(3) by (cases "op_operands op") (auto simp: ok_body_def Let_def)
  then show ?thesis using assms parts(3)
    by (simp add: parse_start body_tokens_def parse_call_def parse_callee_def run_simps parse_values parts(2) started_def operation_init_def)
qed

lemma indirect_tokens:
  assumes "ok_operation op" "follows op t" "op_opcode op = ''call.indirect''"
  shows "parse_operation (operation_tokens op @ t # ts) = Inr (op, t # ts)"
proof -
  note parts = operation_parts [OF assms(1,2)]
  obtain v xs where v: "op_operands op = v # xs" "list_all is_value xs \<or> xs \<noteq> [] \<and> is_symbol_text (hd xs) \<and> list_all is_value (tl xs)"
    "op_successors op = []" "op_successor_arguments op = []" "op_alignment op = 0"
    using parts(1) assms(3) by (cases "op_operands op") (auto simp: ok_body_def Let_def)
  show ?thesis
  proof (cases "signed_call op")
    case True
    then obtain s as where s: "xs = s # as" "list_all is_value as"
      using v(1,2) value_no_symbol by (cases xs) (auto simp: signed_call_def)
    then show ?thesis using assms parts(3) v True
      by (simp add: parse_start body_tokens_def parse_call_def parse_callee_def run_simps parse_values parts(2) started_def operation_init_def)
  next
    case False
    then have xs: "list_all is_value xs" using v assms(3) symbol_text_starts by (auto simp: signed_call_def)
    have "parse_callee ''call.indirect'' (value_token v # list_tokens g xs @ out) = Inr ([v], list_tokens g xs @ out)" for g :: "string \<Rightarrow> ir_token list" and out
      by (simp add: parse_callee_def list_tokens_def run_simps)
    then show ?thesis using assms parts(3) v False xs
      by (simp add: parse_start body_tokens_def parse_call_def p_bind_def run_type_token parse_values parts(2) started_def operation_init_def)
  qed
qed

lemma function_address_tokens:
  assumes "ok_operation op" "follows op t" "op_opcode op = ''func.address'' \<or> op_opcode op = ''callback.address''"
  shows "parse_operation (operation_tokens op @ t # ts) = Inr (op, t # ts)"
proof -
  note parts = operation_parts [OF assms(1,2)]
  let ?after = "attribute_tokens (op_attributes op) @ t # ts"
  obtain u us where u: "?after = u # us" "it_text u \<noteq> ''as''" using attribute_head [OF assms(2)] by fastforce
  have shape: "length (op_operands op) = 1 \<or> length (op_operands op) = 2" "op_successors op = []" "op_successor_arguments op = []" "op_alignment op = 0"
    using parts(1) assms(3) by (auto simp: ok_body_def Let_def)
  have alone: "first_of [(''as'', q)] (p_return [f]) ?after = Inr ([f], ?after)" for q and f :: string
    unfolding u(1) using u(2) by (simp add: run_simps)
  have run: "parse_operation (operation_tokens op @ t # ts) = parse_function_address ((started op)\<lparr>op_type := op_type op\<rparr>)
      (symbol_text_token (hd (op_operands op)) # (if tl (op_operands op) = [] then [] else [word_token ''as'', symbol_text_token (hd (tl (op_operands op)))]) @ ?after)"
    using assms(3)
  proof
    assume "op_opcode op = ''func.address''"
    then show ?thesis using assms(1) by (simp add: parse_start body_tokens_def p_bind_def run_type_token Let_def)
  next
    assume "op_opcode op = ''callback.address''"
    then show ?thesis using assms(1) by (simp add: parse_start body_tokens_def p_bind_def run_type_token Let_def)
  qed
  consider (plain) f where "op_operands op = [f]" | (signature) f s where "op_operands op = [f, s]"
    using shape(1) by (auto simp: length_1 length_2)
  then show ?thesis
  proof cases
    case plain
    then show ?thesis using parts(3) shape
      by (simp add: run parse_function_address_def p_bind_def run_kind_tokens alone parts(2)) (simp add: started_def operation_init_def)
  next
    case signature
    then show ?thesis using parts(3) shape
      by (simp add: run parse_function_address_def run_simps parts(2)) (simp add: started_def operation_init_def)
  qed
qed

lemma plain_tokens:
  assumes "ok_operation op" "follows op t" "plain_opcode (op_opcode op)"
  shows "parse_operation (operation_tokens op @ t # ts) = Inr (op, t # ts)"
proof -
  note parts = operation_parts [OF assms(1,2)]
  let ?after = "attribute_tokens (op_attributes op) @ t # ts"
  obtain u us where u: "?after = u # us" "it_text u \<noteq> ''align''" using attribute_head [OF assms(2)] by fastforce
  have shape: "operand_count (op_opcode op) = Some (length (op_operands op))" "list_all ok_operand (op_operands op)"
    "op_successors op = []" "op_successor_arguments op = []"
    using parts(1) assms(3) by (auto simp: ok_body_def Let_def plain_opcode_def)
  have "parse_alignment h (alignment_tokens (op_alignment op) @ ?after) = Inr (h\<lparr>op_alignment := op_alignment op\<rparr>, ?after)" if "op_alignment h = 0" for h
    unfolding u(1) by (rule parse_alignment_operation [OF u(2) that])
  then show ?thesis using assms parts(3) shape
    by (simp add: parse_start body_tokens_def parse_plain_def plain_opcode_def p_bind_def run_type_token parse_operand_tokens parts(2) started_parts)
      (simp add: started_def operation_init_def)
qed

lemma parse_operation_tokens:
  "ok_operation op \<Longrightarrow> follows op t \<Longrightarrow> parse_operation (operation_tokens op @ t # ts) = Inr (op, t # ts)"
  by (cases "plain_opcode (op_opcode op)")
    (auto simp: plain_opcode_def intro: return_tokens unreachable_tokens jump_tokens branch_tokens call_tokens indirect_tokens
       function_address_tokens plain_tokens)

end
