(* ===== verification/Text_Roundtrip.thy ===== *)
theory Text_Roundtrip
  imports Text_Operations
begin

text \<open>
  Blocks, functions and modules, and the round trip of the textual form: what \<open>print_module\<close> writes for a printable
  module, \<open>parse_module\<close> reads back as the same module, without a diagnostic.
\<close>

section \<open>Sequences\<close>

text \<open>A loop over items that are written one after the other.\<close>

lemma until_items:
  assumes "\<And>ys x zs m. xs = ys @ x # zs \<Longrightarrow> stop (f x @ concat (map f zs) @ rest) = Inr (False, f x @ concat (map f zs) @ rest) \<and>
      step m (f x @ concat (map f zs) @ rest) = Inr (g x m, concat (map f zs) @ rest)"
  shows "length xs \<le> n \<Longrightarrow> until_loop stop step n m (concat (map f xs) @ rest) = until_loop stop step (n - length xs) (fold g xs m) rest"
  using assms
proof (induction xs arbitrary: n m)
  case (Cons x xs)
  obtain k where n: "n = Suc k" using Cons.prems(1) by (cases n) auto
  have first: "stop (f x @ concat (map f xs) @ rest) = Inr (False, f x @ concat (map f xs) @ rest)"
    "step m (f x @ concat (map f xs) @ rest) = Inr (g x m, concat (map f xs) @ rest)"
    using Cons.prems(2) [of "[]" x xs m] by auto
  have "until_loop stop step k (g x m) (concat (map f xs) @ rest) = until_loop stop step (k - length xs) (fold g xs (g x m)) rest"
  proof (rule Cons.IH)
    show "length xs \<le> k" using Cons.prems(1) n by simp
    fix ys y zs m assume "xs = ys @ y # zs"
    then show "stop (f y @ concat (map f zs) @ rest) = Inr (False, f y @ concat (map f zs) @ rest) \<and>
      step m (f y @ concat (map f zs) @ rest) = Inr (g y m, concat (map f zs) @ rest)"
      using Cons.prems(2) [of "x # ys" y zs m] by simp
  qed
  then show ?case using first by (simp add: n p_bind_def)
qed simp

lemma fold_snoc: "fold (\<lambda>x xs. xs @ [x]) xs acc = acc @ xs"
  by (induction xs arbitrary: acc) simp_all

lemma length_concat_each: "(\<And>x. x \<in> set xs \<Longrightarrow> f x \<noteq> []) \<Longrightarrow> length xs \<le> length (concat (map f xs))"
proof (induction xs)
  case (Cons x xs)
  then show ?case by (cases "f x") fastforce+
qed simp

lemma prints_each:
  assumes "\<And>x. x \<in> set xs \<Longrightarrow> \<exists>s. p x = Some s \<and> (\<forall>rest. scan (s @ rest) = put (f x) (scan rest))"
  shows "\<exists>s. all_texts (map p xs) = Some s \<and> (\<forall>rest. scan (s @ rest) = put (concat (map f xs)) (scan rest))"
  using assms
proof (induction xs)
  case (Cons x xs)
  obtain s where s: "p x = Some s" "\<And>rest. scan (s @ rest) = put (f x) (scan rest)" using Cons.prems [of x] by auto
  obtain u where u: "all_texts (map p xs) = Some u" "\<And>rest. scan (u @ rest) = put (concat (map f xs)) (scan rest)"
    using Cons.IH Cons.prems by auto
  then obtain ts where "those (map p xs) = Some ts" "u = concat ts" by (auto simp: all_texts_def)
  then have "all_texts (map p (x # xs)) = Some (s @ u)" using s(1) by (simp add: all_texts_def)
  then show ?case using s(2) u(2) by auto
qed (simp add: all_texts_def)

section \<open>Blocks\<close>

definition ok_block :: "ir_block \<Rightarrow> bool" where
  "ok_block b \<longleftrightarrow> is_word (bl_name b) \<and> bl_name b \<notin> {''attr'', ''align'', ''as''} \<and> list_all ok_param (bl_parameters b) \<and>
     list_all ok_operation (bl_operations b) \<and>
     list_all (\<lambda>op. \<not> (op_opcode op = ''return'' \<and> op_operands op = [])) (butlast (bl_operations b))"

definition block_tokens :: "ir_block \<Rightarrow> ir_token list" where
  "block_tokens b = word_token (bl_name b) # (if bl_parameters b \<noteq> [] then list_tokens param_tokens (bl_parameters b) else []) @
     mark_token '':'' # concat (map operation_tokens (bl_operations b))"

lemma scan_block:
  assumes "ok_block b"
  shows "\<exists>s. print_block b = Some s \<and> (\<forall>rest. scan (s @ rest) = put (block_tokens b) (scan rest))"
proof -
  obtain s where s: "all_texts (map print_operation (bl_operations b)) = Some s"
      "\<And>rest. scan (s @ rest) = put (concat (map operation_tokens (bl_operations b))) (scan rest)"
    using prints_each [of "bl_operations b" print_operation operation_tokens] scan_operation assms by (auto simp: ok_block_def list_all_iff)
  have "ends_word ((if bl_parameters b \<noteq> [] then print_params (bl_parameters b) else []) @ CHR '':'' # rest)" for rest
    by (simp add: print_params_def)
  then have "scan (''  '' @ bl_name b @ (if bl_parameters b \<noteq> [] then print_params (bl_parameters b) else []) @ '':'' @ newline @ s @ rest) =
      put (block_tokens b) (scan rest)" for rest
    using assms s(2) scan_params [of "bl_parameters b"] by (auto simp: ok_block_def block_tokens_def newline_def)
  then show ?thesis by (simp add: print_block_def s(1))
qed

definition stops_block :: "ir_token list \<Rightarrow> bool" where
  "stops_block ts \<longleftrightarrow> at_block_end ts = Inr (True, ts) \<and> (\<exists>t us. ts = t # us \<and> it_text t \<notin> {''attr'', ''align'', ''as'', ''('', '':''} \<and> it_kind t \<noteq> IT_value)"

lemma special_words:
  "ok_body op \<Longrightarrow> op_opcode op \<notin> {''attr'', ''align'', ''as''}"
  by (auto simp: ok_body_def operand_count_def Let_def)

lemma operation_head:
  assumes "ok_operation op"
  shows "\<exists>t us. operation_tokens op = t # us \<and> it_text t \<notin> {''attr'', ''align'', ''as'', ''('', '':'', ''}''} \<and>
    (it_kind t = IT_value \<or> it_kind t = IT_identifier \<and> t = word_token (op_opcode op) \<and> us = body_tokens op @ attribute_tokens (op_attributes op))"
proof (cases "op_result op = []")
  case True
  have "op_opcode op \<noteq> ''(''" "op_opcode op \<noteq> '':''" "op_opcode op \<noteq> ''}''" using assms by (auto simp: ok_operation_def is_word_def isalpha_def)
  then show ?thesis using True assms special_words [of op] by (auto simp: operation_tokens_def ok_operation_def)
next
  case False
  then show ?thesis using assms by (auto simp: operation_tokens_def ok_operation_def value_token_def is_value_def)
qed

lemma body_head:
  assumes "ok_body op"
  shows "body_tokens op = [] \<and> attribute_tokens (op_attributes op) = [] \<or>
    (\<exists>t us. body_tokens op @ attribute_tokens (op_attributes op) = t # us \<and> it_text t \<notin> {'':'', ''(''})"
proof -
  have word: "\<not> is_word '':''" "\<not> is_word ''(''" by (auto simp: is_word_def isalpha_def)
  have attr: "attribute_tokens as = [] \<or> (\<exists>t us. attribute_tokens as = t # us \<and> it_text t \<notin> {'':'', ''(''})" for as
    by (cases as) (auto simp: attribute_tokens_def)
  have types: "type_str t \<notin> {'':'', ''(''}" for t by (cases t) auto
  have "body_tokens op = [] \<or> (\<exists>t us. body_tokens op = t # us \<and> it_text t \<notin> {'':'', ''(''})"
  proof -
    consider (return) "op_opcode op = ''return''" | (jump) "op_opcode op = ''jump''" | (branch) "op_opcode op = ''branch''"
      | (other) "op_opcode op \<notin> {''return'', ''jump'', ''branch''}" by blast
    then show ?thesis
    proof cases
      case return
      then have "list_all is_value (op_operands op)" using assms by (simp add: ok_body_def Let_def)
      then show ?thesis using return by (cases "op_operands op") (auto simp: body_tokens_def is_value_def)
    next
      case jump
      then obtain b where "op_successors op = [b]" "is_word b" using assms by (auto simp: ok_body_def Let_def length_1)
      then show ?thesis using jump word by (auto simp: body_tokens_def successor_tokens_def)
    next
      case branch
      then obtain v where "op_operands op = [v]" "is_value v" using assms by (auto simp: ok_body_def Let_def length_1)
      then show ?thesis using branch by (auto simp: body_tokens_def is_value_def)
    next
      case other
      then have "body_tokens op = [] \<or> (\<exists>us. body_tokens op = type_token (op_type op) # us)" by (simp add: body_tokens_def Let_def)
      then show ?thesis using types by fastforce
    qed
  qed
  then show ?thesis using attr [of "op_attributes op"] by fastforce
qed

lemma at_block_end_operation:
  assumes "ok_operation op" "out = t # ts" "it_text t \<notin> {'':'', ''(''}"
  shows "at_block_end (operation_tokens op @ out) = Inr (False, operation_tokens op @ out)"
proof -
  obtain u us where u: "operation_tokens op = u # us" "it_text u \<noteq> ''}''"
    "it_kind u = IT_value \<or> it_kind u = IT_identifier \<and> u = word_token (op_opcode op) \<and> us = body_tokens op @ attribute_tokens (op_attributes op)"
    using operation_head [OF assms(1)] by auto
  show ?thesis
  proof (cases "it_kind u = IT_value")
    case True
    then show ?thesis using u by (simp add: at_block_end_def run_simps)
  next
    case False
    then have us: "us = body_tokens op @ attribute_tokens (op_attributes op)" "it_kind u = IT_identifier" using u(3) by auto
    have "us = [] \<or> (\<exists>v vs. us = v # vs \<and> it_text v \<notin> {'':'', ''(''})"
      using body_head [of op] assms(1) by (auto simp: us(1) ok_operation_def)
    then obtain v vs where v: "us @ out = v # vs" "it_text v \<notin> {'':'', ''(''}"
      using assms(2,3) by (cases us) auto
    have "operation_tokens op @ out = u # v # vs" using u(1) v(1) by simp
    then show ?thesis using u(2) us(2) v(2) by (simp add: at_block_end_def run_simps)
  qed
qed

text \<open>The head of what follows in a block: the next operation, or the end of the block.\<close>

lemma block_follow:
  assumes "list_all ok_operation zs" "stops_block rest"
  shows "\<exists>t ts. concat (map operation_tokens zs) @ rest = t # ts \<and> it_text t \<notin> {''attr'', ''align'', ''as'', ''('', '':''} \<and>
    (it_kind t = IT_value \<longrightarrow> zs \<noteq> [])"
proof (cases zs)
  case Nil
  then show ?thesis using assms(2) by (auto simp: stops_block_def)
next
  case (Cons z zs')
  then obtain t us where t: "operation_tokens z = t # us" "it_text t \<notin> {''attr'', ''align'', ''as'', ''('', '':''}"
    using operation_head [of z] assms(1) by auto
  then show ?thesis using Cons by (intro exI [of _ t]) auto
qed

lemma parse_operations:
  assumes "ok_block b" "stops_block rest"
  shows "with_fuel (\<lambda>n. until_loop at_block_end (push_back parse_operation) n []) (concat (map operation_tokens (bl_operations b)) @ rest) =
    Inr (bl_operations b, rest)"
proof -
  let ?ops = "bl_operations b"
  let ?g = "\<lambda>op ops. ops @ [op]"
  have ok: "list_all ok_operation ?ops" using assms(1) by (simp add: ok_block_def)
  have item: "at_block_end (operation_tokens op @ concat (map operation_tokens zs) @ rest) = Inr (False, operation_tokens op @ concat (map operation_tokens zs) @ rest) \<and>
      push_back parse_operation m (operation_tokens op @ concat (map operation_tokens zs) @ rest) = Inr (?g op m, concat (map operation_tokens zs) @ rest)"
    if split: "?ops = ys @ op # zs" for ys op zs m
  proof -
    have z: "list_all ok_operation zs" "ok_operation op" using ok split by simp_all
    obtain t ts where t: "concat (map operation_tokens zs) @ rest = t # ts" "it_text t \<notin> {''attr'', ''align'', ''as'', ''('', '':''}"
        "it_kind t = IT_value \<longrightarrow> zs \<noteq> []" using block_follow [OF z(1) assms(2)] by auto
    have "\<not> (op_opcode op = ''return'' \<and> op_operands op = [] \<and> it_kind t = IT_value)"
    proof (cases "zs = []")
      case False
      then have "op \<in> set (butlast ?ops)" using split by (simp add: butlast_append)
      then show ?thesis using assms(1) by (auto simp: ok_block_def list_all_iff)
    qed (use t(3) in simp)
    then have "follows op t" using t(2) by (simp add: follows_def)
    then show ?thesis unfolding t(1)
      using parse_operation_tokens [OF z(2)] at_block_end_operation [OF z(2) refl] t(2) by (simp add: push_back_def p_map_def p_bind_def p_return_def)
  qed
  have stop: "at_block_end rest = Inr (True, rest)" using assms(2) by (simp add: stops_block_def)
  have "length ?ops \<le> length (concat (map operation_tokens ?ops))"
    by (rule length_concat_each) (simp add: operation_tokens_def)
  then obtain k where k: "length (concat (map operation_tokens ?ops) @ rest) + 1 - length ?ops = Suc k"
    by (cases "length (concat (map operation_tokens ?ops) @ rest) + 1 - length ?ops") auto
  have "with_fuel (\<lambda>n. until_loop at_block_end (push_back parse_operation) n []) (concat (map operation_tokens ?ops) @ rest) =
      until_loop at_block_end (push_back parse_operation) (Suc k) (fold ?g ?ops []) rest"
    unfolding with_fuel_def k [symmetric]
    by (rule until_items) (use item \<open>length ?ops \<le> length (concat (map operation_tokens ?ops))\<close> in auto)
  moreover have "fold ?g ?ops [] = ?ops" by (simp add: fold_snoc)
  ultimately show ?thesis using stop by (simp add: p_bind_def p_return_def)
qed

lemma parse_block_tokens:
  assumes "ok_block b" "stops_block rest"
  shows "parse_block (block_tokens b @ rest) = Inr (b, rest)"
proof -
  have params: "parse_parameters (list_tokens param_tokens (bl_parameters b) @ out) = Inr (bl_parameters b, out)" for out
    by (rule parse_params) (use assms(1) in \<open>simp add: ok_block_def\<close>)
  have at: "at_text ''('' (list_tokens g xs @ out) = Inr (True, list_tokens g xs @ out)" for g :: "value_decl \<Rightarrow> ir_token list" and xs out
    by (simp add: list_tokens_def run_simps)
  show ?thesis
    by (cases "bl_parameters b = []")
      (simp_all add: parse_block_def block_tokens_def run_monad run_tokens at params parse_operations [OF assms])
qed

lemma block_stops: "ok_block b \<Longrightarrow> stops_block (block_tokens b @ rest)"
  by (cases "bl_parameters b = []")
    (auto simp: stops_block_def block_tokens_def at_block_end_def run_simps list_tokens_def ok_block_def is_word_def isalpha_def)

lemma close_stops: "stops_block (mark_token ''}'' # rest)"
  by (simp add: stops_block_def at_block_end_def run_simps)

lemma blocks_stop:
  "list_all ok_block bs \<Longrightarrow> stops_block (concat (map block_tokens bs) @ mark_token ''}'' # rest)"
  by (cases bs) (simp_all add: close_stops block_stops)

section \<open>Functions\<close>

definition ok_function :: "ir_function \<Rightarrow> bool" where
  "ok_function f \<longleftrightarrow> is_name (fn_name f) \<and> fn_target_feature f \<in> {[], ''sse2'', ''avx2'', ''neon''} \<and> list_all ok_param (fn_parameters f) \<and>
     ok_ref (fn_return_aggregate_kind f) (fn_return_aggregate_name f) (fn_return_type f) TK_ptr \<and>
     (fn_return_aggregate_kind f = ARK_scalar \<longrightarrow> \<not> fn_return_owned f \<and> fn_return_borrow_mode f = BM_none) \<and>
     (fn_return_owned f \<longrightarrow> fn_return_borrow_mode f = BM_none) \<and>
     (if fn_return_borrow_mode f = BM_none then fn_return_borrow_parameter f = - 1 else 0 \<le> sint (fn_return_borrow_parameter f)) \<and>
     (fn_is_external f \<or> fn_is_signature f \<longrightarrow> fn_blocks f = []) \<and> list_all ok_block (fn_blocks f)"

definition convention_words :: "calling_convention \<Rightarrow> string list" where
  "convention_words c = (case c of CC_platform \<Rightarrow> [] | CC_c \<Rightarrow> [''c''] | CC_system_v \<Rightarrow> [''systemv''] | CC_windows_x64 \<Rightarrow> [''win64''] | CC_fast \<Rightarrow> [''fast''])"

definition function_words :: "ir_function \<Rightarrow> string list" where
  "function_words f = (if fn_is_external f then [''extern''] else []) @ (if fn_is_signature f then [''signature''] else []) @
     (if fn_variadic f then [''variadic''] else []) @ symbol_words (fn_linkage f) (fn_visibility f) @
     convention_words (fn_calling_convention f) @ (if fn_target_feature f \<noteq> [] then [fn_target_feature f] else [])"

definition return_tokens_of :: "ir_function \<Rightarrow> ir_token list" where
  "return_tokens_of f = borrow_tokens (fn_return_borrow_mode f) (fn_return_owned f) @
     aggregate_tokens (fn_return_aggregate_kind f) (fn_return_aggregate_name f) [word_token (type_str (fn_return_type f))] @
     (if fn_return_borrow_mode f \<noteq> BM_none then [word_token ''from'', mk_token IT_integer (to_string_nat (unat (fn_return_borrow_parameter f)))] else [])"

definition function_tokens :: "ir_function \<Rightarrow> ir_token list" where
  "function_tokens f = map word_token (function_words f) @ (if fn_is_signature f then [] else [word_token ''func'']) @ symbol_token (fn_name f) #
     list_tokens param_tokens (fn_parameters f) @ mk_token IT_arrow ''->'' # return_tokens_of f @
     (if fn_is_signature f \<or> fn_is_external f then [] else mark_token ''{'' # concat (map block_tokens (fn_blocks f)) @ [mark_token ''}''])"

lemma scan_convention [simp]: "scan (print_calling_convention c @ rest) = put (map word_token (convention_words c)) (scan rest)"
  by (cases c) (simp_all add: convention_words_def)

lemma nonnegative_text: "0 \<le> sint (n :: u32) \<Longrightarrow> to_string_int (sint n) = to_string_nat (unat n)"
proof -
  assume n: "0 \<le> sint n"
  moreover have "sint n < 2 ^ 32" using sint_less [of n] by simp
  ultimately have "uint n = sint n" by (simp add: uint_sint take_bit_int_eq_self)
  then have "nat (sint n) = unat n" by (metis nat_uint_eq)
  then show ?thesis using n by (simp add: to_string_int_def)
qed

lemma scan_return:
  assumes "ok_function f"
  shows "scan (print_return_type f @ CHR 0x0A # rest) = put (return_tokens_of f) (scan rest)"
    "scan (print_return_type f @ CHR '' '' # rest) = put (return_tokens_of f) (scan rest)"
proof -
  let ?from = "if fn_return_borrow_mode f \<noteq> BM_none then '' from '' @ to_string_int (sint (fn_return_borrow_parameter f)) else []"
  have "scan (print_return_type f @ c # rest) = put (return_tokens_of f) (scan (c # rest))" if c: "c = CHR '' '' \<or> c = CHR 0x0A" for c
  proof -
    have ok: "ok_ref (fn_return_aggregate_kind f) (fn_return_aggregate_name f) (fn_return_type f) TK_ptr"
      "fn_return_borrow_mode f \<noteq> BM_none \<Longrightarrow> 0 \<le> sint (fn_return_borrow_parameter f)" using assms by (auto simp: ok_function_def split: if_splits)
    have ends: "ends_name (?from @ c # rest)" using c by auto
    have "scan (aggregate_text (fn_return_aggregate_kind f) (fn_return_aggregate_name f) (type_str (fn_return_type f)) @ ?from @ c # rest) =
        put (aggregate_tokens (fn_return_aggregate_kind f) (fn_return_aggregate_name f) [word_token (type_str (fn_return_type f))]) (scan (?from @ c # rest))"
      by (rule scan_aggregate [OF ok(1) ends]) (use ends in \<open>simp del: ends_name_simps\<close>)
    moreover have "scan (?from @ c # rest) = put (if fn_return_borrow_mode f \<noteq> BM_none then
        [word_token ''from'', mk_token IT_integer (to_string_nat (unat (fn_return_borrow_parameter f)))] else []) (scan (c # rest))"
      using ok(2) c by (auto simp: nonnegative_text)
    ultimately show ?thesis by (simp add: print_return_type_def return_tokens_of_def scan_borrow)
  qed
  then show "scan (print_return_type f @ CHR 0x0A # rest) = put (return_tokens_of f) (scan rest)"
    "scan (print_return_type f @ CHR '' '' # rest) = put (return_tokens_of f) (scan rest)" by simp_all
qed

lemma scan_header:
  assumes "ok_function f" "\<And>rest. scan (after @ rest) = put ts (scan rest)" "\<exists>s. after = CHR 0x0A # s \<or> after = CHR '' '' # s"
  shows "scan (print_function_header f @ after @ rest) = put (map word_token (function_words f) @ (if fn_is_signature f then [] else [word_token ''func'']) @ symbol_token (fn_name f) #
     list_tokens param_tokens (fn_parameters f) @ mk_token IT_arrow ''->'' # return_tokens_of f @ ts) (scan rest)"
proof -
  have parts: "is_name (fn_name f)" "list_all ok_param (fn_parameters f)" "fn_target_feature f \<in> {[], ''sse2'', ''avx2'', ''neon''}"
    using assms(1) by (auto simp: ok_function_def)
  have feature: "scan ((if fn_target_feature f \<noteq> [] then fn_target_feature f @ '' '' else []) @ out) =
      put (map word_token (if fn_target_feature f \<noteq> [] then [fn_target_feature f] else [])) (scan out)" for out
    using parts(3) by (auto simp: is_word_def)
  have returns: "scan (print_return_type f @ after @ rest) = put (return_tokens_of f @ ts) (scan rest)"
  proof -
    obtain c s where s: "after = c # s" "c = CHR 0x0A \<or> c = CHR '' ''" using assms(3) by auto
    then have "scan (s @ rest) = put ts (scan rest)" using assms(2) [of rest] by auto
    then show ?thesis using s scan_return [OF assms(1), of "s @ rest"] by auto
  qed
  have open_list: "ends_name (print_params ds @ out)" for ds out by (simp add: print_params_def)
  show ?thesis
    using parts(1) scan_params [OF parts(2)] returns open_list feature
    by (simp add: print_function_header_def function_words_def)
qed

lemma scan_function:
  assumes "ok_function f"
  shows "\<exists>s. print_function f = Some s \<and> (\<forall>rest. scan (s @ rest) = put (function_tokens f) (scan rest))"
proof (cases "fn_is_signature f \<or> fn_is_external f")
  case True
  then show ?thesis using scan_header [OF assms, of newline "[]"] by (simp add: print_function_def function_tokens_def newline_def)
next
  case False
  obtain s where s: "all_texts (map print_block (fn_blocks f)) = Some s"
      "\<And>rest. scan (s @ rest) = put (concat (map block_tokens (fn_blocks f))) (scan rest)"
    using prints_each [of "fn_blocks f" print_block block_tokens] scan_block assms by (auto simp: ok_function_def list_all_iff)
  show ?thesis using False scan_header [OF assms, of "'' {'' @ newline @ s @ ''  }'' @ newline" "mark_token ''{'' # concat (map block_tokens (fn_blocks f)) @ [mark_token ''}'']"]
    by (simp add: print_function_def function_tokens_def newline_def s)
qed

lemma function_prefixes_fold:
  assumes "fn_target_feature f \<in> {[], ''sse2'', ''avx2'', ''neon''}"
  shows "fold (apply_word function_prefixes) (function_words f) function_init =
     function_init\<lparr>fn_is_external := fn_is_external f, fn_is_signature := fn_is_signature f, fn_variadic := fn_variadic f, fn_linkage := fn_linkage f,
       fn_visibility := fn_visibility f, fn_calling_convention := fn_calling_convention f, fn_target_feature := fn_target_feature f\<rparr>"
proof -
  have flags: "fold (apply_word function_prefixes) (if b then [''extern''] else []) function_init = function_init\<lparr>fn_is_external := b\<rparr>"
    "fold (apply_word function_prefixes) (if b then [''signature''] else []) (function_init\<lparr>fn_is_external := e\<rparr>) =
       function_init\<lparr>fn_is_external := e, fn_is_signature := b\<rparr>"
    "fold (apply_word function_prefixes) (if b then [''variadic''] else []) (function_init\<lparr>fn_is_external := e, fn_is_signature := g\<rparr>) =
       function_init\<lparr>fn_is_external := e, fn_is_signature := g, fn_variadic := b\<rparr>" for b e g
    by (simp_all add: apply_word_def function_prefixes_def function_init_def)
  have symbol: "fold (apply_word function_prefixes) (symbol_words l v) (function_init\<lparr>fn_is_external := e, fn_is_signature := g, fn_variadic := b\<rparr>) =
      function_init\<lparr>fn_is_external := e, fn_is_signature := g, fn_variadic := b, fn_linkage := l, fn_visibility := v\<rparr>" for l v e g b
    by (cases l; cases v) (simp_all add: symbol_words_def apply_word_def function_prefixes_def function_init_def)
  have convention: "fold (apply_word function_prefixes) (convention_words c) h = (if c = CC_platform then h else h\<lparr>fn_calling_convention := c\<rparr>)" for c h
    by (cases c) (simp_all add: convention_words_def apply_word_def function_prefixes_def)
  have feature: "fold (apply_word function_prefixes) (if s \<noteq> [] then [s] else []) h = (if s = [] then h else h\<lparr>fn_target_feature := s\<rparr>)"
    if "s \<in> {[], ''sse2'', ''avx2'', ''neon''}" for s h
  proof -
    have "apply_word function_prefixes ''sse2'' = fn_target_feature_update (\<lambda>_. ''sse2'')"
      "apply_word function_prefixes ''avx2'' = fn_target_feature_update (\<lambda>_. ''avx2'')"
      "apply_word function_prefixes ''neon'' = fn_target_feature_update (\<lambda>_. ''neon'')"
      by (simp_all add: apply_word_def function_prefixes_def)
    then show ?thesis using that by (elim insertE) simp_all
  qed
  let ?s = "function_init\<lparr>fn_is_external := fn_is_external f, fn_is_signature := fn_is_signature f, fn_variadic := fn_variadic f,
          fn_linkage := fn_linkage f, fn_visibility := fn_visibility f\<rparr>"
  let ?c = "if fn_calling_convention f = CC_platform then ?s else ?s\<lparr>fn_calling_convention := fn_calling_convention f\<rparr>"
  have "fold (apply_word function_prefixes) (function_words f) function_init = (if fn_target_feature f = [] then ?c else ?c\<lparr>fn_target_feature := fn_target_feature f\<rparr>)"
    by (simp only: function_words_def fold_append comp_apply flags symbol convention feature [OF assms])
  also have "\<dots> = function_init\<lparr>fn_is_external := fn_is_external f, fn_is_signature := fn_is_signature f, fn_variadic := fn_variadic f,
      fn_linkage := fn_linkage f, fn_visibility := fn_visibility f, fn_calling_convention := fn_calling_convention f,
      fn_target_feature := fn_target_feature f\<rparr>"
    by (cases "fn_calling_convention f = CC_platform"; cases "fn_target_feature f = []") (simp_all add: function_init_def)
  finally show ?thesis .
qed

lemma function_words_known:
  "fn_target_feature f \<in> {[], ''sse2'', ''avx2'', ''neon''} \<Longrightarrow> set (function_words f) \<subseteq> fst ` set function_prefixes"
  by (auto simp: function_words_def symbol_words_def convention_words_def function_prefixes_def split: calling_convention.splits)

lemma parse_return_tokens:
  assumes "ok_function f" "fn_return_aggregate_kind h = ARK_scalar" "fn_return_aggregate_name h = []" "fn_return_borrow_parameter h = - 1"
  shows "parse_return_type h (return_tokens_of f @ out) = Inr (h\<lparr>fn_return_borrow_mode := fn_return_borrow_mode f, fn_return_owned := fn_return_owned f,
    fn_return_aggregate_kind := fn_return_aggregate_kind f, fn_return_aggregate_name := fn_return_aggregate_name f, fn_return_type := fn_return_type f,
    fn_return_borrow_parameter := fn_return_borrow_parameter f\<rparr>, out)"
proof -
  let ?from = "if fn_return_borrow_mode f \<noteq> BM_none then [word_token ''from'', mk_token IT_integer (to_string_nat (unat (fn_return_borrow_parameter f)))] else []"
  define body where "body = aggregate_tokens (fn_return_aggregate_kind f) (fn_return_aggregate_name f) [word_token (type_str (fn_return_type f))] @ ?from @ out"
  obtain t ts where t: "body = t # ts" "it_text t \<notin> {''borrow'', ''mut'', ''owned''}"
    by (cases "fn_return_aggregate_kind f = ARK_structure"; cases "fn_return_aggregate_kind f = ARK_array") (auto simp: body_def aggregate_tokens_def)
  have "fn_return_owned f \<longrightarrow> fn_return_borrow_mode f = BM_none" using assms(1) by (simp add: ok_function_def)
  then have borrow: "parse_borrow (borrow_tokens (fn_return_borrow_mode f) (fn_return_owned f) @ body) = Inr ((fn_return_borrow_mode f, fn_return_owned f), body)"
    unfolding t(1) by (rule parse_borrow_tokens) (use t(2) in simp)
  have split: "return_tokens_of f @ out = borrow_tokens (fn_return_borrow_mode f) (fn_return_owned f) @ body"
    by (simp add: return_tokens_of_def body_def)
  have ok: "ok_ref (fn_return_aggregate_kind f) (fn_return_aggregate_name f) (fn_return_type f) TK_ptr"
    "fn_return_aggregate_kind f = ARK_scalar \<longrightarrow> \<not> fn_return_owned f \<and> fn_return_borrow_mode f = BM_none"
    "fn_return_borrow_mode f = BM_none \<longrightarrow> fn_return_borrow_parameter f = - 1"
    using assms(1) by (auto simp: ok_function_def)
  have kinds: "fn_return_aggregate_kind f = ARK_scalar \<and> fn_return_aggregate_name f = [] \<or>
      fn_return_aggregate_kind f = ARK_structure \<and> fn_return_type f = TK_ptr \<or>
      fn_return_aggregate_kind f = ARK_array \<and> fn_return_type f = TK_ptr" using ok(1) by (auto simp: ok_ref_def split: if_splits)
  show ?thesis
    unfolding parse_return_type_def split p_bind_def [of parse_borrow] borrow sum.case prod.case Let_def
    by (insert kinds ok(2,3) assms(2-4), cases "fn_return_borrow_mode f = BM_none"; elim disjE conjE)
      (simp_all add: body_def aggregate_tokens_def parse_aggregate_def run_simps)
qed

lemma parse_blocks:
  assumes "list_all ok_block bs"
  shows "with_fuel (\<lambda>n. until_loop at_close (push_back parse_block) n []) (concat (map block_tokens bs) @ mark_token ''}'' # out) = Inr (bs, mark_token ''}'' # out)"
proof -
  let ?g = "\<lambda>b bs. bs @ [b]" and ?rest = "mark_token ''}'' # out"
  have item: "at_close (block_tokens b @ concat (map block_tokens zs) @ ?rest) = Inr (False, block_tokens b @ concat (map block_tokens zs) @ ?rest) \<and>
      push_back parse_block m (block_tokens b @ concat (map block_tokens zs) @ ?rest) = Inr (?g b m, concat (map block_tokens zs) @ ?rest)"
    if "bs = ys @ b # zs" for ys b zs m
  proof -
    have b: "ok_block b" "list_all ok_block zs" using assms that by auto
    then have "bl_name b \<noteq> ''}''" using word_not_mark by (simp add: ok_block_def)
    then have "at_close (block_tokens b @ concat (map block_tokens zs) @ ?rest) = Inr (False, block_tokens b @ concat (map block_tokens zs) @ ?rest)"
      by (simp add: at_close_def block_tokens_def run_simps)
    then show ?thesis using parse_block_tokens [OF b(1) blocks_stop [OF b(2)]] by (simp add: push_back_def p_map_def p_bind_def p_return_def)
  qed
  have len: "length bs \<le> length (concat (map block_tokens bs))" by (rule length_concat_each) (simp add: block_tokens_def)
  then obtain k where k: "length (concat (map block_tokens bs) @ ?rest) + 1 - length bs = Suc k"
    by (cases "length (concat (map block_tokens bs) @ ?rest) + 1 - length bs") auto
  have "with_fuel (\<lambda>n. until_loop at_close (push_back parse_block) n []) (concat (map block_tokens bs) @ ?rest) =
      until_loop at_close (push_back parse_block) (Suc k) (fold ?g bs []) ?rest"
    unfolding with_fuel_def k [symmetric] by (rule until_items) (use item len in auto)
  moreover have "fold ?g bs [] = bs" by (simp add: fold_snoc)
  ultimately show ?thesis by (simp add: at_close_def run_simps)
qed

lemma parse_function_tokens:
  assumes "ok_function f"
  shows "parse_function (function_tokens f @ out) = Inr (f, out)"
proof -
  define h where "h = function_init\<lparr>fn_is_external := fn_is_external f, fn_is_signature := fn_is_signature f, fn_variadic := fn_variadic f, fn_linkage := fn_linkage f,
       fn_visibility := fn_visibility f, fn_calling_convention := fn_calling_convention f, fn_target_feature := fn_target_feature f\<rparr>"
  have feature: "fn_target_feature f \<in> {[], ''sse2'', ''avx2'', ''neon''}" using assms by (simp add: ok_function_def)
  have prefix: "with_fuel (\<lambda>n. prefix_loop function_prefixes n function_init) (map word_token (function_words f) @ t # ts) = Inr (h, t # ts)"
    if "it_text t \<notin> fst ` set function_prefixes" for t ts
    unfolding h_def function_prefixes_fold [OF feature, symmetric] by (rule with_fuel_words [OF function_words_known [OF feature] that])
  have params: "parse_parameters (list_tokens param_tokens (fn_parameters f) @ ts) = Inr (fn_parameters f, ts)" for ts
    by (rule parse_params) (use assms in \<open>simp add: ok_function_def\<close>)
  define g where "g = h\<lparr>fn_name := fn_name f, fn_parameters := fn_parameters f, fn_return_borrow_mode := fn_return_borrow_mode f, fn_return_owned := fn_return_owned f,
    fn_return_aggregate_kind := fn_return_aggregate_kind f, fn_return_aggregate_name := fn_return_aggregate_name f, fn_return_type := fn_return_type f,
    fn_return_borrow_parameter := fn_return_borrow_parameter f\<rparr>"
  have returns: "parse_return_type (h\<lparr>fn_name := fn_name f, fn_parameters := fn_parameters f\<rparr>) (return_tokens_of f @ ts) = Inr (g, ts)" for ts
    unfolding g_def by (rule parse_return_tokens [OF assms]) (simp_all add: h_def function_init_def)
  have flags: "fn_is_signature h = fn_is_signature f" "fn_is_external h = fn_is_external f" "fn_is_signature g = fn_is_signature f" "fn_is_external g = fn_is_external f"
    by (simp_all add: g_def h_def)
  have blocks: "list_all ok_block (fn_blocks f)" "fn_is_external f \<or> fn_is_signature f \<Longrightarrow> fn_blocks f = []"
    using assms by (auto simp: ok_function_def)
  have names: "''func'' \<notin> fst ` set function_prefixes" "CHR ''@'' # n \<notin> fst ` set function_prefixes" for n by (simp_all add: function_prefixes_def)
  have full: "g\<lparr>fn_blocks := fn_blocks f\<rparr> = f" "fn_blocks f = [] \<Longrightarrow> g = f" by (cases f; simp add: g_def h_def function_init_def)+
  show ?thesis
  proof (cases "fn_is_signature f")
    case True
    then show ?thesis using blocks(2) full
      by (simp add: parse_function_def function_tokens_def run_monad run_tokens prefix names params returns flags)
  next
    case False
    then show ?thesis using blocks full
      by (cases "fn_is_external f") (simp_all add: parse_function_def function_tokens_def run_monad run_tokens prefix names params returns parse_blocks flags)
  qed
qed

end
