(* ===== verification/Text_Module_Props.thy ===== *)
theory Text_Module_Props
  imports Text_Roundtrip
begin

text \<open>
  The round trip of a whole module. \<open>printable\<close> says which modules the text form keeps; the lemmas follow the parser:
  it recognises the kind of each item from its first tokens, reads the items one after the other, and finds no string
  constant to move into a global.
\<close>

section \<open>Which item comes next\<close>

lemma global_start_words:
  assumes "''global'' \<notin> set ws" "''constant'' \<notin> set ws" "\<not> is_symbol_prefix (it_text t)" "it_text t \<noteq> ''global''" "it_text t \<noteq> ''constant''"
  shows "is_global_start (map word_token ws @ t # ts) = Inr (False, map word_token ws @ t # ts)"
proof -
  have "\<exists>u us. dropWhile (\<lambda>t. is_symbol_prefix (it_text t)) (map word_token ws @ t # ts) = u # us \<and> it_text u \<noteq> ''global'' \<and> it_text u \<noteq> ''constant''"
    using assms by (induction ws) auto
  then show ?thesis by (auto simp: is_global_start_def)
qed

lemma global_start_global:
  assumes "list_all is_symbol_prefix ws" "it_text t = ''global'' \<or> it_text t = ''constant''"
  shows "is_global_start (map word_token ws @ t # ts) = Inr (True, map word_token ws @ t # ts)"
proof -
  have "\<not> is_symbol_prefix (it_text t)" using assms(2) by (auto simp: is_symbol_prefix_def)
  then have "dropWhile (\<lambda>t. is_symbol_prefix (it_text t)) (map word_token ws @ t # ts) = t # ts"
    using assms(1) by (induction ws) auto
  then show ?thesis using assms(2) by (auto simp: is_global_start_def)
qed

lemma at_declaration_other:
  "it_text t \<notin> {''struct'', ''array'', ''moveonly''} \<Longrightarrow> word \<in> {''struct'', ''array''} \<Longrightarrow> at_declaration word (t # ts) = Inr (False, t # ts)"
  by (auto simp: at_declaration_def run_simps)

lemma words_head: "\<exists>u us. map word_token ws @ t # ts = u # us \<and> (it_text u \<in> set ws \<or> u = t)"
  by (cases ws) auto

definition function_start :: "ir_function \<Rightarrow> ir_token" where
  "function_start f = (if fn_is_signature f then symbol_token (fn_name f) else word_token ''func'')"

lemma function_tokens_split: "\<exists>ts. \<forall>out. function_tokens f @ out = map word_token (function_words f) @ function_start f # ts @ out"
  by (cases "fn_is_signature f") (simp_all add: function_tokens_def function_start_def)

lemma global_tokens_split: "\<exists>t ts. (it_text t = ''global'' \<or> it_text t = ''constant'') \<and> (\<forall>out. global_tokens g @ out = map word_token (global_words g) @ t # ts @ out)"
  by (cases "gv_is_constant g") (simp_all add: global_tokens_def)

lemma global_words_prefix: "list_all is_symbol_prefix (global_words g)"
  by (simp add: global_words_def symbol_words_def is_symbol_prefix_def)

lemma function_words_other:
  "ok_function f \<Longrightarrow> set (function_words f) \<inter> {''global'', ''constant'', ''struct'', ''array'', ''moveonly'', ''['', ''align'', ''}''} = {}"
proof -
  assume "ok_function f"
  then have "fn_target_feature f \<in> {[], ''sse2'', ''avx2'', ''neon''}" by (simp add: ok_function_def)
  then have "set (if fn_target_feature f \<noteq> [] then [fn_target_feature f] else []) \<subseteq> {''sse2'', ''avx2'', ''neon''}" by auto
  moreover have "set (convention_words c) \<subseteq> {''c'', ''systemv'', ''win64'', ''fast''}" for c by (cases c) (simp_all add: convention_words_def)
  moreover have "set (symbol_words l v) \<subseteq> {''internal'', ''weak'', ''hidden''}" for l v by (auto simp: symbol_words_def)
  ultimately have "set (function_words f) \<subseteq> {''extern'', ''signature'', ''variadic''} \<union> {''internal'', ''weak'', ''hidden''} \<union>
      {''c'', ''systemv'', ''win64'', ''fast''} \<union> {''sse2'', ''avx2'', ''neon''}"
    unfolding function_words_def by fastforce
  moreover have "({''extern'', ''signature'', ''variadic''} \<union> {''internal'', ''weak'', ''hidden''} \<union> {''c'', ''systemv'', ''win64'', ''fast''} \<union>
      {''sse2'', ''avx2'', ''neon''}) \<inter> {''global'', ''constant'', ''struct'', ''array'', ''moveonly'', ''['', ''align'', ''}''} = {}" by simp
  ultimately show ?thesis by blast
qed

lemma function_start_other:
  "it_text (function_start f) \<notin> {''global'', ''constant'', ''struct'', ''array'', ''moveonly'', ''['', ''align'', ''}''}"
  "\<not> is_symbol_prefix (it_text (function_start f))"
  by (simp_all add: function_start_def is_symbol_prefix_def)

text \<open>The first token of each item.\<close>

lemma function_item_head:
  assumes "ok_function f"
  shows "\<exists>u us. function_tokens f = u # us \<and> it_text u \<notin> {''struct'', ''array'', ''moveonly'', ''['', ''align'', ''}''} \<and> it_kind u \<noteq> IT_end"
proof -
  obtain ts where ts: "function_tokens f = map word_token (function_words f) @ function_start f # ts"
    using function_tokens_split [of f] by (metis append_Nil2)
  obtain u us where "map word_token (function_words f) @ function_start f # ts = u # us" "it_text u \<in> set (function_words f) \<or> u = function_start f"
    using words_head by blast
  moreover have "it_kind u \<noteq> IT_end" using calculation
    by (cases "function_words f"; cases "fn_is_signature f") (auto simp: function_start_def)
  ultimately show ?thesis using ts function_words_other [OF assms] function_start_other(1) [of f] by auto
qed

lemma global_item_head:
  "\<exists>u us. global_tokens g = u # us \<and> it_text u \<notin> {''struct'', ''array'', ''moveonly'', ''['', ''align'', ''}''} \<and> it_kind u \<noteq> IT_end"
  by (cases "global_words g") (auto simp: global_tokens_def global_words_def symbol_words_def split: if_splits)

lemma at_close_head: "it_text t \<noteq> ''}'' \<Longrightarrow> it_kind t \<noteq> IT_end \<Longrightarrow> at_close (t # ts) = Inr (False, t # ts)"
  by (simp add: at_close_def run_simps)

section \<open>Reading one item\<close>

lemma struct_item:
  assumes "ok_struct d"
  shows "at_close (struct_tokens d @ out) = Inr (False, struct_tokens d @ out) \<and>
    parse_item m (struct_tokens d @ out) = Inr (m\<lparr>md_structs := md_structs m @ [d]\<rparr>, out)"
proof -
  have "at_declaration ''struct'' (struct_tokens d @ out) = Inr (True, struct_tokens d @ out)"
    by (cases "sd_move_only d") (simp_all add: struct_tokens_def at_declaration_def run_simps)
  then have "parse_item m (struct_tokens d @ out) = Inr (m\<lparr>md_structs := md_structs m @ [d]\<rparr>, out)"
    by (simp add: parse_item_def run_monad parse_struct_tokens [OF assms])
  moreover have "at_close (struct_tokens d @ out) = Inr (False, struct_tokens d @ out)"
    by (cases "sd_move_only d") (simp_all add: struct_tokens_def at_close_head)
  ultimately show ?thesis by simp
qed

lemma array_item:
  assumes "ok_array d"
  shows "at_close (array_tokens d @ out) = Inr (False, array_tokens d @ out) \<and>
    parse_item m (array_tokens d @ out) = Inr (m\<lparr>md_arrays := md_arrays m @ [d]\<rparr>, out)"
proof -
  have "at_declaration ''struct'' (array_tokens d @ out) = Inr (False, array_tokens d @ out)"
    "at_declaration ''array'' (array_tokens d @ out) = Inr (True, array_tokens d @ out)"
    by (cases "ad_move_only d"; simp add: array_tokens_def at_declaration_def run_simps)+
  then have "parse_item m (array_tokens d @ out) = Inr (m\<lparr>md_arrays := md_arrays m @ [d]\<rparr>, out)"
    by (simp add: parse_item_def run_monad parse_array_tokens [OF assms])
  moreover have "at_close (array_tokens d @ out) = Inr (False, array_tokens d @ out)"
    by (cases "ad_move_only d") (simp_all add: array_tokens_def at_close_head)
  ultimately show ?thesis by simp
qed

lemma global_item:
  assumes "ok_global g" "it_text t \<notin> {''['', ''align''}"
  shows "at_close (global_tokens g @ t # out) = Inr (False, global_tokens g @ t # out) \<and>
    parse_item m (global_tokens g @ t # out) = Inr (m\<lparr>md_globals := md_globals m @ [g]\<rparr>, t # out)"
proof -
  obtain u us where u: "global_tokens g = u # us" "it_text u \<notin> {''struct'', ''array'', ''moveonly'', ''['', ''align'', ''}''}" "it_kind u \<noteq> IT_end"
    using global_item_head by blast
  then have other: "at_declaration ''struct'' (global_tokens g @ t # out) = Inr (False, global_tokens g @ t # out)"
    "at_declaration ''array'' (global_tokens g @ t # out) = Inr (False, global_tokens g @ t # out)"
    "at_close (global_tokens g @ t # out) = Inr (False, global_tokens g @ t # out)"
    by (simp_all add: at_declaration_other at_close_head)
  obtain v ts where v: "it_text v = ''global'' \<or> it_text v = ''constant''"
      "\<And>out. global_tokens g @ out = map word_token (global_words g) @ v # ts @ out" using global_tokens_split [of g] by auto
  have "is_global_start (global_tokens g @ t # out) = Inr (True, global_tokens g @ t # out)"
    unfolding v(2) by (rule global_start_global [OF global_words_prefix v(1)])
  then show ?thesis using other by (simp add: parse_item_def run_monad parse_global_tokens [OF assms])
qed

lemma function_item:
  assumes "ok_function f"
  shows "at_close (function_tokens f @ out) = Inr (False, function_tokens f @ out) \<and>
    parse_item m (function_tokens f @ out) = Inr (m\<lparr>md_functions := md_functions m @ [f]\<rparr>, out)"
proof -
  obtain u us where u: "function_tokens f = u # us" "it_text u \<notin> {''struct'', ''array'', ''moveonly'', ''['', ''align'', ''}''}" "it_kind u \<noteq> IT_end"
    using function_item_head [OF assms] by blast
  then have other: "at_declaration ''struct'' (function_tokens f @ out) = Inr (False, function_tokens f @ out)"
    "at_declaration ''array'' (function_tokens f @ out) = Inr (False, function_tokens f @ out)"
    "at_close (function_tokens f @ out) = Inr (False, function_tokens f @ out)"
    by (simp_all add: at_declaration_other at_close_head)
  obtain ts where v: "\<And>out. function_tokens f @ out = map word_token (function_words f) @ function_start f # ts @ out" using function_tokens_split [of f] by auto
  have "is_global_start (function_tokens f @ out) = Inr (False, function_tokens f @ out)"
    unfolding v by (rule global_start_words) (use function_words_other [OF assms] function_start_other [of f] in auto)
  then show ?thesis using other by (simp add: parse_item_def run_monad parse_function_tokens [OF assms])
qed

section \<open>String constants\<close>

lemma no_string_constant: "ok_operation op \<Longrightarrow> \<not> is_string_constant op"
proof
  assume ok: "ok_operation op" and string: "is_string_constant op"
  then obtain x where x: "op_operands op = [x]" "hd x = CHR 0x22" "op_opcode op = ''const''"
    by (auto simp: is_string_constant_def Let_def length_Suc_conv)
  then have "ok_operand x" using ok by (simp add: ok_operation_def ok_body_def)
  then show False using operand_token_parts [of x] x(2) by simp
qed

lemma traverse_same: "(\<And>x. x \<in> set xs \<Longrightarrow> f x s = p_return (x, s)) \<Longrightarrow> p_traverse f xs s = p_return (xs, s)"
  by (induction xs) (auto simp: run_monad)

lemma intern_function_same: "ok_function f \<Longrightarrow> intern_function tag f gs = p_return (f, gs)"
proof -
  assume f: "ok_function f"
  have "intern_block tag b gs = p_return (b, gs)" if "b \<in> set (fn_blocks f)" for b
  proof -
    have "p_traverse (intern_operation tag) (bl_operations b) gs = p_return (bl_operations b, gs)"
    proof (rule traverse_same)
      fix op assume "op \<in> set (bl_operations b)"
      then have "ok_operation op" using f that by (auto simp: ok_function_def ok_block_def list_all_iff)
      then show "intern_operation tag op gs = p_return (op, gs)" by (simp add: intern_operation_def no_string_constant)
    qed
    then show ?thesis by (cases b) (simp add: intern_block_def p_map_def p_bind_def p_return_def fun_eq_iff)
  qed
  then have "p_traverse (intern_block tag) (fn_blocks f) gs = p_return (fn_blocks f, gs)" by (rule traverse_same)
  then show ?thesis by (cases f) (simp add: intern_function_def p_map_def p_bind_def p_return_def fun_eq_iff)
qed

lemma intern_strings_same:
  assumes "list_all ok_function (md_functions m)"
  shows "intern_strings m = p_return m"
proof -
  have "p_traverse (intern_function (module_tag (md_name m))) (md_functions m) [] = p_return (md_functions m, [])"
    by (rule traverse_same) (use assms in \<open>simp add: intern_function_same list_all_iff\<close>)
  then show ?thesis by (cases m) (simp add: intern_strings_def p_map_def p_bind_def p_return_def fun_eq_iff)
qed

section \<open>Modules\<close>

definition printable :: "ir_module \<Rightarrow> bool" where
  "printable m \<longleftrightarrow> is_name (md_name m) \<and> list_all ok_struct (md_structs m) \<and> list_all ok_array (md_arrays m) \<and>
     list_all ok_global (md_globals m) \<and> list_all ok_function (md_functions m) \<and> md_metadata m = []"

definition item_tokens :: "ir_module \<Rightarrow> ir_token list" where
  "item_tokens m = concat (map struct_tokens (md_structs m)) @ concat (map array_tokens (md_arrays m)) @
     concat (map global_tokens (md_globals m)) @ concat (map function_tokens (md_functions m))"

definition module_tokens :: "ir_module \<Rightarrow> ir_token list" where
  "module_tokens m = word_token ''module'' # symbol_token (md_name m) # mark_token ''{'' # item_tokens m @ [mark_token ''}'', mk_token IT_end []]"

lemma scan_each: "(\<And>x rest. x \<in> set xs \<Longrightarrow> scan (p x @ rest) = put (f x) (scan rest)) \<Longrightarrow>
    scan (concat (map p xs) @ rest) = put (concat (map f xs)) (scan rest)"
  by (induction xs) auto

lemma scan_module:
  assumes "printable m"
  shows "\<exists>s. print_module m = Some s \<and> scan s = (module_tokens m, True)"
proof -
  have parts: "list_all ok_struct (md_structs m)" "list_all ok_array (md_arrays m)" "list_all ok_global (md_globals m)" "is_name (md_name m)"
    using assms by (simp_all add: printable_def)
  obtain s where s: "all_texts (map print_function (md_functions m)) = Some s"
      "\<And>rest. scan (s @ rest) = put (concat (map function_tokens (md_functions m))) (scan rest)"
    using prints_each [of "md_functions m" print_function function_tokens] scan_function assms by (auto simp: printable_def list_all_iff)
  have each: "scan (concat (map print_struct (md_structs m)) @ rest) = put (concat (map struct_tokens (md_structs m))) (scan rest)"
    "scan (concat (map print_array (md_arrays m)) @ rest) = put (concat (map array_tokens (md_arrays m))) (scan rest)"
    "scan (concat (map print_global (md_globals m)) @ rest) = put (concat (map global_tokens (md_globals m))) (scan rest)" for rest
    using parts scan_struct scan_array scan_global by (auto intro!: scan_each simp: list_all_iff)
  have line: "scan ((if b then newline else []) @ rest) = scan rest" for b rest by (simp add: newline_def)
  have last: "scan (''}'' @ newline) = ([mark_token ''}'', mk_token IT_end []], True)" by (simp add: newline_def put_def)
  have head: "scan (''module @'' @ md_name m @ '' {'' @ newline @ rest) =
      put [word_token ''module'', symbol_token (md_name m), mark_token ''{''] (scan rest)" for rest
    using parts(4) by (simp add: newline_def)
  obtain t where t: "print_module m = Some t" by (simp add: print_module_def s(1))
  have "scan t = (module_tokens m, True)"
    using t [unfolded print_module_def s(1) option.map option.inject, symmetric]
    by (simp only: head each line s(2) last) (simp add: module_tokens_def item_tokens_def put_def)
  then show ?thesis using t by simp
qed

text \<open>Adding items one after the other.\<close>

lemma fold_items:
  "fold (\<lambda>d m. m\<lparr>md_structs := md_structs m @ [d]\<rparr>) ds m = m\<lparr>md_structs := md_structs m @ ds\<rparr>"
  "fold (\<lambda>d m. m\<lparr>md_arrays := md_arrays m @ [d]\<rparr>) as m = m\<lparr>md_arrays := md_arrays m @ as\<rparr>"
  "fold (\<lambda>d m. m\<lparr>md_globals := md_globals m @ [d]\<rparr>) gs m = m\<lparr>md_globals := md_globals m @ gs\<rparr>"
  "fold (\<lambda>d m. m\<lparr>md_functions := md_functions m @ [d]\<rparr>) fs m = m\<lparr>md_functions := md_functions m @ fs\<rparr>"
proof -
  show "fold (\<lambda>d m. m\<lparr>md_structs := md_structs m @ [d]\<rparr>) ds m = m\<lparr>md_structs := md_structs m @ ds\<rparr>" by (induction ds arbitrary: m) simp_all
  show "fold (\<lambda>d m. m\<lparr>md_arrays := md_arrays m @ [d]\<rparr>) as m = m\<lparr>md_arrays := md_arrays m @ as\<rparr>" by (induction as arbitrary: m) simp_all
  show "fold (\<lambda>d m. m\<lparr>md_globals := md_globals m @ [d]\<rparr>) gs m = m\<lparr>md_globals := md_globals m @ gs\<rparr>" by (induction gs arbitrary: m) simp_all
  show "fold (\<lambda>d m. m\<lparr>md_functions := md_functions m @ [d]\<rparr>) fs m = m\<lparr>md_functions := md_functions m @ fs\<rparr>" by (induction fs arbitrary: m) simp_all
qed

lemma globals_follow:
  assumes "list_all ok_function fs"
  shows "\<exists>t ts. concat (map global_tokens zs) @ concat (map function_tokens fs) @ mark_token ''}'' # out = t # ts \<and> it_text t \<notin> {''['', ''align''}"
proof (cases zs)
  case (Cons z zs')
  then show ?thesis using global_item_head [of z] by auto
next
  case Nil
  show ?thesis
  proof (cases fs)
    case (Cons f fs')
    then show ?thesis using Nil function_item_head [of f] assms by auto
  qed (simp add: Nil)
qed

lemma parse_item_sequence:
  assumes "printable m" "length (item_tokens m) \<le> n"
  shows "until_loop at_close parse_item (Suc n) (ir_module_init (md_name m)) (item_tokens m @ mark_token ''}'' # out) = Inr (m, mark_token ''}'' # out)"
proof -
  let ?loop = "until_loop at_close parse_item"
  let ?ss = "md_structs m" and ?as = "md_arrays m" and ?gs = "md_globals m" and ?fs = "md_functions m"
  have parts: "list_all ok_struct ?ss" "list_all ok_array ?as" "list_all ok_global ?gs" "list_all ok_function ?fs" "md_metadata m = []"
    using assms(1) by (simp_all add: printable_def)
  define r4 where "r4 = mark_token ''}'' # out"
  define r3 where "r3 = concat (map function_tokens ?fs) @ r4"
  define r2 where "r2 = concat (map global_tokens ?gs) @ r3"
  define r1 where "r1 = concat (map array_tokens ?as) @ r2"
  have structs: "?loop i x (concat (map struct_tokens ?ss) @ r1) = ?loop (i - length ?ss) (fold (\<lambda>d m. m\<lparr>md_structs := md_structs m @ [d]\<rparr>) ?ss x) r1"
    if "length ?ss \<le> i" for i x
    by (rule until_items [OF _ that]) (use parts(1) struct_item in auto)
  have arrays: "?loop i x r1 = ?loop (i - length ?as) (fold (\<lambda>d m. m\<lparr>md_arrays := md_arrays m @ [d]\<rparr>) ?as x) r2"
    if "length ?as \<le> i" for i x
    unfolding r1_def by (rule until_items [OF _ that]) (use parts(2) array_item in auto)
  have globals: "?loop i x r2 = ?loop (i - length ?gs) (fold (\<lambda>d m. m\<lparr>md_globals := md_globals m @ [d]\<rparr>) ?gs x) r3"
    if "length ?gs \<le> i" for i x
    unfolding r2_def
  proof (rule until_items [OF _ that])
    fix ys g zs x assume split: "?gs = ys @ g # zs"
    then have "ok_global g" using parts(3) by simp
    moreover obtain t ts where "concat (map global_tokens zs) @ r3 = t # ts" "it_text t \<notin> {''['', ''align''}"
      using globals_follow [OF parts(4)] unfolding r3_def r4_def by blast
    ultimately show "at_close (global_tokens g @ concat (map global_tokens zs) @ r3) = Inr (False, global_tokens g @ concat (map global_tokens zs) @ r3) \<and>
        parse_item x (global_tokens g @ concat (map global_tokens zs) @ r3) = Inr (x\<lparr>md_globals := md_globals x @ [g]\<rparr>, concat (map global_tokens zs) @ r3)"
      using global_item by simp
  qed
  have bodies: "?loop i x r3 = ?loop (i - length ?fs) (fold (\<lambda>d m. m\<lparr>md_functions := md_functions m @ [d]\<rparr>) ?fs x) r4"
    if "length ?fs \<le> i" for i x
    unfolding r3_def by (rule until_items [OF _ that]) (use parts(4) function_item in auto)
  have sizes: "length ?ss \<le> length (concat (map struct_tokens ?ss))" "length ?as \<le> length (concat (map array_tokens ?as))"
    "length ?gs \<le> length (concat (map global_tokens ?gs))" "length ?fs \<le> length (concat (map function_tokens ?fs))"
    by (rule length_concat_each; simp add: struct_tokens_def array_tokens_def global_tokens_def function_tokens_def)+
  then have "length ?ss + length ?as + length ?gs + length ?fs \<le> n" using assms(2) by (simp add: item_tokens_def)
  then obtain k where k: "Suc n - length ?ss - length ?as - length ?gs - length ?fs = Suc k"
      and enough: "length ?ss \<le> Suc n" "length ?as \<le> Suc n - length ?ss"
      "length ?gs \<le> Suc n - length ?ss - length ?as" "length ?fs \<le> Suc n - length ?ss - length ?as - length ?gs"
    by (cases "Suc n - length ?ss - length ?as - length ?gs - length ?fs") auto
  have "?loop (Suc n) (ir_module_init (md_name m)) (concat (map struct_tokens ?ss) @ r1) = ?loop (Suc k) m r4"
    unfolding structs [OF enough(1)] arrays [OF enough(2)] globals [OF enough(3)] bodies [OF enough(4)] k fold_items
    using parts(5) by (cases m) (simp add: ir_module_init_def)
  moreover have "?loop (Suc k) m r4 = Inr (m, r4)" by (simp add: r4_def at_close_def run_simps)
  moreover have "item_tokens m @ r4 = concat (map struct_tokens ?ss) @ r1" by (simp add: item_tokens_def r1_def r2_def r3_def)
  ultimately show ?thesis unfolding r4_def by simp
qed

lemma parse_module_tokens:
  assumes "printable m"
  shows "parse_items (module_tokens m) = Inr (m, [mk_token IT_end []])"
proof -
  have "list_all ok_function (md_functions m)" using assms by (simp add: printable_def)
  then have same: "intern_strings m = p_return m" by (rule intern_strings_same)
  have "with_fuel (\<lambda>n. until_loop at_close parse_item n (ir_module_init (md_name m))) (item_tokens m @ [mark_token ''}'', mk_token IT_end []]) =
      Inr (m, [mark_token ''}'', mk_token IT_end []])"
    using parse_item_sequence [OF assms, of "length (item_tokens m) + 2" "[mk_token IT_end []]"]
    unfolding with_fuel_def by (simp del: until_loop.simps)
  then show ?thesis by (simp add: parse_items_def module_tokens_def run_monad run_tokens same)
qed

text \<open>A module with an item of each kind, a loop with block arguments, a call and a string of bytes.\<close>

definition text_sample :: ir_module where
  "text_sample = (ir_module_init ''demo'')\<lparr>
     md_structs := [\<lparr>sd_name = ''pair'', sd_fields = [\<lparr>sf_name = ''first'', sf_type = TK_i32, sf_aggregate_kind = ARK_scalar, sf_aggregate_name = []\<rparr>,
       \<lparr>sf_name = ''rest'', sf_type = TK_void, sf_aggregate_kind = ARK_array, sf_aggregate_name = ''row''\<rparr>], sd_move_only = True\<rparr>],
     md_arrays := [\<lparr>ad_name = ''row'', ad_element_type = TK_i64, ad_element_aggregate_kind = ARK_scalar, ad_element_aggregate_name = [],
       ad_element_count = 4, ad_move_only = False\<rparr>],
     md_globals := [global_init\<lparr>gv_name := ''message'', gv_type := TK_i8, gv_is_constant := True, gv_linkage := SL_internal, gv_alignment := 1,
         gv_element_count := 4, gv_bytes := [104, 34, 10, 0]\<rparr>,
       global_init\<lparr>gv_name := ''limit'', gv_type := TK_i32, gv_initializer := ''-7''\<rparr>],
     md_functions := [function_init\<lparr>fn_name := ''sink'', fn_is_external := True, fn_calling_convention := CC_c,
         fn_parameters := [value_decl_init\<lparr>vd_name := ''%x'', vd_type := TK_i32\<rparr>]\<rparr>,
       function_init\<lparr>fn_name := ''count'', fn_linkage := SL_weak, fn_return_type := TK_i32, fn_blocks :=
         [\<lparr>bl_name = ''entry'', bl_parameters = [], bl_operations =
            [operation_init\<lparr>op_result := ''%zero'', op_opcode := ''const'', op_type := TK_i32, op_operands := [''0'']\<rparr>,
             operation_init\<lparr>op_opcode := ''jump'', op_successors := [''again''], op_successor_arguments := [[''%zero'']]\<rparr>]\<rparr>,
          \<lparr>bl_name = ''again'', bl_parameters = [value_decl_init\<lparr>vd_name := ''%i'', vd_type := TK_i32\<rparr>], bl_operations =
            [operation_init\<lparr>op_result := ''%one'', op_opcode := ''const'', op_type := TK_i32, op_operands := [''1'']\<rparr>,
             operation_init\<lparr>op_result := ''%next'', op_opcode := ''add'', op_type := TK_i32, op_operands := [''%i'', ''%one''],
               op_attributes := [\<lparr>at_name = ''note'', at_value = ''a b''\<rparr>]\<rparr>,
             operation_init\<lparr>op_opcode := ''call'', op_operands := [''@sink'', ''%next'']\<rparr>,
             operation_init\<lparr>op_result := ''%done'', op_opcode := ''cmp.eq'', op_type := TK_i1, op_operands := [''%next'', ''%one'']\<rparr>,
             operation_init\<lparr>op_opcode := ''branch'', op_operands := [''%done''], op_successors := [''leave'', ''again''],
               op_successor_arguments := [[], [''%next'']]\<rparr>]\<rparr>,
          \<lparr>bl_name = ''leave'', bl_parameters = [], bl_operations = [operation_init\<lparr>op_opcode := ''return'', op_operands := [''%i'']\<rparr>]\<rparr>]\<rparr>]\<rparr>"

lemma text_sample_printable: "printable text_sample"
  by code_simp

text \<open>
  C3. The text form is faithful: for every module that it can express (\<open>printable\<close>: the names are names of the lexer,
  each operation has the operands of its opcode, there is no metadata and no source position), \<open>print_module\<close> writes a text,
  and \<open>parse_module\<close> reads this text back as exactly the same module, without a diagnostic.
\<close>

theorem print_parse_roundtrip:
  assumes "printable m"
  shows "\<exists>s. print_module m = Some s \<and> parse_module s = Some \<lparr>ps_module = Some m, ps_diagnostics = []\<rparr>"
proof -
  obtain s where "print_module m = Some s" "scan s = (module_tokens m, True)" using scan_module [OF assms] by blast
  then show ?thesis using parse_module_scan [OF _ parse_module_tokens [OF assms]] by blast
qed

theorem print_parse_roundtrip_witness:
  "\<exists>s. print_module text_sample = Some s \<and> parse_module s = Some \<lparr>ps_module = Some text_sample, ps_diagnostics = []\<rparr>"
  by (rule print_parse_roundtrip [OF text_sample_printable])

end
