(* ===== verification/Machine_IR.thy ===== *)
theory Machine_IR
  imports IR_Module
begin

text \<open>
  The machine IR that the code generators read (\<open>forge/include/forge/machine/module.hpp\<close>): functions over virtual
  registers, blocks with parameters, instructions with their successors.

  An opcode is written with the name of its enumerator; \<open>opcode_names\<close> lists the 165 of them in the order of the
  \<open>enum class Opcode : uint8_t\<close>, so that the number of an opcode is its position there (\<open>opcode_number\<close>). Virtual registers, block
  indices and lengths are naturals: a vector holds fewer than \<open>2 ^ 32\<close> elements. Frame sizes and offsets stay 32-bit words.
\<close>

section \<open>Opcodes\<close>

type_synonym machine_opcode = string

definition opcode_names :: "machine_opcode list" where
  "opcode_names = [
     ''load_argument'', ''load_argument_i64'', ''load_argument_f32'', ''load_argument_f64'', ''load_immediate'', ''load_immediate_i64'',
     ''load_immediate_f32'', ''load_immediate_f64'', ''load_function_address'', ''load_global_address'', ''load_tls_address'',
     ''load_stack_address'', ''ptr_offset'', ''copy'', ''copy_f32'', ''copy_f64'', ''add_f32'', ''add_f64'', ''sub_f32'', ''sub_f64'', ''mul_f32'',
     ''mul_f64'', ''div_f32'', ''div_f64'', ''neg_f32'', ''neg_f64'', ''cmp_eq_f32'', ''cmp_ne_f32'', ''cmp_lt_f32'', ''cmp_le_f32'', ''cmp_gt_f32'',
     ''cmp_ge_f32'', ''cmp_eq_f64'', ''cmp_ne_f64'', ''cmp_lt_f64'', ''cmp_le_f64'', ''cmp_gt_f64'', ''cmp_ge_f64'', ''add_i32'', ''add_i64'',
     ''sub_i32'', ''sub_i64'', ''mul_i32'', ''mul_i64'', ''div_s_i32'', ''div_s_i64'', ''div_u_i32'', ''div_u_i64'', ''rem_s_i32'', ''rem_s_i64'',
     ''rem_u_i32'', ''rem_u_i64'', ''and_i32'', ''and_i64'', ''or_i32'', ''or_i64'', ''xor_i32'', ''xor_i64'', ''reduce_add_i32_contiguous'',
     ''reduce_add_i64_contiguous'', ''add_i64_contiguous_inplace'', ''binary_i32_contiguous_inplace'', ''binary_i64_contiguous_inplace'',
     ''binary_i32_contiguous_map'', ''binary_i64_contiguous_map'', ''binary_i32_contiguous_map2'', ''binary_i64_contiguous_map2'',
     ''binary_i32_contiguous_map3'', ''binary_i64_contiguous_map3'', ''binary_i32_contiguous_chain'', ''binary_i64_contiguous_chain'',
     ''binary_i32_contiguous_dag'', ''binary_i64_contiguous_dag'', ''binary_i32_contiguous_dag_reuse'', ''binary_i64_contiguous_dag_reuse'',
     ''select_i32'', ''select_i64'', ''shl_i32'', ''shl_i64'', ''shr_s_i32'', ''shr_s_i64'', ''shr_u_i32'', ''shr_u_i64'', ''neg_i32'', ''neg_i64'',
     ''not_i32'', ''not_i64'', ''zero_extend'', ''sign_extend'', ''truncate'', ''int_to_float_signed'', ''int_to_float_unsigned'',
     ''float_to_int_signed'', ''float_to_int_unsigned'', ''float_extend'', ''float_truncate'', ''cmp_eq_i32'', ''cmp_ne_i32'', ''cmp_lt_i32'',
     ''cmp_le_i32'', ''cmp_gt_i32'', ''cmp_ge_i32'', ''cmp_ult_i32'', ''cmp_ule_i32'', ''cmp_ugt_i32'', ''cmp_uge_i32'', ''cmp_eq_i64'',
     ''cmp_ne_i64'', ''cmp_lt_i64'', ''cmp_le_i64'', ''cmp_gt_i64'', ''cmp_ge_i64'', ''cmp_ult_i64'', ''cmp_ule_i64'', ''cmp_ugt_i64'',
     ''cmp_uge_i64'', ''load_stack_i8'', ''load_stack_i16'', ''load_stack_i32'', ''load_stack_i64'', ''load_stack_f32'', ''load_stack_f64'',
     ''store_stack_i8'', ''store_stack_i16'', ''store_stack_i32'', ''store_stack_i64'', ''store_stack_f32'', ''store_stack_f64'',
     ''load_stack_v128'', ''load_stack_v256'', ''load_stack_v512'', ''store_stack_v128'', ''store_stack_v256'', ''store_stack_v512'',
     ''load_ptr_i8'', ''load_ptr_i16'', ''load_ptr_i32'', ''store_ptr_i8'', ''store_ptr_i16'', ''store_ptr_i32'', ''load_ptr_i64'', ''load_ptr_f32'',
     ''load_ptr_f64'', ''store_ptr_i64'', ''store_ptr_f32'', ''store_ptr_f64'', ''call_i32'', ''call_i64'', ''call_f32'', ''call_f64'',
     ''call_void'', ''call_aggregate'', ''call_indirect_i32'', ''call_indirect_i64'', ''call_indirect_f32'', ''call_indirect_f64'',
     ''call_indirect_void'', ''jump'', ''branch_i1'', ''return_i32'', ''return_i64'', ''return_f32'', ''return_f64'', ''return_void'',
     ''return_aggregate'']"

fun position_from :: "nat \<Rightarrow> 'a \<Rightarrow> 'a list \<Rightarrow> nat option" where
  "position_from n x [] = None"
| "position_from n x (y # ys) = (if x = y then Some n else position_from (Suc n) x ys)"

definition opcode_number :: "machine_opcode \<Rightarrow> nat option" where
  "opcode_number oc = position_from 0 oc opcode_names"

text \<open>\<open>opcode_name(static_cast<Opcode>(n))\<close>.\<close>

definition machine_opcode_name :: "nat \<Rightarrow> string" where
  "machine_opcode_name n = (case list_at opcode_names n of Some s \<Rightarrow> s | None \<Rightarrow> ''invalid'')"

section \<open>Functions and modules\<close>

datatype register_class = RC_integer | RC_floating | RC_vector

definition uses_vector_register_file :: "register_class \<Rightarrow> bool" where
  "uses_vector_register_file c \<longleftrightarrow> c = RC_floating \<or> c = RC_vector"

record machine_successor =
  su_block :: string
  su_arguments :: "nat list"

record machine_instruction =
  mi_opcode :: machine_opcode
  mi_result :: nat
  mi_inputs :: "nat list"
  mi_immediate :: u64 \<comment> \<open>an \<open>int64_t\<close>, read with \<open>sint\<close>\<close>
  mi_argument_index :: u32
  mi_symbol :: string
  mi_successors :: "machine_successor list"
  mi_vector_bits :: u16
  mi_vector_mask_lanes :: u8
  mi_indirect_result :: bool
  mi_variadic_call :: bool
  mi_variadic_named_input_count :: u32
  mi_argument_group_sizes :: "u8 list"
  mi_argument_group_alignments :: "u8 list"
  mi_argument_widths :: "u8 list"

text \<open>The constructor of \<open>Instruction\<close> with the arguments it defaults.\<close>

definition instruction_init :: "machine_opcode \<Rightarrow> nat \<Rightarrow> nat list \<Rightarrow> machine_instruction" where
  "instruction_init oc result inputs = \<lparr>mi_opcode = oc, mi_result = result, mi_inputs = inputs, mi_immediate = 0, mi_argument_index = 0,
     mi_symbol = [], mi_successors = [], mi_vector_bits = 0, mi_vector_mask_lanes = 0, mi_indirect_result = False,
     mi_variadic_call = False, mi_variadic_named_input_count = 0, mi_argument_group_sizes = [],
     mi_argument_group_alignments = [], mi_argument_widths = []\<rparr>"

record machine_block =
  mb_name :: string
  mb_parameters :: "nat list"
  mb_instructions :: "machine_instruction list"

text \<open>The counters that the machine passes keep in a function are not part of the model.\<close>

record machine_function =
  mf_name :: string
  mf_target_feature :: string
  mf_argument_count :: u32
  mf_indirect_result_parameter :: bool
  mf_argument_widths :: "u8 list"
  mf_argument_classes :: "register_class list"
  mf_argument_group_sizes :: "u8 list"
  mf_argument_group_alignments :: "u8 list"
  mf_register_count :: nat
  mf_register_widths :: "u8 list"
  mf_register_classes :: "register_class list"
  mf_local_stack_size :: u32
  mf_blocks :: "machine_block list"

definition machine_function_init :: "string \<Rightarrow> machine_function" where
  "machine_function_init name = \<lparr>mf_name = name, mf_target_feature = [], mf_argument_count = 0, mf_indirect_result_parameter = False,
     mf_argument_widths = [], mf_argument_classes = [], mf_argument_group_sizes = [], mf_argument_group_alignments = [],
     mf_register_count = 0, mf_register_widths = [], mf_register_classes = [], mf_local_stack_size = 0, mf_blocks = []\<rparr>"

section \<open>Registers of an instruction\<close>

text \<open>The registers an instruction reads, in the order in which every analysis visits them: inputs, then edge arguments.\<close>

definition passed_arguments :: "machine_instruction \<Rightarrow> nat list" where
  "passed_arguments i = concat (map su_arguments (mi_successors i))"

definition instruction_uses :: "machine_instruction \<Rightarrow> nat list" where
  "instruction_uses i = mi_inputs i @ passed_arguments i"

text \<open>\<open>block_indices.emplace(name, index)\<close> over the blocks: the first block of a name keeps it.\<close>

definition machine_block_index :: "machine_function \<Rightarrow> string \<Rightarrow> nat option" where
  "machine_block_index f name = position_from 0 name (map mb_name (mf_blocks f))"

definition register_class_of :: "machine_function \<Rightarrow> nat \<Rightarrow> register_class" where
  "register_class_of f r = (case list_at (mf_register_classes f) r of Some c \<Rightarrow> c | None \<Rightarrow> RC_integer)"

definition in_vector_file :: "machine_function \<Rightarrow> nat \<Rightarrow> bool" where
  "in_vector_file f r \<longleftrightarrow> uses_vector_register_file (register_class_of f r)"

lemma position_from_Some: "position_from n x ys = Some k \<Longrightarrow> n \<le> k \<and> k < n + length ys \<and> ys ! (k - n) = x"
  by (induction n x ys rule: position_from.induct) (auto simp: nth_Cons' split: if_splits)

lemma block_index_bound: "machine_block_index f name = Some k \<Longrightarrow> k < length (mf_blocks f)"
  using position_from_Some [of 0 name "map mb_name (mf_blocks f)"] by (simp add: machine_block_index_def)

end
