(* ===== verification/Register_Set.thy ===== *)
theory Register_Set
  imports Machine_IR
begin

text \<open>
  \<open>RegisterBitSet\<close> of \<open>forge/include/forge/machine/liveness.hpp\<close>: a set of virtual registers as a vector of 64-bit words, and
  the proof that its operations are the operations of finite sets. \<open>rs_ok\<close> is the representation invariant: enough words, and no
  bit set at or above the bit count; on such sets the equality of the representation is equality of sets.
\<close>

record register_set =
  rs_bit_count :: nat
  rs_words :: "u64 list"

definition rs_init :: "nat \<Rightarrow> register_set" where
  "rs_init n = \<lparr>rs_bit_count = n, rs_words = replicate ((n + 63) div 64) 0\<rparr>"

definition rs_clear :: "register_set \<Rightarrow> register_set" where
  "rs_clear s = s\<lparr>rs_words := map (\<lambda>_. 0) (rs_words s)\<rparr>"

definition rs_empty :: "register_set \<Rightarrow> bool" where
  "rs_empty s \<longleftrightarrow> list_all (\<lambda>w. w = 0) (rs_words s)"

definition rs_test :: "register_set \<Rightarrow> nat \<Rightarrow> bool" where
  "rs_test s b \<longleftrightarrow> b < rs_bit_count s \<and> (drop_bit (b mod 64) (rs_words s ! (b div 64)) AND 1) \<noteq> 0"

definition rs_set :: "register_set \<Rightarrow> nat \<Rightarrow> register_set" where
  "rs_set s b = (if b < rs_bit_count s
     then s\<lparr>rs_words := (rs_words s)[b div 64 := rs_words s ! (b div 64) OR push_bit (b mod 64) 1]\<rparr> else s)"

definition rs_reset :: "register_set \<Rightarrow> nat \<Rightarrow> register_set" where
  "rs_reset s b = (if b < rs_bit_count s
     then s\<lparr>rs_words := (rs_words s)[b div 64 := rs_words s ! (b div 64) AND NOT (push_bit (b mod 64) 1)]\<rparr> else s)"

fun merge_words :: "u64 list \<Rightarrow> u64 list \<Rightarrow> u64 list" where
  "merge_words (v # vs) (w # ws) = (v OR w) # merge_words vs ws"
| "merge_words vs ws = vs"

definition rs_union :: "register_set \<Rightarrow> register_set \<Rightarrow> register_set" where
  "rs_union s t = s\<lparr>rs_words := merge_words (rs_words s) (rs_words t)\<rparr>"

definition trim_tail :: "register_set \<Rightarrow> register_set" where
  "trim_tail s = (let n = length (rs_words s) in
     if n = 0 \<or> rs_bit_count s mod 64 = 0 then s
     else s\<lparr>rs_words := (rs_words s)[n - 1 := rs_words s ! (n - 1) AND (push_bit (rs_bit_count s mod 64) 1 - 1)]\<rparr>)"

definition rs_union_minus :: "register_set \<Rightarrow> register_set \<Rightarrow> register_set \<Rightarrow> register_set \<Rightarrow> register_set" where
  "rs_union_minus s uses out defs = trim_tail (s\<lparr>rs_words :=
     map (\<lambda>i. rs_words uses ! i OR (rs_words out ! i AND NOT (rs_words defs ! i))) [0..<length (rs_words s)]\<rparr>)"

definition popcount :: "u64 \<Rightarrow> nat" where
  "popcount w = length (filter (bit w) [0..<64])"

definition rs_count :: "register_set \<Rightarrow> nat" where
  "rs_count s = sum_list (map popcount (rs_words s))"

text \<open>\<open>for_each_set_bit\<close> visits these registers: in each word the lowest set bit is taken and cleared until none is left.\<close>

definition countr_zero :: "u64 \<Rightarrow> nat" where
  "countr_zero w = length (takeWhile (\<lambda>i. \<not> bit w i) [0..<64])"

lemma clear_lowest_less: "w \<noteq> 0 \<Longrightarrow> unat (w AND (w - 1)) < unat (w :: u64)"
proof -
  assume "w \<noteq> 0"
  then have "w - 1 < w" by (simp add: word_less_nat_alt unat_minus_one unat_gt_0)
  moreover have "w AND (w - 1) \<le> w - 1" by (rule word_and_le1)
  ultimately show ?thesis by (simp add: word_less_nat_alt word_le_nat_alt)
qed

function word_members :: "nat \<Rightarrow> nat \<Rightarrow> u64 \<Rightarrow> nat list" where
  "word_members n base w = (if w = 0 then []
     else let b = base + countr_zero w; rest = word_members n base (w AND (w - 1)) in if b < n then b # rest else rest)"
  by pat_completeness auto

termination
  by (relation "measure (\<lambda>(n, base, w). unat w)") (simp_all add: clear_lowest_less)

fun members_from :: "nat \<Rightarrow> nat \<Rightarrow> u64 list \<Rightarrow> nat list" where
  "members_from n base [] = []"
| "members_from n base (w # ws) = word_members n base w @ members_from n (base + 64) ws"

definition rs_members :: "register_set \<Rightarrow> nat list" where
  "rs_members s = members_from (rs_bit_count s) 0 (rs_words s)"

declare word_members.simps [simp del]

section \<open>The set that a vector of words stands for\<close>

definition set_of :: "register_set \<Rightarrow> nat set" where
  "set_of s = {b. b < rs_bit_count s \<and> bit (rs_words s ! (b div 64)) (b mod 64)}"

definition rs_ok :: "register_set \<Rightarrow> bool" where
  "rs_ok s \<longleftrightarrow> length (rs_words s) = (rs_bit_count s + 63) div 64 \<and>
     (\<forall>i<length (rs_words s). \<forall>k<64. bit (rs_words s ! i) k \<longrightarrow> 64 * i + k < rs_bit_count s)"

lemma set_of_bound: "b \<in> set_of s \<Longrightarrow> b < rs_bit_count s"
  by (simp add: set_of_def)

lemma finite_set_of [simp]: "finite (set_of s)"
  by (rule finite_subset [of _ "{..<rs_bit_count s}"]) (auto simp: set_of_def)

lemma word_index: "rs_ok s \<Longrightarrow> b < rs_bit_count s \<Longrightarrow> b div 64 < length (rs_words s)"
  by (simp add: rs_ok_def div_less_iff_less_mult)

lemma bit_of_word: "rs_ok s \<Longrightarrow> i < length (rs_words s) \<Longrightarrow> k < 64 \<Longrightarrow> bit (rs_words s ! i) k \<longleftrightarrow> 64 * i + k \<in> set_of s"
  by (auto simp: set_of_def rs_ok_def)

lemma rs_eqI:
  assumes "rs_ok s" "rs_ok t" "rs_bit_count s = rs_bit_count t" "set_of s = set_of t"
  shows "s = t"
proof -
  have len: "length (rs_words s) = length (rs_words t)" using assms by (simp add: rs_ok_def)
  have "rs_words s ! i = rs_words t ! i" if "i < length (rs_words s)" for i
    using that len assms by (intro bit_eqI) (simp add: bit_of_word)
  then have "rs_words s = rs_words t" using len by (intro nth_equalityI)
  then show ?thesis using assms(3) by simp
qed

lemma rs_init_spec: "rs_ok (rs_init n)" "set_of (rs_init n) = {}" "rs_bit_count (rs_init n) = n"
proof -
  show "set_of (rs_init n) = {}"
  proof (rule equals0I)
    fix b assume b: "b \<in> set_of (rs_init n)"
    then have "b div 64 < (n + 63) div 64" by (simp add: set_of_def rs_init_def) arith
    then show False using b by (simp add: set_of_def rs_init_def)
  qed
qed (auto simp: rs_ok_def rs_init_def)

lemma drop_bit_one: "(drop_bit k w AND 1 \<noteq> 0) \<longleftrightarrow> bit (w :: u64) k"
  by (simp add: and_one_eq bit_iff_odd_drop_bit mod_2_eq_odd)

lemma rs_test_spec: "rs_test s b \<longleftrightarrow> b \<in> set_of s"
  by (simp add: rs_test_def drop_bit_one set_of_def)

lemma bit_set_word: "j < 64 \<Longrightarrow> bit (w OR push_bit k (1 :: u64)) j \<longleftrightarrow> bit w j \<or> j = k"
  "j < 64 \<Longrightarrow> bit (w AND NOT (push_bit k (1 :: u64))) j \<longleftrightarrow> bit w j \<and> j \<noteq> k"
  by (auto simp: bit_or_iff bit_and_iff bit_not_iff bit_exp_iff)

lemma same_word: "b div 64 = c div 64 \<Longrightarrow> b mod 64 = c mod 64 \<Longrightarrow> b = (c :: nat)"
  by (metis mult_div_mod_eq)

lemma update_spec:
  assumes "rs_ok s" "b < rs_bit_count s" "\<And>j. j < 64 \<Longrightarrow> bit w j \<longleftrightarrow> (if j = b mod 64 then v else bit (rs_words s ! (b div 64)) j)"
  defines "t \<equiv> s\<lparr>rs_words := (rs_words s)[b div 64 := w]\<rparr>"
  shows "rs_ok t \<and> set_of t = (if v then insert b (set_of s) else set_of s - {b}) \<and> rs_bit_count t = rs_bit_count s"
proof -
  have i: "b div 64 < length (rs_words s)" using word_index assms by simp
  have bits: "bit (rs_words t ! c) k \<longleftrightarrow> (if c = b div 64 \<and> k = b mod 64 then v else bit (rs_words s ! c) k)"
    if "c < length (rs_words s)" "k < 64" for c k
    using that i assms(3) [of k] by (auto simp: t_def nth_list_update)
  have "rs_ok t" unfolding rs_ok_def
  proof (intro conjI allI impI)
    show "length (rs_words t) = (rs_bit_count t + 63) div 64" using assms(1) by (simp add: rs_ok_def t_def)
    fix c k assume "c < length (rs_words t)" "k < 64" "bit (rs_words t ! c) k"
    then have a: "c < length (rs_words s)" "k < 64" "c = b div 64 \<and> k = b mod 64 \<or> bit (rs_words s ! c) k" using bits by (auto simp: t_def split: if_splits)
    then show "64 * c + k < rs_bit_count t" using assms(1,2) by (auto simp: t_def rs_ok_def)
  qed
  moreover have "set_of t = (if v then insert b (set_of s) else set_of s - {b})"
  proof (rule set_eqI)
  fix c show "c \<in> set_of t \<longleftrightarrow> c \<in> (if v then insert b (set_of s) else set_of s - {b})"
  proof (cases "c < rs_bit_count s")
    case True
    then have "c div 64 < length (rs_words s)" using word_index assms(1) by simp
    then show ?thesis using True bits [of "c div 64" "c mod 64"] assms(2) same_word [of c b] by (auto simp: set_of_def t_def)
  next
    case False
    then show ?thesis using assms(2) by (auto simp: set_of_def t_def)
  qed
  qed
  moreover have "rs_bit_count t = rs_bit_count s" by (simp add: t_def)
  ultimately show ?thesis by blast
qed

lemma rs_set_spec: "rs_ok s \<Longrightarrow> rs_ok (rs_set s b) \<and> set_of (rs_set s b) = (if b < rs_bit_count s then insert b (set_of s) else set_of s) \<and>
    rs_bit_count (rs_set s b) = rs_bit_count s"
proof (cases "b < rs_bit_count s")
  case True
  assume "rs_ok s"
  then show ?thesis using update_spec [of s b "rs_words s ! (b div 64) OR push_bit (b mod 64) 1" True, OF _ True] True
    by (simp add: rs_set_def bit_set_word del: push_bit_of_1)
qed (simp add: rs_set_def)

lemma rs_reset_spec: "rs_ok s \<Longrightarrow> rs_ok (rs_reset s b) \<and> set_of (rs_reset s b) = set_of s - {b} \<and> rs_bit_count (rs_reset s b) = rs_bit_count s"
proof (cases "b < rs_bit_count s")
  case True
  assume "rs_ok s"
  then show ?thesis using update_spec [of s b "rs_words s ! (b div 64) AND NOT (push_bit (b mod 64) 1)" False, OF _ True] True
    by (simp add: rs_reset_def bit_set_word del: push_bit_of_1)
qed (auto simp: rs_reset_def dest: set_of_bound)

lemma merge_words_nth: "length ws = length vs \<Longrightarrow> length (merge_words vs ws) = length vs \<and> (\<forall>i<length vs. merge_words vs ws ! i = vs ! i OR ws ! i)"
  by (induction vs ws rule: merge_words.induct) (auto simp: nth_Cons')

lemma same_length: "rs_ok s \<Longrightarrow> rs_ok t \<Longrightarrow> rs_bit_count s = rs_bit_count t \<Longrightarrow> length (rs_words s) = length (rs_words t)"
  by (simp add: rs_ok_def)

lemma set_of_bits: 
  assumes "rs_bit_count t = rs_bit_count s" "length (rs_words t) = length (rs_words s)" "rs_ok s"
    "\<And>i k. i < length (rs_words s) \<Longrightarrow> k < 64 \<Longrightarrow> bit (rs_words t ! i) k \<longleftrightarrow> 64 * i + k \<in> A" "A \<subseteq> {..<rs_bit_count s}"
  shows "rs_ok t \<and> set_of t = A"
proof
  show "rs_ok t" using assms by (auto simp: rs_ok_def)
  have "b \<in> set_of t \<longleftrightarrow> b \<in> A" for b
  proof (cases "b < rs_bit_count s")
    case True
    then show ?thesis using assms(1) assms(4) [of "b div 64" "b mod 64"] word_index [OF assms(3)] by (simp add: set_of_def)
  next
    case False
    then show ?thesis using assms(1,5) by (auto simp: set_of_def)
  qed
  then show "set_of t = A" by auto
qed

lemma rs_union_spec:
  assumes "rs_ok s" "rs_ok t" "rs_bit_count s = rs_bit_count t"
  shows "rs_ok (rs_union s t) \<and> set_of (rs_union s t) = set_of s \<union> set_of t"
proof (rule set_of_bits)
  note merge = merge_words_nth [OF same_length [OF assms, symmetric]]
  show "length (rs_words (rs_union s t)) = length (rs_words s)" using merge by (simp add: rs_union_def)
  fix i k assume "i < length (rs_words s)" "k < (64 :: nat)"
  then show "bit (rs_words (rs_union s t) ! i) k \<longleftrightarrow> 64 * i + k \<in> set_of s \<union> set_of t"
    using merge assms bit_of_word [of s i k] bit_of_word [of t i k] same_length [OF assms] by (simp add: rs_union_def bit_or_iff)
next
  show "set_of s \<union> set_of t \<subseteq> {..<rs_bit_count s}" using set_of_bound [of _ s] set_of_bound [of _ t] assms(3) by auto
qed (use assms in \<open>simp_all add: rs_union_def\<close>)

lemma bit_tail: "bit (push_bit m (1 :: u64) - 1) k \<longleftrightarrow> k < 64 \<and> k < m"
proof -
  have "push_bit m (1 :: u64) - 1 = mask m" by (simp add: mask_eq_exp_minus_1 push_bit_of_1)
  then show ?thesis by (auto simp: bit_mask_iff)
qed

lemma round_up: "0 < r \<Longrightarrow> r < 64 \<Longrightarrow> (64 * q + r + 63) div 64 = q + (1 :: nat)"
proof -
  assume "0 < r" "r < 64"
  then obtain p where p: "r = Suc p" "p < 64" by (cases r) auto
  then have "64 * q + r + 63 = p + (q + 1) * 64" by simp
  then have "(64 * q + r + 63) div 64 = (p + (q + 1) * 64) div 64" by (rule arg_cong)
  also have "\<dots> = q + 1" using p(2) by (subst div_mult_self1) simp_all
  finally show ?thesis .
qed

lemma in_tail:
  assumes "i = (n + 63) div 64 - 1" "n mod 64 \<noteq> 0" "k < (64 :: nat)"
  shows "64 * i + k < n \<longleftrightarrow> k < n mod 64"
proof -
  let ?q = "n div 64" and ?r = "n mod 64"
  have n: "n = 64 * ?q + ?r" "?r < 64" "0 < ?r" using assms(2) by simp_all
  have "(64 * ?q + ?r + 63) div 64 = ?q + 1" by (rule round_up) (use n in auto)
  then have "(n + 63) div 64 = ?q + 1" by simp
  then have "i = ?q" using assms(1) by simp
  then show ?thesis using n by linarith
qed

lemma rs_union_minus_spec:
  assumes "rs_ok s" "rs_ok uses" "rs_ok out" "rs_ok defs"
    "rs_bit_count uses = rs_bit_count s" "rs_bit_count out = rs_bit_count s" "rs_bit_count defs = rs_bit_count s"
  shows "rs_ok (rs_union_minus s uses out defs) \<and> set_of (rs_union_minus s uses out defs) = set_of uses \<union> (set_of out - set_of defs)"
proof (rule set_of_bits)
  let ?t = "rs_union_minus s uses out defs" and ?n = "length (rs_words s)" and ?A = "set_of uses \<union> (set_of out - set_of defs)"
  show count: "rs_bit_count ?t = rs_bit_count s" "length (rs_words ?t) = length (rs_words s)"
    by (simp_all add: rs_union_minus_def trim_tail_def Let_def)
  have tail: "i = ?n - 1 \<Longrightarrow> rs_bit_count s mod 64 \<noteq> 0 \<Longrightarrow> 64 * i + k < rs_bit_count s \<longleftrightarrow> k < rs_bit_count s mod 64" if "i < ?n" "k < 64" for i k
  proof -
    assume "i = ?n - 1" "rs_bit_count s mod 64 \<noteq> 0"
    moreover have "?n = (rs_bit_count s + 63) div 64" using assms(1) by (simp only: rs_ok_def)
    ultimately show "64 * i + k < rs_bit_count s \<longleftrightarrow> k < rs_bit_count s mod 64" using in_tail [OF _ _ that(2)] by metis
  qed
  fix i k assume i: "i < ?n" and k: "k < (64 :: nat)"
  let ?w = "rs_words uses ! i OR (rs_words out ! i AND NOT (rs_words defs ! i))"
  have w: "bit ?w k \<longleftrightarrow> 64 * i + k \<in> ?A"
    using bit_of_word [OF assms(2), of i k] bit_of_word [OF assms(3), of i k] bit_of_word [OF assms(4), of i k] i k
      same_length [OF assms(2) assms(1)] same_length [OF assms(3) assms(1)] same_length [OF assms(4) assms(1)] assms(5-7)
    by (simp add: bit_or_iff bit_and_iff bit_not_iff)
  have "rs_words ?t ! i = ?w \<or> i = ?n - 1 \<and> rs_words ?t ! i = ?w AND (push_bit (rs_bit_count s mod 64) 1 - 1) \<and> rs_bit_count s mod 64 \<noteq> 0"
    using i by (auto simp: rs_union_minus_def trim_tail_def Let_def nth_list_update)
  moreover have "64 * i + k < rs_bit_count s" if "64 * i + k \<in> ?A"
    using that assms(5,6) set_of_bound [of "64 * i + k" uses] set_of_bound [of "64 * i + k" out] by auto
  ultimately show "bit (rs_words ?t ! i) k \<longleftrightarrow> 64 * i + k \<in> ?A"
  proof (elim disjE)
    assume "rs_words ?t ! i = ?w"
    then show ?thesis using w by (simp only:)
  next
    assume in_A: "64 * i + k \<in> ?A \<Longrightarrow> 64 * i + k < rs_bit_count s"
      and last: "i = ?n - 1 \<and> rs_words ?t ! i = ?w AND (push_bit (rs_bit_count s mod 64) 1 - 1) \<and> rs_bit_count s mod 64 \<noteq> 0"
    have "bit (rs_words ?t ! i) k \<longleftrightarrow> bit ?w k \<and> k < rs_bit_count s mod 64" 
      using last [THEN conjunct2, THEN conjunct1] k by (simp only: bit_and_iff bit_tail simp_thms)
    then show ?thesis using w in_A tail [OF i k] last by blast
  qed
next
  show "set_of uses \<union> (set_of out - set_of defs) \<subseteq> {..<rs_bit_count s}"
    using set_of_bound [of _ uses] set_of_bound [of _ out] assms(5,6) by auto
qed (use assms in simp_all)

section \<open>Counting and enumerating\<close>

declare upt_rec_numeral [simp del]

lemma lowest_bit:
  assumes "w \<noteq> (0 :: u64)"
  shows "countr_zero w < 64" "bit w (countr_zero w)" "j < countr_zero w \<Longrightarrow> \<not> bit w j"
proof -
  let ?c = "countr_zero w"
  obtain k where k: "bit w k" using assms by (auto simp: bit_eq_iff)
  then have "k < 64" using bit_imp_le_length [of w k] by simp
  then have "length (takeWhile (\<lambda>i. \<not> bit w i) [0..<64]) \<noteq> length [0..<64]"
    using k takeWhile_eq_all_conv [of "\<lambda>i. \<not> bit w i" "[0..<64]"] by (metis append_Nil2 append_eq_append_conv atLeastLessThan_iff set_upt takeWhile_dropWhile_id zero_le)
  then have len: "length (takeWhile (\<lambda>i. \<not> bit w i) [0..<64]) < length [0..<64]" using length_takeWhile_le le_neq_implies_less by blast
  then show c: "?c < 64" by (simp add: countr_zero_def)
  show "bit w ?c" using nth_length_takeWhile [OF len] c by (simp add: countr_zero_def)
  assume j: "j < ?c"
  have "takeWhile (\<lambda>i. \<not> bit w i) [0..<64] ! j = [0..<64] ! j" by (rule takeWhile_nth) (use j in \<open>simp add: countr_zero_def\<close>)
  then have "j \<in> set (takeWhile (\<lambda>i. \<not> bit w i) [0..<64])"
    using nth_mem [of j "takeWhile (\<lambda>i. \<not> bit w i) [0..<64]"] j c by (simp add: countr_zero_def)
  then show "\<not> bit w j" by (auto dest: set_takeWhileD)
qed

lemma clear_lowest_bits:
  assumes "w \<noteq> (0 :: u64)"
  shows "bit (w AND (w - 1)) j \<longleftrightarrow> bit w j \<and> j \<noteq> countr_zero w"
proof -
  define c where "c = countr_zero w"
  define u where "u = w AND NOT (2 ^ c)"
  have c: "c < 64" "bit w c" "\<And>j. j < c \<Longrightarrow> \<not> bit w j" using lowest_bit [OF assms] by (auto simp: c_def)
  have u: "bit u j \<longleftrightarrow> bit w j \<and> j \<noteq> c" for j
    using bit_imp_le_length [of w j] by (auto simp: u_def bit_and_iff bit_not_iff bit_exp_iff)
  have "u + 2 ^ c = u OR 2 ^ c" by (rule disjunctive_add_eq_or) (auto simp: bit_eq_iff bit_and_iff bit_exp_iff u)
  also have "\<dots> = w" using c by (intro bit_eqI) (auto simp: bit_or_iff bit_exp_iff u)
  finally have w: "w = u + 2 ^ c" ..
  have "w - 1 = u + mask c" by (simp add: w mask_eq_exp_minus_1)
  also have "\<dots> = u OR mask c" by (rule disjunctive_add_eq_or) (use c u in \<open>auto simp: bit_eq_iff bit_and_iff bit_mask_iff\<close>)
  finally have "bit (w - 1) j \<longleftrightarrow> bit u j \<or> j < c" using c(1) by (auto simp: bit_or_iff bit_mask_iff)
  then show ?thesis using c u by (auto simp: bit_and_iff c_def)
qed

lemma filter_from:
  assumes "j < n" "P j" "\<And>i. i < j \<Longrightarrow> \<not> P i"
  shows "filter P [0..<n] = j # filter (\<lambda>i. P i \<and> i \<noteq> j) [0..<n]"
proof -
  have "[0..<n] = [0..<j] @ [j..<n]" using assms(1) upt_add_eq_append [of 0 j "n - j"] by simp
  then have split: "[0..<n] = [0..<j] @ j # [Suc j..<n]" using assms(1) by (simp add: upt_conv_Cons)
  have "filter P [0..<j] = []" "filter (\<lambda>i. P i \<and> i \<noteq> j) [0..<j] = []" using assms(3) by (auto simp: filter_empty_conv)
  moreover have "filter (\<lambda>i. P i \<and> i \<noteq> j) [Suc j..<n] = filter P [Suc j..<n]" by (rule filter_cong) auto
  ultimately show ?thesis using assms(2) by (simp add: split)
qed

lemma word_members_spec: "word_members n base w = filter (\<lambda>b. b < n) (map ((+) base) (filter (bit w) [0..<64]))"
proof (induction n base w rule: word_members.induct)
  case (1 n base w)
  show ?case
  proof (cases "w = 0")
    case True
    then show ?thesis by (subst word_members.simps) simp
  next
    case False
    have "filter (bit w) [0..<64] = countr_zero w # filter (\<lambda>i. bit w i \<and> i \<noteq> countr_zero w) [0..<64]"
      by (rule filter_from) (use lowest_bit [OF False] in auto)
    also have "filter (\<lambda>i. bit w i \<and> i \<noteq> countr_zero w) [0..<64] = filter (bit (w AND (w - 1))) [0..<64]"
      by (rule filter_cong) (simp_all add: clear_lowest_bits [OF False])
    finally show ?thesis using 1 [OF False refl] False by (subst word_members.simps) (simp add: Let_def)
  qed
qed

lemma upt_words: "[0..<64 * length (w # ws)] = [0..<64] @ map ((+) 64) [0..<64 * length ws]"
proof -
  have "map (\<lambda>i. i + 64) [0..<n] = [64..<64 + n]" for n using map_add_upt [of 64 n] by (simp add: add.commute)
  moreover have "(\<lambda>i. i + 64) = (+) (64 :: nat)" by (simp add: fun_eq_iff)
  ultimately show ?thesis using upt_add_eq_append [of 0 64 "64 * length ws"] by simp
qed

lemma next_word: "(64 + x) div 64 = Suc (x div 64)" for x :: nat
  by simp

lemma members_from_spec: "members_from n base ws = filter (\<lambda>b. b < n) (map ((+) base) (filter (\<lambda>b. bit (ws ! (b div 64)) (b mod 64)) [0..<64 * length ws]))"
proof (induction n base ws rule: members_from.induct)
  case (2 n base w ws)
  note upt_words [of w ws]
  moreover have "filter (\<lambda>b. bit ((w # ws) ! (b div 64)) (b mod 64)) [0..<64] = filter (bit w) [0..<64]" by (rule filter_cong) simp_all
  ultimately show ?case using 2 by (simp add: word_members_spec filter_map comp_def add.assoc next_word)
qed simp

text \<open>The members come in ascending order, each once.\<close>

lemma rs_members_spec:
  assumes "rs_ok s"
  shows "rs_members s = sorted_list_of_set (set_of s)"
proof -
  let ?P = "\<lambda>b. bit (rs_words s ! (b div 64)) (b mod 64)"
  have eq: "rs_members s = filter (\<lambda>b. b < rs_bit_count s \<and> ?P b) [0..<64 * length (rs_words s)]"
    by (simp add: rs_members_def members_from_spec filter_map comp_def conj_commute map_idI)
  have "b < 64 * length (rs_words s)" if "b < rs_bit_count s" for b
    using word_index [OF assms that] by (simp add: div_less_iff_less_mult mult.commute)
  then have "set (rs_members s) = set_of s" using eq by (auto simp: set_of_def)
  moreover have "sorted (rs_members s)" "distinct (rs_members s)" unfolding eq by (simp_all add: sorted_wrt_filter)
  ultimately show ?thesis by (metis sorted_list_of_set.idem_if_sorted_distinct)
qed

lemma popcount_words: "sum_list (map popcount ws) = length (filter (\<lambda>b. bit (ws ! (b div 64)) (b mod 64)) [0..<64 * length ws])"
proof (induction ws)
  case (Cons w ws)
  note upt_words [of w ws]
  moreover have "filter (\<lambda>b. bit ((w # ws) ! (b div 64)) (b mod 64)) [0..<64] = filter (bit w) [0..<64]" by (rule filter_cong) simp_all
  ultimately show ?case using Cons.IH by (simp add: popcount_def filter_map comp_def next_word)
qed simp

lemma rs_count_spec:
  assumes "rs_ok s"
  shows "rs_count s = card (set_of s)"
proof -
  have "filter (\<lambda>b. bit (rs_words s ! (b div 64)) (b mod 64)) [0..<64 * length (rs_words s)] = rs_members s"
  proof -
    have "b < rs_bit_count s" if "bit (rs_words s ! (b div 64)) (b mod 64)" "b < 64 * length (rs_words s)" for b
    proof -
      have "b div 64 < length (rs_words s)" using that(2) by (simp add: div_less_iff_less_mult mult.commute)
      then have "64 * (b div 64) + b mod 64 \<in> set_of s" using bit_of_word [OF assms] that(1) by simp
      then show ?thesis using set_of_bound by simp
    qed
    then show ?thesis unfolding rs_members_def members_from_spec by (auto simp: filter_map comp_def map_idI intro!: filter_cong)
  qed
  then show ?thesis by (simp add: rs_count_def popcount_words rs_members_spec [OF assms])
qed

text \<open>
  C38. The bit-set operations of the machine passes are the operations of finite sets of registers: \<open>test\<close> is membership, \<open>set\<close> and
  \<open>reset\<close> insert (below the bit count) and remove, \<open>union_with\<close> and \<open>assign_union_minus\<close> are union and difference, \<open>count\<close> is the
  cardinality, \<open>empty\<close> the test for the empty set, \<open>for_each_set_bit\<close> visits the members in ascending order, each once, and
  the equality of the representation is the equality of the sets.
\<close>

theorem register_set_refines:
  assumes "rs_ok s" "rs_ok t" "rs_ok u" "rs_bit_count t = rs_bit_count s" "rs_bit_count u = rs_bit_count s"
  shows "(rs_test s b \<longleftrightarrow> b \<in> set_of s) \<and>
    set_of (rs_set s b) = (if b < rs_bit_count s then insert b (set_of s) else set_of s) \<and>
    set_of (rs_reset s b) = set_of s - {b} \<and>
    set_of (rs_union s t) = set_of s \<union> set_of t \<and>
    set_of (rs_union_minus (rs_init (rs_bit_count s)) s t u) = set_of s \<union> (set_of t - set_of u) \<and>
    rs_count s = card (set_of s) \<and>
    (rs_empty s \<longleftrightarrow> set_of s = {}) \<and>
    rs_members s = sorted_list_of_set (set_of s) \<and>
    (s = t \<longleftrightarrow> set_of s = set_of t)"
proof -
  have "rs_empty s \<longleftrightarrow> (\<forall>i<length (rs_words s). rs_words s ! i = 0)" by (simp add: rs_empty_def list_all_length)
  also have "\<dots> \<longleftrightarrow> (\<forall>i<length (rs_words s). \<forall>k<64. \<not> bit (rs_words s ! i) k)"
    using bit_imp_le_length by (fastforce simp: bit_eq_iff)
  also have "\<dots> \<longleftrightarrow> set_of s = {}"
  proof -
    have "b \<in> set_of s \<Longrightarrow> \<exists>i<length (rs_words s). \<exists>k<64. bit (rs_words s ! i) k" for b
      using word_index [OF assms(1)] set_of_bound [of b s] by (intro exI [of _ "b div 64"] conjI exI [of _ "b mod 64"]) (simp_all add: set_of_def)
    then show ?thesis using bit_of_word [OF assms(1)] by blast
  qed
  finally have "rs_empty s \<longleftrightarrow> set_of s = {}" .
  moreover have "s = t \<longleftrightarrow> set_of s = set_of t" using rs_eqI [OF assms(1,2)] assms(4) by auto
  moreover have "set_of (rs_union_minus (rs_init (rs_bit_count s)) s t u) = set_of s \<union> (set_of t - set_of u)"
    using rs_union_minus_spec [of "rs_init (rs_bit_count s)" s t u] assms by (simp add: rs_init_spec)
  ultimately show ?thesis
    using rs_set_spec [OF assms(1)] rs_reset_spec [OF assms(1)] rs_union_spec [OF assms(1,2) assms(4) [symmetric]]
    by (simp add: rs_test_spec rs_count_spec [OF assms(1)] rs_members_spec [OF assms(1)])
qed

declare upt_rec_numeral [simp]

theorem register_set_refines_witness:
  "set_of (rs_union (rs_set (rs_init 70) 65) (rs_set (rs_init 70) 3)) = set_of (rs_set (rs_init 70) 65) \<union> set_of (rs_set (rs_init 70) 3)"
proof -
  have "rs_ok (rs_set (rs_init 70) 65)" "rs_ok (rs_set (rs_init 70) 3)" "rs_ok (rs_init 70)" by (simp_all add: rs_set_spec rs_init_spec)
  moreover have "rs_bit_count (rs_set (rs_init 70) 65) = 70" "rs_bit_count (rs_set (rs_init 70) 3) = 70" "rs_bit_count (rs_init 70) = 70"
    by (simp_all add: rs_set_spec rs_init_spec)
  ultimately show ?thesis using register_set_refines [of "rs_set (rs_init 70) 65" "rs_set (rs_init 70) 3" "rs_init 70"] by simp
qed

end
