(* ===== verification/Liveness.thy ===== *)
theory Liveness
  imports Register_Set "HOL-Library.While_Combinator"
begin

text \<open>
  Liveness of virtual registers (\<open>forge/src/machine/liveness.cpp\<close>): the registers each block reads before it writes them
  and writes, a worklist over the blocks in reverse order until the boundary sets no longer change, and the registers live
  after each instruction. The loop of rounds is a \<open>while_option\<close>: \<open>None\<close> would be an analysis that never ends.
\<close>

definition has_result :: "machine_opcode \<Rightarrow> bool" where
  "has_result oc \<longleftrightarrow> oc \<notin> {''store_stack_i8'', ''store_stack_i16'', ''store_stack_i32'', ''store_stack_i64'', ''store_stack_f32'', ''store_stack_f64'',
     ''store_stack_v128'', ''store_stack_v256'', ''store_stack_v512'', ''store_ptr_i8'', ''store_ptr_i16'', ''store_ptr_i32'', ''store_ptr_i64'',
     ''store_ptr_f32'', ''store_ptr_f64'', ''add_i64_contiguous_inplace'', ''binary_i32_contiguous_inplace'', ''binary_i64_contiguous_inplace'',
     ''binary_i32_contiguous_map'', ''binary_i64_contiguous_map'', ''binary_i32_contiguous_map2'', ''binary_i64_contiguous_map2'',
     ''binary_i32_contiguous_map3'', ''binary_i64_contiguous_map3'', ''binary_i32_contiguous_chain'', ''binary_i64_contiguous_chain'',
     ''binary_i32_contiguous_dag'', ''binary_i64_contiguous_dag'', ''binary_i32_contiguous_dag_reuse'', ''binary_i64_contiguous_dag_reuse'',
     ''call_void'', ''call_aggregate'', ''call_indirect_void'', ''jump'', ''branch_i1'', ''return_i32'', ''return_i64'', ''return_f32'',
     ''return_f64'', ''return_void'', ''return_aggregate''}"

section \<open>What a block reads and writes\<close>

type_synonym use_def = "register_set \<times> register_set"

definition record_use :: "nat \<Rightarrow> nat \<Rightarrow> use_def \<Rightarrow> use_def" where
  "record_use n r = (\<lambda>(uses, defs). if r < n \<and> \<not> rs_test defs r then (rs_set uses r, defs) else (uses, defs))"

definition record_result :: "nat \<Rightarrow> machine_instruction \<Rightarrow> use_def \<Rightarrow> use_def" where
  "record_result n i = (\<lambda>(uses, defs). if has_result (mi_opcode i) \<and> mi_result i < n then (uses, rs_set defs (mi_result i)) else (uses, defs))"

definition record_instruction :: "nat \<Rightarrow> machine_instruction \<Rightarrow> use_def \<Rightarrow> use_def" where
  "record_instruction n i ud = record_result n i (fold (record_use n) (instruction_uses i) ud)"

definition block_use_def :: "nat \<Rightarrow> machine_block \<Rightarrow> use_def" where
  "block_use_def n b = fold (record_instruction n) (mb_instructions b)
     (rs_init n, fold (\<lambda>p defs. if p < n then rs_set defs p else defs) (mb_parameters b) (rs_init n))"

definition flow_successors :: "machine_function \<Rightarrow> machine_block \<Rightarrow> nat list" where
  "flow_successors f b = concat (map (\<lambda>i. List.map_filter (\<lambda>s. machine_block_index f (su_block s)) (mi_successors i)) (mb_instructions b))"

definition block_predecessors :: "nat list list \<Rightarrow> nat list list" where
  "block_predecessors succs = fold (\<lambda>source preds. fold (\<lambda>s preds. preds[s := preds ! s @ [source]]) (succs ! source) preds)
     [0..<length succs] (replicate (length succs) [])"

section \<open>The worklist\<close>

record flow_problem =
  fp_count :: nat
  fp_uses :: "register_set list"
  fp_defs :: "register_set list"
  fp_successors :: "nat list list"

record liveness_state =
  lv_in :: "register_set list"
  lv_out :: "register_set list"
  lv_dirty :: "bool list"
  lv_next_dirty :: "bool list"
  lv_has_dirty :: bool
  lv_rounds :: nat

definition visit_block :: "flow_problem \<Rightarrow> nat \<Rightarrow> liveness_state \<Rightarrow> liveness_state" where
  "visit_block p b st =
     (if \<not> lv_dirty st ! b then st
      else let out = fold (\<lambda>s out. rs_union out (lv_in st ! s)) (fp_successors p ! b) (rs_init (fp_count p));
               inn = rs_union_minus (rs_init (fp_count p)) (fp_uses p ! b) out (fp_defs p ! b);
               preds = block_predecessors (fp_successors p) ! b
           in if out = lv_out st ! b \<and> inn = lv_in st ! b then st
              else st\<lparr>lv_in := (lv_in st)[b := inn], lv_out := (lv_out st)[b := out],
                lv_next_dirty := fold (\<lambda>q d. d[q := True]) preds (lv_next_dirty st),
                lv_has_dirty := lv_has_dirty st \<or> preds \<noteq> []\<rparr>)"

definition liveness_round :: "flow_problem \<Rightarrow> liveness_state \<Rightarrow> liveness_state" where
  "liveness_round p st =
     (let n = length (fp_uses p);
          st' = fold (visit_block p) (rev [0..<n])
            (st\<lparr>lv_has_dirty := False, lv_next_dirty := replicate n False, lv_rounds := lv_rounds st + 1\<rparr>)
      in st'\<lparr>lv_dirty := lv_next_dirty st', lv_next_dirty := lv_dirty st'\<rparr>)"

definition liveness_init :: "flow_problem \<Rightarrow> liveness_state" where
  "liveness_init p = (let n = length (fp_uses p) in
     \<lparr>lv_in = replicate n (rs_init (fp_count p)), lv_out = replicate n (rs_init (fp_count p)), lv_dirty = replicate n True,
      lv_next_dirty = replicate n False, lv_has_dirty = (n \<noteq> 0), lv_rounds = 0\<rparr>)"

definition liveness_fixed_point :: "flow_problem \<Rightarrow> liveness_state option" where
  "liveness_fixed_point p = while_option lv_has_dirty (liveness_round p) (liveness_init p)"

section \<open>Inside a block\<close>

definition live_before_instruction :: "machine_instruction \<Rightarrow> register_set \<Rightarrow> register_set" where
  "live_before_instruction i live =
     (let live' = (if has_result (mi_opcode i) \<and> mi_result i < rs_bit_count live then rs_reset live (mi_result i) else live)
      in fold (\<lambda>r l. if r < rs_bit_count l then rs_set l r else l) (instruction_uses i) live')"

fun live_after_list :: "machine_instruction list \<Rightarrow> register_set \<Rightarrow> register_set list \<times> register_set" where
  "live_after_list [] out = ([], out)"
| "live_after_list (i # is) out = (case live_after_list is out of (afters, live) \<Rightarrow> (live # afters, live_before_instruction i live))"

record liveness_analysis =
  la_uses :: "register_set list"
  la_defs :: "register_set list"
  la_live_in :: "register_set list"
  la_live_out :: "register_set list"
  la_live_after :: "register_set list list"
  la_successors :: "nat list list"
  la_fixed_point_iterations :: u32
  la_cross_block_live_values :: u32

definition flow_problem_of :: "machine_function \<Rightarrow> flow_problem" where
  "flow_problem_of f = (let uds = map (block_use_def (mf_register_count f)) (mf_blocks f) in
     \<lparr>fp_count = mf_register_count f, fp_uses = map fst uds, fp_defs = map snd uds, fp_successors = map (flow_successors f) (mf_blocks f)\<rparr>)"

definition analyze_liveness :: "machine_function \<Rightarrow> bool \<Rightarrow> liveness_analysis option" where
  "analyze_liveness f include_instruction_liveness =
     (let p = flow_problem_of f
      in map_option (\<lambda>st. \<lparr>la_uses = fp_uses p, la_defs = fp_defs p, la_live_in = lv_in st, la_live_out = lv_out st,
           la_live_after = (if include_instruction_liveness
              then map (\<lambda>(b, out). fst (live_after_list (mb_instructions b) out)) (zip (mf_blocks f) (lv_out st)) else []),
           la_successors = fp_successors p, la_fixed_point_iterations = of_nat (lv_rounds st),
           la_cross_block_live_values = of_nat (sum_list (map rs_count (lv_out st)) +
              sum_list (map (\<lambda>b. sum_list (map (\<lambda>i. length (passed_arguments i)) (mb_instructions b))) (mf_blocks f)))\<rparr>)
         (liveness_fixed_point p))"

end
