(* ===== verification/Live_Intervals.thy ===== *)
theory Live_Intervals
  imports Liveness
begin

text \<open>
  Live intervals (\<open>compute_live_intervals\<close> in \<open>forge/src/machine/register_allocation.cpp\<close>): each block gets a position for its
  parameters, one for each instruction, and its end is the position of the next block; each block that touches a register gives it one
  segment. Positions are integers, and \<open>undefined_position\<close> is the largest 32-bit number. The counters of an interval wrap as the
  code's do.
\<close>

record live_segment =
  ls_start :: int
  ls_end :: int

record live_interval =
  li_register :: nat
  li_start :: int
  li_end :: int
  li_use_count :: u32
  li_spill_weight :: u32
  li_loop_depth :: u32
  li_call_crossing_count :: u32
  li_segments :: "live_segment list"

definition undefined_position :: int where
  "undefined_position = 4294967295"

definition produces_result :: "machine_opcode \<Rightarrow> bool" where
  "produces_result oc \<longleftrightarrow> oc \<notin> {''store_stack_i8'', ''store_stack_i16'', ''store_stack_i32'', ''store_stack_i64'', ''store_stack_f32'', ''store_stack_f64'',
     ''store_ptr_i8'', ''store_ptr_i16'', ''store_ptr_i32'', ''store_ptr_i64'', ''store_ptr_f32'', ''store_ptr_f64'', ''call_void'', ''call_aggregate'',
     ''call_indirect_void'', ''jump'', ''branch_i1'', ''return_i32'', ''return_i64'', ''return_f32'', ''return_f64'', ''return_void'', ''return_aggregate''}"

section \<open>Positions and loop depths\<close>

text \<open>The first and the last position of each block.\<close>

fun block_bounds :: "int \<Rightarrow> machine_block list \<Rightarrow> (int \<times> int) list" where
  "block_bounds p [] = []"
| "block_bounds p (b # bs) = (let e = p + 1 + int (length (mb_instructions b)) in (p, e) # block_bounds e bs)"

definition loop_depths :: "nat list list \<Rightarrow> nat list" where
  "loop_depths succs = fold (\<lambda>source ds. fold (\<lambda>target ds. if target > source then ds
       else fold (\<lambda>m ds. ds[m := ds ! m + 1]) [target..<Suc source] ds) (succs ! source) ds)
     [0..<length succs] (replicate (length succs) 0)"

section \<open>Scanning the blocks\<close>

record interval_state =
  iv_intervals :: "live_interval list"
  iv_first :: "int list"
  iv_last :: "int list"
  iv_touched :: "nat list"

definition touch_register :: "nat \<Rightarrow> int \<Rightarrow> interval_state \<Rightarrow> interval_state" where
  "touch_register r at st = (if r \<ge> length (iv_intervals st) then st
     else let iv = iv_intervals st ! r
          in st\<lparr>iv_intervals := (iv_intervals st)[r := iv\<lparr>li_start := min (li_start iv) at, li_end := max (li_end iv) at\<rparr>]\<rparr>)"

definition mark_register :: "nat \<Rightarrow> nat \<Rightarrow> int \<Rightarrow> interval_state \<Rightarrow> interval_state" where
  "mark_register n r at st = (if r \<ge> n then st
     else st\<lparr>iv_touched := (if iv_first st ! r = undefined_position then iv_touched st @ [r] else iv_touched st),
            iv_first := (iv_first st)[r := min (iv_first st ! r) at], iv_last := (iv_last st)[r := max (iv_last st ! r) at]\<rparr>)"

definition touch_mark :: "nat \<Rightarrow> int \<Rightarrow> nat \<Rightarrow> interval_state \<Rightarrow> interval_state" where
  "touch_mark n at r st = mark_register n r at (touch_register r at st)"

definition weigh_use :: "u32 \<Rightarrow> u32 \<Rightarrow> nat \<Rightarrow> live_interval \<Rightarrow> live_interval" where
  "weigh_use weight multiplier depth iv =
     iv\<lparr>li_use_count := li_use_count iv + 1,
        li_spill_weight := (if li_use_count iv = 0 then 1 else li_spill_weight iv) + weight * multiplier,
        li_loop_depth := max (li_loop_depth iv) (of_nat depth)\<rparr>"

definition interval_use :: "nat \<Rightarrow> nat \<Rightarrow> int \<Rightarrow> u32 \<Rightarrow> nat \<Rightarrow> interval_state \<Rightarrow> interval_state" where
  "interval_use n depth at weight r st =
     (if r \<ge> n then st
      else let multiplier = (if depth = 0 then 1 else if depth = 1 then 8 else 32); st' = touch_mark n at r st
           in st'\<lparr>iv_intervals := (iv_intervals st')[r := weigh_use weight multiplier depth (iv_intervals st' ! r)]\<rparr>)"

definition interval_instruction :: "nat \<Rightarrow> nat \<Rightarrow> int \<Rightarrow> machine_instruction \<Rightarrow> interval_state \<Rightarrow> interval_state" where
  "interval_instruction n depth at i st =
     (let st1 = fold (interval_use n depth at 2) (mi_inputs i) st;
          st2 = fold (interval_use n depth at 4) (passed_arguments i) st1
      in if produces_result (mi_opcode i) \<and> mi_result i < n then touch_mark n at (mi_result i) st2 else st2)"

definition close_segments :: "interval_state \<Rightarrow> interval_state" where
  "close_segments st = fold (\<lambda>r st. st\<lparr>
       iv_intervals := (iv_intervals st)[r := (iv_intervals st ! r)\<lparr>li_segments := li_segments (iv_intervals st ! r) @ [\<lparr>ls_start = iv_first st ! r, ls_end = iv_last st ! r\<rparr>]\<rparr>],
       iv_first := (iv_first st)[r := undefined_position], iv_last := (iv_last st)[r := 0]\<rparr>) (iv_touched st) st"

definition interval_block :: "machine_function \<Rightarrow> liveness_analysis \<Rightarrow> nat \<Rightarrow> interval_state \<Rightarrow> interval_state" where
  "interval_block f la b st =
     (let n = mf_register_count f; block = mf_blocks f ! b; depth = loop_depths (la_successors la) ! b;
          (s, e) = block_bounds 0 (mf_blocks f) ! b;
          st1 = fold (touch_mark n s) (rs_members (la_live_in la ! b)) (st\<lparr>iv_touched := []\<rparr>);
          st2 = fold (touch_mark n e) (rs_members (la_live_out la ! b)) st1;
          st3 = fold (touch_mark n s) (mb_parameters block) st2;
          st4 = fold (\<lambda>(k, i). interval_instruction n depth (s + 1 + int k) i) (enumerate 0 (mb_instructions block)) st3
      in close_segments st4)"

definition compute_live_intervals :: "machine_function \<Rightarrow> liveness_analysis \<Rightarrow> live_interval list" where
  "compute_live_intervals f la =
     (let n = mf_register_count f;
          init = \<lparr>iv_intervals = map (\<lambda>r. \<lparr>li_register = r, li_start = undefined_position, li_end = 0, li_use_count = 0, li_spill_weight = 0,
              li_loop_depth = 0, li_call_crossing_count = 0, li_segments = []\<rparr>) [0..<n],
            iv_first = replicate n undefined_position, iv_last = replicate n 0, iv_touched = []\<rparr>
      in map (\<lambda>iv. if li_start iv = undefined_position then iv\<lparr>li_start := 0, li_end := 0\<rparr> else iv)
           (iv_intervals (fold (interval_block f la) [0..<length (mf_blocks f)] init)))"

end
