(* ===== verification/Linear_Scan.thy ===== *)
theory Linear_Scan
  imports Live_Intervals "HOL-Library.Product_Lexorder"
begin

text \<open>
  Linear-scan register allocation (\<open>forge/include/forge/machine/register_allocation.hpp\<close> and the first half of \<open>allocate_linear_scan\<close>):
  locations, copy hints, call crossings, the statistics of pressure, and the scan itself. \<open>std::sort\<close> is not stable, so the order that
  it gives to values with equal ends is a parameter: \<open>sorter\<close> maps the list of ends to the permutation of their indices. The vector
  \<open>forced_floating_spill\<close> of the code is created all false and never written, so its tests are left out.
\<close>

section \<open>Registers and locations\<close>

datatype physical_register = R8D | R9D | EBX | R10D | R11D | R12D | R13D | R14D | R15D

datatype floating_register = XMM2 | XMM3 | XMM4 | XMM5

definition is_call_clobbered :: "physical_register \<Rightarrow> bool" where
  "is_call_clobbered r \<longleftrightarrow> r = R8D \<or> r = R9D \<or> r = R10D \<or> r = R11D"

definition is_callee_saved :: "physical_register \<Rightarrow> bool" where
  "is_callee_saved r \<longleftrightarrow> r = EBX \<or> r = R12D \<or> r = R13D \<or> r = R14D \<or> r = R15D"

datatype location_kind = LK_physical | LK_floating | LK_stack_slot | LK_rematerialized_integer | LK_rematerialized_floating

record allocation_location =
  al_kind :: location_kind
  al_physical :: physical_register
  al_floating :: floating_register
  al_stack_offset :: u32 \<comment> \<open>an \<open>int32_t\<close>, read with \<open>sint\<close>\<close>
  al_immediate :: u64

definition stack_location :: allocation_location where
  "stack_location = \<lparr>al_kind = LK_stack_slot, al_physical = R10D, al_floating = XMM2, al_stack_offset = 0, al_immediate = 0\<rparr>"

definition physical_location :: "physical_register \<Rightarrow> allocation_location" where
  "physical_location p = stack_location\<lparr>al_kind := LK_physical, al_physical := p\<rparr>"

definition floating_location :: "floating_register \<Rightarrow> allocation_location" where
  "floating_location p = stack_location\<lparr>al_kind := LK_floating, al_floating := p\<rparr>"

record register_allocation =
  ra_locations :: "allocation_location list"
  ra_intervals :: "live_interval list"
  ra_frame_size :: u32
  ra_physical_count :: u32
  ra_spill_count :: u32
  ra_spill_slot_count :: u32
  ra_reused_spill_slot_count :: u32
  ra_frame_size_before_slot_reuse :: u32
  ra_frame_bytes_saved :: u32
  ra_coalesced_copy_count :: u32
  ra_global_copy_affinity_count :: u32
  ra_copy_spills_recovered :: u32
  ra_two_address_reuse_count :: u32
  ra_unary_reuse_count :: u32
  ra_rematerialized_value_count :: u32
  ra_rematerialized_use_count :: u32
  ra_peak_integer_pressure :: u32
  ra_peak_floating_pressure :: u32
  ra_call_crossing_interval_count :: u32
  ra_caller_saved_allocation_count :: u32
  ra_callee_saved_allocation_count :: u32
  ra_weighted_spill_decision_count :: u32
  ra_copy_hint_count :: u32
  ra_segmented_interval_count :: u32
  ra_live_range_hole_count :: u32
  ra_interference_edge_count :: u32
  ra_hole_aware_register_reuse_count :: u32
  ra_diagnostics :: "string list"

definition allocation_init :: register_allocation where
  "allocation_init = \<lparr>ra_locations = [], ra_intervals = [], ra_frame_size = 0, ra_physical_count = 0, ra_spill_count = 0, ra_spill_slot_count = 0,
     ra_reused_spill_slot_count = 0, ra_frame_size_before_slot_reuse = 0, ra_frame_bytes_saved = 0, ra_coalesced_copy_count = 0,
     ra_global_copy_affinity_count = 0, ra_copy_spills_recovered = 0, ra_two_address_reuse_count = 0, ra_unary_reuse_count = 0,
     ra_rematerialized_value_count = 0, ra_rematerialized_use_count = 0, ra_peak_integer_pressure = 0, ra_peak_floating_pressure = 0,
     ra_call_crossing_interval_count = 0, ra_caller_saved_allocation_count = 0, ra_callee_saved_allocation_count = 0,
     ra_weighted_spill_decision_count = 0, ra_copy_hint_count = 0, ra_segmented_interval_count = 0, ra_live_range_hole_count = 0,
     ra_interference_edge_count = 0, ra_hole_aware_register_reuse_count = 0, ra_diagnostics = []\<rparr>"

section \<open>Instruction classes\<close>

definition is_commutative_two_address :: "machine_opcode \<Rightarrow> bool" where
  "is_commutative_two_address oc \<longleftrightarrow> oc \<in> {''add_i32'', ''mul_i32'', ''and_i32'', ''or_i32'', ''xor_i32'', ''add_i64'', ''mul_i64'', ''and_i64'',
     ''or_i64'', ''xor_i64'', ''add_f32'', ''mul_f32'', ''add_f64'', ''mul_f64''}"

definition supports_unary_reuse :: "machine_opcode \<Rightarrow> bool" where
  "supports_unary_reuse oc \<longleftrightarrow> oc \<in> {''neg_i32'', ''not_i32'', ''neg_i64'', ''not_i64'', ''neg_f32'', ''neg_f64''}"

definition supports_two_address_reuse :: "machine_opcode \<Rightarrow> bool" where
  "supports_two_address_reuse oc \<longleftrightarrow> oc \<in> {''add_i32'', ''sub_i32'', ''mul_i32'', ''and_i32'', ''or_i32'', ''xor_i32'', ''add_i64'', ''sub_i64'',
     ''mul_i64'', ''and_i64'', ''or_i64'', ''xor_i64'', ''add_f32'', ''sub_f32'', ''mul_f32'', ''div_f32'', ''add_f64'', ''sub_f64'', ''mul_f64'', ''div_f64''}"

definition is_call_opcode :: "machine_opcode \<Rightarrow> bool" where
  "is_call_opcode oc \<longleftrightarrow> oc \<in> {''call_i32'', ''call_i64'', ''call_f32'', ''call_f64'', ''call_void'', ''call_aggregate'', ''call_indirect_i32'',
     ''call_indirect_i64'', ''call_indirect_f32'', ''call_indirect_f64'', ''call_indirect_void''}"

section \<open>Hints and call positions\<close>

text \<open>
  The edges that the hints look at: those of the last instruction of a block, whose target exists, as pairs of a parameter of the
  target and the argument passed for it. Each comes with the index of the source block and of the target.
\<close>

definition block_edges :: "machine_function \<Rightarrow> machine_block \<Rightarrow> (nat \<times> (nat \<times> nat) list) list" where
  "block_edges f b = (if mb_instructions b = [] then []
     else List.map_filter (\<lambda>s. case machine_block_index f (su_block s) of None \<Rightarrow> None
       | Some t \<Rightarrow> Some (t, zip (mb_parameters (mf_blocks f ! t)) (su_arguments s))) (mi_successors (last (mb_instructions b))))"

record allocation_hints =
  ah_copy_sources :: "nat list"
  ah_two_address_sources :: "nat list"
  ah_unary_sources :: "nat list"
  ah_copy_hint_count :: u32
  ah_call_positions :: "int list"

definition backedge_hint :: "machine_function \<Rightarrow> nat \<times> nat \<Rightarrow> allocation_hints \<Rightarrow> allocation_hints" where
  "backedge_hint f = (\<lambda>(parameter, argument) h.
     if parameter \<ge> mf_register_count f \<or> argument \<ge> mf_register_count f \<or> parameter = argument \<or>
        register_class_of f parameter \<noteq> register_class_of f argument then h
     else h\<lparr>ah_copy_sources := (ah_copy_sources h)[parameter := argument], ah_copy_hint_count := ah_copy_hint_count h + 1\<rparr>)"

definition backedge_hints :: "machine_function \<Rightarrow> allocation_hints \<Rightarrow> allocation_hints" where
  "backedge_hints f h = fold (\<lambda>(source, b) h. fold (\<lambda>(target, pairs) h. if target > source then h else fold (backedge_hint f) pairs h)
     (block_edges f b) h) (enumerate 0 (mf_blocks f)) h"

definition dies_at :: "live_interval list \<Rightarrow> nat \<Rightarrow> int \<Rightarrow> bool" where
  "dies_at ivs r at \<longleftrightarrow> r < length ivs \<and> li_end (ivs ! r) = at"

definition instruction_hint :: "machine_function \<Rightarrow> live_interval list \<Rightarrow> int \<Rightarrow> machine_instruction \<Rightarrow> allocation_hints \<Rightarrow> allocation_hints" where
  "instruction_hint f ivs at i h =
     (let n = mf_register_count f; r = mi_result i; xs = mi_inputs i; oc = mi_opcode i;
          h1 = (if oc \<in> {''copy'', ''copy_f32'', ''copy_f64''} \<and> length xs = 1 \<and> r < n
            then h\<lparr>ah_copy_sources := (ah_copy_sources h)[r := hd xs], ah_copy_hint_count := ah_copy_hint_count h + 1\<rparr> else h);
          h2 = (if supports_two_address_reuse oc \<and> xs \<noteq> [] \<and> r < n
            then let source = (if length xs = 2 \<and> is_commutative_two_address oc \<and> \<not> dies_at ivs (hd xs) at \<and> dies_at ivs (xs ! 1) at then xs ! 1 else hd xs)
              in h1\<lparr>ah_two_address_sources := (ah_two_address_sources h1)[r := source]\<rparr> else h1);
          h3 = (if supports_unary_reuse oc \<and> length xs = 1 \<and> r < n
            then h2\<lparr>ah_unary_sources := (ah_unary_sources h2)[r := hd xs]\<rparr> else h2)
      in if is_call_opcode oc then h3\<lparr>ah_call_positions := ah_call_positions h3 @ [at]\<rparr> else h3)"

definition instruction_hints :: "machine_function \<Rightarrow> live_interval list \<Rightarrow> allocation_hints \<Rightarrow> allocation_hints" where
  "instruction_hints f ivs h = fold (\<lambda>(b, (s, _)) h. fold (\<lambda>(k, i) h. instruction_hint f ivs (s + 1 + int k) i h) (enumerate 0 (mb_instructions b)) h)
     (zip (mf_blocks f) (block_bounds 0 (mf_blocks f))) h"

definition allocation_hints_of :: "machine_function \<Rightarrow> live_interval list \<Rightarrow> allocation_hints" where
  "allocation_hints_of f ivs = (let none = replicate (mf_register_count f) (mf_register_count f)
     in instruction_hints f ivs (backedge_hints f \<lparr>ah_copy_sources = none, ah_two_address_sources = none, ah_unary_sources = none,
          ah_copy_hint_count = 0, ah_call_positions = []\<rparr>))"

text \<open>The calls strictly inside an interval; the positions are in order, so the two binary searches are prefixes.\<close>

definition count_crossings :: "int list \<Rightarrow> live_interval \<Rightarrow> nat" where
  "count_crossings calls iv = length (takeWhile (\<lambda>p. p < li_end iv) (dropWhile (\<lambda>p. p \<le> li_start iv) calls))"

definition with_crossings :: "int list \<Rightarrow> live_interval \<Rightarrow> live_interval" where
  "with_crossings calls iv = iv\<lparr>li_call_crossing_count := of_nat (count_crossings calls iv)\<rparr>"

definition crosses_call :: "live_interval list \<Rightarrow> nat \<Rightarrow> bool" where
  "crosses_call ivs r \<longleftrightarrow> r < length ivs \<and> li_call_crossing_count (ivs ! r) \<noteq> 0"

section \<open>Pressure\<close>

text \<open>An event is a position, 0 for a start and 1 for an end, the register, and whether it is in the vector file; starts come first.\<close>

definition liveness_events :: "machine_function \<Rightarrow> live_interval list \<Rightarrow> (int \<times> nat \<times> nat \<times> bool) list" where
  "liveness_events f ivs = sort_key (\<lambda>(p, s, r, _). (p, s, r)) (concat (map (\<lambda>iv. if li_use_count iv = 0 then []
     else concat (map (\<lambda>s. [(ls_start s, 0, li_register iv, in_vector_file f (li_register iv)),
       (ls_end s, 1, li_register iv, in_vector_file f (li_register iv))]) (li_segments iv))) ivs))"

record pressure_state =
  ps_integer :: "nat list"
  ps_floating :: "nat list"
  ps_edges :: "(nat \<times> nat) list"
  ps_peak_integer :: nat
  ps_peak_floating :: nat

definition pressure_event :: "int \<times> nat \<times> nat \<times> bool \<Rightarrow> pressure_state \<Rightarrow> pressure_state" where
  "pressure_event = (\<lambda>(_, kind, r, floating) st.
     let active = (if floating then ps_floating st else ps_integer st) in
     if kind = 0 then
       let edges = fold (\<lambda>q es. if q = r then es else List.insert (min q r, max q r) es) active (ps_edges st);
           active' = List.insert r active;
           st' = (if floating then st\<lparr>ps_floating := active'\<rparr> else st\<lparr>ps_integer := active'\<rparr>)
       in st'\<lparr>ps_edges := edges, ps_peak_integer := max (ps_peak_integer st) (length (ps_integer st')),
              ps_peak_floating := max (ps_peak_floating st) (length (ps_floating st'))\<rparr>
     else if floating then st\<lparr>ps_floating := removeAll r active\<rparr> else st\<lparr>ps_integer := removeAll r active\<rparr>)"

definition measure_pressure :: "machine_function \<Rightarrow> live_interval list \<Rightarrow> register_allocation \<Rightarrow> register_allocation" where
  "measure_pressure f ivs a =
     (let st = fold pressure_event (liveness_events f ivs)
            \<lparr>ps_integer = [], ps_floating = [], ps_edges = [], ps_peak_integer = 0, ps_peak_floating = 0\<rparr>;
          segmented = filter (\<lambda>iv. length (li_segments iv) > 1) ivs
      in a\<lparr>ra_segmented_interval_count := of_nat (length segmented),
           ra_live_range_hole_count := of_nat (sum_list (map (\<lambda>iv. length (li_segments iv) - 1) segmented)),
           ra_peak_integer_pressure := of_nat (ps_peak_integer st), ra_peak_floating_pressure := of_nat (ps_peak_floating st),
           ra_interference_edge_count := of_nat (length (ps_edges st))\<rparr>)"

section \<open>Spill decisions\<close>

definition spill_priority :: "live_interval \<Rightarrow> nat" where
  "spill_priority iv = (unat (li_spill_weight iv) + 1) * 1024 div nat (li_end iv - li_start iv + 1)"

definition should_spill_active :: "live_interval \<Rightarrow> live_interval \<Rightarrow> bool" where
  "should_spill_active active incoming =
     (if spill_priority active \<noteq> spill_priority incoming then spill_priority active < spill_priority incoming
      else li_end active > li_end incoming)"

definition cheaper :: "live_interval \<Rightarrow> live_interval \<Rightarrow> bool" where
  "cheaper left right = (if spill_priority left \<noteq> spill_priority right then spill_priority left < spill_priority right
     else li_end left > li_end right)"

text \<open>\<open>std::min_element\<close>: the index of the first element that no later one is less than.\<close>

definition min_element :: "('a \<Rightarrow> 'a \<Rightarrow> bool) \<Rightarrow> 'a list \<Rightarrow> nat" where
  "min_element precedes xs = fold (\<lambda>k best. if precedes (xs ! k) (xs ! best) then k else best) [1..<length xs] 0"

section \<open>The scan\<close>

type_synonym 'p active = "(live_interval \<times> 'p) list"

definition sort_active :: "(int list \<Rightarrow> nat list) \<Rightarrow> 'p active \<Rightarrow> 'p active" where
  "sort_active sorter xs = map ((!) xs) (sorter (map (\<lambda>(iv, _). li_end iv) xs))"

definition expire :: "int \<Rightarrow> 'p active \<Rightarrow> 'p list \<Rightarrow> 'p active \<times> 'p list" where
  "expire start active free = (filter (\<lambda>(iv, _). \<not> li_end iv < start) active, free @ map snd (filter (\<lambda>(iv, _). li_end iv < start) active))"

record scan_state =
  sc_integer :: "physical_register active"
  sc_floating :: "floating_register active"
  sc_free_integer :: "physical_register list"
  sc_free_floating :: "floating_register list"
  sc_allocation :: register_allocation

definition integer_physicals :: "physical_register list" where
  "integer_physicals = [R10D, R11D, R12D, R13D, R14D, R15D, EBX]"

definition floating_physicals :: "floating_register list" where
  "floating_physicals = [XMM2, XMM3, XMM4, XMM5]"

definition take_integer_register :: "bool \<Rightarrow> physical_register list \<Rightarrow> (physical_register \<times> physical_register list) option" where
  "take_integer_register across free =
     (case find (\<lambda>r. if across then is_callee_saved r else is_call_clobbered r) free of
        Some r \<Rightarrow> Some (r, remove1 r free)
      | None \<Rightarrow> if across then None else (case free of [] \<Rightarrow> None | r # rest \<Rightarrow> Some (r, rest)))"

definition record_integer_allocation :: "physical_register \<Rightarrow> register_allocation \<Rightarrow> register_allocation" where
  "record_integer_allocation p a = (if is_callee_saved p then a\<lparr>ra_callee_saved_allocation_count := ra_callee_saved_allocation_count a + 1\<rparr>
     else a\<lparr>ra_caller_saved_allocation_count := ra_caller_saved_allocation_count a + 1\<rparr>)"

definition set_location :: "nat \<Rightarrow> allocation_location \<Rightarrow> register_allocation \<Rightarrow> register_allocation" where
  "set_location r l a = a\<lparr>ra_locations := (ra_locations a)[r := l]\<rparr>"

definition spill :: "nat \<Rightarrow> register_allocation \<Rightarrow> register_allocation" where
  "spill r a = (set_location r stack_location a)\<lparr>ra_spill_count := ra_spill_count a + 1\<rparr>"

definition count_physical :: "register_allocation \<Rightarrow> register_allocation" where
  "count_physical a = a\<lparr>ra_physical_count := ra_physical_count a + 1\<rparr>"

text \<open>The register whose location a value would like to take over, and the counter of the reason.\<close>

definition hint_source :: "machine_function \<Rightarrow> allocation_hints \<Rightarrow> nat \<Rightarrow> nat" where
  "hint_source f h r = (let n = mf_register_count f in
     if ah_copy_sources h ! r < n then ah_copy_sources h ! r
     else if ah_two_address_sources h ! r < n then ah_two_address_sources h ! r else ah_unary_sources h ! r)"

definition count_coalesced :: "machine_function \<Rightarrow> allocation_hints \<Rightarrow> nat \<Rightarrow> register_allocation \<Rightarrow> register_allocation" where
  "count_coalesced f h r a = (let n = mf_register_count f in
     if ah_copy_sources h ! r < n then a\<lparr>ra_coalesced_copy_count := ra_coalesced_copy_count a + 1\<rparr>
     else if ah_two_address_sources h ! r < n then a\<lparr>ra_two_address_reuse_count := ra_two_address_reuse_count a + 1\<rparr>
     else a\<lparr>ra_unary_reuse_count := ra_unary_reuse_count a + 1\<rparr>)"

definition find_active :: "('p active) \<Rightarrow> nat \<Rightarrow> int \<Rightarrow> (live_interval \<times> 'p) option" where
  "find_active active source start = find (\<lambda>(iv, _). li_register iv = source \<and> li_end iv = start) active"

definition scan_floating :: "(int list \<Rightarrow> nat list) \<Rightarrow> machine_function \<Rightarrow> allocation_hints \<Rightarrow> live_interval list \<Rightarrow> live_interval \<Rightarrow> scan_state \<Rightarrow> scan_state" where
  "scan_floating sorter f h ivs iv st =
     (let r = li_register iv; crosses = crosses_call ivs r; source = hint_source f h r; a = sc_allocation st;
          (active, free) = expire (li_start iv) (sc_floating st) (sc_free_floating st);
          old = (if \<not> crosses \<and> source < mf_register_count f then find_active active source (li_start iv) else None)
      in case old of
           Some (siv, p) \<Rightarrow> st\<lparr>sc_floating := sort_active sorter (remove1 (siv, p) active @ [(iv, p)]), sc_free_floating := free,
             sc_allocation := count_coalesced f h r (count_physical (set_location r (floating_location p) a))\<rparr>
         | None \<Rightarrow>
           if crosses then st\<lparr>sc_floating := sort_active sorter active, sc_free_floating := free, sc_allocation := spill r a\<rparr>
           else if free \<noteq> [] then
             st\<lparr>sc_floating := sort_active sorter (active @ [(iv, last free)]), sc_free_floating := butlast free,
                sc_allocation := count_physical (set_location r (floating_location (last free)) a)\<rparr>
           else let k = min_element (\<lambda>l r. cheaper (fst l) (fst r)) active in
             if active \<noteq> [] \<and> should_spill_active (fst (active ! k)) iv then
               let p = snd (active ! k); a1 = spill (li_register (fst (active ! k))) a in
               st\<lparr>sc_floating := sort_active sorter (active[k := (iv, p)]), sc_free_floating := free,
                  sc_allocation := count_physical (set_location r (floating_location p)
                    (a1\<lparr>ra_weighted_spill_decision_count := ra_weighted_spill_decision_count a1 + 1\<rparr>))\<rparr>
             else st\<lparr>sc_floating := sort_active sorter active, sc_free_floating := free, sc_allocation := spill r a\<rparr>)"

definition scan_integer :: "(int list \<Rightarrow> nat list) \<Rightarrow> machine_function \<Rightarrow> allocation_hints \<Rightarrow> live_interval list \<Rightarrow> live_interval \<Rightarrow> scan_state \<Rightarrow> scan_state" where
  "scan_integer sorter f h ivs iv st =
     (let r = li_register iv; crosses = crosses_call ivs r; source = hint_source f h r; a = sc_allocation st;
          (active, free) = expire (li_start iv) (sc_integer st) (sc_free_integer st);
          old = (if source < mf_register_count f then find_active active source (li_start iv) else None);
          usable = (case old of Some (_, p) \<Rightarrow> \<not> crosses \<or> is_callee_saved p | None \<Rightarrow> False)
      in case (if usable then old else None) of
           Some (siv, p) \<Rightarrow> st\<lparr>sc_integer := sort_active sorter (remove1 (siv, p) active @ [(iv, p)]), sc_free_integer := free,
             sc_allocation := count_coalesced f h r (record_integer_allocation p (count_physical (set_location r (physical_location p) a)))\<rparr>
         | None \<Rightarrow> (case take_integer_register crosses free of
             Some (p, rest) \<Rightarrow> st\<lparr>sc_integer := sort_active sorter (active @ [(iv, p)]), sc_free_integer := rest,
               sc_allocation := record_integer_allocation p (count_physical (set_location r (physical_location p) a))\<rparr>
           | None \<Rightarrow>
             let eligible = (\<lambda>p. \<not> crosses \<or> is_callee_saved p);
                 k = min_element (\<lambda>(liv, lp) (riv, rp). if eligible lp \<noteq> eligible rp then eligible lp else cheaper liv riv) active
             in if active \<noteq> [] \<and> eligible (snd (active ! k)) \<and> should_spill_active (fst (active ! k)) iv then
               let p = snd (active ! k); a1 = spill (li_register (fst (active ! k))) a in
               st\<lparr>sc_integer := sort_active sorter (active[k := (iv, p)]), sc_free_integer := free,
                  sc_allocation := record_integer_allocation p (count_physical (set_location r (physical_location p)
                    (a1\<lparr>ra_weighted_spill_decision_count := ra_weighted_spill_decision_count a1 + 1\<rparr>)))\<rparr>
             else st\<lparr>sc_integer := sort_active sorter active, sc_free_integer := free, sc_allocation := spill r a\<rparr>))"

definition scan_interval :: "(int list \<Rightarrow> nat list) \<Rightarrow> machine_function \<Rightarrow> allocation_hints \<Rightarrow> live_interval list \<Rightarrow> live_interval \<Rightarrow> scan_state \<Rightarrow> scan_state" where
  "scan_interval sorter f h ivs iv st =
     (if in_vector_file f (li_register iv) then scan_floating sorter f h ivs iv st else scan_integer sorter f h ivs iv st)"

definition initial_scan :: "(int list \<Rightarrow> nat list) \<Rightarrow> machine_function \<Rightarrow> allocation_hints \<Rightarrow> live_interval list \<Rightarrow> register_allocation \<Rightarrow> register_allocation" where
  "initial_scan sorter f h ivs a = sc_allocation (fold (scan_interval sorter f h ivs) (sort_key (\<lambda>iv. (li_start iv, li_register iv)) ivs)
     \<lparr>sc_integer = [], sc_floating = [], sc_free_integer = integer_physicals, sc_free_floating = floating_physicals, sc_allocation = a\<rparr>)"

end
