(* ===== verification/Allocation_Stages.thy ===== *)
theory Allocation_Stages
  imports Linear_Scan
begin

text \<open>
  What \<open>allocate_linear_scan\<close> does after the scan (\<open>forge/src/machine/register_allocation.cpp\<close>): registers are recovered for spilled values,
  results move into the registers of operands that die, induction variables and copies are merged, constants are rematerialized, and
  the rest gets slots of the frame.
\<close>

section \<open>Conflicts\<close>

definition segments_overlap :: "live_interval \<Rightarrow> live_interval \<Rightarrow> bool" where
  "segments_overlap l r \<longleftrightarrow> list_ex (\<lambda>a. list_ex (\<lambda>b. ls_start a \<le> ls_end b \<and> ls_start b \<le> ls_end a) (li_segments r)) (li_segments l)"

definition copy_segments_conflict :: "live_interval \<Rightarrow> live_interval \<Rightarrow> bool" where
  "copy_segments_conflict l r \<longleftrightarrow> list_ex (\<lambda>a. list_ex (\<lambda>b. max (ls_start a) (ls_start b) < min (ls_end a) (ls_end b)) (li_segments r)) (li_segments l)"

definition holds_physical :: "register_allocation \<Rightarrow> nat \<Rightarrow> physical_register \<Rightarrow> bool" where
  "holds_physical a r p \<longleftrightarrow> al_kind (ra_locations a ! r) = LK_physical \<and> al_physical (ra_locations a ! r) = p"

definition holds_floating :: "register_allocation \<Rightarrow> nat \<Rightarrow> floating_register \<Rightarrow> bool" where
  "holds_floating a r p \<longleftrightarrow> al_kind (ra_locations a ! r) = LK_floating \<and> al_floating (ra_locations a ! r) = p"

text \<open>No value in the register \<open>p\<close> overlaps \<open>r\<close>, those that \<open>ignored\<close> names left aside.\<close>

definition integer_available :: "nat \<Rightarrow> register_allocation \<Rightarrow> nat \<Rightarrow> physical_register \<Rightarrow> (nat \<Rightarrow> bool) \<Rightarrow> bool" where
  "integer_available n a r p ignored \<longleftrightarrow> list_all (\<lambda>q. q = r \<or> ignored q \<or> \<not> holds_physical a q p \<or>
     \<not> segments_overlap (ra_intervals a ! r) (ra_intervals a ! q)) [0..<n]"

definition floating_available :: "nat \<Rightarrow> register_allocation \<Rightarrow> nat \<Rightarrow> floating_register \<Rightarrow> (nat \<Rightarrow> bool) \<Rightarrow> bool" where
  "floating_available n a r p ignored \<longleftrightarrow> list_all (\<lambda>q. q = r \<or> ignored q \<or> \<not> holds_floating a q p \<or>
     \<not> segments_overlap (ra_intervals a ! r) (ra_intervals a ! q)) [0..<n]"

section \<open>Recovering registers for spilled values\<close>

definition count_recovered :: "register_allocation \<Rightarrow> register_allocation" where
  "count_recovered a = a\<lparr>ra_spill_count := ra_spill_count a - 1, ra_physical_count := ra_physical_count a + 1,
     ra_hole_aware_register_reuse_count := ra_hole_aware_register_reuse_count a + 1\<rparr>"

definition recover_register :: "machine_function \<Rightarrow> nat \<Rightarrow> register_allocation \<Rightarrow> register_allocation" where
  "recover_register f r a =
     (let n = mf_register_count f; iv = ra_intervals a ! r; crosses = crosses_call (ra_intervals a) r in
      if al_kind (ra_locations a ! r) \<noteq> LK_stack_slot \<or> li_use_count iv = 0 then a
      else if in_vector_file f r then
        (case (if crosses then None else find (\<lambda>p. floating_available n a r p (\<lambda>_. False)) floating_physicals) of
           Some p \<Rightarrow> count_recovered (set_location r (floating_location p) a) | None \<Rightarrow> a)
      else (case find (\<lambda>p. (\<not> crosses \<or> is_callee_saved p) \<and> integer_available n a r p (\<lambda>_. False)) integer_physicals of
           Some p \<Rightarrow> count_recovered (record_integer_allocation p (set_location r (physical_location p) a)) | None \<Rightarrow> a))"

definition recover_registers :: "machine_function \<Rightarrow> register_allocation \<Rightarrow> register_allocation" where
  "recover_registers f a = fold (recover_register f) [0..<mf_register_count f] a"

section \<open>Two-address and unary reuse\<close>

text \<open>The edges of the whole function, each as pairs of a parameter and its argument.\<close>

definition function_edges :: "machine_function \<Rightarrow> (nat \<times> nat) list list" where
  "function_edges f = concat (map (\<lambda>b. map snd (block_edges f b)) (mf_blocks f))"

definition affinity_consumer :: "machine_function \<Rightarrow> nat \<Rightarrow> nat" where
  "affinity_consumer f d = (case find (\<lambda>p. p < mf_register_count f)
       (List.map_filter (\<lambda>edge. map_option fst (find (\<lambda>(_, argument). argument = d) edge)) (function_edges f)) of
     Some p \<Rightarrow> p | None \<Rightarrow> mf_register_count f)"

definition feeds :: "machine_function \<Rightarrow> nat \<Rightarrow> nat \<Rightarrow> bool" where
  "feeds f consumer r \<longleftrightarrow> consumer < mf_register_count f \<and> list_ex (list_ex (\<lambda>(p, argument). p = consumer \<and> argument = r)) (function_edges f)"

definition count_reuse :: "machine_function \<Rightarrow> allocation_hints \<Rightarrow> nat \<Rightarrow> register_allocation \<Rightarrow> register_allocation" where
  "count_reuse f h d a = (if ah_two_address_sources h ! d < mf_register_count f
     then a\<lparr>ra_two_address_reuse_count := ra_two_address_reuse_count a + 1\<rparr>
     else a\<lparr>ra_unary_reuse_count := ra_unary_reuse_count a + 1\<rparr>)"

definition reuse_register :: "machine_function \<Rightarrow> allocation_hints \<Rightarrow> nat \<Rightarrow> register_allocation \<Rightarrow> register_allocation" where
  "reuse_register f h d a =
     (let n = mf_register_count f; ivs = ra_intervals a;
          source = (if ah_two_address_sources h ! d < n then ah_two_address_sources h ! d else ah_unary_sources h ! d);
          crosses = crosses_call ivs d; floating = in_vector_file f d
      in if source \<ge> n \<or> source = d then a
         else if li_use_count (ivs ! d) = 0 \<or> li_use_count (ivs ! source) = 0 then a
         else let l = ra_locations a ! source in
         if li_end (ivs ! source) \<noteq> li_start (ivs ! d) \<and> segments_overlap (ivs ! source) (ivs ! d) then a
         else if register_class_of f d \<noteq> register_class_of f source then a
         else if floating then
           if al_kind l = LK_floating \<and> \<not> crosses \<and> floating_available n a d (al_floating l) (\<lambda>q. q = source) \<and>
              \<not> holds_floating a d (al_floating l)
           then count_reuse f h d (set_location d (floating_location (al_floating l)) a) else a
         else if al_kind l = LK_physical \<and> (\<not> crosses \<or> is_callee_saved (al_physical l)) then
           let consumer = affinity_consumer f d
           in if integer_available n a d (al_physical l) (\<lambda>q. q = source \<or> q = consumer \<or> feeds f consumer q) \<and>
                 \<not> holds_physical a d (al_physical l)
              then count_reuse f h d (set_location d (physical_location (al_physical l)) a) else a
         else a)"

definition reuse_registers :: "machine_function \<Rightarrow> allocation_hints \<Rightarrow> register_allocation \<Rightarrow> register_allocation" where
  "reuse_registers f h a = fold (reuse_register f h) [0..<mf_register_count f] a"

section \<open>Induction variables\<close>

definition defining_parameter_index :: "machine_function \<Rightarrow> nat \<Rightarrow> nat \<Rightarrow> nat option" where
  "defining_parameter_index f result source =
     (case find (\<lambda>b. list_ex (\<lambda>i. mi_result i = result) (mb_instructions b)) (mf_blocks f) of
        None \<Rightarrow> None | Some b \<Rightarrow> position_from 0 source (mb_parameters b))"

text \<open>The last parameter that some edge passes \<open>result\<close> for, with its index.\<close>

definition last_consumer :: "machine_function \<Rightarrow> nat \<Rightarrow> (nat \<times> nat) option" where
  "last_consumer f result = fold (\<lambda>edge found. fold (\<lambda>(k, (p, argument)) found. if argument = result then Some (p, k) else found)
     (enumerate 0 edge) found) (function_edges f) None"

definition merge_web :: "machine_function \<Rightarrow> allocation_hints \<Rightarrow> nat \<Rightarrow> register_allocation \<Rightarrow> register_allocation" where
  "merge_web f h result a =
     (let n = mf_register_count f; ivs = ra_intervals a; source = ah_two_address_sources h ! result
      in if source \<ge> n \<or> source = result then a
         else if li_use_count (ivs ! result) \<noteq> 1 \<or> li_end (ivs ! source) \<noteq> li_start (ivs ! result) then a
         else let l = ra_locations a ! source in
         if al_kind l \<noteq> LK_physical then a
         else (case (defining_parameter_index f result source, last_consumer f result) of
             (Some k, Some (parameter, k')) \<Rightarrow>
               let members = remdups [source, result, parameter];
                   safe = list_all (\<lambda>q. q \<in> set members \<or> \<not> holds_physical a q (al_physical l) \<or>
                     list_all (\<lambda>m. \<not> (m < n \<and> segments_overlap (ivs ! m) (ivs ! q))) members) [0..<n]
               in if parameter \<ge> n \<or> k' \<noteq> k \<or> \<not> safe \<or> list_ex (in_vector_file f) members then a
                  else let a' = fold (\<lambda>m. set_location m (physical_location (al_physical l))) members a
                    in a'\<lparr>ra_two_address_reuse_count := ra_two_address_reuse_count a' + 1\<rparr>
           | _ \<Rightarrow> a))"

definition merge_webs :: "machine_function \<Rightarrow> allocation_hints \<Rightarrow> register_allocation \<Rightarrow> register_allocation" where
  "merge_webs f h a = fold (merge_web f h) [0..<mf_register_count f] a"

section \<open>Copy affinities\<close>

definition count_affinity :: "bool \<Rightarrow> register_allocation \<Rightarrow> register_allocation" where
  "count_affinity was_spilled a =
     (let a' = a\<lparr>ra_global_copy_affinity_count := ra_global_copy_affinity_count a + 1, ra_coalesced_copy_count := ra_coalesced_copy_count a + 1\<rparr>
      in if was_spilled then a'\<lparr>ra_spill_count := ra_spill_count a - 1, ra_physical_count := ra_physical_count a + 1,
           ra_copy_spills_recovered := ra_copy_spills_recovered a + 1\<rparr> else a')"

definition honor_copy :: "machine_function \<Rightarrow> allocation_hints \<Rightarrow> nat \<Rightarrow> register_allocation \<Rightarrow> register_allocation" where
  "honor_copy f h d a =
     (let n = mf_register_count f; ivs = ra_intervals a; source = ah_copy_sources h ! d; floating = in_vector_file f d
      in if source \<ge> n \<or> source = d then a
         else if li_use_count (ivs ! d) = 0 \<or> li_use_count (ivs ! source) = 0 then a
         else let dl = ra_locations a ! d; sl = ra_locations a ! source; was_spilled = (al_kind dl = LK_stack_slot) in
         if copy_segments_conflict (ivs ! source) (ivs ! d) then a
         else if register_class_of f d \<noteq> register_class_of f source then a
         else if floating \<and> al_kind dl = LK_floating \<and> al_kind sl = LK_floating \<and> al_floating dl = al_floating sl \<or>
             \<not> floating \<and> al_kind dl = LK_physical \<and> al_kind sl = LK_physical \<and> al_physical dl = al_physical sl then a
         else if floating \<and> al_kind sl = LK_floating \<and> \<not> crosses_call ivs d \<and> floating_available n a d (al_floating sl) (\<lambda>q. q = source)
           then count_affinity was_spilled (set_location d (floating_location (al_floating sl)) a)
         else if \<not> floating \<and> al_kind sl = LK_physical \<and> (\<not> crosses_call ivs d \<or> is_callee_saved (al_physical sl)) \<and>
             integer_available n a d (al_physical sl) (\<lambda>q. q = source)
           then let a' = set_location d (physical_location (al_physical sl)) a
             in count_affinity was_spilled (if was_spilled then record_integer_allocation (al_physical sl) a' else a')
         else if floating \<and> al_kind dl = LK_floating \<and> \<not> crosses_call ivs source \<and> floating_available n a source (al_floating dl) (\<lambda>q. q = d)
           then count_affinity was_spilled (set_location source (floating_location (al_floating dl)) a)
         else if \<not> floating \<and> al_kind dl = LK_physical \<and> (\<not> crosses_call ivs source \<or> is_callee_saved (al_physical dl)) \<and>
             integer_available n a source (al_physical dl) (\<lambda>q. q = d)
           then count_affinity was_spilled (set_location source (physical_location (al_physical dl)) a)
         else a)"

definition honor_copies :: "machine_function \<Rightarrow> allocation_hints \<Rightarrow> register_allocation \<Rightarrow> register_allocation" where
  "honor_copies f h a = fold (honor_copy f h) [0..<mf_register_count f] a"

section \<open>Rematerialization\<close>

definition definition_of :: "machine_function \<Rightarrow> nat \<Rightarrow> machine_instruction option" where
  "definition_of f r = find (\<lambda>i. produces_result (mi_opcode i) \<and> mi_result i = r) (rev (concat (map mb_instructions (mf_blocks f))))"

definition rematerialize :: "machine_function \<Rightarrow> nat \<Rightarrow> register_allocation \<Rightarrow> register_allocation" where
  "rematerialize f r a =
     (case definition_of f r of
        None \<Rightarrow> a
      | Some i \<Rightarrow>
          let integer = mi_opcode i \<in> {''load_immediate'', ''load_immediate_i64''}; floating = mi_opcode i \<in> {''load_immediate_f32'', ''load_immediate_f64''}
          in if al_kind (ra_locations a ! r) \<noteq> LK_stack_slot \<or> li_use_count (ra_intervals a ! r) \<noteq> 1 \<or> \<not> integer \<and> \<not> floating then a
             else (set_location r ((ra_locations a ! r)\<lparr>al_kind := (if integer then LK_rematerialized_integer else LK_rematerialized_floating),
                 al_immediate := mi_immediate i\<rparr>) a)
               \<lparr>ra_rematerialized_value_count := ra_rematerialized_value_count a + 1,
                ra_rematerialized_use_count := ra_rematerialized_use_count a + li_use_count (ra_intervals a ! r)\<rparr>)"

definition rematerialize_all :: "machine_function \<Rightarrow> register_allocation \<Rightarrow> register_allocation" where
  "rematerialize_all f a = fold (rematerialize f) [0..<mf_register_count f] a"

section \<open>Spill slots\<close>

definition align_frame :: "u32 \<Rightarrow> u32" where
  "align_frame bytes = (bytes + 15) AND NOT 15"

definition spill_slot_bytes :: "register_class \<Rightarrow> u8 \<Rightarrow> u32" where
  "spill_slot_bytes c width = (if c \<noteq> RC_vector then 8 else if width > 32 then 64 else if width > 16 then 32 else 16)"

definition slot_bytes_for :: "machine_function \<Rightarrow> nat \<Rightarrow> u32" where
  "slot_bytes_for f r = spill_slot_bytes (register_class_of f r) (case list_at (mf_register_widths f) r of Some w \<Rightarrow> w | None \<Rightarrow> 8)"

record slot_state =
  ss_active :: "(int \<times> nat) list"
  ss_free :: "nat list"
  ss_sizes :: "u32 list"
  ss_assignment :: "(nat \<times> nat) list"
  ss_unreused_bytes :: u32
  ss_reused :: u32

definition assign_slot :: "machine_function \<Rightarrow> live_interval \<Rightarrow> slot_state \<Rightarrow> slot_state" where
  "assign_slot f iv st =
     (let r = li_register iv; needed = slot_bytes_for f r;
          expired = filter (\<lambda>(e, _). e < li_start iv) (ss_active st); active = filter (\<lambda>(e, _). \<not> e < li_start iv) (ss_active st);
          free = ss_free st @ map snd expired;
          (slot, free', sizes, reused) = (if free \<noteq> [] then (last free, butlast free, ss_sizes st, ss_reused st + 1)
            else (length (ss_sizes st), free, ss_sizes st @ [0], ss_reused st))
      in \<lparr>ss_active = active @ [(li_end iv, slot)], ss_free = free', ss_sizes = sizes[slot := max (sizes ! slot) needed],
          ss_assignment = ss_assignment st @ [(r, slot)], ss_unreused_bytes = ss_unreused_bytes st + needed, ss_reused = reused\<rparr>)"

fun slot_ends :: "u32 \<Rightarrow> u32 list \<Rightarrow> u32 list" where
  "slot_ends running [] = []"
| "slot_ends running (s # ss) = (running + s) # slot_ends (running + s) ss"

definition spilled_intervals :: "register_allocation \<Rightarrow> live_interval list" where
  "spilled_intervals a = sort_key (\<lambda>iv. (li_start iv, li_end iv, li_register iv))
     (filter (\<lambda>iv. al_kind (ra_locations a ! li_register iv) = LK_stack_slot) (ra_intervals a))"

definition assign_slots :: "machine_function \<Rightarrow> live_interval list \<Rightarrow> slot_state" where
  "assign_slots f ivs = fold (assign_slot f) ivs \<lparr>ss_active = [], ss_free = [], ss_sizes = [], ss_assignment = [], ss_unreused_bytes = 0, ss_reused = 0\<rparr>"

definition allocate_slots :: "machine_function \<Rightarrow> register_allocation \<Rightarrow> register_allocation" where
  "allocate_slots f a =
     (let st = assign_slots f (spilled_intervals a); base = mf_local_stack_size f; ends = slot_ends base (ss_sizes st);
          running = (if ends = [] then base else last ends);
          unreused = align_frame (base + ss_unreused_bytes st); size' = align_frame running;
          a' = fold (\<lambda>(r, slot) a. set_location r ((ra_locations a ! r)\<lparr>al_stack_offset := - (ends ! slot)\<rparr>) a) (ss_assignment st) a
      in a'\<lparr>ra_spill_slot_count := of_nat (length (ss_sizes st)), ra_reused_spill_slot_count := ra_reused_spill_slot_count a + ss_reused st,
            ra_frame_size_before_slot_reuse := unreused, ra_frame_size := size', ra_frame_bytes_saved := unreused - size'\<rparr>)"

section \<open>The allocator\<close>

definition start_allocation :: "machine_function \<Rightarrow> allocation_hints \<Rightarrow> live_interval list \<Rightarrow> register_allocation" where
  "start_allocation f h ivs = measure_pressure f ivs (allocation_init\<lparr>ra_intervals := ivs, ra_locations := replicate (mf_register_count f) stack_location,
     ra_copy_hint_count := ah_copy_hint_count h,
     ra_call_crossing_interval_count := of_nat (length (filter (\<lambda>iv. li_call_crossing_count iv \<noteq> 0) ivs))\<rparr>)"

definition allocate_registers :: "(int list \<Rightarrow> nat list) \<Rightarrow> machine_function \<Rightarrow> liveness_analysis \<Rightarrow> register_allocation" where
  "allocate_registers sorter f la =
     (let ivs0 = compute_live_intervals f la; h = allocation_hints_of f ivs0; ivs = map (with_crossings (ah_call_positions h)) ivs0
      in allocate_slots f (rematerialize_all f (honor_copies f h (merge_webs f h (reuse_registers f h (recover_registers f
           (initial_scan sorter f h ivs (start_allocation f h ivs))))))))"

definition allocate_linear_scan :: "(int list \<Rightarrow> nat list) \<Rightarrow> machine_function \<Rightarrow> register_allocation option" where
  "allocate_linear_scan sorter f =
     (if mf_register_count f > 65536
      then Some (allocation_init\<lparr>ra_diagnostics := [''linear-scan virtual-register limit exceeded in @'' @ mf_name f]\<rparr>)
      else map_option (allocate_registers sorter f) (analyze_liveness f False))"

record stack_allocation =
  sa_offsets :: "u32 list"
  sa_frame_size :: u32
  sa_diagnostics :: "string list"

definition allocate_stack_slots :: "machine_function \<Rightarrow> stack_allocation" where
  "allocate_stack_slots f =
     (let n = mf_register_count f in
      if n > 65536 then \<lparr>sa_offsets = [], sa_frame_size = 0,
        sa_diagnostics = [''baseline stack allocator virtual-register limit exceeded in @'' @ mf_name f]\<rparr>
      else \<lparr>sa_offsets = map (\<lambda>r. - (mf_local_stack_size f + of_nat ((r + 1) * 8))) [0..<n],
            sa_frame_size = align_frame (mf_local_stack_size f + of_nat (n * 8)), sa_diagnostics = []\<rparr>)"

end
