(* ===== verification/Liveness_Props.thy ===== *)
theory Liveness_Props
  imports Liveness
begin

text \<open>
  The liveness analysis is exact and always ends. The specification \<open>may_read\<close> follows the paths of a function: a register is
  live where some path reads it before it writes it. The proof has three parts: the summary of a block (\<open>block_use_def\<close>) stands for
  the effect of its instructions, the worklist reaches a solution of the flow equations and stays below every solution, and the
  solution it reaches is the set of paths.
\<close>

section \<open>Instructions\<close>

definition uses_of :: "nat \<Rightarrow> machine_instruction \<Rightarrow> nat set" where
  "uses_of n i = set (instruction_uses i) \<inter> {..<n}"

definition writes_to :: "machine_instruction \<Rightarrow> nat \<Rightarrow> bool" where
  "writes_to i r \<longleftrightarrow> has_result (mi_opcode i) \<and> mi_result i = r"

fun live_before :: "nat \<Rightarrow> machine_instruction list \<Rightarrow> nat set \<Rightarrow> nat set" where
  "live_before n [] out = out"
| "live_before n (i # is) out = uses_of n i \<union> {r \<in> live_before n is out. \<not> writes_to i r}"

definition has_size :: "nat \<Rightarrow> register_set \<Rightarrow> bool" where
  "has_size n s \<longleftrightarrow> rs_ok s \<and> rs_bit_count s = n"

lemma has_size_init [simp]: "has_size n (rs_init n)"
  by (simp add: has_size_def rs_init_spec)

lemma has_size_set [simp]: "has_size n s \<Longrightarrow> has_size n (rs_set s r)" "has_size n s \<Longrightarrow> has_size n (rs_reset s r)"
  using rs_set_spec rs_reset_spec by (auto simp: has_size_def)

lemma set_of_set: "has_size n s \<Longrightarrow> r < n \<Longrightarrow> set_of (rs_set s r) = insert r (set_of s)"
  "has_size n s \<Longrightarrow> set_of (rs_reset s r) = set_of s - {r}" "has_size n s \<Longrightarrow> set_of s \<subseteq> {..<n}"
  using rs_set_spec rs_reset_spec set_of_bound by (auto simp: has_size_def)

lemma fold_set_registers:
  "has_size n s \<Longrightarrow> has_size n (fold (\<lambda>r l. if r < rs_bit_count l then rs_set l r else l) rs s) \<and>
     set_of (fold (\<lambda>r l. if r < rs_bit_count l then rs_set l r else l) rs s) = set_of s \<union> (set rs \<inter> {..<n})"
proof (induction rs arbitrary: s)
  case (Cons r rs)
  let ?s = "if r < rs_bit_count s then rs_set s r else s"
  have s: "has_size n ?s" "set_of ?s = set_of s \<union> ({r} \<inter> {..<n})"
    using Cons.prems by (auto simp: set_of_set has_size_def [of n s] intro: set_of_set) (auto simp: has_size_def rs_set_spec)
  then show ?case using Cons.IH [OF s(1)] by (simp add: s(2)) blast
qed simp

lemma live_before_instruction_spec:
  assumes "has_size n s"
  shows "has_size n (live_before_instruction i s) \<and> set_of (live_before_instruction i s) = uses_of n i \<union> {r \<in> set_of s. \<not> writes_to i r}"
proof -
  let ?s = "if has_result (mi_opcode i) \<and> mi_result i < rs_bit_count s then rs_reset s (mi_result i) else s"
  have "has_size n ?s" using assms by simp
  moreover have "set_of ?s = {r \<in> set_of s. \<not> writes_to i r}"
    using assms set_of_set(2,3) [OF assms] by (auto simp: writes_to_def has_size_def)
  ultimately show ?thesis using fold_set_registers [of n ?s "instruction_uses i"]
    by (simp add: live_before_instruction_def Let_def uses_of_def) blast
qed

lemma live_after_list_spec:
  assumes "has_size n out"
  shows "has_size n (snd (live_after_list is out)) \<and> set_of (snd (live_after_list is out)) = live_before n is (set_of out) \<and>
    length (fst (live_after_list is out)) = length is \<and>
    (\<forall>k<length is. set_of (fst (live_after_list is out) ! k) = live_before n (drop (Suc k) is) (set_of out))"
proof (induction "is")
  case (Cons i "is")
  obtain afters live where l: "live_after_list is out = (afters, live)" by (cases "live_after_list is out")
  then show ?case using Cons live_before_instruction_spec [of n live i] by (auto simp: nth_Cons')
qed (use assms in simp)

section \<open>The summary of a block\<close>

lemma record_uses_spec:
  assumes "has_size n (fst ud)" "has_size n (snd ud)"
  shows "has_size n (fst (fold (record_use n) rs ud)) \<and> snd (fold (record_use n) rs ud) = snd ud \<and>
    set_of (fst (fold (record_use n) rs ud)) = set_of (fst ud) \<union> (set rs \<inter> {..<n} - set_of (snd ud))"
  using assms
proof (induction rs arbitrary: ud)
  case (Cons r rs)
  obtain u d where ud: "ud = (u, d)" by (cases ud)
  have "has_size n (fst (record_use n r ud))" "snd (record_use n r ud) = d"
    "set_of (fst (record_use n r ud)) = set_of u \<union> ({r} \<inter> {..<n} - set_of d)"
    using Cons.prems by (auto simp: ud record_use_def rs_test_spec set_of_set)
  then show ?case using Cons.IH [of "record_use n r ud"] Cons.prems by (simp add: ud) blast
qed simp

lemma record_instruction_spec:
  assumes "has_size n (fst ud)" "has_size n (snd ud)" "out \<subseteq> {..<n}"
  shows "has_size n (fst (record_instruction n i ud)) \<and> has_size n (snd (record_instruction n i ud)) \<and>
    set_of (fst (record_instruction n i ud)) \<union> (out - set_of (snd (record_instruction n i ud))) =
      set_of (fst ud) \<union> ((uses_of n i \<union> {r \<in> out. \<not> writes_to i r}) - set_of (snd ud))"
proof -
  obtain u d where fold: "fold (record_use n) (instruction_uses i) ud = (u, d)" by (cases "fold (record_use n) (instruction_uses i) ud")
  then have u: "has_size n u" "d = snd ud" "set_of u = set_of (fst ud) \<union> (uses_of n i - set_of d)"
    using record_uses_spec [OF assms(1,2), of "instruction_uses i"] by (auto simp: uses_of_def)
  show ?thesis
  proof (cases "has_result (mi_opcode i) \<and> mi_result i < n")
    case True
    then have "record_instruction n i ud = (u, rs_set d (mi_result i))" by (simp add: record_instruction_def record_result_def fold)
    then show ?thesis using True u assms by (auto simp: set_of_set writes_to_def)
  next
    case False
    then have "record_instruction n i ud = (u, d)" by (auto simp: record_instruction_def record_result_def fold)
    then show ?thesis using False u assms by (auto simp: writes_to_def)
  qed
qed

lemma record_instructions_spec:
  assumes "has_size n (fst ud)" "has_size n (snd ud)" "out \<subseteq> {..<n}"
  shows "has_size n (fst (fold (record_instruction n) is ud)) \<and> has_size n (snd (fold (record_instruction n) is ud)) \<and>
    set_of (fst (fold (record_instruction n) is ud)) \<union> (out - set_of (snd (fold (record_instruction n) is ud))) =
      set_of (fst ud) \<union> (live_before n is out - set_of (snd ud))"
  using assms(1,2)
proof (induction "is" arbitrary: ud)
  case (Cons i "is")
  have sub: "live_before n is out \<subseteq> {..<n}" using assms(3) by (induction "is") (auto simp: uses_of_def)
  note step = record_instruction_spec [OF Cons.prems sub, of i]
  show ?case using Cons.IH [of "record_instruction n i ud"] step by simp
qed simp

lemma block_use_def_spec:
  assumes "out \<subseteq> {..<n}"
  shows "has_size n (fst (block_use_def n b)) \<and> has_size n (snd (block_use_def n b)) \<and>
    set_of (fst (block_use_def n b)) \<union> (out - set_of (snd (block_use_def n b))) = live_before n (mb_instructions b) out - set (mb_parameters b)"
proof -
  let ?p = "\<lambda>ps s. fold (\<lambda>p defs. if p < n then rs_set defs p else defs) ps s"
  have params: "has_size n (?p ps s) \<and> set_of (?p ps s) = set_of s \<union> (set ps \<inter> {..<n})" if "has_size n s" for ps s
    using that
  proof (induction ps arbitrary: s)
    case (Cons p ps)
    have "has_size n (if p < n then rs_set s p else s)" "set_of (if p < n then rs_set s p else s) = set_of s \<union> ({p} \<inter> {..<n})"
      using Cons.prems by (auto simp: set_of_set)
    then show ?case using Cons.IH by simp blast
  qed simp
  have sub: "live_before n is out \<subseteq> {..<n}" for "is" using assms by (induction "is") (auto simp: uses_of_def)
  show ?thesis
    using record_instructions_spec [of n "(rs_init n, ?p (mb_parameters b) (rs_init n))" out "mb_instructions b"] params [of "rs_init n" "mb_parameters b"] assms
      sub [of "mb_instructions b"]
    by (auto simp: block_use_def_def rs_init_spec)
qed

section \<open>The worklist\<close>

definition fp_ok :: "flow_problem \<Rightarrow> bool" where
  "fp_ok p \<longleftrightarrow> length (fp_defs p) = length (fp_uses p) \<and> length (fp_successors p) = length (fp_uses p) \<and>
     (\<forall>b<length (fp_uses p). has_size (fp_count p) (fp_uses p ! b) \<and> has_size (fp_count p) (fp_defs p ! b) \<and>
        set (fp_successors p ! b) \<subseteq> {..<length (fp_uses p)})"

definition live_transfer :: "flow_problem \<Rightarrow> nat \<Rightarrow> nat set \<Rightarrow> nat set" where
  "live_transfer p b out = set_of (fp_uses p ! b) \<union> (out - set_of (fp_defs p ! b))"

definition flow_into :: "flow_problem \<Rightarrow> (nat \<Rightarrow> nat set) \<Rightarrow> nat \<Rightarrow> nat set" where
  "flow_into p I b = (\<Union>s\<in>set (fp_successors p ! b). I s)"

text \<open>A solution of the flow equations.\<close>

definition solution :: "flow_problem \<Rightarrow> (nat \<Rightarrow> nat set) \<Rightarrow> (nat \<Rightarrow> nat set) \<Rightarrow> bool" where
  "solution p I O' \<longleftrightarrow> (\<forall>b<length (fp_uses p). O' b = flow_into p I b \<and> I b = live_transfer p b (O' b))"

definition ins :: "liveness_state \<Rightarrow> nat \<Rightarrow> nat set" where
  "ins st b = set_of (lv_in st ! b)"

definition outs :: "liveness_state \<Rightarrow> nat \<Rightarrow> nat set" where
  "outs st b = set_of (lv_out st ! b)"

definition stable_block :: "flow_problem \<Rightarrow> liveness_state \<Rightarrow> nat \<Rightarrow> bool" where
  "stable_block p st b \<longleftrightarrow> outs st b = flow_into p (ins st) b \<and> ins st b = live_transfer p b (outs st b)"

definition sizes_ok :: "flow_problem \<Rightarrow> liveness_state \<Rightarrow> bool" where
  "sizes_ok p st \<longleftrightarrow> length (lv_in st) = length (fp_uses p) \<and> length (lv_out st) = length (fp_uses p) \<and>
     length (lv_dirty st) = length (fp_uses p) \<and> length (lv_next_dirty st) = length (fp_uses p) \<and>
     (\<forall>b<length (fp_uses p). has_size (fp_count p) (lv_in st ! b) \<and> has_size (fp_count p) (lv_out st ! b))"

text \<open>The state only grows towards the equations, and stays below the solution \<open>(X, Y)\<close>.\<close>

definition growing :: "flow_problem \<Rightarrow> (nat \<Rightarrow> nat set) \<Rightarrow> (nat \<Rightarrow> nat set) \<Rightarrow> liveness_state \<Rightarrow> bool" where
  "growing p X Y st \<longleftrightarrow> sizes_ok p st \<and> (\<forall>b<length (fp_uses p). outs st b \<subseteq> flow_into p (ins st) b \<and> ins st b \<subseteq> live_transfer p b (outs st b) \<and>
     ins st b \<subseteq> X b \<and> outs st b \<subseteq> Y b)"

definition in_round :: "flow_problem \<Rightarrow> (nat \<Rightarrow> nat set) \<Rightarrow> (nat \<Rightarrow> nat set) \<Rightarrow> nat set \<Rightarrow> liveness_state \<Rightarrow> bool" where
  "in_round p X Y todo st \<longleftrightarrow> growing p X Y st \<and>
     (\<forall>b<length (fp_uses p). stable_block p st b \<or> lv_next_dirty st ! b \<or> b \<in> todo \<and> lv_dirty st ! b) \<and>
     (\<forall>b<length (fp_uses p). lv_next_dirty st ! b \<longrightarrow> lv_has_dirty st)"

definition between_rounds :: "flow_problem \<Rightarrow> (nat \<Rightarrow> nat set) \<Rightarrow> (nat \<Rightarrow> nat set) \<Rightarrow> liveness_state \<Rightarrow> bool" where
  "between_rounds p X Y st \<longleftrightarrow> growing p X Y st \<and>
     (\<forall>b<length (fp_uses p). stable_block p st b \<or> lv_dirty st ! b) \<and> (\<forall>b<length (fp_uses p). lv_dirty st ! b \<longrightarrow> lv_has_dirty st)"

definition missing :: "flow_problem \<Rightarrow> liveness_state \<Rightarrow> nat" where
  "missing p st = (\<Sum>b<length (fp_uses p). (fp_count p - card (ins st b)) + (fp_count p - card (outs st b)))"

lemma append_all:
  assumes "set ss \<subseteq> {..<length preds}"
  shows "length (fold (\<lambda>s preds. preds[s := preds ! s @ [q]]) ss preds) = length preds \<and>
    (\<forall>b<length preds. set (fold (\<lambda>s preds. preds[s := preds ! s @ [q]]) ss preds ! b) = set (preds ! b) \<union> (if b \<in> set ss then {q} else {}))"
  using assms
proof (induction ss arbitrary: preds)
  case (Cons s ss)
  have "set ss \<subseteq> {..<length (preds[s := preds ! s @ [q]])}" using Cons.prems by simp
  from Cons.IH [OF this] show ?case using Cons.prems by (auto simp: nth_list_update)
qed simp

lemma predecessors_spec:
  assumes "\<And>q. q < length succs \<Longrightarrow> set (succs ! q) \<subseteq> {..<length succs}" "b < length succs"
  shows "set (block_predecessors succs ! b) = {q. q < length succs \<and> b \<in> set (succs ! q)}"
proof -
  let ?add = "\<lambda>source preds. fold (\<lambda>s preds. preds[s := preds ! s @ [source]]) (succs ! source) preds"
  have "length (fold ?add qs preds) = length succs \<and>
      (\<forall>b<length succs. set (fold ?add qs preds ! b) = set (preds ! b) \<union> {q \<in> set qs. b \<in> set (succs ! q)})"
    if "set qs \<subseteq> {..<length succs}" "length preds = length succs" for qs and preds :: "nat list list"
    using that
  proof (induction qs arbitrary: preds)
    case (Cons q qs)
    have "set (succs ! q) \<subseteq> {..<length preds}" using Cons.prems assms(1) [of q] by simp
    from append_all [OF this, of q] show ?case using Cons.IH [of "?add q preds"] Cons.prems by auto
  qed simp
  moreover have "set [0..<length succs] \<subseteq> {..<length succs}" by auto
  ultimately show ?thesis using assms(2) by (auto simp: block_predecessors_def)
qed

lemma union_all:
  assumes "set ss \<subseteq> {..<length xs}" "\<And>b. b < length xs \<Longrightarrow> has_size n (xs ! b)" "has_size n s"
  shows "has_size n (fold (\<lambda>s out. rs_union out (xs ! s)) ss s) \<and>
    set_of (fold (\<lambda>s out. rs_union out (xs ! s)) ss s) = set_of s \<union> (\<Union>b\<in>set ss. set_of (xs ! b))"
  using assms(1,3)
proof (induction ss arbitrary: s)
  case (Cons b ss)
  have "has_size n (xs ! b)" using Cons.prems assms(2) by simp
  then have "has_size n (rs_union s (xs ! b))" "set_of (rs_union s (xs ! b)) = set_of s \<union> set_of (xs ! b)"
    using rs_union_spec [of s "xs ! b"] Cons.prems by (auto simp: has_size_def rs_union_def)
  then show ?case using Cons.IH [of "rs_union s (xs ! b)"] Cons.prems by auto
qed simp

lemma mark_all: "set qs \<subseteq> {..<length d} \<Longrightarrow> length (fold (\<lambda>q d. d[q := True]) qs d) = length d \<and>
    (\<forall>b<length d. fold (\<lambda>q d. d[q := True]) qs d ! b \<longleftrightarrow> d ! b \<or> b \<in> set qs)"
  by (induction qs arbitrary: d) (auto simp: nth_list_update)

text \<open>What a visit computes.\<close>

lemma visit_values:
  assumes "fp_ok p" "sizes_ok p st" "b < length (fp_uses p)"
  defines "out \<equiv> fold (\<lambda>s out. rs_union out (lv_in st ! s)) (fp_successors p ! b) (rs_init (fp_count p))"
  defines "inn \<equiv> rs_union_minus (rs_init (fp_count p)) (fp_uses p ! b) out (fp_defs p ! b)"
  shows "has_size (fp_count p) out" "set_of out = flow_into p (ins st) b" "has_size (fp_count p) inn" "set_of inn = live_transfer p b (set_of out)"
proof -
  show out: "has_size (fp_count p) out" "set_of out = flow_into p (ins st) b"
    using union_all [of "fp_successors p ! b" "lv_in st" "fp_count p" "rs_init (fp_count p)"] assms(1-3)
    by (auto simp: out_def fp_ok_def sizes_ok_def flow_into_def ins_def rs_init_spec)
  have "has_size (fp_count p) (fp_uses p ! b)" "has_size (fp_count p) (fp_defs p ! b)" using assms(1,3) by (auto simp: fp_ok_def)
  then have "rs_ok inn \<and> set_of inn = live_transfer p b (set_of out)"
    using rs_union_minus_spec [of "rs_init (fp_count p)" "fp_uses p ! b" out "fp_defs p ! b"] out(1)
    by (auto simp: inn_def has_size_def rs_init_spec live_transfer_def)
  moreover have "rs_bit_count inn = fp_count p" by (simp add: inn_def rs_union_minus_def trim_tail_def Let_def rs_init_spec)
  ultimately show "has_size (fp_count p) inn" "set_of inn = live_transfer p b (set_of out)" by (simp_all add: has_size_def)
qed

lemma visit_block_cases:
  assumes "fp_ok p" "sizes_ok p st" "b < length (fp_uses p)"
  obtains (same) "visit_block p b st = st" "stable_block p st b \<or> \<not> lv_dirty st ! b"
  | (changed) out inn preds where "has_size (fp_count p) out" "has_size (fp_count p) inn" "set_of out = flow_into p (ins st) b"
      "set_of inn = live_transfer p b (set_of out)" "set preds = {q. q < length (fp_uses p) \<and> b \<in> set (fp_successors p ! q)}"
      "outs st b \<noteq> set_of out \<or> ins st b \<noteq> set_of inn"
      "visit_block p b st = st\<lparr>lv_in := (lv_in st)[b := inn], lv_out := (lv_out st)[b := out],
                lv_next_dirty := fold (\<lambda>q d. d[q := True]) preds (lv_next_dirty st),
                lv_has_dirty := lv_has_dirty st \<or> preds \<noteq> []\<rparr>"
proof -
  define out where "out = fold (\<lambda>s out. rs_union out (lv_in st ! s)) (fp_successors p ! b) (rs_init (fp_count p))"
  define inn where "inn = rs_union_minus (rs_init (fp_count p)) (fp_uses p ! b) out (fp_defs p ! b)"
  let ?preds = "block_predecessors (fp_successors p) ! b"
  have visit: "visit_block p b st = (if \<not> lv_dirty st ! b \<or> out = lv_out st ! b \<and> inn = lv_in st ! b then st
      else st\<lparr>lv_in := (lv_in st)[b := inn], lv_out := (lv_out st)[b := out],
                lv_next_dirty := fold (\<lambda>q d. d[q := True]) ?preds (lv_next_dirty st),
                lv_has_dirty := lv_has_dirty st \<or> ?preds \<noteq> []\<rparr>)"
    unfolding visit_block_def Let_def out_def [symmetric] inn_def [symmetric] by simp
  note vals = visit_values [OF assms, folded out_def, folded inn_def]
  have size: "has_size (fp_count p) (lv_in st ! b)" "has_size (fp_count p) (lv_out st ! b)" using assms by (auto simp: sizes_ok_def)
  consider (clean) "\<not> lv_dirty st ! b" | (equal) "out = lv_out st ! b" "inn = lv_in st ! b"
    | (new) "lv_dirty st ! b" "\<not> (out = lv_out st ! b \<and> inn = lv_in st ! b)" by blast
  then show ?thesis
  proof cases
    case clean
    then show ?thesis by (intro same) (simp_all add: visit)
  next
    case equal
    then have "stable_block p st b" using vals(2,4) by (simp add: stable_block_def ins_def outs_def)
    moreover have "visit_block p b st = st" using equal by (simp add: visit)
    ultimately show ?thesis by (intro same) simp_all
  next
    case new
    have "outs st b \<noteq> set_of out \<or> ins st b \<noteq> set_of inn"
      using new(2) rs_eqI [of out "lv_out st ! b"] rs_eqI [of inn "lv_in st ! b"] vals(1,3) size by (auto simp: ins_def outs_def has_size_def)
    moreover have "set ?preds = {q. q < length (fp_uses p) \<and> b \<in> set (fp_successors p ! q)}"
      using predecessors_spec [of "fp_successors p" b] assms(1,3) by (simp add: fp_ok_def)
    moreover have "visit_block p b st = st\<lparr>lv_in := (lv_in st)[b := inn], lv_out := (lv_out st)[b := out],
                lv_next_dirty := fold (\<lambda>q d. d[q := True]) ?preds (lv_next_dirty st),
                lv_has_dirty := lv_has_dirty st \<or> ?preds \<noteq> []\<rparr>" unfolding visit by (rule if_not_P) (use new in blast)
    ultimately show ?thesis using vals by (intro changed [of out inn ?preds]) simp_all
  qed
qed

lemma live_transfer_mono: "A \<subseteq> B \<Longrightarrow> live_transfer p b A \<subseteq> live_transfer p b B"
  by (auto simp: live_transfer_def)

lemma flow_into_mono: "(\<And>s. s \<in> set (fp_successors p ! b) \<Longrightarrow> I s \<subseteq> J s) \<Longrightarrow> flow_into p I b \<subseteq> flow_into p J b"
  by (auto simp: flow_into_def)

lemma sum_less:
  fixes g h :: "nat \<Rightarrow> nat"
  assumes "b < N" "\<And>c. c < N \<Longrightarrow> c \<noteq> b \<Longrightarrow> g c = h c" "g b < h b"
  shows "(\<Sum>c<N. g c) < (\<Sum>c<N. h c)"
  using assms by (intro sum_strict_mono_ex1) (auto, metis less_imp_le_nat order_refl)

lemma visit_step:
  assumes p: "fp_ok p" and sol: "solution p X Y" and b: "b < length (fp_uses p)" and st: "in_round p X Y (insert b todo) st"
  shows "in_round p X Y todo (visit_block p b st) \<and> lv_dirty (visit_block p b st) = lv_dirty st \<and>
    (lv_has_dirty st \<longrightarrow> lv_has_dirty (visit_block p b st)) \<and>
    (visit_block p b st = st \<or> missing p (visit_block p b st) < missing p st)"
proof -
  let ?N = "length (fp_uses p)" and ?v = "visit_block p b st"
  have sizes: "sizes_ok p st" and grow: "growing p X Y st" using st by (auto simp: in_round_def growing_def)
  from p sizes b show ?thesis
  proof (cases rule: visit_block_cases)
    case same
    then show ?thesis using st b by (auto simp: in_round_def)
  next
    case (changed out inn preds)
    have len: "length (lv_in st) = ?N" "length (lv_out st) = ?N" "length (lv_next_dirty st) = ?N" "length (lv_dirty st) = ?N" using sizes by (auto simp: sizes_ok_def)
    have marks: "length (lv_next_dirty ?v) = ?N \<and> (\<forall>c<?N. lv_next_dirty ?v ! c \<longleftrightarrow> lv_next_dirty st ! c \<or> c \<in> set preds)"
      using mark_all [of preds "lv_next_dirty st"] changed(5,7) len by auto
    have ins: "ins ?v c = (if c = b then set_of inn else ins st c)" if "c < ?N" for c
      using that len changed(7) by (simp add: ins_def nth_list_update)
    have outs: "outs ?v c = (if c = b then set_of out else outs st c)" if "c < ?N" for c
      using that len changed(7) by (simp add: outs_def nth_list_update)
    have below: "outs st c \<subseteq> flow_into p (ins st) c" "ins st c \<subseteq> live_transfer p c (outs st c)" "ins st c \<subseteq> X c" "outs st c \<subseteq> Y c" if "c < ?N" for c
      using grow that by (auto simp: growing_def)
    have more_out: "outs st b \<subseteq> set_of out" using below(1) [OF b] changed(3) by simp
    then have more_in: "ins st b \<subseteq> set_of inn" using below(2) [OF b] live_transfer_mono changed(4) by blast
    have more: "ins st c \<subseteq> ins ?v c" if "c < ?N" for c using ins [OF that] more_in by auto
    have succ: "s < ?N" if "c < ?N" "s \<in> set (fp_successors p ! c)" for c s using p that by (auto simp: fp_ok_def)
    have flow: "flow_into p (ins st) c \<subseteq> flow_into p (ins ?v) c" if "c < ?N" for c
      by (rule flow_into_mono) (use more succ [OF that] in auto)
    have equations: "Y c = flow_into p X c" "X c = live_transfer p c (Y c)" if "c < ?N" for c using sol that by (auto simp: solution_def)
    have "set_of out \<subseteq> Y b" unfolding changed(3) equations(1) [OF b]
      by (rule flow_into_mono) (use below(3) succ [OF b] in auto)
    moreover from this have "set_of inn \<subseteq> X b" unfolding changed(4) equations(2) [OF b] by (rule live_transfer_mono)
    moreover have "sizes_ok p ?v"
    proof -
      have "has_size (fp_count p) ((lv_in st)[b := inn] ! c)" "has_size (fp_count p) ((lv_out st)[b := out] ! c)" if "c < ?N" for c
        using that sizes changed(1,2) len by (cases "c = b"; simp add: sizes_ok_def)+
      then show ?thesis using marks changed(7) len by (simp add: sizes_ok_def)
    qed
    ultimately have grow': "growing p X Y ?v" unfolding growing_def
      using below flow ins outs changed(3,4) b by (auto split: if_splits) blast+
    have stable: "stable_block p ?v c \<or> lv_next_dirty ?v ! c \<or> c \<in> todo \<and> lv_dirty ?v ! c" if c: "c < ?N" for c
    proof (cases "b \<in> set (fp_successors p ! c)")
      case True
      then show ?thesis using c marks changed(5) by auto
    next
      case False
      then have "flow_into p (ins ?v) c = flow_into p (ins st) c"
        using ins succ [OF c] by (auto simp: flow_into_def split: if_splits)
      then show ?thesis
        using st c marks ins [OF c] outs [OF c] changed(3,4,7) by (auto simp: in_round_def stable_block_def)
    qed
    have dirty: "lv_next_dirty ?v ! c \<longrightarrow> lv_has_dirty ?v" if c: "c < ?N" for c
      using st c marks changed(7) by (auto simp: in_round_def)
    have "missing p ?v < missing p st"
    proof -
      have bound: "set_of out \<subseteq> {..<fp_count p}" "set_of inn \<subseteq> {..<fp_count p}" using set_of_set(3) changed(1,2) by auto
      then have card: "card (set_of out) \<le> fp_count p" "card (set_of inn) \<le> fp_count p" using card_mono [of "{..<fp_count p}"] by fastforce+
      have "card (outs st b) \<le> card (set_of out)" "card (ins st b) \<le> card (set_of inn)" using more_out more_in by (auto intro: card_mono)
      moreover have "card (outs st b) < card (set_of out) \<or> card (ins st b) < card (set_of inn)"
        using changed(6) more_out more_in psubset_card_mono [of "set_of out" "outs st b"] psubset_card_mono [of "set_of inn" "ins st b"] by auto
      ultimately show ?thesis unfolding missing_def
        using card b ins [OF b] outs [OF b] by (intro sum_less [OF b]) (auto simp: ins outs)
    qed
    then show ?thesis using grow' stable dirty changed(7) by (auto simp: in_round_def)
  qed
qed

lemma visits:
  assumes "fp_ok p" "solution p X Y" "set bs \<subseteq> {..<length (fp_uses p)}" "in_round p X Y (set bs) st"
  shows "in_round p X Y {} (fold (visit_block p) bs st) \<and>
    (fold (visit_block p) bs st = st \<or> missing p (fold (visit_block p) bs st) < missing p st)"
  using assms(3,4)
proof (induction bs arbitrary: st)
  case (Cons b bs)
  have step: "in_round p X Y (set bs) (visit_block p b st) \<and> (visit_block p b st = st \<or> missing p (visit_block p b st) < missing p st)"
    using visit_step [OF assms(1,2), of b "set bs" st] Cons.prems by auto
  then have "in_round p X Y {} (fold (visit_block p) bs (visit_block p b st)) \<and>
    (fold (visit_block p) bs (visit_block p b st) = visit_block p b st \<or> missing p (fold (visit_block p) bs (visit_block p b st)) < missing p (visit_block p b st))"
    using Cons.IH [of "visit_block p b st"] Cons.prems(1) by auto
  then show ?case using step by auto
qed simp

lemma round_step:
  assumes "fp_ok p" "solution p X Y" "between_rounds p X Y st" "lv_has_dirty st"
  shows "between_rounds p X Y (liveness_round p st) \<and>
    2 * missing p (liveness_round p st) + (if lv_has_dirty (liveness_round p st) then 1 else 0) < 2 * missing p st + 1"
proof -
  let ?N = "length (fp_uses p)"
  define start where "start = st\<lparr>lv_has_dirty := False, lv_next_dirty := replicate ?N False, lv_rounds := lv_rounds st + 1\<rparr>"
  define finish where "finish = fold (visit_block p) (rev [0..<?N]) start"
  have same: "ins start = ins st" "outs start = outs st" "lv_dirty start = lv_dirty st" by (simp_all add: start_def ins_def outs_def fun_eq_iff)
  then have "stable_block p start = stable_block p st" by (intro ext) (simp add: stable_block_def)
  note same = same this
  have "in_round p X Y (set (rev [0..<?N])) start"
    using assms(3) same by (auto simp: between_rounds_def in_round_def growing_def sizes_ok_def start_def)
  moreover have "set (rev [0..<?N]) \<subseteq> {..<?N}" by auto
  ultimately have d: "in_round p X Y {} finish" "finish = start \<or> missing p finish < missing p start"
    using visits [OF assms(1,2)] by (auto simp: finish_def)
  define next_st where "next_st = finish\<lparr>lv_dirty := lv_next_dirty finish, lv_next_dirty := lv_dirty finish\<rparr>"
  have round: "liveness_round p st = next_st" by (simp add: liveness_round_def Let_def start_def finish_def next_st_def)
  have next_same: "ins next_st = ins finish" "outs next_st = outs finish" "lv_has_dirty next_st = lv_has_dirty finish"
    by (simp_all add: next_st_def ins_def outs_def fun_eq_iff)
  then have "stable_block p next_st b = stable_block p finish b" "missing p next_st = missing p finish" for b
    by (auto simp: stable_block_def missing_def)
  note next_same = next_same this
  have "between_rounds p X Y next_st"
    using d(1) next_same by (auto simp: between_rounds_def in_round_def growing_def sizes_ok_def next_st_def)
  moreover have "missing p start = missing p st" by (simp add: missing_def same)
  moreover have "finish = start \<Longrightarrow> \<not> lv_has_dirty next_st" using next_same(3) by (simp add: start_def)
  ultimately show ?thesis using d(2) next_same by (auto simp: round)
qed

text \<open>The worklist ends in a solution that lies below every solution.\<close>

lemma fixed_point_least:
  assumes "fp_ok p" "solution p X Y"
  shows "\<exists>st. liveness_fixed_point p = Some st \<and> sizes_ok p st \<and> solution p (ins st) (outs st) \<and>
    (\<forall>b<length (fp_uses p). ins st b \<subseteq> X b \<and> outs st b \<subseteq> Y b)"
proof -
  let ?m = "\<lambda>st. 2 * missing p st + (if lv_has_dirty st then 1 else 0)"
  have init: "between_rounds p X Y (liveness_init p)"
    by (auto simp: between_rounds_def growing_def sizes_ok_def liveness_init_def Let_def ins_def outs_def rs_init_spec)
  have step: "between_rounds p X Y (liveness_round p st) \<and> ?m (liveness_round p st) < ?m st" if "between_rounds p X Y st" "lv_has_dirty st" for st
    using round_step [OF assms that] that(2) by simp
  obtain st where w: "while_option lv_has_dirty (liveness_round p) (liveness_init p) = Some st"
    using measure_while_option_Some [of "between_rounds p X Y" lv_has_dirty "liveness_round p" ?m, OF step init] by blast
  have final: "between_rounds p X Y st"
    by (rule while_option_rule [where P = "between_rounds p X Y", OF _ w init]) (use step in blast)
  have "\<not> lv_has_dirty st" by (rule while_option_stop [OF w])
  then have "solution p (ins st) (outs st)" "sizes_ok p st"
    using final by (auto simp: between_rounds_def stable_block_def solution_def growing_def)
  then show ?thesis using w final by (auto simp: liveness_fixed_point_def between_rounds_def growing_def)
qed

section \<open>The flow problem of a function\<close>

definition machine_block_at :: "machine_function \<Rightarrow> nat \<Rightarrow> machine_block" where
  "machine_block_at f b = mf_blocks f ! b"

definition instructions_at :: "machine_function \<Rightarrow> nat \<Rightarrow> machine_instruction list" where
  "instructions_at f b = mb_instructions (mf_blocks f ! b)"

text \<open>
  \<open>may_read f r b k\<close>: some path that starts before instruction \<open>k\<close> of block \<open>b\<close> reads the register \<open>r\<close> before anything writes it.
  An edge leaves at the end of a block; the block that it enters writes its parameters.
\<close>

inductive may_read :: "machine_function \<Rightarrow> nat \<Rightarrow> nat \<Rightarrow> nat \<Rightarrow> bool" for f r where
  reads: "k < length (instructions_at f b) \<Longrightarrow> r \<in> set (instruction_uses (instructions_at f b ! k)) \<Longrightarrow> may_read f r b k"
| passes: "k < length (instructions_at f b) \<Longrightarrow> \<not> writes_to (instructions_at f b ! k) r \<Longrightarrow> may_read f r b (Suc k) \<Longrightarrow> may_read f r b k"
| leaves: "k = length (instructions_at f b) \<Longrightarrow> b < length (mf_blocks f) \<Longrightarrow> c \<in> set (flow_successors f (mf_blocks f ! b)) \<Longrightarrow>
    r \<notin> set (mb_parameters (mf_blocks f ! c)) \<Longrightarrow> may_read f r c 0 \<Longrightarrow> may_read f r b k"

definition path_out :: "machine_function \<Rightarrow> nat \<Rightarrow> nat set" where
  "path_out f b = {r. r < mf_register_count f \<and> may_read f r b (length (instructions_at f b))}"

definition path_in :: "machine_function \<Rightarrow> nat \<Rightarrow> nat set" where
  "path_in f b = {r. r < mf_register_count f \<and> r \<notin> set (mb_parameters (mf_blocks f ! b)) \<and> may_read f r b 0}"

lemma successors_bound: "c \<in> set (flow_successors f b) \<Longrightarrow> c < length (mf_blocks f)"
  by (auto simp: flow_successors_def map_filter_def dest: block_index_bound split: option.splits)

lemma flow_problem_fields [simp]:
  "fp_count (flow_problem_of f) = mf_register_count f" "length (fp_uses (flow_problem_of f)) = length (mf_blocks f)"
  "b < length (mf_blocks f) \<Longrightarrow> fp_successors (flow_problem_of f) ! b = flow_successors f (mf_blocks f ! b)"
  by (simp_all add: flow_problem_of_def Let_def)

lemma flow_problem_ok: "fp_ok (flow_problem_of f)"
  using block_use_def_spec [of "{}"] successors_bound
  by (auto simp: fp_ok_def flow_problem_of_def Let_def)

lemma transfer_block:
  assumes "b < length (mf_blocks f)" "out \<subseteq> {..<mf_register_count f}"
  shows "live_transfer (flow_problem_of f) b out = live_before (mf_register_count f) (instructions_at f b) out - set (mb_parameters (mf_blocks f ! b))"
  using block_use_def_spec [OF assms(2), of "mf_blocks f ! b"] assms(1)
  by (simp add: live_transfer_def flow_problem_of_def Let_def instructions_at_def)

lemma may_read_inside:
  assumes "k \<le> length (instructions_at f b)"
  shows "live_before (mf_register_count f) (drop k (instructions_at f b)) (path_out f b) = {r. r < mf_register_count f \<and> may_read f r b k}"
  using assms
proof (induction "length (instructions_at f b) - k" arbitrary: k)
  case 0
  then show ?case by (simp add: path_out_def)
next
  case (Suc n)
  then have k: "k < length (instructions_at f b)" by simp
  have "live_before (mf_register_count f) (drop (Suc k) (instructions_at f b)) (path_out f b) = {r. r < mf_register_count f \<and> may_read f r b (Suc k)}"
    using Suc by (intro Suc.hyps) auto
  moreover have "drop k (instructions_at f b) = instructions_at f b ! k # drop (Suc k) (instructions_at f b)" using k by (simp add: Cons_nth_drop_Suc)
  moreover have "may_read f r b k \<longleftrightarrow> r \<in> set (instruction_uses (instructions_at f b ! k)) \<or> \<not> writes_to (instructions_at f b ! k) r \<and> may_read f r b (Suc k)" for r
    using k by (auto elim: may_read.cases intro: may_read.intros)
  ultimately show ?case by (auto simp: uses_of_def)
qed

lemma path_out_edges:
  "b < length (mf_blocks f) \<Longrightarrow> path_out f b = (\<Union>c\<in>set (flow_successors f (mf_blocks f ! b)). path_in f c)"
  by (auto simp: path_out_def path_in_def elim: may_read.cases intro: may_read.leaves)

lemma paths_solution: "solution (flow_problem_of f) (path_in f) (path_out f)"
proof -
  have "path_in f b = live_transfer (flow_problem_of f) b (path_out f b)" if b: "b < length (mf_blocks f)" for b
  proof -
    have "path_out f b \<subseteq> {..<mf_register_count f}" by (auto simp: path_out_def)
    then show ?thesis using may_read_inside [of 0 f b] by (auto simp: transfer_block [OF b] path_in_def)
  qed
  then show ?thesis by (simp add: solution_def flow_into_def path_out_edges)
qed

text \<open>A solution contains every path.\<close>

lemma solution_contains_paths:
  assumes "solution (flow_problem_of f) I O'" "\<And>b. b < length (mf_blocks f) \<Longrightarrow> O' b \<subseteq> {..<mf_register_count f}"
    "may_read f r b k" "r < mf_register_count f" "b < length (mf_blocks f)" "k \<le> length (instructions_at f b)"
  shows "r \<in> live_before (mf_register_count f) (drop k (instructions_at f b)) (O' b)"
  using assms(3-6)
proof induction
  case (reads k b)
  then show ?case by (simp add: Cons_nth_drop_Suc [symmetric] uses_of_def)
next
  case (passes k b)
  then show ?case by (simp add: Cons_nth_drop_Suc [symmetric])
next
  case (leaves k b c)
  have c: "c < length (mf_blocks f)" using leaves.hyps by (simp add: successors_bound)
  then have "r \<in> live_before (mf_register_count f) (instructions_at f c) (O' c)" using leaves.IH leaves.prems by simp
  then have "r \<in> I c" using assms(1,2) c leaves.hyps by (simp add: solution_def transfer_block)
  then have "r \<in> O' b" using assms(1) leaves.hyps leaves.prems by (auto simp: solution_def flow_into_def)
  then show ?case using leaves.hyps by simp
qed

lemma liveness_fixed_point_exact:
  "\<exists>st. liveness_fixed_point (flow_problem_of f) = Some st \<and> sizes_ok (flow_problem_of f) st \<and>
     (\<forall>b<length (mf_blocks f). ins st b = path_in f b \<and> outs st b = path_out f b)"
proof -
  let ?p = "flow_problem_of f"
  obtain st where st: "liveness_fixed_point ?p = Some st" "sizes_ok ?p st" "solution ?p (ins st) (outs st)"
      "\<And>b. b < length (mf_blocks f) \<Longrightarrow> ins st b \<subseteq> path_in f b \<and> outs st b \<subseteq> path_out f b"
    using fixed_point_least [OF flow_problem_ok [of f] paths_solution [of f]] flow_problem_fields(2) [of f] by metis
  have bound: "outs st b \<subseteq> {..<mf_register_count f}" if "b < length (mf_blocks f)" for b
    using st(2) that set_of_set(3) by (auto simp: sizes_ok_def outs_def)
  have into: "path_in f b \<subseteq> ins st b" if b: "b < length (mf_blocks f)" for b
  proof
    fix r assume "r \<in> path_in f b"
    then have "r \<in> live_before (mf_register_count f) (instructions_at f b) (outs st b)" "r \<notin> set (mb_parameters (mf_blocks f ! b))"
      using solution_contains_paths [OF st(3) bound, of r b 0] b by (simp_all add: path_in_def)
    then show "r \<in> ins st b" using st(3) b bound [OF b] by (simp add: solution_def transfer_block)
  qed
  have "path_out f b \<subseteq> outs st b" if b: "b < length (mf_blocks f)" for b
  proof -
    have "path_out f b \<subseteq> (\<Union>c\<in>set (flow_successors f (mf_blocks f ! b)). ins st c)"
      unfolding path_out_edges [OF b] using into successors_bound by (intro UN_mono) auto
    then show ?thesis using st(3) b by (simp add: solution_def flow_into_def)
  qed
  then show ?thesis using st into by blast
qed

text \<open>
  C39. The liveness analysis always ends, and it is exact on every function: a register below the register count is in the live-in
  set of a block when some path from there reads it before writing it (and the block does not bind it as a parameter), in the
  live-out set when some path from the end of the block does, and in the live-after set of an instruction when some path from
  behind the instruction does.
\<close>

theorem analyze_liveness_exact:
  "\<exists>la. analyze_liveness f True = Some la \<and> (\<forall>b<length (mf_blocks f).
     set_of (la_live_in la ! b) = {r. r < mf_register_count f \<and> r \<notin> set (mb_parameters (mf_blocks f ! b)) \<and> may_read f r b 0} \<and>
     set_of (la_live_out la ! b) = {r. r < mf_register_count f \<and> may_read f r b (length (instructions_at f b))} \<and>
     (\<forall>k<length (instructions_at f b). set_of (la_live_after la ! b ! k) = {r. r < mf_register_count f \<and> may_read f r b (Suc k)}))"
proof -
  obtain st where st: "liveness_fixed_point (flow_problem_of f) = Some st" "sizes_ok (flow_problem_of f) st"
      "\<And>b. b < length (mf_blocks f) \<Longrightarrow> ins st b = path_in f b \<and> outs st b = path_out f b" using liveness_fixed_point_exact by blast
  obtain la where la: "analyze_liveness f True = Some la" "la_live_in la = lv_in st" "la_live_out la = lv_out st"
      "la_live_after la = map (\<lambda>(b, out). fst (live_after_list (mb_instructions b) out)) (zip (mf_blocks f) (lv_out st))"
    by (simp add: analyze_liveness_def st(1) Let_def)
  have "set_of (la_live_after la ! b ! k) = {r. r < mf_register_count f \<and> may_read f r b (Suc k)}"
    if b: "b < length (mf_blocks f)" and k: "k < length (instructions_at f b)" for b k
  proof -
    have len: "length (lv_out st) = length (mf_blocks f)" "has_size (mf_register_count f) (lv_out st ! b)" using st(2) b by (auto simp: sizes_ok_def)
    then have "la_live_after la ! b = fst (live_after_list (instructions_at f b) (lv_out st ! b))" using b by (simp add: la(4) instructions_at_def)
    then show ?thesis
      using live_after_list_spec [OF len(2), of "instructions_at f b"] k st(3) [OF b] may_read_inside [of "Suc k" f b] by (simp add: outs_def)
  qed
  then show ?thesis using la st(3) by (auto simp: ins_def outs_def path_in_def path_out_def)
qed

end
