(* ===== verification/Interval_Props.thy ===== *)
theory Interval_Props
  imports Live_Intervals Liveness_Props
begin

text \<open>
  Live intervals cover liveness: wherever some path may still read a register, one of the segments of its interval spans the
  point, and its interval spans the segment. \<open>scan_ok\<close> is the invariant of the scan of one block, \<open>seen\<close> what the scan has recorded.
\<close>

lemma fold_keeps: "(\<And>x st. x \<in> set xs \<Longrightarrow> P st \<Longrightarrow> P (g x st)) \<Longrightarrow> P st \<Longrightarrow> P (fold g xs st)"
  by (induction xs arbitrary: st) auto

lemma fold_reaches:
  assumes "x \<in> set xs" "\<And>y st. y \<in> set xs \<Longrightarrow> P st \<Longrightarrow> P (g y st)" "\<And>st. P st \<Longrightarrow> Q (g x st)"
    "\<And>y st. y \<in> set xs \<Longrightarrow> P st \<Longrightarrow> Q st \<Longrightarrow> Q (g y st)" "P st"
  shows "Q (fold g xs st)"
proof -
  obtain ys zs where xs: "xs = ys @ x # zs" using assms(1) by (auto simp: in_set_conv_decomp)
  have "P (fold g ys st)" by (rule fold_keeps) (use assms xs in auto)
  then have "P (g x (fold g ys st)) \<and> Q (g x (fold g ys st))" using assms(2,3) xs by simp
  then have "P (fold g zs (g x (fold g ys st))) \<and> Q (fold g zs (g x (fold g ys st)))"
    by (rule fold_keeps [where P = "\<lambda>st. P st \<and> Q st", rotated]) (use assms xs in auto)
  then show ?thesis by (simp add: xs)
qed

section \<open>The scan of a block\<close>

definition in_hull :: "live_interval \<Rightarrow> live_segment \<Rightarrow> bool" where
  "in_hull iv s \<longleftrightarrow> li_start iv \<le> ls_start s \<and> ls_end s \<le> li_end iv \<and> ls_start s < undefined_position"

definition scan_ok :: "nat \<Rightarrow> interval_state \<Rightarrow> bool" where
  "scan_ok n st \<longleftrightarrow> length (iv_intervals st) = n \<and> length (iv_first st) = n \<and> length (iv_last st) = n \<and>
     distinct (iv_touched st) \<and> set (iv_touched st) \<subseteq> {..<n} \<and>
     (\<forall>r<n. (r \<notin> set (iv_touched st) \<longrightarrow> iv_first st ! r = undefined_position \<and> iv_last st ! r = 0) \<and>
        (r \<in> set (iv_touched st) \<longrightarrow> iv_first st ! r < undefined_position \<and>
           li_start (iv_intervals st ! r) \<le> iv_first st ! r \<and> iv_last st ! r \<le> li_end (iv_intervals st ! r)) \<and>
        li_register (iv_intervals st ! r) = r \<and> list_all (in_hull (iv_intervals st ! r)) (li_segments (iv_intervals st ! r)))"

definition seen :: "interval_state \<Rightarrow> nat \<Rightarrow> int \<Rightarrow> bool" where
  "seen st r at \<longleftrightarrow> r \<in> set (iv_touched st) \<and> iv_first st ! r \<le> at \<and> at \<le> iv_last st ! r"

definition segments_of :: "interval_state \<Rightarrow> nat \<Rightarrow> live_segment list" where
  "segments_of st r = li_segments (iv_intervals st ! r)"

definition position_ok :: "int \<Rightarrow> bool" where
  "position_ok at \<longleftrightarrow> 0 \<le> at \<and> at < undefined_position"

lemma touch_mark_fields:
  assumes "scan_ok n st" "r < n"
  shows "iv_first (touch_mark n at r st) = (iv_first st)[r := min (iv_first st ! r) at]"
    "iv_last (touch_mark n at r st) = (iv_last st)[r := max (iv_last st ! r) at]"
    "iv_touched (touch_mark n at r st) = (if iv_first st ! r = undefined_position then iv_touched st @ [r] else iv_touched st)"
    "iv_intervals (touch_mark n at r st) = (iv_intervals st)[r := (iv_intervals st ! r)\<lparr>li_start := min (li_start (iv_intervals st ! r)) at,
       li_end := max (li_end (iv_intervals st ! r)) at\<rparr>]"
  using assms by (simp_all add: touch_mark_def touch_register_def mark_register_def Let_def scan_ok_def)

lemma scan_okD:
  assumes "scan_ok n st" "r < n"
  shows "r \<notin> set (iv_touched st) \<Longrightarrow> iv_first st ! r = undefined_position \<and> iv_last st ! r = 0"
    "r \<in> set (iv_touched st) \<Longrightarrow> iv_first st ! r < undefined_position \<and>
       li_start (iv_intervals st ! r) \<le> iv_first st ! r \<and> iv_last st ! r \<le> li_end (iv_intervals st ! r)"
    "li_register (iv_intervals st ! r) = r" "list_all (in_hull (iv_intervals st ! r)) (li_segments (iv_intervals st ! r))"
  using assms by (simp_all add: scan_ok_def)

lemma touch_mark_ok:
  assumes "scan_ok n st" "r < n" "position_ok at"
  shows "scan_ok n (touch_mark n at r st) \<and> seen (touch_mark n at r st) r at \<and>
    (seen st r' at' \<longrightarrow> seen (touch_mark n at r st) r' at') \<and> segments_of (touch_mark n at r st) = segments_of st"
proof -
  let ?st = "touch_mark n at r st" and ?iv = "iv_intervals st ! r"
  note fields = touch_mark_fields [OF assms(1,2), of at]
  have len: "length (iv_intervals st) = n" "length (iv_first st) = n" "length (iv_last st) = n" using assms(1) by (auto simp: scan_ok_def)
  have touched: "r \<in> set (iv_touched st) \<longleftrightarrow> iv_first st ! r \<noteq> undefined_position" using scan_okD(1,2) [OF assms(1,2)] by auto
  have now: "q \<in> set (iv_touched ?st) \<longleftrightarrow> q = r \<or> q \<in> set (iv_touched st)" for q using fields(3) touched by auto
  have other: "iv_first ?st ! q = iv_first st ! q" "iv_last ?st ! q = iv_last st ! q" "iv_intervals ?st ! q = iv_intervals st ! q" if "q \<noteq> r" for q
    using that fields by auto
  have self: "iv_first ?st ! r = min (iv_first st ! r) at" "iv_last ?st ! r = max (iv_last st ! r) at"
    "iv_intervals ?st ! r = ?iv\<lparr>li_start := min (li_start ?iv) at, li_end := max (li_end ?iv) at\<rparr>" using fields len assms(2) by auto
  have hull: "list_all (in_hull (?iv\<lparr>li_start := min (li_start ?iv) at, li_end := max (li_end ?iv) at\<rparr>)) (li_segments ?iv)"
  proof -
    have "list_all (in_hull ?iv) (li_segments ?iv)" using assms(1,2) by (simp add: scan_ok_def)
    then show ?thesis by (simp add: in_hull_def list_all_iff min.coboundedI1 max.coboundedI1)
  qed
  have "scan_ok n ?st" unfolding scan_ok_def
  proof (intro conjI allI impI)
    show "length (iv_intervals ?st) = n" "length (iv_first ?st) = n" "length (iv_last ?st) = n" using fields len by simp_all
    show "distinct (iv_touched ?st)" "set (iv_touched ?st) \<subseteq> {..<n}" using fields(3) touched assms(1,2) by (simp_all add: scan_ok_def)
    fix q assume q: "q < n"
    show "iv_first ?st ! q = undefined_position" "iv_last ?st ! q = 0" if "q \<notin> set (iv_touched ?st)"
      using that now [of q] other [of q] scan_okD(1) [OF assms(1) q] by auto
    show "iv_first ?st ! q < undefined_position" "li_start (iv_intervals ?st ! q) \<le> iv_first ?st ! q" "iv_last ?st ! q \<le> li_end (iv_intervals ?st ! q)"
      if "q \<in> set (iv_touched ?st)"
    proof -
      have "iv_first ?st ! q < undefined_position \<and> li_start (iv_intervals ?st ! q) \<le> iv_first ?st ! q \<and> iv_last ?st ! q \<le> li_end (iv_intervals ?st ! q)"
      proof (cases "q = r")
        case True
        then show ?thesis using self assms(3) scan_okD(1,2) [OF assms(1,2)] by (cases "r \<in> set (iv_touched st)") (auto simp: position_ok_def)
      next
        case False
        then have "q \<in> set (iv_touched st)" using that now by simp
        then show ?thesis using scan_okD(2) [OF assms(1) q] other [OF False] by simp
      qed
      then show "iv_first ?st ! q < undefined_position" "li_start (iv_intervals ?st ! q) \<le> iv_first ?st ! q" "iv_last ?st ! q \<le> li_end (iv_intervals ?st ! q)" by simp_all
    qed
    show "li_register (iv_intervals ?st ! q) = q" "list_all (in_hull (iv_intervals ?st ! q)) (li_segments (iv_intervals ?st ! q))"
      using scan_okD(3,4) [OF assms(1) q] other [of q] self hull by (cases "q = r"; simp)+
  qed
  moreover have "seen ?st r at" using now self by (simp add: seen_def)
  moreover have "seen st r' at' \<longrightarrow> seen ?st r' at'" using now other [of r'] self by (cases "r' = r") (auto simp: seen_def)
  moreover have "segments_of ?st = segments_of st"
  proof
    fix q show "segments_of ?st q = segments_of st q" using other [of q] self by (cases "q = r") (simp_all add: segments_of_def)
  qed
  ultimately show ?thesis by blast
qed

lemma touch_mark_outside: "scan_ok n st \<Longrightarrow> \<not> r < n \<Longrightarrow> touch_mark n at r st = st"
  by (auto simp: touch_mark_def touch_register_def mark_register_def scan_ok_def)

text \<open>What all steps of the scan of a block keep.\<close>

definition scan_keeps :: "nat \<Rightarrow> (interval_state \<Rightarrow> interval_state) \<Rightarrow> bool" where
  "scan_keeps n g \<longleftrightarrow> (\<forall>st. scan_ok n st \<longrightarrow> scan_ok n (g st) \<and> segments_of (g st) = segments_of st \<and> (\<forall>r at. seen st r at \<longrightarrow> seen (g st) r at))"

lemma scan_keepsD: "scan_keeps n g \<Longrightarrow> scan_ok n st \<Longrightarrow> scan_ok n (g st)" "scan_keeps n g \<Longrightarrow> scan_ok n st \<Longrightarrow> segments_of (g st) = segments_of st"
  "scan_keeps n g \<Longrightarrow> scan_ok n st \<Longrightarrow> seen st r at \<Longrightarrow> seen (g st) r at"
  by (auto simp: scan_keeps_def)

lemma scan_keeps_fold: "(\<And>x. x \<in> set xs \<Longrightarrow> scan_keeps n (g x)) \<Longrightarrow> scan_keeps n (fold g xs)"
  by (induction xs) (auto simp: scan_keeps_def)

lemma scan_reaches:
  assumes "x \<in> set xs" "\<And>y. y \<in> set xs \<Longrightarrow> scan_keeps n (g y)" "\<And>st. scan_ok n st \<Longrightarrow> seen (g x st) r at" "scan_ok n st"
  shows "seen (fold g xs st) r at"
  by (rule fold_reaches [OF assms(1), where P = "scan_ok n" and Q = "\<lambda>st. seen st r at"])
    (use assms scan_keepsD in blast)+

lemma touch_mark_keeps: "position_ok at \<Longrightarrow> scan_keeps n (touch_mark n at r)"
  using touch_mark_ok touch_mark_outside by (cases "r < n") (fastforce simp: scan_keeps_def)+

lemma interval_use_spec:
  assumes "position_ok at"
  shows "scan_keeps n (interval_use n depth at w r)" "r < n \<Longrightarrow> scan_ok n st \<Longrightarrow> seen (interval_use n depth at w r st) r at"
proof -
  have weigh: "scan_ok n (st\<lparr>iv_intervals := (iv_intervals st)[r := weigh_use a b c (iv_intervals st ! r)]\<rparr>) \<and>
      segments_of (st\<lparr>iv_intervals := (iv_intervals st)[r := weigh_use a b c (iv_intervals st ! r)]\<rparr>) = segments_of st \<and>
      (seen (st\<lparr>iv_intervals := (iv_intervals st)[r := weigh_use a b c (iv_intervals st ! r)]\<rparr>) r' at' \<longleftrightarrow> seen st r' at')"
    if "scan_ok n st" "r < n" for st a b c r' at'
  proof -
    have same: "li_start (weigh_use a b c iv) = li_start iv" "li_end (weigh_use a b c iv) = li_end iv" "li_segments (weigh_use a b c iv) = li_segments iv"
      "li_register (weigh_use a b c iv) = li_register iv" "in_hull (weigh_use a b c iv) = in_hull iv" for iv
      by (simp_all add: weigh_use_def in_hull_def fun_eq_iff)
    have nth: "(iv_intervals st)[r := weigh_use a b c (iv_intervals st ! r)] ! q = (if q = r then weigh_use a b c (iv_intervals st ! r) else iv_intervals st ! q)" for q
      using that by (simp add: scan_ok_def nth_list_update)
    show ?thesis using that by (simp add: scan_ok_def segments_of_def seen_def nth same fun_eq_iff)
  qed
  show "scan_keeps n (interval_use n depth at w r)"
    using touch_mark_keeps [OF assms, of n r] weigh by (cases "r < n") (auto simp: scan_keeps_def interval_use_def Let_def)
  show "r < n \<Longrightarrow> scan_ok n st \<Longrightarrow> seen (interval_use n depth at w r st) r at"
    using touch_mark_ok [of n st r at] weigh [of "touch_mark n at r st"] assms by (simp add: interval_use_def Let_def)
qed

lemma has_result_produces: "has_result oc \<Longrightarrow> produces_result oc"
  by (auto simp: has_result_def produces_result_def)

lemma interval_instruction_spec:
  assumes "position_ok at"
  shows "scan_keeps n (interval_instruction n depth at i)"
    "r < n \<Longrightarrow> r \<in> set (instruction_uses i) \<Longrightarrow> scan_ok n st \<Longrightarrow> seen (interval_instruction n depth at i st) r at"
    "r < n \<Longrightarrow> writes_to i r \<Longrightarrow> scan_ok n st \<Longrightarrow> seen (interval_instruction n depth at i st) r at"
proof -
  have uses: "scan_keeps n (fold (interval_use n depth at w) rs)" for w rs by (rule scan_keeps_fold) (rule interval_use_spec(1) [OF assms])
  have mark_register: "scan_keeps n (touch_mark n at r)" for r by (rule touch_mark_keeps [OF assms])
  show keeps: "scan_keeps n (interval_instruction n depth at i)"
    using uses [of 2] uses [of 4] mark_register by (simp add: scan_keeps_def interval_instruction_def Let_def)
  show "seen (interval_instruction n depth at i st) r at" if "r < n" "r \<in> set (instruction_uses i)" "scan_ok n st"
  proof -
    let ?st1 = "fold (interval_use n depth at 2) (mi_inputs i) st"
    have ok: "scan_ok n ?st1" using uses that(3) scan_keepsD(1) by blast
    have seen_by: "r \<in> set rs \<Longrightarrow> scan_ok n st' \<Longrightarrow> seen (fold (interval_use n depth at w) rs st') r at" for w rs st'
      by (rule scan_reaches) (use interval_use_spec [OF assms] that(1) in auto)
    have "r \<in> set (mi_inputs i) \<Longrightarrow> seen ?st1 r at" using seen_by that(3) by blast
    then have "seen (fold (interval_use n depth at 4) (passed_arguments i) ?st1) r at"
      using that(2) seen_by [OF _ ok] scan_keepsD(3) [OF uses ok] by (auto simp: instruction_uses_def)
    moreover have "scan_ok n (fold (interval_use n depth at 4) (passed_arguments i) ?st1)" using uses ok scan_keepsD(1) by blast
    ultimately show ?thesis using scan_keepsD(3) [OF mark_register] by (simp add: interval_instruction_def Let_def)
  qed
  show "seen (interval_instruction n depth at i st) r at" if "r < n" "writes_to i r" "scan_ok n st"
  proof -
    let ?st2 = "fold (interval_use n depth at 4) (passed_arguments i) (fold (interval_use n depth at 2) (mi_inputs i) st)"
    have "scan_ok n ?st2" using uses that(3) scan_keepsD(1) by blast
    then have "seen (touch_mark n at r ?st2) r at" using touch_mark_ok [of n ?st2 r at] that(1) assms by blast
    then show ?thesis using that(1,2) has_result_produces by (simp add: interval_instruction_def Let_def writes_to_def)
  qed
qed

section \<open>Closing the segments of a block\<close>

definition close_one :: "nat \<Rightarrow> interval_state \<Rightarrow> interval_state" where
  "close_one r st = st\<lparr>
       iv_intervals := (iv_intervals st)[r := (iv_intervals st ! r)\<lparr>li_segments := li_segments (iv_intervals st ! r) @ [\<lparr>ls_start = iv_first st ! r, ls_end = iv_last st ! r\<rparr>]\<rparr>],
       iv_first := (iv_first st)[r := undefined_position], iv_last := (iv_last st)[r := 0]\<rparr>"

lemma close_all:
  assumes "distinct rs" "set rs \<subseteq> {..<n}" "length (iv_intervals st) = n" "length (iv_first st) = n" "length (iv_last st) = n"
  defines "st' \<equiv> fold close_one rs st"
  shows "length (iv_intervals st') = n" "length (iv_first st') = n" "length (iv_last st') = n" "iv_touched st' = iv_touched st"
    "q < n \<Longrightarrow> iv_intervals st' ! q = (if q \<in> set rs then (iv_intervals st ! q)\<lparr>li_segments := li_segments (iv_intervals st ! q) @
       [\<lparr>ls_start = iv_first st ! q, ls_end = iv_last st ! q\<rparr>]\<rparr> else iv_intervals st ! q)"
    "q < n \<Longrightarrow> iv_first st' ! q = (if q \<in> set rs then undefined_position else iv_first st ! q)"
    "q < n \<Longrightarrow> iv_last st' ! q = (if q \<in> set rs then 0 else iv_last st ! q)"
proof -
  have "length (iv_intervals st') = n \<and> length (iv_first st') = n \<and> length (iv_last st') = n \<and> iv_touched st' = iv_touched st \<and>
     (\<forall>q<n. iv_intervals st' ! q = (if q \<in> set rs then (iv_intervals st ! q)\<lparr>li_segments := li_segments (iv_intervals st ! q) @
       [\<lparr>ls_start = iv_first st ! q, ls_end = iv_last st ! q\<rparr>]\<rparr> else iv_intervals st ! q) \<and>
     iv_first st' ! q = (if q \<in> set rs then undefined_position else iv_first st ! q) \<and>
     iv_last st' ! q = (if q \<in> set rs then 0 else iv_last st ! q))"
    using assms(1-5) unfolding st'_def
  proof (induction rs arbitrary: st)
    case (Cons r rs)
    have r: "r < n" "r \<notin> set rs" using Cons.prems by auto
    have one: "length (iv_intervals (close_one r st)) = n" "length (iv_first (close_one r st)) = n" "length (iv_last (close_one r st)) = n"
      "iv_touched (close_one r st) = iv_touched st" using Cons.prems by (simp_all add: close_one_def)
    have at: "iv_intervals (close_one r st) ! q = (if q = r then (iv_intervals st ! r)\<lparr>li_segments := li_segments (iv_intervals st ! r) @ [\<lparr>ls_start = iv_first st ! r, ls_end = iv_last st ! r\<rparr>]\<rparr> else iv_intervals st ! q)"
      "iv_first (close_one r st) ! q = (if q = r then undefined_position else iv_first st ! q)"
      "iv_last (close_one r st) ! q = (if q = r then 0 else iv_last st ! q)" for q
      using Cons.prems r by (simp_all add: close_one_def nth_list_update)
    have rest: "distinct rs" "set rs \<subseteq> {..<n}" using Cons.prems by simp_all
    from Cons.IH [OF rest one(1-3)] show ?case using r by (simp add: one(4) at)
  qed simp
  then show "length (iv_intervals st') = n" "length (iv_first st') = n" "length (iv_last st') = n" "iv_touched st' = iv_touched st"
    "q < n \<Longrightarrow> iv_intervals st' ! q = (if q \<in> set rs then (iv_intervals st ! q)\<lparr>li_segments := li_segments (iv_intervals st ! q) @
       [\<lparr>ls_start = iv_first st ! q, ls_end = iv_last st ! q\<rparr>]\<rparr> else iv_intervals st ! q)"
    "q < n \<Longrightarrow> iv_first st' ! q = (if q \<in> set rs then undefined_position else iv_first st ! q)"
    "q < n \<Longrightarrow> iv_last st' ! q = (if q \<in> set rs then 0 else iv_last st ! q)" by blast+
qed

text \<open>A state between two blocks, where nothing is recorded yet.\<close>

definition rest_ok :: "nat \<Rightarrow> interval_state \<Rightarrow> bool" where
  "rest_ok n st \<longleftrightarrow> scan_ok n (st\<lparr>iv_touched := []\<rparr>)"

definition spans :: "interval_state \<Rightarrow> nat \<Rightarrow> int \<Rightarrow> int \<Rightarrow> bool" where
  "spans st r at at' \<longleftrightarrow> (\<exists>seg\<in>set (segments_of st r). ls_start seg \<le> at \<and> at' \<le> ls_end seg)"

lemma close_segments_spec:
  assumes "scan_ok n st"
  shows "rest_ok n (close_segments st)" "spans st r at at' \<Longrightarrow> r < n \<Longrightarrow> spans (close_segments st) r at at'"
    "seen st r at \<Longrightarrow> seen st r at' \<Longrightarrow> spans (close_segments st) r at at'"
proof -
  have prems: "distinct (iv_touched st)" "set (iv_touched st) \<subseteq> {..<n}" "length (iv_intervals st) = n" "length (iv_first st) = n" "length (iv_last st) = n"
    using assms by (auto simp: scan_ok_def)
  have close: "close_segments st = fold close_one (iv_touched st) st" by (simp add: close_segments_def close_one_def [abs_def])
  note all = close_all [OF prems, folded close]
  have hull: "list_all (in_hull (iv_intervals (close_segments st) ! q)) (li_segments (iv_intervals (close_segments st) ! q))"
    "li_register (iv_intervals (close_segments st) ! q) = q" if "q < n" for q
    using scan_okD [OF assms that] all(5) [OF that] by (auto simp: in_hull_def list_all_iff)
  have "iv_first (close_segments st) ! q = undefined_position" "iv_last (close_segments st) ! q = 0" if "q < n" for q
    using scan_okD(1) [OF assms that] all(6,7) [OF that] by auto
  then show "rest_ok n (close_segments st)" using all(1-4) hull by (simp add: rest_ok_def scan_ok_def)
  show "spans st r at at' \<Longrightarrow> r < n \<Longrightarrow> spans (close_segments st) r at at'"
    using all(5) [of r] by (auto simp: spans_def segments_of_def)
  assume "seen st r at" "seen st r at'"
  moreover from this have "r < n" using prems(2) by (auto simp: seen_def)
  ultimately show "spans (close_segments st) r at at'" using all(5) [of r] by (simp add: spans_def segments_of_def seen_def)
qed

section \<open>Blocks\<close>

definition block_start :: "machine_function \<Rightarrow> nat \<Rightarrow> int" where
  "block_start f b = fst (block_bounds 0 (mf_blocks f) ! b)"

definition position_count :: "machine_function \<Rightarrow> int" where
  "position_count f = (\<Sum>b\<leftarrow>mf_blocks f. 1 + int (length (mb_instructions b)))"

lemma block_bounds_nth:
  "b < length bs \<Longrightarrow> snd (block_bounds p bs ! b) = fst (block_bounds p bs ! b) + 1 + int (length (mb_instructions (bs ! b))) \<and>
     p \<le> fst (block_bounds p bs ! b) \<and> snd (block_bounds p bs ! b) \<le> p + (\<Sum>b\<leftarrow>bs. 1 + int (length (mb_instructions b)))"
proof (induction p bs arbitrary: b rule: block_bounds.induct)
  case (2 p b0 bs)
  have nonneg: "0 \<le> (\<Sum>b\<leftarrow>bs. 1 + int (length (mb_instructions b)))" for bs by (induction bs) auto
  show ?case
  proof (cases b)
    case 0
    then show ?thesis using nonneg [of bs] by (simp add: Let_def)
  next
    case (Suc c)
    then show ?thesis using "2.IH" [OF refl, of c] "2.prems" by (simp add: Let_def)
  qed
qed simp

lemma block_bounds_at:
  assumes "b < length (mf_blocks f)"
  shows "block_bounds 0 (mf_blocks f) ! b = (block_start f b, block_start f b + 1 + int (length (instructions_at f b)))" "0 \<le> block_start f b"
    "block_start f b + 1 + int (length (instructions_at f b)) \<le> position_count f"
proof -
  show "block_bounds 0 (mf_blocks f) ! b = (block_start f b, block_start f b + 1 + int (length (instructions_at f b)))"
    using block_bounds_nth [OF assms, of 0] unfolding block_start_def instructions_at_def by (metis prod.collapse)
  then show "0 \<le> block_start f b" "block_start f b + 1 + int (length (instructions_at f b)) \<le> position_count f"
    using block_bounds_nth [OF assms, of 0] by (simp_all add: position_count_def)
qed

text \<open>The positions at which a block touches a register.\<close>

definition marked :: "machine_function \<Rightarrow> liveness_analysis \<Rightarrow> nat \<Rightarrow> nat \<Rightarrow> int \<Rightarrow> bool" where
  "marked f la b r at \<longleftrightarrow> r < mf_register_count f \<and>
     (at = block_start f b \<and> (r \<in> set (rs_members (la_live_in la ! b)) \<or> r \<in> set (mb_parameters (mf_blocks f ! b))) \<or>
      at = block_start f b + 1 + int (length (instructions_at f b)) \<and> r \<in> set (rs_members (la_live_out la ! b)) \<or>
      (\<exists>k<length (instructions_at f b). at = block_start f b + 1 + int k \<and>
         (r \<in> set (instruction_uses (instructions_at f b ! k)) \<or> writes_to (instructions_at f b ! k) r)))"

lemma interval_block_spec:
  assumes "position_count f < undefined_position" "b < length (mf_blocks f)" "rest_ok (mf_register_count f) st"
  shows "rest_ok (mf_register_count f) (interval_block f la b st)"
    "spans st r at at' \<Longrightarrow> r < mf_register_count f \<Longrightarrow> spans (interval_block f la b st) r at at'"
    "marked f la b r at \<Longrightarrow> marked f la b r at' \<Longrightarrow> spans (interval_block f la b st) r at at'"
proof -
  let ?n = "mf_register_count f" and ?s = "block_start f b" and ?is = "instructions_at f b" and ?d = "loop_depths (la_successors la) ! b"
  let ?e = "?s + 1 + int (length ?is)"
  note bounds = block_bounds_at [OF assms(2)]
  define step where "step = (\<lambda>(k, i). interval_instruction ?n ?d (?s + 1 + int k) i)"
  let ?st0 = "st\<lparr>iv_touched := []\<rparr>"
  let ?st1 = "fold (touch_mark ?n ?s) (rs_members (la_live_in la ! b)) ?st0"
  let ?st2 = "fold (touch_mark ?n ?e) (rs_members (la_live_out la ! b)) ?st1"
  let ?st3 = "fold (touch_mark ?n ?s) (mb_parameters (mf_blocks f ! b)) ?st2"
  let ?st4 = "fold step (enumerate 0 ?is) ?st3"
  have run: "interval_block f la b st = close_segments ?st4"
    by (simp add: interval_block_def Let_def bounds(1) step_def instructions_at_def)
  have pos: "position_ok ?s" "position_ok ?e" "\<And>k. k < length ?is \<Longrightarrow> position_ok (?s + 1 + int k)"
    using bounds(2,3) assms(1) by (auto simp: position_ok_def)
  have mark_register: "scan_keeps ?n (fold (touch_mark ?n at) rs)" if "position_ok at" for at rs
    by (rule scan_keeps_fold) (rule touch_mark_keeps [OF that])
  have step_keeps: "scan_keeps ?n (step x)" if "x \<in> set (enumerate 0 ?is)" for x
  proof (cases x)
    case (Pair k i)
    then have "k < length ?is" using that by (auto simp: in_set_enumerate_eq)
    then show ?thesis using interval_instruction_spec(1) [OF pos(3)] by (simp add: Pair step_def)
  qed
  have steps: "scan_keeps ?n (fold step (enumerate 0 ?is))" by (rule scan_keeps_fold) (rule step_keeps)
  have mark_seen: "seen (fold (touch_mark ?n at) rs st') r at" if "r \<in> set rs" "r < ?n" "scan_ok ?n st'" "position_ok at" for r rs at st'
  proof (rule scan_reaches [OF that(1) _ _ that(3)])
    show "scan_keeps ?n (touch_mark ?n at y)" for y by (rule touch_mark_keeps [OF that(4)])
    show "seen (touch_mark ?n at r st'') r at" if "scan_ok ?n st''" for st''
      by (rule touch_mark_ok [OF that \<open>r < ?n\<close> \<open>position_ok at\<close>, THEN conjunct2, THEN conjunct1])
  qed
  have ok0: "scan_ok ?n ?st0" using assms(3) by (simp add: rest_ok_def)
  have ok1: "scan_ok ?n ?st1" by (rule scan_keepsD(1) [OF mark_register [OF pos(1)] ok0])
  have ok2: "scan_ok ?n ?st2" by (rule scan_keepsD(1) [OF mark_register [OF pos(2)] ok1])
  have ok3: "scan_ok ?n ?st3" by (rule scan_keepsD(1) [OF mark_register [OF pos(1)] ok2])
  have ok4: "scan_ok ?n ?st4" by (rule scan_keepsD(1) [OF steps ok3])
  note seen3 = scan_keepsD(3) [OF steps ok3]
  note seen2 = seen3 [OF scan_keepsD(3) [OF mark_register [OF pos(1)] ok2]]
  note seen1 = seen2 [OF scan_keepsD(3) [OF mark_register [OF pos(2)] ok1]]
  have all_seen: "seen ?st4 r at" if m: "marked f la b r at" for r at
  proof -
    have r: "r < ?n" using m by (simp add: marked_def)
    consider (inn) "at = ?s" "r \<in> set (rs_members (la_live_in la ! b))" | (param) "at = ?s" "r \<in> set (mb_parameters (mf_blocks f ! b))"
      | (out) "at = ?e" "r \<in> set (rs_members (la_live_out la ! b))"
      | (inside) k where "k < length ?is" "at = ?s + 1 + int k" "r \<in> set (instruction_uses (?is ! k)) \<or> writes_to (?is ! k) r"
      using m by (auto simp: marked_def)
    then show ?thesis
    proof cases
      case inn
      show ?thesis unfolding inn(1) by (rule seen1 [OF mark_seen [OF inn(2) r ok0 pos(1)]])
    next
      case param
      show ?thesis unfolding param(1) by (rule seen3 [OF mark_seen [OF param(2) r ok2 pos(1)]])
    next
      case out
      show ?thesis unfolding out(1) by (rule seen2 [OF mark_seen [OF out(2) r ok1 pos(2)]])
    next
      case inside
      have k: "(k, ?is ! k) \<in> set (enumerate 0 ?is)" using inside(1) by (simp add: in_set_enumerate_eq)
      have here: "seen (step (k, ?is ! k) st') r at" if "scan_ok ?n st'" for st'
        using interval_instruction_spec(2,3) [OF pos(3) [OF inside(1)] r _ that] inside by (auto simp: step_def)
      show ?thesis by (rule scan_reaches [OF k _ _ ok3]) (use step_keeps here in auto)
    qed
  qed
  have "segments_of ?st4 = segments_of st"
    using scan_keepsD(2) [OF steps ok3] scan_keepsD(2) [OF mark_register [OF pos(1)] ok2] scan_keepsD(2) [OF mark_register [OF pos(2)] ok1] scan_keepsD(2) [OF mark_register [OF pos(1)] ok0]
    by (simp add: segments_of_def fun_eq_iff)
  then have old: "spans ?st4 r at at' = spans st r at at'" by (simp add: spans_def)
  show "rest_ok ?n (interval_block f la b st)" unfolding run by (rule close_segments_spec(1) [OF ok4])
  show "spans st r at at' \<Longrightarrow> r < ?n \<Longrightarrow> spans (interval_block f la b st) r at at'" unfolding run using close_segments_spec(2) [OF ok4] old by blast
  show "marked f la b r at \<Longrightarrow> marked f la b r at' \<Longrightarrow> spans (interval_block f la b st) r at at'"
    unfolding run using close_segments_spec(3) [OF ok4] all_seen by blast
qed

section \<open>Intervals\<close>

definition interval_scan :: "machine_function \<Rightarrow> liveness_analysis \<Rightarrow> nat \<Rightarrow> interval_state" where
  "interval_scan f la k = fold (interval_block f la) [0..<k] \<lparr>iv_intervals = map (\<lambda>r. \<lparr>li_register = r, li_start = undefined_position, li_end = 0,
     li_use_count = 0, li_spill_weight = 0, li_loop_depth = 0, li_call_crossing_count = 0, li_segments = []\<rparr>) [0..<mf_register_count f],
     iv_first = replicate (mf_register_count f) undefined_position, iv_last = replicate (mf_register_count f) 0, iv_touched = []\<rparr>"

lemma interval_scan_spec:
  assumes "position_count f < undefined_position" "k \<le> length (mf_blocks f)"
  shows "rest_ok (mf_register_count f) (interval_scan f la k) \<and>
    (\<forall>b<k. \<forall>r at at'. marked f la b r at \<longrightarrow> marked f la b r at' \<longrightarrow> spans (interval_scan f la k) r at at')"
  using assms(2)
proof (induction k)
  case 0
  then show ?case by (simp add: interval_scan_def rest_ok_def scan_ok_def)
next
  case (Suc k)
  have next_block: "interval_scan f la (Suc k) = interval_block f la k (interval_scan f la k)" by (simp add: interval_scan_def)
  have IH: "rest_ok (mf_register_count f) (interval_scan f la k)" "\<And>b r at at'. b < k \<Longrightarrow> marked f la b r at \<Longrightarrow> marked f la b r at' \<Longrightarrow> spans (interval_scan f la k) r at at'"
    using Suc by auto
  have k: "k < length (mf_blocks f)" using Suc.prems by simp
  have "spans (interval_scan f la (Suc k)) r at at'" if "b < Suc k" "marked f la b r at" "marked f la b r at'" for b r at at'
  proof (cases "b = k")
    case True
    then show ?thesis using interval_block_spec(3) [OF assms(1) k IH(1)] that by (simp add: next_block)
  next
    case False
    then have "b < k" using that(1) by simp
    then have "spans (interval_scan f la k) r at at'" by (rule IH(2)) (rule that(2,3))+
    moreover have "r < mf_register_count f" using that(2) by (simp add: marked_def)
    ultimately show ?thesis unfolding next_block by (rule interval_block_spec(2) [OF assms(1) k IH(1)])
  qed
  then show ?case using interval_block_spec(1) [OF assms(1) k IH(1)] by (simp add: next_block)
qed

lemma intervals_spec:
  assumes "position_count f < undefined_position" "r < mf_register_count f"
  shows "length (compute_live_intervals f la) = mf_register_count f" "li_register (compute_live_intervals f la ! r) = r"
    "seg \<in> set (li_segments (compute_live_intervals f la ! r)) \<Longrightarrow>
       li_start (compute_live_intervals f la ! r) \<le> ls_start seg \<and> ls_end seg \<le> li_end (compute_live_intervals f la ! r)"
    "b < length (mf_blocks f) \<Longrightarrow> marked f la b r at \<Longrightarrow> marked f la b r at' \<Longrightarrow>
       \<exists>seg\<in>set (li_segments (compute_live_intervals f la ! r)). ls_start seg \<le> at \<and> at' \<le> ls_end seg"
proof -
  let ?st = "interval_scan f la (length (mf_blocks f))" and ?n = "mf_register_count f"
  let ?iv = "iv_intervals ?st ! r"
  have scan: "rest_ok ?n ?st" "\<And>b r at at'. b < length (mf_blocks f) \<Longrightarrow> marked f la b r at \<Longrightarrow> marked f la b r at' \<Longrightarrow> spans ?st r at at'"
    using interval_scan_spec [OF assms(1) order_refl] by auto
  have ivs: "compute_live_intervals f la = map (\<lambda>iv. if li_start iv = undefined_position then iv\<lparr>li_start := 0, li_end := 0\<rparr> else iv) (iv_intervals ?st)"
    by (simp add: compute_live_intervals_def interval_scan_def Let_def)
  have len: "length (iv_intervals ?st) = ?n" using scan(1) by (simp add: rest_ok_def scan_ok_def)
  then show "length (compute_live_intervals f la) = ?n" by (simp add: ivs)
  have at: "compute_live_intervals f la ! r = (if li_start ?iv = undefined_position then ?iv\<lparr>li_start := 0, li_end := 0\<rparr> else ?iv)"
    using len assms(2) by (simp add: ivs)
  have iv: "li_register ?iv = r" "list_all (in_hull ?iv) (li_segments ?iv)"
    using scan_okD(3,4) [OF scan(1) [unfolded rest_ok_def] assms(2)] by simp_all
  then show "li_register (compute_live_intervals f la ! r) = r" by (simp add: at)
  have segs: "li_segments (compute_live_intervals f la ! r) = li_segments ?iv" by (simp add: at)
  show "li_start (compute_live_intervals f la ! r) \<le> ls_start seg \<and> ls_end seg \<le> li_end (compute_live_intervals f la ! r)"
    if "seg \<in> set (li_segments (compute_live_intervals f la ! r))"
  proof -
    have "in_hull ?iv seg" using that iv(2) by (simp add: segs list_all_iff)
    then have "li_start ?iv \<le> ls_start seg" "ls_end seg \<le> li_end ?iv" "li_start ?iv \<noteq> undefined_position" by (auto simp: in_hull_def)
    then show ?thesis by (simp add: at)
  qed
  show "b < length (mf_blocks f) \<Longrightarrow> marked f la b r at \<Longrightarrow> marked f la b r at' \<Longrightarrow>
       \<exists>seg\<in>set (li_segments (compute_live_intervals f la ! r)). ls_start seg \<le> at \<and> at' \<le> ls_end seg"
    using scan(2) unfolding segs spans_def segments_of_def by blast
qed

section \<open>Intervals and liveness\<close>

lemma liveness_boundaries:
  assumes "analyze_liveness f full = Some la" "b < length (mf_blocks f)"
  shows "set (rs_members (la_live_in la ! b)) = path_in f b" "set (rs_members (la_live_out la ! b)) = path_out f b"
proof -
  obtain st where st: "liveness_fixed_point (flow_problem_of f) = Some st" "sizes_ok (flow_problem_of f) st"
      "ins st b = path_in f b \<and> outs st b = path_out f b" using liveness_fixed_point_exact [of f] assms(2) by blast
  then have la: "la_live_in la = lv_in st" "la_live_out la = lv_out st" using assms(1) by (auto simp: analyze_liveness_def Let_def)
  have "rs_ok (lv_in st ! b)" "rs_ok (lv_out st ! b)" using st(2) assms(2) by (auto simp: sizes_ok_def has_size_def)
  then show "set (rs_members (la_live_in la ! b)) = path_in f b" "set (rs_members (la_live_out la ! b)) = path_out f b"
    using st(3) by (simp_all add: la rs_members_spec ins_def outs_def path_in_def path_out_def)
qed

text \<open>A register that may still be read is marked later in the same block, and was marked before.\<close>

lemma marked_later:
  assumes "analyze_liveness f full = Some la" "b < length (mf_blocks f)" "r < mf_register_count f" "may_read f r b k" "k \<le> length (instructions_at f b)"
  shows "\<exists>at. marked f la b r at \<and> block_start f b + int k < at"
  using assms(4,5)
proof (induction "length (instructions_at f b) - k" arbitrary: k)
  case 0
  then have "k = length (instructions_at f b)" by simp
  moreover from this have "r \<in> path_out f b" using 0 assms(3) by (simp add: path_out_def)
  ultimately show ?case using liveness_boundaries(2) [OF assms(1,2)] assms(3) by (auto simp: marked_def)
next
  case (Suc n)
  then have k: "k < length (instructions_at f b)" by simp
  show ?case
  proof (cases "r \<in> set (instruction_uses (instructions_at f b ! k))")
    case True
    then have "marked f la b r (block_start f b + 1 + int k)" using k assms(3) by (auto simp: marked_def)
    then show ?thesis by (intro exI [of _ "block_start f b + 1 + int k"]) simp
  next
    case False
    then have "may_read f r b (Suc k)" using Suc.prems k by (auto elim: may_read.cases)
    then have "\<exists>at. marked f la b r at \<and> block_start f b + int (Suc k) < at" by (intro Suc.hyps) (use Suc.hyps(2) k in auto)
    then show ?thesis by (auto intro: exI)
  qed
qed

lemma marked_before:
  assumes "analyze_liveness f full = Some la" "b < length (mf_blocks f)" "r < mf_register_count f" "may_read f r b k" "k \<le> length (instructions_at f b)"
  shows "\<exists>at. marked f la b r at \<and> at \<le> block_start f b + int k"
  using assms(5,4)
proof (induction k)
  case 0
  then have "r \<in> set (mb_parameters (mf_blocks f ! b)) \<or> r \<in> path_in f b" using assms(3) by (auto simp: path_in_def)
  then show ?case using liveness_boundaries(1) [OF assms(1,2)] assms(3) by (auto simp: marked_def)
next
  case (Suc k)
  then have k: "k < length (instructions_at f b)" by simp
  show ?case
  proof (cases "writes_to (instructions_at f b ! k) r")
    case True
    then have "marked f la b r (block_start f b + 1 + int k)" using k assms(3) by (auto simp: marked_def)
    then show ?thesis by (intro exI [of _ "block_start f b + 1 + int k"]) simp
  next
    case False
    then have "may_read f r b k" using Suc.prems k by (auto intro: may_read.passes)
    then obtain at where "marked f la b r at" "at \<le> block_start f b + int k" using Suc.IH k by auto
    then show ?thesis by (intro exI [of _ at]) simp
  qed
qed

lemma live_in_segment:
  assumes "analyze_liveness f full = Some la" "position_count f < undefined_position" "b < length (mf_blocks f)" "r < mf_register_count f"
    "may_read f r b k" "k \<le> length (instructions_at f b)"
  shows "\<exists>seg\<in>set (li_segments (compute_live_intervals f la ! r)). ls_start seg \<le> block_start f b + int k \<and> block_start f b + int k < ls_end seg \<and>
    li_start (compute_live_intervals f la ! r) \<le> ls_start seg \<and> ls_end seg \<le> li_end (compute_live_intervals f la ! r)"
proof -
  obtain at at' where "marked f la b r at" "at \<le> block_start f b + int k" "marked f la b r at'" "block_start f b + int k < at'"
    using marked_before [OF assms(1,3-6)] marked_later [OF assms(1,3-6)] by blast
  then obtain seg where "seg \<in> set (li_segments (compute_live_intervals f la ! r))" "ls_start seg \<le> block_start f b + int k" "block_start f b + int k < ls_end seg"
    using intervals_spec(4) [OF assms(2,4,3), of la at at'] by auto
  then show ?thesis using intervals_spec(3) [OF assms(2,4), of seg la] by blast
qed

text \<open>
  C40. Live intervals cover liveness: in a function with fewer than \<open>2 ^ 32 - 1\<close> positions, wherever some path may still read a register (before
  instruction \<open>k\<close> of a block, or at its end), one segment of the interval of the register starts at or before this point and ends
  strictly behind it, and the interval spans the segment.
\<close>

theorem intervals_cover_liveness:
  assumes "position_count f < undefined_position" "b < length (mf_blocks f)" "r < mf_register_count f"
    "may_read f r b k" "k \<le> length (instructions_at f b)"
  shows "\<exists>la. analyze_liveness f False = Some la \<and> (\<exists>seg\<in>set (li_segments (compute_live_intervals f la ! r)).
    ls_start seg \<le> block_start f b + int k \<and> block_start f b + int k < ls_end seg \<and>
    li_start (compute_live_intervals f la ! r) \<le> ls_start seg \<and> ls_end seg \<le> li_end (compute_live_intervals f la ! r))"
proof -
  obtain la where la: "analyze_liveness f False = Some la"
    using liveness_fixed_point_exact [of f] by (auto simp: analyze_liveness_def Let_def)
  then show ?thesis using live_in_segment [OF la assms] by blast
qed

end
