(* ===== verification/Machine_Witnesses.thy ===== *)
theory Machine_Witnesses
  imports Interval_Props
begin

text \<open>
  A counting loop with a call, and the liveness and interval theorems applied to it.
\<close>

definition edge_to :: "string \<Rightarrow> nat list \<Rightarrow> machine_successor" where
  "edge_to b xs = \<lparr>su_block = b, su_arguments = xs\<rparr>"

definition counting_loop :: machine_function where
  "counting_loop = (machine_function_init ''count'')\<lparr>mf_register_count := 5, mf_register_widths := replicate 5 4,
     mf_register_classes := replicate 5 RC_integer, mf_blocks :=
     [\<lparr>mb_name = ''entry'', mb_parameters = [], mb_instructions =
        [instruction_init ''load_immediate'' 0 [], (instruction_init ''jump'' 0 [])\<lparr>mi_successors := [edge_to ''header'' [0]]\<rparr>]\<rparr>,
      \<lparr>mb_name = ''header'', mb_parameters = [1], mb_instructions =
        [instruction_init ''call_void'' 0 [], (instruction_init ''cmp_lt_i32'' 2 [1])\<lparr>mi_symbol := ''$imm'', mi_immediate := 10\<rparr>,
         (instruction_init ''branch_i1'' 0 [2])\<lparr>mi_successors := [edge_to ''body'' [1], edge_to ''exit'' []]\<rparr>]\<rparr>,
      \<lparr>mb_name = ''body'', mb_parameters = [3], mb_instructions =
        [(instruction_init ''add_i32'' 4 [3])\<lparr>mi_symbol := ''$imm'', mi_immediate := 1\<rparr>,
         (instruction_init ''jump'' 0 [])\<lparr>mi_successors := [edge_to ''header'' [4]]\<rparr>]\<rparr>,
      \<lparr>mb_name = ''exit'', mb_parameters = [], mb_instructions = [instruction_init ''return_void'' 0 []]\<rparr>]\<rparr>"

lemma counting_loop_parts:
  "length (mf_blocks counting_loop) = 4" "mf_register_count counting_loop = 5" "position_count counting_loop = 12"
  "length (instructions_at counting_loop 1) = 3" "instruction_uses (instructions_at counting_loop 1 ! 1) = [1]"
  "mi_result (instructions_at counting_loop 1 ! 0) = 0"
  by code_simp+

text \<open>The counter, register 1, is read behind the call.\<close>

lemma counter_read: "may_read counting_loop 1 1 1" "may_read counting_loop 1 1 0"
proof -
  show *: "may_read counting_loop 1 1 1" by (rule may_read.reads; subst counting_loop_parts; simp)
  have "\<not> writes_to (instructions_at counting_loop 1 ! 0) 1" unfolding writes_to_def counting_loop_parts(6) by simp
  moreover have "0 < length (instructions_at counting_loop 1)" by (subst counting_loop_parts; simp)
  ultimately show "may_read counting_loop 1 1 0" using may_read.passes [of 0 counting_loop 1 1] * by simp
qed

theorem analyze_liveness_exact_witness:
  "\<exists>la. analyze_liveness counting_loop True = Some la \<and> 1 \<in> set_of (la_live_after la ! 1 ! 0)"
proof -
  obtain la where la: "analyze_liveness counting_loop True = Some la" and "\<forall>b<length (mf_blocks counting_loop). \<forall>k<length (instructions_at counting_loop b).
      set_of (la_live_after la ! b ! k) = {r. r < mf_register_count counting_loop \<and> may_read counting_loop r b (Suc k)}"
    using analyze_liveness_exact [of counting_loop] by blast
  moreover have "1 < length (mf_blocks counting_loop)" "0 < length (instructions_at counting_loop 1)" "1 < mf_register_count counting_loop"
    by (subst counting_loop_parts; simp)+
  ultimately have "set_of (la_live_after la ! 1 ! 0) = {r. r < mf_register_count counting_loop \<and> may_read counting_loop r 1 (Suc 0)}"
    "1 < mf_register_count counting_loop" by blast+
  then have "1 \<in> set_of (la_live_after la ! 1 ! 0)" using counter_read(1) by simp
  then show ?thesis using la by blast
qed

theorem intervals_cover_liveness_witness:
  "\<exists>la. analyze_liveness counting_loop False = Some la \<and> (\<exists>seg\<in>set (li_segments (compute_live_intervals counting_loop la ! 1)).
     ls_start seg \<le> block_start counting_loop 1 \<and> block_start counting_loop 1 < ls_end seg)"
  using intervals_cover_liveness [of counting_loop 1 1 0] counter_read(2) by (auto simp: counting_loop_parts undefined_position_def)

end
