(* ===== verification/Spec2Isabelle.thy ===== *)
theory Spec2Isabelle
  imports Data_Layout_Props Binary_Format_Props Interp_Witnesses Raz_Render_Props Raz_Lexer_Props Flow_Repair Alias_Props Loop_Props Accepted_Witnesses Text_Total Text_Module_Props
    Allocation_Stages Machine_Witnesses
begin

text \<open>
  Verification of the Raz tool chain: the parts of the compiler that read source text and report on it
  (\<open>src/bootstrap/compiler\<close>), and Forge, the compiler back end (\<open>src/forge\<close>), from its intermediate representation (IR) to register
  allocation. Paths below are relative to \<open>src/\<close> of the repository.

  \<^bold>\<open>The program.\<close> The Raz compiler lexes a file, parses and checks it, and hands a Forge module on. Forge keeps the module in memory
  (\<open>forge/include/forge/ir/module.hpp\<close>), writes and reads it as text and as bytes, verifies it, rewrites it by passes that ask cached
  analyses, interprets it, and lowers it to a machine IR over virtual registers, for which it computes liveness and
  assigns registers before code is encoded. The theories follow these stages, and the theorems that span several of them are about
  their composition: what the verifier accepts runs without reading undefined values, and may be folded.

  \<^bold>\<open>Conventions.\<close> Definitions are named after the functions of the source and composed as the source composes them. Integers of fixed
  width are words where overflow can be reached; the texts of the theories say where a natural number stands for a
  size or an index that is bounded by memory. A failure is a value: \<open>Inl\<close> of a fault or a message, \<open>None\<close> of an option, a list of diagnostics.
  What is not in the repository or has no definite result in C++ is a parameter: the host's functions, memory addresses and floating-point
  arithmetic, the order of hash containers and of an unstable sort, the file system and the terminal.

  \<^bold>\<open>Forge IR.\<close> \<open>Forge_Prelude\<close> holds the words, the pieces of the C++ library and lemmas shared by all. \<open>IR_Module\<close> is the data model
  (\<open>ir/module.hpp\<close>, \<open>ir/type.hpp\<close>, \<open>ir/opcode.hpp\<close>). \<open>Data_Layout\<close> (\<open>platform/data_layout.cpp\<close>) lays out structures and arrays;
  \<open>Data_Layout_Props\<close> shows that its 64-bit arithmetic computes the layout rule on naturals, that layouts are aligned and
  disjoint, that one is found when there is room, and that aggregates that contain themselves are refused.

  \<^bold>\<open>Formats.\<close> \<open>Binary_Format\<close> (\<open>ir/binary.cpp\<close>) with \<open>Binary_Format_Props\<close>: the round trip of the container through the locale \<open>codec\<close>,
  the checksum, truncation, and the limits on which writer and reader differ. \<open>Text_Lexer\<close>, \<open>Text_Parser\<close>, \<open>Text_Module\<close> and \<open>Text_Printer\<close>
  (\<open>ir/lexer.cpp\<close>, \<open>ir/parser.cpp\<close>, \<open>ir/printer.cpp\<close>): \<open>Text_Total\<close> shows that parsing always returns; \<open>Text_Scan\<close>, \<open>Text_Ranges\<close>,
  \<open>Text_Declared\<close>, \<open>Text_Operations\<close>, \<open>Text_Roundtrip\<close> and \<open>Text_Module_Props\<close> show that a printed module parses back as the same module. A loop
  of the parser has as much fuel as there are tokens and one more; each turn uses a token up, so the fuel lasts.

  \<^bold>\<open>Interpreter.\<close> \<open>Interp_State\<close> and \<open>Interpreter\<close> (\<open>interpreter/interpreter.cpp\<close>) model the engine with every opcode. The locales of
  \<open>Interp_Contract\<close> prove once what evaluating any operation keeps; their interpretations give memory safety and the constancy of constant
  globals (\<open>Interp_Memory\<close>) and the step limit (\<open>Interp_Limits\<close>). The block loop has fuel for two more turns than the step limit
  allows, and \<open>Interp_Limits\<close> shows that it is never used up. \<open>Interp_Ops\<close> is about integer arithmetic, loads and stores,
  \<open>Interp_Agree\<close> and \<open>Interp_Monotone\<close> about the dependence on limits, \<open>Interp_Witnesses\<close> runs a program.

  \<^bold>\<open>Verifier, analyses and passes.\<close> \<open>Verifier_Decls\<close>, \<open>Verifier_Flow\<close>, \<open>Verifier_Ops\<close> and \<open>Verifier\<close> (\<open>ir/verifier.cpp\<close>); \<open>Verifier_Props\<close> has its loops and
  what acceptance means. \<open>Function_Analysis\<close> (\<open>analysis/function_analysis.cpp\<close>): \<open>Flow_Graph\<close> shows graph and dominators exact,
  \<open>Flow_Repair\<close> what local repair keeps and that it can fail to return, \<open>Loop_Props\<close>, \<open>Use_Def_Props\<close> and \<open>Alias_Props\<close> the other analyses. \<open>Scalar_Passes\<close>
  (\<open>transforms/scalar.cpp\<close>) and \<open>Pass_Manager\<close> (\<open>pass/pass.cpp\<close>, \<open>pass/pipeline.cpp\<close>); \<open>Pass_Simulation\<close> is the contract of a pass that
  rewrites operation by operation, a locale that \<open>Fold_Props\<close> interprets on constant and branch folding. \<open>Accepted_Folding\<close>, \<open>Accepted_Reads\<close> and
  \<open>Accepted_Witnesses\<close> join verifier, pass manager and interpreter. Loops of the verifier and of the analyses are
  \<open>partial_function (option)\<close> or \<open>while_option\<close>, so that a loop without end has the value \<open>None\<close>; where the code's loops end this is
  a theorem, and two that may not end are shown by example.

  \<^bold>\<open>Machine IR.\<close> \<open>Machine_IR\<close> (\<open>machine/module.hpp\<close>), \<open>Register_Set\<close> and \<open>Liveness\<close> (\<open>machine/liveness.hpp\<close>, \<open>machine/liveness.cpp\<close>): the bit sets refine
  finite sets, and the worklist ends with exactly the registers some path reads first (\<open>Liveness_Props\<close>). \<open>Live_Intervals\<close>, \<open>Linear_Scan\<close> and
  \<open>Allocation_Stages\<close> (\<open>machine/register_allocation.cpp\<close>) are \<open>allocate_linear_scan\<close>; \<open>Interval_Props\<close> shows that intervals cover liveness,
  \<open>Machine_Witnesses\<close> applies the theorems to a loop.

  \<^bold>\<open>Raz front end.\<close> \<open>Raz_Source\<close> (\<open>compiler/source\<close> and the recording of diagnostics), \<open>Raz_Render\<close> (\<open>compiler/diagnostics\<close>) and \<open>Raz_Lexer\<close>
  (\<open>compiler/lexer\<close>). \<open>Raz_Source_Props\<close> relates lines, columns and UTF-16 positions to the text, \<open>Raz_Render_Props\<close> shows that reports are JSON of
  exactly the diagnostics, read back by a JSON reader of its own, and \<open>Raz_Lexer_Props\<close> that tokens cover the file, are longest matches, and
  that only well-formed text passes silently; where the lexer differs from docs/LANGUAGE-SPECIFICATION.md, the theorem says so.

  \<^bold>\<open>Not modelled.\<close> Of \<open>transforms/scalar.cpp\<close>: algebraic simplification, common subexpressions, sparse conditional constants and the loop, memory and
  merge-parameter passes. Of \<open>machine/register_allocation.cpp\<close>: the splitting of live ranges around calls, which rewrites the
  function beforehand; of \<open>machine/module.cpp\<close>: the printer and the counters of passes. Machine lowering, optimisation and verification and the encoders,
  because their correctness needs the semantics of the instruction sets. The argument classification of the target ABI. Object files, archives, the JIT,
  the C interface and \<open>oblink\<close>: byte layouts of external formats and host services. The Raz parser, semantic analysis, HIR, MIR and
  driver, the stages between the modelled lexer and the modelled IR, and \<open>runtime\<close>, which is the host's memory, files, network and threads.
  The order in which these appear is the order in which the development would grow.
\<close>

end
